(* ===== verification/Py_Prelude.thy ===== *)
theory Py_Prelude
  imports Complex_Main "HOL-Library.AList" "HOL-Library.List_Lexorder"
    "HOL-Library.Char_ord" "HOL-Library.Product_Lexorder" "HOL-Library.Multiset"
begin

text \<open>
  The vocabulary every component shares: Python's exceptions and the outcome of a method
  call, insertion-ordered dictionaries, \<open>dict.fromkeys\<close> deduplication, zero-padded
  identifiers, and the three locales that state what a client may rely on when it drives a
  stateful component through a list of operations (an invariant, causal time, atomicity).
\<close>

named_theorems dict_rules "lookup and key rules of the insertion-ordered dictionaries"

text \<open>Dictionaries are reasoned about through their lookups, keys stay opaque.\<close>

declare map_of_eq_Some_iff [simp del] Some_eq_map_of_iff [simp del]
  split_paired_All [simp del] split_paired_Ex [simp del]

section \<open>Exceptions and outcomes\<close>

text \<open>
  A method either returns a value or raises; in both cases the object it was called on may
  have changed, so both constructors carry the object's state afterwards.
\<close>

datatype py_error =
    ValueError string
  | KeyError
  | IndexError
  | AssertionError
  | StopIteration
  | ZeroDivisionError
  | InvalidOperation

datatype ('a, 's) outcome = Return 'a 's | Raise py_error 's

fun post_state :: "('a, 's) outcome \<Rightarrow> 's" where
  "post_state (Return r s) = s"
| "post_state (Raise e s) = s"

fun and_then :: "('a, 's) outcome \<Rightarrow> ('a \<Rightarrow> 's \<Rightarrow> ('b, 's) outcome) \<Rightarrow> ('b, 's) outcome" where
  "and_then (Return r s) k = k r s"
| "and_then (Raise e s) k = Raise e s"

lemma and_then_Return [simp]:
  "and_then m k = Return r s' \<longleftrightarrow> (\<exists>x s. m = Return x s \<and> k x s = Return r s')"
  by (cases m) auto

lemma and_then_Raise:
  "and_then m k = Raise e s' \<longleftrightarrow>
     m = Raise e s' \<or> (\<exists>x s. m = Return x s \<and> k x s = Raise e s')"
  by (cases m) auto

lemma and_then_eq_Raise:
  "and_then m k = Raise e s' \<Longrightarrow> (m = Raise e s' \<or> (\<exists>x s. m = Return x s \<and> k x s = Raise e s'))"
  by (simp add: and_then_Raise)

definition returning :: "('a \<Rightarrow> 'b) \<Rightarrow> ('a, 's) outcome \<Rightarrow> ('b, 's) outcome" where
  "returning f m = and_then m (\<lambda>r s. Return (f r) s)"

lemma returning_simps [simp]:
  "returning f m = Return y s \<longleftrightarrow> (\<exists>x. m = Return x s \<and> y = f x)"
  "returning f m = Raise e s \<longleftrightarrow> m = Raise e s"
  by (cases m; auto simp: returning_def)+

text \<open>What holds of the state of a call and survives the rest holds of the state of the whole.\<close>

lemma and_then_post:
  "Q (post_state m) \<Longrightarrow> (\<And>x s. m = Return x s \<Longrightarrow> Q s \<Longrightarrow> Q (post_state (k x s))) \<Longrightarrow> Q (post_state (and_then m k))"
  by (cases m) simp_all

text \<open>An exception of an expression is raised before the statement has an effect.\<close>

definition raising :: "py_error + 'a \<Rightarrow> 's \<Rightarrow> ('a \<Rightarrow> ('b, 's) outcome) \<Rightarrow> ('b, 's) outcome" where
  "raising m s k = (case m of Inl e \<Rightarrow> Raise e s | Inr x \<Rightarrow> k x)"

lemma raising_post: "Q s \<Longrightarrow> (\<And>x. m = Inr x \<Longrightarrow> Q (post_state (k x))) \<Longrightarrow> Q (post_state (raising m s k))"
  by (cases m) (simp_all add: raising_def)

lemma raising_Return [simp]: "raising m s k = Return r s' \<longleftrightarrow> (\<exists>x. m = Inr x \<and> k x = Return r s')"
  by (cases m) (simp_all add: raising_def)

section \<open>Results of fallible expressions\<close>

text \<open>The exception of the first expression wins, as in the evaluation of nested calls.\<close>

definition on_ok :: "py_error + 'a \<Rightarrow> ('a \<Rightarrow> py_error + 'b) \<Rightarrow> py_error + 'b" where
  "on_ok m k = (case m of Inl e \<Rightarrow> Inl e | Inr x \<Rightarrow> k x)"

lemma on_ok_simps [simp]: "on_ok (Inl e) k = Inl e" "on_ok (Inr x) k = k x"
  by (simp_all add: on_ok_def)

lemma on_ok_Inr: "on_ok m k = Inr y \<longleftrightarrow> (\<exists>x. m = Inr x \<and> k x = Inr y)"
  by (cases m) simp_all

text \<open>A list comprehension whose element expression may raise: the first exception wins.\<close>

primrec traverse :: "('a \<Rightarrow> py_error + 'b) \<Rightarrow> 'a list \<Rightarrow> py_error + 'b list" where
  "traverse f [] = Inr []"
| "traverse f (x # xs) =
     (case f x of
        Inl e \<Rightarrow> Inl e
      | Inr y \<Rightarrow> (case traverse f xs of Inl e \<Rightarrow> Inl e | Inr ys \<Rightarrow> Inr (y # ys)))"

lemma traverse_Cons_Inr:
  "traverse f (x # xs) = Inr zs \<longleftrightarrow> (\<exists>y ys. f x = Inr y \<and> traverse f xs = Inr ys \<and> zs = y # ys)"
  by (auto split: sum.splits)

lemma traverse_length: "traverse f xs = Inr ys \<Longrightarrow> length ys = length xs"
  by (induction xs arbitrary: ys) (auto split: sum.splits)

lemma traverse_zip: "traverse f xs = Inr ys \<Longrightarrow> (x, y) \<in> set (zip xs ys) \<Longrightarrow> f x = Inr y"
  by (induction xs arbitrary: ys) (auto split: sum.splits)

lemma traverse_origin: "traverse f xs = Inr ys \<Longrightarrow> y \<in> set ys \<Longrightarrow> \<exists>x \<in> set xs. f x = Inr y"
  by (induction xs arbitrary: ys) (auto split: sum.splits)

lemma traverse_Inr: "(\<And>x. x \<in> set xs \<Longrightarrow> f x = Inr (g x)) \<Longrightarrow> traverse f xs = Inr (map g xs)"
  by (induction xs) simp_all

section \<open>Insertion-ordered dictionaries\<close>

text \<open>
  A Python \<^verbatim>\<open>dict\<close> iterates in insertion order, and storing to a key it
  already holds keeps that key's place. An association list with distinct keys and
  \<^const>\<open>AList.update\<close> behaves the same way; the order matters because sums of
  decimals are rounded at every addition.
\<close>

type_synonym ('k, 'v) dict = "('k \<times> 'v) list"

definition dict_set :: "'k \<Rightarrow> 'v \<Rightarrow> ('k, 'v) dict \<Rightarrow> ('k, 'v) dict" where
  "dict_set k v d = AList.update k v d"

definition dict_del :: "'k \<Rightarrow> ('k, 'v) dict \<Rightarrow> ('k, 'v) dict" where
  "dict_del k d = filter (\<lambda>p. fst p \<noteq> k) d"

abbreviation dict_get :: "('k, 'v) dict \<Rightarrow> 'k \<Rightarrow> 'v option" where
  "dict_get d k \<equiv> map_of d k"

abbreviation keys :: "('k, 'v) dict \<Rightarrow> 'k list" where
  "keys d \<equiv> map fst d"

abbreviation dict_values :: "('k, 'v) dict \<Rightarrow> 'v list" where
  "dict_values d \<equiv> map snd d"

definition has_key :: "('k, 'v) dict \<Rightarrow> 'k \<Rightarrow> bool" where
  "has_key d k \<longleftrightarrow> k \<in> set (keys d)"

definition get_or :: "('k, 'v) dict \<Rightarrow> 'k \<Rightarrow> 'v \<Rightarrow> 'v" where
  "get_or d k v = (case dict_get d k of None \<Rightarrow> v | Some x \<Rightarrow> x)"

definition map_values :: "('v \<Rightarrow> 'w) \<Rightarrow> ('k, 'v) dict \<Rightarrow> ('k, 'w) dict" where
  "map_values f d = map (\<lambda>(k, v). (k, f v)) d"

lemma has_key_iff [dict_rules]: "has_key d k \<longleftrightarrow> dict_get d k \<noteq> None"
  by (simp add: has_key_def map_of_eq_None_iff)

lemma get_set [simp, dict_rules]:
  "dict_get (dict_set k v d) k' = (if k' = k then Some v else dict_get d k')"
  by (simp add: dict_set_def update_conv)

lemma get_del [simp, dict_rules]:
  "dict_get (dict_del k d) k' = (if k' = k then None else dict_get d k')"
  by (induction d) (auto simp: dict_del_def)

lemma get_map_values [simp, dict_rules]:
  "dict_get (map_values f d) k = map_option f (dict_get d k)"
  by (induction d) (auto simp: map_values_def)

lemma keys_set_set [simp]: "set (keys (dict_set k v d)) = insert k (set (keys d))"
  by (simp add: dict_set_def dom_update)

lemma keys_set:
  "keys (dict_set k v d) = (if k \<in> set (keys d) then keys d else keys d @ [k])"
  by (simp add: dict_set_def update_keys)

lemma keys_del_set [simp]: "set (keys (dict_del k d)) = set (keys d) - {k}"
  by (auto simp: dict_del_def)

lemma fst_image_set [simp]: "fst ` set (dict_set k v d) = insert k (fst ` set d)"
  by (simp add: dict_set_def dom_update)

lemma fst_image_del [simp]: "fst ` set (dict_del k d) = fst ` set d - {k}"
  by (auto simp: dict_del_def)

lemma keys_map_values [simp]: "keys (map_values f d) = keys d"
  by (simp add: map_values_def case_prod_beta comp_def)

lemma distinct_keys_set [simp]: "distinct (keys d) \<Longrightarrow> distinct (keys (dict_set k v d))"
  by (simp add: keys_set)

lemma distinct_keys_del [simp]: "distinct (keys d) \<Longrightarrow> distinct (keys (dict_del k d))"
  by (simp add: dict_del_def distinct_map_filter)

lemma values_set_subset: "set (dict_values (dict_set k v d)) \<subseteq> insert v (set (dict_values d))"
  by (induction d) (auto simp: dict_set_def split: if_splits)

lemma values_del_subset: "set (dict_values (dict_del k d)) \<subseteq> set (dict_values d)"
  by (auto simp: dict_del_def)

lemma ball_values_set:
  "\<forall>x \<in> set (dict_values d). P x \<Longrightarrow> P v \<Longrightarrow> \<forall>x \<in> set (dict_values (dict_set k v d)). P x"
  using values_set_subset [of k v d] by blast

lemma ball_values_del:
  "\<forall>x \<in> set (dict_values d). P x \<Longrightarrow> \<forall>x \<in> set (dict_values (dict_del k d)). P x"
  using values_del_subset [of k d] by blast

lemma get_in_values: "dict_get d k = Some v \<Longrightarrow> v \<in> set (dict_values d)"
  by (force dest: map_of_SomeD)

lemma get_in_keys: "dict_get d k = Some v \<Longrightarrow> k \<in> set (keys d)"
  by (force dest: map_of_SomeD)

lemma value_has_key: "distinct (keys d) \<Longrightarrow> v \<in> set (dict_values d) \<Longrightarrow> \<exists>k. dict_get d k = Some v"
  by (fastforce simp: map_of_eq_Some_iff)

lemma set_new_key: "k \<notin> set (keys d) \<Longrightarrow> dict_set k v d = d @ [(k, v)]"
  unfolding dict_set_def by (induction d) auto

lemma del_absent: "k \<notin> set (keys d) \<Longrightarrow> dict_del k d = d"
  by (induction d) (auto simp: dict_del_def)

lemma dict_set_twice [simp]: "dict_set k v (dict_set k w d) = dict_set k v d"
  unfolding dict_set_def by (induction d) auto

lemma dict_del_set: "dict_get d k = None \<Longrightarrow> dict_del k (dict_set k v d) = d"
  using del_absent [of k d] set_new_key [of k d v] by (simp add: map_of_eq_None_iff dict_del_def)

lemma sum_list_set:
  fixes f :: "'v \<Rightarrow> 'a::ab_group_add"
  assumes "dict_get d k = Some w"
  shows "sum_list (map f (dict_values (dict_set k v d))) =
         sum_list (map f (dict_values d)) - f w + f v"
  using assms unfolding dict_set_def by (induction d) (auto split: if_splits)

lemma sum_list_new:
  fixes f :: "'v \<Rightarrow> 'a::ab_group_add"
  assumes "dict_get d k = None"
  shows "sum_list (map f (dict_values (dict_set k v d))) =
         sum_list (map f (dict_values d)) + f v"
  using assms unfolding dict_set_def by (induction d) (auto split: if_splits)

lemma sum_list_del:
  fixes f :: "'v \<Rightarrow> 'a::ab_group_add"
  assumes "dict_get d k = Some w" and "distinct (keys d)"
  shows "sum_list (map f (dict_values (dict_del k d))) =
         sum_list (map f (dict_values d)) - f w"
  using assms
proof (induction d)
  case (Cons p d)
  show ?case
  proof (cases "fst p = k")
    case True
    with Cons.prems have "k \<notin> set (keys d)" by auto
    then have "dict_del k (p # d) = d" using True del_absent [of k d] by (simp add: dict_del_def)
    then show ?thesis using Cons.prems True by (cases p) auto
  next
    case False
    with Cons show ?thesis by (cases p) (auto simp: dict_del_def)
  qed
qed simp

section \<open>Stable sorting\<close>

lemma distinct_map_sort: "distinct (map f (sort_key k xs)) = distinct (map f xs)"
  by (metis mset_eq_imp_distinct_iff mset_map mset_sort)

lemma sort_key_sorted: "sorted (map f xs) \<Longrightarrow> sort_key f xs = xs"
  by (induction xs) (auto simp: insort_is_Cons)

section \<open>Ordered deduplication\<close>

text \<open>\<^verbatim>\<open>tuple(dict.fromkeys(xs))\<close> keeps the first occurrence of every element.\<close>

definition fromkeys :: "'a list \<Rightarrow> 'a list" where
  "fromkeys xs = rev (remdups (rev xs))"

lemma set_fromkeys [simp]: "set (fromkeys xs) = set xs"
  by (simp add: fromkeys_def)

lemma distinct_fromkeys [simp]: "distinct (fromkeys xs)"
  by (simp add: fromkeys_def)

lemma fromkeys_distinct: "distinct xs \<Longrightarrow> fromkeys xs = xs"
  by (simp add: fromkeys_def distinct_remdups_id)

lemma fromkeys_eq_Nil [simp]: "fromkeys xs = [] \<longleftrightarrow> xs = []"
  by (simp add: fromkeys_def)

section \<open>Zero-padded identifiers\<close>

text \<open>The format specification \<^verbatim>\<open>{n:06d}\<close> for a non-negative counter.\<close>

fun dec_string :: "nat \<Rightarrow> string" where
  "dec_string n = (if n < 10 then [''0123456789'' ! n]
                   else dec_string (n div 10) @ [''0123456789'' ! (n mod 10)])"

declare dec_string.simps [simp del]

definition zero_pad :: "nat \<Rightarrow> nat \<Rightarrow> string" where
  "zero_pad w n = replicate (w - length (dec_string n)) (CHR ''0'') @ dec_string n"

definition digit_value :: "char \<Rightarrow> nat" where
  "digit_value c = of_char c - 48"

definition undec :: "string \<Rightarrow> nat" where
  "undec s = foldl (\<lambda>a c. 10 * a + digit_value c) 0 s"

lemma digit_value_digit: "n < 10 \<Longrightarrow> digit_value (''0123456789'' ! n) = n"
proof -
  have "\<forall>n \<in> set [0..<10]. digit_value (''0123456789'' ! n) = n"
    by (simp add: digit_value_def upt_rec)
  then show "n < 10 \<Longrightarrow> ?thesis" by simp
qed

lemma undec_dec_string: "undec (dec_string n) = n"
proof (induction n rule: dec_string.induct)
  case (1 n)
  show ?case
  proof (cases "n < 10")
    case True
    then show ?thesis
      by (simp add: dec_string.simps [of n] undec_def digit_value_digit del: nth_Cons_numeral)
  next
    case False
    then have "undec (dec_string n) = 10 * undec (dec_string (n div 10)) + n mod 10"
      by (simp add: dec_string.simps [of n] undec_def digit_value_digit)
    also have "\<dots> = n" using 1 False by simp
    finally show ?thesis .
  qed
qed

lemma undec_zero_pad: "undec (zero_pad w n) = n"
proof -
  have "foldl (\<lambda>a c. 10 * a + digit_value c) 0 (replicate k (CHR ''0'')) = 0" for k
    by (induction k) (simp_all add: digit_value_def)
  then show ?thesis using undec_dec_string [of n] by (simp add: zero_pad_def undec_def)
qed

lemma zero_pad_inject [simp]: "zero_pad w m = zero_pad w n \<longleftrightarrow> m = n"
  by (metis undec_zero_pad)

section \<open>Driving a component through a list of operations\<close>

text \<open>
  \<open>run_ops\<close> stops at the first exception, as a caller that does not catch it would;
  \<open>drive_ops\<close> is a caller that catches every exception and goes on with the object as
  the failed call left it.
\<close>

fun run_ops :: "('op \<Rightarrow> 's \<Rightarrow> ('r, 's) outcome) \<Rightarrow> 'op list \<Rightarrow> 's \<Rightarrow> ('r list, 's) outcome" where
  "run_ops exec [] s = Return [] s"
| "run_ops exec (op # ops) s =
     and_then (exec op s) (\<lambda>r s'. and_then (run_ops exec ops s') (\<lambda>rs s''. Return (r # rs) s''))"

fun drive_ops :: "('op \<Rightarrow> 's \<Rightarrow> ('r, 's) outcome) \<Rightarrow> 'op list \<Rightarrow> 's \<Rightarrow> 's" where
  "drive_ops exec [] s = s"
| "drive_ops exec (op # ops) s = drive_ops exec ops (post_state (exec op s))"

lemma run_ops_append:
  "run_ops exec (xs @ ys) s = Return rs s' \<Longrightarrow>
     \<exists>qs rs' s1. run_ops exec xs s = Return qs s1 \<and> run_ops exec ys s1 = Return rs' s'"
proof (induction xs arbitrary: s rs)
  case (Cons x xs)
  then obtain r s1 rs1 where x: "exec x s = Return r s1" "run_ops exec (xs @ ys) s1 = Return rs1 s'" by auto
  from Cons.IH [OF x(2)] show ?case using x(1) by auto
qed simp

lemma run_ops_cong: "(\<And>op s. op \<in> set ops \<Longrightarrow> exec op s = exec' op s) \<Longrightarrow> run_ops exec ops s = run_ops exec' ops s"
proof (induction ops arbitrary: s)
  case (Cons op ops)
  then show ?case by (cases "exec' op s") simp_all
qed simp

lemma run_drive: "run_ops exec ops s = Return rs s' \<Longrightarrow> drive_ops exec ops s = s'"
  by (induction ops arbitrary: s rs) auto

lemma run_ops_length: "run_ops exec ops s = Return rs s' \<Longrightarrow> length rs = length ops"
  by (induction ops arbitrary: s rs) auto

lemma run_ops_snoc:
  "run_ops exec ops s = Return rs s' \<Longrightarrow>
     run_ops exec (ops @ [op]) s =
       (case exec op s' of Return r s'' \<Rightarrow> Return (rs @ [r]) s'' | Raise e s'' \<Rightarrow> Raise e s'')"
  by (induction ops arbitrary: s rs) (auto split: outcome.splits)

locale invariant_ops =
  fixes exec :: "'op \<Rightarrow> 's \<Rightarrow> ('r, 's) outcome"
    and inv :: "'s \<Rightarrow> bool"
  assumes inv_return: "inv s \<Longrightarrow> exec op s = Return r s' \<Longrightarrow> inv s'"
begin

lemma run_inv: "inv s \<Longrightarrow> run_ops exec ops s = Return rs s' \<Longrightarrow> inv s'"
  by (induction ops arbitrary: s rs) (auto dest: inv_return)

end

locale causal_ops = invariant_ops exec inv
  for exec :: "'op \<Rightarrow> 's \<Rightarrow> ('r, 's) outcome" and inv :: "'s \<Rightarrow> bool" +
  fixes clock :: "'s \<Rightarrow> int"
    and time_of :: "'op \<Rightarrow> int"
  assumes causal_return:
    "inv s \<Longrightarrow> exec op s = Return r s' \<Longrightarrow> clock s \<le> time_of op \<and> clock s' = time_of op"
begin

lemma run_times:
  "inv s \<Longrightarrow> run_ops exec ops s = Return rs s' \<Longrightarrow>
     sorted (clock s # map time_of ops) \<and> clock s' = last (clock s # map time_of ops)"
proof (induction ops arbitrary: s rs)
  case (Cons op ops)
  then obtain r s1 rs' where "exec op s = Return r s1" "run_ops exec ops s1 = Return rs' s'"
    by auto
  then show ?case
    using Cons.IH [of s1 rs'] causal_return [of s op r s1] inv_return [of s op r s1] Cons.prems by auto
qed simp

end

locale robust_ops = invariant_ops +
  assumes inv_raise: "inv s \<Longrightarrow> exec op s = Raise e s' \<Longrightarrow> inv s'"
begin

lemma run_post: "inv s \<Longrightarrow> inv (post_state (run_ops exec ops s))"
proof (induction ops arbitrary: s)
  case (Cons op ops)
  have "inv (post_state (exec op s))" using inv_return [OF Cons.prems] inv_raise [OF Cons.prems] by (cases "exec op s") simp_all
  then show ?case unfolding run_ops.simps
  proof (rule and_then_post [where Q = inv])
    fix r s' assume "inv s'"
    then show "inv (post_state (and_then (run_ops exec ops s') (\<lambda>rs s''. Return (r # rs) s'')))"
      using Cons.IH [of s'] by (cases "run_ops exec ops s'") simp_all
  qed
qed simp

lemma drive_inv: "inv s \<Longrightarrow> inv (drive_ops exec ops s)"
proof (induction ops arbitrary: s)
  case (Cons op ops)
  then show ?case
    by (cases "exec op s") (auto dest: inv_return inv_raise)
qed simp

end

locale atomic_ops = invariant_ops +
  assumes raise_unchanged: "inv s \<Longrightarrow> exec op s = Raise e s' \<Longrightarrow> s' = s"
begin

lemma drive_is_run:
  "inv s \<Longrightarrow> \<exists>good rs. set good \<subseteq> set ops \<and> run_ops exec good s = Return rs (drive_ops exec ops s)"
proof (induction ops arbitrary: s)
  case (Cons op ops)
  show ?case
  proof (cases "exec op s")
    case (Return r s1)
    then have "inv s1" using Cons.prems inv_return by blast
    then obtain good rs where "set good \<subseteq> set ops"
      "run_ops exec good s1 = Return rs (drive_ops exec ops s1)" using Cons.IH by blast
    then show ?thesis using Return
      by (intro exI [of _ "op # good"] exI [of _ "r # rs"]) auto
  next
    case (Raise e s1)
    then have "s1 = s" using Cons.prems raise_unchanged by blast
    then show ?thesis using Raise Cons.IH [OF Cons.prems] by auto
  qed
qed simp

end

sublocale atomic_ops \<subseteq> robust_ops
  by unfold_locales (auto dest: raise_unchanged)

end
