(* ===== verification/Py_Decimal.thy ===== *)
theory Py_Decimal
  imports Py_Prelude
begin

text \<open>
  Python's \<^verbatim>\<open>decimal.Decimal\<close>, the type of every price, quantity and amount of
  the program (\<open>D = Decimal\<close>). A finite decimal is its rational value. Comparisons,
  \<open>min\<close>, \<open>max\<close>, \<open>to_integral_value\<close> and \<open>int(\<dots>)\<close> are exact; every arithmetic
  operator rounds its exact result half-even to the precision of the context, 28
  significant digits by default. The bounds of the exponent (\<open>Emax = 999999\<close>) and the
  special values NaN and Infinity are outside the model.
\<close>

named_theorems dec "sign, order and exactness rules of the rounded operators"

type_synonym decimal = rat

section \<open>Powers of ten and the decimal exponent\<close>

definition pow10 :: "int \<Rightarrow> rat" where
  "pow10 k = (if 0 \<le> k then 10 ^ nat k else 1 / 10 ^ nat (- k))"

lemma pow10_powi: "pow10 k = 10 powi k"
  by (simp add: pow10_def power_int_def power_one_over inverse_eq_divide)

lemma pow10_pos [simp]: "0 < pow10 k"
  by (simp add: pow10_powi)

lemma pow10_nonneg [simp]: "0 \<le> pow10 k"
  by (simp add: less_imp_le)

lemma pow10_nonzero [simp]: "pow10 k \<noteq> 0"
  using pow10_pos [of k] by linarith

lemma pow10_add: "pow10 (a + b) = pow10 a * pow10 b"
  by (simp add: pow10_powi power_int_add)

lemma pow10_diff: "pow10 (a - b) = pow10 a / pow10 b"
  by (simp add: pow10_powi power_int_diff)

lemma pow10_0 [simp]: "pow10 0 = 1"
  by (simp add: pow10_def)

lemma pow10_of_nat: "pow10 (int n) = 10 ^ n"
  by (simp add: pow10_def)

lemma pow10_strict_mono: "a < b \<Longrightarrow> pow10 a < pow10 b"
  by (simp add: pow10_powi power_int_strict_increasing)

lemma pow10_less_iff [simp]: "pow10 a < pow10 b \<longleftrightarrow> a < b"
  by (metis less_asym' linorder_neqE_linordered_idom pow10_strict_mono)

lemma pow10_le_iff [simp]: "pow10 a \<le> pow10 b \<longleftrightarrow> a \<le> b"
  by (simp flip: not_less)

function ndigits :: "int \<Rightarrow> nat" where
  "ndigits n = (if n \<le> 0 then 0 else Suc (ndigits (n div 10)))"
  by pat_completeness auto
termination
  by (relation "measure nat") auto

declare ndigits.simps [simp del]

lemma ndigits_bounds:
  "0 < n \<Longrightarrow> 10 ^ (ndigits n - 1) \<le> n \<and> n < 10 ^ ndigits n \<and> 0 < ndigits n"
proof (induction n rule: ndigits.induct)
  case (1 n)
  have nd: "ndigits n = Suc (ndigits (n div 10))"
    using "1.prems" by (simp add: ndigits.simps [of n])
  show ?case
  proof (cases "n div 10 = 0")
    case True
    then have "n < 10" using "1.prems" by linarith
    moreover have "ndigits (n div 10) = 0" using True by (simp add: ndigits.simps)
    ultimately show ?thesis using nd "1.prems" by simp
  next
    case False
    then have pos: "0 < n div 10" using "1.prems" by linarith
    let ?d = "ndigits (n div 10)"
    have ih: "10 ^ (?d - 1) \<le> n div 10" "n div 10 < 10 ^ ?d" "0 < ?d"
      using "1.IH" "1.prems" pos by auto
    have "(10::int) ^ ?d = 10 * 10 ^ (?d - 1)" using ih(3) by (cases ?d) auto
    then have "10 ^ ?d \<le> n" using ih(1) by linarith
    moreover have "n < 10 * 10 ^ ?d" using ih(2) by linarith
    ultimately show ?thesis using nd by simp
  qed
qed

definition dexp :: "rat \<Rightarrow> int" where
  "dexp x = (let (p, q) = quotient_of \<bar>x\<bar>;
                 e = int (ndigits p) - int (ndigits q)
             in if pow10 e \<le> \<bar>x\<bar> then e else e - 1)"

lemma dexp_bounds:
  assumes "x \<noteq> 0"
  shows "pow10 (dexp x) \<le> \<bar>x\<bar>" and "\<bar>x\<bar> < pow10 (dexp x + 1)"
proof -
  obtain p q where pq: "quotient_of \<bar>x\<bar> = (p, q)" by fastforce
  then have x: "\<bar>x\<bar> = of_int p / of_int q" and q: "0 < q"
    by (auto dest: quotient_of_div quotient_of_denom_pos)
  have p: "0 < p" using assms x q
    by (metis abs_ge_zero divide_eq_0_iff le_less of_int_0_less_iff of_int_eq_0_iff
        zero_less_abs_iff zero_less_divide_iff not_less_iff_gr_or_eq of_int_0_le_iff)
  let ?a = "ndigits p" and ?b = "ndigits q"
  have bp: "10 ^ (?a - 1) \<le> p" "p < 10 ^ ?a" "0 < ?a"
    and bq: "10 ^ (?b - 1) \<le> q" "q < 10 ^ ?b" "0 < ?b"
    using ndigits_bounds p q by auto
  have rp: "pow10 (int ?a - 1) \<le> of_int p" "of_int p < pow10 (int ?a)"
  proof -
    have "(10::rat) ^ (?a - 1) \<le> of_int p"
      using bp(1) by (metis of_int_le_iff of_int_numeral of_int_power)
    then show "pow10 (int ?a - 1) \<le> of_int p"
      using bp(3) by (simp flip: pow10_of_nat add: of_nat_diff Suc_leI)
    have "(of_int p::rat) < 10 ^ ?a"
      using bp(2) by (metis of_int_less_iff of_int_numeral of_int_power)
    then show "of_int p < pow10 (int ?a)" by (simp add: pow10_of_nat)
  qed
  have rq: "pow10 (int ?b - 1) \<le> of_int q" "of_int q < pow10 (int ?b)"
  proof -
    have "(10::rat) ^ (?b - 1) \<le> of_int q"
      using bq(1) by (metis of_int_le_iff of_int_numeral of_int_power)
    then show "pow10 (int ?b - 1) \<le> of_int q"
      using bq(3) by (simp flip: pow10_of_nat add: of_nat_diff Suc_leI)
    have "(of_int q::rat) < 10 ^ ?b"
      using bq(2) by (metis of_int_less_iff of_int_numeral of_int_power)
    then show "of_int q < pow10 (int ?b)" by (simp add: pow10_of_nat)
  qed
  let ?e = "int ?a - int ?b"
  have qpos: "(0::rat) < of_int q" using q by simp
  have lo: "pow10 (?e - 1) \<le> \<bar>x\<bar>"
  proof -
    have "pow10 (?e - 1) * of_int q \<le> pow10 (?e - 1) * pow10 (int ?b)"
      using rq(2) by (intro mult_left_mono) auto
    also have "\<dots> = pow10 (int ?a - 1)" by (simp flip: pow10_add)
    also have "\<dots> \<le> of_int p" by (rule rp(1))
    finally show ?thesis using qpos by (simp add: x pos_le_divide_eq)
  qed
  have hi: "\<bar>x\<bar> < pow10 (?e + 1)"
  proof -
    have "of_int p < pow10 (int ?a)" by (rule rp(2))
    also have "\<dots> = pow10 (?e + 1) * pow10 (int ?b - 1)" by (simp flip: pow10_add)
    also have "\<dots> \<le> pow10 (?e + 1) * of_int q"
      using rq(1) by (intro mult_left_mono) auto
    finally show ?thesis using qpos by (simp add: x pos_divide_less_eq)
  qed
  have d: "dexp x = (if pow10 ?e \<le> \<bar>x\<bar> then ?e else ?e - 1)"
    by (simp add: dexp_def pq Let_def)
  show "pow10 (dexp x) \<le> \<bar>x\<bar>" using d lo by (auto split: if_splits)
  show "\<bar>x\<bar> < pow10 (dexp x + 1)" using d hi by (auto split: if_splits)
qed

lemma dexp_unique:
  assumes "pow10 e \<le> \<bar>x\<bar>" and "\<bar>x\<bar> < pow10 (e + 1)"
  shows "dexp x = e"
proof -
  have "x \<noteq> 0" using assms(1) pow10_pos [of e] by (auto simp flip: not_less)
  note b = dexp_bounds [OF this]
  have "pow10 (dexp x) < pow10 (e + 1)" "pow10 e < pow10 (dexp x + 1)"
    using b assms by linarith+
  then show ?thesis by simp
qed

lemma dexp_minus [simp]: "dexp (- x) = dexp x"
  by (simp add: dexp_def)

lemma dexp_mono: "x \<noteq> 0 \<Longrightarrow> \<bar>x\<bar> \<le> \<bar>y\<bar> \<Longrightarrow> dexp x \<le> dexp y"
proof -
  assume "x \<noteq> 0" and le: "\<bar>x\<bar> \<le> \<bar>y\<bar>"
  then have "y \<noteq> 0" by auto
  have "pow10 (dexp x) < pow10 (dexp y + 1)"
    using dexp_bounds [OF \<open>x \<noteq> 0\<close>] dexp_bounds [OF \<open>y \<noteq> 0\<close>] le by linarith
  then show ?thesis by simp
qed

section \<open>Round half even\<close>

definition round_half_even :: "rat \<Rightarrow> int" where
  "round_half_even x =
     (let f = \<lfloor>x\<rfloor>; d = x - of_int f
      in if d < 1 / 2 then f else if 1 / 2 < d then f + 1 else if even f then f else f + 1)"

lemma rhe_of_int [simp]: "round_half_even (of_int n) = n"
  by (simp add: round_half_even_def)

lemma rhe_error: "\<bar>of_int (round_half_even x) - x\<bar> \<le> 1 / 2"
proof -
  have "of_int \<lfloor>x\<rfloor> \<le> x" "x < of_int \<lfloor>x\<rfloor> + 1" by linarith+
  then show ?thesis
    unfolding round_half_even_def Let_def by (auto simp: abs_le_iff)
qed

lemma rhe_mono: "x \<le> y \<Longrightarrow> round_half_even x \<le> round_half_even y"
proof -
  assume le: "x \<le> y"
  then have f: "\<lfloor>x\<rfloor> \<le> \<lfloor>y\<rfloor>" by (rule floor_mono)
  show ?thesis
  proof (cases "\<lfloor>x\<rfloor> = \<lfloor>y\<rfloor>")
    case True
    then show ?thesis using le unfolding round_half_even_def Let_def by auto
  next
    case False
    with f have "\<lfloor>x\<rfloor> + 1 \<le> \<lfloor>y\<rfloor>" by linarith
    moreover have "round_half_even x \<le> \<lfloor>x\<rfloor> + 1"
      unfolding round_half_even_def Let_def by auto
    moreover have "\<lfloor>y\<rfloor> \<le> round_half_even y"
      unfolding round_half_even_def Let_def by auto
    ultimately show ?thesis by linarith
  qed
qed

lemma rhe_minus: "round_half_even (- x) = - round_half_even x"
proof (cases "x = of_int \<lfloor>x\<rfloor>")
  case True
  then show ?thesis by (metis of_int_minus rhe_of_int)
next
  case False
  then have fl: "\<lfloor>- x\<rfloor> = - \<lfloor>x\<rfloor> - 1"
    by (metis ceiling_altdef ceiling_def diff_minus_eq_add floor_minus minus_diff_eq
        minus_diff_commute uminus_add_conv_diff add.commute)
  show ?thesis unfolding round_half_even_def Let_def fl by auto
qed


section \<open>Rounding to a context precision\<close>

definition dround :: "nat \<Rightarrow> rat \<Rightarrow> rat" where
  "dround p x =
     (if x = 0 then 0
      else let u = pow10 (dexp x - int p + 1) in of_int (round_half_even (x / u)) * u)"

lemma dround_0 [simp]: "dround p 0 = 0"
  by (simp add: dround_def)

lemma dround_minus: "dround p (- x) = - dround p x"
  by (simp add: dround_def Let_def rhe_minus)

lemma dround_grid_le:
  assumes "x = of_int n * pow10 k" and "\<bar>x\<bar> < pow10 (int p + k)"
  shows "dround p x = x"
proof (cases "x = 0")
  case False
  let ?e = "dexp x - int p + 1"
  have "pow10 (dexp x) < pow10 (int p + k)"
    using dexp_bounds(1) [OF False] assms(2) by linarith
  then have "?e \<le> k" by simp
  then have "pow10 (k - ?e) = 10 ^ nat (k - ?e)" by (simp add: pow10_def)
  then have "x / pow10 ?e = of_int n * 10 ^ nat (k - ?e)"
    using assms(1) pow10_diff [of k ?e] by (metis times_divide_eq_right)
  also have "\<dots> = of_int (n * 10 ^ nat (k - ?e))" by simp
  finally have *: "x / pow10 ?e = of_int (n * 10 ^ nat (k - ?e))" .
  have "dround p x = of_int (round_half_even (x / pow10 ?e)) * pow10 ?e"
    using False by (simp add: dround_def Let_def)
  also have "\<dots> = x / pow10 ?e * pow10 ?e" unfolding * rhe_of_int ..
  finally show ?thesis by simp
qed simp

lemma dround_pos_bounds:
  assumes "0 < x" and "0 < p"
  shows "pow10 (dexp x) \<le> dround p x" and "dround p x \<le> pow10 (dexp x + 1)"
proof -
  let ?u = "pow10 (dexp x - int p + 1)"
  have x: "x \<noteq> 0" "\<bar>x\<bar> = x" using assms by auto
  note b = dexp_bounds [OF x(1), unfolded x(2)]
  have d: "dround p x = of_int (round_half_even (x / ?u)) * ?u"
    using x by (simp add: dround_def Let_def)
  have "of_int (10 ^ (p - 1)) = pow10 (int p - 1)"
    using assms(2) by (simp flip: pow10_of_nat add: of_nat_diff Suc_leI)
  also have "\<dots> = pow10 (dexp x) / ?u" by (simp flip: pow10_diff)
  also have "\<dots> \<le> x / ?u" using b(1) by (simp add: divide_right_mono)
  finally have "10 ^ (p - 1) \<le> round_half_even (x / ?u)"
    using rhe_mono rhe_of_int by metis
  then have "of_int (10 ^ (p - 1)) * ?u \<le> dround p x"
    unfolding d by (intro mult_right_mono) (simp_all only: of_int_le_iff pow10_nonneg)
  moreover have "of_int (10 ^ (p - 1)) * ?u = pow10 (dexp x)"
    unfolding \<open>of_int (10 ^ (p - 1)) = pow10 (int p - 1)\<close> by (simp flip: pow10_add)
  ultimately show "pow10 (dexp x) \<le> dround p x" by simp
  have "x / ?u \<le> pow10 (dexp x + 1) / ?u" using b(2) by (simp add: divide_right_mono)
  also have "\<dots> = of_int (10 ^ p)" by (simp flip: pow10_of_nat pow10_diff)
  finally have "round_half_even (x / ?u) \<le> 10 ^ p"
    using rhe_mono rhe_of_int by metis
  then have "dround p x \<le> of_int (10 ^ p) * ?u"
    unfolding d by (intro mult_right_mono) (simp_all only: of_int_le_iff pow10_nonneg)
  also have "\<dots> = pow10 (dexp x + 1)" by (simp flip: pow10_of_nat pow10_add)
  finally show "dround p x \<le> pow10 (dexp x + 1)" .
qed

lemma dround_pos: "0 < p \<Longrightarrow> 0 < x \<Longrightarrow> 0 < dround p x"
  using dround_pos_bounds(1) [of x p] pow10_pos [of "dexp x"] by linarith

lemma dround_mono_pos:
  assumes "0 < p" and "0 < x" and "x \<le> y"
  shows "dround p x \<le> dround p y"
proof (cases "dexp x = dexp y")
  case True
  have "round_half_even (x / pow10 (dexp y - int p + 1)) \<le> round_half_even (y / pow10 (dexp y - int p + 1))"
    using assms by (intro rhe_mono divide_right_mono) auto
  then show ?thesis using assms True
    by (simp add: dround_def Let_def mult_right_mono)
next
  case False
  then have "dexp x + 1 \<le> dexp y" using assms dexp_mono [of x y] by auto
  then have "pow10 (dexp x + 1) \<le> pow10 (dexp y)" by simp
  then show ?thesis
    using dround_pos_bounds(2) [of x p] dround_pos_bounds(1) [of y p] assms by linarith
qed

lemma dround_mono:
  assumes p: "0 < p" and le: "x \<le> y"
  shows "dround p x \<le> dround p y"
proof -
  have np: "dround p a \<le> 0" if "a \<le> 0" for a
    using that dround_pos [OF p, of "- a"] by (cases "a = 0") (auto simp: dround_minus)
  have nn: "0 \<le> dround p a" if "0 \<le> a" for a
    using that dround_pos [OF p, of a] by (cases "a = 0") auto
  consider "0 < x" | "x \<le> 0" "0 \<le> y" | "y < 0" using le by linarith
  then show ?thesis
  proof cases
    case 1
    then show ?thesis using dround_mono_pos [OF p _ le] by simp
  next
    case 2
    then show ?thesis using np [of x] nn [of y] by linarith
  next
    case 3
    then have "dround p (- y) \<le> dround p (- x)" using le by (intro dround_mono_pos p) auto
    then show ?thesis by (simp add: dround_minus)
  qed
qed

lemma dround_error:
  "\<bar>dround p x - x\<bar> \<le> \<bar>x\<bar> * pow10 (1 - int p) / 2"
proof (cases "x = 0")
  case False
  let ?u = "pow10 (dexp x - int p + 1)"
  have "dround p x - x = (of_int (round_half_even (x / ?u)) - x / ?u) * ?u"
    using False by (simp add: dround_def Let_def algebra_simps)
  then have "\<bar>dround p x - x\<bar> = \<bar>of_int (round_half_even (x / ?u)) - x / ?u\<bar> * ?u"
    by (simp add: abs_mult)
  also have "\<dots> \<le> 1 / 2 * ?u" by (intro mult_right_mono rhe_error) simp
  also have "?u = pow10 (dexp x) * pow10 (1 - int p)" by (simp flip: pow10_add add: algebra_simps)
  also have "1 / 2 * (pow10 (dexp x) * pow10 (1 - int p)) \<le> 1 / 2 * (\<bar>x\<bar> * pow10 (1 - int p))"
    using dexp_bounds(1) [OF False] by (intro mult_left_mono mult_right_mono) auto
  finally show ?thesis by simp
qed simp

lemma dround_idem: 
  assumes "0 < p" 
  shows "dround p (dround p x) = dround p x"
proof -
  have pos: "dround p (dround p x) = dround p x" if x: "0 < x" for x
  proof (cases "dround p x = pow10 (dexp x + 1)")
    case True
    have "dround p (pow10 (dexp x + 1)) = pow10 (dexp x + 1)"
      using assms by (intro dround_grid_le [where n = 1 and k = "dexp x + 1"]) auto
    then show ?thesis using True by simp
  next
    case False
    let ?k = "dexp x - int p + 1"
    have b: "0 < dround p x" "dround p x < pow10 (dexp x + 1)"
      using dround_pos [OF assms x] dround_pos_bounds(2) [OF x assms] False by linarith+
    have "dround p x = of_int (round_half_even (x / pow10 ?k)) * pow10 ?k"
      using x by (simp add: dround_def Let_def)
    then show ?thesis using b by (intro dround_grid_le) auto
  qed
  consider "x = 0" | "0 < x" | "0 < - x" by linarith
  then show ?thesis
  proof cases
    case 3
    then show ?thesis using pos [OF 3] by (simp add: dround_minus)
  qed (auto intro: pos)
qed


section \<open>Contexts\<close>

text \<open>
  What the components rely on is not the digit arithmetic but four laws of a rounding
  function; the locale proves the sign and order rules from them once, and both contexts
  of the repository (the default of 28 digits and the 128 digits of its
  \<^verbatim>\<open>localcontext()\<close> blocks) are instances.
\<close>

locale decimal_context =
  fixes rnd :: "rat \<Rightarrow> rat"
  assumes rnd_mono: "x \<le> y \<Longrightarrow> rnd x \<le> rnd y"
    and rnd_minus: "rnd (- x) = - rnd x"
    and rnd_idem: "rnd (rnd x) = rnd x"
    and rnd_pos: "0 < x \<Longrightarrow> 0 < rnd x"
begin

lemma rnd_0: "rnd 0 = 0"
  using rnd_minus [of 0] by simp

lemma rnd_nonneg: "0 \<le> x \<Longrightarrow> 0 \<le> rnd x"
  using rnd_mono [of 0 x] by (simp add: rnd_0)

lemma rnd_neg: "x < 0 \<Longrightarrow> rnd x < 0"
  using rnd_pos [of "- x"] by (simp add: rnd_minus)

lemma rnd_nonpos: "x \<le> 0 \<Longrightarrow> rnd x \<le> 0"
  using rnd_mono [of x 0] by (simp add: rnd_0)

lemma rnd_eq_0_iff: "rnd x = 0 \<longleftrightarrow> x = 0"
  using rnd_pos [of x] rnd_neg [of x] rnd_0 by (metis less_irrefl linorder_neqE_linordered_idom)

lemma rnd_pos_iff: "0 < rnd x \<longleftrightarrow> 0 < x"
  using rnd_pos [of x] rnd_nonpos [of x] by (metis not_less)

lemma rnd_nonneg_iff: "0 \<le> rnd x \<longleftrightarrow> 0 \<le> x"
  using rnd_nonneg [of x] rnd_neg [of x] by (metis not_less)

lemma rnd_le_exact: "x \<le> y \<Longrightarrow> rnd y = y \<Longrightarrow> rnd x \<le> y"
  using rnd_mono [of x y] by simp

lemma rnd_ge_exact: "y \<le> x \<Longrightarrow> rnd y = y \<Longrightarrow> y \<le> rnd x"
  using rnd_mono [of y x] by simp

end

interpretation prec28: decimal_context "dround 28"
  by unfold_locales (simp_all add: dround_mono dround_minus dround_idem dround_pos)

interpretation prec128: decimal_context "dround 128"
  by unfold_locales (simp_all add: dround_mono dround_minus dround_idem dround_pos)

section \<open>The operators of the default context\<close>

definition dadd :: "decimal \<Rightarrow> decimal \<Rightarrow> decimal" where
  "dadd a b = dround 28 (a + b)"

definition dsub :: "decimal \<Rightarrow> decimal \<Rightarrow> decimal" where
  "dsub a b = dround 28 (a - b)"

definition dmul :: "decimal \<Rightarrow> decimal \<Rightarrow> decimal" where
  "dmul a b = dround 28 (a * b)"

definition dneg :: "decimal \<Rightarrow> decimal" where
  "dneg a = dround 28 (- a)"

definition dabs :: "decimal \<Rightarrow> decimal" where
  "dabs a = dround 28 \<bar>a\<bar>"

text \<open>
  Division by zero raises; \<open>ddiv\<close> is the quotient where the divisor is not zero, and every
  use of it stands behind a guard of the source or an explicit \<^const>\<open>ZeroDivisionError\<close>
  branch of the model.
\<close>

definition ddiv :: "decimal \<Rightarrow> decimal \<Rightarrow> decimal" where
  "ddiv a b = dround 28 (a / b)"

text \<open>\<^verbatim>\<open>sum(xs, ZERO)\<close>: left to right from zero, one rounding per addition.\<close>

definition dsum :: "decimal list \<Rightarrow> decimal" where
  "dsum xs = foldl dadd 0 xs"

text \<open>\<^verbatim>\<open>int(x)\<close> truncates; the integral roundings are exact.\<close>

definition dtrunc :: "decimal \<Rightarrow> int" where
  "dtrunc x = (if 0 \<le> x then \<lfloor>x\<rfloor> else \<lceil>x\<rceil>)"

definition round_half_up :: "decimal \<Rightarrow> int" where
  "round_half_up x = (if 0 \<le> x then \<lfloor>x + 1 / 2\<rfloor> else - \<lfloor>- x + 1 / 2\<rfloor>)"

definition exact28 :: "decimal \<Rightarrow> bool" where
  "exact28 x \<longleftrightarrow> dround 28 x = x"

lemmas dec_defs = dadd_def dsub_def dmul_def ddiv_def dneg_def dabs_def

lemma dadd_nonneg [dec]: "0 \<le> a \<Longrightarrow> 0 \<le> b \<Longrightarrow> 0 \<le> dadd a b"
  by (simp add: dadd_def prec28.rnd_nonneg)

lemma dadd_pos [dec]: "0 < a \<Longrightarrow> 0 \<le> b \<Longrightarrow> 0 < dadd a b"
  by (simp add: dadd_def prec28.rnd_pos)

lemma dsub_nonneg_iff [simp, dec]: "0 \<le> dsub a b \<longleftrightarrow> b \<le> a"
  by (simp add: dsub_def prec28.rnd_nonneg_iff)

lemma dsub_pos_iff [simp, dec]: "0 < dsub a b \<longleftrightarrow> b < a"
  by (simp add: dsub_def prec28.rnd_pos_iff)

lemma dsub_neg_iff [simp, dec]: "dsub a b < 0 \<longleftrightarrow> a < b"
  by (metis dsub_nonneg_iff not_less)

lemma dsub_nonpos_iff [simp, dec]: "dsub a b \<le> 0 \<longleftrightarrow> a \<le> b"
  by (metis dsub_pos_iff not_less)

lemma dsub_eq_0_iff [simp, dec]: "dsub a b = 0 \<longleftrightarrow> a = b"
  by (simp add: dsub_def prec28.rnd_eq_0_iff)

lemma dmul_nonneg [dec]: "0 \<le> a \<Longrightarrow> 0 \<le> b \<Longrightarrow> 0 \<le> dmul a b"
  by (simp add: dmul_def prec28.rnd_nonneg)

lemma dmul_pos [dec]: "0 < a \<Longrightarrow> 0 < b \<Longrightarrow> 0 < dmul a b"
  by (simp add: dmul_def prec28.rnd_pos)

lemma ddiv_nonneg [dec]: "0 \<le> a \<Longrightarrow> 0 \<le> b \<Longrightarrow> 0 \<le> ddiv a b"
  by (simp add: ddiv_def prec28.rnd_nonneg)

lemma ddiv_pos [dec]: "0 < a \<Longrightarrow> 0 < b \<Longrightarrow> 0 < ddiv a b"
  by (simp add: ddiv_def prec28.rnd_pos)

lemma dabs_nonneg [dec]: "0 \<le> dabs a"
  by (simp add: dabs_def prec28.rnd_nonneg)

lemma dneg_neg_iff [dec]: "dneg a < 0 \<longleftrightarrow> 0 < a"
  by (simp add: dneg_def prec28.rnd_minus prec28.rnd_pos_iff)

lemma dsum_Nil [simp]: "dsum [] = 0"
  by (simp add: dsum_def)

lemma foldl_dadd_nonneg: "0 \<le> a \<Longrightarrow> \<forall>x \<in> set xs. 0 \<le> x \<Longrightarrow> 0 \<le> foldl dadd a xs"
  by (induction xs arbitrary: a) (auto simp: dadd_nonneg)

lemma dsum_nonneg [dec]: "\<forall>x \<in> set xs. 0 \<le> x \<Longrightarrow> 0 \<le> dsum xs"
  by (simp add: dsum_def foldl_dadd_nonneg)

lemma exact28_results [simp]:
  "exact28 (dadd a b)" "exact28 (dsub a b)" "exact28 (dmul a b)" "exact28 (ddiv a b)"
  "exact28 (dneg a)" "exact28 0"
  by (simp_all add: exact28_def dec_defs prec28.rnd_idem prec28.rnd_0)

lemma dsub_0 [simp]: "exact28 a \<Longrightarrow> dsub a 0 = a"
  by (simp add: dsub_def exact28_def)

lemma dadd_0 [simp]: "exact28 a \<Longrightarrow> dadd a 0 = a" "exact28 a \<Longrightarrow> dadd 0 a = a"
  by (simp_all add: dadd_def exact28_def)

lemma dsub_le: "0 \<le> b \<Longrightarrow> exact28 a \<Longrightarrow> dsub a b \<le> a"
  by (simp add: dsub_def exact28_def prec28.rnd_le_exact)

text \<open>
  The rounding error of one operation: at most half a unit in the 28th significant digit
  of the exact result.
\<close>

definition ulp28 :: rat where
  "ulp28 = 1 / 10 ^ 27"

lemma dround28_error: "\<bar>dround 28 x - x\<bar> \<le> \<bar>x\<bar> * ulp28 / 2"
  using dround_error [of 28 x] by (simp add: ulp28_def pow10_def)

section \<open>The decimal grid\<close>

text \<open>
  Amounts that are multiples of \<open>10\<^sup>-\<^sup>k\<close> and stay below \<open>10\<^sup>2\<^sup>8\<^sup>-\<^sup>k\<close> never round under addition and
  subtraction: the precise sense in which the ledgers' decimal arithmetic is exact.
\<close>

definition on_grid :: "nat \<Rightarrow> decimal \<Rightarrow> bool" where
  "on_grid k x \<longleftrightarrow> x * 10 ^ k \<in> \<int>"

lemma on_grid_0 [simp]: "on_grid k 0"
  by (simp add: on_grid_def)

lemma on_grid_add [dec]: "on_grid k a \<Longrightarrow> on_grid k b \<Longrightarrow> on_grid k (a + b)"
  by (simp add: on_grid_def distrib_right)

lemma on_grid_diff [dec]: "on_grid k a \<Longrightarrow> on_grid k b \<Longrightarrow> on_grid k (a - b)"
  by (simp add: on_grid_def left_diff_distrib)

lemma exact28_grid:
  assumes "on_grid k x" and "\<bar>x\<bar> < pow10 (28 - int k)"
  shows "exact28 x"
proof -
  obtain n where "x * 10 ^ k = of_int n" using assms(1) by (auto simp: on_grid_def elim: Ints_cases)
  then have "x = of_int n * pow10 (- int k)" by (cases "k = 0") (simp_all add: pow10_def field_simps)
  moreover have "\<bar>x\<bar> < pow10 (int 28 + - int k)" using assms(2) by simp
  ultimately show ?thesis unfolding exact28_def by (rule dround_grid_le)
qed

lemma dadd_exact [dec]: "exact28 (a + b) \<Longrightarrow> dadd a b = a + b"
  by (simp add: dadd_def exact28_def)

lemma dsub_exact [dec]: "exact28 (a - b) \<Longrightarrow> dsub a b = a - b"
  by (simp add: dsub_def exact28_def)

lemma dmul_exact [dec]: "exact28 (a * b) \<Longrightarrow> dmul a b = a * b"
  by (simp add: dmul_def exact28_def)

lemma dsub_grid:
  assumes "on_grid k a" "on_grid k b" "0 \<le> b" "b \<le> a" "a < pow10 (28 - int k)"
  shows "dsub a b = a - b"
proof (rule dsub_exact, rule exact28_grid)
  show "on_grid k (a - b)" using assms by (simp add: on_grid_diff)
  show "\<bar>a - b\<bar> < pow10 (28 - int k)" using assms by linarith
qed

lemma dadd_grid:
  assumes "on_grid k a" "on_grid k b" "\<bar>a + b\<bar> < pow10 (28 - int k)"
  shows "dadd a b = a + b"
  using assms by (intro dadd_exact exact28_grid on_grid_add)

text \<open>Amounts of one grid that no subtraction can round.\<close>

definition on_flow_grid :: "nat \<Rightarrow> decimal \<Rightarrow> bool" where
  "on_flow_grid k x \<longleftrightarrow> on_grid k x \<and> 0 \<le> x \<and> x < pow10 (28 - int k)"

lemma flow_grid_sub: "on_flow_grid k a \<Longrightarrow> on_flow_grid k b \<Longrightarrow> b \<le> a \<Longrightarrow> dsub a b = a - b"
  unfolding on_flow_grid_def by (blast intro: dsub_grid)

lemma flow_grid_diff: "on_flow_grid k a \<Longrightarrow> on_flow_grid k b \<Longrightarrow> b \<le> a \<Longrightarrow> on_flow_grid k (a - b)"
  by (simp add: on_flow_grid_def on_grid_diff)

lemma flow_grid_min: "on_flow_grid k a \<Longrightarrow> on_flow_grid k b \<Longrightarrow> on_flow_grid k (min a b)"
  by (simp add: min_def)

section \<open>Evaluation\<close>

text \<open>
  Decimals with up to eight places that are small enough to be exact need no rounding; the
  code equations of the operators test for them first.
\<close>

definition dround28_code :: "rat \<Rightarrow> rat" where
  "dround28_code x =
     (case quotient_of x of (n, d) \<Rightarrow>
        if \<bar>n\<bar> < 100000000000000000000 \<and> 100000000 mod d = 0 then x else dround 28 x)"

lemma dround28_code: "dround28_code x = dround 28 x"
proof -
  obtain n d where q: "quotient_of x = (n, d)" by fastforce
  have d: "0 < d" and x: "x = of_int n / of_int d"
    using quotient_of_denom_pos [OF q] quotient_of_div [OF q] by auto
  have "dround 28 x = x" if b: "\<bar>n\<bar> < 100000000000000000000" "100000000 mod d = 0"
  proof -
    obtain c where c: "100000000 = d * c" using b(2) by (metis mod_0_imp_dvd dvdE)
    have "x * 10 ^ 8 = of_int n * of_int c"
    proof -
      have "of_int d * of_int c = (100000000 :: rat)"
        unfolding of_int_mult [symmetric] c [symmetric] by simp
      then have "x * 100000000 = (of_int n / of_int d) * (of_int d * of_int c)" unfolding x by simp
      also have "\<dots> = of_int n * of_int c" using d by simp
      finally show ?thesis by simp
    qed
    then have "on_grid 8 x" by (simp add: on_grid_def)
    moreover have "\<bar>x\<bar> \<le> of_int \<bar>n\<bar>"
      using d unfolding x by (simp add: abs_div divide_le_eq mult_le_cancel_left1)
    then have "\<bar>x\<bar> < pow10 (28 - int 8)" using b(1) by (simp add: pow10_def)
    ultimately show ?thesis using exact28_grid exact28_def by blast
  qed
  then show ?thesis by (simp add: dround28_code_def q)
qed

lemma dec_code [code]:
  "dadd a b = dround28_code (a + b)" "dsub a b = dround28_code (a - b)"
  "dmul a b = dround28_code (a * b)" "ddiv a b = dround28_code (a / b)"
  "dneg a = dround28_code (- a)" "dabs a = dround28_code \<bar>a\<bar>"
  by (simp_all add: dround28_code dec_defs)

end
