(* ===== verification/Causal_Queue.thy ===== *)
theory Causal_Queue
  imports Py_Decimal
begin

text \<open>
  The causal PUBLIC \<open>\<rightarrow>\<close> C1 \<open>\<rightarrow>\<close> C2 queue of
  \<^verbatim>\<open>microstructure/multi_stable_queue.py\<close>: the queue groups of every
  (book, side, price), the own orders waiting behind public depth, and the consumption of
  public trades. The estimators over resolved outcomes are in the theory
  \<^verbatim>\<open>Completion_Estimators\<close>.
\<close>

section \<open>State\<close>

record own_order =
  own_order_id :: string
  own_column :: int
  own_quantity :: decimal
  own_remaining :: decimal
  own_activated_at_us :: int
  own_activation_sequence :: nat
  own_public_barrier_before :: decimal
  own_first_fill_at_us :: "int option"
  own_filled_at_us :: "int option"

record queue_group =
  group_book :: string
  group_side :: string
  group_price :: decimal
  group_public_remaining :: decimal
  group_own_orders :: "own_order list"

type_synonym queue_key = "string \<times> string \<times> decimal"

record queue_estimator =
  flow_window_us :: int
  groups :: "(queue_key, queue_group) dict"
  order_group :: "(string, queue_key) dict"
  processed_event_ids :: "string set"
  compatible_flow :: "(queue_key, (int \<times> decimal) list) dict"
  first_fill_waits_us :: "(queue_key, int list) dict"
  full_fill_waits_us :: "(queue_key, int list) dict"
  last_time_us :: int
  next_activation_sequence :: nat

definition new_queue_estimator :: "int \<Rightarrow> py_error + queue_estimator" where
  "new_queue_estimator window =
     (if window \<le> 0 then Inl (ValueError ''M032_INVALID_FLOW_WINDOW'')
      else Inr \<lparr>flow_window_us = window, groups = [], order_group = [],
                processed_event_ids = {}, compatible_flow = [], first_fill_waits_us = [],
                full_fill_waits_us = [], last_time_us = -1, next_activation_sequence = 0\<rparr>)"

text \<open>The default of 300 seconds that the pair engines use.\<close>

definition default_queue :: queue_estimator where
  "default_queue = \<lparr>flow_window_us = 300000000, groups = [], order_group = [],
      processed_event_ids = {}, compatible_flow = [], first_fill_waits_us = [],
      full_fill_waits_us = [], last_time_us = -1, next_activation_sequence = 0\<rparr>"

section \<open>Time and group validation\<close>

definition queue_causal :: "int \<Rightarrow> queue_estimator \<Rightarrow> (unit, queue_estimator) outcome" where
  "queue_causal now q =
     (if now < last_time_us q then Raise (ValueError ''M032_FUTURE_OR_REORDERED_QUEUE_EVENT'') q
      else Return () (q\<lparr>last_time_us := now\<rparr>))"

definition fifo_key :: "own_order \<Rightarrow> int \<times> nat" where
  "fifo_key r = (own_activated_at_us r, own_activation_sequence r)"

definition active_orders :: "queue_group \<Rightarrow> own_order list" where
  "active_orders g = filter (\<lambda>r. 0 < own_remaining r) (group_own_orders g)"

definition validate_group :: "queue_group \<Rightarrow> py_error option" where
  "validate_group g =
     (let active = active_orders g
      in if 2 < length active then Some (ValueError ''M032_MAX_TWO_COLUMNS_PER_PRICE'')
         else if active \<noteq> sort_key fifo_key active
         then Some (ValueError ''M032_OWN_FIFO_ORDER_DRIFT'')
         else if card (set (map own_column active)) \<noteq> length active
         then Some (ValueError ''M032_DUPLICATE_ACTIVE_COLUMN'')
         else if group_public_remaining g < 0 \<or> (\<exists>r \<in> set active. own_remaining r < 0)
         then Some (ValueError ''M032_NEGATIVE_QUEUE'')
         else None)"

definition check_group ::
    "queue_group \<Rightarrow> 'a \<Rightarrow> queue_estimator \<Rightarrow> ('a, queue_estimator) outcome" where
  "check_group g r q =
     (case validate_group g of None \<Rightarrow> Return r q | Some e \<Rightarrow> Raise e q)"

section \<open>Activation and cancellation\<close>

text \<open>
  The group an order joins; a group without active own orders starts a new epoch, and
  public depth first seen behind a surviving own order becomes the barrier of the new one.
\<close>

definition opened_group ::
    "string \<Rightarrow> string \<Rightarrow> decimal \<Rightarrow> decimal \<Rightarrow> queue_estimator \<Rightarrow> queue_group" where
  "opened_group book side price observed q =
     (case dict_get (groups q) (book, side, price) of
        None \<Rightarrow> \<lparr>group_book = book, group_side = side, group_price = price,
                 group_public_remaining = max 0 observed, group_own_orders = []\<rparr>
      | Some g \<Rightarrow> g)"

definition new_epoch :: "decimal \<Rightarrow> queue_group \<Rightarrow> queue_group" where
  "new_epoch observed g =
     (if active_orders g = [] then g\<lparr>group_public_remaining := max 0 observed\<rparr> else g)"

definition later_public_cohort :: "decimal \<Rightarrow> queue_group \<Rightarrow> decimal" where
  "later_public_cohort observed g =
     (let represented = dadd (group_public_remaining g)
                             (dsum (map own_public_barrier_before (active_orders g)))
      in if active_orders g \<noteq> [] then max 0 (dsub observed represented) else 0)"

definition enqueue ::
    "queue_key \<Rightarrow> queue_group \<Rightarrow> own_order \<Rightarrow> queue_estimator \<Rightarrow>
     (own_order, queue_estimator) outcome" where
  "enqueue key g r q =
     (let g' = g\<lparr>group_own_orders := sort_key fifo_key (group_own_orders g @ [r])\<rparr>
      in check_group g' r
           (q\<lparr>next_activation_sequence := Suc (next_activation_sequence q),
              groups := dict_set key g' (groups q),
              order_group := dict_set (own_order_id r) key (order_group q)\<rparr>))"

definition activate ::
    "string \<Rightarrow> string \<Rightarrow> decimal \<Rightarrow> string \<Rightarrow> int \<Rightarrow> decimal \<Rightarrow> decimal \<Rightarrow> int \<Rightarrow>
     queue_estimator \<Rightarrow> (own_order, queue_estimator) outcome" where
  "activate book side price oid column quantity observed now q0 =
     and_then (queue_causal now q0) (\<lambda>_ q.
       if side \<notin> {''BUY'', ''SELL''} \<or> column \<notin> {1, 2} \<or> quantity \<le> 0
       then Raise (ValueError ''M032_INVALID_QUEUE_ORDER'') q
       else if has_key (order_group q) oid
       then Raise (ValueError ''M032_DUPLICATE_QUEUE_ORDER'') q
       else
         let key = (book, side, price);
             g = new_epoch observed (opened_group book side price observed q);
             q1 = q\<lparr>groups := dict_set key g (groups q)\<rparr>
         in if \<exists>r \<in> set (active_orders g). own_column r = column
            then Raise (ValueError ''M032_DUPLICATE_COLUMN_AT_PRICE'') q1
            else enqueue key g
                   \<lparr>own_order_id = oid, own_column = column, own_quantity = quantity,
                    own_remaining = quantity, own_activated_at_us = now,
                    own_activation_sequence = next_activation_sequence q1,
                    own_public_barrier_before = later_public_cohort observed g,
                    own_first_fill_at_us = None, own_filled_at_us = None\<rparr> q1)"

definition find_own :: "queue_group \<Rightarrow> string \<Rightarrow> own_order option" where
  "find_own g oid = find (\<lambda>r. own_order_id r = oid) (group_own_orders g)"

definition remove_own ::
    "string \<Rightarrow> queue_key \<Rightarrow> queue_group \<Rightarrow> own_order \<Rightarrow> queue_estimator \<Rightarrow>
     (decimal, queue_estimator) outcome" where
  "remove_own oid key g r q =
     (let g' = g\<lparr>group_own_orders := remove1 r (group_own_orders g)\<rparr>;
          q' = q\<lparr>groups := dict_set key g' (groups q), order_group := dict_del oid (order_group q)\<rparr>
      in check_group g' (own_remaining r) q')"

definition with_own ::
    "string \<Rightarrow> queue_estimator \<Rightarrow>
     (queue_key \<Rightarrow> queue_group \<Rightarrow> own_order \<Rightarrow> ('a, queue_estimator) outcome) \<Rightarrow>
     ('a, queue_estimator) outcome" where
  "with_own oid q k =
     (case dict_get (order_group q) oid of
        None \<Rightarrow> Raise KeyError q
      | Some key \<Rightarrow>
          (case dict_get (groups q) key of
             None \<Rightarrow> Raise KeyError q
           | Some g \<Rightarrow>
               (case find_own g oid of
                  None \<Rightarrow> Raise StopIteration q
                | Some r \<Rightarrow> k key g r)))"

definition cancel_ack ::
    "string \<Rightarrow> int \<Rightarrow> queue_estimator \<Rightarrow> (decimal, queue_estimator) outcome" where
  "cancel_ack oid now q0 =
     and_then (queue_causal now q0) (\<lambda>_ q.
       with_own oid q (\<lambda>key g r.
         if own_remaining r \<noteq> own_quantity r
         then Raise (ValueError ''M032_PARTIAL_OR_FILLED_QUEUE_NOT_RECLAIMABLE'') q
         else remove_own oid key g r q))"

definition cancel_ack_after_racing_fill ::
    "string \<Rightarrow> int \<Rightarrow> queue_estimator \<Rightarrow> (decimal, queue_estimator) outcome" where
  "cancel_ack_after_racing_fill oid now q0 =
     and_then (queue_causal now q0) (\<lambda>_ q.
       with_own oid q (\<lambda>key g r. remove_own oid key g r q))"

section \<open>Consuming public trades\<close>

definition append_to :: "'k \<Rightarrow> 'v list \<Rightarrow> ('k, 'v list) dict \<Rightarrow> ('k, 'v list) dict" where
  "append_to key xs d = (if xs = [] then d else dict_set key (get_or d key [] @ xs) d)"

text \<open>
  What one pass over a group's own orders produces: the orders, the flow left over, the
  fills, and the waits of the orders that got their first or their last fill.
\<close>

record fill_pass =
  pass_orders :: "own_order list"
  pass_remaining :: decimal
  pass_fills :: "(string, decimal) dict"
  pass_first_waits :: "int list"
  pass_full_waits :: "int list"

text \<open>
  The body of the loops of \<^verbatim>\<open>consume_compatible_flow\<close> and of
  \<^verbatim>\<open>consume_trade_through\<close> after the barrier: \<open>accumulate\<close> distinguishes
  \<open>fills[id] = amount\<close> of the former from \<open>fills[id] = fills.get(id, 0) + amount\<close> of the latter.
\<close>

definition note_first_fill :: "int \<Rightarrow> decimal \<Rightarrow> own_order \<Rightarrow> own_order \<times> int list" where
  "note_first_fill now amount r =
     (if 0 < amount \<and> own_first_fill_at_us r = None
      then (r\<lparr>own_first_fill_at_us := Some now\<rparr>, [now - own_activated_at_us r]) else (r, []))"

definition note_full_fill :: "int \<Rightarrow> own_order \<Rightarrow> own_order \<times> int list" where
  "note_full_fill now r =
     (if own_remaining r = 0 \<and> own_filled_at_us r = None
      then (r\<lparr>own_filled_at_us := Some now\<rparr>, [now - own_activated_at_us r]) else (r, []))"

definition note_fill ::
    "bool \<Rightarrow> decimal \<Rightarrow> string \<Rightarrow> (string, decimal) dict \<Rightarrow> (string, decimal) dict" where
  "note_fill accumulate amount oid fills =
     (if 0 < amount
      then dict_set oid (if accumulate then dadd (get_or fills oid 0) amount else amount) fills
      else fills)"

definition pass_barrier :: "bool \<Rightarrow> own_order \<Rightarrow> decimal \<Rightarrow> own_order \<times> decimal" where
  "pass_barrier at_price r rem =
     (let public = min rem (own_public_barrier_before r)
      in if at_price
         then (r\<lparr>own_public_barrier_before := dsub (own_public_barrier_before r) public\<rparr>,
               dsub rem public)
         else (r, rem))"

primrec consume_orders ::
    "bool \<Rightarrow> bool \<Rightarrow> int \<Rightarrow> own_order list \<Rightarrow> decimal \<Rightarrow> (string, decimal) dict \<Rightarrow> fill_pass" where
  "consume_orders accumulate at_price now [] rem fills =
     \<lparr>pass_orders = [], pass_remaining = rem, pass_fills = fills,
      pass_first_waits = [], pass_full_waits = []\<rparr>"
| "consume_orders accumulate at_price now (r # rs) rem fills =
     (if rem \<le> 0
      then \<lparr>pass_orders = r # rs, pass_remaining = rem, pass_fills = fills,
             pass_first_waits = [], pass_full_waits = []\<rparr>
      else
        let (r1, rem1) = pass_barrier at_price r rem
        in if rem1 \<le> 0
           then \<lparr>pass_orders = r1 # rs, pass_remaining = rem1, pass_fills = fills,
                  pass_first_waits = [], pass_full_waits = []\<rparr>
           else
             let amount = min (own_remaining r1) rem1;
                 (r3, first) = note_first_fill now amount
                     (r1\<lparr>own_remaining := dsub (own_remaining r1) amount\<rparr>);
                 (r4, full) = note_full_fill now r3;
                 p = consume_orders accumulate at_price now rs (dsub rem1 amount)
                       (note_fill accumulate amount (own_order_id r) fills)
             in p\<lparr>pass_orders := r4 # pass_orders p,
                  pass_first_waits := first @ pass_first_waits p,
                  pass_full_waits := full @ pass_full_waits p\<rparr>)"

text \<open>Writing the result of a pass back to the group, its waits and the estimator.\<close>

definition store_pass ::
    "queue_key \<Rightarrow> queue_group \<Rightarrow> fill_pass \<Rightarrow> queue_estimator \<Rightarrow> queue_estimator" where
  "store_pass key g p q =
     q\<lparr>groups := dict_set key (g\<lparr>group_own_orders := pass_orders p\<rparr>) (groups q),
       first_fill_waits_us := append_to key (pass_first_waits p) (first_fill_waits_us q),
       full_fill_waits_us := append_to key (pass_full_waits p) (full_fill_waits_us q)\<rparr>"

definition consume_compatible_flow ::
    "string \<Rightarrow> string \<Rightarrow> string \<Rightarrow> decimal \<Rightarrow> decimal \<Rightarrow> int \<Rightarrow> queue_estimator \<Rightarrow>
     ((string, decimal) dict, queue_estimator) outcome" where
  "consume_compatible_flow event_id book side price quantity now q0 =
     and_then (queue_causal now q0) (\<lambda>_ q.
       if event_id \<in> processed_event_ids q
       then Raise (ValueError ''M032_DUPLICATE_TRADE_QUANTITY'') q
       else if quantity < 0 then Raise (ValueError ''M032_NEGATIVE_FLOW'') q
       else
         let key = (book, side, price);
             q1 = q\<lparr>processed_event_ids := insert event_id (processed_event_ids q),
                    compatible_flow := dict_set key (get_or (compatible_flow q) key []
                                         @ [(now, quantity)]) (compatible_flow q)\<rparr>
         in case dict_get (groups q1) key of
              None \<Rightarrow> Return [] q1
            | Some g \<Rightarrow>
                let public = min quantity (group_public_remaining g);
                    g1 = g\<lparr>group_public_remaining := dsub (group_public_remaining g) public\<rparr>;
                    p = consume_orders False True now (group_own_orders g1) (dsub quantity public) [];
                    g2 = g1\<lparr>group_own_orders := pass_orders p\<rparr>
                in check_group g2 (pass_fills p) (store_pass key g1 p q1))"

text \<open>
  A trade through several prices. The touched groups are visited from the best price for
  the own side; public depth and barriers only protect the price that actually traded.
\<close>

definition touches :: "string \<Rightarrow> string \<Rightarrow> decimal \<Rightarrow> queue_key \<Rightarrow> bool" where
  "touches book side trade_price key =
     (case key of (b, s, price) \<Rightarrow>
        b = book \<and> s = side \<and>
        ((side = ''BUY'' \<and> trade_price \<le> price) \<or> (side = ''SELL'' \<and> price \<le> trade_price)))"

primrec through_groups ::
    "string \<Rightarrow> string \<Rightarrow> decimal \<Rightarrow> int \<Rightarrow> (queue_key \<times> queue_group) list \<Rightarrow> decimal \<Rightarrow>
     (string, decimal) dict \<Rightarrow> queue_estimator \<Rightarrow> ((string, decimal) dict, queue_estimator) outcome" where
  "through_groups book side trade_price now [] rem fills q = Return fills q"
| "through_groups book side trade_price now (entry # gs) rem fills q =
     (if rem \<le> 0 then Return fills q
      else
        let (gkey, g) = entry;
            key = (book, side, group_price g);
            q1 = q\<lparr>compatible_flow := dict_set key (get_or (compatible_flow q) key []
                      @ [(now, rem)]) (compatible_flow q)\<rparr>;
            at_price = (trade_price = group_price g);
            public = min rem (group_public_remaining g);
            g1 = (if at_price
                  then g\<lparr>group_public_remaining := dsub (group_public_remaining g) public\<rparr> else g);
            rem1 = (if at_price then dsub rem public else rem);
            p = consume_orders True at_price now (group_own_orders g1) rem1 fills;
            g2 = g1\<lparr>group_own_orders := pass_orders p\<rparr>;
            q2 = q1\<lparr>groups := dict_set gkey g2 (groups q1),
                    first_fill_waits_us := append_to key (pass_first_waits p) (first_fill_waits_us q1),
                    full_fill_waits_us := append_to key (pass_full_waits p) (full_fill_waits_us q1)\<rparr>
        in and_then (check_group g2 () q2) (\<lambda>_ q3.
             through_groups book side trade_price now gs (pass_remaining p) (pass_fills p) q3))"

definition consume_trade_through ::
    "string \<Rightarrow> string \<Rightarrow> string \<Rightarrow> decimal \<Rightarrow> decimal \<Rightarrow> int \<Rightarrow> queue_estimator \<Rightarrow>
     ((string, decimal) dict, queue_estimator) outcome" where
  "consume_trade_through event_id book side trade_price quantity now q0 =
     and_then (queue_causal now q0) (\<lambda>_ q.
       if event_id \<in> processed_event_ids q
       then Raise (ValueError ''M032_DUPLICATE_TRADE_QUANTITY'') q
       else if side \<notin> {''BUY'', ''SELL''} \<or> quantity < 0
       then Raise (ValueError ''M032_INVALID_COMPATIBLE_FLOW'') q
       else
         let q1 = q\<lparr>processed_event_ids := insert event_id (processed_event_ids q)\<rparr>;
             touched = filter (\<lambda>(key, g). touches book side trade_price key) (groups q1);
             ordered = sort_key (\<lambda>(key, g). if side = ''BUY'' then - group_price g
                                                          else group_price g) touched
         in through_groups book side trade_price now ordered quantity [] q1)"

section \<open>Estimates\<close>

primrec ahead_of :: "string \<Rightarrow> own_order list \<Rightarrow> decimal \<Rightarrow> py_error + decimal" where
  "ahead_of oid [] ahead = Inl KeyError"
| "ahead_of oid (r # rs) ahead =
     (let ahead1 = dadd ahead (own_public_barrier_before r)
      in if own_order_id r = oid then Inr ahead1
         else ahead_of oid rs (dadd ahead1 (own_remaining r)))"

definition queue_ahead :: "string \<Rightarrow> queue_estimator \<Rightarrow> py_error + decimal" where
  "queue_ahead oid q =
     (case dict_get (order_group q) oid of
        None \<Rightarrow> Inl KeyError
      | Some key \<Rightarrow>
          (case dict_get (groups q) key of
             None \<Rightarrow> Inl KeyError
           | Some g \<Rightarrow> ahead_of oid (group_own_orders g) (group_public_remaining g)))"

record queue_estimate =
  est_queue_ahead :: decimal
  est_compatible_flow_per_second :: decimal
  est_expected_clear_seconds :: "decimal option"
  est_fill_probability_30s :: decimal
  est_fill_probability_1m :: decimal
  est_fill_probability_3m :: decimal
  est_fill_probability_5m :: decimal

definition fill_probability :: "decimal option \<Rightarrow> int \<Rightarrow> decimal" where
  "fill_probability clear horizon =
     (case clear of
        None \<Rightarrow> 0
      | Some c \<Rightarrow> if c \<le> 0 then 1 else min 1 (ddiv (of_int horizon) c))"

definition flow_rate :: "int \<Rightarrow> int \<Rightarrow> (int \<times> decimal) list \<Rightarrow> decimal" where
  "flow_rate now cutoff samples =
     (case samples of
        [] \<Rightarrow> 0
      | (t, _) # _ \<Rightarrow>
          let span = max 1 (now - max cutoff t)
          in ddiv (dsum (map snd samples)) (ddiv (of_int span) 1000000))"

definition estimate ::
    "string \<Rightarrow> int \<Rightarrow> queue_estimator \<Rightarrow> (queue_estimate, queue_estimator) outcome" where
  "estimate oid now q0 =
     and_then (queue_causal now q0) (\<lambda>_ q.
       case dict_get (order_group q) oid of
         None \<Rightarrow> Raise KeyError q
       | Some key \<Rightarrow>
           let cutoff = now - flow_window_us q;
               samples = dropWhile (\<lambda>(t, _). t < cutoff) (get_or (compatible_flow q) key []);
               q1 = q\<lparr>compatible_flow := dict_set key samples (compatible_flow q)\<rparr>;
               rate = flow_rate now cutoff samples
           in case queue_ahead oid q1 of
                Inl e \<Rightarrow> Raise e q1
              | Inr ahead \<Rightarrow>
                  let clear = (if rate \<le> 0 then None else Some (ddiv ahead rate))
                  in Return \<lparr>est_queue_ahead = ahead,
                             est_compatible_flow_per_second = rate,
                             est_expected_clear_seconds = clear,
                             est_fill_probability_30s = fill_probability clear 30,
                             est_fill_probability_1m = fill_probability clear 60,
                             est_fill_probability_3m = fill_probability clear 180,
                             est_fill_probability_5m = fill_probability clear 300\<rparr> q1)"

text \<open>
  \<^verbatim>\<open>int(median(waits))\<close>: the middle element, or the truncated mean of the two
  middle elements (exact below \<open>2\<^sup>5\<^sup>3\<close> microseconds, where the code's float division is).
\<close>

definition int_median :: "int list \<Rightarrow> int option" where
  "int_median xs =
     (let s = sort xs; n = length s
      in if n = 0 then None
         else if odd n then Some (s ! (n div 2))
         else Some (dtrunc (of_int (s ! (n div 2 - 1) + s ! (n div 2)) / 2)))"

definition percentile_index :: "nat \<Rightarrow> decimal \<Rightarrow> int" where
  "percentile_index n rank = \<lceil>dmul (dsub (of_nat n) 1) rank\<rceil>"

text \<open>\<^verbatim>\<open>_percentile\<close> on a rank between 0 and 1, where the index is in range.\<close>

definition percentile :: "int list \<Rightarrow> decimal \<Rightarrow> int option" where
  "percentile xs rank =
     (if xs = [] then None else Some (sort xs ! nat (percentile_index (length xs) rank)))"

definition percentile_decimal :: "decimal list \<Rightarrow> decimal \<Rightarrow> py_error + decimal" where
  "percentile_decimal xs rank =
     (if xs = [] then Inl (ValueError ''M034_EMPTY_PERCENTILE'')
      else Inr (sort xs ! nat (percentile_index (length xs) rank)))"

record wait_distribution =
  median_first_fill_us :: "int option"
  median_full_fill_us :: "int option"
  p90_full_fill_us :: "int option"
  p95_full_fill_us :: "int option"

definition wait_distribution_at ::
    "string \<Rightarrow> string \<Rightarrow> decimal \<Rightarrow> queue_estimator \<Rightarrow> wait_distribution" where
  "wait_distribution_at book side price q =
     (let first = get_or (first_fill_waits_us q) (book, side, price) [];
          waits = get_or (full_fill_waits_us q) (book, side, price) []
      in \<lparr>median_first_fill_us = int_median first, median_full_fill_us = int_median waits,
          p90_full_fill_us = percentile waits (90 / 100),
          p95_full_fill_us = percentile waits (95 / 100)\<rparr>)"

end
