(* ===== verification/Causal_Queue_Inv.thy ===== *)
theory Causal_Queue_Inv
  imports Causal_Queue
begin

text \<open>
  The invariant of the queue estimator: every group is keyed by its own book, side and price,
  its own orders stand in activation order with distinct columns among the active ones, no
  remaining quantity is negative, and the order index and the groups agree. Every operation
  keeps it, whether it returns or raises, so the five validation errors of
  \<^verbatim>\<open>QueueGroup.validate\<close> are unreachable.
\<close>

section \<open>The queue invariant\<close>

definition group_inv :: "int \<Rightarrow> nat \<Rightarrow> queue_key \<Rightarrow> queue_group \<Rightarrow> bool" where
  "group_inv now nxt key g \<longleftrightarrow>
     key = (group_book g, group_side g, group_price g) \<and>
     0 \<le> group_public_remaining g \<and>
     (\<forall>r \<in> set (group_own_orders g). 0 \<le> own_remaining r \<and> 0 \<le> own_public_barrier_before r \<and>
        own_activated_at_us r \<le> now \<and> own_activation_sequence r < nxt \<and> own_column r \<in> {1, 2}) \<and>
     sorted_wrt (<) (map fifo_key (group_own_orders g)) \<and>
     distinct (map own_order_id (group_own_orders g)) \<and>
     distinct (map own_column (active_orders g))"

definition queue_inv :: "queue_estimator \<Rightarrow> bool" where
  "queue_inv q \<longleftrightarrow>
     distinct (keys (groups q)) \<and>
     (\<forall>key g. dict_get (groups q) key = Some g \<longrightarrow>
        group_inv (last_time_us q) (next_activation_sequence q) key g) \<and>
     (\<forall>key g r. dict_get (groups q) key = Some g \<longrightarrow> r \<in> set (group_own_orders g) \<longrightarrow>
        dict_get (order_group q) (own_order_id r) = Some key) \<and>
     (\<forall>oid key. dict_get (order_group q) oid = Some key \<longrightarrow>
        (\<exists>g. dict_get (groups q) key = Some g \<and> oid \<in> own_order_id ` set (group_own_orders g)))"

lemma sorted_wrt_less_sorted: "sorted_wrt (<) xs \<Longrightarrow> sorted (xs :: 'a::linorder list)"
  by (simp add: strict_sorted_iff)

lemma active_fifo:
  "sorted_wrt (<) (map fifo_key (group_own_orders g)) \<Longrightarrow>
     sort_key fifo_key (active_orders g) = active_orders g"
  unfolding active_orders_def
  by (intro sort_key_sorted sorted_wrt_less_sorted) (auto simp: sorted_wrt_map sorted_wrt_filter)

lemma two_columns: "distinct (map own_column rs) \<Longrightarrow> set (map own_column rs) \<subseteq> {1, 2} \<Longrightarrow> length rs \<le> 2"
  using card_mono [of "{1, 2::int}" "set (map own_column rs)"] distinct_card [of "map own_column rs"]
  by simp

lemma validate_group_inv: "group_inv now nxt key g \<Longrightarrow> validate_group g = None"
proof -
  assume inv: "group_inv now nxt key g"
  then have c: "distinct (map own_column (active_orders g))" by (simp add: group_inv_def)
  have "set (map own_column (active_orders g)) \<subseteq> {1, 2}"
    using inv by (auto simp: group_inv_def active_orders_def)
  then have "length (active_orders g) \<le> 2" using c by (rule two_columns [rotated])
  moreover have "card (set (map own_column (active_orders g))) = length (active_orders g)"
    using distinct_card [OF c] by simp
  moreover have "sort_key fifo_key (active_orders g) = active_orders g"
    using inv by (intro active_fifo) (simp add: group_inv_def)
  ultimately show ?thesis
    using inv by (auto simp: validate_group_def group_inv_def active_orders_def Let_def)
qed

lemma group_inv_later:
  "group_inv now nxt key g \<Longrightarrow> now \<le> now' \<Longrightarrow> nxt \<le> nxt' \<Longrightarrow> group_inv now' nxt' key g"
  unfolding group_inv_def by (meson order_trans less_le_trans)

lemma queue_inv_time: "queue_inv q \<Longrightarrow> last_time_us q \<le> now \<Longrightarrow> queue_inv (q\<lparr>last_time_us := now\<rparr>)"
  unfolding queue_inv_def by (auto intro: group_inv_later)

lemma queue_causal_cases:
  "queue_causal now q = Return u q' \<longleftrightarrow> last_time_us q \<le> now \<and> q' = q\<lparr>last_time_us := now\<rparr>"
  "queue_causal now q = Raise e q' \<longleftrightarrow>
     now < last_time_us q \<and> e = ValueError ''M032_FUTURE_OR_REORDERED_QUEUE_EVENT'' \<and> q' = q"
  by (auto simp: queue_causal_def)

lemma queue_inv_default: "queue_inv default_queue"
  by (simp add: queue_inv_def default_queue_def)

lemma queue_inv_owner:
  "queue_inv q \<Longrightarrow> dict_get (groups q) key = Some g \<Longrightarrow> r \<in> set (group_own_orders g) \<Longrightarrow>
     dict_get (order_group q) (own_order_id r) = Some key"
  unfolding queue_inv_def by blast

lemma queue_inv_group:
  "queue_inv q \<Longrightarrow> dict_get (groups q) key = Some g \<Longrightarrow>
     group_inv (last_time_us q) (next_activation_sequence q) key g"
  unfolding queue_inv_def by blast

lemma queue_inv_order:
  "queue_inv q \<Longrightarrow> dict_get (order_group q) oid = Some key \<Longrightarrow>
     \<exists>g. dict_get (groups q) key = Some g \<and> oid \<in> own_order_id ` set (group_own_orders g)"
  unfolding queue_inv_def by blast

lemma queue_inv_distinct: "queue_inv q \<Longrightarrow> distinct (keys (groups q))"
  unfolding queue_inv_def by blast

text \<open>Replacing one group by one with the same orders (up to their fill state).\<close>

lemma queue_inv_set_group:
  assumes inv: "queue_inv q" and g: "dict_get (groups q) key = Some g"
    and g': "group_inv (last_time_us q) (next_activation_sequence q) key g'"
    and ids: "map own_order_id (group_own_orders g') = map own_order_id (group_own_orders g)"
    and q': "groups q' = dict_set key g' (groups q)" "order_group q' = order_group q"
      "last_time_us q' = last_time_us q"
      "next_activation_sequence q' = next_activation_sequence q"
  shows "queue_inv q'"
proof -
  have idset: "own_order_id ` set (group_own_orders g') = own_order_id ` set (group_own_orders g)"
    using ids by (metis list.set_map)
  show ?thesis unfolding queue_inv_def q'
  proof (intro conjI allI impI)
    show "distinct (keys (dict_set key g' (groups q)))" using inv by (simp add: queue_inv_def)
  next
    fix k h assume "dict_get (dict_set key g' (groups q)) k = Some h"
    then show "group_inv (last_time_us q) (next_activation_sequence q) k h"
      using inv g' by (auto simp: queue_inv_def split: if_splits)
  next
    fix k h r
    assume h: "dict_get (dict_set key g' (groups q)) k = Some h" and r: "r \<in> set (group_own_orders h)"
    show "dict_get (order_group q) (own_order_id r) = Some k"
    proof (cases "k = key")
      case True
      then have "own_order_id r \<in> own_order_id ` set (group_own_orders g)" using h r idset by auto
      then show ?thesis using queue_inv_owner [OF inv g] True by auto
    next
      case False
      then show ?thesis using queue_inv_owner [OF inv _ r] h by simp
    qed
  next
    fix oid k assume "dict_get (order_group q) oid = Some k"
    then obtain h where "dict_get (groups q) k = Some h" "oid \<in> own_order_id ` set (group_own_orders h)"
      using queue_inv_order [OF inv] by blast
    then show "\<exists>h. dict_get (dict_set key g' (groups q)) k = Some h \<and>
        oid \<in> own_order_id ` set (group_own_orders h)"
      using g idset by (cases "k = key") auto
  qed
qed

section \<open>What a pass over the own orders does\<close>

definition order_step :: "own_order \<Rightarrow> own_order \<Rightarrow> bool" where
  "order_step r r' \<longleftrightarrow>
     own_order_id r' = own_order_id r \<and> own_column r' = own_column r \<and>
     own_quantity r' = own_quantity r \<and> fifo_key r' = fifo_key r \<and>
     0 \<le> own_remaining r' \<and> (0 < own_remaining r' \<longrightarrow> 0 < own_remaining r) \<and>
     0 \<le> own_public_barrier_before r'"

lemma order_step_refl:
  "0 \<le> own_remaining r \<Longrightarrow> 0 \<le> own_public_barrier_before r \<Longrightarrow> order_step r r"
  by (simp add: order_step_def)

lemma pass_barrier_props:
  assumes "pass_barrier at_price r rem = (r1, rem1)" and "0 < rem" and "0 \<le> own_public_barrier_before r"
  shows "r1 = r\<lparr>own_public_barrier_before := own_public_barrier_before r1\<rparr>"
    and "0 \<le> own_public_barrier_before r1" and "0 \<le> rem1"
  using assms by (auto simp: pass_barrier_def Let_def split: if_splits)

lemma note_first_fill_fields:
  assumes "note_first_fill now a r = (r', w)"
  shows "own_order_id r' = own_order_id r" "own_column r' = own_column r"
    "own_quantity r' = own_quantity r" "own_remaining r' = own_remaining r" "fifo_key r' = fifo_key r"
    "own_public_barrier_before r' = own_public_barrier_before r"
    "own_activated_at_us r' = own_activated_at_us r"
  using assms by (auto simp: note_first_fill_def fifo_key_def split: if_splits)

lemma note_full_fill_fields:
  assumes "note_full_fill now r = (r', w)"
  shows "own_order_id r' = own_order_id r" "own_column r' = own_column r"
    "own_quantity r' = own_quantity r" "own_remaining r' = own_remaining r" "fifo_key r' = fifo_key r"
    "own_public_barrier_before r' = own_public_barrier_before r"
    "own_activated_at_us r' = own_activated_at_us r"
  using assms by (auto simp: note_full_fill_def fifo_key_def split: if_splits)

lemmas note_fields = note_first_fill_fields note_full_fill_fields

text \<open>One step of the loop, with its intermediate values named.\<close>

lemma consume_orders_step:
  assumes "0 < rem"
  obtains (stop) r1 rem1 where "pass_barrier at_price r rem = (r1, rem1)" "rem1 \<le> 0"
      "consume_orders acc at_price now (r # rs) rem fills =
         \<lparr>pass_orders = r1 # rs, pass_remaining = rem1, pass_fills = fills,
          pass_first_waits = [], pass_full_waits = []\<rparr>"
    | (fill) r1 rem1 amount r4 p where "pass_barrier at_price r rem = (r1, rem1)" "0 < rem1"
      "amount = min (own_remaining r1) rem1"
      "own_order_id r4 = own_order_id r1" "own_column r4 = own_column r1"
      "own_quantity r4 = own_quantity r1" "fifo_key r4 = fifo_key r1"
      "own_remaining r4 = dsub (own_remaining r1) amount"
      "own_public_barrier_before r4 = own_public_barrier_before r1"
      "p = consume_orders acc at_price now rs (dsub rem1 amount)
             (note_fill acc amount (own_order_id r) fills)"
      "pass_orders (consume_orders acc at_price now (r # rs) rem fills) = r4 # pass_orders p"
      "pass_remaining (consume_orders acc at_price now (r # rs) rem fills) = pass_remaining p"
      "pass_fills (consume_orders acc at_price now (r # rs) rem fills) = pass_fills p"
proof -
  obtain r1 rem1 where b: "pass_barrier at_price r rem = (r1, rem1)" by fastforce
  show thesis
  proof (cases "rem1 \<le> 0")
    case True
    then show thesis using b assms by (intro stop [OF b]) auto
  next
    case False
    define amount where "amount = min (own_remaining r1) rem1"
    obtain r3 w3 where r3: "note_first_fill now amount
        (r1\<lparr>own_remaining := dsub (own_remaining r1) amount\<rparr>) = (r3, w3)" by fastforce
    obtain r4 w4 where r4: "note_full_fill now r3 = (r4, w4)" by fastforce
    note f = note_first_fill_fields [OF r3] note_full_fill_fields [OF r4]
    show thesis
      using False assms b r3 r4 f
      by (intro fill [OF b _ amount_def, of r4]) (auto simp: amount_def [symmetric] Let_def fifo_key_def)
  qed
qed

lemma consume_orders_stop [simp]:
  "rem \<le> 0 \<Longrightarrow> consume_orders acc at_price now rs rem fills =
     \<lparr>pass_orders = rs, pass_remaining = rem, pass_fills = fills,
      pass_first_waits = [], pass_full_waits = []\<rparr>"
  by (cases rs) auto

declare consume_orders.simps(2) [simp del]

lemma consume_orders_steps:
  "\<forall>r \<in> set rs. 0 \<le> own_remaining r \<and> 0 \<le> own_public_barrier_before r \<Longrightarrow>
     list_all2 order_step rs (pass_orders (consume_orders acc at_price now rs rem fills))"
proof (induction rs arbitrary: rem fills)
  case (Cons r rs)
  have refl: "list_all2 order_step xs xs" if "set xs \<subseteq> set (r # rs)" for xs
    using that Cons.prems by (auto simp: list_all2_same intro!: order_step_refl)
  show ?case
  proof (cases "rem \<le> 0")
    case True
    then show ?thesis using refl [of "r # rs"] by simp
  next
    case False
    then have pos: "0 < rem" by simp
    from pos show ?thesis
    proof (cases rule: consume_orders_step [where at_price = at_price and r = r and acc = acc
          and now = now and rs = rs and fills = fills])
      case (stop r1 rem1)
      then have "order_step r r1"
        using pass_barrier_props [OF stop(1) pos] Cons.prems
        unfolding order_step_def fifo_key_def by (cases r1; cases r) auto
      then show ?thesis using stop(3) refl [of rs] by auto
    next
      case (fill r1 rem1 amount r4 p)
      have "order_step r r4"
        using pass_barrier_props [OF fill(1) pos] fill Cons.prems unfolding order_step_def fifo_key_def
        by (cases r1; cases r) (auto simp: min_def)
      then show ?thesis using fill Cons by auto
    qed
  qed
qed simp


lemma order_steps_maps:
  "list_all2 order_step rs rs' \<Longrightarrow>
     map own_order_id rs' = map own_order_id rs \<and> map fifo_key rs' = map fifo_key rs \<and>
     map own_column rs' = map own_column rs"
  by (induction rule: list_all2_induct) (auto simp: order_step_def)

lemma order_steps_columns:
  "list_all2 order_step rs rs' \<Longrightarrow>
     set (map own_column (filter (\<lambda>r. 0 < own_remaining r) rs'))
       \<subseteq> set (map own_column (filter (\<lambda>r. 0 < own_remaining r) rs)) \<and>
     (distinct (map own_column (filter (\<lambda>r. 0 < own_remaining r) rs)) \<longrightarrow>
      distinct (map own_column (filter (\<lambda>r. 0 < own_remaining r) rs')))"
  by (induction rule: list_all2_induct) (auto simp: order_step_def)

lemma order_steps_from:
  "list_all2 order_step rs rs' \<Longrightarrow> r' \<in> set rs' \<Longrightarrow> \<exists>r \<in> set rs. order_step r r'"
  by (induction rule: list_all2_induct) auto

lemma order_steps_ball:
  assumes "list_all2 order_step rs rs'"
    and "\<forall>r \<in> set rs. own_activated_at_us r \<le> now \<and> own_activation_sequence r < nxt \<and> own_column r \<in> {1, 2}"
  shows "\<forall>r \<in> set rs'. 0 \<le> own_remaining r \<and> 0 \<le> own_public_barrier_before r \<and>
      own_activated_at_us r \<le> now \<and> own_activation_sequence r < nxt \<and> own_column r \<in> {1, 2}"
proof
  fix r' assume "r' \<in> set rs'"
  then obtain r where "r \<in> set rs" "order_step r r'"
    using order_steps_from [OF assms(1)] by blast
  then show "0 \<le> own_remaining r' \<and> 0 \<le> own_public_barrier_before r' \<and>
      own_activated_at_us r' \<le> now \<and> own_activation_sequence r' < nxt \<and> own_column r' \<in> {1, 2}"
    using assms(2) by (simp add: order_step_def fifo_key_def)
qed

lemma group_inv_pass:
  assumes "group_inv now nxt key g" and "list_all2 order_step (group_own_orders g) os" and "0 \<le> pub"
  shows "group_inv now nxt key (g\<lparr>group_public_remaining := pub, group_own_orders := os\<rparr>)"
proof -
  have "\<forall>r \<in> set (group_own_orders g). own_activated_at_us r \<le> now \<and>
      own_activation_sequence r < nxt \<and> own_column r \<in> {1, 2}"
    using assms(1) by (simp add: group_inv_def)
  note b = order_steps_ball [OF assms(2) this]
  have "distinct (map own_column (filter (\<lambda>r. 0 < own_remaining r) os))"
    using order_steps_columns [OF assms(2)] assms(1) by (simp add: group_inv_def active_orders_def)
  then show ?thesis
    using assms(1,3) b order_steps_maps [OF assms(2)]
    by (simp add: group_inv_def active_orders_def)
qed

section \<open>Every operation keeps the invariant\<close>

lemma check_group_inv:
  "group_inv now nxt key g \<Longrightarrow> check_group g r q = Return r q"
  by (simp add: check_group_def validate_group_inv)

lemma group_inv_opened:
  "queue_inv q \<Longrightarrow> group_inv (last_time_us q) (next_activation_sequence q) (book, side, price)
     (new_epoch observed (opened_group book side price observed q))"
proof (cases "dict_get (groups q) (book, side, price)")
  case None
  then show ?thesis by (simp add: new_epoch_def opened_group_def group_inv_def active_orders_def)
next
  case (Some g)
  assume "queue_inv q"
  then have "group_inv (last_time_us q) (next_activation_sequence q) (book, side, price) g"
    using Some by (rule queue_inv_group)
  then show ?thesis using Some
    by (simp add: opened_group_def new_epoch_def) (simp add: group_inv_def active_orders_def)
qed

lemma opened_orders:
  "group_own_orders (new_epoch observed (opened_group book side price observed q)) =
     (case dict_get (groups q) (book, side, price) of None \<Rightarrow> [] | Some g \<Rightarrow> group_own_orders g)"
  by (simp add: new_epoch_def opened_group_def split: option.splits)

lemma group_inv_append:
  assumes g: "group_inv now nxt key g" and r: "own_activated_at_us r = now" "own_activation_sequence r = nxt"
    "own_column r \<in> {1, 2}" "0 \<le> own_remaining r" "0 \<le> own_public_barrier_before r"
    and fresh: "own_order_id r \<notin> own_order_id ` set (group_own_orders g)"
    and col: "\<forall>x \<in> set (active_orders g). own_column x \<noteq> own_column r"
  shows "sort_key fifo_key (group_own_orders g @ [r]) = group_own_orders g @ [r]"
    and "group_inv now (Suc nxt) key (g\<lparr>group_own_orders := group_own_orders g @ [r]\<rparr>)"
proof -
  have later: "fifo_key x < fifo_key r" if "x \<in> set (group_own_orders g)" for x
    using that g r by (auto simp: group_inv_def fifo_key_def less_prod_def)
  have srt: "sorted_wrt (<) (map fifo_key (group_own_orders g @ [r]))"
    using g later by (auto simp: group_inv_def sorted_wrt_append)
  then show "sort_key fifo_key (group_own_orders g @ [r]) = group_own_orders g @ [r]"
    by (intro sort_key_sorted sorted_wrt_less_sorted)
  show "group_inv now (Suc nxt) key (g\<lparr>group_own_orders := group_own_orders g @ [r]\<rparr>)"
    using g r fresh col srt unfolding group_inv_def active_orders_def by (auto simp: less_Suc_eq)
qed

text \<open>The order joins the group: the new order is the last of the group.\<close>

lemma enqueue_inv:
  assumes inv: "queue_inv q" and key: "key = (book, side, price)"
    and g: "g = new_epoch observed (opened_group book side price observed q)"
    and r: "own_activated_at_us r = last_time_us q"
      "own_activation_sequence r = next_activation_sequence q" "own_column r \<in> {1, 2}"
      "0 \<le> own_remaining r" "0 \<le> own_public_barrier_before r"
    and fresh: "\<not> has_key (order_group q) (own_order_id r)"
    and col: "\<forall>x \<in> set (active_orders g). own_column x \<noteq> own_column r"
  defines "q1 \<equiv> q\<lparr>groups := dict_set key g (groups q)\<rparr>"
  shows "\<exists>q'. enqueue key g r q1 = Return r q' \<and> queue_inv q' \<and> last_time_us q' = last_time_us q \<and>
           dict_get (groups q') key = Some (g\<lparr>group_own_orders := group_own_orders g @ [r]\<rparr>)"
proof -
  have orders: "group_own_orders g =
      (case dict_get (groups q) key of None \<Rightarrow> [] | Some h \<Rightarrow> group_own_orders h)"
    by (simp add: g key opened_orders)
  have own: "dict_get (order_group q) (own_order_id x) = Some key" if "x \<in> set (group_own_orders g)" for x
    using that queue_inv_owner [OF inv, of key]
    by (cases "dict_get (groups q) key") (auto simp: orders)
  have new: "own_order_id r \<notin> own_order_id ` set (group_own_orders g)"
    using own fresh by (auto simp: has_key_iff)
  have gi: "group_inv (last_time_us q) (next_activation_sequence q) key g"
    using group_inv_opened [OF inv] by (simp add: g key)
  note app = group_inv_append [OF gi r new col]
  define g2 where "g2 = g\<lparr>group_own_orders := group_own_orders g @ [r]\<rparr>"
  define q2 where "q2 = q1\<lparr>next_activation_sequence := Suc (next_activation_sequence q1),
      groups := dict_set key g2 (groups q1), order_group := dict_set (own_order_id r) key (order_group q1)\<rparr>"
  have "enqueue key g r q1 = Return r q2"
    using check_group_inv [OF app(2)] by (simp add: enqueue_def Let_def app(1) g2_def q2_def)
  moreover have "queue_inv q2"
    unfolding queue_inv_def
  proof (intro conjI allI impI)
    show "distinct (keys (groups q2))" using queue_inv_distinct [OF inv] by (simp add: q2_def q1_def)
  next
    fix k h assume "dict_get (groups q2) k = Some h"
    then show "group_inv (last_time_us q2) (next_activation_sequence q2) k h"
      using app(2) queue_inv_group [OF inv, of k h] unfolding g2_def q2_def q1_def
      by (auto split: if_splits intro: group_inv_later)
  next
    fix k h x assume "dict_get (groups q2) k = Some h" "x \<in> set (group_own_orders h)"
    then show "dict_get (order_group q2) (own_order_id x) = Some k"
      using own queue_inv_owner [OF inv, of k h x] fresh
      by (auto simp: q2_def q1_def g2_def has_key_iff split: if_splits)
  next
    fix x k assume *: "dict_get (order_group q2) x = Some k"
    show "\<exists>h. dict_get (groups q2) k = Some h \<and> x \<in> own_order_id ` set (group_own_orders h)"
    proof (cases "x = own_order_id r")
      case True
      then show ?thesis using * by (auto simp: q2_def q1_def g2_def)
    next
      case False
      then have "dict_get (order_group q) x = Some k" using * by (simp add: q2_def q1_def)
      then obtain h where "dict_get (groups q) k = Some h" "x \<in> own_order_id ` set (group_own_orders h)"
        using queue_inv_order [OF inv] by blast
      then show ?thesis by (cases "k = key") (auto simp: q2_def q1_def g2_def orders)
    qed
  qed
  ultimately show ?thesis by (auto simp: q2_def q1_def g2_def)
qed

lemma later_public_cohort_nonneg: "0 \<le> later_public_cohort observed g"
  by (simp add: later_public_cohort_def Let_def)

lemma activate_inv:
  assumes inv: "queue_inv q" and res: "activate book side price oid column quantity observed now q = Return r q'"
  shows "queue_inv q'" and "last_time_us q \<le> now" and "last_time_us q' = now"
    and "own_order_id r = oid" and "own_remaining r = quantity"
    and "\<exists>g. dict_get (groups q') (book, side, price) = Some g \<and> last (group_own_orders g) = r"
proof -
  let ?q = "q\<lparr>last_time_us := now\<rparr>"
  let ?g = "new_epoch observed (opened_group book side price observed ?q)"
  let ?r = "\<lparr>own_order_id = oid, own_column = column, own_quantity = quantity,
      own_remaining = quantity, own_activated_at_us = now,
      own_activation_sequence = next_activation_sequence q,
      own_public_barrier_before = later_public_cohort observed ?g,
      own_first_fill_at_us = None, own_filled_at_us = None\<rparr>"
  have time: "last_time_us q \<le> now" using res by (auto simp: activate_def queue_causal_cases)
  have guards: "column \<in> {1, 2}" "0 < quantity" "\<not> has_key (order_group q) oid"
    and col: "\<forall>x \<in> set (active_orders ?g). own_column x \<noteq> column"
    and enq: "enqueue (book, side, price) ?g ?r
        (?q\<lparr>groups := dict_set (book, side, price) ?g (groups ?q)\<rparr>) = Return r q'"
    using res by (auto simp: activate_def queue_causal_cases Let_def split: if_splits)
  note e = enqueue_inv [OF queue_inv_time [OF inv time] refl refl, of ?r observed book side price]
  from e guards col later_public_cohort_nonneg enq
  have *: "r = ?r \<and> queue_inv q' \<and> last_time_us q' = now \<and>
      dict_get (groups q') (book, side, price) = Some (?g\<lparr>group_own_orders := group_own_orders ?g @ [?r]\<rparr>)"
    by auto
  show "queue_inv q'" "last_time_us q \<le> now" "last_time_us q' = now" "own_order_id r = oid"
    "own_remaining r = quantity"
    using * time by auto
  show "\<exists>g. dict_get (groups q') (book, side, price) = Some g \<and> last (group_own_orders g) = r"
    using * by auto
qed

lemma with_own_Return:
  "with_own oid q k = Return r q' \<longleftrightarrow>
     (\<exists>key g x. dict_get (order_group q) oid = Some key \<and> dict_get (groups q) key = Some g \<and>
        find_own g oid = Some x \<and> k key g x = Return r q')"
  by (auto simp: with_own_def split: option.splits)

lemma with_own_Raise:
  "with_own oid q k = Raise e q' \<Longrightarrow>
     q' = q \<or> (\<exists>key g x. dict_get (order_group q) oid = Some key \<and> dict_get (groups q) key = Some g \<and>
        find_own g oid = Some x \<and> k key g x = Raise e q')"
  by (auto simp: with_own_def split: option.splits)

lemma find_own_Some: "find_own g oid = Some x \<Longrightarrow> x \<in> set (group_own_orders g) \<and> own_order_id x = oid"
  by (auto simp: find_own_def find_Some_iff)

lemma find_own_inv:
  assumes "queue_inv q" and "dict_get (order_group q) oid = Some key"
  obtains g x where "dict_get (groups q) key = Some g" "find_own g oid = Some x"
    "x \<in> set (group_own_orders g)" "own_order_id x = oid"
proof -
  obtain g where g: "dict_get (groups q) key = Some g" "oid \<in> own_order_id ` set (group_own_orders g)"
    using queue_inv_order [OF assms] by blast
  then obtain x where "find_own g oid = Some x"
    by (cases "find_own g oid") (auto simp: find_own_def find_None_iff)
  then show thesis using that [OF g(1)] find_own_Some by blast
qed

lemma group_inv_remove1:
  assumes "group_inv now nxt key g"
  shows "group_inv now nxt key (g\<lparr>group_own_orders := remove1 r (group_own_orders g)\<rparr>)"
proof -
  have m: "\<exists>ys zs. (xs = ys @ zs \<or> xs = ys @ r # zs) \<and> remove1 r xs = ys @ zs" for xs
  proof (cases "r \<in> set xs")
    case True
    then obtain ys zs where "xs = ys @ r # zs" "r \<notin> set ys" using split_list_first by fastforce
    then show ?thesis by (auto simp: remove1_append)
  next
    case False
    then show ?thesis by (intro exI [of _ xs] exI [of _ "[]"]) (simp add: remove1_idem)
  qed
  have "filter P (remove1 r xs) = (if P r then remove1 r (filter P xs) else filter P xs)"
    for P :: "own_order \<Rightarrow> bool" and xs by (induction xs) auto
  then have f: "active_orders (g\<lparr>group_own_orders := remove1 r (group_own_orders g)\<rparr>) =
      (if 0 < own_remaining r then remove1 r (active_orders g) else active_orders g)"
    by (simp add: active_orders_def)
  have "sorted_wrt (<) (map fifo_key (remove1 r (group_own_orders g)))"
    using assms m [of "group_own_orders g"] by (auto simp: group_inv_def sorted_wrt_append)
  moreover have "distinct (map own_order_id (remove1 r (group_own_orders g)))"
    using assms m [of "group_own_orders g"] by (auto simp: group_inv_def)
  moreover have "distinct (map own_column (active_orders (g\<lparr>group_own_orders := remove1 r (group_own_orders g)\<rparr>)))"
    using assms m [of "active_orders g"] unfolding f by (auto simp: group_inv_def)
  ultimately show ?thesis
    using assms notin_set_remove1 [of _ "group_own_orders g" r] unfolding group_inv_def by auto
qed

lemma remove_own_inv:
  assumes inv: "queue_inv q" and key: "dict_get (order_group q) oid = Some key"
    and g: "dict_get (groups q) key = Some g" and r: "find_own g oid = Some r"
  shows "\<exists>q'. remove_own oid key g r q = Return (own_remaining r) q' \<and> queue_inv q' \<and>
           last_time_us q' = last_time_us q \<and> \<not> has_key (order_group q') oid"
proof -
  let ?g = "g\<lparr>group_own_orders := remove1 r (group_own_orders g)\<rparr>"
  let ?q = "q\<lparr>groups := dict_set key ?g (groups q), order_group := dict_del oid (order_group q)\<rparr>"
  note gi = group_inv_remove1 [OF queue_inv_group [OF inv g], of r]
  have dist: "distinct (map own_order_id (group_own_orders g))"
    using queue_inv_group [OF inv g] by (simp add: group_inv_def)
  then have set1: "set (remove1 r (group_own_orders g)) = set (group_own_orders g) - {r}"
    by (intro set_remove1_eq) (simp add: distinct_map)
  have other: "own_order_id x \<noteq> oid" if "x \<in> set (group_own_orders g)" "x \<noteq> r" for x
    using that dist find_own_Some [OF r] by (auto simp: distinct_map inj_on_def)
  have "queue_inv ?q"
    unfolding queue_inv_def
  proof (intro conjI allI impI)
    show "distinct (keys (groups ?q))" using queue_inv_distinct [OF inv] by simp
  next
    fix k h assume "dict_get (groups ?q) k = Some h"
    then show "group_inv (last_time_us ?q) (next_activation_sequence ?q) k h"
      using gi queue_inv_group [OF inv, of k h] by (cases "k = key") simp_all
  next
    fix k h x assume h: "dict_get (groups ?q) k = Some h" "x \<in> set (group_own_orders h)"
    show "dict_get (order_group ?q) (own_order_id x) = Some k"
    proof (cases "k = key")
      case True
      then have "h = ?g" using h(1) by simp
      then have "x \<in> set (group_own_orders g)" "x \<noteq> r" using h(2) set1 by simp_all
      then show ?thesis using other queue_inv_owner [OF inv g] True by simp
    next
      case False
      then have "dict_get (order_group q) (own_order_id x) = Some k"
        using queue_inv_owner [OF inv, of k h x] h by simp
      moreover have "own_order_id x \<noteq> oid" using calculation key False by force
      ultimately show ?thesis by simp
    qed
  next
    fix x k assume x: "dict_get (order_group ?q) x = Some k"
    then have neq: "x \<noteq> oid" and "dict_get (order_group q) x = Some k" by (auto split: if_splits)
    then obtain h y where h: "dict_get (groups q) k = Some h" "y \<in> set (group_own_orders h)"
      "own_order_id y = x" using queue_inv_order [OF inv] by blast
    then have "y \<noteq> r" using neq find_own_Some [OF r] by auto
    then show "\<exists>h. dict_get (groups ?q) k = Some h \<and> x \<in> own_order_id ` set (group_own_orders h)"
      using h g set1 by (cases "k = key") force+
  qed
  then show ?thesis
    by (simp add: check_group_inv [OF gi] remove_own_def Let_def has_key_iff)
qed

lemma cancel_ack_inv:
  assumes inv: "queue_inv q" and res: "cancel_ack oid now q = Return x q'"
  shows "queue_inv q'" and "last_time_us q \<le> now" and "last_time_us q' = now"
    and "\<not> has_key (order_group q') oid"
proof -
  obtain key g r where *: "last_time_us q \<le> now" "dict_get (order_group q) oid = Some key"
    "dict_get (groups q) key = Some g" "find_own g oid = Some r"
    "remove_own oid key g r (q\<lparr>last_time_us := now\<rparr>) = Return x q'"
    using res by (auto simp: cancel_ack_def queue_causal_cases with_own_Return split: if_splits)
  with remove_own_inv [OF queue_inv_time [OF inv *(1)], of oid key g r]
  show "queue_inv q'" "last_time_us q \<le> now" "last_time_us q' = now" "\<not> has_key (order_group q') oid"
    by auto
qed

lemma cancel_ack_racing_inv:
  assumes inv: "queue_inv q" and res: "cancel_ack_after_racing_fill oid now q = Return x q'"
  shows "queue_inv q'" and "last_time_us q \<le> now" and "last_time_us q' = now"
    and "\<not> has_key (order_group q') oid"
proof -
  obtain key g r where *: "last_time_us q \<le> now" "dict_get (order_group q) oid = Some key"
    "dict_get (groups q) key = Some g" "find_own g oid = Some r"
    "remove_own oid key g r (q\<lparr>last_time_us := now\<rparr>) = Return x q'"
    using res by (auto simp: cancel_ack_after_racing_fill_def queue_causal_cases with_own_Return)
  with remove_own_inv [OF queue_inv_time [OF inv *(1)], of oid key g r]
  show "queue_inv q'" "last_time_us q \<le> now" "last_time_us q' = now" "\<not> has_key (order_group q') oid"
    by auto
qed

text \<open>The bookkeeping fields do not occur in the invariant.\<close>

lemma queue_inv_frame:
  "groups q' = groups q \<Longrightarrow> order_group q' = order_group q \<Longrightarrow> last_time_us q' = last_time_us q \<Longrightarrow>
     next_activation_sequence q' = next_activation_sequence q \<Longrightarrow> queue_inv q' = queue_inv q"
  by (simp add: queue_inv_def)

text \<open>One group consumed: public depth first, then the own orders.\<close>

lemma consumed_group_inv:
  assumes "group_inv now nxt key g" and "0 \<le> pub"
  shows "group_inv now nxt key (g\<lparr>group_public_remaining := pub,
      group_own_orders := pass_orders (consume_orders acc at_price t (group_own_orders g) rem fills)\<rparr>)"
  using assms by (intro group_inv_pass consume_orders_steps) (auto simp: group_inv_def)

lemma consumed_ids:
  assumes "group_inv now nxt key g"
  shows "map own_order_id (pass_orders (consume_orders acc at_price t (group_own_orders g) rem fills)) =
         map own_order_id (group_own_orders g)"
proof -
  have "\<forall>r \<in> set (group_own_orders g). 0 \<le> own_remaining r \<and> 0 \<le> own_public_barrier_before r"
    using assms by (auto simp: group_inv_def)
  from order_steps_maps [OF consume_orders_steps [OF this]] show ?thesis by simp
qed

lemma consume_compatible_flow_group:
  assumes inv: "queue_inv q" and time: "last_time_us q \<le> now" and new: "event_id \<notin> processed_event_ids q"
    and q0: "0 \<le> quantity" and g: "dict_get (groups q) (book, side, price) = Some g"
  defines "public \<equiv> min quantity (group_public_remaining g)"
  defines "p \<equiv> consume_orders False True now (group_own_orders g) (dsub quantity public) []"
  defines "g' \<equiv> g\<lparr>group_public_remaining := dsub (group_public_remaining g) public,
                   group_own_orders := pass_orders p\<rparr>"
  shows "\<exists>q'. consume_compatible_flow event_id book side price quantity now q = Return (pass_fills p) q' \<and>
           queue_inv q' \<and> last_time_us q' = now \<and> event_id \<in> processed_event_ids q' \<and>
           groups q' = dict_set (book, side, price) g' (groups q)"
proof -
  let ?key = "(book, side, price)"
  define q1 where "q1 = q\<lparr>last_time_us := now, processed_event_ids := insert event_id (processed_event_ids q),
      compatible_flow := dict_set ?key (get_or (compatible_flow q) ?key [] @ [(now, quantity)]) (compatible_flow q)\<rparr>"
  define g1 where "g1 = g\<lparr>group_public_remaining := dsub (group_public_remaining g) public\<rparr>"
  have inv1: "queue_inv q1"
    using queue_inv_time [OF inv time] by (subst queue_inv_frame [of _ "q\<lparr>last_time_us := now\<rparr>"]) (auto simp: q1_def)
  have g1: "dict_get (groups q1) ?key = Some g" using g by (simp add: q1_def)
  note gi = queue_inv_group [OF inv1 g1]
  have pub: "0 \<le> dsub (group_public_remaining g) public" by (simp add: public_def)
  have gi': "group_inv (last_time_us q1) (next_activation_sequence q1) ?key g'"
    unfolding g'_def p_def by (rule consumed_group_inv [OF gi pub])
  have g'_eq: "g' = g1\<lparr>group_own_orders := pass_orders p\<rparr>" by (simp add: g'_def g1_def)
  have "consume_compatible_flow event_id book side price quantity now q =
      check_group g' (pass_fills p) (store_pass ?key g1 p q1)"
    using time new q0 g
    by (simp add: consume_compatible_flow_def queue_causal_def Let_def g'_eq p_def g1_def q1_def public_def)
  then have res: "consume_compatible_flow event_id book side price quantity now q =
      Return (pass_fills p) (store_pass ?key g1 p q1)"
    by (simp add: check_group_inv [OF gi'])
  have "queue_inv (store_pass ?key g1 p q1)"
    by (rule queue_inv_set_group [OF inv1 g1 gi']) (auto simp: g'_def store_pass_def g1_def consumed_ids [OF gi] p_def)
  then show ?thesis using res
    by (auto simp: store_pass_def q1_def g'_eq)
qed

lemma consume_compatible_flow_Return:
  assumes "consume_compatible_flow event_id book side price quantity now q = Return fills q'"
  shows "last_time_us q \<le> now" "event_id \<notin> processed_event_ids q" "0 \<le> quantity"
  using assms by (auto simp: consume_compatible_flow_def queue_causal_cases split: if_splits)

lemma consume_compatible_flow_inv:
  assumes inv: "queue_inv q"
    and res: "consume_compatible_flow event_id book side price quantity now q = Return fills q'"
  shows "queue_inv q'" and "last_time_us q' = now" and "event_id \<in> processed_event_ids q'"
proof -
  note guards = consume_compatible_flow_Return [OF res]
  have "queue_inv q' \<and> last_time_us q' = now \<and> event_id \<in> processed_event_ids q'"
  proof (cases "dict_get (groups q) (book, side, price)")
    case None
    then have q': "q' = q\<lparr>last_time_us := now, processed_event_ids := insert event_id (processed_event_ids q),
        compatible_flow := dict_set (book, side, price)
          (get_or (compatible_flow q) (book, side, price) [] @ [(now, quantity)]) (compatible_flow q)\<rparr>"
      using res guards by (auto simp: consume_compatible_flow_def queue_causal_cases Let_def)
    have "queue_inv q'"
      using queue_inv_time [OF inv guards(1)]
      by (subst queue_inv_frame [of _ "q\<lparr>last_time_us := now\<rparr>"]) (auto simp: q')
    then show ?thesis by (simp add: q')
  next
    case (Some g)
    from consume_compatible_flow_group [OF inv guards Some] res show ?thesis by auto
  qed
  then show "queue_inv q'" "last_time_us q' = now" "event_id \<in> processed_event_ids q'" by auto
qed

text \<open>A trade through several prices visits disjoint groups, so the argument repeats per group.\<close>

lemma through_groups_inv:
  assumes "queue_inv q" and "distinct (map fst gs)"
    and "\<forall>x \<in> set gs. dict_get (groups q) (fst x) = Some (snd x)"
  shows "\<exists>fills' q'. through_groups book side tp now gs rem fills q = Return fills' q' \<and> queue_inv q' \<and>
           last_time_us q' = last_time_us q \<and> processed_event_ids q' = processed_event_ids q"
  using assms
proof (induction gs arbitrary: rem fills q)
  case (Cons e gs)
  obtain k g where e: "e = (k, g)" by (cases e)
  show ?case
  proof (cases "rem \<le> 0")
    case False
    let ?at = "tp = group_price g"
    define public where "public = min rem (group_public_remaining g)"
    define pub where "pub = (if ?at then dsub (group_public_remaining g) public else group_public_remaining g)"
    define p where "p = consume_orders True ?at now (group_own_orders g)
        (if ?at then dsub rem public else rem) fills"
    define g' where "g' = g\<lparr>group_public_remaining := pub, group_own_orders := pass_orders p\<rparr>"
    define q' where "q' = q\<lparr>compatible_flow := dict_set (book, side, group_price g)
          (get_or (compatible_flow q) (book, side, group_price g) [] @ [(now, rem)]) (compatible_flow q),
        groups := dict_set k g' (groups q),
        first_fill_waits_us := append_to (book, side, group_price g) (pass_first_waits p) (first_fill_waits_us q),
        full_fill_waits_us := append_to (book, side, group_price g) (pass_full_waits p) (full_fill_waits_us q)\<rparr>"
    have g: "dict_get (groups q) k = Some g" using Cons.prems(3) by (simp add: e)
    note gi = queue_inv_group [OF Cons.prems(1) g]
    have "0 \<le> pub" using gi by (auto simp: pub_def public_def group_inv_def)
    then have gi': "group_inv (last_time_us q) (next_activation_sequence q) k g'"
      unfolding g'_def p_def by (rule consumed_group_inv [OF gi])
    have inv': "queue_inv q'"
      by (rule queue_inv_set_group [OF Cons.prems(1) g gi'])
        (auto simp: q'_def g'_def p_def consumed_ids [OF gi])
    have "fst x \<noteq> k" if "x \<in> set gs" for x
      using that Cons.prems(2) by (auto simp: e)
    then have rest: "\<forall>x \<in> set gs. dict_get (groups q') (fst x) = Some (snd x)"
      using Cons.prems(3) by (simp add: q'_def)
    have "through_groups book side tp now (e # gs) rem fills q =
        through_groups book side tp now gs (pass_remaining p) (pass_fills p) q'"
      using False gi'
      by (simp add: e Let_def check_group_def g'_def [symmetric] p_def [symmetric] public_def [symmetric]
          pub_def q'_def validate_group_inv split del: if_split)
         (auto simp: g'_def p_def pub_def public_def q'_def validate_group_inv)
    moreover obtain fills' q'' where
      "through_groups book side tp now gs (pass_remaining p) (pass_fills p) q' = Return fills' q''"
      "queue_inv q''" "last_time_us q'' = last_time_us q'" "processed_event_ids q'' = processed_event_ids q'"
      using Cons.IH [OF inv' _ rest, of "pass_remaining p" "pass_fills p"] Cons.prems(2) by auto
    ultimately show ?thesis by (simp add: q'_def)
  qed (use Cons.prems in auto)
qed simp


lemma consume_trade_through_inv:
  assumes inv: "queue_inv q"
    and res: "consume_trade_through event_id book side tp quantity now q = Return fills q'"
  shows "queue_inv q'" and "last_time_us q \<le> now" and "last_time_us q' = now"
    and "event_id \<notin> processed_event_ids q" and "event_id \<in> processed_event_ids q'"
proof -
  define q1 where "q1 = q\<lparr>last_time_us := now, processed_event_ids := insert event_id (processed_event_ids q)\<rparr>"
  define gs where "gs = sort_key (\<lambda>(key, g). if side = ''BUY'' then - group_price g else group_price g)
      (filter (\<lambda>(key, g). touches book side tp key) (groups q))"
  have time: "last_time_us q \<le> now" and new: "event_id \<notin> processed_event_ids q"
    and run: "through_groups book side tp now gs quantity [] q1 = Return fills q'"
    using res by (auto simp: consume_trade_through_def queue_causal_cases Let_def gs_def q1_def split: if_splits)
  have inv1: "queue_inv q1"
    using queue_inv_time [OF inv time] by (subst queue_inv_frame [of _ "q\<lparr>last_time_us := now\<rparr>"]) (auto simp: q1_def)
  have "distinct (map fst gs)"
    using queue_inv_distinct [OF inv] by (simp add: gs_def distinct_map_sort distinct_map_filter)
  moreover have "\<forall>x \<in> set gs. dict_get (groups q1) (fst x) = Some (snd x)"
    using queue_inv_distinct [OF inv] by (auto simp: gs_def q1_def)
  ultimately show "queue_inv q'" "last_time_us q \<le> now" "last_time_us q' = now"
    "event_id \<notin> processed_event_ids q" "event_id \<in> processed_event_ids q'"
    using through_groups_inv [OF inv1, of gs book side tp now quantity "[]"] run time new by (auto simp: q1_def)
qed

lemma estimate_inv:
  assumes inv: "queue_inv q" and res: "estimate oid now q = Return e q'"
  shows "queue_inv q'" and "last_time_us q \<le> now" and "last_time_us q' = now"
    and "processed_event_ids q' = processed_event_ids q" and "groups q' = groups q"
proof -
  have time: "last_time_us q \<le> now"
    using res by (auto simp: estimate_def queue_causal_cases)
  then have *: "groups q' = groups q \<and> order_group q' = order_group q \<and> last_time_us q' = now \<and>
      next_activation_sequence q' = next_activation_sequence q \<and> processed_event_ids q' = processed_event_ids q"
    using res by (auto simp: estimate_def queue_causal_cases Let_def split: option.splits sum.splits)
  have "queue_inv q'"
    using queue_inv_time [OF inv time] * by (subst queue_inv_frame [of _ "q\<lparr>last_time_us := now\<rparr>"]) auto
  then show "queue_inv q'" "last_time_us q \<le> now" "last_time_us q' = now"
    "processed_event_ids q' = processed_event_ids q" "groups q' = groups q"
    using * time by auto
qed

section \<open>Failing calls\<close>

lemma queue_causal_then_Raise:
  assumes "and_then (queue_causal now q) k = Raise e q'"
  shows "q' = q \<or> (last_time_us q \<le> now \<and> k () (q\<lparr>last_time_us := now\<rparr>) = Raise e q')"
  using assms by (auto simp: and_then_Raise queue_causal_cases)

lemma activate_admitted:
  fixes book side :: string and price observed :: decimal
  assumes "last_time_us q \<le> now" "side \<in> {''BUY'', ''SELL''}" "column \<in> {1, 2}" "0 < quantity"
    "\<not> has_key (order_group q) oid"
  defines "q1 \<equiv> q\<lparr>last_time_us := now\<rparr>"
  defines "g \<equiv> new_epoch observed (opened_group book side price observed q1)"
  defines "q2 \<equiv> q1\<lparr>groups := dict_set (book, side, price) g (groups q1)\<rparr>"
  shows "activate book side price oid column quantity observed now q =
     (if \<exists>r \<in> set (active_orders g). own_column r = column
      then Raise (ValueError ''M032_DUPLICATE_COLUMN_AT_PRICE'') q2
      else enqueue (book, side, price) g
             \<lparr>own_order_id = oid, own_column = column, own_quantity = quantity,
              own_remaining = quantity, own_activated_at_us = now,
              own_activation_sequence = next_activation_sequence q,
              own_public_barrier_before = later_public_cohort observed g,
              own_first_fill_at_us = None, own_filled_at_us = None\<rparr> q2)"
  using assms(1-5) unfolding g_def q2_def q1_def
  by (auto simp: activate_def queue_causal_def Let_def)

lemma activate_raise_inv:
  assumes inv: "queue_inv q" and res: "activate book side price oid column quantity observed now q = Raise e q'"
  shows "queue_inv q'"
proof -
  let ?q = "q\<lparr>last_time_us := now\<rparr>"
  let ?g = "new_epoch observed (opened_group book side price observed ?q)"
  let ?r = "\<lparr>own_order_id = oid, own_column = column, own_quantity = quantity,
      own_remaining = quantity, own_activated_at_us = now,
      own_activation_sequence = next_activation_sequence q,
      own_public_barrier_before = later_public_cohort observed ?g,
      own_first_fill_at_us = None, own_filled_at_us = None\<rparr>"
  let ?q1 = "?q\<lparr>groups := dict_set (book, side, price) ?g (groups ?q)\<rparr>"
  show ?thesis
  proof (cases "last_time_us q \<le> now")
    case False
    then show ?thesis using res inv by (simp add: activate_def queue_causal_def)
  next
    case time: True
    show ?thesis
    proof (cases "side \<notin> {''BUY'', ''SELL''} \<or> column \<notin> {1, 2} \<or> quantity \<le> 0 \<or> has_key (order_group q) oid")
      case True
      then have "q' = ?q" using res time
        by (auto simp: activate_def queue_causal_def split: if_splits)
      then show ?thesis using queue_inv_time [OF inv time] by simp
    next
      case guards: False
      then have "side \<in> {''BUY'', ''SELL''}" "column \<in> {1, 2}" "0 < quantity"
        "\<not> has_key (order_group q) oid" by auto
      from activate_admitted [OF time this, of book price observed] res
      have res': "(if \<exists>r \<in> set (active_orders ?g). own_column r = column
            then Raise (ValueError ''M032_DUPLICATE_COLUMN_AT_PRICE'') ?q1
            else enqueue (book, side, price) ?g ?r ?q1) = Raise e q'" by (simp only:)
      show ?thesis
      proof (cases "\<exists>r \<in> set (active_orders ?g). own_column r = column")
        case True
        then have q': "q' = ?q1" and active: "active_orders ?g \<noteq> []"
          using res' by auto
        have nonempty: "group_own_orders ?g \<noteq> []" using active by (auto simp: active_orders_def)
        then obtain g where g: "dict_get (groups q) (book, side, price) = Some g"
          by (cases "dict_get (groups q) (book, side, price)") (auto simp: opened_orders)
        have "?g = g"
        proof (cases "active_orders g = []")
          case True
          then show ?thesis using active g
            by (simp add: opened_group_def new_epoch_def active_orders_def)
        qed (simp add: opened_group_def new_epoch_def g)
        then have "groups q' = groups q" using q' g by (simp add: dict_set_def update_triv)
        then show ?thesis using queue_inv_time [OF inv time] q'
          by (subst queue_inv_frame [of _ ?q]) simp_all
      next
        case False
        have "\<exists>q'. enqueue (book, side, price) ?g ?r ?q1 = Return ?r q'"
          using enqueue_inv [OF queue_inv_time [OF inv time] refl refl, of ?r observed book side price]
            False guards later_public_cohort_nonneg by auto
        then show ?thesis using False res' by auto
      qed
    qed
  qed
qed

lemma remove_raise_inv:
  assumes inv: "queue_inv q"
  shows "cancel_ack oid now q = Raise e q' \<Longrightarrow> queue_inv q'"
    and "cancel_ack_after_racing_fill oid now q = Raise e q' \<Longrightarrow> queue_inv q'"
proof -
  have never: "remove_own oid key g r (q\<lparr>last_time_us := now\<rparr>) \<noteq> Raise e q'"
    if "last_time_us q \<le> now" "dict_get (order_group q) oid = Some key"
      "dict_get (groups q) key = Some g" "find_own g oid = Some r" for key g r
    using remove_own_inv [OF queue_inv_time [OF inv that(1)], of oid key g r] that by auto
  show "queue_inv q'" if res: "cancel_ack oid now q = Raise e q'"
  proof -
    have "q' = q \<or> (last_time_us q \<le> now \<and> q' = q\<lparr>last_time_us := now\<rparr>)"
      using queue_causal_then_Raise [OF res [unfolded cancel_ack_def]] never
      by (auto dest!: with_own_Raise split: if_splits)
    then show ?thesis using inv queue_inv_time by blast
  qed
  show "queue_inv q'" if res: "cancel_ack_after_racing_fill oid now q = Raise e q'"
  proof -
    have "q' = q \<or> (last_time_us q \<le> now \<and> q' = q\<lparr>last_time_us := now\<rparr>)"
      using queue_causal_then_Raise [OF res [unfolded cancel_ack_after_racing_fill_def]] never
      by (auto dest!: with_own_Raise)
    then show ?thesis using inv queue_inv_time by blast
  qed
qed

lemma consume_compatible_flow_raise:
  assumes inv: "queue_inv q"
    and res: "consume_compatible_flow event_id book side price quantity now q = Raise e q'"
  shows "(now < last_time_us q \<and> q' = q) \<or>
         (q' = q\<lparr>last_time_us := now\<rparr> \<and> last_time_us q \<le> now \<and>
          (event_id \<in> processed_event_ids q \<or> quantity < 0))"
proof (cases "last_time_us q \<le> now \<and> event_id \<notin> processed_event_ids q \<and> 0 \<le> quantity")
  case True
  then show ?thesis
    using res consume_compatible_flow_group [OF inv, of now event_id quantity book side price]
    by (cases "dict_get (groups q) (book, side, price)")
      (auto simp: consume_compatible_flow_def queue_causal_def Let_def)
next
  case False
  then show ?thesis using res
    by (auto simp: consume_compatible_flow_def queue_causal_def split: if_splits)
qed

lemma consume_compatible_flow_raise_inv:
  "queue_inv q \<Longrightarrow> consume_compatible_flow event_id book side price quantity now q = Raise e q' \<Longrightarrow> queue_inv q'"
  using consume_compatible_flow_raise queue_inv_time by metis

lemma consume_trade_through_raise_inv:
  assumes inv: "queue_inv q" and res: "consume_trade_through event_id book side tp quantity now q = Raise e q'"
  shows "queue_inv q'"
proof -
  define q1 where "q1 = q\<lparr>last_time_us := now, processed_event_ids := insert event_id (processed_event_ids q)\<rparr>"
  define gs where "gs = sort_key (\<lambda>(key, g). if side = ''BUY'' then - group_price g else group_price g)
      (filter (\<lambda>(key, g). touches book side tp key) (groups q))"
  have dist: "distinct (map fst gs)"
    using queue_inv_distinct [OF inv] by (simp add: gs_def distinct_map_sort distinct_map_filter)
  have ok: "\<forall>x \<in> set gs. dict_get (groups q1) (fst x) = Some (snd x)"
    using queue_inv_distinct [OF inv] by (auto simp: gs_def q1_def)
  consider "q' = q" | "last_time_us q \<le> now" "q' = q\<lparr>last_time_us := now\<rparr>"
    | (run) "last_time_us q \<le> now" "through_groups book side tp now gs quantity [] q1 = Raise e q'"
    using res unfolding consume_trade_through_def gs_def q1_def
    by (auto dest!: queue_causal_then_Raise simp: Let_def split: if_splits)
  then show ?thesis
  proof cases
    case run
    have "queue_inv q1" using queue_inv_time [OF inv run(1)]
      by (subst queue_inv_frame [of _ "q\<lparr>last_time_us := now\<rparr>"]) (auto simp: q1_def)
    from through_groups_inv [OF this dist ok, of book side tp now quantity "[]"] run(2)
    show ?thesis by auto
  qed (use inv queue_inv_time in auto)
qed

lemma estimate_raise_inv:
  assumes inv: "queue_inv q" and res: "estimate oid now q = Raise e q'"
  shows "queue_inv q'"
proof -
  have "q' = q \<or> (last_time_us q \<le> now \<and> groups q' = groups q \<and> order_group q' = order_group q \<and>
      last_time_us q' = now \<and> next_activation_sequence q' = next_activation_sequence q)"
    using queue_causal_then_Raise [OF res [unfolded estimate_def]]
    by (auto simp: Let_def split: option.splits sum.splits)
  then show ?thesis
    using inv queue_inv_time [OF inv, of now] queue_inv_frame [of q' "q\<lparr>last_time_us := now\<rparr>"] by auto
qed

section \<open>The estimator as a component driven by operations\<close>

datatype queue_op =
    Activate string string decimal string int decimal decimal int
  | CancelAck string int
  | CancelAckRacing string int
  | CompatibleFlow string string string decimal decimal int
  | TradeThrough string string string decimal decimal int
  | Estimate string int

datatype queue_result =
    Activated own_order | Released decimal | Filled "(string, decimal) dict" | Estimated queue_estimate

fun exec_queue :: "queue_op \<Rightarrow> queue_estimator \<Rightarrow> (queue_result, queue_estimator) outcome" where
  "exec_queue (Activate book side price oid column quantity observed now) q =
     returning Activated (activate book side price oid column quantity observed now q)"
| "exec_queue (CancelAck oid now) q = returning Released (cancel_ack oid now q)"
| "exec_queue (CancelAckRacing oid now) q = returning Released (cancel_ack_after_racing_fill oid now q)"
| "exec_queue (CompatibleFlow eid book side price quantity now) q =
     returning Filled (consume_compatible_flow eid book side price quantity now q)"
| "exec_queue (TradeThrough eid book side price quantity now) q =
     returning Filled (consume_trade_through eid book side price quantity now q)"
| "exec_queue (Estimate oid now) q = returning Estimated (estimate oid now q)"

fun queue_op_time :: "queue_op \<Rightarrow> int" where
  "queue_op_time (Activate _ _ _ _ _ _ _ now) = now"
| "queue_op_time (CancelAck _ now) = now"
| "queue_op_time (CancelAckRacing _ now) = now"
| "queue_op_time (CompatibleFlow _ _ _ _ _ now) = now"
| "queue_op_time (TradeThrough _ _ _ _ _ now) = now"
| "queue_op_time (Estimate _ now) = now"

lemma exec_queue_inv: "queue_inv q \<Longrightarrow> exec_queue op q = Return r q' \<Longrightarrow> queue_inv q'"
  by (cases op) (auto dest: activate_inv cancel_ack_inv cancel_ack_racing_inv consume_compatible_flow_inv
      consume_trade_through_inv estimate_inv)

lemma exec_queue_raise_inv: "queue_inv q \<Longrightarrow> exec_queue op q = Raise e q' \<Longrightarrow> queue_inv q'"
  by (cases op) (auto dest: activate_raise_inv remove_raise_inv consume_compatible_flow_raise_inv
      consume_trade_through_raise_inv estimate_raise_inv)

lemma exec_queue_time:
  "queue_inv q \<Longrightarrow> exec_queue op q = Return r q' \<Longrightarrow>
     last_time_us q \<le> queue_op_time op \<and> last_time_us q' = queue_op_time op"
  by (cases op) (auto dest: activate_inv cancel_ack_inv cancel_ack_racing_inv consume_compatible_flow_inv
      consume_compatible_flow_Return consume_trade_through_inv estimate_inv)

interpretation queue_ops: robust_ops exec_queue queue_inv
  by unfold_locales (auto intro: exec_queue_inv exec_queue_raise_inv)

interpretation queue_clock: causal_ops exec_queue queue_inv last_time_us queue_op_time
  by unfold_locales (auto dest: exec_queue_time)

end
