(* ===== verification/Causal_Queue_Facts.thy ===== *)
theory Causal_Queue_Facts
  imports Causal_Queue_Inv
begin

text \<open>
  What the queue estimator promises: own orders fill behind the public depth and first in
  first out, every unit of a public trade is accounted for exactly on the decimal grid, a
  public trade is consumed at most once, and the fill probabilities are monotone in the
  horizon. The properties at the end rest on the interpretations of
  \<^verbatim>\<open>Causal_Queue_Inv\<close>.
\<close>

section \<open>Priority: public depth, then first in first out\<close>

lemma consume_orders_fifo:
  assumes "\<forall>r \<in> set rs. 0 \<le> own_public_barrier_before r"
    and "i < j" and "j < length rs"
    and "own_remaining (pass_orders (consume_orders acc at_price now rs rem fills) ! j) \<noteq> own_remaining (rs ! j)"
  shows "own_remaining (pass_orders (consume_orders acc at_price now rs rem fills) ! i) = 0"
  using assms
proof (induction rs arbitrary: rem fills i j)
  case (Cons r rs)
  have pos: "0 < rem" using Cons.prems(4) by (cases "rem \<le> 0") auto
  obtain j' where j: "j = Suc j'" using Cons.prems(2) by (cases j) auto
  from pos show ?case
  proof (cases rule: consume_orders_step [where at_price = at_price and r = r and acc = acc
        and now = now and rs = rs and fills = fills])
    case (stop r1 rem1)
    then show ?thesis using Cons.prems(4) j by simp
  next
    case (fill r1 rem1 amount r4 p)
    have tail: "own_remaining (pass_orders p ! j') \<noteq> own_remaining (rs ! j')"
      using Cons.prems(4) fill j by simp
    show ?thesis
    proof (cases i)
      case 0
      have "amount \<noteq> rem1" using tail fill(10) by auto
      then have "amount = own_remaining r1" using fill(3) by (metis min_def)
      then show ?thesis using fill 0 by simp
    next
      case (Suc i')
      then have "own_remaining (pass_orders p ! i') = 0"
        using Cons.IH [of i' j' "dsub rem1 amount" "note_fill acc amount (own_order_id r) fills"]
          Cons.prems tail j fill(10) by auto
      then show ?thesis using fill Suc by simp
    qed
  qed
qed simp

text \<open>An order is only reached once the barriers of public depth up to it are used up.\<close>

lemma pass_barrier_used:
  assumes "pass_barrier True r rem = (r1, rem1)" and "0 < rem" and "0 < rem1"
  shows "own_public_barrier_before r1 = 0 \<and> own_public_barrier_before r < rem"
  using assms by (auto simp: pass_barrier_def Let_def min_def split: if_splits)

lemma consume_orders_barriers:
  assumes "i \<le> j" and "j < length rs"
    and "own_remaining (pass_orders (consume_orders acc True now rs rem fills) ! j) \<noteq> own_remaining (rs ! j)"
  shows "own_public_barrier_before (pass_orders (consume_orders acc True now rs rem fills) ! i) = 0"
  using assms
proof (induction rs arbitrary: rem fills i j)
  case (Cons r rs)
  have pos: "0 < rem" using Cons.prems(3) by (cases "rem \<le> 0") auto
  from pos show ?case
  proof (cases rule: consume_orders_step [where at_price = True and r = r and acc = acc
        and now = now and rs = rs and fills = fills])
    case (stop r1 rem1)
    then have "own_remaining r1 = own_remaining r" by (auto simp: pass_barrier_def Let_def)
    then show ?thesis using Cons.prems(3) stop(3) by (cases j) simp_all
  next
    case (fill r1 rem1 amount r4 p)
    show ?thesis
    proof (cases i)
      case 0
      then show ?thesis using pass_barrier_used [OF fill(1) pos fill(2)] fill by simp
    next
      case (Suc i')
      then obtain j' where j: "j = Suc j'" using Cons.prems(1) by (cases j) auto
      then have "own_public_barrier_before (pass_orders p ! i') = 0"
        using Cons.IH [of i' j' "dsub rem1 amount" "note_fill acc amount (own_order_id r) fills"]
          Cons.prems fill Suc by simp
      then show ?thesis using fill Suc by simp
    qed
  qed
qed simp

lemma consume_orders_leftover:
  assumes "\<forall>r \<in> set rs. 0 \<le> own_remaining r \<and> 0 \<le> own_public_barrier_before r"
    and "0 < pass_remaining (consume_orders acc at_price now rs rem fills)"
  shows "\<forall>r \<in> set (pass_orders (consume_orders acc at_price now rs rem fills)). own_remaining r = 0"
  using assms
proof (induction rs arbitrary: rem fills)
  case (Cons r rs)
  have pos: "0 < rem" using Cons.prems(2) by (cases "rem \<le> 0") auto
  from pos show ?case
  proof (cases rule: consume_orders_step [where at_price = at_price and r = r and acc = acc
        and now = now and rs = rs and fills = fills])
    case (stop r1 rem1)
    then show ?thesis using Cons.prems(2) by simp
  next
    case (fill r1 rem1 amount r4 p)
    have left: "0 < pass_remaining p" using Cons.prems(2) fill by simp
    then have "amount \<noteq> rem1" using fill(10) by auto
    then have "amount = own_remaining r1" using fill(3) by (metis min_def)
    then have "own_remaining r4 = 0" using fill(8) by simp
    moreover have "\<forall>r \<in> set (pass_orders p). own_remaining r = 0"
      using Cons.IH [of "dsub rem1 amount" "note_fill acc amount (own_order_id r) fills"]
        Cons.prems(1) left fill(10) by simp
    ultimately show ?thesis unfolding fill(11) by simp
  qed
qed simp

section \<open>Exact accounting on the decimal grid\<close>

abbreviation total_remaining :: "own_order list \<Rightarrow> decimal" where
  "total_remaining rs \<equiv> sum_list (map own_remaining rs)"

abbreviation total_barrier :: "own_order list \<Rightarrow> decimal" where
  "total_barrier rs \<equiv> sum_list (map own_public_barrier_before rs)"

abbreviation total_fills :: "(string, decimal) dict \<Rightarrow> decimal" where
  "total_fills fills \<equiv> sum_list (dict_values fills)"

lemma total_note_fill:
  "oid \<notin> set (keys fills) \<Longrightarrow> 0 \<le> amount \<Longrightarrow>
     total_fills (note_fill False amount oid fills) = total_fills fills + amount"
  by (simp add: note_fill_def set_new_key)

lemma keys_note_fill: "set (keys (note_fill acc amount oid fills)) \<subseteq> insert oid (set (keys fills))"
  by (simp add: note_fill_def subset_insertI)

lemma disjoint_insert_subset: "a \<notin> A \<Longrightarrow> A \<inter> B = {} \<Longrightarrow> C \<subseteq> insert a B \<Longrightarrow> A \<inter> C = {}"
  by blast

lemma pass_barrier_grid:
  assumes "pass_barrier True r rem = (r1, rem1)" and "on_flow_grid k rem"
    and "on_flow_grid k (own_public_barrier_before r)"
  shows "own_remaining r1 = own_remaining r" "own_order_id r1 = own_order_id r"
    "rem - rem1 = own_public_barrier_before r - own_public_barrier_before r1"
    "on_flow_grid k rem1" "rem1 \<le> rem"
proof -
  let ?p = "min rem (own_public_barrier_before r)"
  have g: "on_flow_grid k ?p" using assms by (intro flow_grid_min)
  have *: "r1 = r\<lparr>own_public_barrier_before := dsub (own_public_barrier_before r) ?p\<rparr>" "rem1 = dsub rem ?p"
    using assms(1) by (auto simp: pass_barrier_def Let_def)
  have "dsub rem ?p = rem - ?p" "dsub (own_public_barrier_before r) ?p = own_public_barrier_before r - ?p"
    using flow_grid_sub [OF assms(2) g] flow_grid_sub [OF assms(3) g] by auto
  moreover have "on_flow_grid k (rem - ?p)" using flow_grid_diff [OF assms(2) g] by auto
  moreover have "0 \<le> ?p" using assms by (auto simp: on_flow_grid_def)
  ultimately show "own_remaining r1 = own_remaining r" "own_order_id r1 = own_order_id r"
    "rem - rem1 = own_public_barrier_before r - own_public_barrier_before r1"
    "on_flow_grid k rem1" "rem1 \<le> rem"
    using * by auto
qed

lemma consume_orders_accounts:
  fixes now :: int
  assumes "\<forall>r \<in> set rs. on_flow_grid k (own_remaining r) \<and> on_flow_grid k (own_public_barrier_before r)"
    and "on_flow_grid k rem" and "distinct (map own_order_id rs)"
    and "set (map own_order_id rs) \<inter> set (keys fills) = {}"
  defines "p \<equiv> consume_orders False True now rs rem fills"
  shows "total_fills (pass_fills p) - total_fills fills = total_remaining rs - total_remaining (pass_orders p) \<and>
         rem = (total_fills (pass_fills p) - total_fills fills) +
               (total_barrier rs - total_barrier (pass_orders p)) + pass_remaining p \<and>
         0 \<le> pass_remaining p"
  using assms(1-4) unfolding p_def
proof (induction rs arbitrary: rem fills)
  case Nil
  then show ?case by (simp add: on_flow_grid_def)
next
  case (Cons r rs)
  show ?case
  proof (cases "rem \<le> 0")
    case True
    then have "rem = 0" using Cons.prems(2) by (simp add: on_flow_grid_def)
    then show ?thesis by simp
  next
    case False
    then have pos: "0 < rem" by simp
    have rg: "on_flow_grid k (own_remaining r)" "on_flow_grid k (own_public_barrier_before r)"
      using Cons.prems(1) by auto
    from pos show ?thesis
    proof (cases rule: consume_orders_step [where at_price = True and r = r and acc = False
          and now = now and rs = rs and fills = fills])
      case (stop r1 rem1)
      note b = pass_barrier_grid [OF stop(1) Cons.prems(2) rg(2)]
      then have "rem1 = 0" using stop(2) by (simp add: on_flow_grid_def)
      then show ?thesis using stop(3) b by simp
    next
      case (fill r1 rem1 amount r4 p)
      note b = pass_barrier_grid [OF fill(1) Cons.prems(2) rg(2)]
      have ag: "on_flow_grid k amount" using fill(3) b rg flow_grid_min by simp
      have a0: "0 \<le> amount" using ag by (simp add: on_flow_grid_def)
      have sub: "dsub rem1 amount = rem1 - amount" "dsub (own_remaining r1) amount = own_remaining r - amount"
        using flow_grid_sub [OF b(4) ag] flow_grid_sub [OF rg(1) ag] fill(3) b by auto
      have rem2: "on_flow_grid k (dsub rem1 amount)" using sub flow_grid_diff [OF b(4) ag] fill(3) by auto
      have new: "own_order_id r \<notin> set (keys fills)" using Cons.prems(4) by auto
      have disj: "set (map own_order_id rs) \<inter> set (keys (note_fill False amount (own_order_id r) fills)) = {}"
      proof -
        have "own_order_id r \<notin> set (map own_order_id rs)"
          "set (map own_order_id rs) \<inter> set (keys fills) = {}" using Cons.prems(3,4) by auto
        then show ?thesis by (rule disjoint_insert_subset [OF _ _ keys_note_fill])
      qed
      note ih = Cons.IH [OF _ rem2 _ disj]
      have rec: "total_fills (pass_fills p) - (total_fills fills + amount) =
          total_remaining rs - total_remaining (pass_orders p) \<and>
        rem1 - amount = (total_fills (pass_fills p) - (total_fills fills + amount)) +
          (total_barrier rs - total_barrier (pass_orders p)) + pass_remaining p \<and>
        0 \<le> pass_remaining p"
        using ih Cons.prems(1,3) fill(10) total_note_fill [OF new a0] sub by simp
      show ?thesis unfolding fill(11-13) using rec fill(8,9) b sub by (simp add: algebra_simps)
    qed
  qed
qed

section \<open>Fill probabilities\<close>

lemma fill_probability_bounds: "0 \<le> h \<Longrightarrow> 0 \<le> fill_probability clear h \<and> fill_probability clear h \<le> 1"
  by (cases clear) (auto simp: fill_probability_def ddiv_nonneg)

lemma fill_probability_mono:
  assumes "h \<le> h'"
  shows "fill_probability clear h \<le> fill_probability clear h'"
proof (cases clear)
  case (Some c)
  have "ddiv (of_int h) c \<le> ddiv (of_int h') c" if "0 < c"
    using assms that unfolding ddiv_def by (intro prec28.rnd_mono divide_right_mono) auto
  then show ?thesis using Some
    by (cases "0 < c") (auto simp: fill_probability_def intro: min.mono)
qed (simp add: fill_probability_def)

section \<open>Every public trade is consumed once\<close>

fun queue_op_events :: "queue_op \<Rightarrow> string list" where
  "queue_op_events (CompatibleFlow eid _ _ _ _ _) = [eid]"
| "queue_op_events (TradeThrough eid _ _ _ _ _) = [eid]"
| "queue_op_events _ = []"

lemma activate_events:
  "activate book side price oid column quantity observed now q = Return r q' \<Longrightarrow>
     processed_event_ids q' = processed_event_ids q"
  by (auto simp: activate_def queue_causal_cases enqueue_def check_group_def Let_def
      split: if_splits option.splits)

lemma cancel_events:
  "cancel_ack oid now q = Return x q' \<Longrightarrow> processed_event_ids q' = processed_event_ids q"
  "cancel_ack_after_racing_fill oid now q = Return x q' \<Longrightarrow> processed_event_ids q' = processed_event_ids q"
  by (auto simp: cancel_ack_def cancel_ack_after_racing_fill_def queue_causal_cases with_own_Return
      remove_own_def check_group_def Let_def split: if_splits option.splits)

lemma consume_compatible_flow_events:
  "consume_compatible_flow eid book side price quantity now q = Return f q' \<Longrightarrow>
     eid \<notin> processed_event_ids q \<and> processed_event_ids q' = insert eid (processed_event_ids q)"
  by (auto simp: consume_compatible_flow_def queue_causal_cases check_group_def store_pass_def Let_def
      split: if_splits option.splits)

lemma consume_trade_through_events:
  assumes inv: "queue_inv q" and res: "consume_trade_through eid book side tp quantity now q = Return f q'"
  shows "eid \<notin> processed_event_ids q \<and> processed_event_ids q' = insert eid (processed_event_ids q)"
proof -
  define q1 where "q1 = q\<lparr>last_time_us := now, processed_event_ids := insert eid (processed_event_ids q)\<rparr>"
  define gs where "gs = sort_key (\<lambda>(key, g). if side = ''BUY'' then - group_price g else group_price g)
      (filter (\<lambda>(key, g). touches book side tp key) (groups q))"
  have time: "last_time_us q \<le> now" and new: "eid \<notin> processed_event_ids q"
    and run: "through_groups book side tp now gs quantity [] q1 = Return f q'"
    using res by (auto simp: consume_trade_through_def queue_causal_cases Let_def gs_def q1_def split: if_splits)
  have inv1: "queue_inv q1"
    using queue_inv_time [OF inv time] by (subst queue_inv_frame [of _ "q\<lparr>last_time_us := now\<rparr>"]) (auto simp: q1_def)
  have "distinct (map fst gs)"
    using queue_inv_distinct [OF inv] by (simp add: gs_def distinct_map_sort distinct_map_filter)
  moreover have "\<forall>x \<in> set gs. dict_get (groups q1) (fst x) = Some (snd x)"
    using queue_inv_distinct [OF inv] by (auto simp: gs_def q1_def)
  ultimately show ?thesis
    using through_groups_inv [OF inv1, of gs book side tp now quantity "[]"] run new by (auto simp: q1_def)
qed

lemma exec_queue_events:
  "queue_inv q \<Longrightarrow> exec_queue op q = Return r q' \<Longrightarrow>
     set (queue_op_events op) \<inter> processed_event_ids q = {} \<and>
     processed_event_ids q' = set (queue_op_events op) \<union> processed_event_ids q"
  by (cases op) (auto dest: activate_events cancel_events consume_compatible_flow_events
      consume_trade_through_events estimate_inv)

lemma run_queue_events:
  "queue_inv q \<Longrightarrow> run_ops exec_queue ops q = Return rs q' \<Longrightarrow>
     distinct (concat (map queue_op_events ops)) \<and>
     set (concat (map queue_op_events ops)) \<inter> processed_event_ids q = {}"
proof (induction ops arbitrary: q rs)
  case (Cons op ops)
  then obtain r q1 rs' where *: "exec_queue op q = Return r q1" "run_ops exec_queue ops q1 = Return rs' q'"
    by auto
  have "distinct (queue_op_events op)" by (cases op) auto
  then show ?case
    using exec_queue_events [OF Cons.prems(1) *(1)] Cons.IH [OF exec_queue_inv [OF Cons.prems(1) *(1)] *(2)] by auto
qed simp

section \<open>Properties\<close>

definition sample_queue_ops :: "queue_op list" where
  "sample_queue_ops =
     [Activate ''USDC/USDT'' ''BUY'' 1 ''A'' 1 10 5 100,
      Activate ''USDC/USDT'' ''BUY'' 1 ''B'' 2 10 7 110,
      CompatibleFlow ''T1'' ''USDC/USDT'' ''BUY'' 1 8 200]"

definition sample_queue :: queue_estimator where
  "sample_queue = drive_ops exec_queue sample_queue_ops default_queue"

abbreviation sample_key :: queue_key where
  "sample_key \<equiv> (''USDC/USDT'', ''BUY'', 1)"

lemma sample_queue_inv: "queue_inv sample_queue"
  unfolding sample_queue_def by (rule queue_ops.drive_inv [OF queue_inv_default])

text \<open>
  C30: whatever operations a caller sends to a fresh estimator, and whether each of them
  returns or raises, the estimator stays in its invariant.
\<close>

theorem queue_reachable_inv: "queue_inv (drive_ops exec_queue ops default_queue)"
  by (rule queue_ops.drive_inv [OF queue_inv_default])

text \<open>
  The validation errors of a queue group cannot occur: every group an estimator can
  reach validates, so at most two own orders are active at a price, in different columns, in
  activation order, and nothing is negative.
\<close>

lemma reachable_groups_validate:
  assumes "dict_get (groups (drive_ops exec_queue ops default_queue)) key = Some g"
  shows "validate_group g = None \<and> length (active_orders g) \<le> 2 \<and>
         distinct (map own_column (active_orders g)) \<and>
         sort_key fifo_key (active_orders g) = active_orders g \<and> 0 \<le> group_public_remaining g"
proof -
  have gi: "group_inv (last_time_us (drive_ops exec_queue ops default_queue))
      (next_activation_sequence (drive_ops exec_queue ops default_queue)) key g"
    by (rule queue_inv_group [OF queue_ops.drive_inv [OF queue_inv_default] assms])
  have "set (map own_column (active_orders g)) \<subseteq> {1, 2}"
    using gi by (auto simp: group_inv_def active_orders_def)
  then show ?thesis
    using gi validate_group_inv [OF gi] active_fifo [of g] two_columns [of "active_orders g"]
    by (simp add: group_inv_def)
qed

lemma reachable_groups_validate_witness:
  "\<exists>g. dict_get (groups sample_queue) sample_key = Some g \<and> validate_group g = None \<and>
       length (active_orders g) \<le> 2"
proof -
  have "dict_get (groups sample_queue) sample_key \<noteq> None" by code_simp
  then obtain g where g: "dict_get (groups sample_queue) sample_key = Some g" by blast
  from reachable_groups_validate [OF this [unfolded sample_queue_def]] g show ?thesis by blast
qed

text \<open>
  C19: public depth first, then first in first out. When a compatible trade changes the
  remaining quantity of an own order, be it the first one of the price or a later one, the
  trade is larger than the public depth that was ahead of all own orders and that depth is
  gone; the public depth that joined the price before the order, its own barrier and those of
  the orders ahead of it, is gone as well; and every own order ahead of it is completely filled.
\<close>

theorem flow_respects_priority:
  assumes inv: "queue_inv q"
    and res: "consume_compatible_flow eid book side price quantity now q = Return fills q'"
    and g: "dict_get (groups q) (book, side, price) = Some g"
    and g': "dict_get (groups q') (book, side, price) = Some g'"
    and j: "j < length (group_own_orders g)"
    and changed: "own_remaining (group_own_orders g' ! j) \<noteq> own_remaining (group_own_orders g ! j)"
  shows "group_public_remaining g < quantity \<and> group_public_remaining g' = 0 \<and>
     (\<forall>i. i \<le> j \<longrightarrow> own_public_barrier_before (group_own_orders g' ! i) = 0) \<and>
     (\<forall>i. i < j \<longrightarrow> own_remaining (group_own_orders g' ! i) = 0)"
proof -
  let ?public = "min quantity (group_public_remaining g)"
  let ?p = "consume_orders False True now (group_own_orders g) (dsub quantity ?public) []"
  note guards = consume_compatible_flow_Return [OF res]
  have eq: "g' = g\<lparr>group_public_remaining := dsub (group_public_remaining g) ?public,
                   group_own_orders := pass_orders ?p\<rparr>"
    using consume_compatible_flow_group [OF inv guards g] res g' by auto
  have b: "\<forall>r \<in> set (group_own_orders g). 0 \<le> own_public_barrier_before r"
    using queue_inv_group [OF inv g] by (simp add: group_inv_def)
  have moved: "own_remaining (pass_orders ?p ! j) \<noteq> own_remaining (group_own_orders g ! j)"
    using changed eq by simp
  have "\<not> dsub quantity ?public \<le> 0" using moved by (cases "dsub quantity ?public \<le> 0") simp_all
  then have "group_public_remaining g < quantity" by (auto simp: min_def split: if_splits)
  then show ?thesis
    using consume_orders_fifo [OF b _ j moved] consume_orders_barriers [OF _ j moved] eq by simp
qed

definition priority_queue :: queue_estimator where
  "priority_queue = drive_ops exec_queue
     [Activate ''USDC/USDT'' ''BUY'' 1 ''A'' 1 10 5 100,
      Activate ''USDC/USDT'' ''BUY'' 1 ''B'' 2 10 7 110] default_queue"

definition priority_trade :: "((string, decimal) dict, queue_estimator) outcome" where
  "priority_trade = consume_compatible_flow ''T1'' ''USDC/USDT'' ''BUY'' 1 20 200 priority_queue"

lemma priority_queue_inv: "queue_inv priority_queue"
  unfolding priority_queue_def by (rule queue_ops.drive_inv [OF queue_inv_default])

abbreviation priority_group ::
    "decimal \<Rightarrow> decimal \<Rightarrow> decimal \<Rightarrow> decimal \<Rightarrow> int option \<Rightarrow> int option \<Rightarrow> int option \<Rightarrow> queue_group" where
  "priority_group pub a barrier b first_a full_a first_b \<equiv>
     \<lparr>group_book = ''USDC/USDT'', group_side = ''BUY'', group_price = 1,
      group_public_remaining = pub, group_own_orders =
       [\<lparr>own_order_id = ''A'', own_column = 1, own_quantity = 10, own_remaining = a,
         own_activated_at_us = 100, own_activation_sequence = 0, own_public_barrier_before = 0,
         own_first_fill_at_us = first_a, own_filled_at_us = full_a\<rparr>,
        \<lparr>own_order_id = ''B'', own_column = 2, own_quantity = 10, own_remaining = b,
         own_activated_at_us = 110, own_activation_sequence = 1, own_public_barrier_before = barrier,
         own_first_fill_at_us = first_b, own_filled_at_us = None\<rparr>]\<rparr>"

lemma priority_queue_value:
  "groups priority_queue = [(sample_key, priority_group 5 10 2 10 None None None)]"
  by code_simp

lemma priority_trade_value:
  "case priority_trade of
     Return f q' \<Rightarrow> f = [(''A'', 10), (''B'', 3)] \<and>
       groups q' = [(sample_key, priority_group 0 0 0 7 (Some 200) (Some 200) (Some 200))]
   | Raise _ _ \<Rightarrow> False"
  by code_simp

lemma priority_trade_cases:
  obtains q' g g' where "priority_trade = Return [(''A'', 10), (''B'', 3)] q'"
    "dict_get (groups priority_queue) sample_key = Some g" "dict_get (groups q') sample_key = Some g'"
    "g = priority_group 5 10 2 10 None None None"
    "g' = priority_group 0 0 0 7 (Some 200) (Some 200) (Some 200)"
proof -
  obtain q' where q': "priority_trade = Return [(''A'', 10), (''B'', 3)] q'"
    "groups q' = [(sample_key, priority_group 0 0 0 7 (Some 200) (Some 200) (Some 200))]"
    using priority_trade_value by (auto split: outcome.splits)
  show thesis
    by (rule that [OF q'(1) _ _ refl refl]) (simp_all add: q'(2) priority_queue_value)
qed

theorem flow_respects_priority_witness:
  "\<exists>q' g'. priority_trade = Return [(''A'', 10), (''B'', 3)] q' \<and>
     dict_get (groups q') sample_key = Some g' \<and>
     (5::decimal) < 20 \<and> group_public_remaining g' = 0 \<and>
     own_public_barrier_before (group_own_orders g' ! 1) = 0 \<and> own_remaining (group_own_orders g' ! 0) = 0"
proof -
  obtain q' g g' where *: "priority_trade = Return [(''A'', 10), (''B'', 3)] q'"
    "dict_get (groups priority_queue) sample_key = Some g" "dict_get (groups q') sample_key = Some g'"
    "g = priority_group 5 10 2 10 None None None"
    "g' = priority_group 0 0 0 7 (Some 200) (Some 200) (Some 200)"
    by (rule priority_trade_cases)
  note rule = flow_respects_priority [OF priority_queue_inv *(1) [unfolded priority_trade_def] *(2,3)]
  have "group_public_remaining g < 20" by (rule conjunct1 [OF rule [of 0]]) (simp_all add: *(4,5))
  moreover have "group_public_remaining g' = 0 \<and> own_public_barrier_before (group_own_orders g' ! 1) = 0 \<and>
      own_remaining (group_own_orders g' ! 0) = 0"
    using rule [of 1] by (simp add: *(4,5))
  ultimately have "(5::decimal) < 20" "group_public_remaining g' = 0" "own_public_barrier_before (group_own_orders g' ! 1) = 0"
    "own_remaining (group_own_orders g' ! 0) = 0" by (simp_all add: *(4))
  with *(1,3) show ?thesis by blast
qed

definition group_on_grid :: "nat \<Rightarrow> queue_group \<Rightarrow> bool" where
  "group_on_grid k g \<longleftrightarrow> on_flow_grid k (group_public_remaining g) \<and>
     (\<forall>r \<in> set (group_own_orders g).
        on_flow_grid k (own_remaining r) \<and> on_flow_grid k (own_public_barrier_before r))"

text \<open>
  C32: no unit of a public trade is lost, created or used twice. On a decimal grid that the
  28 digits cover, the traded quantity is the public depth it removed, plus the barriers it
  removed between the own orders, plus the own fills it reports, plus a remainder, and the
  reported fills are exactly what left the own orders. A positive remainder means that every
  own order of the group is filled.
\<close>

theorem flow_is_conserved:
  assumes inv: "queue_inv q"
    and res: "consume_compatible_flow eid book side price quantity now q = Return fills q'"
    and g: "dict_get (groups q) (book, side, price) = Some g"
    and g': "dict_get (groups q') (book, side, price) = Some g'"
    and grid: "group_on_grid k g" "on_flow_grid k quantity"
  shows "\<exists>left \<ge> 0.
      quantity = (group_public_remaining g - group_public_remaining g') +
        (total_barrier (group_own_orders g) - total_barrier (group_own_orders g')) +
        total_fills fills + left \<and>
      total_fills fills = total_remaining (group_own_orders g) - total_remaining (group_own_orders g') \<and>
      (0 < left \<longrightarrow> (\<forall>r \<in> set (group_own_orders g'). own_remaining r = 0))"
proof -
  let ?public = "min quantity (group_public_remaining g)"
  let ?p = "consume_orders False True now (group_own_orders g) (dsub quantity ?public) []"
  note guards = consume_compatible_flow_Return [OF res]
  have eq: "fills = pass_fills ?p" "g' = g\<lparr>group_public_remaining := dsub (group_public_remaining g) ?public,
                   group_own_orders := pass_orders ?p\<rparr>"
    using consume_compatible_flow_group [OF inv guards g] res g' by auto
  have gi: "group_inv (last_time_us q) (next_activation_sequence q) (book, side, price) g"
    by (rule queue_inv_group [OF inv g])
  have pg: "on_flow_grid k (group_public_remaining g)" using grid by (simp add: group_on_grid_def)
  have mg: "on_flow_grid k ?public" by (rule flow_grid_min [OF grid(2) pg])
  have sub: "dsub quantity ?public = quantity - ?public"
    "dsub (group_public_remaining g) ?public = group_public_remaining g - ?public"
    using flow_grid_sub [OF grid(2) mg] flow_grid_sub [OF pg mg] by auto
  have rg: "on_flow_grid k (dsub quantity ?public)" using sub flow_grid_diff [OF grid(2) mg] by auto
  have "total_fills (pass_fills ?p) - total_fills [] =
        total_remaining (group_own_orders g) - total_remaining (pass_orders ?p) \<and>
      dsub quantity ?public = (total_fills (pass_fills ?p) - total_fills []) +
        (total_barrier (group_own_orders g) - total_barrier (pass_orders ?p)) + pass_remaining ?p \<and>
      0 \<le> pass_remaining ?p"
    using grid gi by (intro consume_orders_accounts [OF _ rg]) (auto simp: group_on_grid_def group_inv_def)
  moreover have "0 < pass_remaining ?p \<longrightarrow> (\<forall>r \<in> set (pass_orders ?p). own_remaining r = 0)"
    using consume_orders_leftover [of "group_own_orders g"] gi by (auto simp: group_inv_def)
  ultimately show ?thesis using eq sub by (intro exI [of _ "pass_remaining ?p"]) simp
qed

theorem flow_is_conserved_witness:
  "\<exists>q' g'. priority_trade = Return [(''A'', 10), (''B'', 3)] q' \<and>
     dict_get (groups q') sample_key = Some g' \<and>
     (\<exists>left \<ge> 0. 20 = (5 - group_public_remaining g') + (2 - total_barrier (group_own_orders g')) + 13 + left)"
proof -
  obtain q' g g' where *: "priority_trade = Return [(''A'', 10), (''B'', 3)] q'"
    "dict_get (groups priority_queue) sample_key = Some g" "dict_get (groups q') sample_key = Some g'"
    "g = priority_group 5 10 2 10 None None None"
    by (rule priority_trade_cases)
  have grid: "group_on_grid 0 g" and q20: "on_flow_grid 0 20"
    by (simp_all add: *(4) group_on_grid_def on_flow_grid_def on_grid_def pow10_def)
  note conserved = flow_is_conserved [OF priority_queue_inv *(1) [unfolded priority_trade_def] *(2,3) grid q20]
  have "\<exists>left \<ge> 0. 20 = (5 - group_public_remaining g') + (2 - total_barrier (group_own_orders g')) + 13 + left"
    using conserved by (elim exE conjE, intro exI conjI) (assumption, simp add: *(4))
  with *(1,3) show ?thesis by blast
qed

text \<open>
  A public trade is consumed at most once. In every run that raises nothing, the event
  identifiers of the trades are pairwise different, and time never goes back.
\<close>

lemma trades_consumed_once:
  assumes "run_ops exec_queue ops default_queue = Return rs q"
  shows "distinct (concat (map queue_op_events ops)) \<and> sorted (map queue_op_time ops) \<and>
         (ops \<noteq> [] \<longrightarrow> last_time_us q = queue_op_time (last ops))"
proof -
  have "sorted (-1 # map queue_op_time ops)" "last_time_us q = last (-1 # map queue_op_time ops)"
    using queue_clock.run_times [OF queue_inv_default assms] by (auto simp: default_queue_def)
  then show ?thesis using run_queue_events [OF queue_inv_default assms] by (auto simp: last_map)
qed

lemma trades_consumed_once_witness:
  "\<exists>rs q. run_ops exec_queue sample_queue_ops default_queue = Return rs q \<and>
     distinct (concat (map queue_op_events sample_queue_ops)) \<and> last_time_us q = 200"
proof -
  have "(case run_ops exec_queue sample_queue_ops default_queue of Return _ _ \<Rightarrow> True | _ \<Rightarrow> False)"
    by code_simp
  then obtain rs q where r: "run_ops exec_queue sample_queue_ops default_queue = Return rs q"
    by (auto split: outcome.splits)
  from trades_consumed_once [OF r] r show ?thesis by (auto simp: sample_queue_ops_def)
qed

text \<open>
  The estimate of an order is a snapshot: it only drops flow samples older than the
  window, it reports the quantity ahead of the order, its four probabilities lie between
  zero and one and grow with the horizon.
\<close>

lemma estimate_probabilities:
  assumes "queue_inv q" and "estimate oid now q = Return e q'"
  shows "groups q' = groups q \<and> queue_ahead oid q = Inr (est_queue_ahead e) \<and>
         0 \<le> est_fill_probability_30s e \<and>
         est_fill_probability_30s e \<le> est_fill_probability_1m e \<and>
         est_fill_probability_1m e \<le> est_fill_probability_3m e \<and>
         est_fill_probability_3m e \<le> est_fill_probability_5m e \<and>
         est_fill_probability_5m e \<le> 1"
proof -
  obtain clear where p: "est_fill_probability_30s e = fill_probability clear 30"
    "est_fill_probability_1m e = fill_probability clear 60"
    "est_fill_probability_3m e = fill_probability clear 180"
    "est_fill_probability_5m e = fill_probability clear 300"
    "queue_ahead oid q = Inr (est_queue_ahead e)"
    using assms(2) by (auto simp: estimate_def queue_causal_cases queue_ahead_def Let_def
        split: option.splits sum.splits)
  show ?thesis unfolding p
    using estimate_inv [OF assms] fill_probability_mono [of _ _ clear] fill_probability_bounds [of _ clear] p
    by simp
qed

lemma estimate_probabilities_witness:
  "\<exists>e q'. estimate ''A'' 300 sample_queue = Return e q' \<and> est_fill_probability_30s e \<le> 1"
proof -
  have "(case estimate ''A'' 300 sample_queue of Return _ _ \<Rightarrow> True | _ \<Rightarrow> False)" by code_simp
  then obtain e q' where r: "estimate ''A'' 300 sample_queue = Return e q'"
    by (auto split: outcome.splits)
  from estimate_probabilities [OF sample_queue_inv r] r show ?thesis by auto
qed

end
