(* ===== verification/Completion_Estimators.thy ===== *)
theory Completion_Estimators
  imports Causal_Queue
begin

text \<open>
  The resolved-outcome history and the two prefix-only estimators of
  \<^verbatim>\<open>microstructure/multi_stable_queue.py\<close>: the completion probability and the
  expected lock time. Both read only outcomes that were available at the decision, which
  is what the prefix properties at the end say.
\<close>

section \<open>Observations and their history\<close>

record completion_observation =
  observation_id :: string
  obs_context :: string
  decided_at_us :: int
  outcome_available_at_us :: int
  obs_horizon_seconds :: int
  completed :: bool
  observed_lock_seconds :: decimal

text \<open>The check of \<^verbatim>\<open>CompletionObservation.__post_init__\<close>.\<close>

definition valid_observation :: "completion_observation \<Rightarrow> bool" where
  "valid_observation ob =
     (let horizon_us = obs_horizon_seconds ob * 1000000;
          observed_lock_us = dtrunc (dmul (observed_lock_seconds ob) 1000000)
      in \<not> (decided_at_us ob < 0 \<or>
            outcome_available_at_us ob < decided_at_us ob \<or>
            obs_horizon_seconds ob \<le> 0 \<or>
            observed_lock_seconds ob < 0 \<or>
            (completed ob \<and> of_int (obs_horizon_seconds ob) < observed_lock_seconds ob) \<or>
            (completed ob \<and> outcome_available_at_us ob < decided_at_us ob + observed_lock_us) \<or>
            (\<not> completed ob \<and>
               (observed_lock_seconds ob < of_int (obs_horizon_seconds ob) \<or>
                outcome_available_at_us ob < decided_at_us ob + horizon_us))))"

definition new_observation :: "completion_observation \<Rightarrow> py_error + completion_observation" where
  "new_observation ob =
     (if valid_observation ob then Inr ob
      else Inl (ValueError ''M034_INVALID_COMPLETION_OBSERVATION''))"

type_synonym completion_history = "(string, completion_observation) dict"

definition add_observation ::
    "completion_observation \<Rightarrow> completion_history \<Rightarrow> (unit, completion_history) outcome" where
  "add_observation ob h =
     (if has_key h (observation_id ob)
      then Raise (ValueError ''M034_DUPLICATE_COMPLETION_OBSERVATION'') h
      else Return () (dict_set (observation_id ob) ob h))"

definition prefix_key :: "completion_observation \<Rightarrow> int \<times> string" where
  "prefix_key ob = (outcome_available_at_us ob, observation_id ob)"

definition history_prefix ::
    "string \<Rightarrow> int \<Rightarrow> int \<Rightarrow> completion_history \<Rightarrow> completion_observation list" where
  "history_prefix context horizon now h =
     sort_key prefix_key (filter (\<lambda>ob. obs_context ob = context \<and>
        obs_horizon_seconds ob = horizon \<and> outcome_available_at_us ob \<le> now) (dict_values h))"

section \<open>The estimators\<close>

text \<open>Both estimators hold the same configuration next to the history they read.\<close>

record estimator_config =
  minimum_samples :: int
  config_training_cutoff_us :: int
  config_horizon_seconds :: int

definition new_probability_estimator :: "int \<Rightarrow> int \<Rightarrow> int \<Rightarrow> py_error + estimator_config" where
  "new_probability_estimator samples cutoff horizon =
     (if samples \<le> 0 \<or> cutoff < 0 then Inl (ValueError ''M034_INVALID_MINIMUM_COMPLETION_SAMPLES'')
      else if horizon \<le> 0 then Inl (ValueError ''M034_INVALID_COMPLETION_HORIZON'')
      else Inr \<lparr>minimum_samples = samples, config_training_cutoff_us = cutoff,
                config_horizon_seconds = horizon\<rparr>)"

definition new_lock_time_estimator :: "int \<Rightarrow> int \<Rightarrow> int \<Rightarrow> py_error + estimator_config" where
  "new_lock_time_estimator samples cutoff horizon =
     (if samples \<le> 0 \<or> cutoff < 0 then Inl (ValueError ''M034_INVALID_MINIMUM_LOCK_SAMPLES'')
      else if horizon \<le> 0 then Inl (ValueError ''M034_INVALID_LOCK_HORIZON'')
      else Inr \<lparr>minimum_samples = samples, config_training_cutoff_us = cutoff,
                config_horizon_seconds = horizon\<rparr>)"

record completion_probability_estimate =
  cp_probability :: decimal
  cp_sample_count :: nat
  cp_as_of_us :: int
  cp_training_cutoff_us :: int
  cp_feature_cutoff_us :: int
  cp_horizon_seconds :: int
  cp_estimator_version :: string

record lock_time_estimate =
  lt_expected_seconds :: decimal
  lt_p95_seconds :: decimal
  lt_sample_count :: nat
  lt_as_of_us :: int
  lt_training_cutoff_us :: int
  lt_feature_cutoff_us :: int
  lt_horizon_seconds :: int
  lt_estimator_version :: string

definition cutoff_after_decision :: "estimator_config \<Rightarrow> int \<Rightarrow> int \<Rightarrow> bool" where
  "cutoff_after_decision c now feature_cutoff \<longleftrightarrow>
     now < 0 \<or> feature_cutoff < 0 \<or> now < config_training_cutoff_us c \<or> now < feature_cutoff"

definition training_rows ::
    "estimator_config \<Rightarrow> string \<Rightarrow> int \<Rightarrow> completion_history \<Rightarrow> completion_observation list" where
  "training_rows c context now h =
     history_prefix context (config_horizon_seconds c) (min now (config_training_cutoff_us c)) h"

definition estimate_completion ::
    "estimator_config \<Rightarrow> string \<Rightarrow> int \<Rightarrow> int \<Rightarrow> completion_history \<Rightarrow>
     py_error + completion_probability_estimate option" where
  "estimate_completion c context now feature_cutoff h =
     (if cutoff_after_decision c now feature_cutoff
      then Inl (ValueError ''M034_ESTIMATOR_CUTOFF_AFTER_DECISION'')
      else
        let rows = training_rows c context now h
        in if int (length rows) < minimum_samples c then Inr None
           else if rows = [] then Inl InvalidOperation
           else Inr (Some
             \<lparr>cp_probability = ddiv (of_nat (length (filter completed rows))) (of_nat (length rows)),
              cp_sample_count = length rows, cp_as_of_us = now,
              cp_training_cutoff_us = config_training_cutoff_us c,
              cp_feature_cutoff_us = feature_cutoff,
              cp_horizon_seconds = config_horizon_seconds c,
              cp_estimator_version = ''M034_EMPIRICAL_RESOLVED_PREFIX_V1''\<rparr>))"

definition estimate_lock_time ::
    "estimator_config \<Rightarrow> string \<Rightarrow> int \<Rightarrow> int \<Rightarrow> completion_history \<Rightarrow>
     py_error + lock_time_estimate option" where
  "estimate_lock_time c context now feature_cutoff h =
     (if cutoff_after_decision c now feature_cutoff
      then Inl (ValueError ''M034_ESTIMATOR_CUTOFF_AFTER_DECISION'')
      else
        let rows = training_rows c context now h;
            completed_rows = filter completed rows
        in if length completed_rows \<noteq> length rows \<or> int (length completed_rows) < minimum_samples c
           then Inr None
           else if completed_rows = [] then Inl InvalidOperation
           else
             let waits = map observed_lock_seconds completed_rows
             in case percentile_decimal waits (95 / 100) of
                  Inl e \<Rightarrow> Inl e
                | Inr p95 \<Rightarrow> Inr (Some
                    \<lparr>lt_expected_seconds = ddiv (dsum waits) (of_nat (length waits)),
                     lt_p95_seconds = p95, lt_sample_count = length completed_rows,
                     lt_as_of_us = now, lt_training_cutoff_us = config_training_cutoff_us c,
                     lt_feature_cutoff_us = feature_cutoff,
                     lt_horizon_seconds = config_horizon_seconds c,
                     lt_estimator_version = ''M034_UNCENSORED_LOCK_PREFIX_V3''\<rparr>))"

section \<open>The prefix of the history\<close>

lemma history_prefix_set:
  "set (history_prefix context horizon now h) =
     {ob \<in> set (dict_values h). obs_context ob = context \<and> obs_horizon_seconds ob = horizon \<and>
        outcome_available_at_us ob \<le> now}"
  by (auto simp: history_prefix_def)

lemma history_prefix_later:
  assumes "add_observation ob h = Return () h'" and "now < outcome_available_at_us ob"
  shows "history_prefix context horizon now h' = history_prefix context horizon now h"
proof -
  have "h' = h @ [(observation_id ob, ob)]"
    using assms(1) by (simp add: add_observation_def has_key_def set_new_key split: if_splits)
  then show ?thesis using assms(2) by (simp add: history_prefix_def)
qed

lemma ddiv_ratio_bounds:
  assumes "0 \<le> a" and "a \<le> b"
  shows "0 \<le> ddiv a b" and "ddiv a b \<le> 1"
proof -
  show "0 \<le> ddiv a b" using assms by (intro ddiv_nonneg) auto
  have "dround 28 1 = 1" using dround_grid_le [of 1 1 0 28] by (simp add: pow10_def)
  moreover have "a / b \<le> 1" using assms by (cases "b = 0") (simp_all add: divide_le_eq)
  ultimately show "ddiv a b \<le> 1" unfolding ddiv_def by (intro prec28.rnd_le_exact)
qed

section \<open>Percentiles\<close>

text \<open>Counts below \<open>10\<^sup>2\<^sup>4\<close> leave four digits for the rank, so the index arithmetic is exact.\<close>

lemma percentile_index_exact:
  assumes "0 < n" and "n < 10 ^ 24" and "on_grid 4 rank" and "0 \<le> rank" and "rank \<le> 1"
  shows "percentile_index n rank = \<lceil>(of_nat n - 1) * rank\<rceil>"
proof -
  let ?m = "of_nat n - 1 :: rat"
  have m: "0 \<le> ?m" "?m < 10 ^ 24"
  proof -
    show "0 \<le> ?m" using assms(1) by (simp add: Suc_leI)
    have "of_nat n < (of_nat (10 ^ 24) :: rat)" using assms(2) by (simp only: of_nat_less_iff)
    then show "?m < 10 ^ 24" by simp
  qed
  have "exact28 ?m"
    by (rule exact28_grid [of 0]) (use m in \<open>simp_all add: on_grid_def pow10_def\<close>)
  then have 1: "dsub (of_nat n) 1 = ?m" by (rule dsub_exact)
  have "?m * rank \<le> ?m" using m assms(5) by (simp add: mult_left_le)
  moreover have "0 \<le> ?m * rank" using m assms(4) by simp
  moreover have "?m * (rank * 10 ^ 4) \<in> \<int>"
    by (rule Ints_mult) (use assms(3) in \<open>simp_all add: on_grid_def\<close>)
  ultimately have "exact28 (?m * rank)"
    using m by (intro exact28_grid [of 4]) (auto simp: on_grid_def pow10_def mult.assoc)
  then show ?thesis using 1 dmul_exact by (simp add: percentile_index_def)
qed

lemma percentile_index_range:
  assumes "0 < n" and "n < 10 ^ 24" and "on_grid 4 rank" and "0 \<le> rank" and "rank \<le> 1"
  shows "0 \<le> percentile_index n rank" and "percentile_index n rank \<le> int n - 1"
    and "(of_nat n - 1) * rank \<le> of_int (percentile_index n rank)"
proof -
  have n1: "0 \<le> (of_nat n - 1 :: rat)" using assms(1) by (simp add: Suc_leI)
  then have "(of_nat n - 1) * rank \<le> of_nat n - 1" using assms(5) by (simp add: mult_left_le)
  then have "\<lceil>(of_nat n - 1) * rank\<rceil> \<le> int n - 1" unfolding ceiling_le_iff by simp
  moreover have "0 \<le> \<lceil>(of_nat n - 1) * rank\<rceil>"
    using n1 assms(4) by (metis ceiling_mono ceiling_zero mult_nonneg_nonneg)
  ultimately show "0 \<le> percentile_index n rank" "percentile_index n rank \<le> int n - 1"
    "(of_nat n - 1) * rank \<le> of_int (percentile_index n rank)"
    using percentile_index_exact [OF assms] by simp_all
qed

lemma sorted_prefix_below:
  "sorted xs \<Longrightarrow> i < length xs \<Longrightarrow> Suc i \<le> length (filter (\<lambda>x. x \<le> xs ! i) xs)"
proof -
  assume s: "sorted xs" "i < length xs"
  have "filter (\<lambda>x. x \<le> xs ! i) (take (Suc i) xs) = take (Suc i) xs"
    using s by (intro filter_True) (auto simp: in_set_conv_nth sorted_nth_mono less_Suc_eq_le)
  then have "Suc i = length (filter (\<lambda>x. x \<le> xs ! i) (take (Suc i) xs))" using s by simp
  also have "\<dots> \<le> length (filter (\<lambda>x. x \<le> xs ! i) (take (Suc i) xs @ drop (Suc i) xs))"
    unfolding filter_append by simp
  finally show ?thesis by simp
qed

lemma percentile_covers:
  fixes xs :: "decimal list"
  assumes "percentile_decimal xs rank = Inr v" and "length xs < 10 ^ 24"
    and "on_grid 4 rank" and "0 \<le> rank" and "rank \<le> 1"
  shows "v \<in> set xs" and "of_nat (length xs) * rank \<le> of_nat (length (filter (\<lambda>x. x \<le> v) xs))"
proof -
  let ?n = "length xs" and ?i = "percentile_index (length xs) rank"
  have ne: "xs \<noteq> []" and v: "v = sort xs ! nat ?i"
    using assms(1) by (auto simp: percentile_decimal_def split: if_splits)
  then have n: "0 < ?n" by simp
  note r = percentile_index_range [OF n assms(2-5)]
  have i: "nat ?i < length (sort xs)" using r(1,2) n by (simp add: nat_less_iff)
  show "v \<in> set xs" using nth_mem [OF i] v by simp
  have "Suc (nat ?i) \<le> length (filter (\<lambda>x. x \<le> v) (sort xs))"
    using sorted_prefix_below [OF _ i] v by simp
  also have "\<dots> = length (filter (\<lambda>x. x \<le> v) xs)"
    by (metis mset_filter mset_sort size_mset)
  finally have "of_int ?i + 1 \<le> (of_nat (length (filter (\<lambda>x. x \<le> v) xs)) :: rat)"
    using r(1) by (metis of_int_of_nat_eq int_nat_eq of_nat_Suc of_nat_le_iff add.commute)
  moreover have "of_nat ?n * rank \<le> (of_nat ?n - 1) * rank + 1"
    using assms(5) by (simp add: algebra_simps)
  ultimately show "of_nat ?n * rank \<le> of_nat (length (filter (\<lambda>x. x \<le> v) xs))"
    using r(3) by linarith
qed

section \<open>Properties\<close>

definition sample_observation :: "string \<Rightarrow> int \<Rightarrow> decimal \<Rightarrow> completion_observation" where
  "sample_observation oid available lock =
     \<lparr>observation_id = oid, obs_context = ''CALM'', decided_at_us = 0,
      outcome_available_at_us = available, obs_horizon_seconds = 60, completed = lock < 60,
      observed_lock_seconds = lock\<rparr>"

definition sample_history :: completion_history where
  "sample_history = map (\<lambda>ob. (observation_id ob, ob))
     [sample_observation ''O1'' 60000000 10, sample_observation ''O2'' 61000000 60,
      sample_observation ''O3'' 62000000 20]"

definition sample_config :: estimator_config where
  "sample_config = \<lparr>minimum_samples = 2, config_training_cutoff_us = 70000000,
                    config_horizon_seconds = 60\<rparr>"

text \<open>
  C38: no look-ahead. Recording an outcome that became available after the decision, or after
  the training cutoff, changes neither estimate, whatever the outcome is.
\<close>

theorem estimates_ignore_the_future:
  assumes "add_observation ob h = Return () h'"
    and "min now (config_training_cutoff_us c) < outcome_available_at_us ob"
  shows "estimate_completion c context now feature h' = estimate_completion c context now feature h \<and>
         estimate_lock_time c context now feature h' = estimate_lock_time c context now feature h"
  using history_prefix_later [OF assms]
  by (simp add: estimate_completion_def estimate_lock_time_def training_rows_def)

theorem estimates_ignore_the_future_witness:
  "\<exists>h'. add_observation (sample_observation ''O4'' 71000000 5) sample_history = Return () h' \<and>
     estimate_completion sample_config ''CALM'' 80000000 0 h' =
     estimate_completion sample_config ''CALM'' 80000000 0 sample_history"
proof -
  have a: "add_observation (sample_observation ''O4'' 71000000 5) sample_history =
      Return () (sample_history @ [(''O4'', sample_observation ''O4'' 71000000 5)])"
    by code_simp
  have "min 80000000 (config_training_cutoff_us sample_config) <
      outcome_available_at_us (sample_observation ''O4'' 71000000 5)" by code_simp
  from estimates_ignore_the_future [OF a this] a show ?thesis by blast
qed

text \<open>
  An estimate is made of enough resolved outcomes. When the completion estimator answers,
  every row it read was available by the decision and by the training cutoff, there are at
  least the configured number of them, and the probability is their completed share, between
  zero and one; no cutoff lies after the decision.
\<close>

lemma completion_probability_sound:
  assumes "new_probability_estimator samples cutoff horizon = Inr c"
    and "estimate_completion c context now feature h = Inr (Some e)"
  shows "let rows = training_rows c context now h in
         (\<forall>ob \<in> set rows. outcome_available_at_us ob \<le> now \<and> outcome_available_at_us ob \<le> cutoff \<and>
            obs_horizon_seconds ob = horizon \<and> ob \<in> set (dict_values h)) \<and>
         samples \<le> int (length rows) \<and> cp_sample_count e = length rows \<and> 0 < length rows \<and>
         cp_probability e = ddiv (of_nat (length (filter completed rows))) (of_nat (length rows)) \<and>
         0 \<le> cp_probability e \<and> cp_probability e \<le> 1 \<and> cutoff \<le> now \<and> feature \<le> now"
proof -
  have c: "minimum_samples c = samples" "config_training_cutoff_us c = cutoff"
    "config_horizon_seconds c = horizon" "0 < samples"
    using assms(1) by (auto simp: new_probability_estimator_def split: if_splits)
  show ?thesis
    using assms(2) c ddiv_ratio_bounds
      [of "of_nat (length (filter completed (training_rows c context now h)))"
          "of_nat (length (training_rows c context now h))"]
    by (auto simp: estimate_completion_def cutoff_after_decision_def Let_def training_rows_def
        history_prefix_set split: if_splits)
qed

lemma completion_probability_sound_witness:
  "\<exists>e. estimate_completion sample_config ''CALM'' 80000000 0 sample_history = Inr (Some e) \<and>
     cp_sample_count e = 3 \<and> cp_probability e \<le> 1"
proof -
  have c: "new_probability_estimator 2 70000000 60 = Inr sample_config" by code_simp
  have "case estimate_completion sample_config ''CALM'' 80000000 0 sample_history of
          Inr (Some e) \<Rightarrow> cp_sample_count e = 3 | _ \<Rightarrow> False" by code_simp
  then obtain e where e: "estimate_completion sample_config ''CALM'' 80000000 0 sample_history = Inr (Some e)"
    "cp_sample_count e = 3" by (auto split: sum.splits option.splits)
  from completion_probability_sound [OF c e(1)] e show ?thesis by (auto simp: Let_def)
qed

text \<open>
  The lock-time estimate is uncensored. When it answers, every row of the prefix
  completed; its 95th percentile is a lock time that was observed and at least 95 percent of
  the observed lock times are no larger.
\<close>

lemma lock_time_uncensored:
  assumes "estimate_lock_time c context now feature h = Inr (Some e)"
    and "length (training_rows c context now h) < 10 ^ 24"
  shows "let waits = map observed_lock_seconds (training_rows c context now h) in
         (\<forall>ob \<in> set (training_rows c context now h). completed ob) \<and>
         lt_p95_seconds e \<in> set waits \<and>
         of_nat (length waits) * (95 / 100) \<le> (of_nat (length (filter (\<lambda>w. w \<le> lt_p95_seconds e) waits)) :: rat)"
proof -
  let ?rows = "training_rows c context now h"
  have all: "length (filter completed ?rows) = length ?rows"
    and p: "percentile_decimal (map observed_lock_seconds (filter completed ?rows)) (95 / 100) = Inr (lt_p95_seconds e)"
    using assms(1) by (auto simp: estimate_lock_time_def Let_def split: if_splits sum.splits)
  from all have id: "filter completed ?rows = ?rows" and ok: "\<forall>ob \<in> set ?rows. completed ob"
    by (metis filter_True length_filter_less less_irrefl)+
  have "on_grid 4 (95 / 100)" by (simp add: on_grid_def)
  then show ?thesis
    using percentile_covers [OF p [unfolded id]] assms(2) ok by (simp add: Let_def)
qed

lemma lock_time_uncensored_witness:
  "\<exists>e. estimate_lock_time sample_config ''CALM'' 80000000 0
       (dict_del ''O2'' sample_history) = Inr (Some e) \<and>
     lt_p95_seconds e \<in> {10, 20} \<and>
     (\<forall>ob \<in> set (training_rows sample_config ''CALM'' 80000000 (dict_del ''O2'' sample_history)). completed ob)"
proof -
  let ?h = "dict_del ''O2'' sample_history"
  have rows: "map observed_lock_seconds (training_rows sample_config ''CALM'' 80000000 ?h) = [10, 20]"
    by code_simp
  have "case estimate_lock_time sample_config ''CALM'' 80000000 0 ?h of
          Inr (Some e) \<Rightarrow> True | _ \<Rightarrow> False" by code_simp
  then obtain e where e: "estimate_lock_time sample_config ''CALM'' 80000000 0 ?h = Inr (Some e)"
    by (auto split: sum.splits option.splits)
  have "length (training_rows sample_config ''CALM'' 80000000 ?h) < 10 ^ 24"
    using arg_cong [OF rows, of length] by simp
  note sound = lock_time_uncensored [OF e this, unfolded Let_def rows]
  show ?thesis using e sound by (intro exI [of _ e]) (simp add: conj_commute)
qed

end
