(* ===== verification/M035_Cycles.thy ===== *)
theory M035_Cycles
  imports Py_Decimal
begin

text \<open>
  Closed cycles and their zero-loss classification
  (\<^verbatim>\<open>CycleRecord\<close> and \<^verbatim>\<open>CycleAttributionLedger\<close> of
  \<^verbatim>\<open>parallel_pair_capital_manager.py\<close>). The ledger object is the dictionary of its
  cycles.
\<close>

definition known_pair :: "string \<Rightarrow> bool" where
  "known_pair pair_id \<longleftrightarrow> pair_id = ''PAIR_A'' \<or> pair_id = ''PAIR_B''"

record cycle_record =
  cycle_id :: string
  cycle_pair_id :: string
  cycle_proceeds_usdt :: decimal
  cycle_original_cost_basis_usdt :: decimal
  cycle_fees_usdt :: decimal
  cycle_execution_cost_usdt :: decimal
  cycle_adverse_selection_usdt :: decimal
  cycle_attributable_costs_usdt :: decimal
  cycle_risk_exit :: bool

definition cycle_net_pnl :: "cycle_record \<Rightarrow> decimal" where
  "cycle_net_pnl c =
     dsub (dsub (dsub (dsub (dsub (cycle_proceeds_usdt c) (cycle_original_cost_basis_usdt c))
       (cycle_fees_usdt c)) (cycle_execution_cost_usdt c)) (cycle_adverse_selection_usdt c))
       (cycle_attributable_costs_usdt c)"

type_synonym cycle_ledger = "(string, cycle_record) dict"

definition record_cycle :: "cycle_record \<Rightarrow> cycle_ledger \<Rightarrow> (unit, cycle_ledger) outcome" where
  "record_cycle c cs =
     (if has_key cs (cycle_id c) \<or> \<not> known_pair (cycle_pair_id c)
      then Raise (ValueError ''M035_INVALID_OR_DUPLICATE_CYCLE'') cs
      else Return () (dict_set (cycle_id c) c cs))"

definition negative_closed_cycles :: "cycle_ledger \<Rightarrow> nat" where
  "negative_closed_cycles cs = length (filter (\<lambda>c. cycle_net_pnl c < 0) (dict_values cs))"

definition negative_risk_exits :: "cycle_ledger \<Rightarrow> nat" where
  "negative_risk_exits cs =
     length (filter (\<lambda>c. cycle_risk_exit c \<and> cycle_net_pnl c < 0) (dict_values cs))"

definition aggregate_pnl :: "cycle_ledger \<Rightarrow> decimal" where
  "aggregate_pnl cs = dsum (map cycle_net_pnl (dict_values cs))"

definition zero_loss_cycle_pass :: "cycle_ledger \<Rightarrow> bool" where
  "zero_loss_cycle_pass cs \<longleftrightarrow> negative_closed_cycles cs = 0"

definition cycles_economic_pass :: "cycle_ledger \<Rightarrow> bool" where
  "cycles_economic_pass cs \<longleftrightarrow> zero_loss_cycle_pass cs \<and> negative_risk_exits cs = 0"

lemma negative_closed_cycles_0 [simp]:
  "negative_closed_cycles cs = 0 \<longleftrightarrow> (\<forall>c \<in> set (dict_values cs). 0 \<le> cycle_net_pnl c)"
  by (force simp: negative_closed_cycles_def filter_empty_conv not_less)

lemma risk_exits_le: "negative_risk_exits cs \<le> negative_closed_cycles cs"
  unfolding negative_risk_exits_def negative_closed_cycles_def by (induction cs) auto

text \<open>The second conjunct of the economic classification follows from the first.\<close>

lemma cycles_economic_pass_iff: "cycles_economic_pass cs \<longleftrightarrow> zero_loss_cycle_pass cs"
  using risk_exits_le [of cs] unfolding cycles_economic_pass_def zero_loss_cycle_pass_def by linarith

text \<open>A cycle without fees nets its proceeds against its cost basis and attributable costs.\<close>

lemma cycle_net_pnl_plain:
  assumes "cycle_fees_usdt c = 0" "cycle_execution_cost_usdt c = 0" "cycle_adverse_selection_usdt c = 0"
  shows "cycle_net_pnl c = dsub (dsub (cycle_proceeds_usdt c) (cycle_original_cost_basis_usdt c))
    (cycle_attributable_costs_usdt c)"
  using assms by (simp add: cycle_net_pnl_def)

end
