(* ===== verification/M035_Dust.thy ===== *)
theory M035_Dust
  imports M035_Cycles
begin

text \<open>
  The dust sub-ledger of \<^verbatim>\<open>parallel_pair_capital_manager.py\<close>: residual lots that
  are too small to trade, owned by one pair each, aggregated and consumed first in first
  out. \<^verbatim>\<open>self.lots\<close> is the list itself.
\<close>

record dust_lot =
  lot_capital_id :: string
  lot_pair_id :: string
  lot_asset :: string
  lot_quantity :: decimal
  lot_cost_basis_usdt :: decimal
  lot_source_cycles :: "string list"
  lot_created_at_us :: int

record dust_consumption =
  consumed_asset :: string
  consumed_quantity :: decimal
  consumed_cost_basis_usdt :: decimal
  consumed_source_cycles :: "string list"
  consumed_source_capital_ids :: "string list"

definition dust_add :: "dust_lot \<Rightarrow> dust_lot list \<Rightarrow> (unit, dust_lot list) outcome" where
  "dust_add lot lots =
     (if lot_capital_id lot = [] \<or> \<not> known_pair (lot_pair_id lot) \<or> lot_asset lot = [] \<or>
         lot_quantity lot \<le> 0 \<or> lot_cost_basis_usdt lot < 0 \<or>
         (\<exists>row \<in> set lots. lot_capital_id row = lot_capital_id lot)
      then Raise (ValueError ''M035_INVALID_DUST_LOT'') lots
      else Return () (lots @ [lot]))"

text \<open>A lot of the asset and, where a pair is given, of that pair.\<close>

definition lot_of :: "string \<Rightarrow> string option \<Rightarrow> dust_lot \<Rightarrow> bool" where
  "lot_of asset pair_id row \<longleftrightarrow>
     lot_asset row = asset \<and> (case pair_id of None \<Rightarrow> True | Some p \<Rightarrow> lot_pair_id row = p)"

definition dust_quantity :: "string \<Rightarrow> string option \<Rightarrow> dust_lot list \<Rightarrow> decimal" where
  "dust_quantity asset pair_id lots = dsum (map lot_quantity (filter (lot_of asset pair_id) lots))"

definition dust_cost_basis :: "string \<Rightarrow> string option \<Rightarrow> dust_lot list \<Rightarrow> decimal" where
  "dust_cost_basis asset pair_id lots =
     dsum (map lot_cost_basis_usdt (filter (lot_of asset pair_id) lots))"

definition dust_marked_value :: "(string, decimal) dict \<Rightarrow> dust_lot list \<Rightarrow> py_error + decimal" where
  "dust_marked_value marks lots =
     (if \<exists>row \<in> set lots. \<not> has_key marks (lot_asset row)
      then Inl (ValueError ''M035_DUST_MARK_MISSING'')
      else Inr (dsum (map (\<lambda>row. dmul (lot_quantity row) (get_or marks (lot_asset row) 0)) lots)))"

definition tradeable_quantity ::
    "string \<Rightarrow> decimal \<Rightarrow> decimal \<Rightarrow> string option \<Rightarrow> dust_lot list \<Rightarrow> py_error + decimal" where
  "tradeable_quantity asset step_size minimum_quantity pair_id lots =
     (if step_size \<le> 0 \<or> minimum_quantity \<le> 0 then Inl (ValueError ''M035_INVALID_DUST_RULE'')
      else let available = dust_quantity asset pair_id lots;
               tradeable = dmul (of_int \<lfloor>ddiv available step_size\<rfloor>) step_size
           in Inr (if minimum_quantity \<le> tradeable then tradeable else 0))"

definition dust_fifo_key :: "dust_lot \<Rightarrow> int \<times> string" where
  "dust_fifo_key row = (lot_created_at_us row, lot_capital_id row)"

section \<open>Previewing a consumption\<close>

record lot_pass =
  lp_lots :: "dust_lot list"
  lp_remaining :: decimal
  lp_cost_basis :: decimal
  lp_cycles :: "string list"
  lp_capital_ids :: "string list"
  lp_error :: "py_error option"

text \<open>
  The loop over the sorted lots, shared by \<^verbatim>\<open>preview_consumption\<close> and
  \<^verbatim>\<open>consume\<close>, which differ in the cost they take from a lot (\<open>share\<close>) and in
  whether the lot is written. A lot of quantity zero would divide zero by zero.
\<close>

primrec walk_lots ::
    "(dust_lot \<Rightarrow> decimal \<Rightarrow> decimal) \<Rightarrow> bool \<Rightarrow> string \<Rightarrow> string \<Rightarrow> int \<Rightarrow> dust_lot list \<Rightarrow>
     decimal \<Rightarrow> decimal \<Rightarrow> lot_pass" where
  "walk_lots share write asset pair_id now [] rem cost =
     \<lparr>lp_lots = [], lp_remaining = rem, lp_cost_basis = cost, lp_cycles = [],
      lp_capital_ids = [], lp_error = None\<rparr>"
| "walk_lots share write asset pair_id now (l # ls) rem cost =
     (let halt = (\<lambda>e. \<lparr>lp_lots = l # ls, lp_remaining = rem, lp_cost_basis = cost, lp_cycles = [],
                       lp_capital_ids = [], lp_error = e\<rparr>)
      in if rem = 0 then halt None
         else if lot_asset l \<noteq> asset \<or> lot_pair_id l \<noteq> pair_id
         then (let p = walk_lots share write asset pair_id now ls rem cost
               in p\<lparr>lp_lots := l # lp_lots p\<rparr>)
         else if now < lot_created_at_us l
         then halt (Some (ValueError ''M035_NONCAUSAL_DUST_CONSUMPTION''))
         else if lot_quantity l = 0 then halt (Some InvalidOperation)
         else
           let taken = min (lot_quantity l) rem;
               taken_cost = share l taken;
               l' = (if write
                     then l\<lparr>lot_quantity := dsub (lot_quantity l) taken,
                            lot_cost_basis_usdt := dsub (lot_cost_basis_usdt l) taken_cost\<rparr>
                     else l);
               p = walk_lots share write asset pair_id now ls (dsub rem taken) (dadd cost taken_cost)
           in p\<lparr>lp_lots := l' # lp_lots p,
                lp_cycles := lot_source_cycles l @ lp_cycles p,
                lp_capital_ids := lot_capital_id l # lp_capital_ids p\<rparr>)"

definition preview_share :: "dust_lot \<Rightarrow> decimal \<Rightarrow> decimal" where
  "preview_share l taken = ddiv (dmul (lot_cost_basis_usdt l) taken) (lot_quantity l)"

definition consume_share :: "dust_lot \<Rightarrow> decimal \<Rightarrow> decimal" where
  "consume_share l taken = dmul (lot_cost_basis_usdt l) (ddiv taken (lot_quantity l))"

definition consumption_of :: "string \<Rightarrow> decimal \<Rightarrow> lot_pass \<Rightarrow> dust_consumption" where
  "consumption_of asset quantity p =
     \<lparr>consumed_asset = asset, consumed_quantity = quantity,
      consumed_cost_basis_usdt = lp_cost_basis p,
      consumed_source_cycles = fromkeys (lp_cycles p),
      consumed_source_capital_ids = fromkeys (lp_capital_ids p)\<rparr>"

definition preview_consumption ::
    "string \<Rightarrow> decimal \<Rightarrow> string \<Rightarrow> int \<Rightarrow> dust_lot list \<Rightarrow> py_error + dust_consumption" where
  "preview_consumption asset quantity pair_id now lots =
     (if quantity \<le> 0 \<or> dust_quantity asset (Some pair_id) lots < quantity
      then Inl (ValueError ''M035_DUST_INSUFFICIENT'')
      else
        let p = walk_lots preview_share False asset pair_id now (sort_key dust_fifo_key lots) quantity 0
        in case lp_error p of
             Some e \<Rightarrow> Inl e
           | None \<Rightarrow>
               if lp_remaining p \<noteq> 0 then Inl (ValueError ''M035_DUST_CONSUMPTION_RESIDUAL'')
               else Inr (consumption_of asset quantity p))"

section \<open>Consuming\<close>

text \<open>
  The loop mutates the lots through a sorted view; the ledger's own list keeps its order.
  A lot is found again by its capital id, which \<^const>\<open>dust_add\<close> keeps unique.
\<close>

definition rewrite_lots :: "dust_lot list \<Rightarrow> dust_lot list \<Rightarrow> dust_lot list" where
  "rewrite_lots lots updated =
     map (\<lambda>l. case find (\<lambda>u. lot_capital_id u = lot_capital_id l) updated of
                None \<Rightarrow> l | Some u \<Rightarrow> u) lots"

definition dust_consume ::
    "string \<Rightarrow> decimal \<Rightarrow> string \<Rightarrow> int \<Rightarrow> dust_lot list \<Rightarrow> (dust_consumption, dust_lot list) outcome" where
  "dust_consume asset quantity pair_id now lots =
     (if quantity \<le> 0 \<or> dust_quantity asset (Some pair_id) lots < quantity
      then Raise (ValueError ''M035_DUST_INSUFFICIENT'') lots
      else
        let p = walk_lots consume_share True asset pair_id now (sort_key dust_fifo_key lots) quantity 0;
            lots1 = rewrite_lots lots (lp_lots p)
        in case lp_error p of
             Some e \<Rightarrow> Raise e lots1
           | None \<Rightarrow>
               let lots2 = filter (\<lambda>row. 0 < lot_quantity row) lots1
               in if lp_remaining p \<noteq> 0 then Raise (ValueError ''M035_DUST_CONSUMPTION_RESIDUAL'') lots2
                  else Return (consumption_of asset quantity p) lots2)"

definition unique_ownership :: "dust_lot list \<Rightarrow> bool" where
  "unique_ownership lots \<longleftrightarrow> distinct (map lot_capital_id lots)"

end
