(* ===== verification/M035_Ledger.thy ===== *)
theory M035_Ledger
  imports M035_Dust
begin

text \<open>
  The shared-capital authority of \<^verbatim>\<open>parallel_pair_capital_manager.py\<close>:
  \<^verbatim>\<open>GlobalCapitalLedger\<close> with its positions, its dust, its closed cycles and its
  risk-exit authorizations. Every method is a state transformer with an outcome; the audit
  log keeps one constructor per event and the amounts as decimals instead of their text.
\<close>

section \<open>States, candidates and authorizations\<close>

datatype capital_state =
    RESERVED_PAIR_A
  | RESERVED_PAIR_B
  | INVENTORY_PAIR_A
  | INVENTORY_PAIR_B
  | RETURN_PAIR_A
  | RETURN_PAIR_B
  | CANCEL_PENDING

datatype allocation_priority = OWNED_RETURN | RISK_OBLIGATION | NEW_ENTRY

fun priority_value :: "allocation_priority \<Rightarrow> int" where
  "priority_value OWNED_RETURN = 1"
| "priority_value RISK_OBLIGATION = 2"
| "priority_value NEW_ENTRY = 3"

definition pair_state :: "string \<Rightarrow> bool \<Rightarrow> bool \<Rightarrow> py_error + capital_state" where
  "pair_state pair_id inventory returns =
     (if \<not> known_pair pair_id then Inl (ValueError ''M035_UNKNOWN_PAIR'')
      else let a = (pair_id = ''PAIR_A'')
           in if returns then Inr (if a then RETURN_PAIR_A else RETURN_PAIR_B)
              else if inventory then Inr (if a then INVENTORY_PAIR_A else INVENTORY_PAIR_B)
              else Inr (if a then RESERVED_PAIR_A else RESERVED_PAIR_B))"

record allocation_candidate =
  cand_id :: string
  cand_pair_id :: string
  cand_requested_usdt :: decimal
  cand_priority :: allocation_priority
  cand_marginal_productivity :: decimal
  cand_fifo_value :: decimal
  cand_expected_lock_seconds :: decimal
  cand_expected_net_edge :: decimal
  cand_allow_partial :: bool
  cand_existing_capital_id :: "string option"

definition new_candidate :: "allocation_candidate \<Rightarrow> py_error + allocation_candidate" where
  "new_candidate c =
     (if cand_id c = [] \<or> \<not> known_pair (cand_pair_id c) \<or> cand_requested_usdt c \<le> 0 \<or>
         cand_fifo_value c < 0 \<or> cand_expected_lock_seconds c \<le> 0
      then Inl (ValueError ''M035_INVALID_ALLOCATION_CANDIDATE'')
      else if cand_priority c = NEW_ENTRY \<and>
              (cand_marginal_productivity c \<le> 0 \<or> cand_expected_net_edge c \<le> 0)
      then Inl (ValueError ''M035_INELIGIBLE_NEW_ENTRY'')
      else if cand_priority c = OWNED_RETURN \<and>
              (case cand_existing_capital_id c of None \<Rightarrow> True | Some cid \<Rightarrow> cid = [])
      then Inl (ValueError ''M035_OWNED_RETURN_CAPITAL_ID_REQUIRED'')
      else Inr c)"

record risk_exit_authorization =
  auth_id :: string
  auth_capital_id :: string
  auth_pair_id :: string
  auth_decided_at_us :: int
  auth_expires_at_us :: int
  auth_rule_hash :: string
  auth_quantity :: decimal
  auth_expected_hold_loss_usdt :: decimal
  auth_opportunity_cost_usdt :: decimal
  auth_tail_risk_usdt :: decimal
  auth_loss_if_exit_now_usdt :: decimal

definition new_authorization :: "risk_exit_authorization \<Rightarrow> py_error + risk_exit_authorization" where
  "new_authorization a =
     (if auth_id a = [] \<or> auth_capital_id a = [] \<or> \<not> known_pair (auth_pair_id a) \<or>
         auth_decided_at_us a < 0 \<or> auth_expires_at_us a < auth_decided_at_us a \<or>
         auth_rule_hash a = [] \<or>
         min (min (auth_expected_hold_loss_usdt a) (auth_opportunity_cost_usdt a))
             (min (auth_tail_risk_usdt a) (auth_loss_if_exit_now_usdt a)) < 0 \<or>
         auth_quantity a \<le> 0 \<or>
         dadd (dadd (auth_expected_hold_loss_usdt a) (auth_opportunity_cost_usdt a))
              (auth_tail_risk_usdt a) \<le> auth_loss_if_exit_now_usdt a
      then Inl (ValueError ''M035_INVALID_RISK_EXIT_AUTHORIZATION'')
      else Inr a)"

section \<open>The ledger\<close>

record capital_position =
  cap_id :: string
  cap_pair_id :: string
  cap_state :: capital_state
  cap_cost_basis :: decimal
  cap_marked_value :: decimal
  cap_asset :: string
  cap_quantity :: decimal
  cap_created_at_us :: int
  cap_source_candidate_id :: string
  cap_source_capital_ids :: "string list"
  cap_source_cycles :: "string list"
  cap_attributable_costs :: decimal
  cap_returned_proceeds :: decimal
  cap_returned_quantity :: decimal
  cap_returned_cost_basis :: decimal
  cap_returned_attributable_costs :: decimal
  cap_pending_cycle_id :: "string option"
  cap_cancel_requested_at_us :: "int option"

text \<open>
  A position as its constructor leaves it: \<open>capital id, pair, state, cost basis, marked
  value, asset, quantity, creation time, source candidate\<close>; the other fields have defaults.
\<close>

definition new_position ::
    "string \<Rightarrow> string \<Rightarrow> capital_state \<Rightarrow> decimal \<Rightarrow> decimal \<Rightarrow> string \<Rightarrow> decimal \<Rightarrow> int \<Rightarrow> string \<Rightarrow>
     capital_position" where
  "new_position cid pair_id st cost marked asset quantity created candidate =
     \<lparr>cap_id = cid, cap_pair_id = pair_id, cap_state = st, cap_cost_basis = cost,
      cap_marked_value = marked, cap_asset = asset, cap_quantity = quantity,
      cap_created_at_us = created, cap_source_candidate_id = candidate,
      cap_source_capital_ids = [], cap_source_cycles = [], cap_attributable_costs = 0,
      cap_returned_proceeds = 0, cap_returned_quantity = 0, cap_returned_cost_basis = 0,
      cap_returned_attributable_costs = 0, cap_pending_cycle_id = None,
      cap_cancel_requested_at_us = None\<rparr>"

datatype (plugins only: code size) capital_event =
    CAPITAL_RESERVED int string string decimal
  | CANCEL_REQUEST int string
  | CANCEL_ACK int string decimal
  | ENTRY_FILL int string string string decimal decimal decimal
  | OWNED_RETURN_RESERVED int string
  | UNTRADEABLE_INVENTORY_MOVED_TO_DUST int string string string decimal string
  | INVENTORY_CONSOLIDATED int string "string list" string string decimal
  | RISK_EXIT_AUTHORIZED int string string string
  | RETURN_PARTIAL_FILL_SETTLED int string string decimal decimal decimal
  | RETURN_SETTLED int string string decimal decimal decimal "string option"
  | DUST_AGGREGATED_FOR_RETURN int string string decimal
  | CAUSAL_ASSET_MARK int string decimal

record capital_ledger =
  initial_bank_usdt :: decimal
  free_usdt :: decimal
  positions :: "(string, capital_position) dict"
  dust_lots :: "dust_lot list"
  cycles :: cycle_ledger
  realized_pnl_usdt :: decimal
  external_costs_usdt :: decimal
  asset_marks_usdt :: "(string, decimal) dict"
  risk_exit_authorizations :: "(string, risk_exit_authorization) dict"
  consumed_authorizations :: "string list"
  capital_audit :: "capital_event list"
  capital_sequence :: nat
  capital_last_event_us :: int

definition new_capital_ledger :: "decimal \<Rightarrow> py_error + capital_ledger" where
  "new_capital_ledger bank =
     (if bank \<noteq> 200 then Inl (ValueError ''M035_INITIAL_BANK_MUST_EQUAL_200'')
      else Inr \<lparr>initial_bank_usdt = bank, free_usdt = bank, positions = [], dust_lots = [],
                cycles = [], realized_pnl_usdt = 0, external_costs_usdt = 0,
                asset_marks_usdt = [(''USDT'', 1)], risk_exit_authorizations = [],
                consumed_authorizations = [], capital_audit = [], capital_sequence = 0,
                capital_last_event_us = -1\<rparr>)"

definition initial_ledger :: capital_ledger where
  "initial_ledger = \<lparr>initial_bank_usdt = 200, free_usdt = 200, positions = [], dust_lots = [],
      cycles = [], realized_pnl_usdt = 0, external_costs_usdt = 0,
      asset_marks_usdt = [(''USDT'', 1)], risk_exit_authorizations = [],
      consumed_authorizations = [], capital_audit = [], capital_sequence = 0,
      capital_last_event_us = -1\<rparr>"

definition capital_id :: "nat \<Rightarrow> string" where
  "capital_id n = ''M035-CAP-'' @ zero_pad 6 n"

section \<open>Time, reconciliation and commit\<close>

definition capital_causal :: "int \<Rightarrow> capital_ledger \<Rightarrow> (unit, capital_ledger) outcome" where
  "capital_causal now L =
     (if now < capital_last_event_us L then Raise (ValueError ''M035_NONCAUSAL_CAPITAL_EVENT'') L
      else Return () L)"

definition reconcile_error :: "capital_ledger \<Rightarrow> py_error option" where
  "reconcile_error L =
     (if free_usdt L < 0 then Some (ValueError ''M035_NEGATIVE_FREE_CAPITAL'')
      else if \<exists>l \<in> set (dust_lots L). has_key (positions L) (lot_capital_id l)
      then Some (ValueError ''M035_DOUBLE_CAPITAL_OWNERSHIP'')
      else if \<exists>p \<in> set (dict_values (positions L)). cap_marked_value p < 0 \<or> cap_cost_basis p < 0
      then Some (ValueError ''M035_NEGATIVE_CAPITAL_BUCKET'')
      else if \<not> unique_ownership (dust_lots L)
      then Some (ValueError ''M035_DUPLICATE_DUST_CAPITAL_ID'')
      else None)"

definition reconcile :: "capital_ledger \<Rightarrow> (unit, capital_ledger) outcome" where
  "reconcile L = (case reconcile_error L of None \<Rightarrow> Return () L | Some e \<Rightarrow> Raise e L)"

text \<open>The common end of a method: \<^verbatim>\<open>_commit\<close>, \<^verbatim>\<open>reconcile\<close>, return.\<close>

definition committing :: "int \<Rightarrow> 'a \<Rightarrow> capital_ledger \<Rightarrow> ('a, capital_ledger) outcome" where
  "committing now r L =
     and_then (reconcile (L\<lparr>capital_last_event_us := now\<rparr>)) (\<lambda>_ L'. Return r L')"

definition with_position ::
    "string \<Rightarrow> capital_ledger \<Rightarrow> (capital_position \<Rightarrow> ('a, capital_ledger) outcome) \<Rightarrow>
     ('a, capital_ledger) outcome" where
  "with_position cid L k =
     (case dict_get (positions L) cid of None \<Rightarrow> Raise KeyError L | Some p \<Rightarrow> k p)"

definition with_state ::
    "py_error + capital_state \<Rightarrow> capital_ledger \<Rightarrow> (capital_state \<Rightarrow> ('a, capital_ledger) outcome) \<Rightarrow>
     ('a, capital_ledger) outcome" where
  "with_state st L k = (case st of Inl e \<Rightarrow> Raise e L | Inr s \<Rightarrow> k s)"

definition set_position :: "string \<Rightarrow> capital_position \<Rightarrow> capital_ledger \<Rightarrow> capital_ledger" where
  "set_position cid p L = L\<lparr>positions := dict_set cid p (positions L)\<rparr>"

definition del_position :: "string \<Rightarrow> capital_ledger \<Rightarrow> capital_ledger" where
  "del_position cid L = L\<lparr>positions := dict_del cid (positions L)\<rparr>"

definition log_event :: "capital_event \<Rightarrow> capital_ledger \<Rightarrow> capital_ledger" where
  "log_event ev L = L\<lparr>capital_audit := capital_audit L @ [ev]\<rparr>"

section \<open>Reservation and cancellation\<close>

definition reserve ::
    "allocation_candidate \<Rightarrow> decimal \<Rightarrow> int \<Rightarrow> capital_ledger \<Rightarrow> (string, capital_ledger) outcome" where
  "reserve c amount now L0 =
     and_then (capital_causal now L0) (\<lambda>_ L.
       if amount \<le> 0 \<or> cand_requested_usdt c < amount
       then Raise (ValueError ''M035_INVALID_GRANT_AMOUNT'') L
       else if free_usdt L < amount
       then Raise (ValueError ''M035_GLOBAL_CAPITAL_INSUFFICIENT'') L
       else
         let seq = Suc (capital_sequence L);
             cid = capital_id seq;
             L1 = L\<lparr>capital_sequence := seq, free_usdt := dsub (free_usdt L) amount\<rparr>
         in with_state (pair_state (cand_pair_id c) False False) L1 (\<lambda>st.
              committing now cid
                (log_event (CAPITAL_RESERVED now cid (cand_pair_id c) amount)
                  (set_position cid
                    (new_position cid (cand_pair_id c) st amount amount ''USDT'' amount now (cand_id c))
                    L1))))"

definition request_cancel :: "string \<Rightarrow> int \<Rightarrow> capital_ledger \<Rightarrow> (unit, capital_ledger) outcome" where
  "request_cancel cid now L0 =
     and_then (capital_causal now L0) (\<lambda>_ L.
       with_position cid L (\<lambda>p.
         if cap_state p \<notin> {RESERVED_PAIR_A, RESERVED_PAIR_B}
         then Raise (ValueError ''M035_CAPITAL_NOT_CANCELABLE'') L
         else committing now ()
           (log_event (CANCEL_REQUEST now cid)
             (set_position cid
               (p\<lparr>cap_state := CANCEL_PENDING, cap_cancel_requested_at_us := Some now\<rparr>) L))))"

definition acknowledge_cancel ::
    "string \<Rightarrow> int \<Rightarrow> capital_ledger \<Rightarrow> (decimal, capital_ledger) outcome" where
  "acknowledge_cancel cid now L0 =
     and_then (capital_causal now L0) (\<lambda>_ L.
       with_position cid L (\<lambda>p.
         if cap_state p \<noteq> CANCEL_PENDING \<or>
            (case cap_cancel_requested_at_us p of None \<Rightarrow> True | Some t \<Rightarrow> now < t) \<or>
            cap_asset p \<noteq> ''USDT''
         then Raise (ValueError ''M035_CANCEL_ACK_INVALID'') L
         else
           let released = cap_marked_value p
           in committing now released
                (log_event (CANCEL_ACK now cid released)
                  (del_position cid (L\<lparr>free_usdt := dadd (free_usdt L) released\<rparr>)))))"

section \<open>Entry fills\<close>

text \<open>
  A fill that leaves reserved capital behind opens a new inventory position; a fill that
  uses the whole reservation turns the position itself into inventory.
\<close>

definition split_entry ::
    "string \<Rightarrow> capital_position \<Rightarrow> string \<Rightarrow> decimal \<Rightarrow> decimal \<Rightarrow> decimal \<Rightarrow> decimal \<Rightarrow> int \<Rightarrow>
     capital_ledger \<Rightarrow> (string, capital_ledger) outcome" where
  "split_entry cid p asset quantity_net inventory_mark consumed cost now L =
     (let seq = Suc (capital_sequence L);
          inv_id = capital_id seq;
          remaining = dsub (cap_cost_basis p) consumed;
          L1 = L\<lparr>capital_sequence := seq\<rparr>
      in with_state (pair_state (cap_pair_id p) True False) L1 (\<lambda>st.
           Return inv_id
             (set_position inv_id
               ((new_position inv_id (cap_pair_id p) st consumed inventory_mark asset quantity_net now
                  (cap_source_candidate_id p))
                \<lparr>cap_source_capital_ids := [cid], cap_attributable_costs := cost\<rparr>)
               (set_position cid
                 (p\<lparr>cap_cost_basis := remaining, cap_marked_value := remaining, cap_quantity := remaining\<rparr>)
                 L1))))"

definition whole_entry ::
    "string \<Rightarrow> capital_position \<Rightarrow> string \<Rightarrow> decimal \<Rightarrow> decimal \<Rightarrow> decimal \<Rightarrow>
     capital_ledger \<Rightarrow> (string, capital_ledger) outcome" where
  "whole_entry cid p asset quantity_net inventory_mark cost L =
     with_state (pair_state (cap_pair_id p) True False) L (\<lambda>st.
       Return cid
         (set_position cid
           (p\<lparr>cap_state := st, cap_asset := asset, cap_quantity := quantity_net,
              cap_marked_value := inventory_mark,
              cap_attributable_costs := dadd (cap_attributable_costs p) cost\<rparr>) L))"

definition record_entry_fill ::
    "string \<Rightarrow> string \<Rightarrow> decimal \<Rightarrow> decimal \<Rightarrow> decimal \<Rightarrow> int \<Rightarrow> decimal option \<Rightarrow>
     capital_ledger \<Rightarrow> (string, capital_ledger) outcome" where
  "record_entry_fill cid asset quantity_net mark cost now input_usdt L0 =
     and_then (capital_causal now L0) (\<lambda>_ L.
       with_position cid L (\<lambda>p.
         if cap_state p \<notin> {RESERVED_PAIR_A, RESERVED_PAIR_B, CANCEL_PENDING}
         then Raise (ValueError ''M035_ENTRY_FILL_INVALID_STATE'') L
         else
           let consumed = (case input_usdt of None \<Rightarrow> cap_cost_basis p | Some u \<Rightarrow> u)
           in if quantity_net \<le> 0 \<or> mark \<le> 0 \<or> cost < 0 \<or> consumed \<le> 0 \<or> cap_cost_basis p < consumed
              then Raise (ValueError ''M035_INVALID_ENTRY_FILL'') L
              else if free_usdt L < cost
              then Raise (ValueError ''M035_ATTRIBUTABLE_COST_CAPITAL_INSUFFICIENT'') L
              else
                let inventory_mark = dmul quantity_net mark;
                    remaining = dsub (cap_cost_basis p) consumed
                in if inventory_mark < 0
                   then Raise (ValueError ''M035_ENTRY_COST_EXCEEDS_MARKED_INVENTORY'') L
                   else and_then
                     (if 0 < remaining
                      then split_entry cid p asset quantity_net inventory_mark consumed cost now L
                      else whole_entry cid p asset quantity_net inventory_mark cost L)
                     (\<lambda>inv_id L1. committing now inv_id
                        (log_event (ENTRY_FILL now cid inv_id asset quantity_net consumed remaining)
                          (L1\<lparr>free_usdt := dsub (free_usdt L1) cost,
                              external_costs_usdt := dadd (external_costs_usdt L1) cost,
                              asset_marks_usdt := dict_set asset mark (asset_marks_usdt L1)\<rparr>)))))"

section \<open>Owned inventory\<close>

definition reserve_owned_return :: "string \<Rightarrow> int \<Rightarrow> capital_ledger \<Rightarrow> (unit, capital_ledger) outcome" where
  "reserve_owned_return cid now L0 =
     and_then (capital_causal now L0) (\<lambda>_ L.
       with_position cid L (\<lambda>p.
         if cap_state p \<notin> {INVENTORY_PAIR_A, INVENTORY_PAIR_B}
         then Raise (ValueError ''M035_RETURN_REQUIRES_OWNED_INVENTORY'') L
         else with_state (pair_state (cap_pair_id p) False True) L (\<lambda>st.
           committing now ()
             (log_event (OWNED_RETURN_RESERVED now cid) (set_position cid (p\<lparr>cap_state := st\<rparr>) L)))))"

definition add_dust ::
    "dust_lot \<Rightarrow> capital_ledger \<Rightarrow> (unit, capital_ledger) outcome" where
  "add_dust lot L =
     (case dust_add lot (dust_lots L) of
        Return _ lots \<Rightarrow> Return () (L\<lparr>dust_lots := lots\<rparr>)
      | Raise e lots \<Rightarrow> Raise e (L\<lparr>dust_lots := lots\<rparr>))"

definition move_untradeable_inventory_to_dust ::
    "string \<Rightarrow> int \<Rightarrow> string \<Rightarrow> capital_ledger \<Rightarrow> (unit, capital_ledger) outcome" where
  "move_untradeable_inventory_to_dust cid now reason L0 =
     and_then (capital_causal now L0) (\<lambda>_ L.
       with_position cid L (\<lambda>p.
         if cap_state p \<notin> {INVENTORY_PAIR_A, INVENTORY_PAIR_B} \<or> cap_asset p = ''USDT'' \<or>
            cap_quantity p \<le> 0 \<or> cap_returned_quantity p \<noteq> 0 \<or> cap_pending_cycle_id p \<noteq> None \<or>
            reason = []
         then Raise (ValueError ''M035_INVENTORY_NOT_DUST_ELIGIBLE'') L
         else and_then
           (add_dust \<lparr>lot_capital_id = cid, lot_pair_id = cap_pair_id p, lot_asset = cap_asset p,
               lot_quantity = cap_quantity p,
               lot_cost_basis_usdt = dadd (cap_cost_basis p) (cap_attributable_costs p),
               lot_source_cycles = cap_source_cycles p, lot_created_at_us = now\<rparr> L)
           (\<lambda>_ L1. committing now ()
              (log_event (UNTRADEABLE_INVENTORY_MOVED_TO_DUST now cid (cap_pair_id p) (cap_asset p)
                  (cap_quantity p) reason)
                (del_position cid L1)))))"

text \<open>The position that replaces the consolidated ones.\<close>

definition consolidated ::
    "string \<Rightarrow> string \<Rightarrow> string \<Rightarrow> capital_state \<Rightarrow> capital_position list \<Rightarrow> capital_position" where
  "consolidated cid pair_id asset st rows =
     (new_position cid pair_id st (dsum (map cap_cost_basis rows)) (dsum (map cap_marked_value rows))
        asset (dsum (map cap_quantity rows)) (Min (set (map cap_created_at_us rows)))
        (cap_source_candidate_id (hd rows)))
     \<lparr>cap_source_capital_ids :=
        fromkeys (concat (map (\<lambda>r. cap_source_capital_ids r @ [cap_id r]) rows)),
      cap_source_cycles := fromkeys (concat (map cap_source_cycles rows)),
      cap_attributable_costs := dsum (map cap_attributable_costs rows)\<rparr>"

definition consolidate_inventory ::
    "string list \<Rightarrow> string \<Rightarrow> string \<Rightarrow> int \<Rightarrow> capital_ledger \<Rightarrow> (string, capital_ledger) outcome" where
  "consolidate_inventory capital_ids pair_id asset now L0 =
     and_then (capital_causal now L0) (\<lambda>_ L.
       let ids = fromkeys capital_ids
       in if ids = [] then Raise (ValueError ''M035_INVENTORY_CONSOLIDATION_EMPTY'') L
          else case those (map (dict_get (positions L)) ids) of
            None \<Rightarrow> Raise KeyError L
          | Some rows \<Rightarrow>
              with_state (pair_state pair_id True False) L (\<lambda>st.
                if \<exists>r \<in> set rows. cap_pair_id r \<noteq> pair_id \<or> cap_asset r \<noteq> asset \<or> cap_state r \<noteq> st
                then Raise (ValueError ''M035_INVENTORY_CONSOLIDATION_MISMATCH'') L
                else
                  let seq = Suc (capital_sequence L);
                      cid = capital_id seq;
                      L1 = foldl (\<lambda>K i. del_position i K) (L\<lparr>capital_sequence := seq\<rparr>) ids
                  in committing now cid
                       (log_event (INVENTORY_CONSOLIDATED now cid ids pair_id asset
                            (dsum (map cap_quantity rows)))
                         (set_position cid (consolidated cid pair_id asset st rows) L1))))"

definition register_risk_exit_authorization ::
    "risk_exit_authorization \<Rightarrow> int \<Rightarrow> capital_ledger \<Rightarrow> (unit, capital_ledger) outcome" where
  "register_risk_exit_authorization a now L0 =
     and_then (capital_causal now L0) (\<lambda>_ L.
       with_position (auth_capital_id a) L (\<lambda>p.
         if now \<noteq> auth_decided_at_us a \<or>
            has_key (risk_exit_authorizations L) (auth_id a) \<or>
            auth_id a \<in> set (consumed_authorizations L) \<or>
            cap_pair_id p \<noteq> auth_pair_id a \<or>
            cap_state p \<notin> {INVENTORY_PAIR_A, INVENTORY_PAIR_B, RETURN_PAIR_A, RETURN_PAIR_B}
         then Raise (ValueError ''M035_RISK_EXIT_AUTHORIZATION_REJECTED'') L
         else Return ()
           (log_event (RISK_EXIT_AUTHORIZED now (auth_id a) (auth_capital_id a) (auth_rule_hash a))
             (L\<lparr>risk_exit_authorizations := dict_set (auth_id a) a (risk_exit_authorizations L)\<rparr>)
              \<lparr>capital_last_event_us := now\<rparr>)))"

section \<open>Settlement\<close>

text \<open>The local variables of \<^verbatim>\<open>settle_return\<close>.\<close>

record settlement =
  st_sold_cost_basis :: decimal
  st_residual_quantity :: decimal
  st_residual_cost_basis :: decimal
  st_sold_attributable :: decimal
  st_residual_attributable :: decimal
  st_proceeds :: decimal
  st_sold_quantity :: decimal
  st_cost_basis :: decimal
  st_attributable :: decimal
  st_realized :: decimal
  st_fill_realized :: decimal

definition settlement_of :: "capital_position \<Rightarrow> decimal \<Rightarrow> decimal \<Rightarrow> settlement" where
  "settlement_of p sold proceeds =
     (let q = cap_quantity p;
          sold_cost = ddiv (dmul (cap_cost_basis p) sold) q;
          sold_attr = ddiv (dmul (cap_attributable_costs p) sold) q;
          cum_proceeds = dadd (cap_returned_proceeds p) proceeds;
          cum_cost = dadd (cap_returned_cost_basis p) sold_cost;
          cum_attr = dadd (cap_returned_attributable_costs p) sold_attr
      in \<lparr>st_sold_cost_basis = sold_cost, st_residual_quantity = dsub q sold,
          st_residual_cost_basis = dsub (cap_cost_basis p) sold_cost,
          st_sold_attributable = sold_attr,
          st_residual_attributable = dsub (cap_attributable_costs p) sold_attr,
          st_proceeds = cum_proceeds, st_sold_quantity = dadd (cap_returned_quantity p) sold,
          st_cost_basis = cum_cost, st_attributable = cum_attr,
          st_realized = dsub (dsub cum_proceeds cum_cost) cum_attr,
          st_fill_realized = dsub (dsub proceeds sold_cost) sold_attr\<rparr>)"

text \<open>
  A loss needs an applicable authorization: its own capital and pair, in its time window,
  unused, covering the loss, and for exactly the quantity a complete return has sold.
\<close>

definition loss_authorization ::
    "string \<Rightarrow> capital_position \<Rightarrow> settlement \<Rightarrow> int \<Rightarrow> string option \<Rightarrow> bool \<Rightarrow> capital_ledger \<Rightarrow>
     py_error + risk_exit_authorization option" where
  "loss_authorization cid p s now authorization_id order_done L =
     (if 0 \<le> st_realized s then Inr None
      else case authorization_id of
        None \<Rightarrow> Inl (ValueError ''M035_NEGATIVE_ORDINARY_CYCLE_PROHIBITED'')
      | Some aid \<Rightarrow>
          (case dict_get (risk_exit_authorizations L) aid of
             None \<Rightarrow> Inl (ValueError ''M035_RISK_EXIT_AUTHORIZATION_NOT_APPLICABLE'')
           | Some a \<Rightarrow>
               if auth_capital_id a \<noteq> cid \<or> auth_pair_id a \<noteq> cap_pair_id p \<or>
                  \<not> (auth_decided_at_us a \<le> now \<and> now \<le> auth_expires_at_us a) \<or>
                  aid \<in> set (consumed_authorizations L) \<or>
                  auth_loss_if_exit_now_usdt a < dneg (st_realized s) \<or>
                  (order_done \<and> st_sold_quantity s \<noteq> auth_quantity a)
               then Inl (ValueError ''M035_RISK_EXIT_AUTHORIZATION_NOT_APPLICABLE'')
               else Inr (Some a)))"

definition settle_partial ::
    "string \<Rightarrow> capital_position \<Rightarrow> settlement \<Rightarrow> string \<Rightarrow> decimal \<Rightarrow> decimal \<Rightarrow> int \<Rightarrow>
     capital_ledger \<Rightarrow> (decimal, capital_ledger) outcome" where
  "settle_partial cid p s cyc sold proceeds now L =
     (let p1 = p\<lparr>cap_quantity := st_residual_quantity s, cap_cost_basis := st_residual_cost_basis s,
                 cap_attributable_costs := st_residual_attributable s\<rparr>
      in case dict_get (asset_marks_usdt L) (cap_asset p) of
           None \<Rightarrow> Raise KeyError (set_position cid p1 L)
         | Some mark \<Rightarrow>
             committing now (dsub (dsub proceeds (st_sold_cost_basis s)) (st_sold_attributable s))
               (log_event (RETURN_PARTIAL_FILL_SETTLED now cid cyc sold proceeds (st_residual_quantity s))
                 (set_position cid
                   (p1\<lparr>cap_marked_value := dmul (st_residual_quantity s) mark,
                       cap_returned_proceeds := st_proceeds s, cap_returned_quantity := st_sold_quantity s,
                       cap_returned_cost_basis := st_cost_basis s,
                       cap_returned_attributable_costs := st_attributable s,
                       cap_pending_cycle_id := Some cyc\<rparr>) L)))"

definition closed_cycle ::
    "string \<Rightarrow> capital_position \<Rightarrow> settlement \<Rightarrow> risk_exit_authorization option \<Rightarrow> cycle_record" where
  "closed_cycle cyc p s auth =
     \<lparr>cycle_id = cyc, cycle_pair_id = cap_pair_id p, cycle_proceeds_usdt = st_proceeds s,
      cycle_original_cost_basis_usdt = st_cost_basis s, cycle_fees_usdt = 0,
      cycle_execution_cost_usdt = 0, cycle_adverse_selection_usdt = 0,
      cycle_attributable_costs_usdt = st_attributable s, cycle_risk_exit = (auth \<noteq> None)\<rparr>"

definition consume_authorization ::
    "risk_exit_authorization option \<Rightarrow> capital_ledger \<Rightarrow> capital_ledger" where
  "consume_authorization auth L =
     (case auth of None \<Rightarrow> L
      | Some a \<Rightarrow> L\<lparr>consumed_authorizations := List.insert (auth_id a) (consumed_authorizations L)\<rparr>)"

definition residual_dust ::
    "string \<Rightarrow> capital_position \<Rightarrow> settlement \<Rightarrow> string \<Rightarrow> int \<Rightarrow> capital_ledger \<Rightarrow>
     (unit, capital_ledger) outcome" where
  "residual_dust cid p s cyc now L =
     (if 0 < st_residual_quantity s
      then add_dust \<lparr>lot_capital_id = cid, lot_pair_id = cap_pair_id p, lot_asset = cap_asset p,
             lot_quantity = st_residual_quantity s,
             lot_cost_basis_usdt = dadd (st_residual_cost_basis s) (st_residual_attributable s),
             lot_source_cycles = fromkeys (cap_source_cycles p @ [cyc]), lot_created_at_us = now\<rparr> L
      else Return () L)"

definition settle_complete ::
    "string \<Rightarrow> capital_position \<Rightarrow> settlement \<Rightarrow> string \<Rightarrow> decimal \<Rightarrow> int \<Rightarrow> string option \<Rightarrow>
     risk_exit_authorization option \<Rightarrow> capital_ledger \<Rightarrow> (decimal, capital_ledger) outcome" where
  "settle_complete cid p s cyc residual_mark now authorization_id auth L =
     (case record_cycle (closed_cycle cyc p s auth) (cycles L) of
        Raise e cs \<Rightarrow> Raise e (L\<lparr>cycles := cs\<rparr>)
      | Return _ cs \<Rightarrow>
          and_then
            (residual_dust cid p s cyc now
              (del_position cid (consume_authorization auth (L\<lparr>cycles := cs\<rparr>))))
            (\<lambda>_ L1. committing now (st_realized s)
               (log_event (RETURN_SETTLED now cid cyc (st_realized s) (st_residual_quantity s)
                   residual_mark authorization_id) L1)))"

definition settle_return ::
    "string \<Rightarrow> string \<Rightarrow> decimal \<Rightarrow> decimal \<Rightarrow> decimal \<Rightarrow> int \<Rightarrow> string option \<Rightarrow> bool \<Rightarrow>
     capital_ledger \<Rightarrow> (decimal, capital_ledger) outcome" where
  "settle_return cid cyc sold proceeds residual_mark now authorization_id order_done L0 =
     and_then (capital_causal now L0) (\<lambda>_ L.
       with_position cid L (\<lambda>p.
         if cap_state p \<notin> {RETURN_PAIR_A, RETURN_PAIR_B}
         then Raise (ValueError ''M035_SETTLEMENT_REQUIRES_RETURN_RESERVATION'') L
         else if sold \<le> 0 \<or> cap_quantity p < sold \<or> proceeds < 0 \<or> residual_mark < 0
         then Raise (ValueError ''M035_INVALID_RETURN_SETTLEMENT'') L
         else
           let s = settlement_of p sold proceeds
           in if cap_pending_cycle_id p \<notin> {None, Some cyc}
              then Raise (ValueError ''M035_RETURN_CYCLE_ID_CHANGED_MID_ORDER'') L
              else if has_key (cycles L) cyc
              then Raise (ValueError ''M035_INVALID_OR_DUPLICATE_CYCLE'') L
              else case loss_authorization cid p s now authorization_id order_done L of
                Inl e \<Rightarrow> Raise e L
              | Inr auth \<Rightarrow>
                  if order_done \<and> 0 < st_residual_quantity s \<and> residual_mark \<le> 0
                  then Raise (ValueError ''M035_RESIDUAL_MARK_REQUIRED'') L
                  else
                    let L1 = L\<lparr>free_usdt := dadd (free_usdt L) proceeds,
                               realized_pnl_usdt := dadd (realized_pnl_usdt L) (st_fill_realized s)\<rparr>
                    in if order_done
                       then settle_complete cid p s cyc residual_mark now authorization_id auth L1
                       else settle_partial cid p s cyc sold proceeds now L1))"

section \<open>Aggregated dust and marks\<close>

definition reserve_aggregated_dust ::
    "string \<Rightarrow> string \<Rightarrow> decimal \<Rightarrow> decimal \<Rightarrow> int \<Rightarrow> capital_ledger \<Rightarrow> (string, capital_ledger) outcome" where
  "reserve_aggregated_dust pair_id asset quantity mark now L0 =
     and_then (capital_causal now L0) (\<lambda>_ L.
       if mark \<le> 0 then Raise (ValueError ''M035_INVALID_DUST_MARK'') L
       else case dust_consume asset quantity pair_id now (dust_lots L) of
         Raise e lots \<Rightarrow> Raise e (L\<lparr>dust_lots := lots\<rparr>)
       | Return c lots \<Rightarrow>
           let seq = Suc (capital_sequence L);
               cid = capital_id seq;
               L1 = L\<lparr>dust_lots := lots, capital_sequence := seq\<rparr>
           in with_state (pair_state pair_id False True) L1 (\<lambda>st.
                committing now cid
                  (log_event (DUST_AGGREGATED_FOR_RETURN now cid asset quantity)
                    (set_position cid
                      ((new_position cid pair_id st (consumed_cost_basis_usdt c) (dmul quantity mark)
                         asset quantity now ''DUST_AGGREGATION'')
                       \<lparr>cap_source_capital_ids := consumed_source_capital_ids c,
                        cap_source_cycles := consumed_source_cycles c\<rparr>) L1))))"

definition update_mark :: "string \<Rightarrow> decimal \<Rightarrow> int \<Rightarrow> capital_ledger \<Rightarrow> (unit, capital_ledger) outcome" where
  "update_mark cid mark now L0 =
     and_then (capital_causal now L0) (\<lambda>_ L.
       if mark \<le> 0 then Raise (ValueError ''M035_INVALID_CAUSAL_MARK'') L
       else with_position cid L (\<lambda>p.
         if cap_asset p \<noteq> ''USDT''
         then
           let p1 = p\<lparr>cap_marked_value := dmul (cap_quantity p) mark\<rparr>
           in if cap_marked_value p1 < 0
              then Raise (ValueError ''M035_MARK_BELOW_ATTRIBUTABLE_COST'') (set_position cid p1 L)
              else committing now () (set_position cid p1 L)
         else committing now () L))"

definition remark :: "string \<Rightarrow> decimal \<Rightarrow> capital_position \<Rightarrow> capital_position" where
  "remark asset mark p =
     (if cap_asset p = asset then p\<lparr>cap_marked_value := dmul (cap_quantity p) mark\<rparr> else p)"

definition update_asset_mark :: "string \<Rightarrow> decimal \<Rightarrow> int \<Rightarrow> capital_ledger \<Rightarrow> (unit, capital_ledger) outcome" where
  "update_asset_mark asset mark now L0 =
     and_then (capital_causal now L0) (\<lambda>_ L.
       if asset = [] \<or> mark \<le> 0 then Raise (ValueError ''M035_INVALID_CAUSAL_MARK'') L
       else committing now ()
         (log_event (CAUSAL_ASSET_MARK now asset mark)
           (L\<lparr>positions := map_values (remark asset mark) (positions L),
              asset_marks_usdt := dict_set asset mark (asset_marks_usdt L)\<rparr>)))"

section \<open>Reading the ledger\<close>

definition committed_usdt :: "capital_ledger \<Rightarrow> decimal" where
  "committed_usdt L = dsum (map cap_marked_value (dict_values (positions L)))"

text \<open>\<^verbatim>\<open>dict.update\<close>: the caller's marks override the ledger's.\<close>

definition merged_marks ::
    "(string, decimal) dict \<Rightarrow> (string, decimal) dict option \<Rightarrow> (string, decimal) dict" where
  "merged_marks own other =
     (case other of None \<Rightarrow> own | Some ms \<Rightarrow> foldl (\<lambda>d (k, v). dict_set k v d) own ms)"

definition marked_equity :: "(string, decimal) dict option \<Rightarrow> capital_ledger \<Rightarrow> py_error + decimal" where
  "marked_equity marks L =
     (case dust_marked_value (merged_marks (asset_marks_usdt L) marks) (dust_lots L) of
        Inl e \<Rightarrow> Inl e
      | Inr dust \<Rightarrow> Inr (dadd (dadd (free_usdt L) (committed_usdt L)) dust))"

definition zero_loss_economic_pass ::
    "(string, decimal) dict option \<Rightarrow> capital_ledger \<Rightarrow> py_error + bool" where
  "zero_loss_economic_pass marks L =
     (if \<not> cycles_economic_pass (cycles L) then Inr False
      else case marked_equity marks L of
        Inl e \<Rightarrow> Inl e | Inr equity \<Rightarrow> Inr (initial_bank_usdt L \<le> equity))"

definition owner_of :: "string \<Rightarrow> capital_ledger \<Rightarrow> string option" where
  "owner_of cid L =
     (case dict_get (positions L) cid of
        Some p \<Rightarrow> Some (cap_pair_id p)
      | None \<Rightarrow> map_option lot_pair_id (find (\<lambda>l. lot_capital_id l = cid) (dust_lots L)))"

end
