(* ===== verification/M035_Dust_Facts.thy ===== *)
theory M035_Dust_Facts
  imports M035_Dust
begin

text \<open>
  Dust lots: the invariant of the sub-ledger, first-in-first-out consumption, conservation of
  the quantity on the decimal grid, and the relation between a preview and the consumption it
  announces.
\<close>

section \<open>The walk over the lots\<close>

definition lot_step :: "dust_lot \<Rightarrow> dust_lot \<Rightarrow> bool" where
  "lot_step l l' \<longleftrightarrow>
     lot_capital_id l' = lot_capital_id l \<and> lot_pair_id l' = lot_pair_id l \<and>
     lot_asset l' = lot_asset l \<and> lot_source_cycles l' = lot_source_cycles l \<and>
     lot_created_at_us l' = lot_created_at_us l \<and>
     (0 < lot_quantity l \<longrightarrow> 0 \<le> lot_quantity l') \<and>
     (0 < lot_quantity l \<and> 0 \<le> lot_cost_basis_usdt l \<and> exact28 (lot_cost_basis_usdt l) \<longrightarrow>
        0 \<le> lot_cost_basis_usdt l' \<and> exact28 (lot_cost_basis_usdt l'))"

lemma lot_step_refl [simp]: "lot_step l l"
  by (simp add: lot_step_def)

lemma lot_steps_refl [simp]: "list_all2 lot_step ls ls"
  by (rule list_all2_refl) simp

definition matches :: "string \<Rightarrow> string \<Rightarrow> dust_lot \<Rightarrow> bool" where
  "matches asset pair_id l \<longleftrightarrow> lot_asset l = asset \<and> lot_pair_id l = pair_id"

lemma lot_of_matches: "lot_of asset (Some pair_id) = matches asset pair_id"
  by (simp add: fun_eq_iff lot_of_def matches_def)

definition taken_from :: "(dust_lot \<Rightarrow> decimal \<Rightarrow> decimal) \<Rightarrow> bool \<Rightarrow> dust_lot \<Rightarrow> decimal \<Rightarrow> dust_lot" where
  "taken_from share write l taken =
     (if write then l\<lparr>lot_quantity := dsub (lot_quantity l) taken,
                      lot_cost_basis_usdt := dsub (lot_cost_basis_usdt l) (share l taken)\<rparr> else l)"

lemma walk_lots_step:
  obtains (halt) e where
      "walk_lots share write asset pair_id now (l # ls) rem cost =
         \<lparr>lp_lots = l # ls, lp_remaining = rem, lp_cost_basis = cost, lp_cycles = [],
          lp_capital_ids = [], lp_error = e\<rparr>"
      "rem = 0 \<and> e = None \<or> rem \<noteq> 0 \<and> matches asset pair_id l \<and>
         (now < lot_created_at_us l \<and> e = Some (ValueError ''M035_NONCAUSAL_DUST_CONSUMPTION'') \<or>
          lot_quantity l = 0 \<and> e = Some InvalidOperation)"
    | (skip) p where "rem \<noteq> 0" "\<not> matches asset pair_id l"
      "p = walk_lots share write asset pair_id now ls rem cost"
      "walk_lots share write asset pair_id now (l # ls) rem cost = p\<lparr>lp_lots := l # lp_lots p\<rparr>"
    | (take) p taken where "rem \<noteq> 0" "matches asset pair_id l" "lot_created_at_us l \<le> now"
      "lot_quantity l \<noteq> 0" "taken = min (lot_quantity l) rem"
      "p = walk_lots share write asset pair_id now ls (dsub rem taken) (dadd cost (share l taken))"
      "walk_lots share write asset pair_id now (l # ls) rem cost =
         p\<lparr>lp_lots := taken_from share write l taken # lp_lots p,
           lp_cycles := lot_source_cycles l @ lp_cycles p,
           lp_capital_ids := lot_capital_id l # lp_capital_ids p\<rparr>"
proof -
  consider "rem = 0" | "rem \<noteq> 0" "\<not> matches asset pair_id l"
    | "rem \<noteq> 0" "matches asset pair_id l" "now < lot_created_at_us l"
    | "rem \<noteq> 0" "matches asset pair_id l" "\<not> now < lot_created_at_us l" "lot_quantity l = 0"
    | "rem \<noteq> 0" "matches asset pair_id l" "\<not> now < lot_created_at_us l" "lot_quantity l \<noteq> 0" by blast
  then show thesis
  proof cases
    case 5
    then show thesis by (intro take [OF _ _ _ _ refl refl]) (auto simp: matches_def taken_from_def Let_def)
  qed (auto simp: matches_def Let_def intro: halt skip)
qed

lemma walk_lots_halt [simp]:
  "walk_lots share write asset pair_id now ls 0 cost =
     \<lparr>lp_lots = ls, lp_remaining = 0, lp_cost_basis = cost, lp_cycles = [],
      lp_capital_ids = [], lp_error = None\<rparr>"
  by (cases ls) (auto simp: Let_def)

declare walk_lots.simps(2) [simp del]

lemma consume_share_bounds:
  assumes "0 < lot_quantity l" "0 \<le> taken" "taken \<le> lot_quantity l"
    "0 \<le> lot_cost_basis_usdt l" "exact28 (lot_cost_basis_usdt l)"
  shows "0 \<le> consume_share l taken" and "consume_share l taken \<le> lot_cost_basis_usdt l"
proof -
  have one: "dround 28 1 = 1" using dround_grid_le [of 1 1 0 28] by (simp add: pow10_def)
  have "ddiv taken (lot_quantity l) \<le> 1"
    unfolding ddiv_def using assms by (intro prec28.rnd_le_exact one) simp
  then have "lot_cost_basis_usdt l * ddiv taken (lot_quantity l) \<le> lot_cost_basis_usdt l"
    using assms(4) by (simp add: mult_left_le)
  then show "consume_share l taken \<le> lot_cost_basis_usdt l"
    unfolding consume_share_def dmul_def using assms(5) by (intro prec28.rnd_le_exact) (simp_all add: exact28_def)
  show "0 \<le> consume_share l taken"
    using assms by (simp add: consume_share_def dmul_nonneg ddiv_nonneg)
qed

lemma taken_from_step:
  assumes "0 \<le> rem" and "taken = min (lot_quantity l) rem"
  shows "lot_step l (taken_from consume_share True l taken)"
  using assms consume_share_bounds [of l taken] by (auto simp: lot_step_def taken_from_def)

lemma walk_lots_steps:
  "0 \<le> rem \<Longrightarrow> list_all2 lot_step ls (lp_lots (walk_lots consume_share True asset pair_id now ls rem cost)) \<and>
     0 \<le> lp_remaining (walk_lots consume_share True asset pair_id now ls rem cost)"
proof (induction ls arbitrary: rem cost)
  case (Cons l ls)
  show ?case
  proof (cases rule: walk_lots_step [of consume_share True asset pair_id now l ls rem cost])
    case (take p taken)
    have "0 \<le> dsub rem taken" using take(5) by simp
    from Cons.IH [OF this, of "dadd cost (consume_share l taken)"] taken_from_step [OF Cons.prems take(5)]
    show ?thesis unfolding take(7) by (simp add: take(6))
  next
    case (skip p)
    from Cons.IH [OF Cons.prems, of cost] show ?thesis unfolding skip(4) by (simp add: skip(3))
  next
    case (halt e)
    then show ?thesis using Cons.prems by simp
  qed
qed simp

text \<open>What does not depend on the cost a lot gives up.\<close>

lemma walk_lots_preview:
  "lp_remaining (walk_lots sh w asset pair_id now ls rem cost) =
     lp_remaining (walk_lots sh' w' asset pair_id now ls rem cost') \<and>
   lp_cycles (walk_lots sh w asset pair_id now ls rem cost) =
     lp_cycles (walk_lots sh' w' asset pair_id now ls rem cost') \<and>
   lp_capital_ids (walk_lots sh w asset pair_id now ls rem cost) =
     lp_capital_ids (walk_lots sh' w' asset pair_id now ls rem cost') \<and>
   lp_error (walk_lots sh w asset pair_id now ls rem cost) =
     lp_error (walk_lots sh' w' asset pair_id now ls rem cost')"
proof (induction ls arbitrary: rem cost cost')
  case (Cons l ls)
  show ?case
    using Cons.IH [of rem cost cost'] Cons.IH [of "dsub rem (min (lot_quantity l) rem)"
        "dadd cost (sh l (min (lot_quantity l) rem))" "dadd cost' (sh' l (min (lot_quantity l) rem))"]
    by (simp add: walk_lots.simps(2) Let_def)
qed simp

lemma walk_lots_fifo:
  assumes "i < j" "j < length ls" "matches asset pair_id (ls ! i)"
    and "lp_lots (walk_lots share True asset pair_id now ls rem cost) ! j \<noteq> ls ! j"
  shows "lot_quantity (lp_lots (walk_lots share True asset pair_id now ls rem cost) ! i) = 0"
  using assms
proof (induction ls arbitrary: i j rem cost)
  case (Cons l ls)
  obtain j' where j: "j = Suc j'" using Cons.prems(1) by (cases j) auto
  show ?case
  proof (cases rule: walk_lots_step [of share True asset pair_id now l ls rem cost])
    case (halt e)
    then show ?thesis using Cons.prems(4) by simp
  next
    case (skip p)
    then obtain i' where i: "i = Suc i'" using Cons.prems(3) by (cases i) auto
    show ?thesis using Cons.IH [of i' j' rem cost] Cons.prems i j skip by simp
  next
    case (take p taken)
    have tail: "lp_lots p ! j' \<noteq> ls ! j'" using Cons.prems(4) take(7) j by simp
    show ?thesis
    proof (cases i)
      case 0
      have "dsub rem taken \<noteq> 0" using tail take(6) by (cases "dsub rem taken = 0") auto
      then have "taken = lot_quantity l" using take(5) by (auto simp: min_def split: if_splits)
      then show ?thesis using take(7) 0 by (simp add: taken_from_def)
    next
      case (Suc i')
      then show ?thesis
        using Cons.IH [of i' j' "dsub rem taken" "dadd cost (share l taken)"] Cons.prems tail take j by simp
    qed
  qed
qed simp

section \<open>Writing the lots back\<close>

lemma find_stepped:
  "list_all2 lot_step xs ys \<Longrightarrow> distinct (map lot_capital_id xs) \<Longrightarrow> l \<in> set xs \<Longrightarrow>
     \<exists>u. find (\<lambda>u. lot_capital_id u = lot_capital_id l) ys = Some u \<and> lot_step l u"
proof (induction rule: list_all2_induct)
  case (Cons x xs y ys)
  have id: "lot_capital_id y = lot_capital_id x" using Cons.hyps(1) by (simp add: lot_step_def)
  show ?case
  proof (cases "l = x")
    case False
    then have "l \<in> set xs" using Cons.prems by simp
    moreover from this have "lot_capital_id x \<noteq> lot_capital_id l" using Cons.prems(1) by force
    ultimately show ?thesis using Cons id by simp
  qed (use Cons.hyps id in simp)
qed simp

lemma rewrite_lots_steps:
  assumes "list_all2 lot_step (sort_key dust_fifo_key lots) ys" and "distinct (map lot_capital_id lots)"
  shows "list_all2 lot_step lots (rewrite_lots lots ys)"
proof -
  have "lot_step l (case find (\<lambda>u. lot_capital_id u = lot_capital_id l) ys of None \<Rightarrow> l | Some u \<Rightarrow> u)"
    if "l \<in> set lots" for l
    using find_stepped [OF assms(1), of l] assms(2) that by (auto simp: distinct_map_sort)
  then show ?thesis by (simp add: rewrite_lots_def list_all2_conv_all_nth)
qed

definition dust_inv :: "int \<Rightarrow> dust_lot list \<Rightarrow> bool" where
  "dust_inv now lots \<longleftrightarrow>
     distinct (map lot_capital_id lots) \<and>
     (\<forall>l \<in> set lots. lot_capital_id l \<noteq> [] \<and> known_pair (lot_pair_id l) \<and> lot_asset l \<noteq> [] \<and>
        0 < lot_quantity l \<and> 0 \<le> lot_cost_basis_usdt l \<and> exact28 (lot_cost_basis_usdt l) \<and>
        lot_created_at_us l \<le> now)"

lemma dust_inv_Nil [simp]: "dust_inv now []"
  by (simp add: dust_inv_def)

lemma dust_inv_later: "dust_inv now lots \<Longrightarrow> now \<le> now' \<Longrightarrow> dust_inv now' lots"
  by (auto simp: dust_inv_def)

lemma dust_add_Return:
  "dust_add lot lots = Return r lots' \<longleftrightarrow>
     lots' = lots @ [lot] \<and> lot_capital_id lot \<noteq> [] \<and> known_pair (lot_pair_id lot) \<and>
     lot_asset lot \<noteq> [] \<and> 0 < lot_quantity lot \<and> 0 \<le> lot_cost_basis_usdt lot \<and>
     lot_capital_id lot \<notin> lot_capital_id ` set lots"
proof -
  have "(\<exists>row \<in> set lots. lot_capital_id row = lot_capital_id lot) \<longleftrightarrow>
      lot_capital_id lot \<in> lot_capital_id ` set lots" by (metis image_iff)
  then show ?thesis by (auto simp: dust_add_def)
qed

lemma dust_add_Raise: "dust_add lot lots = Raise e lots' \<Longrightarrow> lots' = lots"
  by (auto simp: dust_add_def split: if_splits)

lemma dust_add_inv:
  "dust_inv now lots \<Longrightarrow> dust_add lot lots = Return r lots' \<Longrightarrow> lot_created_at_us lot \<le> now \<Longrightarrow>
     exact28 (lot_cost_basis_usdt lot) \<Longrightarrow> dust_inv now lots'"
  by (auto simp: dust_add_Return dust_inv_def)

lemma lot_steps_ids: "list_all2 lot_step xs ys \<Longrightarrow> map lot_capital_id ys = map lot_capital_id xs"
  by (induction rule: list_all2_induct) (auto simp: lot_step_def)

lemma lot_steps_from: "list_all2 lot_step xs ys \<Longrightarrow> y \<in> set ys \<Longrightarrow> \<exists>x \<in> set xs. lot_step x y"
  by (induction rule: list_all2_induct) auto

lemma dust_inv_steps:
  assumes "dust_inv now lots" and "list_all2 lot_step lots ys"
  shows "dust_inv now (filter (\<lambda>row. 0 < lot_quantity row) ys)"
proof -
  have "distinct (map lot_capital_id ys)"
    using assms(1) lot_steps_ids [OF assms(2)] by (simp add: dust_inv_def)
  then have "distinct (map lot_capital_id (filter (\<lambda>row. 0 < lot_quantity row) ys))"
    by (rule distinct_map_filter)
  moreover have "lot_capital_id y \<noteq> [] \<and> known_pair (lot_pair_id y) \<and> lot_asset y \<noteq> [] \<and>
      0 \<le> lot_cost_basis_usdt y \<and> exact28 (lot_cost_basis_usdt y) \<and> lot_created_at_us y \<le> now"
    if "y \<in> set ys" for y
    using lot_steps_from [OF assms(2) that] assms(1) by (auto simp: dust_inv_def lot_step_def)
  ultimately show ?thesis by (simp add: dust_inv_def)
qed

section \<open>Consuming\<close>

lemma dust_consume_Return:
  assumes "dust_consume asset quantity pair_id now lots = Return c lots'"
  defines "p \<equiv> walk_lots consume_share True asset pair_id now (sort_key dust_fifo_key lots) quantity 0"
  shows "0 < quantity" "quantity \<le> dust_quantity asset (Some pair_id) lots"
    "lp_error p = None" "lp_remaining p = 0" "c = consumption_of asset quantity p"
    "lots' = filter (\<lambda>row. 0 < lot_quantity row) (rewrite_lots lots (lp_lots p))"
  using assms by (auto simp: dust_consume_def Let_def split: if_splits option.splits)

lemma dust_consume_inv:
  assumes inv: "dust_inv now lots" and res: "dust_consume asset quantity pair_id t lots = Return c lots'"
  shows "dust_inv now lots'" and "lot_capital_id ` set lots' \<subseteq> lot_capital_id ` set lots"
    and "known_pair pair_id" and "asset \<noteq> []" and "0 \<le> consumed_cost_basis_usdt c"
    and "exact28 (consumed_cost_basis_usdt c)"
    and "l' \<in> set lots' \<Longrightarrow> \<exists>l \<in> set lots. lot_capital_id l' = lot_capital_id l \<and> lot_asset l' = lot_asset l"
    and "\<exists>l \<in> set lots. lot_asset l = asset"
proof -
  note r = dust_consume_Return [OF res]
  let ?p = "walk_lots consume_share True asset pair_id t (sort_key dust_fifo_key lots) quantity 0"
  have "list_all2 lot_step (sort_key dust_fifo_key lots) (lp_lots ?p)"
    using walk_lots_steps [of quantity] r(1) by simp
  then have steps: "list_all2 lot_step lots (rewrite_lots lots (lp_lots ?p))"
    using inv by (intro rewrite_lots_steps) (simp_all add: dust_inv_def)
  show "dust_inv now lots'" unfolding r(6) by (rule dust_inv_steps [OF inv steps])
  have "lot_capital_id ` set (rewrite_lots lots (lp_lots ?p)) = lot_capital_id ` set lots"
    using lot_steps_ids [OF steps] by (metis list.set_map)
  then show "lot_capital_id ` set lots' \<subseteq> lot_capital_id ` set lots" unfolding r(6) by auto
  have "filter (lot_of asset (Some pair_id)) lots \<noteq> []"
    using r(1,2) by (auto simp: dust_quantity_def)
  then obtain l where "l \<in> set lots" "lot_of asset (Some pair_id) l"
    by (auto simp: filter_empty_conv)
  then show "known_pair pair_id" "asset \<noteq> []" "\<exists>l \<in> set lots. lot_asset l = asset"
    using inv by (auto simp: dust_inv_def lot_of_def)
  show "\<exists>l \<in> set lots. lot_capital_id l' = lot_capital_id l \<and> lot_asset l' = lot_asset l" if "l' \<in> set lots'"
    using lot_steps_from [OF steps, of l'] that unfolding r(6) lot_step_def by auto
  have cost: "0 \<le> lp_cost_basis (walk_lots consume_share True asset pair_id t ls rem c0) \<and>
      exact28 (lp_cost_basis (walk_lots consume_share True asset pair_id t ls rem c0))"
    if "0 \<le> rem" "0 \<le> c0" "exact28 c0"
      "\<forall>l \<in> set ls. 0 < lot_quantity l \<and> 0 \<le> lot_cost_basis_usdt l \<and> exact28 (lot_cost_basis_usdt l)" for ls rem c0
    using that
  proof (induction ls arbitrary: rem c0)
    case (Cons l ls)
    show ?case
    proof (cases rule: walk_lots_step [of consume_share True asset pair_id t l ls rem c0])
      case (take p taken)
      have "0 \<le> consume_share l taken"
        using consume_share_bounds(1) [of l taken] Cons.prems take(5) by simp
      then show ?thesis using Cons.IH [of "dsub rem taken" "dadd c0 (consume_share l taken)"] Cons.prems take
        by (simp add: dadd_nonneg)
    next
      case (skip p)
      then show ?thesis using Cons by simp
    next
      case (halt e)
      then show ?thesis using Cons.prems by simp
    qed
  qed simp
  have "\<forall>l \<in> set (sort_key dust_fifo_key lots). 0 < lot_quantity l \<and> 0 \<le> lot_cost_basis_usdt l \<and>
      exact28 (lot_cost_basis_usdt l)" using inv by (simp add: dust_inv_def)
  from cost [OF _ _ _ this, of quantity 0] r(1)
  show "0 \<le> consumed_cost_basis_usdt c" "exact28 (consumed_cost_basis_usdt c)"
    unfolding r(5) by (simp_all add: consumption_of_def)
qed

section \<open>Order and conservation\<close>

lemma rewrite_lots_self:
  "list_all2 lot_step xs ys \<Longrightarrow> distinct (map lot_capital_id xs) \<Longrightarrow> rewrite_lots xs ys = ys"
proof (induction rule: list_all2_induct)
  case (Cons x xs y ys)
  have id: "lot_capital_id y = lot_capital_id x" using Cons.hyps(1) by (simp add: lot_step_def)
  have "rewrite_lots xs (y # ys) = rewrite_lots xs ys"
    using Cons.prems id unfolding rewrite_lots_def by (intro map_cong) (auto simp: image_iff)
  moreover have "rewrite_lots (x # xs) (y # ys) = y # rewrite_lots xs (y # ys)"
    using id by (simp add: rewrite_lots_def)
  ultimately show ?case using Cons by simp
qed (simp add: rewrite_lots_def)

lemma rewrite_lots_mset:
  assumes "list_all2 lot_step (sort_key dust_fifo_key lots) ys" and "distinct (map lot_capital_id lots)"
  shows "mset (rewrite_lots lots ys) = mset ys"
proof -
  have "mset (rewrite_lots lots ys) = mset (rewrite_lots (sort_key dust_fifo_key lots) ys)"
    by (simp add: rewrite_lots_def)
  also have "rewrite_lots (sort_key dust_fifo_key lots) ys = ys"
    using assms by (intro rewrite_lots_self) (simp_all add: distinct_map_sort)
  finally show ?thesis .
qed

definition lots_total :: "string \<Rightarrow> string \<Rightarrow> dust_lot list \<Rightarrow> decimal" where
  "lots_total asset pair_id lots = sum_list (map lot_quantity (filter (matches asset pair_id) lots))"

lemma lots_total_mset: "mset xs = mset ys \<Longrightarrow> lots_total asset pair_id xs = lots_total asset pair_id ys"
  by (metis lots_total_def mset_filter mset_map sum_mset_sum_list)

lemma lots_total_filter:
  "\<forall>l \<in> set lots. 0 \<le> lot_quantity l \<Longrightarrow>
     lots_total asset pair_id (filter (\<lambda>l. 0 < lot_quantity l) lots) = lots_total asset pair_id lots"
  by (induction lots) (auto simp: lots_total_def)

lemma walk_lots_total:
  assumes "\<forall>l \<in> set ls. on_flow_grid k (lot_quantity l)" and "on_flow_grid k rem"
  shows "lots_total asset pair_id (lp_lots (walk_lots share True asset pair_id now ls rem cost)) =
         lots_total asset pair_id ls - (rem - lp_remaining (walk_lots share True asset pair_id now ls rem cost))"
  using assms
proof (induction ls arbitrary: rem cost)
  case (Cons l ls)
  show ?case
  proof (cases rule: walk_lots_step [of share True asset pair_id now l ls rem cost])
    case (take p taken)
    have lg: "on_flow_grid k (lot_quantity l)" using Cons.prems by simp
    have tg: "on_flow_grid k taken" using take(5) flow_grid_min [OF lg Cons.prems(2)] by simp
    have sub: "dsub rem taken = rem - taken" "dsub (lot_quantity l) taken = lot_quantity l - taken"
      using flow_grid_sub [OF Cons.prems(2) tg] flow_grid_sub [OF lg tg] take(5) by auto
    have "on_flow_grid k (dsub rem taken)"
      using sub flow_grid_diff [OF Cons.prems(2) tg] take(5) by auto
    with Cons.IH [of "dsub rem taken" "dadd cost (share l taken)"] Cons.prems(1) take(2,6) sub
    show ?thesis unfolding take(7)
      by (simp add: lots_total_def taken_from_def matches_def)
  next
    case (skip p)
    with Cons.IH [of rem cost] Cons.prems show ?thesis unfolding skip(4)
      by (simp add: lots_total_def)
  next
    case (halt e)
    then show ?thesis by simp
  qed
qed (simp add: lots_total_def)

lemma walk_lots_other:
  "l \<in> set ls \<Longrightarrow> \<not> matches asset pair_id l \<Longrightarrow>
     l \<in> set (lp_lots (walk_lots share True asset pair_id now ls rem cost))"
proof (induction ls arbitrary: rem cost)
  case (Cons x ls)
  show ?case
  proof (cases rule: walk_lots_step [of share True asset pair_id now x ls rem cost])
    case (take p taken)
    then have "l \<in> set ls" using Cons.prems by auto
    with Cons.IH [of "dsub rem taken" "dadd cost (share x taken)"] Cons.prems take show ?thesis by simp
  next
    case (skip p)
    with Cons.IH [of rem cost] Cons.prems show ?thesis by auto
  next
    case (halt e)
    then show ?thesis using Cons.prems by simp
  qed
qed simp

lemma sorted_key_index:
  assumes "x \<in> set xs" "y \<in> set xs" "f x < (f y :: 'a :: linorder)"
  obtains i j where "i < j" "j < length (sort_key f xs)" "sort_key f xs ! i = x" "sort_key f xs ! j = y"
proof -
  obtain i j where ij: "i < length (sort_key f xs)" "sort_key f xs ! i = x"
    "j < length (sort_key f xs)" "sort_key f xs ! j = y"
    using assms(1,2) by (metis in_set_conv_nth set_sort)
  have "\<not> j \<le> i"
  proof
    assume "j \<le> i"
    then have "map f (sort_key f xs) ! j \<le> map f (sort_key f xs) ! i"
      using ij by (intro sorted_nth_mono) auto
    then show False using ij assms(3) by simp
  qed
  then show thesis using ij by (intro that) auto
qed

definition lots_on_grid :: "nat \<Rightarrow> dust_lot list \<Rightarrow> bool" where
  "lots_on_grid k lots \<longleftrightarrow> (\<forall>l \<in> set lots. on_flow_grid k (lot_quantity l))"

section \<open>Properties\<close>

definition sample_lots :: "dust_lot list" where
  "sample_lots =
     [\<lparr>lot_capital_id = ''M035-CAP-000002'', lot_pair_id = ''PAIR_A'', lot_asset = ''USDC'',
       lot_quantity = 5, lot_cost_basis_usdt = 5, lot_source_cycles = [''K2''], lot_created_at_us = 20\<rparr>,
      \<lparr>lot_capital_id = ''M035-CAP-000001'', lot_pair_id = ''PAIR_A'', lot_asset = ''USDC'',
       lot_quantity = 3, lot_cost_basis_usdt = 3, lot_source_cycles = [''K1''], lot_created_at_us = 10\<rparr>]"

lemma sample_lots_inv: "dust_inv 30 sample_lots"
  by (simp add: dust_inv_def sample_lots_def known_pair_def) (simp add: exact28_grid [of 0] on_grid_def pow10_def)

text \<open>
  Dust is consumed first in first out and nothing is lost. After a consumption the lots
  of the asset and pair hold exactly the consumed quantity less (on a decimal grid), every
  other lot is untouched, and a lot only changes once every older matching lot is gone.
\<close>

lemma dust_consumption_fifo:
  assumes inv: "dust_inv now lots" and res: "dust_consume asset quantity pair_id t lots = Return c lots'"
    and grid: "lots_on_grid k lots" "on_flow_grid k quantity"
  shows "lots_total asset pair_id lots' = lots_total asset pair_id lots - quantity \<and>
         (\<forall>l \<in> set lots. \<not> matches asset pair_id l \<longrightarrow> l \<in> set lots') \<and>
         (\<forall>old \<in> set lots. \<forall>l \<in> set lots. matches asset pair_id old \<longrightarrow>
            dust_fifo_key old < dust_fifo_key l \<longrightarrow> l \<notin> set lots' \<longrightarrow>
            lot_capital_id old \<notin> lot_capital_id ` set lots')"
proof (intro conjI ballI impI)
  let ?s = "sort_key dust_fifo_key lots"
  let ?p = "walk_lots consume_share True asset pair_id t ?s quantity 0"
  let ?w = "rewrite_lots lots (lp_lots ?p)"
  note r = dust_consume_Return [OF res]
  have dist: "distinct (map lot_capital_id lots)" using inv by (simp add: dust_inv_def)
  have steps: "list_all2 lot_step ?s (lp_lots ?p)" using walk_lots_steps [of quantity] r(1) by simp
  have ms: "mset ?w = mset (lp_lots ?p)" by (rule rewrite_lots_mset [OF steps dist])
  have pos: "\<forall>l \<in> set lots. 0 < lot_quantity l" using inv by (simp add: dust_inv_def)
  have nonneg: "\<forall>l \<in> set ?w. 0 \<le> lot_quantity l"
    using lot_steps_from [OF rewrite_lots_steps [OF steps dist]] pos by (auto simp: lot_step_def)
  have sw: "set ?w = set (lp_lots ?p)" using ms by (metis set_mset_mset)
  have "lots_total asset pair_id lots' = lots_total asset pair_id (lp_lots ?p)"
    unfolding r(6) lots_total_filter [OF nonneg] by (rule lots_total_mset [OF ms])
  also have "\<dots> = lots_total asset pair_id ?s - (quantity - lp_remaining ?p)"
    using grid by (intro walk_lots_total) (simp_all add: lots_on_grid_def)
  also have "lots_total asset pair_id ?s = lots_total asset pair_id lots" by (rule lots_total_mset) simp
  finally show "lots_total asset pair_id lots' = lots_total asset pair_id lots - quantity" using r(4) by simp
  show "l \<in> set lots'" if "l \<in> set lots" "\<not> matches asset pair_id l" for l
    using walk_lots_other [of l ?s asset pair_id consume_share t quantity 0] that pos
    unfolding r(6) by (simp add: sw)
  fix old l assume *: "old \<in> set lots" "l \<in> set lots" "matches asset pair_id old"
    "dust_fifo_key old < dust_fifo_key l" "l \<notin> set lots'"
  obtain i j where ij: "i < j" "j < length ?s" "?s ! i = old" "?s ! j = l"
    using sorted_key_index [OF *(1,2,4)] by blast
  have len: "length (lp_lots ?p) = length ?s" using steps by (metis list_all2_lengthD)
  have "lp_lots ?p ! j \<noteq> ?s ! j"
  proof
    assume "lp_lots ?p ! j = ?s ! j"
    then have "l \<in> set (lp_lots ?p)" using ij len by (metis nth_mem)
    then show False using *(2,5) pos unfolding r(6) by (simp add: sw)
  qed
  then have zero: "lot_quantity (lp_lots ?p ! i) = 0"
    using walk_lots_fifo [OF ij(1,2), of asset pair_id] ij(3) *(3) by blast
  have id: "lot_capital_id (lp_lots ?p ! i) = lot_capital_id old"
    using list_all2_nthD [OF steps, of i] ij by (simp add: lot_step_def)
  have distp: "distinct (map lot_capital_id (lp_lots ?p))"
    using lot_steps_ids [OF steps] dist by (simp add: distinct_map_sort)
  show "lot_capital_id old \<notin> lot_capital_id ` set lots'"
  proof
    assume "lot_capital_id old \<in> lot_capital_id ` set lots'"
    then obtain x where x: "x \<in> set (lp_lots ?p)" "0 < lot_quantity x" "lot_capital_id x = lot_capital_id old"
      unfolding r(6) by (auto simp: sw)
    moreover have "lp_lots ?p ! i \<in> set (lp_lots ?p)" using ij len by (intro nth_mem) simp
    ultimately have "x = lp_lots ?p ! i" using distp id by (metis distinct_map inj_onD)
    then show False using x(2) zero by simp
  qed
qed

lemma dust_consumption_fifo_witness:
  "\<exists>c lots'. dust_consume ''USDC'' 4 ''PAIR_A'' 30 sample_lots = Return c lots' \<and>
     lots_total ''USDC'' ''PAIR_A'' lots' = 4 \<and>
     ''M035-CAP-000001'' \<notin> lot_capital_id ` set lots'"
proof -
  have "case dust_consume ''USDC'' 4 ''PAIR_A'' 30 sample_lots of
      Return c lots' \<Rightarrow> sample_lots ! 0 \<notin> set lots' | Raise _ _ \<Rightarrow> False" by code_simp
  then obtain c lots' where r: "dust_consume ''USDC'' 4 ''PAIR_A'' 30 sample_lots = Return c lots'"
    "sample_lots ! 0 \<notin> set lots'" by (auto split: outcome.splits)
  have g: "lots_on_grid 0 sample_lots" "on_flow_grid 0 4"
    by (simp_all add: lots_on_grid_def sample_lots_def on_flow_grid_def on_grid_def pow10_def)
  have t: "lots_total ''USDC'' ''PAIR_A'' sample_lots = 8" by code_simp
  have k: "dust_fifo_key (sample_lots ! 1) < dust_fifo_key (sample_lots ! 0)"
    "matches ''USDC'' ''PAIR_A'' (sample_lots ! 1)" by code_simp+
  have m: "sample_lots ! 0 \<in> set sample_lots" "sample_lots ! 1 \<in> set sample_lots"
    "lot_capital_id (sample_lots ! 1) = ''M035-CAP-000001''" by (simp_all add: sample_lots_def)
  note fifo = dust_consumption_fifo [OF sample_lots_inv r(1) g]
  have "lots_total ''USDC'' ''PAIR_A'' lots' = 4" using fifo t by simp
  moreover have "lot_capital_id (sample_lots ! 1) \<notin> lot_capital_id ` set lots'"
    using fifo m(1,2) k r(2) by blast
  ultimately show ?thesis using r(1) m(3) by auto
qed

text \<open>
  The preview of a consumption announces the lots it will use: when it answers,
  consuming succeeds with the same quantity, the same source cycles and the same source
  capital ids, and when it refuses, consuming refuses with the same error.
\<close>

lemma preview_announces_lineage:
  "case preview_consumption asset quantity pair_id now lots of
     Inl e \<Rightarrow> \<exists>lots'. dust_consume asset quantity pair_id now lots = Raise e lots'
   | Inr c \<Rightarrow> \<exists>c' lots'. dust_consume asset quantity pair_id now lots = Return c' lots' \<and>
        consumed_quantity c' = consumed_quantity c \<and>
        consumed_source_cycles c' = consumed_source_cycles c \<and>
        consumed_source_capital_ids c' = consumed_source_capital_ids c"
  using walk_lots_preview [of preview_share False asset pair_id now "sort_key dust_fifo_key lots" quantity 0
      consume_share True 0]
  by (simp add: preview_consumption_def dust_consume_def consumption_of_def Let_def split: option.splits)

definition three_lots :: "dust_lot list" where
  "three_lots = [\<lparr>lot_capital_id = ''M035-CAP-000001'', lot_pair_id = ''PAIR_A'', lot_asset = ''USDC'',
     lot_quantity = 3, lot_cost_basis_usdt = 3, lot_source_cycles = [''K1''], lot_created_at_us = 5\<rparr>]"

text \<open>
  The announced cost is not always the cost taken. The preview multiplies before it
  divides, the consumption divides first: one third of a lot that cost three is announced as
  one and taken as less than one.
\<close>

lemma preview_cost_diverges:
  "map_sum id consumed_cost_basis_usdt (preview_consumption ''USDC'' 1 ''PAIR_A'' 9 three_lots) = Inr 1 \<and>
   (case dust_consume ''USDC'' 1 ''PAIR_A'' 9 three_lots of
      Return c lots' \<Rightarrow> consumed_cost_basis_usdt c < 1 | Raise _ _ \<Rightarrow> False)"
  by code_simp

end
