(* ===== verification/M035_Ledger_Inv.thy ===== *)
theory M035_Ledger_Inv
  imports M035_Ledger M035_Dust_Facts
begin

text \<open>
  The invariant of the shared-capital ledger. Every capital id is one the ledger has issued
  and has one owner, positions are in a state of their own pair and never negative, every
  asset has a causal mark, and a closed cycle is negative exactly if it consumed a risk-exit
  authorization. The operations are verified with a small step logic: every method keeps the
  invariant and moves the clock to its event, and apart from settlements and dust
  aggregation a method that raises has changed nothing.
\<close>

section \<open>The invariant\<close>

definition position_ok :: "(string, decimal) dict \<Rightarrow> int \<Rightarrow> string \<Rightarrow> capital_position \<Rightarrow> bool" where
  "position_ok marks now cid p \<longleftrightarrow>
     cap_id p = cid \<and> known_pair (cap_pair_id p) \<and>
     (cap_state p = CANCEL_PENDING \<or> (\<exists>i r. pair_state (cap_pair_id p) i r = Inr (cap_state p))) \<and>
     0 \<le> cap_cost_basis p \<and> 0 \<le> cap_marked_value p \<and> 0 \<le> cap_quantity p \<and>
     (cap_state p \<in> {RESERVED_PAIR_A, RESERVED_PAIR_B, CANCEL_PENDING} \<longrightarrow> cap_asset p = ''USDT'') \<and>
     (cap_state p = CANCEL_PENDING \<longrightarrow> (\<exists>t \<le> now. cap_cancel_requested_at_us p = Some t)) \<and>
     has_key marks (cap_asset p)"

definition issued :: "nat \<Rightarrow> string \<Rightarrow> bool" where
  "issued n cid \<longleftrightarrow> (\<exists>k. 0 < k \<and> k \<le> n \<and> cid = capital_id k)"

definition cycles_ok :: "cycle_ledger \<Rightarrow> string list \<Rightarrow> bool" where
  "cycles_ok cs consumed \<longleftrightarrow>
     distinct (keys cs) \<and>
     (\<forall>cyc c. dict_get cs cyc = Some c \<longrightarrow>
        cycle_id c = cyc \<and> known_pair (cycle_pair_id c) \<and>
        (cycle_risk_exit c \<longleftrightarrow> cycle_net_pnl c < 0)) \<and>
     distinct consumed \<and>
     length (filter cycle_risk_exit (dict_values cs)) = length consumed"

definition marks_ok :: "(string, decimal) dict \<Rightarrow> bool" where
  "marks_ok marks \<longleftrightarrow> has_key marks ''USDT'' \<and> (\<forall>asset m. dict_get marks asset = Some m \<longrightarrow> 0 < m)"

definition ledger_inv :: "capital_ledger \<Rightarrow> bool" where
  "ledger_inv L \<longleftrightarrow>
     0 \<le> free_usdt L \<and> exact28 (free_usdt L) \<and>
     distinct (keys (positions L)) \<and>
     (\<forall>cid p. dict_get (positions L) cid = Some p \<longrightarrow>
        position_ok (asset_marks_usdt L) (capital_last_event_us L) cid p \<and>
        issued (capital_sequence L) cid) \<and>
     dust_inv (capital_last_event_us L) (dust_lots L) \<and>
     (\<forall>l \<in> set (dust_lots L). issued (capital_sequence L) (lot_capital_id l) \<and>
        \<not> has_key (positions L) (lot_capital_id l) \<and> has_key (asset_marks_usdt L) (lot_asset l)) \<and>
     cycles_ok (cycles L) (consumed_authorizations L) \<and>
     (\<forall>aid a. dict_get (risk_exit_authorizations L) aid = Some a \<longrightarrow> auth_id a = aid) \<and>
     marks_ok (asset_marks_usdt L)"

lemma capital_id_inject [simp]: "capital_id m = capital_id n \<longleftrightarrow> m = n"
  by (simp add: capital_id_def)

lemma not_issued_next: "\<not> issued n (capital_id (Suc n))"
  by (simp add: issued_def)

lemma issued_next: "issued (Suc n) (capital_id (Suc n))"
  by (auto simp: issued_def)

lemma issued_Suc: "issued n cid \<Longrightarrow> issued (Suc n) cid"
  by (auto simp: issued_def)

lemma issued_nonempty: "issued n cid \<Longrightarrow> cid \<noteq> []"
  by (auto simp: issued_def capital_id_def)

lemma pair_state_known:
  "known_pair pair_id \<Longrightarrow> \<exists>st. pair_state pair_id i r = Inr st"
  by (simp add: pair_state_def Let_def)

lemma pair_state_cases:
  "pair_state pair_id i r = Inr st \<Longrightarrow>
     known_pair pair_id \<and>
     (r \<longrightarrow> st \<in> {RETURN_PAIR_A, RETURN_PAIR_B}) \<and>
     (\<not> r \<and> i \<longrightarrow> st \<in> {INVENTORY_PAIR_A, INVENTORY_PAIR_B}) \<and>
     (\<not> r \<and> \<not> i \<longrightarrow> st \<in> {RESERVED_PAIR_A, RESERVED_PAIR_B})"
  by (auto simp: pair_state_def Let_def split: if_splits)

lemma initial_ledger_inv: "ledger_inv initial_ledger"
  using exact28_grid [of 0 200]
  by (simp add: ledger_inv_def initial_ledger_def cycles_ok_def marks_ok_def has_key_def on_grid_def pow10_def)

lemma new_capital_ledger_initial: "new_capital_ledger 200 = Inr initial_ledger"
  by (simp add: new_capital_ledger_def initial_ledger_def)

section \<open>Elimination\<close>

lemma inv_position:
  "ledger_inv L \<Longrightarrow> dict_get (positions L) cid = Some p \<Longrightarrow>
     position_ok (asset_marks_usdt L) (capital_last_event_us L) cid p \<and> issued (capital_sequence L) cid"
  unfolding ledger_inv_def by blast

lemma inv_dust:
  "ledger_inv L \<Longrightarrow> l \<in> set (dust_lots L) \<Longrightarrow> issued (capital_sequence L) (lot_capital_id l) \<and>
     dict_get (positions L) (lot_capital_id l) = None \<and> has_key (asset_marks_usdt L) (lot_asset l)"
  unfolding ledger_inv_def by (simp add: has_key_iff)

lemma inv_free: "ledger_inv L \<Longrightarrow> 0 \<le> free_usdt L"
  unfolding ledger_inv_def by blast

lemma inv_free_exact: "ledger_inv L \<Longrightarrow> exact28 (free_usdt L)"
  unfolding ledger_inv_def by blast

lemma inv_dust_inv: "ledger_inv L \<Longrightarrow> dust_inv (capital_last_event_us L) (dust_lots L)"
  unfolding ledger_inv_def by blast

lemma inv_distinct: "ledger_inv L \<Longrightarrow> distinct (keys (positions L))"
  unfolding ledger_inv_def by blast

lemma inv_cycles: "ledger_inv L \<Longrightarrow> cycles_ok (cycles L) (consumed_authorizations L)"
  unfolding ledger_inv_def by blast

lemma inv_authorizations:
  "ledger_inv L \<Longrightarrow> dict_get (risk_exit_authorizations L) aid = Some a \<Longrightarrow> auth_id a = aid"
  unfolding ledger_inv_def by blast

lemma inv_marks: "ledger_inv L \<Longrightarrow> marks_ok (asset_marks_usdt L)"
  unfolding ledger_inv_def by blast

lemma inv_next_free: "ledger_inv L \<Longrightarrow> dict_get (positions L) (capital_id (Suc (capital_sequence L))) = None"
  using inv_position not_issued_next by (metis not_None_eq)

section \<open>The building blocks keep the invariant\<close>

lemma position_ok_later:
  "position_ok marks now cid p \<Longrightarrow> now \<le> now' \<Longrightarrow> position_ok marks now' cid p"
  by (auto simp: position_ok_def)

lemma position_ok_pair: "position_ok marks now cid p \<Longrightarrow> known_pair (cap_pair_id p)"
  by (simp add: position_ok_def)

lemma position_ok_marks:
  "position_ok marks now cid p \<Longrightarrow> position_ok (dict_set asset m marks) now cid p"
  by (auto simp: position_ok_def has_key_def)

lemma ledger_inv_frame:
  assumes "free_usdt L' = free_usdt L" "positions L' = positions L" "dust_lots L' = dust_lots L"
    "cycles L' = cycles L" "consumed_authorizations L' = consumed_authorizations L"
    "risk_exit_authorizations L' = risk_exit_authorizations L" "asset_marks_usdt L' = asset_marks_usdt L"
    "capital_sequence L' = capital_sequence L" "capital_last_event_us L' = capital_last_event_us L"
  shows "ledger_inv L' = ledger_inv L"
  by (simp add: ledger_inv_def assms)

lemma ledger_inv_log [simp]: "ledger_inv (log_event ev L) = ledger_inv L"
  by (rule ledger_inv_frame) (simp_all add: log_event_def)

lemma ledger_inv_external [simp]: "ledger_inv (L\<lparr>external_costs_usdt := x\<rparr>) = ledger_inv L"
  by (rule ledger_inv_frame) simp_all

lemma ledger_inv_pnl [simp]: "ledger_inv (L\<lparr>realized_pnl_usdt := x\<rparr>) = ledger_inv L"
  by (rule ledger_inv_frame) simp_all

lemma ledger_inv_time:
  "ledger_inv L \<Longrightarrow> capital_last_event_us L \<le> now \<Longrightarrow> ledger_inv (L\<lparr>capital_last_event_us := now\<rparr>)"
  unfolding ledger_inv_def by (auto intro: position_ok_later dust_inv_later)

lemma ledger_inv_free: "ledger_inv L \<Longrightarrow> 0 \<le> x \<Longrightarrow> exact28 x \<Longrightarrow> ledger_inv (L\<lparr>free_usdt := x\<rparr>)"
  unfolding ledger_inv_def by simp

lemma ledger_inv_set:
  assumes "ledger_inv L" "dict_get (positions L) cid = Some p"
    "position_ok (asset_marks_usdt L) (capital_last_event_us L) cid p'"
  shows "ledger_inv (set_position cid p' L)"
  using assms inv_position [OF assms(1,2)] unfolding ledger_inv_def set_position_def
  by (auto simp: has_key_iff)

lemma ledger_inv_del: "ledger_inv L \<Longrightarrow> ledger_inv (del_position cid L)"
  unfolding ledger_inv_def del_position_def by (auto simp: has_key_iff split: if_splits)

lemma ledger_inv_sequence: "ledger_inv L \<Longrightarrow> ledger_inv (L\<lparr>capital_sequence := Suc (capital_sequence L)\<rparr>)"
  unfolding ledger_inv_def by (auto intro: issued_Suc)

text \<open>A new position takes the id the sequence has just issued.\<close>

lemma ledger_inv_new:
  assumes inv: "ledger_inv L" and fresh: "\<forall>cid. dict_get (positions L) cid \<noteq> None \<longrightarrow> cid \<noteq> new"
    "new \<notin> lot_capital_id ` set (dust_lots L)" and "issued (capital_sequence L) new"
    and ok: "position_ok (asset_marks_usdt L) (capital_last_event_us L) new p"
  shows "ledger_inv (set_position new p L)"
  using assms unfolding ledger_inv_def set_position_def
  by (auto simp: has_key_iff split: if_splits)

lemma ledger_inv_open:
  assumes inv: "ledger_inv L"
    and ok: "position_ok (asset_marks_usdt L) (capital_last_event_us L) (capital_id (Suc (capital_sequence L))) p"
    and K: "K = L\<lparr>capital_sequence := Suc (capital_sequence L)\<rparr>"
  shows "ledger_inv (set_position (capital_id (Suc (capital_sequence L))) p K)"
proof -
  have "ledger_inv K" unfolding K by (rule ledger_inv_sequence [OF inv])
  then show ?thesis
  proof (rule ledger_inv_new)
    show "\<forall>cid. dict_get (positions K) cid \<noteq> None \<longrightarrow> cid \<noteq> capital_id (Suc (capital_sequence L))"
      using inv_next_free [OF inv] by (auto simp: K)
    show "capital_id (Suc (capital_sequence L)) \<notin> lot_capital_id ` set (dust_lots K)"
      using inv_dust [OF inv] not_issued_next [of "capital_sequence L"] by (auto simp: K)
  qed (use ok in \<open>simp_all add: K issued_next\<close>)
qed

lemma ledger_inv_mark:
  assumes inv: "ledger_inv L" and "0 < m"
  shows "ledger_inv (L\<lparr>asset_marks_usdt := dict_set asset m (asset_marks_usdt L)\<rparr>)"
  using assms unfolding ledger_inv_def marks_ok_def
  by (auto intro: position_ok_marks simp: has_key_def split: if_splits)

lemma ledger_inv_dust:
  assumes "ledger_inv L" "dust_inv (capital_last_event_us L) lots"
    "\<forall>l \<in> set lots. issued (capital_sequence L) (lot_capital_id l) \<and>
       dict_get (positions L) (lot_capital_id l) = None \<and> has_key (asset_marks_usdt L) (lot_asset l)"
  shows "ledger_inv (L\<lparr>dust_lots := lots\<rparr>)"
  using assms unfolding ledger_inv_def by (simp add: has_key_iff)

lemma reconcile_ok: "ledger_inv L \<Longrightarrow> reconcile_error L = None"
proof -
  assume inv: "ledger_inv L"
  have "\<not> (\<exists>p \<in> set (dict_values (positions L)). cap_marked_value p < 0 \<or> cap_cost_basis p < 0)"
  proof
    assume "\<exists>p \<in> set (dict_values (positions L)). cap_marked_value p < 0 \<or> cap_cost_basis p < 0"
    then obtain p cid where p: "dict_get (positions L) cid = Some p" "cap_marked_value p < 0 \<or> cap_cost_basis p < 0"
      using value_has_key [OF inv_distinct [OF inv]] by blast
    show False using inv_position [OF inv p(1)] p(2) by (auto simp: position_ok_def)
  qed
  moreover have "\<not> (\<exists>l \<in> set (dust_lots L). has_key (positions L) (lot_capital_id l))"
    using inv_dust [OF inv] by (auto simp: has_key_iff)
  moreover have "unique_ownership (dust_lots L)"
    using inv_dust_inv [OF inv] by (simp add: unique_ownership_def dust_inv_def)
  ultimately show ?thesis using inv_free [OF inv] by (simp add: reconcile_error_def not_less)
qed

lemma committing_inv:
  "ledger_inv L \<Longrightarrow> capital_last_event_us L \<le> now \<Longrightarrow>
     committing now r L = Return r (L\<lparr>capital_last_event_us := now\<rparr>)"
  using reconcile_ok [OF ledger_inv_time] by (simp add: committing_def reconcile_def)

section \<open>A step logic for the methods\<close>

text \<open>
  \<open>step_ok Q now L out\<close>: a return moves the clock to \<open>now\<close> and keeps the invariant; a raise
  leaves a state that satisfies \<open>Q\<close>.
\<close>

definition step_ok ::
    "(capital_ledger \<Rightarrow> bool) \<Rightarrow> int \<Rightarrow> capital_ledger \<Rightarrow> ('a, capital_ledger) outcome \<Rightarrow> bool" where
  "step_ok Q now L out \<longleftrightarrow>
     (case out of
        Return r L' \<Rightarrow> capital_last_event_us L \<le> now \<and> ledger_inv L' \<and> capital_last_event_us L' = now
      | Raise e L' \<Rightarrow> Q L')"

lemma step_Raise: "Q L' \<Longrightarrow> step_ok Q now L (Raise e L')"
  by (simp add: step_ok_def)

lemma step_causal:
  "Q L \<Longrightarrow> (capital_last_event_us L \<le> now \<Longrightarrow> step_ok Q now L (k () L)) \<Longrightarrow>
     step_ok Q now L (and_then (capital_causal now L) k)"
  by (simp add: capital_causal_def step_Raise)

lemma step_position:
  "Q L' \<Longrightarrow> (\<And>p. dict_get (positions L') cid = Some p \<Longrightarrow> step_ok Q now L (k p)) \<Longrightarrow>
     step_ok Q now L (with_position cid L' k)"
  by (auto simp: with_position_def step_Raise split: option.splits)

lemma step_if:
  "(b \<Longrightarrow> step_ok Q now L x) \<Longrightarrow> (\<not> b \<Longrightarrow> step_ok Q now L y) \<Longrightarrow> step_ok Q now L (if b then x else y)"
  by simp

lemma step_state:
  "known_pair pair_id \<Longrightarrow> (\<And>st. pair_state pair_id i r = Inr st \<Longrightarrow> step_ok Q now L (k st)) \<Longrightarrow>
     step_ok Q now L (with_state (pair_state pair_id i r) L' k)"
  using pair_state_known [of pair_id i r] by (cases "pair_state pair_id i r") (auto simp: with_state_def)

lemma step_committing:
  "ledger_inv L' \<Longrightarrow> capital_last_event_us L \<le> now \<Longrightarrow> capital_last_event_us L' = capital_last_event_us L \<Longrightarrow>
     step_ok Q now L (committing now r L')"
  by (simp add: committing_inv step_ok_def ledger_inv_time)

text \<open>The same, where the invariant only holds once the clock has moved.\<close>

lemma committing_now:
  "ledger_inv (L'\<lparr>capital_last_event_us := now\<rparr>) \<Longrightarrow>
     committing now r L' = Return r (L'\<lparr>capital_last_event_us := now\<rparr>)"
  by (simp add: committing_def reconcile_def reconcile_ok)

lemma step_committing_now:
  "ledger_inv (L'\<lparr>capital_last_event_us := now\<rparr>) \<Longrightarrow> capital_last_event_us L \<le> now \<Longrightarrow>
     step_ok Q now L (committing now r L')"
  by (simp add: committing_now step_ok_def)

lemmas step_intros = step_causal step_position step_if step_state step_Raise

lemma fields [simp]:
  "capital_last_event_us (set_position cid p L) = capital_last_event_us L"
  "capital_last_event_us (del_position cid L) = capital_last_event_us L"
  "capital_last_event_us (log_event ev L) = capital_last_event_us L"
  "positions (set_position cid p L) = dict_set cid p (positions L)"
  "positions (del_position cid L) = dict_del cid (positions L)"
  "positions (log_event ev L) = positions L"
  "asset_marks_usdt (set_position cid p L) = asset_marks_usdt L"
  "asset_marks_usdt (del_position cid L) = asset_marks_usdt L"
  "asset_marks_usdt (log_event ev L) = asset_marks_usdt L"
  "free_usdt (set_position cid p L) = free_usdt L"
  "free_usdt (del_position cid L) = free_usdt L"
  "free_usdt (log_event ev L) = free_usdt L"
  "dust_lots (set_position cid p L) = dust_lots L"
  "dust_lots (del_position cid L) = dust_lots L"
  "dust_lots (log_event ev L) = dust_lots L"
  "capital_sequence (set_position cid p L) = capital_sequence L"
  "capital_sequence (del_position cid L) = capital_sequence L"
  "capital_sequence (log_event ev L) = capital_sequence L"
  "cycles (set_position cid p L) = cycles L"
  "cycles (del_position cid L) = cycles L"
  "cycles (log_event ev L) = cycles L"
  by (simp_all add: set_position_def del_position_def log_event_def)


section \<open>The methods\<close>

text \<open>Methods that change nothing when they raise.\<close>

abbreviation atomic_step :: "int \<Rightarrow> capital_ledger \<Rightarrow> ('a, capital_ledger) outcome \<Rightarrow> bool" where
  "atomic_step now L out \<equiv> step_ok (\<lambda>L'. L' = L) now L out"

lemma new_position_fields [simp]:
  "cap_id (new_position cid pid st c m a q t s) = cid"
  "cap_pair_id (new_position cid pid st c m a q t s) = pid"
  "cap_state (new_position cid pid st c m a q t s) = st"
  "cap_cost_basis (new_position cid pid st c m a q t s) = c"
  "cap_marked_value (new_position cid pid st c m a q t s) = m"
  "cap_asset (new_position cid pid st c m a q t s) = a"
  "cap_quantity (new_position cid pid st c m a q t s) = q"
  by (simp_all add: new_position_def)

lemma new_candidate_Inr: "new_candidate c = Inr c' \<Longrightarrow> c' = c \<and> known_pair (cand_pair_id c)"
  by (auto simp: new_candidate_def split: if_splits)

text \<open>The position and ledger a reservation writes.\<close>

definition reserved_position :: "allocation_candidate \<Rightarrow> decimal \<Rightarrow> int \<Rightarrow> capital_state \<Rightarrow> string \<Rightarrow> capital_position" where
  "reserved_position c amount now st cid =
     new_position cid (cand_pair_id c) st amount amount ''USDT'' amount now (cand_id c)"

lemma reserved_inv:
  assumes inv: "ledger_inv L" and g: "0 < amount" "amount \<le> free_usdt L"
    and st: "pair_state (cand_pair_id c) False False = Inr st"
  defines "cid \<equiv> capital_id (Suc (capital_sequence L))"
  shows "ledger_inv (log_event ev (set_position cid (reserved_position c amount now st cid)
    (L\<lparr>capital_sequence := Suc (capital_sequence L), free_usdt := dsub (free_usdt L) amount\<rparr>)))"
proof -
  let ?K = "L\<lparr>capital_sequence := Suc (capital_sequence L), free_usdt := dsub (free_usdt L) amount\<rparr>"
  have ok: "position_ok (asset_marks_usdt L) (capital_last_event_us L) cid (reserved_position c amount now st cid)"
    using g st pair_state_cases [OF st] inv_marks [OF inv]
    by (auto simp: position_ok_def marks_ok_def reserved_position_def)
  have "ledger_inv (L\<lparr>free_usdt := dsub (free_usdt L) amount\<rparr>)"
    using g by (intro ledger_inv_free [OF inv]) simp_all
  from ledger_inv_open [OF this, of "reserved_position c amount now st cid" ?K] ok
  show ?thesis by (simp add: cid_def)
qed

lemma reserve_step:
  assumes inv: "ledger_inv L" and pair: "known_pair (cand_pair_id c)"
  shows "atomic_step now L (reserve c amount now L)"
  unfolding reserve_def Let_def reserved_position_def [symmetric]
  by (intro step_intros refl step_committing reserved_inv [OF inv]) (auto simp: pair)

lemma reserve_succeeds:
  assumes inv: "ledger_inv L" and "known_pair (cand_pair_id c)" "capital_last_event_us L \<le> now"
    "0 < amount" "amount \<le> cand_requested_usdt c" "amount \<le> free_usdt L"
  obtains st where "reserve c amount now L = Return (capital_id (Suc (capital_sequence L)))
    ((log_event (CAPITAL_RESERVED now (capital_id (Suc (capital_sequence L))) (cand_pair_id c) amount)
      (set_position (capital_id (Suc (capital_sequence L)))
        (reserved_position c amount now st (capital_id (Suc (capital_sequence L))))
        (L\<lparr>capital_sequence := Suc (capital_sequence L), free_usdt := dsub (free_usdt L) amount\<rparr>)))
      \<lparr>capital_last_event_us := now\<rparr>)"
proof -
  obtain st where st: "pair_state (cand_pair_id c) False False = Inr st"
    using pair_state_known assms(2) by blast
  show ?thesis
  proof (rule that [of st])
    show "reserve c amount now L = Return (capital_id (Suc (capital_sequence L)))
      ((log_event (CAPITAL_RESERVED now (capital_id (Suc (capital_sequence L))) (cand_pair_id c) amount)
        (set_position (capital_id (Suc (capital_sequence L)))
          (reserved_position c amount now st (capital_id (Suc (capital_sequence L))))
          (L\<lparr>capital_sequence := Suc (capital_sequence L), free_usdt := dsub (free_usdt L) amount\<rparr>)))
        \<lparr>capital_last_event_us := now\<rparr>)"
      using assms st committing_inv [OF reserved_inv [OF inv assms(4,6) st]]
      unfolding reserve_def capital_causal_def with_state_def Let_def reserved_position_def [symmetric] by simp
  qed
qed

text \<open>The position and ledger a cancel request writes.\<close>

definition pending_cancel :: "int \<Rightarrow> capital_position \<Rightarrow> capital_position" where
  "pending_cancel now p = p\<lparr>cap_state := CANCEL_PENDING, cap_cancel_requested_at_us := Some now\<rparr>"

lemma pending_cancel_inv:
  assumes inv: "ledger_inv L" and p: "dict_get (positions L) cid = Some p"
    and st: "cap_state p \<in> {RESERVED_PAIR_A, RESERVED_PAIR_B}" and time: "capital_last_event_us L \<le> now"
  shows "ledger_inv ((log_event ev (set_position cid (pending_cancel now p) L))\<lparr>capital_last_event_us := now\<rparr>)"
proof -
  have inv': "ledger_inv (L\<lparr>capital_last_event_us := now\<rparr>)" by (rule ledger_inv_time [OF inv time])
  have "ledger_inv (set_position cid (pending_cancel now p) (L\<lparr>capital_last_event_us := now\<rparr>))"
    using inv_position [OF inv'] p st
    by (intro ledger_inv_set [OF inv', of _ p]) (auto simp: position_ok_def pending_cancel_def)
  moreover have "ledger_inv ((log_event ev (set_position cid (pending_cancel now p) L))\<lparr>capital_last_event_us := now\<rparr>) =
      ledger_inv (set_position cid (pending_cancel now p) (L\<lparr>capital_last_event_us := now\<rparr>))"
    by (rule ledger_inv_frame) (simp_all add: set_position_def log_event_def)
  ultimately show ?thesis by simp
qed

lemma request_cancel_step:
  assumes inv: "ledger_inv L"
  shows "atomic_step now L (request_cancel cid now L)"
  unfolding request_cancel_def pending_cancel_def [symmetric]
  by (intro step_intros refl step_committing_now pending_cancel_inv [OF inv]) auto

lemma acknowledge_cancel_step:
  assumes inv: "ledger_inv L"
  shows "atomic_step now L (acknowledge_cancel cid now L)"
  unfolding acknowledge_cancel_def Let_def
proof (intro step_intros refl step_committing)
  fix p
  assume p: "dict_get (positions L) cid = Some p"
  have "0 \<le> cap_marked_value p" using inv_position [OF inv p] by (simp add: position_ok_def)
  then have "ledger_inv (L\<lparr>free_usdt := dadd (free_usdt L) (cap_marked_value p)\<rparr>)"
    by (intro ledger_inv_free [OF inv] dadd_nonneg inv_free [OF inv]) simp_all
  then show "ledger_inv (log_event (CANCEL_ACK now cid (cap_marked_value p))
      (del_position cid (L\<lparr>free_usdt := dadd (free_usdt L) (cap_marked_value p)\<rparr>)))"
    by (simp add: ledger_inv_del)
qed simp_all

lemma reserve_owned_return_step:
  assumes inv: "ledger_inv L"
  shows "atomic_step now L (reserve_owned_return cid now L)"
  unfolding reserve_owned_return_def
proof (intro step_intros refl step_committing)
  fix p st
  assume p: "dict_get (positions L) cid = Some p" and st: "pair_state (cap_pair_id p) False True = Inr st"
  have "ledger_inv (set_position cid (p\<lparr>cap_state := st\<rparr>) L)"
    using inv_position [OF inv p] st pair_state_cases [OF st]
    by (intro ledger_inv_set [OF inv p]) (auto simp: position_ok_def)
  then show "ledger_inv (log_event (OWNED_RETURN_RESERVED now cid) (set_position cid (p\<lparr>cap_state := st\<rparr>) L))"
    by simp
next
  fix p
  assume "dict_get (positions L) cid = Some p"
  from inv_position [OF inv this] show "known_pair (cap_pair_id p)" by (simp add: position_ok_def)
qed simp_all

text \<open>What a filled entry leaves once the cost is paid and the mark is stored.\<close>

definition paid_entry ::
    "string \<Rightarrow> decimal \<Rightarrow> decimal \<Rightarrow> capital_ledger \<Rightarrow> capital_ledger" where
  "paid_entry asset mark cost L =
     L\<lparr>free_usdt := dsub (free_usdt L) cost, external_costs_usdt := dadd (external_costs_usdt L) cost,
       asset_marks_usdt := dict_set asset mark (asset_marks_usdt L)\<rparr>"

lemma paid_entry_inv:
  "ledger_inv L \<Longrightarrow> 0 < mark \<Longrightarrow> cost \<le> free_usdt L \<Longrightarrow> ledger_inv (paid_entry asset mark cost L)"
proof -
  assume *: "ledger_inv L" "0 < mark" "cost \<le> free_usdt L"
  have "ledger_inv ((L\<lparr>asset_marks_usdt := dict_set asset mark (asset_marks_usdt L)\<rparr>)
      \<lparr>free_usdt := dsub (free_usdt L) cost\<rparr>)"
    using * by (intro ledger_inv_free ledger_inv_mark) simp_all
  moreover have "ledger_inv (paid_entry asset mark cost L) =
      ledger_inv ((L\<lparr>asset_marks_usdt := dict_set asset mark (asset_marks_usdt L)\<rparr>)
      \<lparr>free_usdt := dsub (free_usdt L) cost\<rparr>)"
    by (rule ledger_inv_frame) (simp_all add: paid_entry_def)
  ultimately show ?thesis by simp
qed

lemma paid_entry_position:
  "ledger_inv L \<Longrightarrow> dict_get (positions L) cid = Some p \<Longrightarrow>
     position_ok (dict_set asset mark (asset_marks_usdt L)) (capital_last_event_us L) cid p"
  using inv_position position_ok_marks by blast

lemma split_entry_Return:
  assumes inv: "ledger_inv L" and p: "dict_get (positions L) cid = Some p"
    and g: "0 < dsub (cap_cost_basis p) consumed" "0 < consumed" "0 \<le> inventory_mark" "0 < quantity"
      "0 < mark" "cost \<le> free_usdt L"
  obtains L1 where
    "split_entry cid p asset quantity inventory_mark consumed cost now L = Return (capital_id (Suc (capital_sequence L))) L1"
    "ledger_inv (paid_entry asset mark cost L1)" "capital_last_event_us L1 = capital_last_event_us L"
proof -
  let ?new = "capital_id (Suc (capital_sequence L))"
  let ?r = "dsub (cap_cost_basis p) consumed"
  let ?M = "paid_entry asset mark cost L"
  have inv0: "ledger_inv ?M" by (rule paid_entry_inv [OF inv g(5,6)])
  have p0: "dict_get (positions ?M) cid = Some p" using p by (simp add: paid_entry_def)
  note ok = inv_position [OF inv0 p0]
  obtain ns where ns: "pair_state (cap_pair_id p) True False = Inr ns"
    using pair_state_known [OF position_ok_pair] ok by blast
  let ?p = "p\<lparr>cap_cost_basis := ?r, cap_marked_value := ?r, cap_quantity := ?r\<rparr>"
  let ?q = "(new_position ?new (cap_pair_id p) ns consumed inventory_mark asset quantity now (cap_source_candidate_id p))
      \<lparr>cap_source_capital_ids := [cid], cap_attributable_costs := cost\<rparr>"
  let ?K = "(set_position cid ?p ?M)\<lparr>capital_sequence := Suc (capital_sequence L)\<rparr>"
  let ?L1 = "set_position ?new ?q (set_position cid ?p (L\<lparr>capital_sequence := Suc (capital_sequence L)\<rparr>))"
  have inv1: "ledger_inv (set_position cid ?p ?M)"
    using ok g by (intro ledger_inv_set [OF inv0 p0]) (auto simp: position_ok_def)
  have "position_ok (asset_marks_usdt ?M) (capital_last_event_us ?M) ?new ?q"
    using ok g pair_state_cases [OF ns] ns by (auto simp: position_ok_def paid_entry_def has_key_def)
  then have "ledger_inv (set_position ?new ?q ?K)"
    using ledger_inv_open [OF inv1, of ?q ?K] by (simp add: paid_entry_def)
  moreover have "ledger_inv (paid_entry asset mark cost ?L1) = ledger_inv (set_position ?new ?q ?K)"
    by (rule ledger_inv_frame) (simp_all add: paid_entry_def set_position_def)
  ultimately have "ledger_inv (paid_entry asset mark cost ?L1)" by simp
  then show thesis
    by (intro that [of ?L1]) (simp_all add: split_entry_def Let_def with_state_def ns)
qed

lemma whole_entry_Return:
  assumes inv: "ledger_inv L" and p: "dict_get (positions L) cid = Some p"
    and g: "0 \<le> inventory_mark" "0 < quantity" "0 < mark" "cost \<le> free_usdt L"
  obtains L1 where "whole_entry cid p asset quantity inventory_mark cost L = Return cid L1"
    "ledger_inv (paid_entry asset mark cost L1)" "capital_last_event_us L1 = capital_last_event_us L"
proof -
  let ?M = "paid_entry asset mark cost L"
  have inv0: "ledger_inv ?M" by (rule paid_entry_inv [OF inv g(3,4)])
  have p0: "dict_get (positions ?M) cid = Some p" using p by (simp add: paid_entry_def)
  note ok = inv_position [OF inv0 p0]
  obtain ns where ns: "pair_state (cap_pair_id p) True False = Inr ns"
    using pair_state_known [OF position_ok_pair] ok by blast
  let ?p = "p\<lparr>cap_state := ns, cap_asset := asset, cap_quantity := quantity,
      cap_marked_value := inventory_mark, cap_attributable_costs := dadd (cap_attributable_costs p) cost\<rparr>"
  have "position_ok (asset_marks_usdt ?M) (capital_last_event_us ?M) cid ?p"
    using ok g ns pair_state_cases [OF ns] by (auto simp: position_ok_def paid_entry_def has_key_def)
  then have "ledger_inv (set_position cid ?p ?M)" by (rule ledger_inv_set [OF inv0 p0])
  moreover have "ledger_inv (paid_entry asset mark cost (set_position cid ?p L)) = ledger_inv (set_position cid ?p ?M)"
    by (rule ledger_inv_frame) (simp_all add: paid_entry_def set_position_def)
  ultimately have "ledger_inv (paid_entry asset mark cost (set_position cid ?p L))" by simp
  then show thesis
    by (intro that [of "set_position cid ?p L"]) (simp_all add: whole_entry_def with_state_def ns)
qed

lemma record_entry_fill_step:
  assumes inv: "ledger_inv L"
  shows "atomic_step now L (record_entry_fill cid asset quantity mark cost now input_usdt L)"
  unfolding record_entry_fill_def Let_def
proof (intro step_causal step_position step_if step_Raise refl)
  fix p :: capital_position
  let ?c = "case input_usdt of None \<Rightarrow> cap_cost_basis p | Some u \<Rightarrow> u"
  let ?rem = "dsub (cap_cost_basis p) ?c"
  assume time: "capital_last_event_us L \<le> now" and p: "dict_get (positions L) cid = Some p"
    and g: "\<not> (quantity \<le> 0 \<or> mark \<le> 0 \<or> cost < 0 \<or> ?c \<le> 0 \<or> cap_cost_basis p < ?c)"
      "\<not> free_usdt L < cost" "\<not> dmul quantity mark < 0"
  obtain i L1 where
    "(if 0 < ?rem then split_entry cid p asset quantity (dmul quantity mark) ?c cost now L
      else whole_entry cid p asset quantity (dmul quantity mark) cost L) = Return i L1"
    "ledger_inv (paid_entry asset mark cost L1)" "capital_last_event_us L1 = capital_last_event_us L"
  proof (cases "0 < ?rem")
    case True
    obtain L1 where "split_entry cid p asset quantity (dmul quantity mark) ?c cost now L =
        Return (capital_id (Suc (capital_sequence L))) L1"
      "ledger_inv (paid_entry asset mark cost L1)" "capital_last_event_us L1 = capital_last_event_us L"
      by (rule split_entry_Return [OF inv p True, of "dmul quantity mark" quantity mark cost asset now]) (use g in auto)
    then show thesis using True by (intro that [of "capital_id (Suc (capital_sequence L))" L1]) simp_all
  next
    case False
    obtain L1 where "whole_entry cid p asset quantity (dmul quantity mark) cost L = Return cid L1"
      "ledger_inv (paid_entry asset mark cost L1)" "capital_last_event_us L1 = capital_last_event_us L"
      by (rule whole_entry_Return [OF inv p, of "dmul quantity mark" quantity mark cost asset]) (use g in auto)
    then show thesis using False by (intro that [of cid L1]) simp_all
  qed
  then show "atomic_step now L
      (and_then (if 0 < ?rem then split_entry cid p asset quantity (dmul quantity mark) ?c cost now L
                 else whole_entry cid p asset quantity (dmul quantity mark) cost L)
        (\<lambda>inv_id L1. committing now inv_id (log_event (ENTRY_FILL now cid inv_id asset quantity ?c ?rem)
          (L1\<lparr>free_usdt := dsub (free_usdt L1) cost, external_costs_usdt := dadd (external_costs_usdt L1) cost,
              asset_marks_usdt := dict_set asset mark (asset_marks_usdt L1)\<rparr>))))"
    by (simp only: and_then.simps flip: paid_entry_def)
      (intro step_committing time, simp_all add: paid_entry_def)
qed

lemma add_dust_Return:
  "add_dust lot L = Return r L' \<longleftrightarrow>
     (\<exists>lots. dust_add lot (dust_lots L) = Return () lots \<and> L' = L\<lparr>dust_lots := lots\<rparr>)"
  by (auto simp: add_dust_def split: outcome.splits)

lemma add_dust_Raise: "add_dust lot L = Raise e L' \<Longrightarrow> L' = L"
  by (auto simp: add_dust_def dest: dust_add_Raise split: outcome.splits)

text \<open>A position that leaves its id to a dust lot.\<close>

lemma ledger_inv_to_dust:
  assumes inv: "ledger_inv L" and p: "dict_get (positions L) cid = Some p"
    and time: "capital_last_event_us L \<le> now"
    and add: "dust_add lot (dust_lots L) = Return () lots"
    and lot: "lot_capital_id lot = cid" "lot_created_at_us lot = now" "exact28 (lot_cost_basis_usdt lot)"
      "lot_asset lot = cap_asset p"
  shows "ledger_inv ((del_position cid (L\<lparr>dust_lots := lots\<rparr>))\<lparr>capital_last_event_us := now\<rparr>)"
proof -
  let ?D = "del_position cid (L\<lparr>capital_last_event_us := now\<rparr>)"
  note ok = inv_position [OF inv p]
  have invt: "ledger_inv (L\<lparr>capital_last_event_us := now\<rparr>)" by (rule ledger_inv_time [OF inv time])
  then have inv': "ledger_inv ?D" by (rule ledger_inv_del)
  have "dust_inv now lots"
    using dust_add_inv [OF _ add, of now] inv_dust_inv [OF invt] lot by simp
  moreover have "issued (capital_sequence L) (lot_capital_id l) \<and>
      dict_get (positions ?D) (lot_capital_id l) = None \<and> has_key (asset_marks_usdt L) (lot_asset l)"
    if "l \<in> set lots" for l
  proof (cases "l = lot")
    case True
    then show ?thesis using ok lot by (simp add: del_position_def position_ok_def)
  next
    case False
    then have "l \<in> set (dust_lots L)" using that add by (simp add: dust_add_Return)
    then show ?thesis using inv_dust [OF inv] by (simp add: del_position_def)
  qed
  ultimately have "ledger_inv (?D\<lparr>dust_lots := lots\<rparr>)"
    by (intro ledger_inv_dust [OF inv']) (simp_all add: del_position_def)
  moreover have "?D\<lparr>dust_lots := lots\<rparr> = (del_position cid (L\<lparr>dust_lots := lots\<rparr>))\<lparr>capital_last_event_us := now\<rparr>"
    by (simp add: del_position_def)
  ultimately show ?thesis by simp
qed

lemma log_event_time: "(log_event ev L)\<lparr>capital_last_event_us := now\<rparr> = log_event ev (L\<lparr>capital_last_event_us := now\<rparr>)"
  by (simp add: log_event_def)

lemma move_untradeable_inventory_to_dust_step:
  assumes inv: "ledger_inv L"
  shows "atomic_step now L (move_untradeable_inventory_to_dust cid now reason L)"
  unfolding move_untradeable_inventory_to_dust_def
proof (intro step_causal step_position step_if step_Raise refl)
  fix p :: capital_position
  let ?lot = "\<lparr>lot_capital_id = cid, lot_pair_id = cap_pair_id p, lot_asset = cap_asset p,
      lot_quantity = cap_quantity p, lot_cost_basis_usdt = dadd (cap_cost_basis p) (cap_attributable_costs p),
      lot_source_cycles = cap_source_cycles p, lot_created_at_us = now\<rparr>"
  let ?ev = "UNTRADEABLE_INVENTORY_MOVED_TO_DUST now cid (cap_pair_id p) (cap_asset p) (cap_quantity p) reason"
  assume time: "capital_last_event_us L \<le> now" and p: "dict_get (positions L) cid = Some p"
  show "atomic_step now L (and_then (add_dust ?lot L)
      (\<lambda>_ L1. committing now () (log_event ?ev (del_position cid L1))))"
  proof (cases "add_dust ?lot L")
    case (Return r L1)
    then obtain lots where lots: "dust_add ?lot (dust_lots L) = Return () lots" "L1 = L\<lparr>dust_lots := lots\<rparr>"
      by (auto simp: add_dust_Return)
    have "ledger_inv ((del_position cid L1)\<lparr>capital_last_event_us := now\<rparr>)"
      unfolding lots(2) by (rule ledger_inv_to_dust [OF inv p time lots(1)]) simp_all
    then show ?thesis unfolding Return and_then.simps
      by (intro step_committing_now time) (simp add: log_event_time)
  qed (auto dest: add_dust_Raise simp: step_Raise)
qed

lemma get_filter: "dict_get (filter (\<lambda>x. fst x \<notin> S) d) k = (if k \<in> S then None else dict_get d k)"
  by (induction d) auto

lemma fold_del_position:
  "positions (foldl (\<lambda>K i. del_position i K) L ids) = filter (\<lambda>x. fst x \<notin> set ids) (positions L) \<and>
   foldl (\<lambda>K i. del_position i K) L ids = L\<lparr>positions := positions (foldl (\<lambda>K i. del_position i K) L ids)\<rparr>"
proof (induction ids arbitrary: L)
  case (Cons i ids)
  from Cons [of "del_position i L"] show ?case
    by (auto simp: del_position_def dict_del_def intro: filter_cong)
qed simp

lemma fold_del_inv: "ledger_inv L \<Longrightarrow> ledger_inv (foldl (\<lambda>K i. del_position i K) L ids)"
  by (induction ids arbitrary: L) (auto intro: ledger_inv_del)

lemma fold_del_fields [simp]:
  "capital_sequence (foldl (\<lambda>K i. del_position i K) L ids) = capital_sequence L"
  "capital_last_event_us (foldl (\<lambda>K i. del_position i K) L ids) = capital_last_event_us L"
  "asset_marks_usdt (foldl (\<lambda>K i. del_position i K) L ids) = asset_marks_usdt L"
  "free_usdt (foldl (\<lambda>K i. del_position i K) L ids) = free_usdt L"
  by (induction ids arbitrary: L) simp_all

lemma fold_del_sequence:
  "(foldl (\<lambda>K i. del_position i K) L ids)\<lparr>capital_sequence := n\<rparr> =
   foldl (\<lambda>K i. del_position i K) (L\<lparr>capital_sequence := n\<rparr>) ids"
proof (induction ids arbitrary: L)
  case (Cons i ids)
  have "(del_position i L)\<lparr>capital_sequence := n\<rparr> = del_position i (L\<lparr>capital_sequence := n\<rparr>)"
    by (simp add: del_position_def)
  with Cons [of "del_position i L"] show ?case by simp
qed simp

lemma those_get:
  "those (map (dict_get d) ids) = Some rows \<Longrightarrow> r \<in> set rows \<Longrightarrow> \<exists>cid \<in> set ids. dict_get d cid = Some r"
  by (induction ids arbitrary: rows) (auto split: option.splits)

lemma those_length: "those (map (dict_get d) ids) = Some rows \<Longrightarrow> length rows = length ids"
  by (induction ids arbitrary: rows) (auto split: option.splits)

lemma consolidate_inventory_step:
  assumes inv: "ledger_inv L"
  shows "atomic_step now L (consolidate_inventory ids pair_id asset now L)"
  unfolding consolidate_inventory_def Let_def
proof (intro step_causal step_if step_Raise refl)
  let ?ids = "fromkeys ids" and ?seq = "Suc (capital_sequence L)"
  let ?cid = "capital_id ?seq"
  let ?L1 = "foldl (\<lambda>K i. del_position i K) (L\<lparr>capital_sequence := ?seq\<rparr>) ?ids"
  assume time: "capital_last_event_us L \<le> now" and ne: "?ids \<noteq> []"
  show "atomic_step now L
     (case those (map (dict_get (positions L)) ?ids) of None \<Rightarrow> Raise KeyError L
      | Some rows \<Rightarrow> with_state (pair_state pair_id True False) L (\<lambda>st.
          if \<exists>r \<in> set rows. cap_pair_id r \<noteq> pair_id \<or> cap_asset r \<noteq> asset \<or> cap_state r \<noteq> st
          then Raise (ValueError ''M035_INVENTORY_CONSOLIDATION_MISMATCH'') L
          else committing now ?cid
                 (log_event (INVENTORY_CONSOLIDATED now ?cid ?ids pair_id asset (dsum (map cap_quantity rows)))
                   (set_position ?cid (consolidated ?cid pair_id asset st rows) ?L1))))"
  proof (cases "those (map (dict_get (positions L)) ?ids)")
    case (Some rows)
    have row: "position_ok (asset_marks_usdt L) (capital_last_event_us L) (cap_id r) r" if r: "r \<in> set rows" for r
    proof -
      obtain c where "dict_get (positions L) c = Some r" using those_get [OF Some r] by blast
      from inv_position [OF inv this] show ?thesis by (simp add: position_ok_def)
    qed
    have nonneg: "\<forall>r \<in> set rows. 0 \<le> cap_cost_basis r \<and> 0 \<le> cap_marked_value r \<and> 0 \<le> cap_quantity r"
      using row by (simp add: position_ok_def)
    have "rows \<noteq> []" using those_length [OF Some] ne by auto
    then obtain r0 where r0: "r0 \<in> set rows" by (cases rows) auto
    show ?thesis unfolding Some option.simps
    proof (cases "pair_state pair_id True False")
      case (Inr st)
      have "ledger_inv (set_position ?cid (consolidated ?cid pair_id asset st rows) ?L1)"
        if same: "\<forall>r \<in> set rows. cap_pair_id r = pair_id \<and> cap_asset r = asset \<and> cap_state r = st"
      proof -
        have "has_key (asset_marks_usdt L) asset" using row [OF r0] same r0 by (auto simp: position_ok_def)
        then have ok: "position_ok (asset_marks_usdt L) (capital_last_event_us L) ?cid (consolidated ?cid pair_id asset st rows)"
          using pair_state_cases [OF Inr] Inr nonneg
          by (auto simp: position_ok_def consolidated_def intro!: dsum_nonneg)
        show ?thesis
          using ledger_inv_open [OF fold_del_inv [OF inv, of ?ids], of "consolidated ?cid pair_id asset st rows" ?L1] ok
          by (simp add: fold_del_sequence)
      qed
      then show "atomic_step now L (with_state (pair_state pair_id True False) L (\<lambda>st.
          if \<exists>r \<in> set rows. cap_pair_id r \<noteq> pair_id \<or> cap_asset r \<noteq> asset \<or> cap_state r \<noteq> st
          then Raise (ValueError ''M035_INVENTORY_CONSOLIDATION_MISMATCH'') L
          else committing now ?cid
                 (log_event (INVENTORY_CONSOLIDATED now ?cid ?ids pair_id asset (dsum (map cap_quantity rows)))
                   (set_position ?cid (consolidated ?cid pair_id asset st rows) ?L1))))"
        unfolding Inr with_state_def sum.case
        by (intro step_if step_Raise refl step_committing time) auto
    qed (simp add: with_state_def step_Raise)
  qed (simp add: step_Raise)
qed

lemma register_risk_exit_authorization_step:
  assumes inv: "ledger_inv L"
  shows "atomic_step now L (register_risk_exit_authorization a now L)"
  unfolding register_risk_exit_authorization_def
proof (intro step_causal step_position step_if step_Raise refl)
  let ?ev = "RISK_EXIT_AUTHORIZED now (auth_id a) (auth_capital_id a) (auth_rule_hash a)"
  let ?A = "L\<lparr>risk_exit_authorizations := dict_set (auth_id a) a (risk_exit_authorizations L)\<rparr>"
  assume time: "capital_last_event_us L \<le> now"
  have "ledger_inv ?A" using inv unfolding ledger_inv_def by auto
  then have "ledger_inv ((log_event ?ev ?A)\<lparr>capital_last_event_us := now\<rparr>)"
    using time by (intro ledger_inv_time) simp_all
  then show "atomic_step now L (Return () ((log_event ?ev ?A)\<lparr>capital_last_event_us := now\<rparr>))"
    using time by (simp add: step_ok_def)
qed

lemma update_mark_step:
  assumes inv: "ledger_inv L"
  shows "atomic_step now L (update_mark cid mark now L)"
  unfolding update_mark_def Let_def
proof (intro step_causal step_position step_if step_committing refl inv)
  fix p :: capital_position
  let ?p = "p\<lparr>cap_marked_value := dmul (cap_quantity p) mark\<rparr>"
  assume p: "dict_get (positions L) cid = Some p" and m: "\<not> mark \<le> 0"
  have nonneg: "0 \<le> dmul (cap_quantity p) mark"
    using inv_position [OF inv p] m by (intro dmul_nonneg) (simp_all add: position_ok_def)
  then show "ledger_inv (set_position cid ?p L)"
    using inv_position [OF inv p] by (intro ledger_inv_set [OF inv p]) (auto simp: position_ok_def)
  assume "cap_marked_value ?p < 0"
  then show "atomic_step now L (Raise (ValueError ''M035_MARK_BELOW_ATTRIBUTABLE_COST'') (set_position cid ?p L))"
    using nonneg by simp
qed (simp_all add: step_Raise)

lemma remark_fields [simp]:
  "cap_id (remark asset mark p) = cap_id p" "cap_pair_id (remark asset mark p) = cap_pair_id p"
  "cap_state (remark asset mark p) = cap_state p" "cap_cost_basis (remark asset mark p) = cap_cost_basis p"
  "cap_asset (remark asset mark p) = cap_asset p" "cap_quantity (remark asset mark p) = cap_quantity p"
  "cap_cancel_requested_at_us (remark asset mark p) = cap_cancel_requested_at_us p"
  by (simp_all add: remark_def)

lemma has_key_map_values [simp]: "has_key (map_values f d) k = has_key d k"
  by (simp add: has_key_def)

lemma update_asset_mark_step:
  assumes inv: "ledger_inv L"
  shows "atomic_step now L (update_asset_mark asset mark now L)"
  unfolding update_asset_mark_def
proof (intro step_causal step_if step_committing step_Raise refl)
  let ?U = "L\<lparr>positions := map_values (remark asset mark) (positions L),
      asset_marks_usdt := dict_set asset mark (asset_marks_usdt L)\<rparr>"
  assume g: "\<not> (asset = [] \<or> mark \<le> 0)"
  have invm: "ledger_inv (L\<lparr>asset_marks_usdt := dict_set asset mark (asset_marks_usdt L)\<rparr>)"
    using g by (intro ledger_inv_mark [OF inv]) simp
  have "position_ok (dict_set asset mark (asset_marks_usdt L)) (capital_last_event_us L) cid (remark asset mark p)"
    if p: "dict_get (positions L) cid = Some p" for cid p
  proof -
    have "0 \<le> cap_marked_value (remark asset mark p)"
      using inv_position [OF inv p] g by (auto simp: position_ok_def remark_def intro: dmul_nonneg)
    then show ?thesis using inv_position [OF invm, of cid p] p by (simp add: position_ok_def)
  qed
  then have "ledger_inv ?U" using invm unfolding ledger_inv_def by auto
  then show "ledger_inv (log_event (CAUSAL_ASSET_MARK now asset mark) ?U)" by simp
qed simp_all

section \<open>Settlement and aggregated dust\<close>

abbreviation returning_step :: "int \<Rightarrow> capital_ledger \<Rightarrow> ('a, capital_ledger) outcome \<Rightarrow> bool" where
  "returning_step now L out \<equiv> step_ok (\<lambda>_. True) now L out"

lemma step_checked:
  assumes "capital_last_event_us L \<le> now"
    and "reconcile_error (L'\<lparr>capital_last_event_us := now\<rparr>) = None \<Longrightarrow> ledger_inv (L'\<lparr>capital_last_event_us := now\<rparr>)"
  shows "returning_step now L (committing now r L')"
  using assms by (cases "reconcile_error (L'\<lparr>capital_last_event_us := now\<rparr>)")
    (simp_all add: committing_def reconcile_def step_ok_def)

lemma reconciled_position:
  assumes "reconcile_error L = None" "dict_get (positions L) cid = Some p"
  shows "0 \<le> cap_cost_basis p" "0 \<le> cap_marked_value p"
  using assms get_in_values [OF assms(2)] by (auto simp: reconcile_error_def not_less split: if_splits)

lemma settlement_fields [simp]:
  "st_residual_quantity (settlement_of p sold proceeds) = dsub (cap_quantity p) sold"
  "st_realized (settlement_of p sold proceeds) =
     dsub (dsub (st_proceeds (settlement_of p sold proceeds)) (st_cost_basis (settlement_of p sold proceeds)))
       (st_attributable (settlement_of p sold proceeds))"
  by (simp_all add: settlement_of_def Let_def)

lemma closed_cycle_pnl:
  "cycle_net_pnl (closed_cycle cyc p (settlement_of p' sold proceeds) auth) = st_realized (settlement_of p' sold proceeds)"
  by (simp add: cycle_net_pnl_plain closed_cycle_def)

lemma loss_authorization_Inr:
  assumes "loss_authorization cid p s now aid done L = Inr auth"
  shows "(auth = None) = (0 \<le> st_realized s)"
    and "\<And>a. auth = Some a \<Longrightarrow> \<exists>i. aid = Some i \<and> dict_get (risk_exit_authorizations L) i = Some a \<and>
        auth_capital_id a = cid \<and> auth_pair_id a = cap_pair_id p \<and>
        auth_decided_at_us a \<le> now \<and> now \<le> auth_expires_at_us a \<and>
        i \<notin> set (consumed_authorizations L) \<and> dneg (st_realized s) \<le> auth_loss_if_exit_now_usdt a \<and>
        (done \<longrightarrow> st_sold_quantity s = auth_quantity a)"
  using assms unfolding loss_authorization_def
  by (cases aid; cases "dict_get (risk_exit_authorizations L) (the aid)";
      auto split: if_splits)+

lemma cycles_ok_record:
  assumes ok: "cycles_ok cs consumed" and rec: "record_cycle c cs = Return r cs'"
    and sign: "cycle_risk_exit c \<longleftrightarrow> cycle_net_pnl c < 0"
    and auth: "case auth of None \<Rightarrow> \<not> cycle_risk_exit c
        | Some a \<Rightarrow> cycle_risk_exit c \<and> auth_id a \<notin> set consumed"
  shows "cycles_ok cs' (case auth of None \<Rightarrow> consumed | Some a \<Rightarrow> List.insert (auth_id a) consumed)"
proof -
  have new: "dict_get cs (cycle_id c) = None" and cs': "cs' = dict_set (cycle_id c) c cs" and pair: "known_pair (cycle_pair_id c)"
    using rec by (auto simp: record_cycle_def has_key_iff split: if_splits)
  have app: "cs' = cs @ [(cycle_id c, c)]"
    unfolding cs' using new by (intro set_new_key) (simp add: map_of_eq_None_iff)
  have count: "length (filter cycle_risk_exit (dict_values cs')) =
      length (filter cycle_risk_exit (dict_values cs)) + (if cycle_risk_exit c then 1 else 0)"
    by (simp add: app)
  have look: "cycle_id c' = cyc \<and> known_pair (cycle_pair_id c') \<and> (cycle_risk_exit c' \<longleftrightarrow> cycle_net_pnl c' < 0)"
    if "dict_get cs' cyc = Some c'" for cyc c'
    using that ok sign pair unfolding cs' cycles_ok_def by (auto split: if_splits)
  have dist: "distinct (keys cs')" using ok unfolding cs' cycles_ok_def by simp
  show ?thesis
    using ok auth count look dist unfolding cycles_ok_def by (cases auth) simp_all
qed

lemma consume_authorization_fields:
  "consume_authorization auth L = L\<lparr>consumed_authorizations :=
     (case auth of None \<Rightarrow> consumed_authorizations L
      | Some a \<Rightarrow> List.insert (auth_id a) (consumed_authorizations L))\<rparr>"
  by (cases auth) (simp_all add: consume_authorization_def)

lemma settle_complete_step:
  fixes p :: capital_position
  assumes inv: "ledger_inv L" and p: "dict_get (positions L) cid = Some p"
    and time: "capital_last_event_us L \<le> now"
    and auth: "loss_authorization cid p (settlement_of p sold proceeds) now aid True L = Inr auth"
  shows "returning_step now L
    (settle_complete cid p (settlement_of p sold proceeds) cyc rmark now aid auth L)"
proof (cases "record_cycle (closed_cycle cyc p (settlement_of p sold proceeds) auth) (cycles L)")
  case (Return r cs)
  let ?s = "settlement_of p sold proceeds"
  let ?C = "consume_authorization auth (L\<lparr>cycles := cs\<rparr>)"
  note a = loss_authorization_Inr [OF auth]
  have exits: "cycle_risk_exit (closed_cycle cyc p ?s auth) \<longleftrightarrow> auth \<noteq> None"
    by (simp add: closed_cycle_def)
  have "cycles_ok cs (case auth of None \<Rightarrow> consumed_authorizations L
      | Some a \<Rightarrow> List.insert (auth_id a) (consumed_authorizations L))"
  proof (rule cycles_ok_record [OF inv_cycles [OF inv] Return])
    show "cycle_risk_exit (closed_cycle cyc p ?s auth) = (cycle_net_pnl (closed_cycle cyc p ?s auth) < 0)"
      unfolding exits closed_cycle_pnl using a(1) by auto
    show "case auth of None \<Rightarrow> \<not> cycle_risk_exit (closed_cycle cyc p ?s auth)
        | Some a \<Rightarrow> cycle_risk_exit (closed_cycle cyc p ?s auth) \<and> auth_id a \<notin> set (consumed_authorizations L)"
      unfolding exits using a(2) inv_authorizations [OF inv] by (cases auth) auto
  qed
  then have invC: "ledger_inv ?C"
    using inv unfolding ledger_inv_def consume_authorization_fields by (cases auth) simp_all
  have pC: "dict_get (positions ?C) cid = Some p" using p by (simp add: consume_authorization_fields)
  have timeC: "capital_last_event_us ?C = capital_last_event_us L" by (simp add: consume_authorization_fields)
  show ?thesis
  proof (cases "residual_dust cid p ?s cyc now (del_position cid ?C)")
    case (Return u L1)
    have "ledger_inv (L1\<lparr>capital_last_event_us := now\<rparr>)"
    proof (cases "0 < st_residual_quantity ?s")
      case True
      let ?lot = "\<lparr>lot_capital_id = cid, lot_pair_id = cap_pair_id p, lot_asset = cap_asset p,
             lot_quantity = st_residual_quantity ?s,
             lot_cost_basis_usdt = dadd (st_residual_cost_basis ?s) (st_residual_attributable ?s),
             lot_source_cycles = fromkeys (cap_source_cycles p @ [cyc]), lot_created_at_us = now\<rparr>"
      obtain lots where lots: "dust_add ?lot (dust_lots ?C) = Return () lots"
        "L1 = (del_position cid ?C)\<lparr>dust_lots := lots\<rparr>"
        using Return True by (auto simp: residual_dust_def add_dust_Return del_position_def)
      have "ledger_inv ((del_position cid (?C\<lparr>dust_lots := lots\<rparr>))\<lparr>capital_last_event_us := now\<rparr>)"
        using time timeC by (intro ledger_inv_to_dust [OF invC pC _ lots(1)]) simp_all
      moreover have "del_position cid (?C\<lparr>dust_lots := lots\<rparr>) = L1"
        unfolding lots(2) by (simp add: del_position_def)
      ultimately show ?thesis by simp
    next
      case False
      then have "L1 = del_position cid ?C" using Return by (simp add: residual_dust_def)
      then show ?thesis using time timeC by (simp add: ledger_inv_time ledger_inv_del invC)
    qed
    then show ?thesis
      unfolding settle_complete_def \<open>record_cycle _ _ = _\<close> outcome.case Return and_then.simps
      by (intro step_committing_now time) (simp add: log_event_time)
  qed (simp add: settle_complete_def \<open>record_cycle _ _ = _\<close> step_Raise)
qed (simp add: settle_complete_def step_Raise)

end
