(* ===== verification/M035_Ledger_Ops.thy ===== *)
theory M035_Ledger_Ops
  imports M035_Ledger_Inv
begin

text \<open>
  The shared-capital ledger as a component driven by operations: the two remaining methods
  (settlement and dust aggregation), the datatype of operations, and the interpretations of
  the component contracts. Operations other than settlements and aggregations are atomic: a
  client that catches their exceptions sees the ledger unchanged.
\<close>

section \<open>Settlement\<close>

lemma settle_partial_step:
  fixes p :: capital_position
  assumes inv: "ledger_inv L" and p: "dict_get (positions L) cid = Some p"
    and time: "capital_last_event_us L \<le> now" and sold: "sold \<le> cap_quantity p"
    and state: "cap_state p \<in> {RETURN_PAIR_A, RETURN_PAIR_B}"
  shows "returning_step now L (settle_partial cid p (settlement_of p sold proceeds) cyc sold proceeds now L)"
proof -
  let ?s = "settlement_of p sold proceeds"
  obtain mark where mark: "dict_get (asset_marks_usdt L) (cap_asset p) = Some mark"
    using inv_position [OF inv p] by (auto simp: position_ok_def has_key_iff)
  let ?p = "p\<lparr>cap_quantity := st_residual_quantity ?s, cap_cost_basis := st_residual_cost_basis ?s,
      cap_attributable_costs := st_residual_attributable ?s,
      cap_marked_value := dmul (st_residual_quantity ?s) mark,
      cap_returned_proceeds := st_proceeds ?s, cap_returned_quantity := st_sold_quantity ?s,
      cap_returned_cost_basis := st_cost_basis ?s,
      cap_returned_attributable_costs := st_attributable ?s,
      cap_pending_cycle_id := Some cyc\<rparr>"
  let ?ev = "RETURN_PARTIAL_FILL_SETTLED now cid cyc sold proceeds (st_residual_quantity ?s)"
  let ?F = "(log_event ?ev (set_position cid ?p L))\<lparr>capital_last_event_us := now\<rparr>"
  have "ledger_inv ?F" if rec: "reconcile_error ?F = None"
  proof -
    have "0 \<le> cap_cost_basis ?p" "0 \<le> cap_marked_value ?p"
      using reconciled_position [OF rec, of cid ?p] by simp_all
    then have "position_ok (asset_marks_usdt L) (capital_last_event_us L) cid ?p"
      using inv_position [OF inv p] state sold by (auto simp: position_ok_def)
    from ledger_inv_set [OF inv p this] show ?thesis
      using time by (intro ledger_inv_time) simp_all
  qed
  then have "returning_step now L
      (committing now (dsub (dsub proceeds (st_sold_cost_basis ?s)) (st_sold_attributable ?s))
        (log_event ?ev (set_position cid ?p L)))"
    by (intro step_checked time)
  moreover have "settle_partial cid p ?s cyc sold proceeds now L =
      committing now (dsub (dsub proceeds (st_sold_cost_basis ?s)) (st_sold_attributable ?s))
        (log_event ?ev (set_position cid ?p L))"
    by (simp add: settle_partial_def mark Let_def)
  ultimately show ?thesis by (simp only:)
qed

lemma loss_authorization_frame:
  "risk_exit_authorizations L' = risk_exit_authorizations L \<Longrightarrow>
     consumed_authorizations L' = consumed_authorizations L \<Longrightarrow>
     loss_authorization cid p s now aid done L' = loss_authorization cid p s now aid done L"
  by (simp only: loss_authorization_def)

lemma step_from:
  "capital_last_event_us L1 = capital_last_event_us L \<Longrightarrow> step_ok Q now L1 out \<Longrightarrow> step_ok Q now L out"
  by (simp only: step_ok_def)

lemma settle_return_step:
  assumes inv: "ledger_inv L"
  shows "returning_step now L (settle_return cid cyc sold proceeds rmark now aid done L)"
  unfolding settle_return_def Let_def
proof (intro step_causal step_position step_if step_Raise TrueI)
  fix p :: capital_position
  let ?s = "settlement_of p sold proceeds"
  let ?L1 = "L\<lparr>free_usdt := dadd (free_usdt L) proceeds,
      realized_pnl_usdt := dadd (realized_pnl_usdt L) (st_fill_realized ?s)\<rparr>"
  assume time: "capital_last_event_us L \<le> now" and p: "dict_get (positions L) cid = Some p"
    and st: "\<not> cap_state p \<notin> {RETURN_PAIR_A, RETURN_PAIR_B}"
    and g: "\<not> (sold \<le> 0 \<or> cap_quantity p < sold \<or> proceeds < 0 \<or> rmark < 0)"
  have inv1: "ledger_inv ?L1"
    using g by (simp add: ledger_inv_free [OF inv] dadd_nonneg inv_free [OF inv])
  have p1: "dict_get (positions ?L1) cid = Some p" using p by simp
  show "returning_step now L
      (case loss_authorization cid p ?s now aid done L of
         Inl e \<Rightarrow> Raise e L
       | Inr auth \<Rightarrow>
           if done \<and> 0 < st_residual_quantity ?s \<and> rmark \<le> 0
           then Raise (ValueError ''M035_RESIDUAL_MARK_REQUIRED'') L
           else if done then settle_complete cid p ?s cyc rmark now aid auth ?L1
           else settle_partial cid p ?s cyc sold proceeds now ?L1)"
  proof (cases "loss_authorization cid p ?s now aid done L")
    case (Inr auth)
    have "returning_step now L (settle_complete cid p ?s cyc rmark now aid auth ?L1)" if "done"
      using Inr that time loss_authorization_frame [of ?L1 L cid p ?s now aid True]
      by (intro step_from [OF _ settle_complete_step [OF inv1 p1]]) simp_all
    moreover have "returning_step now L (settle_partial cid p ?s cyc sold proceeds now ?L1)"
      using g st time by (intro step_from [OF _ settle_partial_step [OF inv1 p1]]) auto
    ultimately have "returning_step now L
        (if done then settle_complete cid p ?s cyc rmark now aid auth ?L1
         else settle_partial cid p ?s cyc sold proceeds now ?L1)"
      by (intro step_if)
    then show ?thesis unfolding Inr sum.case by (intro step_if step_Raise TrueI) auto
  qed (simp add: step_Raise)
qed

section \<open>Aggregated dust\<close>

lemma reserve_aggregated_dust_step:
  assumes inv: "ledger_inv L"
  shows "returning_step now L (reserve_aggregated_dust pair_id asset quantity mark now L)"
  unfolding reserve_aggregated_dust_def Let_def
proof (intro step_causal step_if step_Raise TrueI)
  assume time: "capital_last_event_us L \<le> now" and m: "\<not> mark \<le> 0"
  let ?new = "capital_id (Suc (capital_sequence L))"
  show "returning_step now L
      (case dust_consume asset quantity pair_id now (dust_lots L) of
         Return c lots \<Rightarrow>
           with_state (pair_state pair_id False True)
             (L\<lparr>dust_lots := lots, capital_sequence := Suc (capital_sequence L)\<rparr>)
             (\<lambda>st. committing now ?new (log_event (DUST_AGGREGATED_FOR_RETURN now ?new asset quantity)
                (set_position ?new
                  ((new_position ?new pair_id st (consumed_cost_basis_usdt c) (dmul quantity mark) asset
                      quantity now ''DUST_AGGREGATION'')
                   \<lparr>cap_source_capital_ids := consumed_source_capital_ids c,
                    cap_source_cycles := consumed_source_cycles c\<rparr>)
                  (L\<lparr>dust_lots := lots, capital_sequence := Suc (capital_sequence L)\<rparr>))))
       | Raise e lots \<Rightarrow> Raise e (L\<lparr>dust_lots := lots\<rparr>))"
  proof (cases "dust_consume asset quantity pair_id now (dust_lots L)")
    case (Return c lots)
    note d = dust_consume_inv [OF inv_dust_inv [OF inv] Return]
    have q: "0 < quantity" by (rule dust_consume_Return(1) [OF Return])
    have invD: "ledger_inv (L\<lparr>dust_lots := lots\<rparr>)"
    proof (rule ledger_inv_dust [OF inv d(1)], rule ballI)
      fix l assume l: "l \<in> set lots"
      obtain l1 where l1: "l1 \<in> set (dust_lots L)" "lot_capital_id l = lot_capital_id l1"
        "lot_asset l = lot_asset l1" using d(7) [OF l] by (elim bexE conjE)
      show "issued (capital_sequence L) (lot_capital_id l) \<and>
          dict_get (positions L) (lot_capital_id l) = None \<and> has_key (asset_marks_usdt L) (lot_asset l)"
        unfolding l1(2,3) by (rule inv_dust [OF inv l1(1)])
    qed
    have mk: "has_key (asset_marks_usdt L) asset" using d(8) inv_dust [OF inv] by (elim bexE) auto
    show ?thesis unfolding Return outcome.case
    proof (intro step_state d(3) step_committing time)
      fix st
      let ?p = "(new_position ?new pair_id st (consumed_cost_basis_usdt c) (dmul quantity mark) asset
                      quantity now ''DUST_AGGREGATION'')
                   \<lparr>cap_source_capital_ids := consumed_source_capital_ids c,
                    cap_source_cycles := consumed_source_cycles c\<rparr>"
      let ?K = "L\<lparr>dust_lots := lots, capital_sequence := Suc (capital_sequence L)\<rparr>"
      assume st: "pair_state pair_id False True = Inr st"
      have "0 \<le> dmul quantity mark" using q m by (intro dmul_nonneg) simp_all
      then have "position_ok (asset_marks_usdt L) (capital_last_event_us L) ?new ?p"
        using pair_state_cases [OF st] d(5) q mk exI [of "\<lambda>i. \<exists>r. pair_state pair_id i r = Inr st", OF exI, OF st]
        by (auto simp: position_ok_def)
      then show "ledger_inv (log_event (DUST_AGGREGATED_FOR_RETURN now ?new asset quantity) (set_position ?new ?p ?K))"
        using ledger_inv_open [OF invD, of ?p ?K] by simp
    qed simp
  qed (simp add: step_Raise)
qed

section \<open>Operations\<close>

datatype (plugins only: code size) capital_op =
    Reserve allocation_candidate decimal int
  | RequestCancel string int
  | AcknowledgeCancel string int
  | EntryFill string string decimal decimal decimal int "decimal option"
  | ReserveOwnedReturn string int
  | MoveToDust string int string
  | Consolidate "string list" string string int
  | RegisterAuthorization risk_exit_authorization int
  | SettleReturn string string decimal decimal decimal int "string option" bool
  | AggregateDust string string decimal decimal int
  | UpdateMark string decimal int
  | UpdateAssetMark string decimal int

datatype capital_result = CapitalId string | Amount decimal | Done

text \<open>The frozen arguments of two operations are constructed, and checked, by the caller.\<close>

definition constructing ::
    "py_error + 'a \<Rightarrow> 's \<Rightarrow> ('a \<Rightarrow> ('b, 's) outcome) \<Rightarrow> ('b, 's) outcome" where
  "constructing x s k = (case x of Inl e \<Rightarrow> Raise e s | Inr a \<Rightarrow> k a)"

fun exec_capital :: "capital_op \<Rightarrow> capital_ledger \<Rightarrow> (capital_result, capital_ledger) outcome" where
  "exec_capital (Reserve c amount now) L =
     constructing (new_candidate c) L (\<lambda>c'. returning CapitalId (reserve c' amount now L))"
| "exec_capital (RequestCancel cid now) L = returning (\<lambda>_. Done) (request_cancel cid now L)"
| "exec_capital (AcknowledgeCancel cid now) L = returning Amount (acknowledge_cancel cid now L)"
| "exec_capital (EntryFill cid asset quantity mark cost now input_usdt) L =
     returning CapitalId (record_entry_fill cid asset quantity mark cost now input_usdt L)"
| "exec_capital (ReserveOwnedReturn cid now) L = returning (\<lambda>_. Done) (reserve_owned_return cid now L)"
| "exec_capital (MoveToDust cid now reason) L =
     returning (\<lambda>_. Done) (move_untradeable_inventory_to_dust cid now reason L)"
| "exec_capital (Consolidate ids pair_id asset now) L =
     returning CapitalId (consolidate_inventory ids pair_id asset now L)"
| "exec_capital (RegisterAuthorization a now) L =
     constructing (new_authorization a) L (\<lambda>a'. returning (\<lambda>_. Done) (register_risk_exit_authorization a' now L))"
| "exec_capital (SettleReturn cid cyc sold proceeds rmark now aid order_done) L =
     returning Amount (settle_return cid cyc sold proceeds rmark now aid order_done L)"
| "exec_capital (AggregateDust pair_id asset quantity mark now) L =
     returning CapitalId (reserve_aggregated_dust pair_id asset quantity mark now L)"
| "exec_capital (UpdateMark cid mark now) L = returning (\<lambda>_. Done) (update_mark cid mark now L)"
| "exec_capital (UpdateAssetMark asset mark now) L = returning (\<lambda>_. Done) (update_asset_mark asset mark now L)"

fun capital_op_time :: "capital_op \<Rightarrow> int" where
  "capital_op_time (Reserve _ _ now) = now"
| "capital_op_time (RequestCancel _ now) = now"
| "capital_op_time (AcknowledgeCancel _ now) = now"
| "capital_op_time (EntryFill _ _ _ _ _ now _) = now"
| "capital_op_time (ReserveOwnedReturn _ now) = now"
| "capital_op_time (MoveToDust _ now _) = now"
| "capital_op_time (Consolidate _ _ _ now) = now"
| "capital_op_time (RegisterAuthorization _ now) = now"
| "capital_op_time (SettleReturn _ _ _ _ _ now _ _) = now"
| "capital_op_time (AggregateDust _ _ _ _ now) = now"
| "capital_op_time (UpdateMark _ _ now) = now"
| "capital_op_time (UpdateAssetMark _ _ now) = now"

fun settles :: "capital_op \<Rightarrow> bool" where
  "settles (SettleReturn _ _ _ _ _ _ _ _) = True"
| "settles (AggregateDust _ _ _ _ _) = True"
| "settles _ = False"

lemma step_returning: "step_ok Q now L (returning f m) = step_ok Q now L m"
  by (cases m) (simp_all add: step_ok_def returning_def)

lemma step_weaken: "atomic_step now L m \<Longrightarrow> returning_step now L m"
  by (cases m) (simp_all add: step_ok_def)

lemma step_constructing:
  "Q L' \<Longrightarrow> (\<And>a. x = Inr a \<Longrightarrow> step_ok Q now L (k a)) \<Longrightarrow> step_ok Q now L (constructing x L' k)"
  by (cases x) (simp_all add: constructing_def step_Raise)

lemmas atomic_steps = reserve_step request_cancel_step acknowledge_cancel_step record_entry_fill_step
  reserve_owned_return_step move_untradeable_inventory_to_dust_step consolidate_inventory_step
  register_risk_exit_authorization_step update_mark_step update_asset_mark_step

lemma exec_capital_atomic:
  "ledger_inv L \<Longrightarrow> \<not> settles op \<Longrightarrow> atomic_step (capital_op_time op) L (exec_capital op L)"
  by (cases op)
    (auto simp: step_returning intro!: atomic_steps step_constructing dest: new_candidate_Inr)

lemma exec_capital_step:
  assumes inv: "ledger_inv L"
  shows "returning_step (capital_op_time op) L (exec_capital op L)"
proof (cases "settles op")
  case True
  then show ?thesis
    by (cases op) (simp_all add: step_returning settle_return_step inv reserve_aggregated_dust_step)
qed (auto intro: step_weaken exec_capital_atomic inv)

lemma exec_capital_Return:
  "ledger_inv L \<Longrightarrow> exec_capital op L = Return r L' \<Longrightarrow>
     ledger_inv L' \<and> capital_last_event_us L \<le> capital_op_time op \<and>
     capital_last_event_us L' = capital_op_time op"
  using exec_capital_step [of L op] by (simp add: step_ok_def)

lemma exec_capital_Raise:
  "ledger_inv L \<Longrightarrow> \<not> settles op \<Longrightarrow> exec_capital op L = Raise e L' \<Longrightarrow> L' = L"
  using exec_capital_atomic [of L op] by (simp add: step_ok_def)

section \<open>Contracts\<close>

interpretation capital_clock: causal_ops exec_capital ledger_inv capital_last_event_us capital_op_time
  by unfold_locales (auto dest: exec_capital_Return)

text \<open>The atomic operations, as the operations of a client that never settles.\<close>

definition exec_atomic :: "capital_op \<Rightarrow> capital_ledger \<Rightarrow> (capital_result, capital_ledger) outcome" where
  "exec_atomic op L = (if settles op then Raise AssertionError L else exec_capital op L)"

interpretation capital_atomic: atomic_ops exec_atomic ledger_inv
  by unfold_locales (auto simp: exec_atomic_def dest: exec_capital_Return exec_capital_Raise split: if_splits)

end
