(* ===== verification/M035_Ledger_Facts.thy ===== *)
theory M035_Ledger_Facts
  imports M035_Ledger_Ops
begin

text \<open>
  What the shared-capital ledger guarantees: the state every returning method leaves, where
  free capital can come from, the conservation of book value, the zero-loss rule for
  ordinary cycles, and unique ownership.
\<close>

section \<open>What a returning method leaves\<close>

lemma committing_Return:
  "committing now r L = Return r' L' \<longleftrightarrow>
     r' = r \<and> reconcile_error (L\<lparr>capital_last_event_us := now\<rparr>) = None \<and> L' = L\<lparr>capital_last_event_us := now\<rparr>"
  by (auto simp: committing_def reconcile_def split: option.splits)

lemma capital_causal_Return:
  "capital_causal now L = Return u L' \<longleftrightarrow> capital_last_event_us L \<le> now \<and> L' = L"
  by (auto simp: capital_causal_def)

lemma causal_then_Return:
  "and_then (capital_causal now L) k = Return r L' \<longleftrightarrow> capital_last_event_us L \<le> now \<and> k () L = Return r L'"
  by (auto simp: capital_causal_def)

lemma then_committing_Return:
  "and_then m (\<lambda>i L1. committing now i (f i L1)) = Return r L' \<longleftrightarrow>
     (\<exists>L1. m = Return r L1 \<and> reconcile_error ((f r L1)\<lparr>capital_last_event_us := now\<rparr>) = None \<and>
        L' = (f r L1)\<lparr>capital_last_event_us := now\<rparr>)"
  by (auto simp: committing_Return)

lemma with_position_Return:
  "with_position cid L k = Return r L' \<longleftrightarrow> (\<exists>p. dict_get (positions L) cid = Some p \<and> k p = Return r L')"
  by (cases "dict_get (positions L) cid") (auto simp: with_position_def)

lemma with_state_Return:
  "with_state st L k = Return r L' \<longleftrightarrow> (\<exists>s. st = Inr s \<and> k s = Return r L')"
  by (cases st) (auto simp: with_state_def)

lemma if_Raise_Return:
  "(if b then Raise e L else m) = Return r L' \<longleftrightarrow> \<not> b \<and> m = Return r L'"
  by auto

lemmas returns = causal_then_Return committing_Return with_position_Return with_state_Return if_Raise_Return

lemma reserve_Return:
  assumes "reserve c amount now L = Return cid L'"
  obtains st where "pair_state (cand_pair_id c) False False = Inr st" "0 < amount"
    "amount \<le> cand_requested_usdt c" "amount \<le> free_usdt L" "cid = capital_id (Suc (capital_sequence L))"
    "L' = (log_event (CAPITAL_RESERVED now cid (cand_pair_id c) amount)
            (set_position cid (new_position cid (cand_pair_id c) st amount amount ''USDT'' amount now (cand_id c))
              (L\<lparr>capital_sequence := Suc (capital_sequence L), free_usdt := dsub (free_usdt L) amount\<rparr>)))
            \<lparr>capital_last_event_us := now\<rparr>"
  using assms unfolding reserve_def Let_def returns by (elim exE conjE) (rule that; simp)

lemma request_cancel_Return:
  assumes "request_cancel cid now L = Return u L'"
  obtains p where "dict_get (positions L) cid = Some p" "cap_state p \<in> {RESERVED_PAIR_A, RESERVED_PAIR_B}"
    "L' = (log_event (CANCEL_REQUEST now cid) (set_position cid
             (p\<lparr>cap_state := CANCEL_PENDING, cap_cancel_requested_at_us := Some now\<rparr>) L))\<lparr>capital_last_event_us := now\<rparr>"
  using assms unfolding request_cancel_def returns by (elim exE conjE) (rule that; simp)

lemma acknowledge_cancel_Return:
  assumes "acknowledge_cancel cid now L = Return released L'"
  obtains p where "dict_get (positions L) cid = Some p" "cap_state p = CANCEL_PENDING" "cap_asset p = ''USDT''"
    "released = cap_marked_value p"
    "L' = (log_event (CANCEL_ACK now cid released)
            (del_position cid (L\<lparr>free_usdt := dadd (free_usdt L) released\<rparr>)))\<lparr>capital_last_event_us := now\<rparr>"
  using assms unfolding acknowledge_cancel_def Let_def returns by (elim exE conjE) (rule that; simp)

lemma reserve_owned_return_Return:
  assumes "reserve_owned_return cid now L = Return u L'"
  obtains p st where "dict_get (positions L) cid = Some p" "cap_state p \<in> {INVENTORY_PAIR_A, INVENTORY_PAIR_B}"
    "pair_state (cap_pair_id p) False True = Inr st"
    "L' = (log_event (OWNED_RETURN_RESERVED now cid) (set_position cid (p\<lparr>cap_state := st\<rparr>) L))
            \<lparr>capital_last_event_us := now\<rparr>"
  using assms unfolding reserve_owned_return_def returns by (elim exE conjE) (rule that; simp)

definition consumed_input :: "capital_position \<Rightarrow> decimal option \<Rightarrow> decimal" where
  "consumed_input p input_usdt = (case input_usdt of None \<Rightarrow> cap_cost_basis p | Some u \<Rightarrow> u)"

lemma record_entry_fill_Return:
  assumes "record_entry_fill cid asset quantity mark cost now input_usdt L = Return inv_id L'"
  obtains (split) p st where "dict_get (positions L) cid = Some p"
      "cap_state p \<in> {RESERVED_PAIR_A, RESERVED_PAIR_B, CANCEL_PENDING}"
      "0 < quantity" "0 < mark" "0 \<le> cost" "cost \<le> free_usdt L"
      "0 < consumed_input p input_usdt" "consumed_input p input_usdt < cap_cost_basis p"
      "inv_id = capital_id (Suc (capital_sequence L))" "pair_state (cap_pair_id p) True False = Inr st"
      "L' = (log_event (ENTRY_FILL now cid inv_id asset quantity (consumed_input p input_usdt)
               (dsub (cap_cost_basis p) (consumed_input p input_usdt)))
              (paid_entry asset mark cost (set_position inv_id
                 ((new_position inv_id (cap_pair_id p) st (consumed_input p input_usdt) (dmul quantity mark)
                     asset quantity now (cap_source_candidate_id p))
                   \<lparr>cap_source_capital_ids := [cid], cap_attributable_costs := cost\<rparr>)
                 (set_position cid
                   (p\<lparr>cap_cost_basis := dsub (cap_cost_basis p) (consumed_input p input_usdt),
                      cap_marked_value := dsub (cap_cost_basis p) (consumed_input p input_usdt),
                      cap_quantity := dsub (cap_cost_basis p) (consumed_input p input_usdt)\<rparr>)
                   (L\<lparr>capital_sequence := Suc (capital_sequence L)\<rparr>)))))\<lparr>capital_last_event_us := now\<rparr>"
  | (whole) p st where "dict_get (positions L) cid = Some p"
      "cap_state p \<in> {RESERVED_PAIR_A, RESERVED_PAIR_B, CANCEL_PENDING}"
      "0 < quantity" "0 < mark" "0 \<le> cost" "cost \<le> free_usdt L"
      "consumed_input p input_usdt = cap_cost_basis p"
      "inv_id = cid" "pair_state (cap_pair_id p) True False = Inr st"
      "L' = (log_event (ENTRY_FILL now cid inv_id asset quantity (consumed_input p input_usdt)
               (dsub (cap_cost_basis p) (consumed_input p input_usdt)))
              (paid_entry asset mark cost (set_position cid
                 (p\<lparr>cap_state := st, cap_asset := asset, cap_quantity := quantity,
                    cap_marked_value := dmul quantity mark,
                    cap_attributable_costs := dadd (cap_attributable_costs p) cost\<rparr>) L)))
              \<lparr>capital_last_event_us := now\<rparr>"
proof -
  obtain p L1 where p: "dict_get (positions L) cid = Some p"
    and st: "\<not> cap_state p \<notin> {RESERVED_PAIR_A, RESERVED_PAIR_B, CANCEL_PENDING}"
    and g: "\<not> (quantity \<le> 0 \<or> mark \<le> 0 \<or> cost < 0 \<or> consumed_input p input_usdt \<le> 0 \<or>
        cap_cost_basis p < consumed_input p input_usdt)" "\<not> free_usdt L < cost"
    and entry: "(if 0 < dsub (cap_cost_basis p) (consumed_input p input_usdt)
        then split_entry cid p asset quantity (dmul quantity mark) (consumed_input p input_usdt) cost now L
        else whole_entry cid p asset quantity (dmul quantity mark) cost L) = Return inv_id L1"
    and L': "L' = (log_event (ENTRY_FILL now cid inv_id asset quantity (consumed_input p input_usdt)
               (dsub (cap_cost_basis p) (consumed_input p input_usdt))) (paid_entry asset mark cost L1))
               \<lparr>capital_last_event_us := now\<rparr>"
    using assms
    unfolding record_entry_fill_def Let_def returns then_committing_Return consumed_input_def [symmetric] paid_entry_def [symmetric]
    by (elim exE conjE) (rule that; assumption)
  show thesis
  proof (cases "0 < dsub (cap_cost_basis p) (consumed_input p input_usdt)")
    case True
    then have "split_entry cid p asset quantity (dmul quantity mark) (consumed_input p input_usdt) cost now L = Return inv_id L1"
      using entry by simp
    then obtain ns where ns: "pair_state (cap_pair_id p) True False = Inr ns"
      and id: "inv_id = capital_id (Suc (capital_sequence L))"
      and L1: "L1 = set_position inv_id
                 ((new_position inv_id (cap_pair_id p) ns (consumed_input p input_usdt) (dmul quantity mark)
                     asset quantity now (cap_source_candidate_id p))
                   \<lparr>cap_source_capital_ids := [cid], cap_attributable_costs := cost\<rparr>)
                 (set_position cid
                   (p\<lparr>cap_cost_basis := dsub (cap_cost_basis p) (consumed_input p input_usdt),
                      cap_marked_value := dsub (cap_cost_basis p) (consumed_input p input_usdt),
                      cap_quantity := dsub (cap_cost_basis p) (consumed_input p input_usdt)\<rparr>)
                   (L\<lparr>capital_sequence := Suc (capital_sequence L)\<rparr>))"
      unfolding split_entry_def Let_def with_state_Return by auto
    show thesis
      by (rule split [OF p _ _ _ _ _ _ _ id ns L' [unfolded L1]]) (use st g True in simp_all)
  next
    case False
    then have "whole_entry cid p asset quantity (dmul quantity mark) cost L = Return inv_id L1"
      using entry by simp
    moreover have "consumed_input p input_usdt = cap_cost_basis p" using False g by simp
    ultimately obtain ns where ns: "pair_state (cap_pair_id p) True False = Inr ns"
      and id: "inv_id = cid" and c: "consumed_input p input_usdt = cap_cost_basis p"
      and L1: "L1 = set_position cid
                 (p\<lparr>cap_state := ns, cap_asset := asset, cap_quantity := quantity,
                    cap_marked_value := dmul quantity mark,
                    cap_attributable_costs := dadd (cap_attributable_costs p) cost\<rparr>) L"
      unfolding whole_entry_def with_state_Return by auto
    show thesis
      by (rule whole [OF p _ _ _ _ _ c id ns L' [unfolded L1]]) (use st g in simp_all)
  qed
qed

lemma move_untradeable_inventory_to_dust_Return:
  assumes "move_untradeable_inventory_to_dust cid now reason L = Return u L'"
  obtains p where "dict_get (positions L) cid = Some p" "cap_state p \<in> {INVENTORY_PAIR_A, INVENTORY_PAIR_B}"
    "cap_asset p \<noteq> ''USDT''" "0 < cap_quantity p"
    "L' = (log_event (UNTRADEABLE_INVENTORY_MOVED_TO_DUST now cid (cap_pair_id p) (cap_asset p) (cap_quantity p) reason)
             (del_position cid (L\<lparr>dust_lots := dust_lots L @
                [\<lparr>lot_capital_id = cid, lot_pair_id = cap_pair_id p, lot_asset = cap_asset p,
                  lot_quantity = cap_quantity p,
                  lot_cost_basis_usdt = dadd (cap_cost_basis p) (cap_attributable_costs p),
                  lot_source_cycles = cap_source_cycles p, lot_created_at_us = now\<rparr>]\<rparr>)))
             \<lparr>capital_last_event_us := now\<rparr>"
  using assms
  unfolding move_untradeable_inventory_to_dust_def returns unfolding and_then_Return returns add_dust_Return dust_add_Return
  by (elim exE conjE) (rule that; simp)

lemma consolidate_inventory_Return:
  assumes "consolidate_inventory ids pair_id asset now L = Return cid L'"
  obtains rows st where "those (map (dict_get (positions L)) (fromkeys ids)) = Some rows"
    "pair_state pair_id True False = Inr st"
    "\<forall>r \<in> set rows. cap_pair_id r = pair_id \<and> cap_asset r = asset \<and> cap_state r = st"
    "fromkeys ids \<noteq> []" "cid = capital_id (Suc (capital_sequence L))"
    "L' = (log_event (INVENTORY_CONSOLIDATED now cid (fromkeys ids) pair_id asset (dsum (map cap_quantity rows)))
            (set_position cid (consolidated cid pair_id asset st rows)
              (foldl (\<lambda>K i. del_position i K) (L\<lparr>capital_sequence := Suc (capital_sequence L)\<rparr>) (fromkeys ids))))
            \<lparr>capital_last_event_us := now\<rparr>"
proof -
  have "capital_last_event_us L \<le> now \<and> fromkeys ids \<noteq> [] \<and>
      (case those (map (dict_get (positions L)) (fromkeys ids)) of None \<Rightarrow> False
       | Some rows \<Rightarrow> \<exists>st. pair_state pair_id True False = Inr st \<and>
          \<not> (\<exists>r \<in> set rows. cap_pair_id r \<noteq> pair_id \<or> cap_asset r \<noteq> asset \<or> cap_state r \<noteq> st) \<and>
          cid = capital_id (Suc (capital_sequence L)) \<and>
          L' = (log_event (INVENTORY_CONSOLIDATED now cid (fromkeys ids) pair_id asset (dsum (map cap_quantity rows)))
            (set_position cid (consolidated cid pair_id asset st rows)
              (foldl (\<lambda>K i. del_position i K) (L\<lparr>capital_sequence := Suc (capital_sequence L)\<rparr>) (fromkeys ids))))
            \<lparr>capital_last_event_us := now\<rparr>)"
    using assms unfolding consolidate_inventory_def Let_def causal_then_Return if_Raise_Return
    by (cases "those (map (dict_get (positions L)) (fromkeys ids))")
      (auto simp: with_state_Return if_Raise_Return committing_Return simp del: fromkeys_eq_Nil)
  then show thesis
    by (cases "those (map (dict_get (positions L)) (fromkeys ids))")
      (auto simp del: fromkeys_eq_Nil intro: that)
qed

lemma register_risk_exit_authorization_Return:
  assumes "register_risk_exit_authorization a now L = Return u L'"
  shows "L' = (log_event (RISK_EXIT_AUTHORIZED now (auth_id a) (auth_capital_id a) (auth_rule_hash a))
           (L\<lparr>risk_exit_authorizations := dict_set (auth_id a) a (risk_exit_authorizations L)\<rparr>))
            \<lparr>capital_last_event_us := now\<rparr>"
  using assms unfolding register_risk_exit_authorization_def returns by (elim exE conjE) simp

lemma update_mark_Return:
  assumes "update_mark cid mark now L = Return u L'"
  obtains p where "dict_get (positions L) cid = Some p" "0 < mark"
    "L' = (if cap_asset p \<noteq> ''USDT''
           then set_position cid (p\<lparr>cap_marked_value := dmul (cap_quantity p) mark\<rparr>) L else L)
          \<lparr>capital_last_event_us := now\<rparr>"
proof -
  obtain p where p: "dict_get (positions L) cid = Some p" "0 < mark"
    "(if cap_asset p \<noteq> ''USDT''
      then if cap_marked_value (p\<lparr>cap_marked_value := dmul (cap_quantity p) mark\<rparr>) < 0
           then Raise (ValueError ''M035_MARK_BELOW_ATTRIBUTABLE_COST'')
                  (set_position cid (p\<lparr>cap_marked_value := dmul (cap_quantity p) mark\<rparr>) L)
           else committing now () (set_position cid (p\<lparr>cap_marked_value := dmul (cap_quantity p) mark\<rparr>) L)
      else committing now () L) = Return u L'"
    using assms unfolding update_mark_def Let_def causal_then_Return if_Raise_Return [of "mark \<le> 0"]
      with_position_Return by (elim exE conjE) (rule that; simp)
  then show thesis using p by (intro that) (auto simp: committing_Return split: if_splits)
qed

lemma update_asset_mark_Return:
  assumes "update_asset_mark asset mark now L = Return u L'"
  shows "0 < mark" "asset \<noteq> []" "L' = (log_event (CAUSAL_ASSET_MARK now asset mark)
           (L\<lparr>positions := map_values (remark asset mark) (positions L),
              asset_marks_usdt := dict_set asset mark (asset_marks_usdt L)\<rparr>))\<lparr>capital_last_event_us := now\<rparr>"
  using assms unfolding update_asset_mark_def returns by (elim exE conjE; simp)+

lemma reserve_aggregated_dust_Return:
  assumes "reserve_aggregated_dust pair_id asset quantity mark now L = Return cid L'"
  obtains c lots st where "dust_consume asset quantity pair_id now (dust_lots L) = Return c lots"
    "pair_state pair_id False True = Inr st" "0 < mark" "cid = capital_id (Suc (capital_sequence L))"
    "L' = (log_event (DUST_AGGREGATED_FOR_RETURN now cid asset quantity)
            (set_position cid
              ((new_position cid pair_id st (consumed_cost_basis_usdt c) (dmul quantity mark) asset
                 quantity now ''DUST_AGGREGATION'')
               \<lparr>cap_source_capital_ids := consumed_source_capital_ids c,
                cap_source_cycles := consumed_source_cycles c\<rparr>)
              (L\<lparr>dust_lots := lots, capital_sequence := Suc (capital_sequence L)\<rparr>)))\<lparr>capital_last_event_us := now\<rparr>"
proof (cases "dust_consume asset quantity pair_id now (dust_lots L)")
  case (Return c lots)
  then show thesis
    using assms unfolding reserve_aggregated_dust_def Let_def causal_then_Return if_Raise_Return
    by (elim exE conjE) (simp add: with_state_Return committing_Return, elim exE conjE, rule that; simp)
qed (use assms in \<open>unfold reserve_aggregated_dust_def Let_def causal_then_Return if_Raise_Return, simp\<close>)

text \<open>
  A settlement returns after one of two writes: a partial fill keeps the position, a complete
  return closes the cycle and leaves the rest as dust.
\<close>

lemma settle_return_Return:
  assumes "settle_return cid cyc sold proceeds rmark now aid done L = Return r L'"
  obtains p auth where "dict_get (positions L) cid = Some p" "cap_state p \<in> {RETURN_PAIR_A, RETURN_PAIR_B}"
    "0 < sold" "sold \<le> cap_quantity p" "0 \<le> proceeds" "\<not> has_key (cycles L) cyc"
    "loss_authorization cid p (settlement_of p sold proceeds) now aid done L = Inr auth"
    "(if done then settle_complete cid p (settlement_of p sold proceeds) cyc rmark now aid auth
        (L\<lparr>free_usdt := dadd (free_usdt L) proceeds,
           realized_pnl_usdt := dadd (realized_pnl_usdt L) (st_fill_realized (settlement_of p sold proceeds))\<rparr>)
      else settle_partial cid p (settlement_of p sold proceeds) cyc sold proceeds now
        (L\<lparr>free_usdt := dadd (free_usdt L) proceeds,
           realized_pnl_usdt := dadd (realized_pnl_usdt L) (st_fill_realized (settlement_of p sold proceeds))\<rparr>))
     = Return r L'"
proof -
  obtain p where p: "dict_get (positions L) cid = Some p" "cap_state p \<in> {RETURN_PAIR_A, RETURN_PAIR_B}"
    "0 < sold" "sold \<le> cap_quantity p" "0 \<le> proceeds" "\<not> has_key (cycles L) cyc"
    "(case loss_authorization cid p (settlement_of p sold proceeds) now aid done L of
         Inl e \<Rightarrow> Raise e L
       | Inr auth \<Rightarrow>
           if done \<and> 0 < st_residual_quantity (settlement_of p sold proceeds) \<and> rmark \<le> 0
           then Raise (ValueError ''M035_RESIDUAL_MARK_REQUIRED'') L
           else if done then settle_complete cid p (settlement_of p sold proceeds) cyc rmark now aid auth
        (L\<lparr>free_usdt := dadd (free_usdt L) proceeds,
           realized_pnl_usdt := dadd (realized_pnl_usdt L) (st_fill_realized (settlement_of p sold proceeds))\<rparr>)
           else settle_partial cid p (settlement_of p sold proceeds) cyc sold proceeds now
        (L\<lparr>free_usdt := dadd (free_usdt L) proceeds,
           realized_pnl_usdt := dadd (realized_pnl_usdt L) (st_fill_realized (settlement_of p sold proceeds))\<rparr>))
     = Return r L'"
    using assms unfolding settle_return_def Let_def causal_then_Return with_position_Return
      if_Raise_Return
    by (elim exE conjE) (rule that; simp)
  then show thesis
    by (cases "loss_authorization cid p (settlement_of p sold proceeds) now aid done L")
      (simp_all only: sum.case if_Raise_Return outcome.distinct, blast intro: that)
qed

lemma settle_partial_Return:
  assumes "settle_partial cid p s cyc sold proceeds now L = Return r L'"
  obtains mark where "dict_get (asset_marks_usdt L) (cap_asset p) = Some mark"
    "L' = (log_event (RETURN_PARTIAL_FILL_SETTLED now cid cyc sold proceeds (st_residual_quantity s))
            (set_position cid
              (p\<lparr>cap_quantity := st_residual_quantity s, cap_cost_basis := st_residual_cost_basis s,
                 cap_attributable_costs := st_residual_attributable s,
                 cap_marked_value := dmul (st_residual_quantity s) mark,
                 cap_returned_proceeds := st_proceeds s, cap_returned_quantity := st_sold_quantity s,
                 cap_returned_cost_basis := st_cost_basis s,
                 cap_returned_attributable_costs := st_attributable s,
                 cap_pending_cycle_id := Some cyc\<rparr>) L))\<lparr>capital_last_event_us := now\<rparr>"
    "r = dsub (dsub proceeds (st_sold_cost_basis s)) (st_sold_attributable s)"
  using assms unfolding settle_partial_def Let_def
  by (cases "dict_get (asset_marks_usdt L) (cap_asset p)") (auto simp: committing_Return intro: that)

definition residual_lot ::
    "string \<Rightarrow> capital_position \<Rightarrow> settlement \<Rightarrow> string \<Rightarrow> int \<Rightarrow> dust_lot" where
  "residual_lot cid p s cyc now =
     \<lparr>lot_capital_id = cid, lot_pair_id = cap_pair_id p, lot_asset = cap_asset p,
      lot_quantity = st_residual_quantity s,
      lot_cost_basis_usdt = dadd (st_residual_cost_basis s) (st_residual_attributable s),
      lot_source_cycles = fromkeys (cap_source_cycles p @ [cyc]), lot_created_at_us = now\<rparr>"

lemma settle_complete_Return:
  assumes "settle_complete cid p s cyc rmark now aid auth L = Return r L'"
  shows "r = st_realized s" and "\<not> has_key (cycles L) cyc"
    and "L' = (log_event (RETURN_SETTLED now cid cyc (st_realized s) (st_residual_quantity s) rmark aid)
          ((del_position cid (consume_authorization auth (L\<lparr>cycles := dict_set cyc (closed_cycle cyc p s auth) (cycles L)\<rparr>)))
           \<lparr>dust_lots := dust_lots L @ (if 0 < st_residual_quantity s then [residual_lot cid p s cyc now] else [])\<rparr>))
          \<lparr>capital_last_event_us := now\<rparr>"
proof -
  have id: "cycle_id (closed_cycle cyc p s auth) = cyc" by (simp add: closed_cycle_def)
  obtain cs where cs: "record_cycle (closed_cycle cyc p s auth) (cycles L) = Return () cs"
    using assms unfolding settle_complete_def
    by (cases "record_cycle (closed_cycle cyc p s auth) (cycles L)") auto
  then show "\<not> has_key (cycles L) cyc" by (auto simp: record_cycle_def id split: if_splits)
  have cs': "cs = dict_set cyc (closed_cycle cyc p s auth) (cycles L)"
    using cs by (auto simp: record_cycle_def id split: if_splits)
  let ?D = "del_position cid (consume_authorization auth (L\<lparr>cycles := cs\<rparr>))"
  obtain L1 where L1: "residual_dust cid p s cyc now ?D = Return () L1" and r: "r = st_realized s"
    and L': "L' = (log_event (RETURN_SETTLED now cid cyc (st_realized s) (st_residual_quantity s) rmark aid) L1)
        \<lparr>capital_last_event_us := now\<rparr>"
    using assms unfolding settle_complete_def cs by (auto simp: committing_Return)
  show "r = st_realized s" by (rule r)
  have "dust_lots ?D = dust_lots L" by (cases auth) (simp_all add: consume_authorization_def)
  then have "L1 = ?D\<lparr>dust_lots := dust_lots L @
      (if 0 < st_residual_quantity s then [residual_lot cid p s cyc now] else [])\<rparr>"
    using L1 unfolding residual_dust_def residual_lot_def [symmetric]
    by (auto simp: add_dust_Return dust_add_Return residual_lot_def split: if_splits)
  then show "L' = (log_event (RETURN_SETTLED now cid cyc (st_realized s) (st_residual_quantity s) rmark aid)
          ((del_position cid (consume_authorization auth (L\<lparr>cycles := dict_set cyc (closed_cycle cyc p s auth) (cycles L)\<rparr>)))
           \<lparr>dust_lots := dust_lots L @ (if 0 < st_residual_quantity s then [residual_lot cid p s cyc now] else [])\<rparr>))
          \<lparr>capital_last_event_us := now\<rparr>"
    unfolding L' cs' by simp
qed

section \<open>Where free capital comes from\<close>

lemma fold_del_free: "free_usdt (foldl (\<lambda>K i. del_position i K) L ids) = free_usdt L"
  by simp

lemma atomic_free:
  assumes inv: "ledger_inv L" and res: "exec_capital op L = Return r L'"
    and op: "\<not> (\<exists>cid now. op = AcknowledgeCancel cid now)" "\<not> settles op"
  shows "free_usdt L' \<le> free_usdt L"
proof (cases op)
  case (Reserve c amount now)
  then obtain cid where r: "reserve c amount now L = Return cid L'"
    using res by (auto simp: constructing_def new_candidate_def split: if_splits)
  show ?thesis by (rule reserve_Return [OF r]) (simp add: dsub_le inv_free_exact [OF inv])
next
  case (EntryFill cid asset quantity mark cost now input_usdt)
  then obtain i where r: "record_entry_fill cid asset quantity mark cost now input_usdt L = Return i L'"
    using res by auto
  show ?thesis
    by (rule record_entry_fill_Return [OF r]) (simp_all add: paid_entry_def dsub_le inv_free_exact [OF inv])
next
  case (RequestCancel cid now)
  then have r: "request_cancel cid now L = Return () L'" using res by auto
  show ?thesis by (rule request_cancel_Return [OF r]) simp
next
  case (ReserveOwnedReturn cid now)
  then have r: "reserve_owned_return cid now L = Return () L'" using res by auto
  show ?thesis by (rule reserve_owned_return_Return [OF r]) simp
next
  case (MoveToDust cid now reason)
  then have r: "move_untradeable_inventory_to_dust cid now reason L = Return () L'" using res by auto
  show ?thesis by (rule move_untradeable_inventory_to_dust_Return [OF r]) simp
next
  case (Consolidate ids pair_id asset now)
  then obtain cid where r: "consolidate_inventory ids pair_id asset now L = Return cid L'" using res by auto
  show ?thesis by (rule consolidate_inventory_Return [OF r]) simp
next
  case (RegisterAuthorization a now)
  then have r: "register_risk_exit_authorization a now L = Return () L'"
    using res by (auto simp: constructing_def new_authorization_def split: if_splits)
  from register_risk_exit_authorization_Return [OF r] show ?thesis by simp
next
  case (UpdateMark cid mark now)
  then have r: "update_mark cid mark now L = Return () L'" using res by auto
  show ?thesis by (rule update_mark_Return [OF r]) simp
next
  case (UpdateAssetMark asset mark now)
  then have r: "update_asset_mark asset mark now L = Return () L'" using res by auto
  from update_asset_mark_Return(3) [OF r] show ?thesis by simp
qed (use op in auto)

section \<open>Zero loss\<close>

lemma risk_exit_cycles:
  assumes "cycles_ok cs consumed"
  shows "filter (\<lambda>c. cycle_net_pnl c < 0) (dict_values cs) = filter cycle_risk_exit (dict_values cs)"
proof (rule filter_cong [OF refl])
  fix c assume "c \<in> set (dict_values cs)"
  then obtain cyc where "dict_get cs cyc = Some c"
    using value_has_key [of cs c] assms by (auto simp: cycles_ok_def)
  then show "(cycle_net_pnl c < 0) = cycle_risk_exit c" using assms by (simp add: cycles_ok_def)
qed

lemma negative_cycles_count:
  assumes "cycles_ok cs consumed"
  shows "negative_closed_cycles cs = length consumed" and "negative_risk_exits cs = length consumed"
proof -
  have count: "length (filter cycle_risk_exit (dict_values cs)) = length consumed"
    using assms by (simp add: cycles_ok_def)
  then show "negative_closed_cycles cs = length consumed"
    by (simp add: negative_closed_cycles_def risk_exit_cycles [OF assms])
  have "filter (\<lambda>c. cycle_risk_exit c \<and> cycle_net_pnl c < 0) (dict_values cs) =
      filter cycle_risk_exit (filter (\<lambda>c. cycle_net_pnl c < 0) (dict_values cs))" by (simp add: conj_commute)
  also have "\<dots> = filter cycle_risk_exit (dict_values cs)"
    unfolding risk_exit_cycles [OF assms] by simp
  finally show "negative_risk_exits cs = length consumed" using count by (simp add: negative_risk_exits_def)
qed

lemma exact28_minus: "exact28 x \<Longrightarrow> dneg x = - x"
  by (simp add: dneg_def exact28_def prec28.rnd_minus)

section \<open>Cancelling\<close>

lemma request_cancel_succeeds:
  assumes "ledger_inv L" "dict_get (positions L) cid = Some p"
    "cap_state p \<in> {RESERVED_PAIR_A, RESERVED_PAIR_B}" "capital_last_event_us L \<le> now"
  shows "request_cancel cid now L = Return ()
    ((log_event (CANCEL_REQUEST now cid) (set_position cid (pending_cancel now p) L))\<lparr>capital_last_event_us := now\<rparr>)"
  using assms committing_now [OF pending_cancel_inv [OF assms, of "CANCEL_REQUEST now cid"], of "()"]
  unfolding request_cancel_def capital_causal_def with_position_def pending_cancel_def by simp

lemma acknowledge_cancel_succeeds:
  assumes inv: "ledger_inv L" and p: "dict_get (positions L) cid = Some p"
    and "cap_state p = CANCEL_PENDING" "cap_cancel_requested_at_us p = Some t" "t \<le> now"
    and time: "capital_last_event_us L \<le> now"
  shows "acknowledge_cancel cid now L = Return (cap_marked_value p)
    ((log_event (CANCEL_ACK now cid (cap_marked_value p))
       (del_position cid (L\<lparr>free_usdt := dadd (free_usdt L) (cap_marked_value p)\<rparr>)))\<lparr>capital_last_event_us := now\<rparr>)"
proof -
  have ok: "0 \<le> cap_marked_value p" "cap_asset p = ''USDT''"
    using inv_position [OF inv p] assms(3) by (auto simp: position_ok_def)
  have "ledger_inv (L\<lparr>free_usdt := dadd (free_usdt L) (cap_marked_value p)\<rparr>)"
    using ok(1) inv_free [OF inv] by (intro ledger_inv_free [OF inv] dadd_nonneg) simp_all
  then have "ledger_inv (log_event (CANCEL_ACK now cid (cap_marked_value p))
      (del_position cid (L\<lparr>free_usdt := dadd (free_usdt L) (cap_marked_value p)\<rparr>)))"
    by (simp add: ledger_inv_del)
  from committing_inv [OF this, of now "cap_marked_value p"] show ?thesis
    using assms ok unfolding acknowledge_cancel_def capital_causal_def with_position_def Let_def by simp
qed

section \<open>Properties\<close>

definition sample_candidate :: allocation_candidate where
  "sample_candidate = \<lparr>cand_id = ''C1'', cand_pair_id = ''PAIR_A'', cand_requested_usdt = 100,
     cand_priority = NEW_ENTRY, cand_marginal_productivity = 1, cand_fifo_value = 0,
     cand_expected_lock_seconds = 60, cand_expected_net_edge = 1, cand_allow_partial = True,
     cand_existing_capital_id = None\<rparr>"

definition sample_authorization :: risk_exit_authorization where
  "sample_authorization = \<lparr>auth_id = ''AUTH-1'', auth_capital_id = ''M035-CAP-000001'',
     auth_pair_id = ''PAIR_A'', auth_decided_at_us = 30, auth_expires_at_us = 90,
     auth_rule_hash = ''RULE'', auth_quantity = 100, auth_expected_hold_loss_usdt = 2,
     auth_opportunity_cost_usdt = 1, auth_tail_risk_usdt = 1, auth_loss_if_exit_now_usdt = 2\<rparr>"

definition sample_capital_ops :: "capital_op list" where
  "sample_capital_ops =
     [Reserve sample_candidate 100 10,
      EntryFill ''M035-CAP-000001'' ''USDC'' 100 1 0 20 None,
      RegisterAuthorization sample_authorization 30,
      ReserveOwnedReturn ''M035-CAP-000001'' 40]"

definition sample_exit :: capital_op where
  "sample_exit = SettleReturn ''M035-CAP-000001'' ''K1'' 100 99 0 50 (Some ''AUTH-1'') True"

definition held_ledger :: capital_ledger where
  "held_ledger = drive_ops exec_capital sample_capital_ops initial_ledger"

definition exited_ledger :: capital_ledger where
  "exited_ledger = post_state (exec_capital sample_exit held_ledger)"

lemma sample_runs:
  "(case run_ops exec_capital (sample_capital_ops @ [sample_exit]) initial_ledger of
      Return rs L \<Rightarrow> rs ! 4 = Amount (-1) \<and> consumed_authorizations L = [''AUTH-1''] \<and> free_usdt L = 199
    | Raise _ _ \<Rightarrow> False) \<and>
   (case run_ops exec_capital sample_capital_ops initial_ledger of
      Return rs L \<Rightarrow> rs ! 0 = CapitalId ''M035-CAP-000001'' \<and> free_usdt L = 100
    | Raise _ _ \<Rightarrow> False)"
  by code_simp

lemma initial_run_inv: "run_ops exec_capital ops initial_ledger = Return rs L \<Longrightarrow> ledger_inv L"
  by (rule capital_clock.run_inv [OF initial_ledger_inv])

lemma sample_capital_run:
  obtains rs where "run_ops exec_capital sample_capital_ops initial_ledger = Return rs held_ledger"
    "rs ! 0 = CapitalId ''M035-CAP-000001''" "free_usdt held_ledger = 100"
proof -
  have "case run_ops exec_capital sample_capital_ops initial_ledger of
      Return rs L \<Rightarrow> rs ! 0 = CapitalId ''M035-CAP-000001'' \<and> free_usdt L = 100 | Raise _ _ \<Rightarrow> False"
    using sample_runs by (rule conjunct2)
  then obtain rs L where r: "run_ops exec_capital sample_capital_ops initial_ledger = Return rs L"
    "rs ! 0 = CapitalId ''M035-CAP-000001''" "free_usdt L = 100" by (auto split: outcome.splits)
  moreover have "held_ledger = L" unfolding held_ledger_def by (rule run_drive [OF r(1)])
  ultimately show thesis using that by simp
qed

lemma held_ledger_inv: "ledger_inv held_ledger"
  by (rule sample_capital_run) (rule initial_run_inv)

lemma sample_exit_returns:
  "exec_capital sample_exit held_ledger = Return (Amount (-1)) exited_ledger"
  "free_usdt exited_ledger = 199" "consumed_authorizations exited_ledger = [''AUTH-1'']"
proof -
  obtain rs where rs: "run_ops exec_capital sample_capital_ops initial_ledger = Return rs held_ledger"
    by (rule sample_capital_run)
  have "length rs = 4" using run_ops_length [OF rs] by (simp add: sample_capital_ops_def)
  moreover have "case run_ops exec_capital (sample_capital_ops @ [sample_exit]) initial_ledger of
      Return rs L \<Rightarrow> rs ! 4 = Amount (-1) \<and> consumed_authorizations L = [''AUTH-1''] \<and> free_usdt L = 199
    | Raise _ _ \<Rightarrow> False" using sample_runs by (rule conjunct1)
  ultimately have "case exec_capital sample_exit held_ledger of
      Return r L \<Rightarrow> r = Amount (-1) \<and> consumed_authorizations L = [''AUTH-1''] \<and> free_usdt L = 199
    | Raise _ _ \<Rightarrow> False" using run_ops_snoc [OF rs, of sample_exit] by (auto simp: nth_append split: outcome.splits)
  then obtain L where "exec_capital sample_exit held_ledger = Return (Amount (-1)) L"
    "consumed_authorizations L = [''AUTH-1'']" "free_usdt L = 199" by (auto split: outcome.splits)
  then show "exec_capital sample_exit held_ledger = Return (Amount (-1)) exited_ledger"
    "free_usdt exited_ledger = 199" "consumed_authorizations exited_ledger = [''AUTH-1'']"
    by (simp_all add: exited_ledger_def)
qed

text \<open>
  C9: a run of the shared-capital ledger that raises nothing keeps its invariant, from the
  bank of 200 on, and its events are in time order: no balance, cost, mark or quantity is
  negative, every capital id has one owner, every asset has a mark.
\<close>

theorem capital_runs_keep_inv:
  assumes "run_ops exec_capital ops initial_ledger = Return rs L"
  shows "ledger_inv L \<and> sorted (map capital_op_time ops)"
  using capital_clock.run_inv [OF initial_ledger_inv assms] capital_clock.run_times [OF initial_ledger_inv assms]
  by simp

theorem capital_runs_keep_inv_witness: "ledger_inv held_ledger"
  by (rule sample_capital_run) (use capital_runs_keep_inv in blast)

text \<open>
  C37: all or nothing. An operation of the ledger that raises, other than a settlement or a
  dust aggregation, has changed nothing at all: not the balance, not a position, not the
  sequence, not the audit log.
\<close>

theorem failed_operations_change_nothing:
  assumes "ledger_inv L" and "\<not> settles op" and "exec_capital op L = Raise e L'"
  shows "L' = L"
  by (rule exec_capital_Raise [OF assms])

theorem failed_operations_change_nothing_witness:
  "\<exists>e. exec_capital (Reserve sample_candidate 100 5) held_ledger = Raise e held_ledger"
proof -
  have time: "capital_last_event_us held_ledger = 40"
  proof (rule sample_capital_run)
    fix rs assume r: "run_ops exec_capital sample_capital_ops initial_ledger = Return rs held_ledger"
    show ?thesis using capital_clock.run_times [OF initial_ledger_inv r] by (simp add: sample_capital_ops_def)
  qed
  have "\<exists>e L'. exec_capital (Reserve sample_candidate 100 5) held_ledger = Raise e L'"
    by (simp add: new_candidate_def sample_candidate_def known_pair_def constructing_def reserve_def
        capital_causal_def time returning_def)
  then obtain e L' where r: "exec_capital (Reserve sample_candidate 100 5) held_ledger = Raise e L'" by blast
  from failed_operations_change_nothing [OF held_ledger_inv _ r] r show ?thesis by auto
qed

text \<open>
  Free capital comes back in two ways only. When an operation increases the free
  balance, it is the acknowledgement of a pending cancel, which releases the position's
  marked value and deletes the position, or a settlement, which credits its net proceeds.
\<close>

lemma free_capital_sources:
  assumes inv: "ledger_inv L" and res: "exec_capital op L = Return r L'" and more: "free_usdt L < free_usdt L'"
  shows "(\<exists>cid now p. op = AcknowledgeCancel cid now \<and> dict_get (positions L) cid = Some p \<and>
            cap_state p = CANCEL_PENDING \<and> dict_get (positions L') cid = None \<and>
            free_usdt L' = dadd (free_usdt L) (cap_marked_value p)) \<or>
         (\<exists>cid cyc sold proceeds rmark now aid order_done.
            op = SettleReturn cid cyc sold proceeds rmark now aid order_done \<and>
            free_usdt L' = dadd (free_usdt L) proceeds)"
proof (cases op)
  case (AcknowledgeCancel cid now)
  then obtain x where r: "acknowledge_cancel cid now L = Return x L'" using res by auto
  then show ?thesis using AcknowledgeCancel by (elim acknowledge_cancel_Return) simp
next
  case (SettleReturn cid cyc sold proceeds rmark now aid order_done)
  then obtain x where r: "settle_return cid cyc sold proceeds rmark now aid order_done L = Return x L'"
    using res by auto
  have "free_usdt L' = dadd (free_usdt L) proceeds"
  proof (rule settle_return_Return [OF r])
    fix p auth
    let ?s = "settlement_of p sold proceeds"
    let ?L1 = "L\<lparr>free_usdt := dadd (free_usdt L) proceeds,
           realized_pnl_usdt := dadd (realized_pnl_usdt L) (st_fill_realized ?s)\<rparr>"
    assume s: "(if order_done then settle_complete cid p ?s cyc rmark now aid auth ?L1
      else settle_partial cid p ?s cyc sold proceeds now ?L1) = Return x L'"
    show ?thesis
    proof (cases order_done)
      case True
      then have "settle_complete cid p ?s cyc rmark now aid auth ?L1 = Return x L'" using s by simp
      from settle_complete_Return(3) [OF this] show ?thesis
        by (cases auth) (simp_all add: consume_authorization_def)
    next
      case False
      then have "settle_partial cid p ?s cyc sold proceeds now ?L1 = Return x L'" using s by simp
      then show ?thesis by (rule settle_partial_Return) simp
    qed
  qed
  then show ?thesis using SettleReturn by blast
next
  case (AggregateDust pair_id asset quantity mark now)
  then obtain x where r: "reserve_aggregated_dust pair_id asset quantity mark now L = Return x L'"
    using res by auto
  have "free_usdt L' = free_usdt L" by (rule reserve_aggregated_dust_Return [OF r]) simp
  then show ?thesis using more by simp
qed (use atomic_free [OF inv res] more in auto)

lemma free_capital_sources_witness:
  "free_usdt held_ledger < free_usdt exited_ledger \<and>
   (\<exists>proceeds. free_usdt exited_ledger = dadd (free_usdt held_ledger) proceeds)"
proof -
  have "free_usdt held_ledger = 100" by (rule sample_capital_run)
  then have less: "free_usdt held_ledger < free_usdt exited_ledger" using sample_exit_returns(2) by simp
  from free_capital_sources [OF held_ledger_inv sample_exit_returns(1) less] less
  show ?thesis by (auto simp: sample_exit_def)
qed

text \<open>
  C5: the zero-loss rule. In every reachable ledger the negative closed cycles are exactly
  the risk exits, there is one consumed authorization for each of them, and the ledger passes
  the zero-loss cycle check exactly if none was consumed.
\<close>

theorem losses_are_authorized:
  assumes "run_ops exec_capital ops initial_ledger = Return rs L"
  shows "negative_closed_cycles (cycles L) = length (consumed_authorizations L) \<and>
         negative_risk_exits (cycles L) = length (consumed_authorizations L) \<and>
         distinct (consumed_authorizations L) \<and>
         (zero_loss_cycle_pass (cycles L) \<longleftrightarrow> consumed_authorizations L = [])"
  using negative_cycles_count [OF inv_cycles [OF initial_run_inv [OF assms]]]
    inv_cycles [OF initial_run_inv [OF assms]]
  unfolding zero_loss_cycle_pass_def cycles_ok_def by simp

theorem losses_are_authorized_witness: "negative_closed_cycles (cycles exited_ledger) = 1"
proof -
  have "\<exists>rs. run_ops exec_capital (sample_capital_ops @ [sample_exit]) initial_ledger = Return rs exited_ledger"
    by (rule sample_capital_run) (use run_ops_snoc sample_exit_returns(1) in fastforce)
  then obtain rs where "run_ops exec_capital (sample_capital_ops @ [sample_exit]) initial_ledger = Return rs exited_ledger" ..
  from losses_are_authorized [OF this] show ?thesis using sample_exit_returns(3) by simp
qed

text \<open>
  C31: no unauthorized loss. A settlement that closes a cycle with a loss was given a
  registered authorization for this capital and pair, inside its time window, for exactly
  the sold quantity and at least the loss, which was unused before and is used up after.
\<close>

theorem settled_loss_is_authorized:
  assumes inv: "ledger_inv L"
    and res: "settle_return cid cyc sold proceeds rmark now aid True L = Return r L'" and loss: "r < 0"
  shows "\<exists>a i p. aid = Some i \<and> dict_get (positions L) cid = Some p \<and>
     dict_get (risk_exit_authorizations L) i = Some a \<and> auth_capital_id a = cid \<and>
     auth_pair_id a = cap_pair_id p \<and> auth_decided_at_us a \<le> now \<and> now \<le> auth_expires_at_us a \<and>
     - r \<le> auth_loss_if_exit_now_usdt a \<and>
     dadd (cap_returned_quantity p) sold = auth_quantity a \<and>
     i \<notin> set (consumed_authorizations L) \<and> i \<in> set (consumed_authorizations L')"
proof (rule settle_return_Return [OF res])
  fix p auth
  let ?s = "settlement_of p sold proceeds"
  let ?L1 = "L\<lparr>free_usdt := dadd (free_usdt L) proceeds,
           realized_pnl_usdt := dadd (realized_pnl_usdt L) (st_fill_realized ?s)\<rparr>"
  assume p: "dict_get (positions L) cid = Some p"
    and auth: "loss_authorization cid p ?s now aid True L = Inr auth"
    and "(if True then settle_complete cid p ?s cyc rmark now aid auth ?L1
      else settle_partial cid p ?s cyc sold proceeds now ?L1) = Return r L'"
  then have s: "settle_complete cid p ?s cyc rmark now aid auth ?L1 = Return r L'" by simp
  note c = settle_complete_Return [OF s] and l = loss_authorization_Inr [OF auth]
  obtain a where a: "auth = Some a" using l(1) c(1) loss by (cases auth) auto
  from l(2) [OF a] obtain i where i: "aid = Some i" "dict_get (risk_exit_authorizations L) i = Some a"
    "auth_capital_id a = cid" "auth_pair_id a = cap_pair_id p" "auth_decided_at_us a \<le> now"
    "now \<le> auth_expires_at_us a" "i \<notin> set (consumed_authorizations L)"
    "dneg (st_realized ?s) \<le> auth_loss_if_exit_now_usdt a" "st_sold_quantity ?s = auth_quantity a" by auto
  have "exact28 (st_realized ?s)" by simp
  then have "- r \<le> auth_loss_if_exit_now_usdt a" using i(8) c(1) exact28_minus by metis
  moreover have "auth_id a = i" by (rule inv_authorizations [OF inv i(2)])
  then have "i \<in> set (consumed_authorizations L')"
    unfolding c(3) a by (simp add: consume_authorization_def log_event_def del_position_def)
  moreover have "dadd (cap_returned_quantity p) sold = auth_quantity a"
    using i(9) by (simp add: settlement_of_def Let_def)
  ultimately show ?thesis using p i by blast
qed

theorem settled_loss_is_authorized_witness:
  "\<exists>a. dict_get (risk_exit_authorizations held_ledger) ''AUTH-1'' = Some a \<and> 1 \<le> auth_loss_if_exit_now_usdt a"
proof -
  have "settle_return ''M035-CAP-000001'' ''K1'' 100 99 0 50 (Some ''AUTH-1'') True held_ledger = Return (-1) exited_ledger"
    using sample_exit_returns(1) by (simp add: sample_exit_def)
  from settled_loss_is_authorized [OF held_ledger_inv this] show ?thesis by auto
qed

text \<open>
  Reserving capital issues an id that nobody owned, and moves exactly the granted amount
  from the free balance to a position of the candidate's pair.
\<close>

lemma reservation_is_fresh:
  assumes inv: "ledger_inv L" and res: "reserve c amount now L = Return cid L'"
  shows "owner_of cid L = None \<and> owner_of cid L' = Some (cand_pair_id c) \<and>
         free_usdt L' = dsub (free_usdt L) amount \<and>
         map_option cap_cost_basis (dict_get (positions L') cid) = Some amount \<and>
         (\<forall>other. other \<noteq> cid \<longrightarrow> dict_get (positions L') other = dict_get (positions L) other)"
proof (rule reserve_Return [OF res])
  fix st
  assume cid: "cid = capital_id (Suc (capital_sequence L))"
    and L': "L' = (log_event (CAPITAL_RESERVED now cid (cand_pair_id c) amount)
            (set_position cid (new_position cid (cand_pair_id c) st amount amount ''USDT'' amount now (cand_id c))
              (L\<lparr>capital_sequence := Suc (capital_sequence L), free_usdt := dsub (free_usdt L) amount\<rparr>)))
            \<lparr>capital_last_event_us := now\<rparr>"
  have none: "dict_get (positions L) cid = None" unfolding cid by (rule inv_next_free [OF inv])
  have "find (\<lambda>l. lot_capital_id l = cid) (dust_lots L) = None"
    unfolding find_None_iff cid using inv_dust [OF inv] not_issued_next by metis
  then show ?thesis using none by (simp add: owner_of_def L')
qed

lemma reservation_is_fresh_witness:
  "\<exists>L'. reserve sample_candidate 100 10 initial_ledger = Return ''M035-CAP-000001'' L' \<and>
     owner_of ''M035-CAP-000001'' initial_ledger = None \<and>
     owner_of ''M035-CAP-000001'' L' = Some ''PAIR_A''"
proof -
  have "case reserve sample_candidate 100 10 initial_ledger of
      Return cid L' \<Rightarrow> cid = ''M035-CAP-000001'' | Raise _ _ \<Rightarrow> False" by code_simp
  then obtain L' where r: "reserve sample_candidate 100 10 initial_ledger = Return ''M035-CAP-000001'' L'"
    by (auto split: outcome.splits)
  from reservation_is_fresh [OF initial_ledger_inv r] r show ?thesis by (simp add: sample_candidate_def)
qed

text \<open>
  C39: reserving, requesting the cancel and acknowledging it is a round trip. The cancel of a
  fresh reservation cannot fail, it releases the reserved amount, and the free balance and
  the positions are what they were before, if the subtraction of the reservation was exact.
\<close>

theorem cancel_round_trip:
  assumes inv: "ledger_inv L" and res: "reserve c amount t1 L = Return cid L1"
    and times: "t1 \<le> t2" "t2 \<le> t3" and exact: "exact28 (free_usdt L - amount)"
  shows "\<exists>L2 L3. request_cancel cid t2 L1 = Return () L2 \<and> acknowledge_cancel cid t3 L2 = Return amount L3 \<and>
     free_usdt L3 = free_usdt L \<and> positions L3 = positions L"
proof (rule reserve_Return [OF res])
  fix st
  let ?p = "new_position cid (cand_pair_id c) st amount amount ''USDT'' amount t1 (cand_id c)"
  assume st: "pair_state (cand_pair_id c) False False = Inr st"
    and cid: "cid = capital_id (Suc (capital_sequence L))"
    and L1: "L1 = (log_event (CAPITAL_RESERVED t1 cid (cand_pair_id c) amount)
            (set_position cid ?p
              (L\<lparr>capital_sequence := Suc (capital_sequence L), free_usdt := dsub (free_usdt L) amount\<rparr>)))
            \<lparr>capital_last_event_us := t1\<rparr>"
  have pair: "known_pair (cand_pair_id c)" using pair_state_cases [OF st] by simp
  have step1: "atomic_step t1 L (reserve c amount t1 L)" by (rule reserve_step [OF inv pair])
  then have inv1: "ledger_inv L1" and last1: "capital_last_event_us L1 = t1" by (simp_all add: res step_ok_def)
  have p1: "dict_get (positions L1) cid = Some ?p" by (simp add: L1)
  have res_st: "cap_state ?p \<in> {RESERVED_PAIR_A, RESERVED_PAIR_B}" using pair_state_cases [OF st] by simp
  let ?L2 = "(log_event (CANCEL_REQUEST t2 cid) (set_position cid (pending_cancel t2 ?p) L1))\<lparr>capital_last_event_us := t2\<rparr>"
  have time1: "capital_last_event_us L1 \<le> t2" using last1 times by simp
  have r2: "request_cancel cid t2 L1 = Return () ?L2"
    by (rule request_cancel_succeeds [OF inv1 p1 res_st time1])
  have inv2: "ledger_inv ?L2" by (rule pending_cancel_inv [OF inv1 p1 res_st time1])
  have p2: "dict_get (positions ?L2) cid = Some (pending_cancel t2 ?p)" by simp
  note r3 = acknowledge_cancel_succeeds [OF inv2 p2, of t2 t3]
  have "dict_get (positions L) cid = None" unfolding cid by (rule inv_next_free [OF inv])
  then have pos: "dict_del cid (positions ?L2) = positions L"
    by (simp add: L1 dict_del_set)
  have "free_usdt ?L2 = dsub (free_usdt L) amount" by (simp add: L1)
  moreover have "dadd (dsub (free_usdt L) amount) amount = free_usdt L"
    using inv_free_exact [OF inv] exact by (simp add: dsub_exact dadd_def exact28_def)
  ultimately show ?thesis
    using r2 r3 times pos by (simp add: pending_cancel_def)
qed

theorem cancel_round_trip_witness:
  "\<exists>L1 L2 L3. reserve sample_candidate 100 10 initial_ledger = Return ''M035-CAP-000001'' L1 \<and>
     request_cancel ''M035-CAP-000001'' 20 L1 = Return () L2 \<and>
     acknowledge_cancel ''M035-CAP-000001'' 30 L2 = Return 100 L3 \<and> free_usdt L3 = 200"
proof -
  have "case reserve sample_candidate 100 10 initial_ledger of
      Return cid L' \<Rightarrow> cid = ''M035-CAP-000001'' | Raise _ _ \<Rightarrow> False" by code_simp
  then obtain L1 where r: "reserve sample_candidate 100 10 initial_ledger = Return ''M035-CAP-000001'' L1"
    by (auto split: outcome.splits)
  have free: "free_usdt initial_ledger = 200" by (simp add: initial_ledger_def)
  have exact: "exact28 (free_usdt initial_ledger - 100)"
    unfolding free by (rule exact28_grid [of 0]) (simp_all add: on_grid_def pow10_def)
  from cancel_round_trip [OF initial_ledger_inv r _ _ exact, of 20 30] r free show ?thesis by auto
qed

lemma dust_marked_value_defined:
  "\<forall>l \<in> set lots. has_key marks (lot_asset l) \<Longrightarrow> \<exists>v. dust_marked_value marks lots = Inr v"
  by (auto simp: dust_marked_value_def)

text \<open>
  The marked equity of a reachable ledger is always defined: every dust lot has a causal
  mark, so reading the equity or the zero-loss verdict never raises.
\<close>

lemma equity_is_defined:
  assumes "run_ops exec_capital ops initial_ledger = Return rs L"
  shows "\<exists>equity verdict. marked_equity None L = Inr equity \<and> zero_loss_economic_pass None L = Inr verdict"
proof -
  have "\<forall>l \<in> set (dust_lots L). has_key (asset_marks_usdt L) (lot_asset l)"
    using inv_dust [OF initial_run_inv [OF assms]] by blast
  then obtain v where "dust_marked_value (asset_marks_usdt L) (dust_lots L) = Inr v"
    using dust_marked_value_defined by blast
  then have m: "marked_equity None L = Inr (dadd (dadd (free_usdt L) (committed_usdt L)) v)"
    by (simp add: marked_equity_def merged_marks_def)
  have "zero_loss_economic_pass None L = Inr (cycles_economic_pass (cycles L) \<and>
      initial_bank_usdt L \<le> dadd (dadd (free_usdt L) (committed_usdt L)) v)"
    by (simp add: zero_loss_economic_pass_def m)
  with m show ?thesis by blast
qed

lemma equity_is_defined_witness: "\<exists>equity. marked_equity None held_ledger = Inr equity"
  by (rule sample_capital_run) (use equity_is_defined in blast)

definition inflating_ops :: "capital_op list" where
  "inflating_ops =
     [Reserve sample_candidate 100 10, UpdateAssetMark ''USDT'' 2 20,
      RequestCancel ''M035-CAP-000001'' 30, AcknowledgeCancel ''M035-CAP-000001'' 40]"

text \<open>
  The bank can be inflated through the mark of USDT. \<^verbatim>\<open>update_asset_mark\<close> accepts
  the cash asset, revalues capital that is merely reserved, and the cancel then releases the
  marked value: 100 reserved out of 200 come back as 200.
\<close>

lemma usdt_mark_inflates_bank:
  "case run_ops exec_capital inflating_ops initial_ledger of
     Return rs L \<Rightarrow> free_usdt L = 300 \<and> positions L = [] \<and> realized_pnl_usdt L = 0
   | Raise _ _ \<Rightarrow> False"
  by code_simp

end
