(* ===== verification/M035_Conservation.thy ===== *)
theory M035_Conservation
  imports M035_Ledger_Facts
begin

text \<open>
  Conservation of money. The book value of a ledger is its free balance plus the cost basis
  and attributable costs of every position plus the cost basis of every dust lot. As long as
  the additions and subtractions of an operation are exact and nobody marks the cash asset,
  an operation changes the book value by the profit or loss it realizes and by nothing else.
\<close>

section \<open>Book value and exactness\<close>

definition position_value :: "capital_position \<Rightarrow> decimal" where
  "position_value p = cap_cost_basis p + cap_attributable_costs p"

definition book_value :: "capital_ledger \<Rightarrow> decimal" where
  "book_value L =
     free_usdt L + sum_list (map position_value (dict_values (positions L))) +
     sum_list (map lot_cost_basis_usdt (dust_lots L))"

definition cash_position :: "capital_position \<Rightarrow> bool" where
  "cash_position p \<longleftrightarrow>
     (cap_state p \<in> {RESERVED_PAIR_A, RESERVED_PAIR_B, CANCEL_PENDING} \<longrightarrow>
        cap_marked_value p = cap_cost_basis p \<and> cap_attributable_costs p = 0)"

definition cash_ok :: "capital_ledger \<Rightarrow> bool" where
  "cash_ok L \<longleftrightarrow> (\<forall>cid p. dict_get (positions L) cid = Some p \<longrightarrow> cash_position p)"

text \<open>
  The arithmetic of an operation is exact: the sums and differences it computes, and the
  products that a complete sale divides again, fit into the 28 digits. The conditions speak of
  the amounts that go into the computation, never of its result.
\<close>

definition sold_share :: "capital_position \<Rightarrow> decimal \<Rightarrow> decimal \<Rightarrow> decimal" where
  "sold_share p sold amount = ddiv (dmul amount sold) (cap_quantity p)"

definition exact_settlement :: "capital_position \<Rightarrow> decimal \<Rightarrow> decimal \<Rightarrow> capital_ledger \<Rightarrow> bool" where
  "exact_settlement p sold proceeds L \<longleftrightarrow>
     (let cost = cap_cost_basis p; attr = cap_attributable_costs p;
          sc = sold_share p sold cost; sa = sold_share p sold attr
      in exact28 (free_usdt L + proceeds) \<and>
         exact28 (proceeds - sc) \<and> exact28 (proceeds - sc - sa) \<and>
         exact28 (realized_pnl_usdt L + (proceeds - sc - sa)) \<and>
         exact28 (cost - sc) \<and> exact28 (attr - sa) \<and> exact28 (cost - sc + (attr - sa)) \<and>
         (sold = cap_quantity p \<longrightarrow>
            exact28 cost \<and> exact28 attr \<and> exact28 (cost * sold) \<and> exact28 (attr * sold)))"

text \<open>The costs that a consumption of dust takes from the lots it meets, in their order.\<close>

primrec exact_walk :: "string \<Rightarrow> string \<Rightarrow> dust_lot list \<Rightarrow> decimal \<Rightarrow> decimal \<Rightarrow> bool" where
  "exact_walk asset pair_id [] rem cost = True"
| "exact_walk asset pair_id (l # ls) rem cost =
     (if rem = 0 then True
      else if lot_asset l \<noteq> asset \<or> lot_pair_id l \<noteq> pair_id then exact_walk asset pair_id ls rem cost
      else let taken = min (lot_quantity l) rem;
               part = dmul (lot_cost_basis_usdt l) (ddiv taken (lot_quantity l))
           in exact28 (lot_cost_basis_usdt l - part) \<and> exact28 (cost + part) \<and>
              exact_walk asset pair_id ls (dsub rem taken) (cost + part))"

fun exact_op :: "capital_op \<Rightarrow> capital_ledger \<Rightarrow> bool" where
  "exact_op (Reserve c amount now) L = exact28 (free_usdt L - amount)"
| "exact_op (AcknowledgeCancel cid now) L =
     (case dict_get (positions L) cid of None \<Rightarrow> True
      | Some p \<Rightarrow> exact28 (free_usdt L + cap_marked_value p))"
| "exact_op (EntryFill cid asset quantity mark cost now input_usdt) L =
     (case dict_get (positions L) cid of None \<Rightarrow> True
      | Some p \<Rightarrow> exact28 (free_usdt L - cost) \<and> exact28 cost \<and>
          exact28 (cap_cost_basis p - consumed_input p input_usdt))"
| "exact_op (MoveToDust cid now reason) L =
     (case dict_get (positions L) cid of None \<Rightarrow> True
      | Some p \<Rightarrow> exact28 (cap_cost_basis p + cap_attributable_costs p))"
| "exact_op (Consolidate ids pair_id asset now) L =
     (case those (map (dict_get (positions L)) (fromkeys ids)) of None \<Rightarrow> True
      | Some rows \<Rightarrow> dsum (map cap_cost_basis rows) = sum_list (map cap_cost_basis rows) \<and>
          dsum (map cap_attributable_costs rows) = sum_list (map cap_attributable_costs rows))"
| "exact_op (SettleReturn cid cyc sold proceeds rmark now aid order_done) L =
     (case dict_get (positions L) cid of None \<Rightarrow> True
      | Some p \<Rightarrow> exact_settlement p sold proceeds L)"
| "exact_op (AggregateDust pair_id asset quantity mark now) L =
     exact_walk asset pair_id (sort_key dust_fifo_key (dust_lots L)) quantity 0"
| "exact_op _ L = True"

text \<open>The cash asset keeps the mark it starts with.\<close>

fun marks_cash :: "capital_op \<Rightarrow> bool" where
  "marks_cash (UpdateAssetMark asset mark now) = (asset = ''USDT'')"
| "marks_cash _ = False"

fun exact_run :: "capital_op list \<Rightarrow> capital_ledger \<Rightarrow> bool" where
  "exact_run [] L = True"
| "exact_run (op # ops) L =
     (exact_op op L \<and> \<not> marks_cash op \<and>
      (case exec_capital op L of Return r L' \<Rightarrow> exact_run ops L' | Raise e L' \<Rightarrow> True))"

section \<open>One operation\<close>

definition conserves :: "capital_ledger \<Rightarrow> capital_ledger \<Rightarrow> bool" where
  "conserves L L' \<longleftrightarrow>
     book_value L' - realized_pnl_usdt L' = book_value L - realized_pnl_usdt L \<and> (cash_ok L \<longrightarrow> cash_ok L')"

lemma more_fields [simp]:
  "realized_pnl_usdt (set_position cid p L) = realized_pnl_usdt L"
  "realized_pnl_usdt (del_position cid L) = realized_pnl_usdt L"
  "realized_pnl_usdt (log_event ev L) = realized_pnl_usdt L"
  "free_usdt (paid_entry asset mark cost L) = dsub (free_usdt L) cost"
  "positions (paid_entry asset mark cost L) = positions L"
  "dust_lots (paid_entry asset mark cost L) = dust_lots L"
  "realized_pnl_usdt (paid_entry asset mark cost L) = realized_pnl_usdt L"
  by (simp_all add: set_position_def del_position_def log_event_def paid_entry_def)

lemma fold_del_more [simp]:
  "realized_pnl_usdt (foldl (\<lambda>K i. del_position i K) L ids) = realized_pnl_usdt L"
  "dust_lots (foldl (\<lambda>K i. del_position i K) L ids) = dust_lots L"
  by (induction ids arbitrary: L) simp_all

lemma cash_set:
  "cash_ok L \<Longrightarrow> cash_position p \<Longrightarrow> positions L' = dict_set cid p (positions L) \<Longrightarrow> cash_ok L'"
  by (simp add: cash_ok_def)

lemma cash_get: "cash_ok L \<Longrightarrow> dict_get (positions L) cid = Some p \<Longrightarrow> cash_position p"
  by (simp add: cash_ok_def)

lemma cash_del:
  "cash_ok L \<Longrightarrow> positions L' = dict_del cid (positions L) \<Longrightarrow> cash_ok L'"
  by (simp add: cash_ok_def)

lemma reserve_conserves:
  assumes inv: "ledger_inv L" and r: "reserve c amount now L = Return cid L'" and exact: "exact28 (free_usdt L - amount)"
  shows "conserves L L'"
proof (rule reserve_Return [OF r])
  fix st
  let ?p = "new_position cid (cand_pair_id c) st amount amount ''USDT'' amount now (cand_id c)"
  assume cid: "cid = capital_id (Suc (capital_sequence L))"
    and L': "L' = (log_event (CAPITAL_RESERVED now cid (cand_pair_id c) amount)
            (set_position cid ?p
              (L\<lparr>capital_sequence := Suc (capital_sequence L), free_usdt := dsub (free_usdt L) amount\<rparr>)))
            \<lparr>capital_last_event_us := now\<rparr>"
  have new: "dict_get (positions L) cid = None" unfolding cid by (rule inv_next_free [OF inv])
  have "position_value ?p = amount" "cash_position ?p"
    by (simp_all add: position_value_def cash_position_def new_position_def)
  then show ?thesis
    using exact sum_list_new [OF new, of position_value ?p]
    by (auto simp: conserves_def book_value_def L' dsub_exact intro: cash_set)
qed

lemma request_cancel_conserves:
  assumes r: "request_cancel cid now L = Return u L'"
  shows "conserves L L'"
proof (rule request_cancel_Return [OF r])
  fix p :: capital_position
  let ?p = "p\<lparr>cap_state := CANCEL_PENDING, cap_cancel_requested_at_us := Some now\<rparr>"
  assume p: "dict_get (positions L) cid = Some p" "cap_state p \<in> {RESERVED_PAIR_A, RESERVED_PAIR_B}"
    and L': "L' = (log_event (CANCEL_REQUEST now cid) (set_position cid ?p L))\<lparr>capital_last_event_us := now\<rparr>"
  have "position_value ?p = position_value p" by (simp add: position_value_def)
  moreover have "cash_position ?p" if "cash_ok L"
    using cash_get [OF that p(1)] p(2) by (auto simp: cash_position_def)
  ultimately show ?thesis
    using sum_list_set [OF p(1), of position_value ?p]
    by (auto simp: conserves_def book_value_def L' intro: cash_set)
qed

lemma acknowledge_cancel_conserves:
  assumes inv: "ledger_inv L" and cash: "cash_ok L" and r: "acknowledge_cancel cid now L = Return x L'"
    and exact: "exact_op (AcknowledgeCancel cid now) L"
  shows "conserves L L'"
proof (rule acknowledge_cancel_Return [OF r])
  fix p :: capital_position
  assume p: "dict_get (positions L) cid = Some p" "cap_state p = CANCEL_PENDING"
    and x: "x = cap_marked_value p"
    and L': "L' = (log_event (CANCEL_ACK now cid x)
            (del_position cid (L\<lparr>free_usdt := dadd (free_usdt L) x\<rparr>)))\<lparr>capital_last_event_us := now\<rparr>"
  have "position_value p = x" using cash_get [OF cash p(1)] p(2) x by (simp add: cash_position_def position_value_def)
  then show ?thesis
    using exact p(1) sum_list_del [OF p(1) inv_distinct [OF inv], of position_value] x
    by (auto simp: conserves_def book_value_def L' dadd_exact intro: cash_del)
qed

lemma record_entry_fill_conserves:
  assumes inv: "ledger_inv L" and cash: "cash_ok L"
    and r: "record_entry_fill cid asset quantity mark cost now input_usdt L = Return i L'"
    and exact: "exact_op (EntryFill cid asset quantity mark cost now input_usdt) L"
  shows "conserves L L'"
  using r
proof (cases rule: record_entry_fill_Return)
  case (split p st)
  let ?r = "dsub (cap_cost_basis p) (consumed_input p input_usdt)"
  let ?p = "p\<lparr>cap_cost_basis := ?r, cap_marked_value := ?r, cap_quantity := ?r\<rparr>"
  let ?q = "(new_position i (cap_pair_id p) st (consumed_input p input_usdt) (dmul quantity mark)
      asset quantity now (cap_source_candidate_id p))\<lparr>cap_source_capital_ids := [cid], cap_attributable_costs := cost\<rparr>"
  have new: "dict_get (positions L) i = None" unfolding split(9) by (rule inv_next_free [OF inv])
  then have new': "dict_get (dict_set cid ?p (positions L)) i = None" using split(1) by auto
  have cp: "cash_position p" by (rule cash_get [OF cash split(1)])
  then have "cap_attributable_costs p = 0" using split(2) by (auto simp: cash_position_def)
  moreover have "?r = cap_cost_basis p - consumed_input p input_usdt" "dsub (free_usdt L) cost = free_usdt L - cost"
    using exact split(1) by (simp_all add: dsub_exact)
  ultimately have "book_value L' = book_value L"
    using sum_list_new [OF new', of position_value ?q] sum_list_set [OF split(1), of position_value ?p]
    unfolding split(11) by (simp add: book_value_def position_value_def)
  moreover have "cash_position ?p" using cp by (auto simp: cash_position_def)
  moreover have "cash_position ?q" using pair_state_cases [OF split(10)] by (auto simp: cash_position_def)
  ultimately show ?thesis using cash unfolding split(11)
    by (auto simp: conserves_def cash_ok_def)
next
  case (whole p st)
  let ?p = "p\<lparr>cap_state := st, cap_asset := asset, cap_quantity := quantity,
      cap_marked_value := dmul quantity mark, cap_attributable_costs := dadd (cap_attributable_costs p) cost\<rparr>"
  have "cap_attributable_costs p = 0"
    using cash_get [OF cash whole(1)] whole(2) by (auto simp: cash_position_def)
  moreover have "dsub (free_usdt L) cost = free_usdt L - cost" "exact28 cost"
    using exact whole(1) by (simp_all add: dsub_exact)
  ultimately have "book_value L' = book_value L"
    using sum_list_set [OF whole(1), of position_value ?p]
    unfolding whole(10) by (simp add: book_value_def position_value_def)
  moreover have "cash_position ?p" using pair_state_cases [OF whole(9)] by (auto simp: cash_position_def)
  ultimately show ?thesis unfolding whole(10)
    by (auto simp: conserves_def intro: cash_set)
qed

lemma reserve_owned_return_conserves:
  assumes r: "reserve_owned_return cid now L = Return u L'"
  shows "conserves L L'"
proof (rule reserve_owned_return_Return [OF r])
  fix p :: capital_position and st
  assume p: "dict_get (positions L) cid = Some p" and st: "pair_state (cap_pair_id p) False True = Inr st"
    and L': "L' = (log_event (OWNED_RETURN_RESERVED now cid) (set_position cid (p\<lparr>cap_state := st\<rparr>) L))
            \<lparr>capital_last_event_us := now\<rparr>"
  have "cash_position (p\<lparr>cap_state := st\<rparr>)" using pair_state_cases [OF st] by (auto simp: cash_position_def)
  moreover have "position_value (p\<lparr>cap_state := st\<rparr>) = position_value p" by (simp add: position_value_def)
  ultimately show ?thesis
    using sum_list_set [OF p, of position_value "p\<lparr>cap_state := st\<rparr>"]
    by (auto simp: conserves_def book_value_def L' intro: cash_set)
qed

lemma move_untradeable_inventory_to_dust_conserves:
  assumes inv: "ledger_inv L" and r: "move_untradeable_inventory_to_dust cid now reason L = Return u L'"
    and exact: "exact_op (MoveToDust cid now reason) L"
  shows "conserves L L'"
proof (rule move_untradeable_inventory_to_dust_Return [OF r])
  fix p :: capital_position
  let ?lot = "\<lparr>lot_capital_id = cid, lot_pair_id = cap_pair_id p, lot_asset = cap_asset p,
                  lot_quantity = cap_quantity p,
                  lot_cost_basis_usdt = dadd (cap_cost_basis p) (cap_attributable_costs p),
                  lot_source_cycles = cap_source_cycles p, lot_created_at_us = now\<rparr>"
  assume p: "dict_get (positions L) cid = Some p"
    and L': "L' = (log_event (UNTRADEABLE_INVENTORY_MOVED_TO_DUST now cid (cap_pair_id p) (cap_asset p) (cap_quantity p) reason)
             (del_position cid (L\<lparr>dust_lots := dust_lots L @ [?lot]\<rparr>)))\<lparr>capital_last_event_us := now\<rparr>"
  have "lot_cost_basis_usdt ?lot = position_value p"
    using exact p by (simp add: dadd_exact position_value_def)
  then show ?thesis
    using sum_list_del [OF p inv_distinct [OF inv], of position_value]
    by (auto simp: conserves_def book_value_def L' intro: cash_del)
qed

lemma those_sum:
  assumes "those (map (dict_get (positions L)) ids) = Some rows" "distinct ids" "distinct (keys (positions L))"
  shows "sum_list (map f (dict_values (positions (foldl (\<lambda>K i. del_position i K) L ids)))) =
         sum_list (map f (dict_values (positions L))) - (sum_list (map f rows) :: decimal)"
  using assms
proof (induction ids arbitrary: L rows)
  case (Cons i ids)
  obtain p rows' where p: "dict_get (positions L) i = Some p"
    and rows': "those (map (dict_get (positions L)) ids) = Some rows'" "rows = p # rows'"
    using Cons.prems(1) by (auto split: option.splits)
  have "map (dict_get (positions (del_position i L))) ids = map (dict_get (positions L)) ids"
    using Cons.prems(2) by auto
  then have "those (map (dict_get (positions (del_position i L))) ids) = Some rows'" using rows'(1) by (simp only:)
  from Cons.IH [OF this] Cons.prems sum_list_del [OF p Cons.prems(3), of f]
  show ?case by (simp add: rows'(2))
qed simp

lemma consolidate_inventory_conserves:
  assumes inv: "ledger_inv L" and r: "consolidate_inventory ids pair_id asset now L = Return cid L'"
    and exact: "exact_op (Consolidate ids pair_id asset now) L"
  shows "conserves L L'"
proof (rule consolidate_inventory_Return [OF r])
  fix rows st
  let ?K = "L\<lparr>capital_sequence := Suc (capital_sequence L)\<rparr>"
  let ?L1 = "foldl (\<lambda>K i. del_position i K) ?K (fromkeys ids)"
  let ?p = "consolidated cid pair_id asset st rows"
  assume rows: "those (map (dict_get (positions L)) (fromkeys ids)) = Some rows"
    and st: "pair_state pair_id True False = Inr st" and cid: "cid = capital_id (Suc (capital_sequence L))"
    and L': "L' = (log_event (INVENTORY_CONSOLIDATED now cid (fromkeys ids) pair_id asset (dsum (map cap_quantity rows)))
            (set_position cid ?p ?L1))\<lparr>capital_last_event_us := now\<rparr>"
  have sub: "dict_get (positions ?L1) c = Some q \<Longrightarrow> dict_get (positions L) c = Some q" for c q
    using conjunct1 [OF fold_del_position [where L = ?K and ids = "fromkeys ids"]] by (simp add: get_filter split: if_splits)
  have "dict_get (positions L) cid = None" unfolding cid by (rule inv_next_free [OF inv])
  then have new: "dict_get (positions ?L1) cid = None" using sub by (metis not_None_eq)
  have val: "position_value ?p = sum_list (map position_value rows)"
  proof -
    have "sum_list (map position_value rows) =
        sum_list (map cap_cost_basis rows) + sum_list (map cap_attributable_costs rows)"
      by (induction rows) (simp_all add: position_value_def)
    then show ?thesis using exact rows by (simp add: position_value_def consolidated_def new_position_def)
  qed
  have "sum_list (map position_value (dict_values (positions ?L1))) =
      sum_list (map position_value (dict_values (positions L))) - sum_list (map position_value rows)"
    using those_sum [of ?K "fromkeys ids" rows position_value] rows inv_distinct [OF inv] by simp
  then have "book_value L' = book_value L"
    using sum_list_new [OF new, of position_value ?p] val by (simp add: book_value_def L')
  moreover have "cash_position ?p"
    using pair_state_cases [OF st] by (auto simp: cash_position_def consolidated_def)
  ultimately show ?thesis using sub
    by (auto simp: conserves_def L' cash_ok_def)
qed

lemma register_risk_exit_authorization_conserves:
  "register_risk_exit_authorization a now L = Return u L' \<Longrightarrow> conserves L L'"
  by (drule register_risk_exit_authorization_Return) (simp add: conserves_def book_value_def cash_ok_def)

lemma update_mark_conserves:
  assumes inv: "ledger_inv L" and r: "update_mark cid mark now L = Return u L'"
  shows "conserves L L'"
proof (rule update_mark_Return [OF r])
  fix p :: capital_position
  let ?p = "p\<lparr>cap_marked_value := dmul (cap_quantity p) mark\<rparr>"
  assume p: "dict_get (positions L) cid = Some p"
    and L': "L' = (if cap_asset p \<noteq> ''USDT'' then set_position cid ?p L else L)\<lparr>capital_last_event_us := now\<rparr>"
  have "cash_position ?p" if "cap_asset p \<noteq> ''USDT''"
    using inv_position [OF inv p] that by (auto simp: position_ok_def cash_position_def)
  moreover have "position_value ?p = position_value p" by (simp add: position_value_def)
  ultimately show ?thesis
    using sum_list_set [OF p, of position_value ?p]
    by (auto simp: conserves_def book_value_def L' cash_ok_def)
qed

lemma sum_map_values:
  "(\<And>v. f (g v) = f v) \<Longrightarrow> sum_list (map (f \<circ> snd) (map_values g d)) = (sum_list (map (f \<circ> snd) d) :: decimal)"
  by (induction d) (auto simp: map_values_def)

lemma update_asset_mark_conserves:
  assumes inv: "ledger_inv L" and cash: "cash_ok L" and r: "update_asset_mark asset mark now L = Return u L'"
    and asset: "asset \<noteq> ''USDT''"
  shows "conserves L L'"
proof -
  note L' = update_asset_mark_Return(3) [OF r]
  have "position_value (remark asset mark p) = position_value p" for p
    by (simp add: position_value_def remark_def)
  then have "book_value L' = book_value L"
    by (simp add: L' book_value_def sum_map_values)
  moreover have "cash_position (remark asset mark p)" if p: "dict_get (positions L) cid = Some p" for cid p
    using inv_position [OF inv p] cash_get [OF cash p] asset
    by (auto simp: position_ok_def cash_position_def remark_def)
  ultimately show ?thesis by (auto simp: conserves_def L' cash_ok_def)
qed

text \<open>
  A consumption moves cost from the lots it takes to its own cost basis, and a lot that is
  taken whole gives up its whole cost.
\<close>

lemma whole_share:
  assumes "q \<noteq> 0" and "exact28 c"
  shows "dmul c (ddiv q q) = c"
proof -
  have "dround 28 1 = 1" using dround_grid_le [of 1 1 0 28] by (simp add: pow10_def)
  then show ?thesis using assms by (simp add: ddiv_def dmul_def exact28_def)
qed

lemma taken_from_cost:
  assumes "exact28 (lot_cost_basis_usdt l - consume_share l taken)"
  shows "lot_cost_basis_usdt (taken_from consume_share True l taken) = lot_cost_basis_usdt l - consume_share l taken"
    and "lot_quantity l \<noteq> 0 \<Longrightarrow> exact28 (lot_cost_basis_usdt l) \<Longrightarrow>
      lot_quantity (taken_from consume_share True l taken) = 0 \<Longrightarrow>
      lot_cost_basis_usdt (taken_from consume_share True l taken) = 0"
  using assms by (auto simp: taken_from_def dsub_exact consume_share_def whole_share)

lemma walk_lots_cost:
  "exact_walk asset pair_id ls rem cost \<Longrightarrow>
   \<forall>l \<in> set ls. 0 < lot_quantity l \<and> exact28 (lot_cost_basis_usdt l) \<Longrightarrow>
   sum_list (map lot_cost_basis_usdt (lp_lots (walk_lots consume_share True asset pair_id now ls rem cost))) +
     lp_cost_basis (walk_lots consume_share True asset pair_id now ls rem cost) =
   sum_list (map lot_cost_basis_usdt ls) + cost \<and>
   (\<forall>l \<in> set (lp_lots (walk_lots consume_share True asset pair_id now ls rem cost)).
      lot_quantity l = 0 \<longrightarrow> lot_cost_basis_usdt l = 0)"
proof (induction ls arbitrary: rem cost)
  case (Cons l ls)
  show ?case
  proof (cases rule: walk_lots_step [of consume_share True asset pair_id now l ls rem cost])
    case (take p taken)
    then have e: "exact28 (lot_cost_basis_usdt l - consume_share l taken)" "exact28 (cost + consume_share l taken)"
      "exact_walk asset pair_id ls (dsub rem taken) (cost + consume_share l taken)"
      using Cons.prems(1) by (simp_all add: matches_def consume_share_def Let_def)
    then have "p = walk_lots consume_share True asset pair_id now ls (dsub rem taken) (cost + consume_share l taken)"
      by (simp add: take(6) dadd_exact)
    then show ?thesis
      using Cons.IH [OF e(3)] Cons.prems(2) taken_from_cost [OF e(1)] unfolding take(7) by auto
  next
    case (skip p)
    then show ?thesis using Cons.IH [of rem cost] Cons.prems by (auto simp: matches_def)
  next
    case (halt e)
    then show ?thesis using Cons.prems by auto
  qed
qed simp

lemma sum_cost_filter:
  "\<forall>l \<in> set ls. 0 \<le> lot_quantity l \<and> (lot_quantity l = 0 \<longrightarrow> lot_cost_basis_usdt l = 0) \<Longrightarrow>
     sum_list (map lot_cost_basis_usdt (filter (\<lambda>l. 0 < lot_quantity l) ls)) = sum_list (map lot_cost_basis_usdt ls)"
  by (induction ls) auto

lemma dust_consume_cost:
  assumes inv: "dust_inv now lots" and res: "dust_consume asset quantity pair_id t lots = Return c lots'"
    and exact: "exact_walk asset pair_id (sort_key dust_fifo_key lots) quantity 0"
  shows "consumed_cost_basis_usdt c + sum_list (map lot_cost_basis_usdt lots') = sum_list (map lot_cost_basis_usdt lots)"
proof -
  let ?s = "sort_key dust_fifo_key lots"
  let ?p = "walk_lots consume_share True asset pair_id t ?s quantity 0"
  let ?w = "rewrite_lots lots (lp_lots ?p)"
  note r = dust_consume_Return [OF res]
  have dist: "distinct (map lot_capital_id lots)" using inv by (simp add: dust_inv_def)
  have steps: "list_all2 lot_step ?s (lp_lots ?p)" using walk_lots_steps [of quantity] r(1) by simp
  have ms: "mset ?w = mset (lp_lots ?p)" by (rule rewrite_lots_mset [OF steps dist])
  have "\<forall>l \<in> set ?s. 0 < lot_quantity l \<and> exact28 (lot_cost_basis_usdt l)" using inv by (simp add: dust_inv_def)
  note walk = walk_lots_cost [OF exact this, of t]
  have sw: "set ?w = set (lp_lots ?p)" using ms by (metis set_mset_mset)
  have "\<forall>l \<in> set ?w. 0 \<le> lot_quantity l"
    using lot_steps_from [OF rewrite_lots_steps [OF steps dist]] inv by (auto simp: lot_step_def dust_inv_def)
  then have "sum_list (map lot_cost_basis_usdt lots') = sum_list (map lot_cost_basis_usdt ?w)"
    unfolding r(6) using walk sw by (intro sum_cost_filter) auto
  also have "\<dots> = sum_list (map lot_cost_basis_usdt (lp_lots ?p))"
    using ms by (metis mset_map sum_mset_sum_list)
  also have "sum_list (map lot_cost_basis_usdt ?s) = sum_list (map lot_cost_basis_usdt lots)"
    by (metis mset_map mset_sort sum_mset_sum_list)
  ultimately show ?thesis using walk r(5) by (simp add: consumption_of_def)
qed

lemma reserve_aggregated_dust_conserves:
  assumes inv: "ledger_inv L" and r: "reserve_aggregated_dust pair_id asset quantity mark now L = Return cid L'"
    and exact: "exact_op (AggregateDust pair_id asset quantity mark now) L"
  shows "conserves L L'"
proof (rule reserve_aggregated_dust_Return [OF r])
  fix c :: dust_consumption and lots st
  let ?p = "(new_position cid pair_id st (consumed_cost_basis_usdt c) (dmul quantity mark) asset
                 quantity now ''DUST_AGGREGATION'')
               \<lparr>cap_source_capital_ids := consumed_source_capital_ids c,
                cap_source_cycles := consumed_source_cycles c\<rparr>"
  assume d: "dust_consume asset quantity pair_id now (dust_lots L) = Return c lots"
    and st: "pair_state pair_id False True = Inr st" and cid: "cid = capital_id (Suc (capital_sequence L))"
    and L': "L' = (log_event (DUST_AGGREGATED_FOR_RETURN now cid asset quantity)
            (set_position cid ?p (L\<lparr>dust_lots := lots, capital_sequence := Suc (capital_sequence L)\<rparr>)))
            \<lparr>capital_last_event_us := now\<rparr>"
  have new: "dict_get (positions L) cid = None" unfolding cid by (rule inv_next_free [OF inv])
  have "position_value ?p = consumed_cost_basis_usdt c" by (simp add: position_value_def new_position_def)
  moreover have "cash_position ?p" using pair_state_cases [OF st] by (auto simp: cash_position_def)
  moreover have "consumed_cost_basis_usdt c + sum_list (map lot_cost_basis_usdt lots) =
      sum_list (map lot_cost_basis_usdt (dust_lots L))"
    using dust_consume_cost [OF inv_dust_inv [OF inv] d] exact by simp
  ultimately show ?thesis
    using sum_list_new [OF new, of position_value ?p]
    by (auto simp: conserves_def book_value_def L' intro: cash_set)
qed

section \<open>Settlement\<close>

text \<open>With exact arithmetic a settlement splits the costs, and a complete sale leaves none.\<close>

lemma settlement_exact:
  assumes ex: "exact_settlement p sold proceeds L"
  defines "s \<equiv> settlement_of p sold proceeds"
  shows "dadd (free_usdt L) proceeds = free_usdt L + proceeds"
    and "dadd (realized_pnl_usdt L) (st_fill_realized s) = realized_pnl_usdt L + st_fill_realized s"
    and "st_fill_realized s = proceeds - st_sold_cost_basis s - st_sold_attributable s"
    and "st_residual_cost_basis s = cap_cost_basis p - st_sold_cost_basis s"
    and "st_residual_attributable s = cap_attributable_costs p - st_sold_attributable s"
    and "dadd (st_residual_cost_basis s) (st_residual_attributable s) =
      st_residual_cost_basis s + st_residual_attributable s"
    and "0 < sold \<Longrightarrow> st_residual_quantity s = 0 \<Longrightarrow> st_residual_cost_basis s + st_residual_attributable s = 0"
proof -
  note d = exact_settlement_def Let_def sold_share_def settlement_of_def
  show "dadd (free_usdt L) proceeds = free_usdt L + proceeds" using ex by (simp add: d dadd_exact)
  show f: "st_fill_realized s = proceeds - st_sold_cost_basis s - st_sold_attributable s"
    and c: "st_residual_cost_basis s = cap_cost_basis p - st_sold_cost_basis s"
    and a: "st_residual_attributable s = cap_attributable_costs p - st_sold_attributable s"
    using ex by (simp_all add: s_def d dsub_exact)
  show "dadd (realized_pnl_usdt L) (st_fill_realized s) = realized_pnl_usdt L + st_fill_realized s"
    using ex unfolding f by (simp add: s_def d dadd_exact)
  show "dadd (st_residual_cost_basis s) (st_residual_attributable s) =
      st_residual_cost_basis s + st_residual_attributable s"
    using ex unfolding c a by (simp add: s_def d dadd_exact)
  show "st_residual_cost_basis s + st_residual_attributable s = 0" if "0 < sold" "st_residual_quantity s = 0"
  proof -
    have "cap_quantity p = sold" using that(2) by (simp add: s_def d)
    then have "st_sold_cost_basis s = cap_cost_basis p" "st_sold_attributable s = cap_attributable_costs p"
      using ex that(1) by (simp_all add: s_def d dmul_def ddiv_def exact28_def)
    then show ?thesis by (simp add: c a)
  qed
qed

lemma settle_return_conserves:
  assumes inv: "ledger_inv L" and cash: "cash_ok L"
    and r: "settle_return cid cyc sold proceeds rmark now aid order_done L = Return x L'"
    and exact: "exact_op (SettleReturn cid cyc sold proceeds rmark now aid order_done) L"
  shows "conserves L L'"
proof (rule settle_return_Return [OF r])
  fix p :: capital_position and auth
  let ?s = "settlement_of p sold proceeds"
  let ?L1 = "L\<lparr>free_usdt := dadd (free_usdt L) proceeds,
           realized_pnl_usdt := dadd (realized_pnl_usdt L) (st_fill_realized ?s)\<rparr>"
  assume p: "dict_get (positions L) cid = Some p" and st: "cap_state p \<in> {RETURN_PAIR_A, RETURN_PAIR_B}"
    and pos: "0 < sold" and q: "sold \<le> cap_quantity p"
    and s: "(if order_done then settle_complete cid p ?s cyc rmark now aid auth ?L1
      else settle_partial cid p ?s cyc sold proceeds now ?L1) = Return x L'"
  have ex: "exact_settlement p sold proceeds L" using exact p by simp
  note e = settlement_exact(1-5) [OF ex] and lot = settlement_exact(6) [OF ex]
    and gone = settlement_exact(7) [OF ex pos]
  show ?thesis
  proof (cases order_done)
    case True
    then have "settle_complete cid p ?s cyc rmark now aid auth ?L1 = Return x L'" using s by simp
    note L' = settle_complete_Return(3) [OF this]
    have lots: "dust_lots L' = dust_lots L @
        (if 0 < st_residual_quantity ?s then [residual_lot cid p ?s cyc now] else [])"
      unfolding L' by (cases auth) (simp_all add: consume_authorization_def)
    have "sum_list (map lot_cost_basis_usdt (dust_lots L')) = sum_list (map lot_cost_basis_usdt (dust_lots L)) +
        (st_residual_cost_basis ?s + st_residual_attributable ?s)"
    proof (cases "0 < st_residual_quantity ?s")
      case True
      then show ?thesis by (simp only: lots if_True residual_lot_def dust_lot.simps lot map_append
          list.map sum_list_append sum_list_simps add_0_right)
    next
      case False
      moreover have "st_residual_quantity ?s = 0" using False q by simp
      ultimately show ?thesis
        by (simp only: lots if_False append_Nil2 gone add_0_right)
    qed
    moreover have "positions L' = dict_del cid (positions L)" "free_usdt L' = free_usdt L + proceeds"
      "realized_pnl_usdt L' = realized_pnl_usdt L + st_fill_realized ?s"
      unfolding L' by (cases auth; simp add: consume_authorization_def e(1,2))+
    ultimately show ?thesis
      using sum_list_del [OF p inv_distinct [OF inv], of position_value] e(3-5)
      by (simp add: conserves_def book_value_def position_value_def cash_del)
  next
    case False
    then have "settle_partial cid p ?s cyc sold proceeds now ?L1 = Return x L'" using s by simp
    then show ?thesis
    proof (rule settle_partial_Return)
      fix mark
      let ?p = "p\<lparr>cap_quantity := st_residual_quantity ?s, cap_cost_basis := st_residual_cost_basis ?s,
                 cap_attributable_costs := st_residual_attributable ?s,
                 cap_marked_value := dmul (st_residual_quantity ?s) mark,
                 cap_returned_proceeds := st_proceeds ?s, cap_returned_quantity := st_sold_quantity ?s,
                 cap_returned_cost_basis := st_cost_basis ?s,
                 cap_returned_attributable_costs := st_attributable ?s,
                 cap_pending_cycle_id := Some cyc\<rparr>"
      assume L': "L' = (log_event (RETURN_PARTIAL_FILL_SETTLED now cid cyc sold proceeds (st_residual_quantity ?s))
            (set_position cid ?p ?L1))\<lparr>capital_last_event_us := now\<rparr>"
      have "cash_position ?p" using st by (auto simp: cash_position_def)
      then show ?thesis
        using sum_list_set [OF p, of position_value ?p] e
        by (auto simp: conserves_def book_value_def L' position_value_def intro: cash_set)
    qed
  qed
qed

section \<open>Runs\<close>

lemma exec_capital_conserves:
  assumes inv: "ledger_inv L" and cash: "cash_ok L" and res: "exec_capital op L = Return r L'"
    and exact: "exact_op op L" and mark: "\<not> marks_cash op"
  shows "conserves L L'"
proof (cases op)
  case (Reserve c amount now)
  then obtain cid where "reserve c amount now L = Return cid L'"
    using res by (auto simp: constructing_def new_candidate_def split: if_splits)
  then show ?thesis using reserve_conserves [OF inv] exact Reserve by simp
next
  case (RegisterAuthorization a now)
  then have "register_risk_exit_authorization a now L = Return () L'"
    using res by (auto simp: constructing_def new_authorization_def split: if_splits)
  then show ?thesis by (rule register_risk_exit_authorization_conserves)
qed (use res exact mark in \<open>auto intro: request_cancel_conserves acknowledge_cancel_conserves [OF inv cash]
    record_entry_fill_conserves [OF inv cash] reserve_owned_return_conserves
    move_untradeable_inventory_to_dust_conserves [OF inv] consolidate_inventory_conserves [OF inv]
    settle_return_conserves [OF inv cash] reserve_aggregated_dust_conserves [OF inv]
    update_mark_conserves [OF inv] update_asset_mark_conserves [OF inv cash] simp del: exact_op.simps\<close>)

lemma run_conserves:
  "ledger_inv L \<Longrightarrow> cash_ok L \<Longrightarrow> run_ops exec_capital ops L = Return rs L' \<Longrightarrow> exact_run ops L \<Longrightarrow>
     book_value L' - realized_pnl_usdt L' = book_value L - realized_pnl_usdt L"
proof (induction ops arbitrary: L rs)
  case (Cons op ops)
  then obtain r L1 rs' where *: "exec_capital op L = Return r L1" "run_ops exec_capital ops L1 = Return rs' L'"
    by auto
  have c: "conserves L L1" using exec_capital_conserves [OF Cons.prems(1,2) *(1)] Cons.prems(4) by simp
  then have "cash_ok L1" using Cons.prems(2) by (simp add: conserves_def)
  then have "book_value L' - realized_pnl_usdt L' = book_value L1 - realized_pnl_usdt L1"
    using Cons.IH [OF _ _ *(2)] exec_capital_Return [OF Cons.prems(1) *(1)] Cons.prems(4) *(1) by simp
  then show ?case using c by (simp add: conserves_def)
qed simp

section \<open>Properties\<close>

text \<open>
  C1: money is conserved. In a run of the shared-capital ledger whose sums and differences
  (and the products that a sale divides again) fit into the 28 digits and that never marks the
  cash asset, the free balance, the cost of every position and the cost of all dust add up to
  the initial bank of 200 plus the realized profit and loss. That costs are moved and not
  copied, from the dust lots to the position that aggregates them and from a position to its
  sale and its residual lot, is part of what is proved.
\<close>

theorem money_is_conserved:
  assumes "run_ops exec_capital ops initial_ledger = Return rs L" and "exact_run ops initial_ledger"
  shows "free_usdt L + sum_list (map position_value (dict_values (positions L))) +
         sum_list (map lot_cost_basis_usdt (dust_lots L)) = 200 + realized_pnl_usdt L"
proof -
  have "cash_ok initial_ledger" "book_value initial_ledger = 200" "realized_pnl_usdt initial_ledger = 0"
    by (simp_all add: cash_ok_def book_value_def initial_ledger_def)
  then show ?thesis using run_conserves [OF initial_ledger_inv _ assms] by (simp add: book_value_def)
qed

definition conserving_ops :: "capital_op list" where
  "conserving_ops =
     [Reserve sample_candidate 100 10,
      EntryFill ''M035-CAP-000001'' ''USDC'' 50 1 (1 / 10) 20 (Some 50),
      ReserveOwnedReturn ''M035-CAP-000002'' 30,
      SettleReturn ''M035-CAP-000002'' ''K1'' 40 41 1 40 None True,
      AggregateDust (cand_pair_id sample_candidate) ''USDC'' 4 1 50]"

lemma exact28_code [code]: "exact28 x = (dround28_code x = x)"
  by (simp add: exact28_def dround28_code)

theorem money_is_conserved_witness:
  "\<exists>rs L. run_ops exec_capital conserving_ops initial_ledger = Return rs L \<and>
     length (dust_lots L) = 1 \<and> length (positions L) = 2 \<and>
     free_usdt L + sum_list (map position_value (dict_values (positions L))) +
       sum_list (map lot_cost_basis_usdt (dust_lots L)) = 200 + realized_pnl_usdt L"
proof -
  have "(case run_ops exec_capital conserving_ops initial_ledger of
      Return rs L \<Rightarrow> length (dust_lots L) = 1 \<and> length (positions L) = 2 | Raise _ _ \<Rightarrow> False) \<and>
    exact_run conserving_ops initial_ledger" by code_simp
  then obtain rs L where r: "run_ops exec_capital conserving_ops initial_ledger = Return rs L"
    "length (dust_lots L) = 1" "length (positions L) = 2" and e: "exact_run conserving_ops initial_ledger"
    by (auto split: outcome.splits)
  from money_is_conserved [OF r(1) e] r show ?thesis by blast
qed

end
