(* ===== verification/M035_Allocator.thy ===== *)
theory M035_Allocator
  imports M035_Ledger_Facts
begin

text \<open>
  \<^verbatim>\<open>ParallelPairCapitalAllocator\<close> of \<^verbatim>\<open>parallel_pair_capital_manager.py\<close>: simultaneous
  requests of the two pairs are ranked and served from the single free balance. The proofs
  follow one candidate at a time through the loop; the claims are that the allocator never
  grants more than there is, respects the ranking, and cannot fail on entry requests.
\<close>

record allocation_grant =
  grant_candidate_id :: string
  grant_capital_id :: string
  grant_pair_id :: string
  grant_amount_usdt :: decimal
  grant_priority :: allocation_priority

type_synonym ranking_key = "int \<times> decimal \<times> decimal \<times> decimal \<times> decimal \<times> string"

definition ranking :: "allocation_candidate \<Rightarrow> ranking_key" where
  "ranking c = (priority_value (cand_priority c), dneg (cand_marginal_productivity c),
     dneg (cand_fifo_value c), cand_expected_lock_seconds c, dneg (cand_expected_net_edge c), cand_id c)"

definition grant_of :: "allocation_candidate \<Rightarrow> string \<Rightarrow> decimal \<Rightarrow> allocation_grant" where
  "grant_of c cid amount =
     \<lparr>grant_candidate_id = cand_id c, grant_capital_id = cid, grant_pair_id = cand_pair_id c,
      grant_amount_usdt = amount, grant_priority = cand_priority c\<rparr>"

text \<open>
  A request for an owned return does not use free capital: it reserves the position itself.
  The grant reads the position after its reservation, which does not change the mark.
\<close>

definition grant_owned_return ::
    "allocation_candidate \<Rightarrow> int \<Rightarrow> capital_ledger \<Rightarrow> (allocation_grant, capital_ledger) outcome" where
  "grant_owned_return c now L =
     (case cand_existing_capital_id c of
        None \<Rightarrow> Raise AssertionError L
      | Some cid \<Rightarrow> with_position cid L (\<lambda>p.
          if cap_pair_id p \<noteq> cand_pair_id c
          then Raise (ValueError ''M035_OWNED_RETURN_PAIR_MISMATCH'') L
          else and_then (reserve_owned_return cid now L)
                 (\<lambda>_ L1. Return (grant_of c cid (cap_marked_value p)) L1)))"

text \<open>
  The loop over the ranked candidates: \<open>break\<close> once nothing is free (the owned returns rank
  first), \<open>continue\<close> past a request that refuses a partial grant.
\<close>

primrec allocate_ranked ::
    "int \<Rightarrow> allocation_candidate list \<Rightarrow> capital_ledger \<Rightarrow>
     (allocation_grant list, capital_ledger) outcome" where
  "allocate_ranked now [] L = Return [] L"
| "allocate_ranked now (c # cs) L =
     (if cand_priority c = OWNED_RETURN
      then and_then (grant_owned_return c now L) (\<lambda>g L1.
             and_then (allocate_ranked now cs L1) (\<lambda>gs L2. Return (g # gs) L2))
      else if free_usdt L \<le> 0 then Return [] L
      else
        let amount = min (cand_requested_usdt c) (free_usdt L)
        in if amount < cand_requested_usdt c \<and> \<not> cand_allow_partial c
           then allocate_ranked now cs L
           else and_then (reserve c amount now L) (\<lambda>cid L1.
                  and_then (allocate_ranked now cs L1)
                    (\<lambda>gs L2. Return (grant_of c cid amount # gs) L2)))"

definition allocate ::
    "allocation_candidate list \<Rightarrow> int \<Rightarrow> capital_ledger \<Rightarrow>
     (allocation_grant list, capital_ledger) outcome" where
  "allocate cs now L =
     and_then (allocate_ranked now (sort_key ranking cs) L) (\<lambda>gs L1.
       and_then (reconcile L1) (\<lambda>_ L2. Return gs L2))"

section \<open>One grant\<close>

definition entry_request :: "allocation_candidate \<Rightarrow> bool" where
  "entry_request c \<longleftrightarrow> new_candidate c = Inr c \<and> cand_priority c \<noteq> OWNED_RETURN"

lemma entry_request_facts:
  "entry_request c \<Longrightarrow> 0 < cand_requested_usdt c \<and> known_pair (cand_pair_id c) \<and> cand_priority c \<noteq> OWNED_RETURN"
  by (auto simp: entry_request_def new_candidate_def split: if_splits)

lemma grant_owned_return_Return:
  assumes "grant_owned_return c now L = Return g L'"
  obtains cid p where "cand_existing_capital_id c = Some cid" "dict_get (positions L) cid = Some p"
    "cap_pair_id p = cand_pair_id c" "reserve_owned_return cid now L = Return () L'"
    "g = grant_of c cid (cap_marked_value p)"
  using assms by (auto simp: grant_owned_return_def with_position_Return split: option.splits if_splits)

lemma grant_owned_return_effect:
  assumes "ledger_inv L" "grant_owned_return c now L = Return g L'"
  shows "ledger_inv L'" "free_usdt L' = free_usdt L" "grant_priority g = cand_priority c"
    "grant_candidate_id g = cand_id c"
proof -
  from assms(2) obtain cid where r: "reserve_owned_return cid now L = Return () L'"
    and g: "\<exists>a. g = grant_of c cid a" by (rule grant_owned_return_Return) blast
  show "ledger_inv L'" using reserve_owned_return_step [OF assms(1), of now cid] r by (simp add: step_ok_def)
  show "free_usdt L' = free_usdt L" by (rule reserve_owned_return_Return [OF r]) simp
  show "grant_priority g = cand_priority c" "grant_candidate_id g = cand_id c"
    using g by (auto simp: grant_of_def)
qed

lemma reserve_effect:
  assumes "ledger_inv L" "known_pair (cand_pair_id c)" "reserve c amount now L = Return cid L'"
  shows "ledger_inv L'" "free_usdt L' = dsub (free_usdt L) amount" "capital_last_event_us L' = now"
    "0 < amount" "amount \<le> cand_requested_usdt c" "amount \<le> free_usdt L"
proof -
  show "ledger_inv L'" "capital_last_event_us L' = now"
    using reserve_step [OF assms(1,2), of now amount] assms(3) by (simp_all add: step_ok_def)
  show "free_usdt L' = dsub (free_usdt L) amount" "0 < amount" "amount \<le> cand_requested_usdt c"
      "amount \<le> free_usdt L"
    by (rule reserve_Return [OF assms(3)]; simp)+
qed

text \<open>The four ways the loop goes on, as an elimination rule.\<close>

lemma allocate_ranked_Cons:
  assumes "allocate_ranked now (c # cs) L = Return gs L'"
  obtains (owned) g gs' L1 where "cand_priority c = OWNED_RETURN" "grant_owned_return c now L = Return g L1"
      "allocate_ranked now cs L1 = Return gs' L'" "gs = g # gs'"
    | (empty) "cand_priority c \<noteq> OWNED_RETURN" "free_usdt L \<le> 0" "gs = []" "L' = L"
    | (refused) "cand_priority c \<noteq> OWNED_RETURN" "free_usdt L < cand_requested_usdt c"
      "\<not> cand_allow_partial c" "allocate_ranked now cs L = Return gs L'"
    | (granted) cid gs' L1 where "cand_priority c \<noteq> OWNED_RETURN"
      "reserve c (min (cand_requested_usdt c) (free_usdt L)) now L = Return cid L1"
      "allocate_ranked now cs L1 = Return gs' L'"
      "gs = grant_of c cid (min (cand_requested_usdt c) (free_usdt L)) # gs'"
  using assms by (auto simp: Let_def split: if_splits)

lemma grant_of_fields [simp]:
  "grant_candidate_id (grant_of c cid a) = cand_id c" "grant_amount_usdt (grant_of c cid a) = a"
  "grant_priority (grant_of c cid a) = cand_priority c" "grant_capital_id (grant_of c cid a) = cid"
  "grant_pair_id (grant_of c cid a) = cand_pair_id c"
  by (simp_all add: grant_of_def)

definition valid_requests :: "allocation_candidate list \<Rightarrow> bool" where
  "valid_requests cs \<longleftrightarrow> (\<forall>c \<in> set cs. new_candidate c = Inr c)"

lemma valid_requests_Cons [simp]:
  "valid_requests (c # cs) \<longleftrightarrow> new_candidate c = Inr c \<and> valid_requests cs"
  by (simp add: valid_requests_def)

lemma valid_known: "new_candidate c = Inr c \<Longrightarrow> known_pair (cand_pair_id c)"
  by (auto dest: new_candidate_Inr)

lemma valid_requested: "new_candidate c = Inr c \<Longrightarrow> 0 < cand_requested_usdt c"
  by (auto simp: new_candidate_def split: if_splits)

lemma allocate_ranked_inv:
  "ledger_inv L \<Longrightarrow> valid_requests cs \<Longrightarrow> allocate_ranked now cs L = Return gs L' \<Longrightarrow> ledger_inv L'"
proof (induction cs arbitrary: L gs)
  case (Cons c cs)
  from Cons.prems(3) show ?case
  proof (cases rule: allocate_ranked_Cons)
    case (owned g gs' L1)
    then show ?thesis using Cons grant_owned_return_effect(1) by (metis valid_requests_Cons)
  next
    case (granted cid gs' L1)
    then show ?thesis using Cons reserve_effect(1) valid_known by (metis valid_requests_Cons)
  qed (use Cons in \<open>auto\<close>)
qed simp

section \<open>Entry requests always succeed\<close>

lemma allocate_ranked_total:
  "ledger_inv L \<Longrightarrow> \<forall>c \<in> set cs. entry_request c \<Longrightarrow> capital_last_event_us L \<le> now \<Longrightarrow>
     \<exists>gs L'. allocate_ranked now cs L = Return gs L'"
proof (induction cs arbitrary: L)
  case (Cons c cs)
  have c: "0 < cand_requested_usdt c" "known_pair (cand_pair_id c)" "cand_priority c \<noteq> OWNED_RETURN"
    using Cons.prems(2) entry_request_facts [of c] by auto
  let ?a = "min (cand_requested_usdt c) (free_usdt L)"
  show ?case
  proof (cases "free_usdt L \<le> 0 \<or> (?a < cand_requested_usdt c \<and> \<not> cand_allow_partial c)")
    case True
    then show ?thesis using c Cons by (auto simp: Let_def)
  next
    case False
    then have a: "0 < ?a" "?a \<le> cand_requested_usdt c" "?a \<le> free_usdt L" using c by auto
    obtain L1 where r: "reserve c ?a now L = Return (capital_id (Suc (capital_sequence L))) L1"
      by (rule reserve_succeeds [OF Cons.prems(1) c(2) Cons.prems(3) a]) blast
    note e = reserve_effect [OF Cons.prems(1) c(2) r]
    obtain gs L' where "allocate_ranked now cs L1 = Return gs L'"
      using Cons.IH [OF e(1)] Cons.prems(2) e(3) by auto
    then show ?thesis using r c(3) False by (auto simp: Let_def)
  qed
qed simp

section \<open>Within the capital\<close>

definition granted_amounts :: "allocation_grant list \<Rightarrow> decimal" where
  "granted_amounts gs =
     sum_list (map grant_amount_usdt (filter (\<lambda>g. grant_priority g \<noteq> OWNED_RETURN) gs))"

lemma allocate_ranked_conserves:
  "ledger_inv L \<Longrightarrow> valid_requests cs \<Longrightarrow> allocate_ranked now cs L = Return gs L' \<Longrightarrow>
     on_flow_grid k (free_usdt L) \<Longrightarrow> \<forall>c \<in> set cs. on_flow_grid k (cand_requested_usdt c) \<Longrightarrow>
     free_usdt L = granted_amounts gs + free_usdt L'"
proof (induction cs arbitrary: L gs)
  case (Cons c cs)
  from Cons.prems(3) show ?case
  proof (cases rule: allocate_ranked_Cons)
    case (owned g gs' L1)
    note e = grant_owned_return_effect [OF Cons.prems(1) owned(2)]
    have "free_usdt L1 = granted_amounts gs' + free_usdt L'"
      using Cons.IH [OF e(1) _ owned(3)] Cons.prems e(2) by simp
    then show ?thesis using owned e by (simp add: granted_amounts_def)
  next
    case (granted cid gs' L1)
    let ?a = "min (cand_requested_usdt c) (free_usdt L)"
    note e = reserve_effect [OF Cons.prems(1) valid_known granted(2)]
    have a: "on_flow_grid k ?a" using Cons.prems(4,5) by (intro flow_grid_min) simp_all
    have "dsub (free_usdt L) ?a = free_usdt L - ?a" using flow_grid_sub [OF Cons.prems(4) a] by simp
    moreover have "on_flow_grid k (free_usdt L - ?a)" using flow_grid_diff [OF Cons.prems(4) a] by simp
    ultimately have "free_usdt L1 = granted_amounts gs' + free_usdt L'"
      using Cons.IH [OF e(1) _ granted(3)] Cons.prems e(2) by simp
    then show ?thesis using granted \<open>dsub (free_usdt L) ?a = free_usdt L - ?a\<close> e(2) Cons.prems(2)
      by (simp add: granted_amounts_def)
  qed (use Cons in \<open>auto simp: granted_amounts_def\<close>)
qed (simp add: granted_amounts_def)

section \<open>Respecting the ranking\<close>

lemma allocate_ranked_grants:
  "allocate_ranked now cs L = Return gs L' \<Longrightarrow> g \<in> set gs \<Longrightarrow>
     ledger_inv L \<Longrightarrow> valid_requests cs \<Longrightarrow>
     \<exists>c \<in> set cs. grant_candidate_id g = cand_id c \<and> grant_priority g = cand_priority c \<and>
       (cand_priority c \<noteq> OWNED_RETURN \<longrightarrow>
          0 < grant_amount_usdt g \<and> grant_amount_usdt g \<le> cand_requested_usdt c \<and>
          grant_amount_usdt g \<le> free_usdt L)"
proof (induction cs arbitrary: L gs)
  case (Cons c cs)
  from Cons.prems(1) show ?case
  proof (cases rule: allocate_ranked_Cons)
    case (owned g' gs' L1)
    note e = grant_owned_return_effect [OF Cons.prems(3) owned(2)]
    show ?thesis
    proof (cases "g = g'")
      case True
      then show ?thesis using e owned(1) by auto
    next
      case False
      then have "g \<in> set gs'" using owned(4) Cons.prems(2) by simp
      from Cons.IH [OF owned(3) this e(1)] Cons.prems(4) e(2) show ?thesis by auto
    qed
  next
    case (granted cid gs' L1)
    let ?a = "min (cand_requested_usdt c) (free_usdt L)"
    have k: "known_pair (cand_pair_id c)" using Cons.prems(4) by (simp add: valid_known)
    note e = reserve_effect [OF Cons.prems(3) k granted(2)]
    show ?thesis
    proof (cases "g = grant_of c cid ?a")
      case True
      then show ?thesis using e(4-6) granted(1) by (intro bexI [of _ c]) auto
    next
      case False
      then have "g \<in> set gs'" using granted(4) Cons.prems(2) by simp
      moreover have "free_usdt L1 \<le> free_usdt L"
        using e(2,4) dsub_le [of ?a "free_usdt L"] inv_free_exact [OF Cons.prems(3)] by simp
      ultimately show ?thesis using Cons.IH [OF granted(3) _ e(1)] Cons.prems(4) by force
    qed
  next
    case refused
    then show ?thesis using Cons.IH [OF refused(4) Cons.prems(2,3)] Cons.prems(4) by auto
  qed (use Cons in auto)
qed simp

lemma ranked_after: "sorted (map ranking (c # cs)) \<Longrightarrow> c' \<in> set cs \<Longrightarrow> ranking c \<le> ranking c'"
  by auto

lemma ranking_priority: "ranking c \<le> ranking c' \<Longrightarrow> cand_priority c' = OWNED_RETURN \<Longrightarrow> cand_priority c = OWNED_RETURN"
  by (cases "cand_priority c") (auto simp: ranking_def)

lemma allocate_ranked_order:
  "allocate_ranked now cs L = Return gs L' \<Longrightarrow> sorted (map ranking cs) \<Longrightarrow> distinct (map cand_id cs) \<Longrightarrow>
     ledger_inv L \<Longrightarrow> valid_requests cs \<Longrightarrow> better \<in> set cs \<Longrightarrow> worse \<in> set cs \<Longrightarrow>
     ranking better < ranking worse \<Longrightarrow> cand_priority better \<noteq> OWNED_RETURN \<Longrightarrow>
     g \<in> set gs \<Longrightarrow> grant_candidate_id g = cand_id worse \<Longrightarrow>
     cand_id better \<in> grant_candidate_id ` set gs \<or>
     (\<not> cand_allow_partial better \<and> grant_amount_usdt g < cand_requested_usdt better)"
proof (induction cs arbitrary: L gs)
  case (Cons c cs)
  have worse: "worse \<in> set cs"
  proof (rule ccontr)
    assume "worse \<notin> set cs"
    then have "worse = c" using Cons.prems(7) by simp
    then have "ranking worse \<le> ranking better" using Cons.prems(2,6) by auto
    then show False using Cons.prems(8) by simp
  qed
  then have "cand_id worse \<in> cand_id ` set cs" by (rule imageI)
  then have id: "cand_id worse \<noteq> cand_id c" using Cons.prems(3) by auto
  have sd: "sorted (map ranking cs)" "distinct (map cand_id cs)" "valid_requests cs"
    using Cons.prems(2,3,5) by simp_all
  have later: "cand_id better \<in> grant_candidate_id ` set gs' \<or>
      (\<not> cand_allow_partial better \<and> grant_amount_usdt g < cand_requested_usdt better)"
    if "allocate_ranked now cs L1 = Return gs' L'" "ledger_inv L1" "better \<in> set cs" "g \<in> set gs'" for L1 gs'
    by (rule Cons.IH [OF that(1) sd(1,2) that(2) sd(3) that(3) worse Cons.prems(8,9) that(4) Cons.prems(11)])
  from Cons.prems(1) show ?case
  proof (cases rule: allocate_ranked_Cons)
    case (owned g' gs' L1)
    note e = grant_owned_return_effect [OF Cons.prems(4) owned(2)]
    have "better \<in> set cs" using owned(1) Cons.prems(6,9) by auto
    moreover have "g \<in> set gs'" using Cons.prems(10,11) owned(4) e(4) id by auto
    ultimately show ?thesis using later [OF owned(3) e(1)] owned(4) by auto
  next
    case (granted cid gs' L1)
    have k: "known_pair (cand_pair_id c)" using Cons.prems(5) by (simp add: valid_known)
    note e = reserve_effect [OF Cons.prems(4) k granted(2)]
    have "g \<in> set gs'" using Cons.prems(10,11) granted(4) id by auto
    then show ?thesis using later [OF granted(3) e(1)] granted(4) Cons.prems(6) by auto
  next
    case refused
    show ?thesis
    proof (cases "better = c")
      case True
      obtain c' where c': "c' \<in> set cs" "grant_candidate_id g = cand_id c'"
          "cand_priority c' \<noteq> OWNED_RETURN \<Longrightarrow> grant_amount_usdt g \<le> free_usdt L"
        using allocate_ranked_grants [OF refused(4) Cons.prems(10,4) sd(3)] by blast
      have "cand_priority c' \<noteq> OWNED_RETURN"
        using ranked_after [OF Cons.prems(2) c'(1)] ranking_priority refused(1) by blast
      then show ?thesis using True c'(3) refused by auto
    next
      case False
      then show ?thesis using later [OF refused(4) Cons.prems(4)] Cons.prems(6,10) by auto
    qed
  next
    case empty
    then show ?thesis using Cons.prems(10) by simp
  qed
qed simp

lemma allocate_ranked_returns:
  "allocate_ranked now cs L = Return gs L' \<Longrightarrow> sorted (map ranking cs) \<Longrightarrow> c \<in> set cs \<Longrightarrow>
     cand_priority c = OWNED_RETURN \<Longrightarrow> \<exists>g \<in> set gs. grant_candidate_id g = cand_id c \<and> grant_priority g = OWNED_RETURN"
proof (induction cs arbitrary: L gs)
  case (Cons h cs)
  from Cons.prems(3) have h: "cand_priority h = OWNED_RETURN"
    using ranking_priority [OF ranked_after [OF Cons.prems(2)]] Cons.prems(4) by auto
  from Cons.prems(1) show ?case
  proof (cases rule: allocate_ranked_Cons)
    case (owned g gs' L1)
    have "\<exists>cid a. g = grant_of h cid a" using owned(2) by (rule grant_owned_return_Return) blast
    then show ?thesis using Cons.IH [OF owned(3)] Cons.prems owned(4) h by auto
  qed (use h in simp_all)
qed simp

lemma allocate_Return:
  assumes "allocate cs now L = Return gs L'"
  shows "allocate_ranked now (sort_key ranking cs) L = Return gs L'" "reconcile_error L' = None"
  using assms by (auto simp: allocate_def reconcile_def split: option.splits)

lemma valid_requests_sort [simp]: "valid_requests (sort_key ranking cs) = valid_requests cs"
  by (simp add: valid_requests_def)

section \<open>Claims\<close>

text \<open>
  Allocation of entry requests never fails. From any consistent ledger, at a time not
  before its last event, requests that passed their own validation and do not ask for an
  owned return are allocated without an exception, whatever the free balance is, and the
  ledger stays consistent.
\<close>

lemma allocation_total:
  assumes inv: "ledger_inv L" and requests: "\<forall>c \<in> set cs. entry_request c" and time: "capital_last_event_us L \<le> now"
  shows "\<exists>gs L'. allocate cs now L = Return gs L' \<and> ledger_inv L'"
proof -
  obtain gs L' where r: "allocate_ranked now (sort_key ranking cs) L = Return gs L'"
    using allocate_ranked_total [OF inv _ time, of "sort_key ranking cs"] requests by auto
  have "ledger_inv L'"
    using allocate_ranked_inv [OF inv _ r] requests by (simp add: valid_requests_def entry_request_def)
  then show ?thesis using r reconcile_ok by (simp add: allocate_def reconcile_def)
qed

definition competing_requests :: "allocation_candidate list" where
  "competing_requests =
     [sample_candidate\<lparr>cand_requested_usdt := 150\<rparr>,
      sample_candidate\<lparr>cand_id := ''C2'', cand_pair_id := ''PAIR_B'', cand_requested_usdt := 120,
        cand_marginal_productivity := 2\<rparr>]"

lemma competing_valid: "\<forall>c \<in> set competing_requests. entry_request c"
  by (simp add: competing_requests_def entry_request_def new_candidate_def sample_candidate_def known_pair_def)

lemma allocation_total_witness: "\<exists>gs L'. allocate competing_requests 5 initial_ledger = Return gs L' \<and> ledger_inv L'"
  by (rule allocation_total [OF initial_ledger_inv competing_valid]) (simp add: initial_ledger_def)

text \<open>
  C29: the allocator never grants more than there is. On amounts with a common number of
  decimal places, what the grants to entry and risk requests take is exactly what the free
  balance loses, the balance stays non-negative, and every such grant is positive and at
  most what its candidate requested.
\<close>

theorem allocation_within_capital:
  assumes inv: "ledger_inv L" and requests: "\<forall>c \<in> set cs. new_candidate c = Inr c"
    and res: "allocate cs now L = Return gs L'"
    and grid: "on_flow_grid k (free_usdt L)" "\<forall>c \<in> set cs. on_flow_grid k (cand_requested_usdt c)"
  shows "granted_amounts gs = free_usdt L - free_usdt L' \<and> 0 \<le> free_usdt L' \<and>
     (\<forall>g \<in> set gs. grant_priority g \<noteq> OWNED_RETURN \<longrightarrow>
        (\<exists>c \<in> set cs. grant_candidate_id g = cand_id c \<and> 0 < grant_amount_usdt g \<and>
           grant_amount_usdt g \<le> cand_requested_usdt c))"
proof -
  note r = allocate_Return(1) [OF res]
  have v: "valid_requests (sort_key ranking cs)" using requests by (simp add: valid_requests_def)
  have "granted_amounts gs = free_usdt L - free_usdt L'"
    using allocate_ranked_conserves [OF inv v r grid(1)] grid(2) by simp
  moreover have "0 \<le> free_usdt L'" using inv_free [OF allocate_ranked_inv [OF inv v r]] .
  ultimately show ?thesis using allocate_ranked_grants [OF r _ inv v] by fastforce
qed

lemma competing_grants:
  "case allocate competing_requests 5 initial_ledger of
     Return gs L \<Rightarrow> map grant_candidate_id gs = [''C2'', ''C1''] \<and> map grant_amount_usdt gs = [120, 80] \<and>
       free_usdt L = 0
   | Raise _ _ \<Rightarrow> False"
  by code_simp

theorem allocation_within_capital_witness:
  "\<exists>gs L'. allocate competing_requests 5 initial_ledger = Return gs L' \<and> granted_amounts gs = 200"
proof -
  obtain gs L' where r: "allocate competing_requests 5 initial_ledger = Return gs L'" and f: "free_usdt L' = 0"
    using competing_grants by (auto split: outcome.splits)
  have "on_flow_grid 0 (free_usdt initial_ledger)"
    "\<forall>c \<in> set competing_requests. on_flow_grid 0 (cand_requested_usdt c)"
    by (simp_all add: on_flow_grid_def on_grid_def initial_ledger_def competing_requests_def sample_candidate_def pow10_def)
  from allocation_within_capital [OF initial_ledger_inv _ r this] competing_valid r f
  show ?thesis by (auto simp: entry_request_def initial_ledger_def)
qed

text \<open>
  Grants follow the ranking. Every owned return is granted. When a candidate is granted
  capital although a better ranked one got none, the better ranked one refused a partial
  grant and had asked for more than the other received.
\<close>

lemma allocation_follows_ranking:
  assumes inv: "ledger_inv L" and requests: "\<forall>c \<in> set cs. new_candidate c = Inr c" "distinct (map cand_id cs)"
    and res: "allocate cs now L = Return gs L'"
  shows "(\<forall>c \<in> set cs. cand_priority c = OWNED_RETURN \<longrightarrow> cand_id c \<in> grant_candidate_id ` set gs) \<and>
     (\<forall>better \<in> set cs. \<forall>worse \<in> set cs. \<forall>g \<in> set gs.
        ranking better < ranking worse \<longrightarrow> grant_candidate_id g = cand_id worse \<longrightarrow>
        cand_id better \<in> grant_candidate_id ` set gs \<or>
        (\<not> cand_allow_partial better \<and> grant_amount_usdt g < cand_requested_usdt better))"
proof -
  note r = allocate_Return(1) [OF res]
  have v: "valid_requests (sort_key ranking cs)" using requests by (simp add: valid_requests_def)
  have s: "sorted (map ranking (sort_key ranking cs))" by simp
  have d: "distinct (map cand_id (sort_key ranking cs))" using requests(2) by (simp add: distinct_map_sort)
  have returns: "cand_id c \<in> grant_candidate_id ` set gs" if "c \<in> set cs" "cand_priority c = OWNED_RETURN" for c
    using allocate_ranked_returns [OF r s _ that(2)] that(1) by force
  show ?thesis
    using returns allocate_ranked_order [OF r s d inv v] by (metis set_sort)
qed

lemma allocation_follows_ranking_witness:
  "\<exists>gs L'. allocate competing_requests 5 initial_ledger = Return gs L' \<and> ''C2'' \<in> grant_candidate_id ` set gs"
proof -
  obtain gs L' where r: "allocate competing_requests 5 initial_ledger = Return gs L'"
    and ids: "map grant_candidate_id gs = [''C2'', ''C1'']" and am: "map grant_amount_usdt gs = [120, 80]"
    using competing_grants by (auto split: outcome.splits)
  have d: "distinct (map cand_id competing_requests)"
    by (simp add: competing_requests_def sample_candidate_def)
  obtain b w where b: "b \<in> set competing_requests" "cand_id b = ''C2''" "cand_allow_partial b"
      "w \<in> set competing_requests" "cand_id w = ''C1''" "ranking b < ranking w"
  proof -
    have "\<exists>b \<in> set competing_requests. cand_id b = ''C2'' \<and> cand_allow_partial b \<and>
        (\<exists>w \<in> set competing_requests. cand_id w = ''C1'' \<and> ranking b < ranking w)" by code_simp
    then show ?thesis using that by (elim bexE conjE)
  qed
  have "''C1'' \<in> set (map grant_candidate_id gs)" unfolding ids by simp
  then obtain g where g: "g \<in> set gs" "grant_candidate_id g = ''C1''" by (auto simp only: set_map image_iff)
  have v: "\<forall>c \<in> set competing_requests. new_candidate c = Inr c"
    using competing_valid by (simp add: entry_request_def)
  note f = bspec [OF bspec [OF bspec [OF conjunct2 [OF allocation_follows_ranking [OF initial_ledger_inv v d r]]
    b(1)] b(4)] g(1)]
  have "cand_id b \<in> grant_candidate_id ` set gs"
    using f b(3,6) g(2) b(5) by simp
  then show ?thesis using r b(2) by auto
qed

end
