(* ===== verification/M035_Engine.thy ===== *)
theory M035_Engine
  imports M035_Ledger_Facts Causal_Queue_Inv
begin

text \<open>
  \<^verbatim>\<open>PairEngine\<close> of \<^verbatim>\<open>parallel_pair_capital_manager.py\<close>: the local hotline, grid and
  queue of one stablecoin pair, trading on the shared-capital ledger. The engine's record
  holds \<^verbatim>\<open>PairState\<close>, the queue and the ledger it was given; a call into the ledger or
  the queue writes the changed object back, also when the call raises.
\<close>

section \<open>Orders and engine state\<close>

datatype order_status =
    UNFUNDED
  | ACTIVE
  | PARTIAL
  | PARTIAL_FILLED
  | CANCEL_REQUESTED
  | CANCELLED
  | FILLED

text \<open>\<^const>\<open>CANCEL_REQUESTED\<close> is \<^verbatim>\<open>OrderStatus.CANCEL_PENDING\<close>; the capital states use that name.\<close>

record pair_order =
  po_id :: string
  po_pair_id :: string
  po_side :: string
  po_rank :: int
  po_column :: int
  po_price :: decimal
  po_quantity :: decimal
  po_submitted_at_us :: int
  po_status :: order_status
  po_replacement_price :: "decimal option"
  po_filled_quantity :: decimal
  po_capital_id :: "string option"
  po_inventory_capital_ids :: "string list"
  po_role :: string
  po_cycle_id :: "string option"
  po_authorization_id :: "string option"
  po_net_proceeds_usdt :: decimal

type_synonym grid_level = "string \<times> int \<times> int"

text \<open>A row of the event log; the affected levels as triples instead of their text.\<close>

record hotline_change =
  hc_timestamp :: int
  hc_pair :: string
  hc_old_hotline :: decimal
  hc_new_hotline :: decimal
  hc_reason :: string
  hc_affected :: "grid_level list"

record pair_engine =
  pe_pair_id :: string
  pe_symbol :: string
  pe_pair_asset :: string
  pe_tick_size :: decimal
  pe_hotline :: "decimal option"
  pe_bid :: "decimal option"
  pe_ask :: "decimal option"
  pe_orders :: "(string, pair_order) dict"
  pe_hotline_history :: "(int \<times> decimal) list"
  pe_event_log :: "hotline_change list"
  pe_cycle_history :: "string list"
  pe_realized_pnl :: decimal
  pe_inventory_quantity :: decimal
  pe_dust_quantity :: decimal
  pe_queue :: queue_estimator
  pe_ledger :: "capital_ledger option"
  pe_last_event_us :: int
  pe_sequence :: nat

definition new_pair_engine ::
    "string \<Rightarrow> string \<Rightarrow> string \<Rightarrow> decimal \<Rightarrow> capital_ledger option \<Rightarrow> py_error + pair_engine" where
  "new_pair_engine pair_id symbol asset tick L =
     (if \<not> known_pair pair_id \<or> tick \<le> 0 then Inl (ValueError ''M035_INVALID_PAIR_ENGINE'')
      else Inr \<lparr>pe_pair_id = pair_id, pe_symbol = symbol, pe_pair_asset = asset, pe_tick_size = tick,
                pe_hotline = None, pe_bid = None, pe_ask = None, pe_orders = [], pe_hotline_history = [],
                pe_event_log = [], pe_cycle_history = [], pe_realized_pnl = 0, pe_inventory_quantity = 0,
                pe_dust_quantity = 0, pe_queue = default_queue, pe_ledger = L, pe_last_event_us = -1,
                pe_sequence = 0\<rparr>)"

definition engine_causal :: "int \<Rightarrow> pair_engine \<Rightarrow> (unit, pair_engine) outcome" where
  "engine_causal now E =
     (if now < pe_last_event_us E then Raise (ValueError ''M035_NONCAUSAL_PAIR_EVENT'') E else Return () E)"

text \<open>Calls into the shared ledger and the queue; a probe runs on a deep copy.\<close>

definition on_ledger ::
    "(capital_ledger \<Rightarrow> ('a, capital_ledger) outcome) \<Rightarrow> pair_engine \<Rightarrow> ('a, pair_engine) outcome" where
  "on_ledger m E =
     (case pe_ledger E of
        None \<Rightarrow> Raise (ValueError ''M035_PAIR_ENGINE_HAS_NO_GLOBAL_LEDGER'') E
      | Some L \<Rightarrow> (case m L of
          Return r L' \<Rightarrow> Return r (E\<lparr>pe_ledger := Some L'\<rparr>)
        | Raise e L' \<Rightarrow> Raise e (E\<lparr>pe_ledger := Some L'\<rparr>)))"

text \<open>A call that is only made when there is a ledger.\<close>

definition if_ledger ::
    "(capital_ledger \<Rightarrow> ('a, capital_ledger) outcome) \<Rightarrow> 'a \<Rightarrow> pair_engine \<Rightarrow> ('a, pair_engine) outcome" where
  "if_ledger m a E = (if pe_ledger E \<noteq> None then on_ledger m E else Return a E)"

definition on_queue ::
    "(queue_estimator \<Rightarrow> ('a, queue_estimator) outcome) \<Rightarrow> pair_engine \<Rightarrow> ('a, pair_engine) outcome" where
  "on_queue m E =
     (case m (pe_queue E) of
        Return r q \<Rightarrow> Return r (E\<lparr>pe_queue := q\<rparr>)
      | Raise e q \<Rightarrow> Raise e (E\<lparr>pe_queue := q\<rparr>))"

definition probing :: "('a, 's) outcome \<Rightarrow> 't \<Rightarrow> ('a \<Rightarrow> ('b, 't) outcome) \<Rightarrow> ('b, 't) outcome" where
  "probing m E k = (case m of Return r _ \<Rightarrow> k r | Raise e _ \<Rightarrow> Raise e E)"

definition with_order ::
    "string \<Rightarrow> pair_engine \<Rightarrow> (pair_order \<Rightarrow> ('a, pair_engine) outcome) \<Rightarrow> ('a, pair_engine) outcome" where
  "with_order oid E k =
     (case dict_get (pe_orders E) oid of None \<Rightarrow> Raise KeyError E | Some ord \<Rightarrow> k ord)"

definition with_capital ::
    "string \<Rightarrow> pair_engine \<Rightarrow> capital_ledger \<Rightarrow> (capital_position \<Rightarrow> ('a, pair_engine) outcome) \<Rightarrow>
     ('a, pair_engine) outcome" where
  "with_capital cid E L k =
     (case dict_get (positions L) cid of None \<Rightarrow> Raise KeyError E | Some p \<Rightarrow> k p)"

definition set_order :: "string \<Rightarrow> pair_order \<Rightarrow> pair_engine \<Rightarrow> pair_engine" where
  "set_order oid ord E = E\<lparr>pe_orders := dict_set oid ord (pe_orders E)\<rparr>"

definition at_event :: "int \<Rightarrow> pair_engine \<Rightarrow> pair_engine" where
  "at_event now E = E\<lparr>pe_last_event_us := now\<rparr>"

section \<open>The grid\<close>

definition target_price :: "string \<Rightarrow> int \<Rightarrow> decimal option \<Rightarrow> pair_engine \<Rightarrow> py_error + decimal" where
  "target_price side rank hotline E =
     (case (case hotline of None \<Rightarrow> pe_hotline E | Some h \<Rightarrow> Some h) of
        None \<Rightarrow> Inl (ValueError ''M035_INVALID_GRID_TARGET'')
      | Some center \<Rightarrow>
          if side \<notin> {''BUY'', ''SELL''} \<or> \<not> (1 \<le> rank \<and> rank \<le> 7)
          then Inl (ValueError ''M035_INVALID_GRID_TARGET'')
          else Inr (dadd center (dmul (dmul (if side = ''BUY'' then -1 else 1) (of_int rank))
                                      (pe_tick_size E))))"

definition order_id :: "string \<Rightarrow> nat \<Rightarrow> string" where
  "order_id pair_id n = pair_id @ ''-O-'' @ zero_pad 5 n"

definition queue_activate :: "pair_order \<Rightarrow> int \<Rightarrow> pair_engine \<Rightarrow> queue_estimator \<Rightarrow> (own_order, queue_estimator) outcome" where
  "queue_activate ord now E q =
     activate (pe_symbol E) (po_side ord) (po_price ord) (po_id ord) (po_column ord) (po_quantity ord) 0 now q"

definition blank_order ::
    "string \<Rightarrow> string \<Rightarrow> string \<Rightarrow> int \<Rightarrow> int \<Rightarrow> decimal \<Rightarrow> decimal \<Rightarrow> int \<Rightarrow> order_status \<Rightarrow> pair_order" where
  "blank_order oid pair_id side rank column price quantity now st =
     \<lparr>po_id = oid, po_pair_id = pair_id, po_side = side, po_rank = rank, po_column = column,
      po_price = price, po_quantity = quantity, po_submitted_at_us = now, po_status = st,
      po_replacement_price = None, po_filled_quantity = 0, po_capital_id = None,
      po_inventory_capital_ids = [], po_role = ''ENTRY'', po_cycle_id = None,
      po_authorization_id = None, po_net_proceeds_usdt = 0\<rparr>"

text \<open>
  \<^verbatim>\<open>_new_order\<close> with the defaults its callers use: an entry order without capital,
  which is active in the queue only if the engine has no ledger.
\<close>

definition new_order ::
    "string \<Rightarrow> int \<Rightarrow> int \<Rightarrow> decimal \<Rightarrow> int \<Rightarrow> pair_engine \<Rightarrow> (pair_order, pair_engine) outcome" where
  "new_order side rank column price now E =
     (let seq = Suc (pe_sequence E);
          oid = order_id (pe_pair_id E) seq;
          ord = blank_order oid (pe_pair_id E) side rank column price 1 now
                  (if pe_ledger E \<noteq> None then UNFUNDED else ACTIVE);
          E1 = set_order oid ord (E\<lparr>pe_sequence := seq\<rparr>)
      in if po_status ord = ACTIVE
         then and_then (on_queue (queue_activate ord now E1) E1) (\<lambda>_ E2. Return ord E2)
         else Return ord E1)"

text \<open>The 28 slots of the grid, in the order of the nested loops.\<close>

definition grid_slots :: "grid_level list" where
  "grid_slots = concat (map (\<lambda>side. concat (map (\<lambda>rank. map (\<lambda>column. (side, rank, column)) [1, 2])
                                       [1, 2, 3, 4, 5, 6, 7]))
                            [''BUY'', ''SELL''])"

primrec fill_grid :: "int \<Rightarrow> grid_level list \<Rightarrow> pair_engine \<Rightarrow> (unit, pair_engine) outcome" where
  "fill_grid now [] E = Return () E"
| "fill_grid now (slot # slots) E =
     (case slot of (side, rank, column) \<Rightarrow>
        (case target_price side rank None E of
           Inl e \<Rightarrow> Raise e E
         | Inr price \<Rightarrow> and_then (new_order side rank column price now E)
                         (\<lambda>_ E1. fill_grid now slots E1)))"

definition initialize_grid :: "int \<Rightarrow> pair_engine \<Rightarrow> (unit, pair_engine) outcome" where
  "initialize_grid now E =
     (if pe_hotline E = None then Raise (ValueError ''M035_HOTLINE_REQUIRED'') E
      else if pe_orders E \<noteq> [] then Raise (ValueError ''M035_GRID_ALREADY_INITIALIZED'') E
      else fill_grid now grid_slots E)"

section \<open>Book updates\<close>

text \<open>
  What a new hotline does to one order: a return order stays, an unfunded one moves, a
  cancelling second-column order takes the new target, a resting first-column order is only
  reported, a resting second-column order requests its cancel.
\<close>

definition reconcile_order ::
    "int \<Rightarrow> string \<Rightarrow> pair_engine \<Rightarrow> (grid_level list, pair_engine) outcome" where
  "reconcile_order now oid E =
     with_order oid E (\<lambda>ord.
       let level = (po_side ord, po_rank ord, po_column ord);
           target = target_price (po_side ord) (po_rank ord) None E;
           retarget = (\<lambda>k. case target of Inl e \<Rightarrow> Raise e E | Inr t \<Rightarrow> k t)
       in if po_role ord = ''RETURN'' then Return [] E
          else if po_status ord = UNFUNDED
          then retarget (\<lambda>t. Return [] (set_order oid (ord\<lparr>po_price := t\<rparr>) E))
          else if po_status ord = CANCEL_REQUESTED \<and> po_column ord = 2
          then retarget (\<lambda>t. Return [level] (set_order oid (ord\<lparr>po_replacement_price := Some t\<rparr>) E))
          else if po_status ord \<notin> {ACTIVE, PARTIAL} then Return [] E
          else retarget (\<lambda>t.
            if t = po_price ord then Return [] E
            else if po_column ord = 1 then Return [level] E
            else and_then
              (case po_capital_id ord of
                 Some cid \<Rightarrow> if_ledger (request_cancel cid now) () E
               | None \<Rightarrow> Return () E)
              (\<lambda>_ E1. Return [level]
                 (set_order oid (ord\<lparr>po_replacement_price := Some t, po_status := CANCEL_REQUESTED\<rparr>) E1))))"

primrec reconcile_orders ::
    "int \<Rightarrow> string list \<Rightarrow> pair_engine \<Rightarrow> (grid_level list, pair_engine) outcome" where
  "reconcile_orders now [] E = Return [] E"
| "reconcile_orders now (oid # oids) E =
     and_then (reconcile_order now oid E) (\<lambda>levels E1.
       and_then (reconcile_orders now oids E1) (\<lambda>rest E2. Return (levels @ rest) E2))"

definition reconcile_for_hotline :: "int \<Rightarrow> pair_engine \<Rightarrow> (grid_level list, pair_engine) outcome" where
  "reconcile_for_hotline now E =
     reconcile_orders now (map po_id (sort_key po_id (dict_values (pe_orders E)))) E"

definition hotline_target :: "decimal \<Rightarrow> decimal \<Rightarrow> decimal \<Rightarrow> decimal" where
  "hotline_target bid ask tick =
     (let midpoint = ddiv (dadd bid ask) 2
      in dmul (of_int (round_half_up (ddiv midpoint tick))) tick)"

definition receive_book ::
    "decimal \<Rightarrow> decimal \<Rightarrow> int \<Rightarrow> string \<Rightarrow> pair_engine \<Rightarrow> (unit, pair_engine) outcome" where
  "receive_book bid ask now reason E0 =
     and_then (engine_causal now E0) (\<lambda>_ E.
       if bid \<le> 0 \<or> ask \<le> bid then Raise (ValueError ''M035_INVALID_BOOK'') E
       else and_then
         (if_ledger (update_asset_mark (pe_pair_asset E) bid now) () E)
         (\<lambda>_ E1.
            let target = hotline_target bid ask (pe_tick_size E1);
                old = pe_hotline E1;
                E2 = E1\<lparr>pe_bid := Some bid, pe_ask := Some ask, pe_hotline := Some target,
                        pe_hotline_history := pe_hotline_history E1 @
                          (if pe_hotline_history E1 = [] \<or> snd (last (pe_hotline_history E1)) \<noteq> target
                           then [(now, target)] else [])\<rparr>
            in case old of
                 None \<Rightarrow> Return () (at_event now E2)
               | Some h \<Rightarrow>
                   if h = target then Return () (at_event now E2)
                   else and_then (reconcile_for_hotline now E2) (\<lambda>affected E3.
                     Return () (at_event now
                       (E3\<lparr>pe_event_log := pe_event_log E3 @
                          [\<lparr>hc_timestamp = now, hc_pair = pe_pair_id E3, hc_old_hotline = h,
                            hc_new_hotline = target, hc_reason = reason, hc_affected = affected\<rparr>]\<rparr>)))))"

definition hotline_at :: "int \<Rightarrow> pair_engine \<Rightarrow> decimal option" where
  "hotline_at t E =
     (let rows = map snd (filter (\<lambda>(observed, _). observed \<le> t) (pe_hotline_history E))
      in if rows = [] then None else Some (last rows))"

section \<open>Cancels and replacements\<close>

definition capital_state_of :: "string option \<Rightarrow> pair_engine \<Rightarrow> capital_state option" where
  "capital_state_of cid E =
     (case (cid, pe_ledger E) of
        (Some i, Some L) \<Rightarrow> map_option cap_state (dict_get (positions L) i)
      | _ \<Rightarrow> None)"

text \<open>
  A cancel that raced a fill keeps the filled part and closes the order; a clean cancel
  releases the capital and submits the replacement.
\<close>

definition acknowledge_raced ::
    "string \<Rightarrow> pair_order \<Rightarrow> int \<Rightarrow> pair_engine \<Rightarrow> (pair_order option, pair_engine) outcome" where
  "acknowledge_raced oid ord now E =
     probing (cancel_ack_after_racing_fill oid now (pe_queue E)) E (\<lambda>_.
       and_then
         (case po_capital_id ord of
            Some cid \<Rightarrow> if capital_state_of (Some cid) E = Some CANCEL_PENDING
                        then on_ledger (acknowledge_cancel cid now) E else Return 0 E
          | None \<Rightarrow> Return 0 E)
         (\<lambda>_ E1. and_then (on_queue (cancel_ack_after_racing_fill oid now) E1) (\<lambda>_ E2.
            Return None (at_event now (set_order oid (ord\<lparr>po_status := PARTIAL_FILLED\<rparr>) E2)))))"

definition acknowledge_clean ::
    "string \<Rightarrow> pair_order \<Rightarrow> decimal \<Rightarrow> int \<Rightarrow> pair_engine \<Rightarrow> (pair_order option, pair_engine) outcome" where
  "acknowledge_clean oid ord price now E =
     probing (cancel_ack oid now (pe_queue E)) E (\<lambda>_.
       and_then
         (case po_capital_id ord of
            Some cid \<Rightarrow> if_ledger (acknowledge_cancel cid now) 0 E
          | None \<Rightarrow> Return 0 E)
         (\<lambda>_ E1. and_then (on_queue (cancel_ack oid now) E1) (\<lambda>_ E2.
            and_then
              (new_order (po_side ord) (po_rank ord) (po_column ord) price now
                (set_order oid (ord\<lparr>po_status := CANCELLED\<rparr>) E2))
              (\<lambda>replacement E3. Return (Some replacement) (at_event now E3)))))"

definition acknowledge_grid_cancel ::
    "string \<Rightarrow> int \<Rightarrow> pair_engine \<Rightarrow> (pair_order option, pair_engine) outcome" where
  "acknowledge_grid_cancel oid now E0 =
     and_then (engine_causal now E0) (\<lambda>_ E.
       with_order oid E (\<lambda>ord.
         if po_status ord \<noteq> CANCEL_REQUESTED
         then Raise (ValueError ''M035_GRID_CANCEL_ACK_INVALID'') E
         else case po_replacement_price ord of
           None \<Rightarrow> Raise (ValueError ''M035_GRID_CANCEL_ACK_INVALID'') E
         | Some price \<Rightarrow>
             if 0 < po_filled_quantity ord then acknowledge_raced oid ord now E
             else acknowledge_clean oid ord price now E))"

section \<open>Funding and returns\<close>

definition working_statuses :: "order_status set" where
  "working_statuses = {UNFUNDED, ACTIVE, PARTIAL, CANCEL_REQUESTED}"

definition bind_order_capital ::
    "string \<Rightarrow> string \<Rightarrow> int \<Rightarrow> pair_engine \<Rightarrow> (unit, pair_engine) outcome" where
  "bind_order_capital oid cid now E =
     (case pe_ledger E of
        None \<Rightarrow> Raise (ValueError ''M035_PAIR_ENGINE_HAS_NO_GLOBAL_LEDGER'') E
      | Some L \<Rightarrow> and_then (engine_causal now E) (\<lambda>_ _.
          with_order oid E (\<lambda>ord. with_capital cid E L (\<lambda>p.
            if cap_pair_id p \<noteq> pe_pair_id E \<or> cap_asset p \<noteq> ''USDT'' \<or>
               cap_state p \<notin> {RESERVED_PAIR_A, RESERVED_PAIR_B} \<or> po_side ord \<noteq> ''BUY'' \<or>
               po_role ord \<noteq> ''ENTRY'' \<or> cap_cost_basis p < dmul (po_price ord) (po_quantity ord)
            then Raise (ValueError ''M035_ORDER_CAPITAL_OWNER_MISMATCH'') E
            else if po_capital_id ord \<noteq> None \<or>
              (\<exists>row \<in> set (dict_values (pe_orders E)). po_capital_id row = Some cid \<and> po_id row \<noteq> oid \<and>
                 po_status row \<in> working_statuses)
            then Raise (ValueError ''M035_ORDER_ALREADY_FUNDED'') E
            else probing (queue_activate ord now E (pe_queue E)) E (\<lambda>_.
              and_then (on_queue (queue_activate ord now E) E) (\<lambda>_ E1.
                Return () (at_event now
                  (set_order oid (ord\<lparr>po_capital_id := Some cid, po_status := ACTIVE\<rparr>) E1))))))))"

text \<open>The column a return order takes: the first one without remaining quantity at the price.\<close>

definition free_column :: "decimal \<Rightarrow> pair_engine \<Rightarrow> int option" where
  "free_column price E =
     (let occupied = (case dict_get (groups (pe_queue E)) (pe_symbol E, ''SELL'', price) of
                        None \<Rightarrow> []
                      | Some g \<Rightarrow> map own_column (active_orders g))
      in find (\<lambda>column. column \<notin> set occupied) [1, 2])"

definition return_working :: "string \<Rightarrow> pair_engine \<Rightarrow> bool" where
  "return_working cid E \<longleftrightarrow>
     (\<exists>row \<in> set (dict_values (pe_orders E)). po_capital_id row = Some cid \<and> po_role row = ''RETURN'' \<and>
        po_status row \<in> {ACTIVE, PARTIAL, CANCEL_REQUESTED})"

definition submit_owned_return ::
    "string \<Rightarrow> string \<Rightarrow> decimal \<Rightarrow> decimal \<Rightarrow> int \<Rightarrow> string option \<Rightarrow> pair_engine \<Rightarrow>
     (pair_order, pair_engine) outcome" where
  "submit_owned_return cid cyc price quantity now authorization_id E =
     (case pe_ledger E of
        None \<Rightarrow> Raise (ValueError ''M035_PAIR_ENGINE_HAS_NO_GLOBAL_LEDGER'') E
      | Some L \<Rightarrow>
          if now < pe_last_event_us E \<or> price \<le> 0 \<or> quantity \<le> 0
          then Raise (ValueError ''M035_INVALID_RETURN_ORDER'') E
          else with_capital cid E L (\<lambda>p.
            if cap_pair_id p \<noteq> pe_pair_id E \<or> cap_asset p \<noteq> pe_pair_asset E \<or> cap_quantity p < quantity \<or>
               cap_state p \<notin> {INVENTORY_PAIR_A, INVENTORY_PAIR_B, RETURN_PAIR_A, RETURN_PAIR_B} \<or>
               return_working cid E
            then Raise (ValueError ''M035_RETURN_ORDER_INVENTORY_MISMATCH'') E
            else case free_column price E of
              None \<Rightarrow> Raise (ValueError ''M035_RETURN_QUEUE_FULL'') E
            | Some column \<Rightarrow>
                let seq = Suc (pe_sequence E);
                    E1 = E\<lparr>pe_sequence := seq\<rparr>;
                    oid = order_id (pe_pair_id E) seq;
                    ord = (blank_order oid (pe_pair_id E) ''SELL'' 0 column price quantity now ACTIVE)
                          \<lparr>po_capital_id := Some cid, po_role := ''RETURN'', po_cycle_id := Some cyc,
                           po_authorization_id := authorization_id\<rparr>
                in probing (queue_activate ord now E1 (pe_queue E1)) E1 (\<lambda>_.
                     and_then
                       (if cap_state p \<in> {INVENTORY_PAIR_A, INVENTORY_PAIR_B}
                        then on_ledger (reserve_owned_return cid now) E1 else Return () E1)
                       (\<lambda>_ E2. and_then (on_queue (queue_activate ord now E2) (set_order oid ord E2))
                          (\<lambda>_ E3. Return ord (at_event now E3))))))"

section \<open>Moving a first-column order\<close>

definition c1_should_move ::
    "decimal \<Rightarrow> decimal \<Rightarrow> decimal \<Rightarrow> decimal \<Rightarrow> decimal \<Rightarrow> py_error + bool" where
  "c1_should_move new_value current_value lost_fifo_value cancel_cost reentry_cost =
     (if min (min lost_fifo_value cancel_cost) reentry_cost < 0
      then Inl (ValueError ''M035_NEGATIVE_SWITCHING_COST'')
      else Inr (dadd (dadd lost_fifo_value cancel_cost) reentry_cost < dsub new_value current_value))"

definition request_c1_move ::
    "string \<Rightarrow> decimal \<Rightarrow> decimal \<Rightarrow> decimal \<Rightarrow> decimal \<Rightarrow> decimal \<Rightarrow> decimal \<Rightarrow> int \<Rightarrow> pair_engine \<Rightarrow>
     (bool, pair_engine) outcome" where
  "request_c1_move oid price new_value current_value lost_fifo_value cancel_cost reentry_cost now E0 =
     and_then (engine_causal now E0) (\<lambda>_ E.
       with_order oid E (\<lambda>ord.
         if po_column ord \<noteq> 1 \<or> po_status ord \<noteq> ACTIVE
         then Raise (ValueError ''M035_NOT_ACTIVE_C1'') E
         else case c1_should_move new_value current_value lost_fifo_value cancel_cost reentry_cost of
           Inl e \<Rightarrow> Raise e E
         | Inr False \<Rightarrow> Return False E
         | Inr True \<Rightarrow>
             let ord1 = ord\<lparr>po_replacement_price := Some price\<rparr>
             in and_then
                  (case po_capital_id ord of
                     Some cid \<Rightarrow> if_ledger (request_cancel cid now) () (set_order oid ord1 E)
                   | None \<Rightarrow> Return () (set_order oid ord1 E))
                  (\<lambda>_ E1. Return True
                     (at_event now (set_order oid (ord1\<lparr>po_status := CANCEL_REQUESTED\<rparr>) E1)))))"

section \<open>Public trades\<close>

text \<open>The checks of a planned fill: who funds it, and whether that capital can.\<close>

definition entry_funded :: "pair_order \<Rightarrow> capital_position \<Rightarrow> decimal \<Rightarrow> decimal \<Rightarrow> bool" where
  "entry_funded ord p amount price \<longleftrightarrow>
     po_side ord = ''BUY'' \<and> cap_asset p = ''USDT'' \<and>
     cap_state p \<in> {RESERVED_PAIR_A, RESERVED_PAIR_B, CANCEL_PENDING} \<and>
     dmul amount price \<le> cap_cost_basis p"

definition return_funded :: "pair_order \<Rightarrow> capital_position \<Rightarrow> decimal \<Rightarrow> string \<Rightarrow> bool" where
  "return_funded ord p amount asset \<longleftrightarrow>
     po_role ord = ''RETURN'' \<and> po_side ord = ''SELL'' \<and> cap_asset p = asset \<and>
     cap_state p \<in> {RETURN_PAIR_A, RETURN_PAIR_B} \<and> amount \<le> cap_quantity p"

definition fill_error ::
    "pair_engine \<Rightarrow> capital_ledger \<Rightarrow> decimal \<Rightarrow> string \<times> decimal \<Rightarrow> py_error option" where
  "fill_error E L price fill =
     (case fill of (oid, amount) \<Rightarrow>
       (case dict_get (pe_orders E) oid of
          None \<Rightarrow> Some KeyError
        | Some ord \<Rightarrow>
            (case po_capital_id ord of
               None \<Rightarrow> Some (ValueError ''M035_PHYSICAL_FILL_WITHOUT_CAPITAL'')
             | Some cid \<Rightarrow>
                 (case dict_get (positions L) cid of
                    None \<Rightarrow> Some (ValueError ''M035_PHYSICAL_FILL_CAPITAL_MISMATCH'')
                  | Some p \<Rightarrow>
                      if cap_pair_id p \<noteq> pe_pair_id E
                      then Some (ValueError ''M035_PHYSICAL_FILL_CAPITAL_MISMATCH'')
                      else if po_role ord = ''ENTRY''
                      then (if entry_funded ord p amount price then None
                            else Some (ValueError ''M035_ENTRY_FILL_NOT_FUNDED''))
                      else if return_funded ord p amount (pe_pair_asset E) then None
                      else Some (ValueError ''M035_RETURN_FILL_NOT_FUNDED'')))))"

primrec fills_error ::
    "pair_engine \<Rightarrow> capital_ledger \<Rightarrow> decimal \<Rightarrow> (string \<times> decimal) list \<Rightarrow> py_error option" where
  "fills_error E L price [] = None"
| "fills_error E L price (fill # fills) =
     (case fill_error E L price fill of Some e \<Rightarrow> Some e | None \<Rightarrow> fills_error E L price fills)"

text \<open>The ledger calls of a fill, made on the probe and then on the ledger itself.\<close>

definition net_inventory :: "decimal \<Rightarrow> decimal \<Rightarrow> decimal" where
  "net_inventory amount fee = dmul amount (dsub 1 fee)"

definition fill_proceeds :: "decimal \<Rightarrow> decimal \<Rightarrow> decimal \<Rightarrow> decimal \<Rightarrow> decimal" where
  "fill_proceeds amount price fee cost = dsub (dmul (dmul amount price) (dsub 1 fee)) cost"

definition entry_fill ::
    "string \<Rightarrow> string \<Rightarrow> decimal \<Rightarrow> decimal \<Rightarrow> decimal \<Rightarrow> decimal \<Rightarrow> int \<Rightarrow> capital_ledger \<Rightarrow>
     (string, capital_ledger) outcome" where
  "entry_fill cid asset amount price fee cost now L =
     record_entry_fill cid asset (net_inventory amount fee) price cost now (Some (dmul amount price)) L"

definition residual_mark_of :: "bool \<Rightarrow> decimal \<Rightarrow> capital_position \<Rightarrow> capital_ledger \<Rightarrow> decimal option" where
  "residual_mark_of order_done amount p L =
     (if order_done \<and> amount < cap_quantity p then dict_get (asset_marks_usdt L) (cap_asset p) else Some 0)"

definition probe_fill ::
    "pair_engine \<Rightarrow> decimal \<Rightarrow> decimal \<Rightarrow> decimal \<Rightarrow> int \<Rightarrow> string \<times> decimal \<Rightarrow> capital_ledger \<Rightarrow>
     (unit, capital_ledger) outcome" where
  "probe_fill E price fee cost now fill L =
     (case fill of (oid, amount) \<Rightarrow>
       (case dict_get (pe_orders E) oid of
          None \<Rightarrow> Raise KeyError L
        | Some ord \<Rightarrow>
            (case po_capital_id ord of
               None \<Rightarrow> Raise AssertionError L
             | Some cid \<Rightarrow>
                 if po_role ord = ''ENTRY''
                 then and_then (entry_fill cid (pe_pair_asset E) amount price fee cost now L)
                        (\<lambda>_ L1. Return () L1)
                 else case po_cycle_id ord of
                   None \<Rightarrow> Raise AssertionError L
                 | Some cyc \<Rightarrow>
                     let order_done = (dadd (po_filled_quantity ord) amount = po_quantity ord)
                     in with_position cid L (\<lambda>p.
                          case residual_mark_of order_done amount p L of
                            None \<Rightarrow> Raise KeyError L
                          | Some rmark \<Rightarrow>
                              and_then
                                (settle_return cid cyc amount (fill_proceeds amount price fee cost) rmark now
                                   (po_authorization_id ord) order_done L)
                                (\<lambda>_ L1. Return () L1)))))"

primrec probe_fills ::
    "pair_engine \<Rightarrow> decimal \<Rightarrow> decimal \<Rightarrow> decimal \<Rightarrow> int \<Rightarrow> (string \<times> decimal) list \<Rightarrow> capital_ledger \<Rightarrow>
     (unit, capital_ledger) outcome" where
  "probe_fills E price fee cost now [] L = Return () L"
| "probe_fills E price fee cost now (fill # fills) L =
     and_then (probe_fill E price fee cost now fill L) (\<lambda>_ L1. probe_fills E price fee cost now fills L1)"

text \<open>
  \<^verbatim>\<open>_settle_owned_return\<close>: settling on the ledger and on the pair's own inventory, dust,
  cycle and profit figures.
\<close>

definition settled_figures :: "bool \<Rightarrow> string \<Rightarrow> decimal \<Rightarrow> pair_engine \<Rightarrow> pair_engine" where
  "settled_figures order_done cyc realized E =
     (let lots = (case pe_ledger E of None \<Rightarrow> [] | Some L \<Rightarrow> dust_lots L);
          E1 = E\<lparr>pe_dust_quantity := dust_quantity (pe_pair_asset E) (Some (pe_pair_id E)) lots\<rparr>
      in if order_done
         then E1\<lparr>pe_cycle_history := pe_cycle_history E1 @ [cyc],
                 pe_realized_pnl := dadd (pe_realized_pnl E1) realized\<rparr>
         else E1)"

definition settle_owned_return ::
    "string \<Rightarrow> string \<Rightarrow> decimal \<Rightarrow> decimal \<Rightarrow> decimal \<Rightarrow> int \<Rightarrow> string option \<Rightarrow> bool \<Rightarrow> pair_engine \<Rightarrow>
     (decimal, pair_engine) outcome" where
  "settle_owned_return cid cyc sold proceeds rmark now authorization_id order_done E =
     (case pe_ledger E of
        None \<Rightarrow> Raise (ValueError ''M035_PAIR_ENGINE_HAS_NO_GLOBAL_LEDGER'') E
      | Some L \<Rightarrow> with_capital cid E L (\<lambda>p.
          if cap_pair_id p \<noteq> pe_pair_id E
          then Raise (ValueError ''M035_ORDER_CAPITAL_OWNER_MISMATCH'') E
          else if pe_inventory_quantity E < sold
          then Raise (ValueError ''M035_NEGATIVE_PAIR_INVENTORY'') E
          else and_then (on_ledger (settle_return cid cyc sold proceeds rmark now authorization_id order_done) E)
            (\<lambda>realized E1.
               let E2 = E1\<lparr>pe_inventory_quantity := dsub (pe_inventory_quantity E1) sold\<rparr>
               in if pe_inventory_quantity E2 < 0
                  then Raise (ValueError ''M035_NEGATIVE_PAIR_INVENTORY'') E2
                  else Return realized (at_event now (settled_figures order_done cyc realized E2)))))"

definition filled_order :: "decimal \<Rightarrow> pair_order \<Rightarrow> pair_order" where
  "filled_order amount ord =
     (let pending = (po_status ord = CANCEL_REQUESTED);
          filled = dadd (po_filled_quantity ord) amount
      in ord\<lparr>po_filled_quantity := filled,
             po_status := (if filled = po_quantity ord \<and> \<not> pending then FILLED
                           else if \<not> pending then PARTIAL else po_status ord)\<rparr>)"

definition apply_fill ::
    "decimal \<Rightarrow> decimal \<Rightarrow> decimal \<Rightarrow> int \<Rightarrow> string \<times> decimal \<Rightarrow> pair_engine \<Rightarrow> (unit, pair_engine) outcome" where
  "apply_fill price fee cost now fill E0 =
     (case fill of (oid, amount) \<Rightarrow>
        with_order oid E0 (\<lambda>ord0.
          let ord = filled_order amount ord0;
              E = set_order oid ord E0
          in case po_capital_id ord of
               None \<Rightarrow> Raise AssertionError E
             | Some cid \<Rightarrow>
                 if po_role ord = ''ENTRY''
                 then and_then (on_ledger (entry_fill cid (pe_pair_asset E) amount price fee cost now) E)
                   (\<lambda>inv_id E1. Return ()
                      ((set_order oid (ord\<lparr>po_inventory_capital_ids := po_inventory_capital_ids ord @ [inv_id]\<rparr>) E1)
                       \<lparr>pe_inventory_quantity := dadd (pe_inventory_quantity E1) (net_inventory amount fee)\<rparr>))
                 else
                   let proceeds = fill_proceeds amount price fee cost;
                       E1 = set_order oid
                              (ord\<lparr>po_net_proceeds_usdt := dadd (po_net_proceeds_usdt ord) proceeds\<rparr>) E
                   in case (po_cycle_id ord, pe_ledger E1) of
                        (Some cyc, Some L) \<Rightarrow>
                          let order_done = (po_filled_quantity ord = po_quantity ord)
                          in with_capital cid E1 L (\<lambda>p.
                               case residual_mark_of order_done amount p L of
                                 None \<Rightarrow> Raise KeyError E1
                               | Some rmark \<Rightarrow>
                                   and_then
                                     (settle_owned_return cid cyc amount proceeds rmark now
                                        (po_authorization_id ord) order_done E1)
                                     (\<lambda>_ E2. Return () E2))
                      | _ \<Rightarrow> Raise AssertionError E1))"

primrec apply_fills ::
    "decimal \<Rightarrow> decimal \<Rightarrow> decimal \<Rightarrow> int \<Rightarrow> (string \<times> decimal) list \<Rightarrow> pair_engine \<Rightarrow>
     (unit, pair_engine) outcome" where
  "apply_fills price fee cost now [] E = Return () E"
| "apply_fills price fee cost now (fill # fills) E =
     and_then (apply_fill price fee cost now fill E) (\<lambda>_ E1. apply_fills price fee cost now fills E1)"

record public_trade =
  trade_id :: string
  trade_side :: string
  trade_price :: decimal
  trade_quantity :: decimal
  trade_source :: string
  trade_fee_rate :: decimal
  trade_attributable_cost :: decimal

definition trade_flow :: "public_trade \<Rightarrow> string \<Rightarrow> int \<Rightarrow> queue_estimator \<Rightarrow>
     ((string, decimal) dict, queue_estimator) outcome" where
  "trade_flow t symbol now q =
     consume_compatible_flow (symbol @ '':'' @ trade_id t) symbol (trade_side t) (trade_price t)
       (trade_quantity t) now q"

definition consume_public_trade ::
    "public_trade \<Rightarrow> int \<Rightarrow> pair_engine \<Rightarrow> ((string, decimal) dict, pair_engine) outcome" where
  "consume_public_trade t now E0 =
     and_then (engine_causal now E0) (\<lambda>_ E.
       let fee = trade_fee_rate t; cost = trade_attributable_cost t; price = trade_price t
       in if trade_source t \<noteq> ''PUBLIC_TRADE''
          then Raise (ValueError ''M035_SELF_FILL_PROHIBITED'') E
          else if \<not> (0 \<le> fee \<and> fee < 1) \<or> cost < 0
          then Raise (ValueError ''M035_INVALID_FILL_COST'') E
          else case pe_ledger E of
            None \<Rightarrow> Raise (ValueError ''M035_PHYSICAL_FILL_REQUIRES_GLOBAL_LEDGER'') E
          | Some L \<Rightarrow>
              probing (trade_flow t (pe_symbol E) now (pe_queue E)) E (\<lambda>planned.
                if free_usdt L < dmul cost (of_nat (length planned))
                then Raise (ValueError ''M035_ATTRIBUTABLE_COST_CAPITAL_INSUFFICIENT'') E
                else case fills_error E L price planned of
                  Some e \<Rightarrow> Raise e E
                | None \<Rightarrow>
                    probing (probe_fills E price fee cost now planned L) E (\<lambda>_.
                      and_then (on_queue (trade_flow t (pe_symbol E) now) E) (\<lambda>fills E1.
                        and_then (apply_fills price fee cost now fills E1) (\<lambda>_ E2.
                          Return fills (at_event now E2))))))"

end
