(* ===== verification/M035_Engine_Inv.thy ===== *)
theory M035_Engine_Inv
  imports M035_Engine
begin

text \<open>
  What every operation of a pair engine keeps. The engine's own part: orders stored under
  their issued id, queue entries that belong to known orders, hotline history in time order,
  and capital of orders that belongs to the engine's pair. The shared part: whatever one
  engine does, a position of the other pair changes at most its mark.
\<close>

section \<open>Ledger steps of one pair\<close>

text \<open>The pair of a capital id never changes, and ids are issued in order.\<close>

definition pairs_stable :: "capital_ledger \<Rightarrow> capital_ledger \<Rightarrow> bool" where
  "pairs_stable L L' \<longleftrightarrow> capital_sequence L \<le> capital_sequence L' \<and>
     (\<forall>cid p'. dict_get (positions L') cid = Some p' \<longrightarrow> issued (capital_sequence L) cid \<longrightarrow>
        (\<exists>p. dict_get (positions L) cid = Some p \<and> cap_pair_id p = cap_pair_id p'))"

definition unmarked :: "capital_position \<Rightarrow> capital_position" where
  "unmarked p = p\<lparr>cap_marked_value := 0\<rparr>"

definition others_kept :: "string \<Rightarrow> capital_ledger \<Rightarrow> capital_ledger \<Rightarrow> bool" where
  "others_kept pair_id L L' \<longleftrightarrow>
     (\<forall>cid p. dict_get (positions L) cid = Some p \<longrightarrow> cap_pair_id p \<noteq> pair_id \<longrightarrow>
        (\<exists>p'. dict_get (positions L') cid = Some p' \<and> unmarked p' = unmarked p))"

definition pair_step :: "string \<Rightarrow> capital_ledger \<Rightarrow> capital_ledger \<Rightarrow> bool" where
  "pair_step pair_id L L' \<longleftrightarrow> ledger_inv L' \<and> pairs_stable L L' \<and> others_kept pair_id L L'"

lemma unmarked_pair [simp]: "cap_pair_id (unmarked p) = cap_pair_id p"
  by (simp add: unmarked_def)

lemma issued_mono: "issued m cid \<Longrightarrow> m \<le> n \<Longrightarrow> issued n cid"
  by (auto simp: issued_def)

lemma pairs_stable_trans: "pairs_stable L L1 \<Longrightarrow> pairs_stable L1 L2 \<Longrightarrow> pairs_stable L L2"
  unfolding pairs_stable_def by (metis issued_mono le_trans)

lemma others_kept_trans:
  assumes "others_kept pair_id L L1" "others_kept pair_id L1 L2"
  shows "others_kept pair_id L L2"
  unfolding others_kept_def
proof (intro allI impI)
  fix cid p assume p: "dict_get (positions L) cid = Some p" "cap_pair_id p \<noteq> pair_id"
  then obtain p1 where p1: "dict_get (positions L1) cid = Some p1" "unmarked p1 = unmarked p"
    using assms(1) unfolding others_kept_def by blast
  then have "cap_pair_id p1 = cap_pair_id p" by (metis unmarked_pair)
  then show "\<exists>p'. dict_get (positions L2) cid = Some p' \<and> unmarked p' = unmarked p"
    using p p1 assms(2) unfolding others_kept_def by metis
qed

lemma pair_step_trans: "pair_step pair_id L L1 \<Longrightarrow> pair_step pair_id L1 L2 \<Longrightarrow> pair_step pair_id L L2"
  unfolding pair_step_def using pairs_stable_trans others_kept_trans by blast

lemma pair_step_refl: "ledger_inv L \<Longrightarrow> pair_step pair_id L L"
  by (auto simp: pair_step_def pairs_stable_def others_kept_def)

text \<open>A step that rewrites positions of the pair and opens at most the next id.\<close>

lemma pair_stepI:
  assumes inv: "ledger_inv L" and own: "dict_get (positions L) cid = Some p0" "cap_pair_id p0 = pair_id"
    and inv': "ledger_inv L'" and seq: "capital_sequence L \<le> capital_sequence L'"
    and others: "\<And>j. j \<noteq> cid \<Longrightarrow> issued (capital_sequence L) j \<Longrightarrow> dict_get (positions L') j = dict_get (positions L) j"
    and same: "\<And>p'. dict_get (positions L') cid = Some p' \<Longrightarrow> cap_pair_id p' = pair_id"
  shows "pair_step pair_id L L'"
proof -
  have "pairs_stable L L'" unfolding pairs_stable_def using seq own others same by metis
  moreover have "others_kept pair_id L L'" unfolding others_kept_def
    using own others inv_position [OF inv] by (metis option.inject)
  ultimately show ?thesis using inv' by (simp add: pair_step_def)
qed

text \<open>
  The methods a pair engine calls, on a position of its own pair: which ids change, and what
  the sequence becomes.
\<close>

lemma request_cancel_effect:
  assumes "request_cancel cid now L = Return u L'"
  shows "\<exists>p. dict_get (positions L) cid = Some p \<and> capital_sequence L' = capital_sequence L \<and>
    positions L' = dict_set cid (p\<lparr>cap_state := CANCEL_PENDING, cap_cancel_requested_at_us := Some now\<rparr>) (positions L)"
  by (rule request_cancel_Return [OF assms]) simp

lemma acknowledge_cancel_effect:
  assumes "acknowledge_cancel cid now L = Return r L'"
  shows "capital_sequence L' = capital_sequence L \<and> positions L' = dict_del cid (positions L)"
  by (rule acknowledge_cancel_Return [OF assms]) (simp add: del_position_def log_event_def)

lemma reserve_owned_return_effect:
  assumes "reserve_owned_return cid now L = Return u L'"
  shows "\<exists>p st. dict_get (positions L) cid = Some p \<and> capital_sequence L' = capital_sequence L \<and>
    positions L' = dict_set cid (p\<lparr>cap_state := st\<rparr>) (positions L)"
  by (rule reserve_owned_return_Return [OF assms]) auto

lemma record_entry_fill_effect:
  assumes "record_entry_fill cid asset quantity mark cost now input_usdt L = Return i L'"
  shows "\<exists>p. dict_get (positions L) cid = Some p \<and>
    map_option cap_pair_id (dict_get (positions L') cid) = Some (cap_pair_id p) \<and>
    (\<forall>j. j \<noteq> cid \<longrightarrow> j \<noteq> i \<longrightarrow> dict_get (positions L') j = dict_get (positions L) j) \<and>
    ((i = cid \<and> capital_sequence L' = capital_sequence L) \<or>
     (i = capital_id (Suc (capital_sequence L)) \<and> capital_sequence L' = Suc (capital_sequence L)))"
proof (cases rule: record_entry_fill_Return [OF assms])
  case (1 p st)
  show ?thesis by (rule exI [of _ p]) (use 1(1,9) in \<open>auto simp: 1(11) paid_entry_def\<close>)
next
  case (2 p st)
  show ?thesis by (rule exI [of _ p]) (use 2(1,8) in \<open>auto simp: 2(10) paid_entry_def\<close>)
qed

lemma settle_return_effect:
  assumes "settle_return cid cyc sold proceeds rmark now aid order_done L = Return r L'"
  shows "\<exists>p. dict_get (positions L) cid = Some p \<and> sold \<le> cap_quantity p \<and> capital_sequence L' = capital_sequence L \<and>
    (dict_get (positions L') cid = None \<or> map_option cap_pair_id (dict_get (positions L') cid) = Some (cap_pair_id p)) \<and>
    (\<forall>j. j \<noteq> cid \<longrightarrow> dict_get (positions L') j = dict_get (positions L) j)"
proof (rule settle_return_Return [OF assms])
  fix p auth
  let ?s = "settlement_of p sold proceeds"
  let ?L = "L\<lparr>free_usdt := dadd (free_usdt L) proceeds,
      realized_pnl_usdt := dadd (realized_pnl_usdt L) (st_fill_realized ?s)\<rparr>"
  assume p: "dict_get (positions L) cid = Some p" "sold \<le> cap_quantity p"
    and r: "(if order_done then settle_complete cid p ?s cyc rmark now aid auth ?L
       else settle_partial cid p ?s cyc sold proceeds now ?L) = Return r L'"
  show ?thesis
  proof (cases order_done)
    case True
    then have "settle_complete cid p ?s cyc rmark now aid auth ?L = Return r L'" using r by simp
    from settle_complete_Return(3) [OF this]
    show ?thesis using p by (cases auth) (auto simp: consume_authorization_def del_position_def log_event_def)
  next
    case False
    then have r: "settle_partial cid p ?s cyc sold proceeds now ?L = Return r L'" using r by simp
    show ?thesis by (rule settle_partial_Return [OF r]) (use p in auto)
  qed
qed

lemma inv_of_step:
  "atomic_step now L m \<Longrightarrow> m = Return r L' \<Longrightarrow> ledger_inv L'"
  "returning_step now L m \<Longrightarrow> m = Return r L' \<Longrightarrow> ledger_inv L'"
  by (simp_all add: step_ok_def)

lemma engine_ledger_pair:
  assumes inv: "ledger_inv L" and p: "dict_get (positions L) cid = Some p" "cap_pair_id p = pair_id"
  shows "request_cancel cid now L = Return u L' \<Longrightarrow> pair_step pair_id L L'"
    and "acknowledge_cancel cid now L = Return x L' \<Longrightarrow> pair_step pair_id L L'"
    and "reserve_owned_return cid now L = Return u L' \<Longrightarrow> pair_step pair_id L L'"
    and "record_entry_fill cid asset quantity mark cost now input_usdt L = Return i L' \<Longrightarrow> pair_step pair_id L L'"
    and "settle_return cid cyc sold proceeds rmark now aid order_done L = Return x L' \<Longrightarrow> pair_step pair_id L L'"
proof -
  note step = pair_stepI [OF inv p]
  show "request_cancel cid now L = Return u L' \<Longrightarrow> pair_step pair_id L L'"
    by (rule step, rule inv_of_step(1) [OF request_cancel_step [OF inv]], assumption)
      (use p in \<open>auto dest!: request_cancel_effect split: if_splits\<close>)
  show "acknowledge_cancel cid now L = Return x L' \<Longrightarrow> pair_step pair_id L L'"
    by (rule step, rule inv_of_step(1) [OF acknowledge_cancel_step [OF inv]], assumption)
      (auto dest!: acknowledge_cancel_effect split: if_splits)
  show "reserve_owned_return cid now L = Return u L' \<Longrightarrow> pair_step pair_id L L'"
    by (rule step, rule inv_of_step(1) [OF reserve_owned_return_step [OF inv]], assumption)
      (use p in \<open>auto dest!: reserve_owned_return_effect split: if_splits\<close>)
  show "record_entry_fill cid asset quantity mark cost now input_usdt L = Return i L' \<Longrightarrow> pair_step pair_id L L'"
    by (rule step, rule inv_of_step(1) [OF record_entry_fill_step [OF inv]], assumption)
      (use p not_issued_next [of "capital_sequence L"] in
        \<open>auto dest!: record_entry_fill_effect split: if_splits\<close>)
  show "settle_return cid cyc sold proceeds rmark now aid order_done L = Return x L' \<Longrightarrow> pair_step pair_id L L'"
    by (rule step, rule inv_of_step(2) [OF settle_return_step [OF inv]], assumption)
      (use p in \<open>auto dest!: settle_return_effect split: if_splits\<close>)
qed

lemma update_asset_mark_pair:
  assumes inv: "ledger_inv L" and res: "update_asset_mark asset mark now L = Return u L'"
  shows "pair_step pair_id L L'"
proof -
  have "ledger_inv L'" by (rule inv_of_step(1) [OF update_asset_mark_step [OF inv] res])
  moreover have "positions L' = map_values (remark asset mark) (positions L)" "capital_sequence L' = capital_sequence L"
    using update_asset_mark_Return(3) [OF res] by simp_all
  moreover have "unmarked (remark asset mark p) = unmarked p" for p by (simp add: unmarked_def remark_def)
  ultimately show ?thesis by (auto simp: pair_step_def pairs_stable_def others_kept_def)
qed

section \<open>The engine invariant\<close>

definition issued_order :: "pair_engine \<Rightarrow> string \<Rightarrow> bool" where
  "issued_order E oid \<longleftrightarrow> (\<exists>k. 0 < k \<and> k \<le> pe_sequence E \<and> oid = order_id (pe_pair_id E) k)"

definition orders_ok :: "pair_engine \<Rightarrow> bool" where
  "orders_ok E \<longleftrightarrow> distinct (keys (pe_orders E)) \<and>
     (\<forall>oid ord. dict_get (pe_orders E) oid = Some ord \<longrightarrow> po_id ord = oid \<and> issued_order E oid)"

definition queue_ok :: "pair_engine \<Rightarrow> bool" where
  "queue_ok E \<longleftrightarrow> queue_inv (pe_queue E) \<and>
     (\<forall>oid. has_key (order_group (pe_queue E)) oid \<longrightarrow> has_key (pe_orders E) oid)"

definition capital_ok :: "pair_engine \<Rightarrow> bool" where
  "capital_ok E \<longleftrightarrow>
     (case pe_ledger E of
        None \<Rightarrow> True
      | Some L \<Rightarrow> ledger_inv L \<and>
          (\<forall>oid ord cid. dict_get (pe_orders E) oid = Some ord \<longrightarrow> po_capital_id ord = Some cid \<longrightarrow>
             issued (capital_sequence L) cid \<and>
             (\<forall>p. dict_get (positions L) cid = Some p \<longrightarrow> cap_pair_id p = pe_pair_id E)))"

definition engine_inv :: "pair_engine \<Rightarrow> bool" where
  "engine_inv E \<longleftrightarrow> orders_ok E \<and> queue_ok E \<and> capital_ok E"

definition ledger_isolated :: "pair_engine \<Rightarrow> pair_engine \<Rightarrow> bool" where
  "ledger_isolated E E' \<longleftrightarrow>
     (case (pe_ledger E, pe_ledger E') of
        (None, None) \<Rightarrow> True
      | (Some L, Some L') \<Rightarrow> pair_step (pe_pair_id E) L L'
      | _ \<Rightarrow> False)"

text \<open>
  \<open>evolves\<close>: what holds between the engine before and after any part of an operation other
  than the move of the hotline itself. It is transitive, so an operation evolves if its parts do.
\<close>

definition evolves :: "pair_engine \<Rightarrow> pair_engine \<Rightarrow> bool" where
  "evolves E E' \<longleftrightarrow>
     pe_pair_id E' = pe_pair_id E \<and> pe_symbol E' = pe_symbol E \<and> pe_pair_asset E' = pe_pair_asset E \<and>
     pe_tick_size E' = pe_tick_size E \<and> pe_hotline E' = pe_hotline E \<and>
     pe_hotline_history E' = pe_hotline_history E \<and> pe_last_event_us E \<le> pe_last_event_us E' \<and>
     (engine_inv E \<longrightarrow> engine_inv E' \<and> ledger_isolated E E')"

lemma evolves_refl [simp]: "evolves E E"
  by (auto simp: evolves_def ledger_isolated_def engine_inv_def capital_ok_def pair_step_refl split: option.splits)

lemma isolated_trans:
  "ledger_isolated E E1 \<Longrightarrow> ledger_isolated E1 E2 \<Longrightarrow> pe_pair_id E1 = pe_pair_id E \<Longrightarrow> ledger_isolated E E2"
  using pair_step_trans by (auto simp: ledger_isolated_def split: option.splits)

lemma evolves_trans [trans]: "evolves E E1 \<Longrightarrow> evolves E1 E2 \<Longrightarrow> evolves E E2"
  unfolding evolves_def using isolated_trans by (metis (no_types, lifting) order_trans)

text \<open>An update that touches none of what the invariant speaks of.\<close>

lemma evolves_frame:
  assumes "pe_pair_id E' = pe_pair_id E" "pe_symbol E' = pe_symbol E" "pe_pair_asset E' = pe_pair_asset E"
    "pe_tick_size E' = pe_tick_size E" "pe_hotline E' = pe_hotline E"
    "pe_hotline_history E' = pe_hotline_history E" "pe_last_event_us E \<le> pe_last_event_us E'"
    "pe_orders E' = pe_orders E" "pe_queue E' = pe_queue E" "pe_ledger E' = pe_ledger E"
    "pe_sequence E \<le> pe_sequence E'"
  shows "evolves E E'"
proof -
  have "issued_order E' oid" if "issued_order E oid" for oid
    using that assms unfolding issued_order_def by (metis order_trans)
  then have "engine_inv E \<longrightarrow> engine_inv E'"
    by (auto simp: engine_inv_def orders_ok_def queue_ok_def capital_ok_def assms split: option.splits)
  moreover have "engine_inv E \<longrightarrow> ledger_isolated E E'"
    by (auto simp: ledger_isolated_def engine_inv_def capital_ok_def assms pair_step_refl split: option.splits)
  ultimately show ?thesis by (simp add: evolves_def assms)
qed

lemma evolves_at_event: "pe_last_event_us E \<le> now \<Longrightarrow> evolves E (at_event now E)"
  by (rule evolves_frame) (simp_all add: at_event_def)

text \<open>Whoever calls the ledger: the invariant needs it consistent, and the pairs of its positions stable.\<close>

lemma engine_inv_ledger:
  assumes inv: "engine_inv E" and L: "pe_ledger E = Some L" and L': "ledger_inv L'" and stable: "pairs_stable L L'"
  shows "engine_inv (E\<lparr>pe_ledger := Some L'\<rparr>)"
proof -
  have cap: "capital_ok E" using inv by (simp add: engine_inv_def)
  have "capital_ok (E\<lparr>pe_ledger := Some L'\<rparr>)"
    unfolding capital_ok_def
  proof (simp, intro conjI allI impI)
    show "ledger_inv L'" by (rule L')
  next
    fix oid ord cid assume o: "dict_get (pe_orders E) oid = Some ord" "po_capital_id ord = Some cid"
    then have i: "issued (capital_sequence L) cid"
      and own: "\<And>p. dict_get (positions L) cid = Some p \<Longrightarrow> cap_pair_id p = pe_pair_id E"
      using cap L by (auto simp: capital_ok_def)
    show "issued (capital_sequence L') cid"
      using stable i issued_mono unfolding pairs_stable_def by blast
    fix p assume "dict_get (positions L') cid = Some p"
    then show "cap_pair_id p = pe_pair_id E"
      using stable i own unfolding pairs_stable_def by metis
  qed
  then show ?thesis using inv by (auto simp: engine_inv_def orders_ok_def queue_ok_def issued_order_def)
qed

lemma evolves_ledger:
  assumes L: "pe_ledger E = Some L"
    and step: "engine_inv E \<Longrightarrow> pair_step (pe_pair_id E) L L'"
  shows "evolves E (E\<lparr>pe_ledger := Some L'\<rparr>)"
proof -
  have "engine_inv (E\<lparr>pe_ledger := Some L'\<rparr>) \<and> ledger_isolated E (E\<lparr>pe_ledger := Some L'\<rparr>)" if inv: "engine_inv E"
    using engine_inv_ledger [OF inv L] step [OF inv] L by (simp add: pair_step_def ledger_isolated_def)
  then show ?thesis by (simp add: evolves_def)
qed

lemma evolves_queue:
  assumes "engine_inv E \<Longrightarrow> queue_inv q"
    and "\<And>oid. has_key (order_group q) oid \<Longrightarrow> has_key (order_group (pe_queue E)) oid \<or> has_key (pe_orders E) oid"
  shows "evolves E (E\<lparr>pe_queue := q\<rparr>)"
proof -
  have "engine_inv E \<longrightarrow> engine_inv (E\<lparr>pe_queue := q\<rparr>)"
    using assms
    by (auto simp: engine_inv_def orders_ok_def queue_ok_def capital_ok_def issued_order_def split: option.splits)
  moreover have "engine_inv E \<longrightarrow> ledger_isolated E (E\<lparr>pe_queue := q\<rparr>)"
    by (auto simp: ledger_isolated_def engine_inv_def capital_ok_def pair_step_refl split: option.splits)
  ultimately show ?thesis by (simp add: evolves_def)
qed

text \<open>Storing an order under its own id; its capital, where given, is the pair's.\<close>

lemma evolves_set_order:
  assumes id: "po_id ord = oid" and seq: "engine_inv E \<Longrightarrow> issued_order E oid"
    and cap: "\<And>cid L. engine_inv E \<Longrightarrow> po_capital_id ord = Some cid \<Longrightarrow> pe_ledger E = Some L \<Longrightarrow>
       issued (capital_sequence L) cid \<and> (\<forall>p. dict_get (positions L) cid = Some p \<longrightarrow> cap_pair_id p = pe_pair_id E)"
  shows "evolves E (set_order oid ord E)"
proof -
  let ?E = "set_order oid ord E"
  have "engine_inv ?E" if inv: "engine_inv E"
  proof -
    have "orders_ok ?E" using inv id seq by (auto simp: engine_inv_def orders_ok_def set_order_def issued_order_def)
    moreover have "queue_ok ?E" using inv by (auto simp: engine_inv_def queue_ok_def set_order_def has_key_def)
    moreover have "capital_ok ?E" using inv cap [OF inv]
      by (auto simp: engine_inv_def capital_ok_def set_order_def split: option.splits)
    ultimately show ?thesis by (simp add: engine_inv_def)
  qed
  moreover have "engine_inv E \<longrightarrow> ledger_isolated E ?E"
    by (auto simp: ledger_isolated_def engine_inv_def capital_ok_def set_order_def pair_step_refl split: option.splits)
  ultimately show ?thesis by (simp add: evolves_def set_order_def)
qed

lemma evolves_update_order:
  assumes old: "engine_inv E \<Longrightarrow> dict_get (pe_orders E) oid = Some ord0"
    and same: "po_id ord = po_id ord0" "po_capital_id ord = po_capital_id ord0"
  shows "evolves E (set_order oid ord E)"
proof (cases "engine_inv E")
  case True
  then have o: "dict_get (pe_orders E) oid = Some ord0" "po_id ord0 = oid" "issued_order E oid"
    using old by (auto simp: engine_inv_def orders_ok_def)
  show ?thesis
    by (rule evolves_set_order) (use o same True in \<open>auto simp: engine_inv_def capital_ok_def\<close>)
next
  case False
  then show ?thesis by (simp add: evolves_def set_order_def)
qed

end
