(* ===== verification/M035_Engine_Ops.thy ===== *)
theory M035_Engine_Ops
  imports M035_Engine_Inv
begin

text \<open>
  Every operation of a pair engine evolves it, by the parts it is composed of; the operations
  as one datatype, and the invariant contract of the shared prelude on them.
\<close>

section \<open>When the combinators return\<close>

lemma engine_causal_Return:
  "and_then (engine_causal now E) k = Return r E' \<longleftrightarrow> pe_last_event_us E \<le> now \<and> k () E = Return r E'"
  by (auto simp: engine_causal_def)

lemma engine_causal_iff: "engine_causal now E = Return u E' \<longleftrightarrow> pe_last_event_us E \<le> now \<and> E' = E"
  by (auto simp: engine_causal_def)

lemma on_ledger_Return:
  "on_ledger m E = Return r E' \<longleftrightarrow>
     (\<exists>L L'. pe_ledger E = Some L \<and> m L = Return r L' \<and> E' = E\<lparr>pe_ledger := Some L'\<rparr>)"
  by (auto simp: on_ledger_def split: option.splits outcome.splits)

lemma if_ledger_Return:
  "if_ledger m a E = Return r E' \<longleftrightarrow>
     (pe_ledger E = None \<and> r = a \<and> E' = E) \<or> on_ledger m E = Return r E'"
  by (auto simp: if_ledger_def on_ledger_Return)

lemma on_queue_Return:
  "on_queue m E = Return r E' \<longleftrightarrow> (\<exists>q. m (pe_queue E) = Return r q \<and> E' = E\<lparr>pe_queue := q\<rparr>)"
  by (auto simp: on_queue_def split: outcome.splits)

lemma probing_Return: "probing m E k = Return r E' \<longleftrightarrow> (\<exists>x s. m = Return x s \<and> k x = Return r E')"
  by (auto simp: probing_def split: outcome.splits)

lemma with_order_Return:
  "with_order oid E k = Return r E' \<longleftrightarrow> (\<exists>ord. dict_get (pe_orders E) oid = Some ord \<and> k ord = Return r E')"
  by (auto simp: with_order_def split: option.splits)

lemma with_capital_Return:
  "with_capital cid E L k = Return r E' \<longleftrightarrow> (\<exists>p. dict_get (positions L) cid = Some p \<and> k p = Return r E')"
  by (auto simp: with_capital_def split: option.splits)

lemma if_Raise_engine: "(if b then Raise e E else m) = Return r E' \<longleftrightarrow> \<not> b \<and> m = Return r E'"
  by auto

lemma case_Raise_option:
  "(case x of None \<Rightarrow> Raise e E | Some y \<Rightarrow> k y) = Return r E' \<longleftrightarrow> (\<exists>y. x = Some y \<and> k y = Return r E')"
  by (cases x) auto

lemma case_Raise_sum:
  "(case x of Inl e \<Rightarrow> Raise e E | Inr y \<Rightarrow> k y) = Return r E' \<longleftrightarrow> (\<exists>y. x = Inr y \<and> k y = Return r E')"
  by (cases x) auto

lemmas engine_returns = engine_causal_Return on_ledger_Return on_queue_Return probing_Return
  with_order_Return with_capital_Return if_Raise_engine case_Raise_option case_Raise_sum

section \<open>What the queue calls leave in the queue's index\<close>

lemma enqueue_index:
  "enqueue key g r q = Return x q' \<Longrightarrow> order_group q' = dict_set (own_order_id r) key (order_group q)"
  by (auto simp: enqueue_def Let_def check_group_def split: option.splits)

lemma activate_index:
  assumes "activate book side price oid column quantity observed now q = Return r q'"
  shows "has_key (order_group q') x \<longleftrightarrow> x = oid \<or> has_key (order_group q) x"
proof -
  obtain g r0 q1 where e: "enqueue (book, side, price) g r0 q1 = Return r q'"
    and q1: "own_order_id r0 = oid" "order_group q1 = order_group q"
    using assms unfolding activate_def queue_causal_def and_then_Return Let_def
    by (auto split: if_splits)
  show ?thesis using enqueue_index [OF e] q1 by (auto simp: has_key_iff)
qed

lemma remove_own_index:
  "remove_own oid key g r q = Return x q' \<Longrightarrow> order_group q' = dict_del oid (order_group q)"
  by (auto simp: remove_own_def Let_def check_group_def split: option.splits)

lemma cancel_index:
  "cancel_ack oid now q = Return x q' \<Longrightarrow> order_group q' = dict_del oid (order_group q)"
  "cancel_ack_after_racing_fill oid now q = Return x q' \<Longrightarrow> order_group q' = dict_del oid (order_group q)"
  by (auto simp: cancel_ack_def cancel_ack_after_racing_fill_def queue_causal_cases with_own_Return
      dest: remove_own_index split: if_splits)

lemma has_key_del: "has_key (dict_del k d) i \<Longrightarrow> has_key d i"
  by (simp add: has_key_iff split: if_splits)

lemma consume_index:
  "consume_compatible_flow eid book side price quantity now q = Return f q' \<Longrightarrow>
     order_group q' = order_group q"
  by (auto simp: consume_compatible_flow_def queue_causal_cases check_group_def store_pass_def Let_def
      split: if_splits option.splits)

section \<open>Parts of the operations\<close>

lemma evolves_on_ledger:
  assumes "on_ledger m E = Return r E'"
    and "\<And>L L'. engine_inv E \<Longrightarrow> ledger_inv L \<Longrightarrow> pe_ledger E = Some L \<Longrightarrow> m L = Return r L' \<Longrightarrow>
      pair_step (pe_pair_id E) L L'"
  shows "evolves E E'"
proof -
  obtain L L' where L: "pe_ledger E = Some L" "m L = Return r L'" and E': "E' = E\<lparr>pe_ledger := Some L'\<rparr>"
    using assms(1) by (auto simp: on_ledger_Return)
  show ?thesis unfolding E'
    by (rule evolves_ledger [OF L(1)]) (use assms(2) L in \<open>auto simp: engine_inv_def capital_ok_def\<close>)
qed

text \<open>A ledger call on the capital of one of the engine's orders.\<close>

lemma order_capital:
  assumes "engine_inv E" "dict_get (pe_orders E) oid = Some ord" "po_capital_id ord = Some cid"
    "pe_ledger E = Some L" "dict_get (positions L) cid = Some p"
  shows "cap_pair_id p = pe_pair_id E"
  using assms unfolding engine_inv_def capital_ok_def by simp

definition funds_order :: "string \<Rightarrow> pair_engine \<Rightarrow> bool" where
  "funds_order cid E \<longleftrightarrow>
     (engine_inv E \<longrightarrow> (\<exists>oid ord. dict_get (pe_orders E) oid = Some ord \<and> po_capital_id ord = Some cid))"

lemma funds_orderI: "dict_get (pe_orders E) oid = Some ord \<Longrightarrow> po_capital_id ord = Some cid \<Longrightarrow> funds_order cid E"
  by (auto simp: funds_order_def)

lemma evolves_on_own_capital:
  assumes ord: "funds_order cid E"
    and call: "on_ledger m E = Return r E'"
    and held: "\<And>L L'. m L = Return r L' \<Longrightarrow> \<exists>p. dict_get (positions L) cid = Some p"
    and step: "\<And>L L' p. ledger_inv L \<Longrightarrow> dict_get (positions L) cid = Some p \<Longrightarrow>
      cap_pair_id p = pe_pair_id E \<Longrightarrow> m L = Return r L' \<Longrightarrow> pair_step (pe_pair_id E) L L'"
  shows "evolves E E'"
proof (rule evolves_on_ledger [OF call])
  fix L L' assume L: "engine_inv E" "ledger_inv L" "pe_ledger E = Some L" "m L = Return r L'"
  obtain p where p: "dict_get (positions L) cid = Some p" using held [OF L(4)] by blast
  obtain oid ord where "dict_get (pe_orders E) oid = Some ord" "po_capital_id ord = Some cid"
    using ord L(1) by (auto simp: funds_order_def)
  from order_capital [OF L(1) this L(3) p] show "pair_step (pe_pair_id E) L L'"
    by (rule step [OF L(2) p _ L(4)])
qed

lemma held_when_returning:
  "request_cancel cid now L = Return u L' \<Longrightarrow> \<exists>p. dict_get (positions L) cid = Some p"
  "acknowledge_cancel cid now L = Return x L' \<Longrightarrow> \<exists>p. dict_get (positions L) cid = Some p"
  "reserve_owned_return cid now L = Return u L' \<Longrightarrow> \<exists>p. dict_get (positions L) cid = Some p"
  "record_entry_fill cid asset quantity mark cost now input_usdt L = Return i L' \<Longrightarrow> \<exists>p. dict_get (positions L) cid = Some p"
  "settle_return cid cyc sold proceeds rmark now aid order_done L = Return x L' \<Longrightarrow> \<exists>p. dict_get (positions L) cid = Some p"
  using request_cancel_effect [of cid now L u L'] acknowledge_cancel_Return [of cid now L x L']
    reserve_owned_return_effect [of cid now L u L'] settle_return_effect [of cid cyc sold proceeds rmark now aid order_done L x L']
    record_entry_fill_effect [of cid asset quantity mark cost now input_usdt L i L'] by blast+

lemma evolves_order_capital:
  assumes ord: "funds_order cid E"
  shows "on_ledger (request_cancel cid now) E = Return u E' \<Longrightarrow> evolves E E'"
    and "on_ledger (acknowledge_cancel cid now) E = Return x E' \<Longrightarrow> evolves E E'"
    and "on_ledger (reserve_owned_return cid now) E = Return u E' \<Longrightarrow> evolves E E'"
    and "on_ledger (record_entry_fill cid asset quantity mark cost now input_usdt) E = Return i E' \<Longrightarrow> evolves E E'"
    and "on_ledger (settle_return cid cyc sold proceeds rmark now aid order_done) E = Return x E' \<Longrightarrow> evolves E E'"
proof -
  note own = evolves_on_own_capital [OF ord]
  show "on_ledger (request_cancel cid now) E = Return u E' \<Longrightarrow> evolves E E'"
    by (erule own) (rule held_when_returning(1) engine_ledger_pair(1); assumption)+
  show "on_ledger (acknowledge_cancel cid now) E = Return x E' \<Longrightarrow> evolves E E'"
    by (erule own) (rule held_when_returning(2) engine_ledger_pair(2); assumption)+
  show "on_ledger (reserve_owned_return cid now) E = Return u E' \<Longrightarrow> evolves E E'"
    by (erule own) (rule held_when_returning(3) engine_ledger_pair(3); assumption)+
  show "on_ledger (record_entry_fill cid asset quantity mark cost now input_usdt) E = Return i E' \<Longrightarrow> evolves E E'"
    by (erule own) (rule held_when_returning(4) engine_ledger_pair(4); assumption)+
  show "on_ledger (settle_return cid cyc sold proceeds rmark now aid order_done) E = Return x E' \<Longrightarrow> evolves E E'"
    by (erule own) (rule held_when_returning(5) engine_ledger_pair(5); assumption)+
qed

lemma evolves_activate:
  assumes "on_queue (queue_activate ord now E0) E = Return r E'"
    and "engine_inv E \<Longrightarrow> has_key (pe_orders E) (po_id ord)"
  shows "evolves E E'"
proof -
  obtain q where q: "activate (pe_symbol E0) (po_side ord) (po_price ord) (po_id ord) (po_column ord)
      (po_quantity ord) 0 now (pe_queue E) = Return r q" and E': "E' = E\<lparr>pe_queue := q\<rparr>"
    using assms(1) by (auto simp: on_queue_Return queue_activate_def)
  show ?thesis unfolding E'
  proof (cases "engine_inv E")
    case True
    show "evolves E (E\<lparr>pe_queue := q\<rparr>)"
      using activate_inv(1) [OF _ q] activate_index [OF q] assms(2) [OF True] True
      by (intro evolves_queue) (auto simp: engine_inv_def queue_ok_def)
  qed (simp add: evolves_def)
qed

lemma evolves_cancel:
  "on_queue (cancel_ack oid now) E = Return x E' \<Longrightarrow> evolves E E'"
  "on_queue (cancel_ack_after_racing_fill oid now) E = Return x E' \<Longrightarrow> evolves E E'"
proof -
  have gen: "evolves E (E\<lparr>pe_queue := q\<rparr>)"
    if "queue_inv (pe_queue E) \<Longrightarrow> queue_inv q" "order_group q = dict_del oid (order_group (pe_queue E))" for q
    using that by (intro evolves_queue) (auto simp: engine_inv_def queue_ok_def dest: has_key_del)
  show "on_queue (cancel_ack oid now) E = Return x E' \<Longrightarrow> evolves E E'"
    using gen cancel_ack_inv(1) cancel_index(1) by (auto simp: on_queue_Return)
  show "on_queue (cancel_ack_after_racing_fill oid now) E = Return x E' \<Longrightarrow> evolves E E'"
    using gen cancel_ack_racing_inv(1) cancel_index(2) by (auto simp: on_queue_Return)
qed

lemma evolves_flow:
  assumes "on_queue (trade_flow t symbol now) E = Return f E'"
  shows "evolves E E'"
  using assms by (auto simp: on_queue_Return trade_flow_def engine_inv_def queue_ok_def consume_index
      intro!: evolves_queue dest: consume_compatible_flow_inv(1))

section \<open>The operations\<close>

lemma new_order_evolves:
  assumes "new_order side rank column price now E = Return ord E'"
  shows "evolves E E'" and "po_id ord = order_id (pe_pair_id E) (Suc (pe_sequence E))"
    and "dict_get (pe_orders E') (po_id ord) = Some ord" and "po_capital_id ord = None"
proof -
  define E0 where "E0 = E\<lparr>pe_sequence := Suc (pe_sequence E)\<rparr>"
  define new where "new = blank_order (order_id (pe_pair_id E) (Suc (pe_sequence E))) (pe_pair_id E) side rank
      column price 1 now (if pe_ledger E \<noteq> None then UNFUNDED else ACTIVE)"
  define E1 where "E1 = set_order (po_id new) new E0"
  have ord: "ord = new" and E': "E' = E1 \<or> (\<exists>r. on_queue (queue_activate new now E1) E1 = Return r E')"
    using assms by (auto simp: new_order_def Let_def E0_def E1_def new_def blank_order_def split: if_splits)
  have new: "po_id new = order_id (pe_pair_id E) (Suc (pe_sequence E))" "po_capital_id new = None"
    by (simp_all add: new_def blank_order_def)
  have "issued_order E0 (po_id new)" by (auto simp: issued_order_def E0_def new)
  then have "evolves E0 E1" unfolding E1_def by (rule_tac evolves_set_order) (simp_all add: new)
  moreover have "evolves E E0" by (rule evolves_frame) (simp_all add: E0_def)
  moreover have "evolves E1 E'"
    using E' by (auto intro: evolves_activate simp: E1_def set_order_def has_key_def)
  ultimately show "evolves E E'" by (blast intro: evolves_trans)
  show "po_id ord = order_id (pe_pair_id E) (Suc (pe_sequence E))" "po_capital_id ord = None" using new ord by simp_all
  show "dict_get (pe_orders E') (po_id ord) = Some ord"
    using E' by (auto simp: ord E1_def set_order_def on_queue_Return)
qed

lemma fill_grid_evolves: "fill_grid now slots E = Return u E' \<Longrightarrow> evolves E E'"
proof (induction slots arbitrary: E)
  case (Cons slot slots)
  obtain side rank column where slot: "slot = (side, rank, column)" by (cases slot)
  obtain price ord E1 where "target_price side rank None E = Inr price"
    and n: "new_order side rank column price now E = Return ord E1" and f: "fill_grid now slots E1 = Return u E'"
    using Cons.prems by (auto simp: slot split: sum.splits)
  show ?case using evolves_trans [OF new_order_evolves(1) [OF n] Cons.IH [OF f]] .
qed simp

lemma initialize_grid_evolves: "initialize_grid now E = Return u E' \<Longrightarrow> evolves E E'"
  by (auto simp: initialize_grid_def split: if_splits intro: fill_grid_evolves)

text \<open>A cancel request for the capital of an order, where it has one.\<close>

lemma cancel_capital_evolves:
  assumes "(case po_capital_id ord of Some cid \<Rightarrow> if_ledger (request_cancel cid now) () E | None \<Rightarrow> Return () E) = Return u E'"
    and "dict_get (pe_orders E) oid = Some ord"
  shows "evolves E E'" and "pe_orders E' = pe_orders E" and "pe_queue E' = pe_queue E"
    and "pe_last_event_us E' = pe_last_event_us E"
proof -
  have "evolves E E' \<and> pe_orders E' = pe_orders E \<and> pe_queue E' = pe_queue E \<and>
      pe_last_event_us E' = pe_last_event_us E"
  proof (cases "E' = E")
    case False
    then obtain cid where cid: "po_capital_id ord = Some cid" and r: "on_ledger (request_cancel cid now) E = Return u E'"
      using assms(1) by (cases "po_capital_id ord") (auto simp: if_ledger_Return)
    show ?thesis using evolves_order_capital(1) [OF funds_orderI [OF assms(2) cid] r] r
      by (auto simp: on_ledger_Return)
  qed simp
  then show "evolves E E'" "pe_orders E' = pe_orders E" "pe_queue E' = pe_queue E"
    "pe_last_event_us E' = pe_last_event_us E" by auto
qed

lemma reconcile_order_cases:
  assumes "reconcile_order now oid E = Return levels E'"
  obtains ord where "dict_get (pe_orders E) oid = Some ord" "E' = E"
      "po_role ord = ''RETURN'' \<or> po_status ord \<notin> {UNFUNDED, ACTIVE, PARTIAL, CANCEL_REQUESTED} \<or>
       (po_status ord = CANCEL_REQUESTED \<and> po_column ord \<noteq> 2) \<or>
       (po_status ord \<in> {ACTIVE, PARTIAL} \<and>
          (po_column ord = 1 \<or> target_price (po_side ord) (po_rank ord) None E = Inr (po_price ord)))"
    | ord t where "dict_get (pe_orders E) oid = Some ord" "target_price (po_side ord) (po_rank ord) None E = Inr t"
      "po_role ord \<noteq> ''RETURN''" "po_status ord = UNFUNDED" "E' = set_order oid (ord\<lparr>po_price := t\<rparr>) E"
    | ord t where "dict_get (pe_orders E) oid = Some ord" "target_price (po_side ord) (po_rank ord) None E = Inr t"
      "po_role ord \<noteq> ''RETURN''" "po_column ord = 2" "po_status ord = CANCEL_REQUESTED"
      "E' = set_order oid (ord\<lparr>po_replacement_price := Some t\<rparr>) E"
    | ord t E1 where "dict_get (pe_orders E) oid = Some ord" "target_price (po_side ord) (po_rank ord) None E = Inr t"
      "po_role ord \<noteq> ''RETURN''" "po_column ord \<noteq> 1" "po_status ord \<in> {ACTIVE, PARTIAL}" "t \<noteq> po_price ord"
      "(case po_capital_id ord of Some cid \<Rightarrow> if_ledger (request_cancel cid now) () E | None \<Rightarrow> Return () E) = Return () E1"
      "E' = set_order oid (ord\<lparr>po_replacement_price := Some t, po_status := CANCEL_REQUESTED\<rparr>) E1"
proof -
  obtain ord where o: "dict_get (pe_orders E) oid = Some ord"
    using assms unfolding reconcile_order_def with_order_Return by blast
  let ?t = "target_price (po_side ord) (po_rank ord) None E"
  note r = assms [unfolded reconcile_order_def with_order_def o option.case Let_def case_Raise_sum]
  show thesis
  proof (cases "po_role ord = ''RETURN'' \<or> po_status ord \<notin> {UNFUNDED, ACTIVE, PARTIAL, CANCEL_REQUESTED} \<or>
      (po_status ord = CANCEL_REQUESTED \<and> po_column ord \<noteq> 2)")
    case True
    then have "E' = E" by (elim disjE; cases "po_role ord = ''RETURN''"; use r in simp)
    then show ?thesis using True that(1) [OF o] by blast
  next
    case False
    then obtain t where t: "?t = Inr t" using r by (cases ?t) (auto split: if_splits)
    note r = r [unfolded t sum.case]
    consider (unfunded) "po_status ord = UNFUNDED" | (cancelling) "po_status ord = CANCEL_REQUESTED"
      | (resting) "po_status ord \<in> {ACTIVE, PARTIAL}" using False by blast
    then show ?thesis
    proof cases
      case unfunded
      then show ?thesis using r False that(2) [OF o t] by simp
    next
      case cancelling
      then show ?thesis using r False that(3) [OF o t] by simp
    next
      case resting
      then have st: "po_status ord \<noteq> UNFUNDED" "po_status ord \<noteq> CANCEL_REQUESTED" by auto
      show ?thesis
      proof (cases "t = po_price ord \<or> po_column ord = 1")
        case True
        then have "E' = E" using r False st resting by (auto split: if_splits)
        then show ?thesis using True resting that(1) [OF o] t by blast
      next
        case neq: False
        then show ?thesis using r False st resting that(4) [OF o t] by auto
      qed
    qed
  qed
qed

lemma reconcile_order_evolves:
  assumes "reconcile_order now oid E = Return levels E'"
  shows "evolves E E' \<and> pe_queue E' = pe_queue E \<and> pe_last_event_us E' = pe_last_event_us E"
  using assms
proof (cases rule: reconcile_order_cases)
  case (2 ord t)
  then show ?thesis using evolves_update_order [of E oid ord] by (simp add: set_order_def)
next
  case (3 ord t)
  then show ?thesis using evolves_update_order [of E oid ord] by (simp add: set_order_def)
next
  case (4 ord t E1)
  note c = cancel_capital_evolves [OF 4(7) 4(1)]
  have "evolves E1 E'" unfolding 4(8) by (rule evolves_update_order [of _ _ ord]) (use 4(1) c(2) in simp_all)
  with c show ?thesis by (auto simp: 4(8) set_order_def intro: evolves_trans)
qed simp

lemma reconcile_orders_evolves:
  "reconcile_orders now oids E = Return levels E' \<Longrightarrow>
     evolves E E' \<and> pe_queue E' = pe_queue E \<and> pe_last_event_us E' = pe_last_event_us E"
proof (induction oids arbitrary: E levels)
  case (Cons oid oids)
  then obtain l E1 l' where r: "reconcile_order now oid E = Return l E1" "reconcile_orders now oids E1 = Return l' E'"
    by auto
  show ?case using reconcile_order_evolves [OF r(1)] Cons.IH [OF r(2)] by (auto intro: evolves_trans)
qed simp

text \<open>Acknowledging a cancel.\<close>

lemma acknowledge_raced_evolves:
  assumes r: "acknowledge_raced oid ord now E = Return x E'" and o: "dict_get (pe_orders E) oid = Some ord"
    and time: "pe_last_event_us E \<le> now"
  shows "evolves E E'"
proof -
  obtain y E1 z E2 where
    1: "(case po_capital_id ord of
            Some cid \<Rightarrow> if capital_state_of (Some cid) E = Some CANCEL_PENDING
                        then on_ledger (acknowledge_cancel cid now) E else Return 0 E
          | None \<Rightarrow> Return 0 E) = Return y E1"
    and 2: "on_queue (cancel_ack_after_racing_fill oid now) E1 = Return z E2"
    and E': "E' = at_event now (set_order oid (ord\<lparr>po_status := PARTIAL_FILLED\<rparr>) E2)"
    using r unfolding acknowledge_raced_def probing_Return and_then_Return by blast
  have e1: "evolves E E1 \<and> pe_orders E1 = pe_orders E \<and> pe_last_event_us E1 = pe_last_event_us E"
  proof (cases "E1 = E")
    case False
    then obtain cid where "po_capital_id ord = Some cid" "on_ledger (acknowledge_cancel cid now) E = Return y E1"
      using 1 by (auto split: option.splits if_splits)
    then show ?thesis using evolves_order_capital(2) [OF funds_orderI [OF o]] by (auto simp: on_ledger_Return)
  qed simp
  have e2: "pe_orders E2 = pe_orders E1 \<and> pe_last_event_us E2 = pe_last_event_us E1"
    using 2 by (auto simp: on_queue_Return)
  have "evolves E2 (set_order oid (ord\<lparr>po_status := PARTIAL_FILLED\<rparr>) E2)"
    by (rule evolves_update_order [of _ _ ord]) (use o e1 e2 in simp_all)
  moreover have "evolves (set_order oid (ord\<lparr>po_status := PARTIAL_FILLED\<rparr>) E2) E'"
    unfolding E' by (rule evolves_at_event) (use e1 e2 time in \<open>simp add: set_order_def\<close>)
  ultimately show ?thesis using e1 evolves_cancel(2) [OF 2] by (blast intro: evolves_trans)
qed

lemma acknowledge_clean_evolves:
  assumes r: "acknowledge_clean oid ord price now E = Return x E'" and o: "dict_get (pe_orders E) oid = Some ord"
    and time: "pe_last_event_us E \<le> now"
  shows "evolves E E'"
proof -
  obtain y E1 z E2 new E3 where
    1: "(case po_capital_id ord of Some cid \<Rightarrow> if_ledger (acknowledge_cancel cid now) 0 E
         | None \<Rightarrow> Return 0 E) = Return y E1"
    and 2: "on_queue (cancel_ack oid now) E1 = Return z E2"
    and 3: "new_order (po_side ord) (po_rank ord) (po_column ord) price now
        (set_order oid (ord\<lparr>po_status := CANCELLED\<rparr>) E2) = Return new E3"
    and E': "E' = at_event now E3"
    using r unfolding acknowledge_clean_def probing_Return and_then_Return by blast
  have e1: "evolves E E1 \<and> pe_orders E1 = pe_orders E \<and> pe_last_event_us E1 = pe_last_event_us E"
  proof (cases "E1 = E")
    case False
    then obtain cid where "po_capital_id ord = Some cid" "on_ledger (acknowledge_cancel cid now) E = Return y E1"
      using 1 by (auto simp: if_ledger_Return split: option.splits)
    then show ?thesis using evolves_order_capital(2) [OF funds_orderI [OF o]] by (auto simp: on_ledger_Return)
  qed simp
  have e2: "pe_orders E2 = pe_orders E1 \<and> pe_last_event_us E2 = pe_last_event_us E1"
    using 2 by (auto simp: on_queue_Return)
  have "evolves E2 (set_order oid (ord\<lparr>po_status := CANCELLED\<rparr>) E2)"
    by (rule evolves_update_order [of _ _ ord]) (use o e1 e2 in simp_all)
  moreover have "pe_last_event_us E3 = pe_last_event_us E2"
    using 3 by (auto simp: new_order_def Let_def set_order_def on_queue_Return split: if_splits)
  then have "evolves E3 E'" unfolding E' by (intro evolves_at_event) (use e1 e2 time in simp)
  ultimately show ?thesis using e1 evolves_cancel(1) [OF 2] new_order_evolves(1) [OF 3]
    by (blast intro: evolves_trans)
qed

lemma acknowledge_grid_cancel_evolves:
  "acknowledge_grid_cancel oid now E = Return x E' \<Longrightarrow> evolves E E'"
  unfolding acknowledge_grid_cancel_def engine_returns
  by (auto split: if_splits intro: acknowledge_raced_evolves acknowledge_clean_evolves)

text \<open>Binding capital and submitting returns.\<close>

lemma bind_order_capital_Return:
  assumes "bind_order_capital oid cid now E = Return u E'"
  obtains L ord p r E1 where "pe_ledger E = Some L" "pe_last_event_us E \<le> now"
    "dict_get (pe_orders E) oid = Some ord" "dict_get (positions L) cid = Some p" "cap_pair_id p = pe_pair_id E"
    "cap_state p \<in> {RESERVED_PAIR_A, RESERVED_PAIR_B}" "po_side ord = ''BUY''" "po_role ord = ''ENTRY''"
    "dmul (po_price ord) (po_quantity ord) \<le> cap_cost_basis p" "po_capital_id ord = None"
    "\<forall>row \<in> set (dict_values (pe_orders E)). po_capital_id row = Some cid \<longrightarrow> po_id row \<noteq> oid \<longrightarrow>
       po_status row \<notin> working_statuses"
    "on_queue (queue_activate ord now E) E = Return r E1"
    "E' = at_event now (set_order oid (ord\<lparr>po_capital_id := Some cid, po_status := ACTIVE\<rparr>) E1)"
  using assms unfolding bind_order_capital_def case_Raise_option with_order_Return
    with_capital_Return if_Raise_engine probing_Return and_then_Return engine_causal_iff
  by (elim exE conjE) (rule that; auto simp: not_less)

lemma bind_order_capital_evolves:
  assumes "bind_order_capital oid cid now E = Return u E'"
  shows "evolves E E'"
proof (rule bind_order_capital_Return [OF assms])
  fix L ord p r E1
  assume L: "pe_ledger E = Some L" "pe_last_event_us E \<le> now" and o: "dict_get (pe_orders E) oid = Some ord"
    and p: "dict_get (positions L) cid = Some p" "cap_pair_id p = pe_pair_id E"
    and q: "on_queue (queue_activate ord now E) E = Return r E1"
    and E': "E' = at_event now (set_order oid (ord\<lparr>po_capital_id := Some cid, po_status := ACTIVE\<rparr>) E1)"
  have E1: "pe_orders E1 = pe_orders E" "pe_ledger E1 = pe_ledger E" "pe_pair_id E1 = pe_pair_id E"
      "pe_last_event_us E1 = pe_last_event_us E" "pe_sequence E1 = pe_sequence E" using q by (auto simp: on_queue_Return)
  have ido: "po_id ord = oid \<and> issued_order E oid" if "engine_inv E" using that o by (simp add: engine_inv_def orders_ok_def)
  have e1: "evolves E E1"
  proof (cases "engine_inv E")
    case True
    show ?thesis by (rule evolves_activate [OF q]) (use ido [OF True] o in \<open>simp add: has_key_iff\<close>)
  next
    case False
    then show ?thesis using q by (auto simp: evolves_def on_queue_Return)
  qed
  have e2: "evolves E1 (set_order oid (ord\<lparr>po_capital_id := Some cid, po_status := ACTIVE\<rparr>) E1)"
  proof (cases "engine_inv E1")
    case True
    then have io: "po_id ord = oid \<and> issued_order E1 oid" using o E1 by (simp add: engine_inv_def orders_ok_def)
    show ?thesis
    proof (rule evolves_set_order)
      fix cid' L' assume "po_capital_id (ord\<lparr>po_capital_id := Some cid, po_status := ACTIVE\<rparr>) = Some cid'"
        "pe_ledger E1 = Some L'"
      then have c: "cid' = cid" "L' = L" using E1 L by simp_all
      have "ledger_inv L" using True E1 L by (auto simp: engine_inv_def capital_ok_def)
      then show "issued (capital_sequence L') cid' \<and>
          (\<forall>p. dict_get (positions L') cid' = Some p \<longrightarrow> cap_pair_id p = pe_pair_id E1)"
        using inv_position [OF _ p(1)] p c E1 by auto
    qed (use io in simp_all)
  next
    case False
    then show ?thesis by (simp add: evolves_def set_order_def)
  qed
  have "evolves (set_order oid (ord\<lparr>po_capital_id := Some cid, po_status := ACTIVE\<rparr>) E1) E'"
    unfolding E' by (rule evolves_at_event) (use L E1 in \<open>simp add: set_order_def\<close>)
  then show ?thesis using e1 e2 by (blast intro: evolves_trans)
qed

definition return_order :: "string \<Rightarrow> string \<Rightarrow> decimal \<Rightarrow> decimal \<Rightarrow> int \<Rightarrow> string option \<Rightarrow> int \<Rightarrow> pair_engine \<Rightarrow> pair_order" where
  "return_order cid cyc price quantity now aid column E =
     (blank_order (order_id (pe_pair_id E) (Suc (pe_sequence E))) (pe_pair_id E) ''SELL'' 0 column price quantity now ACTIVE)
     \<lparr>po_capital_id := Some cid, po_role := ''RETURN'', po_cycle_id := Some cyc, po_authorization_id := aid\<rparr>"

lemma submit_owned_return_Return:
  assumes "submit_owned_return cid cyc price quantity now aid E = Return ord E'"
  obtains L p column E2 r E3 where "pe_ledger E = Some L" "pe_last_event_us E \<le> now"
    "dict_get (positions L) cid = Some p" "cap_pair_id p = pe_pair_id E" "quantity \<le> cap_quantity p"
    "ord = return_order cid cyc price quantity now aid column E"
    "(if cap_state p \<in> {INVENTORY_PAIR_A, INVENTORY_PAIR_B}
      then on_ledger (reserve_owned_return cid now) (E\<lparr>pe_sequence := Suc (pe_sequence E)\<rparr>)
      else Return () (E\<lparr>pe_sequence := Suc (pe_sequence E)\<rparr>)) = Return () E2"
    "on_queue (queue_activate ord now E2) (set_order (po_id ord) ord E2) = Return r E3" "E' = at_event now E3"
proof -
  obtain L p column E2 r E3 v where "pe_ledger E = Some L" "\<not> (now < pe_last_event_us E \<or> price \<le> 0 \<or> quantity \<le> 0)"
    "dict_get (positions L) cid = Some p"
    "\<not> (cap_pair_id p \<noteq> pe_pair_id E \<or> cap_asset p \<noteq> pe_pair_asset E \<or> cap_quantity p < quantity \<or>
       cap_state p \<notin> {INVENTORY_PAIR_A, INVENTORY_PAIR_B, RETURN_PAIR_A, RETURN_PAIR_B} \<or> return_working cid E)"
    "(if cap_state p \<in> {INVENTORY_PAIR_A, INVENTORY_PAIR_B}
      then on_ledger (reserve_owned_return cid now) (E\<lparr>pe_sequence := Suc (pe_sequence E)\<rparr>)
      else Return () (E\<lparr>pe_sequence := Suc (pe_sequence E)\<rparr>)) = Return v E2"
    "on_queue (queue_activate (return_order cid cyc price quantity now aid column E) now E2)
       (set_order (order_id (pe_pair_id E) (Suc (pe_sequence E))) (return_order cid cyc price quantity now aid column E) E2)
     = Return r E3"
    "return_order cid cyc price quantity now aid column E = ord" "at_event now E3 = E'"
    using assms unfolding submit_owned_return_def Let_def case_Raise_option with_capital_Return if_Raise_engine
      probing_Return and_then_Return return_order_def [symmetric] outcome.inject
    by (elim exE conjE) (rule that; assumption)
  then show thesis by (intro that) (auto simp: not_less return_order_def blank_order_def)
qed

lemma submit_owned_return_evolves:
  assumes "submit_owned_return cid cyc price quantity now aid E = Return ord E'"
  shows "evolves E E'"
proof (rule submit_owned_return_Return [OF assms])
  fix L p column E2 r E3
  let ?E1 = "E\<lparr>pe_sequence := Suc (pe_sequence E)\<rparr>"
  assume L: "pe_ledger E = Some L" "pe_last_event_us E \<le> now" and p: "dict_get (positions L) cid = Some p"
    "cap_pair_id p = pe_pair_id E" and ord: "ord = return_order cid cyc price quantity now aid column E"
    and 2: "(if cap_state p \<in> {INVENTORY_PAIR_A, INVENTORY_PAIR_B}
      then on_ledger (reserve_owned_return cid now) ?E1 else Return () ?E1) = Return () E2"
    and 3: "on_queue (queue_activate ord now E2) (set_order (po_id ord) ord E2) = Return r E3"
    and E': "E' = at_event now E3"
  have fields: "po_id ord = order_id (pe_pair_id E) (Suc (pe_sequence E))" "po_capital_id ord = Some cid"
    by (simp_all add: ord return_order_def blank_order_def)
  have e1: "evolves E ?E1" by (rule evolves_frame) simp_all
  have e2: "evolves ?E1 E2 \<and> pe_pair_id E2 = pe_pair_id E \<and> pe_sequence E2 = Suc (pe_sequence E) \<and>
      pe_last_event_us E2 = pe_last_event_us E \<and>
      (\<exists>L2 p2. pe_ledger E2 = Some L2 \<and> dict_get (positions L2) cid = Some p2 \<and> cap_pair_id p2 = pe_pair_id E)"
  proof (cases "cap_state p \<in> {INVENTORY_PAIR_A, INVENTORY_PAIR_B}")
    case True
    then have r: "on_ledger (reserve_owned_return cid now) ?E1 = Return () E2" using 2 by simp
    then obtain L2 where L2: "reserve_owned_return cid now L = Return () L2" "E2 = ?E1\<lparr>pe_ledger := Some L2\<rparr>"
      using L by (auto simp: on_ledger_Return)
    have "\<exists>p2. dict_get (positions L2) cid = Some p2 \<and> cap_pair_id p2 = pe_pair_id E"
      using reserve_owned_return_effect [OF L2(1)] p by auto
    moreover have "evolves ?E1 E2"
      by (rule evolves_on_ledger [OF r]) (use L p engine_ledger_pair(3) in auto)
    ultimately show ?thesis using L2 by auto
  next
    case False
    then show ?thesis using 2 L p by auto
  qed
  have e3: "evolves E2 (set_order (po_id ord) ord E2)"
  proof (rule evolves_set_order)
    show "issued_order E2 (po_id ord)" using e2 by (auto simp: issued_order_def fields)
    fix cid' L' assume inv: "engine_inv E2" and "po_capital_id ord = Some cid'" "pe_ledger E2 = Some L'"
    then obtain p2 where p2: "cid' = cid" "dict_get (positions L') cid = Some p2" "cap_pair_id p2 = pe_pair_id E2"
      using e2 fields by auto
    moreover have "ledger_inv L'" using inv \<open>pe_ledger E2 = Some L'\<close> by (auto simp: engine_inv_def capital_ok_def)
    ultimately show "issued (capital_sequence L') cid' \<and>
        (\<forall>p. dict_get (positions L') cid' = Some p \<longrightarrow> cap_pair_id p = pe_pair_id E2)"
      using inv_position by auto
  qed simp
  have e4: "evolves (set_order (po_id ord) ord E2) E3"
    by (rule evolves_activate [OF 3]) (simp add: set_order_def has_key_def)
  have "evolves E3 E'" unfolding E'
    by (rule evolves_at_event) (use L e2 3 in \<open>auto simp: on_queue_Return set_order_def\<close>)
  with e1 e2 e3 e4 show ?thesis by (blast intro: evolves_trans)
qed

lemma request_c1_move_Return:
  assumes "request_c1_move oid price new_value current_value lost cancel_cost reentry now E = Return moved E'"
  obtains (stay) ord where "dict_get (pe_orders E) oid = Some ord" "moved = False" "E' = E"
      "c1_should_move new_value current_value lost cancel_cost reentry = Inr False"
    | (move) ord E1 where "pe_last_event_us E \<le> now" "dict_get (pe_orders E) oid = Some ord" "moved = True"
      "po_column ord = 1" "po_status ord = ACTIVE"
      "c1_should_move new_value current_value lost cancel_cost reentry = Inr True"
      "(case po_capital_id ord of
          Some cid \<Rightarrow> if_ledger (request_cancel cid now) () (set_order oid (ord\<lparr>po_replacement_price := Some price\<rparr>) E)
        | None \<Rightarrow> Return () (set_order oid (ord\<lparr>po_replacement_price := Some price\<rparr>) E)) = Return () E1"
      "E' = at_event now (set_order oid (ord\<lparr>po_replacement_price := Some price, po_status := CANCEL_REQUESTED\<rparr>) E1)"
proof -
  let ?stay = "c1_should_move new_value current_value lost cancel_cost reentry"
  obtain ord where o: "dict_get (pe_orders E) oid = Some ord" "pe_last_event_us E \<le> now"
      "\<not> (po_column ord \<noteq> 1 \<or> po_status ord \<noteq> ACTIVE)"
    using assms unfolding request_c1_move_def engine_causal_Return with_order_Return if_Raise_engine by blast
  note r = assms [unfolded request_c1_move_def engine_causal_Return with_order_def o(1) option.case if_Raise_engine Let_def]
  note s = conjunct2 [OF conjunct2 [OF r]]
  obtain b where "?stay = Inr b" using s by (cases ?stay) auto
  then consider (yes) "?stay = Inr True" | (no) "?stay = Inr False" by (cases b) auto
  then show thesis
  proof cases
    case yes
    note m = s [unfolded yes sum.case bool.case and_then_Return outcome.inject]
    show ?thesis using m by (elim exE conjE) (rule move [OF o(2,1)]; (rule sym, assumption | use o(3) yes in simp))
  next
    case no
    note m = s [unfolded no sum.case bool.case]
    show ?thesis by (rule stay [OF o(1)]) (use m no in auto)
  qed
qed

lemma request_c1_move_evolves:
  assumes "request_c1_move oid price new_value current_value lost cancel_cost reentry now E = Return moved E'"
  shows "evolves E E'"
proof (cases rule: request_c1_move_Return [OF assms])
  case (2 ord E1)
  let ?o = "ord\<lparr>po_replacement_price := Some price\<rparr>"
  let ?E = "set_order oid ?o E"
  have e1: "evolves E ?E" by (rule evolves_update_order [of _ _ ord]) (use 2(2) in simp_all)
  have o: "dict_get (pe_orders ?E) oid = Some ?o" by (simp add: set_order_def)
  have "(case po_capital_id ?o of Some cid \<Rightarrow> if_ledger (request_cancel cid now) () ?E | None \<Rightarrow> Return () ?E) = Return () E1"
    using 2(7) by simp
  note c = cancel_capital_evolves [OF this o]
  have e2: "evolves E1 (set_order oid (ord\<lparr>po_replacement_price := Some price, po_status := CANCEL_REQUESTED\<rparr>) E1)"
    by (rule evolves_update_order [of _ _ ?o]) (use c(2) o in simp_all)
  have "pe_last_event_us E1 = pe_last_event_us E"
    using 2(7) by (auto simp: if_ledger_Return on_ledger_Return set_order_def split: option.splits)
  then have "evolves (set_order oid (ord\<lparr>po_replacement_price := Some price, po_status := CANCEL_REQUESTED\<rparr>) E1) E'"
    unfolding 2(8) by (intro evolves_at_event) (use 2(1) in \<open>simp add: set_order_def\<close>)
  then show ?thesis using e1 e2 c(1) by (blast intro: evolves_trans)
qed simp

text \<open>Settling on the pair, filling orders, consuming a trade.\<close>

lemma settled_figures_fields [simp]:
  "pe_pair_id (settled_figures d c r E) = pe_pair_id E" "pe_symbol (settled_figures d c r E) = pe_symbol E"
  "pe_pair_asset (settled_figures d c r E) = pe_pair_asset E" "pe_tick_size (settled_figures d c r E) = pe_tick_size E"
  "pe_hotline (settled_figures d c r E) = pe_hotline E"
  "pe_hotline_history (settled_figures d c r E) = pe_hotline_history E"
  "pe_last_event_us (settled_figures d c r E) = pe_last_event_us E"
  "pe_orders (settled_figures d c r E) = pe_orders E" "pe_queue (settled_figures d c r E) = pe_queue E"
  "pe_ledger (settled_figures d c r E) = pe_ledger E" "pe_sequence (settled_figures d c r E) = pe_sequence E"
  "pe_inventory_quantity (settled_figures d c r E) = pe_inventory_quantity E"
  by (simp_all add: settled_figures_def Let_def)

lemma settle_owned_return_Return:
  assumes "settle_owned_return cid cyc sold proceeds rmark now aid order_done E = Return x E'"
  obtains E1 where "on_ledger (settle_return cid cyc sold proceeds rmark now aid order_done) E = Return x E1"
    "sold \<le> pe_inventory_quantity E"
    "E' = at_event now (settled_figures order_done cyc x
            (E1\<lparr>pe_inventory_quantity := dsub (pe_inventory_quantity E1) sold\<rparr>))"
proof -
  obtain xa E1 where 1: "on_ledger (settle_return cid cyc sold proceeds rmark now aid order_done) E = Return xa E1"
    and 2: "sold \<le> pe_inventory_quantity E" and 3: "xa = x"
    and 4: "at_event now (settled_figures order_done cyc xa
            (E1\<lparr>pe_inventory_quantity := dsub (pe_inventory_quantity E1) sold\<rparr>)) = E'"
    using assms unfolding settle_owned_return_def case_Raise_option with_capital_Return if_Raise_engine
      and_then_Return Let_def outcome.inject not_less
    by (elim exE conjE) (rule that; assumption)
  show thesis by (rule that [OF 1 [unfolded 3] 2 4 [unfolded 3, symmetric]])
qed

lemma settle_owned_return_evolves:
  assumes r: "settle_owned_return cid cyc sold proceeds rmark now aid order_done E = Return x E'"
    and f: "funds_order cid E" and time: "pe_last_event_us E \<le> now"
  shows "evolves E E'" and "pe_last_event_us E' = now" and "pe_orders E' = pe_orders E"
proof -
  obtain E1 where e: "on_ledger (settle_return cid cyc sold proceeds rmark now aid order_done) E = Return x E1"
    "E' = at_event now (settled_figures order_done cyc x
            (E1\<lparr>pe_inventory_quantity := dsub (pe_inventory_quantity E1) sold\<rparr>))"
    by (rule settle_owned_return_Return [OF r])
  have E1: "pe_last_event_us E1 = pe_last_event_us E" "pe_orders E1 = pe_orders E"
    using e(1) by (auto simp: on_ledger_Return)
  have "evolves E E1" by (rule evolves_order_capital(5) [OF f e(1)])
  moreover have "evolves E1 E'" by (rule evolves_frame) (use E1 time in \<open>simp_all add: e(2) at_event_def\<close>)
  ultimately show "evolves E E'" by (rule evolves_trans)
  show "pe_last_event_us E' = now" "pe_orders E' = pe_orders E" using E1 by (simp_all add: e(2) at_event_def)
qed

lemma filled_order_fields [simp]:
  "po_id (filled_order a ord) = po_id ord" "po_capital_id (filled_order a ord) = po_capital_id ord"
  "po_role (filled_order a ord) = po_role ord" "po_cycle_id (filled_order a ord) = po_cycle_id ord"
  "po_side (filled_order a ord) = po_side ord" "po_quantity (filled_order a ord) = po_quantity ord"
  "po_authorization_id (filled_order a ord) = po_authorization_id ord"
  "po_filled_quantity (filled_order a ord) = dadd (po_filled_quantity ord) a"
  "po_inventory_capital_ids (filled_order a ord) = po_inventory_capital_ids ord"
  "po_net_proceeds_usdt (filled_order a ord) = po_net_proceeds_usdt ord"
  by (simp_all add: filled_order_def Let_def)

text \<open>A fill that returns was an entry fill or a settlement.\<close>

lemma apply_fill_Return:
  assumes "apply_fill price fee cost now (oid, amount) E = Return u E'"
  obtains (entry) ord cid inv_id E1 where "dict_get (pe_orders E) oid = Some ord" "po_capital_id ord = Some cid"
      "po_role ord = ''ENTRY''"
      "on_ledger (entry_fill cid (pe_pair_asset E) amount price fee cost now)
         (set_order oid (filled_order amount ord) E) = Return inv_id E1"
      "E' = (set_order oid ((filled_order amount ord)
          \<lparr>po_inventory_capital_ids := po_inventory_capital_ids ord @ [inv_id]\<rparr>) E1)
        \<lparr>pe_inventory_quantity := dadd (pe_inventory_quantity E1) (net_inventory amount fee)\<rparr>"
    | (settle) ord cid cyc L p rmark x where "dict_get (pe_orders E) oid = Some ord" "po_capital_id ord = Some cid"
      "po_role ord \<noteq> ''ENTRY''" "po_cycle_id ord = Some cyc" "pe_ledger E = Some L" "dict_get (positions L) cid = Some p"
      "residual_mark_of (dadd (po_filled_quantity ord) amount = po_quantity ord) amount p L = Some rmark"
      "settle_owned_return cid cyc amount (fill_proceeds amount price fee cost) rmark now (po_authorization_id ord)
         (dadd (po_filled_quantity ord) amount = po_quantity ord)
         (set_order oid ((filled_order amount ord)
            \<lparr>po_net_proceeds_usdt := dadd (po_net_proceeds_usdt ord) (fill_proceeds amount price fee cost)\<rparr>)
            (set_order oid (filled_order amount ord) E)) = Return x E'"
proof -
  obtain ord where o: "dict_get (pe_orders E) oid = Some ord"
    using assms unfolding apply_fill_def prod.case with_order_Return by blast
  note r = assms [unfolded apply_fill_def prod.case with_order_def o option.case Let_def]
  obtain cid where c: "po_capital_id ord = Some cid" using r by (cases "po_capital_id ord") simp_all
  note r = r [unfolded filled_order_fields c option.case]
  show thesis
  proof (cases "po_role ord = ''ENTRY''")
    case True
    note r [unfolded True simp_thms if_True and_then_Return outcome.inject]
    then obtain i E1 where i: "on_ledger (entry_fill cid (pe_pair_asset (set_order oid (filled_order amount ord) E)) amount price fee cost now)
         (set_order oid (filled_order amount ord) E) = Return i E1"
      and E': "(set_order oid ((filled_order amount ord)
          \<lparr>po_inventory_capital_ids := po_inventory_capital_ids ord @ [i]\<rparr>) E1)
        \<lparr>pe_inventory_quantity := dadd (pe_inventory_quantity E1) (net_inventory amount fee)\<rparr> = E'" by blast
    have "pe_pair_asset (set_order oid (filled_order amount ord) E) = pe_pair_asset E" by (simp add: set_order_def)
    then show ?thesis using entry [OF o c True _ E' [symmetric]] i by simp
  next
    case False
    let ?E1 = "set_order oid ((filled_order amount ord)
            \<lparr>po_net_proceeds_usdt := dadd (po_net_proceeds_usdt ord) (fill_proceeds amount price fee cost)\<rparr>)
            (set_order oid (filled_order amount ord) E)"
    have led: "pe_ledger ?E1 = pe_ledger E" by (simp add: set_order_def)
    note r = r [unfolded if_not_P [OF False] led]
    obtain cyc L where cl: "po_cycle_id ord = Some cyc" "pe_ledger E = Some L"
      using r by (cases "po_cycle_id ord"; cases "pe_ledger E") simp_all
    note r = r [unfolded cl prod.case option.case with_capital_Return case_Raise_option and_then_Return outcome.inject]
    show ?thesis using r by (elim exE conjE) (rule settle [OF o c False cl]; (assumption | simp))
  qed
qed

lemma apply_fill_evolves:
  assumes r: "apply_fill price fee cost now (oid, amount) E = Return u E'" and time: "pe_last_event_us E \<le> now"
  shows "evolves E E' \<and> pe_last_event_us E' \<le> now"
proof (cases rule: apply_fill_Return [OF r])
  case (1 ord cid inv_id E1)
  let ?o = "filled_order amount ord"
  let ?E = "set_order oid ?o E"
  let ?E2 = "set_order oid (?o\<lparr>po_inventory_capital_ids := po_inventory_capital_ids ord @ [inv_id]\<rparr>) E1"
  have o: "dict_get (pe_orders ?E) oid = Some ?o" by (simp add: set_order_def)
  have e1: "evolves E ?E" by (rule evolves_update_order [of _ _ ord]) (use 1(1) in simp_all)
  have "funds_order cid ?E" by (rule funds_orderI [OF o]) (simp add: 1(2))
  then have e2: "evolves ?E E1" using 1(4) unfolding entry_fill_def by (rule evolves_order_capital(4))
  have E1: "pe_orders E1 = pe_orders ?E" "pe_last_event_us E1 = pe_last_event_us E"
    using 1(4) by (auto simp: on_ledger_Return set_order_def)
  have e3: "evolves E1 ?E2" by (rule evolves_update_order [of _ _ ?o]) (use o E1 in simp_all)
  have "evolves ?E2 E'" unfolding 1(5) by (rule evolves_frame) simp_all
  then show ?thesis using e1 e2 e3 E1 time by (auto simp: 1(5) set_order_def intro: evolves_trans)
next
  case (2 ord cid cyc L p rmark x)
  let ?o = "filled_order amount ord"
  let ?E = "set_order oid ?o E"
  let ?o2 = "?o\<lparr>po_net_proceeds_usdt := dadd (po_net_proceeds_usdt ord) (fill_proceeds amount price fee cost)\<rparr>"
  let ?E2 = "set_order oid ?o2 ?E"
  have e1: "evolves E ?E" by (rule evolves_update_order [of _ _ ord]) (use 2(1) in simp_all)
  have e2: "evolves ?E ?E2" by (rule evolves_update_order [of _ _ ?o]) (simp_all add: set_order_def)
  have "funds_order cid ?E2" by (rule funds_orderI [of _ oid ?o2]) (simp_all add: 2(2) set_order_def)
  from settle_owned_return_evolves [OF 2(8) this] time
  show ?thesis using e1 e2 by (auto simp: set_order_def intro: evolves_trans)
qed

lemma apply_fills_evolves:
  "apply_fills price fee cost now fills E = Return u E' \<Longrightarrow> pe_last_event_us E \<le> now \<Longrightarrow>
     evolves E E' \<and> pe_last_event_us E' \<le> now"
proof (induction fills arbitrary: E)
  case (Cons fill fills)
  obtain oid amount where f: "fill = (oid, amount)" by (cases fill)
  obtain v E1 where r: "apply_fill price fee cost now (oid, amount) E = Return v E1"
    "apply_fills price fee cost now fills E1 = Return u E'" using Cons.prems(1) by (auto simp: f)
  show ?case using apply_fill_evolves [OF r(1) Cons.prems(2)] Cons.IH [OF r(2)] by (blast intro: evolves_trans)
qed simp

lemma consume_public_trade_Return:
  assumes "consume_public_trade t now E = Return fills E'"
  obtains L q1 q2 E2 where "pe_last_event_us E \<le> now" "trade_source t = ''PUBLIC_TRADE''"
    "0 \<le> trade_fee_rate t" "trade_fee_rate t < 1" "0 \<le> trade_attributable_cost t" "pe_ledger E = Some L"
    "fills_error E L (trade_price t) fills = None"
    "trade_flow t (pe_symbol E) now (pe_queue E) = Return fills q1"
    "probe_fills E (trade_price t) (trade_fee_rate t) (trade_attributable_cost t) now fills L = Return () q2"
    "apply_fills (trade_price t) (trade_fee_rate t) (trade_attributable_cost t) now fills (E\<lparr>pe_queue := q1\<rparr>) = Return () E2"
    "E' = at_event now E2"
proof -
  obtain L planned q1 where g: "pe_last_event_us E \<le> now" "\<not> trade_source t \<noteq> ''PUBLIC_TRADE''"
    "\<not> (\<not> (0 \<le> trade_fee_rate t \<and> trade_fee_rate t < 1) \<or> trade_attributable_cost t < 0)" "pe_ledger E = Some L"
    and q1: "trade_flow t (pe_symbol E) now (pe_queue E) = Return planned q1"
    and rest: "(case fills_error E L (trade_price t) planned of
        Some e \<Rightarrow> Raise e E
      | None \<Rightarrow> probing (probe_fills E (trade_price t) (trade_fee_rate t) (trade_attributable_cost t) now planned L) E
          (\<lambda>_. and_then (on_queue (trade_flow t (pe_symbol E) now) E) (\<lambda>fills E1.
             and_then (apply_fills (trade_price t) (trade_fee_rate t) (trade_attributable_cost t) now fills E1)
               (\<lambda>_ E2. Return fills (at_event now E2))))) = Return fills E'"
    using assms unfolding consume_public_trade_def engine_causal_Return if_Raise_engine Let_def case_Raise_option
      probing_Return [of "trade_flow t (pe_symbol E) now (pe_queue E)"]
    by (elim exE conjE) (rule that; assumption)
  have none: "fills_error E L (trade_price t) planned = None"
    using rest by (cases "fills_error E L (trade_price t) planned") simp_all
  have q: "on_queue (trade_flow t (pe_symbol E) now) E = Return planned (E\<lparr>pe_queue := q1\<rparr>)"
    by (simp add: on_queue_def q1)
  have "planned = fills \<and> (\<exists>v q2 u E2.
      probe_fills E (trade_price t) (trade_fee_rate t) (trade_attributable_cost t) now planned L = Return v q2 \<and>
      apply_fills (trade_price t) (trade_fee_rate t) (trade_attributable_cost t) now planned (E\<lparr>pe_queue := q1\<rparr>) = Return u E2 \<and>
      E' = at_event now E2)"
    using rest unfolding none option.case probing_Return and_then_Return q outcome.inject by blast
  then show thesis using g none q1 by (auto intro: that)
qed

lemma consume_public_trade_evolves:
  assumes "consume_public_trade t now E = Return fills E'"
  shows "evolves E E'"
proof (rule consume_public_trade_Return [OF assms])
  fix L q1 q2 E2
  assume time: "pe_last_event_us E \<le> now" and q1: "trade_flow t (pe_symbol E) now (pe_queue E) = Return fills q1"
    and a: "apply_fills (trade_price t) (trade_fee_rate t) (trade_attributable_cost t) now fills (E\<lparr>pe_queue := q1\<rparr>) = Return () E2"
    and E': "E' = at_event now E2"
  have "evolves E (E\<lparr>pe_queue := q1\<rparr>)"
    by (rule evolves_flow [of t "pe_symbol E" now _ fills]) (simp add: on_queue_def q1)
  with apply_fills_evolves [OF a] time show ?thesis
    using evolves_at_event [of E2 now] by (auto simp: E' intro: evolves_trans)
qed

section \<open>Book updates\<close>

definition booked :: "decimal \<Rightarrow> decimal \<Rightarrow> int \<Rightarrow> pair_engine \<Rightarrow> pair_engine" where
  "booked bid ask now E =
     (let target = hotline_target bid ask (pe_tick_size E)
      in E\<lparr>pe_bid := Some bid, pe_ask := Some ask, pe_hotline := Some target,
           pe_hotline_history := pe_hotline_history E @
             (if pe_hotline_history E = [] \<or> snd (last (pe_hotline_history E)) \<noteq> target
              then [(now, target)] else [])\<rparr>)"

lemma booked_fields [simp]:
  "pe_orders (booked bid ask now E) = pe_orders E" "pe_queue (booked bid ask now E) = pe_queue E"
  "pe_ledger (booked bid ask now E) = pe_ledger E" "pe_sequence (booked bid ask now E) = pe_sequence E"
  "pe_pair_id (booked bid ask now E) = pe_pair_id E" "pe_symbol (booked bid ask now E) = pe_symbol E"
  "pe_last_event_us (booked bid ask now E) = pe_last_event_us E"
  "pe_pair_asset (booked bid ask now E) = pe_pair_asset E" "pe_tick_size (booked bid ask now E) = pe_tick_size E"
  "pe_hotline (booked bid ask now E) = Some (hotline_target bid ask (pe_tick_size E))"
  by (simp_all add: booked_def Let_def)

lemma booked_inv: "engine_inv E \<Longrightarrow> engine_inv (booked bid ask now E)"
  by (auto simp: engine_inv_def orders_ok_def queue_ok_def capital_ok_def issued_order_def split: option.splits)

lemma receive_book_Return:
  assumes "receive_book bid ask now reason E = Return u E'"
  obtains (still) E1 where "pe_last_event_us E \<le> now" "0 < bid" "bid < ask"
      "if_ledger (update_asset_mark (pe_pair_asset E) bid now) () E = Return () E1"
      "pe_hotline E1 = None \<or> pe_hotline E1 = Some (hotline_target bid ask (pe_tick_size E1))"
      "E' = at_event now (booked bid ask now E1)"
    | (moved) E1 levels E2 h where "pe_last_event_us E \<le> now" "0 < bid" "bid < ask"
      "if_ledger (update_asset_mark (pe_pair_asset E) bid now) () E = Return () E1"
      "pe_hotline E1 = Some h" "h \<noteq> hotline_target bid ask (pe_tick_size E1)"
      "reconcile_for_hotline now (booked bid ask now E1) = Return levels E2"
      "E' = at_event now (E2\<lparr>pe_event_log := pe_event_log E2 @
          [\<lparr>hc_timestamp = now, hc_pair = pe_pair_id E2, hc_old_hotline = h,
            hc_new_hotline = hotline_target bid ask (pe_tick_size E1), hc_reason = reason, hc_affected = levels\<rparr>]\<rparr>)"
proof -
  have folded: "booked bid ask now E = E\<lparr>pe_bid := Some bid, pe_ask := Some ask,
      pe_hotline := Some (hotline_target bid ask (pe_tick_size E)),
      pe_hotline_history := pe_hotline_history E @
        (if pe_hotline_history E = [] \<or> snd (last (pe_hotline_history E)) \<noteq> hotline_target bid ask (pe_tick_size E)
         then [(now, hotline_target bid ask (pe_tick_size E))] else [])\<rparr>" for E
    by (simp add: booked_def Let_def)
  obtain E1 where g: "pe_last_event_us E \<le> now" "\<not> (bid \<le> 0 \<or> ask \<le> bid)"
      "if_ledger (update_asset_mark (pe_pair_asset E) bid now) () E = Return () E1"
    and r: "(case pe_hotline E1 of None \<Rightarrow> Return () (at_event now (booked bid ask now E1))
      | Some h \<Rightarrow> if h = hotline_target bid ask (pe_tick_size E1) then Return () (at_event now (booked bid ask now E1))
          else and_then (reconcile_for_hotline now (booked bid ask now E1)) (\<lambda>affected E3.
            Return () (at_event now (E3\<lparr>pe_event_log := pe_event_log E3 @
               [\<lparr>hc_timestamp = now, hc_pair = pe_pair_id E3, hc_old_hotline = h,
                 hc_new_hotline = hotline_target bid ask (pe_tick_size E1), hc_reason = reason,
                 hc_affected = affected\<rparr>]\<rparr>)))) = Return u E'"
    using assms unfolding receive_book_def engine_causal_Return if_Raise_engine Let_def folded by auto
  then have b: "0 < bid" "bid < ask" by auto
  show thesis
  proof (cases "pe_hotline E1")
    case None
    then show ?thesis using r b by (intro still [OF g(1) b g(3)]) auto
  next
    case (Some h)
    show ?thesis
    proof (cases "h = hotline_target bid ask (pe_tick_size E1)")
      case True
      then show ?thesis using r b Some by (intro still [OF g(1) b g(3)]) auto
    next
      case False
      then show ?thesis using r b Some by (auto intro: moved [OF g(1) b g(3) Some False])
    qed
  qed
qed

lemma update_mark_evolves:
  assumes "if_ledger (update_asset_mark (pe_pair_asset E) bid now) () E = Return () E1"
  shows "evolves E E1" and "pe_orders E1 = pe_orders E" and "pe_queue E1 = pe_queue E"
    and "pe_last_event_us E1 = pe_last_event_us E"
proof -
  have "evolves E E1" if "on_ledger (update_asset_mark (pe_pair_asset E) bid now) E = Return () E1"
    by (rule evolves_on_ledger [OF that]) (rule update_asset_mark_pair)
  then show "evolves E E1" using assms by (auto simp: if_ledger_Return)
  show "pe_orders E1 = pe_orders E" "pe_queue E1 = pe_queue E" "pe_last_event_us E1 = pe_last_event_us E"
    using assms by (auto simp: if_ledger_Return on_ledger_Return)
qed

text \<open>
  What any operation does to the engine: \<open>evolves\<close>, except that the hotline history may get
  more rows, at the time of the event, and the hotline stays the last of them.
\<close>

definition hotline_ok :: "pair_engine \<Rightarrow> bool" where
  "hotline_ok E \<longleftrightarrow> pe_hotline E =
     (if pe_hotline_history E = [] then None else Some (snd (last (pe_hotline_history E))))"

definition engine_step :: "pair_engine \<Rightarrow> pair_engine \<Rightarrow> bool" where
  "engine_step E E' \<longleftrightarrow>
     pe_pair_id E' = pe_pair_id E \<and> pe_symbol E' = pe_symbol E \<and> pe_pair_asset E' = pe_pair_asset E \<and>
     pe_tick_size E' = pe_tick_size E \<and> pe_last_event_us E \<le> pe_last_event_us E' \<and>
     (\<exists>rows. pe_hotline_history E' = pe_hotline_history E @ rows \<and>
        (\<forall>row \<in> set rows. pe_last_event_us E \<le> fst row \<and> fst row \<le> pe_last_event_us E')) \<and>
     (hotline_ok E \<longrightarrow> hotline_ok E') \<and>
     (engine_inv E \<longrightarrow> engine_inv E' \<and> ledger_isolated E E')"

lemma evolves_engine_step: "evolves E E' \<Longrightarrow> engine_step E E'"
  by (auto simp: evolves_def engine_step_def hotline_ok_def)

lemma reconcile_for_hotline_evolves:
  "reconcile_for_hotline now E = Return levels E' \<Longrightarrow>
     evolves E E' \<and> pe_queue E' = pe_queue E \<and> pe_last_event_us E' = pe_last_event_us E"
  unfolding reconcile_for_hotline_def by (rule reconcile_orders_evolves)

lemma booked_history:
  obtains rows where "pe_hotline_history (booked bid ask now E) = pe_hotline_history E @ rows"
    "\<forall>row \<in> set rows. fst row = now"
proof
  let ?t = "hotline_target bid ask (pe_tick_size E)"
  let ?rows = "if pe_hotline_history E = [] \<or> snd (last (pe_hotline_history E)) \<noteq> ?t then [(now, ?t)] else []"
  show "pe_hotline_history (booked bid ask now E) = pe_hotline_history E @ ?rows"
    by (simp add: booked_def Let_def)
  show "\<forall>row \<in> set ?rows. fst row = now" by simp
qed

lemma booked_hotline_ok: "hotline_ok (booked bid ask now E)"
  by (simp add: hotline_ok_def booked_def Let_def)

lemma booked_step:
  assumes inv: "evolves E E1" and time: "pe_last_event_us E1 \<le> now"
    and rest: "evolves (booked bid ask now E1) E2" and clock: "pe_last_event_us E2 = now"
  shows "engine_step E E2"
proof -
  let ?B = "booked bid ask now E1"
  obtain rows where rows: "pe_hotline_history ?B = pe_hotline_history E1 @ rows" "\<forall>row \<in> set rows. fst row = now"
    by (rule booked_history)
  have "ledger_isolated E1 ?B" if "engine_inv E1"
    using that by (auto simp: ledger_isolated_def engine_inv_def capital_ok_def pair_step_refl split: option.splits)
  then have iso: "engine_inv E \<longrightarrow> engine_inv E2 \<and> ledger_isolated E E2"
    using inv rest booked_inv [of E1] isolated_trans unfolding evolves_def by (metis (no_types, lifting) booked_fields(5))
  have "pe_hotline_history E2 = pe_hotline_history E @ rows" using inv rest rows unfolding evolves_def by metis
  moreover have "hotline_ok E2" using rest booked_hotline_ok [of bid ask now E1] by (simp add: evolves_def hotline_ok_def)
  moreover have "pe_last_event_us E \<le> now" using inv time by (simp add: evolves_def)
  ultimately show ?thesis using iso inv rest rows(2) clock unfolding engine_step_def evolves_def by auto
qed

lemma receive_book_step:
  assumes r: "receive_book bid ask now reason E = Return u E'"
  shows "engine_step E E'"
proof (cases rule: receive_book_Return [OF r])
  case (1 E1)
  note e = update_mark_evolves [OF 1(4)]
  have t: "pe_last_event_us E1 \<le> now" using 1(1) e(4) by simp
  show ?thesis unfolding 1(6)
    by (rule booked_step [OF e(1) t, of bid ask]) (use t in \<open>simp_all add: at_event_def evolves_frame\<close>)
next
  case (2 E1 levels E2 h)
  note e = update_mark_evolves [OF 2(4)]
  note r = reconcile_for_hotline_evolves [OF 2(7)]
  have t: "pe_last_event_us E1 \<le> now" using 2(1) e(4) by simp
  then have "evolves E2 E'" unfolding 2(8) using r by (intro evolves_frame) (simp_all add: at_event_def)
  then show ?thesis using r by (intro booked_step [OF e(1) t]) (auto simp: 2(8) at_event_def intro: evolves_trans)
qed

section \<open>Operations\<close>

datatype (plugins only: code size) engine_op =
    ReceiveBook decimal decimal int string
  | InitializeGrid int
  | AcknowledgeGridCancel string int
  | BindOrderCapital string string int
  | SubmitOwnedReturn string string decimal decimal int "string option"
  | RequestC1Move string decimal decimal decimal decimal decimal decimal int
  | ConsumePublicTrade public_trade int

datatype (plugins only: code size) engine_result =
    Nothing
  | Replacement "pair_order option"
  | Submitted pair_order
  | Moved bool
  | Fills "(string, decimal) dict"

fun exec_engine :: "engine_op \<Rightarrow> pair_engine \<Rightarrow> (engine_result, pair_engine) outcome" where
  "exec_engine (ReceiveBook bid ask now reason) E = returning (\<lambda>_. Nothing) (receive_book bid ask now reason E)"
| "exec_engine (InitializeGrid now) E = returning (\<lambda>_. Nothing) (initialize_grid now E)"
| "exec_engine (AcknowledgeGridCancel oid now) E = returning Replacement (acknowledge_grid_cancel oid now E)"
| "exec_engine (BindOrderCapital oid cid now) E = returning (\<lambda>_. Nothing) (bind_order_capital oid cid now E)"
| "exec_engine (SubmitOwnedReturn cid cyc price quantity now aid) E =
     returning Submitted (submit_owned_return cid cyc price quantity now aid E)"
| "exec_engine (RequestC1Move oid price v w lost cancel reentry now) E =
     returning Moved (request_c1_move oid price v w lost cancel reentry now E)"
| "exec_engine (ConsumePublicTrade t now) E = returning Fills (consume_public_trade t now E)"

lemma exec_engine_step: "exec_engine op E = Return r E' \<Longrightarrow> engine_step E E'"
  by (cases op)
    (auto intro: receive_book_step evolves_engine_step initialize_grid_evolves acknowledge_grid_cancel_evolves
      bind_order_capital_evolves submit_owned_return_evolves request_c1_move_evolves consume_public_trade_evolves)

interpretation engine_ops: invariant_ops exec_engine engine_inv
  by unfold_locales (auto dest!: exec_engine_step simp: engine_step_def)

text \<open>
  The ledger is shared: between the calls of an engine the other engine and the controller call
  it too. A shared run interleaves the calls of one engine with any calls on its ledger.
\<close>

datatype (plugins only: code size) shared_op = EngineCall engine_op | LedgerCall capital_op

fun exec_shared :: "shared_op \<Rightarrow> pair_engine \<Rightarrow> (unit, pair_engine) outcome" where
  "exec_shared (EngineCall op) E = returning (\<lambda>_. ()) (exec_engine op E)"
| "exec_shared (LedgerCall op) E = returning (\<lambda>_. ()) (on_ledger (exec_capital op) E)"

text \<open>No call on the ledger hands a position to another pair, and new ids are new.\<close>

lemma pairs_stableI:
  assumes "capital_sequence L \<le> capital_sequence L'"
    and "\<And>cid p'. dict_get (positions L') cid = Some p' \<Longrightarrow> issued (capital_sequence L) cid \<Longrightarrow>
      \<exists>p. dict_get (positions L) cid = Some p \<and> cap_pair_id p = cap_pair_id p'"
  shows "pairs_stable L L'"
  using assms by (simp add: pairs_stable_def)

lemma pairs_stable_new:
  assumes "capital_sequence L' = Suc (capital_sequence L)" and "cid = capital_id (Suc (capital_sequence L))"
    and "\<And>j. j \<noteq> cid \<Longrightarrow> dict_get (positions L') j = dict_get (positions L) j \<or> dict_get (positions L') j = None"
  shows "pairs_stable L L'"
proof (rule pairs_stableI)
  fix j p' assume j: "dict_get (positions L') j = Some p'" "issued (capital_sequence L) j"
  then have "j \<noteq> cid" using not_issued_next assms(2) by auto
  then show "\<exists>p. dict_get (positions L) j = Some p \<and> cap_pair_id p = cap_pair_id p'" using assms(3) [of j] j(1) by (metis option.distinct(1))
qed (simp add: assms(1))

lemma pair_step_stable: "pair_step pair_id L L' \<Longrightarrow> pairs_stable L L'"
  by (simp add: pair_step_def)

lemma reserve_pairs: "reserve c amount now L = Return cid L' \<Longrightarrow> pairs_stable L L'"
  by (erule reserve_Return) (rule pairs_stable_new, auto)

lemma move_to_dust_pairs: "move_untradeable_inventory_to_dust cid now reason L = Return u L' \<Longrightarrow> pairs_stable L L'"
  by (erule move_untradeable_inventory_to_dust_Return) (rule pairs_stableI, auto split: if_splits)

lemma consolidate_pairs:
  assumes "consolidate_inventory ids pair_id asset now L = Return cid L'"
  shows "pairs_stable L L'"
proof (rule consolidate_inventory_Return [OF assms])
  fix rows st
  let ?K = "L\<lparr>capital_sequence := Suc (capital_sequence L)\<rparr>"
  assume cid: "cid = capital_id (Suc (capital_sequence L))"
    and L': "L' = (log_event (INVENTORY_CONSOLIDATED now cid (fromkeys ids) pair_id asset (dsum (map cap_quantity rows)))
            (set_position cid (consolidated cid pair_id asset st rows)
              (foldl (\<lambda>K i. del_position i K) ?K (fromkeys ids))))\<lparr>capital_last_event_us := now\<rparr>"
  note del = fold_del_position [where L = ?K and ids = "fromkeys ids"]
  show ?thesis
  proof (rule pairs_stable_new [OF _ cid])
    fix j assume "j \<noteq> cid"
    then show "dict_get (positions L') j = dict_get (positions L) j \<or> dict_get (positions L') j = None"
      using conjunct1 [OF del] by (simp add: L' get_filter)
  qed (use del in \<open>simp add: L'\<close>)
qed

lemma authorization_pairs: "register_risk_exit_authorization a now L = Return u L' \<Longrightarrow> pairs_stable L L'"
  by (drule register_risk_exit_authorization_Return) (auto intro: pairs_stableI)

lemma aggregate_pairs: "reserve_aggregated_dust pair_id asset quantity mark now L = Return cid L' \<Longrightarrow> pairs_stable L L'"
  by (erule reserve_aggregated_dust_Return) (rule pairs_stable_new, auto)

lemma update_mark_pairs: "update_mark cid mark now L = Return u L' \<Longrightarrow> pairs_stable L L'"
  by (erule update_mark_Return) (rule pairs_stableI, auto split: if_splits)

lemma held_capital_pairs:
  assumes inv: "ledger_inv L"
  shows "request_cancel cid now L = Return u L' \<Longrightarrow> pairs_stable L L'"
    and "acknowledge_cancel cid now L = Return x L' \<Longrightarrow> pairs_stable L L'"
    and "reserve_owned_return cid now L = Return u L' \<Longrightarrow> pairs_stable L L'"
    and "record_entry_fill cid asset quantity mark cost now input_usdt L = Return i L' \<Longrightarrow> pairs_stable L L'"
    and "settle_return cid cyc sold proceeds rmark now aid order_done L = Return x L' \<Longrightarrow> pairs_stable L L'"
  using held_when_returning pair_step_stable engine_ledger_pair [OF inv _ refl] by meson+

lemma exec_capital_pairs:
  assumes inv: "ledger_inv L" and run: "exec_capital op L = Return r L'"
  shows "pairs_stable L L'"
proof (cases op)
  case (Reserve c amount now)
  then show ?thesis using run by (auto simp: constructing_def split: sum.splits intro: reserve_pairs)
next
  case (RegisterAuthorization a now)
  then show ?thesis using run by (auto simp: constructing_def split: sum.splits intro: authorization_pairs)
qed (use run in \<open>auto intro: held_capital_pairs [OF inv] move_to_dust_pairs consolidate_pairs aggregate_pairs
    update_mark_pairs pair_step_stable [OF update_asset_mark_pair [OF inv]]\<close>)

lemma exec_shared_inv:
  assumes inv: "engine_inv E" and run: "exec_shared op E = Return r E'"
  shows "engine_inv E'"
proof (cases op)
  case (EngineCall op')
  then show ?thesis using run inv by (auto dest!: exec_engine_step simp: engine_step_def)
next
  case (LedgerCall op')
  then obtain L x L' where L: "pe_ledger E = Some L" "exec_capital op' L = Return x L'" "E' = E\<lparr>pe_ledger := Some L'\<rparr>"
    using run by (auto simp: on_ledger_Return)
  have "ledger_inv L" using inv L(1) by (simp add: engine_inv_def capital_ok_def)
  then show ?thesis
    unfolding L(3) using exec_capital_Return exec_capital_pairs L(2) by (intro engine_inv_ledger [OF inv L(1)]) blast+
qed

lemma exec_shared_kept:
  assumes "exec_shared op E = Return r E'"
  shows "hotline_ok E \<Longrightarrow> hotline_ok E'"
    and "pe_pair_id E' = pe_pair_id E \<and> pe_symbol E' = pe_symbol E \<and> pe_pair_asset E' = pe_pair_asset E \<and>
      pe_tick_size E' = pe_tick_size E"
proof -
  have "(hotline_ok E \<longrightarrow> hotline_ok E') \<and> pe_pair_id E' = pe_pair_id E \<and> pe_symbol E' = pe_symbol E \<and>
      pe_pair_asset E' = pe_pair_asset E \<and> pe_tick_size E' = pe_tick_size E"
    using assms by (cases op) (auto dest!: exec_engine_step simp: engine_step_def on_ledger_Return hotline_ok_def)
  then show "hotline_ok E \<Longrightarrow> hotline_ok E'"
    and "pe_pair_id E' = pe_pair_id E \<and> pe_symbol E' = pe_symbol E \<and> pe_pair_asset E' = pe_pair_asset E \<and>
      pe_tick_size E' = pe_tick_size E" by simp_all
qed

interpretation shared_ops: invariant_ops exec_shared
    "\<lambda>E. engine_inv E \<and> hotline_ok E \<and> pe_pair_id E = pair_id \<and> pe_symbol E = symbol \<and> pe_pair_asset E = asset \<and>
       pe_tick_size E = tick" for pair_id symbol asset tick
  by unfold_locales (use exec_shared_inv exec_shared_kept in metis)

lemma default_index: "order_group default_queue = []"
  by (simp add: default_queue_def)

lemma new_pair_engine_inv:
  "new_pair_engine pair_id symbol asset tick L = Inr E \<Longrightarrow> (\<And>K. L = Some K \<Longrightarrow> ledger_inv K) \<Longrightarrow>
     engine_inv E \<and> hotline_ok E"
  by (auto simp: new_pair_engine_def engine_inv_def orders_ok_def queue_ok_def capital_ok_def hotline_ok_def
      queue_inv_default has_key_def default_index split: if_splits option.splits)

end
