(* ===== verification/M035_Engine_Facts.thy ===== *)
theory M035_Engine_Facts
  imports M035_Engine_Ops
begin

text \<open>
  What the pair engines promise: a causal hotline, first-column orders that keep their place,
  a complete grid, fills funded by the pair's own capital, and a trade that is consumed
  completely or not at all, except where the pair's inventory figure falls short.
\<close>

section \<open>The probe predicts the fills\<close>

lemma note_fill_distinct: "distinct (keys fills) \<Longrightarrow> distinct (keys (note_fill acc amount oid fills))"
  by (simp add: note_fill_def)

lemma consume_orders_distinct:
  "distinct (keys fills) \<Longrightarrow> distinct (keys (pass_fills (consume_orders acc at_price now rs rem fills)))"
proof (induction rs arbitrary: rem fills)
  case (Cons r rs)
  show ?case
  proof (cases "rem \<le> 0")
    case False
    obtain r1 rem1 where b: "pass_barrier at_price r rem = (r1, rem1)" by (cases "pass_barrier at_price r rem")
    show ?thesis
      by (cases "rem1 \<le> 0")
        (simp_all add: consume_orders.simps False b Let_def case_prod_beta Cons.prems Cons.IH note_fill_distinct)
  qed (use Cons.prems in simp)
qed simp

lemma trade_flow_distinct:
  "trade_flow t symbol now q = Return fills q' \<Longrightarrow> distinct (keys fills)"
  unfolding trade_flow_def consume_compatible_flow_def
  by (auto simp: queue_causal_cases check_group_def Let_def consume_orders_distinct
      split: if_splits option.splits)

abbreviation negative_inventory :: py_error where
  "negative_inventory \<equiv> ValueError ''M035_NEGATIVE_PAIR_INVENTORY''"

text \<open>One fill: where the probe of its ledger call returned, the fill does the same call.\<close>

lemma apply_follows_probe:
  assumes inv: "engine_inv E" and L: "pe_ledger E = Some L"
    and same: "dict_get (pe_orders E) oid = dict_get (pe_orders E0) oid" "pe_pair_asset E = pe_pair_asset E0"
    and probe: "probe_fill E0 price fee cost now (oid, amount) L = Return u L1"
  shows "(\<exists>E1. apply_fill price fee cost now (oid, amount) E = Return () E1 \<and> pe_ledger E1 = Some L1 \<and>
             (\<forall>x. x \<noteq> oid \<longrightarrow> dict_get (pe_orders E1) x = dict_get (pe_orders E) x)) \<or>
         (\<exists>E1. apply_fill price fee cost now (oid, amount) E = Raise negative_inventory E1)"
proof -
  obtain ord where o: "dict_get (pe_orders E) oid = Some ord"
    using probe same(1) by (cases "dict_get (pe_orders E0) oid") (simp_all add: probe_fill_def)
  note r = probe [unfolded probe_fill_def prod.case same(1) [symmetric] o option.case same(2) [symmetric] Let_def]
  obtain cid where c: "po_capital_id ord = Some cid" using r by (cases "po_capital_id ord") simp_all
  note r = r [unfolded c option.case]
  let ?o = "filled_order amount ord"
  let ?E = "set_order oid ?o E"
  have fields: "pe_pair_asset ?E = pe_pair_asset E" "pe_ledger ?E = Some L" by (simp_all add: set_order_def L)
  show ?thesis
  proof (cases "po_role ord = ''ENTRY''")
    case True
    then obtain i where i: "entry_fill cid (pe_pair_asset E) amount price fee cost now L = Return i L1"
      using r by auto
    have "on_ledger (entry_fill cid (pe_pair_asset E) amount price fee cost now) ?E = Return i (?E\<lparr>pe_ledger := Some L1\<rparr>)"
      by (simp add: on_ledger_def fields i)
    then have "apply_fill price fee cost now (oid, amount) E = Return ()
        ((set_order oid (?o\<lparr>po_inventory_capital_ids := po_inventory_capital_ids ord @ [i]\<rparr>) (?E\<lparr>pe_ledger := Some L1\<rparr>))
         \<lparr>pe_inventory_quantity := dadd (pe_inventory_quantity E) (net_inventory amount fee)\<rparr>)"
      using True by (simp add: apply_fill_def with_order_def o Let_def c fields set_order_def)
    then show ?thesis by (simp add: set_order_def)
  next
    case False
    obtain cyc where cyc: "po_cycle_id ord = Some cyc" using r False by (cases "po_cycle_id ord") simp_all
    let ?done = "dadd (po_filled_quantity ord) amount = po_quantity ord"
    let ?pr = "fill_proceeds amount price fee cost"
    let ?E1 = "set_order oid (?o\<lparr>po_net_proceeds_usdt := dadd (po_net_proceeds_usdt ord) ?pr\<rparr>) ?E"
    obtain p rmark x where p: "dict_get (positions L) cid = Some p"
      and rmark: "residual_mark_of ?done amount p L = Some rmark"
      and x: "settle_return cid cyc amount ?pr rmark now (po_authorization_id ord) ?done L = Return x L1"
      using r False unfolding cyc option.case by (auto simp: with_position_Return case_Raise_option)
    have pair: "cap_pair_id p = pe_pair_id E" by (rule order_capital [OF inv o c L p])
    have f1: "pe_ledger ?E1 = Some L" "pe_pair_id ?E1 = pe_pair_id E"
      "pe_inventory_quantity ?E1 = pe_inventory_quantity E" by (simp_all add: set_order_def L)
    have led: "on_ledger (settle_return cid cyc amount ?pr rmark now (po_authorization_id ord) ?done) ?E1 =
        Return x (?E1\<lparr>pe_ledger := Some L1\<rparr>)" by (simp add: on_ledger_def f1 x)
    have a: "apply_fill price fee cost now (oid, amount) E =
        and_then (settle_owned_return cid cyc amount ?pr rmark now (po_authorization_id ord) ?done ?E1)
          (\<lambda>_ E2. Return () E2)"
      using False by (simp add: apply_fill_def with_order_def o Let_def c cyc f1 with_capital_def p rmark)
    show ?thesis
    proof (cases "pe_inventory_quantity E < amount")
      case True
      then show ?thesis by (simp add: a settle_owned_return_def f1 with_capital_def p pair)
    next
      case False
      then have "settle_owned_return cid cyc amount ?pr rmark now (po_authorization_id ord) ?done ?E1 =
          Return x (at_event now (settled_figures ?done cyc x
            (?E1\<lparr>pe_ledger := Some L1, pe_inventory_quantity := dsub (pe_inventory_quantity E) amount\<rparr>)))"
        by (simp add: settle_owned_return_def f1 with_capital_def p pair led Let_def)
      then show ?thesis by (simp add: a at_event_def set_order_def)
    qed
  qed
qed

lemma apply_fills_follow_probe:
  "engine_inv E \<Longrightarrow> pe_ledger E = Some L \<Longrightarrow> pe_last_event_us E \<le> now \<Longrightarrow> distinct (map fst fills) \<Longrightarrow>
     (\<forall>oid \<in> fst ` set fills. dict_get (pe_orders E) oid = dict_get (pe_orders E0) oid) \<Longrightarrow>
     pe_pair_asset E = pe_pair_asset E0 \<Longrightarrow> probe_fills E0 price fee cost now fills L = Return u L' \<Longrightarrow>
     apply_fills price fee cost now fills E = Raise e E' \<Longrightarrow> e = negative_inventory"
proof (induction fills arbitrary: E L)
  case (Cons fill fills)
  obtain oid amount where f: "fill = (oid, amount)" by (cases fill)
  obtain v L1 where pr: "probe_fill E0 price fee cost now (oid, amount) L = Return v L1"
    "probe_fills E0 price fee cost now fills L1 = Return u L'" using Cons.prems(7) by (auto simp: f)
  have same: "dict_get (pe_orders E) oid = dict_get (pe_orders E0) oid" using Cons.prems(5) by (simp add: f)
  from apply_follows_probe [OF Cons.prems(1,2) same Cons.prems(6) pr(1)]
  show ?case
  proof (elim disjE exE conjE)
    fix E1 assume a: "apply_fill price fee cost now (oid, amount) E = Return () E1" "pe_ledger E1 = Some L1"
      and o: "\<forall>x. x \<noteq> oid \<longrightarrow> dict_get (pe_orders E1) x = dict_get (pe_orders E) x"
    have e: "evolves E E1" "pe_last_event_us E1 \<le> now" using apply_fill_evolves [OF a(1) Cons.prems(3)] by auto
    have "apply_fills price fee cost now fills E1 = Raise e E'" using Cons.prems(8) a(1) by (simp add: f)
    moreover have "dict_get (pe_orders E1) x = dict_get (pe_orders E0) x" if "x \<in> fst ` set fills" for x
    proof -
      have "x \<noteq> oid" using that Cons.prems(4) by (auto simp: f)
      moreover have "dict_get (pe_orders E) x = dict_get (pe_orders E0) x"
        by (rule bspec [OF Cons.prems(5)]) (use that in \<open>simp add: f\<close>)
      ultimately show ?thesis using o by simp
    qed
    moreover have "engine_inv E1" "pe_pair_asset E1 = pe_pair_asset E0"
      using e(1) Cons.prems(1,6) by (auto simp: evolves_def)
    ultimately show "e = negative_inventory"
      using Cons.IH [OF _ a(2) e(2)] Cons.prems(4) pr(2) by (simp add: f)
  next
    fix E1 assume "apply_fill price fee cost now (oid, amount) E = Raise negative_inventory E1"
    then show "e = negative_inventory" using Cons.prems(8) by (simp add: f)
  qed
qed simp

lemma probing_Raise: "probing m E k = Raise e E' \<longleftrightarrow> (\<exists>s. m = Raise e s \<and> E' = E) \<or> (\<exists>x s. m = Return x s \<and> k x = Raise e E')"
  by (auto simp: probing_def split: outcome.splits)

lemma consume_public_trade_Raise:
  assumes inv: "engine_inv E" and res: "consume_public_trade t now E = Raise e E'"
  shows "E' = E \<or> e = negative_inventory"
proof (rule ccontr)
  let ?fee = "trade_fee_rate t" and ?cost = "trade_attributable_cost t" and ?price = "trade_price t"
  assume neg: "\<not> (E' = E \<or> e = negative_inventory)"
  have time: "pe_last_event_us E \<le> now" using res neg by (auto simp: consume_public_trade_def engine_causal_def split: if_splits)
  obtain L where L: "pe_ledger E = Some L"
    using res neg by (auto simp: consume_public_trade_def engine_causal_def Let_def split: if_splits option.splits)
  obtain planned q1 where q1: "trade_flow t (pe_symbol E) now (pe_queue E) = Return planned q1"
    using res neg L
    by (cases "trade_flow t (pe_symbol E) now (pe_queue E)")
      (auto simp: consume_public_trade_def engine_causal_def Let_def probing_def split: if_splits)
  obtain v L1 where pr: "probe_fills E ?price ?fee ?cost now planned L = Return v L1"
    using res neg L q1
    by (cases "probe_fills E ?price ?fee ?cost now planned L")
      (auto simp: consume_public_trade_def engine_causal_def Let_def probing_def split: if_splits option.splits)
  have q: "on_queue (trade_flow t (pe_symbol E) now) E = Return planned (E\<lparr>pe_queue := q1\<rparr>)"
    by (simp add: on_queue_def q1)
  have a: "apply_fills ?price ?fee ?cost now planned (E\<lparr>pe_queue := q1\<rparr>) = Raise e E'"
    using res neg L q1 pr q
    by (auto simp: consume_public_trade_def engine_causal_def Let_def probing_def and_then_Raise split: if_splits option.splits)
  have e: "evolves E (E\<lparr>pe_queue := q1\<rparr>)" by (rule evolves_flow [OF q])
  have "e = negative_inventory"
    by (rule apply_fills_follow_probe [OF _ _ _ trade_flow_distinct [OF q1] _ _ pr a])
      (use e inv L time in \<open>simp_all add: evolves_def\<close>)
  then show False using neg by simp
qed

section \<open>Moving the hotline\<close>

text \<open>What a move of the hotline should do to an order, as a function of the order alone.\<close>

definition retargeted :: "decimal \<Rightarrow> decimal \<Rightarrow> pair_order \<Rightarrow> pair_order" where
  "retargeted hotline tick ord =
     (let t = dadd hotline (dmul (dmul (if po_side ord = ''BUY'' then -1 else 1) (of_int (po_rank ord))) tick)
      in if po_role ord = ''RETURN'' then ord
         else if po_status ord = UNFUNDED then ord\<lparr>po_price := t\<rparr>
         else if po_status ord = CANCEL_REQUESTED \<and> po_column ord = 2 then ord\<lparr>po_replacement_price := Some t\<rparr>
         else if po_status ord \<in> {ACTIVE, PARTIAL} \<and> po_column ord \<noteq> 1 \<and> t \<noteq> po_price ord
         then ord\<lparr>po_replacement_price := Some t, po_status := CANCEL_REQUESTED\<rparr>
         else ord)"

lemma target_price_Inr:
  "target_price side rank None E = Inr t \<Longrightarrow> pe_hotline E = Some h \<Longrightarrow>
     t = dadd h (dmul (dmul (if side = ''BUY'' then -1 else 1) (of_int rank)) (pe_tick_size E))"
  by (auto simp: target_price_def split: if_splits)

lemma dict_set_map:
  fixes d :: "('k, 'v) dict"
  shows "dict_get d k = Some v \<Longrightarrow> distinct (keys d) \<Longrightarrow>
     dict_set k (f v) d = map (\<lambda>(k', w). (k', if k' = k then f w else w)) d"
proof (induction d)
  case (Cons p d)
  have other: "map (\<lambda>(k', w). (k', if k' = k then f w else w)) xs = xs" if "k \<notin> fst ` set xs" for xs :: "('k, 'v) dict"
    using that by (induction xs) auto
  obtain k0 v0 where p: "p = (k0, v0)" by (cases p)
  show ?case
  proof (cases "k0 = k")
    case True
    then show ?thesis using Cons.prems other [of d] by (simp add: p dict_set_def)
  next
    case False
    then have "dict_set k (f v) d = map (\<lambda>(k', w). (k', if k' = k then f w else w)) d"
      using Cons by (simp add: p)
    then show ?thesis using False by (simp add: p dict_set_def)
  qed
qed simp

lemma map_keep: "map (\<lambda>(k', w). (k', if k' = k then w else w)) d = d"
  by (induction d) auto

lemma reconcile_order_orders:
  assumes r: "reconcile_order now oid E = Return levels E'" and h: "pe_hotline E = Some h"
    and d: "distinct (keys (pe_orders E))"
  shows "pe_orders E' = map (\<lambda>(k, w). (k, if k = oid then retargeted h (pe_tick_size E) w else w)) (pe_orders E)"
proof -
  let ?f = "retargeted h (pe_tick_size E)"
  from r obtain ord where o: "dict_get (pe_orders E) oid = Some ord"
    by (rule reconcile_order_cases)
  have set_eq: "pe_orders E' = dict_set oid (?f ord) (pe_orders E)"
    using r
  proof (cases rule: reconcile_order_cases)
    case (1 ord1)
    have same: "ord1 = ord" using 1(1) o by simp
    have "?f ord = ord" using 1(3) unfolding same
    proof (elim disjE conjE)
      assume "target_price (po_side ord) (po_rank ord) None E = Inr (po_price ord)"
        and st: "po_status ord \<in> {ACTIVE, PARTIAL}"
      then have "dadd h (dmul (dmul (if po_side ord = ''BUY'' then -1 else 1) (of_int (po_rank ord))) (pe_tick_size E)) =
          po_price ord" using target_price_Inr h by metis
      then show ?thesis using st unfolding retargeted_def Let_def by auto
    qed (auto simp: retargeted_def Let_def)
    then show ?thesis using dict_set_map [OF o d, of "\<lambda>x. x"] map_keep [of oid "pe_orders E"] 1(2) by simp
  next
    case (2 ord1 t)
    then show ?thesis using o target_price_Inr [OF 2(2) h] by (simp add: retargeted_def Let_def set_order_def)
  next
    case (3 ord1 t)
    then show ?thesis using o target_price_Inr [OF 3(2) h] by (simp add: retargeted_def Let_def set_order_def)
  next
    case (4 ord1 t E1)
    have "ord1 = ord" using 4(1) o by simp
    moreover have "pe_orders E1 = pe_orders E" by (rule cancel_capital_evolves(2) [OF 4(7) 4(1)])
    moreover have "po_status ord1 \<noteq> UNFUNDED" "po_status ord1 \<noteq> CANCEL_REQUESTED" using 4(5) by auto
    ultimately show ?thesis using 4(3-6,8) target_price_Inr [OF 4(2) h]
      by (simp add: retargeted_def Let_def set_order_def)
  qed
  show ?thesis unfolding set_eq by (rule dict_set_map [OF o d])
qed

lemma keys_map_keep: "keys (map (\<lambda>(k, w). (k, f k w)) d) = keys d"
  by (induction d) auto

lemma reconcile_orders_orders:
  "reconcile_orders now oids E = Return levels E' \<Longrightarrow> pe_hotline E = Some h \<Longrightarrow> distinct (keys (pe_orders E)) \<Longrightarrow>
     distinct oids \<Longrightarrow>
     pe_orders E' = map (\<lambda>(k, w). (k, if k \<in> set oids then retargeted h (pe_tick_size E) w else w)) (pe_orders E)"
proof (induction oids arbitrary: E levels)
  case Nil
  then show ?case by (simp add: map_idI)
next
  case (Cons oid oids)
  then obtain l E1 l' where r: "reconcile_order now oid E = Return l E1" "reconcile_orders now oids E1 = Return l' E'"
    by auto
  note o1 = reconcile_order_orders [OF r(1) Cons.prems(2,3)]
  have e: "pe_hotline E1 = Some h" "pe_tick_size E1 = pe_tick_size E"
    using reconcile_order_evolves [OF r(1)] Cons.prems(2) by (auto simp: evolves_def)
  have "keys (pe_orders E1) = keys (pe_orders E)" unfolding o1 by (rule keys_map_keep)
  then have "distinct (keys (pe_orders E1))" using Cons.prems(3) by simp
  then have "pe_orders E' = map (\<lambda>(k, w). (k, if k \<in> set oids then retargeted h (pe_tick_size E) w else w)) (pe_orders E1)"
    using Cons.IH [OF r(2) e(1), unfolded e(2)] Cons.prems(4) by simp
  then show ?case using Cons.prems(4) by (auto simp: o1)
qed

lemma order_ids: "orders_ok E \<Longrightarrow> map po_id (dict_values (pe_orders E)) = keys (pe_orders E)"
proof -
  assume ok: "orders_ok E"
  then have "distinct (keys (pe_orders E))" by (simp add: orders_ok_def)
  then have "po_id ord = oid" if "(oid, ord) \<in> set (pe_orders E)" for oid ord
    using ok map_of_is_SomeI [OF _ that] unfolding orders_ok_def by blast
  then show ?thesis by (auto simp: comp_def)
qed

lemma reconcile_for_hotline_orders:
  assumes "reconcile_for_hotline now E = Return levels E'" "orders_ok E" "pe_hotline E = Some h"
  shows "pe_orders E' = map_values (retargeted h (pe_tick_size E)) (pe_orders E)"
proof -
  let ?oids = "map po_id (sort_key po_id (dict_values (pe_orders E)))"
  have "set ?oids = set (map po_id (dict_values (pe_orders E)))" by (simp only: set_map set_sort)
  then have set: "set ?oids = set (keys (pe_orders E))" unfolding order_ids [OF assms(2)] .
  have "distinct (map po_id (dict_values (pe_orders E)))"
    unfolding order_ids [OF assms(2)] using assms(2) by (simp add: orders_ok_def)
  then have dist: "distinct ?oids" by (simp only: distinct_map_sort)
  have "pe_orders E' = map (\<lambda>(k, w). (k, if k \<in> set ?oids then retargeted h (pe_tick_size E) w else w)) (pe_orders E)"
    using reconcile_orders_orders [OF assms(1) [unfolded reconcile_for_hotline_def] assms(3) _ dist] assms(2)
    by (simp add: orders_ok_def)
  moreover have "k \<in> fst ` set (pe_orders E)" if "(k, w) \<in> set (pe_orders E)" for k w
    using that by (rule_tac image_eqI [of _ _ "(k, w)"]) simp_all
  ultimately show ?thesis unfolding set by (auto simp: map_values_def)
qed

section \<open>The grid\<close>

lemma order_id_inject [simp]: "order_id pair_id m = order_id pair_id n \<longleftrightarrow> m = n"
  by (simp add: order_id_def)

lemma new_order_appends:
  assumes inv: "engine_inv E" and r: "new_order side rank column price now E = Return ord E'"
  shows "pe_orders E' = pe_orders E @ [(po_id ord, ord)]"
    and "ord = blank_order (order_id (pe_pair_id E) (Suc (pe_sequence E))) (pe_pair_id E) side rank column price 1 now
           (if pe_ledger E \<noteq> None then UNFUNDED else ACTIVE)"
    and "pe_ledger E' = pe_ledger E" "pe_hotline E' = pe_hotline E" "pe_tick_size E' = pe_tick_size E"
proof -
  let ?id = "order_id (pe_pair_id E) (Suc (pe_sequence E))"
  let ?o = "blank_order ?id (pe_pair_id E) side rank column price 1 now
           (if pe_ledger E \<noteq> None then UNFUNDED else ACTIVE)"
  show ord: "ord = ?o" using r by (auto simp: new_order_def Let_def split: if_splits)
  have id: "po_id ?o = ?id" by (simp add: blank_order_def)
  have "\<not> issued_order E ?id" by (auto simp: issued_order_def)
  then have "dict_get (pe_orders E) ?id = None"
    using inv by (cases "dict_get (pe_orders E) ?id") (auto simp: engine_inv_def orders_ok_def)
  then have "dict_set ?id ?o (pe_orders E) = pe_orders E @ [(?id, ?o)]"
    by (simp add: set_new_key map_of_eq_None_iff)
  then show "pe_orders E' = pe_orders E @ [(po_id ord, ord)]"
    using r unfolding ord id by (auto simp: new_order_def Let_def set_order_def on_queue_Return split: if_splits)
  show "pe_ledger E' = pe_ledger E" "pe_hotline E' = pe_hotline E" "pe_tick_size E' = pe_tick_size E"
    using r by (auto simp: new_order_def Let_def set_order_def on_queue_Return split: if_splits)
qed

definition level_price :: "decimal \<Rightarrow> decimal \<Rightarrow> string \<Rightarrow> int \<Rightarrow> decimal" where
  "level_price h tick side rank = dadd h (dmul (dmul (if side = ''BUY'' then -1 else 1) (of_int rank)) tick)"

lemma fill_grid_orders:
  "engine_inv E \<Longrightarrow> fill_grid now slots E = Return u E' \<Longrightarrow> pe_hotline E = Some h \<Longrightarrow>
     map (\<lambda>ord. (po_side ord, po_rank ord, po_column ord, po_price ord, po_quantity ord, po_status ord)) (dict_values (pe_orders E')) =
     map (\<lambda>ord. (po_side ord, po_rank ord, po_column ord, po_price ord, po_quantity ord, po_status ord)) (dict_values (pe_orders E)) @
     map (\<lambda>(side, rank, column). (side, rank, column, level_price h (pe_tick_size E) side rank, 1,
            if pe_ledger E \<noteq> None then UNFUNDED else ACTIVE)) slots"
proof (induction slots arbitrary: E)
  case (Cons slot slots)
  obtain side rank column where slot: "slot = (side, rank, column)" by (cases slot)
  obtain price ord E1 where t: "target_price side rank None E = Inr price"
    and n: "new_order side rank column price now E = Return ord E1" and f: "fill_grid now slots E1 = Return u E'"
    using Cons.prems(2) by (auto simp: slot split: sum.splits)
  note a = new_order_appends [OF Cons.prems(1) n]
  have "engine_inv E1" using new_order_evolves(1) [OF n] Cons.prems(1) by (simp add: evolves_def)
  note ih = Cons.IH [OF this f, unfolded a(3-5), OF Cons.prems(3)]
  show ?case unfolding ih a(1) using target_price_Inr [OF t Cons.prems(3)]
    by (simp add: slot a(2) blank_order_def level_price_def)
qed simp

lemma new_order_unfunded:
  assumes "pe_ledger E \<noteq> None"
  shows "\<exists>ord. new_order side rank column price now E = Return ord
           (set_order (po_id ord) ord (E\<lparr>pe_sequence := Suc (pe_sequence E)\<rparr>))"
  using assms by (auto simp: new_order_def Let_def blank_order_def)

lemma fill_grid_total:
  "pe_ledger E \<noteq> None \<Longrightarrow> pe_hotline E = Some h \<Longrightarrow>
     list_all (\<lambda>(side, rank, column). side \<in> {''BUY'', ''SELL''} \<and> 1 \<le> rank \<and> rank \<le> 7) slots \<Longrightarrow>
     \<exists>E'. fill_grid now slots E = Return () E'"
proof (induction slots arbitrary: E)
  case (Cons slot slots)
  obtain side rank column where slot: "slot = (side, rank, column)" by (cases slot)
  obtain price where t: "target_price side rank None E = Inr price"
    using Cons.prems(2,3) by (simp add: slot target_price_def)
  obtain ord where n: "new_order side rank column price now E = Return ord
      (set_order (po_id ord) ord (E\<lparr>pe_sequence := Suc (pe_sequence E)\<rparr>))"
    using new_order_unfunded [OF Cons.prems(1)] by blast
  have "\<exists>E'. fill_grid now slots (set_order (po_id ord) ord (E\<lparr>pe_sequence := Suc (pe_sequence E)\<rparr>)) = Return () E'"
    by (rule Cons.IH) (use Cons.prems in \<open>simp_all add: set_order_def\<close>)
  then show ?case by (simp add: slot t n)
qed simp

section \<open>Funded fills\<close>

lemma fills_error_None: "fills_error E L price fills = None \<Longrightarrow> fill \<in> set fills \<Longrightarrow> fill_error E L price fill = None"
  by (induction fills) (auto split: option.splits)

lemma fill_error_None:
  assumes "fill_error E L price (oid, amount) = None"
  obtains ord cid p where "dict_get (pe_orders E) oid = Some ord" "po_capital_id ord = Some cid"
    "dict_get (positions L) cid = Some p" "cap_pair_id p = pe_pair_id E"
    "po_role ord = ''ENTRY'' \<and> entry_funded ord p amount price \<or>
     po_role ord \<noteq> ''ENTRY'' \<and> return_funded ord p amount (pe_pair_asset E)"
  using assms by (auto simp: fill_error_def split: option.splits if_splits)

section \<open>Runs\<close>

interpretation engine_hotline: invariant_ops exec_engine hotline_ok
  by unfold_locales (auto dest!: exec_engine_step simp: engine_step_def)

lemma run_history:
  "run_ops exec_engine ops E = Return rs E' \<Longrightarrow> pe_last_event_us E \<le> pe_last_event_us E' \<and>
     (\<exists>rows. pe_hotline_history E' = pe_hotline_history E @ rows \<and> (\<forall>row \<in> set rows. pe_last_event_us E \<le> fst row))"
proof (induction ops arbitrary: E rs)
  case (Cons op ops)
  then obtain r E1 rs' where r: "exec_engine op E = Return r E1" "run_ops exec_engine ops E1 = Return rs' E'" by auto
  from exec_engine_step [OF r(1)] obtain rows where a: "pe_last_event_us E \<le> pe_last_event_us E1"
    "pe_hotline_history E1 = pe_hotline_history E @ rows" "\<forall>row \<in> set rows. pe_last_event_us E \<le> fst row"
    unfolding engine_step_def by blast
  from Cons.IH [OF r(2)] obtain rows' where b: "pe_last_event_us E1 \<le> pe_last_event_us E'"
    "pe_hotline_history E' = pe_hotline_history E1 @ rows'" "\<forall>row \<in> set rows'. pe_last_event_us E1 \<le> fst row" by blast
  have "\<forall>row \<in> set (rows @ rows'). pe_last_event_us E \<le> fst row" using a b(3) by fastforce
  then show ?case using a b by (intro conjI exI [of _ "rows @ rows'"]) auto
qed simp

section \<open>Sample engines\<close>

definition sample_engine :: pair_engine where
  "sample_engine = projr (new_pair_engine ''PAIR_A'' ''USDCUSDT'' ''USDC'' (1 / 10000) (Some initial_ledger))"

lemma sample_engine_eq: "new_pair_engine ''PAIR_A'' ''USDCUSDT'' ''USDC'' (1 / 10000) (Some initial_ledger) = Inr sample_engine"
  by (simp add: sample_engine_def new_pair_engine_def known_pair_def)

definition book_at :: "decimal \<Rightarrow> int \<Rightarrow> engine_op" where
  "book_at mid now = ReceiveBook (mid - 1 / 10000) (mid + 1 / 10000) now ''CAUSAL_BOOK_MIDPOINT''"

lemma quoted_runs:
  "case exec_engine (book_at 1 1) sample_engine of Return _ _ \<Rightarrow> True | Raise _ _ \<Rightarrow> False"
  by code_simp

text \<open>An engine without ledger with one resting order in each column.\<close>

definition resting_engine :: pair_engine where
  "resting_engine = (projr (new_pair_engine ''PAIR_A'' ''USDCUSDT'' ''USDC'' (1 / 10000) None))
     \<lparr>pe_hotline := Some 1, pe_hotline_history := [(1, 1)], pe_last_event_us := 3, pe_sequence := 2,
      pe_orders :=
        [(order_id ''PAIR_A'' 1, blank_order (order_id ''PAIR_A'' 1) ''PAIR_A'' ''BUY'' 1 1 (9999 / 10000) 1 1 ACTIVE),
         (order_id ''PAIR_A'' 2, blank_order (order_id ''PAIR_A'' 2) ''PAIR_A'' ''BUY'' 1 2 (9999 / 10000) 1 1 ACTIVE)]\<rparr>"

lemma resting_engine_inv: "engine_inv resting_engine"
proof -
  have "new_pair_engine ''PAIR_A'' ''USDCUSDT'' ''USDC'' (1 / 10000) None =
      Inr (projr (new_pair_engine ''PAIR_A'' ''USDCUSDT'' ''USDC'' (1 / 10000) None))"
    by (simp add: new_pair_engine_def known_pair_def)
  then show ?thesis
    by (auto simp: resting_engine_def engine_inv_def orders_ok_def queue_ok_def capital_ok_def issued_order_def
        blank_order_def new_pair_engine_def known_pair_def queue_inv_default default_index has_key_def)
qed

lemma resting_run:
  "case receive_book 1 (10002 / 10000) 4 ''CAUSAL_BOOK_MIDPOINT'' resting_engine of
     Return u E \<Rightarrow> map (po_status \<circ> snd) (pe_orders E) = [ACTIVE, CANCEL_REQUESTED]
   | Raise _ _ \<Rightarrow> False"
  by code_simp

lemma resting_moves:
  obtains u E where "receive_book 1 (10002 / 10000) 4 ''CAUSAL_BOOK_MIDPOINT'' resting_engine = Return u E"
    "map (po_status \<circ> snd) (pe_orders E) = [ACTIVE, CANCEL_REQUESTED]"
  using resting_run
  by (cases "receive_book 1 (10002 / 10000) 4 ''CAUSAL_BOOK_MIDPOINT'' resting_engine") (simp_all only: outcome.case)

text \<open>A ledger that already holds inventory of the pair, and an engine newly created on it.\<close>

definition restarted_engine :: pair_engine where
  "restarted_engine =
     projr (new_pair_engine ''PAIR_A'' ''USDCUSDT'' ''USDC'' (1 / 10000)
       (Some (post_state (run_ops exec_capital
          [Reserve sample_candidate 100 1, EntryFill ''M035-CAP-000001'' ''USDC'' 100 1 0 2 None] initial_ledger))))"

definition sample_sale :: public_trade where
  "sample_sale = \<lparr>trade_id = ''T1'', trade_side = ''SELL'', trade_price = 2, trade_quantity = 100,
     trade_source = ''PUBLIC_TRADE'', trade_fee_rate = 0, trade_attributable_cost = 0\<rparr>"

definition sale_ops :: "engine_op list" where
  "sale_ops = [SubmitOwnedReturn ''M035-CAP-000001'' ''K1'' 2 100 3 None, ConsumePublicTrade sample_sale 4]"

section \<open>Claims\<close>

text \<open>
  C18: an engine stays consistent on a ledger it shares. Start a new engine on any consistent
  ledger and run it, its calls interleaved with any calls that the other engine or the controller
  make on the ledger, so that orders are funded, filled, canceled and settled. If nothing raises,
  the engine ends in its invariant: orders under their issued ids, queue entries of known orders
  in a consistent queue, capital of orders that belongs to the engine's own pair, a consistent
  ledger; the hotline is the last row of its history; and the engine is still that of its pair.
\<close>

theorem engine_runs_keep_inv:
  assumes "new_pair_engine pair_id symbol asset tick (Some L) = Inr E" and "ledger_inv L"
    and "run_ops exec_shared ops E = Return rs E'"
  shows "engine_inv E' \<and> hotline_ok E' \<and> pe_pair_id E' = pair_id \<and> pe_symbol E' = symbol \<and>
     pe_pair_asset E' = asset \<and> pe_tick_size E' = tick"
proof -
  have "engine_inv E \<and> hotline_ok E"
    by (rule new_pair_engine_inv [OF assms(1)]) (use assms(2) in auto)
  moreover have "pe_pair_id E = pair_id \<and> pe_symbol E = symbol \<and> pe_pair_asset E = asset \<and> pe_tick_size E = tick"
    using assms(1) by (auto simp: new_pair_engine_def split: if_splits)
  ultimately show ?thesis using shared_ops.run_inv [OF _ assms(3), of pair_id symbol asset tick] by blast
qed

text \<open>Both pairs reserve capital; the engine quotes, builds its grid, funds its best bid and has it filled.\<close>

definition shared_sample_ops :: "shared_op list" where
  "shared_sample_ops =
     [LedgerCall (Reserve sample_candidate 100 1), EngineCall (book_at 1 2), EngineCall (InitializeGrid 3),
      LedgerCall (Reserve (sample_candidate\<lparr>cand_id := ''C2'', cand_pair_id := ''PAIR_B''\<rparr>) 50 4),
      EngineCall (BindOrderCapital (order_id ''PAIR_A'' 1) ''M035-CAP-000001'' 5),
      EngineCall (ConsumePublicTrade \<lparr>trade_id = ''T1'', trade_side = ''BUY'', trade_price = 9999 / 10000, trade_quantity = 1,
        trade_source = ''PUBLIC_TRADE'', trade_fee_rate = 0, trade_attributable_cost = 0\<rparr> 6)]"

lemma shared_sample_runs:
  "case run_ops exec_shared shared_sample_ops sample_engine of
     Return rs E \<Rightarrow> map_option po_status (dict_get (pe_orders E) (order_id ''PAIR_A'' 1)) = Some FILLED
   | Raise _ _ \<Rightarrow> False"
  by code_simp

theorem engine_runs_keep_inv_witness:
  "\<exists>rs E. run_ops exec_shared shared_sample_ops sample_engine = Return rs E \<and>
     map_option po_status (dict_get (pe_orders E) (order_id ''PAIR_A'' 1)) = Some FILLED \<and>
     engine_inv E \<and> hotline_ok E \<and> pe_pair_id E = ''PAIR_A''"
proof -
  obtain rs E where run: "run_ops exec_shared shared_sample_ops sample_engine = Return rs E"
    and filled: "map_option po_status (dict_get (pe_orders E) (order_id ''PAIR_A'' 1)) = Some FILLED"
    using shared_sample_runs by (cases "run_ops exec_shared shared_sample_ops sample_engine") (simp_all only: outcome.case)
  have "engine_inv E \<and> hotline_ok E \<and> pe_pair_id E = ''PAIR_A''"
    using engine_runs_keep_inv [OF sample_engine_eq initial_ledger_inv run] by blast
  with run filled show ?thesis by blast
qed

text \<open>
  The hotline is causal. What the hotline was at a time before the engine's last event
  is never changed by anything that happens later, so a decision can be replayed.
\<close>

lemma hotline_is_causal:
  assumes run: "run_ops exec_engine ops E = Return rs E'" and past: "t < pe_last_event_us E"
  shows "hotline_at t E' = hotline_at t E"
proof -
  obtain rows where rows: "pe_hotline_history E' = pe_hotline_history E @ rows"
    "\<forall>row \<in> set rows. pe_last_event_us E \<le> fst row" using run_history [OF run] by blast
  then have "filter (\<lambda>(observed, _). observed \<le> t) rows = []" using past by (auto simp: filter_empty_conv)
  then show ?thesis by (simp add: hotline_at_def rows(1))
qed

lemma hotline_is_causal_witness:
  "\<exists>rs E. run_ops exec_engine [ReceiveBook 1 (10002 / 10000) 4 ''CAUSAL_BOOK_MIDPOINT''] resting_engine = Return rs E \<and>
     hotline_at 2 E = Some 1"
proof -
  obtain u E where "receive_book 1 (10002 / 10000) 4 ''CAUSAL_BOOK_MIDPOINT'' resting_engine = Return u E"
    by (rule resting_moves)
  then obtain rs where r: "run_ops exec_engine [ReceiveBook 1 (10002 / 10000) 4 ''CAUSAL_BOOK_MIDPOINT''] resting_engine = Return rs E"
    by simp
  have "hotline_at 2 E = hotline_at 2 resting_engine"
    by (rule hotline_is_causal [OF r]) (simp add: resting_engine_def)
  also have "\<dots> = Some 1" by (simp add: resting_engine_def hotline_at_def)
  finally show ?thesis using r by (intro exI conjI)
qed

text \<open>
  A new book moves the grid as specified. When the hotline moves, the loop over the
  orders does exactly \<open>retargeted\<close> to each of them; otherwise no order changes. The queue is
  never touched, and a return order or a funded first-column order stays as it is.
\<close>

lemma hotline_move_retargets:
  assumes inv: "engine_inv E" and res: "receive_book bid ask now reason E = Return u E'"
  defines "target \<equiv> hotline_target bid ask (pe_tick_size E)"
  shows "pe_orders E' = (if pe_hotline E \<in> {None, Some target} then pe_orders E
           else map_values (retargeted target (pe_tick_size E)) (pe_orders E)) \<and>
         pe_queue E' = pe_queue E \<and> pe_hotline E' = Some target \<and>
         (\<forall>ord. po_role ord = ''RETURN'' \<or> (po_column ord = 1 \<and> po_status ord \<noteq> UNFUNDED) \<longrightarrow>
            retargeted target (pe_tick_size E) ord = ord)"
proof -
  have stay: "retargeted target (pe_tick_size E) ord = ord"
    if "po_role ord = ''RETURN'' \<or> (po_column ord = 1 \<and> po_status ord \<noteq> UNFUNDED)" for ord
    using that by (elim disjE conjE) (simp_all add: retargeted_def Let_def)
  from res have "pe_orders E' = (if pe_hotline E \<in> {None, Some target} then pe_orders E
           else map_values (retargeted target (pe_tick_size E)) (pe_orders E)) \<and>
         pe_queue E' = pe_queue E \<and> pe_hotline E' = Some target"
  proof (cases rule: receive_book_Return)
    case (still E1)
    note e = update_mark_evolves [OF still(4)]
    have E1: "pe_hotline E1 = pe_hotline E" "pe_tick_size E1 = pe_tick_size E" using e(1) by (simp_all add: evolves_def)
    then show ?thesis using e(2,3) still(5) by (auto simp: still(6) at_event_def target_def)
  next
    case (moved E1 levels E2 h)
    note e = update_mark_evolves [OF moved(4)]
    note r = reconcile_for_hotline_evolves [OF moved(7)]
    have E1: "pe_hotline E1 = pe_hotline E" "pe_tick_size E1 = pe_tick_size E" "engine_inv E1"
      using e(1) inv by (simp_all add: evolves_def)
    have "orders_ok (booked bid ask now E1)" using booked_inv [OF E1(3)] by (simp add: engine_inv_def)
    from reconcile_for_hotline_orders [OF moved(7) this booked_fields(10)]
    have "pe_orders E2 = map_values (retargeted target (pe_tick_size E)) (pe_orders E)"
      using e(2) E1(2) by (simp add: target_def)
    then show ?thesis using r e(3) moved(5,6) E1 by (simp add: moved(8) at_event_def evolves_def target_def)
  qed
  then show ?thesis using stay by (intro conjI allI impI) simp_all
qed

lemma hotline_move_retargets_witness:
  "\<exists>u E. receive_book 1 (10002 / 10000) 4 ''CAUSAL_BOOK_MIDPOINT'' resting_engine = Return u E \<and>
     pe_queue E = pe_queue resting_engine \<and> map (po_status \<circ> snd) (pe_orders E) = [ACTIVE, CANCEL_REQUESTED]"
proof -
  obtain u E where r: "receive_book 1 (10002 / 10000) 4 ''CAUSAL_BOOK_MIDPOINT'' resting_engine = Return u E"
    and s: "map (po_status \<circ> snd) (pe_orders E) = [ACTIVE, CANCEL_REQUESTED]" by (rule resting_moves)
  have "pe_queue E = pe_queue resting_engine"
    using hotline_move_retargets [OF resting_engine_inv r] by (elim conjE)
  from conjI [OF r conjI [OF this s]] show ?thesis by (intro exI)
qed


text \<open>
  The grid is complete. On an engine that has a ledger, a hotline and no orders yet,
  building the grid never raises and gives one unfunded order of quantity one for each side,
  each of seven ranks and each of two columns, each the rank's number of ticks off the hotline.
\<close>

lemma grid_is_complete:
  assumes inv: "engine_inv E" and ledger: "pe_ledger E \<noteq> None" and h: "pe_hotline E = Some h"
    and empty: "pe_orders E = []"
  shows "\<exists>E'. initialize_grid now E = Return () E' \<and>
     map (\<lambda>ord. (po_side ord, po_rank ord, po_column ord, po_price ord, po_quantity ord, po_status ord)) (dict_values (pe_orders E')) =
     concat (map (\<lambda>side. concat (map (\<lambda>rank. map (\<lambda>column.
        (side, rank, column, level_price h (pe_tick_size E) side rank, 1, UNFUNDED)) [1, 2]) [1..7]))
       [''BUY'', ''SELL''])"
proof -
  obtain E' where r: "fill_grid now grid_slots E = Return () E'"
    using fill_grid_total [OF ledger h, of grid_slots now] by (auto simp: grid_slots_def)
  have ranks: "[1..7] = [1, 2, 3, 4, 5, 6, 7::int]" by (simp add: upto.simps)
  show ?thesis
    unfolding initialize_grid_def using r h empty fill_grid_orders [OF inv r h] ledger
    by (simp add: grid_slots_def ranks)
qed

definition hotline_engine :: pair_engine where
  "hotline_engine = sample_engine\<lparr>pe_hotline := Some 1, pe_hotline_history := [(1, 1)], pe_last_event_us := 1\<rparr>"

lemma hotline_engine_inv: "engine_inv hotline_engine"
proof -
  have "engine_inv sample_engine"
    using new_pair_engine_inv [OF sample_engine_eq] initial_ledger_inv by auto
  then show ?thesis
    by (auto simp: hotline_engine_def engine_inv_def orders_ok_def queue_ok_def capital_ok_def issued_order_def
        split: option.splits)
qed

lemma grid_is_complete_witness:
  "\<exists>E. initialize_grid 2 hotline_engine = Return () E \<and> length (pe_orders E) = 28"
proof -
  have "pe_ledger hotline_engine \<noteq> None" "pe_hotline hotline_engine = Some 1" "pe_orders hotline_engine = []"
    by (simp_all add: hotline_engine_def sample_engine_def new_pair_engine_def known_pair_def)
  from grid_is_complete [OF hotline_engine_inv this, of 2] obtain E where
    r: "initialize_grid 2 hotline_engine = Return () E" and
    m: "length (map (\<lambda>ord. (po_side ord, po_rank ord, po_column ord, po_price ord, po_quantity ord, po_status ord))
          (dict_values (pe_orders E))) = 28" by (auto simp: upto.simps)
  then show ?thesis by auto
qed

text \<open>
  C34: a public trade is consumed completely or not at all: when it raises, the engine is the
  one it was before, with its queue, its orders and its ledger untouched. The one exception
  the code has is the error about the pair's own inventory figure, which no check precedes.
\<close>

theorem trade_is_atomic:
  assumes "engine_inv E" and "consume_public_trade t now E = Raise e E'"
    and "e \<noteq> ValueError ''M035_NEGATIVE_PAIR_INVENTORY''"
  shows "E' = E"
  using consume_public_trade_Raise [OF assms(1,2)] assms(3) by blast

theorem trade_is_atomic_witness:
  "\<exists>E. consume_public_trade (sample_sale\<lparr>trade_source := ''OWN''\<rparr>) 4 hotline_engine =
     Raise (ValueError ''M035_SELF_FILL_PROHIBITED'') E \<and> E = hotline_engine"
proof -
  have "consume_public_trade (sample_sale\<lparr>trade_source := ''OWN''\<rparr>) 4 hotline_engine =
     Raise (ValueError ''M035_SELF_FILL_PROHIBITED'') hotline_engine"
    by (simp add: consume_public_trade_def engine_causal_def hotline_engine_def sample_sale_def Let_def)
  then show ?thesis using trade_is_atomic [OF hotline_engine_inv] by simp
qed



text \<open>
  C20: every fill is funded by the pair's own capital. Whatever a public trade fills was, before
  the trade, an order backed by a capital position of this pair: an entry by reserved USDT
  that covers its amount, a return by inventory of the pair's asset that covers it.
\<close>

theorem fills_are_funded:
  assumes res: "consume_public_trade t now E = Return fills E'" and fill: "(oid, amount) \<in> set fills"
  shows "\<exists>L ord cid p. pe_ledger E = Some L \<and> dict_get (pe_orders E) oid = Some ord \<and>
     po_capital_id ord = Some cid \<and> dict_get (positions L) cid = Some p \<and> cap_pair_id p = pe_pair_id E \<and>
     (po_role ord = ''ENTRY'' \<and> cap_asset p = ''USDT'' \<and>
        cap_state p \<in> {RESERVED_PAIR_A, RESERVED_PAIR_B, CANCEL_PENDING} \<and>
        dmul amount (trade_price t) \<le> cap_cost_basis p \<or>
      po_role ord = ''RETURN'' \<and> cap_asset p = pe_pair_asset E \<and>
        cap_state p \<in> {RETURN_PAIR_A, RETURN_PAIR_B} \<and> amount \<le> cap_quantity p)"
proof -
  obtain L q where L: "pe_ledger E = Some L" and none: "fills_error E L (trade_price t) fills = None"
    using res
    by (auto simp: consume_public_trade_def engine_causal_def Let_def probing_def on_queue_def and_then_Return
        split: if_splits option.splits outcome.splits)
  from fills_error_None [OF none fill] have "fill_error E L (trade_price t) (oid, amount) = None" .
  then obtain ord cid p where p: "dict_get (pe_orders E) oid = Some ord" "po_capital_id ord = Some cid"
    "dict_get (positions L) cid = Some p" "cap_pair_id p = pe_pair_id E"
    "po_role ord = ''ENTRY'' \<and> entry_funded ord p amount (trade_price t) \<or>
     po_role ord \<noteq> ''ENTRY'' \<and> return_funded ord p amount (pe_pair_asset E)"
    by (rule fill_error_None)
  from p(5) have "po_role ord = ''ENTRY'' \<and> cap_asset p = ''USDT'' \<and>
        cap_state p \<in> {RESERVED_PAIR_A, RESERVED_PAIR_B, CANCEL_PENDING} \<and>
        dmul amount (trade_price t) \<le> cap_cost_basis p \<or>
      po_role ord = ''RETURN'' \<and> cap_asset p = pe_pair_asset E \<and>
        cap_state p \<in> {RETURN_PAIR_A, RETURN_PAIR_B} \<and> amount \<le> cap_quantity p"
    unfolding entry_funded_def return_funded_def by (elim disjE conjE) (simp_all only: simp_thms)
  with L p(1-4) show ?thesis by (intro exI conjI)
qed

lemma funded_sale:
  "case run_ops exec_engine [SubmitOwnedReturn ''M035-CAP-000001'' ''K1'' 2 100 3 None]
          (restarted_engine\<lparr>pe_inventory_quantity := 100\<rparr>) of
     Return rs E \<Rightarrow> (case consume_public_trade sample_sale 4 E of
        Return fills _ \<Rightarrow> fills = [(order_id ''PAIR_A'' 1, 100)] | Raise _ _ \<Rightarrow> False)
   | Raise _ _ \<Rightarrow> False"
  by code_simp

theorem fills_are_funded_witness:
  "\<exists>E fills E' L p. consume_public_trade sample_sale 4 E = Return fills E' \<and> (order_id ''PAIR_A'' 1, 100) \<in> set fills \<and>
     pe_ledger E = Some L \<and> p \<in> set (dict_values (positions L)) \<and> cap_pair_id p = pe_pair_id E"
proof -
  obtain rs E where "run_ops exec_engine [SubmitOwnedReturn ''M035-CAP-000001'' ''K1'' 2 100 3 None]
          (restarted_engine\<lparr>pe_inventory_quantity := 100\<rparr>) = Return rs E"
    and s: "case consume_public_trade sample_sale 4 E of
        Return fills _ \<Rightarrow> fills = [(order_id ''PAIR_A'' 1, 100)] | Raise _ _ \<Rightarrow> False"
    using funded_sale
    by (cases "run_ops exec_engine [SubmitOwnedReturn ''M035-CAP-000001'' ''K1'' 2 100 3 None]
          (restarted_engine\<lparr>pe_inventory_quantity := 100\<rparr>)") (simp_all only: outcome.case)
  obtain fills E' where r: "consume_public_trade sample_sale 4 E = Return fills E'"
    and f: "fills = [(order_id ''PAIR_A'' 1, 100)]"
    using s by (cases "consume_public_trade sample_sale 4 E") (simp_all only: outcome.case)
  have mem: "(order_id ''PAIR_A'' 1, 100) \<in> set fills" by (simp add: f)
  from fills_are_funded [OF r mem] obtain L cid p where p: "pe_ledger E = Some L"
    "dict_get (positions L) cid = Some p" "cap_pair_id p = pe_pair_id E" by (elim exE conjE) (rule that; assumption)
  from p(2) have "p \<in> set (dict_values (positions L))" by (auto dest: map_of_SomeD simp: rev_image_eqI)
  with r mem p(1,3) show ?thesis by (intro exI conjI)
qed

text \<open>
  The inventory figure of a pair engine starts at zero, so an engine created on a ledger that
  already holds inventory of its pair accepts a return order for it and then raises inside
  the fill loop of a public trade: the queue has consumed the order and the order is filled,
  while the ledger still holds the position that was sold.
\<close>

lemma sale_beyond_inventory:
  "case run_ops exec_engine sale_ops restarted_engine of
     Raise e E \<Rightarrow> e = negative_inventory \<and> map (po_status \<circ> snd) (pe_orders E) = [FILLED] \<and>
       (case pe_ledger E of
          Some L \<Rightarrow> map (cap_state \<circ> snd) (positions L) = [RETURN_PAIR_A]
        | None \<Rightarrow> False)
   | Return _ _ \<Rightarrow> False"
  by code_simp

end
