(* ===== verification/Multi_Stable_Models.thy ===== *)
theory Multi_Stable_Models
  imports Py_Prelude Py_Decimal
begin

text \<open>
  The economic records of \<^verbatim>\<open>microstructure/multi_stable_models.py\<close> and the checks their
  constructors and methods make: causal asset marks, symbol rules and fee profiles with their
  windows, stablecoin evidence, economic slots, routes, physical fills and authorizations to
  reduce inventory. Decimals are finite, so \<^verbatim>\<open>is_finite()\<close> holds of every rate.
\<close>

section \<open>Remainder and quotient\<close>

text \<open>
  \<^verbatim>\<open>a % b\<close> has the sign of the dividend and is impossible when the integer quotient
  has more digits than the context; \<^verbatim>\<open>a / b\<close> raises for a zero divisor.
\<close>

definition drem :: "decimal \<Rightarrow> decimal \<Rightarrow> py_error + decimal" where
  "drem a b =
     (if b = 0 then Inl InvalidOperation
      else let q = dtrunc (a / b)
           in if 10 ^ 28 \<le> \<bar>q\<bar> then Inl InvalidOperation
              else Inr (dround 28 (a - of_int q * b)))"

definition dquot :: "decimal \<Rightarrow> decimal \<Rightarrow> py_error + decimal" where
  "dquot a b =
     (if b = 0 then Inl (if a = 0 then InvalidOperation else ZeroDivisionError) else Inr (ddiv a b))"

section \<open>Enumerations\<close>

datatype column_role = PERSISTENT_QUEUE | OPPORTUNITY

datatype slot_state =
    FREE
  | RESERVED
  | LIVE
  | PARTIAL
  | FILLED
  | RETURN
  | CANCEL_PENDING
  | CLOSED

section \<open>Asset marks\<close>

record causal_asset_mark =
  cam_base_asset :: string
  cam_quote_asset :: string
  cam_rate :: decimal
  cam_observed_at :: int
  cam_effective_until :: int
  cam_record_id :: string
  cam_source_reference :: string
  cam_provenance :: string

definition check_asset_mark :: "causal_asset_mark \<Rightarrow> py_error + unit" where
  "check_asset_mark m =
     (if cam_base_asset m = [] \<or> cam_quote_asset m = [] \<or> cam_base_asset m = cam_quote_asset m \<or>
         cam_rate m \<le> 0 \<or> cam_observed_at m < 0 \<or> cam_effective_until m < cam_observed_at m \<or>
         cam_record_id m = [] \<or> cam_source_reference m = [] \<or> cam_provenance m = []
      then Inl (ValueError ''M034_INVALID_CAUSAL_ASSET_MARK'') else Inr ())"

definition rate_at :: "string \<Rightarrow> string \<Rightarrow> int \<Rightarrow> causal_asset_mark \<Rightarrow> py_error + decimal" where
  "rate_at base_asset quote_asset time_us m =
     (if base_asset \<noteq> cam_base_asset m \<or> quote_asset \<noteq> cam_quote_asset m \<or>
         \<not> (cam_observed_at m \<le> time_us \<and> time_us \<le> cam_effective_until m)
      then Inl (ValueError ''M034_CAUSAL_ASSET_MARK_NOT_APPLICABLE'') else Inr (cam_rate m))"

section \<open>Symbol rules and fees\<close>

record symbol_rule =
  sr_symbol :: string
  sr_base_asset :: string
  sr_quote_asset :: string
  sr_tick_size :: decimal
  sr_step_size :: decimal
  sr_min_notional :: decimal
  sr_effective_start :: int
  sr_effective_end :: "int option"
  sr_provenance :: string

definition outside_window :: "int \<Rightarrow> int option \<Rightarrow> int \<Rightarrow> bool" where
  "outside_window start stop time_us \<longleftrightarrow>
     time_us < start \<or> (case stop of None \<Rightarrow> False | Some e \<Rightarrow> e \<le> time_us)"

definition validate_order :: "decimal \<Rightarrow> decimal \<Rightarrow> int \<Rightarrow> symbol_rule \<Rightarrow> py_error + unit" where
  "validate_order price quantity time_us r =
     (if outside_window (sr_effective_start r) (sr_effective_end r) time_us
      then Inl (ValueError ''M032_SYMBOL_RULE_OUTSIDE_EFFECTIVE_WINDOW'')
      else if price \<le> 0 \<or> quantity \<le> 0 then Inl (ValueError ''M032_NON_POSITIVE_ORDER'')
      else case drem price (sr_tick_size r) of
        Inl e \<Rightarrow> Inl e
      | Inr x \<Rightarrow>
          if x \<noteq> 0 then Inl (ValueError ''M032_TICK_SIZE_VIOLATION'')
          else case drem quantity (sr_step_size r) of
            Inl e \<Rightarrow> Inl e
          | Inr y \<Rightarrow>
              if y \<noteq> 0 then Inl (ValueError ''M032_STEP_SIZE_VIOLATION'')
              else if dmul price quantity < sr_min_notional r
              then Inl (ValueError ''M032_MIN_NOTIONAL_VIOLATION'') else Inr ())"

record fee_profile =
  fp_symbol :: string
  fp_maker_rate :: decimal
  fp_taker_rate :: decimal
  fp_effective_start :: int
  fp_effective_end :: "int option"
  fp_provenance :: string
  fp_account_specific :: bool

definition fee_rate :: "bool \<Rightarrow> int \<Rightarrow> fee_profile \<Rightarrow> py_error + decimal" where
  "fee_rate maker time_us f =
     (if outside_window (fp_effective_start f) (fp_effective_end f) time_us
      then Inl (ValueError ''M032_FEE_PROFILE_OUTSIDE_EFFECTIVE_WINDOW'')
      else Inr (if maker then fp_maker_rate f else fp_taker_rate f))"

section \<open>Stablecoin evidence\<close>

record stablecoin_evidence =
  sce_asset :: string
  sce_adoption :: decimal
  sce_peg_stability :: decimal
  sce_liquidity :: decimal
  sce_reserve_quality :: decimal
  sce_operational :: decimal
  sce_as_of :: int
  sce_provenance :: "string list"

definition safety_score :: "stablecoin_evidence \<Rightarrow> py_error + decimal" where
  "safety_score s =
     (let values = [sce_adoption s, sce_peg_stability s, sce_liquidity s, sce_reserve_quality s, sce_operational s]
      in if \<exists>v \<in> set values. v < 0 \<or> 1 < v then Inl (ValueError ''M032_SAFETY_COMPONENT_OUT_OF_RANGE'')
         else Inr (ddiv (dsum values) (of_nat (length values))))"

section \<open>Economic slots\<close>

record economic_slot =
  es_slot_id :: string
  es_epoch :: int
  es_origin_asset :: string
  es_current_asset :: string
  es_initial_usd :: decimal
  es_marked_value :: decimal
  es_created_at :: int
  es_state :: slot_state
  es_reserved_value :: decimal
  es_book :: "string option"
  es_side :: "string option"
  es_price :: "decimal option"
  es_column :: "int option"
  es_band_rank :: "int option"
  es_activated_at :: "int option"
  es_queue_age :: int
  es_queue_ahead :: decimal
  es_filled :: decimal
  es_remaining :: decimal
  es_cost_basis :: decimal
  es_route :: "string option"
  es_cycle :: "string option"
  es_lock_started :: "int option"
  es_lock_duration :: int
  es_realized_pnl :: decimal
  es_marked_pnl :: decimal
  es_reservation :: "string option"

definition touch_queue_age :: "int \<Rightarrow> economic_slot \<Rightarrow> economic_slot" where
  "touch_queue_age now s =
     (case es_activated_at s of None \<Rightarrow> s | Some t \<Rightarrow> s\<lparr>es_queue_age := max 0 (now - t)\<rparr>)"

text \<open>A slot as its constructor makes it, with the defaults of the fields no caller gives.\<close>

definition new_slot :: "string \<Rightarrow> int \<Rightarrow> string \<Rightarrow> decimal \<Rightarrow> int \<Rightarrow> economic_slot" where
  "new_slot slot_id epoch origin usd now =
     \<lparr>es_slot_id = slot_id, es_epoch = epoch, es_origin_asset = origin, es_current_asset = origin,
      es_initial_usd = usd, es_marked_value = usd, es_created_at = now, es_state = FREE,
      es_reserved_value = 0, es_book = None, es_side = None, es_price = None, es_column = None,
      es_band_rank = None, es_activated_at = None, es_queue_age = 0, es_queue_ahead = 0,
      es_filled = 0, es_remaining = 0, es_cost_basis = 0, es_route = None, es_cycle = None,
      es_lock_started = None, es_lock_duration = 0, es_realized_pnl = 0, es_marked_pnl = 0,
      es_reservation = None\<rparr>"

section \<open>Scores and routes\<close>

record score_breakdown =
  sb_candidate :: string
  sb_priority :: int
  sb_expected_net_pnl :: decimal
  sb_completion :: decimal
  sb_capital :: decimal
  sb_lock_seconds :: decimal
  sb_safety :: decimal
  sb_inventory_penalty :: decimal
  sb_lost_fifo :: decimal
  sb_score :: decimal

record route_leg =
  rl_symbol :: string
  rl_from :: string
  rl_to :: string
  rl_maker :: bool

record route_candidate =
  rc_route_id :: string
  rc_origin :: string
  rc_legs :: "route_leg list"

text \<open>
  The constructor's walk over the legs: the cursor is the asset held, an asset may only
  repeat on the last leg. The walk returns the asset the route ends in.
\<close>

primrec walk_legs :: "string \<Rightarrow> string set \<Rightarrow> route_leg list \<Rightarrow> py_error + string" where
  "walk_legs cursor visited [] = Inr cursor"
| "walk_legs cursor visited (leg # legs) =
     (if rl_from leg \<noteq> cursor then Inl (ValueError ''M032_ROUTE_ASSET_DISCONTINUITY'')
      else if legs \<noteq> [] \<and> rl_to leg \<in> visited
      then Inl (ValueError ''M032_ROUTE_REPEATS_ASSET_BEFORE_CLOSE'')
      else walk_legs (rl_to leg) (insert (rl_to leg) visited) legs)"

definition check_route :: "route_candidate \<Rightarrow> py_error + unit" where
  "check_route c =
     (if \<not> (2 \<le> length (rc_legs c) \<and> length (rc_legs c) \<le> 4)
      then Inl (ValueError ''M032_ROUTE_LENGTH_MUST_BE_2_TO_4'')
      else case walk_legs (rc_origin c) {rc_origin c} (rc_legs c) of
        Inl e \<Rightarrow> Inl e
      | Inr cursor \<Rightarrow>
          if cursor \<noteq> rc_origin c then Inl (ValueError ''M032_ROUTE_DOES_NOT_CLOSE'') else Inr ())"

record route_progress =
  rp_execution_id :: string
  rp_candidate :: route_candidate
  rp_slot_id :: string
  rp_initial_quantity :: decimal
  rp_current_asset :: string
  rp_current_quantity :: decimal
  rp_started_at :: int
  rp_next_leg :: nat
  rp_input_remaining :: decimal
  rp_output_accumulated :: decimal
  rp_fill_ids :: "string list"
  rp_fees :: "(string, decimal) dict"
  rp_external_fees :: decimal
  rp_closed_at :: "int option"
  rp_realized_pnl :: decimal

section \<open>Fills and authorizations\<close>

record physical_fill =
  pf_fill_id :: string
  pf_symbol :: string
  pf_from :: string
  pf_to :: string
  pf_input :: decimal
  pf_gross :: decimal
  pf_fee_asset :: string
  pf_fee :: decimal
  pf_time :: int

definition output_quantity_net :: "physical_fill \<Rightarrow> decimal" where
  "output_quantity_net f = dsub (pf_gross f) (if pf_fee_asset f = pf_to f then pf_fee f else 0)"

record reduction_authorization =
  ira_id :: string
  ira_slot_id :: string
  ira_slot_epoch :: int
  ira_quantity :: decimal
  ira_cost_basis :: decimal
  ira_inventory_asset :: string
  ira_origin_asset :: string
  ira_exit_reservation :: string
  ira_fee_marks :: "causal_asset_mark list"
  ira_decided_at :: int
  ira_expires_at :: int
  ira_rule_id :: string
  ira_rule_hash :: string
  ira_reason :: string
  ira_trigger_reason :: string
  ira_expected_hold_loss :: decimal
  ira_opportunity_cost :: decimal
  ira_tail_risk :: decimal
  ira_realized_loss :: decimal

definition check_authorization :: "reduction_authorization \<Rightarrow> py_error + unit" where
  "check_authorization a =
     (if ira_id a = [] \<or> ira_slot_id a = [] \<or> ira_rule_id a = [] \<or> ira_rule_hash a = [] \<or>
         ira_reason a = [] \<or> ira_trigger_reason a = [] \<or> ira_inventory_asset a = [] \<or>
         ira_origin_asset a = [] \<or> ira_inventory_asset a = ira_origin_asset a \<or>
         ira_exit_reservation a = [] \<or> ira_slot_epoch a < 1 \<or> ira_quantity a \<le> 0 \<or>
         ira_cost_basis a \<le> 0 \<or> ira_decided_at a < 0 \<or> ira_expires_at a < ira_decided_at a
      then Inl (ValueError ''M034_INVALID_INVENTORY_REDUCTION_AUTHORIZATION'')
      else if \<exists>v \<in> set [ira_expected_hold_loss a, ira_opportunity_cost a, ira_tail_risk a, ira_realized_loss a]. v < 0
      then Inl (ValueError ''M034_NEGATIVE_INVENTORY_REDUCTION_TERM'')
      else if ira_realized_loss a \<le> 0
      then Inl (ValueError ''M034_NON_POSITIVE_INVENTORY_REDUCTION_LOSS'')
      else if \<not> distinct (map cam_base_asset (ira_fee_marks a)) \<or>
              (\<exists>m \<in> set (ira_fee_marks a). cam_quote_asset m \<noteq> ira_origin_asset a \<or>
                 ira_decided_at a < cam_observed_at m \<or> cam_effective_until m < ira_expires_at a)
      then Inl (ValueError ''M034_INVALID_INVENTORY_REDUCTION_FEE_MARKS'')
      else Inr ())"

section \<open>What the checks establish\<close>

text \<open>A zero remainder means that the dividend is an integral multiple of the divisor.\<close>

lemma drem_zero_iff:
  "drem a b = Inr 0 \<longleftrightarrow> b \<noteq> 0 \<and> (\<exists>n::int. a = of_int n * b \<and> \<bar>n\<bar> < 10 ^ 28)"
proof (cases "b = 0")
  case False
  have trunc: "dtrunc (of_int n :: decimal) = n" for n by (simp add: dtrunc_def)
  show ?thesis
  proof
    assume "drem a b = Inr 0"
    then have "\<bar>dtrunc (a / b)\<bar> < 10 ^ 28" "dround 28 (a - of_int (dtrunc (a / b)) * b) = 0"
      using False by (auto simp: drem_def Let_def split: if_splits)
    then show "b \<noteq> 0 \<and> (\<exists>n::int. a = of_int n * b \<and> \<bar>n\<bar> < 10 ^ 28)"
      using False by (auto simp: prec28.rnd_eq_0_iff intro!: exI [of _ "dtrunc (a / b)"])
  next
    assume "b \<noteq> 0 \<and> (\<exists>n::int. a = of_int n * b \<and> \<bar>n\<bar> < 10 ^ 28)"
    then show "drem a b = Inr 0" by (auto simp: drem_def Let_def trunc)
  qed
qed (simp add: drem_def)

lemma validate_order_Inr:
  "validate_order price quantity time_us r = Inr () \<longleftrightarrow>
     \<not> outside_window (sr_effective_start r) (sr_effective_end r) time_us \<and> 0 < price \<and> 0 < quantity \<and>
     drem price (sr_tick_size r) = Inr 0 \<and> drem quantity (sr_step_size r) = Inr 0 \<and>
     sr_min_notional r \<le> dmul price quantity"
  by (auto simp: validate_order_def not_le not_less split: sum.splits if_splits)

text \<open>The walk accepts exactly the chains of legs that visit no asset twice before the last.\<close>

lemma walk_legs_iff:
  "walk_legs cursor visited legs = Inr last_asset \<longleftrightarrow>
     map rl_from legs @ [last_asset] = cursor # map rl_to legs \<and>
     distinct (map rl_to (butlast legs)) \<and> set (map rl_to (butlast legs)) \<inter> visited = {}"
proof (induction legs arbitrary: cursor visited)
  case (Cons leg legs)
  then show ?case by (cases "legs = []") auto
qed auto

lemma check_route_iff:
  "check_route c = Inr () \<longleftrightarrow>
     2 \<le> length (rc_legs c) \<and> length (rc_legs c) \<le> 4 \<and>
     map rl_from (rc_legs c) @ [rc_origin c] = rc_origin c # map rl_to (rc_legs c) \<and>
     distinct (rc_origin c # map rl_to (butlast (rc_legs c)))"
proof -
  have "check_route c = Inr () \<longleftrightarrow>
     2 \<le> length (rc_legs c) \<and> length (rc_legs c) \<le> 4 \<and>
     walk_legs (rc_origin c) {rc_origin c} (rc_legs c) = Inr (rc_origin c)"
    by (auto simp: check_route_def split: sum.splits if_splits)
  then show ?thesis unfolding walk_legs_iff by auto
qed

lemma output_net_le: "0 \<le> pf_fee f \<Longrightarrow> exact28 (pf_gross f) \<Longrightarrow> output_quantity_net f \<le> pf_gross f"
  by (simp add: output_quantity_net_def dsub_le)

end
