(* ===== verification/Multi_Stable_Ledger.thy ===== *)
theory Multi_Stable_Ledger
  imports Multi_Stable_Models
begin

text \<open>
  \<^verbatim>\<open>microstructure/multi_stable_ledger.py\<close>: the slot ledger. Every unit of an asset is in
  exactly one of three buckets: free, the remainder of a reservation, or owned by a slot. The
  methods raise with whatever they have changed by then; the objects Python shares by
  reference (a reservation, a slot) are written back under their key.
\<close>

section \<open>State\<close>

record capital_reservation =
  cr_id :: string
  cr_slot_id :: string
  cr_asset :: string
  cr_quantity :: decimal
  cr_remaining :: decimal
  cr_created_at :: int
  cr_source :: string
  cr_cancel_requested :: "int option"
  cr_cancel_ack :: "int option"

record fill_attribution =
  fa_reservation_id :: string
  fa_reservation_created_at :: int
  fa_slot_id :: string
  fa_fill :: physical_fill

text \<open>
  The audit trail. A row stores its decimals as strings; since \<^verbatim>\<open>D(str(x))\<close> is
  \<^verbatim>\<open>x\<close>, the model keeps the decimal.
\<close>

datatype (plugins only: code size) audit_row =
    AuditReserve int string string string decimal
  | AuditActivate int string string
  | AuditCancelRequest int string string
  | AuditCancelAck int string string decimal
  | AuditFill int string string string decimal decimal string string
  | AuditCostDebit int string "string option" string decimal string string
  | AuditCycleClosed int string string decimal
  | AuditAuthorized int string string string string string
  | AuditSettled int string string string string string decimal decimal

record slot_ledger =
  sl_free :: "(string, decimal) dict"
  sl_totals :: "(string, decimal) dict"
  sl_marks :: "(string, decimal) dict"
  sl_slots :: "(string, economic_slot) dict"
  sl_reservations :: "(string, capital_reservation) dict"
  sl_owned :: "(string, (string, decimal) dict) dict"
  sl_initial_equity :: decimal
  sl_fill_ids :: "string set"
  sl_attribution :: "(string, fill_attribution) dict"
  sl_turnover :: "int list"
  sl_reduction_turnover :: "int list"
  sl_authorizations :: "(string, reduction_authorization) dict"
  sl_processed_authorizations :: "string set"
  sl_negative_exits :: nat
  sl_negative_cost :: decimal
  sl_realized :: "(string, decimal) dict"
  sl_audit :: "audit_row list"
  sl_last_event :: int

section \<open>Totals and reconciliation\<close>

text \<open>
  The assets of all buckets. Python collects them in a set, whose iteration order is
  unspecified; the order of the model only matters for a sum that rounds.
\<close>

definition ledger_assets :: "slot_ledger \<Rightarrow> string list" where
  "ledger_assets L =
     fromkeys (keys (sl_free L) @ map cr_asset (dict_values (sl_reservations L)) @
               concat (map keys (dict_values (sl_owned L))))"

definition asset_total :: "string \<Rightarrow> slot_ledger \<Rightarrow> decimal" where
  "asset_total a L =
     dadd (dadd (get_or (sl_free L) a 0)
                (dsum (map cr_remaining (filter (\<lambda>r. cr_asset r = a) (dict_values (sl_reservations L))))))
          (dsum (map (\<lambda>bucket. get_or bucket a 0) (dict_values (sl_owned L))))"

definition asset_totals :: "slot_ledger \<Rightarrow> (string, decimal) dict" where
  "asset_totals L = map (\<lambda>a. (a, asset_total a L)) (ledger_assets L)"

definition slot_marked_equity :: "(string, decimal) dict option \<Rightarrow> slot_ledger \<Rightarrow> py_error + decimal" where
  "slot_marked_equity marks L =
     (let m = (case marks of None \<Rightarrow> sl_marks L | Some x \<Rightarrow> x); totals = asset_totals L
      in if \<not> set (keys totals) \<subseteq> set (keys m) then Inl (ValueError ''M032_MISSING_MARK'')
         else Inr (dsum (map (\<lambda>(a, q). dmul q (get_or m a 0)) totals)))"

text \<open>Two dictionaries are equal when they have the same keys with the same values.\<close>

definition dict_eq :: "('k, 'v) dict \<Rightarrow> ('k, 'v) dict \<Rightarrow> bool" where
  "dict_eq d e \<longleftrightarrow> set (keys d) = set (keys e) \<and> (\<forall>k \<in> set (keys d). dict_get d k = dict_get e k)"

primrec owner_error :: "(string, economic_slot) dict \<Rightarrow> (string \<times> capital_reservation) list \<Rightarrow> py_error option" where
  "owner_error slots [] = None"
| "owner_error slots (row # rows) =
     (case dict_get slots (cr_slot_id (snd row)) of
        None \<Rightarrow> Some KeyError
      | Some s \<Rightarrow>
          if es_reservation s \<noteq> Some (fst row) then Some (ValueError ''M032_RESERVATION_OWNER_MISMATCH'')
          else owner_error slots rows)"

definition slot_reconcile_error :: "slot_ledger \<Rightarrow> py_error option" where
  "slot_reconcile_error L =
     (let totals = asset_totals L
      in if \<exists>q \<in> set (dict_values totals). q < 0 then Some (ValueError ''M032_NEGATIVE_ASSET_BUCKET'')
         else if \<not> dict_eq totals (sl_totals L) then Some (ValueError ''M032_GLOBAL_ASSET_RECONCILIATION_FAILED'')
         else if \<not> distinct (map cr_slot_id (dict_values (sl_reservations L)))
         then Some (ValueError ''M032_SLOT_HAS_MULTIPLE_RESERVATIONS'')
         else owner_error (sl_slots L) (sl_reservations L))"

text \<open>The end of most methods: reconcile, then return.\<close>

definition reconciled :: "'a \<Rightarrow> slot_ledger \<Rightarrow> ('a, slot_ledger) outcome" where
  "reconciled r L = (case slot_reconcile_error L of None \<Rightarrow> Return r L | Some e \<Rightarrow> Raise e L)"

section \<open>Construction\<close>

definition new_slot_ledger ::
    "(string, decimal) dict \<Rightarrow> (string, decimal) dict \<Rightarrow> py_error + slot_ledger" where
  "new_slot_ledger balances marks =
     (let L = \<lparr>sl_free = balances, sl_totals = balances, sl_marks = marks, sl_slots = [],
               sl_reservations = [], sl_owned = [], sl_initial_equity = 0, sl_fill_ids = {},
               sl_attribution = [], sl_turnover = [], sl_reduction_turnover = [],
               sl_authorizations = [], sl_processed_authorizations = {}, sl_negative_exits = 0,
               sl_negative_cost = 0, sl_realized = map_values (\<lambda>_. 0) balances, sl_audit = [],
               sl_last_event = -1\<rparr>
      in if set (keys balances) \<noteq> set (keys marks) then Inl (ValueError ''M032_MARK_SET_MISMATCH'')
         else if \<exists>v \<in> set (dict_values balances). v < 0
         then Inl (ValueError ''M032_NEGATIVE_INITIAL_BALANCE'')
         else case slot_marked_equity None L of
           Inl e \<Rightarrow> Inl e
         | Inr equity \<Rightarrow>
             if 200 < equity then Inl (ValueError ''M032_MAX_BANKROLL_EXCEEDED'')
             else Inr (L\<lparr>sl_initial_equity := equity\<rparr>))"

section \<open>Access\<close>

definition sl_causal ::
    "int \<Rightarrow> slot_ledger \<Rightarrow> (unit \<Rightarrow> slot_ledger \<Rightarrow> ('a, slot_ledger) outcome) \<Rightarrow> ('a, slot_ledger) outcome" where
  "sl_causal now L k =
     (if now < sl_last_event L then Raise (ValueError ''M032_NONCAUSAL_LEDGER_EVENT'') L else k () L)"

text \<open>Look up a key, or raise \<^const>\<open>KeyError\<close>.\<close>

definition with_key ::
    "('k, 'v) dict \<Rightarrow> 'k \<Rightarrow> 's \<Rightarrow> ('v \<Rightarrow> ('a, 's) outcome) \<Rightarrow> ('a, 's) outcome" where
  "with_key d k s f = (case dict_get d k of None \<Rightarrow> Raise KeyError s | Some v \<Rightarrow> f v)"

text \<open>\<^verbatim>\<open>d[k] += x\<close> and \<^verbatim>\<open>d[k] -= x\<close>.\<close>

definition key_add :: "'k \<Rightarrow> decimal \<Rightarrow> ('k, decimal) dict \<Rightarrow> ('k, decimal) dict option" where
  "key_add k x d = map_option (\<lambda>v. dict_set k (dadd v x) d) (dict_get d k)"

definition key_sub :: "'k \<Rightarrow> decimal \<Rightarrow> ('k, decimal) dict \<Rightarrow> ('k, decimal) dict option" where
  "key_sub k x d = map_option (\<lambda>v. dict_set k (dsub v x) d) (dict_get d k)"

definition or_key_error :: "'v option \<Rightarrow> 's \<Rightarrow> ('v \<Rightarrow> ('a, 's) outcome) \<Rightarrow> ('a, 's) outcome" where
  "or_key_error x s f = (case x of None \<Rightarrow> Raise KeyError s | Some v \<Rightarrow> f v)"

definition put_slot :: "string \<Rightarrow> economic_slot \<Rightarrow> slot_ledger \<Rightarrow> slot_ledger" where
  "put_slot sid s L = L\<lparr>sl_slots := dict_set sid s (sl_slots L)\<rparr>"

definition put_reservation :: "string \<Rightarrow> capital_reservation \<Rightarrow> slot_ledger \<Rightarrow> slot_ledger" where
  "put_reservation rid r L = L\<lparr>sl_reservations := dict_set rid r (sl_reservations L)\<rparr>"

definition drop_reservation :: "string \<Rightarrow> slot_ledger \<Rightarrow> slot_ledger" where
  "drop_reservation rid L = L\<lparr>sl_reservations := dict_del rid (sl_reservations L)\<rparr>"

definition put_owned :: "string \<Rightarrow> (string, decimal) dict \<Rightarrow> slot_ledger \<Rightarrow> slot_ledger" where
  "put_owned sid bucket L = L\<lparr>sl_owned := dict_set sid bucket (sl_owned L)\<rparr>"

definition audited :: "audit_row \<Rightarrow> slot_ledger \<Rightarrow> slot_ledger" where
  "audited row L = L\<lparr>sl_audit := sl_audit L @ [row]\<rparr>"

definition commit_time :: "int \<Rightarrow> slot_ledger \<Rightarrow> slot_ledger" where
  "commit_time now L = L\<lparr>sl_last_event := now\<rparr>"

section \<open>Slots and reservations\<close>

definition create_slot ::
    "string \<Rightarrow> string \<Rightarrow> decimal \<Rightarrow> int \<Rightarrow> int \<Rightarrow> slot_ledger \<Rightarrow> (economic_slot, slot_ledger) outcome" where
  "create_slot sid origin usd now epoch L0 =
     sl_causal now L0 (\<lambda>_ L.
       if has_key (sl_slots L) sid then Raise (ValueError ''M032_DUPLICATE_SLOT_ID'') L
       else if \<not> has_key (sl_free L) origin \<or> usd \<le> 0 then Raise (ValueError ''M032_INVALID_SLOT_ORIGIN'') L
       else let s = new_slot sid epoch origin usd now
            in Return s (commit_time now (put_owned sid [] (put_slot sid s L))))"

definition create_reservation ::
    "economic_slot \<Rightarrow> string \<Rightarrow> string \<Rightarrow> decimal \<Rightarrow> int \<Rightarrow> string \<Rightarrow> slot_ledger \<Rightarrow>
     (capital_reservation, slot_ledger) outcome" where
  "create_reservation s rid asset quantity now source L =
     (let sid = es_slot_id s;
          r = \<lparr>cr_id = rid, cr_slot_id = sid, cr_asset = asset, cr_quantity = quantity,
               cr_remaining = quantity, cr_created_at = now, cr_source = source,
               cr_cancel_requested = None, cr_cancel_ack = None\<rparr>;
          s1 = s\<lparr>es_reservation := Some rid, es_current_asset := asset, es_reserved_value := quantity,
                 es_remaining := quantity, es_filled := 0, es_activated_at := None,
                 es_state := RESERVED,
                 es_lock_started := (case es_lock_started s of None \<Rightarrow> Some now | Some t \<Rightarrow> Some t)\<rparr>
      in reconciled r (commit_time now (audited (AuditReserve now sid rid asset quantity)
           (put_slot sid s1 (put_reservation rid r L)))))"

definition reserve_free ::
    "string \<Rightarrow> string \<Rightarrow> string \<Rightarrow> decimal \<Rightarrow> int \<Rightarrow> slot_ledger \<Rightarrow> (capital_reservation, slot_ledger) outcome" where
  "reserve_free sid rid asset quantity now L0 =
     sl_causal now L0 (\<lambda>_ L.
       with_key (sl_slots L) sid L (\<lambda>s.
         if has_key (sl_reservations L) rid \<or> es_reservation s \<noteq> None
         then Raise (ValueError ''M032_RESERVATION_ALREADY_OWNED'') L
         else if quantity \<le> 0 \<or> get_or (sl_free L) asset 0 < quantity
         then Raise (ValueError ''M032_FREE_CAPITAL_INSUFFICIENT'') L
         else or_key_error (key_sub asset quantity (sl_free L)) L (\<lambda>free.
           create_reservation s rid asset quantity now ''FREE'' (L\<lparr>sl_free := free\<rparr>))))"

definition reserve_owned ::
    "string \<Rightarrow> string \<Rightarrow> string \<Rightarrow> decimal \<Rightarrow> int \<Rightarrow> slot_ledger \<Rightarrow> (capital_reservation, slot_ledger) outcome" where
  "reserve_owned sid rid asset quantity now L0 =
     sl_causal now L0 (\<lambda>_ L.
       with_key (sl_slots L) sid L (\<lambda>s.
         if has_key (sl_reservations L) rid \<or> es_reservation s \<noteq> None
         then Raise (ValueError ''M032_RESERVATION_ALREADY_OWNED'') L
         else if quantity \<le> 0 then Raise (ValueError ''M032_OWNED_CAPITAL_INSUFFICIENT'') L
         else with_key (sl_owned L) sid L (\<lambda>bucket.
           if get_or bucket asset 0 < quantity
           then Raise (ValueError ''M032_OWNED_CAPITAL_INSUFFICIENT'') L
           else or_key_error (key_sub asset quantity bucket) L (\<lambda>bucket1.
             create_reservation s rid asset quantity now ''OWNED'' (put_owned sid bucket1 L)))))"

definition sl_activate :: "string \<Rightarrow> int \<Rightarrow> slot_ledger \<Rightarrow> (unit, slot_ledger) outcome" where
  "sl_activate rid now L0 =
     sl_causal now L0 (\<lambda>_ L.
       with_key (sl_reservations L) rid L (\<lambda>r.
         with_key (sl_slots L) (cr_slot_id r) L (\<lambda>s.
           if es_state s \<noteq> RESERVED \<or> cr_cancel_requested r \<noteq> None
           then Raise (ValueError ''M032_INVALID_ACTIVATION_LIFECYCLE'') L
           else Return () (commit_time now (audited (AuditActivate now (es_slot_id s) rid)
                  (put_slot (cr_slot_id r) (s\<lparr>es_state := LIVE, es_activated_at := Some now\<rparr>) L))))))"

definition sl_request_cancel :: "string \<Rightarrow> int \<Rightarrow> slot_ledger \<Rightarrow> (unit, slot_ledger) outcome" where
  "sl_request_cancel rid now L0 =
     sl_causal now L0 (\<lambda>_ L.
       with_key (sl_reservations L) rid L (\<lambda>r.
         with_key (sl_slots L) (cr_slot_id r) L (\<lambda>s.
           if 0 < es_filled s then Raise (ValueError ''M032_PARTIAL_OR_FILLED_NOT_RECLAIMABLE'') L
           else if cr_cancel_requested r \<noteq> None then Raise (ValueError ''M032_DUPLICATE_CANCEL_REQUEST'') L
           else Return () (commit_time now (audited (AuditCancelRequest now rid (es_slot_id s))
                  (put_slot (cr_slot_id r) (s\<lparr>es_state := CANCEL_PENDING\<rparr>)
                    (put_reservation rid (r\<lparr>cr_cancel_requested := Some now\<rparr>) L)))))))"

text \<open>What a cancelled reservation returns goes back to the bucket it came from.\<close>

definition released_to_source ::
    "capital_reservation \<Rightarrow> economic_slot \<Rightarrow> slot_ledger \<Rightarrow> (unit, slot_ledger) outcome" where
  "released_to_source r s L =
     (if cr_source r = ''FREE''
      then or_key_error (key_add (cr_asset r) (cr_remaining r) (sl_free L)) L
             (\<lambda>free. Return () (L\<lparr>sl_free := free\<rparr>))
      else if cr_source r = ''OWNED''
      then with_key (sl_owned L) (es_slot_id s) L (\<lambda>bucket.
             Return () (put_owned (es_slot_id s)
               (dict_set (cr_asset r) (dadd (get_or bucket (cr_asset r) 0) (cr_remaining r)) bucket) L))
      else Raise (ValueError ''M032_UNKNOWN_RESERVATION_SOURCE_BUCKET'') L)"

definition sl_acknowledge_cancel :: "string \<Rightarrow> int \<Rightarrow> slot_ledger \<Rightarrow> (decimal, slot_ledger) outcome" where
  "sl_acknowledge_cancel rid now L0 =
     sl_causal now L0 (\<lambda>_ L.
       with_key (sl_reservations L) rid L (\<lambda>r.
         with_key (sl_slots L) (cr_slot_id r) L (\<lambda>s.
           case cr_cancel_requested r of
             None \<Rightarrow> Raise (ValueError ''M032_CANCEL_ACK_WITHOUT_REQUEST'') L
           | Some requested \<Rightarrow>
               if now < requested then Raise (ValueError ''M032_CANCEL_ACK_BEFORE_REQUEST'') L
               else and_then (released_to_source r s L) (\<lambda>_ L1.
                 let s1 = s\<lparr>es_reservation := None, es_reserved_value := 0, es_remaining := 0,
                            es_state := (if 0 < es_filled s then FILLED else FREE)\<rparr>
                 in reconciled (cr_remaining r) (commit_time now (drop_reservation rid
                      (audited (AuditCancelAck now rid (es_slot_id s) (cr_remaining r))
                        (put_slot (cr_slot_id r) s1 L1))))))))"

section \<open>Fills\<close>

text \<open>The checks before the first mutation, in the order of the source.\<close>

definition fill_refused :: "physical_fill \<Rightarrow> capital_reservation \<Rightarrow> economic_slot \<Rightarrow> slot_ledger \<Rightarrow> py_error option" where
  "fill_refused f r s L =
     (case es_activated_at s of
        None \<Rightarrow> Some (ValueError ''M032_FILL_BEFORE_ACTIVATION'')
      | Some activated \<Rightarrow>
          if es_state s \<notin> {LIVE, PARTIAL, CANCEL_PENDING} then Some (ValueError ''M032_FILL_BEFORE_ACTIVATION'')
          else if pf_time f < cr_created_at r \<or> pf_time f < activated then Some (ValueError ''M032_NONCAUSAL_FILL'')
          else if pf_from f \<noteq> cr_asset r \<or> pf_input f \<le> 0 \<or> cr_remaining r < pf_input f
          then Some (ValueError ''M032_FILL_EXCEEDS_RESERVATION'')
          else if pf_gross f < 0 \<or> pf_fee f < 0 \<or> output_quantity_net f < 0
          then Some (ValueError ''M032_INVALID_FEE_OR_OUTPUT'')
          else if pf_fee_asset f = pf_from f \<and> dsub (cr_remaining r) (pf_input f) < pf_fee f
          then Some (ValueError ''M032_FEE_EXCEEDS_REMAINING_RESERVATION'')
          else if pf_fee_asset f \<notin> {pf_from f, pf_to f} \<and> 0 < pf_fee f \<and>
                  get_or (sl_free L) (pf_fee_asset f) 0 < pf_fee f
          then Some (ValueError ''M032_FEE_ASSET_INSUFFICIENT'')
          else None)"

definition pay_fill_fee ::
    "physical_fill \<Rightarrow> string \<Rightarrow> capital_reservation \<Rightarrow> economic_slot \<Rightarrow> slot_ledger \<Rightarrow>
     (capital_reservation \<times> economic_slot, slot_ledger) outcome" where
  "pay_fill_fee f rid r s L =
     (if pf_fee_asset f = pf_from f
      then let left = dsub (cr_remaining r) (pf_fee f);
               r1 = r\<lparr>cr_remaining := left\<rparr>;
               s1 = s\<lparr>es_reserved_value := left, es_remaining := left\<rparr>;
               L1 = put_slot (cr_slot_id r) s1 (put_reservation rid r1 L)
           in or_key_error (key_sub (pf_from f) (pf_fee f) (sl_totals L1)) L1
                (\<lambda>totals. Return (r1, s1) (L1\<lparr>sl_totals := totals\<rparr>))
      else if pf_fee_asset f = pf_to f
      then or_key_error (key_sub (pf_to f) (pf_fee f) (sl_totals L)) L
             (\<lambda>totals. Return (r, s) (L\<lparr>sl_totals := totals\<rparr>))
      else if 0 < pf_fee f
      then (if get_or (sl_free L) (pf_fee_asset f) 0 < pf_fee f
            then Raise (ValueError ''M032_FEE_ASSET_INSUFFICIENT'') L
            else or_key_error (key_sub (pf_fee_asset f) (pf_fee f) (sl_free L)) L (\<lambda>free.
              or_key_error (key_sub (pf_fee_asset f) (pf_fee f) (sl_totals L)) (L\<lparr>sl_free := free\<rparr>) (\<lambda>totals.
                Return (r, s) (L\<lparr>sl_free := free, sl_totals := totals\<rparr>))))
      else Return (r, s) L)"

text \<open>Everything after the fee: the output is owned, the fill is recorded, a spent reservation goes.\<close>

definition book_fill ::
    "physical_fill \<Rightarrow> string \<Rightarrow> capital_reservation \<Rightarrow> economic_slot \<Rightarrow> slot_ledger \<Rightarrow> (unit, slot_ledger) outcome" where
  "book_fill f rid r s L =
     with_key (sl_owned L) (es_slot_id s) L (\<lambda>bucket.
       let sid = es_slot_id s;
           net = output_quantity_net f;
           pending = (cr_cancel_requested r \<noteq> None);
           spent = (cr_remaining r = 0);
           gone = (spent \<and> \<not> pending);
           s1 = s\<lparr>es_current_asset := pf_to f,
                  es_state := (if pending then CANCEL_PENDING else if spent then FILLED else PARTIAL),
                  es_reservation := (if gone then None else es_reservation s)\<rparr>;
           L1 = audited (AuditFill (pf_time f) (pf_fill_id f) rid sid (pf_input f) net (pf_from f) (pf_to f))
                  (put_slot (cr_slot_id r) s1
                    (put_owned sid (dict_set (pf_to f) (dadd (get_or bucket (pf_to f) 0) net) bucket) L))
                  \<lparr>sl_fill_ids := insert (pf_fill_id f) (sl_fill_ids L),
                   sl_attribution := dict_set (pf_fill_id f)
                     \<lparr>fa_reservation_id = rid, fa_reservation_created_at = cr_created_at r,
                      fa_slot_id = sid, fa_fill = f\<rparr> (sl_attribution L)\<rparr>;
           L2 = (if gone then drop_reservation rid L1 else L1)
       in reconciled () (commit_time (pf_time f) L2))"

definition sl_apply_fill :: "string \<Rightarrow> physical_fill \<Rightarrow> slot_ledger \<Rightarrow> (unit, slot_ledger) outcome" where
  "sl_apply_fill rid f L0 =
     sl_causal (pf_time f) L0 (\<lambda>_ L.
       if pf_fill_id f \<in> sl_fill_ids L then Raise (ValueError ''M032_DUPLICATE_FILL'') L
       else with_key (sl_reservations L) rid L (\<lambda>r0.
         with_key (sl_slots L) (cr_slot_id r0) L (\<lambda>s0.
           case fill_refused f r0 s0 L of
             Some e \<Rightarrow> Raise e L
           | None \<Rightarrow>
               let left = dsub (cr_remaining r0) (pf_input f);
                   r = r0\<lparr>cr_remaining := left\<rparr>;
                   s = s0\<lparr>es_reserved_value := left, es_remaining := left,
                          es_filled := dadd (es_filled s0) (pf_input f)\<rparr>;
                   L1 = put_slot (cr_slot_id r) s (put_reservation rid r L)
               in or_key_error (key_sub (pf_from f) (pf_input f) (sl_totals L1)) L1 (\<lambda>totals.
                    let L2 = L1\<lparr>sl_totals := dict_set (pf_to f)
                                  (dadd (get_or totals (pf_to f) 0) (pf_gross f)) totals\<rparr>
                    in and_then (pay_fill_fee f rid r s L2) (\<lambda>rs L3.
                         case rs of (r1, s1) \<Rightarrow> book_fill f rid r1 s1 L3)))))"

section \<open>Costs\<close>

definition debit_reserved_cost ::
    "string \<Rightarrow> decimal \<Rightarrow> string \<Rightarrow> int \<Rightarrow> slot_ledger \<Rightarrow> (unit, slot_ledger) outcome" where
  "debit_reserved_cost rid quantity cost_kind now L0 =
     sl_causal now L0 (\<lambda>_ L.
       with_key (sl_reservations L) rid L (\<lambda>r0.
         with_key (sl_slots L) (cr_slot_id r0) L (\<lambda>s0.
           if quantity < 0 \<or> cost_kind = [] \<or> cr_remaining r0 < quantity \<or>
              es_state s0 \<notin> {LIVE, PARTIAL, CANCEL_PENDING}
           then Raise (ValueError ''M034_INVALID_RESERVED_ATTRIBUTABLE_COST'') L
           else
             let left = dsub (cr_remaining r0) quantity;
                 r = r0\<lparr>cr_remaining := left\<rparr>;
                 s = s0\<lparr>es_reserved_value := left, es_remaining := left\<rparr>;
                 L1 = put_slot (cr_slot_id r) s (put_reservation rid r L)
             in or_key_error (key_sub (cr_asset r) quantity (sl_totals L1)) L1 (\<lambda>totals.
                  let L2 = audited (AuditCostDebit now (es_slot_id s) (Some rid) (cr_asset r) quantity
                                      cost_kind ''RESERVED'') (L1\<lparr>sl_totals := totals\<rparr>);
                      L3 = (if left = 0 \<and> cr_cancel_requested r = None
                            then drop_reservation rid (put_slot (cr_slot_id r)
                                   (s\<lparr>es_reservation := None, es_state := FILLED\<rparr>) L2)
                            else L2)
                  in reconciled () (commit_time now L3)))))"

definition debit_owned_cost ::
    "string \<Rightarrow> string \<Rightarrow> decimal \<Rightarrow> string \<Rightarrow> int \<Rightarrow> slot_ledger \<Rightarrow> (unit, slot_ledger) outcome" where
  "debit_owned_cost sid asset quantity cost_kind now L0 =
     sl_causal now L0 (\<lambda>_ L.
       if quantity < 0 \<or> cost_kind = [] then Raise (ValueError ''M034_INVALID_OWNED_ATTRIBUTABLE_COST'') L
       else with_key (sl_owned L) sid L (\<lambda>bucket.
         if get_or bucket asset 0 < quantity
         then Raise (ValueError ''M034_INVALID_OWNED_ATTRIBUTABLE_COST'') L
         else or_key_error (key_sub asset quantity bucket) L (\<lambda>bucket1.
           let L1 = put_owned sid bucket1 L
           in or_key_error (key_sub asset quantity (sl_totals L1)) L1 (\<lambda>totals.
                reconciled () (commit_time now
                  (audited (AuditCostDebit now sid None asset quantity cost_kind ''OWNED'')
                    (L1\<lparr>sl_totals := totals\<rparr>)))))))"

section \<open>Closing a cycle\<close>

definition close_slot ::
    "string \<Rightarrow> decimal \<Rightarrow> int \<Rightarrow> string \<Rightarrow> decimal \<Rightarrow> slot_ledger \<Rightarrow> (decimal, slot_ledger) outcome" where
  "close_slot sid origin_quantity now cycle_id additional_cost L0 =
     sl_causal now L0 (\<lambda>_ L.
       with_key (sl_slots L) sid L (\<lambda>s.
         if es_reservation s \<noteq> None then Raise (ValueError ''M032_SLOT_CLOSE_WITH_OPEN_RESERVATION'') L
         else with_key (sl_owned L) sid L (\<lambda>bucket.
           let origin = es_origin_asset s;
               final = get_or bucket origin 0;
               pnl = dsub (dsub final origin_quantity) additional_cost
           in if additional_cost < 0 then Raise (ValueError ''M032_NEGATIVE_ADDITIONAL_COST'') L
              else if pnl < 0 then Raise (ValueError ''M032_NEGATIVE_REALIZED_EXIT_PROHIBITED'') L
              else or_key_error (key_add origin final (sl_free L)) L (\<lambda>free.
                let L1 = put_owned sid (dict_set origin 0 bucket) (L\<lparr>sl_free := free\<rparr>)
                in or_key_error (key_add origin pnl (sl_realized L1)) L1 (\<lambda>realized.
                  let s1 = s\<lparr>es_realized_pnl := dadd (es_realized_pnl s) pnl, es_cycle := Some cycle_id,
                             es_current_asset := origin, es_state := CLOSED\<rparr>;
                      L2 = put_slot sid s1 (L1\<lparr>sl_realized := realized\<rparr>)
                  in case es_lock_started s of
                       None \<Rightarrow> Raise (ValueError ''M032_SLOT_CLOSE_WITHOUT_CAPITAL_LOCK'') L2
                     | Some started \<Rightarrow>
                         let duration = now - started
                         in if duration < 0 then Raise (ValueError ''M032_NONCAUSAL_SLOT_CLOSE'') L2
                            else
                              let s2 = s1\<lparr>es_lock_duration := es_lock_duration s + duration, es_lock_started := None\<rparr>;
                                  L3 = put_slot sid s2 (L2\<lparr>sl_turnover := sl_turnover L2 @ [duration]\<rparr>)
                              in reconciled pnl (commit_time now (audited (AuditCycleClosed now sid cycle_id pnl) L3)))))))"

section \<open>Authorized reductions\<close>

text \<open>What the slot has paid for its inventory: the origin asset it sold, its fees and costs.\<close>

definition fill_cost :: "string \<Rightarrow> physical_fill \<Rightarrow> decimal" where
  "fill_cost asset f = dadd (pf_input f) (if pf_fee_asset f = asset then pf_fee f else 0)"

fun debited_cost :: "string \<Rightarrow> string \<Rightarrow> int \<Rightarrow> audit_row \<Rightarrow> decimal option" where
  "debited_cost sid asset now (AuditCostDebit t row_sid rid row_asset quantity kind bucket) =
     (if row_sid = sid \<and> row_asset = asset \<and> t \<le> now then Some quantity else None)"
| "debited_cost sid asset now _ = None"

definition origin_cost_basis :: "string \<Rightarrow> string \<Rightarrow> int \<Rightarrow> slot_ledger \<Rightarrow> decimal" where
  "origin_cost_basis sid origin now L =
     dadd (dsum (map (\<lambda>row. fill_cost origin (fa_fill row))
                  (filter (\<lambda>row. fa_slot_id row = sid \<and> pf_from (fa_fill row) = origin \<and> pf_time (fa_fill row) \<le> now)
                     (dict_values (sl_attribution L)))))
          (dsum (List.map_filter (debited_cost sid origin now) (sl_audit L)))"

definition register_reduction_authorization ::
    "reduction_authorization \<Rightarrow> int \<Rightarrow> slot_ledger \<Rightarrow> (unit, slot_ledger) outcome" where
  "register_reduction_authorization a now L0 =
     sl_causal now L0 (\<lambda>_ L.
       with_key (sl_slots L) (ira_slot_id a) L (\<lambda>s.
         let invalid = Raise (ValueError ''M034_INVALID_INVENTORY_REDUCTION_REGISTRATION'') L
         in if now \<noteq> ira_decided_at a \<or> has_key (sl_authorizations L) (ira_id a) \<or>
               ira_id a \<in> sl_processed_authorizations L \<or> es_epoch s \<noteq> ira_slot_epoch a \<or>
               es_origin_asset s \<noteq> ira_origin_asset a \<or> es_reservation s \<noteq> None \<or>
               es_current_asset s \<noteq> ira_inventory_asset a
            then invalid
            else with_key (sl_owned L) (es_slot_id s) L (\<lambda>bucket.
              if get_or bucket (ira_inventory_asset a) 0 \<noteq> ira_quantity a \<or>
                 origin_cost_basis (ira_slot_id a) (ira_origin_asset a) now L \<noteq> ira_cost_basis a
              then invalid
              else Return () (commit_time now
                (audited (AuditAuthorized now (ira_slot_id a) (ira_id a) (ira_exit_reservation a)
                            (ira_rule_id a) (ira_rule_hash a))
                  (L\<lparr>sl_authorizations := dict_set (ira_id a) a (sl_authorizations L)\<rparr>))))))"

definition exit_fills :: "reduction_authorization \<Rightarrow> slot_ledger \<Rightarrow> fill_attribution list" where
  "exit_fills a L =
     filter (\<lambda>row. fa_reservation_id row = ira_exit_reservation a) (dict_values (sl_attribution L))"

definition exit_proven ::
    "string \<Rightarrow> int \<Rightarrow> reduction_authorization \<Rightarrow> economic_slot \<Rightarrow> (string, decimal) dict \<Rightarrow> fill_attribution list \<Rightarrow> bool" where
  "exit_proven sid now a s bucket rows \<longleftrightarrow>
     rows \<noteq> [] \<and>
     (\<forall>row \<in> set rows. fa_slot_id row = sid \<and> ira_decided_at a \<le> fa_reservation_created_at row \<and>
        ira_decided_at a \<le> pf_time (fa_fill row) \<and> pf_time (fa_fill row) \<le> min now (ira_expires_at a) \<and>
        pf_from (fa_fill row) = ira_inventory_asset a \<and> pf_to (fa_fill row) = ira_origin_asset a) \<and>
     dsum (map (\<lambda>row. fill_cost (pf_from (fa_fill row)) (fa_fill row)) rows) = ira_quantity a \<and>
     (\<forall>(asset, quantity) \<in> set bucket. asset \<noteq> es_origin_asset s \<longrightarrow> quantity = 0) \<and>
     es_origin_asset s = ira_origin_asset a"

text \<open>The fees paid in a third asset, converted by the marks the authorization carries.\<close>

primrec external_fees ::
    "(string, causal_asset_mark) dict \<Rightarrow> string \<Rightarrow> int \<Rightarrow> physical_fill list \<Rightarrow> decimal list option" where
  "external_fees marks origin time_us [] = Some []"
| "external_fees marks origin time_us (f # fs) =
     (case dict_get marks (pf_fee_asset f) of
        None \<Rightarrow> None
      | Some m \<Rightarrow> (case rate_at (pf_fee_asset f) origin time_us m of
          Inl _ \<Rightarrow> None
        | Inr rate \<Rightarrow> map_option (\<lambda>xs. dmul (pf_fee f) rate # xs) (external_fees marks origin time_us fs)))"

definition external_fee_cost :: "string \<Rightarrow> reduction_authorization \<Rightarrow> economic_slot \<Rightarrow> slot_ledger \<Rightarrow> decimal option" where
  "external_fee_cost sid a s L =
     (let fills = map fa_fill (filter (\<lambda>row. fa_slot_id row = sid \<and> 0 < pf_fee (fa_fill row) \<and>
                    pf_fee_asset (fa_fill row) \<notin> {pf_from (fa_fill row), pf_to (fa_fill row)})
                  (dict_values (sl_attribution L)));
          marks = foldl (\<lambda>d m. dict_set (cam_base_asset m) m d) [] (ira_fee_marks a)
      in map_option dsum (external_fees marks (es_origin_asset s) (ira_decided_at a) fills))"

definition hold_cost :: "reduction_authorization \<Rightarrow> decimal" where
  "hold_cost a = dadd (dadd (ira_expected_hold_loss a) (ira_opportunity_cost a)) (ira_tail_risk a)"

definition settle_inventory_reduction ::
    "string \<Rightarrow> int \<Rightarrow> string \<Rightarrow> reduction_authorization \<Rightarrow> slot_ledger \<Rightarrow> (decimal, slot_ledger) outcome" where
  "settle_inventory_reduction sid now reduction_id a L0 =
     sl_causal now L0 (\<lambda>_ L.
       with_key (sl_slots L) sid L (\<lambda>s.
         if es_reservation s \<noteq> None then Raise (ValueError ''M034_INVENTORY_REDUCTION_WITH_OPEN_RESERVATION'') L
         else if reduction_id \<in> sl_processed_authorizations L
         then Raise (ValueError ''M034_DUPLICATE_INVENTORY_REDUCTION'') L
         else if dict_get (sl_authorizations L) reduction_id \<noteq> Some a \<or> ira_id a \<noteq> reduction_id \<or>
                 ira_slot_id a \<noteq> sid \<or> ira_slot_epoch a \<noteq> es_epoch s \<or>
                 \<not> (ira_decided_at a \<le> now \<and> now \<le> ira_expires_at a) \<or>
                 ira_reason a \<noteq> ''NEGATIVE_EXIT_RISK_RULE_TRIGGERED'' \<or> ira_rule_id a = [] \<or> ira_rule_hash a = []
         then Raise (ValueError ''M034_INVENTORY_REDUCTION_AUTHORIZATION_MISMATCH'') L
         else with_key (sl_owned L) sid L (\<lambda>bucket.
           let rows = exit_fills a L;
               origin = es_origin_asset s;
               final = get_or bucket origin 0
           in if \<not> exit_proven sid now a s bucket rows
              then Raise (ValueError ''M034_INVENTORY_REDUCTION_PHYSICAL_EXIT_UNPROVEN'') L
              else if final \<noteq> dsum (map (\<lambda>row. output_quantity_net (fa_fill row)) rows)
              then Raise (ValueError ''M034_INVENTORY_REDUCTION_ORIGIN_RESIDUAL_MISMATCH'') L
              else case external_fee_cost sid a s L of
                None \<Rightarrow> Raise (ValueError ''M034_EXTERNAL_FEE_MARK_UNPROVEN'') L
              | Some fees \<Rightarrow>
                  let loss = dadd (dsub (ira_cost_basis a) final) fees
                  in if loss \<le> 0 \<or> ira_realized_loss a < loss \<or> hold_cost a \<le> loss
                     then Raise (ValueError ''M034_INVENTORY_REDUCTION_INEQUALITY_NOT_SATISFIED'') L
                     else case es_lock_started s of
                       None \<Rightarrow> Raise (ValueError ''M034_INVENTORY_REDUCTION_WITHOUT_CAPITAL_LOCK'') L
                     | Some started \<Rightarrow>
                         if now - started < 0 then Raise (ValueError ''M034_NONCAUSAL_INVENTORY_REDUCTION'') L
                         else or_key_error (key_add origin final (sl_free L)) L (\<lambda>free.
                           let L1 = put_owned sid (dict_set origin 0 bucket) (L\<lparr>sl_free := free\<rparr>)
                           in or_key_error (key_sub origin loss (sl_realized L1)) L1 (\<lambda>realized.
                             let s1 = s\<lparr>es_realized_pnl := dsub (es_realized_pnl s) loss,
                                        es_current_asset := origin, es_state := CLOSED,
                                        es_lock_duration := es_lock_duration s + (now - started),
                                        es_lock_started := None\<rparr>;
                                 L2 = put_slot sid s1 (L1\<lparr>sl_realized := realized,
                                        sl_reduction_turnover := sl_reduction_turnover L1 @ [now - started],
                                        sl_negative_exits := Suc (sl_negative_exits L1),
                                        sl_negative_cost := dadd (sl_negative_cost L1) loss,
                                        sl_processed_authorizations :=
                                          insert reduction_id (sl_processed_authorizations L1),
                                        sl_authorizations := dict_del reduction_id (sl_authorizations L1)\<rparr>)
                             in reconciled (- loss) (commit_time now
                                  (audited (AuditSettled now sid reduction_id (ira_rule_id a) (ira_rule_hash a)
                                     (ira_trigger_reason a) loss fees) L2)))))))"

section \<open>Turnover percentiles\<close>

definition turnover_percentile :: "int list \<Rightarrow> decimal \<Rightarrow> py_error + int option" where
  "turnover_percentile xs p =
     (if xs = [] then Inr None
      else let n = int (length xs); i = \<lceil>dmul (dsub (of_nat (length xs)) 1) p\<rceil>
           in if - n \<le> i \<and> i < n then Inr (Some (sort xs ! nat (i mod n))) else Inl IndexError)"

section \<open>Operations\<close>

datatype slot_op =
    CreateSlot string string decimal int int
  | ReserveFree string string string decimal int
  | ReserveOwned string string string decimal int
  | SlotActivate string int
  | SlotRequestCancel string int
  | SlotAcknowledgeCancel string int
  | ApplyFill string physical_fill
  | DebitReservedCost string decimal string int
  | DebitOwnedCost string string decimal string int
  | CloseSlot string decimal int string decimal
  | RegisterReduction reduction_authorization int
  | SettleReduction string int string reduction_authorization

datatype slot_result = Done | CreatedSlot economic_slot | Reserved capital_reservation | Amount decimal

fun exec_slot :: "slot_op \<Rightarrow> slot_ledger \<Rightarrow> (slot_result, slot_ledger) outcome" where
  "exec_slot (CreateSlot sid origin usd now epoch) L = returning CreatedSlot (create_slot sid origin usd now epoch L)"
| "exec_slot (ReserveFree sid rid asset quantity now) L = returning Reserved (reserve_free sid rid asset quantity now L)"
| "exec_slot (ReserveOwned sid rid asset quantity now) L = returning Reserved (reserve_owned sid rid asset quantity now L)"
| "exec_slot (SlotActivate rid now) L = returning (\<lambda>_. Done) (sl_activate rid now L)"
| "exec_slot (SlotRequestCancel rid now) L = returning (\<lambda>_. Done) (sl_request_cancel rid now L)"
| "exec_slot (SlotAcknowledgeCancel rid now) L = returning Amount (sl_acknowledge_cancel rid now L)"
| "exec_slot (ApplyFill rid f) L = returning (\<lambda>_. Done) (sl_apply_fill rid f L)"
| "exec_slot (DebitReservedCost rid quantity kind now) L = returning (\<lambda>_. Done) (debit_reserved_cost rid quantity kind now L)"
| "exec_slot (DebitOwnedCost sid asset quantity kind now) L =
     returning (\<lambda>_. Done) (debit_owned_cost sid asset quantity kind now L)"
| "exec_slot (CloseSlot sid quantity now cycle_id cost) L = returning Amount (close_slot sid quantity now cycle_id cost L)"
| "exec_slot (RegisterReduction a now) L = returning (\<lambda>_. Done) (register_reduction_authorization a now L)"
| "exec_slot (SettleReduction sid now reduction_id a) L =
     returning Amount (settle_inventory_reduction sid now reduction_id a L)"

end
