(* ===== verification/Multi_Stable_Ledger_Inv.thy ===== *)
theory Multi_Stable_Ledger_Inv
  imports Multi_Stable_Ledger
begin

text \<open>
  The invariant of the slot ledger, in two halves: \<open>linked\<close> ties every reservation to the one
  slot that holds it, \<open>balanced\<close> says that the amounts are exact decimals and that the totals
  are the sum of the buckets. Together they make \<^verbatim>\<open>reconcile\<close> succeed.
\<close>

section \<open>Exact sums\<close>

lemma flow_grid_add:
  "on_flow_grid k a \<Longrightarrow> on_flow_grid k b \<Longrightarrow> a + b < pow10 (28 - int k) \<Longrightarrow>
     dadd a b = a + b \<and> on_flow_grid k (a + b)"
  using dadd_grid [of k a b] by (simp add: on_flow_grid_def on_grid_add)

lemma flow_grid_0 [simp]: "on_flow_grid k 0"
  by (simp add: on_flow_grid_def)

lemma flow_grid_nonneg: "on_flow_grid k a \<Longrightarrow> 0 \<le> a"
  by (simp add: on_flow_grid_def)

lemma flow_grid_smaller: "on_grid k a \<Longrightarrow> 0 \<le> a \<Longrightarrow> a \<le> b \<Longrightarrow> on_flow_grid k b \<Longrightarrow> on_flow_grid k a"
  by (simp add: on_flow_grid_def)

lemma foldl_dadd_exact:
  "on_flow_grid k a \<Longrightarrow> \<forall>x \<in> set xs. on_flow_grid k x \<Longrightarrow> a + sum_list xs < pow10 (28 - int k) \<Longrightarrow>
     foldl dadd a xs = a + sum_list xs \<and> on_flow_grid k (a + sum_list xs)"
proof (induction xs arbitrary: a)
  case (Cons x xs)
  have "0 \<le> sum_list xs" using Cons.prems(2) by (intro sum_list_nonneg) (auto dest: flow_grid_nonneg)
  then have "dadd a x = a + x \<and> on_flow_grid k (a + x)"
    using Cons.prems by (intro flow_grid_add) auto
  then show ?case using Cons.IH [of "a + x"] Cons.prems by (simp add: add.assoc)
qed simp

lemma dsum_exact:
  "\<forall>x \<in> set xs. on_flow_grid k x \<Longrightarrow> sum_list xs < pow10 (28 - int k) \<Longrightarrow>
     dsum xs = sum_list xs \<and> on_flow_grid k (sum_list xs)"
  using foldl_dadd_exact [of k 0 xs] by (simp add: dsum_def)

lemma sum_list_filter_if:
  fixes f :: "'a \<Rightarrow> 'b::comm_monoid_add"
  shows "sum_list (map f (filter P xs)) = sum_list (map (\<lambda>x. if P x then f x else 0) xs)"
  by (induction xs) simp_all

lemma get_or_set: "get_or (dict_set k v d) k' x = (if k' = k then v else get_or d k' x)"
  by (simp add: get_or_def)

lemma get_or_in: "get_or d k x = x \<or> get_or d k x \<in> set (dict_values d)"
  by (auto simp: get_or_def dest: get_in_values split: option.splits)

section \<open>Buckets\<close>

definition reserved_sum :: "string \<Rightarrow> (string, capital_reservation) dict \<Rightarrow> decimal" where
  "reserved_sum a res = sum_list (map (\<lambda>r. if cr_asset r = a then cr_remaining r else 0) (dict_values res))"

definition owned_sum :: "string \<Rightarrow> (string, (string, decimal) dict) dict \<Rightarrow> decimal" where
  "owned_sum a owned = sum_list (map (\<lambda>bucket. get_or bucket a 0) (dict_values owned))"

text \<open>What the ledger holds of an asset, as an exact sum over its three kinds of bucket.\<close>

definition units :: "string \<Rightarrow> slot_ledger \<Rightarrow> decimal" where
  "units a L = get_or (sl_free L) a 0 + reserved_sum a (sl_reservations L) + owned_sum a (sl_owned L)"

abbreviation held :: "string \<Rightarrow> capital_reservation \<Rightarrow> decimal" where
  "held a r \<equiv> (if cr_asset r = a then cr_remaining r else 0)"

lemma reserved_sum_set:
  "dict_get res rid = Some r0 \<Longrightarrow> reserved_sum a (dict_set rid r res) = reserved_sum a res - held a r0 + held a r"
  unfolding reserved_sum_def by (rule sum_list_set)

lemma reserved_sum_new:
  "dict_get res rid = None \<Longrightarrow> reserved_sum a (dict_set rid r res) = reserved_sum a res + held a r"
  unfolding reserved_sum_def by (rule sum_list_new)

lemma reserved_sum_del:
  "dict_get res rid = Some r0 \<Longrightarrow> distinct (keys res) \<Longrightarrow>
     reserved_sum a (dict_del rid res) = reserved_sum a res - held a r0"
  unfolding reserved_sum_def by (rule sum_list_del)

lemma owned_sum_set:
  "dict_get owned sid = Some b0 \<Longrightarrow>
     owned_sum a (dict_set sid b owned) = owned_sum a owned - get_or b0 a 0 + get_or b a 0"
  unfolding owned_sum_def by (rule sum_list_set)

lemma owned_sum_new:
  "dict_get owned sid = None \<Longrightarrow> owned_sum a (dict_set sid b owned) = owned_sum a owned + get_or b a 0"
  unfolding owned_sum_def by (rule sum_list_new)

definition amounts_ok :: "nat \<Rightarrow> slot_ledger \<Rightarrow> bool" where
  "amounts_ok k L \<longleftrightarrow>
     (\<forall>v \<in> set (dict_values (sl_free L)). on_flow_grid k v) \<and>
     (\<forall>r \<in> set (dict_values (sl_reservations L)). on_flow_grid k (cr_remaining r)) \<and>
     (\<forall>bucket \<in> set (dict_values (sl_owned L)). \<forall>v \<in> set (dict_values bucket). on_flow_grid k v)"

definition bucket_assets :: "slot_ledger \<Rightarrow> string set" where
  "bucket_assets L = set (keys (sl_free L)) \<union> (\<Union>bucket \<in> set (dict_values (sl_owned L)). set (keys bucket))"

definition balanced :: "nat \<Rightarrow> slot_ledger \<Rightarrow> bool" where
  "balanced k L \<longleftrightarrow> amounts_ok k L \<and>
     (\<forall>a. units a L < pow10 (28 - int k)) \<and>
     (\<forall>a. dict_get (sl_totals L) a = (if a \<in> bucket_assets L then Some (units a L) else None)) \<and>
     (\<forall>r \<in> set (dict_values (sl_reservations L)). cr_asset r \<in> bucket_assets L)"

lemma get_or_flow_grid: "\<forall>v \<in> set (dict_values d). on_flow_grid k v \<Longrightarrow> on_flow_grid k (get_or d a 0)"
  using get_or_in [of d a 0] flow_grid_0 by metis

lemma amounts_free: "amounts_ok k L \<Longrightarrow> on_flow_grid k (get_or (sl_free L) a 0)"
  unfolding amounts_ok_def by (rule get_or_flow_grid) (elim conjE)

lemma amounts_reserved:
  "amounts_ok k L \<Longrightarrow> r \<in> set (dict_values (sl_reservations L)) \<Longrightarrow> on_flow_grid k (cr_remaining r)"
  unfolding amounts_ok_def by blast

lemma amounts_owned:
  "amounts_ok k L \<Longrightarrow> bucket \<in> set (dict_values (sl_owned L)) \<Longrightarrow> on_flow_grid k (get_or bucket a 0)"
  unfolding amounts_ok_def by (rule get_or_flow_grid) blast

lemma amounts_held:
  "amounts_ok k L \<Longrightarrow> r \<in> set (dict_values (sl_reservations L)) \<Longrightarrow> on_flow_grid k (held a r)"
  using amounts_reserved by simp

lemma sum_map_nonneg:
  fixes f :: "'a \<Rightarrow> decimal"
  shows "(\<And>y. y \<in> set xs \<Longrightarrow> 0 \<le> f y) \<Longrightarrow> 0 \<le> sum_list (map f xs)"
  by (induction xs) (simp_all add: add_nonneg_nonneg)

lemma units_bounds:
  assumes am: "amounts_ok k L"
  shows "0 \<le> get_or (sl_free L) a 0" "0 \<le> reserved_sum a (sl_reservations L)" "0 \<le> owned_sum a (sl_owned L)"
proof -
  show "0 \<le> get_or (sl_free L) a 0" by (rule flow_grid_nonneg [OF amounts_free [OF am]])
  show "0 \<le> reserved_sum a (sl_reservations L)"
    unfolding reserved_sum_def by (rule sum_map_nonneg [OF flow_grid_nonneg [OF amounts_held [OF am]]])
  show "0 \<le> owned_sum a (sl_owned L)"
    unfolding owned_sum_def by (rule sum_map_nonneg [OF flow_grid_nonneg [OF amounts_owned [OF am]]])
qed

lemma member_le_sum:
  fixes f :: "'a \<Rightarrow> decimal"
  assumes "x \<in> set xs" "\<And>y. y \<in> set xs \<Longrightarrow> 0 \<le> f y"
  shows "f x \<le> sum_list (map f xs)"
  using assms by (intro member_le_sum_list) auto

lemma reserved_le_sum:
  assumes am: "amounts_ok k L" and r: "dict_get (sl_reservations L) rid = Some r"
  shows "held a r \<le> reserved_sum a (sl_reservations L)"
  unfolding reserved_sum_def
  by (rule member_le_sum [OF get_in_values [OF r] flow_grid_nonneg [OF amounts_held [OF am]]])

lemma owned_le_sum:
  assumes am: "amounts_ok k L" and b: "dict_get (sl_owned L) sid = Some bucket"
  shows "get_or bucket a 0 \<le> owned_sum a (sl_owned L)"
  unfolding owned_sum_def
  by (rule member_le_sum [OF get_in_values [OF b] flow_grid_nonneg [OF amounts_owned [OF am]]])

text \<open>Where the amounts are exact, the total Python computes is the exact one.\<close>

lemma asset_total_exact:
  assumes "amounts_ok k L" and bound: "units a L < pow10 (28 - int k)"
  shows "asset_total a L = units a L" and "on_flow_grid k (units a L)"
proof -
  note b = units_bounds [OF assms(1), of a]
  let ?rs = "map cr_remaining (filter (\<lambda>r. cr_asset r = a) (dict_values (sl_reservations L)))"
  let ?os = "map (\<lambda>bucket. get_or bucket a 0) (dict_values (sl_owned L))"
  have r: "dsum ?rs = reserved_sum a (sl_reservations L) \<and> on_flow_grid k (reserved_sum a (sl_reservations L))"
    unfolding reserved_sum_def sum_list_filter_if [symmetric]
  proof (rule dsum_exact)
    show "\<forall>x \<in> set ?rs. on_flow_grid k x" using amounts_reserved [OF assms(1)] by auto
    show "sum_list ?rs < pow10 (28 - int k)"
      unfolding sum_list_filter_if using bound b by (simp add: reserved_sum_def units_def)
  qed
  have o: "dsum ?os = owned_sum a (sl_owned L) \<and> on_flow_grid k (owned_sum a (sl_owned L))"
    unfolding owned_sum_def
  proof (rule dsum_exact)
    show "\<forall>x \<in> set ?os. on_flow_grid k x" using amounts_owned [OF assms(1)] by auto
    show "sum_list ?os < pow10 (28 - int k)" using bound b by (simp add: owned_sum_def units_def)
  qed
  have f: "on_flow_grid k (get_or (sl_free L) a 0)"
    using assms(1) by (intro get_or_flow_grid) (simp add: amounts_ok_def)
  have fr: "dadd (get_or (sl_free L) a 0) (dsum ?rs) = get_or (sl_free L) a 0 + reserved_sum a (sl_reservations L)"
    "on_flow_grid k (get_or (sl_free L) a 0 + reserved_sum a (sl_reservations L))"
    using flow_grid_add [OF f conjunct2 [OF r]] r bound b by (simp_all add: units_def)
  show "asset_total a L = units a L" unfolding asset_total_def fr(1)
    using flow_grid_add [OF fr(2) conjunct2 [OF o]] o bound by (simp add: units_def)
  show "on_flow_grid k (units a L)"
    using flow_grid_add [OF fr(2) conjunct2 [OF o]] bound by (simp add: units_def)
qed

section \<open>Links\<close>

definition holds :: "string \<Rightarrow> capital_reservation \<Rightarrow> economic_slot \<Rightarrow> bool" where
  "holds rid r s \<longleftrightarrow>
     es_reservation s = Some rid \<and> cr_id r = rid \<and> cr_slot_id r = es_slot_id s \<and>
     es_reserved_value s = cr_remaining r \<and> es_remaining s = cr_remaining r \<and>
     (cr_remaining r = 0 \<longrightarrow> cr_cancel_requested r \<noteq> None) \<and>
     (cr_cancel_requested r \<noteq> None \<longleftrightarrow> es_state s = CANCEL_PENDING) \<and>
     es_state s \<in> {RESERVED, LIVE, PARTIAL, CANCEL_PENDING} \<and>
     (es_state s = RESERVED \<longrightarrow> es_activated_at s = None) \<and>
     (es_state s \<in> {LIVE, PARTIAL} \<longrightarrow> es_activated_at s \<noteq> None)"

definition linked :: "(string, economic_slot) dict \<Rightarrow> (string, capital_reservation) dict \<Rightarrow> bool" where
  "linked slots res \<longleftrightarrow> distinct (keys res) \<and>
     (\<forall>sid s. dict_get slots sid = Some s \<longrightarrow> es_slot_id s = sid \<and>
        (case es_reservation s of
           None \<Rightarrow> es_state s \<in> {FREE, FILLED, CLOSED}
         | Some rid \<Rightarrow> \<exists>r. dict_get res rid = Some r \<and> holds rid r s)) \<and>
     (\<forall>rid r. dict_get res rid = Some r \<longrightarrow>
        (\<exists>s. dict_get slots (cr_slot_id r) = Some s \<and> es_reservation s = Some rid))"

lemma linked_at:
  "linked slots res \<Longrightarrow> dict_get slots sid = Some s \<Longrightarrow> es_slot_id s = sid \<and>
     (case es_reservation s of
        None \<Rightarrow> es_state s \<in> {FREE, FILLED, CLOSED}
      | Some rid \<Rightarrow> \<exists>r. dict_get res rid = Some r \<and> holds rid r s)"
  unfolding linked_def by blast

lemma linked_slot: "linked slots res \<Longrightarrow> dict_get slots sid = Some s \<Longrightarrow> es_slot_id s = sid"
  using linked_at by blast

lemma linked_none:
  "linked slots res \<Longrightarrow> dict_get slots sid = Some s \<Longrightarrow> es_reservation s = None \<Longrightarrow>
     es_state s \<in> {FREE, FILLED, CLOSED}"
  using linked_at [of slots res sid s] by simp

lemma linked_reservation:
  assumes "linked slots res" "dict_get slots sid = Some s" "es_reservation s = Some rid"
  obtains r where "dict_get res rid = Some r" "holds rid r s"
  using linked_at [OF assms(1,2)] assms(3) by auto

lemma linked_back:
  assumes "linked slots res" "dict_get res rid = Some r"
  obtains s where "dict_get slots (cr_slot_id r) = Some s" "es_reservation s = Some rid" "holds rid r s"
proof -
  obtain s where s: "dict_get slots (cr_slot_id r) = Some s" "es_reservation s = Some rid"
    using assms unfolding linked_def by blast
  obtain q where "dict_get res rid = Some q" "holds rid q s" by (rule linked_reservation [OF assms(1) s])
  then show thesis using s assms(2) that by simp
qed

lemma linkedI:
  assumes "distinct (keys res)"
    and "\<And>sid s. dict_get slots sid = Some s \<Longrightarrow> es_slot_id s = sid"
    and "\<And>sid s. dict_get slots sid = Some s \<Longrightarrow> es_reservation s = None \<Longrightarrow> es_state s \<in> {FREE, FILLED, CLOSED}"
    and "\<And>sid s rid. dict_get slots sid = Some s \<Longrightarrow> es_reservation s = Some rid \<Longrightarrow>
           \<exists>r. dict_get res rid = Some r \<and> holds rid r s"
    and "\<And>rid r. dict_get res rid = Some r \<Longrightarrow>
           \<exists>s. dict_get slots (cr_slot_id r) = Some s \<and> es_reservation s = Some rid"
  shows "linked slots res"
  unfolding linked_def
proof (intro conjI allI impI)
  fix sid s assume s: "dict_get slots sid = Some s"
  show "case es_reservation s of None \<Rightarrow> es_state s \<in> {FREE, FILLED, CLOSED}
    | Some rid \<Rightarrow> \<exists>r. dict_get res rid = Some r \<and> holds rid r s"
    using assms(3,4) [OF s] by (cases "es_reservation s") simp_all
qed (use assms in blast)+

text \<open>The slot and the reservation it holds, or newly holds, change together.\<close>

lemma linked_hold:
  assumes lk: "linked slots res" and s0: "dict_get slots sid = Some s0"
    and before: "es_reservation s0 = None \<and> dict_get res rid = None \<or> es_reservation s0 = Some rid"
    and s: "es_slot_id s = sid" "holds rid r s"
  shows "linked (dict_set sid s slots) (dict_set rid r res)"
proof (rule linkedI)
  have own: "es_reservation s = Some rid" "cr_slot_id r = sid" using s by (simp_all add: holds_def)
  show "distinct (keys (dict_set rid r res))" using lk by (simp add: linked_def)
  show "es_slot_id t = i" if "dict_get (dict_set sid s slots) i = Some t" for i t
    using that s linked_slot [OF lk] by (auto split: if_splits)
  show "es_state t \<in> {FREE, FILLED, CLOSED}"
    if "dict_get (dict_set sid s slots) i = Some t" "es_reservation t = None" for i t
    using that own linked_none [OF lk] by (auto split: if_splits)
  show "\<exists>q. dict_get (dict_set rid r res) j = Some q \<and> holds j q t"
    if t: "dict_get (dict_set sid s slots) i = Some t" "es_reservation t = Some j" for i t j
  proof (cases "i = sid")
    case True
    then show ?thesis using t own s by auto
  next
    case False
    then have old: "dict_get slots i = Some t" using t by simp
    obtain q where q: "dict_get res j = Some q" "holds j q t" by (rule linked_reservation [OF lk old t(2)])
    have "j \<noteq> rid"
    proof
      assume "j = rid"
      then obtain s' where "dict_get slots (cr_slot_id q) = Some s'" "es_reservation s' = Some rid"
        "es_reservation s0 = Some rid" using linked_back [OF lk q(1)] before q(1) by auto
      moreover have "cr_slot_id q = i" using q(2) linked_slot [OF lk old] by (simp add: holds_def)
      moreover obtain q' where "dict_get res rid = Some q'" "holds rid q' s0"
        using linked_reservation [OF lk s0 calculation(3)] .
      ultimately show False using False linked_slot [OF lk s0] q(1) \<open>j = rid\<close> by (simp add: holds_def)
    qed
    then show ?thesis using q by simp
  qed
  show "\<exists>t. dict_get (dict_set sid s slots) (cr_slot_id q) = Some t \<and> es_reservation t = Some j"
    if q: "dict_get (dict_set rid r res) j = Some q" for j q
  proof (cases "j = rid")
    case True
    then show ?thesis using q own by simp
  next
    case False
    then have old: "dict_get res j = Some q" using q by simp
    obtain t where t: "dict_get slots (cr_slot_id q) = Some t" "es_reservation t = Some j" "holds j q t"
      by (rule linked_back [OF lk old])
    have "cr_slot_id q \<noteq> sid" using t s0 before False by auto
    then show ?thesis using t by auto
  qed
qed

text \<open>A slot gives up its reservation, which goes.\<close>

lemma linked_drop:
  assumes lk: "linked slots res" and s0: "dict_get slots sid = Some s0" "es_reservation s0 = Some rid"
    and s: "es_slot_id s = sid" "es_reservation s = None" "es_state s \<in> {FREE, FILLED, CLOSED}"
  shows "linked (dict_set sid s slots) (dict_del rid res)"
proof (rule linkedI)
  obtain r where r: "dict_get res rid = Some r" "holds rid r s0" by (rule linked_reservation [OF lk s0])
  then have sid: "cr_slot_id r = sid" using linked_slot [OF lk s0(1)] by (simp add: holds_def)
  show "distinct (keys (dict_del rid res))" using lk by (simp add: linked_def)
  show "es_slot_id t = i" if "dict_get (dict_set sid s slots) i = Some t" for i t
    using that s linked_slot [OF lk] by (auto split: if_splits)
  show "es_state t \<in> {FREE, FILLED, CLOSED}"
    if "dict_get (dict_set sid s slots) i = Some t" "es_reservation t = None" for i t
    using that s linked_none [OF lk] by (auto split: if_splits)
  show "\<exists>q. dict_get (dict_del rid res) j = Some q \<and> holds j q t"
    if t: "dict_get (dict_set sid s slots) i = Some t" "es_reservation t = Some j" for i t j
  proof -
    have i: "i \<noteq> sid" and old: "dict_get slots i = Some t" using t s by (auto split: if_splits)
    obtain q where q: "dict_get res j = Some q" "holds j q t" by (rule linked_reservation [OF lk old t(2)])
    have "cr_slot_id q = i" using q(2) linked_slot [OF lk old] by (simp add: holds_def)
    then have "j \<noteq> rid" using i sid r(1) q(1) by auto
    then show ?thesis using q by simp
  qed
  show "\<exists>t. dict_get (dict_set sid s slots) (cr_slot_id q) = Some t \<and> es_reservation t = Some j"
    if q: "dict_get (dict_del rid res) j = Some q" for j q
  proof -
    have j: "j \<noteq> rid" and old: "dict_get res j = Some q" using q by (auto split: if_splits)
    obtain t where t: "dict_get slots (cr_slot_id q) = Some t" "es_reservation t = Some j" "holds j q t"
      by (rule linked_back [OF lk old])
    have "cr_slot_id q \<noteq> sid" using t s0 j by auto
    then show ?thesis using t by auto
  qed
qed

text \<open>A slot without reservation, or a new one.\<close>

lemma linked_idle:
  assumes lk: "linked slots res" and s0: "case dict_get slots sid of None \<Rightarrow> True | Some s0 \<Rightarrow> es_reservation s0 = None"
    and s: "es_slot_id s = sid" "es_reservation s = None" "es_state s \<in> {FREE, FILLED, CLOSED}"
  shows "linked (dict_set sid s slots) res"
proof (rule linkedI)
  show "distinct (keys res)" using lk by (simp add: linked_def)
  show "es_slot_id t = i" if "dict_get (dict_set sid s slots) i = Some t" for i t
    using that s linked_slot [OF lk] by (auto split: if_splits)
  show "es_state t \<in> {FREE, FILLED, CLOSED}"
    if "dict_get (dict_set sid s slots) i = Some t" "es_reservation t = None" for i t
    using that s linked_none [OF lk] by (auto split: if_splits)
  show "\<exists>q. dict_get res j = Some q \<and> holds j q t"
    if t: "dict_get (dict_set sid s slots) i = Some t" "es_reservation t = Some j" for i t j
    using t s linked_reservation [OF lk, of i t j] by (auto split: if_splits)
  show "\<exists>t. dict_get (dict_set sid s slots) (cr_slot_id q) = Some t \<and> es_reservation t = Some j"
    if q: "dict_get res j = Some q" for j q
  proof -
    obtain t where "dict_get slots (cr_slot_id q) = Some t" "es_reservation t = Some j" "holds j q t"
      by (rule linked_back [OF lk q])
    then show ?thesis using s0 by auto
  qed
qed

lemma linked_distinct_slots: "linked slots res \<Longrightarrow> distinct (map cr_slot_id (dict_values res))"
proof -
  assume lk: "linked slots res"
  then have d: "distinct (keys res)" by (simp add: linked_def)
  have inj: "i = j" if ij: "(i, r) \<in> set res" "(j, q) \<in> set res" "cr_slot_id r = cr_slot_id q" for i j r q
  proof -
    have "dict_get res i = Some r" "dict_get res j = Some q" using ij d by (auto intro: map_of_is_SomeI)
    then show ?thesis using linked_back [OF lk, of i r] linked_back [OF lk, of j q] ij(3) by (metis option.inject)
  qed
  have "inj_on (\<lambda>p. cr_slot_id (snd p)) (set res)"
  proof (rule inj_onI)
    fix p q assume pq: "p \<in> set res" "q \<in> set res" "cr_slot_id (snd p) = cr_slot_id (snd q)"
    then have "fst p = fst q" using inj [of "fst p" "snd p" "fst q" "snd q"] by simp
    then show "p = q" using d pq(1,2) by (metis distinct_map inj_onD)
  qed
  then have "distinct (map (\<lambda>p. cr_slot_id (snd p)) res)"
    using d by (simp add: distinct_map)
  then show ?thesis by (simp add: comp_def)
qed

lemma owner_error_None:
  "(\<And>rid r. (rid, r) \<in> set rows \<Longrightarrow> \<exists>s. dict_get slots (cr_slot_id r) = Some s \<and> es_reservation s = Some rid) \<Longrightarrow>
     owner_error slots rows = None"
proof (induction rows)
  case (Cons row rows)
  obtain s where "dict_get slots (cr_slot_id (snd row)) = Some s" "es_reservation s = Some (fst row)"
    using Cons.prems [of "fst row" "snd row"] by auto
  moreover have "owner_error slots rows = None" using Cons.prems by (intro Cons.IH) simp
  ultimately show ?case by simp
qed simp

section \<open>The invariant\<close>

definition slot_inv :: "nat \<Rightarrow> slot_ledger \<Rightarrow> bool" where
  "slot_inv k L \<longleftrightarrow>
     linked (sl_slots L) (sl_reservations L) \<and> balanced k L \<and>
     set (keys (sl_owned L)) = set (keys (sl_slots L)) \<and>
     set (keys (sl_realized L)) = set (keys (sl_free L)) \<and>
     (\<forall>s \<in> set (dict_values (sl_slots L)). has_key (sl_free L) (es_origin_asset s) \<and>
        (\<forall>t. es_lock_started s = Some t \<longrightarrow> t \<le> sl_last_event L)) \<and>
     set (keys (sl_attribution L)) = sl_fill_ids L \<and>
     (\<forall>r \<in> set (dict_values (sl_reservations L)).
        cr_source r = ''OWNED'' \<or> cr_source r = ''FREE'' \<and> has_key (sl_free L) (cr_asset r))"

lemma reconcile_succeeds:
  assumes "slot_inv k L"
  shows "slot_reconcile_error L = None"
proof -
  have bal: "balanced k L" and lk: "linked (sl_slots L) (sl_reservations L)"
    using assms by (simp_all add: slot_inv_def)
  have am: "amounts_ok k L" using bal by (simp add: balanced_def)
  have total: "asset_total a L = units a L" for a
    using asset_total_exact(1) [OF am] bal by (simp add: balanced_def)
  have assets: "set (ledger_assets L) = bucket_assets L"
  proof -
    have "set (ledger_assets L) =
        bucket_assets L \<union> cr_asset ` set (dict_values (sl_reservations L))"
      by (simp add: ledger_assets_def bucket_assets_def) blast
    then show ?thesis using bal unfolding balanced_def by blast
  qed
  have tot: "dict_get (asset_totals L) a = (if a \<in> bucket_assets L then Some (units a L) else None)" for a
    unfolding asset_totals_def total assets [symmetric]
    by (simp add: map_of_map_restrict [of "\<lambda>a. units a L", unfolded comp_def])
  have keys: "set (keys (asset_totals L)) = bucket_assets L"
    by (simp add: asset_totals_def comp_def assets)
  have "set (keys (sl_totals L)) = bucket_assets L"
    using bal by (auto simp: balanced_def dom_map_of_conv_image_fst [symmetric] split: if_splits)
  then have eq: "dict_eq (asset_totals L) (sl_totals L)"
    unfolding dict_eq_def keys using bal tot by (simp add: balanced_def)
  have nonneg: "\<not> (\<exists>q \<in> set (dict_values (asset_totals L)). q < 0)"
    using units_bounds [OF am] by (auto simp: asset_totals_def total units_def not_less)
  have owner: "owner_error (sl_slots L) (sl_reservations L) = None"
  proof (rule owner_error_None)
    fix rid r assume "(rid, r) \<in> set (sl_reservations L)"
    then have "dict_get (sl_reservations L) rid = Some r"
      using lk by (intro map_of_is_SomeI) (simp_all add: linked_def)
    then show "\<exists>s. dict_get (sl_slots L) (cr_slot_id r) = Some s \<and> es_reservation s = Some rid"
      using lk by (simp add: linked_def)
  qed
  show ?thesis
    unfolding slot_reconcile_error_def Let_def using nonneg eq linked_distinct_slots [OF lk] owner by simp
qed

lemma reconciled_Return: "slot_inv k L \<Longrightarrow> reconciled r L = Return r L"
  by (simp add: reconciled_def reconcile_succeeds)

section \<open>The plain account behind the ledger\<close>

text \<open>
  The specification of the buckets: one account per asset, to which each attributed fill posts
  its input, output and fee, and each cost debit its quantity. \<open>opening_units\<close> is what is left of the
  holdings when these postings are taken back, so that it must never change.
\<close>

definition fill_change :: "string \<Rightarrow> physical_fill \<Rightarrow> decimal" where
  "fill_change a f =
     (if pf_to f = a then pf_gross f else 0) - (if pf_from f = a then pf_input f else 0) -
     (if pf_fee_asset f = a then pf_fee f else 0)"

fun debit_change :: "string \<Rightarrow> audit_row \<Rightarrow> decimal" where
  "debit_change a (AuditCostDebit t sid rid asset quantity kind bucket) = (if asset = a then - quantity else 0)"
| "debit_change a _ = 0"

definition postings :: "string \<Rightarrow> slot_ledger \<Rightarrow> decimal" where
  "postings a L = sum_list (map (\<lambda>row. fill_change a (fa_fill row)) (dict_values (sl_attribution L))) +
     sum_list (map (debit_change a) (sl_audit L))"

definition opening_units :: "string \<Rightarrow> slot_ledger \<Rightarrow> decimal" where
  "opening_units a L = units a L - postings a L"

section \<open>Reading the invariant\<close>

lemma sum_list_0':
  fixes f :: "'a \<Rightarrow> decimal"
  shows "(\<And>x. x \<in> set xs \<Longrightarrow> f x = 0) \<Longrightarrow> sum_list (map f xs) = 0"
  by (induction xs) simp_all

lemma slot_invD:
  assumes "slot_inv k L"
  shows "linked (sl_slots L) (sl_reservations L)" "amounts_ok k L" "units a L < pow10 (28 - int k)"
    "dict_get (sl_totals L) a = (if a \<in> bucket_assets L then Some (units a L) else None)"
    "set (keys (sl_owned L)) = set (keys (sl_slots L))" "set (keys (sl_realized L)) = set (keys (sl_free L))"
    "set (keys (sl_attribution L)) = sl_fill_ids L"
  using assms by (simp_all add: slot_inv_def balanced_def)

lemma units_flow: "slot_inv k L \<Longrightarrow> on_flow_grid k (units a L)"
  using asset_total_exact(2) slot_invD(2,3) by blast

lemma get_or_absent: "a \<notin> set (keys d) \<Longrightarrow> get_or d a v = v"
  by (simp add: get_or_def iffD2 [OF map_of_eq_None_iff])

lemma totals_get_or:
  assumes "slot_inv k L"
  shows "get_or (sl_totals L) a 0 = units a L"
proof (cases "a \<in> bucket_assets L")
  case True
  then show ?thesis using slot_invD(4) [OF assms, of a] by (simp add: get_or_def)
next
  case False
  have f: "get_or (sl_free L) a 0 = 0" using False by (intro get_or_absent) (simp add: bucket_assets_def)
  have "held a r = 0" if "r \<in> set (dict_values (sl_reservations L))" for r
    using that False assms unfolding slot_inv_def balanced_def by auto
  then have r: "reserved_sum a (sl_reservations L) = 0"
    unfolding reserved_sum_def by (intro sum_list_0') simp
  have "get_or b a 0 = 0" if "b \<in> set (dict_values (sl_owned L))" for b
    using that False by (intro get_or_absent) (auto simp: bucket_assets_def)
  then have o: "owned_sum a (sl_owned L) = 0"
    unfolding owned_sum_def by (intro sum_list_0') simp
  show ?thesis using slot_invD(4) [OF assms, of a] False f r o by (simp add: get_or_def units_def)
qed

lemma slot_inv_slot:
  assumes "slot_inv k L" "dict_get (sl_slots L) sid = Some s"
  shows "es_slot_id s = sid" "has_key (sl_free L) (es_origin_asset s)"
    "es_lock_started s = Some t \<Longrightarrow> t \<le> sl_last_event L" "dict_get (sl_owned L) sid \<noteq> None"
proof -
  note v = get_in_values [OF assms(2)]
  show "es_slot_id s = sid" using assms linked_slot by (auto simp: slot_inv_def)
  show "has_key (sl_free L) (es_origin_asset s)" "es_lock_started s = Some t \<Longrightarrow> t \<le> sl_last_event L"
    using assms(1) v unfolding slot_inv_def by blast+
  have "sid \<in> set (keys (sl_owned L))"
    using assms(1) get_in_keys [OF assms(2)] unfolding slot_inv_def by blast
  then show "dict_get (sl_owned L) sid \<noteq> None" by (simp add: map_of_eq_None_iff)
qed

lemma slot_inv_reservation:
  assumes "slot_inv k L" "dict_get (sl_reservations L) rid = Some r"
  shows "cr_asset r \<in> bucket_assets L" "on_flow_grid k (cr_remaining r)"
    "cr_source r = ''OWNED'' \<or> cr_source r = ''FREE'' \<and> has_key (sl_free L) (cr_asset r)"
    "\<exists>s. dict_get (sl_slots L) (cr_slot_id r) = Some s \<and> holds rid r s"
proof -
  note v = get_in_values [OF assms(2)]
  show "cr_asset r \<in> bucket_assets L"
    "cr_source r = ''OWNED'' \<or> cr_source r = ''FREE'' \<and> has_key (sl_free L) (cr_asset r)"
    using assms(1) v unfolding slot_inv_def balanced_def by blast+
  show "on_flow_grid k (cr_remaining r)" by (rule amounts_reserved [OF slot_invD(2) [OF assms(1)] v])
  show "\<exists>s. dict_get (sl_slots L) (cr_slot_id r) = Some s \<and> holds rid r s"
    using linked_back [OF slot_invD(1) [OF assms(1)] assms(2)] by blast
qed

lemma slot_inv_step:
  assumes inv: "slot_inv k L" and lk: "linked (sl_slots L') (sl_reservations L')" and am: "amounts_ok k L'"
    and un: "\<And>a. units a L' = units a L + d a" "\<And>a. units a L + d a < pow10 (28 - int k)"
    and assets: "bucket_assets L' = bucket_assets L \<union> new"
    and tot: "\<And>a. dict_get (sl_totals L') a = (if a \<in> bucket_assets L \<union> new then Some (units a L + d a) else None)"
    and own: "set (keys (sl_owned L')) = set (keys (sl_slots L'))"
    and free: "set (keys (sl_free L')) = set (keys (sl_free L))" "set (keys (sl_realized L')) = set (keys (sl_realized L))"
    and attr: "set (keys (sl_attribution L')) = sl_fill_ids L'"
    and slots: "\<forall>s \<in> set (dict_values (sl_slots L')). has_key (sl_free L) (es_origin_asset s) \<and>
        (\<forall>t. es_lock_started s = Some t \<longrightarrow> t \<le> sl_last_event L')"
    and res: "\<forall>r \<in> set (dict_values (sl_reservations L')). cr_asset r \<in> bucket_assets L \<and>
        (cr_source r = ''OWNED'' \<or> cr_source r = ''FREE'' \<and> has_key (sl_free L) (cr_asset r))"
  shows "slot_inv k L'"
proof -
  have key: "has_key (sl_free L') a = has_key (sl_free L) a" for a by (simp only: has_key_def free)
  show ?thesis
    unfolding slot_inv_def balanced_def key un(1) tot assets
    using lk am un(2) own slots res attr free slot_invD(6) [OF inv] by blast
qed

section \<open>What an operation does to a consistent ledger\<close>

text \<open>
  A call goes well if it returns with the invariant and the opening balances kept, or raises
  with the ledger unchanged. The last alternative is \<^const>\<open>close_slot\<close>'s own: it
  closes a slot that never held a reservation and raises afterwards.
\<close>

definition goes_well :: "nat \<Rightarrow> slot_ledger \<Rightarrow> ('a, slot_ledger) outcome \<Rightarrow> bool" where
  "goes_well k L out \<longleftrightarrow>
     (case out of
        Return _ L' \<Rightarrow> slot_inv k L' \<and> (\<forall>a. opening_units a L' = opening_units a L) \<and> sl_last_event L \<le> sl_last_event L'
      | Raise e L' \<Rightarrow> L' = L \<or> e = ValueError ''M032_SLOT_CLOSE_WITHOUT_CAPITAL_LOCK'')"

lemma gw_raise [simp]: "goes_well k L (Raise e L)"
  by (simp add: goes_well_def)

lemma gw_if: "(b \<Longrightarrow> goes_well k L x) \<Longrightarrow> (\<not> b \<Longrightarrow> goes_well k L y) \<Longrightarrow> goes_well k L (if b then x else y)"
  by simp

lemma gw_causal:
  "(sl_last_event L \<le> now \<Longrightarrow> goes_well k L (f () L)) \<Longrightarrow> goes_well k L (sl_causal now L f)"
  by (simp add: sl_causal_def)

lemma gw_key:
  "(\<And>v. dict_get d x = Some v \<Longrightarrow> goes_well k L (f v)) \<Longrightarrow> goes_well k L (with_key d x L f)"
  by (simp add: with_key_def split: option.splits)

lemma gw_or_key:
  "(\<And>v. x = Some v \<Longrightarrow> goes_well k L (f v)) \<Longrightarrow> goes_well k L (or_key_error x L f)"
  by (simp add: or_key_error_def split: option.splits)

lemmas gw_rules = gw_causal gw_key gw_or_key gw_if gw_raise

lemma gw_return:
  "slot_inv k L' \<Longrightarrow> (\<And>a. opening_units a L' = opening_units a L) \<Longrightarrow> sl_last_event L \<le> sl_last_event L' \<Longrightarrow>
     goes_well k L (Return r L')"
  by (simp add: goes_well_def)

lemma gw_reconciled:
  "slot_inv k L' \<Longrightarrow> (\<And>a. opening_units a L' = opening_units a L) \<Longrightarrow> sl_last_event L \<le> sl_last_event L' \<Longrightarrow>
     goes_well k L (reconciled r L')"
  by (simp add: reconciled_Return gw_return)

lemma gw_returning [simp]: "goes_well k L (returning f m) = goes_well k L m"
  by (cases m) (simp_all add: returning_def goes_well_def)

section \<open>Fields\<close>

lemma put_fields [simp]:
  "sl_free (put_slot sid s L) = sl_free L" "sl_totals (put_slot sid s L) = sl_totals L"
  "sl_reservations (put_slot sid s L) = sl_reservations L" "sl_owned (put_slot sid s L) = sl_owned L"
  "sl_slots (put_slot sid s L) = dict_set sid s (sl_slots L)" "sl_realized (put_slot sid s L) = sl_realized L"
  "sl_attribution (put_slot sid s L) = sl_attribution L" "sl_fill_ids (put_slot sid s L) = sl_fill_ids L"
  "sl_audit (put_slot sid s L) = sl_audit L" "sl_last_event (put_slot sid s L) = sl_last_event L"
  "sl_free (put_reservation rid r L) = sl_free L" "sl_totals (put_reservation rid r L) = sl_totals L"
  "sl_reservations (put_reservation rid r L) = dict_set rid r (sl_reservations L)"
  "sl_owned (put_reservation rid r L) = sl_owned L" "sl_slots (put_reservation rid r L) = sl_slots L"
  "sl_realized (put_reservation rid r L) = sl_realized L" "sl_attribution (put_reservation rid r L) = sl_attribution L"
  "sl_fill_ids (put_reservation rid r L) = sl_fill_ids L" "sl_audit (put_reservation rid r L) = sl_audit L"
  "sl_last_event (put_reservation rid r L) = sl_last_event L"
  "sl_free (drop_reservation rid L) = sl_free L" "sl_totals (drop_reservation rid L) = sl_totals L"
  "sl_reservations (drop_reservation rid L) = dict_del rid (sl_reservations L)"
  "sl_owned (drop_reservation rid L) = sl_owned L" "sl_slots (drop_reservation rid L) = sl_slots L"
  "sl_realized (drop_reservation rid L) = sl_realized L" "sl_attribution (drop_reservation rid L) = sl_attribution L"
  "sl_fill_ids (drop_reservation rid L) = sl_fill_ids L" "sl_audit (drop_reservation rid L) = sl_audit L"
  "sl_last_event (drop_reservation rid L) = sl_last_event L"
  "sl_free (put_owned sid b L) = sl_free L" "sl_totals (put_owned sid b L) = sl_totals L"
  "sl_reservations (put_owned sid b L) = sl_reservations L" "sl_owned (put_owned sid b L) = dict_set sid b (sl_owned L)"
  "sl_slots (put_owned sid b L) = sl_slots L" "sl_realized (put_owned sid b L) = sl_realized L"
  "sl_attribution (put_owned sid b L) = sl_attribution L" "sl_fill_ids (put_owned sid b L) = sl_fill_ids L"
  "sl_audit (put_owned sid b L) = sl_audit L" "sl_last_event (put_owned sid b L) = sl_last_event L"
  by (simp_all add: put_slot_def put_reservation_def drop_reservation_def put_owned_def)

lemma log_fields [simp]:
  "sl_free (audited row L) = sl_free L" "sl_totals (audited row L) = sl_totals L"
  "sl_reservations (audited row L) = sl_reservations L" "sl_owned (audited row L) = sl_owned L"
  "sl_slots (audited row L) = sl_slots L" "sl_realized (audited row L) = sl_realized L"
  "sl_attribution (audited row L) = sl_attribution L" "sl_fill_ids (audited row L) = sl_fill_ids L"
  "sl_audit (audited row L) = sl_audit L @ [row]" "sl_last_event (audited row L) = sl_last_event L"
  "sl_free (commit_time now L) = sl_free L" "sl_totals (commit_time now L) = sl_totals L"
  "sl_reservations (commit_time now L) = sl_reservations L" "sl_owned (commit_time now L) = sl_owned L"
  "sl_slots (commit_time now L) = sl_slots L" "sl_realized (commit_time now L) = sl_realized L"
  "sl_attribution (commit_time now L) = sl_attribution L" "sl_fill_ids (commit_time now L) = sl_fill_ids L"
  "sl_audit (commit_time now L) = sl_audit L" "sl_last_event (commit_time now L) = now"
  by (simp_all add: audited_def commit_time_def)

section \<open>Moving amounts between buckets\<close>

lemma key_add_Some: "key_add x v d = Some d' \<longleftrightarrow> (\<exists>w. dict_get d x = Some w \<and> d' = dict_set x (dadd w v) d)"
  by (auto simp: key_add_def)

lemma key_sub_Some: "key_sub x v d = Some d' \<longleftrightarrow> (\<exists>w. dict_get d x = Some w \<and> d' = dict_set x (dsub w v) d)"
  by (auto simp: key_sub_def)

lemma owned_keys_set:
  "dict_get owned sid = Some b \<Longrightarrow> set (keys b') = insert x (set (keys b)) \<Longrightarrow>
     (\<Union>c \<in> set (dict_values (dict_set sid b' owned)). set (keys c)) =
     insert x (\<Union>c \<in> set (dict_values owned). set (keys c))"
  unfolding dict_set_def by (induction owned) (auto split: if_splits)

lemma owned_keys_new:
  "dict_get owned sid = None \<Longrightarrow>
     (\<Union>c \<in> set (dict_values (dict_set sid b' owned)). set (keys c)) =
     set (keys b') \<union> (\<Union>c \<in> set (dict_values owned). set (keys c))"
  unfolding dict_set_def by (induction owned) (auto split: if_splits)

lemma amounts_kept [simp]:
  "amounts_ok k (put_slot sid s L) = amounts_ok k L" "amounts_ok k (audited row L) = amounts_ok k L"
  "amounts_ok k (commit_time now L) = amounts_ok k L" "amounts_ok k (L\<lparr>sl_totals := t\<rparr>) = amounts_ok k L"
  "amounts_ok k (L\<lparr>sl_realized := t\<rparr>) = amounts_ok k L"
  by (simp_all add: amounts_ok_def)

lemma free_fields:
  "sl_free (L\<lparr>sl_free := f\<rparr>) = f" "sl_reservations (L\<lparr>sl_free := f\<rparr>) = sl_reservations L"
  "sl_owned (L\<lparr>sl_free := f\<rparr>) = sl_owned L"
  by simp_all

lemma amounts_free_set:
  assumes "amounts_ok k L" "on_flow_grid k v"
  shows "amounts_ok k (L\<lparr>sl_free := dict_set x v (sl_free L)\<rparr>)"
  using assms ball_values_set [of "sl_free L" "on_flow_grid k" v x]
  unfolding amounts_ok_def free_fields by blast

lemma amounts_reservation_set:
  assumes "amounts_ok k L" "on_flow_grid k (cr_remaining r)"
  shows "amounts_ok k (put_reservation rid r L)"
  using assms ball_values_set [of "sl_reservations L" "\<lambda>r. on_flow_grid k (cr_remaining r)" r rid]
  unfolding amounts_ok_def put_fields by blast

lemma amounts_reservation_del: "amounts_ok k L \<Longrightarrow> amounts_ok k (drop_reservation rid L)"
  using ball_values_del [of "sl_reservations L" "\<lambda>r. on_flow_grid k (cr_remaining r)" rid]
  unfolding amounts_ok_def put_fields by blast

lemma amounts_owned_put:
  assumes "amounts_ok k L" "\<forall>v \<in> set (dict_values b). on_flow_grid k v"
  shows "amounts_ok k (put_owned sid b L)"
  using assms ball_values_set [of "sl_owned L" "\<lambda>b. \<forall>v \<in> set (dict_values b). on_flow_grid k v" b sid]
  unfolding amounts_ok_def put_fields by blast

lemma amounts_owned_empty: "amounts_ok k L \<Longrightarrow> amounts_ok k (put_owned sid [] L)"
  by (rule amounts_owned_put) simp_all

lemma amounts_owned_set:
  assumes "amounts_ok k L" "dict_get (sl_owned L) sid = Some b" "on_flow_grid k v"
  shows "amounts_ok k (put_owned sid (dict_set x v b) L)"
proof (rule amounts_owned_put [OF assms(1)], rule ball_values_set)
  show "\<forall>w \<in> set (dict_values b). on_flow_grid k w"
    using assms(1) get_in_values [OF assms(2)] unfolding amounts_ok_def by blast
qed (rule assms(3))

end
