(* ===== verification/Multi_Stable_Ledger_Ops.thy ===== *)
theory Multi_Stable_Ledger_Ops
  imports Multi_Stable_Ledger_Inv
begin

text \<open>
  Every method of the slot ledger, called on a consistent ledger with amounts on the decimal
  grid, goes well: it keeps the invariant and the opening balances or leaves the ledger alone.
\<close>

section \<open>The amounts of a call\<close>

fun fits :: "nat \<Rightarrow> slot_op \<Rightarrow> slot_ledger \<Rightarrow> bool" where
  "fits k (ReserveFree sid rid asset quantity now) L \<longleftrightarrow> on_grid k quantity"
| "fits k (ReserveOwned sid rid asset quantity now) L \<longleftrightarrow> on_grid k quantity"
| "fits k (ApplyFill rid f) L \<longleftrightarrow>
     on_grid k (pf_input f) \<and> on_grid k (pf_gross f) \<and> on_grid k (pf_fee f) \<and> pf_from f \<noteq> pf_to f \<and>
     units (pf_to f) L + pf_gross f < pow10 (28 - int k)"
| "fits k (DebitReservedCost rid quantity kind now) L \<longleftrightarrow> on_grid k quantity"
| "fits k (DebitOwnedCost sid asset quantity kind now) L \<longleftrightarrow> on_grid k quantity"
| "fits k _ L \<longleftrightarrow> True"

section \<open>Slots and reservations\<close>

lemma idle_reservation_free:
  assumes "linked slots res" "dict_get slots sid = Some s" "es_reservation s = None" "dict_get res rid = Some r"
  shows "cr_slot_id r \<noteq> sid"
  using linked_back [OF assms(1,4)] assms(2,3) by fastforce

lemma unchanged_keys: "dict_get d x = Some w \<Longrightarrow> set (keys (dict_set x v d)) = set (keys d)"
  using get_in_keys [of d x w] by (simp add: insert_absorb)

lemma slots_ok_set:
  assumes "slot_inv k L" and "sl_last_event L \<le> now"
    and "has_key (sl_free L) (es_origin_asset s)" "\<forall>t. es_lock_started s = Some t \<longrightarrow> t \<le> now"
  shows "\<forall>s' \<in> set (dict_values (dict_set sid s (sl_slots L))). has_key (sl_free L) (es_origin_asset s') \<and>
       (\<forall>t. es_lock_started s' = Some t \<longrightarrow> t \<le> now)"
proof (rule ball_values_set)
  show "\<forall>s' \<in> set (dict_values (sl_slots L)). has_key (sl_free L) (es_origin_asset s') \<and>
       (\<forall>t. es_lock_started s' = Some t \<longrightarrow> t \<le> now)"
    using assms(1,2) unfolding slot_inv_def by (meson order_trans)
qed (use assms(3,4) in blast)

lemma lock_kept:
  assumes "slot_inv k L" "dict_get (sl_slots L) sid = Some s0" "es_lock_started s = es_lock_started s0"
    "sl_last_event L \<le> now"
  shows "\<forall>t. es_lock_started s = Some t \<longrightarrow> t \<le> now"
proof (intro allI impI)
  fix t assume "es_lock_started s = Some t"
  then have "t \<le> sl_last_event L" using slot_inv_slot(3) [OF assms(1,2)] assms(3) by simp
  then show "t \<le> now" using assms(4) by simp
qed

lemma res_ok:
  assumes "slot_inv k L"
  shows "\<forall>r \<in> set (dict_values (sl_reservations L)). cr_asset r \<in> bucket_assets L \<and>
        (cr_source r = ''OWNED'' \<or> cr_source r = ''FREE'' \<and> has_key (sl_free L) (cr_asset r))"
  using assms unfolding slot_inv_def balanced_def by blast

lemma bucket_assets_put:
  "dict_get (sl_owned L) sid = Some b \<Longrightarrow> set (keys b') = insert x (set (keys b)) \<Longrightarrow>
     bucket_assets (put_owned sid b' L) = insert x (bucket_assets L)"
  unfolding bucket_assets_def put_fields by (simp only: owned_keys_set Un_insert_right)

lemma create_slot_well:
  assumes inv: "slot_inv k L"
  shows "goes_well k L (create_slot sid origin usd now epoch L)"
  unfolding create_slot_def Let_def
proof (intro gw_rules gw_return)
  assume t: "sl_last_event L \<le> now" and fresh: "\<not> has_key (sl_slots L) sid"
    and origin: "\<not> (\<not> has_key (sl_free L) origin \<or> usd \<le> 0)"
  let ?s = "new_slot sid epoch origin usd now"
  let ?L = "commit_time now (put_owned sid [] (put_slot sid ?s L))"
  have s: "es_slot_id ?s = sid" "es_reservation ?s = None" "es_state ?s = FREE" "es_origin_asset ?s = origin"
    "es_lock_started ?s = None" by (simp_all add: new_slot_def)
  have no: "dict_get (sl_slots L) sid = None" using fresh by (simp add: has_key_iff)
  then have none: "dict_get (sl_owned L) sid = None"
    using slot_invD(5) [OF inv] unfolding map_of_eq_None_iff by auto
  have units: "units a ?L = units a L" for a
    by (simp add: units_def owned_sum_new [OF none]) (simp add: get_or_def)
  have assets: "bucket_assets ?L = bucket_assets L"
    by (simp add: bucket_assets_def owned_keys_new [OF none] del: map_map set_map)
  show "slot_inv k ?L"
  proof (rule slot_inv_step [OF inv, where d = "\<lambda>_. 0" and new = "{}"])
    show "linked (sl_slots ?L) (sl_reservations ?L)"
      using linked_idle [OF slot_invD(1) [OF inv], of sid ?s] s no by simp
    show "amounts_ok k ?L" by (simp add: amounts_owned_empty slot_invD(2) [OF inv])
    show "\<forall>s \<in> set (dict_values (sl_slots ?L)). has_key (sl_free L) (es_origin_asset s) \<and>
        (\<forall>t. es_lock_started s = Some t \<longrightarrow> t \<le> sl_last_event ?L)"
      unfolding put_fields log_fields by (rule slots_ok_set [OF inv t]) (use s origin in simp_all)
  qed (use inv slot_invD [OF inv] res_ok [OF inv] units assets in simp_all)
  show "opening_units a ?L = opening_units a L" for a by (simp add: opening_units_def postings_def units)
  show "sl_last_event L \<le> sl_last_event ?L" using t by simp
qed

text \<open>A reservation made from a bucket that was reduced by the same quantity.\<close>

lemma create_reservation_well:
  assumes inv: "slot_inv k L" and t: "sl_last_event L \<le> now"
    and s: "dict_get (sl_slots L) sid = Some s" "es_reservation s = None"
    and fresh: "dict_get (sl_reservations L) rid = None"
    and q: "0 < quantity" "on_flow_grid k quantity"
    and asset: "asset \<in> bucket_assets L"
    and source: "source = ''OWNED'' \<or> source = ''FREE'' \<and> has_key (sl_free L) asset"
    and M: "amounts_ok k M" "\<And>a. units a M = units a L - (if a = asset then quantity else 0)"
      "bucket_assets M = bucket_assets L" "set (keys (sl_owned M)) = set (keys (sl_owned L))"
      "set (keys (sl_free M)) = set (keys (sl_free L))"
      "sl_slots M = sl_slots L" "sl_reservations M = sl_reservations L" "sl_totals M = sl_totals L"
      "sl_realized M = sl_realized L" "sl_attribution M = sl_attribution L" "sl_fill_ids M = sl_fill_ids L"
      "sl_audit M = sl_audit L"
  shows "goes_well k L (create_reservation s rid asset quantity now source M)"
  unfolding create_reservation_def Let_def
proof (rule gw_reconciled)
  let ?r = "\<lparr>cr_id = rid, cr_slot_id = es_slot_id s, cr_asset = asset, cr_quantity = quantity,
               cr_remaining = quantity, cr_created_at = now, cr_source = source,
               cr_cancel_requested = None, cr_cancel_ack = None\<rparr>"
  let ?s = "s\<lparr>es_reservation := Some rid, es_current_asset := asset, es_reserved_value := quantity,
                 es_remaining := quantity, es_filled := 0, es_activated_at := None,
                 es_state := RESERVED,
                 es_lock_started := (case es_lock_started s of None \<Rightarrow> Some now | Some t \<Rightarrow> Some t)\<rparr>"
  let ?L = "commit_time now (audited (AuditReserve now (es_slot_id s) rid asset quantity)
           (put_slot (es_slot_id s) ?s (put_reservation rid ?r M)))"
  note lk = slot_invD(1) [OF inv]
  have sid: "es_slot_id s = sid" by (rule linked_slot [OF lk s(1)])
  have units: "units a ?L = units a L" for a
    using M(2) [of a] by (cases "a = asset") (simp_all add: units_def M(7) reserved_sum_new [OF fresh])
  have assets: "bucket_assets ?L = bucket_assets L" using M(3) by (simp add: bucket_assets_def)
  show "slot_inv k ?L"
  proof (rule slot_inv_step [OF inv, where d = "\<lambda>_. 0" and new = "{}"])
    have "holds rid ?r ?s" using q(1) by (simp add: holds_def)
    then show "linked (sl_slots ?L) (sl_reservations ?L)"
      using linked_hold [OF lk s(1), of rid ?s ?r] s(2) fresh by (simp add: sid M(6,7))
    show "amounts_ok k ?L" using amounts_reservation_set [OF M(1), of ?r rid] q by simp
    have lock: "\<forall>t. es_lock_started ?s = Some t \<longrightarrow> t \<le> now"
      using slot_inv_slot(3) [OF inv s(1)] t by (fastforce split: option.splits)
    show "\<forall>s \<in> set (dict_values (sl_slots ?L)). has_key (sl_free L) (es_origin_asset s) \<and>
        (\<forall>t. es_lock_started s = Some t \<longrightarrow> t \<le> sl_last_event ?L)"
      unfolding put_fields log_fields M(6) sid
      by (rule slots_ok_set [OF inv t _ lock]) (use slot_inv_slot(2) [OF inv s(1)] in simp)
    show "\<forall>r \<in> set (dict_values (sl_reservations ?L)). cr_asset r \<in> bucket_assets L \<and>
        (cr_source r = ''OWNED'' \<or> cr_source r = ''FREE'' \<and> has_key (sl_free L) (cr_asset r))"
      unfolding put_fields log_fields M(7) by (rule ball_values_set [OF res_ok [OF inv]]) (simp add: asset source)
    show "set (keys (sl_owned ?L)) = set (keys (sl_slots ?L))"
      using unchanged_keys [OF s(1)] slot_invD(5) [OF inv] by (simp only: put_fields log_fields M sid)
  qed (use slot_invD [OF inv] units assets M in simp_all)
  show "opening_units a ?L = opening_units a L" for a by (simp add: opening_units_def postings_def units M)
  show "sl_last_event L \<le> sl_last_event ?L" using t by simp
qed

lemma reserve_free_well:
  assumes inv: "slot_inv k L" and fit: "on_grid k quantity"
  shows "goes_well k L (reserve_free sid rid asset quantity now L)"
  unfolding reserve_free_def
proof (intro gw_rules)
  fix s free
  assume t: "sl_last_event L \<le> now" and s: "dict_get (sl_slots L) sid = Some s"
    and own: "\<not> (has_key (sl_reservations L) rid \<or> es_reservation s \<noteq> None)"
    and q: "\<not> (quantity \<le> 0 \<or> get_or (sl_free L) asset 0 < quantity)"
    and free: "key_sub asset quantity (sl_free L) = Some free"
  note am = slot_invD(2) [OF inv]
  obtain w where w: "dict_get (sl_free L) asset = Some w" and f: "free = dict_set asset (dsub w quantity) (sl_free L)"
    using free by (auto simp: key_sub_Some)
  have wq: "get_or (sl_free L) asset 0 = w" "quantity \<le> w" using w q by (simp_all add: get_or_def)
  have fw: "on_flow_grid k w" using amounts_free [OF am, of asset] wq by simp
  have fq: "on_flow_grid k quantity" using flow_grid_smaller [OF fit _ wq(2) fw] q by simp
  note sub = flow_grid_sub [OF fw fq wq(2)] flow_grid_diff [OF fw fq wq(2)]
  have key: "has_key (sl_free L) asset" using w by (simp add: has_key_iff)
  then have asset: "asset \<in> bucket_assets L" by (simp add: bucket_assets_def has_key_def)
  show "goes_well k L (create_reservation s rid asset quantity now ''FREE'' (L\<lparr>sl_free := free\<rparr>))"
  proof (rule create_reservation_well [OF inv t s _ _ _ fq asset])
    show "amounts_ok k (L\<lparr>sl_free := free\<rparr>)"
      unfolding f by (rule amounts_free_set [OF am]) (simp add: sub)
    show "units a (L\<lparr>sl_free := free\<rparr>) = units a L - (if a = asset then quantity else 0)" for a
      using wq(1) by (simp add: units_def f get_or_set sub)
    show "set (keys (sl_free (L\<lparr>sl_free := free\<rparr>))) = set (keys (sl_free L))"
      using unchanged_keys [OF w] by (simp only: free_fields f)
    then show "bucket_assets (L\<lparr>sl_free := free\<rparr>) = bucket_assets L" by (simp add: bucket_assets_def)
  qed (use own q key in \<open>simp_all add: has_key_iff\<close>)
qed

lemma reserve_owned_well:
  assumes inv: "slot_inv k L" and fit: "on_grid k quantity"
  shows "goes_well k L (reserve_owned sid rid asset quantity now L)"
  unfolding reserve_owned_def
proof (intro gw_rules)
  fix s b b1
  assume t: "sl_last_event L \<le> now" and s: "dict_get (sl_slots L) sid = Some s"
    and own: "\<not> (has_key (sl_reservations L) rid \<or> es_reservation s \<noteq> None)"
    and q: "\<not> quantity \<le> 0" and b: "dict_get (sl_owned L) sid = Some b"
    and le: "\<not> get_or b asset 0 < quantity" and b1: "key_sub asset quantity b = Some b1"
  note am = slot_invD(2) [OF inv]
  obtain w where w: "dict_get b asset = Some w" and f: "b1 = dict_set asset (dsub w quantity) b"
    using b1 by (auto simp: key_sub_Some)
  have wq: "get_or b asset 0 = w" "quantity \<le> w" using w le by (simp_all add: get_or_def)
  have fw: "on_flow_grid k w" using amounts_owned [OF am get_in_values [OF b], of asset] wq by simp
  have fq: "on_flow_grid k quantity" using flow_grid_smaller [OF fit _ wq(2) fw] q by simp
  note sub = flow_grid_sub [OF fw fq wq(2)] flow_grid_diff [OF fw fq wq(2)]
  have keys: "set (keys b1) = insert asset (set (keys b))" unfolding f by simp
  have asset: "asset \<in> bucket_assets L"
    using get_in_keys [OF w] get_in_values [OF b] unfolding bucket_assets_def by blast
  show "goes_well k L (create_reservation s rid asset quantity now ''OWNED'' (put_owned sid b1 L))"
  proof (rule create_reservation_well [OF inv t s _ _ _ fq asset])
    show "amounts_ok k (put_owned sid b1 L)"
      unfolding f by (rule amounts_owned_set [OF am b]) (simp add: sub)
    show "units a (put_owned sid b1 L) = units a L - (if a = asset then quantity else 0)" for a
      using wq(1) by (simp add: units_def f owned_sum_set [OF b] get_or_set sub)
    show "bucket_assets (put_owned sid b1 L) = bucket_assets L"
      unfolding bucket_assets_put [OF b keys] by (rule insert_absorb [OF asset])
    show "set (keys (sl_owned (put_owned sid b1 L))) = set (keys (sl_owned L))"
      using unchanged_keys [OF b] by (simp only: put_fields)
  qed (use own q in \<open>simp_all add: has_key_iff\<close>)
qed

section \<open>The order lifecycle\<close>

lemma gw_option:
  "(x = None \<Longrightarrow> goes_well k L a) \<Longrightarrow> (\<And>v. x = Some v \<Longrightarrow> goes_well k L (f v)) \<Longrightarrow>
     goes_well k L (case x of None \<Rightarrow> a | Some v \<Rightarrow> f v)"
  by (cases x) simp_all

lemma dict_set_same: "dict_get d x = Some v \<Longrightarrow> dict_set x v d = d"
  unfolding dict_set_def by (induction d) (auto split: if_splits)

lemma reserved_sum_same:
  "dict_get res rid = Some r0 \<Longrightarrow> cr_asset r = cr_asset r0 \<Longrightarrow> cr_remaining r = cr_remaining r0 \<Longrightarrow>
     reserved_sum a (dict_set rid r res) = reserved_sum a res"
  by (simp add: reserved_sum_set)

text \<open>A new status of an order: nothing moves.\<close>

lemma status_well:
  assumes inv: "slot_inv k L" and t: "sl_last_event L \<le> now"
    and r0: "dict_get (sl_reservations L) rid = Some r0" and s0: "dict_get (sl_slots L) (cr_slot_id r0) = Some s0"
    and r: "cr_slot_id r = cr_slot_id r0" "cr_asset r = cr_asset r0" "cr_remaining r = cr_remaining r0"
      "cr_source r = cr_source r0"
    and s: "es_slot_id s = es_slot_id s0" "es_origin_asset s = es_origin_asset s0" "es_lock_started s = es_lock_started s0"
    and h: "holds rid r s" and row: "\<And>a. debit_change a row = 0"
  shows "goes_well k L (Return () (commit_time now (audited row (put_slot (cr_slot_id r0) s (put_reservation rid r L)))))"
proof (rule gw_return)
  let ?L = "commit_time now (audited row (put_slot (cr_slot_id r0) s (put_reservation rid r L)))"
  note lk = slot_invD(1) [OF inv]
  have own: "es_reservation s0 = Some rid" using linked_back [OF lk r0] s0 by auto
  have units: "units a ?L = units a L" for a by (simp add: units_def reserved_sum_same [OF r0 r(2,3)])
  have assets: "bucket_assets ?L = bucket_assets L" by (simp add: bucket_assets_def)
  have lock: "\<forall>t. es_lock_started s = Some t \<longrightarrow> t \<le> now"
    by (rule lock_kept [OF inv s0 s(3) t])
  show "slot_inv k ?L"
  proof (rule slot_inv_step [OF inv, where d = "\<lambda>_. 0" and new = "{}"])
    show "linked (sl_slots ?L) (sl_reservations ?L)"
      unfolding put_fields log_fields
      by (rule linked_hold [OF lk s0 _ _ h]) (use own s(1) linked_slot [OF lk s0] in simp_all)
    show "amounts_ok k ?L"
      using amounts_reservation_set [OF slot_invD(2) [OF inv], of r rid] slot_inv_reservation(2) [OF inv r0] r by simp
    show "\<forall>s \<in> set (dict_values (sl_slots ?L)). has_key (sl_free L) (es_origin_asset s) \<and>
        (\<forall>t. es_lock_started s = Some t \<longrightarrow> t \<le> sl_last_event ?L)"
      unfolding put_fields log_fields
      by (rule slots_ok_set [OF inv t _ lock]) (use slot_inv_slot(2) [OF inv s0] s in simp)
    show "\<forall>r \<in> set (dict_values (sl_reservations ?L)). cr_asset r \<in> bucket_assets L \<and>
        (cr_source r = ''OWNED'' \<or> cr_source r = ''FREE'' \<and> has_key (sl_free L) (cr_asset r))"
      unfolding put_fields log_fields
      by (rule ball_values_set [OF res_ok [OF inv]]) (use slot_inv_reservation [OF inv r0] r in simp)
    show "set (keys (sl_owned ?L)) = set (keys (sl_slots ?L))"
      using unchanged_keys [OF s0] slot_invD(5) [OF inv] by (simp only: put_fields log_fields)
  qed (use slot_invD [OF inv] units assets in simp_all)
  show "opening_units a ?L = opening_units a L" for a by (simp add: opening_units_def postings_def units row)
  show "sl_last_event L \<le> sl_last_event ?L" using t by simp
qed

lemma activate_well:
  assumes inv: "slot_inv k L"
  shows "goes_well k L (sl_activate rid now L)"
  unfolding sl_activate_def
proof (intro gw_rules)
  fix r s
  assume t: "sl_last_event L \<le> now" and r: "dict_get (sl_reservations L) rid = Some r"
    and s: "dict_get (sl_slots L) (cr_slot_id r) = Some s"
    and st: "\<not> (es_state s \<noteq> RESERVED \<or> cr_cancel_requested r \<noteq> None)"
  have h: "holds rid r s" using linked_back [OF slot_invD(1) [OF inv] r] s by auto
  have same: "put_reservation rid r L = L" by (simp add: put_reservation_def dict_set_same [OF r])
  have "goes_well k L (Return () (commit_time now (audited (AuditActivate now (es_slot_id s) rid)
      (put_slot (cr_slot_id r) (s\<lparr>es_state := LIVE, es_activated_at := Some now\<rparr>) (put_reservation rid r L)))))"
    by (rule status_well [OF inv t r s]) (use h st in \<open>auto simp: holds_def\<close>)
  then show "goes_well k L (Return () (commit_time now (audited (AuditActivate now (es_slot_id s) rid)
      (put_slot (cr_slot_id r) (s\<lparr>es_state := LIVE, es_activated_at := Some now\<rparr>) L))))"
    unfolding same .
qed

lemma request_cancel_well:
  assumes inv: "slot_inv k L"
  shows "goes_well k L (sl_request_cancel rid now L)"
  unfolding sl_request_cancel_def
proof (intro gw_rules)
  fix r s
  assume t: "sl_last_event L \<le> now" and r: "dict_get (sl_reservations L) rid = Some r"
    and s: "dict_get (sl_slots L) (cr_slot_id r) = Some s"
  have "holds rid r s" using linked_back [OF slot_invD(1) [OF inv] r] s by auto
  then show "goes_well k L (Return () (commit_time now (audited (AuditCancelRequest now rid (es_slot_id s))
      (put_slot (cr_slot_id r) (s\<lparr>es_state := CANCEL_PENDING\<rparr>)
        (put_reservation rid (r\<lparr>cr_cancel_requested := Some now\<rparr>) L)))))"
    by (intro status_well [OF inv t r s]) (simp_all add: holds_def)
qed

text \<open>The released quantity is in its bucket before the reservation is dropped.\<close>

lemma released_bucket:
  assumes inv: "slot_inv k L" and r: "dict_get (sl_reservations L) rid = Some r"
    and s: "dict_get (sl_slots L) (cr_slot_id r) = Some s"
  obtains M where "released_to_source r s L = Return () M" "amounts_ok k M"
    "\<forall>a. units a M = units a L + held a r" "bucket_assets M = bucket_assets L"
    "set (keys (sl_owned M)) = set (keys (sl_owned L))" "set (keys (sl_free M)) = set (keys (sl_free L))"
    "sl_slots M = sl_slots L" "sl_reservations M = sl_reservations L" "sl_totals M = sl_totals L"
    "sl_realized M = sl_realized L" "sl_attribution M = sl_attribution L" "sl_fill_ids M = sl_fill_ids L"
    "sl_audit M = sl_audit L"
proof -
  let ?a = "cr_asset r"
  note am = slot_invD(2) [OF inv]
  note rr = slot_inv_reservation [OF inv r]
  note b = units_bounds [OF am, of ?a] slot_invD(3) [OF inv, of ?a] reserved_le_sum [OF am r, of ?a]
  show thesis
  proof (cases "cr_source r = ''FREE''")
    case True
    then obtain w where w: "dict_get (sl_free L) ?a = Some w" using rr(3) by (auto simp: has_key_iff)
    have wq: "get_or (sl_free L) ?a 0 = w" using w by (simp add: get_or_def)
    have fw: "on_flow_grid k w" using amounts_free [OF am, of ?a] wq by simp
    have add: "dadd w (cr_remaining r) = w + cr_remaining r \<and> on_flow_grid k (w + cr_remaining r)"
      by (rule flow_grid_add [OF fw rr(2)]) (use b wq in \<open>simp add: units_def\<close>)
    let ?M = "L\<lparr>sl_free := dict_set ?a (dadd w (cr_remaining r)) (sl_free L)\<rparr>"
    show thesis
    proof (rule that [of ?M])
      show "released_to_source r s L = Return () ?M"
        using True w by (simp add: released_to_source_def key_add_def or_key_error_def)
      show "amounts_ok k ?M" by (rule amounts_free_set [OF am]) (simp add: add)
      show "\<forall>a. units a ?M = units a L + held a r" using wq by (simp add: units_def get_or_set add)
      show "set (keys (sl_free ?M)) = set (keys (sl_free L))" using unchanged_keys [OF w] by (simp only: free_fields)
      then show "bucket_assets ?M = bucket_assets L" by (simp add: bucket_assets_def)
    qed simp_all
  next
    case False
    then have src: "cr_source r = ''OWNED''" using rr(3) by blast
    have sid: "es_slot_id s = cr_slot_id r" by (rule linked_slot [OF slot_invD(1) [OF inv] s])
    obtain bucket where bk: "dict_get (sl_owned L) (cr_slot_id r) = Some bucket"
      using slot_inv_slot(4) [OF inv s] by blast
    have fw: "on_flow_grid k (get_or bucket ?a 0)" by (rule amounts_owned [OF am get_in_values [OF bk]])
    have add: "dadd (get_or bucket ?a 0) (cr_remaining r) = get_or bucket ?a 0 + cr_remaining r \<and>
        on_flow_grid k (get_or bucket ?a 0 + cr_remaining r)"
      by (rule flow_grid_add [OF fw rr(2)]) (use b owned_le_sum [OF am bk, of ?a] in \<open>simp add: units_def\<close>)
    let ?b = "dict_set ?a (dadd (get_or bucket ?a 0) (cr_remaining r)) bucket"
    let ?M = "put_owned (cr_slot_id r) ?b L"
    have ks: "set (keys ?b) = insert ?a (set (keys bucket))" by simp
    show thesis
    proof (rule that [of ?M])
      show "released_to_source r s L = Return () ?M"
        using src bk sid by (simp add: released_to_source_def with_key_def)
      show "amounts_ok k ?M" by (rule amounts_owned_set [OF am bk]) (simp add: add)
      show "\<forall>a. units a ?M = units a L + held a r"
        by (simp add: units_def owned_sum_set [OF bk] get_or_set add)
      show "bucket_assets ?M = bucket_assets L" unfolding bucket_assets_put [OF bk ks] by (rule insert_absorb [OF rr(1)])
      show "set (keys (sl_owned ?M)) = set (keys (sl_owned L))" using unchanged_keys [OF bk] by (simp only: put_fields)
    qed simp_all
  qed
qed

text \<open>A reservation that goes, in the ledger \<open>M\<close> where its remainder is elsewhere.\<close>

lemma dropped_inv:
  assumes inv: "slot_inv k L" and t: "sl_last_event L \<le> sl_last_event L'"
    and r0: "dict_get (sl_reservations L) rid = Some r0" and s0: "dict_get (sl_slots L) (cr_slot_id r0) = Some s0"
    and s: "es_slot_id s = es_slot_id s0" "es_reservation s = None" "es_state s \<in> {FREE, FILLED, CLOSED}"
      "es_origin_asset s = es_origin_asset s0" "es_lock_started s = es_lock_started s0"
    and L': "sl_slots L' = dict_set (cr_slot_id r0) s (sl_slots L)" "sl_reservations L' = dict_del rid (sl_reservations L)"
      "set (keys (sl_owned L')) = set (keys (sl_owned L))"
      "set (keys (sl_free L')) = set (keys (sl_free L))" "set (keys (sl_realized L')) = set (keys (sl_realized L))"
      "set (keys (sl_attribution L')) = sl_fill_ids L'"
    and am: "amounts_ok k L'" and un: "\<And>a. units a L' = units a L + d a" "\<And>a. units a L + d a < pow10 (28 - int k)"
    and assets: "bucket_assets L' = bucket_assets L \<union> new"
    and tot: "\<And>a. dict_get (sl_totals L') a = (if a \<in> bucket_assets L \<union> new then Some (units a L + d a) else None)"
  shows "slot_inv k L'"
proof (rule slot_inv_step [OF inv _ am un assets tot])
  note lk = slot_invD(1) [OF inv]
  have own: "es_reservation s0 = Some rid" using linked_back [OF lk r0] s0 by auto
  have lock: "\<forall>t. es_lock_started s = Some t \<longrightarrow> t \<le> sl_last_event L'"
    by (rule lock_kept [OF inv s0 s(5) t])
  show "linked (sl_slots L') (sl_reservations L')"
    unfolding L' by (rule linked_drop [OF lk s0 own]) (use s linked_slot [OF lk s0] in simp_all)
  show "\<forall>s \<in> set (dict_values (sl_slots L')). has_key (sl_free L) (es_origin_asset s) \<and>
      (\<forall>t. es_lock_started s = Some t \<longrightarrow> t \<le> sl_last_event L')"
    unfolding L'(1) by (rule slots_ok_set [OF inv t _ lock]) (use slot_inv_slot(2) [OF inv s0] s in simp)
  show "\<forall>r \<in> set (dict_values (sl_reservations L')). cr_asset r \<in> bucket_assets L \<and>
      (cr_source r = ''OWNED'' \<or> cr_source r = ''FREE'' \<and> has_key (sl_free L) (cr_asset r))"
    unfolding L'(2) by (rule ball_values_del [OF res_ok [OF inv]])
  show "set (keys (sl_owned L')) = set (keys (sl_slots L'))"
    unfolding L'(1,3) using unchanged_keys [OF s0] slot_invD(5) [OF inv] by simp
qed (use L' in simp_all)

lemma acknowledge_cancel_well:
  assumes inv: "slot_inv k L"
  shows "goes_well k L (sl_acknowledge_cancel rid now L)"
  unfolding sl_acknowledge_cancel_def
proof (intro gw_causal gw_key, goal_cases)
  case (1 r s)
  note t = 1(1) and r = 1(2) and s = 1(3)
  obtain M where M: "released_to_source r s L = Return () M" "amounts_ok k M"
    "\<forall>a. units a M = units a L + held a r" "bucket_assets M = bucket_assets L"
    "set (keys (sl_owned M)) = set (keys (sl_owned L))" "set (keys (sl_free M)) = set (keys (sl_free L))"
    "sl_slots M = sl_slots L" "sl_reservations M = sl_reservations L" "sl_totals M = sl_totals L"
    "sl_realized M = sl_realized L" "sl_attribution M = sl_attribution L" "sl_fill_ids M = sl_fill_ids L"
    "sl_audit M = sl_audit L" by (rule released_bucket [OF inv r s])
  let ?s = "s\<lparr>es_reservation := None, es_reserved_value := 0, es_remaining := 0,
                            es_state := (if 0 < es_filled s then FILLED else FREE)\<rparr>"
  let ?L = "commit_time now (drop_reservation rid (audited (AuditCancelAck now rid (es_slot_id s) (cr_remaining r))
                        (put_slot (cr_slot_id r) ?s M)))"
  have units: "units a ?L = units a L" for a
    using spec [OF M(3), of a] reserved_sum_del [OF r, of a] slot_invD(1) [OF inv]
    by (simp add: units_def M(8) linked_def)
  have assets: "bucket_assets ?L = bucket_assets L" using M(4) by (simp add: bucket_assets_def)
  have good: "goes_well k L (reconciled (cr_remaining r) ?L)"
  proof (rule gw_reconciled)
    show "slot_inv k ?L"
      by (rule dropped_inv [OF inv _ r s, where s = ?s and d = "\<lambda>_. 0" and new = "{}"])
        (use t M slot_invD [OF inv] units assets amounts_reservation_del [OF M(2)] in
          \<open>simp_all add: amounts_reservation_del\<close>)
    show "opening_units a ?L = opening_units a L" for a by (simp add: opening_units_def postings_def units M)
    show "sl_last_event L \<le> sl_last_event ?L" using t by simp
  qed
  show ?case
    unfolding M(1) and_then.simps Let_def by (intro gw_option gw_if gw_raise good)
qed

section \<open>Fills and costs\<close>

lemma dict_del_of_set: "dict_del x (dict_set x v d) = dict_del x d"
  unfolding dict_set_def dict_del_def by (induction d) auto

text \<open>A reservation that stays, with a new remainder.\<close>

lemma kept_inv:
  assumes inv: "slot_inv k L" and t: "sl_last_event L \<le> sl_last_event L'"
    and r0: "dict_get (sl_reservations L) rid = Some r0" and s0: "dict_get (sl_slots L) (cr_slot_id r0) = Some s0"
    and r: "cr_asset r = cr_asset r0" "cr_source r = cr_source r0" and h: "holds rid r s"
    and s: "es_slot_id s = es_slot_id s0" "es_origin_asset s = es_origin_asset s0" "es_lock_started s = es_lock_started s0"
    and L': "sl_slots L' = dict_set (cr_slot_id r0) s (sl_slots L)" "sl_reservations L' = dict_set rid r (sl_reservations L)"
      "set (keys (sl_owned L')) = set (keys (sl_owned L))"
      "set (keys (sl_free L')) = set (keys (sl_free L))" "set (keys (sl_realized L')) = set (keys (sl_realized L))"
      "set (keys (sl_attribution L')) = sl_fill_ids L'"
    and am: "amounts_ok k L'" and un: "\<And>a. units a L' = units a L + d a" "\<And>a. units a L + d a < pow10 (28 - int k)"
    and assets: "bucket_assets L' = bucket_assets L \<union> new"
    and tot: "\<And>a. dict_get (sl_totals L') a = (if a \<in> bucket_assets L \<union> new then Some (units a L + d a) else None)"
  shows "slot_inv k L'"
proof (rule slot_inv_step [OF inv _ am un assets tot])
  note lk = slot_invD(1) [OF inv]
  have own: "es_reservation s0 = Some rid" using linked_back [OF lk r0] s0 by auto
  have lock: "\<forall>t. es_lock_started s = Some t \<longrightarrow> t \<le> sl_last_event L'"
    by (rule lock_kept [OF inv s0 s(3) t])
  show "linked (sl_slots L') (sl_reservations L')"
    unfolding L' by (rule linked_hold [OF lk s0 _ _ h]) (use own s(1) linked_slot [OF lk s0] in simp_all)
  show "\<forall>s \<in> set (dict_values (sl_slots L')). has_key (sl_free L) (es_origin_asset s) \<and>
      (\<forall>t. es_lock_started s = Some t \<longrightarrow> t \<le> sl_last_event L')"
    unfolding L'(1) by (rule slots_ok_set [OF inv t _ lock]) (use slot_inv_slot(2) [OF inv s0] s in simp)
  show "\<forall>r \<in> set (dict_values (sl_reservations L')). cr_asset r \<in> bucket_assets L \<and>
      (cr_source r = ''OWNED'' \<or> cr_source r = ''FREE'' \<and> has_key (sl_free L) (cr_asset r))"
    unfolding L'(2) by (rule ball_values_set [OF res_ok [OF inv]]) (use slot_inv_reservation [OF inv r0] r in simp)
  show "set (keys (sl_owned L')) = set (keys (sl_slots L'))"
    unfolding L'(1,3) using unchanged_keys [OF s0] slot_invD(5) [OF inv] by simp
qed (use L' in simp_all)

lemma debit_reserved_well:
  assumes inv: "slot_inv k L" and fit: "on_grid k quantity"
  shows "goes_well k L (debit_reserved_cost rid quantity kind now L)"
  unfolding debit_reserved_cost_def
proof (intro gw_causal gw_key gw_if gw_raise, goal_cases)
  case (1 r0 s0)
  note t = 1(1) and r0 = 1(2) and s0 = 1(3) and ok = 1(4)
  let ?a = "cr_asset r0"
  let ?left = "dsub (cr_remaining r0) quantity"
  let ?r = "r0\<lparr>cr_remaining := ?left\<rparr>" and ?s = "s0\<lparr>es_reserved_value := ?left, es_remaining := ?left\<rparr>"
  let ?L1 = "put_slot (cr_slot_id ?r) ?s (put_reservation rid ?r L)"
  let ?row = "AuditCostDebit now (es_slot_id ?s) (Some rid) (cr_asset ?r) quantity kind ''RESERVED''"
  let ?T = "dict_set ?a (dsub (units ?a L) quantity) (sl_totals L)"
  let ?L2 = "audited ?row (?L1\<lparr>sl_totals := ?T\<rparr>)"
  define gone where "gone \<longleftrightarrow> ?left = 0 \<and> cr_cancel_requested ?r = None"
  let ?s2 = "?s\<lparr>es_reservation := None, es_state := FILLED\<rparr>"
  let ?L3 = "if gone then drop_reservation rid (put_slot (cr_slot_id ?r) ?s2 ?L2) else ?L2"
  let ?d = "\<lambda>a. if a = ?a then - quantity else 0"
  note am = slot_invD(2) [OF inv] and rr = slot_inv_reservation [OF inv r0]
  have h: "holds rid r0 s0" using linked_back [OF slot_invD(1) [OF inv] r0] s0 by auto
  have q: "0 \<le> quantity" "quantity \<le> cr_remaining r0" using ok by auto
  have fq: "on_flow_grid k quantity" by (rule flow_grid_smaller [OF fit q rr(2)])
  note sub = flow_grid_sub [OF rr(2) fq q(2)] flow_grid_diff [OF rr(2) fq q(2)]
  have "cr_remaining r0 \<le> units ?a L"
    using reserved_le_sum [OF am r0, of ?a] units_bounds [OF am, of ?a] by (simp add: units_def)
  then have qu: "quantity \<le> units ?a L" using q by simp
  note usub = flow_grid_sub [OF units_flow [OF inv] fq qu]
  have tot: "key_sub (cr_asset ?r) quantity (sl_totals ?L1) = Some ?T"
    using slot_invD(4) [OF inv, of ?a] rr(1) by (simp add: key_sub_def)
  have units: "units a (commit_time now ?L3) = units a L + ?d a" for a
    using slot_invD(1) [OF inv] r0
    by (cases gone)
      (auto simp: gone_def units_def dict_del_of_set linked_def reserved_sum_set [OF r0] reserved_sum_del [OF r0] sub)
  have less: "units a L + ?d a < pow10 (28 - int k)" for a
    using slot_invD(3) [OF inv, of a] q by (cases "a = ?a") auto
  have assets: "bucket_assets (commit_time now ?L3) = bucket_assets L \<union> {}" by (simp add: bucket_assets_def)
  have tots: "dict_get (sl_totals (commit_time now ?L3)) a =
      (if a \<in> bucket_assets L \<union> {} then Some (units a L + ?d a) else None)" for a
    using slot_invD(4) [OF inv, of a] rr(1) usub by simp
  have am1: "amounts_ok k (put_reservation rid ?r L)"
    by (rule amounts_reservation_set [OF am]) (simp add: sub)
  then have am2: "amounts_ok k ?L2" by (simp only: amounts_kept)
  have "amounts_ok k (drop_reservation rid (put_slot (cr_slot_id ?r) ?s2 ?L2))"
    by (rule amounts_reservation_del) (simp only: amounts_kept am1)
  then have am3: "amounts_ok k (commit_time now ?L3)" using am2 by (simp only: if_split amounts_kept simp_thms)
  have "goes_well k L (reconciled () (commit_time now ?L3))"
  proof (rule gw_reconciled)
    show "slot_inv k (commit_time now ?L3)"
    proof (cases gone)
      case True
      show ?thesis
      proof (rule dropped_inv [OF inv _ r0 s0 _ _ _ _ _ _ _ _ _ _ _ _ units less assets tots, where s = ?s2])
        show "amounts_ok k (commit_time now ?L3)" by (rule am3)
      qed (use True t slot_invD [OF inv] in \<open>simp_all add: dict_del_of_set\<close>)
    next
      case False
      show ?thesis
      proof (rule kept_inv [OF inv _ r0 s0 _ _ _ _ _ _ _ _ _ _ _ _ _ units less assets tots, where s = ?s and r = ?r])
        show "amounts_ok k (commit_time now ?L3)" by (rule am3)
        show "holds rid ?r ?s" using h False unfolding gone_def holds_def by auto
      qed (use False t slot_invD [OF inv] in simp_all)
    qed
    show "opening_units a (commit_time now ?L3) = opening_units a L" for a
      unfolding opening_units_def units by (simp add: postings_def)
    show "sl_last_event L \<le> sl_last_event (commit_time now ?L3)" using t by simp
  qed
  then show ?case
    unfolding Let_def tot gone_def by (simp only: or_key_error_def option.case)
qed

lemma debit_owned_well:
  assumes inv: "slot_inv k L" and fit: "on_grid k quantity"
  shows "goes_well k L (debit_owned_cost sid asset quantity kind now L)"
  unfolding debit_owned_cost_def
proof (intro gw_rules, goal_cases)
  case (1 b b1)
  note t = 1(1) and q0 = 1(2) and b = 1(3) and le = 1(4) and b1 = 1(5)
  note am = slot_invD(2) [OF inv]
  obtain w where w: "dict_get b asset = Some w" and f: "b1 = dict_set asset (dsub w quantity) b"
    using b1 by (auto simp: key_sub_Some)
  have wq: "get_or b asset 0 = w" "quantity \<le> w" using w le by (simp_all add: get_or_def)
  have fw: "on_flow_grid k w" using amounts_owned [OF am get_in_values [OF b], of asset] wq by simp
  have fq: "on_flow_grid k quantity" using flow_grid_smaller [OF fit _ wq(2) fw] q0 by simp
  note sub = flow_grid_sub [OF fw fq wq(2)] flow_grid_diff [OF fw fq wq(2)]
  have ks: "set (keys b1) = insert asset (set (keys b))" unfolding f by simp
  have asset: "asset \<in> bucket_assets L"
    using get_in_keys [OF w] get_in_values [OF b] unfolding bucket_assets_def by blast
  have "quantity \<le> units asset L"
    using owned_le_sum [OF am b, of asset] units_bounds [OF am, of asset] wq by (simp add: units_def)
  note usub = flow_grid_sub [OF units_flow [OF inv] fq this]
  let ?T = "dict_set asset (dsub (units asset L) quantity) (sl_totals L)"
  let ?L = "commit_time now (audited (AuditCostDebit now sid None asset quantity kind ''OWNED'')
              ((put_owned sid b1 L)\<lparr>sl_totals := ?T\<rparr>))"
  let ?d = "\<lambda>a. if a = asset then - quantity else 0"
  have tot: "key_sub asset quantity (sl_totals (put_owned sid b1 L)) = Some ?T"
    using slot_invD(4) [OF inv, of asset] asset by (simp add: key_sub_def)
  have units: "units a ?L = units a L + ?d a" for a
    using wq(1) by (simp add: units_def f owned_sum_set [OF b] get_or_set sub)
  have assets: "bucket_assets ?L = bucket_assets L"
    using insert_absorb [OF asset] bucket_assets_put [OF b ks] by (simp add: bucket_assets_def)
  have "goes_well k L (reconciled () ?L)"
  proof (rule gw_reconciled)
    show "slot_inv k ?L"
    proof (rule slot_inv_step [OF inv, where d = ?d and new = "{}"])
      show "amounts_ok k ?L"
        unfolding f using amounts_owned_set [OF am b, of "dsub w quantity" asset] by (simp add: sub)
      show "units a L + ?d a < pow10 (28 - int k)" for a
        using slot_invD(3) [OF inv, of a] q0 by (cases "a = asset") auto
      show "dict_get (sl_totals ?L) a = (if a \<in> bucket_assets L \<union> {} then Some (units a L + ?d a) else None)" for a
        using slot_invD(4) [OF inv, of a] asset usub by simp
      show "set (keys (sl_owned ?L)) = set (keys (sl_slots ?L))"
        using unchanged_keys [OF b] slot_invD(5) [OF inv] by (simp del: set_map)
      show "\<forall>s \<in> set (dict_values (sl_slots ?L)). has_key (sl_free L) (es_origin_asset s) \<and>
          (\<forall>t. es_lock_started s = Some t \<longrightarrow> t \<le> sl_last_event ?L)"
        using inv t unfolding slot_inv_def by (simp del: set_map) (meson order_trans)
    qed (use slot_invD [OF inv] res_ok [OF inv] units assets in simp_all)
    show "opening_units a ?L = opening_units a L" for a
      unfolding opening_units_def units by (simp add: postings_def)
    show "sl_last_event L \<le> sl_last_event ?L" using t by simp
  qed
  then show ?case
    unfolding Let_def tot by (simp only: or_key_error_def option.case)
qed

section \<open>Closing\<close>

text \<open>What a slot owns of its origin asset goes back to the free bucket.\<close>

lemma returned_inv:
  assumes inv: "slot_inv k L" and t: "sl_last_event L \<le> now"
    and s0: "dict_get (sl_slots L) sid = Some s0" "es_reservation s0 = None" and b: "dict_get (sl_owned L) sid = Some b"
    and s: "es_slot_id s = es_slot_id s0" "es_reservation s = None" "es_state s \<in> {FREE, FILLED, CLOSED}"
      "es_origin_asset s = es_origin_asset s0" "es_lock_started s = None"
    and final: "final = get_or b (es_origin_asset s0) 0"
    and free: "key_add (es_origin_asset s0) final (sl_free L) = Some free"
    and L': "sl_slots L' = dict_set sid s (sl_slots L)" "sl_reservations L' = sl_reservations L"
      "sl_owned L' = dict_set sid (dict_set (es_origin_asset s0) 0 b) (sl_owned L)"
      "sl_free L' = free" "set (keys (sl_realized L')) = set (keys (sl_realized L))"
      "sl_attribution L' = sl_attribution L" "sl_fill_ids L' = sl_fill_ids L" "sl_totals L' = sl_totals L"
      "sl_last_event L' = now" "sl_audit L' = sl_audit L @ [row]" and row: "\<And>a. debit_change a row = 0"
  shows "slot_inv k L' \<and> (\<forall>a. opening_units a L' = opening_units a L) \<and> sl_last_event L \<le> sl_last_event L'"
proof -
  let ?o = "es_origin_asset s0"
  let ?b = "dict_set ?o 0 b"
  note am = slot_invD(2) [OF inv]
  obtain w where w: "dict_get (sl_free L) ?o = Some w" and f: "free = dict_set ?o (dadd w final) (sl_free L)"
    using free by (auto simp: key_add_Some)
  have wq: "get_or (sl_free L) ?o 0 = w" using w by (simp add: get_or_def)
  have fw: "on_flow_grid k w" using amounts_free [OF am, of ?o] wq by simp
  have ff: "on_flow_grid k final" unfolding final by (rule amounts_owned [OF am get_in_values [OF b]])
  have add: "dadd w final = w + final \<and> on_flow_grid k (w + final)"
    by (rule flow_grid_add [OF fw ff])
      (use owned_le_sum [OF am b, of ?o] units_bounds [OF am, of ?o] slot_invD(3) [OF inv, of ?o] wq final in
        \<open>simp add: units_def\<close>)
  have ks: "set (keys ?b) = insert ?o (set (keys b))" by simp
  have o: "?o \<in> bucket_assets L" using get_in_keys [OF w] unfolding bucket_assets_def by blast
  have units: "units a L' = units a L" for a
    using wq by (simp add: units_def L' f owned_sum_set [OF b] get_or_set add final [symmetric])
  have fkeys: "set (keys free) = set (keys (sl_free L))" unfolding f by (rule unchanged_keys [OF w])
  have assets: "bucket_assets L' = bucket_assets L"
    unfolding bucket_assets_def L' fkeys owned_keys_set [OF b ks]
    using o unfolding bucket_assets_def by blast
  have "amounts_ok k (put_owned sid ?b (L\<lparr>sl_free := free\<rparr>))"
    unfolding f by (rule amounts_owned_set [OF amounts_free_set [OF am]]) (simp_all add: add b)
  then have am': "amounts_ok k L'" by (simp add: amounts_ok_def L')
  have "slot_inv k L'"
  proof (rule slot_inv_step [OF inv _ am', where d = "\<lambda>_. 0" and new = "{}"])
    show "linked (sl_slots L') (sl_reservations L')"
      unfolding L' by (rule linked_idle [OF slot_invD(1) [OF inv]])
        (use s0 s linked_slot [OF slot_invD(1) [OF inv] s0(1)] in simp_all)
    show "\<forall>s \<in> set (dict_values (sl_slots L')). has_key (sl_free L) (es_origin_asset s) \<and>
        (\<forall>t. es_lock_started s = Some t \<longrightarrow> t \<le> sl_last_event L')"
      unfolding L'(1,9) by (rule slots_ok_set [OF inv t]) (use slot_inv_slot(2) [OF inv s0(1)] s in simp_all)
    show "set (keys (sl_owned L')) = set (keys (sl_slots L'))"
      unfolding L' using unchanged_keys [OF s0(1)] unchanged_keys [OF b] slot_invD(5) [OF inv] by simp
    show "set (keys (sl_free L')) = set (keys (sl_free L))" unfolding L' by (rule fkeys)
  qed (use L' slot_invD [OF inv] res_ok [OF inv] units assets in simp_all)
  then show ?thesis using t by (simp add: opening_units_def postings_def units L' row)
qed

lemma gw_returned:
  "slot_inv k L' \<and> (\<forall>a. opening_units a L' = opening_units a L) \<and> sl_last_event L \<le> sl_last_event L' \<Longrightarrow>
     goes_well k L (reconciled r L')"
  by (intro gw_reconciled) simp_all

lemma realized_key:
  assumes "slot_inv k L" "dict_get (sl_slots L) sid = Some s"
  obtains v where "dict_get (sl_realized L) (es_origin_asset s) = Some v"
proof -
  have "es_origin_asset s \<in> set (keys (sl_realized L))"
    using slot_inv_slot(2) [OF assms] slot_invD(6) [OF assms(1)] unfolding has_key_def by simp
  then show thesis using that by (cases "dict_get (sl_realized L) (es_origin_asset s)") (auto simp: map_of_eq_None_iff)
qed

lemma close_slot_well:
  assumes inv: "slot_inv k L"
  shows "goes_well k L (close_slot sid quantity now cycle_id cost L)"
  unfolding close_slot_def Let_def
proof (intro gw_rules, goal_cases)
  case (1 s b free)
  note t = 1(1) and s = 1(2) and b = 1(4) and free = 1(7)
  let ?o = "es_origin_asset s" and ?final = "get_or b (es_origin_asset s) 0"
  let ?pnl = "dsub (dsub ?final quantity) cost"
  obtain v where v: "dict_get (sl_realized L) ?o = Some v" by (rule realized_key [OF inv s])
  define realized where "realized = dict_set ?o (dadd v ?pnl) (sl_realized L)"
  have add: "key_add ?o ?pnl (sl_realized (put_owned sid (dict_set ?o 0 b) (L\<lparr>sl_free := free\<rparr>))) = Some realized"
    by (simp add: key_add_def v realized_def)
  have rk: "set (keys realized) = set (keys (sl_realized L))" unfolding realized_def by (rule unchanged_keys [OF v])
  show ?case
  proof (cases "es_lock_started s")
    case None
    then show ?thesis unfolding add or_key_error_def option.case None by (simp add: goes_well_def)
  next
    case (Some started)
    then have early: "\<not> now - started < 0" using slot_inv_slot(3) [OF inv s Some] t by simp
    show ?thesis
      unfolding add or_key_error_def option.case Some if_not_P [OF early]
      by (rule gw_returned, rule returned_inv [OF inv t s _ b _ _ _ _ _ refl free, where row = "AuditCycleClosed now sid cycle_id ?pnl"]) (use 1(3) rk in simp_all)
  qed
qed

lemma register_well:
  assumes inv: "slot_inv k L"
  shows "goes_well k L (register_reduction_authorization a now L)"
  unfolding register_reduction_authorization_def Let_def
proof (intro gw_rules gw_return, goal_cases)
  case (1 s b)
  let ?L = "commit_time now (audited (AuditAuthorized now (ira_slot_id a) (ira_id a) (ira_exit_reservation a)
                            (ira_rule_id a) (ira_rule_hash a))
                  (L\<lparr>sl_authorizations := dict_set (ira_id a) a (sl_authorizations L)\<rparr>))"
  have units: "units x ?L = units x L" for x by (simp add: units_def)
  have assets: "bucket_assets ?L = bucket_assets L" by (simp add: bucket_assets_def)
  have am: "amounts_ok k ?L" using slot_invD(2) [OF inv] by (simp add: amounts_ok_def)
  show ?case
  proof (rule slot_inv_step [OF inv _ am, where d = "\<lambda>_. 0" and new = "{}"])
    show "\<forall>s \<in> set (dict_values (sl_slots ?L)). has_key (sl_free L) (es_origin_asset s) \<and>
        (\<forall>t. es_lock_started s = Some t \<longrightarrow> t \<le> sl_last_event ?L)"
      using inv 1(1) unfolding slot_inv_def by (simp del: set_map) (meson order_trans)
  qed (use slot_invD [OF inv] res_ok [OF inv] units assets in simp_all)
qed (simp_all add: opening_units_def postings_def units_def)

lemma settle_well:
  assumes inv: "slot_inv k L"
  shows "goes_well k L (settle_inventory_reduction sid now reduction_id a L)"
  unfolding settle_inventory_reduction_def Let_def
proof (intro gw_rules gw_option, goal_cases)
  case (1 s b fees started free)
  let ?o = "es_origin_asset s"
  let ?loss = "dadd (dsub (ira_cost_basis a) (get_or b ?o 0)) fees"
  obtain v where v: "dict_get (sl_realized L) ?o = Some v" by (rule realized_key [OF inv 1(2)])
  define realized where "realized = dict_set ?o (dsub v ?loss) (sl_realized L)"
  have sub: "key_sub ?o ?loss (sl_realized (put_owned sid (dict_set ?o 0 b) (L\<lparr>sl_free := free\<rparr>))) = Some realized"
    by (simp add: key_sub_def v realized_def)
  have rk: "set (keys realized) = set (keys (sl_realized L))" unfolding realized_def by (rule unchanged_keys [OF v])
  show ?case
    unfolding sub or_key_error_def option.case
    by (rule gw_returned, rule returned_inv [OF inv 1(1,2) _ 1(6) _ _ _ _ _ refl 1(13), where
          row = "AuditSettled now sid reduction_id (ira_rule_id a) (ira_rule_hash a) (ira_trigger_reason a) ?loss fees"])
      (use 1(3) rk in simp_all)
qed

section \<open>Fills\<close>

lemma fill_refused_None:
  assumes "fill_refused f r s L = None"
  shows "es_activated_at s \<noteq> None" "es_state s \<in> {LIVE, PARTIAL, CANCEL_PENDING}" "pf_from f = cr_asset r"
    "0 < pf_input f" "pf_input f \<le> cr_remaining r" "0 \<le> pf_gross f" "0 \<le> pf_fee f" "0 \<le> output_quantity_net f"
    "pf_fee_asset f = pf_from f \<Longrightarrow> pf_fee f \<le> dsub (cr_remaining r) (pf_input f)"
    "pf_fee_asset f \<notin> {pf_from f, pf_to f} \<Longrightarrow> 0 < pf_fee f \<Longrightarrow> pf_fee f \<le> get_or (sl_free L) (pf_fee_asset f) 0"
  using assms unfolding fill_refused_def by (auto split: option.splits if_splits)

text \<open>What the fill takes from the reservation, the fee included when it is paid in that asset.\<close>

definition fill_spent :: "physical_fill \<Rightarrow> decimal" where
  "fill_spent f = pf_input f + (if pf_fee_asset f = pf_from f then pf_fee f else 0)"

definition outside_fee :: "string \<Rightarrow> physical_fill \<Rightarrow> decimal" where
  "outside_fee a f = (if pf_fee_asset f = a \<and> pf_fee_asset f \<notin> {pf_from f, pf_to f} then pf_fee f else 0)"

lemma fill_paid:
  fixes f :: physical_fill and r0 :: capital_reservation and s0 :: economic_slot and filled :: decimal
  defines "r \<equiv> r0\<lparr>cr_remaining := cr_remaining r0 - pf_input f\<rparr>"
    and "s \<equiv> s0\<lparr>es_reserved_value := cr_remaining r0 - pf_input f, es_remaining := cr_remaining r0 - pf_input f,
               es_filled := filled\<rparr>"
  assumes inv: "slot_inv k L" and fit: "fits k (ApplyFill rid f) L"
    and r0: "dict_get (sl_reservations L) rid = Some r0" and s0: "dict_get (sl_slots L) (cr_slot_id r0) = Some s0"
    and ok: "fill_refused f r0 s0 L = None"
    and M: "M = (put_slot (cr_slot_id r0) s (put_reservation rid r L))\<lparr>sl_totals := dict_set (pf_to f)
              (units (pf_to f) L + pf_gross f) (dict_set (pf_from f) (units (pf_from f) L - pf_input f) (sl_totals L))\<rparr>"
  obtains free totals where
    "pay_fill_fee f rid r s M = Return
       (r0\<lparr>cr_remaining := cr_remaining r0 - fill_spent f\<rparr>,
        s\<lparr>es_reserved_value := cr_remaining r0 - fill_spent f, es_remaining := cr_remaining r0 - fill_spent f\<rparr>)
       ((put_slot (cr_slot_id r0)
          (s\<lparr>es_reserved_value := cr_remaining r0 - fill_spent f, es_remaining := cr_remaining r0 - fill_spent f\<rparr>)
          (put_reservation rid (r0\<lparr>cr_remaining := cr_remaining r0 - fill_spent f\<rparr>) L))
        \<lparr>sl_free := free, sl_totals := totals\<rparr>)"
    "on_flow_grid k (cr_remaining r0 - fill_spent f)"
    "set (keys free) = set (keys (sl_free L))" "\<forall>v \<in> set (dict_values free). on_flow_grid k v"
    "\<forall>a. get_or free a 0 = get_or (sl_free L) a 0 - outside_fee a f"
    "\<forall>a. dict_get totals a = (if a \<in> insert (pf_to f) (bucket_assets L) then Some (units a L + fill_change a f) else None)"
proof -
  note am = slot_invD(2) [OF inv] and rr = slot_inv_reservation [OF inv r0] and ref = fill_refused_None [OF ok]
  have s_same: "s\<lparr>es_reserved_value := cr_remaining r0 - pf_input f, es_remaining := cr_remaining r0 - pf_input f\<rparr> = s"
    by (rule economic_slot.equality) (simp_all add: s_def)
  have grid: "on_grid k (pf_input f)" "on_grid k (pf_gross f)" "on_grid k (pf_fee f)" "pf_from f \<noteq> pf_to f"
    "units (pf_to f) L + pf_gross f < pow10 (28 - int k)" using fit by simp_all
  have fi: "on_flow_grid k (pf_input f)" by (rule flow_grid_smaller [OF grid(1) _ ref(5) rr(2)]) (use ref(4) in simp)
  note sub = flow_grid_sub [OF rr(2) fi ref(5)] and subg = flow_grid_diff [OF rr(2) fi ref(5)]
  have ru: "cr_remaining r0 \<le> units (pf_from f) L"
    using reserved_le_sum [OF am r0, of "pf_from f"] units_bounds [OF am, of "pf_from f"] ref(3) by (simp add: units_def)
  have tot: "dict_get (sl_totals L) a = (if a \<in> bucket_assets L then Some (units a L) else None)" for a
    by (rule slot_invD(4) [OF inv])
  have from_in: "pf_from f \<in> bucket_assets L" using rr(1) ref(3) by simp
  have fu: "on_flow_grid k (units (pf_from f) L - pf_input f)"
    by (rule flow_grid_diff [OF units_flow [OF inv] fi]) (use ru ref(5) in simp)
  have fg: "on_flow_grid k (units (pf_to f) L + pf_gross f)"
    using units_flow [OF inv, of "pf_to f"] grid(2,5) ref(6) by (simp add: on_flow_grid_def on_grid_add)
  have flow_free: "\<forall>v \<in> set (dict_values (sl_free L)). on_flow_grid k v" using am by (simp add: amounts_ok_def)
  consider (source) "pf_fee_asset f = pf_from f" | (target) "pf_fee_asset f = pf_to f" "pf_fee_asset f \<noteq> pf_from f"
    | (outside) "pf_fee_asset f \<notin> {pf_from f, pf_to f}" "0 < pf_fee f" | (none) "pf_fee_asset f \<notin> {pf_from f, pf_to f}" "pf_fee f = 0"
    using ref(7) by fastforce
  then show thesis
  proof cases
    case source
    have le: "pf_fee f \<le> cr_remaining r0 - pf_input f" using ref(9) [OF source] sub by simp
    have ff: "on_flow_grid k (pf_fee f)" by (rule flow_grid_smaller [OF grid(3) ref(7) le subg])
    have left: "dsub (cr_remaining r0 - pf_input f) (pf_fee f) = cr_remaining r0 - fill_spent f"
      using flow_grid_sub [OF subg ff le] source by (simp add: fill_spent_def)
    have le2: "pf_fee f \<le> units (pf_from f) L - pf_input f" using le ru by simp
    let ?T = "dict_set (pf_from f) (units (pf_from f) L - pf_input f - pf_fee f) (sl_totals M)"
    have ks: "key_sub (pf_from f) (pf_fee f) (sl_totals M) = Some ?T"
      using grid(4) flow_grid_sub [OF fu ff le2] by (simp add: key_sub_def M)
    show thesis
    proof (rule that [where free = "sl_free L" and totals = ?T])
      show "on_flow_grid k (cr_remaining r0 - fill_spent f)"
        using flow_grid_diff [OF subg ff le] source by (simp add: fill_spent_def diff_diff_eq)
      show "\<forall>a. get_or (sl_free L) a 0 = get_or (sl_free L) a 0 - outside_fee a f" using source by (simp add: outside_fee_def)
      show "\<forall>a. dict_get ?T a = (if a \<in> insert (pf_to f) (bucket_assets L) then Some (units a L + fill_change a f) else None)"
        using tot source grid(4) from_in by (simp add: M fill_change_def)
      show "pay_fill_fee f rid r s M = Return
       (r0\<lparr>cr_remaining := cr_remaining r0 - fill_spent f\<rparr>,
        s\<lparr>es_reserved_value := cr_remaining r0 - fill_spent f, es_remaining := cr_remaining r0 - fill_spent f\<rparr>)
       ((put_slot (cr_slot_id r0)
          (s\<lparr>es_reserved_value := cr_remaining r0 - fill_spent f, es_remaining := cr_remaining r0 - fill_spent f\<rparr>)
          (put_reservation rid (r0\<lparr>cr_remaining := cr_remaining r0 - fill_spent f\<rparr>) L))
        \<lparr>sl_free := sl_free L, sl_totals := ?T\<rparr>)"
        using source ks left
        by (simp add: pay_fill_fee_def Let_def or_key_error_def r_def)
          (simp add: M put_slot_def put_reservation_def r_def)
    qed (use flow_free in simp_all)
  next
    case target
    have same: "fill_spent f = pf_input f" using target by (simp add: fill_spent_def)
    have le: "pf_fee f \<le> pf_gross f" using ref(8) target by (simp add: output_quantity_net_def)
    have fgross: "on_flow_grid k (pf_gross f)"
      by (rule flow_grid_smaller [OF grid(2) ref(6) _ fg]) (use flow_grid_nonneg [OF units_flow [OF inv]] in simp)
    have ff: "on_flow_grid k (pf_fee f)" by (rule flow_grid_smaller [OF grid(3) ref(7) le fgross])
    have le2: "pf_fee f \<le> units (pf_to f) L + pf_gross f"
      using le flow_grid_nonneg [OF units_flow [OF inv], of "pf_to f"] by simp
    let ?T = "dict_set (pf_to f) (units (pf_to f) L + pf_gross f - pf_fee f) (sl_totals M)"
    have ks: "key_sub (pf_to f) (pf_fee f) (sl_totals M) = Some ?T"
      using flow_grid_sub [OF fg ff le2] by (simp add: key_sub_def M)
    show thesis
    proof (rule that [where free = "sl_free L" and totals = ?T])
      show "on_flow_grid k (cr_remaining r0 - fill_spent f)" using subg by (simp add: same)
      show "\<forall>a. get_or (sl_free L) a 0 = get_or (sl_free L) a 0 - outside_fee a f" using target by (simp add: outside_fee_def)
      show "\<forall>a. dict_get ?T a = (if a \<in> insert (pf_to f) (bucket_assets L) then Some (units a L + fill_change a f) else None)"
        using tot target grid(4) from_in by (simp add: M fill_change_def)
      show "pay_fill_fee f rid r s M = Return
       (r0\<lparr>cr_remaining := cr_remaining r0 - fill_spent f\<rparr>,
        s\<lparr>es_reserved_value := cr_remaining r0 - fill_spent f, es_remaining := cr_remaining r0 - fill_spent f\<rparr>)
       ((put_slot (cr_slot_id r0)
          (s\<lparr>es_reserved_value := cr_remaining r0 - fill_spent f, es_remaining := cr_remaining r0 - fill_spent f\<rparr>)
          (put_reservation rid (r0\<lparr>cr_remaining := cr_remaining r0 - fill_spent f\<rparr>) L))
        \<lparr>sl_free := sl_free L, sl_totals := ?T\<rparr>)"
        using target ks
        by (simp add: pay_fill_fee_def or_key_error_def)
          (simp add: M put_slot_def put_reservation_def r_def s_same same)
    qed (use flow_free in simp_all)
  next
    case outside
    let ?x = "pf_fee_asset f"
    have same: "fill_spent f = pf_input f" using outside by (simp add: fill_spent_def)
    have le: "pf_fee f \<le> get_or (sl_free L) ?x 0" by (rule ref(10) [OF outside])
    then obtain w where w: "dict_get (sl_free L) ?x = Some w" "get_or (sl_free L) ?x 0 = w"
      using outside(2) by (cases "dict_get (sl_free L) ?x") (simp_all add: get_or_def)
    have fw: "on_flow_grid k w" using amounts_free [OF am, of ?x] w(2) by simp
    have lew: "pf_fee f \<le> w" using le w(2) by simp
    have ff: "on_flow_grid k (pf_fee f)" by (rule flow_grid_smaller [OF grid(3) ref(7) lew fw])
    have lu: "pf_fee f \<le> units ?x L" using lew w(2) units_bounds [OF am, of ?x] by (simp add: units_def)
    have x: "?x \<in> bucket_assets L" using get_in_keys [OF w(1)] unfolding bucket_assets_def by blast
    let ?F = "dict_set ?x (w - pf_fee f) (sl_free L)"
    let ?T = "dict_set ?x (units ?x L - pf_fee f) (sl_totals M)"
    have kf: "key_sub ?x (pf_fee f) (sl_free M) = Some ?F"
      using w flow_grid_sub [OF fw ff lew] by (simp add: key_sub_def M)
    have kt: "key_sub ?x (pf_fee f) (sl_totals M) = Some ?T"
      using outside x tot flow_grid_sub [OF units_flow [OF inv] ff lu] by (simp add: key_sub_def M)
    show thesis
    proof (rule that [where free = ?F and totals = ?T])
      show "on_flow_grid k (cr_remaining r0 - fill_spent f)" using subg by (simp add: same)
      show "\<forall>a. get_or ?F a 0 = get_or (sl_free L) a 0 - outside_fee a f"
        using outside w by (simp add: outside_fee_def get_or_set)
      show "\<forall>a. dict_get ?T a = (if a \<in> insert (pf_to f) (bucket_assets L) then Some (units a L + fill_change a f) else None)"
        using tot outside grid(4) from_in x by (auto simp: M fill_change_def)
      show "set (keys ?F) = set (keys (sl_free L))" by (rule unchanged_keys [OF w(1)])
      show "\<forall>v \<in> set (dict_values ?F). on_flow_grid k v"
        by (rule ball_values_set [OF flow_free flow_grid_diff [OF fw ff lew]])
      have "get_or (sl_free M) ?x 0 = w" using w(2) by (simp add: M)
      then show "pay_fill_fee f rid r s M = Return
       (r0\<lparr>cr_remaining := cr_remaining r0 - fill_spent f\<rparr>,
        s\<lparr>es_reserved_value := cr_remaining r0 - fill_spent f, es_remaining := cr_remaining r0 - fill_spent f\<rparr>)
       ((put_slot (cr_slot_id r0)
          (s\<lparr>es_reserved_value := cr_remaining r0 - fill_spent f, es_remaining := cr_remaining r0 - fill_spent f\<rparr>)
          (put_reservation rid (r0\<lparr>cr_remaining := cr_remaining r0 - fill_spent f\<rparr>) L))
        \<lparr>sl_free := ?F, sl_totals := ?T\<rparr>)"
        using outside kf kt lew
        by (simp add: pay_fill_fee_def or_key_error_def)
          (simp add: M put_slot_def put_reservation_def r_def s_same same)
    qed
  next
    case none
    have same: "fill_spent f = pf_input f" using none by (simp add: fill_spent_def)
    show thesis
    proof (rule that [where free = "sl_free L" and totals = "sl_totals M"])
      show "on_flow_grid k (cr_remaining r0 - fill_spent f)" using subg by (simp add: same)
      show "\<forall>a. get_or (sl_free L) a 0 = get_or (sl_free L) a 0 - outside_fee a f" using none by (simp add: outside_fee_def)
      show "\<forall>a. dict_get (sl_totals M) a = (if a \<in> insert (pf_to f) (bucket_assets L) then Some (units a L + fill_change a f) else None)"
        using tot none grid(4) from_in by (auto simp: M fill_change_def)
      show "pay_fill_fee f rid r s M = Return
       (r0\<lparr>cr_remaining := cr_remaining r0 - fill_spent f\<rparr>,
        s\<lparr>es_reserved_value := cr_remaining r0 - fill_spent f, es_remaining := cr_remaining r0 - fill_spent f\<rparr>)
       ((put_slot (cr_slot_id r0)
          (s\<lparr>es_reserved_value := cr_remaining r0 - fill_spent f, es_remaining := cr_remaining r0 - fill_spent f\<rparr>)
          (put_reservation rid (r0\<lparr>cr_remaining := cr_remaining r0 - fill_spent f\<rparr>) L))
        \<lparr>sl_free := sl_free L, sl_totals := sl_totals M\<rparr>)"
        using none
        by (simp add: pay_fill_fee_def)
          (simp add: M put_slot_def put_reservation_def r_def s_same same)
    qed (use flow_free in simp_all)
  qed
qed

lemma net_exact:
  assumes "on_grid k (pf_gross f)" "on_grid k (pf_fee f)" "0 \<le> pf_gross f" "0 \<le> pf_fee f"
    and "pf_gross f < pow10 (28 - int k)" "0 \<le> output_quantity_net f"
  shows "output_quantity_net f = pf_gross f - (if pf_fee_asset f = pf_to f then pf_fee f else 0) \<and>
     on_flow_grid k (output_quantity_net f)"
proof -
  let ?fee = "if pf_fee_asset f = pf_to f then pf_fee f else 0"
  have g: "on_flow_grid k (pf_gross f)" using assms by (simp add: on_flow_grid_def)
  have le: "?fee \<le> pf_gross f" using assms(3,6) by (simp add: output_quantity_net_def split: if_splits)
  have fee: "on_flow_grid k ?fee" by (rule flow_grid_smaller [OF _ _ le g]) (use assms(2,4) in simp_all)
  show ?thesis
    using flow_grid_sub [OF g fee le] flow_grid_diff [OF g fee le] by (simp add: output_quantity_net_def)
qed

lemma book_fill_well:
  assumes inv: "slot_inv k L" and fit: "fits k (ApplyFill rid f) L"
    and t: "sl_last_event L \<le> pf_time f" and new: "pf_fill_id f \<notin> sl_fill_ids L"
    and r0: "dict_get (sl_reservations L) rid = Some r0" and s0: "dict_get (sl_slots L) (cr_slot_id r0) = Some s0"
    and ok: "fill_refused f r0 s0 L = None"
    and r: "r = r0\<lparr>cr_remaining := cr_remaining r0 - fill_spent f\<rparr>" "on_flow_grid k (cr_remaining r)"
    and s: "es_slot_id s = es_slot_id s0" "es_origin_asset s = es_origin_asset s0" "es_lock_started s = es_lock_started s0"
      "es_reservation s = es_reservation s0" "es_activated_at s = es_activated_at s0" "es_state s = es_state s0"
      "es_reserved_value s = cr_remaining r" "es_remaining s = cr_remaining r"
    and free: "set (keys free) = set (keys (sl_free L))" "\<forall>v \<in> set (dict_values free). on_flow_grid k v"
      "\<forall>a. get_or free a 0 = get_or (sl_free L) a 0 - outside_fee a f"
    and tot: "\<forall>a. dict_get totals a =
        (if a \<in> insert (pf_to f) (bucket_assets L) then Some (units a L + fill_change a f) else None)"
  shows "goes_well k L (book_fill f rid r s
     ((put_slot (cr_slot_id r0) s (put_reservation rid r L))\<lparr>sl_free := free, sl_totals := totals\<rparr>))"
proof -
  note am = slot_invD(2) [OF inv] and ref = fill_refused_None [OF ok] and lk = slot_invD(1) [OF inv]
  have h: "holds rid r0 s0" using linked_back [OF lk r0] s0 by auto
  have sid: "es_slot_id s0 = cr_slot_id r0" by (rule linked_slot [OF lk s0])
  obtain b where b: "dict_get (sl_owned L) (cr_slot_id r0) = Some b" using slot_inv_slot(4) [OF inv s0] by blast
  have grid: "on_grid k (pf_gross f)" "on_grid k (pf_fee f)" "pf_from f \<noteq> pf_to f"
    "units (pf_to f) L + pf_gross f < pow10 (28 - int k)" using fit by simp_all
  have small: "pf_gross f < pow10 (28 - int k)"
    using grid(4) flow_grid_nonneg [OF units_flow [OF inv], of "pf_to f"] by simp
  note net = net_exact [OF grid(1,2) ref(6,7) small ref(8)]
  let ?net = "output_quantity_net f"
  have bf: "on_flow_grid k (get_or b (pf_to f) 0)" by (rule amounts_owned [OF am get_in_values [OF b]])
  have add: "dadd (get_or b (pf_to f) 0) ?net = get_or b (pf_to f) 0 + ?net \<and> on_flow_grid k (get_or b (pf_to f) 0 + ?net)"
  proof (rule flow_grid_add [OF bf conjunct2 [OF net]])
    have "?net \<le> pf_gross f" using net ref(7) by simp
    then show "get_or b (pf_to f) 0 + ?net < pow10 (28 - int k)"
      using owned_le_sum [OF am b, of "pf_to f"] units_bounds [OF am, of "pf_to f"] grid(4) by (simp add: units_def)
  qed
  define b' where "b' = dict_set (pf_to f) (get_or b (pf_to f) 0 + ?net) b"
  define gone where "gone \<longleftrightarrow> cr_remaining r = 0 \<and> cr_cancel_requested r = None"
  define s2 where "s2 = s\<lparr>es_current_asset := pf_to f,
      es_state := (if cr_cancel_requested r \<noteq> None then CANCEL_PENDING else if cr_remaining r = 0 then FILLED else PARTIAL),
      es_reservation := (if gone then None else es_reservation s)\<rparr>"
  define row where "row = AuditFill (pf_time f) (pf_fill_id f) rid (cr_slot_id r0) (pf_input f) ?net (pf_from f) (pf_to f)"
  define L' where "L' = (audited row (put_slot (cr_slot_id r0) s2 (put_owned (cr_slot_id r0) b'
      ((put_slot (cr_slot_id r0) s (put_reservation rid r L))\<lparr>sl_free := free, sl_totals := totals\<rparr>))))
      \<lparr>sl_fill_ids := insert (pf_fill_id f) (sl_fill_ids L),
       sl_attribution := dict_set (pf_fill_id f)
         \<lparr>fa_reservation_id = rid, fa_reservation_created_at = cr_created_at r, fa_slot_id = cr_slot_id r0, fa_fill = f\<rparr>
         (sl_attribution L)\<rparr>"
  define L2 where "L2 = commit_time (pf_time f) (if gone then drop_reservation rid L' else L')"
  have fields: "sl_free L2 = free" "sl_totals L2 = totals"
    "sl_slots L2 = dict_set (cr_slot_id r0) s2 (sl_slots L)"
    "sl_owned L2 = dict_set (cr_slot_id r0) b' (sl_owned L)" "sl_realized L2 = sl_realized L"
    "sl_reservations L2 = (if gone then dict_del rid (sl_reservations L) else dict_set rid r (sl_reservations L))"
    "sl_fill_ids L2 = insert (pf_fill_id f) (sl_fill_ids L)" "sl_audit L2 = sl_audit L @ [row]"
    "sl_attribution L2 = dict_set (pf_fill_id f)
       \<lparr>fa_reservation_id = rid, fa_reservation_created_at = cr_created_at r, fa_slot_id = cr_slot_id r0, fa_fill = f\<rparr>
       (sl_attribution L)" "sl_last_event L2 = pf_time f"
    by (simp_all add: L2_def L'_def dict_del_of_set)
  have res: "reserved_sum a (sl_reservations L2) = reserved_sum a (sl_reservations L) - (if a = pf_from f then fill_spent f else 0)" for a
    using lk ref(3)
    by (cases gone) (auto simp: fields gone_def linked_def r(1) reserved_sum_set [OF r0] reserved_sum_del [OF r0])
  have own: "owned_sum a (sl_owned L2) = owned_sum a (sl_owned L) + (if a = pf_to f then ?net else 0)" for a
    by (simp add: fields b'_def owned_sum_set [OF b] get_or_set)
  have units: "units a L2 = units a L + fill_change a f" for a
    unfolding units_def res own fields(1) spec [OF free(3)] using grid(3) net
    by (auto simp: fill_change_def fill_spent_def outside_fee_def)
  have ks: "set (keys b') = insert (pf_to f) (set (keys b))" by (simp add: b'_def)
  have assets: "bucket_assets L2 = bucket_assets L \<union> {pf_to f}"
    unfolding bucket_assets_def fields(1,4) free(1) owned_keys_set [OF b ks] by simp
  have less: "units a L + fill_change a f < pow10 (28 - int k)" for a
    using grid(3,4) ref(4,6,7) slot_invD(3) [OF inv, of a] by (auto simp: fill_change_def)
  have tots: "dict_get (sl_totals L2) a = (if a \<in> bucket_assets L \<union> {pf_to f} then Some (units a L + fill_change a f) else None)" for a
    using spec [OF tot, of a] by (simp add: fields)
  have "amounts_ok k (put_owned (cr_slot_id r0) b' L)"
    unfolding b'_def by (rule amounts_owned_set [OF am b]) (simp add: add)
  moreover have "amounts_ok k (put_reservation rid r L)" by (rule amounts_reservation_set [OF am r(2)])
  moreover have "amounts_ok k (drop_reservation rid L)" by (rule amounts_reservation_del [OF am])
  ultimately have am2: "amounts_ok k L2"
    unfolding amounts_ok_def fields put_fields using free(2) by (cases gone; simp only: if_True if_False; blast)
  have attr: "set (keys (sl_attribution L2)) = sl_fill_ids L2"
    using slot_invD(7) [OF inv] by (simp add: fields)
  have okeys: "set (keys (sl_owned L2)) = set (keys (sl_owned L))" unfolding fields by (rule unchanged_keys [OF b])
  have "slot_inv k L2"
  proof (cases gone)
    case True
    show ?thesis
      by (rule dropped_inv [OF inv _ r0 s0 _ _ _ _ _ fields(3) _ okeys _ _ attr am2 units less assets tots])
        (use True s t free(1) in \<open>simp_all add: fields s2_def gone_def\<close>)
  next
    case False
    have "holds rid r s2"
      using h False ref(1,2) s unfolding holds_def gone_def s2_def by (auto simp: r(1))
    then show ?thesis
      by (intro kept_inv [OF inv _ r0 s0 _ _ _ _ _ _ fields(3) _ okeys _ _ attr am2 units less assets tots])
        (use False s t free(1) in \<open>simp_all add: fields r(1) s2_def\<close>)
  qed
  moreover have "opening_units a L2 = opening_units a L" for a
  proof -
    have "dict_get (sl_attribution L) (pf_fill_id f) = None"
      using new slot_invD(7) [OF inv] by (simp add: map_of_eq_None_iff)
    from sum_list_new [OF this, of "\<lambda>row. fill_change a (fa_fill row)"] show ?thesis
      unfolding opening_units_def units by (simp add: postings_def fields row_def)
  qed
  ultimately have "goes_well k L (reconciled () L2)" using t by (intro gw_reconciled) (simp_all add: fields)
  moreover have "book_fill f rid r s
      ((put_slot (cr_slot_id r0) s (put_reservation rid r L))\<lparr>sl_free := free, sl_totals := totals\<rparr>) = reconciled () L2"
    unfolding book_fill_def with_key_def Let_def L2_def L'_def s2_def row_def b'_def gone_def
    using b sid s(1) add by (simp add: r(1) conj_commute)
  ultimately show ?thesis by simp
qed

lemma apply_fill_well:
  assumes inv: "slot_inv k L" and fit: "fits k (ApplyFill rid f) L"
  shows "goes_well k L (sl_apply_fill rid f L)"
  unfolding sl_apply_fill_def Let_def
proof (intro gw_causal gw_key gw_if gw_raise gw_option, goal_cases)
  case (1 r0 s0)
  note t = 1(1) and new = 1(2) and r0 = 1(3) and s0 = 1(4) and ok = 1(5)
  note ref = fill_refused_None [OF ok] and rr = slot_inv_reservation [OF inv r0] and am = slot_invD(2) [OF inv]
  have grid: "on_grid k (pf_input f)" "on_grid k (pf_gross f)" "pf_from f \<noteq> pf_to f"
    "units (pf_to f) L + pf_gross f < pow10 (28 - int k)" using fit by simp_all
  have fi: "on_flow_grid k (pf_input f)" by (rule flow_grid_smaller [OF grid(1) _ ref(5) rr(2)]) (use ref(4) in simp)
  have left: "dsub (cr_remaining r0) (pf_input f) = cr_remaining r0 - pf_input f" by (rule flow_grid_sub [OF rr(2) fi ref(5)])
  have "cr_remaining r0 \<le> units (pf_from f) L"
    using reserved_le_sum [OF am r0, of "pf_from f"] units_bounds [OF am, of "pf_from f"] ref(3) by (simp add: units_def)
  then have usub: "dsub (units (pf_from f) L) (pf_input f) = units (pf_from f) L - pf_input f"
    by (intro flow_grid_sub [OF units_flow [OF inv] fi]) (use ref(5) in simp)
  have fgross: "on_flow_grid k (pf_gross f)"
    using grid(2,4) ref(6) flow_grid_nonneg [OF units_flow [OF inv], of "pf_to f"] by (simp add: on_flow_grid_def)
  have uadd: "dadd (units (pf_to f) L) (pf_gross f) = units (pf_to f) L + pf_gross f"
    using flow_grid_add [OF units_flow [OF inv] fgross grid(4)] by simp
  let ?r = "r0\<lparr>cr_remaining := cr_remaining r0 - pf_input f\<rparr>"
  let ?s = "s0\<lparr>es_reserved_value := cr_remaining r0 - pf_input f, es_remaining := cr_remaining r0 - pf_input f,
             es_filled := dadd (es_filled s0) (pf_input f)\<rparr>"
  let ?s1 = "?s\<lparr>es_reserved_value := cr_remaining r0 - fill_spent f, es_remaining := cr_remaining r0 - fill_spent f\<rparr>"
  let ?T1 = "dict_set (pf_from f) (units (pf_from f) L - pf_input f) (sl_totals L)"
  have same_slot: "cr_slot_id ?r = cr_slot_id r0" by simp
  have k1: "key_sub (pf_from f) (pf_input f) (sl_totals L) = Some ?T1"
    using slot_invD(4) [OF inv, of "pf_from f"] rr(1) ref(3) usub by (simp add: key_sub_def)
  have k2: "get_or ?T1 (pf_to f) 0 = units (pf_to f) L"
    using totals_get_or [OF inv, of "pf_to f"] grid(3) by (simp add: get_or_set)
  obtain free totals where p: "pay_fill_fee f rid ?r ?s ((put_slot (cr_slot_id r0) ?s (put_reservation rid ?r L))
        \<lparr>sl_totals := dict_set (pf_to f) (units (pf_to f) L + pf_gross f) ?T1\<rparr>) =
      Return (r0\<lparr>cr_remaining := cr_remaining r0 - fill_spent f\<rparr>, ?s1)
       ((put_slot (cr_slot_id r0) ?s1 (put_reservation rid (r0\<lparr>cr_remaining := cr_remaining r0 - fill_spent f\<rparr>) L))
          \<lparr>sl_free := free, sl_totals := totals\<rparr>)"
    "on_flow_grid k (cr_remaining r0 - fill_spent f)"
    "set (keys free) = set (keys (sl_free L))" "\<forall>v \<in> set (dict_values free). on_flow_grid k v"
    "\<forall>a. get_or free a 0 = get_or (sl_free L) a 0 - outside_fee a f"
    "\<forall>a. dict_get totals a = (if a \<in> insert (pf_to f) (bucket_assets L) then Some (units a L + fill_change a f) else None)"
    by (rule fill_paid [OF inv fit r0 s0 ok refl])
  have "goes_well k L (book_fill f rid (r0\<lparr>cr_remaining := cr_remaining r0 - fill_spent f\<rparr>) ?s1
     ((put_slot (cr_slot_id r0) ?s1 (put_reservation rid (r0\<lparr>cr_remaining := cr_remaining r0 - fill_spent f\<rparr>) L))
          \<lparr>sl_free := free, sl_totals := totals\<rparr>))"
    by (rule book_fill_well [OF inv fit t new r0 s0 ok refl _ _ _ _ _ _ _ _ _ p(3-6)]) (simp_all add: p(2))
  then show ?case
    by (simp only: option.case left or_key_error_def put_fields k1 k2 uadd and_then.simps p(1) prod.case
        same_slot)
qed

lemma exec_slot_well: "slot_inv k L \<Longrightarrow> fits k op L \<Longrightarrow> goes_well k L (exec_slot op L)"
  by (cases op)
    (simp_all add: create_slot_well reserve_free_well reserve_owned_well activate_well request_cancel_well
      acknowledge_cancel_well apply_fill_well debit_reserved_well debit_owned_well close_slot_well register_well
      settle_well)

end
