(* ===== verification/Multi_Stable_Ledger_Facts.thy ===== *)
theory Multi_Stable_Ledger_Facts
  imports Multi_Stable_Ledger_Ops
begin

text \<open>
  What the slot ledger promises: it is a plain account behind its buckets, its calls are
  atomic, a reservation is held by one slot, a cancelled reservation leaves no trace, a cycle
  never closes at a loss and a loss is only taken under a registered authorization, once.
\<close>

section \<open>Runs of calls that fit\<close>

primrec fits_run ::
    "('op \<Rightarrow> 's \<Rightarrow> ('r, 's) outcome) \<Rightarrow> ('op \<Rightarrow> 's \<Rightarrow> bool) \<Rightarrow> 'op list \<Rightarrow> 's \<Rightarrow> bool" where
  "fits_run exec fit [] s \<longleftrightarrow> True"
| "fits_run exec fit (op # ops) s \<longleftrightarrow>
     fit op s \<and> (case exec op s of Return r s' \<Rightarrow> fits_run exec fit ops s' | Raise e s' \<Rightarrow> True)"

text \<open>An invariant and a conserved quantity, for a component whose calls must fit its state.\<close>

locale amount_ops =
  fixes exec :: "'op \<Rightarrow> 's \<Rightarrow> ('r, 's) outcome"
    and inv :: "'s \<Rightarrow> bool" and fit :: "'op \<Rightarrow> 's \<Rightarrow> bool" and amount :: "'s \<Rightarrow> 'a"
  assumes conserves: "inv s \<Longrightarrow> fit op s \<Longrightarrow> exec op s = Return r s' \<Longrightarrow> inv s' \<and> amount s' = amount s"
begin

lemma run_keeps_amount:
  "inv s \<Longrightarrow> fits_run exec fit ops s \<Longrightarrow> run_ops exec ops s = Return rs s' \<Longrightarrow> inv s' \<and> amount s' = amount s"
proof (induction ops arbitrary: s rs)
  case (Cons op ops)
  then obtain r s1 rs1 where "exec op s = Return r s1" "run_ops exec ops s1 = Return rs1 s'" by auto
  then show ?case using Cons.IH [of s1 rs1] Cons.prems conserves [of s op r s1] by auto
qed simp

end

interpretation slot_ops: amount_ops exec_slot "slot_inv k" "fits k" "\<lambda>L a. opening_units a L" for k
  by unfold_locales (use exec_slot_well in \<open>fastforce simp: goes_well_def\<close>)

section \<open>A new ledger\<close>

definition fresh_amounts :: "nat \<Rightarrow> (string, decimal) dict \<Rightarrow> bool" where
  "fresh_amounts k d \<longleftrightarrow> (\<forall>v \<in> set (dict_values d). on_grid k v \<and> v < pow10 (28 - int k))"

lemma new_slot_ledger_inv:
  assumes "new_slot_ledger balances marks = Inr L" "fresh_amounts k balances"
  shows "slot_inv k L" "opening_units a L = get_or balances a 0"
proof -
  have L: "sl_free L = balances" "sl_totals L = balances" "sl_slots L = []" "sl_reservations L = []"
    "sl_owned L = []" "sl_realized L = map_values (\<lambda>_. 0) balances" "sl_attribution L = []" "sl_fill_ids L = {}"
    "sl_audit L = []"
    using assms(1) by (auto simp: new_slot_ledger_def Let_def split: if_splits sum.splits)
  have "\<forall>v \<in> set (dict_values balances). 0 \<le> v"
    using assms(1) unfolding new_slot_ledger_def Let_def by (auto simp: not_less split: if_splits)
  then have flow: "\<forall>v \<in> set (dict_values balances). on_flow_grid k v"
    using assms(2) unfolding fresh_amounts_def on_flow_grid_def by blast
  have units: "units a L = get_or balances a 0" for a by (simp add: units_def L reserved_sum_def owned_sum_def)
  have assets: "bucket_assets L = set (keys balances)" by (simp add: bucket_assets_def L)
  have "get_or balances a 0 < pow10 (28 - int k)" for a
    using get_or_flow_grid [OF flow, of a] by (simp add: on_flow_grid_def)
  moreover have "dict_get balances a = (if a \<in> set (keys balances) then Some (get_or balances a 0) else None)" for a
    by (cases "dict_get balances a") (auto simp: get_or_def map_of_eq_None_iff dest: get_in_keys)
  ultimately show "slot_inv k L"
    unfolding slot_inv_def balanced_def amounts_ok_def units assets L using flow
    by (simp add: linked_def del: set_map)
  show "opening_units a L = get_or balances a 0" by (simp add: opening_units_def postings_def units L)
qed

section \<open>Sample ledgers\<close>

lemma case_Raise_iff: "(case m of Return r s \<Rightarrow> False | Raise e s \<Rightarrow> e = e') \<longleftrightarrow> (\<exists>s. m = Raise e' s)"
  by (cases m) auto

lemma case_Return_iff: "(case m of Return r s \<Rightarrow> P r s | Raise e s \<Rightarrow> False) \<longleftrightarrow> (\<exists>r s. m = Return r s \<and> P r s)"
  by (cases m) simp_all

lemma on_grid_code [code]: "on_grid k x \<longleftrightarrow> of_int \<lfloor>x * 10 ^ k\<rfloor> = x * 10 ^ k"
  by (metis Ints_cases Ints_of_int floor_of_int on_grid_def)

lemma known_keys: "dict_get d x = Some w \<Longrightarrow> keys (dict_set x v d) = keys d"
  using get_in_keys [of d x w] by (simp add: keys_set del: set_map)

lemma key_has_value: "x \<in> set (keys d) \<Longrightarrow> \<exists>v. dict_get d x = Some v"
  by (cases "dict_get d x") (simp_all add: map_of_eq_None_iff)

definition sample_balances :: "(string, decimal) dict" where
  "sample_balances = [(''USDT'', 100), (''USDC'', 20), (''BNB'', 1)]"

definition sample_marks :: "(string, decimal) dict" where
  "sample_marks = [(''USDT'', 1), (''USDC'', 1), (''BNB'', 50)]"

definition sample_slots :: slot_ledger where
  "sample_slots = projr (new_slot_ledger sample_balances sample_marks)"

lemma sample_slots_eq: "new_slot_ledger sample_balances sample_marks = Inr sample_slots"
  unfolding sample_slots_def by code_simp

lemma sample_fresh: "fresh_amounts 8 sample_balances"
  by (simp add: fresh_amounts_def sample_balances_def on_grid_def pow10_def)

definition sample_fill :: physical_fill where
  "sample_fill = \<lparr>pf_fill_id = ''F1'', pf_symbol = ''USDCUSDT'', pf_from = ''USDT'', pf_to = ''USDC'',
     pf_input = 10, pf_gross = 10, pf_fee_asset = ''BNB'', pf_fee = 1 / 100, pf_time = 4\<rparr>"

definition sample_slot_ops :: "slot_op list" where
  "sample_slot_ops =
     [CreateSlot ''S1'' ''USDT'' 25 1 1, ReserveFree ''S1'' ''R1'' ''USDT'' 25 2, SlotActivate ''R1'' 3,
      ApplyFill ''R1'' sample_fill]"

definition sample_sold :: slot_ledger where
  "sample_sold = post_state (run_ops exec_slot sample_slot_ops sample_slots)"

lemma sample_slot_runs:
  "case run_ops exec_slot sample_slot_ops sample_slots of
     Return rs L \<Rightarrow> sl_free L = [(''USDT'', 75), (''USDC'', 20), (''BNB'', 99 / 100)] \<and>
       dict_get (sl_totals L) ''USDT'' = Some 90 \<and> map es_state (dict_values (sl_slots L)) = [PARTIAL] \<and>
       keys (sl_reservations L) = [''R1'']
   | Raise _ _ \<Rightarrow> False"
  by code_simp

lemma sample_run:
  obtains rs where "run_ops exec_slot sample_slot_ops sample_slots = Return rs sample_sold"
    "dict_get (sl_totals sample_sold) ''USDT'' = Some 90" "keys (sl_reservations sample_sold) = [''R1'']"
  using sample_slot_runs unfolding sample_sold_def
  by (cases "run_ops exec_slot sample_slot_ops sample_slots") simp_all

lemma sample_fits: "fits_run exec_slot (fits 8) sample_slot_ops sample_slots"
  by code_simp

section \<open>Claims\<close>

text \<open>
  C2: the three kinds of bucket implement a plain account. Whatever calls are made, as long as
  their amounts are on the decimal grid, what the ledger holds of an asset is its initial
  balance plus the postings of the attributed fills and cost debits, its own total says so
  too, and \<^verbatim>\<open>reconcile\<close> finds nothing wrong.
\<close>

theorem ledger_is_an_account:
  assumes "new_slot_ledger balances marks = Inr L0" and "fresh_amounts k balances"
    and "fits_run exec_slot (fits k) ops L0" and "run_ops exec_slot ops L0 = Return rs L"
  shows "units a L = get_or balances a 0 + postings a L \<and> get_or (sl_totals L) a 0 = units a L \<and>
     0 \<le> units a L \<and> slot_reconcile_error L = None"
proof -
  have run: "slot_inv k L \<and> (\<lambda>a. opening_units a L) = (\<lambda>a. opening_units a L0)"
    by (rule slot_ops.run_keeps_amount [OF new_slot_ledger_inv(1) [OF assms(1,2)] assms(3,4)])
  then have "opening_units a L = get_or balances a 0"
    using new_slot_ledger_inv(2) [OF assms(1,2)] by metis
  then show ?thesis
    using run totals_get_or reconcile_succeeds flow_grid_nonneg [OF units_flow]
    by (simp add: opening_units_def) blast
qed

theorem ledger_is_an_account_witness:
  "units ''USDT'' sample_sold = 100 + postings ''USDT'' sample_sold \<and> units ''USDT'' sample_sold = 90"
proof -
  obtain rs where run: "run_ops exec_slot sample_slot_ops sample_slots = Return rs sample_sold"
    "dict_get (sl_totals sample_sold) ''USDT'' = Some 90" by (rule sample_run)
  from ledger_is_an_account [OF sample_slots_eq sample_fresh sample_fits run(1), of "''USDT''"] run(2)
  show ?thesis by (simp add: get_or_def sample_balances_def)
qed

text \<open>
  C36: a call on a consistent ledger is atomic, within two limits. Its amounts lie on the
  decimal grid, within the 28 digits, and a fill exchanges two different assets (\<open>fits\<close>): a
  fill of an asset into itself can be booked and then fail the closing reconciliation
  (\<open>self_fill_breaks_reconciliation\<close> below). And the error is not the one of
  \<^verbatim>\<open>close_slot\<close> for a slot that never held a reservation, which is raised after the slot was
  changed (\<open>close_without_lock\<close> below). Any other error leaves the ledger as it was.
\<close>

theorem slot_call_is_atomic:
  assumes "slot_inv k L" and "fits k op L" and "exec_slot op L = Raise e L'"
    and "e \<noteq> ValueError ''M032_SLOT_CLOSE_WITHOUT_CAPITAL_LOCK''"
  shows "L' = L"
  using exec_slot_well [OF assms(1,2)] assms(3,4) by (simp add: goes_well_def)

lemma sample_slots_inv: "slot_inv 8 sample_slots"
  by (rule new_slot_ledger_inv(1) [OF sample_slots_eq sample_fresh])

lemma sample_sold_inv: "slot_inv 8 sample_sold"
proof -
  obtain rs where "run_ops exec_slot sample_slot_ops sample_slots = Return rs sample_sold" by (rule sample_run)
  from slot_ops.run_keeps_amount [OF sample_slots_inv sample_fits this] show ?thesis by simp
qed

definition sample_idle :: slot_ledger where
  "sample_idle = post_state (run_ops exec_slot [CreateSlot ''S1'' ''USDT'' 25 1 1] sample_slots)"

lemma idle_runs:
  "case run_ops exec_slot [CreateSlot ''S1'' ''USDT'' 25 1 1] sample_slots of
     Return rs L \<Rightarrow> sl_free L = sample_balances \<and>
       (case reserve_free ''S1'' ''R1'' ''USDT'' 25 2 L of
          Return r L1 \<Rightarrow> (case sl_request_cancel ''R1'' 3 L1 of
            Return u L2 \<Rightarrow> (case sl_acknowledge_cancel ''R1'' 4 L2 of Return x L3 \<Rightarrow> True | Raise _ _ \<Rightarrow> False)
          | Raise _ _ \<Rightarrow> False)
        | Raise _ _ \<Rightarrow> False) \<and>
       (case exec_slot (ReserveFree ''S1'' ''R2'' ''USDT'' 500 5) L of
          Raise e L' \<Rightarrow> e = ValueError ''M032_FREE_CAPITAL_INSUFFICIENT'' | Return _ _ \<Rightarrow> False)
   | Raise _ _ \<Rightarrow> False"
  by code_simp

lemma idle_run:
  obtains rs r L1 L2 x L3 L' where "run_ops exec_slot [CreateSlot ''S1'' ''USDT'' 25 1 1] sample_slots = Return rs sample_idle"
    "sl_free sample_idle = sample_balances" "reserve_free ''S1'' ''R1'' ''USDT'' 25 2 sample_idle = Return r L1"
    "sl_request_cancel ''R1'' 3 L1 = Return () L2" "sl_acknowledge_cancel ''R1'' 4 L2 = Return x L3"
    "exec_slot (ReserveFree ''S1'' ''R2'' ''USDT'' 500 5) sample_idle = Raise (ValueError ''M032_FREE_CAPITAL_INSUFFICIENT'') L'"
proof -
  obtain rs L r L1 u L2 x L3 L' where L: "run_ops exec_slot [CreateSlot ''S1'' ''USDT'' 25 1 1] sample_slots = Return rs L"
    "sl_free L = sample_balances" "reserve_free ''S1'' ''R1'' ''USDT'' 25 2 L = Return r L1"
    "sl_request_cancel ''R1'' 3 L1 = Return u L2" "sl_acknowledge_cancel ''R1'' 4 L2 = Return x L3"
    "exec_slot (ReserveFree ''S1'' ''R2'' ''USDT'' 500 5) L = Raise (ValueError ''M032_FREE_CAPITAL_INSUFFICIENT'') L'"
    using idle_runs unfolding case_Return_iff case_Raise_iff by (elim exE conjE) (rule that; simp only:)
  have "L = sample_idle" by (simp only: sample_idle_def L(1) post_state.simps)
  then show thesis using that [of rs r L1 L2 x L3 L'] L by (cases u) (simp only: refl)
qed

lemma sample_idle_inv: "slot_inv 8 sample_idle"
proof -
  obtain rs where run: "run_ops exec_slot [CreateSlot ''S1'' ''USDT'' 25 1 1] sample_slots = Return rs sample_idle"
    by (rule idle_run)
  have "fits_run exec_slot (fits 8) [CreateSlot ''S1'' ''USDT'' 25 1 1] sample_slots"
    by (simp split: outcome.splits)
  then show ?thesis using slot_ops.run_keeps_amount [OF sample_slots_inv _ run] by simp
qed

theorem slot_call_is_atomic_witness:
  "\<exists>L. exec_slot (ReserveFree ''S1'' ''R2'' ''USDT'' 500 5) sample_idle = Raise (ValueError ''M032_FREE_CAPITAL_INSUFFICIENT'') L \<and>
     L = sample_idle"
proof -
  obtain L where r: "exec_slot (ReserveFree ''S1'' ''R2'' ''USDT'' 500 5) sample_idle =
      Raise (ValueError ''M032_FREE_CAPITAL_INSUFFICIENT'') L" by (rule idle_run)
  have "L = sample_idle"
    by (rule slot_call_is_atomic [OF sample_idle_inv _ r]) (simp_all add: on_grid_def)
  with r show ?thesis by (intro exI conjI)
qed

text \<open>
  C27: slots and reservations stay paired. Every reservation is held by the one slot it names,
  which shows its remainder; a cancel request is pending exactly while that slot says so; a
  remainder of zero is only kept for the acknowledgement of a cancel; and a slot without a
  reservation is free, filled or closed.
\<close>

theorem reservations_are_held:
  assumes "slot_inv k L0" and "fits_run exec_slot (fits k) ops L0" and "run_ops exec_slot ops L0 = Return rs L"
  shows "(\<forall>rid r. dict_get (sl_reservations L) rid = Some r \<longrightarrow>
       (\<exists>s. dict_get (sl_slots L) (cr_slot_id r) = Some s \<and> es_reservation s = Some rid \<and>
          es_reserved_value s = cr_remaining r \<and> 0 \<le> cr_remaining r \<and>
          (cr_cancel_requested r \<noteq> None \<longleftrightarrow> es_state s = CANCEL_PENDING) \<and>
          (cr_remaining r = 0 \<longrightarrow> es_state s = CANCEL_PENDING))) \<and>
     (\<forall>sid s. dict_get (sl_slots L) sid = Some s \<longrightarrow>
       (case es_reservation s of
          None \<Rightarrow> es_state s \<in> {FREE, FILLED, CLOSED}
        | Some rid \<Rightarrow> \<exists>r. dict_get (sl_reservations L) rid = Some r \<and> cr_slot_id r = sid))"
proof (intro conjI allI impI)
  have inv: "slot_inv k L" using slot_ops.run_keeps_amount [OF assms] by blast
  show "\<exists>s. dict_get (sl_slots L) (cr_slot_id r) = Some s \<and> es_reservation s = Some rid \<and>
          es_reserved_value s = cr_remaining r \<and> 0 \<le> cr_remaining r \<and>
          (cr_cancel_requested r \<noteq> None \<longleftrightarrow> es_state s = CANCEL_PENDING) \<and>
          (cr_remaining r = 0 \<longrightarrow> es_state s = CANCEL_PENDING)"
    if "dict_get (sl_reservations L) rid = Some r" for rid r
    using slot_inv_reservation(2,4) [OF inv that] flow_grid_nonneg unfolding holds_def by blast
  show "case es_reservation s of
          None \<Rightarrow> es_state s \<in> {FREE, FILLED, CLOSED}
        | Some rid \<Rightarrow> \<exists>r. dict_get (sl_reservations L) rid = Some r \<and> cr_slot_id r = sid"
    if "dict_get (sl_slots L) sid = Some s" for sid s
    using linked_at [OF slot_invD(1) [OF inv] that] unfolding holds_def by (auto split: option.splits)
qed

theorem reservations_are_held_witness:
  "\<exists>r s. dict_get (sl_reservations sample_sold) ''R1'' = Some r \<and>
     dict_get (sl_slots sample_sold) (cr_slot_id r) = Some s \<and> es_reserved_value s = cr_remaining r"
proof -
  obtain rs where run: "run_ops exec_slot sample_slot_ops sample_slots = Return rs sample_sold"
    "keys (sl_reservations sample_sold) = [''R1'']" by (rule sample_run)
  have "''R1'' \<in> set (keys (sl_reservations sample_sold))" unfolding run(2) by simp
  note held_there = key_has_value [OF this]
  from held_there obtain r where r: "dict_get (sl_reservations sample_sold) ''R1'' = Some r" by (elim exE) (rule that; assumption)
  have "\<exists>s. dict_get (sl_slots sample_sold) (cr_slot_id r) = Some s \<and> es_reservation s = Some ''R1'' \<and>
      es_reserved_value s = cr_remaining r \<and> 0 \<le> cr_remaining r \<and>
      (cr_cancel_requested r \<noteq> None \<longleftrightarrow> es_state s = CANCEL_PENDING) \<and> (cr_remaining r = 0 \<longrightarrow> es_state s = CANCEL_PENDING)"
    by (rule conjunct1 [OF reservations_are_held [OF sample_slots_inv sample_fits run(1)], THEN spec, THEN spec, THEN mp, OF r])
  then obtain s where "dict_get (sl_slots sample_sold) (cr_slot_id r) = Some s" "es_reserved_value s = cr_remaining r"
    by (elim exE conjE) (rule that; assumption)
  with r show ?thesis by (intro exI conjI)
qed


text \<open>
  A cancelled reservation leaves no trace. A reservation of free capital on a consistent
  ledger that is cancelled before any fill gives back exactly what it took: afterwards the
  free capital, the reservations, the owned buckets and the totals are the ones before it.
\<close>

lemma cancel_undoes_reserve:
  assumes inv: "slot_inv k L" and grid: "on_grid k quantity"
    and reserve: "reserve_free sid rid asset quantity t1 L = Return r L1"
    and request: "sl_request_cancel rid t2 L1 = Return () L2"
    and ack: "sl_acknowledge_cancel rid t3 L2 = Return released L3"
  shows "released = quantity \<and> sl_free L3 = sl_free L \<and> sl_reservations L3 = sl_reservations L \<and>
     sl_owned L3 = sl_owned L \<and> sl_totals L3 = sl_totals L \<and> keys (sl_slots L3) = keys (sl_slots L)"
proof -
  note am = slot_invD(2) [OF inv]
  obtain s w where s: "dict_get (sl_slots L) sid = Some s" and none: "dict_get (sl_reservations L) rid = None"
    and q: "0 < quantity" "quantity \<le> get_or (sl_free L) asset 0" and w: "dict_get (sl_free L) asset = Some w"
    and L1: "Return r L1 = create_reservation s rid asset quantity t1 ''FREE''
               (L\<lparr>sl_free := dict_set asset (dsub w quantity) (sl_free L)\<rparr>)"
    using reserve
    by (auto simp: reserve_free_def sl_causal_def with_key_def or_key_error_def key_sub_def has_key_iff
        split: if_splits option.splits)
  have sid: "es_slot_id s = sid" by (rule linked_slot [OF slot_invD(1) [OF inv] s])
  have wq: "quantity \<le> w" using q(2) w by (simp add: get_or_def)
  have fw: "on_flow_grid k w" using amounts_free [OF am, of asset] w by (simp add: get_or_def)
  have fq: "on_flow_grid k quantity" using flow_grid_smaller [OF grid _ wq fw] q(1) by simp
  note sub = flow_grid_sub [OF fw fq wq] and left = flow_grid_diff [OF fw fq wq]
  have add: "dadd (w - quantity) quantity = w"
    using flow_grid_add [OF left fq] fw by (simp add: on_flow_grid_def)
  have fields1: "sl_free L1 = dict_set asset (w - quantity) (sl_free L)" "sl_owned L1 = sl_owned L"
    "sl_totals L1 = sl_totals L" "dict_get (sl_slots L1) sid \<noteq> None" "keys (sl_slots L1) = keys (sl_slots L)"
    "sl_reservations L1 = dict_set rid r (sl_reservations L)"
    "cr_slot_id r = sid" "cr_asset r = asset" "cr_remaining r = quantity" "cr_source r = ''FREE''"
    using L1 known_keys [OF s] unfolding create_reservation_def reconciled_def Let_def
    by (auto simp: sub sid split: option.splits)
  obtain s1 where s1: "dict_get (sl_slots L1) sid = Some s1" using fields1(4) by blast
  let ?r = "r\<lparr>cr_cancel_requested := Some t2\<rparr>"
  have L2: "sl_free L2 = sl_free L1" "sl_owned L2 = sl_owned L" "sl_totals L2 = sl_totals L"
    "sl_reservations L2 = dict_set rid ?r (sl_reservations L)" "keys (sl_slots L2) = keys (sl_slots L)"
    "dict_get (sl_slots L2) sid = Some (s1\<lparr>es_state := CANCEL_PENDING\<rparr>)"
    using request fields1 s1 known_keys [OF s1]
    by (auto simp: sl_request_cancel_def sl_causal_def with_key_def split: if_splits)
  have "released = quantity \<and> sl_free L3 = dict_set asset (dadd (w - quantity) quantity) (sl_free L2) \<and>
      sl_reservations L3 = dict_del rid (sl_reservations L2) \<and> sl_owned L3 = sl_owned L2 \<and>
      sl_totals L3 = sl_totals L2 \<and> keys (sl_slots L3) = keys (sl_slots L2)"
    using ack L2 fields1 known_keys [OF L2(6)]
    by (auto simp: sl_acknowledge_cancel_def sl_causal_def with_key_def released_to_source_def or_key_error_def
        key_add_def reconciled_def Let_def split: if_splits option.splits)
  then show ?thesis
    using dict_set_same [OF w] by (simp add: add L2 fields1 dict_del_of_set del_absent none map_of_eq_None_iff [symmetric])
qed

lemma cancel_undoes_reserve_witness:
  "\<exists>r L1 L2 x L3. reserve_free ''S1'' ''R1'' ''USDT'' 25 2 sample_idle = Return r L1 \<and>
     sl_request_cancel ''R1'' 3 L1 = Return () L2 \<and> sl_acknowledge_cancel ''R1'' 4 L2 = Return x L3 \<and>
     x = 25 \<and> sl_free L3 = sample_balances"
proof -
  obtain rs r L1 L2 x L3 where run: "run_ops exec_slot [CreateSlot ''S1'' ''USDT'' 25 1 1] sample_slots = Return rs sample_idle"
    "sl_free sample_idle = sample_balances" "reserve_free ''S1'' ''R1'' ''USDT'' 25 2 sample_idle = Return r L1"
    "sl_request_cancel ''R1'' 3 L1 = Return () L2" "sl_acknowledge_cancel ''R1'' 4 L2 = Return x L3"
    by (rule idle_run)
  have "x = 25" "sl_free L3 = sl_free sample_idle"
    using cancel_undoes_reserve [OF sample_idle_inv _ run(3-5)] by (simp_all add: on_grid_def)
  then show ?thesis using run(3-5) unfolding run(2) by (intro exI conjI)
qed

text \<open>
  A cycle never closes at a loss. When \<^verbatim>\<open>close_slot\<close> returns, the slot held no open
  reservation, the profit it reports is what the slot owns of its origin asset less the
  opening quantity and the extra cost, it is not negative, it is booked as realized, the owned
  quantity is free again and the slot is closed under the given cycle.
\<close>

lemma cycle_closes_in_profit:
  assumes "close_slot sid quantity now cycle_id cost L = Return pnl L'"
  shows "\<exists>s bucket s'. dict_get (sl_slots L) sid = Some s \<and> dict_get (sl_owned L) sid = Some bucket \<and>
     es_reservation s = None \<and> 0 \<le> pnl \<and>
     pnl = dsub (dsub (get_or bucket (es_origin_asset s) 0) quantity) cost \<and>
     get_or (sl_free L') (es_origin_asset s) 0 =
       dadd (get_or (sl_free L) (es_origin_asset s) 0) (get_or bucket (es_origin_asset s) 0) \<and>
     get_or (sl_realized L') (es_origin_asset s) 0 = dadd (get_or (sl_realized L) (es_origin_asset s) 0) pnl \<and>
     sl_owned L' = dict_set sid (dict_set (es_origin_asset s) 0 bucket) (sl_owned L) \<and>
     dict_get (sl_slots L') sid = Some s' \<and> es_state s' = CLOSED \<and> es_cycle s' = Some cycle_id"
proof -
  obtain s bucket where s: "dict_get (sl_slots L) sid = Some s" "dict_get (sl_owned L) sid = Some bucket"
    using assms by (auto simp: close_slot_def sl_causal_def with_key_def split: if_splits option.splits)
  then show ?thesis
    using assms
    by (auto simp: close_slot_def sl_causal_def with_key_def or_key_error_def key_add_def reconciled_def Let_def
        get_or_def not_less split: if_splits option.splits)
qed

definition sample_exit_fill :: physical_fill where
  "sample_exit_fill = sample_fill\<lparr>pf_fill_id := ''F2'', pf_from := ''USDC'', pf_to := ''USDT'', pf_gross := 11,
     pf_fee := 0, pf_time := 7\<rparr>"

definition sample_round_ops :: "slot_op list" where
  "sample_round_ops =
     [CreateSlot ''S1'' ''USDT'' 10 1 1, ReserveFree ''S1'' ''R1'' ''USDT'' 10 2, SlotActivate ''R1'' 3,
      ApplyFill ''R1'' sample_fill, ReserveOwned ''S1'' ''R2'' ''USDC'' 10 5, SlotActivate ''R2'' 6,
      ApplyFill ''R2'' sample_exit_fill]"

lemma round_runs:
  "case run_ops exec_slot sample_round_ops sample_slots of
     Return rs L \<Rightarrow> (case close_slot ''S1'' 10 8 ''C1'' (1 / 10) L of
        Return pnl L' \<Rightarrow> pnl = 9 / 10 | Raise _ _ \<Rightarrow> False)
   | Raise _ _ \<Rightarrow> False"
  by code_simp

lemma cycle_closes_in_profit_witness:
  "\<exists>L pnl L'. close_slot ''S1'' 10 8 ''C1'' (1 / 10) L = Return pnl L' \<and> pnl = 9 / 10 \<and> 0 \<le> pnl"
proof -
  obtain L pnl L' where r: "close_slot ''S1'' 10 8 ''C1'' (1 / 10) L = Return pnl L'" "pnl = 9 / 10"
    using round_runs unfolding case_Return_iff by (elim exE conjE) (rule that; assumption)
  have "0 \<le> pnl" using cycle_closes_in_profit [OF r(1)] by (elim exE conjE)
  with r show ?thesis by (intro exI conjI)
qed
section \<open>Authorized losses\<close>

definition sample_reduction :: reduction_authorization where
  "sample_reduction = \<lparr>ira_id = ''A1'', ira_slot_id = ''S1'', ira_slot_epoch = 1, ira_quantity = 10, ira_cost_basis = 10,
     ira_inventory_asset = ''USDC'', ira_origin_asset = ''USDT'', ira_exit_reservation = ''X1'', ira_fee_marks = [],
     ira_decided_at = 5, ira_expires_at = 9, ira_rule_id = ''RULE'', ira_rule_hash = ''HASH'',
     ira_reason = ''NEGATIVE_EXIT_RISK_RULE_TRIGGERED'', ira_trigger_reason = ''DEPEG'', ira_expected_hold_loss = 1,
     ira_opportunity_cost = 1, ira_tail_risk = 0, ira_realized_loss = 1\<rparr>"

definition sample_reduction_ledger :: slot_ledger where
  "sample_reduction_ledger = sample_slots\<lparr>sl_free := [(''USDT'', 90), (''USDC'', 20), (''BNB'', 1)],
     sl_totals := [(''USDT'', 99), (''USDC'', 20), (''BNB'', 1)],
     sl_slots := [(''S1'', (new_slot ''S1'' 1 ''USDT'' 25 1)\<lparr>es_state := FILLED, es_lock_started := Some 2\<rparr>)],
     sl_owned := [(''S1'', [(''USDC'', 0), (''USDT'', 9)])],
     sl_fill_ids := {''F2''},
     sl_attribution := [(''F2'', \<lparr>fa_reservation_id = ''X1'', fa_reservation_created_at = 6, fa_slot_id = ''S1'',
       fa_fill = sample_fill\<lparr>pf_fill_id := ''F2'', pf_from := ''USDC'', pf_to := ''USDT'', pf_gross := 9,
         pf_fee := 0, pf_time := 7\<rparr>\<rparr>)],
     sl_authorizations := [(''A1'', sample_reduction)], sl_last_event := 7\<rparr>"

lemma exit_runs:
  "case settle_inventory_reduction ''S1'' 8 ''A1'' sample_reduction sample_reduction_ledger of
     Return x L' \<Rightarrow> x = -1 | Raise _ _ \<Rightarrow> False"
  by code_simp

lemma risk_fields [simp]:
  "sl_processed_authorizations (put_slot sid s L) = sl_processed_authorizations L" "sl_authorizations (put_slot sid s L) = sl_authorizations L" "sl_negative_cost (put_slot sid s L) = sl_negative_cost L" "sl_negative_exits (put_slot sid s L) = sl_negative_exits L"
  "sl_processed_authorizations (put_reservation rid r L) = sl_processed_authorizations L" "sl_authorizations (put_reservation rid r L) = sl_authorizations L" "sl_negative_cost (put_reservation rid r L) = sl_negative_cost L" "sl_negative_exits (put_reservation rid r L) = sl_negative_exits L"
  "sl_processed_authorizations (drop_reservation rid L) = sl_processed_authorizations L" "sl_authorizations (drop_reservation rid L) = sl_authorizations L" "sl_negative_cost (drop_reservation rid L) = sl_negative_cost L" "sl_negative_exits (drop_reservation rid L) = sl_negative_exits L"
  "sl_processed_authorizations (put_owned sid b L) = sl_processed_authorizations L" "sl_authorizations (put_owned sid b L) = sl_authorizations L" "sl_negative_cost (put_owned sid b L) = sl_negative_cost L" "sl_negative_exits (put_owned sid b L) = sl_negative_exits L"
  "sl_processed_authorizations (audited row L) = sl_processed_authorizations L" "sl_authorizations (audited row L) = sl_authorizations L" "sl_negative_cost (audited row L) = sl_negative_cost L" "sl_negative_exits (audited row L) = sl_negative_exits L"
  "sl_processed_authorizations (commit_time now L) = sl_processed_authorizations L" "sl_authorizations (commit_time now L) = sl_authorizations L" "sl_negative_cost (commit_time now L) = sl_negative_cost L" "sl_negative_exits (commit_time now L) = sl_negative_exits L"
  by (simp_all add: put_slot_def put_reservation_def drop_reservation_def put_owned_def audited_def commit_time_def)

lemma settle_Return:
  assumes "settle_inventory_reduction sid now reduction_id a L = Return x L'"
  shows "reduction_id \<notin> sl_processed_authorizations L" "dict_get (sl_authorizations L) reduction_id = Some a"
    "ira_decided_at a \<le> now" "now \<le> ira_expires_at a" "x < 0" "- x \<le> ira_realized_loss a" "- x < hold_cost a"
    "sl_processed_authorizations L' = insert reduction_id (sl_processed_authorizations L)"
    "sl_authorizations L' = dict_del reduction_id (sl_authorizations L)"
    "sl_negative_cost L' = dadd (sl_negative_cost L) (- x)" "sl_negative_exits L' = Suc (sl_negative_exits L)"
  using assms
  by (auto simp: settle_inventory_reduction_def sl_causal_def with_key_def or_key_error_def reconciled_def Let_def
      split: if_splits option.splits)

text \<open>A settled authorization stays settled.\<close>

lemma processed_mono: "exec_slot op L = Return r L' \<Longrightarrow> sl_processed_authorizations L \<subseteq> sl_processed_authorizations L'"
proof (cases op)
  case (ApplyFill rid f)
  assume "exec_slot op L = Return r L'"
  then show ?thesis unfolding ApplyFill
    by (auto simp: sl_apply_fill_def pay_fill_fee_def book_fill_def sl_causal_def with_key_def or_key_error_def
        reconciled_def Let_def split: if_splits option.splits)
next
  case (SettleReduction sid now reduction_id a)
  assume "exec_slot op L = Return r L'"
  then show ?thesis unfolding SettleReduction using settle_Return(8) by auto
qed (auto simp: create_slot_def reserve_free_def reserve_owned_def create_reservation_def sl_activate_def
    sl_request_cancel_def sl_acknowledge_cancel_def released_to_source_def debit_reserved_cost_def debit_owned_cost_def
    close_slot_def register_reduction_authorization_def sl_causal_def with_key_def or_key_error_def reconciled_def
    Let_def split: if_splits option.splits)

text \<open>
  C7: a loss is only taken under a registered authorization, and only once. When
  \<^verbatim>\<open>settle_inventory_reduction\<close> returns, the authorization was registered under the id, was
  not used before and had not expired; the loss is positive, at most the authorized one and
  less than the cost of holding; and no later call settles the same id again.
\<close>

theorem losses_are_authorized_once:
  assumes settle: "settle_inventory_reduction sid now reduction_id a L = Return x L1"
    and later: "run_ops exec_slot ops L1 = Return rs L2"
  shows "dict_get (sl_authorizations L) reduction_id = Some a \<and> reduction_id \<notin> sl_processed_authorizations L \<and>
     ira_decided_at a \<le> now \<and> now \<le> ira_expires_at a \<and> x < 0 \<and> - x \<le> ira_realized_loss a \<and> - x < hold_cost a \<and>
     sl_negative_cost L1 = dadd (sl_negative_cost L) (- x) \<and>
     (\<forall>sid' now' a' y L3. settle_inventory_reduction sid' now' reduction_id a' L2 \<noteq> Return y L3)"
proof -
  have "sl_processed_authorizations L1 \<subseteq> sl_processed_authorizations L2"
    using later
  proof (induction ops arbitrary: L1 rs)
    case (Cons op ops)
    then obtain r L' rs' where "exec_slot op L1 = Return r L'" "run_ops exec_slot ops L' = Return rs' L2" by auto
    then show ?case using Cons.IH processed_mono by (meson order_trans)
  qed simp
  then have "reduction_id \<in> sl_processed_authorizations L2" using settle_Return(8) [OF settle] by blast
  then have "settle_inventory_reduction sid' now' reduction_id a' L2 \<noteq> Return y L3" for sid' now' a' y L3
    using settle_Return(1) by blast
  then show ?thesis using settle_Return [OF settle] by blast
qed

theorem losses_are_authorized_once_witness:
  "\<exists>x L. settle_inventory_reduction ''S1'' 8 ''A1'' sample_reduction sample_reduction_ledger = Return x L \<and> x = -1 \<and>
     (\<forall>sid' now' a' y L3. settle_inventory_reduction sid' now' ''A1'' a' L \<noteq> Return y L3)"
proof -
  obtain x L where r: "settle_inventory_reduction ''S1'' 8 ''A1'' sample_reduction sample_reduction_ledger = Return x L" "x = -1"
    using exit_runs unfolding case_Return_iff by (elim exE conjE) (rule that; assumption)
  have run: "run_ops exec_slot [] L = Return [] L" by simp
  have "\<forall>sid' now' a' y L3. settle_inventory_reduction sid' now' ''A1'' a' L \<noteq> Return y L3"
    using losses_are_authorized_once [OF r(1) run] by (elim conjE)
  with r show ?thesis by (intro exI conjI)
qed

section \<open>Where a call is not atomic\<close>

text \<open>
  Closing a slot that never held a reservation raises after the slot has been closed, and a
  fill whose output and fee are in the asset it spends passes every check but pays the fee
  from both sides, so that the reconciliation at its end fails after the fill was booked.
\<close>

lemma close_without_lock:
  "case close_slot ''S1'' 0 5 ''C1'' 0 sample_idle of
     Raise e L \<Rightarrow> e = ValueError ''M032_SLOT_CLOSE_WITHOUT_CAPITAL_LOCK'' \<and>
       map es_state (dict_values (sl_slots sample_idle)) = [FREE] \<and> map es_state (dict_values (sl_slots L)) = [CLOSED]
   | Return _ _ \<Rightarrow> False"
  unfolding sample_idle_def by code_simp

definition self_fill :: physical_fill where
  "self_fill = sample_fill\<lparr>pf_to := ''USDT'', pf_fee_asset := ''USDT'', pf_fee := 1\<rparr>"

lemma self_fill_breaks_reconciliation:
  "case run_ops exec_slot [ReserveFree ''S1'' ''R1'' ''USDT'' 25 2, SlotActivate ''R1'' 3, ApplyFill ''R1'' self_fill]
          sample_idle of
     Raise e L \<Rightarrow> e = ValueError ''M032_GLOBAL_ASSET_RECONCILIATION_FAILED'' \<and> ''F1'' \<in> sl_fill_ids L \<and>
       dict_get (sl_totals L) ''USDT'' = Some 99 \<and> asset_total ''USDT'' L = 98
   | Return _ _ \<Rightarrow> False"
  unfolding sample_idle_def by code_simp

end
