(* ===== verification/Multi_Stable_Routing.thy ===== *)
theory Multi_Stable_Routing
  imports Multi_Stable_Ledger
begin

text \<open>
  \<^verbatim>\<open>microstructure/multi_stable_routing.py\<close>: the marginal scores and their ranking, the
  enumeration of simple stablecoin cycles, the route score, and the cycle manager that counts
  a route only after a physical fill of every leg.
\<close>

section \<open>Scores\<close>

record marginal_opportunity =
  mo_candidate :: string
  mo_priority :: int
  mo_expected_net_pnl :: decimal
  mo_completion :: decimal
  mo_capital :: decimal
  mo_lock_seconds :: decimal
  mo_safety :: decimal
  mo_inventory_penalty :: decimal
  mo_lost_fifo :: decimal

record eligible_opportunity =
  eo_candidate :: string
  eo_priority :: int
  eo_complete_net :: decimal
  eo_completion :: decimal
  eo_residual_cost :: decimal
  eo_tail_risk :: decimal
  eo_carry_cost :: decimal
  eo_capital :: decimal
  eo_lock_seconds :: decimal

record productivity_breakdown =
  pb_candidate :: string
  pb_priority :: int
  pb_complete_net :: decimal
  pb_completion :: decimal
  pb_residual_cost :: decimal
  pb_expected_value :: decimal
  pb_tail_risk :: decimal
  pb_carry_cost :: decimal
  pb_capital :: decimal
  pb_lock_seconds :: decimal
  pb_productivity :: decimal

definition score :: "marginal_opportunity \<Rightarrow> py_error + score_breakdown" where
  "score o' =
     (if mo_priority o' < 1 then Inl (ValueError ''M032_INVALID_PRIORITY_CLASS'')
      else if \<exists>v \<in> set [mo_completion o', mo_safety o', mo_inventory_penalty o']. v < 0 \<or> 1 < v
      then Inl (ValueError ''M032_SCORE_COMPONENT_OUT_OF_RANGE'')
      else if mo_expected_net_pnl o' < 0 then Inl (ValueError ''M032_NEGATIVE_EXPECTED_EXIT_PROHIBITED'')
      else if mo_lost_fifo o' < 0 then Inl (ValueError ''M032_NEGATIVE_FIFO_VALUE'')
      else if mo_capital o' \<le> 0 \<or> mo_lock_seconds o' \<le> 0 then Inl (ValueError ''M032_INVALID_SCORE_DENOMINATOR'')
      else
        let gross = dmul (dmul (mo_expected_net_pnl o') (mo_completion o')) (mo_safety o');
            penalty = dadd (mo_inventory_penalty o') (mo_lost_fifo o')
        in Inr \<lparr>sb_candidate = mo_candidate o', sb_priority = mo_priority o',
                sb_expected_net_pnl = mo_expected_net_pnl o', sb_completion = mo_completion o',
                sb_capital = mo_capital o', sb_lock_seconds = mo_lock_seconds o', sb_safety = mo_safety o',
                sb_inventory_penalty = mo_inventory_penalty o', sb_lost_fifo = mo_lost_fifo o',
                sb_score = ddiv (dsub gross penalty) (dmul (mo_capital o') (mo_lock_seconds o'))\<rparr>)"

definition score_key :: "score_breakdown \<Rightarrow> int \<times> decimal \<times> string" where
  "score_key row = (sb_priority row, dneg (sb_score row), sb_candidate row)"

definition rank_opportunities :: "marginal_opportunity list \<Rightarrow> py_error + score_breakdown list" where
  "rank_opportunities opportunities =
     (case traverse score opportunities of Inl e \<Rightarrow> Inl e | Inr scored \<Rightarrow> Inr (sort_key score_key scored))"

definition score_eligible :: "eligible_opportunity \<Rightarrow> py_error + productivity_breakdown" where
  "score_eligible o' =
     (if eo_priority o' < 1 then Inl (ValueError ''M034_INVALID_PRIORITY_CLASS'')
      else if \<not> (0 \<le> eo_completion o' \<and> eo_completion o' \<le> 1)
      then Inl (ValueError ''M034_COMPLETION_PROBABILITY_OUT_OF_RANGE'')
      else if \<exists>v \<in> set [eo_complete_net o', eo_residual_cost o', eo_tail_risk o', eo_carry_cost o']. v < 0
      then Inl (ValueError ''M034_NEGATIVE_PRODUCTIVITY_TERM'')
      else if eo_capital o' \<le> 0 \<or> eo_lock_seconds o' \<le> 0
      then Inl (ValueError ''M034_INVALID_PRODUCTIVITY_DENOMINATOR'')
      else
        let expected = dsub (dmul (eo_completion o') (eo_complete_net o'))
                         (dmul (dsub 1 (eo_completion o')) (eo_residual_cost o'));
            numerator = dsub (dsub expected (eo_tail_risk o')) (eo_carry_cost o');
            capital_hours = ddiv (dmul (eo_capital o') (eo_lock_seconds o')) 3600
        in Inr \<lparr>pb_candidate = eo_candidate o', pb_priority = eo_priority o',
                pb_complete_net = eo_complete_net o', pb_completion = eo_completion o',
                pb_residual_cost = eo_residual_cost o', pb_expected_value = expected,
                pb_tail_risk = eo_tail_risk o', pb_carry_cost = eo_carry_cost o',
                pb_capital = eo_capital o', pb_lock_seconds = eo_lock_seconds o',
                pb_productivity = ddiv numerator capital_hours\<rparr>)"

definition productivity_key :: "productivity_breakdown \<Rightarrow> int \<times> decimal \<times> string" where
  "productivity_key row = (pb_priority row, dneg (pb_productivity row), pb_candidate row)"

definition rank_eligible :: "eligible_opportunity list \<Rightarrow> py_error + productivity_breakdown list" where
  "rank_eligible opportunities =
     (case traverse score_eligible opportunities of
        Inl e \<Rightarrow> Inl e | Inr scored \<Rightarrow> Inr (sort_key productivity_key scored))"

section \<open>Enumeration of routes\<close>

text \<open>\<^verbatim>\<open>itertools.permutations(xs, n)\<close> of distinct elements, in its order.\<close>

fun permutations :: "nat \<Rightarrow> 'a list \<Rightarrow> 'a list list" where
  "permutations 0 xs = [[]]"
| "permutations (Suc n) xs = concat (map (\<lambda>x. map ((#) x) (permutations n (remove1 x xs))) xs)"

type_synonym markets = "(string \<times> string, string) dict"

fun path_legs :: "markets \<Rightarrow> string list \<Rightarrow> route_leg list" where
  "path_legs markets (left # right # path) =
     (case dict_get markets (left, right) of
        None \<Rightarrow> []
      | Some symbol \<Rightarrow> \<lparr>rl_symbol = symbol, rl_from = left, rl_to = right, rl_maker = True\<rparr> #
                        path_legs markets (right # path))"
| "path_legs markets _ = []"

fun join :: "string \<Rightarrow> string list \<Rightarrow> string" where
  "join sep [] = []"
| "join sep [x] = x"
| "join sep (x # y # xs) = x @ sep @ join sep (y # xs)"

definition path_candidate :: "markets \<Rightarrow> string \<Rightarrow> string list \<Rightarrow> route_candidate option" where
  "path_candidate markets origin middle =
     (let path = origin # middle @ [origin]; legs = path_legs markets path
      in if length legs \<noteq> Suc (length middle) then None
         else Some \<lparr>rc_route_id = join ''->'' path, rc_origin = origin, rc_legs = legs\<rparr>)"

definition route_key :: "route_candidate \<Rightarrow> nat \<times> string" where
  "route_key c = (length (rc_legs c), rc_route_id c)"

definition enumerate_routes ::
    "markets \<Rightarrow> string \<Rightarrow> string set \<Rightarrow> py_error + route_candidate list" where
  "enumerate_routes markets origin assets =
     (if origin \<notin> assets \<or> 4 < card assets then Inl (ValueError ''M032_INVALID_STABLECOIN_UNIVERSE'')
      else
        let others = sorted_list_of_set (assets - {origin});
            middles = concat (map (\<lambda>n. permutations (n - 1) others) [2..<Suc (min 4 (card assets))]);
            candidates = List.map_filter (path_candidate markets origin) middles
        in case traverse (\<lambda>c. case check_route c of Inl e \<Rightarrow> Inl e | Inr _ \<Rightarrow> Inr c) candidates of
             Inl e \<Rightarrow> Inl e
           | Inr cs \<Rightarrow> Inr (sort_key route_key cs))"

section \<open>Route scores\<close>

record route_score =
  rs_route_id :: string
  rs_leg_waits :: "decimal list"
  rs_total_time :: decimal
  rs_probability :: decimal
  rs_expected_net_pnl :: decimal
  rs_capital_lock :: decimal
  rs_score :: decimal

definition score_route ::
    "route_candidate \<Rightarrow> decimal list \<Rightarrow> decimal list \<Rightarrow> decimal \<Rightarrow> decimal \<Rightarrow> py_error + route_score" where
  "score_route c waits probabilities net_pnl capital =
     (if length waits \<noteq> length (rc_legs c) \<or> length probabilities \<noteq> length (rc_legs c)
      then Inl (ValueError ''M032_ROUTE_SCORE_LEG_COUNT_MISMATCH'')
      else if capital \<le> 0 \<or> (\<exists>w \<in> set waits. w \<le> 0) then Inl (ValueError ''M032_INVALID_ROUTE_SCORE_DENOMINATOR'')
      else if \<exists>p \<in> set probabilities. p < 0 \<or> 1 < p then Inl (ValueError ''M032_INVALID_ROUTE_PROBABILITY'')
      else
        let total = dsum waits; probability = foldl dmul 1 probabilities; lock = dmul capital total
        in case dquot (dmul net_pnl probability) lock of
             Inl e \<Rightarrow> Inl e
           | Inr s \<Rightarrow> Inr \<lparr>rs_route_id = rc_route_id c, rs_leg_waits = waits, rs_total_time = total,
                rs_probability = probability, rs_expected_net_pnl = net_pnl, rs_capital_lock = lock, rs_score = s\<rparr>)"

section \<open>The cycle manager\<close>

record cycle_manager =
  cm_ledger :: slot_ledger
  cm_routes :: "(string, route_progress) dict"
  cm_closed :: "string list"

definition new_cycle_manager :: "slot_ledger \<Rightarrow> cycle_manager" where
  "new_cycle_manager L = \<lparr>cm_ledger = L, cm_routes = [], cm_closed = []\<rparr>"

definition put_route :: "string \<Rightarrow> route_progress \<Rightarrow> cycle_manager \<Rightarrow> cycle_manager" where
  "put_route i p M = M\<lparr>cm_routes := dict_set i p (cm_routes M)\<rparr>"

text \<open>A ledger call made by the manager.\<close>

definition on_slots ::
    "(slot_ledger \<Rightarrow> ('a, slot_ledger) outcome) \<Rightarrow> cycle_manager \<Rightarrow> ('a, cycle_manager) outcome" where
  "on_slots m M =
     (case m (cm_ledger M) of
        Return r L \<Rightarrow> Return r (M\<lparr>cm_ledger := L\<rparr>)
      | Raise e L \<Rightarrow> Raise e (M\<lparr>cm_ledger := L\<rparr>))"

definition start_route ::
    "route_candidate \<Rightarrow> string \<Rightarrow> string \<Rightarrow> decimal \<Rightarrow> int \<Rightarrow> cycle_manager \<Rightarrow> (route_progress, cycle_manager) outcome" where
  "start_route c execution_id sid quantity now M =
     (if has_key (cm_routes M) execution_id then Raise (ValueError ''M032_DUPLICATE_ROUTE_EXECUTION_ID'') M
      else with_key (sl_slots (cm_ledger M)) sid M (\<lambda>s.
        if es_origin_asset s \<noteq> rc_origin c then Raise (ValueError ''M032_ROUTE_SLOT_ORIGIN_MISMATCH'') M
        else
          let p = \<lparr>rp_execution_id = execution_id, rp_candidate = c, rp_slot_id = sid, rp_initial_quantity = quantity,
                   rp_current_asset = rc_origin c, rp_current_quantity = quantity, rp_started_at = now,
                   rp_next_leg = 0, rp_input_remaining = quantity, rp_output_accumulated = 0, rp_fill_ids = [],
                   rp_fees = [], rp_external_fees = 0, rp_closed_at = None, rp_realized_pnl = 0\<rparr>
          in Return p ((put_route execution_id p M)
               \<lparr>cm_ledger := put_slot sid (s\<lparr>es_route := Some execution_id\<rparr>) (cm_ledger M)\<rparr>)))"

definition consumed_leg_input :: "physical_fill \<Rightarrow> decimal" where
  "consumed_leg_input f = dadd (pf_input f) (if pf_fee_asset f = pf_from f then pf_fee f else 0)"

definition fill_matches_leg :: "physical_fill \<Rightarrow> route_leg \<Rightarrow> capital_reservation \<Rightarrow> route_progress \<Rightarrow> bool" where
  "fill_matches_leg f leg r p \<longleftrightarrow>
     \<not> (pf_fill_id f \<in> set (rp_fill_ids p) \<or> cr_slot_id r \<noteq> rp_slot_id p \<or> pf_symbol f \<noteq> rl_symbol leg \<or>
        pf_from f \<noteq> rp_current_asset p \<or> pf_to f \<noteq> rl_to leg \<or> pf_input f \<le> 0 \<or> consumed_leg_input f \<le> 0 \<or>
        output_quantity_net f < 0 \<or> rp_input_remaining p < consumed_leg_input f \<or> pf_time f < rp_started_at p)"

text \<open>A fee in a third asset, in units of the origin asset.\<close>

definition external_fee_increment :: "physical_fill \<Rightarrow> string \<Rightarrow> slot_ledger \<Rightarrow> py_error + decimal" where
  "external_fee_increment f origin L =
     (if 0 < pf_fee f \<and> pf_fee_asset f \<notin> {pf_from f, pf_to f}
      then (case (dict_get (sl_marks L) (pf_fee_asset f), dict_get (sl_marks L) origin) of
              (Some fee_mark, Some origin_mark) \<Rightarrow> dquot (dmul (pf_fee f) fee_mark) origin_mark
            | _ \<Rightarrow> Inl (ValueError ''M032_FEE_ORIGIN_CONVERSION_MARK_MISSING''))
      else Inr 0)"

text \<open>The profit a final leg would end with, its unfilled part extrapolated at the price of this fill.\<close>

definition projected_pnl :: "physical_fill \<Rightarrow> decimal \<Rightarrow> route_progress \<Rightarrow> decimal" where
  "projected_pnl f increment p =
     (let left = dsub (rp_input_remaining p) (consumed_leg_input f);
          net = output_quantity_net f;
          out = dadd (rp_output_accumulated p) net;
          out1 = (if 0 < left then dadd out (ddiv (dmul left net) (consumed_leg_input f)) else out)
      in dsub (dsub (dsub out1 (rp_initial_quantity p)) (rp_external_fees p)) increment)"

definition progress_filled :: "physical_fill \<Rightarrow> decimal \<Rightarrow> route_progress \<Rightarrow> route_progress" where
  "progress_filled f increment p =
     p\<lparr>rp_fill_ids := rp_fill_ids p @ [pf_fill_id f],
       rp_fees := dict_set (pf_fee_asset f) (dadd (get_or (rp_fees p) (pf_fee_asset f) 0) (pf_fee f)) (rp_fees p),
       rp_external_fees := dadd (rp_external_fees p) increment,
       rp_input_remaining := dsub (rp_input_remaining p) (consumed_leg_input f),
       rp_output_accumulated := dadd (rp_output_accumulated p) (output_quantity_net f)\<rparr>"

definition close_route :: "string \<Rightarrow> physical_fill \<Rightarrow> route_progress \<Rightarrow> cycle_manager \<Rightarrow> (bool, cycle_manager) outcome" where
  "close_route execution_id f p M =
     (if rp_current_asset p \<noteq> rc_origin (rp_candidate p)
      then Raise (ValueError ''M032_COMPLETED_ROUTE_NOT_IN_ORIGIN_ASSET'') M
      else
        let pnl = dsub (dsub (rp_current_quantity p) (rp_initial_quantity p)) (rp_external_fees p)
        in if pnl < 0 then Raise (ValueError ''M032_NEGATIVE_REALIZED_EXIT_PROHIBITED'') M
           else
             let p1 = p\<lparr>rp_realized_pnl := pnl, rp_closed_at := Some (pf_time f)\<rparr>
             in and_then (on_slots (close_slot (rp_slot_id p) (rp_initial_quantity p) (pf_time f) execution_id
                            (rp_external_fees p)) (put_route execution_id p1 M))
                  (\<lambda>_ M1. Return True (M1\<lparr>cm_closed := cm_closed M1 @ [execution_id]\<rparr>)))"

definition record_fill :: "string \<Rightarrow> string \<Rightarrow> physical_fill \<Rightarrow> cycle_manager \<Rightarrow> (bool, cycle_manager) outcome" where
  "record_fill execution_id rid f M =
     with_key (cm_routes M) execution_id M (\<lambda>p.
       let legs = rc_legs (rp_candidate p); n = rp_next_leg p
       in if length legs \<le> n then Raise (ValueError ''M032_ROUTE_ALREADY_CLOSED'') M
          else with_key (sl_reservations (cm_ledger M)) rid M (\<lambda>r.
            if \<not> fill_matches_leg f (legs ! n) r p
            then Raise (ValueError ''M032_ROUTE_FILL_DOES_NOT_MATCH_NEXT_LEG'') M
            else case external_fee_increment f (rc_origin (rp_candidate p)) (cm_ledger M) of
              Inl e \<Rightarrow> Raise e M
            | Inr increment \<Rightarrow>
                if n = length legs - 1 \<and> projected_pnl f increment p < 0
                then Raise (ValueError ''M032_NEGATIVE_RETURN_FILL_NOT_ADMITTED'') M
                else and_then (on_slots (sl_apply_fill rid f) M) (\<lambda>_ M1.
                  let p1 = progress_filled f increment p
                  in if 0 < rp_input_remaining p1 then Return False (put_route execution_id p1 M1)
                     else
                       let p2 = p1\<lparr>rp_current_asset := pf_to f, rp_current_quantity := rp_output_accumulated p1,
                                   rp_next_leg := Suc n\<rparr>
                       in if Suc n < length legs
                          then Return False (put_route execution_id
                                 (p2\<lparr>rp_input_remaining := rp_current_quantity p2, rp_output_accumulated := 0\<rparr>) M1)
                          else close_route execution_id f p2 (put_route execution_id p2 M1))))"

datatype cycle_op =
    StartRoute route_candidate string string decimal int
  | RecordFill string string physical_fill
  | OnSlots slot_op

fun exec_cycle :: "cycle_op \<Rightarrow> cycle_manager \<Rightarrow> (bool, cycle_manager) outcome" where
  "exec_cycle (StartRoute c i sid quantity now) M = returning (\<lambda>_. False) (start_route c i sid quantity now M)"
| "exec_cycle (RecordFill i rid f) M = record_fill i rid f M"
| "exec_cycle (OnSlots op) M = returning (\<lambda>_. False) (on_slots (exec_slot op) M)"

end
