(* ===== verification/Multi_Stable_Routing_Facts.thy ===== *)
theory Multi_Stable_Routing_Facts
  imports Multi_Stable_Routing Multi_Stable_Ledger_Facts
begin

text \<open>
  The route enumerator of \<^verbatim>\<open>multi_stable_routing.py\<close> yields exactly the simple
  cycles of the markets.
\<close>

section \<open>Permutations and paths\<close>

lemma set_permutations:
  "distinct xs \<Longrightarrow> set (permutations n xs) = {ys. distinct ys \<and> set ys \<subseteq> set xs \<and> length ys = n}"
proof (induction n arbitrary: xs)
  case (Suc n)
  have "set (permutations (Suc n) xs) = {x # ys | x ys. x \<in> set xs \<and> ys \<in> set (permutations n (remove1 x xs))}"
    by auto
  also have "\<dots> = {x # ys | x ys. x \<in> set xs \<and> distinct ys \<and> set ys \<subseteq> set xs - {x} \<and> length ys = n}"
    using Suc.IH Suc.prems by (auto simp: set_remove1_eq)
  also have "\<dots> = {ys. distinct ys \<and> set ys \<subseteq> set xs \<and> length ys = Suc n}"
    by (auto simp: length_Suc_conv)
  finally show ?case .
qed auto

lemma distinct_permutations: "distinct xs \<Longrightarrow> distinct (permutations n xs)"
proof (induction n arbitrary: xs)
  case (Suc n)
  have "distinct (concat (map (\<lambda>x. map ((#) x) (permutations n (remove1 x xs))) zs))" if "distinct zs" for zs
    using that by (induction zs) (auto simp: distinct_map Suc)
  then show ?case using Suc.prems by simp
qed simp

lemma path_legs_iff:
  "path \<noteq> [] \<Longrightarrow>
     path_legs m path = legs \<and> Suc (length legs) = length path \<longleftrightarrow>
     map rl_from legs = butlast path \<and> map rl_to legs = tl path \<and>
     (\<forall>leg \<in> set legs. dict_get m (rl_from leg, rl_to leg) = Some (rl_symbol leg) \<and> rl_maker leg)"
proof (induction m path arbitrary: legs rule: path_legs.induct)
  case (1 m left right path)
  show ?case
  proof (cases legs)
    case (Cons leg rest)
    have "leg = \<lparr>rl_symbol = rl_symbol leg, rl_from = rl_from leg, rl_to = rl_to leg, rl_maker = rl_maker leg\<rparr>" by simp
    then show ?thesis
      using 1(1) [of "rl_symbol leg" rest] Cons by (cases "dict_get m (left, right)") auto
  qed (auto split: option.splits)
qed auto

definition simple_cycle :: "markets \<Rightarrow> string \<Rightarrow> string set \<Rightarrow> route_candidate \<Rightarrow> bool" where
  "simple_cycle m origin assets c \<longleftrightarrow>
     check_route c = Inr () \<and> rc_origin c = origin \<and> set (map rl_to (rc_legs c)) \<subseteq> assets \<and>
     (\<forall>leg \<in> set (rc_legs c). dict_get m (rl_from leg, rl_to leg) = Some (rl_symbol leg) \<and> rl_maker leg) \<and>
     rc_route_id c = join ''->'' (origin # map rl_to (rc_legs c))"

lemma path_candidate_iff:
  "path_candidate m origin middle = Some c \<longleftrightarrow>
     rc_origin c = origin \<and> map rl_from (rc_legs c) = origin # middle \<and> map rl_to (rc_legs c) = middle @ [origin] \<and>
     (\<forall>leg \<in> set (rc_legs c). dict_get m (rl_from leg, rl_to leg) = Some (rl_symbol leg) \<and> rl_maker leg) \<and>
     rc_route_id c = join ''->'' (origin # middle @ [origin])"
proof -
  let ?path = "origin # middle @ [origin]"
  have "path_candidate m origin middle = Some c \<longleftrightarrow>
      path_legs m ?path = rc_legs c \<and> Suc (length (rc_legs c)) = length ?path \<and> rc_origin c = origin \<and>
      rc_route_id c = join ''->'' ?path"
    by (cases c) (auto simp: path_candidate_def Let_def)
  then show ?thesis using path_legs_iff [of ?path m "rc_legs c"] by auto
qed

lemma candidate_simple:
  assumes "distinct middle" "origin \<notin> set middle" "set middle \<subseteq> assets" "origin \<in> assets"
    "1 \<le> length middle" "length middle \<le> 3"
  shows "path_candidate m origin middle = Some c \<longleftrightarrow> simple_cycle m origin assets c \<and> map rl_to (butlast (rc_legs c)) = middle"
proof
  assume "path_candidate m origin middle = Some c"
  note p = this [unfolded path_candidate_iff]
  have to: "map rl_to (butlast (rc_legs c)) = middle" using p by (simp add: map_butlast)
  have "length (rc_legs c) = Suc (length middle)" using p by (metis length_map length_append_singleton)
  then have "check_route c = Inr ()" using p to assms(1,2,5,6) by (simp add: check_route_iff)
  then show "simple_cycle m origin assets c \<and> map rl_to (butlast (rc_legs c)) = middle"
    using p to assms(3,4) by (simp add: simple_cycle_def)
next
  assume c: "simple_cycle m origin assets c \<and> map rl_to (butlast (rc_legs c)) = middle"
  then have k: "map rl_from (rc_legs c) @ [origin] = origin # map rl_to (rc_legs c)" "rc_legs c \<noteq> []"
    by (auto simp: simple_cycle_def check_route_iff)
  then have "last (map rl_to (rc_legs c)) = origin" by (metis last_ConsR last_snoc map_is_Nil_conv)
  then have to: "map rl_to (rc_legs c) = middle @ [origin]"
    using c k(2) by (metis append_butlast_last_id map_butlast map_is_Nil_conv)
  then have "map rl_from (rc_legs c) = origin # middle" using k(1) by (metis append_Cons butlast_snoc)
  then show "path_candidate m origin middle = Some c"
    using c to by (simp add: path_candidate_iff simple_cycle_def)
qed

lemma simple_cycle_middle:
  assumes "simple_cycle m origin assets c" "finite assets" "origin \<in> assets"
  shows "distinct (map rl_to (butlast (rc_legs c)))" "origin \<notin> set (map rl_to (butlast (rc_legs c)))"
    "set (map rl_to (butlast (rc_legs c))) \<subseteq> assets - {origin}"
    "1 \<le> length (butlast (rc_legs c))" "length (butlast (rc_legs c)) \<le> 3" "length (rc_legs c) \<le> card assets"
proof -
  let ?mid = "map rl_to (butlast (rc_legs c))"
  show d: "distinct ?mid" "origin \<notin> set ?mid" "1 \<le> length (butlast (rc_legs c))" "length (butlast (rc_legs c)) \<le> 3"
    using assms(1) by (auto simp: simple_cycle_def check_route_iff)
  show sub: "set ?mid \<subseteq> assets - {origin}"
  proof -
    have "set ?mid \<subseteq> set (map rl_to (rc_legs c))" by (auto dest: in_set_butlastD)
    then show ?thesis using assms(1) d(2) unfolding simple_cycle_def by blast
  qed
  have "card (insert origin (set ?mid)) \<le> card assets" using sub assms(2,3) by (intro card_mono) auto
  then have "Suc (length ?mid) \<le> card assets" using d(1,2) by (simp add: distinct_card del: set_map)
  then show "length (rc_legs c) \<le> card assets" using d(3) by simp
qed

lemma distinct_option_map:
  assumes "distinct xs" "\<And>x y z. x \<in> set xs \<Longrightarrow> y \<in> set xs \<Longrightarrow> f x = Some z \<Longrightarrow> f y = Some z \<Longrightarrow> x = y"
  shows "distinct (List.map_filter f xs)"
  using assms
proof (induction xs)
  case (Cons x xs)
  have "distinct (List.map_filter f xs)" using Cons by auto
  moreover have "z \<notin> set (List.map_filter f xs)" if "f x = Some z" for z
    using Cons.prems that by (fastforce simp: List.map_filter_def)
  ultimately show ?case by (simp add: List.map_filter_simps split: option.splits)
qed (simp add: List.map_filter_simps)

lemma set_option_map: "z \<in> set (List.map_filter f xs) \<longleftrightarrow> (\<exists>x \<in> set xs. f x = Some z)"
  by (force simp: List.map_filter_def)

text \<open>
  C33: the enumerator finds every route. For an origin among at most four assets it returns,
  sorted by length and route id and without duplicates, exactly the closed routes of two to
  four legs that visit no asset twice, follow a market on every leg and stay in the assets.
\<close>

theorem enumeration_is_exact:
  assumes "origin \<in> assets" and fin: "finite assets" and "card assets \<le> 4"
  shows "\<exists>cs. enumerate_routes m origin assets = Inr cs \<and> set cs = {c. simple_cycle m origin assets c} \<and>
     distinct cs \<and> sorted (map route_key cs)"
proof -
  let ?others = "sorted_list_of_set (assets - {origin})"
  define middles where "middles = concat (map (\<lambda>n. permutations (n - 1) ?others) [2..<Suc (min 4 (card assets))])"
  let ?cs = "List.map_filter (path_candidate m origin) middles"
  have others: "distinct ?others" "set ?others = assets - {origin}" using fin by simp_all
  have mid: "middle \<in> set middles \<longleftrightarrow> distinct middle \<and> set middle \<subseteq> assets - {origin} \<and>
      1 \<le> length middle \<and> length middle \<le> 3 \<and> Suc (length middle) \<le> card assets" for middle
  proof -
    have ns: "set [2..<Suc (min 4 (card assets))] = {n. 2 \<le> n \<and> n \<le> 4 \<and> n \<le> card assets}" by auto
    have "middle \<in> set middles \<longleftrightarrow> (\<exists>n \<in> set [2..<Suc (min 4 (card assets))]. middle \<in> set (permutations (n - 1) ?others))"
      by (simp add: middles_def del: upt_Suc)
    also have "\<dots> \<longleftrightarrow> (\<exists>n. 2 \<le> n \<and> n \<le> 4 \<and> n \<le> card assets \<and>
        distinct middle \<and> set middle \<subseteq> assets - {origin} \<and> length middle = n - 1)"
      unfolding ns set_permutations [OF others(1)] others(2) by blast
    finally show ?thesis by (auto intro: exI [of _ "Suc (length middle)"])
  qed
  have cand: "path_candidate m origin middle = Some c \<longleftrightarrow>
      simple_cycle m origin assets c \<and> map rl_to (butlast (rc_legs c)) = middle" if "middle \<in> set middles" for middle c
    by (rule candidate_simple) (use iffD1 [OF mid that] assms(1) in auto)
  have set: "set ?cs = {c. simple_cycle m origin assets c}"
  proof (intro set_eqI iffI)
    fix c assume "c \<in> {c. simple_cycle m origin assets c}"
    then have c: "simple_cycle m origin assets c" by simp
    let ?mid = "map rl_to (butlast (rc_legs c))"
    have "?mid \<in> set middles"
      unfolding mid using simple_cycle_middle [OF c fin assms(1)] by simp
    then show "c \<in> set ?cs" unfolding set_option_map using cand c by blast
  qed (auto simp: set_option_map cand)
  have "distinct ?cs"
  proof (rule distinct_option_map)
    have "distinct (concat (map (\<lambda>n. permutations (n - 1) ?others) ns))" if "distinct ns" "\<forall>n \<in> set ns. 2 \<le> n" for ns
      using that
    proof (induction ns)
      case (Cons a ns)
      then have "b - Suc 0 \<noteq> a - Suc 0" if "b \<in> set ns" for b
        using that Cons.prems by (cases "b = a") (auto simp: Suc_le_eq)
      then show ?case using Cons by (auto simp: distinct_permutations set_permutations others)
    qed simp
    then show "distinct middles" by (simp add: middles_def del: upt_Suc)
  qed (auto simp: path_candidate_iff)
  moreover have "traverse (\<lambda>c. case check_route c of Inl e \<Rightarrow> Inl e | Inr _ \<Rightarrow> Inr c) ?cs = Inr (map (\<lambda>c. c) ?cs)"
    by (rule traverse_Inr) (use set in \<open>auto simp: simple_cycle_def\<close>)
  ultimately show ?thesis
    using assms set by (intro exI [of _ "sort_key route_key ?cs"]) (simp add: enumerate_routes_def Let_def middles_def)
qed

definition sample_markets :: markets where
  "sample_markets = [((''USDT'', ''USDC''), ''USDCUSDT''), ((''USDC'', ''USDT''), ''USDCUSDT''),
     ((''USDC'', ''FDUSD''), ''FDUSDUSDC''), ((''FDUSD'', ''USDT''), ''FDUSDUSDT'')]"

lemma sample_routes:
  "case enumerate_routes sample_markets ''USDT'' {''USDT'', ''USDC'', ''FDUSD''} of
     Inl _ \<Rightarrow> False | Inr cs \<Rightarrow> map rc_route_id cs = [''USDT->USDC->USDT'', ''USDT->USDC->FDUSD->USDT'']"
  by code_simp

theorem enumeration_is_exact_witness:
  "\<exists>cs. enumerate_routes sample_markets ''USDT'' {''USDT'', ''USDC'', ''FDUSD''} = Inr cs \<and>
     map rc_route_id cs = [''USDT->USDC->USDT'', ''USDT->USDC->FDUSD->USDT''] \<and>
     set cs = {c. simple_cycle sample_markets ''USDT'' {''USDT'', ''USDC'', ''FDUSD''} c}"
proof -
  have "\<exists>cs. enumerate_routes sample_markets ''USDT'' {''USDT'', ''USDC'', ''FDUSD''} = Inr cs \<and>
     set cs = {c. simple_cycle sample_markets ''USDT'' {''USDT'', ''USDC'', ''FDUSD''} c} \<and>
     distinct cs \<and> sorted (map route_key cs)"
    by (rule enumeration_is_exact) simp_all
  then obtain cs where cs: "enumerate_routes sample_markets ''USDT'' {''USDT'', ''USDC'', ''FDUSD''} = Inr cs"
    "set cs = {c. simple_cycle sample_markets ''USDT'' {''USDT'', ''USDC'', ''FDUSD''} c}" by (elim exE conjE) (rule that; assumption)
  have "map rc_route_id cs = [''USDT->USDC->USDT'', ''USDT->USDC->FDUSD->USDT'']"
    using sample_routes unfolding cs(1) sum.case .
  with cs show ?thesis by (intro exI conjI)
qed

end
