(* ===== verification/Multi_Stable_Cycles.thy ===== *)
theory Multi_Stable_Cycles
  imports Multi_Stable_Routing_Facts
begin

text \<open>
  The cycle manager of \<^verbatim>\<open>multi_stable_routing.py\<close> on the slot ledger: its
  invariant over calls that return or raise, the claim that a counted execution is complete and
  without loss, and the racing fill that strands an execution.
\<close>

section \<open>Executions\<close>

text \<open>What is attributed stays attributed.\<close>

definition keeps_fills :: "slot_ledger \<Rightarrow> slot_ledger \<Rightarrow> bool" where
  "keeps_fills L L' \<longleftrightarrow> sl_fill_ids L \<subseteq> sl_fill_ids L' \<and>
     (\<forall>fid \<in> sl_fill_ids L. dict_get (sl_attribution L') fid = dict_get (sl_attribution L) fid)"

lemma keeps_fillsD:
  "keeps_fills L L' \<Longrightarrow> sl_fill_ids L \<subseteq> sl_fill_ids L'"
  "keeps_fills L L' \<Longrightarrow> fid \<in> sl_fill_ids L \<Longrightarrow> dict_get (sl_attribution L') fid = dict_get (sl_attribution L) fid"
  by (simp_all add: keeps_fills_def)

lemma keeps_fills_same: "sl_fill_ids L' = sl_fill_ids L \<Longrightarrow> sl_attribution L' = sl_attribution L \<Longrightarrow> keeps_fills L L'"
  by (simp add: keeps_fills_def)

lemma keeps_fills_trans: "keeps_fills L L' \<Longrightarrow> keeps_fills L' L'' \<Longrightarrow> keeps_fills L L''"
  by (auto simp: keeps_fills_def)

lemma book_fill_keeps:
  "pf_fill_id f \<notin> sl_fill_ids L \<Longrightarrow> keeps_fills L (post_state (book_fill f rid r s L))"
  by (auto simp: book_fill_def keeps_fills_def with_key_def reconciled_def Let_def split: option.splits)

lemma pay_fill_fee_same:
  "sl_fill_ids (post_state (pay_fill_fee f rid r s L)) = sl_fill_ids L"
  "sl_attribution (post_state (pay_fill_fee f rid r s L)) = sl_attribution L"
  by (auto simp: pay_fill_fee_def or_key_error_def Let_def split: option.splits)

lemma apply_fill_keeps: "keeps_fills L (post_state (sl_apply_fill rid f L))"
proof (cases "sl_last_event L \<le> pf_time f \<and> pf_fill_id f \<notin> sl_fill_ids L")
  case True
  have paid: "keeps_fills L (post_state (and_then (pay_fill_fee f rid r s L2) (\<lambda>rs. book_fill f rid (fst rs) (snd rs))))"
    if "sl_fill_ids L2 = sl_fill_ids L" "sl_attribution L2 = sl_attribution L" for r s L2
    using pay_fill_fee_same [of f rid r s L2] that True keeps_fills_same
      keeps_fills_trans [OF keeps_fills_same book_fill_keeps]
    by (cases "pay_fill_fee f rid r s L2") simp_all
  show ?thesis using True paid
    by (auto simp: sl_apply_fill_def sl_causal_def with_key_def or_key_error_def Let_def case_prod_beta
        intro: keeps_fills_same split: option.splits)
qed (auto simp: sl_apply_fill_def sl_causal_def intro: keeps_fills_same)

lemma exec_slot_keeps: "keeps_fills L (post_state (exec_slot op L))"
proof (cases op)
  case (ApplyFill rid f)
  then show ?thesis using apply_fill_keeps [of L rid f] by (cases "sl_apply_fill rid f L") (simp_all add: returning_def)
qed (auto simp: create_slot_def reserve_free_def reserve_owned_def create_reservation_def sl_activate_def
    sl_request_cancel_def sl_acknowledge_cancel_def released_to_source_def debit_reserved_cost_def debit_owned_cost_def
    close_slot_def register_reduction_authorization_def settle_inventory_reduction_def sl_causal_def with_key_def or_key_error_def reconciled_def
    returning_def Let_def intro!: keeps_fills_same split: option.splits)

text \<open>A fill is attributed in a ledger that has booked its id and records this very fill under it.\<close>

definition attributed :: "slot_ledger \<Rightarrow> physical_fill \<Rightarrow> bool" where
  "attributed L f \<longleftrightarrow> pf_fill_id f \<in> sl_fill_ids L \<and>
     (case dict_get (sl_attribution L) (pf_fill_id f) of None \<Rightarrow> False | Some row \<Rightarrow> fa_fill row = f)"

lemma attributed_kept: "attributed L f \<Longrightarrow> keeps_fills L L' \<Longrightarrow> attributed L' f"
  by (auto simp: attributed_def keeps_fills_def)

lemma apply_fill_is_new:
  assumes "sl_apply_fill rid f L = Return u L'"
  shows "pf_fill_id f \<notin> sl_fill_ids L" "attributed L' f"
  using assms
  by (auto simp: sl_apply_fill_def pay_fill_fee_def book_fill_def sl_causal_def with_key_def or_key_error_def
        reconciled_def attributed_def Let_def split: if_splits option.splits)

text \<open>
  The legs of a cycle with the fills that carried them out. A leg starts with the asset and the
  amount that the leg before delivered; each of its fills is in its symbol, from that asset into
  the one the leg leads to; together they consume the amount to the last unit.
\<close>

definition fill_of_leg :: "route_leg \<Rightarrow> string \<Rightarrow> physical_fill \<Rightarrow> bool" where
  "fill_of_leg leg asset f \<longleftrightarrow>
     pf_symbol f = rl_symbol leg \<and> pf_from f = asset \<and> pf_to f = rl_to leg \<and> 0 < pf_input f"

primrec leg_chain ::
    "string \<Rightarrow> decimal \<Rightarrow> (route_leg \<times> physical_fill list) list \<Rightarrow> string \<Rightarrow> decimal \<Rightarrow> bool" where
  "leg_chain asset amount [] asset' amount' \<longleftrightarrow> asset' = asset \<and> amount' = amount"
| "leg_chain asset amount (x # xs) asset' amount' \<longleftrightarrow>
     snd x \<noteq> [] \<and> (\<forall>f \<in> set (snd x). fill_of_leg (fst x) asset f) \<and>
     foldl dsub amount (map consumed_leg_input (snd x)) = 0 \<and>
     leg_chain (rl_to (fst x)) (dsum (map output_quantity_net (snd x))) xs asset' amount'"

lemma leg_chain_snoc:
  "leg_chain a q (xs @ [(leg, fs)]) a' q' \<longleftrightarrow>
     (\<exists>b r. leg_chain a q xs b r \<and> fs \<noteq> [] \<and> (\<forall>f \<in> set fs. fill_of_leg leg b f) \<and>
        foldl dsub r (map consumed_leg_input fs) = 0 \<and> a' = rl_to leg \<and> q' = dsum (map output_quantity_net fs))"
  by (induction xs arbitrary: a q) auto

text \<open>The fills of an execution so far: those of the legs that are done, and those of the next leg.\<close>

definition trace_of :: "slot_ledger \<Rightarrow> route_progress \<Rightarrow> physical_fill list list \<Rightarrow> physical_fill list \<Rightarrow> bool" where
  "trace_of L p passed cur \<longleftrightarrow>
     (let legs = rc_legs (rp_candidate p); n = rp_next_leg p
      in length passed = n \<and> n \<le> length legs \<and>
         leg_chain (rc_origin (rp_candidate p)) (rp_initial_quantity p) (zip (take n legs) passed)
           (rp_current_asset p) (rp_current_quantity p) \<and>
         rp_fill_ids p = map pf_fill_id (concat passed @ cur) \<and> (\<forall>f \<in> set (concat passed @ cur). attributed L f) \<and>
         (n = length legs \<longrightarrow> cur = []) \<and>
         (n < length legs \<longrightarrow> (\<forall>f \<in> set cur. fill_of_leg (legs ! n) (rp_current_asset p) f) \<and>
            rp_input_remaining p = foldl dsub (rp_current_quantity p) (map consumed_leg_input cur) \<and>
            rp_output_accumulated p = dsum (map output_quantity_net cur)))"

definition traced :: "slot_ledger \<Rightarrow> route_progress \<Rightarrow> bool" where
  "traced L p \<longleftrightarrow> (\<exists>passed cur. trace_of L p passed cur)"

lemma trace_kept: "trace_of L p passed cur \<Longrightarrow> keeps_fills L L' \<Longrightarrow> trace_of L' p passed cur"
  using attributed_kept by (simp add: trace_of_def Let_def) blast

lemma traced_kept: "traced L p \<Longrightarrow> keeps_fills L L' \<Longrightarrow> traced L' p"
  unfolding traced_def using trace_kept by blast

lemma trace_more:
  assumes t: "trace_of L p passed cur" and n: "rp_next_leg p < length (rc_legs (rp_candidate p))"
    and m: "fill_matches_leg f (rc_legs (rp_candidate p) ! rp_next_leg p) r p"
    and k: "keeps_fills L L'" "attributed L' f"
  shows "trace_of L' (progress_filled f x p) passed (cur @ [f])"
  using assms attributed_kept [OF _ k(1)]
  by (auto simp: trace_of_def Let_def progress_filled_def fill_matches_leg_def fill_of_leg_def dsum_def)

lemma trace_next:
  assumes t: "trace_of L p passed cur" and cur: "cur \<noteq> []" and n: "rp_next_leg p < length (rc_legs (rp_candidate p))"
    and zero: "rp_input_remaining p = 0"
    and p': "rp_candidate p' = rp_candidate p" "rp_initial_quantity p' = rp_initial_quantity p"
      "rp_fill_ids p' = rp_fill_ids p" "rp_next_leg p' = Suc (rp_next_leg p)"
      "rp_current_asset p' = rl_to (rc_legs (rp_candidate p) ! rp_next_leg p)"
      "rp_current_quantity p' = rp_output_accumulated p"
      "Suc (rp_next_leg p) < length (rc_legs (rp_candidate p)) \<Longrightarrow>
         rp_input_remaining p' = rp_output_accumulated p \<and> rp_output_accumulated p' = 0"
  shows "trace_of L p' (passed @ [cur]) []"
proof -
  let ?n = "rp_next_leg p" and ?legs = "rc_legs (rp_candidate p)"
  have len: "length passed = length (take ?n ?legs)" using t n by (simp add: trace_of_def Let_def)
  have z: "zip (take (Suc ?n) ?legs) (passed @ [cur]) = zip (take ?n ?legs) passed @ [(?legs ! ?n, cur)]"
    unfolding take_Suc_conv_app_nth [OF n] using len by simp
  show ?thesis
    using t cur n zero p'(7) unfolding trace_of_def Let_def p'(1-6) z leg_chain_snoc by auto
qed

definition progress_ok :: "route_progress \<Rightarrow> bool" where
  "progress_ok p \<longleftrightarrow> rp_next_leg p \<le> length (rc_legs (rp_candidate p)) \<and>
     rp_next_leg p \<le> length (rp_fill_ids p) \<and> distinct (rp_fill_ids p)"

definition closed_route :: "route_progress \<Rightarrow> bool" where
  "closed_route p \<longleftrightarrow> rp_next_leg p = length (rc_legs (rp_candidate p)) \<and>
     rp_current_asset p = rc_origin (rp_candidate p) \<and> rp_closed_at p \<noteq> None \<and>
     rp_realized_pnl p = dsub (dsub (rp_current_quantity p) (rp_initial_quantity p)) (rp_external_fees p) \<and>
     0 \<le> rp_realized_pnl p"

definition cycle_inv :: "cycle_manager \<Rightarrow> bool" where
  "cycle_inv M \<longleftrightarrow>
     (\<forall>i p. dict_get (cm_routes M) i = Some p \<longrightarrow>
        progress_ok p \<and> set (rp_fill_ids p) \<subseteq> sl_fill_ids (cm_ledger M) \<and> traced (cm_ledger M) p) \<and>
     (\<forall>i j p q. dict_get (cm_routes M) i = Some p \<longrightarrow> dict_get (cm_routes M) j = Some q \<longrightarrow> i \<noteq> j \<longrightarrow>
        set (rp_fill_ids p) \<inter> set (rp_fill_ids q) = {}) \<and>
     distinct (cm_closed M) \<and>
     (\<forall>i \<in> set (cm_closed M). \<exists>p. dict_get (cm_routes M) i = Some p \<and> closed_route p)"

lemma cycle_invD:
  assumes "cycle_inv M"
  shows "dict_get (cm_routes M) i = Some p \<Longrightarrow>
       progress_ok p \<and> set (rp_fill_ids p) \<subseteq> sl_fill_ids (cm_ledger M) \<and> traced (cm_ledger M) p"
    "dict_get (cm_routes M) i = Some p \<Longrightarrow> dict_get (cm_routes M) j = Some q \<Longrightarrow> i \<noteq> j \<Longrightarrow>
       set (rp_fill_ids p) \<inter> set (rp_fill_ids q) = {}"
    "distinct (cm_closed M)"
    "i \<in> set (cm_closed M) \<Longrightarrow> \<exists>p. dict_get (cm_routes M) i = Some p \<and> closed_route p"
  using assms unfolding cycle_inv_def by blast+

lemma cycle_inv_ledger:
  assumes "cycle_inv M" "cm_routes M' = cm_routes M" "cm_closed M' = cm_closed M" "keeps_fills (cm_ledger M) (cm_ledger M')"
  shows "cycle_inv M'"
  using assms(1) traced_kept [OF _ assms(4)] keeps_fillsD(1) [OF assms(4)]
  unfolding cycle_inv_def assms(2,3) by (meson order_trans)

text \<open>One more fill of an open route; the closing step may count it as well.\<close>

lemma cycle_inv_step:
  assumes inv: "cycle_inv M" and p: "dict_get (cm_routes M) i = Some p"
    and leg: "rp_next_leg p < length (rc_legs (rp_candidate p))"
    and new: "fid \<notin> sl_fill_ids (cm_ledger M)" "fid \<in> sl_fill_ids (cm_ledger M')"
    and keep: "keeps_fills (cm_ledger M) (cm_ledger M')" and trace: "traced (cm_ledger M') p'"
    and routes: "\<And>j. dict_get (cm_routes M') j = (if j = i then Some p' else dict_get (cm_routes M) j)"
    and p': "rp_fill_ids p' = rp_fill_ids p @ [fid]" "rp_next_leg p' \<le> Suc (rp_next_leg p)"
      "rp_candidate p' = rp_candidate p"
    and closed: "cm_closed M' = cm_closed M \<or> cm_closed M' = cm_closed M @ [i] \<and> closed_route p'"
  shows "cycle_inv M'"
proof -
  note I = inv [unfolded cycle_inv_def]
  have ok: "progress_ok p" "set (rp_fill_ids p) \<subseteq> sl_fill_ids (cm_ledger M)" using I p by blast+
  have open_: "i \<notin> set (cm_closed M)"
  proof
    assume "i \<in> set (cm_closed M)"
    then obtain q where "dict_get (cm_routes M) i = Some q" "closed_route q" using I by meson
    then show False using p leg by (simp add: closed_route_def)
  qed
  note mono = keeps_fillsD(1) [OF keep]
  have here: "progress_ok p' \<and> set (rp_fill_ids p') \<subseteq> sl_fill_ids (cm_ledger M') \<and> traced (cm_ledger M') p'"
    using ok new p' leg mono trace by (auto simp: progress_ok_def)
  have disj: "set (rp_fill_ids p') \<inter> set (rp_fill_ids q) = {}" if "dict_get (cm_routes M) j = Some q" "j \<noteq> i" for j q
  proof -
    have "set (rp_fill_ids p) \<inter> set (rp_fill_ids q) = {}"
      by (rule cycle_invD(2) [OF inv p that(1) that(2) [symmetric]])
    moreover have "set (rp_fill_ids q) \<subseteq> sl_fill_ids (cm_ledger M)" using cycle_invD(1) [OF inv that(1)] by simp
    ultimately show ?thesis using new(1) p'(1) by auto
  qed
  show ?thesis
    unfolding cycle_inv_def routes
  proof (intro conjI allI impI ballI, goal_cases)
    case (1 j q) then show ?case using here I by (cases "j = i") auto
  next
    case (2 j q)
    show ?case
    proof (cases "j = i")
      case False
      then have "set (rp_fill_ids q) \<subseteq> sl_fill_ids (cm_ledger M)" using 2 I by simp
      then show ?thesis using mono by blast
    qed (use 2 here in simp)
  next
    case (3 j q)
    show ?case
    proof (cases "j = i")
      case False
      then have "traced (cm_ledger M) q" using 3 I by simp
      then show ?thesis by (rule traced_kept [OF _ keep])
    qed (use 3 here in simp)
  next
    case (4 j k q r)
    consider "j = i" "k \<noteq> i" | "k = i" "j \<noteq> i" | "j \<noteq> i" "k \<noteq> i" using 4(3) by blast
    then show ?case
    proof cases
      case 1 then show ?thesis using 4 disj by simp
    next
      case 2 then show ?thesis using 4 disj [of j q] by (simp add: Int_commute)
    next
      case other: 3 then show ?thesis using 4 I by simp
    qed
  next
    case 5 then show ?case using closed open_ I by auto
  next
    case (6 j)
    show ?case
    proof (cases "j = i")
      case True
      then have "closed_route p'" using 6 closed open_ by auto
      then show ?thesis using True by simp
    next
      case False
      then have "j \<in> set (cm_closed M)" using 6 closed by auto
      then show ?thesis using False I by simp
    qed
  qed
qed

lemma start_route_inv: "cycle_inv M \<Longrightarrow> cycle_inv (post_state (start_route c i sid quantity now M))"
proof -
  assume inv: "cycle_inv M"
  let ?p = "\<lparr>rp_execution_id = i, rp_candidate = c, rp_slot_id = sid, rp_initial_quantity = quantity,
     rp_current_asset = rc_origin c, rp_current_quantity = quantity, rp_started_at = now,
     rp_next_leg = 0, rp_input_remaining = quantity, rp_output_accumulated = 0, rp_fill_ids = [],
     rp_fees = [], rp_external_fees = 0, rp_closed_at = None, rp_realized_pnl = 0\<rparr>"
  have "cycle_inv ((put_route i ?p M)\<lparr>cm_ledger := put_slot sid s (cm_ledger M)\<rparr>)"
    if new: "dict_get (cm_routes M) i = None" for s
  proof -
    have keep: "keeps_fills (cm_ledger M) (put_slot sid s (cm_ledger M))" by (rule keeps_fills_same) simp_all
    have fresh: "traced L ?p" for L
      unfolding traced_def by (intro exI [of _ "[]"]) (simp add: trace_of_def)
    show ?thesis
      unfolding cycle_inv_def
    proof (intro conjI allI impI ballI, goal_cases)
      case (1 j q)
      then show ?case using cycle_invD(1) [OF inv, of j q] by (auto simp: put_route_def progress_ok_def split: if_splits)
    next
      case (2 j q)
      then show ?case using cycle_invD(1) [OF inv, of j q] by (auto simp: put_route_def split: if_splits)
    next
      case (3 j q)
      then show ?case using cycle_invD(1) [OF inv, of j q] traced_kept [OF _ keep] fresh
        by (auto simp: put_route_def split: if_splits)
    next
      case (4 j k q r)
      then show ?case using cycle_invD(2) [OF inv, of j q k r] by (auto simp: put_route_def split: if_splits)
    next
      case 5
      then show ?case using cycle_invD(3) [OF inv] by (simp add: put_route_def)
    next
      case (6 j)
      then obtain q where "dict_get (cm_routes M) j = Some q" "closed_route q"
        using cycle_invD(4) [OF inv, of j] by (auto simp: put_route_def)
      then show ?case using new by (auto simp: put_route_def)
    qed
  qed
  then show ?thesis using inv by (auto simp: start_route_def with_key_def has_key_iff Let_def split: option.splits)
qed

lemma close_route_shape:
  assumes "dict_get (cm_routes M) i = Some p" "rp_next_leg p = length (rc_legs (rp_candidate p))"
  shows "\<exists>p'. (\<forall>j. dict_get (cm_routes (post_state (close_route i f p M))) j =
        (if j = i then Some p' else dict_get (cm_routes M) j)) \<and>
     rp_fill_ids p' = rp_fill_ids p \<and> rp_next_leg p' = rp_next_leg p \<and> rp_candidate p' = rp_candidate p \<and>
     (\<forall>L. traced L p' = traced L p) \<and>
     keeps_fills (cm_ledger M) (cm_ledger (post_state (close_route i f p M))) \<and>
     (cm_closed (post_state (close_route i f p M)) = cm_closed M \<or>
      cm_closed (post_state (close_route i f p M)) = cm_closed M @ [i] \<and> closed_route p')"
proof -
  let ?pnl = "dsub (dsub (rp_current_quantity p) (rp_initial_quantity p)) (rp_external_fees p)"
  let ?p = "p\<lparr>rp_realized_pnl := ?pnl, rp_closed_at := Some (pf_time f)\<rparr>"
  let ?m = "close_slot (rp_slot_id p) (rp_initial_quantity p) (pf_time f) i (rp_external_fees p) (cm_ledger M)"
  have same: "traced L ?p = traced L p" for L by (simp add: traced_def trace_of_def)
  have kept: "keeps_fills (cm_ledger M) (post_state ?m)"
    using exec_slot_keeps [of "cm_ledger M" "CloseSlot (rp_slot_id p) (rp_initial_quantity p) (pf_time f) i (rp_external_fees p)"]
    by (cases ?m) (simp_all add: returning_def)
  show ?thesis
  proof (cases "rp_current_asset p \<noteq> rc_origin (rp_candidate p) \<or> ?pnl < 0")
    case True
    then show ?thesis using assms(1) keeps_fills_same
      by (intro exI [of _ p]) (auto simp: close_route_def Let_def)
  next
    case False
    show ?thesis
    proof (cases ?m)
      case (Return x L)
      then show ?thesis using False assms(2) kept same
        by (intro exI [of _ ?p]) (auto simp: close_route_def Let_def on_slots_def put_route_def closed_route_def not_less)
    next
      case (Raise e L)
      then show ?thesis using False kept same
        by (intro exI [of _ ?p]) (auto simp: close_route_def Let_def on_slots_def put_route_def)
    qed
  qed
qed

lemma record_fill_inv:
  assumes inv: "cycle_inv M"
  shows "cycle_inv (post_state (record_fill i rid f M))"
proof (cases "dict_get (cm_routes M) i")
  case p: (Some p)
  let ?n = "rp_next_leg p" and ?legs = "rc_legs (rp_candidate p)"
  show ?thesis
  proof (cases "?n < length ?legs \<and> (\<exists>r. dict_get (sl_reservations (cm_ledger M)) rid = Some r \<and>
        fill_matches_leg f (?legs ! ?n) r p) \<and>
      (\<exists>x. external_fee_increment f (rc_origin (rp_candidate p)) (cm_ledger M) = Inr x \<and>
        \<not> (?n = length ?legs - 1 \<and> projected_pnl f x p < 0))")
    case False
    then show ?thesis
      using inv p by (auto simp: record_fill_def with_key_def Let_def split: option.splits sum.splits)
  next
    case True
    then obtain r x where leg: "?n < length ?legs" and r: "dict_get (sl_reservations (cm_ledger M)) rid = Some r"
      "fill_matches_leg f (?legs ! ?n) r p" and x: "external_fee_increment f (rc_origin (rp_candidate p)) (cm_ledger M) = Inr x"
      "\<not> (?n = length ?legs - 1 \<and> projected_pnl f x p < 0)" by blast
    let ?p1 = "progress_filled f x p"
    let ?p2 = "?p1\<lparr>rp_current_asset := pf_to f, rp_current_quantity := rp_output_accumulated ?p1, rp_next_leg := Suc ?n\<rparr>"
    let ?p3 = "?p2\<lparr>rp_input_remaining := rp_current_quantity ?p2, rp_output_accumulated := 0\<rparr>"
    have rec: "record_fill i rid f M = and_then (on_slots (sl_apply_fill rid f) M) (\<lambda>_ M1.
        if 0 < rp_input_remaining ?p1 then Return False (put_route i ?p1 M1)
        else if Suc ?n < length ?legs then Return False (put_route i ?p3 M1)
        else close_route i f ?p2 (put_route i ?p2 M1))"
      unfolding record_fill_def with_key_def Let_def using p leg r x by (auto simp: not_le)
    have fields: "rp_fill_ids ?p1 = rp_fill_ids p @ [pf_fill_id f]" "rp_next_leg ?p1 = ?n" "rp_candidate ?p1 = rp_candidate p"
      by (simp_all add: progress_filled_def)
    note kept = apply_fill_keeps [of "cm_ledger M" rid f]
    show ?thesis
    proof (cases "sl_apply_fill rid f (cm_ledger M)")
      case (Raise e L)
      then show ?thesis using kept
        unfolding rec on_slots_def Raise by (simp add: cycle_inv_ledger [OF inv])
    next
      case (Return u L)
      define M1 where "M1 = M\<lparr>cm_ledger := L\<rparr>"
      note new = apply_fill_is_new [OF Return]
      have keep: "keeps_fills (cm_ledger M) L" and fid: "pf_fill_id f \<in> sl_fill_ids L"
        using kept Return new(2) by (simp_all add: attributed_def)
      have out: "on_slots (sl_apply_fill rid f) M = Return u M1" by (simp add: on_slots_def Return M1_def)
      obtain passed cur where "trace_of (cm_ledger M) p passed cur"
        using cycle_invD(1) [OF inv p] by (auto simp: traced_def)
      from trace_more [OF this leg r(2) keep new(2)]
      have trace: "trace_of L ?p1 passed (cur @ [f])" .
      have "0 \<le> rp_input_remaining ?p1" using r(2) by (simp add: progress_filled_def fill_matches_leg_def)
      then have zero: "rp_input_remaining ?p1 = 0" if "\<not> 0 < rp_input_remaining ?p1" using that by simp
      have to: "pf_to f = rl_to (?legs ! ?n)" using r(2) by (simp add: fill_matches_leg_def)
      have later: "traced L q"
        if "\<not> 0 < rp_input_remaining ?p1" "q = ?p2 \<and> \<not> Suc ?n < length ?legs \<or> q = ?p3" for q
      proof -
        have "trace_of L q (passed @ [cur @ [f]]) []"
          by (rule trace_next [OF trace _ _ zero [OF that(1)]]) (use that(2) fields to leg in auto)
        then show ?thesis by (auto simp: traced_def)
      qed
      have one: "cycle_inv (put_route i q M1)"
        if "rp_fill_ids q = rp_fill_ids p @ [pf_fill_id f]" "rp_next_leg q \<le> Suc ?n" "rp_candidate q = rp_candidate p"
          "traced L q" for q
        by (rule cycle_inv_step [OF inv p leg new(1) _ _ _ _ that(1-3)])
          (use keep fid that(4) in \<open>simp_all add: put_route_def M1_def\<close>)
      consider "0 < rp_input_remaining ?p1" | "\<not> 0 < rp_input_remaining ?p1" "Suc ?n < length ?legs"
        | "\<not> 0 < rp_input_remaining ?p1" "\<not> Suc ?n < length ?legs" by blast
      then show ?thesis
      proof cases
        case 1
        have "traced L ?p1" using trace by (auto simp: traced_def)
        with 1 show ?thesis unfolding rec out and_then.simps using one [of ?p1] fields by simp
      next
        case 2
        then show ?thesis unfolding rec out and_then.simps using one [of ?p3] fields later [of ?p3] by simp
      next
        case 3
        let ?M2 = "put_route i ?p2 M1"
        have at: "dict_get (cm_routes ?M2) i = Some ?p2" by (simp add: put_route_def)
        have full: "rp_next_leg ?p2 = length (rc_legs (rp_candidate ?p2))" using 3 leg fields by simp
        obtain p' where p': "\<And>j. dict_get (cm_routes (post_state (close_route i f ?p2 ?M2))) j =
            (if j = i then Some p' else dict_get (cm_routes ?M2) j)"
          "rp_fill_ids p' = rp_fill_ids ?p2" "rp_next_leg p' = rp_next_leg ?p2" "rp_candidate p' = rp_candidate ?p2"
          "\<And>L. traced L p' = traced L ?p2"
          "keeps_fills (cm_ledger ?M2) (cm_ledger (post_state (close_route i f ?p2 ?M2)))"
          "cm_closed (post_state (close_route i f ?p2 ?M2)) = cm_closed ?M2 \<or>
           cm_closed (post_state (close_route i f ?p2 ?M2)) = cm_closed ?M2 @ [i] \<and> closed_route p'"
          using close_route_shape [OF at full, of f] by auto
        have M2: "cm_ledger ?M2 = L" by (simp add: put_route_def M1_def)
        have k2: "keeps_fills L (cm_ledger (post_state (close_route i f ?p2 ?M2)))" using p'(6) unfolding M2 .
        have "traced L p'" using later [OF 3(1), of ?p2] 3(2) p'(5) by simp
        then have t2: "traced (cm_ledger (post_state (close_route i f ?p2 ?M2))) p'" by (rule traced_kept [OF _ k2])
        have "cycle_inv (post_state (close_route i f ?p2 ?M2))"
          by (rule cycle_inv_step [OF inv p leg new(1) _ keeps_fills_trans [OF keep k2] t2])
            (use p' fid keeps_fillsD(1) [OF k2] fields in \<open>auto simp: put_route_def M1_def split: if_splits\<close>)
        then show ?thesis unfolding rec out and_then.simps using 3 by simp
      qed
    qed
  qed
qed (use inv in \<open>simp add: record_fill_def with_key_def\<close>)

lemma exec_cycle_inv: "cycle_inv M \<Longrightarrow> cycle_inv (post_state (exec_cycle op M))"
proof (cases op)
  case (StartRoute c i sid quantity now)
  assume "cycle_inv M"
  from start_route_inv [OF this, of c i sid quantity now] show ?thesis
    unfolding StartRoute by (cases "start_route c i sid quantity now M") (simp_all add: returning_def)
next
  case (RecordFill i rid f)
  assume "cycle_inv M"
  then show ?thesis unfolding RecordFill by (simp add: record_fill_inv)
next
  case (OnSlots o')
  assume "cycle_inv M"
  then show ?thesis
    unfolding OnSlots using exec_slot_keeps [of "cm_ledger M" o']
    by (cases "exec_slot o' (cm_ledger M)") (simp_all add: on_slots_def returning_def cycle_inv_ledger)
qed

lemma closed_trace:
  assumes "traced L p" and "closed_route p"
  shows "\<exists>fss. length fss = length (rc_legs (rp_candidate p)) \<and>
     leg_chain (rc_origin (rp_candidate p)) (rp_initial_quantity p) (zip (rc_legs (rp_candidate p)) fss)
       (rc_origin (rp_candidate p)) (rp_current_quantity p) \<and>
     rp_fill_ids p = map pf_fill_id (concat fss) \<and> (\<forall>f \<in> set (concat fss). attributed L f)"
  using assms unfolding traced_def trace_of_def closed_route_def Let_def
  by (elim exE conjE) (rule exI, fastforce)

interpretation cycle_ops: robust_ops exec_cycle cycle_inv
  by unfold_locales (metis exec_cycle_inv post_state.simps)+

section \<open>Claims on executions\<close>

text \<open>
  C16: an execution is counted once, when every leg has been filled completely, and never at a
  loss. Whatever calls are made to the manager and its ledger, in whatever order, and whichever
  of them raise: no execution is counted twice; the fills of a counted one fall into one group
  per leg, in the order of the legs, where every fill of a group is attributed in the ledger, is in
  the symbol of its leg, spends what the leg before delivered and buys what its leg leads to,
  and where the group consumes the delivered amount to the last unit; the last group delivers
  the final quantity in the origin asset; the profit is that quantity less the initial one and
  the external fees, and it is not negative; and no fill belongs to two executions.
\<close>

theorem cycles_are_complete:
  assumes "M = drive_ops exec_cycle ops (new_cycle_manager L)"
  shows "distinct (cm_closed M) \<and>
     (\<forall>i \<in> set (cm_closed M). \<exists>p fss. dict_get (cm_routes M) i = Some p \<and>
        rp_current_asset p = rc_origin (rp_candidate p) \<and>
        length fss = length (rc_legs (rp_candidate p)) \<and>
        leg_chain (rc_origin (rp_candidate p)) (rp_initial_quantity p) (zip (rc_legs (rp_candidate p)) fss)
          (rc_origin (rp_candidate p)) (rp_current_quantity p) \<and>
        rp_fill_ids p = map pf_fill_id (concat fss) \<and> (\<forall>f \<in> set (concat fss). attributed (cm_ledger M) f) \<and>
        length (rc_legs (rp_candidate p)) \<le> length (rp_fill_ids p) \<and> distinct (rp_fill_ids p) \<and>
        set (rp_fill_ids p) \<subseteq> sl_fill_ids (cm_ledger M) \<and>
        rp_realized_pnl p = dsub (dsub (rp_current_quantity p) (rp_initial_quantity p)) (rp_external_fees p) \<and>
        0 \<le> rp_realized_pnl p) \<and>
     (\<forall>i j p q. dict_get (cm_routes M) i = Some p \<longrightarrow> dict_get (cm_routes M) j = Some q \<longrightarrow> i \<noteq> j \<longrightarrow>
        set (rp_fill_ids p) \<inter> set (rp_fill_ids q) = {})"
proof (intro conjI ballI allI impI)
  have "cycle_inv (new_cycle_manager L)" by (simp add: cycle_inv_def new_cycle_manager_def)
  then have inv: "cycle_inv M" unfolding assms by (rule cycle_ops.drive_inv)
  show "distinct (cm_closed M)" by (rule cycle_invD(3) [OF inv])
  show "set (rp_fill_ids p) \<inter> set (rp_fill_ids q) = {}"
    if "dict_get (cm_routes M) i = Some p" "dict_get (cm_routes M) j = Some q" "i \<noteq> j" for i j p q
    by (rule cycle_invD(2) [OF inv that])
  fix i assume "i \<in> set (cm_closed M)"
  then obtain p where p: "dict_get (cm_routes M) i = Some p" "closed_route p" using cycle_invD(4) [OF inv] by blast
  have ok: "length (rc_legs (rp_candidate p)) \<le> length (rp_fill_ids p)" "distinct (rp_fill_ids p)"
    "set (rp_fill_ids p) \<subseteq> sl_fill_ids (cm_ledger M)" "traced (cm_ledger M) p"
    using cycle_invD(1) [OF inv p(1)] p(2) by (simp_all add: progress_ok_def closed_route_def)
  from closed_trace [OF ok(4) p(2)] obtain fss where fss: "length fss = length (rc_legs (rp_candidate p))"
    "leg_chain (rc_origin (rp_candidate p)) (rp_initial_quantity p) (zip (rc_legs (rp_candidate p)) fss)
       (rc_origin (rp_candidate p)) (rp_current_quantity p)"
    "rp_fill_ids p = map pf_fill_id (concat fss)" "\<forall>f \<in> set (concat fss). attributed (cm_ledger M) f" by blast
  show "\<exists>p fss. dict_get (cm_routes M) i = Some p \<and> rp_current_asset p = rc_origin (rp_candidate p) \<and>
        length fss = length (rc_legs (rp_candidate p)) \<and>
        leg_chain (rc_origin (rp_candidate p)) (rp_initial_quantity p) (zip (rc_legs (rp_candidate p)) fss)
          (rc_origin (rp_candidate p)) (rp_current_quantity p) \<and>
        rp_fill_ids p = map pf_fill_id (concat fss) \<and> (\<forall>f \<in> set (concat fss). attributed (cm_ledger M) f) \<and>
        length (rc_legs (rp_candidate p)) \<le> length (rp_fill_ids p) \<and> distinct (rp_fill_ids p) \<and>
        set (rp_fill_ids p) \<subseteq> sl_fill_ids (cm_ledger M) \<and>
        rp_realized_pnl p = dsub (dsub (rp_current_quantity p) (rp_initial_quantity p)) (rp_external_fees p) \<and>
        0 \<le> rp_realized_pnl p"
    using p fss ok unfolding closed_route_def by (intro exI [of _ p] exI [of _ fss]) blast
qed

definition sample_route :: route_candidate where
  "sample_route = \<lparr>rc_route_id = ''USDT->USDC->USDT'', rc_origin = ''USDT'', rc_legs =
     [\<lparr>rl_symbol = ''USDCUSDT'', rl_from = ''USDT'', rl_to = ''USDC'', rl_maker = True\<rparr>,
      \<lparr>rl_symbol = ''USDCUSDT'', rl_from = ''USDC'', rl_to = ''USDT'', rl_maker = True\<rparr>]\<rparr>"

definition sample_execution :: "cycle_op list" where
  "sample_execution =
     [OnSlots (CreateSlot ''S1'' ''USDT'' 10 1 1), StartRoute sample_route ''E1'' ''S1'' 10 1,
      OnSlots (ReserveFree ''S1'' ''R1'' ''USDT'' 10 2), OnSlots (SlotActivate ''R1'' 3),
      RecordFill ''E1'' ''R1'' sample_fill,
      OnSlots (ReserveOwned ''S1'' ''R2'' ''USDC'' 10 5), OnSlots (SlotActivate ''R2'' 6)]"

definition sample_closed :: cycle_manager where
  "sample_closed = drive_ops exec_cycle (sample_execution @ [RecordFill ''E1'' ''R2'' sample_exit_fill])
     (new_cycle_manager sample_slots)"

lemma sample_closed_runs: "cm_closed sample_closed = [''E1'']"
  unfolding sample_closed_def by code_simp

theorem cycles_are_complete_witness:
  "''E1'' \<in> set (cm_closed sample_closed) \<and>
     (\<exists>p fss. dict_get (cm_routes sample_closed) ''E1'' = Some p \<and> length fss = length (rc_legs (rp_candidate p)) \<and>
        leg_chain (rc_origin (rp_candidate p)) (rp_initial_quantity p) (zip (rc_legs (rp_candidate p)) fss)
          (rc_origin (rp_candidate p)) (rp_current_quantity p) \<and>
        0 \<le> rp_realized_pnl p)"
proof -
  have "''E1'' \<in> set (cm_closed sample_closed)" using sample_closed_runs by simp
  note closed = cycles_are_complete [OF sample_closed_def, THEN conjunct2, THEN conjunct1, THEN bspec, OF this]
  from closed obtain p fss where "dict_get (cm_routes sample_closed) ''E1'' = Some p"
    "length fss = length (rc_legs (rp_candidate p))"
    "leg_chain (rc_origin (rp_candidate p)) (rp_initial_quantity p) (zip (rc_legs (rp_candidate p)) fss)
          (rc_origin (rp_candidate p)) (rp_current_quantity p)" "0 \<le> rp_realized_pnl p"
    by (elim exE conjE) (rule that; assumption)
  with \<open>''E1'' \<in> set (cm_closed sample_closed)\<close> show ?thesis by (intro exI conjI)
qed

text \<open>
  A last fill that overtakes the cancel of its reservation strands the execution: every leg is
  filled and the progress is marked closed, but the reservation stays open until the cancel is
  acknowledged, so closing the slot raises, and later no call can count the execution.
\<close>

lemma racing_fill_strands_execution:
  "case exec_cycle (RecordFill ''E1'' ''R2'' sample_exit_fill)
          (drive_ops exec_cycle (sample_execution @ [OnSlots (SlotRequestCancel ''R2'' 6)]) (new_cycle_manager sample_slots)) of
     Raise e M \<Rightarrow> e = ValueError ''M032_SLOT_CLOSE_WITH_OPEN_RESERVATION'' \<and> cm_closed M = [] \<and>
       map rp_next_leg (dict_values (cm_routes M)) = [2] \<and> map rp_closed_at (dict_values (cm_routes M)) = [Some 7]
   | Return _ _ \<Rightarrow> False"
  by code_simp

lemma filled_execution_is_stuck:
  assumes "dict_get (cm_routes M) i = Some p" "length (rc_legs (rp_candidate p)) \<le> rp_next_leg p"
  shows "record_fill i rid f M = Raise (ValueError ''M032_ROUTE_ALREADY_CLOSED'') M"
  using assms by (simp add: record_fill_def with_key_def Let_def)

end
