(* ===== verification/Multi_Stable_Manager.thy ===== *)
theory Multi_Stable_Manager
  imports Multi_Stable_Routing
begin

text \<open>
  \<^verbatim>\<open>microstructure/adaptive_multi_stable_manager.py\<close>: the zones, roles and priority
  classes of the cells, the peg guard, the stablecoin universe, the two capital choices, and
  the manager that moves the hotlines and gives slots their physical cells.
\<close>

section \<open>Geometry\<close>

definition zone_for_rank :: "int \<Rightarrow> py_error + string" where
  "zone_for_rank rank =
     (if rank \<in> {1, 2, 3} then Inr ''HOT''
      else if rank \<in> {4, 5} then Inr ''MID''
      else if rank \<in> {6, 7} then Inr ''FAR''
      else Inl (ValueError ''M032_RANK_OUT_OF_RANGE''))"

definition column_role_of :: "int \<Rightarrow> py_error + column_role" where
  "column_role_of column =
     (if column = 1 then Inr PERSISTENT_QUEUE
      else if column = 2 then Inr OPPORTUNITY
      else Inl (ValueError ''M032_COLUMN_OUT_OF_RANGE''))"

definition zone_classes :: "(string \<times> int, int) dict" where
  "zone_classes =
     [((''HOT'', 1), 2), ((''HOT'', 2), 3), ((''MID'', 1), 4), ((''MID'', 2), 5), ((''FAR'', 1), 6), ((''FAR'', 2), 7)]"

definition priority_class :: "bool \<Rightarrow> int \<Rightarrow> int \<Rightarrow> bool \<Rightarrow> py_error + int" where
  "priority_class obligation rank column old_zero_fill =
     (if obligation then Inr 1
      else if old_zero_fill then Inr 8
      else case zone_for_rank rank of
        Inl e \<Rightarrow> Inl e
      | Inr zone \<Rightarrow> (case dict_get zone_classes (zone, column) of None \<Rightarrow> Inl KeyError | Some c \<Rightarrow> Inr c))"

section \<open>Guards\<close>

record peg_guard =
  pg_max_deviation :: decimal
  pg_max_spread :: decimal
  pg_min_depth :: decimal

definition allows_entry :: "decimal \<Rightarrow> decimal \<Rightarrow> decimal \<Rightarrow> bool \<Rightarrow> peg_guard \<Rightarrow> bool" where
  "allows_entry peg_deviation spread depth data_gap g \<longleftrightarrow>
     \<not> data_gap \<and> dabs peg_deviation \<le> pg_max_deviation g \<and> spread \<le> pg_max_spread g \<and> pg_min_depth g \<le> depth"

record stablecoin_universe =
  su_evidence :: "(string, stablecoin_evidence) dict"
  su_minimum_safety :: decimal

definition new_universe :: "stablecoin_evidence list \<Rightarrow> decimal \<Rightarrow> py_error + stablecoin_universe" where
  "new_universe evidence minimum_safety =
     (let d = foldl (\<lambda>d row. dict_set (sce_asset row) row d) [] evidence
      in if 4 < length evidence then Inl (ValueError ''M032_MAX_FOUR_STABLECOINS'')
         else if length d \<noteq> length evidence then Inl (ValueError ''M032_DUPLICATE_STABLECOIN'')
         else Inr \<lparr>su_evidence = d, su_minimum_safety = minimum_safety\<rparr>)"

definition eligible_assets :: "stablecoin_universe \<Rightarrow> py_error + string list" where
  "eligible_assets u =
     (case traverse (\<lambda>(asset, evidence). case safety_score evidence of
              Inl e \<Rightarrow> Inl e | Inr s \<Rightarrow> Inr (asset, su_minimum_safety u \<le> s)) (su_evidence u) of
        Inl e \<Rightarrow> Inl e
      | Inr rows \<Rightarrow> Inr (sort (map fst (filter snd rows))))"

section \<open>Choosing opportunities\<close>

text \<open>
  The loop both choices run over their ranked rows: an obligation that does not fit ends the
  choice, any other row that does not fit or earns nothing is skipped.
\<close>

primrec pick :: "('a \<Rightarrow> int) \<Rightarrow> ('a \<Rightarrow> decimal) \<Rightarrow> ('a \<Rightarrow> decimal) \<Rightarrow> decimal \<Rightarrow> 'a list \<Rightarrow> 'a list" where
  "pick prio gain cost left [] = []"
| "pick prio gain cost left (row # rows) =
     (if prio row = 1
      then (if left < cost row then [] else row # pick prio gain cost (dsub left (cost row)) rows)
      else if gain row \<le> 0 \<or> left < cost row then pick prio gain cost left rows
      else row # pick prio gain cost (dsub left (cost row)) rows)"

definition choose_opportunities :: "marginal_opportunity list \<Rightarrow> decimal \<Rightarrow> py_error + score_breakdown list" where
  "choose_opportunities opportunities available =
     (case rank_opportunities opportunities of
        Inl e \<Rightarrow> Inl e | Inr ranked \<Rightarrow> Inr (pick sb_priority sb_score sb_capital available ranked))"

definition choose_eligible :: "productivity_breakdown list \<Rightarrow> decimal \<Rightarrow> py_error + productivity_breakdown list" where
  "choose_eligible opportunities available =
     (if available < 0 then Inl (ValueError ''M034_NEGATIVE_AVAILABLE_CAPITAL'')
      else Inr (pick pb_priority pb_productivity pb_capital available (sort_key productivity_key opportunities)))"

section \<open>The order manager\<close>

record book_state =
  bs_symbol :: string
  bs_hotline :: decimal
  bs_tick_size :: decimal
  bs_updated_at :: int
  bs_crossed_ticks :: int
  bs_reconciliations :: int

text \<open>A row of the reclaim log, with the two values as numbers instead of their text.\<close>

record reclaim_row =
  rr_slot_id :: string
  rr_reason :: string
  rr_time :: int
  rr_alternative :: decimal
  rr_queue_value :: decimal

record order_manager =
  om_ledger :: slot_ledger
  om_rules :: "(string, symbol_rule) dict"
  om_universe :: stablecoin_universe
  om_guard :: peg_guard
  om_books :: "(string, book_state) dict"
  om_reasons :: "reclaim_row list"

definition new_order_manager ::
    "slot_ledger \<Rightarrow> (string, symbol_rule) dict \<Rightarrow> stablecoin_universe \<Rightarrow> peg_guard \<Rightarrow> order_manager" where
  "new_order_manager L rules universe guard =
     \<lparr>om_ledger = L, om_rules = rules, om_universe = universe, om_guard = guard, om_books = [], om_reasons = []\<rparr>"

definition rounded_to_tick :: "decimal \<Rightarrow> decimal \<Rightarrow> py_error + decimal" where
  "rounded_to_tick midpoint tick =
     (case dquot midpoint tick of Inl e \<Rightarrow> Inl e | Inr x \<Rightarrow> Inr (dmul (of_int (round_half_up x)) tick))"

definition put_book :: "string \<Rightarrow> book_state \<Rightarrow> order_manager \<Rightarrow> order_manager" where
  "put_book symbol b M = M\<lparr>om_books := dict_set symbol b (om_books M)\<rparr>"

definition update_hotline :: "string \<Rightarrow> decimal \<Rightarrow> int \<Rightarrow> order_manager \<Rightarrow> (book_state, order_manager) outcome" where
  "update_hotline symbol midpoint now M =
     with_key (om_rules M) symbol M (\<lambda>rule.
       case rounded_to_tick midpoint (sr_tick_size rule) of
         Inl e \<Rightarrow> Raise e M
       | Inr target \<Rightarrow> (case dict_get (om_books M) symbol of
           None \<Rightarrow>
             let b = \<lparr>bs_symbol = symbol, bs_hotline = target, bs_tick_size = sr_tick_size rule, bs_updated_at = now,
                      bs_crossed_ticks = 0, bs_reconciliations = 1\<rparr>
             in Return b (put_book symbol b M)
         | Some b \<Rightarrow>
             if now < bs_updated_at b then Raise (ValueError ''M032_NONCAUSAL_HOTLINE_UPDATE'') M
             else case dquot (dabs (dsub target (bs_hotline b))) (sr_tick_size rule) of
               Inl e \<Rightarrow> Raise e M
             | Inr ticks \<Rightarrow>
                 let crossed = dtrunc ticks;
                     b1 = (if crossed \<noteq> 0
                           then b\<lparr>bs_hotline := target, bs_crossed_ticks := bs_crossed_ticks b + crossed,
                                  bs_reconciliations := bs_reconciliations b + 1\<rparr>
                           else b)\<lparr>bs_updated_at := now\<rparr>
                 in Return b1 (put_book symbol b1 M)))"

record cell_request =
  cq_symbol :: string
  cq_side :: string
  cq_price :: decimal
  cq_rank :: int
  cq_column :: int
  cq_quantity :: decimal
  cq_now :: int
  cq_peg_deviation :: decimal
  cq_spread :: decimal
  cq_depth :: decimal
  cq_data_gap :: bool

definition cell_price :: "string \<Rightarrow> int \<Rightarrow> decimal \<Rightarrow> decimal \<Rightarrow> decimal" where
  "cell_price side rank tick hotline =
     dadd hotline (if side = ''BUY'' then dmul (dneg tick) (of_int rank) else dmul tick (of_int rank))"

definition occupies :: "cell_request \<Rightarrow> economic_slot \<Rightarrow> bool" where
  "occupies q s \<longleftrightarrow> es_state s \<noteq> CLOSED \<and> es_book s = Some (cq_symbol q) \<and> es_side s = Some (cq_side q) \<and>
     es_price s = Some (cq_price q) \<and> es_column s = Some (cq_column q)"

text \<open>The checks before the slot is written, in the order of the source.\<close>

definition cell_error :: "string \<Rightarrow> cell_request \<Rightarrow> symbol_rule \<Rightarrow> economic_slot \<Rightarrow> order_manager \<Rightarrow> py_error option" where
  "cell_error sid q rule s M =
     (if es_state s \<noteq> FREE \<or> es_reservation s \<noteq> None \<or> 0 < es_filled s
      then Some (ValueError ''M032_ACTIVE_SLOT_CELL_IMMUTABLE'')
      else case eligible_assets (om_universe M) of
        Inl e \<Rightarrow> Some e
      | Inr assets \<Rightarrow>
          if \<not> {sr_base_asset rule, sr_quote_asset rule} \<subseteq> set assets
          then Some (ValueError ''M032_BOOK_ASSET_NOT_ELIGIBLE'')
          else if \<not> allows_entry (cq_peg_deviation q) (cq_spread q) (cq_depth q) (cq_data_gap q) (om_guard M)
          then Some (ValueError ''M032_SAFETY_GUARD_BLOCK'')
          else if cq_side q \<notin> {''BUY'', ''SELL''} then Some (ValueError ''M032_INVALID_SIDE'')
          else case dict_get (om_books M) (cq_symbol q) of
            None \<Rightarrow> Some (ValueError ''M032_HOTLINE_NOT_INITIALIZED'')
          | Some b \<Rightarrow>
              if cq_price q \<noteq> cell_price (cq_side q) (cq_rank q) (sr_tick_size rule) (bs_hotline b)
              then Some (ValueError ''M032_PRICE_RANK_HOTLINE_MISMATCH'')
              else if \<exists>(other_id, other) \<in> set (sl_slots (om_ledger M)). other_id \<noteq> sid \<and> occupies q other
              then Some (ValueError ''M032_DUPLICATE_PHYSICAL_CELL'')
              else None)"

definition in_cell :: "cell_request \<Rightarrow> economic_slot \<Rightarrow> economic_slot" where
  "in_cell q s =
     s\<lparr>es_book := Some (cq_symbol q), es_side := Some (cq_side q), es_price := Some (cq_price q),
       es_band_rank := Some (cq_rank q), es_column := Some (cq_column q)\<rparr>"

definition configure_slot_cell :: "string \<Rightarrow> cell_request \<Rightarrow> order_manager \<Rightarrow> (economic_slot, order_manager) outcome" where
  "configure_slot_cell sid q M =
     with_key (om_rules M) (cq_symbol q) M (\<lambda>rule.
       case validate_order (cq_price q) (cq_quantity q) (cq_now q) rule of
         Inl e \<Rightarrow> Raise e M
       | Inr _ \<Rightarrow> with_key (sl_slots (om_ledger M)) sid M (\<lambda>s.
           case cell_error sid q rule s M of
             Some e \<Rightarrow> Raise e M
           | None \<Rightarrow>
               let s1 = in_cell q s; M1 = M\<lparr>om_ledger := put_slot sid s1 (om_ledger M)\<rparr>
               in case column_role_of (cq_column q) of
                    Inl e \<Rightarrow> Raise e M1
                  | Inr _ \<Rightarrow> (case zone_for_rank (cq_rank q) of Inl e \<Rightarrow> Raise e M1 | Inr _ \<Rightarrow> Return s1 M1)))"

definition c1_value_of_queue_position :: "decimal \<Rightarrow> decimal \<Rightarrow> decimal option \<Rightarrow> decimal" where
  "c1_value_of_queue_position net_pnl probability clear_seconds =
     (case clear_seconds of
        None \<Rightarrow> 0
      | Some t \<Rightarrow> if t \<le> 0 then 0 else ddiv (dmul net_pnl probability) t)"

definition reclaim_reasons :: "string set" where
  "reclaim_reasons =
     {''OLD_FREE_OUTSIDE_ACTIVE_REGION'', ''LOW_MARGINAL_SCORE'', ''BETTER_ROUTE_AVAILABLE'', ''C2_OPPORTUNITY_EXPIRED''}"

definition reclaimable ::
    "string \<Rightarrow> decimal \<Rightarrow> decimal \<Rightarrow> string \<Rightarrow> int \<Rightarrow> order_manager \<Rightarrow> (bool, order_manager) outcome" where
  "reclaimable sid alternative queue_value reason now M =
     with_key (sl_slots (om_ledger M)) sid M (\<lambda>s.
       if es_state s \<in> {PARTIAL, FILLED, RETURN} then Return False M
       else if 0 < es_filled s then Return False M
       else if es_column s = Some 1 \<and> alternative \<le> queue_value then Return False M
       else let allowed = (reason \<in> reclaim_reasons)
            in Return allowed
                 (if allowed
                  then M\<lparr>om_reasons := om_reasons M @
                           [\<lparr>rr_slot_id = sid, rr_reason = reason, rr_time = now, rr_alternative = alternative,
                             rr_queue_value = queue_value\<rparr>]\<rparr>
                  else M))"

end
