(* ===== verification/Multi_Stable_Manager_Facts.thy ===== *)
theory Multi_Stable_Manager_Facts
  imports Multi_Stable_Manager Multi_Stable_Routing_Facts
begin

text \<open>
  What the policy of \<^verbatim>\<open>adaptive_multi_stable_manager.py\<close> guarantees: the priority
  classes, the two capital choices (one locale, interpreted for each kind of row), and the
  cells the manager gives to slots.
\<close>

section \<open>Priority classes\<close>

text \<open>
  C40: the priority class is total on the grid and ordered by zone and column. It is defined
  exactly for an obligation, an old order without fills, or a cell of rank 1 to 7 and column
  1 or 2, and it lies between 1 and 8. It is 1 for obligations and for nothing else, 8 for the
  old orders without fills and for nothing else, and in between nearer zones, then the first
  column, come first. Hence an obligation precedes every cell and a cell precedes every old order.
\<close>

theorem priority_class_is_ordered:
  "(\<exists>c. priority_class obligation rank column old = Inr c) =
     (obligation \<or> old \<or> rank \<in> {1..7} \<and> column \<in> {1, 2}) \<and>
   (priority_class obligation rank column old = Inr c \<longrightarrow>
      1 \<le> c \<and> c \<le> 8 \<and> (c = 1) = obligation \<and> (c = 8) = (\<not> obligation \<and> old)) \<and>
   priority_class False rank column True = Inr 8 \<and>
   (rank \<in> {1..7} \<longrightarrow> column \<in> {1, 2} \<longrightarrow>
      priority_class False rank column False =
        Inr (2 * (if rank \<le> 3 then 1 else if rank \<le> 5 then 2 else 3) + column - 1))"
proof -
  have ranks: "rank \<in> {1..7} \<longleftrightarrow> rank \<in> {1, 2, 3} \<or> rank \<in> {4, 5} \<or> rank \<in> {6, 7}" by auto
  have zone: "zone_for_rank rank =
      (if rank \<in> {1..7} then Inr (if rank \<le> 3 then ''HOT'' else if rank \<le> 5 then ''MID'' else ''FAR'')
       else Inl (ValueError ''M032_RANK_OUT_OF_RANGE''))"
    by (auto simp: zone_for_rank_def)
  show ?thesis
    unfolding priority_class_def zone by (auto simp: zone_classes_def split: if_splits)
qed

theorem priority_class_is_ordered_witness:
  "priority_class False 4 2 False = Inr 5 \<and> (1::int) < 5 \<and> (5::int) < 8 \<and> priority_class False 4 2 True = Inr 8"
proof -
  have "priority_class False 4 2 False = Inr 5"
    using priority_class_is_ordered [of False 4 2 False 5] by simp
  then show ?thesis using priority_class_is_ordered [of False 4 2 False 5] by simp
qed

section \<open>Choosing within the capital\<close>

locale capital_choice =
  fixes prio :: "'a \<Rightarrow> int" and gain cost :: "'a \<Rightarrow> decimal" and valid :: "'a \<Rightarrow> bool"
  assumes valid_prio: "valid row \<Longrightarrow> 1 \<le> prio row" and valid_cost: "valid row \<Longrightarrow> 0 < cost row"
begin

abbreviation picked :: "decimal \<Rightarrow> 'a list \<Rightarrow> 'a list" where
  "picked \<equiv> pick prio gain cost"

lemma picked_subset: "set (picked left rows) \<subseteq> set rows"
  by (induction rows arbitrary: left) auto

lemma picked_earns: "row \<in> set (picked left rows) \<Longrightarrow> prio row = 1 \<or> 0 < gain row"
  by (induction rows arbitrary: left) (auto split: if_splits)

lemma picked_affordable:
  "\<forall>row \<in> set rows. valid row \<and> on_flow_grid k (cost row) \<Longrightarrow> on_flow_grid k left \<Longrightarrow>
     sum_list (map cost (picked left rows)) \<le> left"
proof (induction rows arbitrary: left)
  case Nil
  then show ?case by (simp add: on_flow_grid_def)
next
  case (Cons row rows)
  have "sum_list (map cost (row # picked (dsub left (cost row)) rows)) \<le> left" if fits: "cost row \<le> left"
  proof -
    have grid: "on_flow_grid k (cost row)" using Cons.prems(1) by simp
    have "dsub left (cost row) = left - cost row" by (rule flow_grid_sub [OF Cons.prems(2) grid fits])
    then show ?thesis
      using Cons.IH [of "left - cost row"] Cons.prems flow_grid_diff [OF Cons.prems(2) grid fits] by simp
  qed
  then show ?case using Cons by (auto simp: not_less on_flow_grid_def)
qed

text \<open>The first obligation that does not fit ends the choice.\<close>

abbreviation obligations :: "'a list \<Rightarrow> 'a list" where
  "obligations \<equiv> filter (\<lambda>row. prio row = 1)"

lemma obligations_first:
  "sorted (map prio rows) \<Longrightarrow> \<forall>row \<in> set rows. valid row \<Longrightarrow>
     obligations (picked left rows) \<noteq> obligations rows \<Longrightarrow> row \<in> set (picked left rows) \<Longrightarrow> prio row = 1"
proof (induction rows arbitrary: left)
  case (Cons r rows)
  show ?case
  proof (cases "prio r = 1")
    case True
    then show ?thesis using Cons by (auto split: if_splits)
  next
    case False
    then have "1 < prio r" using Cons.prems(2) valid_prio by fastforce
    then have none: "\<forall>x \<in> set (r # rows). prio x \<noteq> 1" using Cons.prems(1) by fastforce
    then have "obligations (picked left (r # rows)) = []" "obligations (r # rows) = []"
      using picked_subset by (fastforce simp: filter_empty_conv)+
    then show ?thesis using Cons.prems(3) by simp
  qed
qed simp

text \<open>If no obligation was refused, what is left out earns nothing or no longer fits.\<close>

lemma picked_maximal:
  "\<forall>row \<in> set rows. valid row \<and> on_flow_grid k (cost row) \<Longrightarrow> on_flow_grid k left \<Longrightarrow>
     obligations (picked left rows) = obligations rows \<Longrightarrow>
     row \<in> set rows \<Longrightarrow> row \<notin> set (picked left rows) \<Longrightarrow>
     gain row \<le> 0 \<or> left - sum_list (map cost (picked left rows)) < cost row"
proof (induction rows arbitrary: left)
  case (Cons r rows)
  have grid: "on_flow_grid k (cost r)" "0 < cost r" using Cons.prems(1) valid_cost by auto
  show ?case
  proof (cases "(prio r = 1 \<or> 0 < gain r) \<and> cost r \<le> left")
    case True
    have e: "dsub left (cost r) = left - cost r" using True flow_grid_sub [OF Cons.prems(2) grid(1)] by simp
    have p: "picked left (r # rows) = r # picked (left - cost r) rows" using True by (auto simp: e)
    have "gain row \<le> 0 \<or> left - cost r - sum_list (map cost (picked (left - cost r) rows)) < cost row"
      by (rule Cons.IH) (use Cons.prems True flow_grid_diff [OF Cons.prems(2) grid(1)] in \<open>simp_all add: e p split: if_splits\<close>)
    then show ?thesis unfolding p by (simp add: algebra_simps)
  next
    case False
    have "prio r \<noteq> 1" using False Cons.prems(3) by (auto simp: not_less filter_eq_Cons_iff)
    then have p: "picked left (r # rows) = picked left rows" "gain r \<le> 0 \<or> left < cost r"
      using False by (auto simp: not_less)
    have "0 \<le> sum_list (map cost (picked left rows))"
      using Cons.prems(1) picked_subset [of left rows] valid_cost by (intro sum_list_nonneg) (force simp: less_imp_le)
    then show ?thesis using Cons p \<open>prio r \<noteq> 1\<close> by auto
  qed
qed simp

end

definition good_row :: "score_breakdown \<Rightarrow> bool" where
  "good_row b \<longleftrightarrow> 1 \<le> sb_priority b \<and> 0 < sb_capital b"

interpretation marginal_choice: capital_choice sb_priority sb_score sb_capital good_row
  by unfold_locales (simp_all add: good_row_def)

definition good_eligible_row :: "productivity_breakdown \<Rightarrow> bool" where
  "good_eligible_row b \<longleftrightarrow> 1 \<le> pb_priority b \<and> 0 < pb_capital b"

interpretation eligible_choice: capital_choice pb_priority pb_productivity pb_capital good_eligible_row
  by unfold_locales (simp_all add: good_eligible_row_def)

lemma score_good: "score o' = Inr b \<Longrightarrow> good_row b \<and> sb_capital b = mo_capital o'"
  by (auto simp: score_def good_row_def Let_def split: if_splits)

lemma ranked_rows:
  assumes "rank_opportunities os = Inr ranked"
  shows "b \<in> set ranked \<Longrightarrow> \<exists>o' \<in> set os. score o' = Inr b" "sorted (map sb_priority ranked)"
proof -
  obtain scored where t: "traverse score os = Inr scored" and r: "ranked = sort_key score_key scored"
    using assms by (auto simp: rank_opportunities_def split: sum.splits)
  show "\<exists>o' \<in> set os. score o' = Inr b" if "b \<in> set ranked"
    using traverse_origin [OF t] that unfolding r by simp
  have "sorted (map score_key ranked)" by (simp add: r)
  then show "sorted (map sb_priority ranked)"
    unfolding sorted_map by (rule sorted_wrt_mono_rel [rotated]) (auto simp: score_key_def less_eq_prod_def)
qed

text \<open>
  The column allocator never spends more than it was given. On amounts with a common
  number of decimal places the chosen rows fit the available capital; each is the score of an
  offered opportunity that is an obligation or earns something; a refused obligation leaves
  nothing but obligations chosen, and otherwise whatever is left out earns nothing or does not
  fit the capital that remains.
\<close>

lemma choice_within_capital:
  assumes res: "choose_opportunities os available = Inr chosen"
    and grid: "on_flow_grid k available" "\<forall>o' \<in> set os. on_flow_grid k (mo_capital o')"
  shows "sum_list (map sb_capital chosen) \<le> available \<and>
     (\<forall>b \<in> set chosen. (\<exists>o' \<in> set os. score o' = Inr b) \<and> (sb_priority b = 1 \<or> 0 < sb_score b)) \<and>
     (\<exists>ranked. rank_opportunities os = Inr ranked \<and>
        (if filter (\<lambda>b. sb_priority b = 1) chosen = filter (\<lambda>b. sb_priority b = 1) ranked
         then \<forall>b \<in> set ranked - set chosen. sb_score b \<le> 0 \<or> available - sum_list (map sb_capital chosen) < sb_capital b
         else \<forall>b \<in> set chosen. sb_priority b = 1))"
proof -
  obtain ranked where r: "rank_opportunities os = Inr ranked" and c: "chosen = marginal_choice.picked available ranked"
    using res by (auto simp: choose_opportunities_def split: sum.splits)
  note rows = ranked_rows [OF r]
  have good: "\<forall>b \<in> set ranked. good_row b \<and> on_flow_grid k (sb_capital b)"
    using rows(1) score_good grid(2) by fastforce
  have "\<exists>o' \<in> set os. score o' = Inr b" if "b \<in> set chosen" for b
    using rows(1) that marginal_choice.picked_subset unfolding c by blast
  moreover have "sb_priority b = 1 \<or> 0 < sb_score b" if "b \<in> set chosen" for b
    using marginal_choice.picked_earns that unfolding c by blast
  moreover have "sb_score b \<le> 0 \<or> available - sum_list (map sb_capital chosen) < sb_capital b"
    if "filter (\<lambda>b. sb_priority b = 1) chosen = filter (\<lambda>b. sb_priority b = 1) ranked" "b \<in> set ranked - set chosen" for b
    using marginal_choice.picked_maximal [OF good grid(1)] that unfolding c by blast
  moreover have "sb_priority b = 1"
    if "filter (\<lambda>b. sb_priority b = 1) chosen \<noteq> filter (\<lambda>b. sb_priority b = 1) ranked" "b \<in> set chosen" for b
    using marginal_choice.obligations_first [OF rows(2)] that good unfolding c by blast
  moreover have "sum_list (map sb_capital chosen) \<le> available"
    unfolding c by (rule marginal_choice.picked_affordable [OF good grid(1)])
  ultimately have "(\<forall>b \<in> set chosen. (\<exists>o' \<in> set os. score o' = Inr b) \<and> (sb_priority b = 1 \<or> 0 < sb_score b))"
    "if filter (\<lambda>b. sb_priority b = 1) chosen = filter (\<lambda>b. sb_priority b = 1) ranked
     then \<forall>b \<in> set ranked - set chosen. sb_score b \<le> 0 \<or> available - sum_list (map sb_capital chosen) < sb_capital b
     else \<forall>b \<in> set chosen. sb_priority b = 1" "sum_list (map sb_capital chosen) \<le> available" by meson+
  with r show ?thesis by (intro conjI exI)
qed

definition sample_opportunity :: "string \<Rightarrow> int \<Rightarrow> decimal \<Rightarrow> decimal \<Rightarrow> marginal_opportunity" where
  "sample_opportunity candidate priority pnl capital =
     \<lparr>mo_candidate = candidate, mo_priority = priority, mo_expected_net_pnl = pnl, mo_completion = 1, mo_capital = capital,
      mo_lock_seconds = 10, mo_safety = 1, mo_inventory_penalty = 0, mo_lost_fifo = 0\<rparr>"

definition sample_opportunities :: "marginal_opportunity list" where
  "sample_opportunities =
     [sample_opportunity ''A'' 2 1 80, sample_opportunity ''B'' 1 1 50, sample_opportunity ''C'' 3 1 40]"

lemma sample_choice:
  "case choose_opportunities sample_opportunities 100 of Inl _ \<Rightarrow> False | Inr bs \<Rightarrow> map sb_candidate bs = [''B'', ''C'']"
  by code_simp

lemma choice_within_capital_witness:
  "\<exists>bs. choose_opportunities sample_opportunities 100 = Inr bs \<and> map sb_candidate bs = [''B'', ''C''] \<and>
     sum_list (map sb_capital bs) \<le> 100"
proof -
  obtain bs where bs: "choose_opportunities sample_opportunities 100 = Inr bs"
    using sample_choice by (cases "choose_opportunities sample_opportunities 100") simp_all
  have names: "map sb_candidate bs = [''B'', ''C'']" using sample_choice unfolding bs sum.case .
  have "on_flow_grid 0 (100 :: decimal)" "\<forall>o' \<in> set sample_opportunities. on_flow_grid 0 (mo_capital o')"
    by (simp_all add: on_flow_grid_def on_grid_def pow10_def sample_opportunities_def sample_opportunity_def)
  then have "sum_list (map sb_capital bs) \<le> 100" by (rule conjunct1 [OF choice_within_capital [OF bs]])
  with bs names show ?thesis by (intro exI conjI)
qed

section \<open>Physical cells\<close>

definition cells_exclusive :: "slot_ledger \<Rightarrow> bool" where
  "cells_exclusive L \<longleftrightarrow>
     (\<forall>i j s t. dict_get (sl_slots L) i = Some s \<longrightarrow> dict_get (sl_slots L) j = Some t \<longrightarrow> i \<noteq> j \<longrightarrow>
        es_state s \<noteq> CLOSED \<longrightarrow> es_state t \<noteq> CLOSED \<longrightarrow> es_book s \<noteq> None \<longrightarrow>
        (es_book s, es_side s, es_price s, es_column s) \<noteq> (es_book t, es_side t, es_price t, es_column t))"

lemma cells_exclusiveD:
  assumes "cells_exclusive L" "dict_get (sl_slots L) i = Some s" "dict_get (sl_slots L) j = Some t" "i \<noteq> j"
    "es_state s \<noteq> CLOSED" "es_state t \<noteq> CLOSED" "es_book s \<noteq> None"
  shows "(es_book s, es_side s, es_price s, es_column s) \<noteq> (es_book t, es_side t, es_price t, es_column t)"
  using assms(1) [unfolded cells_exclusive_def] assms(2-7) by metis

lemma in_cell_exclusive:
  assumes excl: "cells_exclusive L"
    and alone: "\<And>j t. dict_get (sl_slots L) j = Some t \<Longrightarrow> j \<noteq> sid \<Longrightarrow> \<not> occupies q t"
  shows "cells_exclusive (put_slot sid (in_cell q s) L)"
  unfolding cells_exclusive_def
proof (intro allI impI)
  fix i j s' t
  assume i: "dict_get (sl_slots (put_slot sid (in_cell q s) L)) i = Some s'"
    and j: "dict_get (sl_slots (put_slot sid (in_cell q s) L)) j = Some t"
    and live: "i \<noteq> j" "es_state s' \<noteq> CLOSED" "es_state t \<noteq> CLOSED" "es_book s' \<noteq> None"
  consider "i = sid" "j \<noteq> sid" | "j = sid" "i \<noteq> sid" | "i \<noteq> sid" "j \<noteq> sid" using live(1) by blast
  then show "(es_book s', es_side s', es_price s', es_column s') \<noteq> (es_book t, es_side t, es_price t, es_column t)"
  proof cases
    case 1
    then have "\<not> occupies q t" "s' = in_cell q s" using alone [of j t] i j by (simp_all add: put_slot_def)
    then show ?thesis using live by (auto simp: occupies_def in_cell_def)
  next
    case 2
    then have "\<not> occupies q s'" "t = in_cell q s" using alone [of i s'] i j by (simp_all add: put_slot_def)
    then show ?thesis using live by (auto simp: occupies_def in_cell_def)
  next
    case 3
    then show ?thesis using cells_exclusiveD [OF excl, of i s' j t] i j live by (simp add: put_slot_def)
  qed
qed

text \<open>
  A slot only gets a cell of the grid that is its own. When \<^verbatim>\<open>configure_slot_cell\<close>
  returns, the slot was free and unfilled, the order obeys the exchange rule, the rank is 1 to
  7, the column 1 or 2 and the price that many ticks from the hotline on the side's own side,
  no other open slot occupies the cell, nothing but the slot's cell has changed; and if the
  open slots had different cells before, they still do.
\<close>

lemma configured_cell_is_exclusive:
  assumes res: "configure_slot_cell sid q M = Return s M'"
  shows "\<exists>s0 rule b. dict_get (sl_slots (om_ledger M)) sid = Some s0 \<and> dict_get (om_rules M) (cq_symbol q) = Some rule \<and>
     dict_get (om_books M) (cq_symbol q) = Some b \<and> es_state s0 = FREE \<and> es_reservation s0 = None \<and> es_filled s0 \<le> 0 \<and>
     validate_order (cq_price q) (cq_quantity q) (cq_now q) rule = Inr () \<and>
     cq_rank q \<in> {1..7} \<and> cq_column q \<in> {1, 2} \<and>
     cq_price q = cell_price (cq_side q) (cq_rank q) (sr_tick_size rule) (bs_hotline b) \<and>
     (\<forall>j t. dict_get (sl_slots (om_ledger M)) j = Some t \<longrightarrow> j \<noteq> sid \<longrightarrow> \<not> occupies q t) \<and>
     s = in_cell q s0 \<and> M' = M\<lparr>om_ledger := put_slot sid s (om_ledger M)\<rparr> \<and>
     (cells_exclusive (om_ledger M) \<longrightarrow> cells_exclusive (om_ledger M'))"
proof -
  obtain rule s0 c z where rule: "dict_get (om_rules M) (cq_symbol q) = Some rule"
    "validate_order (cq_price q) (cq_quantity q) (cq_now q) rule = Inr ()"
    and s0: "dict_get (sl_slots (om_ledger M)) sid = Some s0" and ok: "cell_error sid q rule s0 M = None"
    and s: "s = in_cell q s0" "M' = M\<lparr>om_ledger := put_slot sid s (om_ledger M)\<rparr>"
    and col: "column_role_of (cq_column q) = Inr c" and zone: "zone_for_rank (cq_rank q) = Inr z"
    using res by (auto simp: configure_slot_cell_def with_key_def Let_def split: option.splits sum.splits)
  have grid: "cq_rank q \<in> {1..7}" "cq_column q \<in> {1, 2}"
    using col zone by (auto simp: column_role_of_def zone_for_rank_def split: if_splits)
  obtain b where free: "es_state s0 = FREE" "es_reservation s0 = None" "es_filled s0 \<le> 0"
    and b: "dict_get (om_books M) (cq_symbol q) = Some b"
      "cq_price q = cell_price (cq_side q) (cq_rank q) (sr_tick_size rule) (bs_hotline b)"
    and alone: "\<And>j t. (j, t) \<in> set (sl_slots (om_ledger M)) \<Longrightarrow> j \<noteq> sid \<Longrightarrow> \<not> occupies q t"
    using ok by (auto simp: cell_error_def not_less split: if_splits sum.splits option.splits)
  have own: "\<not> occupies q t" if "dict_get (sl_slots (om_ledger M)) j = Some t" "j \<noteq> sid" for j t
    using alone [OF map_of_SomeD [OF that(1)] that(2)] .
  have "cells_exclusive (om_ledger M')" if "cells_exclusive (om_ledger M)"
    using in_cell_exclusive [OF that own] by (simp add: s)
  then show ?thesis using s0 rule b free grid own s by (intro exI conjI) simp_all
qed

definition sample_evidence :: "string \<Rightarrow> stablecoin_evidence" where
  "sample_evidence asset =
     \<lparr>sce_asset = asset, sce_adoption = 1, sce_peg_stability = 1, sce_liquidity = 1, sce_reserve_quality = 1,
      sce_operational = 1, sce_as_of = 0, sce_provenance = []\<rparr>"

definition sample_rule :: symbol_rule where
  "sample_rule = \<lparr>sr_symbol = ''USDCUSDT'', sr_base_asset = ''USDC'', sr_quote_asset = ''USDT'', sr_tick_size = 1 / 10,
     sr_step_size = 1, sr_min_notional = 1, sr_effective_start = 0, sr_effective_end = None, sr_provenance = ''X''\<rparr>"

definition sample_manager :: order_manager where
  "sample_manager = new_order_manager sample_slots [(''USDCUSDT'', sample_rule)]
     (projr (new_universe [sample_evidence ''USDT'', sample_evidence ''USDC''] 1))
     \<lparr>pg_max_deviation = 1, pg_max_spread = 1, pg_min_depth = 0\<rparr>"

definition sample_cell :: cell_request where
  "sample_cell = \<lparr>cq_symbol = ''USDCUSDT'', cq_side = ''BUY'', cq_price = 9 / 10, cq_rank = 1, cq_column = 1,
     cq_quantity = 10, cq_now = 5, cq_peg_deviation = 0, cq_spread = 0, cq_depth = 1, cq_data_gap = False\<rparr>"

definition ready_manager :: "slot_op list \<Rightarrow> order_manager" where
  "ready_manager ops = post_state (update_hotline ''USDCUSDT'' 1 4
     (sample_manager\<lparr>om_ledger := drive_ops exec_slot ops sample_slots\<rparr>))"

lemma sample_configured:
  "case configure_slot_cell ''S1'' sample_cell (ready_manager [CreateSlot ''S1'' ''USDT'' 10 1 1]) of
     Return s M \<Rightarrow> es_price s = Some (9 / 10) | Raise _ _ \<Rightarrow> False"
  by code_simp

lemma configured_cell_is_exclusive_witness:
  "\<exists>s M'. configure_slot_cell ''S1'' sample_cell (ready_manager [CreateSlot ''S1'' ''USDT'' 10 1 1]) = Return s M' \<and>
     es_price s = Some (9 / 10) \<and> cq_rank sample_cell \<in> {1..7}"
proof -
  obtain s M' where r: "configure_slot_cell ''S1'' sample_cell (ready_manager [CreateSlot ''S1'' ''USDT'' 10 1 1]) = Return s M'"
    "es_price s = Some (9 / 10)" using sample_configured unfolding case_Return_iff by (elim exE conjE) (rule that; assumption)
  have "cq_rank sample_cell \<in> {1..7}" using configured_cell_is_exclusive [OF r(1)] by (elim exE conjE)
  with r show ?thesis by (intro exI conjI)
qed

text \<open>
  An invalid column is only refused after the slot has been given the cell, and a closed slot
  that is reserved again returns to its old cell although another slot has taken it meanwhile.
\<close>

lemma bad_column_is_written:
  "case configure_slot_cell ''S1'' (sample_cell\<lparr>cq_column := 3\<rparr>) (ready_manager [CreateSlot ''S1'' ''USDT'' 10 1 1]) of
     Raise e M \<Rightarrow> e = ValueError ''M032_COLUMN_OUT_OF_RANGE'' \<and> map es_column (dict_values (sl_slots (om_ledger M))) = [Some 3]
   | Return _ _ \<Rightarrow> False"
  by code_simp

lemma reserve_reopens_closed_slot:
  assumes "reserve_free sid rid asset quantity now L = Return r L'" "dict_get (sl_slots L) sid = Some s"
    and "es_slot_id s = sid" "es_state s = CLOSED" "occupies q (s\<lparr>es_state := FREE\<rparr>)"
  shows "\<exists>s'. dict_get (sl_slots L') sid = Some s' \<and> es_state s' = RESERVED \<and> occupies q s'"
  using assms
  by (auto simp: reserve_free_def create_reservation_def sl_causal_def with_key_def or_key_error_def reconciled_def
      occupies_def Let_def split: if_splits option.splits)

end
