(* ===== verification/Multi_Venue_Models.thy ===== *)
theory Multi_Venue_Models
  imports Multi_Stable_Models
begin

text \<open>
  \<^verbatim>\<open>microstructure/multi_venue_models.py\<close>: physical books, the exchange rules and fee
  profiles of a venue, evidence, canonical market data, and routes that stay on one venue.
  Each \<^verbatim>\<open>__post_init__\<close> is a check that returns the exception the constructor raises.
\<close>

section \<open>Books\<close>

datatype venue = BINANCE | KRAKEN

datatype fee_evidence_status =
    PROVEN_HISTORICAL
  | PROVEN_FORWARD
  | ACCOUNT_SPECIFIC
  | OWNER_DIAGNOSTIC_ASSUMPTION
  | UNPROVEN

definition venue_value :: "venue \<Rightarrow> string" where
  "venue_value v = (case v of BINANCE \<Rightarrow> ''BINANCE'' | KRAKEN \<Rightarrow> ''KRAKEN'')"

datatype book_key = Book_Key (bk_venue: venue) (bk_symbol: string)

text \<open>The characters \<^verbatim>\<open>str.strip\<close> removes, among the first 256.\<close>

definition is_space :: "char \<Rightarrow> bool" where
  "is_space c \<longleftrightarrow> (of_char c :: nat) \<in> {9, 10, 11, 12, 13, 28, 29, 30, 31, 32, 133, 160}"

definition strip :: "string \<Rightarrow> string" where
  "strip s = rev (dropWhile is_space (rev (dropWhile is_space s)))"

definition check_book_key :: "book_key \<Rightarrow> py_error + unit" where
  "check_book_key b =
     (if bk_symbol b = [] \<or> bk_symbol b \<noteq> strip (bk_symbol b)
      then Inl (ValueError ''M033_INVALID_NATIVE_SYMBOL'') else Inr ())"

definition canonical_id :: "book_key \<Rightarrow> string" where
  "canonical_id b = venue_value (bk_venue b) @ '':'' @ bk_symbol b"

section \<open>Rules and fees\<close>

record venue_symbol_rule =
  vr_book :: book_key
  vr_base_asset :: string
  vr_quote_asset :: string
  vr_tick_size :: decimal
  vr_quantity_step :: decimal
  vr_minimum_quantity :: decimal
  vr_minimum_notional :: decimal
  vr_price_precision :: int
  vr_effective_start :: int
  vr_effective_end :: "int option"
  vr_provenance :: string

definition ends_early :: "int \<Rightarrow> int option \<Rightarrow> bool" where
  "ends_early start stop \<longleftrightarrow> (case stop of None \<Rightarrow> False | Some e \<Rightarrow> e \<le> start)"

definition check_venue_rule :: "venue_symbol_rule \<Rightarrow> py_error + unit" where
  "check_venue_rule r =
     (if vr_base_asset r = [] \<or> vr_quote_asset r = [] \<or> vr_provenance r = [] \<or> vr_tick_size r \<le> 0 \<or>
         vr_quantity_step r \<le> 0 \<or> vr_minimum_quantity r \<le> 0 \<or> vr_minimum_notional r \<le> 0 \<or>
         vr_price_precision r < 0 \<or> vr_effective_start r < 0 \<or> ends_early (vr_effective_start r) (vr_effective_end r)
      then Inl (ValueError ''M033_INVALID_SYMBOL_RULE'') else Inr ())"

definition validate_venue_order :: "decimal \<Rightarrow> decimal \<Rightarrow> int \<Rightarrow> venue_symbol_rule \<Rightarrow> py_error + unit" where
  "validate_venue_order price quantity time_us r =
     (if outside_window (vr_effective_start r) (vr_effective_end r) time_us
      then Inl (ValueError ''M033_RULE_OUTSIDE_EFFECTIVE_WINDOW'')
      else if price \<le> 0 \<or> quantity \<le> 0 then Inl (ValueError ''M033_NON_POSITIVE_ORDER'')
      else case drem price (vr_tick_size r) of
        Inl e \<Rightarrow> Inl e
      | Inr x \<Rightarrow>
          if x \<noteq> 0 then Inl (ValueError ''M033_TICK_SIZE_VIOLATION'')
          else case drem quantity (vr_quantity_step r) of
            Inl e \<Rightarrow> Inl e
          | Inr y \<Rightarrow>
              if y \<noteq> 0 then Inl (ValueError ''M033_QUANTITY_STEP_VIOLATION'')
              else if quantity < vr_minimum_quantity r then Inl (ValueError ''M033_MINIMUM_QUANTITY_VIOLATION'')
              else if dmul price quantity < vr_minimum_notional r
              then Inl (ValueError ''M033_MINIMUM_NOTIONAL_VIOLATION'') else Inr ())"

record venue_fee_profile =
  vf_book :: book_key
  vf_maker_rate :: decimal
  vf_taker_rate :: decimal
  vf_fee_asset_semantics :: string
  vf_effective_start :: int
  vf_effective_end :: "int option"
  vf_provenance :: string
  vf_account_tier :: string
  vf_acquired_at :: "int option"
  vf_evidence_status :: fee_evidence_status
  vf_record_id :: "string option"
  vf_source_reference :: "string option"

definition check_venue_fee :: "venue_fee_profile \<Rightarrow> py_error + unit" where
  "check_venue_fee f =
     (if vf_maker_rate f < 0 \<or> vf_taker_rate f < 0 \<or> strip (vf_fee_asset_semantics f) = [] \<or>
         strip (vf_provenance f) = [] \<or> strip (vf_account_tier f) = []
      then Inl (ValueError ''M034_INVALID_FEE_PROFILE'')
      else if ends_early (vf_effective_start f) (vf_effective_end f)
      then Inl (ValueError ''M034_INVALID_FEE_EFFECTIVE_WINDOW'')
      else if (case vf_acquired_at f of None \<Rightarrow> False | Some t \<Rightarrow> t < 0)
      then Inl (ValueError ''M034_INVALID_FEE_ACQUISITION_TIME'') else Inr ())"

definition venue_fee_rate :: "bool \<Rightarrow> int \<Rightarrow> venue_fee_profile \<Rightarrow> py_error + decimal" where
  "venue_fee_rate maker time_us f =
     (if outside_window (vf_effective_start f) (vf_effective_end f) time_us
      then Inl (ValueError ''M033_FEE_OUTSIDE_EFFECTIVE_WINDOW'')
      else Inr (if maker then vf_maker_rate f else vf_taker_rate f))"

section \<open>Evidence\<close>

record venue_order_semantics =
  vs_venue :: venue
  vs_post_only_mechanism :: string
  vs_cancel_releases_on_ack_only :: bool
  vs_quantity_decrease_priority :: string
  vs_quantity_increase_priority :: string
  vs_price_change_priority :: string
  vs_chained_unacknowledged_actions :: string
  vs_provenance :: "string list"

record venue_latency_profile =
  vl_venue :: venue
  vl_market_data :: "int option"
  vl_order_submit :: "int option"
  vl_order_ack :: "int option"
  vl_cancel :: "int option"
  vl_cancel_ack :: "int option"
  vl_provenance :: string

definition check_latency :: "venue_latency_profile \<Rightarrow> py_error + unit" where
  "check_latency p =
     (if \<exists>v \<in> set [vl_market_data p, vl_order_submit p, vl_order_ack p, vl_cancel p, vl_cancel_ack p].
           (case v of None \<Rightarrow> False | Some x \<Rightarrow> x < 0)
      then Inl (ValueError ''M033_NEGATIVE_LATENCY'') else Inr ())"

record asset_safety_evidence =
  as_asset :: string
  as_adoption :: decimal
  as_peg_stability :: decimal
  as_reserve_quality :: decimal
  as_global_liquidity :: decimal
  as_as_of :: int
  as_provenance :: "string list"

definition asset_safety_score :: "asset_safety_evidence \<Rightarrow> py_error + decimal" where
  "asset_safety_score s =
     (let values = [as_adoption s, as_peg_stability s, as_reserve_quality s, as_global_liquidity s]
      in if \<exists>v \<in> set values. v < 0 \<or> 1 < v then Inl (ValueError ''M033_ASSET_SAFETY_COMPONENT_OUT_OF_RANGE'')
         else Inr (ddiv (dsum values) (of_nat (length values))))"

record venue_operational_evidence =
  vo_venue :: venue
  vo_asset :: string
  vo_trading_status :: string
  vo_market_available :: bool
  vo_operational_quality :: decimal
  vo_as_of :: int
  vo_provenance :: "string list"

definition check_operational :: "venue_operational_evidence \<Rightarrow> py_error + unit" where
  "check_operational o' =
     (if \<not> (0 \<le> vo_operational_quality o' \<and> vo_operational_quality o' \<le> 1)
      then Inl (ValueError ''M033_VENUE_OPERATIONAL_SCORE_OUT_OF_RANGE'') else Inr ())"

section \<open>Market data\<close>

record canonical_level =
  cl_price :: decimal
  cl_quantity :: decimal

record canonical_book_snapshot =
  cs_book :: book_key
  cs_bids :: "canonical_level list"
  cs_asks :: "canonical_level list"
  cs_exchange_time :: int
  cs_local_capture_time :: int
  cs_update_id :: string

record canonical_book_delta =
  cd_book :: book_key
  cd_side :: string
  cd_price :: decimal
  cd_quantity :: decimal
  cd_exchange_time :: int
  cd_local_capture_time :: int
  cd_update_id :: string

record canonical_trade =
  ct_book :: book_key
  ct_trade_id :: string
  ct_price :: decimal
  ct_quantity :: decimal
  ct_aggressor_side :: "string option"
  ct_exchange_time :: int
  ct_local_capture_time :: int

datatype l3_event_type = ADD | MODIFY | DELETE

record l3_order_event =
  le_book :: book_key
  le_event_id :: string
  le_event_type :: l3_event_type
  le_side :: string
  le_price :: decimal
  le_order_id :: string
  le_remaining :: decimal
  le_order_entry_time :: int
  le_exchange_time :: int
  le_local_capture_time :: int
  le_message_sequence :: int

section \<open>Routes and fills\<close>

record venue_route_leg =
  vg_book :: book_key
  vg_from :: string
  vg_to :: string
  vg_maker :: bool

record venue_route =
  vt_route_id :: string
  vt_origin :: string
  vt_legs :: "venue_route_leg list"

primrec follow_legs :: "string \<Rightarrow> venue_route_leg list \<Rightarrow> string option" where
  "follow_legs cursor [] = Some cursor"
| "follow_legs cursor (leg # legs) = (if vg_from leg \<noteq> cursor then None else follow_legs (vg_to leg) legs)"

definition check_venue_route :: "venue_route \<Rightarrow> py_error + unit" where
  "check_venue_route r =
     (if \<not> (2 \<le> length (vt_legs r) \<and> length (vt_legs r) \<le> 4)
      then Inl (ValueError ''M033_ROUTE_LENGTH_MUST_BE_2_TO_4'')
      else if card (set (map (\<lambda>leg. bk_venue (vg_book leg)) (vt_legs r))) \<noteq> 1
      then Inl (ValueError ''M033_CROSS_VENUE_ROUTE_PROHIBITED'')
      else case follow_legs (vt_origin r) (vt_legs r) of
        None \<Rightarrow> Inl (ValueError ''M033_ROUTE_ASSET_DISCONTINUITY'')
      | Some cursor \<Rightarrow>
          if cursor \<noteq> vt_origin r then Inl (ValueError ''M033_ROUTE_DOES_NOT_CLOSE'') else Inr ())"

definition route_venue :: "venue_route \<Rightarrow> py_error + venue" where
  "route_venue r = (case vt_legs r of [] \<Rightarrow> Inl IndexError | leg # _ \<Rightarrow> Inr (bk_venue (vg_book leg)))"

record venue_physical_fill =
  vp_venue :: venue
  vp_fill_id :: string
  vp_book :: book_key
  vp_from :: string
  vp_to :: string
  vp_input :: decimal
  vp_gross :: decimal
  vp_fee_asset :: string
  vp_fee :: decimal
  vp_time :: int

definition check_venue_fill :: "venue_physical_fill \<Rightarrow> py_error + unit" where
  "check_venue_fill f =
     (if vp_venue f \<noteq> bk_venue (vp_book f) then Inl (ValueError ''M033_FILL_BOOK_VENUE_MISMATCH'') else Inr ())"

end
