(* ===== verification/Multi_Venue_Queue.thy ===== *)
theory Multi_Venue_Queue
  imports Multi_Venue_Models Causal_Queue
begin

text \<open>
  \<^verbatim>\<open>microstructure/multi_venue_queue.py\<close>: the causal estimator kept per physical book
  (L2), the price-time queue of observable orders (L3), and the harness that feeds both. The
  entries of a level are objects Python changes in place; they are identified by order id.
\<close>

section \<open>L2: one estimator per book\<close>

type_synonym l2_models = "(book_key, queue_estimator) dict"

text \<open>\<^verbatim>\<open>setdefault\<close> stores the new estimator also when the call that follows raises.\<close>

definition on_model ::
    "book_key \<Rightarrow> (queue_estimator \<Rightarrow> ('a, queue_estimator) outcome) \<Rightarrow> l2_models \<Rightarrow> ('a, l2_models) outcome" where
  "on_model book m models =
     (case m (get_or models book default_queue) of
        Return r q \<Rightarrow> Return r (dict_set book q models)
      | Raise e q \<Rightarrow> Raise e (dict_set book q models))"

definition l2_activate ::
    "book_key \<Rightarrow> string \<Rightarrow> decimal \<Rightarrow> string \<Rightarrow> int \<Rightarrow> decimal \<Rightarrow> decimal \<Rightarrow> int \<Rightarrow> l2_models \<Rightarrow>
     (unit, l2_models) outcome" where
  "l2_activate book side price oid column quantity observed now models =
     returning (\<lambda>_. ())
       (on_model book (activate (canonical_id book) side price oid column quantity observed now) models)"

definition l2_queue_ahead :: "book_key \<Rightarrow> string \<Rightarrow> l2_models \<Rightarrow> (decimal, l2_models) outcome" where
  "l2_queue_ahead book oid models =
     on_model book (\<lambda>q. case queue_ahead oid q of Inl e \<Rightarrow> Raise e q | Inr x \<Rightarrow> Return x q) models"

definition l2_consume ::
    "book_key \<Rightarrow> string \<Rightarrow> string \<Rightarrow> decimal \<Rightarrow> decimal \<Rightarrow> int \<Rightarrow> l2_models \<Rightarrow>
     ((string, decimal) dict, l2_models) outcome" where
  "l2_consume book event_id side price quantity now models =
     on_model book (consume_compatible_flow event_id (canonical_id book) side price quantity now) models"

section \<open>L3: state\<close>

record l3_entry =
  l3_order_id :: string
  l3_remaining :: decimal
  l3_entry_time :: int
  l3_sequence :: int
  l3_ours :: bool
  l3_column :: "int option"
  l3_first_fill :: "int option"
  l3_cancel_requested :: "int option"
  l3_last_action :: "int option"

type_synonym level_key = "book_key \<times> string \<times> decimal"

record l3_queue =
  l3_levels :: "(level_key, l3_entry list) dict"
  l3_order_level :: "(book_key \<times> string, level_key) dict"
  l3_processed :: "(book_key \<times> string) set"
  l3_last_time :: "(book_key, int) dict"
  l3_gapped :: "book_key set"
  l3_awaiting :: "(book_key \<times> string, decimal) dict"
  l3_ambiguous :: "level_key set"
  l3_own_sequence :: int

definition new_l3 :: l3_queue where
  "new_l3 = \<lparr>l3_levels = [], l3_order_level = [], l3_processed = {}, l3_last_time = [], l3_gapped = {},
     l3_awaiting = [], l3_ambiguous = {}, l3_own_sequence = 1000000000\<rparr>"

definition mark_gap :: "book_key \<Rightarrow> l3_queue \<Rightarrow> (unit, l3_queue) outcome" where
  "mark_gap book S = Return () (S\<lparr>l3_gapped := insert book (l3_gapped S)\<rparr>)"

definition out_of_order :: "book_key \<Rightarrow> int \<Rightarrow> l3_queue \<Rightarrow> bool" where
  "out_of_order book now S \<longleftrightarrow> (case dict_get (l3_last_time S) book of None \<Rightarrow> False | Some t \<Rightarrow> now < t)"

definition advance_clock :: "book_key \<Rightarrow> int \<Rightarrow> l3_queue \<Rightarrow> (unit, l3_queue) outcome" where
  "advance_clock book now S =
     (if out_of_order book now S then Raise (ValueError ''M033_OUT_OF_ORDER_L3_EVENT'') S
      else Return () (S\<lparr>l3_last_time := dict_set book now (l3_last_time S)\<rparr>))"

text \<open>Public orders come before ours at the same time.\<close>

definition l3_key :: "l3_entry \<Rightarrow> int \<times> int \<times> int" where
  "l3_key e = (l3_entry_time e, if l3_ours e then 1 else 0, l3_sequence e)"

definition level_of :: "l3_queue \<Rightarrow> level_key \<Rightarrow> l3_entry list" where
  "level_of S k = get_or (l3_levels S) k []"

definition put_level :: "level_key \<Rightarrow> l3_entry list \<Rightarrow> l3_queue \<Rightarrow> l3_queue" where
  "put_level k es S = S\<lparr>l3_levels := dict_set k es (l3_levels S)\<rparr>"

definition put_order :: "book_key \<times> string \<Rightarrow> level_key \<Rightarrow> l3_queue \<Rightarrow> l3_queue" where
  "put_order i k S = S\<lparr>l3_order_level := dict_set i k (l3_order_level S)\<rparr>"

definition forget_order :: "book_key \<times> string \<Rightarrow> l3_queue \<Rightarrow> l3_queue" where
  "forget_order i S = S\<lparr>l3_order_level := dict_del i (l3_order_level S)\<rparr>"

definition put_in_line :: "level_key \<Rightarrow> l3_entry \<Rightarrow> l3_queue \<Rightarrow> l3_queue" where
  "put_in_line k e S = put_level k (sort_key l3_key (level_of S k @ [e])) S"

definition find_entry :: "string \<Rightarrow> l3_entry list \<Rightarrow> l3_entry option" where
  "find_entry oid es = find (\<lambda>e. l3_order_id e = oid) es"

definition replace_entry :: "l3_entry \<Rightarrow> l3_entry list \<Rightarrow> l3_entry list" where
  "replace_entry e es = map (\<lambda>x. if l3_order_id x = l3_order_id e then e else x) es"

definition without :: "string \<Rightarrow> l3_entry list \<Rightarrow> l3_entry list" where
  "without oid es = filter (\<lambda>x. l3_order_id x \<noteq> oid) es"

definition leave_line :: "level_key \<Rightarrow> string \<Rightarrow> l3_queue \<Rightarrow> l3_queue" where
  "leave_line k oid S = forget_order (fst k, oid) (put_level k (without oid (level_of S k)) S)"

definition store_entry :: "level_key \<Rightarrow> l3_entry \<Rightarrow> l3_queue \<Rightarrow> l3_queue" where
  "store_entry k e S = put_level k (replace_entry e (level_of S k)) S"

text \<open>The entry of a known order, through \<^verbatim>\<open>order_level\<close> and its level.\<close>

definition with_entry ::
    "level_key \<Rightarrow> string \<Rightarrow> l3_queue \<Rightarrow> (l3_entry \<Rightarrow> ('a, l3_queue) outcome) \<Rightarrow> ('a, l3_queue) outcome" where
  "with_entry k oid S f =
     (case dict_get (l3_levels S) k of
        None \<Rightarrow> Raise KeyError S
      | Some es \<Rightarrow> (case find_entry oid es of None \<Rightarrow> Raise StopIteration S | Some e \<Rightarrow> f e))"

definition with_l3_order ::
    "book_key \<Rightarrow> string \<Rightarrow> l3_queue \<Rightarrow> (level_key \<Rightarrow> l3_entry \<Rightarrow> ('a, l3_queue) outcome) \<Rightarrow> ('a, l3_queue) outcome" where
  "with_l3_order book oid S f =
     (case dict_get (l3_order_level S) (book, oid) of
        None \<Rightarrow> Raise KeyError S
      | Some k \<Rightarrow> with_entry k oid S (f k))"

section \<open>L3: public events\<close>

definition native_modify ::
    "level_key \<Rightarrow> book_key \<times> string \<Rightarrow> decimal \<Rightarrow> l3_entry \<Rightarrow> l3_queue \<Rightarrow> (unit, l3_queue) outcome" where
  "native_modify k i quantity e S =
     (if quantity < 0 then Raise (ValueError ''M033_NEGATIVE_L3_REMAINING_QUANTITY'') S
      else case dict_get (l3_awaiting S) i of
        Some expected \<Rightarrow>
          if expected < quantity then Raise (ValueError ''M033_L3_NATIVE_STATE_RESURRECTS_CONSUMED_QUANTITY'') S
          else
            let S1 = (store_entry k (e\<lparr>l3_remaining := quantity\<rparr>) S)\<lparr>l3_awaiting := dict_del i (l3_awaiting S)\<rparr>;
                S2 = (if quantity < expected then S1\<lparr>l3_ambiguous := insert k (l3_ambiguous S1)\<rparr> else S1)
            in Return () (if quantity = 0 then leave_line k (snd i) S2 else S2)
      | None \<Rightarrow>
          if quantity < 0 \<or> l3_remaining e \<le> quantity
          then Raise (ValueError ''M033_L3_MODIFY_MUST_REDUCE_VISIBLE_QUANTITY'') S
          else let S1 = store_entry k (e\<lparr>l3_remaining := quantity\<rparr>) S
               in Return () (S1\<lparr>l3_ambiguous := insert k (l3_ambiguous S1)\<rparr>))"

definition native_delete :: "level_key \<Rightarrow> book_key \<times> string \<Rightarrow> l3_queue \<Rightarrow> (unit, l3_queue) outcome" where
  "native_delete k i S =
     (let S1 = (leave_line k (snd i) S)\<lparr>l3_awaiting := dict_del i (l3_awaiting S)\<rparr>
      in Return () (if dict_get (l3_awaiting S) i \<noteq> Some 0
                    then S1\<lparr>l3_ambiguous := insert k (l3_ambiguous S1)\<rparr> else S1))"

definition native_add :: "level_key \<Rightarrow> l3_order_event \<Rightarrow> l3_queue \<Rightarrow> (unit, l3_queue) outcome" where
  "native_add k ev S =
     (if has_key (l3_order_level S) (le_book ev, le_order_id ev) \<or> le_remaining ev \<le> 0
      then Raise (ValueError ''M033_DUPLICATE_OR_EMPTY_L3_ADD'') S
      else
        let e = \<lparr>l3_order_id = le_order_id ev, l3_remaining = le_remaining ev, l3_entry_time = le_order_entry_time ev,
                 l3_sequence = le_message_sequence ev, l3_ours = False, l3_column = None, l3_first_fill = None,
                 l3_cancel_requested = None, l3_last_action = None\<rparr>
        in Return () (put_in_line k e (put_order (le_book ev, le_order_id ev) k S)))"

definition apply_public_event :: "l3_order_event \<Rightarrow> l3_queue \<Rightarrow> (unit, l3_queue) outcome" where
  "apply_public_event ev S0 =
     (let identity = (le_book ev, le_event_id ev); i = (le_book ev, le_order_id ev);
          k = (le_book ev, le_side ev, le_price ev)
      in if identity \<in> l3_processed S0 then Raise (ValueError ''M033_DUPLICATE_L3_EVENT'') S0
         else and_then (advance_clock (le_book ev) (le_exchange_time ev) S0) (\<lambda>_ S1.
           let S = S1\<lparr>l3_processed := insert identity (l3_processed S1)\<rparr>
           in if le_event_type ev = ADD then native_add k ev S
              else case dict_get (l3_order_level S) i of
                None \<Rightarrow>
                  if le_event_type ev = DELETE \<and> dict_get (l3_awaiting S) i = Some 0
                  then Return () (S\<lparr>l3_awaiting := dict_del i (l3_awaiting S)\<rparr>)
                  else Raise (ValueError ''M033_L3_UPDATE_FOR_UNKNOWN_ORDER'') S
              | Some current \<Rightarrow>
                  if current \<noteq> k then Raise (ValueError ''M033_L3_NATIVE_UPDATE_CHANGED_PRICE'') S
                  else with_entry k (le_order_id ev) S (\<lambda>e.
                    if le_event_type ev = MODIFY then native_modify k i (le_remaining ev) e S
                    else native_delete k i S)))"

section \<open>L3: own orders\<close>

definition own_columns :: "l3_entry list \<Rightarrow> int option set" where
  "own_columns es = set (map l3_column (filter l3_ours es))"

definition activate_own ::
    "book_key \<Rightarrow> string \<Rightarrow> decimal \<Rightarrow> string \<Rightarrow> decimal \<Rightarrow> int \<Rightarrow> int \<Rightarrow> l3_queue \<Rightarrow> (unit, l3_queue) outcome" where
  "activate_own book side price oid quantity column now S0 =
     (let k = (book, side, price)
      in if book \<in> l3_gapped S0 then Raise (ValueError ''M033_L3_BOOK_GAPPED'') S0
         else if column \<notin> {1, 2} \<or> quantity \<le> 0 then Raise (ValueError ''M033_INVALID_OWN_L3_ORDER'') S0
         else if has_key (l3_order_level S0) (book, oid) then Raise (ValueError ''M033_DUPLICATE_OWN_L3_ORDER'') S0
         else if Some column \<in> own_columns (level_of S0 k)
         then Raise (ValueError ''M033_DUPLICATE_ACTIVE_COLUMN_AT_PRICE'') S0
         else if column = 2 \<and> Some 1 \<notin> own_columns (level_of S0 k)
         then Raise (ValueError ''M033_C2_REQUIRES_ACTIVE_C1_AT_PRICE'') S0
         else and_then (advance_clock book now S0) (\<lambda>_ S.
           let e = \<lparr>l3_order_id = oid, l3_remaining = quantity, l3_entry_time = now, l3_sequence = l3_own_sequence S,
                    l3_ours = True, l3_column = Some column, l3_first_fill = None, l3_cancel_requested = None,
                    l3_last_action = Some now\<rparr>
           in Return () (put_in_line k e
                (put_order (book, oid) k (S\<lparr>l3_own_sequence := l3_own_sequence S + 1\<rparr>)))))"

definition amend_own ::
    "book_key \<Rightarrow> string \<Rightarrow> decimal \<Rightarrow> int \<Rightarrow> decimal option \<Rightarrow> l3_queue \<Rightarrow> (unit, l3_queue) outcome" where
  "amend_own book oid quantity now new_price S0 =
     with_l3_order book oid S0 (\<lambda>k e.
       if \<not> l3_ours e \<or> quantity \<le> 0 \<or> l3_cancel_requested e \<noteq> None \<or> l3_first_fill e \<noteq> None
       then Raise (ValueError ''M033_INVALID_OWN_AMEND'') S0
       else
         let price = (case new_price of None \<Rightarrow> snd (snd k) | Some p \<Rightarrow> p);
             loses_priority = (price \<noteq> snd (snd k) \<or> l3_remaining e < quantity);
             k1 = (book, fst (snd k), price)
         in if k1 \<noteq> k \<and> (\<exists>row \<in> set (level_of S0 k1). l3_ours row \<and> l3_column row = l3_column e)
            then Raise (ValueError ''M033_AMEND_WOULD_DUPLICATE_ACTIVE_COLUMN_AT_PRICE'') S0
            else and_then (advance_clock book now S0) (\<lambda>_ S.
              if loses_priority
              then
                let e1 = e\<lparr>l3_remaining := quantity, l3_entry_time := now, l3_sequence := l3_own_sequence S,
                           l3_last_action := Some now\<rparr>;
                    S1 = put_level k (without oid (level_of S k)) (S\<lparr>l3_own_sequence := l3_own_sequence S + 1\<rparr>)
                in Return () (put_in_line k1 e1 (put_order (book, oid) k1 S1))
              else Return () (store_entry k (e\<lparr>l3_remaining := quantity, l3_last_action := Some now\<rparr>) S)))"

definition l3_cancel_request :: "book_key \<Rightarrow> string \<Rightarrow> int \<Rightarrow> l3_queue \<Rightarrow> (unit, l3_queue) outcome" where
  "l3_cancel_request book oid now S0 =
     with_l3_order book oid S0 (\<lambda>k e.
       if \<not> l3_ours e \<or> l3_cancel_requested e \<noteq> None then Raise (ValueError ''M033_INVALID_CANCEL_REQUEST'') S0
       else and_then (advance_clock book now S0) (\<lambda>_ S.
         Return () (store_entry k (e\<lparr>l3_cancel_requested := Some now, l3_last_action := Some now\<rparr>) S)))"

definition l3_cancel_ack :: "book_key \<Rightarrow> string \<Rightarrow> int \<Rightarrow> l3_queue \<Rightarrow> (decimal, l3_queue) outcome" where
  "l3_cancel_ack book oid now S0 =
     with_l3_order book oid S0 (\<lambda>k e.
       if \<not> l3_ours e \<or> l3_cancel_requested e = None \<or> l3_first_fill e \<noteq> None
       then Raise (ValueError ''M033_PARTIAL_OR_PUBLIC_NOT_RECLAIMABLE'') S0
       else and_then (advance_clock book now S0) (\<lambda>_ S.
         Return (l3_remaining e) (forget_order (book, oid) (put_level k (without oid (level_of S k)) S))))"

section \<open>L3: reading the queue\<close>

primrec entries_ahead :: "string \<Rightarrow> l3_entry list \<Rightarrow> decimal \<Rightarrow> decimal option" where
  "entries_ahead oid [] ahead = None"
| "entries_ahead oid (e # es) ahead =
     (if l3_order_id e = oid then Some ahead else entries_ahead oid es (dadd ahead (l3_remaining e)))"

definition l3_queue_ahead :: "book_key \<Rightarrow> string \<Rightarrow> l3_queue \<Rightarrow> py_error + decimal" where
  "l3_queue_ahead book oid S =
     (case dict_get (l3_order_level S) (book, oid) of
        None \<Rightarrow> Inl KeyError
      | Some k \<Rightarrow> (case dict_get (l3_levels S) k of
          None \<Rightarrow> Inl KeyError
        | Some es \<Rightarrow> (case entries_ahead oid es 0 of None \<Rightarrow> Inl KeyError | Some x \<Rightarrow> Inr x)))"

primrec public_ahead :: "string \<Rightarrow> l3_entry list \<Rightarrow> int \<Rightarrow> int option" where
  "public_ahead oid [] n = None"
| "public_ahead oid (e # es) n =
     (if l3_order_id e = oid then Some n
      else public_ahead oid es (n + (if l3_ours e then 0 else 1)))"

definition public_orders_ahead :: "book_key \<Rightarrow> string \<Rightarrow> l3_queue \<Rightarrow> py_error + int" where
  "public_orders_ahead book oid S =
     (case dict_get (l3_order_level S) (book, oid) of
        None \<Rightarrow> Inl KeyError
      | Some k \<Rightarrow> (case dict_get (l3_levels S) k of
          None \<Rightarrow> Inl KeyError
        | Some es \<Rightarrow> (case public_ahead oid es 0 of None \<Rightarrow> Inl KeyError | Some x \<Rightarrow> Inr x)))"

text \<open>The public depth per side and price, for the levels that have any.\<close>

definition public_depth :: "l3_entry list \<Rightarrow> decimal" where
  "public_depth es = dsum (map l3_remaining (filter (\<lambda>e. \<not> l3_ours e) es))"

definition aggregate_l2 :: "book_key \<Rightarrow> l3_queue \<Rightarrow> (string \<times> decimal, decimal) dict" where
  "aggregate_l2 book S =
     foldl (\<lambda>d (k, es). if fst k = book \<and> 0 < public_depth es then dict_set (snd k) (public_depth es) d else d)
       [] (l3_levels S)"

section \<open>L3: executions\<close>

definition note_l3_fill :: "int \<Rightarrow> decimal \<Rightarrow> l3_entry \<Rightarrow> l3_entry" where
  "note_l3_fill now amount e =
     (if l3_ours e \<and> 0 < amount \<and> l3_first_fill e = None then e\<lparr>l3_first_fill := Some now\<rparr> else e)"

text \<open>
  The loop runs over a copy of the level and stops at the end of the flow or at an own order
  that did not rest before the execution.
\<close>

primrec consume_entries ::
    "level_key \<Rightarrow> int \<Rightarrow> l3_entry list \<Rightarrow> decimal \<Rightarrow> (string, decimal) dict \<Rightarrow> l3_queue \<Rightarrow>
     ((string, decimal) dict, l3_queue) outcome" where
  "consume_entries k now [] left fills S = Return fills S"
| "consume_entries k now (e # es) left fills S =
     (if left \<le> 0 \<or> l3_ours e \<and> now \<le> l3_entry_time e then Return fills S
      else
        let amount = min (l3_remaining e) left;
            e1 = note_l3_fill now amount (e\<lparr>l3_remaining := dsub (l3_remaining e) amount\<rparr>);
            fills1 = (if l3_ours e \<and> 0 < amount
                      then dict_set (l3_order_id e) (dadd (get_or fills (l3_order_id e) 0) amount) fills else fills);
            S1 = store_entry k e1 S;
            S2 = (if \<not> l3_ours e \<and> 0 < amount
                  then S1\<lparr>l3_awaiting := dict_set (fst k, l3_order_id e) (l3_remaining e1) (l3_awaiting S1)\<rparr> else S1)
        in if l3_remaining e1 = 0
           then (if has_key (l3_order_level S2) (fst k, l3_order_id e)
                 then consume_entries k now es (dsub left amount) fills1 (leave_line k (l3_order_id e) S2)
                 else Raise KeyError (put_level k (without (l3_order_id e) (level_of S2 k)) S2))
           else consume_entries k now es (dsub left amount) fills1 S2)"

definition consume_execution ::
    "book_key \<Rightarrow> string \<Rightarrow> string \<Rightarrow> decimal \<Rightarrow> decimal \<Rightarrow> int \<Rightarrow> l3_queue \<Rightarrow>
     ((string, decimal) dict, l3_queue) outcome" where
  "consume_execution book event_id side price quantity now S0 =
     (let identity = (book, event_id); k = (book, side, price)
      in if identity \<in> l3_processed S0 then Raise (ValueError ''M033_DUPLICATE_L3_EVENT'') S0
         else if book \<in> l3_gapped S0 then Raise (ValueError ''M033_L3_BOOK_GAPPED'') S0
         else and_then (advance_clock book now S0) (\<lambda>_ S1.
           let S = S1\<lparr>l3_processed := insert identity (l3_processed S1)\<rparr>
           in if k \<in> l3_ambiguous S
              then Raise (ValueError ''M033_L3_EXECUTION_ORDERING_AMBIGUOUS_NO_FILL_INFERENCE'') S
              else consume_entries k now (level_of S k) quantity [] S))"

section \<open>The ablation harness\<close>

record l3_l2_row =
  ab_order_id :: string
  ab_l3_ahead :: decimal
  ab_l2_ahead :: decimal
  ab_difference :: decimal

record ablation_harness =
  ah_l3 :: l3_queue
  ah_l2 :: l2_models

definition new_harness :: ablation_harness where
  "new_harness = \<lparr>ah_l3 = new_l3, ah_l2 = []\<rparr>"

definition on_l3 :: "(l3_queue \<Rightarrow> ('a, l3_queue) outcome) \<Rightarrow> ablation_harness \<Rightarrow> ('a, ablation_harness) outcome" where
  "on_l3 m H =
     (case m (ah_l3 H) of
        Return r S \<Rightarrow> Return r (H\<lparr>ah_l3 := S\<rparr>)
      | Raise e S \<Rightarrow> Raise e (H\<lparr>ah_l3 := S\<rparr>))"

definition on_l2 :: "(l2_models \<Rightarrow> ('a, l2_models) outcome) \<Rightarrow> ablation_harness \<Rightarrow> ('a, ablation_harness) outcome" where
  "on_l2 m H =
     (case m (ah_l2 H) of
        Return r S \<Rightarrow> Return r (H\<lparr>ah_l2 := S\<rparr>)
      | Raise e S \<Rightarrow> Raise e (H\<lparr>ah_l2 := S\<rparr>))"

definition harness_public_event :: "l3_order_event \<Rightarrow> ablation_harness \<Rightarrow> (unit, ablation_harness) outcome" where
  "harness_public_event ev H = on_l3 (apply_public_event ev) H"

definition harness_activate ::
    "book_key \<Rightarrow> string \<Rightarrow> decimal \<Rightarrow> string \<Rightarrow> decimal \<Rightarrow> int \<Rightarrow> int \<Rightarrow> ablation_harness \<Rightarrow>
     (unit, ablation_harness) outcome" where
  "harness_activate book side price oid quantity column now H =
     (let depth = get_or (aggregate_l2 book (ah_l3 H)) (side, price) 0
      in and_then (on_l3 (activate_own book side price oid quantity column now) H)
           (\<lambda>_ H1. on_l2 (l2_activate book side price oid column quantity depth now) H1))"

definition harness_compare :: "book_key \<Rightarrow> string \<Rightarrow> ablation_harness \<Rightarrow> (l3_l2_row, ablation_harness) outcome" where
  "harness_compare book oid H =
     (case l3_queue_ahead book oid (ah_l3 H) of
        Inl e \<Rightarrow> Raise e H
      | Inr l3_ahead \<Rightarrow> and_then (on_l2 (l2_queue_ahead book oid) H) (\<lambda>l2_ahead H1.
          Return \<lparr>ab_order_id = oid, ab_l3_ahead = l3_ahead, ab_l2_ahead = l2_ahead,
                  ab_difference = dsub l2_ahead l3_ahead\<rparr> H1))"

definition harness_consume ::
    "book_key \<Rightarrow> string \<Rightarrow> string \<Rightarrow> decimal \<Rightarrow> decimal \<Rightarrow> int \<Rightarrow> ablation_harness \<Rightarrow>
     ((string, decimal) dict \<times> (string, decimal) dict, ablation_harness) outcome" where
  "harness_consume book event_id side price quantity now H =
     and_then (on_l3 (consume_execution book event_id side price quantity now) H) (\<lambda>l3_fills H1.
       and_then (on_l2 (l2_consume book event_id side price quantity now) H1) (\<lambda>l2_fills H2.
         Return (l3_fills, l2_fills) H2))"

section \<open>Operations of the L3 queue\<close>

datatype (plugins only: code size) l3_op =
    L3MarkGap book_key
  | L3PublicEvent l3_order_event
  | L3ActivateOwn book_key string decimal string decimal int int
  | L3AmendOwn book_key string decimal int "decimal option"
  | L3CancelRequest book_key string int
  | L3CancelAck book_key string int
  | L3Execution book_key string string decimal decimal int

datatype l3_result = L3Done | L3Released decimal | L3Fills "(string, decimal) dict"

fun exec_l3 :: "l3_op \<Rightarrow> l3_queue \<Rightarrow> (l3_result, l3_queue) outcome" where
  "exec_l3 (L3MarkGap book) S = returning (\<lambda>_. L3Done) (mark_gap book S)"
| "exec_l3 (L3PublicEvent ev) S = returning (\<lambda>_. L3Done) (apply_public_event ev S)"
| "exec_l3 (L3ActivateOwn book side price oid quantity column now) S =
     returning (\<lambda>_. L3Done) (activate_own book side price oid quantity column now S)"
| "exec_l3 (L3AmendOwn book oid quantity now new_price) S =
     returning (\<lambda>_. L3Done) (amend_own book oid quantity now new_price S)"
| "exec_l3 (L3CancelRequest book oid now) S = returning (\<lambda>_. L3Done) (l3_cancel_request book oid now S)"
| "exec_l3 (L3CancelAck book oid now) S = returning L3Released (l3_cancel_ack book oid now S)"
| "exec_l3 (L3Execution book event_id side price quantity now) S =
     returning L3Fills (consume_execution book event_id side price quantity now S)"

end
