(* ===== verification/Multi_Venue_Queue_Facts.thy ===== *)
theory Multi_Venue_Queue_Facts
  imports Multi_Venue_Queue
begin

text \<open>
  The price-time queue keeps its levels in order and its index in step with them, whatever
  calls are made and whichever of them raise; an execution fills our orders in that order.
\<close>

section \<open>The invariant\<close>

definition level_ok :: "level_key \<Rightarrow> l3_entry list \<Rightarrow> l3_queue \<Rightarrow> bool" where
  "level_ok k es S \<longleftrightarrow>
     distinct (map l3_order_id es) \<and> sorted (map l3_key es) \<and> distinct (map l3_column (filter l3_ours es)) \<and>
     (\<forall>e \<in> set es. dict_get (l3_order_level S) (fst k, l3_order_id e) = Some k \<and> 0 \<le> l3_remaining e \<and>
        (l3_ours e \<longrightarrow> l3_column e \<in> {Some 1, Some 2}))"

definition l3_inv :: "l3_queue \<Rightarrow> bool" where
  "l3_inv S \<longleftrightarrow>
     (\<forall>k. level_ok k (level_of S k) S) \<and>
     (\<forall>i k. dict_get (l3_order_level S) i = Some k \<longrightarrow> fst k = fst i \<and> snd i \<in> l3_order_id ` set (level_of S k))"

lemma l3_invD:
  assumes "l3_inv S"
  shows "level_ok k (level_of S k) S"
    "dict_get (l3_order_level S) i = Some k \<Longrightarrow> fst k = fst i \<and> snd i \<in> l3_order_id ` set (level_of S k)"
  using assms by (simp_all add: l3_inv_def)

text \<open>Only the levels and the index matter, and only through their lookups.\<close>

lemma l3_inv_same:
  assumes "l3_inv S" "\<And>k. level_of S' k = level_of S k"
    "\<And>i. dict_get (l3_order_level S') i = dict_get (l3_order_level S) i"
  shows "l3_inv S'"
  using assms by (simp add: l3_inv_def level_ok_def)

lemma level_of_simps [simp]:
  "level_of (put_level k es S) k' = (if k' = k then es else level_of S k')"
  "level_of (put_order i k S) = level_of S" "level_of (forget_order i S) = level_of S"
  by (auto simp: level_of_def get_or_def put_level_def put_order_def forget_order_def)

lemma order_level_simps [simp]:
  "l3_order_level (put_level k es S) = l3_order_level S"
  "dict_get (l3_order_level (put_order i k S)) i' = (if i' = i then Some k else dict_get (l3_order_level S) i')"
  "dict_get (l3_order_level (forget_order i S)) i' = (if i' = i then None else dict_get (l3_order_level S) i')"
  by (simp_all add: put_level_def put_order_def forget_order_def)

lemma level_of_fields [simp]:
  "level_of (S\<lparr>l3_processed := a\<rparr>) = level_of S" "level_of (S\<lparr>l3_last_time := b\<rparr>) = level_of S"
  "level_of (S\<lparr>l3_gapped := c\<rparr>) = level_of S" "level_of (S\<lparr>l3_awaiting := d\<rparr>) = level_of S"
  "level_of (S\<lparr>l3_ambiguous := f\<rparr>) = level_of S" "level_of (S\<lparr>l3_own_sequence := g\<rparr>) = level_of S"
  by (simp_all add: level_of_def fun_eq_iff)

lemma l3_inv_fields [simp]:
  "l3_inv (S\<lparr>l3_processed := a\<rparr>) = l3_inv S" "l3_inv (S\<lparr>l3_last_time := b\<rparr>) = l3_inv S"
  "l3_inv (S\<lparr>l3_gapped := c\<rparr>) = l3_inv S" "l3_inv (S\<lparr>l3_awaiting := d\<rparr>) = l3_inv S"
  "l3_inv (S\<lparr>l3_ambiguous := f\<rparr>) = l3_inv S" "l3_inv (S\<lparr>l3_own_sequence := g\<rparr>) = l3_inv S"
  by (simp_all add: l3_inv_def level_ok_def)

section \<open>The three moves\<close>

lemma put_in_line_inv:
  assumes inv: "l3_inv S" and new: "dict_get (l3_order_level S) (fst k, l3_order_id e) = None"
    and e: "0 \<le> l3_remaining e" "l3_ours e \<longrightarrow> l3_column e \<in> {Some 1, Some 2}"
      "l3_ours e \<longrightarrow> l3_column e \<notin> own_columns (level_of S k)"
  shows "l3_inv (put_in_line k e (put_order (fst k, l3_order_id e) k S))"
proof -
  let ?i = "(fst k, l3_order_id e)"
  let ?es = "sort_key l3_key (level_of S k @ [e])"
  note ok = l3_invD(1) [OF inv]
  have fresh: "x \<in> set (level_of S k) \<Longrightarrow> l3_order_id x \<noteq> l3_order_id e" for x
    using ok [of k] new by (auto simp: level_ok_def)
  have cols: "distinct (map l3_column (filter l3_ours ?es))"
  proof -
    have "mset (map l3_column (filter l3_ours ?es)) = mset (map l3_column (filter l3_ours (level_of S k @ [e])))"
      by (simp add: mset_filter)
    moreover have "distinct (map l3_column (filter l3_ours (level_of S k @ [e])))"
      using ok [of k] e(3) by (auto simp: level_ok_def own_columns_def)
    ultimately show ?thesis by (metis mset_eq_imp_distinct_iff)
  qed
  have ids: "distinct (map l3_order_id ?es)"
  proof -
    have "l3_order_id e \<notin> l3_order_id ` set (level_of S k)" using fresh by (metis imageE)
    then have "distinct (map l3_order_id (level_of S k @ [e]))" using ok [of k] by (simp add: level_ok_def)
    then show ?thesis by (metis mset_map mset_sort mset_eq_imp_distinct_iff)
  qed
  have here: "level_ok k ?es (put_in_line k e (put_order ?i k S))"
    using ok [of k] ids cols e by (auto simp: level_ok_def put_in_line_def)
  have "level_ok k' (level_of S k') (put_in_line k e (put_order ?i k S))" if "k' \<noteq> k" for k'
    using ok [of k'] new that by (auto simp: level_ok_def put_in_line_def)
  then show ?thesis
    unfolding l3_inv_def using here l3_invD(2) [OF inv] by (auto simp: put_in_line_def split: if_splits)
qed

lemma map_replace:
  assumes "\<And>x. x \<in> set es \<Longrightarrow> l3_order_id x = l3_order_id e \<Longrightarrow> f x = f e"
  shows "map f (replace_entry e es) = map f es"
  using assms by (simp add: replace_entry_def)

lemma own_replace:
  assumes "\<And>x. x \<in> set es \<Longrightarrow> l3_order_id x = l3_order_id e \<Longrightarrow> l3_ours x = l3_ours e \<and> l3_column x = l3_column e"
  shows "map l3_column (filter l3_ours (replace_entry e es)) = map l3_column (filter l3_ours es)"
  using assms by (induction es) (auto simp: replace_entry_def)

text \<open>An entry changed in place keeps its id, its place in the line and its column.\<close>

definition same_place :: "l3_entry \<Rightarrow> l3_entry \<Rightarrow> bool" where
  "same_place e e' \<longleftrightarrow> l3_order_id e' = l3_order_id e \<and> l3_key e' = l3_key e \<and> l3_ours e' = l3_ours e \<and>
     l3_column e' = l3_column e \<and> 0 \<le> l3_remaining e'"

lemma entry_unique:
  "l3_inv S \<Longrightarrow> e \<in> set (level_of S k) \<Longrightarrow> x \<in> set (level_of S k) \<Longrightarrow> l3_order_id x = l3_order_id e \<Longrightarrow> x = e"
  using l3_invD(1) [of S k] by (auto simp: level_ok_def distinct_map inj_on_def)

lemma store_entry_inv:
  assumes inv: "l3_inv S" and e: "e \<in> set (level_of S k)" and e': "same_place e e'"
  shows "l3_inv (store_entry k e' S)"
proof -
  let ?es = "replace_entry e' (level_of S k)"
  note ok = l3_invD(1) [OF inv]
  have only: "x = e" if "x \<in> set (level_of S k)" "l3_order_id x = l3_order_id e'" for x
    by (rule entry_unique [OF inv e that(1)]) (use that(2) e' in \<open>simp add: same_place_def\<close>)
  have ids: "map l3_order_id ?es = map l3_order_id (level_of S k)" "map l3_key ?es = map l3_key (level_of S k)"
    "map l3_column (filter l3_ours ?es) = map l3_column (filter l3_ours (level_of S k))"
    using e' by (intro map_replace own_replace; force dest: only simp: same_place_def)+
  have mem: "x \<in> set ?es \<Longrightarrow> x = e' \<or> x \<in> set (level_of S k)" for x by (auto simp: replace_entry_def)
  have "level_ok k ?es (store_entry k e' S)"
    using ok [of k] e e' ids unfolding level_ok_def by (auto dest!: mem simp: store_entry_def same_place_def)
  moreover have "l3_order_id ` set ?es = l3_order_id ` set (level_of S k)" by (metis ids(1) set_map)
  ultimately show ?thesis
    using ok l3_invD(2) [OF inv] unfolding l3_inv_def by (auto simp: store_entry_def level_ok_def)
qed

lemma leave_line_inv:
  assumes inv: "l3_inv S" and k: "dict_get (l3_order_level S) (fst k, oid) = Some k"
  shows "l3_inv (leave_line k oid S)"
proof -
  note ok = l3_invD(1) [OF inv]
  let ?es = "without oid (level_of S k)"
  have "level_ok k' (level_of (leave_line k oid S) k') (leave_line k oid S)" for k'
  proof (cases "k' = k")
    case True
    have "distinct (map l3_column (filter l3_ours ?es))"
      using ok [of k] by (auto simp: level_ok_def without_def distinct_map inj_on_def)
    then show ?thesis
      using ok [of k] True by (auto simp: level_ok_def leave_line_def without_def distinct_map_filter sorted_filter)
  next
    case False
    have "l3_order_id x \<noteq> oid \<or> fst k' \<noteq> fst k" if "x \<in> set (level_of S k')" for x
      using ok [of k'] that k False by (auto simp: level_ok_def)
    then show ?thesis using ok [of k'] False by (auto simp: level_ok_def leave_line_def)
  qed
  moreover have "fst k' = fst i \<and> snd i \<in> l3_order_id ` set (level_of (leave_line k oid S) k')"
    if "dict_get (l3_order_level (leave_line k oid S)) i = Some k'" for i k'
  proof -
    have i: "i \<noteq> (fst k, oid)" "dict_get (l3_order_level S) i = Some k'"
      using that by (auto simp: leave_line_def split: if_splits)
    have "fst k' = fst i" and "snd i \<in> l3_order_id ` set (level_of S k')" using l3_invD(2) [OF inv i(2)] by simp_all
    then show ?thesis using i(1) by (cases i) (auto simp: leave_line_def without_def)
  qed
  ultimately show ?thesis unfolding l3_inv_def by simp
qed

text \<open>How a call finds the entry of an order.\<close>

lemma find_entry_Some: "find_entry oid es = Some e \<Longrightarrow> e \<in> set es \<and> l3_order_id e = oid"
  by (auto simp: find_entry_def find_Some_iff)

lemma find_entry_None: "find_entry oid es = None \<longleftrightarrow> oid \<notin> l3_order_id ` set es"
  by (auto simp: find_entry_def find_None_iff)

lemma entry_found:
  assumes "l3_inv S" "dict_get (l3_order_level S) (book, oid) = Some k"
  obtains e where "e \<in> set (level_of S k)" "l3_order_id e = oid" "fst k = book"
    "dict_get (l3_levels S) k = Some (level_of S k)" "find_entry oid (level_of S k) = Some e"
proof -
  have k: "fst k = book" "oid \<in> l3_order_id ` set (level_of S k)" using l3_invD(2) [OF assms] by simp_all
  then have es: "dict_get (l3_levels S) k = Some (level_of S k)"
    by (cases "dict_get (l3_levels S) k") (auto simp: level_of_def get_or_def)
  obtain e where e: "find_entry oid (level_of S k) = Some e" using k(2) find_entry_None by (metis not_None_eq)
  show thesis by (rule that [OF _ _ k(1) es e]) (use find_entry_Some [OF e] in simp_all)
qed

lemma with_l3_order_unknown:
  "dict_get (l3_order_level S) (book, oid) = None \<Longrightarrow> with_l3_order book oid S f = Raise KeyError S"
  by (simp add: with_l3_order_def)

section \<open>Every call keeps the invariant\<close>

abbreviation keeps :: "('a, l3_queue) outcome \<Rightarrow> bool" where
  "keeps m \<equiv> l3_inv (post_state m)"

lemma advance_clock_cases:
  obtains "advance_clock book now S = Return () (S\<lparr>l3_last_time := dict_set book now (l3_last_time S)\<rparr>)" "\<not> out_of_order book now S"
  | "advance_clock book now S = Raise (ValueError ''M033_OUT_OF_ORDER_L3_EVENT'') S"
  by (cases "out_of_order book now S") (simp_all add: advance_clock_def)

lemma advance_clock_then:
  assumes "l3_inv S"
    and "\<And>S1. l3_inv S1 \<Longrightarrow> level_of S1 = level_of S \<Longrightarrow> l3_order_level S1 = l3_order_level S \<Longrightarrow> keeps (k () S1)"
  shows "keeps (and_then (advance_clock book now S) k)"
  using assms(1) assms(2) [of "S\<lparr>l3_last_time := dict_set book now (l3_last_time S)\<rparr>"]
  by (cases rule: advance_clock_cases [of book now S]) simp_all

lemma native_add_keeps:
  "l3_inv S \<Longrightarrow> fst k = le_book ev \<Longrightarrow> keeps (native_add k ev S)"
  using put_in_line_inv [of S k "\<lparr>l3_order_id = le_order_id ev, l3_remaining = le_remaining ev,
       l3_entry_time = le_order_entry_time ev, l3_sequence = le_message_sequence ev, l3_ours = False, l3_column = None,
       l3_first_fill = None, l3_cancel_requested = None, l3_last_action = None\<rparr>"]
  by (auto simp: native_add_def has_key_iff Let_def not_le)

lemma native_modify_keeps:
  assumes inv: "l3_inv S" and e: "e \<in> set (level_of S k)" "i = (fst k, l3_order_id e)"
  shows "keeps (native_modify k i quantity e S)"
proof -
  have stored: "l3_inv (store_entry k (e\<lparr>l3_remaining := quantity\<rparr>) S)" if "0 \<le> quantity"
    by (rule store_entry_inv [OF inv e(1)]) (use that in \<open>simp add: same_place_def l3_key_def\<close>)
  have at: "dict_get (l3_order_level S) i = Some k" using l3_invD(1) [OF inv, of k] e by (auto simp: level_ok_def)
  have "l3_inv (leave_line k (snd i) S')" if "l3_inv S'" "l3_order_level S' = l3_order_level S" for S'
    using leave_line_inv [OF that(1), of k "snd i"] at that(2) e(2) by simp
  then show ?thesis
    using stored inv
    by (auto simp: native_modify_def Let_def not_less store_entry_def split: option.splits)
qed

lemma native_delete_keeps:
  assumes "l3_inv S" "dict_get (l3_order_level S) i = Some k" "fst i = fst k"
  shows "keeps (native_delete k i S)"
  using leave_line_inv [of S k "snd i"] assms by (cases i) (simp add: native_delete_def Let_def)

lemma public_event_keeps:
  assumes inv: "l3_inv S"
  shows "keeps (apply_public_event ev S)"
proof (cases "(le_book ev, le_event_id ev) \<in> l3_processed S")
  case False
  let ?i = "(le_book ev, le_order_id ev)" and ?k = "(le_book ev, le_side ev, le_price ev)"
  show ?thesis
    unfolding apply_public_event_def Let_def using False
  proof (simp del: post_state.simps, intro advance_clock_then [OF inv], goal_cases)
    case (1 S1)
    let ?S = "S1\<lparr>l3_processed := insert (le_book ev, le_event_id ev) (l3_processed S1)\<rparr>"
    have S: "l3_inv ?S" using 1 by simp
    show ?case
    proof (cases "le_event_type ev = ADD")
      case True
      then show ?thesis using native_add_keeps [OF S, of ?k ev] by simp
    next
      case False
      show ?thesis
      proof (cases "dict_get (l3_order_level S1) ?i")
        case None
        then show ?thesis using False S by simp
      next
        case (Some current)
        show ?thesis
        proof (cases "current = ?k")
          case True
          then have at: "dict_get (l3_order_level ?S) ?i = Some ?k" using Some by simp
          from S at obtain e where e: "e \<in> set (level_of ?S ?k)" "l3_order_id e = le_order_id ev"
            "dict_get (l3_levels ?S) ?k = Some (level_of ?S ?k)"
            "find_entry (le_order_id ev) (level_of ?S ?k) = Some e" by (rule entry_found)
          then show ?thesis
            using False Some True native_modify_keeps [OF S e(1), of ?i "le_remaining ev"]
              native_delete_keeps [OF S at] by (simp add: with_entry_def)
        qed (use False Some S in simp)
      qed
    qed
  qed
qed (use inv in \<open>simp add: apply_public_event_def Let_def\<close>)

lemma activate_own_keeps: "l3_inv S \<Longrightarrow> keeps (activate_own book side price oid quantity column now S)"
proof -
  assume inv: "l3_inv S"
  let ?k = "(book, side, price)"
  let ?e = "\<lambda>seq. \<lparr>l3_order_id = oid, l3_remaining = quantity, l3_entry_time = now, l3_sequence = seq,
     l3_ours = True, l3_column = Some column, l3_first_fill = None, l3_cancel_requested = None, l3_last_action = Some now\<rparr>"
  have "keeps (and_then (advance_clock book now S) (\<lambda>_ S1. Return ()
      (put_in_line ?k (?e (l3_own_sequence S1)) (put_order (book, oid) ?k (S1\<lparr>l3_own_sequence := l3_own_sequence S1 + 1\<rparr>)))))"
    if "column \<in> {1, 2}" "0 < quantity" "dict_get (l3_order_level S) (book, oid) = None"
      "Some column \<notin> own_columns (level_of S ?k)"
  proof (rule advance_clock_then [OF inv], goal_cases)
    case (1 S1)
    then show ?case
      using put_in_line_inv [of "S1\<lparr>l3_own_sequence := l3_own_sequence S1 + 1\<rparr>" ?k "?e (l3_own_sequence S1)"] that by auto
  qed
  then show ?thesis using inv by (auto simp: activate_own_def Let_def has_key_iff not_le)
qed

lemma l3_order_keeps:
  assumes "l3_inv S"
    and "\<And>k e. e \<in> set (level_of S k) \<Longrightarrow> dict_get (l3_order_level S) (book, oid) = Some k \<Longrightarrow>
       l3_order_id e = oid \<Longrightarrow> fst k = book \<Longrightarrow> keeps (f k e)"
  shows "keeps (with_l3_order book oid S f)"
proof (cases "dict_get (l3_order_level S) (book, oid)")
  case (Some k)
  from assms(1) Some obtain e where "e \<in> set (level_of S k)" "l3_order_id e = oid" "fst k = book"
    "dict_get (l3_levels S) k = Some (level_of S k)" "find_entry oid (level_of S k) = Some e" by (rule entry_found)
  then show ?thesis using assms(2) [of e k] Some by (simp add: with_l3_order_def with_entry_def)
qed (use assms(1) in \<open>simp add: with_l3_order_unknown\<close>)

lemma cancel_request_keeps: "l3_inv S \<Longrightarrow> keeps (l3_cancel_request book oid now S)"
  unfolding l3_cancel_request_def
proof (rule l3_order_keeps, goal_cases)
  case (2 k e)
  have "keeps (and_then (advance_clock book now S) (\<lambda>_ S1. Return ()
      (store_entry k (e\<lparr>l3_cancel_requested := Some now, l3_last_action := Some now\<rparr>) S1)))"
  proof (rule advance_clock_then [OF 2(1)], goal_cases)
    case (1 S1)
    then show ?case
      using store_entry_inv [of S1 e k] 2(2) l3_invD(1) [OF 2(1), of k]
      by (auto simp: same_place_def l3_key_def level_ok_def)
  qed
  then show ?case using 2(1) by simp
qed

lemma cancel_ack_keeps: "l3_inv S \<Longrightarrow> keeps (l3_cancel_ack book oid now S)"
  unfolding l3_cancel_ack_def
proof (rule l3_order_keeps, goal_cases)
  case (2 k e)
  then have "keeps (and_then (advance_clock book now S) (\<lambda>_ S1. Return (l3_remaining e)
      (forget_order (book, oid) (put_level k (without oid (level_of S1 k)) S1))))"
  proof (intro advance_clock_then [OF 2(1)], goal_cases)
    case (1 S1)
    then show ?case using leave_line_inv [of S1 k oid] 2 by (simp add: leave_line_def)
  qed
  then show ?case using 2(1) by simp
qed

lemma amend_own_keeps: "l3_inv S \<Longrightarrow> keeps (amend_own book oid quantity now new_price S)"
  unfolding amend_own_def Let_def
proof (rule l3_order_keeps, goal_cases)
  case (2 k e)
  note inv = 2(1)
  let ?price = "case new_price of None \<Rightarrow> snd (snd k) | Some p \<Rightarrow> p"
  let ?k1 = "(book, fst (snd k), ?price)"
  have ours: "l3_column e \<in> {Some 1, Some 2}" if "l3_ours e"
    using l3_invD(1) [OF inv, of k] 2(2) that by (auto simp: level_ok_def)
  have moved: "l3_inv (put_in_line ?k1 e1 (put_order (book, oid) ?k1
        (put_level k (without oid (level_of S1 k)) (S1\<lparr>l3_own_sequence := l3_own_sequence S1 + 1\<rparr>))))"
    if S1: "l3_inv S1" "level_of S1 = level_of S" "l3_order_level S1 = l3_order_level S" and "l3_ours e" "0 < quantity"
      and alone: "?k1 \<noteq> k \<longrightarrow> \<not> (\<exists>row \<in> set (level_of S ?k1). l3_ours row \<and> l3_column row = l3_column e)"
      and e1: "e1 = e\<lparr>l3_remaining := quantity, l3_entry_time := now, l3_sequence := l3_own_sequence S1, l3_last_action := Some now\<rparr>"
    for S1 e1
  proof -
    let ?T = "leave_line k oid (S1\<lparr>l3_own_sequence := l3_own_sequence S1 + 1\<rparr>)"
    have T: "l3_inv ?T" using leave_line_inv [of "S1\<lparr>l3_own_sequence := l3_own_sequence S1 + 1\<rparr>" k oid] S1 2 by simp
    have lev: "level_of ?T ?k1 = (if ?k1 = k then without oid (level_of S k) else level_of S ?k1)"
      using S1 by (auto simp: leave_line_def)
    have col: "l3_column e \<notin> own_columns (level_of ?T ?k1)"
    proof (cases "?k1 = k")
      case True
      have "x = e" if "x \<in> set (level_of S k)" "l3_ours x" "l3_column x = l3_column e" for x
        using l3_invD(1) [OF inv, of k] that 2(2) \<open>l3_ours e\<close> by (auto simp: level_ok_def distinct_map inj_on_def)
      then show ?thesis unfolding lev using True 2(4) by (auto simp: own_columns_def without_def)
    next
      case False
      then show ?thesis unfolding lev using alone by (auto simp: own_columns_def)
    qed
    have "l3_inv (put_in_line ?k1 e1 (put_order (fst ?k1, l3_order_id e1) ?k1 ?T))"
      by (rule put_in_line_inv [OF T]) (use 2 that col ours S1 in \<open>simp_all add: leave_line_def\<close>)
    then show ?thesis
      by (rule l3_inv_same) (use 2(4,5) e1 in \<open>auto simp: put_in_line_def leave_line_def\<close>)
  qed
  have stay: "l3_inv (store_entry k (e\<lparr>l3_remaining := quantity, l3_last_action := Some now\<rparr>) S1)"
    if "l3_inv S1" "level_of S1 = level_of S" "0 < quantity" for S1
    by (rule store_entry_inv) (use that 2(2) in \<open>simp_all add: same_place_def l3_key_def\<close>)
  show ?case
    using inv moved stay by (auto intro!: advance_clock_then simp: not_le)
qed

section \<open>Executions\<close>

text \<open>One step of the loop: the entry as the execution leaves it, and the queue after it.\<close>

definition hit :: "int \<Rightarrow> decimal \<Rightarrow> l3_entry \<Rightarrow> l3_entry" where
  "hit now left e =
     (let amount = min (l3_remaining e) left in note_l3_fill now amount (e\<lparr>l3_remaining := dsub (l3_remaining e) amount\<rparr>))"

definition after_hit :: "level_key \<Rightarrow> int \<Rightarrow> decimal \<Rightarrow> l3_entry \<Rightarrow> l3_queue \<Rightarrow> l3_queue" where
  "after_hit k now left e S =
     (let S1 = store_entry k (hit now left e) S;
          S2 = (if \<not> l3_ours e \<and> 0 < min (l3_remaining e) left
                then S1\<lparr>l3_awaiting := dict_set (fst k, l3_order_id e) (l3_remaining (hit now left e)) (l3_awaiting S1)\<rparr> else S1)
      in if l3_remaining (hit now left e) = 0 then leave_line k (l3_order_id e) S2 else S2)"

definition filled :: "decimal \<Rightarrow> l3_entry \<Rightarrow> (string, decimal) dict \<Rightarrow> (string, decimal) dict" where
  "filled left e fills =
     (let amount = min (l3_remaining e) left
      in if l3_ours e \<and> 0 < amount then dict_set (l3_order_id e) (dadd (get_or fills (l3_order_id e) 0) amount) fills
         else fills)"

lemma hit_same_place: "0 \<le> l3_remaining e \<Longrightarrow> same_place e (hit now left e)"
  by (simp add: hit_def same_place_def note_l3_fill_def l3_key_def Let_def)

lemma after_hit_inv:
  assumes inv: "l3_inv S" and e: "e \<in> set (level_of S k)"
  shows "l3_inv (after_hit k now left e S)"
proof -
  have r: "0 \<le> l3_remaining e" "dict_get (l3_order_level S) (fst k, l3_order_id e) = Some k"
    using l3_invD(1) [OF inv, of k] e by (auto simp: level_ok_def)
  have stored: "l3_inv (store_entry k (hit now left e) S)" by (rule store_entry_inv [OF inv e hit_same_place [OF r(1)]])
  have "l3_inv (leave_line k (l3_order_id e) S')"
    if "l3_inv S'" "l3_order_level S' = l3_order_level S" for S' using leave_line_inv [OF that(1)] that(2) r(2) by simp
  then show ?thesis using stored by (auto simp: after_hit_def Let_def store_entry_def)
qed

lemma after_hit_others:
  assumes "x \<in> set (level_of S k)" "l3_order_id x \<noteq> l3_order_id e"
  shows "x \<in> set (level_of (after_hit k now left e S) k)"
proof -
  have "l3_order_id (hit now left e) = l3_order_id e" by (simp add: hit_def note_l3_fill_def Let_def)
  then have "x \<in> set (replace_entry (hit now left e) (level_of S k))" using assms by (force simp: replace_entry_def)
  then show ?thesis using assms(2) by (auto simp: after_hit_def store_entry_def leave_line_def without_def Let_def)
qed

lemma after_hit_ids:
  "l3_order_id ` set (level_of (after_hit k now left e S) k) \<subseteq>
     l3_order_id ` set (level_of S k) - (if l3_remaining (hit now left e) = 0 then {l3_order_id e} else {})"
proof -
  have "map l3_order_id (replace_entry e' es) = map l3_order_id es" for e' es by (rule map_replace)
  then have ids: "l3_order_id ` set (replace_entry e' es) = l3_order_id ` set es" for e' es by (metis set_map)
  have gone: "l3_order_id ` set (without oid es) = l3_order_id ` set es - {oid}" for oid es
    by (auto simp: without_def)
  show ?thesis by (simp add: after_hit_def store_entry_def leave_line_def Let_def ids gone)
qed

lemma consume_entries_step:
  assumes "l3_inv S" "e \<in> set (level_of S k)"
  shows "consume_entries k now (e # es) left fills S =
     (if left \<le> 0 \<or> l3_ours e \<and> now \<le> l3_entry_time e then Return fills S
      else consume_entries k now es (dsub left (min (l3_remaining e) left)) (filled left e fills) (after_hit k now left e S))"
proof -
  have "dict_get (l3_order_level S) (fst k, l3_order_id e) = Some k"
    using l3_invD(1) [OF assms(1), of k] assms(2) by (auto simp: level_ok_def)
  then show ?thesis
    by (simp add: after_hit_def hit_def filled_def Let_def has_key_iff store_entry_def)
qed

lemma consume_entries_go:
  assumes "l3_inv S" "e \<in> set (level_of S k)" "\<not> (left \<le> 0 \<or> l3_ours e \<and> now \<le> l3_entry_time e)"
  shows "consume_entries k now (e # es) left fills S =
     consume_entries k now es (dsub left (min (l3_remaining e) left)) (filled left e fills) (after_hit k now left e S)"
  unfolding consume_entries_step [OF assms(1,2)] if_not_P [OF assms(3)] ..

declare consume_entries.simps(2) [simp del]

lemma consume_entries_keeps:
  "l3_inv S \<Longrightarrow> set es \<subseteq> set (level_of S k) \<Longrightarrow> distinct (map l3_order_id es) \<Longrightarrow>
     keeps (consume_entries k now es left fills S)"
proof (induction es arbitrary: left fills S)
  case (Cons e es)
  have "set es \<subseteq> set (level_of (after_hit k now left e S) k)"
  proof
    fix x assume "x \<in> set es"
    then show "x \<in> set (level_of (after_hit k now left e S) k)"
      using Cons.prems(2,3) by (intro after_hit_others) (auto simp: rev_image_eqI)
  qed
  then show ?case
    using Cons consume_entries_step [of S e k now es left fills] after_hit_inv [of S e k now left] by simp
qed simp

lemma consume_execution_keeps: "l3_inv S \<Longrightarrow> keeps (consume_execution book event_id side price quantity now S)"
proof -
  assume inv: "l3_inv S"
  have "keeps (and_then (advance_clock book now S) (\<lambda>_ S1.
      if (book, side, price) \<in> l3_ambiguous S1
      then Raise e (S1\<lparr>l3_processed := insert i (l3_processed S1)\<rparr>)
      else consume_entries (book, side, price) now
             (level_of (S1\<lparr>l3_processed := insert i (l3_processed S1)\<rparr>) (book, side, price)) quantity []
             (S1\<lparr>l3_processed := insert i (l3_processed S1)\<rparr>)))" for e i
  proof (rule advance_clock_then [OF inv], goal_cases)
    case (1 S1)
    then show ?case
      using consume_entries_keeps [of "S1\<lparr>l3_processed := insert i (l3_processed S1)\<rparr>"] l3_invD(1) [OF 1(1)]
      by (simp add: level_ok_def)
  qed
  then show ?thesis using inv by (simp add: consume_execution_def Let_def)
qed

lemma exec_l3_keeps: "l3_inv S \<Longrightarrow> keeps (exec_l3 op S)"
proof -
  have post: "post_state (returning f m) = post_state m" for f :: "'x \<Rightarrow> l3_result" and m :: "('x, l3_queue) outcome"
    by (cases m) (simp_all add: returning_def)
  assume "l3_inv S"
  then show ?thesis
    by (cases op)
      (simp_all add: post mark_gap_def public_event_keeps activate_own_keeps amend_own_keeps cancel_request_keeps
        cancel_ack_keeps consume_execution_keeps)
qed

interpretation l3_ops: robust_ops exec_l3 l3_inv
  by unfold_locales (metis exec_l3_keeps post_state.simps)+

section \<open>Priority\<close>

lemma consume_entries_fills:
  "l3_inv S \<Longrightarrow> set es \<subseteq> set (level_of S k) \<Longrightarrow> distinct (map l3_order_id es) \<Longrightarrow>
     consume_entries k now es left fills S = Return fills' S' \<Longrightarrow>
     (oid \<notin> l3_order_id ` set es \<longrightarrow> dict_get fills' oid = dict_get fills oid) \<and>
     l3_order_id ` set (level_of S' k) \<subseteq> l3_order_id ` set (level_of S k)"
proof (induction es arbitrary: left fills S)
  case (Cons e es)
  let ?S = "after_hit k now left e S"
  have e: "e \<in> set (level_of S k)" using Cons.prems(2) by simp
  have sub: "set es \<subseteq> set (level_of ?S k)"
  proof
    fix x assume "x \<in> set es"
    then show "x \<in> set (level_of ?S k)"
      using Cons.prems(2,3) by (intro after_hit_others) (auto simp: rev_image_eqI)
  qed
  show ?case
  proof (cases "left \<le> 0 \<or> l3_ours e \<and> now \<le> l3_entry_time e")
    case True
    then show ?thesis using Cons.prems(4) consume_entries_step [OF Cons.prems(1) e, of now es left fills] by auto
  next
    case False
    have "consume_entries k now es (dsub left (min (l3_remaining e) left)) (filled left e fills) ?S = Return fills' S'"
      using Cons.prems(4) unfolding consume_entries_go [OF Cons.prems(1) e False] .
    from Cons.IH [OF after_hit_inv [OF Cons.prems(1) e] sub _ this] Cons.prems(3)
    have "(oid \<notin> l3_order_id ` set es \<longrightarrow> dict_get fills' oid = dict_get (filled left e fills) oid) \<and>
      l3_order_id ` set (level_of S' k) \<subseteq> l3_order_id ` set (level_of ?S k)" by simp
    then show ?thesis using after_hit_ids [of k now left e S] by (auto simp: filled_def Let_def split: if_splits)
  qed
qed simp

lemma consume_entries_spent: "left \<le> 0 \<Longrightarrow> consume_entries k now es left fills S = Return fills S"
  by (cases es) (simp_all add: consume_entries.simps(2))

lemma subset_after_hit:
  assumes "set (e # es) \<subseteq> set (level_of S k)" "distinct (map l3_order_id (e # es))"
  shows "set es \<subseteq> set (level_of (after_hit k now left e S) k)"
proof
  fix x assume "x \<in> set es"
  then show "x \<in> set (level_of (after_hit k now left e S) k)"
    using assms by (intro after_hit_others) (auto simp: rev_image_eqI)
qed

lemma consume_entries_priority:
  "l3_inv S \<Longrightarrow> set (before @ e # after) \<subseteq> set (level_of S k) \<Longrightarrow> distinct (map l3_order_id (before @ e # after)) \<Longrightarrow>
     consume_entries k now (before @ e # after) left fills S = Return fills' S' \<Longrightarrow>
     dict_get fills (l3_order_id e) = None \<Longrightarrow> dict_get fills' (l3_order_id e) = Some amount \<Longrightarrow>
     on_flow_grid g left \<Longrightarrow> \<forall>x \<in> set (before @ e # after). on_flow_grid g (l3_remaining x) \<Longrightarrow>
     l3_ours e \<and> l3_entry_time e < now \<and> 0 < amount \<and> amount \<le> l3_remaining e \<and>
     sum_list (map l3_remaining before) + amount \<le> left \<and>
     l3_order_id ` set before \<inter> l3_order_id ` set (level_of S' k) = {}"
proof (induction before arbitrary: left fills S)
  case Nil
  have e: "e \<in> set (level_of S k)" and id: "l3_order_id e \<notin> l3_order_id ` set after" using Nil.prems(2,3) by auto
  note step = consume_entries_step [OF Nil.prems(1) e, of now after left fills]
  have go: "0 < left" "l3_ours e \<longrightarrow> l3_entry_time e < now"
    using Nil.prems(4-6) step by (auto split: if_splits)
  then have rest: "consume_entries k now after (dsub left (min (l3_remaining e) left)) (filled left e fills)
      (after_hit k now left e S) = Return fills' S'" using Nil.prems(4) step by (auto split: if_splits)
  have "dict_get fills' (l3_order_id e) = dict_get (filled left e fills) (l3_order_id e)"
    using consume_entries_fills [OF after_hit_inv [OF Nil.prems(1) e] subset_after_hit _ rest, of "l3_order_id e"] Nil.prems(2,3) id
    by simp
  moreover have "exact28 (min (l3_remaining e) left)"
    using flow_grid_min [of g "l3_remaining e" left] Nil.prems(7,8)
    by (intro exact28_grid [of g]) (auto simp: on_flow_grid_def)
  ultimately have "l3_ours e \<and> 0 < min (l3_remaining e) left \<and> amount = min (l3_remaining e) left"
    using Nil.prems(5,6) by (auto simp: filled_def get_or_def Let_def split: if_splits)
  then show ?case using go by simp
next
  case (Cons b before)
  let ?es = "before @ e # after" and ?S = "after_hit k now left b S"
  have b: "b \<in> set (level_of S k)" and ne: "l3_order_id b \<noteq> l3_order_id e" using Cons.prems(2,3) by auto
  note step = consume_entries_step [OF Cons.prems(1) b, of now ?es left fills]
  have go: "\<not> (left \<le> 0 \<or> l3_ours b \<and> now \<le> l3_entry_time b)"
    using Cons.prems(4-6) step by (auto split: if_splits)
  have rest: "consume_entries k now ?es (dsub left (min (l3_remaining b) left)) (filled left b fills) ?S = Return fills' S'"
    using Cons.prems(4) unfolding append_Cons consume_entries_go [OF Cons.prems(1) b go] .
  have none: "dict_get (filled left b fills) (l3_order_id e) = None"
    using Cons.prems(5) ne by (simp add: filled_def Let_def)
  have sub: "set ?es \<subseteq> set (level_of ?S k)" using subset_after_hit [of b ?es S k now left] Cons.prems(2,3) by simp
  have ids: "distinct (map l3_order_id ?es)" using Cons.prems(3) by simp
  have fits: "l3_remaining b \<le> left"
  proof (rule ccontr)
    assume "\<not> l3_remaining b \<le> left"
    then have "dsub left (min (l3_remaining b) left) \<le> 0" by (simp add: min_def)
    from consume_entries_spent [OF this] have "fills' = filled left b fills" using rest by simp
    then show False using none Cons.prems(6) by simp
  qed
  have grid: "on_flow_grid g (l3_remaining b)" using Cons.prems(8) by simp
  have left: "dsub left (min (l3_remaining b) left) = left - l3_remaining b"
    using flow_grid_sub [OF Cons.prems(7) grid fits] fits by (simp add: min_def)
  have gone: "l3_order_id b \<notin> l3_order_id ` set (level_of S' k)"
  proof -
    have "l3_remaining (hit now left b) = 0" using fits by (simp add: hit_def note_l3_fill_def Let_def min_def)
    then have "l3_order_id b \<notin> l3_order_id ` set (level_of ?S k)" using after_hit_ids [of k now left b S] by auto
    moreover have "l3_order_id ` set (level_of S' k) \<subseteq> l3_order_id ` set (level_of ?S k)"
      using consume_entries_fills [OF after_hit_inv [OF Cons.prems(1) b] sub ids rest] by blast
    ultimately show ?thesis by blast
  qed
  show ?case
    using Cons.IH [OF after_hit_inv [OF Cons.prems(1) b] sub ids rest [unfolded left] none Cons.prems(6)
        flow_grid_diff [OF Cons.prems(7) grid fits]] Cons.prems(8) gone by (auto simp: algebra_simps)
qed

section \<open>Claims\<close>

text \<open>
  C21: the price-time queue stays consistent. Whatever calls are made and whichever of them
  raise, every level is in price-time order with our orders behind public ones of the same
  time, holds at most one own order per column and at most two, no order id twice and nothing
  negative, and the index names exactly the level an order rests in.
\<close>

theorem l3_queue_is_consistent:
  assumes "S = drive_ops exec_l3 ops new_l3"
  shows "sorted (map l3_key (level_of S k)) \<and> distinct (map l3_order_id (level_of S k)) \<and>
     distinct (map l3_column (filter l3_ours (level_of S k))) \<and> length (filter l3_ours (level_of S k)) \<le> 2 \<and>
     (\<forall>e \<in> set (level_of S k). 0 \<le> l3_remaining e) \<and>
     (dict_get (l3_order_level S) (fst k, oid) = Some k) = (oid \<in> l3_order_id ` set (level_of S k))"
proof -
  have "l3_inv new_l3" by (simp add: l3_inv_def level_ok_def level_of_def get_or_def new_l3_def)
  then have inv: "l3_inv S" unfolding assms by (rule l3_ops.drive_inv)
  note ok = l3_invD(1) [OF inv, of k, unfolded level_ok_def]
  let ?cols = "map l3_column (filter l3_ours (level_of S k))"
  have "set ?cols \<subseteq> {Some 1, Some 2}" using ok by auto
  then have "card (set ?cols) \<le> card {Some 1, Some (2 :: int)}" by (intro card_mono) simp_all
  then have "length (filter l3_ours (level_of S k)) \<le> 2" using ok distinct_card [of ?cols] by simp
  moreover have "(dict_get (l3_order_level S) (fst k, oid) = Some k) = (oid \<in> l3_order_id ` set (level_of S k))"
    using ok l3_invD(2) [OF inv, of "(fst k, oid)" k] by auto
  ultimately show ?thesis using ok by simp
qed

text \<open>
  C10: executions respect price-time priority. When an execution fills an own order, the book
  has no gap and no removal of unknown order at the price, the order rested before the
  execution, everything ahead of it has been executed and has left the queue, and the traded
  quantity covers what was ahead plus the fill (on amounts with a common number of places).
\<close>

theorem l3_execution_respects_priority:
  assumes inv: "l3_inv S" and res: "consume_execution book event_id side price quantity now S = Return fills S'"
    and line: "level_of S (book, side, price) = before @ e # after" and fill: "dict_get fills (l3_order_id e) = Some amount"
    and grid: "on_flow_grid g quantity" "\<forall>x \<in> set (before @ e # after). on_flow_grid g (l3_remaining x)"
  shows "book \<notin> l3_gapped S \<and> (book, side, price) \<notin> l3_ambiguous S \<and> l3_ours e \<and> l3_entry_time e < now \<and>
     0 < amount \<and> amount \<le> l3_remaining e \<and> sum_list (map l3_remaining before) + amount \<le> quantity \<and>
     l3_order_id ` set before \<inter> l3_order_id ` set (level_of S' (book, side, price)) = {}"
proof -
  let ?k = "(book, side, price)"
  let ?S = "S\<lparr>l3_last_time := dict_set book now (l3_last_time S), l3_processed := insert (book, event_id) (l3_processed S)\<rparr>"
  have run: "consume_entries ?k now (before @ e # after) quantity [] ?S = Return fills S'"
    and clear: "book \<notin> l3_gapped S" "?k \<notin> l3_ambiguous S"
    using res line by (auto simp: consume_execution_def advance_clock_def Let_def split: if_splits)
  have S: "l3_inv ?S" "level_of ?S ?k = before @ e # after" using inv line by simp_all
  have "distinct (map l3_order_id (before @ e # after))" using l3_invD(1) [OF inv, of ?k] line by (simp add: level_ok_def)
  moreover have "set (before @ e # after) \<subseteq> set (level_of ?S ?k)" unfolding S(2) by simp
  ultimately show ?thesis using consume_entries_priority [OF S(1) _ _ run _ fill grid] clear by simp
qed

section \<open>A sample book\<close>

definition sample_book :: book_key where
  "sample_book = Book_Key KRAKEN ''USDC/USDT''"

definition sample_add :: l3_order_event where
  "sample_add = \<lparr>le_book = sample_book, le_event_id = ''E1'', le_event_type = ADD, le_side = ''BUY'', le_price = 1,
     le_order_id = ''P1'', le_remaining = 5, le_order_entry_time = 1, le_exchange_time = 1, le_local_capture_time = 1,
     le_message_sequence = 1\<rparr>"

definition sample_line :: l3_queue where
  "sample_line = drive_ops exec_l3 [L3PublicEvent sample_add, L3ActivateOwn sample_book ''BUY'' 1 ''O1'' 4 1 2] new_l3"

lemma sample_line_level:
  "map l3_order_id (level_of sample_line (sample_book, ''BUY'', 1)) = [''P1'', ''O1''] \<and>
   map l3_remaining (level_of sample_line (sample_book, ''BUY'', 1)) = [5, 4]"
  unfolding sample_line_def by code_simp

theorem l3_queue_is_consistent_witness:
  "sorted (map l3_key (level_of sample_line (sample_book, ''BUY'', 1))) \<and>
     dict_get (l3_order_level sample_line) (sample_book, ''O1'') = Some (sample_book, ''BUY'', 1)"
proof -
  have "''O1'' \<in> set (map l3_order_id (level_of sample_line (sample_book, ''BUY'', 1)))"
    unfolding sample_line_level [THEN conjunct1] by simp
  then show ?thesis
    using l3_queue_is_consistent [OF sample_line_def, of "(sample_book, ''BUY'', 1)" "''O1''"] by simp
qed

lemma sample_execution_fills:
  "case consume_execution sample_book ''X1'' ''BUY'' 1 7 3 sample_line of
     Return fills S \<Rightarrow> dict_get fills ''O1'' = Some 2 | Raise _ _ \<Rightarrow> False"
  unfolding sample_line_def by code_simp

theorem l3_execution_respects_priority_witness:
  "\<exists>fills S p o'. consume_execution sample_book ''X1'' ''BUY'' 1 7 3 sample_line = Return fills S \<and>
     level_of sample_line (sample_book, ''BUY'', 1) = [p, o'] \<and> dict_get fills (l3_order_id o') = Some 2 \<and>
     l3_remaining p + 2 \<le> 7"
proof -
  obtain fills S where r: "consume_execution sample_book ''X1'' ''BUY'' 1 7 3 sample_line = Return fills S"
    and f: "dict_get fills ''O1'' = Some 2"
    using sample_execution_fills by (cases "consume_execution sample_book ''X1'' ''BUY'' 1 7 3 sample_line") simp_all
  obtain p o' where line: "level_of sample_line (sample_book, ''BUY'', 1) = [p, o']" and o': "l3_order_id o' = ''O1''"
    and rem: "l3_remaining p = 5" "l3_remaining o' = 4"
    using sample_line_level by (auto simp: map_eq_Cons_conv)
  have inv: "l3_inv sample_line"
    unfolding sample_line_def
    by (rule l3_ops.drive_inv) (simp add: l3_inv_def level_ok_def level_of_def get_or_def new_l3_def)
  have fill: "dict_get fills (l3_order_id o') = Some 2" unfolding o' by (rule f)
  have "sum_list (map l3_remaining [p]) + 2 \<le> 7"
    using l3_execution_respects_priority [OF inv r _ fill, of "[p]" "[]" 0] line rem
    by (simp add: on_flow_grid_def on_grid_def pow10_def)
  then have "l3_remaining p + 2 \<le> 7" by simp
  with r line fill show ?thesis by (intro exI conjI)
qed

text \<open>
  A public message whose id equals an own order's is not told apart from a message about that
  order: it takes our order out.
\<close>

lemma native_delete_removes_own_order:
  "case apply_public_event (sample_add\<lparr>le_event_id := ''E2'', le_event_type := DELETE, le_order_id := ''O1'', le_exchange_time := 3\<rparr>)
          sample_line of
     Return _ S \<Rightarrow> map l3_order_id (level_of S (sample_book, ''BUY'', 1)) = [''P1''] | Raise _ _ \<Rightarrow> False"
  unfolding sample_line_def by code_simp

end
