(* ===== verification/Multi_Venue_Progress.thy ===== *)
theory Multi_Venue_Progress
  imports Multi_Venue_Queue_Facts
begin

text \<open>
  Progress of the L3 queue: an own order that rests in a level is filled once the executions at
  its price add up to the volume up to and including it, however they are cut. The safety side,
  that nothing is filled out of turn, is in Multi_Venue_Queue_Facts.
\<close>

section \<open>One execution\<close>

lemma head_is_distinct: "distinct (map f (x # xs)) \<Longrightarrow> \<forall>y \<in> set xs. f y \<noteq> f x"
  by (induction xs) auto

lemma front_after_hit:
  assumes level: "level_of S k = e # es" and ids: "distinct (map l3_order_id (e # es))"
  shows "level_of (after_hit k now left e S) k =
     (if l3_remaining (hit now left e) = 0 then es else hit now left e # es)"
proof -
  have id: "l3_order_id (hit now left e) = l3_order_id e" by (simp add: hit_def note_l3_fill_def Let_def)
  have "replace_entry (hit now left e) (e # es) = hit now left e # es"
    using head_is_distinct [OF ids] by (simp add: replace_entry_def id map_idI)
  moreover have "without (l3_order_id e) (hit now left e # es) = es"
    using head_is_distinct [OF ids] by (simp add: without_def id)
  ultimately show ?thesis by (simp add: after_hit_def store_entry_def leave_line_def Let_def level)
qed

lemma after_hit_fields [simp]:
  "l3_gapped (after_hit k now left e S) = l3_gapped S" "l3_ambiguous (after_hit k now left e S) = l3_ambiguous S"
  "l3_processed (after_hit k now left e S) = l3_processed S" "l3_last_time (after_hit k now left e S) = l3_last_time S"
  by (simp_all add: after_hit_def store_entry_def leave_line_def put_level_def forget_order_def Let_def)

text \<open>Under the invariant the loop returns, and leaves everything but the level alone.\<close>

lemma consume_entries_returns:
  "l3_inv S \<Longrightarrow> set es \<subseteq> set (level_of S k) \<Longrightarrow> distinct (map l3_order_id es) \<Longrightarrow>
     \<exists>fills' S'. consume_entries k now es left fills S = Return fills' S' \<and> l3_inv S' \<and>
       l3_gapped S' = l3_gapped S \<and> l3_ambiguous S' = l3_ambiguous S \<and> l3_processed S' = l3_processed S \<and>
       l3_last_time S' = l3_last_time S"
proof (induction es arbitrary: left fills S)
  case (Cons e es)
  have e: "e \<in> set (level_of S k)" using Cons.prems(2) by simp
  show ?case
  proof (cases "left \<le> 0 \<or> l3_ours e \<and> now \<le> l3_entry_time e")
    case True
    then show ?thesis using consume_entries_step [OF Cons.prems(1) e] Cons.prems(1) by simp
  next
    case False
    show ?thesis
      unfolding consume_entries_go [OF Cons.prems(1) e False]
      using Cons.IH [OF after_hit_inv [OF Cons.prems(1) e] subset_after_hit [OF Cons.prems(2,3)]] Cons.prems(3) by simp
  qed
qed simp

text \<open>The volume an execution has to take before an entry is filled.\<close>

definition l3_volume :: "l3_entry list \<Rightarrow> decimal" where
  "l3_volume es = sum_list (map l3_remaining es)"

text \<open>
  What is known of a level while an order waits in it: its own orders up to that order rest
  since before the given time, and the quantities are on the grid.
\<close>

definition waiting :: "nat \<Rightarrow> int \<Rightarrow> string \<Rightarrow> l3_entry list \<Rightarrow> l3_entry \<Rightarrow> bool" where
  "waiting g start oid before e \<longleftrightarrow>
     l3_order_id e = oid \<and> l3_ours e \<and> 0 < l3_remaining e \<and>
     (\<forall>x \<in> set (before @ [e]). (l3_ours x \<longrightarrow> l3_entry_time x < start) \<and> on_flow_grid g (l3_remaining x))"

lemma hit_grid:
  assumes "on_flow_grid g (l3_remaining e)" "on_flow_grid g left"
  shows "l3_remaining (hit now left e) = l3_remaining e - min (l3_remaining e) left"
    "on_flow_grid g (l3_remaining (hit now left e))"
    "dsub left (min (l3_remaining e) left) = left - min (l3_remaining e) left"
    "on_flow_grid g (left - min (l3_remaining e) left)"
proof -
  have m: "on_flow_grid g (min (l3_remaining e) left)" by (rule flow_grid_min [OF assms])
  show r: "l3_remaining (hit now left e) = l3_remaining e - min (l3_remaining e) left"
    using flow_grid_sub [OF assms(1) m] by (simp add: hit_def note_l3_fill_def Let_def)
  show "on_flow_grid g (l3_remaining (hit now left e))" unfolding r by (rule flow_grid_diff [OF assms(1) m]) simp
  show "dsub left (min (l3_remaining e) left) = left - min (l3_remaining e) left"
    by (rule flow_grid_sub [OF assms(2) m]) simp
  show "on_flow_grid g (left - min (l3_remaining e) left)" by (rule flow_grid_diff [OF assms(2) m]) simp
qed

lemma hit_fields [simp]:
  "l3_order_id (hit now left e) = l3_order_id e" "l3_ours (hit now left e) = l3_ours e"
  "l3_entry_time (hit now left e) = l3_entry_time e"
  by (simp_all add: hit_def note_l3_fill_def Let_def)

lemma get_filled:
  assumes "get_or fills (l3_order_id e) 0 = 0" "l3_ours e" "on_flow_grid g (l3_remaining e)" "on_flow_grid g left"
  shows "get_or (filled left e fills) (l3_order_id e) 0 = min (l3_remaining e) left"
proof -
  have m: "on_flow_grid g (min (l3_remaining e) left)" by (rule flow_grid_min [OF assms(3,4)])
  then have "exact28 (min (l3_remaining e) left)" by (intro exact28_grid [of g]) (auto simp: on_flow_grid_def)
  then have "dadd 0 (min (l3_remaining e) left) = min (l3_remaining e) left" by simp
  moreover have "0 \<le> min (l3_remaining e) left" using m by (simp add: on_flow_grid_def)
  ultimately show ?thesis using assms(1,2) by (auto simp: filled_def get_or_def Let_def)
qed

lemma get_filled_other: "oid \<noteq> l3_order_id e \<Longrightarrow> get_or (filled left e fills) oid 0 = get_or fills oid 0"
  by (simp add: filled_def get_or_def Let_def)

lemma consume_entries_others:
  assumes "l3_inv S" "set es \<subseteq> set (level_of S k)" "distinct (map l3_order_id es)"
    "consume_entries k now es left fills S = Return fills' S'" "oid \<notin> l3_order_id ` set es"
  shows "get_or fills' oid 0 = get_or fills oid 0"
    "l3_order_id ` set (level_of S' k) \<subseteq> l3_order_id ` set (level_of S k)"
  using consume_entries_fills [OF assms(1-4), of oid] assms(5) by (simp_all add: get_or_def)

text \<open>One execution either fills the order or takes its whole quantity off what is ahead of it.\<close>

lemma execution_progress:
  "l3_inv S \<Longrightarrow> level_of S k = before @ e # after \<Longrightarrow> distinct (map l3_order_id (before @ e # after)) \<Longrightarrow>
     waiting g start oid before e \<Longrightarrow> start \<le> now \<Longrightarrow> on_flow_grid g left \<Longrightarrow> get_or fills oid 0 = 0 \<Longrightarrow>
     consume_entries k now (before @ e # after) left fills S = Return fills' S' \<Longrightarrow>
     (if l3_volume (before @ [e]) \<le> left
      then oid \<notin> l3_order_id ` set (level_of S' k) \<and> get_or fills' oid 0 = l3_remaining e
      else \<exists>before' e'. level_of S' k = before' @ e' # after \<and> waiting g start oid before' e' \<and>
             l3_volume (before' @ [e']) = l3_volume (before @ [e]) - left \<and>
             get_or fills' oid 0 = l3_remaining e - l3_remaining e')"
proof (induction before arbitrary: left fills S)
  case Nil
  have e: "e \<in> set (level_of S k)" and sub: "set (e # after) \<subseteq> set (level_of S k)" using Nil.prems(2) by simp_all
  have w: "l3_order_id e = oid" "l3_ours e" "0 < l3_remaining e" "l3_entry_time e < now" "on_flow_grid g (l3_remaining e)"
    using Nil.prems(4,5) by (auto simp: waiting_def)
  note h = hit_grid [OF w(5) Nil.prems(6)]
  have ids: "distinct (map l3_order_id (e # after))" and fresh: "oid \<notin> l3_order_id ` set after"
    using Nil.prems(3) w(1) by auto
  show ?case
  proof (cases "left \<le> 0")
    case True
    then have "left = 0" using Nil.prems(6) by (simp add: on_flow_grid_def)
    moreover have "fills' = fills" "S' = S" using Nil.prems(8) consume_entries_spent [OF True] by auto
    ultimately show ?thesis using Nil.prems(2,4,7) w(3) by (auto simp: l3_volume_def intro!: exI [of _ "[]"] exI [of _ e])
  next
    case False
    then have "\<not> (left \<le> 0 \<or> l3_ours e \<and> now \<le> l3_entry_time e)" using w(4) by simp
    from consume_entries_go [OF Nil.prems(1) e this, of after fills] Nil.prems(8)
    have rest: "consume_entries k now after (left - min (l3_remaining e) left) (filled left e fills) (after_hit k now left e S)
        = Return fills' S'" unfolding h(3) by simp
    note others = consume_entries_others [OF after_hit_inv [OF Nil.prems(1) e] subset_after_hit [OF sub ids] _ rest fresh]
    have fill: "get_or fills' oid 0 = min (l3_remaining e) left"
      using others(1) ids get_filled [OF _ w(2,5) Nil.prems(6)] Nil.prems(7) w(1) by simp
    have level: "level_of (after_hit k now left e S) k =
        (if l3_remaining (hit now left e) = 0 then after else hit now left e # after)"
      using Nil.prems(2) ids by (intro front_after_hit) simp_all
    show ?thesis
    proof (cases "l3_remaining e \<le> left")
      case True
      then have "level_of (after_hit k now left e S) k = after" using level h(1) by simp
      then have "oid \<notin> l3_order_id ` set (level_of S' k)" using others(2) ids fresh by auto
      then show ?thesis using True fill by (simp add: l3_volume_def)
    next
      case part: False
      then have "left - min (l3_remaining e) left = 0" by simp
      then have "S' = after_hit k now left e S" using rest consume_entries_spent by simp
      then have "level_of S' k = [] @ hit now left e # after" using level h(1) part by simp
      moreover have "waiting g start oid [] (hit now left e)"
        using Nil.prems(4) h(1,2) part by (simp add: waiting_def)
      ultimately show ?thesis using part fill h(1) by (auto simp: l3_volume_def intro!: exI [of _ "[]"] exI [of _ "hit now left e"])
    qed
  qed
next
  case (Cons b before)
  let ?es = "before @ e # after"
  have b: "b \<in> set (level_of S k)" and sub: "set (b # ?es) \<subseteq> set (level_of S k)" using Cons.prems(2) by simp_all
  have wb: "l3_ours b \<longrightarrow> l3_entry_time b < now" "on_flow_grid g (l3_remaining b)" and w: "waiting g start oid before e"
    and we: "l3_order_id e = oid" "0 < l3_remaining e"
    using Cons.prems(4,5) by (auto simp: waiting_def)
  note h = hit_grid [OF wb(2) Cons.prems(6)]
  have ids: "distinct (map l3_order_id (b # ?es))" and ne: "oid \<noteq> l3_order_id b" using Cons.prems(3) we(1) by auto
  have pos: "0 \<le> l3_remaining b" "0 \<le> l3_volume before"
    using wb(2) w by (auto simp: on_flow_grid_def waiting_def l3_volume_def intro!: sum_list_nonneg)
  show ?case
  proof (cases "left \<le> 0")
    case True
    then have "left = 0" using Cons.prems(6) by (simp add: on_flow_grid_def)
    moreover have "fills' = fills" "S' = S" using Cons.prems(8) consume_entries_spent [OF True] by auto
    ultimately show ?thesis
      using Cons.prems(2,4,7) we(2) pos by (auto simp: l3_volume_def intro!: exI [of _ "b # before"] exI [of _ e])
  next
    case False
    then have go: "\<not> (left \<le> 0 \<or> l3_ours b \<and> now \<le> l3_entry_time b)" using wb(1) by auto
    have rest: "consume_entries k now ?es (left - min (l3_remaining b) left) (filled left b fills) (after_hit k now left b S)
        = Return fills' S'"
      using Cons.prems(8) unfolding append_Cons consume_entries_go [OF Cons.prems(1) b go] h(3) .
    have level: "level_of (after_hit k now left b S) k =
        (if l3_remaining (hit now left b) = 0 then ?es else hit now left b # ?es)"
      using Cons.prems(2) ids by (intro front_after_hit) simp_all
    have fills: "get_or (filled left b fills) oid 0 = 0" using get_filled_other [OF ne] Cons.prems(7) by simp
    show ?thesis
    proof (cases "l3_remaining b \<le> left")
      case True
      then have "level_of (after_hit k now left b S) k = ?es" using level h(1) by simp
      note IH = Cons.IH [OF after_hit_inv [OF Cons.prems(1) b] this _ w Cons.prems(5) h(4) fills rest]
      have m: "min (l3_remaining b) left = l3_remaining b" using True by simp
      have v: "l3_volume ((b # before) @ [e]) = l3_remaining b + l3_volume (before @ [e])" by (simp add: l3_volume_def)
      then have c: "l3_volume ((b # before) @ [e]) \<le> left \<longleftrightarrow> l3_volume (before @ [e]) \<le> left - l3_remaining b"
        and d: "l3_volume ((b # before) @ [e]) - left = l3_volume (before @ [e]) - (left - l3_remaining b)"
        unfolding v by (simp_all add: algebra_simps)
      show ?thesis unfolding c d using IH ids unfolding m by simp
    next
      case part: False
      then have "left - min (l3_remaining b) left = 0" by simp
      then have S': "S' = after_hit k now left b S" "fills' = filled left b fills" using rest consume_entries_spent by simp_all
      then have "level_of S' k = (hit now left b # before) @ e # after" using level h(1) part by simp
      moreover have "waiting g start oid (hit now left b # before) e"
        using Cons.prems(4) h(2) by (simp add: waiting_def)
      ultimately show ?thesis
        using part pos we(2) fills h(1) S'(2)
        by (auto simp: l3_volume_def intro!: exI [of _ "hit now left b # before"] exI [of _ e])
    qed
  qed
qed


section \<open>A resting order is filled\<close>

text \<open>Executions at one price: the event, the quantity and the time of each.\<close>

type_synonym execution = "string \<times> decimal \<times> int"

definition execution_op :: "level_key \<Rightarrow> execution \<Rightarrow> l3_op" where
  "execution_op k x = L3Execution (fst k) (fst x) (fst (snd k)) (snd (snd k)) (fst (snd x)) (snd (snd x))"

text \<open>
  The book takes the executions: it has no gap, the price is not ambiguous, the events are new
  and in the order of time.
\<close>

definition takes :: "level_key \<Rightarrow> execution list \<Rightarrow> l3_queue \<Rightarrow> bool" where
  "takes k xs S \<longleftrightarrow>
     fst k \<notin> l3_gapped S \<and> k \<notin> l3_ambiguous S \<and> distinct (map fst xs) \<and> sorted (map (\<lambda>x. snd (snd x)) xs) \<and>
     (\<forall>x \<in> set xs. (fst k, fst x) \<notin> l3_processed S \<and> \<not> out_of_order (fst k) (snd (snd x)) S)"

definition filled_by :: "string \<Rightarrow> l3_result \<Rightarrow> decimal" where
  "filled_by oid r = (case r of L3Fills fills \<Rightarrow> get_or fills oid 0 | _ \<Rightarrow> 0)"

lemma filled_by_fills [simp]: "filled_by oid (L3Fills fills) = get_or fills oid 0"
  by (simp add: filled_by_def)

lemma takes_step:
  assumes inv: "l3_inv S" and ready: "takes k (x # xs) S"
  shows "\<exists>fills S' S1. exec_l3 (execution_op k x) S = Return (L3Fills fills) S' \<and>
     consume_entries k (snd (snd x)) (level_of S k) (fst (snd x)) [] S1 = Return fills S' \<and>
     l3_inv S1 \<and> level_of S1 k = level_of S k \<and> l3_inv S' \<and> takes k xs S'"
proof -
  let ?S = "S\<lparr>l3_last_time := dict_set (fst k) (snd (snd x)) (l3_last_time S),
    l3_processed := insert (fst k, fst x) (l3_processed S)\<rparr>"
  have inv1: "l3_inv ?S" and level: "level_of ?S k = level_of S k" using inv by simp_all
  have "distinct (map l3_order_id (level_of S k))" using l3_invD(1) [OF inv, of k] by (simp add: level_ok_def)
  from consume_entries_returns [OF inv1 _ this, of k "snd (snd x)" "fst (snd x)" "[]"] level
  obtain fills S' where run: "consume_entries k (snd (snd x)) (level_of S k) (fst (snd x)) [] ?S = Return fills S'"
    and S': "l3_inv S'" "l3_gapped S' = l3_gapped S" "l3_ambiguous S' = l3_ambiguous S"
      "l3_processed S' = insert (fst k, fst x) (l3_processed S)"
      "l3_last_time S' = dict_set (fst k) (snd (snd x)) (l3_last_time S)" by auto
  have "exec_l3 (execution_op k x) S = Return (L3Fills fills) S'"
    using ready run level
    by (simp add: execution_op_def consume_execution_def takes_def advance_clock_def Let_def)
  moreover have "\<forall>y \<in> set xs. fst y \<noteq> fst x" using ready by (intro head_is_distinct) (simp add: takes_def)
  then have "takes k xs S'" using ready S' by (auto simp: takes_def out_of_order_def)
  ultimately show ?thesis using run inv1 level S'(1) by blast
qed

lemma gone_stays_gone:
  "l3_inv S \<Longrightarrow> takes k xs S \<Longrightarrow> oid \<notin> l3_order_id ` set (level_of S k) \<Longrightarrow>
     \<exists>rs S'. run_ops exec_l3 (map (execution_op k) xs) S = Return rs S' \<and>
       oid \<notin> l3_order_id ` set (level_of S' k) \<and> sum_list (map (filled_by oid) rs) = 0"
proof (induction xs arbitrary: S)
  case (Cons x xs)
  obtain fills S' S1 where exec: "exec_l3 (execution_op k x) S = Return (L3Fills fills) S'"
    and run: "consume_entries k (snd (snd x)) (level_of S k) (fst (snd x)) [] S1 = Return fills S'"
    and S1: "l3_inv S1" "level_of S1 k = level_of S k" and S': "l3_inv S'" "takes k xs S'"
    using takes_step [OF Cons.prems(1,2)] by blast
  have ids: "distinct (map l3_order_id (level_of S k))" using l3_invD(1) [OF Cons.prems(1), of k] by (simp add: level_ok_def)
  have sub: "set (level_of S k) \<subseteq> set (level_of S1 k)" using S1(2) by simp
  note others = consume_entries_others [OF S1(1) sub ids run Cons.prems(3)]
  have "oid \<notin> l3_order_id ` set (level_of S' k)" using others(2) Cons.prems(3) S1(2) by auto
  from Cons.IH [OF S' this] obtain rs S'' where "run_ops exec_l3 (map (execution_op k) xs) S' = Return rs S''"
    "oid \<notin> l3_order_id ` set (level_of S'' k)" "sum_list (map (filled_by oid) rs) = 0" by blast
  then show ?case using exec others(1) by (simp add: get_or_def)
qed simp

lemma waiting_is_filled:
  "l3_inv S \<Longrightarrow> takes k xs S \<Longrightarrow> level_of S k = before @ e # after \<Longrightarrow> waiting g start oid before e \<Longrightarrow>
     \<forall>x \<in> set xs. start \<le> snd (snd x) \<and> on_flow_grid g (fst (snd x)) \<Longrightarrow>
     l3_volume (before @ [e]) \<le> sum_list (map (\<lambda>x. fst (snd x)) xs) \<Longrightarrow>
     \<exists>rs S'. run_ops exec_l3 (map (execution_op k) xs) S = Return rs S' \<and>
       oid \<notin> l3_order_id ` set (level_of S' k) \<and> sum_list (map (filled_by oid) rs) = l3_remaining e"
proof (induction xs arbitrary: S before e)
  case Nil
  have "0 < l3_volume (before @ [e])"
    using Nil.prems(4) by (auto simp: l3_volume_def waiting_def on_flow_grid_def intro!: add_nonneg_pos sum_list_nonneg)
  then show ?case using Nil.prems(6) by simp
next
  case (Cons x xs)
  obtain fills S' S1 where exec: "exec_l3 (execution_op k x) S = Return (L3Fills fills) S'"
    and run: "consume_entries k (snd (snd x)) (level_of S k) (fst (snd x)) [] S1 = Return fills S'"
    and S1: "l3_inv S1" "level_of S1 k = level_of S k" and S': "l3_inv S'" "takes k xs S'"
    using takes_step [OF Cons.prems(1,2)] by blast
  have ids: "distinct (map l3_order_id (before @ e # after))"
    using l3_invD(1) [OF Cons.prems(1), of k] Cons.prems(3) by (simp add: level_ok_def)
  have x: "start \<le> snd (snd x)" "on_flow_grid g (fst (snd x))"
    and xs: "\<forall>x \<in> set xs. start \<le> snd (snd x) \<and> on_flow_grid g (fst (snd x))" using Cons.prems(5) by simp_all
  have "level_of S1 k = before @ e # after" using S1(2) Cons.prems(3) by simp
  note step = execution_progress [OF S1(1) this ids Cons.prems(4) x _ run [unfolded Cons.prems(3)]]
  show ?case
  proof (cases "l3_volume (before @ [e]) \<le> fst (snd x)")
    case True
    then have gone: "oid \<notin> l3_order_id ` set (level_of S' k)" and fill: "get_or fills oid 0 = l3_remaining e"
      using step by (simp_all add: get_or_def)
    from gone_stays_gone [OF S' gone] obtain rs S'' where "run_ops exec_l3 (map (execution_op k) xs) S' = Return rs S''"
      "oid \<notin> l3_order_id ` set (level_of S'' k)" "sum_list (map (filled_by oid) rs) = 0" by blast
    then show ?thesis using exec fill by simp
  next
    case False
    then obtain before' e' where level: "level_of S' k = before' @ e' # after" and w: "waiting g start oid before' e'"
      and v: "l3_volume (before' @ [e']) = l3_volume (before @ [e]) - fst (snd x)"
      and fill: "get_or fills oid 0 = l3_remaining e - l3_remaining e'"
      using step by (auto simp: get_or_def)
    have "l3_volume (before' @ [e']) \<le> sum_list (map (\<lambda>x. fst (snd x)) xs)" using v Cons.prems(6) by simp
    from Cons.IH [OF S' level w xs this] obtain rs S'' where "run_ops exec_l3 (map (execution_op k) xs) S' = Return rs S''"
      "oid \<notin> l3_order_id ` set (level_of S'' k)" "sum_list (map (filled_by oid) rs) = l3_remaining e'" by blast
    then show ?thesis using exec fill by simp
  qed
qed

text \<open>
  C22: an order that rests is filled once enough is traded at its price. Let an own order wait in
  a consistent L3 queue, resting (like our orders ahead of it) since before a time. Executions
  from that time on, in any number and of any size, that the book takes and that add up to at
  least the volume up to and including the order, all return; afterwards the order has left the
  level and the fills reported for it add up to exactly what it had left.
\<close>

theorem resting_order_is_filled:
  assumes inv: "l3_inv S" and takes: "takes k xs S"
    and line: "level_of S k = before @ e # after" and own: "l3_ours e" "0 < l3_remaining e"
    and rests: "\<forall>y \<in> set (before @ [e]). l3_ours y \<longrightarrow> l3_entry_time y < start"
    and later: "\<forall>x \<in> set xs. start \<le> snd (snd x)"
    and grid: "\<forall>y \<in> set (before @ [e]). on_flow_grid g (l3_remaining y)" "\<forall>x \<in> set xs. on_flow_grid g (fst (snd x))"
    and enough: "sum_list (map l3_remaining (before @ [e])) \<le> sum_list (map (\<lambda>x. fst (snd x)) xs)"
  shows "\<exists>rs S'. run_ops exec_l3 (map (execution_op k) xs) S = Return rs S' \<and>
     l3_order_id e \<notin> l3_order_id ` set (level_of S' k) \<and>
     sum_list (map (filled_by (l3_order_id e)) rs) = l3_remaining e"
proof -
  have "waiting g start (l3_order_id e) before e" using own rests grid(1) by (auto simp: waiting_def)
  from waiting_is_filled [OF inv takes line this] later grid(2) enough show ?thesis by (simp add: l3_volume_def)
qed

text \<open>The order of the sample book is filled by two executions of five each.\<close>

theorem resting_order_is_filled_witness:
  "\<exists>rs S. run_ops exec_l3 (map (execution_op (sample_book, ''BUY'', 1)) [(''X1'', 5, 3), (''X2'', 5, 4)]) sample_line = Return rs S \<and>
     sum_list (map (filled_by ''O1'') rs) = 4"
proof -
  obtain p o' where line: "level_of sample_line (sample_book, ''BUY'', 1) = [p, o']" and o': "l3_order_id o' = ''O1''"
    and rem: "l3_remaining p = 5" "l3_remaining o' = 4"
    using sample_line_level by (auto simp: map_eq_Cons_conv)
  have "\<forall>y \<in> set (level_of sample_line (sample_book, ''BUY'', 1)). (l3_ours y \<longrightarrow> l3_entry_time y < 3) \<and>
      (l3_order_id y = ''O1'' \<longrightarrow> l3_ours y)" by code_simp
  then have own: "l3_ours o'" "\<forall>y \<in> {p, o'}. l3_ours y \<longrightarrow> l3_entry_time y < 3" using line o' by auto
  have takes: "takes (sample_book, ''BUY'', 1) [(''X1'', 5, 3), (''X2'', 5, 4)] sample_line" by code_simp
  have inv: "l3_inv sample_line"
    unfolding sample_line_def
    by (rule l3_ops.drive_inv) (simp add: l3_inv_def level_ok_def level_of_def get_or_def new_l3_def)
  have "level_of sample_line (sample_book, ''BUY'', 1) = [p] @ o' # []" using line by simp
  from resting_order_is_filled [OF inv takes this own(1), of 3 0] own(2) rem o' show ?thesis
    by (auto simp: on_flow_grid_def on_grid_def pow10_def)
qed

end
