(* ===== verification/Multi_Venue_Ledger.thy ===== *)
theory Multi_Venue_Ledger
  imports Multi_Venue_Models Multi_Stable_Routing Multi_Stable_Ledger_Facts
begin

text \<open>
  \<^verbatim>\<open>microstructure/multi_venue_ledger.py\<close>: one slot ledger per venue, never lending
  across venues, and the aggregate figures. The facts at the end show that no call on one
  venue can be told from the state of another.
\<close>

section \<open>The portfolio\<close>

type_synonym venue_ledgers = "(venue, slot_ledger) dict"

definition add_venue ::
    "venue \<Rightarrow> (string, decimal) dict \<Rightarrow> (string, decimal) dict \<Rightarrow> venue_ledgers \<Rightarrow> (slot_ledger, venue_ledgers) outcome" where
  "add_venue v balances marks P =
     (if has_key P v then Raise (ValueError ''M033_DUPLICATE_VENUE_LEDGER'') P
      else case new_slot_ledger balances marks of
        Inl e \<Rightarrow> Raise e P
      | Inr L \<Rightarrow> Return L (dict_set v L P))"

definition venue_ledger :: "venue \<Rightarrow> venue_ledgers \<Rightarrow> py_error + slot_ledger" where
  "venue_ledger v P =
     (case dict_get P v of None \<Rightarrow> Inl (ValueError ''M033_VENUE_LEDGER_MISSING'') | Some L \<Rightarrow> Inr L)"

definition on_venue ::
    "venue \<Rightarrow> (slot_ledger \<Rightarrow> ('a, slot_ledger) outcome) \<Rightarrow> venue_ledgers \<Rightarrow> ('a, venue_ledgers) outcome" where
  "on_venue v m P =
     (case venue_ledger v P of
        Inl e \<Rightarrow> Raise e P
      | Inr L \<Rightarrow> (case m L of
          Return r L' \<Rightarrow> Return r (dict_set v L' P)
        | Raise e L' \<Rightarrow> Raise e (dict_set v L' P)))"

definition venue_reserve ::
    "venue \<Rightarrow> string \<Rightarrow> string \<Rightarrow> string \<Rightarrow> decimal \<Rightarrow> int \<Rightarrow> venue_ledgers \<Rightarrow> (unit, venue_ledgers) outcome" where
  "venue_reserve v sid rid asset quantity now P =
     returning (\<lambda>_. ()) (on_venue v (reserve_free sid rid asset quantity now) P)"

definition assert_route_fundable :: "venue_route \<Rightarrow> string \<Rightarrow> decimal \<Rightarrow> venue_ledgers \<Rightarrow> py_error + unit" where
  "assert_route_fundable r asset quantity P =
     (case route_venue r of
        Inl e \<Rightarrow> Inl e
      | Inr v \<Rightarrow> (case venue_ledger v P of
          Inl e \<Rightarrow> Inl e
        | Inr L \<Rightarrow>
            if get_or (sl_free L) asset 0 < quantity
            then (if 0 < dsum (map (\<lambda>(_, row). get_or (sl_free row) asset 0) (filter (\<lambda>(w, _). w \<noteq> v) P))
                  then Inl (ValueError ''M033_REMOTE_VENUE_CAPITAL_UNAVAILABLE'')
                  else Inl (ValueError ''M033_LOCAL_VENUE_CAPITAL_INSUFFICIENT''))
            else Inr ()))"

definition venue_equities :: "venue_ledgers \<Rightarrow> py_error + (venue, decimal) dict" where
  "venue_equities P =
     traverse (\<lambda>(v, L). case slot_marked_equity None L of Inl e \<Rightarrow> Inl e | Inr x \<Rightarrow> Inr (v, x)) P"

definition global_marked_equity :: "venue_ledgers \<Rightarrow> py_error + decimal" where
  "global_marked_equity P =
     (case venue_equities P of Inl e \<Rightarrow> Inl e | Inr es \<Rightarrow> Inr (dsum (dict_values es)))"

primrec ledgers_error :: "slot_ledger list \<Rightarrow> py_error option" where
  "ledgers_error [] = None"
| "ledgers_error (L # Ls) = (case slot_reconcile_error L of Some e \<Rightarrow> Some e | None \<Rightarrow> ledgers_error Ls)"

definition portfolio_error :: "venue_ledgers \<Rightarrow> py_error option" where
  "portfolio_error P =
     (case ledgers_error (dict_values P) of
        Some e \<Rightarrow> Some e
      | None \<Rightarrow> (case (global_marked_equity P, venue_equities P) of
          (Inl e, _) \<Rightarrow> Some e
        | (_, Inl e) \<Rightarrow> Some e
        | (Inr g, Inr es) \<Rightarrow>
            if g \<noteq> dsum (dict_values es) then Some (ValueError ''M033_GLOBAL_PORTFOLIO_RECONCILIATION_FAILED'') else None))"

section \<open>Isolation\<close>

datatype (plugins only: code size) venue_op =
    AddVenue venue "(string, decimal) dict" "(string, decimal) dict"
  | OnVenue venue slot_op

fun exec_venue :: "venue_op \<Rightarrow> venue_ledgers \<Rightarrow> (unit, venue_ledgers) outcome" where
  "exec_venue (AddVenue v balances marks) P = returning (\<lambda>_. ()) (add_venue v balances marks P)"
| "exec_venue (OnVenue v op) P = returning (\<lambda>_. ()) (on_venue v (exec_slot op) P)"

fun op_venue :: "venue_op \<Rightarrow> venue" where
  "op_venue (AddVenue v balances marks) = v"
| "op_venue (OnVenue v op) = v"

lemma reserve_is_venue_op:
  "post_state (venue_reserve v sid rid asset quantity now P) = post_state (exec_venue (OnVenue v (ReserveFree sid rid asset quantity now)) P)"
  by (simp add: venue_reserve_def on_venue_def returning_def split: sum.splits outcome.splits)

text \<open>What a call leaves at a venue depends on that venue's ledger alone.\<close>

lemma exec_venue_local:
  assumes "dict_get P w = dict_get Q w"
  shows "dict_get (post_state (exec_venue op P)) w =
     dict_get (if op_venue op = w then post_state (exec_venue op Q) else Q) w"
proof (cases op)
  case (AddVenue v balances marks)
  then show ?thesis using assms by (auto simp: add_venue_def has_key_iff returning_def split: sum.splits)
next
  case (OnVenue v op')
  then show ?thesis
    using assms by (cases "exec_slot op' (the (dict_get P v))")
      (auto simp: on_venue_def venue_ledger_def returning_def split: option.splits outcome.splits)
qed

text \<open>
  Venues do not influence each other. Whatever calls are made on the portfolio and
  whichever raise, the ledger of a venue is the one that the calls addressed to that venue
  alone would have left, so nothing is ever lent across venues.
\<close>

lemma venues_are_isolated:
  "dict_get (drive_ops exec_venue ops P) w =
     dict_get (drive_ops exec_venue (filter (\<lambda>op. op_venue op = w) ops) P) w"
proof -
  have "dict_get P w = dict_get Q w \<Longrightarrow>
      dict_get (drive_ops exec_venue ops P) w = dict_get (drive_ops exec_venue (filter (\<lambda>op. op_venue op = w) ops) Q) w" for Q
  proof (induction ops arbitrary: P Q)
    case (Cons op ops)
    note step = exec_venue_local [OF Cons.prems, of op]
    then show ?case using Cons.IH [OF step] by simp
  qed simp
  then show ?thesis by simp
qed

text \<open>A route is fundable only from its own venue, and consistent, fully marked ledgers reconcile.\<close>

lemma fundable_iff:
  "assert_route_fundable r asset quantity P = Inr () \<longleftrightarrow>
     (\<exists>v L. route_venue r = Inr v \<and> dict_get P v = Some L \<and> quantity \<le> get_or (sl_free L) asset 0)"
  by (auto simp: assert_route_fundable_def venue_ledger_def split: sum.splits option.splits)

lemma portfolio_reconciles:
  assumes "\<forall>L \<in> set (dict_values P). slot_inv k L \<and> set (keys (asset_totals L)) \<subseteq> set (keys (sl_marks L))"
  shows "portfolio_error P = None"
proof -
  have "ledgers_error Ls = None" if "\<forall>L \<in> set Ls. slot_inv k L" for Ls
    using that by (induction Ls) (auto simp: reconcile_succeeds)
  then have "ledgers_error (dict_values P) = None" using assms by blast
  moreover have "\<exists>es. venue_equities P = Inr es"
    using assms unfolding venue_equities_def by (induction P) (auto simp: slot_marked_equity_def Let_def)
  ultimately show ?thesis by (auto simp: portfolio_error_def global_marked_equity_def)
qed

end
