(* ===== verification/M034_Policy.thy ===== *)
theory M034_Policy
  imports Multi_Venue_Models Multi_Stable_Routing
begin

text \<open>
  The evidence and policy half of \<^verbatim>\<open>microstructure/economic_eligibility.py\<close>: thresholds with
  their provenance, the policy built from them, and the temporal registries of fees, exchange
  rules, asset marks and pairs from which the gate resolves its evidence. Constructors that
  validate are checks returning the exception; the SHA-256 fingerprints are parameters
  (\<open>digest\<close>), because they only identify a configuration.
\<close>

section \<open>Validation\<close>

definition ensure :: "bool \<Rightarrow> string \<Rightarrow> py_error + unit" where
  "ensure ok message = (if ok then Inr () else Inl (ValueError message))"

lemma ensure_Inr [simp]: "ensure ok message = Inr u \<longleftrightarrow> ok"
  by (simp add: ensure_def)

section \<open>Enumerations\<close>

datatype evaluation_mode = HISTORICAL_REPLAY | FORWARD | DEVELOPMENT_DIAGNOSTIC

datatype decision_intent = NEW_ENTRY_INTENT | OWNED_RETURN_INTENT | INVENTORY_REDUCTION_INTENT

datatype unknown_cost_policy = REJECT | CONSERVATIVE_BOUND

datatype safety_state = ACCEPTABLE | SAFETY_REJECTED | SAFETY_UNKNOWN

datatype allocation_state = ALLOCATED | PARTIALLY_ALLOCATED | NOTHING_ALLOCATED

datatype data_state = DATA_VALID | DATA_INVALID | DATA_UNKNOWN

datatype capital_use =
    ACTIVE_NEW_ENTRY
  | ACTIVE_OWNED_RETURN
  | LOCKED_INVENTORY
  | PENDING_CANCEL_ACK
  | IDLE_NO_ELIGIBLE_OPPORTUNITY
  | BLOCKED_DATA
  | BLOCKED_SAFETY

datatype threshold_source =
    OWNER_PREREGISTERED
  | EXTERNAL_ECONOMIC_RULE
  | TRAINING_DATA_ESTIMATE
  | SAFETY_BOUND
  | PROTOCOL_CONSTANT

datatype dataset_role = CALIBRATION | VALIDATION_OOS

datatype rule_evidence_status =
    RULE_PROVEN_HISTORICAL
  | RULE_PROVEN_FORWARD
  | RULE_OWNER_DIAGNOSTIC_ASSUMPTION
  | RULE_UNPROVEN

datatype (plugins only: code size) decision_reason =
    ELIGIBLE
  | EDGE_BELOW_MINIMUM
  | FEE_UNPROVEN
  | EXECUTION_COST_UNKNOWN
  | ADVERSE_SELECTION_UNKNOWN
  | ADVERSE_SELECTION_TOO_HIGH
  | COMPLETION_PROBABILITY_UNKNOWN
  | COMPLETION_PROBABILITY_TOO_LOW
  | EXPECTED_LOCK_UNKNOWN
  | EXPECTED_LOCK_TOO_HIGH
  | PEG_RISK
  | ABNORMAL_SPREAD
  | LIQUIDITY_COLLAPSE
  | COMPATIBLE_FLOW_COLLAPSE
  | DATA_GAP
  | UNKNOWN_MARKET_STATE
  | VENUE_DISABLED_FOR_ECONOMIC_EXECUTION
  | CAPITAL_UNAVAILABLE
  | OWNED_RETURN_PRIORITY
  | FIFO_SWITCHING_COST_TOO_HIGH
  | PRODUCTIVITY_NON_POSITIVE
  | NO_ELIGIBLE_OPPORTUNITY
  | CAPITAL_RESERVED_OWNED_RETURN
  | CAPITAL_LOCKED_INVENTORY
  | CAPITAL_PENDING_CANCEL_ACK
  | MARKET_SAFETY_BLOCK
  | DATA_INSUFFICIENT
  | PAIR_UNAVAILABLE
  | PAIR_EVIDENCE_UNPROVEN
  | EXCHANGE_RULE_UNPROVEN
  | EXCHANGE_RULE_VIOLATION
  | ORDER_CAPITAL_MISMATCH
  | THRESHOLD_NOT_EFFECTIVE
  | CURRENCY_MARK_UNPROVEN
  | TAIL_RISK_TOO_HIGH
  | INVENTORY_EXPOSURE_TOO_HIGH
  | NEGATIVE_EXIT_NOT_ALLOWED_COSMETIC
  | NEGATIVE_EXIT_RISK_RULE_TRIGGERED
  | INVENTORY_LOCK_EXCEEDED
  | PEG_RISK_ESCALATED
  | OPPORTUNITY_COST_EXCEEDED

section \<open>Thresholds\<close>

record execution_policy =
  xp_economic_venues :: "venue set"
  xp_policy_id :: string
  xp_policy_hash :: string
  xp_provenance :: string

definition check_execution_policy :: "execution_policy \<Rightarrow> py_error + unit" where
  "check_execution_policy x =
     (if xp_economic_venues x \<noteq> {BINANCE} then Inl (ValueError ''M034_ECONOMIC_EXECUTION_MUST_BE_BINANCE_ONLY'')
      else ensure (xp_policy_id x \<noteq> [] \<and> xp_policy_hash x \<noteq> [] \<and> xp_provenance x \<noteq> [])
             ''M034_UNPROVEN_EXECUTION_POLICY'')"

record threshold_definition =
  td_name :: string
  td_value :: decimal
  td_unit :: string
  td_source_type :: threshold_source
  td_source_reference :: string
  td_derivation_method :: string
  td_calibration_hash :: "string option"
  td_effective_from :: int
  td_frozen_at :: int

text \<open>A Python string or None is false when it is None or empty.\<close>

definition truthy :: "string option \<Rightarrow> bool" where
  "truthy s \<longleftrightarrow> s \<noteq> None \<and> s \<noteq> Some []"

definition check_threshold :: "threshold_definition \<Rightarrow> py_error + unit" where
  "check_threshold t =
     (if td_name t = [] \<or> td_unit t = [] \<or> td_source_reference t = [] \<or> td_derivation_method t = [] \<or>
         td_effective_from t < 0 \<or> td_frozen_at t < 0
      then Inl (ValueError ''M034_THRESHOLD_PROVENANCE_REQUIRED'')
      else ensure (td_source_type t = TRAINING_DATA_ESTIMATE \<longrightarrow> truthy (td_calibration_hash t))
             ''M034_CALIBRATION_HASH_REQUIRED'')"

record threshold_record =
  tc_definition :: threshold_definition
  tc_config_hash :: string

record threshold_registry =
  tg_config_hash :: string
  tg_records :: "threshold_record list"
  tg_by_name :: "(string, threshold_definition) dict"

definition required_thresholds :: "string list" where
  "required_thresholds =
     [''MIN_COMPLETION_PROBABILITY'', ''MAX_EXPECTED_LOCK_TIME'', ''RISK_BUFFER'', ''MAX_INVENTORY_EXPOSURE'',
      ''PEG_DEVIATION_THRESHOLD'', ''MIN_NET_EDGE'', ''TAIL_RISK_BOUND'', ''MAX_SPREAD'', ''MIN_DEPTH'',
      ''MIN_COMPATIBLE_FLOW'']"

definition optional_thresholds :: "string list" where
  "optional_thresholds = [''UNKNOWN_EXECUTION_COST_BOUND'', ''UNKNOWN_ADVERSE_SELECTION_BOUND'']"

text \<open>A dict comprehension keyed by a field: a later row replaces an earlier one in its place.\<close>

definition dict_by :: "('a \<Rightarrow> 'k) \<Rightarrow> 'a list \<Rightarrow> ('k, 'a) dict" where
  "dict_by key xs = foldl (\<lambda>d x. dict_set (key x) x d) [] xs"

definition new_threshold_registry ::
    "(threshold_definition list \<Rightarrow> string) \<Rightarrow> threshold_definition list \<Rightarrow> py_error + threshold_registry" where
  "new_threshold_registry digest definitions =
     (let by_name = dict_by td_name definitions
      in if length by_name \<noteq> length definitions \<or> \<not> set required_thresholds \<subseteq> set (keys by_name) \<or>
            \<not> set (keys by_name) \<subseteq> set (required_thresholds @ optional_thresholds)
         then Inl (ValueError ''M034_THRESHOLD_SET_INCOMPLETE_OR_DUPLICATE'')
         else
           let ordered = sort_key td_name definitions; h = digest ordered
           in Inr \<lparr>tg_config_hash = h,
                   tg_records = map (\<lambda>t. \<lparr>tc_definition = t, tc_config_hash = h\<rparr>) ordered,
                   tg_by_name = by_name\<rparr>)"

definition threshold_value :: "string \<Rightarrow> string \<Rightarrow> int option \<Rightarrow> threshold_registry \<Rightarrow> py_error + decimal" where
  "threshold_value name unit_name at_time T =
     (case dict_get (tg_by_name T) name of
        None \<Rightarrow> Inl (ValueError ''M034_THRESHOLD_MISSING'')
      | Some row \<Rightarrow>
          if td_unit row \<noteq> unit_name then Inl (ValueError ''M034_THRESHOLD_UNIT_MISMATCH'')
          else if (case at_time of None \<Rightarrow> False | Some t \<Rightarrow> t < td_effective_from row)
          then Inl (ValueError ''M034_THRESHOLD_NOT_EFFECTIVE'')
          else Inr (td_value row))"

definition validate_effective_at :: "int \<Rightarrow> threshold_registry \<Rightarrow> py_error + unit" where
  "validate_effective_at time_us T =
     ensure (\<not> (time_us < 0 \<or> (\<exists>row \<in> set (dict_values (tg_by_name T)). time_us < td_effective_from row)))
       ''M034_THRESHOLD_NOT_EFFECTIVE''"

type_synonym dataset_roles = "(string, dataset_role) dict"

definition register_dataset :: "string \<Rightarrow> dataset_role \<Rightarrow> dataset_roles \<Rightarrow> (unit, dataset_roles) outcome" where
  "register_dataset dataset_hash role roles =
     (if dataset_hash = [] then Raise (ValueError ''M034_DATASET_HASH_REQUIRED'') roles
      else case dict_get roles dataset_hash of
        Some previous \<Rightarrow>
          if previous \<noteq> role then Raise (ValueError ''M034_CALIBRATION_DATASET_CANNOT_BE_OOS'') roles
          else Return () (dict_set dataset_hash role roles)
      | None \<Rightarrow> Return () (dict_set dataset_hash role roles))"

section \<open>The policy\<close>

record m034_policy =
  mp_policy_id :: string
  mp_provenance :: string
  mp_thresholds :: threshold_registry
  mp_unknown_cost :: unknown_cost_policy

definition minimum_completion_probability :: "m034_policy \<Rightarrow> py_error + decimal" where
  "minimum_completion_probability p = threshold_value ''MIN_COMPLETION_PROBABILITY'' ''ratio'' None (mp_thresholds p)"

definition maximum_expected_lock_seconds :: "m034_policy \<Rightarrow> py_error + decimal" where
  "maximum_expected_lock_seconds p = threshold_value ''MAX_EXPECTED_LOCK_TIME'' ''seconds'' None (mp_thresholds p)"

definition maximum_peg_deviation :: "m034_policy \<Rightarrow> py_error + decimal" where
  "maximum_peg_deviation p = threshold_value ''PEG_DEVIATION_THRESHOLD'' ''ratio'' None (mp_thresholds p)"

definition maximum_spread_bps :: "m034_policy \<Rightarrow> py_error + decimal" where
  "maximum_spread_bps p = threshold_value ''MAX_SPREAD'' ''bps'' None (mp_thresholds p)"

definition minimum_depth_usd :: "m034_policy \<Rightarrow> py_error + decimal" where
  "minimum_depth_usd p = threshold_value ''MIN_DEPTH'' ''USD'' None (mp_thresholds p)"

definition minimum_compatible_flow :: "m034_policy \<Rightarrow> py_error + decimal" where
  "minimum_compatible_flow p = threshold_value ''MIN_COMPATIBLE_FLOW'' ''asset/second'' None (mp_thresholds p)"

definition risk_buffer_bps :: "m034_policy \<Rightarrow> py_error + decimal" where
  "risk_buffer_bps p = threshold_value ''RISK_BUFFER'' ''bps'' None (mp_thresholds p)"

definition maximum_inventory_exposure :: "m034_policy \<Rightarrow> py_error + decimal" where
  "maximum_inventory_exposure p = threshold_value ''MAX_INVENTORY_EXPOSURE'' ''USD'' None (mp_thresholds p)"

definition minimum_net_edge_bps :: "m034_policy \<Rightarrow> py_error + decimal" where
  "minimum_net_edge_bps p = threshold_value ''MIN_NET_EDGE'' ''bps'' None (mp_thresholds p)"

definition tail_risk_bound :: "m034_policy \<Rightarrow> py_error + decimal" where
  "tail_risk_bound p = threshold_value ''TAIL_RISK_BOUND'' ''USD'' None (mp_thresholds p)"

definition unknown_execution_cost_bound :: "m034_policy \<Rightarrow> py_error + decimal option" where
  "unknown_execution_cost_bound p =
     (if mp_unknown_cost p = REJECT then Inr None
      else on_ok (threshold_value ''UNKNOWN_EXECUTION_COST_BOUND'' ''bps'' None (mp_thresholds p)) (\<lambda>v. Inr (Some v)))"

definition unknown_adverse_selection_bound :: "m034_policy \<Rightarrow> py_error + decimal option" where
  "unknown_adverse_selection_bound p =
     (if mp_unknown_cost p = REJECT then Inr None
      else on_ok (threshold_value ''UNKNOWN_ADVERSE_SELECTION_BOUND'' ''bps'' None (mp_thresholds p)) (\<lambda>v. Inr (Some v)))"

definition check_policy :: "m034_policy \<Rightarrow> py_error + unit" where
  "check_policy p =
     (if mp_policy_id p = [] \<or> mp_provenance p = [] then Inl (ValueError ''M034_POLICY_PROVENANCE_REQUIRED'')
      else
        on_ok (minimum_completion_probability p) (\<lambda>completion.
        on_ok (ensure (0 \<le> completion \<and> completion \<le> 1) ''M034_INVALID_COMPLETION_THRESHOLD'') (\<lambda>_.
        on_ok (traverse (\<lambda>threshold. threshold p)
                 [maximum_expected_lock_seconds, maximum_peg_deviation, maximum_spread_bps, minimum_depth_usd,
                  minimum_compatible_flow, risk_buffer_bps, maximum_inventory_exposure, minimum_net_edge_bps,
                  tail_risk_bound]) (\<lambda>nonnegative.
        on_ok (ensure (\<forall>v \<in> set nonnegative. 0 \<le> v) ''M034_INVALID_POLICY_THRESHOLD'') (\<lambda>_.
        on_ok (maximum_expected_lock_seconds p) (\<lambda>lock.
        on_ok (ensure (lock \<noteq> 0) ''M034_INVALID_POLICY_THRESHOLD'') (\<lambda>_.
        on_ok (minimum_net_edge_bps p) (\<lambda>edge.
        on_ok (ensure (0 < edge) ''M034_MINIMUM_NET_EDGE_MUST_BE_POSITIVE'') (\<lambda>_.
        if mp_unknown_cost p = CONSERVATIVE_BOUND
        then on_ok (traverse (\<lambda>name. threshold_value name ''bps'' None (mp_thresholds p))
               [''UNKNOWN_EXECUTION_COST_BOUND'', ''UNKNOWN_ADVERSE_SELECTION_BOUND'']) (\<lambda>bounds.
             ensure (\<forall>v \<in> set bounds. 0 \<le> v) ''M034_INVALID_CONSERVATIVE_COST_BOUND'')
        else Inr ())))))))))"

definition config_hash :: "((string \<times> string) list \<Rightarrow> string) \<Rightarrow> m034_policy \<Rightarrow> string" where
  "config_hash digest p =
     digest [(''policy_id'', mp_policy_id p), (''provenance'', mp_provenance p),
             (''threshold_config_hash'', tg_config_hash (mp_thresholds p)),
             (''unknown_cost_policy'',
               case mp_unknown_cost p of REJECT \<Rightarrow> ''REJECT'' | CONSERVATIVE_BOUND \<Rightarrow> ''CONSERVATIVE_BOUND'')]"

section \<open>Temporal registries\<close>

text \<open>
  Each registry resolves a question at a time; the answer is None unless exactly one recorded
  row applies.
\<close>

definition the_only :: "'a list \<Rightarrow> 'a option" where
  "the_only xs = (case xs of [x] \<Rightarrow> Some x | _ \<Rightarrow> None)"

definition register :: "string \<Rightarrow> 'a \<Rightarrow> 'a list \<Rightarrow> (unit, 'a list) outcome" where
  "register message row rows = (if row \<in> set rows then Raise (ValueError message) rows else Return () (rows @ [row]))"

definition add_fee_profile ::
    "venue_fee_profile \<Rightarrow> venue_fee_profile list \<Rightarrow> (unit, venue_fee_profile list) outcome" where
  "add_fee_profile = register ''M034_DUPLICATE_FEE_PROFILE''"

definition allowed_fee_evidence :: "evaluation_mode \<Rightarrow> fee_evidence_status set" where
  "allowed_fee_evidence mode =
     (case mode of
        HISTORICAL_REPLAY \<Rightarrow> {PROVEN_HISTORICAL}
      | FORWARD \<Rightarrow> {PROVEN_FORWARD, ACCOUNT_SPECIFIC}
      | DEVELOPMENT_DIAGNOSTIC \<Rightarrow> {OWNER_DIAGNOSTIC_ASSUMPTION})"

definition fee_applies :: "book_key \<Rightarrow> int \<Rightarrow> evaluation_mode \<Rightarrow> string option \<Rightarrow> venue_fee_profile \<Rightarrow> bool" where
  "fee_applies book time_us mode account f \<longleftrightarrow>
     vf_book f = book \<and> \<not> outside_window (vf_effective_start f) (vf_effective_end f) time_us \<and>
     account = Some (vf_account_tier f) \<and> vf_evidence_status f \<in> allowed_fee_evidence mode \<and>
     vf_acquired_at f \<noteq> None \<and> truthy (vf_record_id f) \<and> truthy (vf_source_reference f) \<and>
     vf_provenance f \<noteq> [] \<and>
     (mode = FORWARD \<longrightarrow> (case vf_acquired_at f of None \<Rightarrow> False | Some t \<Rightarrow> t \<le> time_us))"

definition resolve_fee ::
    "book_key \<Rightarrow> int \<Rightarrow> evaluation_mode \<Rightarrow> string option \<Rightarrow> venue_fee_profile list \<Rightarrow> venue_fee_profile option" where
  "resolve_fee book time_us mode account rows = the_only (filter (fee_applies book time_us mode account) rows)"

record symbol_rule_record =
  rr_rule :: venue_symbol_rule
  rr_evidence_status :: rule_evidence_status
  rr_acquired_at :: int
  rr_record_id :: string
  rr_source_reference :: string

definition check_rule_record :: "symbol_rule_record \<Rightarrow> py_error + unit" where
  "check_rule_record r =
     ensure (\<not> (rr_acquired_at r < 0 \<or> rr_record_id r = [] \<or> rr_source_reference r = [] \<or> vr_provenance (rr_rule r) = []))
       ''M034_INVALID_RULE_EVIDENCE''"

definition add_rule_record ::
    "symbol_rule_record \<Rightarrow> symbol_rule_record list \<Rightarrow> (unit, symbol_rule_record list) outcome" where
  "add_rule_record = register ''M034_DUPLICATE_RULE_RECORD''"

definition allowed_rule_evidence :: "evaluation_mode \<Rightarrow> rule_evidence_status" where
  "allowed_rule_evidence mode =
     (case mode of
        HISTORICAL_REPLAY \<Rightarrow> RULE_PROVEN_HISTORICAL
      | FORWARD \<Rightarrow> RULE_PROVEN_FORWARD
      | DEVELOPMENT_DIAGNOSTIC \<Rightarrow> RULE_OWNER_DIAGNOSTIC_ASSUMPTION)"

definition rule_applies :: "book_key \<Rightarrow> int \<Rightarrow> evaluation_mode \<Rightarrow> symbol_rule_record \<Rightarrow> bool" where
  "rule_applies book time_us mode r \<longleftrightarrow>
     vr_book (rr_rule r) = book \<and> rr_evidence_status r = allowed_rule_evidence mode \<and>
     \<not> outside_window (vr_effective_start (rr_rule r)) (vr_effective_end (rr_rule r)) time_us \<and>
     (mode = FORWARD \<longrightarrow> rr_acquired_at r \<le> time_us)"

definition resolve_rule ::
    "book_key \<Rightarrow> int \<Rightarrow> evaluation_mode \<Rightarrow> symbol_rule_record list \<Rightarrow> symbol_rule_record option" where
  "resolve_rule book time_us mode rows = the_only (filter (rule_applies book time_us mode) rows)"

definition add_asset_mark ::
    "causal_asset_mark \<Rightarrow> causal_asset_mark list \<Rightarrow> (unit, causal_asset_mark list) outcome" where
  "add_asset_mark = register ''M034_DUPLICATE_CAUSAL_ASSET_MARK''"

definition mark_applies :: "string \<Rightarrow> string \<Rightarrow> int \<Rightarrow> causal_asset_mark \<Rightarrow> bool" where
  "mark_applies base_asset quote_asset time_us m \<longleftrightarrow>
     cam_base_asset m = base_asset \<and> cam_quote_asset m = quote_asset \<and>
     cam_observed_at m \<le> time_us \<and> time_us \<le> cam_effective_until m"

definition resolve_mark :: "string \<Rightarrow> string \<Rightarrow> int \<Rightarrow> causal_asset_mark list \<Rightarrow> causal_asset_mark option" where
  "resolve_mark base_asset quote_asset time_us rows =
     the_only (filter (mark_applies base_asset quote_asset time_us) rows)"

section \<open>The pair universe\<close>

record pair_evidence =
  pv_book :: book_key
  pv_available :: bool
  pv_data_proven :: bool
  pv_rules_proven :: bool
  pv_safety_acceptable :: bool
  pv_liquidity_acceptable :: bool
  pv_temporal_provenance :: string
  pv_effective_start :: int
  pv_effective_end :: "int option"

definition check_pair_evidence :: "pair_evidence \<Rightarrow> py_error + unit" where
  "check_pair_evidence e =
     ensure (\<not> (bk_venue (pv_book e) \<noteq> BINANCE \<or> pv_temporal_provenance e = [] \<or> pv_effective_start e < 0 \<or>
               ends_early (pv_effective_start e) (pv_effective_end e)))
       ''M034_INVALID_PAIR_EVIDENCE''"

definition pair_eligible :: "pair_evidence \<Rightarrow> bool" where
  "pair_eligible e \<longleftrightarrow>
     pv_available e \<and> pv_data_proven e \<and> pv_rules_proven e \<and> pv_safety_acceptable e \<and> pv_liquidity_acceptable e"

type_synonym pair_universe = "(book_key, pair_evidence) dict"

definition new_pair_universe :: "pair_evidence list \<Rightarrow> py_error + pair_universe" where
  "new_pair_universe evidence =
     (let rows = dict_by pv_book evidence
      in if length rows \<noteq> length evidence then Inl (ValueError ''M034_DUPLICATE_PAIR_EVIDENCE'')
         else if \<exists>row \<in> set evidence. bk_venue (pv_book row) \<noteq> BINANCE
         then Inl (ValueError ''M034_PAIR_UNIVERSE_MUST_BE_BINANCE_ONLY'')
         else Inr rows)"

definition resolve_pair :: "book_key \<Rightarrow> int \<Rightarrow> pair_universe \<Rightarrow> pair_evidence option" where
  "resolve_pair book time_us universe =
     (case dict_get universe book of
        None \<Rightarrow> None
      | Some row \<Rightarrow> if outside_window (pv_effective_start row) (pv_effective_end row) time_us then None else Some row)"

text \<open>Books are ordered by venue and symbol.\<close>

definition book_order :: "book_key \<Rightarrow> string \<times> string" where
  "book_order b = (venue_value (bk_venue b), bk_symbol b)"

definition available_books :: "pair_universe \<Rightarrow> book_key list" where
  "available_books universe = sort_key book_order (map fst (filter (\<lambda>p. pv_available (snd p)) universe))"

definition eligible_books :: "pair_universe \<Rightarrow> book_key list" where
  "eligible_books universe = sort_key book_order (map fst (filter (\<lambda>p. pair_eligible (snd p)) universe))"

section \<open>What a resolution proves\<close>

lemma the_only_Some: "the_only xs = Some x \<longleftrightarrow> xs = [x]"
  by (auto simp: the_only_def split: list.splits)

lemma keys_dict_by: "set (keys (dict_by key xs)) = key ` set xs" "distinct (keys (dict_by key xs))"
proof -
  have "set (keys (foldl (\<lambda>d x. dict_set (key x) x d) d xs)) = set (keys d) \<union> key ` set xs \<and>
        (distinct (keys d) \<longrightarrow> distinct (keys (foldl (\<lambda>d x. dict_set (key x) x d) d xs)))" for d
    by (induction xs arbitrary: d) auto
  from this [of "[]"] show "set (keys (dict_by key xs)) = key ` set xs" "distinct (keys (dict_by key xs))"
    by (simp_all add: dict_by_def)
qed

lemma dict_by_distinct: "distinct (map key xs) \<Longrightarrow> dict_by key xs = map (\<lambda>x. (key x, x)) xs"
proof -
  have "distinct (keys d @ map key xs) \<Longrightarrow>
      foldl (\<lambda>d x. dict_set (key x) x d) d xs = d @ map (\<lambda>x. (key x, x)) xs" for d
    by (induction xs arbitrary: d) (auto simp: set_new_key)
  from this [of "[]"] show "distinct (map key xs) \<Longrightarrow> dict_by key xs = map (\<lambda>x. (key x, x)) xs"
    by (simp add: dict_by_def)
qed

lemma length_dict_by: "length (dict_by key xs) = length xs \<longleftrightarrow> distinct (map key xs)"
proof -
  have "length (dict_by key xs) = card (set (keys (dict_by key xs)))"
    using keys_dict_by(2) [of key xs] distinct_card [of "keys (dict_by key xs)"] by simp
  also have "\<dots> = card (set (map key xs))" by (simp only: keys_dict_by(1)) simp
  finally show ?thesis using card_distinct [of "map key xs"] distinct_card [of "map key xs"] by auto
qed

end
