(* ===== verification/M034_Gate.thy ===== *)
theory M034_Gate
  imports M034_Policy
begin

text \<open>
  The admission gate of \<^verbatim>\<open>microstructure/economic_eligibility.py\<close>: the candidate with the
  checks of its constructor, the market safety gate, and \<^verbatim>\<open>EconomicEligibilityGate.evaluate\<close>,
  which collects the reasons against a candidate in the order of the code.
\<close>

section \<open>Candidates\<close>

record fee_leg =
  fl_book :: book_key
  fl_maker :: bool
  fl_from :: string
  fl_to :: string
  fl_side :: string
  fl_price :: decimal
  fl_quantity :: decimal

definition check_fee_leg :: "fee_leg \<Rightarrow> py_error + unit" where
  "check_fee_leg leg =
     ensure (\<not> (fl_from leg = [] \<or> fl_to leg = [] \<or> fl_from leg = fl_to leg \<or>
               fl_side leg \<notin> {''BUY'', ''SELL''} \<or> fl_price leg \<le> 0 \<or> fl_quantity leg \<le> 0))
       ''M034_INVALID_ROUTE_ORDER_LEG''"

record market_snapshot =
  ms_observed_at :: int
  ms_regime :: string
  ms_peg_deviation :: "decimal option"
  ms_spread_bps :: "decimal option"
  ms_depth_usd :: "decimal option"
  ms_flow :: "decimal option"
  ms_data_gap :: bool

definition negative :: "decimal option \<Rightarrow> bool" where
  "negative v \<longleftrightarrow> (case v of None \<Rightarrow> False | Some x \<Rightarrow> x < 0)"

definition check_market :: "market_snapshot \<Rightarrow> py_error + unit" where
  "check_market m =
     ensure (\<not> (ms_observed_at m < 0 \<or> ms_regime m = [] \<or>
               (\<exists>v \<in> set [ms_spread_bps m, ms_depth_usd m, ms_flow m]. negative v)))
       ''M034_INVALID_MARKET_REGIME_SNAPSHOT''"

record economic_candidate =
  ec_id :: string
  ec_venue :: venue
  ec_pair :: book_key
  ec_side :: string
  ec_rank :: int
  ec_column :: int
  ec_route_id :: string
  ec_route :: venue_route
  ec_inventory_state :: string
  ec_intent :: decision_intent
  ec_priority :: int
  ec_currency :: string
  ec_time :: int
  ec_gross_edge :: decimal
  ec_execution_cost :: "decimal option"
  ec_adverse_selection :: "decimal option"
  ec_completion :: "decimal option"
  ec_lock_seconds :: "decimal option"
  ec_p95_lock :: "decimal option"
  ec_capital :: decimal
  ec_residual_cost :: decimal
  ec_tail_risk :: decimal
  ec_carry_cost :: decimal
  ec_legs :: "fee_leg list"
  ec_market :: market_snapshot
  ec_data_state :: data_state
  ec_account :: "string option"

definition leg_matches :: "venue_route_leg \<Rightarrow> fee_leg \<Rightarrow> bool" where
  "leg_matches g leg \<longleftrightarrow>
     vg_book g = fl_book leg \<and> vg_from g = fl_from leg \<and> vg_to g = fl_to leg \<and> vg_maker g = fl_maker leg"

definition check_candidate :: "economic_candidate \<Rightarrow> py_error + unit" where
  "check_candidate c =
     on_ok (route_venue (ec_route c)) (\<lambda>venue_of_route.
     on_ok (ensure (bk_venue (ec_pair c) = ec_venue c \<and> venue_of_route = ec_venue c \<and>
                   (\<forall>leg \<in> set (ec_legs c). bk_venue (fl_book leg) = ec_venue c))
              ''M034_CANDIDATE_VENUE_IDENTITY_MISMATCH'') (\<lambda>_.
     on_ok (ensure (ec_legs c \<noteq> [] \<and> ec_route_id c = vt_route_id (ec_route c) \<and>
                   ec_pair c = vg_book (hd (vt_legs (ec_route c))) \<and>
                   length (vt_legs (ec_route c)) = length (ec_legs c) \<and>
                   list_all2 leg_matches (vt_legs (ec_route c)) (ec_legs c) \<and>
                   ec_side c = fl_side (hd (ec_legs c)))
              ''M034_CANDIDATE_ROUTE_IDENTITY_MISMATCH'') (\<lambda>_.
     on_ok (ensure (ec_side c \<in> {''BUY'', ''SELL''} \<and> ec_rank c \<in> {1..<8} \<and> ec_column c \<in> {1, 2})
              ''M034_INVALID_GEOMETRY_OR_SIDE'') (\<lambda>_.
     on_ok (ensure (ms_observed_at (ec_market c) \<le> ec_time c) ''M034_FUTURE_MARKET_SNAPSHOT'') (\<lambda>_.
     on_ok (ensure (ec_id c \<noteq> [] \<and> ec_route_id c \<noteq> [] \<and> ec_inventory_state c \<noteq> [] \<and> ec_currency c \<noteq> [] \<and>
                   0 \<le> ec_time c \<and> 0 < ec_capital c \<and> 0 \<le> ec_gross_edge c)
              ''M034_INVALID_CANDIDATE_CAPITAL_OR_EDGE'') (\<lambda>_.
     on_ok (ensure (case ec_completion c of None \<Rightarrow> True | Some v \<Rightarrow> 0 \<le> v \<and> v \<le> 1)
              ''M034_COMPLETION_PROBABILITY_OUT_OF_RANGE'') (\<lambda>_.
     on_ok (ensure (case ec_lock_seconds c of None \<Rightarrow> True | Some v \<Rightarrow> 0 < v) ''M034_INVALID_EXPECTED_LOCK'') (\<lambda>_.
     on_ok (ensure (\<not> negative (ec_p95_lock c)) ''M034_INVALID_P95_LOCK'') (\<lambda>_.
     on_ok (ensure (\<not> negative (ec_execution_cost c) \<and> \<not> negative (ec_adverse_selection c))
              ''M034_NEGATIVE_ECONOMIC_COST'') (\<lambda>_.
     on_ok (ensure (0 \<le> ec_residual_cost c \<and> 0 \<le> ec_tail_risk c \<and> 0 \<le> ec_carry_cost c)
              ''M034_NEGATIVE_CANDIDATE_COST'') (\<lambda>_.
     on_ok (ensure (ec_intent c = OWNED_RETURN_INTENT \<longrightarrow> ec_priority c = 1)
              ''M034_OWNED_RETURN_MUST_HAVE_PRIORITY_ONE'') (\<lambda>_.
     ensure (ec_intent c = NEW_ENTRY_INTENT \<longrightarrow> ec_priority c \<noteq> 1)
       ''M034_NEW_ENTRY_CANNOT_HAVE_OBLIGATION_PRIORITY''))))))))))))"

section \<open>Market safety\<close>

record market_assessment =
  ma_state :: safety_state
  ma_reasons :: "decision_reason list"

definition assess :: "market_snapshot \<Rightarrow> m034_policy \<Rightarrow> py_error + market_assessment" where
  "assess m p =
     (if ms_data_gap m then Inr \<lparr>ma_state = SAFETY_REJECTED, ma_reasons = [DATA_GAP]\<rparr>
      else case (ms_peg_deviation m, ms_spread_bps m, ms_depth_usd m, ms_flow m) of
        (Some peg, Some spread, Some depth, Some flow) \<Rightarrow>
          on_ok (maximum_peg_deviation p) (\<lambda>peg_bound.
          on_ok (maximum_spread_bps p) (\<lambda>spread_bound.
          on_ok (minimum_depth_usd p) (\<lambda>depth_bound.
          on_ok (minimum_compatible_flow p) (\<lambda>flow_bound.
            let reasons = (if peg_bound < dabs peg then [PEG_RISK] else []) @
                          (if spread_bound < spread then [ABNORMAL_SPREAD] else []) @
                          (if depth < depth_bound then [LIQUIDITY_COLLAPSE] else []) @
                          (if flow < flow_bound then [COMPATIBLE_FLOW_COLLAPSE] else [])
            in Inr \<lparr>ma_state = (if reasons = [] then ACCEPTABLE else SAFETY_REJECTED), ma_reasons = reasons\<rparr>))))
      | _ \<Rightarrow> Inr \<lparr>ma_state = SAFETY_UNKNOWN, ma_reasons = [UNKNOWN_MARKET_STATE]\<rparr>)"

section \<open>The gate\<close>

record eligibility_gate =
  eg_execution_policy :: execution_policy
  eg_policy :: m034_policy
  eg_fees :: "venue_fee_profile list"
  eg_rules :: "symbol_rule_record list"
  eg_pairs :: pair_universe
  eg_marks :: "causal_asset_mark list"

record eligibility_decision =
  ed_id :: string
  ed_time :: int
  ed_candidate :: string
  ed_venue :: venue
  ed_pair :: book_key
  ed_side :: string
  ed_rank :: int
  ed_column :: int
  ed_route_id :: string
  ed_intent :: decision_intent
  ed_currency :: string
  ed_usd_rate :: "decimal option"
  ed_usd_mark :: "string option"
  ed_gross_edge :: decimal
  ed_known_fees :: "decimal option"
  ed_execution_cost :: "decimal option"
  ed_adverse_selection :: "decimal option"
  ed_risk_buffer :: decimal
  ed_net_edge :: "decimal option"
  ed_completion :: "decimal option"
  ed_lock_seconds :: "decimal option"
  ed_p95_lock :: "decimal option"
  ed_carry_cost :: decimal
  ed_tail_risk :: decimal
  ed_fee_status :: fee_evidence_status
  ed_regime :: string
  ed_safety :: safety_state
  ed_data_state :: data_state
  ed_eligible :: bool
  ed_slots :: nat
  ed_productivity :: "decimal option"
  ed_reasons :: "decision_reason list"
  ed_policy_hash :: string
  ed_threshold_hash :: string

definition pair_reasons :: "fee_leg \<Rightarrow> int \<Rightarrow> pair_universe \<Rightarrow> decision_reason list" where
  "pair_reasons leg now universe =
     (case resolve_pair (fl_book leg) now universe of
        None \<Rightarrow> [PAIR_UNAVAILABLE]
      | Some e \<Rightarrow> if \<not> pv_available e then [PAIR_UNAVAILABLE]
                  else if \<not> pair_eligible e then [PAIR_EVIDENCE_UNPROVEN] else [])"

text \<open>A BUY spends the quote asset, any other side the base asset.\<close>

definition expected_assets :: "fee_leg \<Rightarrow> venue_symbol_rule \<Rightarrow> string \<times> string" where
  "expected_assets leg r =
     (if fl_side leg = ''BUY'' then (vr_quote_asset r, vr_base_asset r) else (vr_base_asset r, vr_quote_asset r))"

text \<open>Only a \<^verbatim>\<open>ValueError\<close> of the rule is caught.\<close>

definition rule_reasons ::
    "fee_leg \<Rightarrow> int \<Rightarrow> evaluation_mode \<Rightarrow> symbol_rule_record list \<Rightarrow> py_error + decision_reason list" where
  "rule_reasons leg now mode rules =
     (case resolve_rule (fl_book leg) now mode rules of
        None \<Rightarrow> Inr [EXCHANGE_RULE_UNPROVEN]
      | Some r \<Rightarrow>
          (case validate_venue_order (fl_price leg) (fl_quantity leg) now (rr_rule r) of
             Inl (ValueError _) \<Rightarrow> Inr [EXCHANGE_RULE_VIOLATION]
           | Inl e \<Rightarrow> Inl e
           | Inr _ \<Rightarrow> Inr (if (fl_from leg, fl_to leg) \<noteq> expected_assets leg (rr_rule r)
                          then [EXCHANGE_RULE_VIOLATION] else [])))"

definition leg_profile ::
    "fee_leg \<Rightarrow> economic_candidate \<Rightarrow> evaluation_mode \<Rightarrow> venue_fee_profile list \<Rightarrow> venue_fee_profile option" where
  "leg_profile leg c mode fees =
     (case resolve_fee (fl_book leg) (ec_time c) mode (ec_account c) fees of
        None \<Rightarrow> None
      | Some f \<Rightarrow> if vf_fee_asset_semantics f \<in> {''RECEIVED_ASSET'', ''SPENT_ASSET''} then Some f else None)"

text \<open>One pass of the loop over the legs: the reasons it adds and the profile it appends.\<close>

definition judge_leg ::
    "eligibility_gate \<Rightarrow> evaluation_mode \<Rightarrow> economic_candidate \<Rightarrow> fee_leg \<Rightarrow>
     py_error + decision_reason list \<times> venue_fee_profile list" where
  "judge_leg G mode c leg =
     on_ok (rule_reasons leg (ec_time c) mode (eg_rules G)) (\<lambda>rule.
       let pair = pair_reasons leg (ec_time c) (eg_pairs G)
       in case leg_profile leg c mode (eg_fees G) of
            None \<Rightarrow> Inr (pair @ rule @ [FEE_UNPROVEN], [])
          | Some f \<Rightarrow> Inr (pair @ rule, [f]))"

definition required_input :: "fee_leg \<Rightarrow> venue_fee_profile \<Rightarrow> int \<Rightarrow> py_error + decimal" where
  "required_input leg f now =
     (let required = (if fl_side leg = ''BUY'' then dmul (fl_price leg) (fl_quantity leg) else fl_quantity leg)
      in if vf_fee_asset_semantics f = ''SPENT_ASSET''
         then on_ok (venue_fee_rate (fl_maker leg) now f) (\<lambda>rate. Inr (dmul required (dadd 1 rate)))
         else Inr required)"

definition funding_reasons :: "economic_candidate \<Rightarrow> venue_fee_profile list \<Rightarrow> py_error + decision_reason list" where
  "funding_reasons c profiles =
     (if length profiles \<noteq> length (ec_legs c) then Inr []
      else case (ec_legs c, profiles) of
        (leg # _, f # _) \<Rightarrow>
          on_ok (required_input leg f (ec_time c)) (\<lambda>required.
            Inr (if fl_from leg \<noteq> ec_currency c \<or> ec_capital c < required then [ORDER_CAPITAL_MISMATCH] else []))
      | _ \<Rightarrow> Inl IndexError)"

definition known_fees :: "economic_candidate \<Rightarrow> venue_fee_profile list \<Rightarrow> py_error + decimal option" where
  "known_fees c profiles =
     (if length profiles \<noteq> length (ec_legs c) then Inr None
      else on_ok (traverse (\<lambda>(f, leg). venue_fee_rate (fl_maker leg) (ec_time c) f) (zip profiles (ec_legs c)))
             (\<lambda>rates. Inr (Some (dsum (map (\<lambda>rate. dmul rate 10000) rates)))))"

definition fee_status :: "economic_candidate \<Rightarrow> venue_fee_profile list \<Rightarrow> fee_evidence_status" where
  "fee_status c profiles =
     (let statuses = set (map vf_evidence_status profiles)
      in if length profiles \<noteq> length (ec_legs c) then UNPROVEN
         else if ACCOUNT_SPECIFIC \<in> statuses then ACCOUNT_SPECIFIC
         else if PROVEN_FORWARD \<in> statuses then PROVEN_FORWARD
         else if OWNER_DIAGNOSTIC_ASSUMPTION \<in> statuses then OWNER_DIAGNOSTIC_ASSUMPTION
         else PROVEN_HISTORICAL)"

text \<open>An unknown cost is replaced by the conservative bound, or is a reason against the candidate.\<close>

definition bounded_cost ::
    "decimal option \<Rightarrow> (m034_policy \<Rightarrow> py_error + decimal option) \<Rightarrow> decision_reason \<Rightarrow> m034_policy \<Rightarrow>
     py_error + decimal option \<times> decision_reason list" where
  "bounded_cost cost bound reason p =
     (case cost of
        Some v \<Rightarrow> Inr (Some v, [])
      | None \<Rightarrow> if mp_unknown_cost p = CONSERVATIVE_BOUND then on_ok (bound p) (\<lambda>v. Inr (v, []))
                else Inr (None, [reason]))"

definition completion_reasons :: "economic_candidate \<Rightarrow> m034_policy \<Rightarrow> py_error + decision_reason list" where
  "completion_reasons c p =
     (case ec_completion c of
        None \<Rightarrow> Inr [COMPLETION_PROBABILITY_UNKNOWN]
      | Some v \<Rightarrow> on_ok (minimum_completion_probability p) (\<lambda>bound.
          Inr (if v < bound then [COMPLETION_PROBABILITY_TOO_LOW] else [])))"

definition lock_reasons :: "economic_candidate \<Rightarrow> m034_policy \<Rightarrow> py_error + decision_reason list" where
  "lock_reasons c p =
     (case ec_lock_seconds c of
        None \<Rightarrow> Inr [EXPECTED_LOCK_UNKNOWN]
      | Some v \<Rightarrow> on_ok (maximum_expected_lock_seconds p) (\<lambda>bound.
          Inr (if bound < v then [EXPECTED_LOCK_TOO_HIGH] else [])))"

definition net_edge ::
    "economic_candidate \<Rightarrow> decimal option \<Rightarrow> decimal option \<Rightarrow> decimal option \<Rightarrow> m034_policy \<Rightarrow>
     py_error + decimal option \<times> decision_reason list" where
  "net_edge c fees execution adverse p =
     (case (fees, execution, adverse) of
        (Some f, Some e, Some a) \<Rightarrow>
          on_ok (risk_buffer_bps p) (\<lambda>buffer.
          on_ok (minimum_net_edge_bps p) (\<lambda>minimum.
            let edge = dsub (dsub (dsub (dsub (ec_gross_edge c) f) e) a) buffer
            in Inr (Some edge, if edge < minimum then [EDGE_BELOW_MINIMUM] else [])))
      | _ \<Rightarrow> Inr (None, []))"

definition exposure_reasons ::
    "economic_candidate \<Rightarrow> causal_asset_mark option \<Rightarrow> m034_policy \<Rightarrow> py_error + decision_reason list" where
  "exposure_reasons c usd p =
     (case usd of
        None \<Rightarrow> Inr []
      | Some m \<Rightarrow>
          on_ok (maximum_inventory_exposure p) (\<lambda>exposure.
          on_ok (tail_risk_bound p) (\<lambda>tail.
            Inr ((if exposure < dmul (ec_capital c) (cam_rate m) then [INVENTORY_EXPOSURE_TOO_HIGH] else []) @
                 (if tail < dmul (ec_tail_risk c) (cam_rate m) then [TAIL_RISK_TOO_HIGH] else [])))))"

text \<open>The format of an integer in an f-string.\<close>

definition int_string :: "int \<Rightarrow> string" where
  "int_string i = (if i < 0 then ''-'' @ dec_string (nat (- i)) else dec_string (nat i))"

definition opening_reasons :: "eligibility_gate \<Rightarrow> economic_candidate \<Rightarrow> causal_asset_mark option \<Rightarrow> decision_reason list" where
  "opening_reasons G c usd =
     (case validate_effective_at (ec_time c) (mp_thresholds (eg_policy G)) of
        Inl _ \<Rightarrow> [THRESHOLD_NOT_EFFECTIVE] | Inr _ \<Rightarrow> []) @
     (if ec_venue c \<notin> xp_economic_venues (eg_execution_policy G) then [VENUE_DISABLED_FOR_ECONOMIC_EXECUTION] else []) @
     (if ec_data_state c \<noteq> DATA_VALID then [DATA_INSUFFICIENT] else []) @
     (if usd = None then [CURRENCY_MARK_UNPROVEN] else [])"

definition market_reasons :: "market_assessment \<Rightarrow> decision_reason list" where
  "market_reasons safety =
     ma_reasons safety @ (if ma_state safety \<noteq> ACCEPTABLE then [MARKET_SAFETY_BLOCK] else [])"

text \<open>The decision record, once the collected reasons have been deduplicated.\<close>

definition decision_of ::
    "((string \<times> string) list \<Rightarrow> string) \<Rightarrow> m034_policy \<Rightarrow> economic_candidate \<Rightarrow> causal_asset_mark option \<Rightarrow>
     venue_fee_profile list \<Rightarrow> decimal option \<Rightarrow> decimal option \<Rightarrow> decimal option \<Rightarrow> safety_state \<Rightarrow>
     decimal option \<Rightarrow> decimal \<Rightarrow> decision_reason list \<Rightarrow> eligibility_decision" where
  "decision_of digest p c usd profiles fees execution adverse safety edge buffer reasons =
     \<lparr>ed_id = int_string (ec_time c) @ '':'' @ ec_id c, ed_time = ec_time c, ed_candidate = ec_id c,
      ed_venue = ec_venue c, ed_pair = ec_pair c, ed_side = ec_side c, ed_rank = ec_rank c,
      ed_column = ec_column c, ed_route_id = ec_route_id c, ed_intent = ec_intent c,
      ed_currency = ec_currency c, ed_usd_rate = map_option cam_rate usd,
      ed_usd_mark = map_option cam_record_id usd, ed_gross_edge = ec_gross_edge c,
      ed_known_fees = fees, ed_execution_cost = execution, ed_adverse_selection = adverse,
      ed_risk_buffer = buffer, ed_net_edge = edge, ed_completion = ec_completion c,
      ed_lock_seconds = ec_lock_seconds c, ed_p95_lock = ec_p95_lock c, ed_carry_cost = ec_carry_cost c,
      ed_tail_risk = ec_tail_risk c, ed_fee_status = fee_status c profiles,
      ed_regime = ms_regime (ec_market c), ed_safety = safety, ed_data_state = ec_data_state c,
      ed_eligible = (reasons = []), ed_slots = 0, ed_productivity = None,
      ed_reasons = (if reasons = [] then [ELIGIBLE] else reasons),
      ed_policy_hash = config_hash digest p, ed_threshold_hash = tg_config_hash (mp_thresholds p)\<rparr>"

definition evaluate ::
    "((string \<times> string) list \<Rightarrow> string) \<Rightarrow> eligibility_gate \<Rightarrow> evaluation_mode \<Rightarrow> economic_candidate \<Rightarrow>
     py_error + eligibility_decision" where
  "evaluate digest G mode c =
     (let p = eg_policy G; usd = resolve_mark (ec_currency c) ''USD'' (ec_time c) (eg_marks G) in
        on_ok (traverse (judge_leg G mode c) (ec_legs c)) (\<lambda>judged.
        let profiles = concat (map snd judged) in
        on_ok (funding_reasons c profiles) (\<lambda>funding.
        on_ok (known_fees c profiles) (\<lambda>fees.
        on_ok (bounded_cost (ec_execution_cost c) unknown_execution_cost_bound EXECUTION_COST_UNKNOWN p) (\<lambda>execution.
        on_ok (bounded_cost (ec_adverse_selection c) unknown_adverse_selection_bound ADVERSE_SELECTION_UNKNOWN p) (\<lambda>adverse.
        on_ok (assess (ec_market c) p) (\<lambda>safety.
        on_ok (completion_reasons c p) (\<lambda>completion.
        on_ok (lock_reasons c p) (\<lambda>lock.
        on_ok (net_edge c fees (fst execution) (fst adverse) p) (\<lambda>edge.
        on_ok (exposure_reasons c usd p) (\<lambda>exposure.
        on_ok (risk_buffer_bps p) (\<lambda>buffer.
          Inr (decision_of digest p c usd profiles fees (fst execution) (fst adverse) (ma_state safety) (fst edge) buffer
            (fromkeys (opening_reasons G c usd @ concat (map fst judged) @ funding @ snd execution @ snd adverse @
               market_reasons safety @ completion @ lock @ snd edge @ exposure)))))))))))))))"

end
