(* ===== verification/M034_Allocation.thy ===== *)
theory M034_Allocation
  imports M034_Gate Multi_Stable_Manager
begin

text \<open>
  The rest of \<^verbatim>\<open>microstructure/economic_eligibility.py\<close>: the decision ledger, the engine that
  passes candidates through gate, scorer and allocator and accounts for the available capital,
  the adverse-selection estimator, the queue value, the reallocation decision and the exit of
  inventory at a loss.
\<close>

section \<open>The decision ledger\<close>

record capital_state_record =
  ks_time :: int
  ks_use :: capital_use
  ks_capital :: decimal
  ks_currency :: string
  ks_reason :: decision_reason

definition check_capital_state :: "capital_state_record \<Rightarrow> py_error + unit" where
  "check_capital_state r =
     ensure (\<not> (ks_time r < 0 \<or> ks_capital r < 0 \<or> ks_currency r = [])) ''M034_INVALID_CAPITAL_STATE''"

record decision_ledger =
  dl_decisions :: "eligibility_decision list"
  dl_ids :: "string set"
  dl_states :: "capital_state_record list"

definition new_decision_ledger :: decision_ledger where
  "new_decision_ledger = \<lparr>dl_decisions = [], dl_ids = {}, dl_states = []\<rparr>"

definition append_decision :: "eligibility_decision \<Rightarrow> decision_ledger \<Rightarrow> (unit, decision_ledger) outcome" where
  "append_decision d L =
     (if ed_reasons d = [] then Raise (ValueError ''M034_DECISION_REASON_REQUIRED'') L
      else if ed_id d \<in> dl_ids L then Raise (ValueError ''M034_DUPLICATE_ELIGIBILITY_DECISION'') L
      else Return () (L\<lparr>dl_ids := insert (ed_id d) (dl_ids L), dl_decisions := dl_decisions L @ [d]\<rparr>))"

definition append_capital_state :: "capital_state_record \<Rightarrow> decision_ledger \<Rightarrow> (unit, decision_ledger) outcome" where
  "append_capital_state r L =
     (if dl_states L \<noteq> [] \<and> ks_time r < ks_time (last (dl_states L))
      then Raise (ValueError ''M034_NONCAUSAL_CAPITAL_STATE'') L
      else Return () (L\<lparr>dl_states := dl_states L @ [r]\<rparr>))"

text \<open>The value of a reason code is its name.\<close>

definition reason_value :: "decision_reason \<Rightarrow> string" where
  "reason_value r = (case r of
     ELIGIBLE \<Rightarrow> ''ELIGIBLE'' | EDGE_BELOW_MINIMUM \<Rightarrow> ''EDGE_BELOW_MINIMUM'' | FEE_UNPROVEN \<Rightarrow> ''FEE_UNPROVEN''
   | EXECUTION_COST_UNKNOWN \<Rightarrow> ''EXECUTION_COST_UNKNOWN'' | ADVERSE_SELECTION_UNKNOWN \<Rightarrow> ''ADVERSE_SELECTION_UNKNOWN''
   | ADVERSE_SELECTION_TOO_HIGH \<Rightarrow> ''ADVERSE_SELECTION_TOO_HIGH''
   | COMPLETION_PROBABILITY_UNKNOWN \<Rightarrow> ''COMPLETION_PROBABILITY_UNKNOWN''
   | COMPLETION_PROBABILITY_TOO_LOW \<Rightarrow> ''COMPLETION_PROBABILITY_TOO_LOW''
   | EXPECTED_LOCK_UNKNOWN \<Rightarrow> ''EXPECTED_LOCK_UNKNOWN'' | EXPECTED_LOCK_TOO_HIGH \<Rightarrow> ''EXPECTED_LOCK_TOO_HIGH''
   | PEG_RISK \<Rightarrow> ''PEG_RISK'' | ABNORMAL_SPREAD \<Rightarrow> ''ABNORMAL_SPREAD'' | LIQUIDITY_COLLAPSE \<Rightarrow> ''LIQUIDITY_COLLAPSE''
   | COMPATIBLE_FLOW_COLLAPSE \<Rightarrow> ''COMPATIBLE_FLOW_COLLAPSE'' | DATA_GAP \<Rightarrow> ''DATA_GAP''
   | UNKNOWN_MARKET_STATE \<Rightarrow> ''UNKNOWN_MARKET_STATE''
   | VENUE_DISABLED_FOR_ECONOMIC_EXECUTION \<Rightarrow> ''VENUE_DISABLED_FOR_ECONOMIC_EXECUTION''
   | CAPITAL_UNAVAILABLE \<Rightarrow> ''CAPITAL_UNAVAILABLE'' | OWNED_RETURN_PRIORITY \<Rightarrow> ''OWNED_RETURN_PRIORITY''
   | FIFO_SWITCHING_COST_TOO_HIGH \<Rightarrow> ''FIFO_SWITCHING_COST_TOO_HIGH''
   | PRODUCTIVITY_NON_POSITIVE \<Rightarrow> ''PRODUCTIVITY_NON_POSITIVE'' | NO_ELIGIBLE_OPPORTUNITY \<Rightarrow> ''NO_ELIGIBLE_OPPORTUNITY''
   | CAPITAL_RESERVED_OWNED_RETURN \<Rightarrow> ''CAPITAL_RESERVED_OWNED_RETURN''
   | CAPITAL_LOCKED_INVENTORY \<Rightarrow> ''CAPITAL_LOCKED_INVENTORY''
   | CAPITAL_PENDING_CANCEL_ACK \<Rightarrow> ''CAPITAL_PENDING_CANCEL_ACK'' | MARKET_SAFETY_BLOCK \<Rightarrow> ''MARKET_SAFETY_BLOCK''
   | DATA_INSUFFICIENT \<Rightarrow> ''DATA_INSUFFICIENT'' | PAIR_UNAVAILABLE \<Rightarrow> ''PAIR_UNAVAILABLE''
   | PAIR_EVIDENCE_UNPROVEN \<Rightarrow> ''PAIR_EVIDENCE_UNPROVEN'' | EXCHANGE_RULE_UNPROVEN \<Rightarrow> ''EXCHANGE_RULE_UNPROVEN''
   | EXCHANGE_RULE_VIOLATION \<Rightarrow> ''EXCHANGE_RULE_VIOLATION'' | ORDER_CAPITAL_MISMATCH \<Rightarrow> ''ORDER_CAPITAL_MISMATCH''
   | THRESHOLD_NOT_EFFECTIVE \<Rightarrow> ''THRESHOLD_NOT_EFFECTIVE'' | CURRENCY_MARK_UNPROVEN \<Rightarrow> ''CURRENCY_MARK_UNPROVEN''
   | TAIL_RISK_TOO_HIGH \<Rightarrow> ''TAIL_RISK_TOO_HIGH'' | INVENTORY_EXPOSURE_TOO_HIGH \<Rightarrow> ''INVENTORY_EXPOSURE_TOO_HIGH''
   | NEGATIVE_EXIT_NOT_ALLOWED_COSMETIC \<Rightarrow> ''NEGATIVE_EXIT_NOT_ALLOWED_COSMETIC''
   | NEGATIVE_EXIT_RISK_RULE_TRIGGERED \<Rightarrow> ''NEGATIVE_EXIT_RISK_RULE_TRIGGERED''
   | INVENTORY_LOCK_EXCEEDED \<Rightarrow> ''INVENTORY_LOCK_EXCEEDED'' | PEG_RISK_ESCALATED \<Rightarrow> ''PEG_RISK_ESCALATED''
   | OPPORTUNITY_COST_EXCEEDED \<Rightarrow> ''OPPORTUNITY_COST_EXCEEDED'')"

record decision_metrics =
  dm_accepted :: nat
  dm_rejected :: nat
  dm_slots :: nat
  dm_dormant :: nat
  dm_rejections :: "(string, nat) dict"
  dm_capital_events :: nat
  dm_idle_events :: nat

text \<open>\<^verbatim>\<open>dict(sorted(Counter(values).items()))\<close>: distinct values in order, with their multiplicity.\<close>

definition sorted_counts :: "string list \<Rightarrow> (string, nat) dict" where
  "sorted_counts vs = map (\<lambda>v. (v, length (filter (\<lambda>w. w = v) vs))) (sort (remdups vs))"

definition ledger_metrics :: "decision_ledger \<Rightarrow> decision_metrics" where
  "ledger_metrics L =
     (let economic = filter (\<lambda>d. ed_venue d = BINANCE) (dl_decisions L)
      in \<lparr>dm_accepted = length (filter ed_eligible economic),
          dm_rejected = length (filter (\<lambda>d. \<not> ed_eligible d) economic),
          dm_slots = sum_list (map ed_slots economic),
          dm_dormant = length (dl_decisions L) - length economic,
          dm_rejections = sorted_counts (map reason_value (filter (\<lambda>r. r \<noteq> ELIGIBLE) (concat (map ed_reasons economic)))),
          dm_capital_events = length (dl_states L),
          dm_idle_events = length (filter (\<lambda>r. ks_use r = IDLE_NO_ELIGIBLE_OPPORTUNITY) (dl_states L))\<rparr>)"

section \<open>The allocation engine\<close>

record allocation_result =
  ar_state :: allocation_state
  ar_decisions :: "eligibility_decision list"
  ar_selected :: "string list"

definition request_error ::
    "economic_candidate list \<Rightarrow> decimal \<Rightarrow> string \<Rightarrow> int \<Rightarrow> py_error + unit" where
  "request_error candidates available currency now =
     (if available < 0 \<or> currency = [] \<or> now < 0 then Inl (ValueError ''M034_INVALID_AVAILABLE_CAPITAL'')
      else if \<not> distinct (map ec_id candidates) then Inl (ValueError ''M034_DUPLICATE_CANDIDATE_ID'')
      else if \<exists>c \<in> set candidates. ec_time c \<noteq> now then Inl (ValueError ''M034_ALLOCATION_TIME_MISMATCH'')
      else ensure (\<forall>c \<in> set candidates. ec_currency c = currency) ''M034_ALLOCATION_CURRENCY_MISMATCH'')"

definition opportunity_of :: "economic_candidate \<times> eligibility_decision \<Rightarrow> py_error + eligible_opportunity" where
  "opportunity_of = (\<lambda>(c, d).
     case (ed_net_edge d, ed_completion d, ed_lock_seconds d) of
       (Some edge, Some completion, Some lock) \<Rightarrow>
         Inr \<lparr>eo_candidate = ec_id c, eo_priority = ec_priority c,
              eo_complete_net = ddiv (dmul (ec_capital c) edge) 10000, eo_completion = completion,
              eo_residual_cost = ec_residual_cost c, eo_tail_risk = ec_tail_risk c, eo_carry_cost = ec_carry_cost c,
              eo_capital = ec_capital c, eo_lock_seconds = lock\<rparr>
     | _ \<Rightarrow> Inl AssertionError)"

definition final_decision ::
    "(string, productivity_breakdown) dict \<Rightarrow> string set \<Rightarrow> economic_candidate \<times> eligibility_decision \<Rightarrow> eligibility_decision" where
  "final_decision score_by_id selected_ids = (\<lambda>(c, d).
     case dict_get score_by_id (ec_id c) of
       None \<Rightarrow> d
     | Some s \<Rightarrow>
         if ec_id c \<in> selected_ids
         then d\<lparr>ed_slots := 1, ed_productivity := Some (pb_productivity s),
                ed_reasons := [if ec_intent c = OWNED_RETURN_INTENT then OWNED_RETURN_PRIORITY else ELIGIBLE]\<rparr>
         else d\<lparr>ed_productivity := Some (pb_productivity s),
                ed_reasons := [if pb_productivity s \<le> 0 then PRODUCTIVITY_NON_POSITIVE else CAPITAL_UNAVAILABLE]\<rparr>)"

primrec append_decisions :: "eligibility_decision list \<Rightarrow> decision_ledger \<Rightarrow> (unit, decision_ledger) outcome" where
  "append_decisions [] L = Return () L"
| "append_decisions (d # ds) L = and_then (append_decision d L) (\<lambda>_ L1. append_decisions ds L1)"

text \<open>A capital state is constructed, which validates it, and appended.\<close>

definition post_capital ::
    "int \<Rightarrow> string \<Rightarrow> capital_use \<Rightarrow> decimal \<Rightarrow> decision_reason \<Rightarrow> decision_ledger \<Rightarrow> (unit, decision_ledger) outcome" where
  "post_capital now currency kind capital reason L =
     (let r = \<lparr>ks_time = now, ks_use = kind, ks_capital = capital, ks_currency = currency, ks_reason = reason\<rparr>
      in case check_capital_state r of Inl e \<Rightarrow> Raise e L | Inr _ \<Rightarrow> append_capital_state r L)"

primrec post_selected ::
    "int \<Rightarrow> string \<Rightarrow> (string, economic_candidate) dict \<Rightarrow> productivity_breakdown list \<Rightarrow> decision_ledger \<Rightarrow>
     (unit, decision_ledger) outcome" where
  "post_selected now currency candidate_by_id [] L = Return () L"
| "post_selected now currency candidate_by_id (row # rows) L =
     with_key candidate_by_id (pb_candidate row) L (\<lambda>c.
       and_then
         (post_capital now currency
           (if ec_intent c = OWNED_RETURN_INTENT then ACTIVE_OWNED_RETURN else ACTIVE_NEW_ENTRY) (pb_capital row)
           (if ec_intent c = OWNED_RETURN_INTENT then CAPITAL_RESERVED_OWNED_RETURN else ELIGIBLE) L)
         (\<lambda>_ L1. post_selected now currency candidate_by_id rows L1))"

definition data_reasons :: "decision_reason set" where
  "data_reasons =
     {DATA_GAP, DATA_INSUFFICIENT, CURRENCY_MARK_UNPROVEN, FEE_UNPROVEN, PAIR_UNAVAILABLE, PAIR_EVIDENCE_UNPROVEN,
      EXCHANGE_RULE_UNPROVEN, EXCHANGE_RULE_VIOLATION, THRESHOLD_NOT_EFFECTIVE, EXECUTION_COST_UNKNOWN,
      ADVERSE_SELECTION_UNKNOWN, COMPLETION_PROBABILITY_UNKNOWN, EXPECTED_LOCK_UNKNOWN}"

definition safety_reasons :: "decision_reason set" where
  "safety_reasons = {MARKET_SAFETY_BLOCK, PEG_RISK, ABNORMAL_SPREAD, LIQUIDITY_COLLAPSE, COMPATIBLE_FLOW_COLLAPSE}"

text \<open>What the capital that no candidate took is waiting for.\<close>

definition remaining_use ::
    "(economic_candidate \<times> eligibility_decision) list \<Rightarrow> string set \<Rightarrow> capital_use \<times> decision_reason" where
  "remaining_use evaluated selected_ids =
     (if \<exists>cd \<in> set evaluated. set (ed_reasons (snd cd)) \<inter> data_reasons \<noteq> {} then (BLOCKED_DATA, DATA_INSUFFICIENT)
      else if \<exists>cd \<in> set evaluated. set (ed_reasons (snd cd)) \<inter> safety_reasons \<noteq> {}
      then (BLOCKED_SAFETY, MARKET_SAFETY_BLOCK)
      else if \<exists>cd \<in> set evaluated. ec_intent (fst cd) = OWNED_RETURN_INTENT \<and> ec_id (fst cd) \<notin> selected_ids
      then (LOCKED_INVENTORY, CAPITAL_LOCKED_INVENTORY)
      else (IDLE_NO_ELIGIBLE_OPPORTUNITY, NO_ELIGIBLE_OPPORTUNITY))"

definition classify_rest ::
    "int \<Rightarrow> string \<Rightarrow> decimal \<Rightarrow> decimal \<Rightarrow> capital_use \<times> decision_reason \<Rightarrow> decision_ledger \<Rightarrow> (unit, decision_ledger) outcome" where
  "classify_rest now currency blocked unclassified rest L =
     (let locked = min blocked unclassified in
        and_then (if 0 < locked then post_capital now currency LOCKED_INVENTORY locked CAPITAL_LOCKED_INVENTORY L
                  else Return () L)
          (\<lambda>_ L1.
             let left = (if 0 < locked then dsub unclassified locked else unclassified)
             in if 0 < left then post_capital now currency (fst rest) left (snd rest) L1 else Return () L1))"

definition evaluate_and_allocate ::
    "((string \<times> string) list \<Rightarrow> string) \<Rightarrow> eligibility_gate \<Rightarrow> economic_candidate list \<Rightarrow> evaluation_mode \<Rightarrow> decimal \<Rightarrow>
     string \<Rightarrow> int \<Rightarrow> decision_ledger \<Rightarrow> (allocation_result, decision_ledger) outcome" where
  "evaluate_and_allocate digest G candidates mode available currency now L =
     (let economic = filter (\<lambda>c. ec_venue c \<in> xp_economic_venues (eg_execution_policy G)) candidates in
        raising (request_error economic available currency now) L (\<lambda>_.
        raising (traverse (evaluate digest G mode) economic) L (\<lambda>decisions.
        let evaluated = zip economic decisions; candidate_by_id = dict_by ec_id economic in
        raising (traverse opportunity_of (filter (\<lambda>(c, d). ed_eligible d) evaluated)) L (\<lambda>opportunities.
        raising (rank_eligible opportunities) L (\<lambda>scores.
        let blocked = dsum (map (\<lambda>(c, d). ec_capital c)
              (filter (\<lambda>(c, d). ec_intent c = OWNED_RETURN_INTENT \<and> \<not> ed_eligible d) evaluated)) in
        raising (choose_eligible scores (max (dsub available blocked) 0)) L (\<lambda>selected.
        let selected_ids = set (map pb_candidate selected);
            final = map (final_decision (dict_by pb_candidate scores) selected_ids) evaluated in
        and_then (append_decisions final L) (\<lambda>_ L1.
        and_then (post_selected now currency candidate_by_id selected L1) (\<lambda>_ L2.
        and_then (classify_rest now currency blocked (dsub available (dsum (map pb_capital selected)))
                    (remaining_use evaluated selected_ids) L2) (\<lambda>_ L3.
        Return
          \<lparr>ar_state = (if selected = [] then NOTHING_ALLOCATED
                       else if length selected = length economic then ALLOCATED else PARTIALLY_ALLOCATED),
           ar_decisions = final,
           ar_selected = filter (has_key candidate_by_id) (map pb_candidate selected)\<rparr> L3)))))))))"

section \<open>Adverse selection\<close>

record adverse_observation =
  ao_id :: string
  ao_context :: string
  ao_fill_time :: int
  ao_horizon_end :: int
  ao_observed_at :: int
  ao_bps :: decimal

definition check_adverse_observation :: "adverse_observation \<Rightarrow> py_error + unit" where
  "check_adverse_observation r =
     ensure (\<not> (ao_id r = [] \<or> ao_context r = [] \<or> ao_fill_time r < 0 \<or>
               \<not> (ao_fill_time r \<le> ao_horizon_end r \<and> ao_horizon_end r \<le> ao_observed_at r)))
       ''M034_NONCAUSAL_ADVERSE_SELECTION_OBSERVATION''"

record adverse_estimator =
  ae_minimum_samples :: int
  ae_training_cutoff :: int
  ae_observations :: "(string, adverse_observation) dict"

definition new_adverse_estimator :: "int \<Rightarrow> int \<Rightarrow> py_error + adverse_estimator" where
  "new_adverse_estimator minimum_samples cutoff =
     (if minimum_samples \<le> 0 \<or> cutoff < 0 then Inl (ValueError ''M034_INVALID_ADVERSE_SELECTION_SAMPLE_MINIMUM'')
      else Inr \<lparr>ae_minimum_samples = minimum_samples, ae_training_cutoff = cutoff, ae_observations = []\<rparr>)"

definition add_adverse :: "adverse_observation \<Rightarrow> adverse_estimator \<Rightarrow> (unit, adverse_estimator) outcome" where
  "add_adverse r E =
     (if has_key (ae_observations E) (ao_id r) then Raise (ValueError ''M034_DUPLICATE_ADVERSE_SELECTION_OBSERVATION'') E
      else Return () (E\<lparr>ae_observations := dict_set (ao_id r) r (ae_observations E)\<rparr>))"

record adverse_estimate =
  av_bps :: decimal
  av_sample_count :: nat
  av_training_cutoff :: int
  av_feature_cutoff :: int
  av_version :: string

text \<open>The rank of the 95th percentile, rounded up.\<close>

definition p95_index :: "nat \<Rightarrow> nat" where
  "p95_index n = nat \<lceil>dmul (dsub (of_nat n) 1) (95 / 100)\<rceil>"

definition estimate_adverse ::
    "string \<Rightarrow> int \<Rightarrow> int \<Rightarrow> adverse_estimator \<Rightarrow> py_error + adverse_estimate option" where
  "estimate_adverse context now feature_cutoff E =
     (if now < 0 \<or> feature_cutoff < 0 \<or> now < ae_training_cutoff E \<or> now < feature_cutoff
      then Inl (ValueError ''M034_ESTIMATOR_CUTOFF_AFTER_DECISION'')
      else
        let values = sort (map (\<lambda>r. max 0 (ao_bps r))
              (filter (\<lambda>r. ao_context r = context \<and> ao_observed_at r \<le> min now (ae_training_cutoff E))
                (dict_values (ae_observations E))))
        in if int (length values) < ae_minimum_samples E then Inr None
           else Inr (Some \<lparr>av_bps = values ! p95_index (length values), av_sample_count = length values,
                  av_training_cutoff = ae_training_cutoff E, av_feature_cutoff = feature_cutoff,
                  av_version = ''M034_RESOLVED_PREFIX_P95_V1''\<rparr>))"

section \<open>Queue value and reallocation\<close>

definition fifo_value :: "decimal \<Rightarrow> decimal \<Rightarrow> decimal \<Rightarrow> py_error + decimal" where
  "fifo_value completion pnl residual =
     (if \<not> (0 \<le> completion \<and> completion \<le> 1) \<or> pnl < 0 \<or> residual < 0
      then Inl (ValueError ''M034_INVALID_FIFO_VALUE_INPUT'')
      else Inr (dsub (dmul completion pnl) (dmul (dsub 1 completion) residual)))"

record reallocation_decision =
  rd_switch :: bool
  rd_improvement :: decimal
  rd_cost :: decimal
  rd_reason :: decision_reason

definition decide_reallocation ::
    "decimal \<Rightarrow> decimal \<Rightarrow> decimal \<Rightarrow> decimal \<Rightarrow> decimal \<Rightarrow> py_error + reallocation_decision" where
  "decide_reallocation value_new value_current lost_fifo cancel_cost reentry_cost =
     (let costs = [lost_fifo, cancel_cost, reentry_cost]
      in if \<exists>v \<in> set costs. v < 0 then Inl (ValueError ''M034_NEGATIVE_SWITCHING_COST'')
         else
           let improvement = dsub value_new value_current; switching = dsum costs; go = switching < improvement
           in Inr \<lparr>rd_switch = go, rd_improvement = improvement, rd_cost = switching,
                   rd_reason = (if go then ELIGIBLE else FIFO_SWITCHING_COST_TOO_HIGH)\<rparr>)"

section \<open>Exits at a loss\<close>

record exit_rule =
  er_id :: string
  er_hash :: string
  er_effective_start :: int
  er_effective_end :: int
  er_provenance :: string
  er_reason :: decision_reason

definition check_exit_rule :: "exit_rule \<Rightarrow> py_error + unit" where
  "check_exit_rule r =
     ensure (\<not> (er_reason r \<notin> {INVENTORY_LOCK_EXCEEDED, PEG_RISK_ESCALATED, OPPORTUNITY_COST_EXCEEDED} \<or>
               er_effective_end r \<le> er_effective_start r \<or> er_effective_start r < 0 \<or> er_hash r = [] \<or>
               er_provenance r = []))
       ''M034_INVALID_INVENTORY_EXIT_RULE''"

record exit_request =
  xr_authorization_id :: string
  xr_slot_id :: string
  xr_slot_epoch :: int
  xr_quantity :: decimal
  xr_cost_basis :: decimal
  xr_inventory_asset :: string
  xr_origin_asset :: string
  xr_exit_reservation :: string
  xr_fee_marks :: "causal_asset_mark list"
  xr_now :: int
  xr_expires_at :: int
  xr_expected_hold_loss :: decimal
  xr_opportunity_cost :: decimal
  xr_tail_risk :: decimal
  xr_realized_loss :: decimal

record exit_assessment =
  xa_allowed :: bool
  xa_reason :: decision_reason
  xa_authorization :: "reduction_authorization option"

definition refused_exit :: exit_assessment where
  "refused_exit =
     \<lparr>xa_allowed = False, xa_reason = NEGATIVE_EXIT_NOT_ALLOWED_COSMETIC, xa_authorization = None\<rparr>"

definition authorization_of :: "exit_request \<Rightarrow> exit_rule \<Rightarrow> reduction_authorization" where
  "authorization_of q r =
     \<lparr>ira_id = xr_authorization_id q, ira_slot_id = xr_slot_id q, ira_slot_epoch = xr_slot_epoch q,
      ira_quantity = xr_quantity q, ira_cost_basis = xr_cost_basis q, ira_inventory_asset = xr_inventory_asset q,
      ira_origin_asset = xr_origin_asset q, ira_exit_reservation = xr_exit_reservation q,
      ira_fee_marks = xr_fee_marks q, ira_decided_at = xr_now q, ira_expires_at = xr_expires_at q,
      ira_rule_id = er_id r, ira_rule_hash = er_hash r,
      ira_reason = reason_value NEGATIVE_EXIT_RISK_RULE_TRIGGERED, ira_trigger_reason = reason_value (er_reason r),
      ira_expected_hold_loss = xr_expected_hold_loss q, ira_opportunity_cost = xr_opportunity_cost q,
      ira_tail_risk = xr_tail_risk q, ira_realized_loss = xr_realized_loss q\<rparr>"

definition evaluate_exit :: "exit_request \<Rightarrow> exit_rule option \<Rightarrow> py_error + exit_assessment" where
  "evaluate_exit q rule =
     (if xr_quantity q \<le> 0 \<or> xr_cost_basis q \<le> 0 \<or> xr_realized_loss q \<le> 0 \<or> xr_inventory_asset q = [] \<or>
         xr_origin_asset q = [] \<or> xr_inventory_asset q = xr_origin_asset q \<or> xr_exit_reservation q = [] \<or>
         xr_expires_at q < xr_now q \<or>
         (\<exists>v \<in> set [xr_expected_hold_loss q, xr_opportunity_cost q, xr_tail_risk q, xr_realized_loss q]. v < 0)
      then Inl (ValueError ''M034_INVALID_INVENTORY_EXIT_INPUT'')
      else case rule of
        None \<Rightarrow> Inr refused_exit
      | Some r \<Rightarrow>
          if \<not> (er_effective_start r \<le> xr_now q \<and> xr_now q < er_effective_end r) then Inr refused_exit
          else if dadd (dadd (xr_expected_hold_loss q) (xr_opportunity_cost q)) (xr_tail_risk q) \<le> xr_realized_loss q
          then Inr refused_exit
          else if er_effective_end r < xr_expires_at q
          then Inl (ValueError ''M034_INVENTORY_EXIT_AUTHORIZATION_EXCEEDS_RULE_WINDOW'')
          else on_ok (check_authorization (authorization_of q r)) (\<lambda>_.
            Inr \<lparr>xa_allowed = True, xa_reason = NEGATIVE_EXIT_RISK_RULE_TRIGGERED,
                 xa_authorization = Some (authorization_of q r)\<rparr>))"

end
