(* ===== verification/M034_Gate_Facts.thy ===== *)
theory M034_Gate_Facts
  imports M034_Gate Multi_Stable_Manager_Facts
begin

text \<open>
  The admission gate against a declarative reading of it: \<open>admissible\<close> says what must be proven
  about a candidate, without an order and without reasons, and the gate accepts exactly that.
  An evaluation can only raise where the remainder of a price or quantity is undefined.
\<close>

section \<open>What must be proven\<close>

definition profile_rate :: "fee_leg \<Rightarrow> venue_fee_profile \<Rightarrow> decimal" where
  "profile_rate leg f = (if fl_maker leg then vf_maker_rate f else vf_taker_rate f)"

definition leg_fee :: "eligibility_gate \<Rightarrow> evaluation_mode \<Rightarrow> economic_candidate \<Rightarrow> fee_leg \<Rightarrow> venue_fee_profile" where
  "leg_fee G mode c leg = the (leg_profile leg c mode (eg_fees G))"

definition leg_admissible :: "eligibility_gate \<Rightarrow> evaluation_mode \<Rightarrow> economic_candidate \<Rightarrow> fee_leg \<Rightarrow> bool" where
  "leg_admissible G mode c leg \<longleftrightarrow>
     (\<exists>e. resolve_pair (fl_book leg) (ec_time c) (eg_pairs G) = Some e \<and> pair_eligible e) \<and>
     (\<exists>r. resolve_rule (fl_book leg) (ec_time c) mode (eg_rules G) = Some r \<and>
        validate_venue_order (fl_price leg) (fl_quantity leg) (ec_time c) (rr_rule r) = Inr () \<and>
        (fl_from leg, fl_to leg) = expected_assets leg (rr_rule r)) \<and>
     leg_profile leg c mode (eg_fees G) \<noteq> None"

definition order_input :: "fee_leg \<Rightarrow> venue_fee_profile \<Rightarrow> decimal" where
  "order_input leg f =
     (let required = (if fl_side leg = ''BUY'' then dmul (fl_price leg) (fl_quantity leg) else fl_quantity leg)
      in if vf_fee_asset_semantics f = ''SPENT_ASSET'' then dmul required (dadd 1 (profile_rate leg f)) else required)"

definition route_fees :: "eligibility_gate \<Rightarrow> evaluation_mode \<Rightarrow> economic_candidate \<Rightarrow> decimal" where
  "route_fees G mode c = dsum (map (\<lambda>leg. dmul (profile_rate leg (leg_fee G mode c leg)) 10000) (ec_legs c))"

definition cost_or_bound ::
    "decimal option \<Rightarrow> (m034_policy \<Rightarrow> py_error + decimal option) \<Rightarrow> m034_policy \<Rightarrow> decimal option" where
  "cost_or_bound cost bound p =
     (case cost of Some v \<Rightarrow> Some v | None \<Rightarrow> if mp_unknown_cost p = CONSERVATIVE_BOUND then projr (bound p) else None)"

definition market_safe :: "market_snapshot \<Rightarrow> m034_policy \<Rightarrow> bool" where
  "market_safe m p \<longleftrightarrow> \<not> ms_data_gap m \<and>
     (\<exists>peg spread depth flow. ms_peg_deviation m = Some peg \<and> ms_spread_bps m = Some spread \<and>
        ms_depth_usd m = Some depth \<and> ms_flow m = Some flow \<and>
        dabs peg \<le> projr (maximum_peg_deviation p) \<and> spread \<le> projr (maximum_spread_bps p) \<and>
        projr (minimum_depth_usd p) \<le> depth \<and> projr (minimum_compatible_flow p) \<le> flow)"

definition admissible :: "eligibility_gate \<Rightarrow> evaluation_mode \<Rightarrow> economic_candidate \<Rightarrow> bool" where
  "admissible G mode c \<longleftrightarrow>
     (let p = eg_policy G in
        0 \<le> ec_time c \<and> (\<forall>t \<in> set (dict_values (tg_by_name (mp_thresholds p))). td_effective_from t \<le> ec_time c) \<and>
        ec_venue c \<in> xp_economic_venues (eg_execution_policy G) \<and> ec_data_state c = DATA_VALID \<and>
        (\<forall>leg \<in> set (ec_legs c). leg_admissible G mode c leg) \<and>
        fl_from (hd (ec_legs c)) = ec_currency c \<and>
        order_input (hd (ec_legs c)) (leg_fee G mode c (hd (ec_legs c))) \<le> ec_capital c \<and>
        market_safe (ec_market c) p \<and>
        (\<exists>v. ec_completion c = Some v \<and> projr (minimum_completion_probability p) \<le> v) \<and>
        (\<exists>v. ec_lock_seconds c = Some v \<and> v \<le> projr (maximum_expected_lock_seconds p)) \<and>
        (\<exists>e a. cost_or_bound (ec_execution_cost c) unknown_execution_cost_bound p = Some e \<and>
           cost_or_bound (ec_adverse_selection c) unknown_adverse_selection_bound p = Some a \<and>
           projr (minimum_net_edge_bps p) \<le>
             dsub (dsub (dsub (dsub (ec_gross_edge c) (route_fees G mode c)) e) a) (projr (risk_buffer_bps p))) \<and>
        (\<exists>m. resolve_mark (ec_currency c) ''USD'' (ec_time c) (eg_marks G) = Some m \<and>
           dmul (ec_capital c) (cam_rate m) \<le> projr (maximum_inventory_exposure p) \<and>
           dmul (ec_tail_risk c) (cam_rate m) \<le> projr (tail_risk_bound p)))"

section \<open>A valid policy\<close>

lemma policy_values:
  assumes "check_policy p = Inr ()"
  shows "isl (minimum_completion_probability p) = False" "isl (maximum_expected_lock_seconds p) = False"
    "isl (maximum_peg_deviation p) = False" "isl (maximum_spread_bps p) = False" "isl (minimum_depth_usd p) = False"
    "isl (minimum_compatible_flow p) = False" "isl (risk_buffer_bps p) = False"
    "isl (maximum_inventory_exposure p) = False" "isl (minimum_net_edge_bps p) = False" "isl (tail_risk_bound p) = False"
    "0 < projr (minimum_net_edge_bps p)"
    "mp_unknown_cost p = CONSERVATIVE_BOUND \<Longrightarrow>
       \<exists>e a. unknown_execution_cost_bound p = Inr (Some e) \<and> unknown_adverse_selection_bound p = Inr (Some a) \<and> 0 \<le> e \<and> 0 \<le> a"
  using assms unfolding check_policy_def unknown_execution_cost_bound_def unknown_adverse_selection_bound_def
  by (auto simp: on_ok_Inr traverse_Cons_Inr split: if_splits simp del: traverse.simps(2))

lemma value_of: "isl m = False \<Longrightarrow> on_ok m k = k (projr m)"
  by (cases m) simp_all

section \<open>The legs\<close>

lemma fee_in_window:
  "resolve_fee book now mode account fees = Some f \<Longrightarrow> venue_fee_rate maker now f = Inr (if maker then vf_maker_rate f else vf_taker_rate f)"
proof -
  assume "resolve_fee book now mode account fees = Some f"
  then have "f \<in> set (filter (fee_applies book now mode account) fees)"
    unfolding resolve_fee_def the_only_Some by simp
  then show ?thesis by (simp add: fee_applies_def venue_fee_rate_def)
qed

lemma profile_in_window:
  "leg_profile leg c mode fees = Some f \<Longrightarrow> venue_fee_rate (fl_maker leg) (ec_time c) f = Inr (profile_rate leg f)"
  by (auto simp: leg_profile_def profile_rate_def fee_in_window split: option.splits if_splits)

lemma judge_leg_profiles:
  "judge_leg G mode c leg = Inr (rs, fs) \<Longrightarrow>
     fs = (case leg_profile leg c mode (eg_fees G) of None \<Rightarrow> [] | Some f \<Rightarrow> [f])"
  by (auto simp: judge_leg_def on_ok_Inr Let_def split: option.splits)

lemma judge_leg_clear:
  "judge_leg G mode c leg = Inr (rs, fs) \<Longrightarrow> rs = [] \<longleftrightarrow> leg_admissible G mode c leg"
  by (auto simp: judge_leg_def leg_admissible_def on_ok_Inr Let_def pair_reasons_def rule_reasons_def pair_eligible_def
      split: option.splits sum.splits py_error.splits if_splits)

lemma judged_legs:
  assumes "traverse (judge_leg G mode c) legs = Inr judged"
  shows "concat (map fst judged) = [] \<longleftrightarrow> (\<forall>leg \<in> set legs. leg_admissible G mode c leg)"
    and "length (concat (map snd judged)) \<le> length legs"
    and "length (concat (map snd judged)) = length legs \<longleftrightarrow> (\<forall>leg \<in> set legs. leg_profile leg c mode (eg_fees G) \<noteq> None)"
    and "length (concat (map snd judged)) = length legs \<Longrightarrow> concat (map snd judged) = map (leg_fee G mode c) legs"
  using assms
proof (induction legs arbitrary: judged)
  case (Cons leg legs)
  {
    case 1
    then obtain rs fs rest where "judge_leg G mode c leg = Inr (rs, fs)" "traverse (judge_leg G mode c) legs = Inr rest"
      "judged = (rs, fs) # rest" unfolding traverse_Cons_Inr by (metis surj_pair)
    then show ?case using Cons.IH(1) judge_leg_clear by auto
  next
    case 2
    then obtain rs fs rest where j: "judge_leg G mode c leg = Inr (rs, fs)" "traverse (judge_leg G mode c) legs = Inr rest"
      "judged = (rs, fs) # rest" unfolding traverse_Cons_Inr by (metis surj_pair)
    then show ?case using Cons.IH(2) [OF j(2)] judge_leg_profiles [OF j(1)] by (auto split: option.splits)
  next
    case 3
    then obtain rs fs rest where j: "judge_leg G mode c leg = Inr (rs, fs)" "traverse (judge_leg G mode c) legs = Inr rest"
      "judged = (rs, fs) # rest" unfolding traverse_Cons_Inr by (metis surj_pair)
    then show ?case using Cons.IH(2,3) [OF j(2)] judge_leg_profiles [OF j(1)] by (auto split: option.splits)
  next
    case 4
    then obtain rs fs rest where j: "judge_leg G mode c leg = Inr (rs, fs)" "traverse (judge_leg G mode c) legs = Inr rest"
      "judged = (rs, fs) # rest" unfolding traverse_Cons_Inr by (metis surj_pair)
    then show ?case using 4 Cons.IH(2) [OF j(2)] Cons.IH(4) [OF _ j(2)] judge_leg_profiles [OF j(1)]
      by (auto simp: leg_fee_def split: option.splits)
  }
qed simp_all

lemma judged_profiles:
  assumes "traverse (judge_leg G mode c) (ec_legs c) = Inr judged" and "\<forall>leg \<in> set (ec_legs c). leg_admissible G mode c leg"
  shows "concat (map snd judged) = map (leg_fee G mode c) (ec_legs c)"
    and "\<forall>leg \<in> set (ec_legs c). leg_profile leg c mode (eg_fees G) = Some (leg_fee G mode c leg)"
proof -
  have all: "\<forall>leg \<in> set (ec_legs c). leg_profile leg c mode (eg_fees G) \<noteq> None"
    using assms(2) by (auto simp: leg_admissible_def)
  show "concat (map snd judged) = map (leg_fee G mode c) (ec_legs c)"
    using judged_legs(3) [OF assms(1)] judged_legs(4) [OF assms(1)] all by blast
  show "\<forall>leg \<in> set (ec_legs c). leg_profile leg c mode (eg_fees G) = Some (leg_fee G mode c leg)"
    using all by (auto simp: leg_fee_def)
qed

lemma known_fees_all:
  assumes "\<forall>leg \<in> set legs. leg_profile leg c mode (eg_fees G) = Some (leg_fee G mode c leg)"
  shows "traverse (\<lambda>(f, leg). venue_fee_rate (fl_maker leg) (ec_time c) f) (zip (map (leg_fee G mode c) legs) legs) =
     Inr (map (\<lambda>leg. profile_rate leg (leg_fee G mode c leg)) legs)"
  using assms by (induction legs) (auto simp: profile_in_window)

lemma fees_of_profiles:
  assumes "\<forall>leg \<in> set (ec_legs c). leg_profile leg c mode (eg_fees G) = Some (leg_fee G mode c leg)"
  shows "known_fees c (map (leg_fee G mode c) (ec_legs c)) = Inr (Some (route_fees G mode c))"
  using known_fees_all [OF assms] by (simp add: known_fees_def route_fees_def comp_def)

lemma funding_of_profiles:
  assumes "\<forall>leg \<in> set (ec_legs c). leg_profile leg c mode (eg_fees G) = Some (leg_fee G mode c leg)"
    and "ec_legs c \<noteq> []"
  shows "funding_reasons c (map (leg_fee G mode c) (ec_legs c)) =
     Inr (if fl_from (hd (ec_legs c)) \<noteq> ec_currency c \<or>
             ec_capital c < order_input (hd (ec_legs c)) (leg_fee G mode c (hd (ec_legs c)))
          then [ORDER_CAPITAL_MISMATCH] else [])"
proof -
  obtain leg legs where l: "ec_legs c = leg # legs" using assms(2) by (cases "ec_legs c") simp_all
  have "required_input leg (leg_fee G mode c leg) (ec_time c) = Inr (order_input leg (leg_fee G mode c leg))"
    using profile_in_window [of leg c mode "eg_fees G"] assms(1) by (simp add: l required_input_def order_input_def Let_def)
  then show ?thesis by (simp add: funding_reasons_def l)
qed

section \<open>The other conditions\<close>

lemma bounded_cost_iff:
  "bounded_cost cost bound reason p = Inr (v, rs) \<Longrightarrow>
     (mp_unknown_cost p = CONSERVATIVE_BOUND \<Longrightarrow> \<exists>b. bound p = Inr (Some b)) \<Longrightarrow>
     v = cost_or_bound cost bound p \<and> (rs = [] \<longleftrightarrow> v \<noteq> None)"
  by (auto simp: bounded_cost_def cost_or_bound_def on_ok_Inr split: option.splits if_splits)

lemma assess_iff:
  "assess m p = Inr a \<Longrightarrow> (ma_reasons a = [] \<and> ma_state a = ACCEPTABLE) \<longleftrightarrow> market_safe m p"
  by (auto simp: assess_def market_safe_def on_ok_Inr Let_def not_less split: if_splits option.splits)

lemma completion_iff:
  "completion_reasons c p = Inr rs \<Longrightarrow>
     rs = [] \<longleftrightarrow> (\<exists>v. ec_completion c = Some v \<and> projr (minimum_completion_probability p) \<le> v)"
  by (auto simp: completion_reasons_def on_ok_Inr not_less split: option.splits if_splits)

lemma lock_iff:
  "lock_reasons c p = Inr rs \<Longrightarrow>
     rs = [] \<longleftrightarrow> (\<exists>v. ec_lock_seconds c = Some v \<and> v \<le> projr (maximum_expected_lock_seconds p))"
  by (auto simp: lock_reasons_def on_ok_Inr not_less split: option.splits if_splits)

lemma net_edge_iff:
  "net_edge c (Some f) (Some e) (Some a) p = Inr (v, rs) \<Longrightarrow>
     rs = [] \<longleftrightarrow> projr (minimum_net_edge_bps p) \<le> dsub (dsub (dsub (dsub (ec_gross_edge c) f) e) a) (projr (risk_buffer_bps p))"
  by (auto simp: net_edge_def on_ok_Inr Let_def not_less split: if_splits)

lemma exposure_iff:
  "exposure_reasons c (Some m) p = Inr rs \<Longrightarrow>
     rs = [] \<longleftrightarrow> dmul (ec_capital c) (cam_rate m) \<le> projr (maximum_inventory_exposure p) \<and>
       dmul (ec_tail_risk c) (cam_rate m) \<le> projr (tail_risk_bound p)"
  by (auto simp: exposure_reasons_def on_ok_Inr not_less split: if_splits)

lemma effective_iff:
  "validate_effective_at now T = Inr () \<longleftrightarrow>
     0 \<le> now \<and> (\<forall>t \<in> set (dict_values (tg_by_name T)). td_effective_from t \<le> now)"
  by (auto simp: validate_effective_at_def not_le not_less)

text \<open>What \<open>evaluate\<close> returned, piece by piece.\<close>

lemma evaluate_pieces:
  assumes "evaluate digest G mode c = Inr d"
  obtains judged funding fees execution adverse safety completion lock edge exposure buffer where
    "traverse (judge_leg G mode c) (ec_legs c) = Inr judged"
    "funding_reasons c (concat (map snd judged)) = Inr funding"
    "known_fees c (concat (map snd judged)) = Inr fees"
    "bounded_cost (ec_execution_cost c) unknown_execution_cost_bound EXECUTION_COST_UNKNOWN (eg_policy G) = Inr execution"
    "bounded_cost (ec_adverse_selection c) unknown_adverse_selection_bound ADVERSE_SELECTION_UNKNOWN (eg_policy G) = Inr adverse"
    "assess (ec_market c) (eg_policy G) = Inr safety"
    "completion_reasons c (eg_policy G) = Inr completion"
    "lock_reasons c (eg_policy G) = Inr lock"
    "net_edge c fees (fst execution) (fst adverse) (eg_policy G) = Inr edge"
    "exposure_reasons c (resolve_mark (ec_currency c) ''USD'' (ec_time c) (eg_marks G)) (eg_policy G) = Inr exposure"
    "d = decision_of digest (eg_policy G) c (resolve_mark (ec_currency c) ''USD'' (ec_time c) (eg_marks G))
           (concat (map snd judged)) fees (fst execution) (fst adverse) (ma_state safety) (fst edge) buffer
           (fromkeys (opening_reasons G c (resolve_mark (ec_currency c) ''USD'' (ec_time c) (eg_marks G)) @
              concat (map fst judged) @ funding @ snd execution @ snd adverse @ market_reasons safety @ completion @
              lock @ snd edge @ exposure))"
  using assms unfolding evaluate_def Let_def on_ok_Inr sum.inject
  by (elim exE conjE, intro that) (assumption | erule sym)+

lemma decision_fields [simp]:
  "ed_id (decision_of h p c usd fs fees x a s e b rs) = int_string (ec_time c) @ '':'' @ ec_id c"
  "ed_time (decision_of h p c usd fs fees x a s e b rs) = ec_time c"
  "ed_candidate (decision_of h p c usd fs fees x a s e b rs) = ec_id c"
  "ed_venue (decision_of h p c usd fs fees x a s e b rs) = ec_venue c"
  "ed_slots (decision_of h p c usd fs fees x a s e b rs) = 0"
  "ed_net_edge (decision_of h p c usd fs fees x a s e b rs) = e"
  "ed_completion (decision_of h p c usd fs fees x a s e b rs) = ec_completion c"
  "ed_lock_seconds (decision_of h p c usd fs fees x a s e b rs) = ec_lock_seconds c"
  "ed_eligible (decision_of h p c usd fs fees x a s e b rs) \<longleftrightarrow> rs = []"
  "ed_reasons (decision_of h p c usd fs fees x a s e b rs) = (if rs = [] then [ELIGIBLE] else rs)"
  by (simp_all add: decision_of_def)

lemma opening_iff:
  "opening_reasons G c usd = [] \<longleftrightarrow>
     validate_effective_at (ec_time c) (mp_thresholds (eg_policy G)) = Inr () \<and>
     ec_venue c \<in> xp_economic_venues (eg_execution_policy G) \<and> ec_data_state c = DATA_VALID \<and> usd \<noteq> None"
  by (auto simp: opening_reasons_def split: sum.splits)

lemma market_reasons_iff: "market_reasons a = [] \<longleftrightarrow> ma_reasons a = [] \<and> ma_state a = ACCEPTABLE"
  by (simp add: market_reasons_def)

lemma cost_piece:
  assumes "check_policy p = Inr ()" and
    "bounded_cost cost bound reason p = Inr piece" and
    "bound = unknown_execution_cost_bound \<or> bound = unknown_adverse_selection_bound"
  shows "fst piece = cost_or_bound cost bound p \<and> (snd piece = [] \<longleftrightarrow> cost_or_bound cost bound p \<noteq> None)"
proof -
  have "\<exists>b. bound p = Inr (Some b)" if "mp_unknown_cost p = CONSERVATIVE_BOUND"
    using policy_values(12) [OF assms(1) that] assms(3) by auto
  then show ?thesis using bounded_cost_iff [of cost bound reason p "fst piece" "snd piece"] assms(2) by simp
qed

text \<open>No condition reports itself as \<open>ELIGIBLE\<close>.\<close>

lemma reasons_against:
  "judge_leg G mode c leg = Inr rsfs \<Longrightarrow> ELIGIBLE \<notin> set (fst rsfs)"
  "funding_reasons c profiles = Inr rs \<Longrightarrow> ELIGIBLE \<notin> set rs"
  "bounded_cost cost bound reason p = Inr vrs \<Longrightarrow> reason \<noteq> ELIGIBLE \<Longrightarrow> ELIGIBLE \<notin> set (snd vrs)"
  "assess m p = Inr a \<Longrightarrow> ELIGIBLE \<notin> set (market_reasons a)"
  "completion_reasons c p = Inr rs \<Longrightarrow> ELIGIBLE \<notin> set rs"
  "lock_reasons c p = Inr rs \<Longrightarrow> ELIGIBLE \<notin> set rs"
  "net_edge c fees x y p = Inr vrs \<Longrightarrow> ELIGIBLE \<notin> set (snd vrs)"
  "exposure_reasons c usd p = Inr rs \<Longrightarrow> ELIGIBLE \<notin> set rs"
  "ELIGIBLE \<notin> set (opening_reasons G c usd)"
proof -
  show "judge_leg G mode c leg = Inr rsfs \<Longrightarrow> ELIGIBLE \<notin> set (fst rsfs)"
    by (auto simp: judge_leg_def on_ok_Inr Let_def pair_reasons_def rule_reasons_def
        split: option.splits sum.splits py_error.splits if_splits)
  show "assess m p = Inr a \<Longrightarrow> ELIGIBLE \<notin> set (market_reasons a)"
    by (auto simp: assess_def market_reasons_def on_ok_Inr Let_def split: if_splits option.splits)
qed (auto simp: funding_reasons_def bounded_cost_def completion_reasons_def lock_reasons_def net_edge_def
    exposure_reasons_def opening_reasons_def on_ok_Inr Let_def split: option.splits sum.splits if_splits list.splits)

lemma judged_against:
  assumes "traverse (judge_leg G mode c) legs = Inr judged"
  shows "ELIGIBLE \<notin> set (concat (map fst judged))"
proof -
  have "ELIGIBLE \<notin> set (fst rsfs)" if "rsfs \<in> set judged" for rsfs
    using traverse_origin [OF assms that] reasons_against(1) by blast
  then show ?thesis by fastforce
qed

lemma decision_reasons:
  assumes "evaluate digest G mode c = Inr d"
  shows "ed_reasons d \<noteq> [] \<and> distinct (ed_reasons d) \<and> (ELIGIBLE \<in> set (ed_reasons d) \<longleftrightarrow> ed_eligible d)"
  using assms
proof (rule evaluate_pieces)
  fix judged :: "(decision_reason list \<times> venue_fee_profile list) list" and funding fees and
    execution adverse edge :: "decimal option \<times> decision_reason list" and safety completion lock exposure buffer
  let ?p = "eg_policy G" and ?usd = "resolve_mark (ec_currency c) ''USD'' (ec_time c) (eg_marks G)"
  let ?rs = "opening_reasons G c ?usd @ concat (map fst judged) @ funding @
              snd execution @ snd adverse @ market_reasons safety @ completion @ lock @ snd edge @ exposure"
  assume pieces: "traverse (judge_leg G mode c) (ec_legs c) = Inr judged"
    "funding_reasons c (concat (map snd judged)) = Inr funding"
    "bounded_cost (ec_execution_cost c) unknown_execution_cost_bound EXECUTION_COST_UNKNOWN ?p = Inr execution"
    "bounded_cost (ec_adverse_selection c) unknown_adverse_selection_bound ADVERSE_SELECTION_UNKNOWN ?p = Inr adverse"
    "assess (ec_market c) ?p = Inr safety" "completion_reasons c ?p = Inr completion" "lock_reasons c ?p = Inr lock"
    "net_edge c fees (fst execution) (fst adverse) ?p = Inr edge" "exposure_reasons c ?usd ?p = Inr exposure"
    and d: "d = decision_of digest ?p c ?usd (concat (map snd judged)) fees (fst execution) (fst adverse)
           (ma_state safety) (fst edge) buffer (fromkeys ?rs)"
  have "ELIGIBLE \<notin> set ?rs"
    using judged_against [OF pieces(1)] reasons_against(2) [OF pieces(2)] reasons_against(3) [OF pieces(3)]
      reasons_against(3) [OF pieces(4)] reasons_against(4) [OF pieces(5)] reasons_against(5) [OF pieces(6)]
      reasons_against(6) [OF pieces(7)] reasons_against(7) [OF pieces(8)] reasons_against(8) [OF pieces(9)]
      reasons_against(9) [of G c ?usd] unfolding set_append Un_iff by simp
  then show ?thesis unfolding d decision_fields by (cases "?rs = []") simp_all
qed

section \<open>Evaluations that raise\<close>

text \<open>A quotient of more than 28 digits has no remainder; no other exception can escape.\<close>

definition unit_overflow :: "fee_leg \<Rightarrow> venue_symbol_rule \<Rightarrow> bool" where
  "unit_overflow leg r \<longleftrightarrow> 10 ^ 28 * vr_tick_size r \<le> fl_price leg \<or> 10 ^ 28 * vr_quantity_step r \<le> fl_quantity leg"

lemma drem_error:
  assumes "drem a b = Inl e" and "0 < a" "0 < b"
  shows "e = InvalidOperation \<and> 10 ^ 28 * b \<le> a"
proof -
  have e: "e = InvalidOperation" and big: "10 ^ 28 \<le> \<bar>dtrunc (a / b)\<bar>"
    using assms by (auto simp: drem_def Let_def split: if_splits)
  have pos: "0 \<le> a / b" using assms by simp
  then have "dtrunc (a / b) = \<lfloor>a / b\<rfloor>" by (simp add: dtrunc_def)
  then have "(10 ^ 28 :: int) \<le> \<lfloor>a / b\<rfloor>" using big pos by simp
  then have "(of_int (10 ^ 28) :: rat) \<le> a / b" by (simp only: le_floor_iff)
  then show ?thesis using e \<open>0 < b\<close> by (simp add: le_divide_eq)
qed

lemma validate_venue_order_error:
  assumes "validate_venue_order (fl_price leg) (fl_quantity leg) now r = Inl e" and "check_venue_rule r = Inr ()"
  shows "(\<exists>message. e = ValueError message) \<or> e = InvalidOperation \<and> unit_overflow leg r"
proof -
  have rule: "0 < vr_tick_size r" "0 < vr_quantity_step r" using assms(2) by (auto simp: check_venue_rule_def split: if_splits)
  show ?thesis
    using assms(1) drem_error [of "fl_price leg" "vr_tick_size r" e] drem_error [of "fl_quantity leg" "vr_quantity_step r" e] rule
    by (auto simp: validate_venue_order_def unit_overflow_def not_le not_less split: if_splits sum.splits)
qed

lemma on_ok_Inl: "on_ok m k = Inl e \<longleftrightarrow> m = Inl e \<or> (\<exists>x. m = Inr x \<and> k x = Inl e)"
  by (cases m) simp_all

lemma traverse_Inl: "traverse f xs = Inl e \<Longrightarrow> \<exists>x \<in> set xs. f x = Inl e"
  by (induction xs) (auto split: sum.splits)

lemma judge_leg_error:
  assumes "judge_leg G mode c leg = Inl e" and "\<forall>r \<in> set (eg_rules G). check_venue_rule (rr_rule r) = Inr ()"
  shows "e = InvalidOperation \<and>
     (\<exists>r. resolve_rule (fl_book leg) (ec_time c) mode (eg_rules G) = Some r \<and> unit_overflow leg (rr_rule r))"
proof -
  obtain r where r: "resolve_rule (fl_book leg) (ec_time c) mode (eg_rules G) = Some r"
    and e: "validate_venue_order (fl_price leg) (fl_quantity leg) (ec_time c) (rr_rule r) = Inl e"
      "\<nexists>message. e = ValueError message"
    using assms(1) by (auto simp: judge_leg_def on_ok_Inl Let_def rule_reasons_def split: option.splits sum.splits py_error.splits)
  have "r \<in> set (filter (rule_applies (fl_book leg) (ec_time c) mode) (eg_rules G))"
    using r unfolding resolve_rule_def the_only_Some by simp
  then have "check_venue_rule (rr_rule r) = Inr ()" using assms(2) by simp
  then show ?thesis using validate_venue_order_error [OF e(1)] e(2) r by blast
qed

text \<open>Once the legs have been judged, nothing else raises.\<close>

lemma funding_total:
  assumes "traverse (judge_leg G mode c) (ec_legs c) = Inr judged" and "ec_legs c \<noteq> []"
  shows "\<exists>rs fees. funding_reasons c (concat (map snd judged)) = Inr rs \<and> known_fees c (concat (map snd judged)) = Inr fees"
proof (cases "length (concat (map snd judged)) = length (ec_legs c)")
  case True
  have profiles: "concat (map snd judged) = map (leg_fee G mode c) (ec_legs c)"
    using judged_legs(4) [OF assms(1) True] .
  have "\<forall>leg \<in> set (ec_legs c). leg_profile leg c mode (eg_fees G) = Some (leg_fee G mode c leg)"
    using judged_legs(3) [OF assms(1)] True by (auto simp: leg_fee_def)
  then show ?thesis unfolding profiles using funding_of_profiles [OF _ assms(2)] fees_of_profiles by blast
next
  case False
  then show ?thesis by (simp add: funding_reasons_def known_fees_def)
qed

lemma cost_total:
  assumes "check_policy p = Inr ()" and "bound = unknown_execution_cost_bound \<or> bound = unknown_adverse_selection_bound"
  shows "\<exists>piece. bounded_cost cost bound reason p = Inr piece"
proof (cases "mp_unknown_cost p = CONSERVATIVE_BOUND")
  case True
  then show ?thesis using policy_values(12) [OF assms(1)] assms(2) by (auto simp: bounded_cost_def split: option.split)
next
  case False
  then show ?thesis by (simp add: bounded_cost_def split: option.split)
qed

lemma conditions_total:
  assumes "check_policy p = Inr ()"
  shows "\<exists>a. assess m p = Inr a" "\<exists>rs. completion_reasons c p = Inr rs" "\<exists>rs. lock_reasons c p = Inr rs"
    "\<exists>piece. net_edge c f x y p = Inr piece" "\<exists>rs. exposure_reasons c usd p = Inr rs" "\<exists>v. risk_buffer_bps p = Inr v"
proof -
  show "\<exists>v. risk_buffer_bps p = Inr v" using policy_values(7) [OF assms] by (cases "risk_buffer_bps p") simp_all
qed (use policy_values [OF assms] in \<open>auto simp: assess_def completion_reasons_def lock_reasons_def net_edge_def
      exposure_reasons_def Let_def value_of split: option.split prod.split\<close>)

lemma evaluate_total:
  assumes policy: "check_policy (eg_policy G) = Inr ()" and legs: "ec_legs c \<noteq> []"
    and judged: "traverse (judge_leg G mode c) (ec_legs c) = Inr judged"
  shows "\<exists>d. evaluate digest G mode c = Inr d"
proof -
  let ?p = "eg_policy G" and ?usd = "resolve_mark (ec_currency c) ''USD'' (ec_time c) (eg_marks G)"
  obtain funding fees where f: "funding_reasons c (concat (map snd judged)) = Inr funding"
    "known_fees c (concat (map snd judged)) = Inr fees" using funding_total [OF judged legs] by blast
  obtain x where x: "bounded_cost (ec_execution_cost c) unknown_execution_cost_bound EXECUTION_COST_UNKNOWN ?p = Inr x"
    using cost_total [OF policy] by blast
  obtain a where a: "bounded_cost (ec_adverse_selection c) unknown_adverse_selection_bound ADVERSE_SELECTION_UNKNOWN ?p = Inr a"
    using cost_total [OF policy] by blast
  obtain s co lo ed ex b where "assess (ec_market c) ?p = Inr s" "completion_reasons c ?p = Inr co" "lock_reasons c ?p = Inr lo"
    "net_edge c fees (fst x) (fst a) ?p = Inr ed" "exposure_reasons c ?usd ?p = Inr ex" "risk_buffer_bps ?p = Inr b"
    using conditions_total [OF policy] by meson
  then show ?thesis unfolding evaluate_def Let_def by (simp add: judged f x a)
qed

section \<open>Claims\<close>

lemma gate_exact:
  assumes policy: "check_policy (eg_policy G) = Inr ()" and legs: "ec_legs c \<noteq> []"
    and res: "evaluate digest G mode c = Inr d"
  shows "ed_eligible d \<longleftrightarrow> admissible G mode c"
  using res
proof (rule evaluate_pieces)
  fix judged funding fees execution adverse safety completion lock edge exposure buffer
  let ?p = "eg_policy G" and ?usd = "resolve_mark (ec_currency c) ''USD'' (ec_time c) (eg_marks G)"
  assume judged: "traverse (judge_leg G mode c) (ec_legs c) = Inr judged"
    and funding: "funding_reasons c (concat (map snd judged)) = Inr funding"
    and fees: "known_fees c (concat (map snd judged)) = Inr fees"
    and x: "bounded_cost (ec_execution_cost c) unknown_execution_cost_bound EXECUTION_COST_UNKNOWN ?p = Inr execution"
    and a: "bounded_cost (ec_adverse_selection c) unknown_adverse_selection_bound ADVERSE_SELECTION_UNKNOWN ?p = Inr adverse"
    and safety: "assess (ec_market c) ?p = Inr safety"
    and completion: "completion_reasons c ?p = Inr completion" and lock: "lock_reasons c ?p = Inr lock"
    and edge: "net_edge c fees (fst execution) (fst adverse) ?p = Inr edge"
    and exposure: "exposure_reasons c ?usd ?p = Inr exposure"
    and d: "d = decision_of digest ?p c ?usd (concat (map snd judged)) fees (fst execution) (fst adverse)
         (ma_state safety) (fst edge) buffer (fromkeys (opening_reasons G c ?usd @ concat (map fst judged) @ funding @
            snd execution @ snd adverse @ market_reasons safety @ completion @ lock @ snd edge @ exposure))"
  note cost = cost_piece [OF policy x] cost_piece [OF policy a]
  have iffs: "concat (map fst judged) = [] \<longleftrightarrow> (\<forall>leg \<in> set (ec_legs c). leg_admissible G mode c leg)"
    "snd execution = [] \<longleftrightarrow> cost_or_bound (ec_execution_cost c) unknown_execution_cost_bound ?p \<noteq> None"
    "snd adverse = [] \<longleftrightarrow> cost_or_bound (ec_adverse_selection c) unknown_adverse_selection_bound ?p \<noteq> None"
    using judged_legs(1) [OF judged] cost by simp_all
  have "ed_eligible d \<longleftrightarrow> opening_reasons G c ?usd = [] \<and> concat (map fst judged) = [] \<and> funding = [] \<and>
      snd execution = [] \<and> snd adverse = [] \<and> market_reasons safety = [] \<and> completion = [] \<and> lock = [] \<and>
      snd edge = [] \<and> exposure = []" by (simp add: d)
  also have "\<dots> \<longleftrightarrow> admissible G mode c"
  proof (cases "concat (map fst judged) = [] \<and> snd execution = [] \<and> snd adverse = [] \<and> ?usd \<noteq> None")
    case True
    then obtain e v m where ok: "\<forall>leg \<in> set (ec_legs c). leg_admissible G mode c leg"
      and e: "cost_or_bound (ec_execution_cost c) unknown_execution_cost_bound ?p = Some e"
      and v: "cost_or_bound (ec_adverse_selection c) unknown_adverse_selection_bound ?p = Some v"
      and m: "?usd = Some m"
      unfolding iffs by auto
    note profiles = judged_profiles [OF judged ok]
    have f: "fees = Some (route_fees G mode c)" using fees fees_of_profiles [OF profiles(2)] profiles(1) by simp
    have "funding = [] \<longleftrightarrow> fl_from (hd (ec_legs c)) = ec_currency c \<and>
        order_input (hd (ec_legs c)) (leg_fee G mode c (hd (ec_legs c))) \<le> ec_capital c"
      using funding funding_of_profiles [OF profiles(2) legs] profiles(1) by (auto simp: not_less split: if_splits)
    moreover have "snd edge = [] \<longleftrightarrow> projr (minimum_net_edge_bps ?p) \<le>
        dsub (dsub (dsub (dsub (ec_gross_edge c) (route_fees G mode c)) e) v) (projr (risk_buffer_bps ?p))"
      using edge cost e v f net_edge_iff [of c "route_fees G mode c" e v ?p "fst edge" "snd edge"] by simp
    moreover have "exposure = [] \<longleftrightarrow> dmul (ec_capital c) (cam_rate m) \<le> projr (maximum_inventory_exposure ?p) \<and>
        dmul (ec_tail_risk c) (cam_rate m) \<le> projr (tail_risk_bound ?p)"
      using exposure exposure_iff m by simp
    ultimately show ?thesis
      using True ok e v m completion_iff [OF completion] lock_iff [OF lock] assess_iff [OF safety]
      by (auto simp: admissible_def Let_def opening_iff market_reasons_iff effective_iff)
  next
    case False
    then show ?thesis unfolding iffs by (auto simp: admissible_def Let_def opening_iff)
  qed
  finally show ?thesis .
qed

text \<open>
  C3: the gate is exact and fails closed. Under a valid policy the decision on a candidate with
  at least one leg says eligible if and only if everything the declarative reading demands is
  proven: effective thresholds, an economic venue, valid data, for every leg an eligible pair,
  exactly one applicable rule the order satisfies and exactly one applicable fee, enough
  capital in the right currency for the first order, a safe market, known completion and lock
  within bounds, a net edge after fees, costs and buffer that reaches the minimum, and exposures
  within their bounds at the one applicable mark.
\<close>

theorem gate_is_exact:
  assumes policy: "check_policy (eg_policy G) = Inr ()" and legs: "ec_legs c \<noteq> []"
    and res: "evaluate digest G mode c = Inr d"
  shows "(ed_eligible d \<longleftrightarrow> admissible G mode c) \<and>
     ed_reasons d \<noteq> [] \<and> distinct (ed_reasons d) \<and> (ELIGIBLE \<in> set (ed_reasons d) \<longleftrightarrow> ed_eligible d)"
  using gate_exact [OF assms] decision_reasons [OF res] by blast

text \<open>
  C23: an evaluation is total, but for one arithmetic corner. Under a valid policy and valid
  exchange rules, evaluating a candidate its constructor accepted returns a decision; the only
  exception that escapes is decimal's InvalidOperation, and only when the price or quantity of
  a leg is at least ten to the 28 times the tick or step of the rule that applies to it.
\<close>

theorem evaluation_is_total:
  assumes policy: "check_policy (eg_policy G) = Inr ()" and candidate: "check_candidate c = Inr ()"
    and rules: "\<forall>r \<in> set (eg_rules G). check_venue_rule (rr_rule r) = Inr ()"
  shows "(\<exists>d. evaluate digest G mode c = Inr d) \<or>
     evaluate digest G mode c = Inl InvalidOperation \<and>
     (\<exists>leg \<in> set (ec_legs c). \<exists>r. resolve_rule (fl_book leg) (ec_time c) mode (eg_rules G) = Some r \<and>
        unit_overflow leg (rr_rule r))"
proof (cases "traverse (judge_leg G mode c) (ec_legs c)")
  case (Inl e)
  then have "evaluate digest G mode c = Inl e" by (simp add: evaluate_def Let_def)
  moreover obtain leg where "leg \<in> set (ec_legs c)" "judge_leg G mode c leg = Inl e" using traverse_Inl [OF Inl] by blast
  ultimately show ?thesis using judge_leg_error [OF _ rules] by blast
next
  case (Inr judged)
  have "ec_legs c \<noteq> []" using candidate by (auto simp: check_candidate_def on_ok_Inr)
  then show ?thesis using evaluate_total [OF policy _ Inr] by blast
qed

section \<open>A concrete gate\<close>

definition sample_threshold :: "string \<Rightarrow> string \<Rightarrow> decimal \<Rightarrow> threshold_definition" where
  "sample_threshold name unit_name v =
     \<lparr>td_name = name, td_value = v, td_unit = unit_name, td_source_type = OWNER_PREREGISTERED,
      td_source_reference = ''ref'', td_derivation_method = ''fixed'', td_calibration_hash = None,
      td_effective_from = 0, td_frozen_at = 0\<rparr>"

definition sample_thresholds :: "threshold_definition list" where
  "sample_thresholds =
     [sample_threshold ''MIN_COMPLETION_PROBABILITY'' ''ratio'' (1 / 2),
      sample_threshold ''MAX_EXPECTED_LOCK_TIME'' ''seconds'' 3600, sample_threshold ''RISK_BUFFER'' ''bps'' (1 / 2),
      sample_threshold ''MAX_INVENTORY_EXPOSURE'' ''USD'' 1000,
      sample_threshold ''PEG_DEVIATION_THRESHOLD'' ''ratio'' (1 / 100), sample_threshold ''MIN_NET_EDGE'' ''bps'' 1,
      sample_threshold ''TAIL_RISK_BOUND'' ''USD'' 10, sample_threshold ''MAX_SPREAD'' ''bps'' 5,
      sample_threshold ''MIN_DEPTH'' ''USD'' 1000, sample_threshold ''MIN_COMPATIBLE_FLOW'' ''asset/second'' 1]"

definition usdc_book :: book_key where
  "usdc_book = Book_Key BINANCE ''USDCUSDT''"

definition sample_gate :: eligibility_gate where
  "sample_gate =
     \<lparr>eg_execution_policy = \<lparr>xp_economic_venues = {BINANCE}, xp_policy_id = ''P'', xp_policy_hash = ''H'', xp_provenance = ''O''\<rparr>,
      eg_policy = \<lparr>mp_policy_id = ''P'', mp_provenance = ''O'',
        mp_thresholds = projr (new_threshold_registry (\<lambda>_. ''T'') sample_thresholds), mp_unknown_cost = REJECT\<rparr>,
      eg_fees = [\<lparr>vf_book = usdc_book, vf_maker_rate = 0, vf_taker_rate = 1 / 1000, vf_fee_asset_semantics = ''RECEIVED_ASSET'',
        vf_effective_start = 0, vf_effective_end = None, vf_provenance = ''api'', vf_account_tier = ''VIP0'',
        vf_acquired_at = Some 1, vf_evidence_status = PROVEN_FORWARD, vf_record_id = Some ''F1'',
        vf_source_reference = Some ''ref''\<rparr>],
      eg_rules = [\<lparr>rr_rule = \<lparr>vr_book = usdc_book, vr_base_asset = ''USDC'', vr_quote_asset = ''USDT'', vr_tick_size = 1 / 10000,
          vr_quantity_step = 1 / 100, vr_minimum_quantity = 1, vr_minimum_notional = 5, vr_price_precision = 4,
          vr_effective_start = 0, vr_effective_end = None, vr_provenance = ''api''\<rparr>,
        rr_evidence_status = RULE_PROVEN_FORWARD, rr_acquired_at = 1, rr_record_id = ''R1'', rr_source_reference = ''ref''\<rparr>],
      eg_pairs = [(usdc_book, \<lparr>pv_book = usdc_book, pv_available = True, pv_data_proven = True, pv_rules_proven = True,
        pv_safety_acceptable = True, pv_liquidity_acceptable = True, pv_temporal_provenance = ''api'',
        pv_effective_start = 0, pv_effective_end = None\<rparr>)],
      eg_marks = [\<lparr>cam_base_asset = ''USDT'', cam_quote_asset = ''USD'', cam_rate = 1, cam_observed_at = 1,
        cam_effective_until = 100, cam_record_id = ''M1'', cam_source_reference = ''ref'', cam_provenance = ''api''\<rparr>]\<rparr>"

definition sample_leg :: "string \<Rightarrow> string \<Rightarrow> string \<Rightarrow> fee_leg" where
  "sample_leg from to side =
     \<lparr>fl_book = usdc_book, fl_maker = True, fl_from = from, fl_to = to, fl_side = side, fl_price = 1, fl_quantity = 10\<rparr>"

definition sample_entry :: "string \<Rightarrow> decimal \<Rightarrow> economic_candidate" where
  "sample_entry name edge =
     \<lparr>ec_id = name, ec_venue = BINANCE, ec_pair = usdc_book, ec_side = ''BUY'', ec_rank = 1, ec_column = 1,
      ec_route_id = ''USDT->USDC->USDT'',
      ec_route = \<lparr>vt_route_id = ''USDT->USDC->USDT'', vt_origin = ''USDT'',
        vt_legs = [\<lparr>vg_book = usdc_book, vg_from = ''USDT'', vg_to = ''USDC'', vg_maker = True\<rparr>,
                   \<lparr>vg_book = usdc_book, vg_from = ''USDC'', vg_to = ''USDT'', vg_maker = True\<rparr>]\<rparr>,
      ec_inventory_state = ''FLAT'', ec_intent = NEW_ENTRY_INTENT, ec_priority = 2, ec_currency = ''USDT'', ec_time = 10,
      ec_gross_edge = edge, ec_execution_cost = Some 1, ec_adverse_selection = Some (1 / 2), ec_completion = Some (4 / 5),
      ec_lock_seconds = Some 3600, ec_p95_lock = None, ec_capital = 10, ec_residual_cost = 0, ec_tail_risk = 0,
      ec_carry_cost = 0, ec_legs = [sample_leg ''USDT'' ''USDC'' ''BUY'', sample_leg ''USDC'' ''USDT'' ''SELL''],
      ec_market = \<lparr>ms_observed_at = 9, ms_regime = ''CALM'', ms_peg_deviation = Some 0, ms_spread_bps = Some 1,
        ms_depth_usd = Some 5000, ms_flow = Some 3, ms_data_gap = False\<rparr>,
      ec_data_state = DATA_VALID, ec_account = Some ''VIP0''\<rparr>"

lemma sample_gate_policy: "check_policy (eg_policy sample_gate) = Inr ()"
  by code_simp

lemma sample_evaluation:
  "case evaluate (\<lambda>_. ''H'') sample_gate FORWARD (sample_entry ''A'' 5) of
     Inr d \<Rightarrow> ed_eligible d \<and> ed_net_edge d = Some 3 | Inl _ \<Rightarrow> False"
  "case evaluate (\<lambda>_. ''H'') sample_gate FORWARD (sample_entry ''B'' 2) of
     Inr d \<Rightarrow> ed_reasons d = [EDGE_BELOW_MINIMUM] | Inl _ \<Rightarrow> False"
  by code_simp+

theorem gate_is_exact_witness: "admissible sample_gate FORWARD (sample_entry ''A'' 5)"
proof -
  obtain d where d: "evaluate (\<lambda>_. ''H'') sample_gate FORWARD (sample_entry ''A'' 5) = Inr d" "ed_eligible d"
    using sample_evaluation(1) by (auto split: sum.splits)
  have "ec_legs (sample_entry ''A'' 5) \<noteq> []" by (simp add: sample_entry_def)
  from gate_is_exact [OF sample_gate_policy this d(1)] d(2) show ?thesis by blast
qed

theorem evaluation_is_total_witness:
  "\<exists>d. evaluate (\<lambda>_. ''H'') sample_gate FORWARD (sample_entry ''B'' 2) = Inr d"
proof -
  have "check_candidate (sample_entry ''B'' 2) = Inr ()"
    and "\<forall>r \<in> set (eg_rules sample_gate). check_venue_rule (rr_rule r) = Inr ()" by code_simp+
  from evaluation_is_total [OF sample_gate_policy this] sample_evaluation(2) show ?thesis by (auto split: sum.splits)
qed

text \<open>
  An order whose price is too large for its tick makes decimal raise InvalidOperation, which the
  handler for ValueError does not catch: the evaluation is lost instead of rejecting the order.
\<close>

definition oversized_entry :: economic_candidate where
  "oversized_entry = (sample_entry ''C'' 5)\<lparr>ec_legs :=
     [(sample_leg ''USDT'' ''USDC'' ''BUY'')\<lparr>fl_price := 10 ^ 25\<rparr>, sample_leg ''USDC'' ''USDT'' ''SELL'']\<rparr>"

lemma oversized_order_aborts_evaluation:
  "check_candidate oversized_entry = Inr () \<and>
     evaluate (\<lambda>_. ''H'') sample_gate FORWARD oversized_entry = Inl InvalidOperation"
proof -
  have "check_candidate oversized_entry = Inr ()" by code_simp
  moreover have "case evaluate (\<lambda>_. ''H'') sample_gate FORWARD oversized_entry of Inl e \<Rightarrow> e = InvalidOperation | Inr _ \<Rightarrow> False"
    by code_simp
  ultimately show ?thesis by (simp split: sum.splits)
qed

end
