(* ===== verification/M034_Allocation_Facts.thy ===== *)
theory M034_Allocation_Facts
  imports M034_Allocation M034_Gate_Facts Multi_Stable_Ledger_Facts
begin

text \<open>
  What an allocation guarantees: only admissible candidates receive capital, every unit of the
  available capital is classified exactly once, and the decision ledger stays unique and causal
  whatever calls raise. An exit at a loss is warranted by a rule, and the slot ledger that
  settles it stays within what was warranted.
\<close>

section \<open>Exact sums under a bound\<close>

lemma dadd_grows: "exact28 a \<Longrightarrow> 0 \<le> x \<Longrightarrow> a \<le> dadd a x"
  by (simp add: dadd_def exact28_def prec28.rnd_ge_exact)

lemma foldl_dadd_grows: "exact28 a \<Longrightarrow> \<forall>x \<in> set xs. 0 \<le> x \<Longrightarrow> a \<le> foldl dadd a xs"
proof (induction xs arbitrary: a)
  case (Cons x xs)
  then have "a \<le> dadd a x" "dadd a x \<le> foldl dadd (dadd a x) xs" using dadd_grows by simp_all
  then show ?case by simp
qed simp

lemma pow10_exact28 [simp]: "exact28 (pow10 e)"
proof -
  have "pow10 e = of_int 1 * pow10 e" "\<bar>pow10 e\<bar> < pow10 (int 28 + e)" by simp_all
  then show ?thesis unfolding exact28_def by (rule dround_grid_le)
qed

lemma foldl_dadd_bounded:
  "on_flow_grid k a \<Longrightarrow> \<forall>x \<in> set xs. on_flow_grid k x \<Longrightarrow> on_flow_grid k B \<Longrightarrow> foldl dadd a xs \<le> B \<Longrightarrow>
     foldl dadd a xs = a + sum_list xs \<and> on_flow_grid k (a + sum_list xs)"
proof (induction xs arbitrary: a)
  case (Cons x xs)
  let ?P = "pow10 (28 - int k)"
  have x: "on_flow_grid k x" "0 \<le> x" using Cons.prems(2) by (auto simp: on_flow_grid_def)
  have "exact28 (dadd a x)" by simp
  then have "dadd a x \<le> foldl dadd (dadd a x) xs"
    by (rule foldl_dadd_grows) (use Cons.prems(2) in \<open>auto simp: on_flow_grid_def\<close>)
  then have small: "dadd a x < ?P" using Cons.prems(3,4) by (simp add: on_flow_grid_def)
  have "a + x < ?P"
  proof (rule ccontr)
    assume "\<not> a + x < ?P"
    then have "?P \<le> dadd a x" unfolding dadd_def using pow10_exact28 [of "28 - int k"]
      by (intro prec28.rnd_ge_exact) (simp_all add: exact28_def)
    then show False using small by simp
  qed
  then have sum: "dadd a x = a + x \<and> on_flow_grid k (a + x)" using Cons.prems(1) x by (intro flow_grid_add) auto
  then show ?case using Cons.IH [of "a + x"] Cons.prems by (simp add: add.assoc)
qed simp

lemma dsum_bounded:
  "\<forall>x \<in> set xs. on_flow_grid k x \<Longrightarrow> on_flow_grid k B \<Longrightarrow> dsum xs \<le> B \<Longrightarrow>
     dsum xs = sum_list xs \<and> on_flow_grid k (sum_list xs)"
  using foldl_dadd_bounded [of k 0 xs B] by (simp add: dsum_def on_flow_grid_def)

section \<open>The ledger\<close>

definition decision_inv :: "decision_ledger \<Rightarrow> bool" where
  "decision_inv L \<longleftrightarrow>
     distinct (map ed_id (dl_decisions L)) \<and> dl_ids L = set (map ed_id (dl_decisions L)) \<and>
     (\<forall>d \<in> set (dl_decisions L). ed_reasons d \<noteq> []) \<and> sorted (map ks_time (dl_states L))"

lemma append_decision_inv: "decision_inv L \<Longrightarrow> decision_inv (post_state (append_decision d L))"
  by (auto simp: append_decision_def decision_inv_def)

lemma sorted_snoc_last:
  assumes "sorted (map f xs)" and "xs \<noteq> [] \<Longrightarrow> f (last xs) \<le> f x"
  shows "sorted (map f (xs @ [x]))"
proof (cases xs rule: rev_cases)
  case (snoc ys y)
  then have "\<forall>z \<in> set (map f ys). z \<le> f y" "f y \<le> f x" using assms by (simp_all add: sorted_append)
  then show ?thesis using assms(1) snoc by (fastforce simp: sorted_append)
qed simp

lemma append_capital_state_inv: "decision_inv L \<Longrightarrow> decision_inv (post_state (append_capital_state r L))"
  using sorted_snoc_last [of ks_time "dl_states L" r]
  by (auto simp: append_capital_state_def decision_inv_def not_less simp del: map_append)

lemma post_capital_inv: "decision_inv L \<Longrightarrow> decision_inv (post_state (post_capital now currency kind v reason L))"
  by (auto simp: post_capital_def Let_def append_capital_state_inv split: sum.splits)

lemma append_decisions_inv: "decision_inv L \<Longrightarrow> decision_inv (post_state (append_decisions ds L))"
proof (induction ds arbitrary: L)
  case (Cons d ds)
  then show ?case using append_decision_inv [of L d] by (auto intro!: and_then_post [where Q = decision_inv])
qed simp

lemma post_selected_inv:
  "decision_inv L \<Longrightarrow> decision_inv (post_state (post_selected now currency cs rows L))"
proof (induction rows arbitrary: L)
  case (Cons row rows)
  then show ?case
    by (auto simp: with_key_def post_capital_inv intro!: and_then_post [where Q = decision_inv] split: option.split)
qed simp

lemma classify_rest_inv: "decision_inv L \<Longrightarrow> decision_inv (post_state (classify_rest now currency b u rest L))"
  by (auto simp: classify_rest_def Let_def post_capital_inv intro!: and_then_post [where Q = decision_inv])

lemma allocate_inv:
  "decision_inv L \<Longrightarrow> decision_inv (post_state (evaluate_and_allocate digest G cs mode available currency now L))"
  unfolding evaluate_and_allocate_def Let_def
  by (intro raising_post [where Q = decision_inv] and_then_post [where Q = decision_inv])
    (simp_all add: append_decisions_inv post_selected_inv classify_rest_inv)

datatype (plugins only: code size) decision_op =
    Allocate "economic_candidate list" evaluation_mode decimal string int
  | AppendDecision eligibility_decision
  | AppendCapitalState capital_state_record

fun exec_decision ::
    "((string \<times> string) list \<Rightarrow> string) \<Rightarrow> eligibility_gate \<Rightarrow> decision_op \<Rightarrow> decision_ledger \<Rightarrow>
     (allocation_result option, decision_ledger) outcome" where
  "exec_decision digest G (Allocate cs mode available currency now) L =
     returning Some (evaluate_and_allocate digest G cs mode available currency now L)"
| "exec_decision digest G (AppendDecision d) L = returning (\<lambda>_. None) (append_decision d L)"
| "exec_decision digest G (AppendCapitalState r) L = returning (\<lambda>_. None) (append_capital_state r L)"

lemma post_returning [simp]: "post_state (returning f m) = post_state m"
  by (cases m) (simp_all add: returning_def)

lemma exec_decision_inv: "decision_inv L \<Longrightarrow> decision_inv (post_state (exec_decision digest G op L))"
  by (cases op) (simp_all add: allocate_inv append_decision_inv append_capital_state_inv)

interpretation decision_ops: robust_ops "exec_decision digest G" decision_inv for digest G
  by unfold_locales (metis exec_decision_inv post_state.simps)+

section \<open>What a returning allocation did\<close>

lemma post_capital_Return:
  "post_capital now currency kind v reason L = Return u L' \<longleftrightarrow>
     0 \<le> now \<and> 0 \<le> v \<and> currency \<noteq> [] \<and> \<not> (dl_states L \<noteq> [] \<and> now < ks_time (last (dl_states L))) \<and>
     L' = L\<lparr>dl_states := dl_states L @
       [\<lparr>ks_time = now, ks_use = kind, ks_capital = v, ks_currency = currency, ks_reason = reason\<rparr>]\<rparr>"
  by (auto simp: post_capital_def check_capital_state_def ensure_def append_capital_state_def Let_def)

lemma append_decisions_Return:
  "append_decisions ds L = Return u L' \<Longrightarrow> dl_decisions L' = dl_decisions L @ ds \<and> dl_states L' = dl_states L"
proof (induction ds arbitrary: L)
  case (Cons d ds)
  then show ?case by (auto simp: append_decision_def split: if_splits)
qed simp

text \<open>The states a call has appended, under the names of their uses.\<close>

definition active :: "capital_state_record \<Rightarrow> bool" where
  "active s \<longleftrightarrow> ks_use s = ACTIVE_NEW_ENTRY \<or> ks_use s = ACTIVE_OWNED_RETURN"

lemma post_selected_Return:
  "post_selected now currency cs rows L = Return u L' \<Longrightarrow> \<exists>new. dl_states L' = dl_states L @ new \<and>
     dl_decisions L' = dl_decisions L \<and> map ks_capital new = map pb_capital rows \<and>
     (\<forall>s \<in> set new. ks_time s = now \<and> ks_currency s = currency \<and> active s)"
proof (induction rows arbitrary: L)
  case (Cons row rows)
  then obtain kind reason L1 where first: "post_capital now currency kind (pb_capital row) reason L = Return () L1"
    and kind: "kind = ACTIVE_NEW_ENTRY \<or> kind = ACTIVE_OWNED_RETURN"
    and rest: "post_selected now currency cs rows L1 = Return u L'"
    by (auto simp: with_key_def split: option.splits)
  obtain new where new: "dl_states L' = dl_states L1 @ new" "dl_decisions L' = dl_decisions L1"
    "map ks_capital new = map pb_capital rows" "\<forall>s \<in> set new. ks_time s = now \<and> ks_currency s = currency \<and> active s"
    using Cons.IH [OF rest] by blast
  let ?s = "\<lparr>ks_time = now, ks_use = kind, ks_capital = pb_capital row, ks_currency = currency, ks_reason = reason\<rparr>"
  show ?case
    by (rule exI [of _ "?s # new"]) (use new kind first in \<open>auto simp: post_capital_Return active_def\<close>)
qed simp

lemma classify_rest_Return:
  assumes res: "classify_rest now currency blocked u rest L = Return x L'"
    and grid: "on_flow_grid k u" "on_flow_grid k (min blocked u)" and idle: "fst rest \<noteq> ACTIVE_NEW_ENTRY" "fst rest \<noteq> ACTIVE_OWNED_RETURN"
  shows "\<exists>new. dl_states L' = dl_states L @ new \<and> dl_decisions L' = dl_decisions L \<and> sum_list (map ks_capital new) = u \<and>
     (\<forall>s \<in> set new. ks_time s = now \<and> ks_currency s = currency \<and> 0 < ks_capital s \<and> \<not> active s)"
proof -
  let ?l = "min blocked u"
  have sub: "dsub u ?l = u - ?l" by (rule flow_grid_sub [OF grid]) simp
  then have sub': "blocked < u \<Longrightarrow> dsub u blocked = u - blocked" by (simp add: min_def)
  have nonneg: "0 \<le> ?l" "0 \<le> u" using grid by (simp_all add: on_flow_grid_def)
  let ?locked = "if 0 < ?l then [\<lparr>ks_time = now, ks_use = LOCKED_INVENTORY, ks_capital = ?l, ks_currency = currency,
      ks_reason = CAPITAL_LOCKED_INVENTORY\<rparr>] else []"
  let ?left = "if 0 < u - ?l then [\<lparr>ks_time = now, ks_use = fst rest, ks_capital = u - ?l, ks_currency = currency,
      ks_reason = snd rest\<rparr>] else []"
  have "dl_states L' = dl_states L @ ?locked @ ?left \<and> dl_decisions L' = dl_decisions L"
    using res nonneg unfolding classify_rest_def Let_def and_then_Return
    by (elim exE conjE) (auto simp: post_capital_Return sub sub' split: if_splits)
  moreover have "sum_list (map ks_capital (?locked @ ?left)) = u" using nonneg by (auto split: if_splits)
  moreover have "\<forall>s \<in> set (?locked @ ?left). ks_time s = now \<and> ks_currency s = currency \<and> 0 < ks_capital s \<and> \<not> active s"
    using idle by (auto simp: active_def)
  ultimately show ?thesis by blast
qed

lemma remaining_use_idle:
  "fst (remaining_use evaluated ids) \<noteq> ACTIVE_NEW_ENTRY" "fst (remaining_use evaluated ids) \<noteq> ACTIVE_OWNED_RETURN"
  by (simp_all add: remaining_use_def)

section \<open>Scores and choice\<close>

lemma score_eligible_row:
  "score_eligible o' = Inr b \<Longrightarrow> good_eligible_row b \<and> pb_candidate b = eo_candidate o' \<and> pb_capital b = eo_capital o' \<and>
     pb_priority b = eo_priority o'"
  by (auto simp: score_eligible_def good_eligible_row_def Let_def split: if_splits)

lemma opportunity_of_row:
  "opportunity_of (c, d) = Inr o' \<Longrightarrow> eo_candidate o' = ec_id c \<and> eo_capital o' = ec_capital c \<and> eo_priority o' = ec_priority c"
  by (auto simp: opportunity_of_def split: option.splits)

lemma ranked_candidates:
  assumes opportunities: "traverse opportunity_of (filter (\<lambda>(c, d). ed_eligible d) evaluated) = Inr os"
    and scores: "rank_eligible os = Inr scores"
  shows "mset (map pb_candidate scores) = mset (map (\<lambda>(c, d). ec_id c) (filter (\<lambda>(c, d). ed_eligible d) evaluated))"
    and "b \<in> set scores \<Longrightarrow> good_eligible_row b \<and> (\<exists>c d. (c, d) \<in> set evaluated \<and> ed_eligible d \<and>
           pb_candidate b = ec_id c \<and> pb_capital b = ec_capital c \<and> pb_priority b = ec_priority c)"
    and "sorted (map pb_priority scores)" "sort_key productivity_key scores = scores"
proof -
  obtain scored where scored: "traverse score_eligible os = Inr scored" and s: "scores = sort_key productivity_key scored"
    using scores by (auto simp: rank_eligible_def split: sum.splits)
  have names: "traverse f xs = Inr ys \<Longrightarrow> (\<And>x y. f x = Inr y \<Longrightarrow> name' y = name x) \<Longrightarrow> map name' ys = map name xs"
    for f :: "'x \<Rightarrow> py_error + 'y" and xs ys and name :: "'x \<Rightarrow> string" and name'
    by (induction xs arbitrary: ys) (auto split: sum.splits)
  have "map pb_candidate scored = map eo_candidate os" by (rule names [OF scored]) (simp add: score_eligible_row)
  moreover have "map eo_candidate os = map (\<lambda>(c, d). ec_id c) (filter (\<lambda>(c, d). ed_eligible d) evaluated)"
    by (rule names [OF opportunities]) (auto simp: opportunity_of_row)
  ultimately have "map pb_candidate scored = map (\<lambda>(c, d). ec_id c) (filter (\<lambda>(c, d). ed_eligible d) evaluated)" by simp
  moreover have "mset (map pb_candidate scores) = mset (map pb_candidate scored)" by (simp add: s)
  ultimately show "mset (map pb_candidate scores) = mset (map (\<lambda>(c, d). ec_id c) (filter (\<lambda>(c, d). ed_eligible d) evaluated))"
    by (simp only:)
  show "good_eligible_row b \<and> (\<exists>c d. (c, d) \<in> set evaluated \<and> ed_eligible d \<and>
      pb_candidate b = ec_id c \<and> pb_capital b = ec_capital c \<and> pb_priority b = ec_priority c)" if b: "b \<in> set scores"
  proof -
    obtain o' where o': "o' \<in> set os" "score_eligible o' = Inr b" using traverse_origin [OF scored, of b] b s by auto
    obtain c d where "(c, d) \<in> set evaluated" "ed_eligible d" "opportunity_of (c, d) = Inr o'"
      using traverse_origin [OF opportunities o'(1)] by auto
    then show ?thesis using score_eligible_row [OF o'(2)] opportunity_of_row by metis
  qed
  have key: "sorted (map productivity_key scores)" by (simp add: s)
  then show "sort_key productivity_key scores = scores" by (rule sort_key_sorted)
  from key show "sorted (map pb_priority scores)"
    unfolding sorted_map by (rule sorted_wrt_mono_rel [rotated]) (auto simp: productivity_key_def less_eq_prod_def)
qed

lemma pick_distinct: "distinct (map f rows) \<Longrightarrow> distinct (map f (pick prio gain cost left rows))"
proof (induction rows arbitrary: left)
  case (Cons row rows)
  have "set (pick prio gain cost l rows) \<subseteq> set rows" for l by (induction rows arbitrary: l) auto
  then have "f row \<notin> f ` set (pick prio gain cost l rows)" for l using Cons.prems by auto
  then show ?case using Cons by auto
qed simp

lemma dict_by_get:
  "distinct (map key xs) \<Longrightarrow> dict_get (dict_by key xs) i = Some x \<longleftrightarrow> x \<in> set xs \<and> key x = i"
  by (auto simp: dict_by_distinct map_of_eq_Some_iff comp_def)

abbreviation economic :: "eligibility_gate \<Rightarrow> economic_candidate list \<Rightarrow> economic_candidate list" where
  "economic G cs \<equiv> filter (\<lambda>c. ec_venue c \<in> xp_economic_venues (eg_execution_policy G)) cs"

definition blocked_capital :: "(economic_candidate \<times> eligibility_decision) list \<Rightarrow> decimal" where
  "blocked_capital evaluated =
     dsum (map (\<lambda>(c, d). ec_capital c) (filter (\<lambda>(c, d). ec_intent c = OWNED_RETURN_INTENT \<and> \<not> ed_eligible d) evaluated))"

lemma allocate_pieces:
  assumes "evaluate_and_allocate digest G cs mode available currency now L = Return r L'"
  obtains decisions os scores L1 L2 selected final where
    "request_error (economic G cs) available currency now = Inr ()"
    "traverse (evaluate digest G mode) (economic G cs) = Inr decisions"
    "traverse opportunity_of (filter (\<lambda>(c, d). ed_eligible d) (zip (economic G cs) decisions)) = Inr os"
    "rank_eligible os = Inr scores"
    "selected = pick pb_priority pb_productivity pb_capital
       (max (dsub available (blocked_capital (zip (economic G cs) decisions))) 0) scores"
    "final = map (final_decision (dict_by pb_candidate scores) (set (map pb_candidate selected))) (zip (economic G cs) decisions)"
    "append_decisions final L = Return () L1"
    "post_selected now currency (dict_by ec_id (economic G cs)) selected L1 = Return () L2"
    "classify_rest now currency (blocked_capital (zip (economic G cs) decisions)) (dsub available (dsum (map pb_capital selected)))
       (remaining_use (zip (economic G cs) decisions) (set (map pb_candidate selected))) L2 = Return () L'"
    "ar_decisions r = final"
    "ar_selected r = filter (has_key (dict_by ec_id (economic G cs))) (map pb_candidate selected)"
proof -
  from assms obtain decisions os scores selected L1 L2 where
    p: "request_error (economic G cs) available currency now = Inr ()"
    "traverse (evaluate digest G mode) (economic G cs) = Inr decisions"
    "traverse opportunity_of (filter (\<lambda>(c, d). ed_eligible d) (zip (economic G cs) decisions)) = Inr os"
    "rank_eligible os = Inr scores"
    and choice: "choose_eligible scores (max (dsub available (blocked_capital (zip (economic G cs) decisions))) 0) = Inr selected"
    and q: "append_decisions (map (final_decision (dict_by pb_candidate scores) (set (map pb_candidate selected)))
         (zip (economic G cs) decisions)) L = Return () L1"
    "post_selected now currency (dict_by ec_id (economic G cs)) selected L1 = Return () L2"
    "classify_rest now currency (blocked_capital (zip (economic G cs) decisions)) (dsub available (dsum (map pb_capital selected)))
       (remaining_use (zip (economic G cs) decisions) (set (map pb_candidate selected))) L2 = Return () L'"
    and r: "ar_decisions r = map (final_decision (dict_by pb_candidate scores) (set (map pb_candidate selected)))
         (zip (economic G cs) decisions)"
    "ar_selected r = filter (has_key (dict_by ec_id (economic G cs))) (map pb_candidate selected)"
    unfolding evaluate_and_allocate_def Let_def raising_Return and_then_Return blocked_capital_def
    by (elim exE conjE) auto
  have "selected = pick pb_priority pb_productivity pb_capital
       (max (dsub available (blocked_capital (zip (economic G cs) decisions))) 0) scores"
    using choice ranked_candidates(4) [OF p(3,4)] by (simp add: choose_eligible_def split: if_splits)
  then show thesis by (rule that [OF p _ refl q r])
qed

text \<open>Candidates, scores and selection, once an allocation has returned.\<close>

lemma allocation_names:
  assumes "request_error cs available currency now = Inr ()"
    and decisions: "traverse (evaluate digest G mode) cs = Inr decisions"
    and opportunities: "traverse opportunity_of (filter (\<lambda>(c, d). ed_eligible d) (zip cs decisions)) = Inr os"
    and scores: "rank_eligible os = Inr scores"
  shows "distinct (map ec_id cs)" "length decisions = length cs" "distinct (map pb_candidate scores)"
    and "b \<in> set scores \<Longrightarrow> \<exists>c d. (c, d) \<in> set (zip cs decisions) \<and> ed_eligible d \<and> evaluate digest G mode c = Inr d \<and>
           dict_get (dict_by ec_id cs) (pb_candidate b) = Some c \<and> pb_capital b = ec_capital c \<and> pb_priority b = ec_priority c"
proof -
  show ids: "distinct (map ec_id cs)" using assms(1) by (simp add: request_error_def split: if_splits)
  show len: "length decisions = length cs" by (rule traverse_length [OF decisions])
  have "map (\<lambda>(c, d). ec_id c) (zip cs decisions) = map ec_id (map fst (zip cs decisions))"
    by (auto simp: comp_def case_prod_beta)
  also have "\<dots> = map ec_id cs" using len by simp
  finally have "map (\<lambda>(c, d). ec_id c) (zip cs decisions) = map ec_id cs" .
  then have "distinct (map (\<lambda>(c, d). ec_id c) (filter (\<lambda>(c, d). ed_eligible d) (zip cs decisions)))"
    using ids distinct_map_filter by metis
  then show "distinct (map pb_candidate scores)"
    using ranked_candidates(1) [OF opportunities scores] mset_eq_imp_distinct_iff by blast
  assume b: "b \<in> set scores"
  obtain c d where cd: "(c, d) \<in> set (zip cs decisions)" "ed_eligible d" "pb_candidate b = ec_id c"
    "pb_capital b = ec_capital c" "pb_priority b = ec_priority c"
    using ranked_candidates(2) [OF opportunities scores b] by blast
  have "evaluate digest G mode c = Inr d" by (rule traverse_zip [OF decisions cd(1)])
  moreover have "dict_get (dict_by ec_id cs) (pb_candidate b) = Some c"
    unfolding dict_by_get [OF ids] using cd(1,3) by (auto dest: set_zip_leftD)
  ultimately show "\<exists>c d. (c, d) \<in> set (zip cs decisions) \<and> ed_eligible d \<and> evaluate digest G mode c = Inr d \<and>
      dict_get (dict_by ec_id cs) (pb_candidate b) = Some c \<and> pb_capital b = ec_capital c \<and> pb_priority b = ec_priority c"
    using cd by blast
qed

text \<open>The selection and the decisions of a returned allocation.\<close>

lemma allocation_view:
  assumes res: "evaluate_and_allocate digest G cs mode available currency now L = Return r L'"
  obtains decisions scores selected where
    "distinct (map ec_id (economic G cs))" "traverse (evaluate digest G mode) (economic G cs) = Inr decisions"
    "distinct (map pb_candidate scores)" "set selected \<subseteq> set scores"
    "\<forall>b \<in> set scores. \<exists>c d. (c, d) \<in> set (zip (economic G cs) decisions) \<and> ed_eligible d \<and>
       dict_get (dict_by ec_id (economic G cs)) (pb_candidate b) = Some c \<and> pb_capital b = ec_capital c \<and> pb_priority b = ec_priority c"
    "selected = pick pb_priority pb_productivity pb_capital
       (max (dsub available (blocked_capital (zip (economic G cs) decisions))) 0) scores"
    "ar_selected r = map pb_candidate selected"
    "ar_decisions r = map (final_decision (dict_by pb_candidate scores) (set (ar_selected r))) (zip (economic G cs) decisions)"
    "dl_decisions L' = dl_decisions L @ ar_decisions r"
  using res
proof (rule allocate_pieces)
  let ?cs = "economic G cs"
  fix decisions :: "eligibility_decision list" and os scores L1 L2 selected final
  let ?evaluated = "zip ?cs decisions"
  assume request: "request_error ?cs available currency now = Inr ()"
    and decisions: "traverse (evaluate digest G mode) ?cs = Inr decisions"
    and os: "traverse opportunity_of (filter (\<lambda>(c, d). ed_eligible d) ?evaluated) = Inr os"
    and scores: "rank_eligible os = Inr scores"
    and selected: "selected = pick pb_priority pb_productivity pb_capital (max (dsub available (blocked_capital ?evaluated)) 0) scores"
    and final: "final = map (final_decision (dict_by pb_candidate scores) (set (map pb_candidate selected))) ?evaluated"
    and L1: "append_decisions final L = Return () L1"
    and L2: "post_selected now currency (dict_by ec_id ?cs) selected L1 = Return () L2"
    and rest: "classify_rest now currency (blocked_capital ?evaluated) (dsub available (dsum (map pb_capital selected)))
       (remaining_use ?evaluated (set (map pb_candidate selected))) L2 = Return () L'"
    and r: "ar_decisions r = final" "ar_selected r = filter (has_key (dict_by ec_id ?cs)) (map pb_candidate selected)"
  note names = allocation_names [OF request decisions os scores]
  have sub: "set selected \<subseteq> set scores" unfolding selected by (rule eligible_choice.picked_subset)
  have rows: "\<forall>b \<in> set scores. \<exists>c d. (c, d) \<in> set ?evaluated \<and> ed_eligible d \<and>
       dict_get (dict_by ec_id ?cs) (pb_candidate b) = Some c \<and> pb_capital b = ec_capital c \<and> pb_priority b = ec_priority c"
    using names(4) by blast
  then have "\<forall>i \<in> set (map pb_candidate selected). has_key (dict_by ec_id ?cs) i" using sub by (auto simp: has_key_iff)
  then have ids: "ar_selected r = map pb_candidate selected" unfolding r by (simp only: filter_True)
  have "dl_decisions L' = dl_decisions L2" using rest
    by (auto simp: classify_rest_def Let_def post_capital_Return split: if_splits)
  then have "dl_decisions L' = dl_decisions L @ final"
    using post_selected_Return [OF L2] append_decisions_Return [OF L1] by auto
  then show thesis
    by (intro that [OF names(1) decisions names(3) sub rows selected ids]) (simp_all add: r(1) final ids)
qed

lemma final_decision_candidate [simp]: "ed_candidate (final_decision D S (c, d)) = ed_candidate d"
  by (simp add: final_decision_def split: option.split)

text \<open>A slot is authorized exactly for the selected candidates.\<close>

lemma final_decision_slots:
  assumes "distinct (map pb_candidate scores)" and "S \<subseteq> pb_candidate ` set scores" and "ed_slots d = 0"
  shows "ed_slots (final_decision (dict_by pb_candidate scores) S (c, d)) = 1 \<longleftrightarrow> ec_id c \<in> S"
proof (cases "ec_id c \<in> S")
  case True
  then obtain b where "b \<in> set scores" "pb_candidate b = ec_id c" using assms(2) by auto
  then have "dict_get (dict_by pb_candidate scores) (ec_id c) = Some b" unfolding dict_by_get [OF assms(1)] by simp
  then show ?thesis using True by (simp add: final_decision_def)
qed (use assms(3) in \<open>simp add: final_decision_def split: option.split\<close>)

lemma final_decision_productivity:
  assumes "distinct (map pb_candidate scores)" and "b \<in> set scores" and "pb_candidate b = ec_id c"
  shows "ed_productivity (final_decision (dict_by pb_candidate scores) S (c, d)) = Some (pb_productivity b)"
proof -
  have "dict_get (dict_by pb_candidate scores) (ec_id c) = Some b" unfolding dict_by_get [OF assms(1)] using assms(2,3) by simp
  then show ?thesis by (simp add: final_decision_def)
qed

lemma evaluated_row:
  assumes "traverse (evaluate digest G mode) cs = Inr decisions" and "(c, d) \<in> set (zip cs decisions)"
  shows "evaluate digest G mode c = Inr d" "ed_candidate d = ec_id c" "ed_slots d = 0" "c \<in> set cs"
proof -
  show e: "evaluate digest G mode c = Inr d" by (rule traverse_zip [OF assms])
  from e show "ed_candidate d = ec_id c" by (rule evaluate_pieces) simp
  from e show "ed_slots d = 0" by (rule evaluate_pieces) simp
  from assms(2) show "c \<in> set cs" by (rule set_zip_leftD)
qed

lemma zip_member: "length xs = length ys \<Longrightarrow> x \<in> set xs \<Longrightarrow> \<exists>y. (x, y) \<in> set (zip xs ys)"
  by (induction xs ys rule: list_induct2) auto

lemma decisions_in_order:
  assumes decisions: "traverse (evaluate digest G mode) cs = Inr decisions"
  shows "map ed_candidate (map (final_decision D S) (zip cs decisions)) = map ec_id cs"
proof -
  have "map ed_candidate (map (final_decision D S) (zip cs decisions)) = map (\<lambda>cd. ec_id (fst cd)) (zip cs decisions)"
    using evaluated_row(2) [OF decisions] by auto
  also have "\<dots> = map ec_id (map fst (zip cs decisions))" by simp
  also have "\<dots> = map ec_id cs" using traverse_length [OF decisions] by simp
  finally show ?thesis .
qed

section \<open>Claims on allocations\<close>

text \<open>
  C4: only admissible candidates receive capital, and every candidate of an economic venue is
  answered. When an allocation returns under a valid policy, it has appended one decision per
  economic candidate, in their order; the selected candidates are distinct and are those whose
  decision authorizes a slot; each of them is admissible by the declarative reading of the gate,
  and is an obligation or has a positive productivity.
\<close>

theorem allocation_is_admissible:
  assumes res: "evaluate_and_allocate digest G cs mode available currency now L = Return r L'"
    and policy: "check_policy (eg_policy G) = Inr ()" and candidates: "\<forall>c \<in> set cs. check_candidate c = Inr ()"
  shows "dl_decisions L' = dl_decisions L @ ar_decisions r \<and>
     map ed_candidate (ar_decisions r) = map ec_id (economic G cs) \<and> distinct (ar_selected r) \<and>
     (\<forall>d \<in> set (ar_decisions r). ed_slots d = 1 \<longleftrightarrow> ed_candidate d \<in> set (ar_selected r)) \<and>
     (\<forall>i \<in> set (ar_selected r). \<exists>c \<in> set (economic G cs). ec_id c = i \<and> admissible G mode c \<and>
        (ec_priority c = 1 \<or> (\<exists>d \<in> set (ar_decisions r). \<exists>v. ed_candidate d = i \<and> ed_productivity d = Some v \<and> 0 < v)))"
  using res
proof (rule allocation_view)
  let ?cs = "economic G cs"
  fix decisions :: "eligibility_decision list" and scores selected
  assume ids: "distinct (map ec_id ?cs)" and decisions: "traverse (evaluate digest G mode) ?cs = Inr decisions"
    and names: "distinct (map pb_candidate scores)" and sub: "set selected \<subseteq> set scores"
    and rows: "\<forall>b \<in> set scores. \<exists>c d. (c, d) \<in> set (zip ?cs decisions) \<and> ed_eligible d \<and>
       dict_get (dict_by ec_id ?cs) (pb_candidate b) = Some c \<and> pb_capital b = ec_capital c \<and> pb_priority b = ec_priority c"
    and selected: "selected = pick pb_priority pb_productivity pb_capital (max (dsub available (blocked_capital (zip ?cs decisions))) 0) scores"
    and r: "ar_selected r = map pb_candidate selected"
    and final: "ar_decisions r = map (final_decision (dict_by pb_candidate scores) (set (ar_selected r))) (zip ?cs decisions)"
    and L': "dl_decisions L' = dl_decisions L @ ar_decisions r"
  note row = evaluated_row [OF decisions]
  have S: "set (ar_selected r) \<subseteq> pb_candidate ` set scores" using sub by (auto simp: r)
  have order: "map ed_candidate (ar_decisions r) = map ec_id ?cs" unfolding final by (rule decisions_in_order [OF decisions])
  have dist: "distinct (ar_selected r)" unfolding r selected by (rule pick_distinct [OF names])
  have slots: "\<forall>d \<in> set (ar_decisions r). ed_slots d = 1 \<longleftrightarrow> ed_candidate d \<in> set (ar_selected r)"
    unfolding final using final_decision_slots [OF names S] row(2,3) by auto
  have "\<exists>c \<in> set ?cs. ec_id c = pb_candidate b \<and> admissible G mode c \<and> (ec_priority c = 1 \<or>
      (\<exists>d \<in> set (ar_decisions r). \<exists>v. ed_candidate d = pb_candidate b \<and> ed_productivity d = Some v \<and> 0 < v))"
    if b: "b \<in> set selected" for b
  proof -
    from b sub have bs: "b \<in> set scores" by blast
    then obtain c d where cd: "(c, d) \<in> set (zip ?cs decisions)" "ed_eligible d" "ec_id c = pb_candidate b" "pb_priority b = ec_priority c"
      using rows dict_by_get [OF ids] by meson
    have "ec_legs c \<noteq> []" using candidates row(4) [OF cd(1)] by (auto simp: check_candidate_def on_ok_Inr)
    then have ok: "admissible G mode c" using gate_exact [OF policy _ row(1) [OF cd(1)]] cd(2) by blast
    let ?d = "final_decision (dict_by pb_candidate scores) (set (ar_selected r)) (c, d)"
    have d: "?d \<in> set (ar_decisions r)" "ed_candidate ?d = pb_candidate b" "ed_productivity ?d = Some (pb_productivity b)"
      using cd(1,3) row(2) [OF cd(1)] final_decision_productivity [OF names bs] by (auto simp: final)
    have "pb_priority b = 1 \<or> 0 < pb_productivity b" using eligible_choice.picked_earns b unfolding selected by blast
    then show ?thesis using row(4) [OF cd(1)] cd(3,4) ok d by metis
  qed
  then show ?thesis using L' order dist slots by (auto simp: r)
qed

text \<open>The arithmetic of the classification, on amounts of one grid.\<close>

lemma blocked_on_grid:
  assumes available: "on_flow_grid k available" and blocked: "\<forall>x \<in> set xs. on_flow_grid k x"
    and chosen: "on_flow_grid k spent" "spent \<le> max (dsub available (dsum xs)) 0"
  shows "on_flow_grid k (max (dsub available (dsum xs)) 0)" "spent \<le> available"
    "on_flow_grid k (available - spent)" "on_flow_grid k (min (dsum xs) (available - spent))"
proof -
  have ge: "0 \<le> dsum xs" by (rule dsum_nonneg) (use blocked in \<open>auto simp: on_flow_grid_def\<close>)
  have left: "on_flow_grid k (max (dsub available (dsum xs)) 0) \<and>
      (dsum xs \<le> available \<longrightarrow> max (dsub available (dsum xs)) 0 = available - dsum xs \<and> on_flow_grid k (dsum xs)) \<and>
      (available < dsum xs \<longrightarrow> max (dsub available (dsum xs)) 0 = 0)"
  proof (cases "dsum xs \<le> available")
    case True
    have "on_flow_grid k (dsum xs)" using dsum_bounded [OF blocked available True] by simp
    moreover then have "dsub available (dsum xs) = available - dsum xs" using available True by (intro flow_grid_sub)
    ultimately show ?thesis using available True flow_grid_diff [of k available "dsum xs"] by (simp add: max_def)
  next
    case False
    then have "dsub available (dsum xs) \<le> 0" by simp
    then show ?thesis using False by (simp add: max_def on_flow_grid_def)
  qed
  show "on_flow_grid k (max (dsub available (dsum xs)) 0)" using left by blast
  have nonneg: "0 \<le> available" using available by (simp add: on_flow_grid_def)
  show fits: "spent \<le> available" using left chosen(2) ge nonneg by (cases "dsum xs \<le> available") auto
  show u: "on_flow_grid k (available - spent)" using available chosen(1) fits by (rule flow_grid_diff)
  have "0 \<le> spent" using chosen(1) by (simp add: on_flow_grid_def)
  then show "on_flow_grid k (min (dsum xs) (available - spent))"
    using left u chosen(2) fits by (cases "dsum xs \<le> available") (auto simp: min_def)
qed

lemma classified_states:
  assumes res: "evaluate_and_allocate digest G cs mode available currency now L = Return r L'"
    and available: "on_flow_grid k available" and capital: "\<forall>c \<in> set cs. on_flow_grid k (ec_capital c)"
  shows "\<exists>taken rest. dl_states L' = dl_states L @ taken @ rest \<and>
     map ks_capital taken = map (\<lambda>i. ec_capital (the (dict_get (dict_by ec_id (economic G cs)) i))) (ar_selected r) \<and>
     sum_list (map ks_capital (taken @ rest)) = available \<and>
     (\<forall>s \<in> set taken. active s) \<and> (\<forall>s \<in> set rest. \<not> active s) \<and>
     (\<forall>s \<in> set (taken @ rest). ks_time s = now \<and> ks_currency s = currency \<and> 0 < ks_capital s)"
  using res
proof (rule allocate_pieces)
  let ?cs = "economic G cs"
  fix decisions :: "eligibility_decision list" and os scores L1 L2 selected final
  let ?evaluated = "zip ?cs decisions"
  let ?blocked = "blocked_capital ?evaluated"
  assume request: "request_error ?cs available currency now = Inr ()"
    and decisions: "traverse (evaluate digest G mode) ?cs = Inr decisions"
    and os: "traverse opportunity_of (filter (\<lambda>(c, d). ed_eligible d) ?evaluated) = Inr os"
    and scores: "rank_eligible os = Inr scores"
    and selected: "selected = pick pb_priority pb_productivity pb_capital (max (dsub available ?blocked) 0) scores"
    and L1: "append_decisions final L = Return () L1"
    and L2: "post_selected now currency (dict_by ec_id ?cs) selected L1 = Return () L2"
    and rest: "classify_rest now currency ?blocked (dsub available (dsum (map pb_capital selected)))
       (remaining_use ?evaluated (set (map pb_candidate selected))) L2 = Return () L'"
    and r: "ar_selected r = filter (has_key (dict_by ec_id ?cs)) (map pb_candidate selected)"
  note names = allocation_names [OF request decisions os scores]
  have rows: "good_eligible_row b \<and> (\<exists>c \<in> set ?cs. dict_get (dict_by ec_id ?cs) (pb_candidate b) = Some c \<and> pb_capital b = ec_capital c)"
    if "b \<in> set scores" for b
    using names(4) [OF that] ranked_candidates(2) [OF os scores that] by (auto dest: set_zip_leftD)
  have grid: "\<forall>b \<in> set scores. good_eligible_row b \<and> on_flow_grid k (pb_capital b)"
    using rows capital by fastforce
  have sub: "set selected \<subseteq> set scores" unfolding selected by (rule eligible_choice.picked_subset)
  let ?spent = "sum_list (map pb_capital selected)"
  have blocked: "?blocked = dsum (map (\<lambda>(c, d). ec_capital c)
      (filter (\<lambda>(c, d). ec_intent c = OWNED_RETURN_INTENT \<and> \<not> ed_eligible d) ?evaluated))" (is "_ = dsum ?bs")
    by (simp add: blocked_capital_def)
  have bs: "\<forall>x \<in> set ?bs. on_flow_grid k x" using capital by (auto dest!: set_zip_leftD)
  have left: "on_flow_grid k (max (dsub available ?blocked) 0)"
    unfolding blocked by (rule blocked_on_grid(1) [OF available bs, of 0]) (simp_all add: on_flow_grid_def)
  have spent: "?spent \<le> max (dsub available ?blocked) 0"
    unfolding selected by (rule eligible_choice.picked_affordable [OF grid left])
  have exact: "dsum (map pb_capital selected) = ?spent \<and> on_flow_grid k ?spent"
  proof (rule dsum_exact)
    show "\<forall>x \<in> set (map pb_capital selected). on_flow_grid k x" using grid sub by auto
    show "?spent < pow10 (28 - int k)" by (rule le_less_trans [OF spent]) (use left in \<open>unfold on_flow_grid_def, blast\<close>)
  qed
  note split = blocked_on_grid [OF available bs conjunct2 [OF exact] spent [unfolded blocked], folded blocked]
  have u: "dsub available (dsum (map pb_capital selected)) = available - ?spent"
    using exact flow_grid_sub [OF available _ split(2)] by simp
  obtain taken where taken: "dl_states L2 = dl_states L1 @ taken" "map ks_capital taken = map pb_capital selected"
    "\<forall>s \<in> set taken. ks_time s = now \<and> ks_currency s = currency \<and> active s"
    using post_selected_Return [OF L2] by blast
  obtain others where others: "dl_states L' = dl_states L2 @ others" "sum_list (map ks_capital others) = available - ?spent"
    "\<forall>s \<in> set others. ks_time s = now \<and> ks_currency s = currency \<and> 0 < ks_capital s \<and> \<not> active s"
    using classify_rest_Return [OF rest [unfolded u] split(3,4) remaining_use_idle] by blast
  have ids: "ar_selected r = map pb_candidate selected"
    unfolding r using rows sub by (intro filter_True) (fastforce simp: has_key_iff)
  have "map pb_capital selected = map (\<lambda>i. ec_capital (the (dict_get (dict_by ec_id ?cs) i))) (ar_selected r)"
    unfolding ids using rows sub by fastforce
  moreover have "\<forall>s \<in> set taken. 0 < ks_capital s"
  proof -
    have "\<forall>x \<in> set (map ks_capital taken). 0 < x"
      unfolding taken(2) using rows sub by (auto simp: good_eligible_row_def)
    then show ?thesis by simp
  qed
  moreover have "dl_states L' = dl_states L @ taken @ others"
    using others(1) taken(1) append_decisions_Return [OF L1] by simp
  ultimately show ?thesis using taken(2,3) others(2,3) by (intro exI [of _ taken] exI [of _ others]) auto
qed

text \<open>
  C12: every unit of the available capital is accounted for once. On amounts with a common number
  of decimal places, a returning allocation appends capital states, all of the call's time and
  currency and all positive, that add up to exactly the available capital; the active ones come
  first and are the capitals of the selected candidates, the others say what the rest waits for.
\<close>

theorem capital_is_classified:
  assumes "evaluate_and_allocate digest G cs mode available currency now L = Return r L'"
    and "on_flow_grid k available" and "\<forall>c \<in> set cs. on_flow_grid k (ec_capital c)"
  shows "\<exists>new. dl_states L' = dl_states L @ new \<and> sum_list (map ks_capital new) = available \<and>
     map ks_capital (filter active new) =
       map (\<lambda>i. ec_capital (the (dict_get (dict_by ec_id (economic G cs)) i))) (ar_selected r) \<and>
     (\<forall>s \<in> set new. ks_time s = now \<and> ks_currency s = currency \<and> 0 < ks_capital s)"
proof -
  obtain taken rest where "dl_states L' = dl_states L @ taken @ rest" "sum_list (map ks_capital (taken @ rest)) = available"
    "map ks_capital taken = map (\<lambda>i. ec_capital (the (dict_get (dict_by ec_id (economic G cs)) i))) (ar_selected r)"
    "\<forall>s \<in> set taken. active s" "\<forall>s \<in> set rest. \<not> active s"
    "\<forall>s \<in> set (taken @ rest). ks_time s = now \<and> ks_currency s = currency \<and> 0 < ks_capital s"
    using classified_states [OF assms] by (elim exE conjE) (rule that)
  then show ?thesis by (intro exI [of _ "taken @ rest"]) simp
qed

text \<open>
  C35: the decision ledger is unique and causal. Whatever allocations and appends are made, in
  whatever order, and whichever of them raise: no decision is recorded twice, every decision
  has a reason, and the capital states are in the order of time.
\<close>

theorem decision_ledger_is_causal:
  assumes "L = drive_ops (exec_decision digest G) ops new_decision_ledger"
  shows "distinct (map ed_id (dl_decisions L)) \<and> (\<forall>d \<in> set (dl_decisions L). ed_reasons d \<noteq> []) \<and>
     sorted (map ks_time (dl_states L))"
proof -
  have "decision_inv new_decision_ledger" by (simp add: decision_inv_def new_decision_ledger_def)
  then have "decision_inv L" unfolding assms by (rule decision_ops.drive_inv)
  then show ?thesis by (simp add: decision_inv_def)
qed

section \<open>A concrete allocation\<close>

definition sample_entries :: "economic_candidate list" where
  "sample_entries = [sample_entry ''A'' 5, sample_entry ''B'' 2, sample_entry ''C'' 7]"

lemma sample_allocation:
  "case evaluate_and_allocate (\<lambda>_. ''H'') sample_gate sample_entries FORWARD 25 ''USDT'' 10 new_decision_ledger of
     Return r L \<Rightarrow> ar_selected r = [''C'', ''A''] \<and> map ks_capital (dl_states L) = [10, 10, 5] \<and>
       map ks_use (dl_states L) = [ACTIVE_NEW_ENTRY, ACTIVE_NEW_ENTRY, IDLE_NO_ELIGIBLE_OPPORTUNITY]
   | Raise _ _ \<Rightarrow> False"
  by code_simp

lemma sample_candidates: "\<forall>c \<in> set sample_entries. check_candidate c = Inr ()"
  by code_simp

theorem allocation_is_admissible_witness:
  "\<exists>r L. evaluate_and_allocate (\<lambda>_. ''H'') sample_gate sample_entries FORWARD 25 ''USDT'' 10 new_decision_ledger = Return r L \<and>
     ar_selected r = [''C'', ''A''] \<and> (\<exists>c \<in> set sample_entries. ec_id c = ''C'' \<and> admissible sample_gate FORWARD c)"
proof -
  obtain r L where run: "evaluate_and_allocate (\<lambda>_. ''H'') sample_gate sample_entries FORWARD 25 ''USDT'' 10
      new_decision_ledger = Return r L" and r: "ar_selected r = [''C'', ''A'']"
    using sample_allocation by (auto split: outcome.splits)
  have "\<exists>c \<in> set sample_entries. ec_id c = ''C'' \<and> admissible sample_gate FORWARD c"
    using allocation_is_admissible [OF run sample_gate_policy sample_candidates] r by fastforce
  with run r show ?thesis by blast
qed

theorem capital_is_classified_witness:
  "\<exists>r L. evaluate_and_allocate (\<lambda>_. ''H'') sample_gate sample_entries FORWARD 25 ''USDT'' 10 new_decision_ledger = Return r L \<and>
     sum_list (map ks_capital (dl_states L)) = 25"
proof -
  obtain r L where run: "evaluate_and_allocate (\<lambda>_. ''H'') sample_gate sample_entries FORWARD 25 ''USDT'' 10
      new_decision_ledger = Return r L"
    using sample_allocation by (auto split: outcome.splits)
  have "on_flow_grid 0 25" "\<forall>c \<in> set sample_entries. on_flow_grid 0 (ec_capital c)"
    by (simp_all add: on_flow_grid_def on_grid_def pow10_def sample_entries_def sample_entry_def)
  from capital_is_classified [OF run this] run show ?thesis by (auto simp: new_decision_ledger_def)
qed

theorem decision_ledger_is_causal_witness:
  "distinct (map ed_id (dl_decisions (drive_ops (exec_decision (\<lambda>_. ''H'') sample_gate)
     [Allocate sample_entries FORWARD 25 ''USDT'' 10, Allocate sample_entries FORWARD 25 ''USDT'' 10] new_decision_ledger)))"
  using decision_ledger_is_causal [OF refl] by blast

section \<open>What a failing allocation leaves behind\<close>

text \<open>
  An allocation is not atomic: the decisions are recorded before the capital states, and a
  capital state older than the last one raises. The slots are then on record as authorized,
  although the call failed and no capital was classified.
\<close>

definition late_ledger :: decision_ledger where
  "late_ledger = new_decision_ledger\<lparr>dl_states := [\<lparr>ks_time = 11, ks_use = PENDING_CANCEL_ACK, ks_capital = 1,
     ks_currency = ''USDT'', ks_reason = CAPITAL_PENDING_CANCEL_ACK\<rparr>]\<rparr>"

lemma failed_allocation_keeps_decisions:
  "case evaluate_and_allocate (\<lambda>_. ''H'') sample_gate [sample_entry ''A'' 5] FORWARD 25 ''USDT'' 10 late_ledger of
     Raise e L \<Rightarrow> e = ValueError ''M034_NONCAUSAL_CAPITAL_STATE'' \<and> map ed_slots (dl_decisions L) = [1] \<and>
       length (dl_states L) = 1
   | Return _ _ \<Rightarrow> False"
  by code_simp

text \<open>
  The constructor of a candidate does not bound the priority class from below, the scorer does:
  one candidate of class 0 makes the allocation of all the others raise.
\<close>

lemma unranked_candidate_aborts_batch:
  "check_candidate ((sample_entry ''B'' 5)\<lparr>ec_priority := 0\<rparr>) = Inr () \<and>
   (case evaluate_and_allocate (\<lambda>_. ''H'') sample_gate [sample_entry ''A'' 5, (sample_entry ''B'' 5)\<lparr>ec_priority := 0\<rparr>]
      FORWARD 25 ''USDT'' 10 new_decision_ledger of
      Raise e L \<Rightarrow> e = ValueError ''M034_INVALID_PRIORITY_CLASS'' | Return _ _ \<Rightarrow> False)"
  by code_simp

section \<open>Exits at a loss\<close>

lemma reason_value_trigger:
  "check_exit_rule r = Inr () \<Longrightarrow>
     reason_value (er_reason r) \<in> {''INVENTORY_LOCK_EXCEEDED'', ''PEG_RISK_ESCALATED'', ''OPPORTUNITY_COST_EXCEEDED''}"
  by (auto simp: check_exit_rule_def reason_value_def)

lemma authorization_fields [simp]:
  "hold_cost (authorization_of q r) = dadd (dadd (xr_expected_hold_loss q) (xr_opportunity_cost q)) (xr_tail_risk q)"
  "ira_realized_loss (authorization_of q r) = xr_realized_loss q" "ira_decided_at (authorization_of q r) = xr_now q"
  "ira_expires_at (authorization_of q r) = xr_expires_at q"
  "ira_trigger_reason (authorization_of q r) = reason_value (er_reason r)"
  by (simp_all add: authorization_of_def hold_cost_def)

lemma warranted_exit:
  assumes "evaluate_exit q rule = Inr x" and "xa_authorization x = Some a"
  obtains r where "rule = Some r" "a = authorization_of q r" "check_authorization a = Inr ()"
    "er_effective_start r \<le> xr_now q" "xr_now q < er_effective_end r" "xr_expires_at q \<le> er_effective_end r"
    "xr_realized_loss q < hold_cost a" "0 < xr_realized_loss q"
  using assms by (auto simp: evaluate_exit_def refused_exit_def on_ok_Inr not_le not_less split: if_splits option.splits)

text \<open>
  C6: an exit at a loss is warranted from the rule to the settlement. When the exit engine
  issues an authorization and the slot ledger later settles it, the rule was in force at the
  decision and its window covers the settlement; the trigger is one of the three risk reasons;
  the authorization is valid; and the loss taken is positive, at most the one announced, which
  is itself less than the cost of holding.
\<close>

theorem exit_is_warranted:
  assumes issued: "evaluate_exit q (Some r) = Inr x" "xa_authorization x = Some a" and rule: "check_exit_rule r = Inr ()"
    and settled: "settle_inventory_reduction sid now reduction_id a L = Return pnl L'"
  shows "er_effective_start r \<le> xr_now q \<and> xr_now q \<le> now \<and> now \<le> er_effective_end r \<and>
     ira_trigger_reason a \<in> {''INVENTORY_LOCK_EXCEEDED'', ''PEG_RISK_ESCALATED'', ''OPPORTUNITY_COST_EXCEEDED''} \<and>
     check_authorization a = Inr () \<and> pnl < 0 \<and> - pnl \<le> xr_realized_loss q \<and> xr_realized_loss q < hold_cost a"
  using issued
proof (rule warranted_exit)
  fix r'
  assume "Some r = Some r'" and a: "a = authorization_of q r'" "check_authorization a = Inr ()"
    and window: "er_effective_start r' \<le> xr_now q" "xr_now q < er_effective_end r'" "xr_expires_at q \<le> er_effective_end r'"
    and cost: "xr_realized_loss q < hold_cost a"
  then have r: "r' = r" by simp
  show ?thesis
    using settle_Return(3,4,5,6) [OF settled] window cost a(2) reason_value_trigger [OF rule] by (simp add: a(1) r)
qed

definition sample_exit_request :: exit_request where
  "sample_exit_request =
     \<lparr>xr_authorization_id = ''A1'', xr_slot_id = ''S1'', xr_slot_epoch = 1, xr_quantity = 10, xr_cost_basis = 10,
      xr_inventory_asset = ''USDC'', xr_origin_asset = ''USDT'', xr_exit_reservation = ''X1'', xr_fee_marks = [],
      xr_now = 5, xr_expires_at = 9, xr_expected_hold_loss = 1, xr_opportunity_cost = 1, xr_tail_risk = 0,
      xr_realized_loss = 1\<rparr>"

definition sample_exit_rule :: exit_rule where
  "sample_exit_rule = \<lparr>er_id = ''RULE'', er_hash = ''HASH'', er_effective_start = 0, er_effective_end = 20,
     er_provenance = ''owner'', er_reason = PEG_RISK_ESCALATED\<rparr>"

definition warranted_ledger :: slot_ledger where
  "warranted_ledger = sample_reduction_ledger\<lparr>sl_authorizations :=
     [(''A1'', authorization_of sample_exit_request sample_exit_rule)]\<rparr>"

lemma sample_exit_issued:
  "evaluate_exit sample_exit_request (Some sample_exit_rule) =
     Inr \<lparr>xa_allowed = True, xa_reason = NEGATIVE_EXIT_RISK_RULE_TRIGGERED,
          xa_authorization = Some (authorization_of sample_exit_request sample_exit_rule)\<rparr>"
proof -
  have "check_authorization (authorization_of sample_exit_request sample_exit_rule) = Inr ()"
    "dadd 1 1 = 2" "dadd 2 0 = 2"
    by code_simp+
  then show ?thesis by (simp add: evaluate_exit_def sample_exit_request_def sample_exit_rule_def)
qed

lemma sample_exit_settled:
  "case settle_inventory_reduction ''S1'' 8 ''A1'' (authorization_of sample_exit_request sample_exit_rule) warranted_ledger of
     Return pnl L \<Rightarrow> pnl = -1 | Raise _ _ \<Rightarrow> False"
  by code_simp

theorem exit_is_warranted_witness:
  "\<exists>pnl L. settle_inventory_reduction ''S1'' 8 ''A1'' (authorization_of sample_exit_request sample_exit_rule) warranted_ledger =
     Return pnl L \<and> - pnl \<le> xr_realized_loss sample_exit_request"
proof -
  obtain pnl L where run: "settle_inventory_reduction ''S1'' 8 ''A1'' (authorization_of sample_exit_request sample_exit_rule)
      warranted_ledger = Return pnl L"
    using sample_exit_settled by (auto split: outcome.splits)
  have "check_exit_rule sample_exit_rule = Inr ()" by code_simp
  from exit_is_warranted [OF sample_exit_issued _ this run] run show ?thesis by auto
qed

end
