(* ===== verification/Passive_Models.thy ===== *)
theory Passive_Models
  imports Multi_Stable_Models
begin

text \<open>
  \<^verbatim>\<open>microstructure/models.py\<close>: the configuration, events, orders, fills and ledger of
  the passive execution simulator. The models are pydantic classes; the constraints of their
  fields and their validators are the \<open>valid\<close> predicates, fields declared non-negative
  integers are natural numbers. A \<^verbatim>\<open>datetime\<close> in UTC is the number of its
  microseconds, a \<^verbatim>\<open>timedelta\<close> likewise.
\<close>

section \<open>Enumerations\<close>

datatype order_side = BUY_SIDE | SELL_SIDE

datatype queue_model = OPTIMISTIC | REALISTIC_QUEUE | CONSERVATIVE_QUEUE

datatype (plugins only: code size) passive_status =
    ORDER_PENDING
  | ORDER_OPEN
  | ORDER_PARTIALLY_FILLED
  | ORDER_FILLED
  | ORDER_CANCEL_PENDING
  | ORDER_CANCELED
  | REJECTED_POST_ONLY
  | REJECTED_NO_OBSERVED_QUEUE_COVERAGE
  | ORDER_EXPIRED

datatype liquidity_role = MAKER_ROLE | TAKER_ROLE

datatype fee_asset = BASE_ASSET | QUOTE_ASSET

datatype lot_mode = FIXED_LOT | COMPOUNDING_LOT

section \<open>Configuration\<close>

record latency_config =
  lc_market_data_ms :: nat
  lc_decision_ms :: nat
  lc_submit_ms :: nat
  lc_cancel_ms :: nat

definition milliseconds :: "nat \<Rightarrow> int" where
  "milliseconds n = 1000 * int n"

definition lc_market_data :: "latency_config \<Rightarrow> int" where
  "lc_market_data l = milliseconds (lc_market_data_ms l)"

definition lc_decision :: "latency_config \<Rightarrow> int" where
  "lc_decision l = milliseconds (lc_decision_ms l)"

definition lc_submit :: "latency_config \<Rightarrow> int" where
  "lc_submit l = milliseconds (lc_submit_ms l)"

definition lc_cancel :: "latency_config \<Rightarrow> int" where
  "lc_cancel l = milliseconds (lc_cancel_ms l)"

record fee_model =
  fm_maker :: decimal
  fm_taker :: decimal
  fm_buy_asset :: fee_asset
  fm_sell_asset :: fee_asset
  fm_source :: string

definition valid_fees :: "fee_model \<Rightarrow> bool" where
  "valid_fees f \<longleftrightarrow> 0 \<le> fm_maker f \<and> 0 \<le> fm_taker f"

definition fee_rate_of :: "liquidity_role \<Rightarrow> fee_model \<Rightarrow> decimal" where
  "fee_rate_of role f = (if role = MAKER_ROLE then fm_maker f else fm_taker f)"

definition one_tick_net_quote ::
    "decimal \<Rightarrow> decimal \<Rightarrow> decimal \<Rightarrow> liquidity_role \<Rightarrow> liquidity_role \<Rightarrow> fee_model \<Rightarrow> decimal" where
  "one_tick_net_quote lower upper quantity buy_role sell_role f =
     dsub (dmul quantity (dmul upper (dsub 1 (fee_rate_of sell_role f))))
          (dmul quantity (dmul lower (dadd 1 (fee_rate_of buy_role f))))"

record s0_config =
  s0_strategy_id :: string
  s0_symbol :: string
  s0_lower :: decimal
  s0_upper :: decimal
  s0_quantity_override :: "decimal option"
  s0_initial_usdc :: decimal
  s0_lot_mode :: lot_mode
  s0_fixed_lot :: decimal
  s0_step_size :: decimal
  s0_min_quantity :: decimal
  s0_min_notional :: decimal
  s0_queue_model :: queue_model
  s0_multiplier :: decimal
  s0_latency :: latency_config
  s0_fees :: fee_model

definition valid_config :: "s0_config \<Rightarrow> bool" where
  "valid_config c \<longleftrightarrow>
     (case s0_quantity_override c of None \<Rightarrow> True | Some q \<Rightarrow> 0 < q) \<and> 0 < s0_initial_usdc c \<and> 0 < s0_fixed_lot c \<and>
     0 < s0_step_size c \<and> 0 < s0_min_quantity c \<and> 0 < s0_min_notional c \<and> 1 \<le> s0_multiplier c \<and>
     valid_fees (s0_fees c) \<and> s0_lower c < s0_upper c"

section \<open>Events\<close>

type_synonym price_level = "decimal \<times> decimal"

definition valid_level :: "price_level \<Rightarrow> bool" where
  "valid_level l \<longleftrightarrow> 0 < fst l \<and> 0 \<le> snd l"

record trade_event =
  mt_trade_id :: nat
  mt_timestamp :: int
  mt_sequence :: nat
  mt_price :: decimal
  mt_quantity :: decimal
  mt_buyer_is_maker :: bool

datatype (plugins only: code size) market_event =
    BookSnapshot int nat nat "price_level list" "price_level list"
  | BookDelta int nat nat nat "price_level list" "price_level list"
  | FeedGap int nat string
  | RiskHalt int nat string "string list"
  | PublicTrade trade_event

primrec event_time :: "market_event \<Rightarrow> int" where
  "event_time (BookSnapshot t n u bids asks) = t"
| "event_time (BookDelta t n first final bids asks) = t"
| "event_time (FeedGap t n reason) = t"
| "event_time (RiskHalt t n reason evidence) = t"
| "event_time (PublicTrade x) = mt_timestamp x"

primrec event_sequence :: "market_event \<Rightarrow> nat" where
  "event_sequence (BookSnapshot t n u bids asks) = n"
| "event_sequence (BookDelta t n first final bids asks) = n"
| "event_sequence (FeedGap t n reason) = n"
| "event_sequence (RiskHalt t n reason evidence) = n"
| "event_sequence (PublicTrade x) = mt_sequence x"

text \<open>\<^verbatim>\<open>str.strip\<close> removes these characters (of the first 256).\<close>

definition white_space :: "char \<Rightarrow> bool" where
  "white_space c \<longleftrightarrow> (let n = of_char c :: nat in (9 \<le> n \<and> n \<le> 13) \<or> (28 \<le> n \<and> n \<le> 32) \<or> n = 133 \<or> n = 160)"

primrec valid_event :: "market_event \<Rightarrow> bool" where
  "valid_event (BookSnapshot t n u bids asks) \<longleftrightarrow>
     (\<forall>l \<in> set (bids @ asks). valid_level l) \<and> bids \<noteq> [] \<and> asks \<noteq> [] \<and>
     Max (set (map fst bids)) < Min (set (map fst asks))"
| "valid_event (BookDelta t n first final bids asks) \<longleftrightarrow> (\<forall>l \<in> set (bids @ asks). valid_level l) \<and> first \<le> final"
| "valid_event (FeedGap t n reason) \<longleftrightarrow> True"
| "valid_event (RiskHalt t n reason evidence) \<longleftrightarrow> \<not> list_all white_space reason \<and> evidence \<noteq> []"
| "valid_event (PublicTrade x) \<longleftrightarrow> 0 < mt_price x \<and> 0 < mt_quantity x"

record cancel_ask =
  ca_order_id :: string
  ca_requested_at :: int

section \<open>Orders, fills and the ledger\<close>

record decision_audit =
  da_action :: string
  da_decision_at :: int
  da_latest_input :: int

definition valid_audit :: "decision_audit \<Rightarrow> bool" where
  "valid_audit d \<longleftrightarrow> da_latest_input d \<le> da_decision_at d"

record passive_order =
  pw_order_id :: string
  pw_side :: order_side
  pw_price :: decimal
  pw_quantity :: decimal
  pw_placed_at :: int
  pw_arrival :: int
  pw_queue_ahead :: decimal
  pw_filled :: decimal
  pw_remaining :: decimal
  pw_average_price :: decimal
  pw_role :: liquidity_role
  pw_fees_quote :: decimal
  pw_cancel_requested :: "int option"
  pw_cancel_effective :: "int option"
  pw_status :: passive_status

definition valid_order :: "passive_order \<Rightarrow> bool" where
  "valid_order w \<longleftrightarrow>
     0 < pw_price w \<and> 0 < pw_quantity w \<and> 0 \<le> pw_queue_ahead w \<and> 0 \<le> pw_filled w \<and> 0 \<le> pw_remaining w \<and>
     0 \<le> pw_average_price w \<and> 0 \<le> pw_fees_quote w"

record micro_fill =
  mf_order_id :: string
  mf_timestamp :: int
  mf_side :: order_side
  mf_price :: decimal
  mf_gross :: decimal
  mf_net_base :: decimal
  mf_quote_value :: decimal
  mf_fee_amount :: decimal
  mf_fee_asset :: fee_asset
  mf_fee_quote :: decimal
  mf_role :: liquidity_role
  mf_queue_after :: decimal
  mf_completes :: bool
  mf_trade_id :: nat
  mf_sequence :: nat

record inventory_ledger =
  il_usdc :: decimal
  il_fdusd :: decimal
  il_average_cost :: decimal
  il_realized :: decimal
  il_unrealized :: decimal
  il_fees :: decimal
  il_locked :: decimal
  il_opened_at :: "int option"
  il_age_seconds :: decimal

definition new_inventory :: "decimal \<Rightarrow> inventory_ledger" where
  "new_inventory usdc =
     \<lparr>il_usdc = usdc, il_fdusd = 0, il_average_cost = 0, il_realized = 0, il_unrealized = 0, il_fees = 0,
      il_locked = 0, il_opened_at = None, il_age_seconds = 0\<rparr>"

end
