(* ===== verification/Passive_Sim.thy ===== *)
theory Passive_Sim
  imports Passive_Models
begin

text \<open>
  \<^verbatim>\<open>microstructure/execution.py\<close>: \<^verbatim>\<open>PassiveExecutionSimulator\<close>, a
  discrete-event simulation. Market events, cancel requests and what they trigger are kept in a
  priority queue ordered by time, priority and serial number; popping an entry runs its handler,
  which may schedule more. The orders the queue refers to are objects of the list of orders, so
  an entry names an order by its index in that list, which is only appended to.
\<close>

section \<open>State\<close>

datatype (plugins only: code size) sim_job =
    MarketJob market_event
  | DeliverJob market_event
  | ArrivalJob nat
  | NoticeJob micro_fill
  | CancelAskJob cancel_ask
  | CancelDoneJob nat

type_synonym scheduled = "(int \<times> nat \<times> nat) \<times> sim_job"

record passive_sim =
  ps_bids :: "(decimal, decimal) dict"
  ps_asks :: "(decimal, decimal) dict"
  ps_book_valid :: bool
  ps_strategy_valid :: bool
  ps_last_update :: "nat option"
  ps_latest_input :: "int option"
  ps_orders :: "passive_order list"
  ps_fills :: "micro_fill list"
  ps_decisions :: "decision_audit list"
  ps_invalidations :: nat
  ps_risk_halt :: bool
  ps_halt_reason :: "string option"
  ps_ledger :: inventory_ledger
  ps_serial :: nat
  ps_order_number :: nat
  ps_queue :: "scheduled list"
  ps_cycles :: nat
  ps_last_mid :: "decimal option"

definition new_sim :: "s0_config \<Rightarrow> passive_sim" where
  "new_sim cfg =
     \<lparr>ps_bids = [], ps_asks = [], ps_book_valid = False, ps_strategy_valid = False, ps_last_update = None,
      ps_latest_input = None, ps_orders = [], ps_fills = [], ps_decisions = [], ps_invalidations = 0,
      ps_risk_halt = False, ps_halt_reason = None, ps_ledger = new_inventory (s0_initial_usdc cfg), ps_serial = 0,
      ps_order_number = 1, ps_queue = [], ps_cycles = 0, ps_last_mid = None\<rparr>"

text \<open>
  \<^verbatim>\<open>heapq\<close> pops the least entry; entries compare by time, priority and serial number,
  and serial numbers are never reused, so the heap is the sorted list of its entries.
\<close>

definition sim_schedule :: "int \<Rightarrow> nat \<Rightarrow> sim_job \<Rightarrow> passive_sim \<Rightarrow> passive_sim" where
  "sim_schedule t priority job S =
     S\<lparr>ps_queue := insort_key fst ((t, priority, ps_serial S), job) (ps_queue S), ps_serial := ps_serial S + 1\<rparr>"

definition sim_put_order :: "nat \<Rightarrow> passive_order \<Rightarrow> passive_sim \<Rightarrow> passive_sim" where
  "sim_put_order i w S = S\<lparr>ps_orders := (ps_orders S)[i := w]\<rparr>"

definition validation_error :: py_error where
  "validation_error = ValueError ''ValidationError''"

section \<open>The order book\<close>

definition book_of_levels :: "price_level list \<Rightarrow> (decimal, decimal) dict" where
  "book_of_levels ls = foldl (\<lambda>d l. dict_set (fst l) (snd l) d) [] (filter (\<lambda>l. 0 < snd l) ls)"

definition set_level :: "price_level \<Rightarrow> (decimal, decimal) dict \<Rightarrow> (decimal, decimal) dict" where
  "set_level l d = (if snd l = 0 then dict_del (fst l) d else dict_set (fst l) (snd l) d)"

definition best_bid :: "passive_sim \<Rightarrow> decimal" where
  "best_bid S = Max (set (keys (ps_bids S)))"

definition best_ask :: "passive_sim \<Rightarrow> decimal" where
  "best_ask S = Min (set (keys (ps_asks S)))"

definition refresh_mid :: "passive_sim \<Rightarrow> passive_sim" where
  "refresh_mid S =
     (if ps_bids S \<noteq> [] \<and> ps_asks S \<noteq> []
      then S\<lparr>ps_last_mid := Some (ddiv (dadd (best_bid S) (best_ask S)) 2)\<rparr> else S)"

definition invalidate_book :: "bool \<Rightarrow> passive_sim \<Rightarrow> passive_sim" where
  "invalidate_book count_once S =
     S\<lparr>ps_invalidations := (if \<not> count_once \<or> ps_book_valid S then ps_invalidations S + 1 else ps_invalidations S),
       ps_book_valid := False, ps_last_update := None\<rparr>"

definition take_snapshot :: "nat \<Rightarrow> price_level list \<Rightarrow> price_level list \<Rightarrow> passive_sim \<Rightarrow> passive_sim" where
  "take_snapshot u bids asks S =
     refresh_mid (S\<lparr>ps_bids := book_of_levels bids, ps_asks := book_of_levels asks, ps_last_update := Some u,
       ps_book_valid := True\<rparr>)"

definition apply_delta ::
    "nat \<Rightarrow> nat \<Rightarrow> price_level list \<Rightarrow> price_level list \<Rightarrow> passive_sim \<Rightarrow> passive_sim" where
  "apply_delta first final bids asks S =
     (case ps_last_update S of
        None \<Rightarrow> invalidate_book True S
      | Some u \<Rightarrow>
          if \<not> ps_book_valid S \<or> \<not> (first \<le> u + 1 \<and> u + 1 \<le> final) then invalidate_book True S
          else refresh_mid (S\<lparr>ps_bids := foldl (\<lambda>d l. set_level l d) (ps_bids S) bids,
                 ps_asks := foldl (\<lambda>d l. set_level l d) (ps_asks S) asks, ps_last_update := Some final\<rparr>))"

section \<open>Orders\<close>

definition order_name :: "nat \<Rightarrow> string" where
  "order_name n = ''order-'' @ zero_pad 6 n"

definition sim_new_order ::
    "s0_config \<Rightarrow> order_side \<Rightarrow> decimal \<Rightarrow> decimal \<Rightarrow> int \<Rightarrow> passive_sim \<Rightarrow> (unit, passive_sim) outcome" where
  "sim_new_order cfg side price quantity decision_at S =
     (let arrival = decision_at + lc_submit (s0_latency cfg);
          w = \<lparr>pw_order_id = order_name (ps_order_number S), pw_side = side, pw_price = price, pw_quantity = quantity,
               pw_placed_at = decision_at, pw_arrival = arrival, pw_queue_ahead = 0, pw_filled = 0,
               pw_remaining = quantity, pw_average_price = 0, pw_role = MAKER_ROLE, pw_fees_quote = 0,
               pw_cancel_requested = None, pw_cancel_effective = None, pw_status = ORDER_PENDING\<rparr>;
          S1 = S\<lparr>ps_order_number := ps_order_number S + 1\<rparr>
      in if \<not> valid_order w then Raise validation_error S1
         else Return () (sim_schedule arrival 1 (ArrivalJob (length (ps_orders S1)))
                (S1\<lparr>ps_orders := ps_orders S1 @ [w]\<rparr>)))"

definition would_cross :: "passive_order \<Rightarrow> passive_sim \<Rightarrow> bool" where
  "would_cross w S \<longleftrightarrow>
     (if pw_side w = BUY_SIDE then ps_asks S \<noteq> [] \<and> best_ask S \<le> pw_price w
      else ps_bids S \<noteq> [] \<and> pw_price w \<le> best_bid S)"

definition book_side :: "order_side \<Rightarrow> passive_sim \<Rightarrow> (decimal, decimal) dict" where
  "book_side side S = (if side = BUY_SIDE then ps_bids S else ps_asks S)"

definition arriving :: "s0_config \<Rightarrow> passive_sim \<Rightarrow> passive_order \<Rightarrow> passive_order" where
  "arriving cfg S w =
     (if pw_status w \<noteq> ORDER_PENDING then w
      else if \<not> ps_book_valid S \<or> would_cross w S then w\<lparr>pw_status := REJECTED_POST_ONLY\<rparr>
      else
        let public_quantity = get_or (book_side (pw_side w) S) (pw_price w) 0
        in if public_quantity \<le> 0 then w\<lparr>pw_status := REJECTED_NO_OBSERVED_QUEUE_COVERAGE\<rparr>
           else w\<lparr>pw_queue_ahead :=
                    (case s0_queue_model cfg of
                       OPTIMISTIC \<Rightarrow> 0
                     | REALISTIC_QUEUE \<Rightarrow> public_quantity
                     | CONSERVATIVE_QUEUE \<Rightarrow> dmul public_quantity (s0_multiplier cfg)),
                  pw_status := ORDER_OPEN\<rparr>)"

definition on_order_arrival :: "s0_config \<Rightarrow> nat \<Rightarrow> passive_sim \<Rightarrow> (unit, passive_sim) outcome" where
  "on_order_arrival cfg i S = Return () (sim_put_order i (arriving cfg S (ps_orders S ! i)) S)"

definition resting :: "passive_order \<Rightarrow> bool" where
  "resting w \<longleftrightarrow> pw_status w \<in> {ORDER_OPEN, ORDER_PARTIALLY_FILLED, ORDER_CANCEL_PENDING}"

definition has_active :: "order_side \<Rightarrow> passive_sim \<Rightarrow> bool" where
  "has_active side S \<longleftrightarrow>
     (\<exists>w \<in> set (ps_orders S). pw_side w = side \<and> (pw_status w = ORDER_PENDING \<or> resting w))"

section \<open>The strategy\<close>

text \<open>
  \<^verbatim>\<open>a // b\<close> truncates; like \<^verbatim>\<open>%\<close> it is impossible when the quotient has more
  digits than the context.
\<close>

definition dfloordiv :: "decimal \<Rightarrow> decimal \<Rightarrow> py_error + decimal" where
  "dfloordiv a b =
     (if b = 0 then Inl (if a = 0 then InvalidOperation else ZeroDivisionError)
      else let q = dtrunc (a / b) in if 10 ^ 28 \<le> \<bar>q\<bar> then Inl InvalidOperation else Inr (of_int q))"

definition next_buy_quantity :: "s0_config \<Rightarrow> inventory_ledger \<Rightarrow> py_error + decimal" where
  "next_buy_quantity cfg L =
     (case s0_quantity_override cfg of
        Some q \<Rightarrow> Inr q
      | None \<Rightarrow>
          let purse = (if s0_lot_mode cfg = FIXED_LOT then min (s0_fixed_lot cfg) (il_usdc L) else il_usdc L);
              budget = (if fm_buy_asset (s0_fees cfg) = QUOTE_ASSET
                        then ddiv purse (dadd 1 (fm_maker (s0_fees cfg))) else purse)
          in case dquot budget (s0_lower cfg) of
               Inl e \<Rightarrow> Inl e
             | Inr raw \<Rightarrow>
                 (case dfloordiv raw (s0_step_size cfg) of
                    Inl e \<Rightarrow> Inl e
                  | Inr steps \<Rightarrow>
                      let quantity = dmul steps (s0_step_size cfg)
                      in Inr (if quantity < s0_min_quantity cfg then 0
                              else if dmul quantity (s0_lower cfg) < s0_min_notional cfg then 0
                              else quantity)))"

definition add_decision :: "string \<Rightarrow> int \<Rightarrow> int \<Rightarrow> passive_sim \<Rightarrow> (unit, passive_sim) outcome" where
  "add_decision action decision_at latest_input S =
     (let d = \<lparr>da_action = action, da_decision_at = decision_at, da_latest_input = latest_input\<rparr>
      in if \<not> valid_audit d then Raise validation_error S
         else Return () (S\<lparr>ps_decisions := ps_decisions S @ [d]\<rparr>))"

definition consider_order :: "s0_config \<Rightarrow> int \<Rightarrow> int \<Rightarrow> passive_sim \<Rightarrow> (unit, passive_sim) outcome" where
  "consider_order cfg decision_at latest_input S =
     (if ps_risk_halt S \<or> has_active BUY_SIDE S \<or> 0 < il_fdusd (ps_ledger S) then Return () S
      else raising (next_buy_quantity cfg (ps_ledger S)) S (\<lambda>quantity.
        if quantity \<le> 0 then Return () S
        else
          let notional = dmul (s0_lower cfg) quantity;
              quote_fee = (if fm_buy_asset (s0_fees cfg) = QUOTE_ASSET then dmul notional (fm_maker (s0_fees cfg)) else 0)
          in if il_usdc (ps_ledger S) < dadd notional quote_fee then Return () S
             else and_then (add_decision ''PLACE_BUY'' decision_at latest_input S) (\<lambda>_ S1.
               sim_new_order cfg BUY_SIDE (s0_lower cfg) quantity decision_at S1)))"

definition on_market_delivery :: "s0_config \<Rightarrow> market_event \<Rightarrow> int \<Rightarrow> passive_sim \<Rightarrow> (unit, passive_sim) outcome" where
  "on_market_delivery cfg event delivered_at S0 =
     (let S = S0\<lparr>ps_latest_input := Some (event_time event)\<rparr>;
          consider = (\<lambda>S'. if ps_strategy_valid S'
            then consider_order cfg (delivered_at + lc_decision (s0_latency cfg)) (event_time event) S' else Return () S')
      in case event of
           FeedGap t n reason \<Rightarrow> Return () (S\<lparr>ps_strategy_valid := False\<rparr>)
         | RiskHalt t n reason evidence \<Rightarrow> Return () (S\<lparr>ps_risk_halt := True, ps_halt_reason := Some reason\<rparr>)
         | BookSnapshot t n u bids asks \<Rightarrow> consider (S\<lparr>ps_strategy_valid := True\<rparr>)
         | BookDelta t n first final bids asks \<Rightarrow>
             consider (if \<not> ps_book_valid S then S\<lparr>ps_strategy_valid := False\<rparr> else S)
         | PublicTrade x \<Rightarrow> Return () S)"

section \<open>Fills\<close>

text \<open>
  \<^verbatim>\<open>Decimal(str(elapsed.total_seconds()))\<close>: the shortest decimal of the float nearest to
  the quotient is the quotient itself for spans of up to fifteen digits of microseconds.
\<close>

definition total_seconds :: "int \<Rightarrow> decimal" where
  "total_seconds microseconds = of_int microseconds / 1000000"

definition marked :: "decimal option \<Rightarrow> int \<Rightarrow> inventory_ledger \<Rightarrow> inventory_ledger" where
  "marked mid t L =
     (case mid of
        Some m \<Rightarrow>
          if 0 < il_fdusd L
          then L\<lparr>il_unrealized := dmul (il_fdusd L) (dsub m (il_average_cost L)),
                 il_age_seconds := (case il_opened_at L of None \<Rightarrow> il_age_seconds L | Some t0 \<Rightarrow> total_seconds (t - t0))\<rparr>
          else if il_fdusd L = 0 then L\<lparr>il_unrealized := 0\<rparr> else L
      | None \<Rightarrow> if il_fdusd L = 0 then L\<lparr>il_unrealized := 0\<rparr> else L)"

definition mark_inventory :: "int \<Rightarrow> passive_sim \<Rightarrow> passive_sim" where
  "mark_inventory t S = S\<lparr>ps_ledger := marked (ps_last_mid S) t (ps_ledger S)\<rparr>"

text \<open>The ledger on a fill, and what is left of it when a check or a division raises.\<close>

definition ledger_buy ::
    "decimal \<Rightarrow> decimal \<Rightarrow> decimal \<Rightarrow> decimal \<Rightarrow> int \<Rightarrow> inventory_ledger \<Rightarrow> (unit, inventory_ledger) outcome" where
  "ledger_buy quote_value quote_fee fee_quote net_base t L =
     (let quote_debit = dadd quote_value quote_fee
      in if il_usdc L < quote_debit then Raise (ValueError ''buy fill exceeds available USDC'') L
         else
           let previous_cost = dmul (il_average_cost L) (il_fdusd L);
               L1 = L\<lparr>il_usdc := dsub (il_usdc L) quote_debit, il_fdusd := dadd (il_fdusd L) net_base\<rparr>
           in case dquot (dadd (dadd previous_cost quote_value) fee_quote) (il_fdusd L1) of
                Inl e \<Rightarrow> Raise e L1
              | Inr average \<Rightarrow> Return () (L1\<lparr>il_average_cost := average,
                  il_locked := dadd (il_locked L1) (dadd quote_value fee_quote),
                  il_opened_at := (case il_opened_at L1 of None \<Rightarrow> Some t | Some t0 \<Rightarrow> Some t0)\<rparr>))"

definition ledger_sell ::
    "decimal \<Rightarrow> decimal \<Rightarrow> decimal \<Rightarrow> decimal \<Rightarrow> inventory_ledger \<Rightarrow> (unit, inventory_ledger) outcome" where
  "ledger_sell quote_value quote_fee quantity base_fee L =
     (let base_debit = dadd quantity base_fee
      in if il_fdusd L < base_debit then Raise (ValueError ''sell fill exceeds available FDUSD'') L
         else
           let quote_credit = dsub quote_value quote_fee; cost_released = dmul (il_average_cost L) base_debit;
               L1 = L\<lparr>il_fdusd := dsub (il_fdusd L) base_debit, il_usdc := dadd (il_usdc L) quote_credit,
                      il_realized := dadd (il_realized L) (dsub quote_credit cost_released),
                      il_locked := max 0 (dsub (il_locked L) cost_released)\<rparr>
           in Return () (if il_fdusd L1 = 0 then L1\<lparr>il_average_cost := 0, il_opened_at := None, il_age_seconds := 0\<rparr> else L1))"

record fee_split =
  fs_amount :: decimal
  fs_asset :: fee_asset
  fs_quote :: decimal
  fs_net_base :: decimal

definition split_fee :: "s0_config \<Rightarrow> order_side \<Rightarrow> decimal \<Rightarrow> decimal \<Rightarrow> fee_split" where
  "split_fee cfg side price quantity =
     (let rate = fee_rate_of MAKER_ROLE (s0_fees cfg);
          asset = (if side = BUY_SIDE then fm_buy_asset (s0_fees cfg) else fm_sell_asset (s0_fees cfg));
          amount = (if asset = QUOTE_ASSET then dmul (dmul quantity price) rate else dmul quantity rate)
      in \<lparr>fs_amount = amount, fs_asset = asset,
          fs_quote = (if asset = QUOTE_ASSET then amount else dmul amount price),
          fs_net_base = (if side = BUY_SIDE \<and> asset = BASE_ASSET then dsub quantity amount else quantity)\<rparr>)"

definition ledger_fill ::
    "order_side \<Rightarrow> decimal \<Rightarrow> decimal \<Rightarrow> fee_split \<Rightarrow> int \<Rightarrow> inventory_ledger \<Rightarrow> (unit, inventory_ledger) outcome" where
  "ledger_fill side quote_value quantity fee t L =
     (let quote_fee = (if fs_asset fee = QUOTE_ASSET then fs_amount fee else 0);
          base_fee = (if fs_asset fee = BASE_ASSET then fs_amount fee else 0)
      in if side = BUY_SIDE then ledger_buy quote_value quote_fee (fs_quote fee) (fs_net_base fee) t L
         else ledger_sell quote_value quote_fee quantity base_fee L)"

definition order_after_fill :: "decimal \<Rightarrow> decimal \<Rightarrow> decimal \<Rightarrow> passive_order \<Rightarrow> passive_order" where
  "order_after_fill quantity average_price fee_quote w =
     (let remaining = dsub (pw_remaining w) quantity
      in w\<lparr>pw_filled := dadd (pw_filled w) quantity, pw_remaining := remaining, pw_average_price := average_price,
           pw_fees_quote := dadd (pw_fees_quote w) fee_quote,
           pw_status := (if remaining = 0 then ORDER_FILLED
                         else if pw_status w = ORDER_CANCEL_PENDING then ORDER_CANCEL_PENDING
                         else ORDER_PARTIALLY_FILLED)\<rparr>)"

definition fill_of :: "passive_order \<Rightarrow> decimal \<Rightarrow> decimal \<Rightarrow> fee_split \<Rightarrow> trade_event \<Rightarrow> micro_fill" where
  "fill_of w quantity quote_value fee x =
     \<lparr>mf_order_id = pw_order_id w, mf_timestamp = mt_timestamp x, mf_side = pw_side w, mf_price = pw_price w,
      mf_gross = quantity, mf_net_base = fs_net_base fee, mf_quote_value = quote_value, mf_fee_amount = fs_amount fee,
      mf_fee_asset = fs_asset fee, mf_fee_quote = fs_quote fee, mf_role = MAKER_ROLE,
      mf_queue_after = pw_queue_ahead w, mf_completes = (pw_status w = ORDER_FILLED),
      mf_trade_id = mt_trade_id x, mf_sequence = mt_sequence x\<rparr>"

text \<open>The simulator once the ledger has taken a fill, and once the order and the fill are recorded.\<close>

definition fill_booked :: "order_side \<Rightarrow> fee_split \<Rightarrow> inventory_ledger \<Rightarrow> passive_sim \<Rightarrow> passive_sim" where
  "fill_booked side fee L S =
     S\<lparr>ps_ledger := L\<lparr>il_fees := dadd (il_fees L) (fs_quote fee)\<rparr>,
       ps_cycles := (if side = SELL_SIDE \<and> il_fdusd L = 0 then ps_cycles S + 1 else ps_cycles S)\<rparr>"

definition recorded :: "nat \<Rightarrow> passive_order \<Rightarrow> micro_fill \<Rightarrow> passive_sim \<Rightarrow> passive_sim" where
  "recorded i w f S =
     mark_inventory (mf_timestamp f) (sim_put_order i w (S\<lparr>ps_fills := ps_fills S @ [f]\<rparr>))"

definition sim_apply_fill ::
    "s0_config \<Rightarrow> nat \<Rightarrow> decimal \<Rightarrow> trade_event \<Rightarrow> passive_sim \<Rightarrow> (micro_fill, passive_sim) outcome" where
  "sim_apply_fill cfg i quantity x S =
     (let w = ps_orders S ! i; quote_value = dmul quantity (pw_price w);
          fee = split_fee cfg (pw_side w) (pw_price w) quantity
      in case ledger_fill (pw_side w) quote_value quantity fee (mt_timestamp x) (ps_ledger S) of
           Raise e L \<Rightarrow> Raise e (S\<lparr>ps_ledger := L\<rparr>)
         | Return _ L \<Rightarrow>
             let S1 = fill_booked (pw_side w) fee L S; filled = dadd (pw_filled w) quantity
             in case dquot (dadd (dmul (pw_average_price w) (pw_filled w)) quote_value) filled of
                  Inl e \<Rightarrow> Raise e (sim_put_order i (w\<lparr>pw_filled := filled, pw_remaining := dsub (pw_remaining w) quantity\<rparr>) S1)
                | Inr average_price \<Rightarrow>
                    let w1 = order_after_fill quantity average_price (fs_quote fee) w;
                        f = fill_of w1 quantity quote_value fee x
                    in Return f (recorded i w1 f S1))"

text \<open>
  The loop over the matching orders: the public queue ahead of an order is taken off the traded
  quantity before the order is filled from it.
\<close>

primrec match_orders ::
    "s0_config \<Rightarrow> trade_event \<Rightarrow> nat list \<Rightarrow> decimal \<Rightarrow> passive_sim \<Rightarrow> (unit, passive_sim) outcome" where
  "match_orders cfg x [] available S = Return () S"
| "match_orders cfg x (i # rest) available S =
     (let w = ps_orders S ! i; consumed = min (pw_queue_ahead w) available;
          S1 = sim_put_order i (w\<lparr>pw_queue_ahead := dsub (pw_queue_ahead w) consumed\<rparr>) S;
          left = dsub available consumed
      in if left \<le> 0 then Return () S1
         else
           let fill_quantity = min (pw_remaining w) left
           in if 0 < fill_quantity
              then and_then (sim_apply_fill cfg i fill_quantity x S1) (\<lambda>f S2.
                match_orders cfg x rest (dsub left fill_quantity)
                  (sim_schedule (mt_timestamp x + lc_market_data (s0_latency cfg)) 2 (NoticeJob f) S2))
              else match_orders cfg x rest left S1)"

definition passive_side :: "trade_event \<Rightarrow> order_side" where
  "passive_side x = (if mt_buyer_is_maker x then BUY_SIDE else SELL_SIDE)"

definition order_matches :: "trade_event \<Rightarrow> passive_order \<Rightarrow> bool" where
  "order_matches x w \<longleftrightarrow>
     pw_side w = passive_side x \<and> pw_price w = mt_price x \<and> resting w \<and> pw_arrival w < mt_timestamp x"

definition matching_orders :: "trade_event \<Rightarrow> passive_sim \<Rightarrow> nat list" where
  "matching_orders x S = filter (\<lambda>i. order_matches x (ps_orders S ! i)) [0..<length (ps_orders S)]"

definition put_side :: "order_side \<Rightarrow> (decimal, decimal) dict \<Rightarrow> passive_sim \<Rightarrow> passive_sim" where
  "put_side side d S = (if side = BUY_SIDE then S\<lparr>ps_bids := d\<rparr> else S\<lparr>ps_asks := d\<rparr>)"

definition trade_level :: "trade_event \<Rightarrow> passive_sim \<Rightarrow> passive_sim" where
  "trade_level x S =
     (case dict_get (book_side (passive_side x) S) (mt_price x) of
        None \<Rightarrow> S
      | Some q \<Rightarrow>
          let left = max 0 (dsub q (mt_quantity x)); d = book_side (passive_side x) S
          in refresh_mid (put_side (passive_side x)
               (if left = 0 then dict_del (mt_price x) d else dict_set (mt_price x) left d) S))"

definition match_trade :: "s0_config \<Rightarrow> trade_event \<Rightarrow> passive_sim \<Rightarrow> (unit, passive_sim) outcome" where
  "match_trade cfg x S =
     (if get_or (book_side (passive_side x) S) (mt_price x) 0 \<le> 0 then Return () S
      else and_then (match_orders cfg x (matching_orders x S) (mt_quantity x) S) (\<lambda>_ S1. Return () (trade_level x S1)))"

section \<open>Handlers\<close>

definition on_market :: "s0_config \<Rightarrow> market_event \<Rightarrow> passive_sim \<Rightarrow> (unit, passive_sim) outcome" where
  "on_market cfg event S =
     and_then
       (case event of
          BookSnapshot t n u bids asks \<Rightarrow> Return () (take_snapshot u bids asks S)
        | BookDelta t n first final bids asks \<Rightarrow> Return () (apply_delta first final bids asks S)
        | FeedGap t n reason \<Rightarrow> Return () (invalidate_book False S)
        | RiskHalt t n reason evidence \<Rightarrow> Return () S
        | PublicTrade x \<Rightarrow> match_trade cfg x S)
       (\<lambda>_ S1. Return () (sim_schedule (event_time event + lc_market_data (s0_latency cfg)) 2 (DeliverJob event) S1))"

definition on_fill_notice :: "s0_config \<Rightarrow> micro_fill \<Rightarrow> int \<Rightarrow> passive_sim \<Rightarrow> (unit, passive_sim) outcome" where
  "on_fill_notice cfg f notice_at S =
     (let decision_at = notice_at + lc_decision (s0_latency cfg)
      in if mf_side f = SELL_SIDE
         then (if \<not> ps_risk_halt S \<and> mf_completes f \<and> il_fdusd (ps_ledger S) = 0
               then and_then (add_decision ''ACCOUNT_CYCLE_AND_PLACE_BUY'' decision_at (mf_timestamp f) S) (\<lambda>_ S1.
                 raising (next_buy_quantity cfg (ps_ledger S1)) S1 (\<lambda>quantity.
                   if 0 < quantity then sim_new_order cfg BUY_SIDE (s0_lower cfg) quantity decision_at S1
                   else Return () S1))
               else Return () S)
         else if \<not> mf_completes f then Return () S
         else
           let available = il_fdusd (ps_ledger S);
               sell_quantity = (if fm_sell_asset (s0_fees cfg) = BASE_ASSET
                                then ddiv available (dadd 1 (fm_maker (s0_fees cfg))) else available)
           in and_then (add_decision ''PLACE_SELL'' decision_at (mf_timestamp f) S) (\<lambda>_ S1.
                sim_new_order cfg SELL_SIDE (s0_upper cfg) sell_quantity decision_at S1))"

definition order_index :: "string \<Rightarrow> passive_sim \<Rightarrow> nat option" where
  "order_index oid S = find (\<lambda>i. pw_order_id (ps_orders S ! i) = oid) [0..<length (ps_orders S)]"

definition on_cancel_request :: "s0_config \<Rightarrow> cancel_ask \<Rightarrow> passive_sim \<Rightarrow> (unit, passive_sim) outcome" where
  "on_cancel_request cfg r S =
     (case order_index (ca_order_id r) S of
        None \<Rightarrow> Raise (ValueError (''unknown order '' @ ca_order_id r)) S
      | Some i \<Rightarrow>
          if \<not> resting (ps_orders S ! i) then Return () S
          else
            let effective = ca_requested_at r + lc_cancel (s0_latency cfg)
            in Return () (sim_schedule effective 1 (CancelDoneJob i)
                 (sim_put_order i ((ps_orders S ! i)\<lparr>pw_cancel_requested := Some (ca_requested_at r),
                    pw_cancel_effective := Some effective, pw_status := ORDER_CANCEL_PENDING\<rparr>) S)))"

definition canceled_at :: "int \<Rightarrow> passive_order \<Rightarrow> passive_order" where
  "canceled_at t w =
     (if pw_status w = ORDER_CANCEL_PENDING \<and> pw_cancel_effective w = Some t then w\<lparr>pw_status := ORDER_CANCELED\<rparr> else w)"

definition on_cancel_effective :: "nat \<Rightarrow> int \<Rightarrow> passive_sim \<Rightarrow> (unit, passive_sim) outcome" where
  "on_cancel_effective i t S = Return () (sim_put_order i (canceled_at t (ps_orders S ! i)) S)"

primrec sim_handle :: "s0_config \<Rightarrow> int \<Rightarrow> sim_job \<Rightarrow> passive_sim \<Rightarrow> (unit, passive_sim) outcome" where
  "sim_handle cfg t (MarketJob event) S = on_market cfg event S"
| "sim_handle cfg t (DeliverJob event) S = on_market_delivery cfg event t S"
| "sim_handle cfg t (ArrivalJob i) S = on_order_arrival cfg i S"
| "sim_handle cfg t (NoticeJob f) S = on_fill_notice cfg f t S"
| "sim_handle cfg t (CancelAskJob r) S = on_cancel_request cfg r S"
| "sim_handle cfg t (CancelDoneJob i) S = on_cancel_effective i t S"

section \<open>The event loop ends\<close>

text \<open>
  A handler only schedules jobs of a lower rank than the one it serves: a market event its
  delivery and notices of fills, a delivery or notice an arriving order, a cancel request its
  effect. So the multiset of the ranks in the queue decreases.
\<close>

primrec job_rank :: "sim_job \<Rightarrow> nat" where
  "job_rank (MarketJob event) = 2"
| "job_rank (DeliverJob event) = 1"
| "job_rank (ArrivalJob i) = 0"
| "job_rank (NoticeJob f) = 1"
| "job_rank (CancelAskJob r) = 1"
| "job_rank (CancelDoneJob i) = 0"

definition queue_jobs :: "passive_sim \<Rightarrow> sim_job multiset" where
  "queue_jobs S = mset (map snd (ps_queue S))"

definition adds_below :: "nat \<Rightarrow> passive_sim \<Rightarrow> passive_sim \<Rightarrow> bool" where
  "adds_below r S S' \<longleftrightarrow> (\<exists>M. queue_jobs S' = queue_jobs S + M \<and> (\<forall>job \<in># M. job_rank job < r))"

lemma adds_below_same: "ps_queue S' = ps_queue S \<Longrightarrow> adds_below r S S'"
  by (auto simp: adds_below_def queue_jobs_def intro: exI [of _ "{#}"])

lemma adds_below_trans: "adds_below r S S1 \<Longrightarrow> adds_below r S1 S2 \<Longrightarrow> adds_below r S S2"
  unfolding adds_below_def by (elim exE) (rule exI, auto simp: add.assoc)

lemma queue_jobs_schedule: "queue_jobs (sim_schedule t p job S) = queue_jobs S + {#job#}"
  by (simp add: queue_jobs_def sim_schedule_def flip: mset_map) (simp add: mset_map)

lemma adds_below_schedule: "adds_below r S S1 \<Longrightarrow> job_rank job < r \<Longrightarrow> adds_below r S (sim_schedule t p job S1)"
  by (rule adds_below_trans) (auto simp: adds_below_def queue_jobs_schedule)

lemma queue_kept [simp]:
  "ps_queue (sim_put_order i w S) = ps_queue S" "ps_queue (refresh_mid S) = ps_queue S"
  "ps_queue (invalidate_book b S) = ps_queue S" "ps_queue (take_snapshot u bids asks S) = ps_queue S"
  "ps_queue (apply_delta first final bids asks S) = ps_queue S" "ps_queue (mark_inventory t S) = ps_queue S"
  "ps_queue (trade_level x S) = ps_queue S"
  by (simp_all add: sim_put_order_def refresh_mid_def invalidate_book_def take_snapshot_def apply_delta_def
      mark_inventory_def trade_level_def put_side_def Let_def split: option.splits)

lemma new_order_adds: "sim_new_order cfg side price quantity t S = Return r S' \<Longrightarrow> adds_below (Suc 0) S S'"
  by (auto simp: sim_new_order_def Let_def split: if_splits intro!: adds_below_schedule intro: adds_below_same)

lemma add_decision_adds: "add_decision action t latest S = Return r S' \<Longrightarrow> adds_below k S S'"
  by (auto simp: add_decision_def Let_def split: if_splits intro: adds_below_same)

lemma consider_order_adds: "consider_order cfg t latest S = Return r S' \<Longrightarrow> adds_below (Suc 0) S S'"
  by (auto simp: consider_order_def Let_def split: if_splits
      intro: adds_below_same adds_below_trans [OF add_decision_adds new_order_adds])

lemma delivery_adds: "on_market_delivery cfg event t S = Return r S' \<Longrightarrow> adds_below (Suc 0) S S'"
proof -
  have skip: "adds_below (Suc 0) S1 S' \<Longrightarrow> ps_queue S1 = ps_queue S \<Longrightarrow> adds_below (Suc 0) S S'" for S1
    by (rule adds_below_trans [OF adds_below_same])
  assume "on_market_delivery cfg event t S = Return r S'"
  then show ?thesis
    by (cases event) (auto simp: on_market_delivery_def Let_def split: if_splits
        intro: adds_below_same skip [OF consider_order_adds])
qed

lemma notice_adds: "on_fill_notice cfg f t S = Return r S' \<Longrightarrow> adds_below (Suc 0) S S'"
  by (auto simp: on_fill_notice_def Let_def split: if_splits
      intro: adds_below_same add_decision_adds adds_below_trans [OF add_decision_adds new_order_adds])

lemma apply_fill_queue: "sim_apply_fill cfg i quantity x S = Return f S' \<Longrightarrow> ps_queue S' = ps_queue S"
  by (auto simp: sim_apply_fill_def fill_booked_def recorded_def Let_def split: outcome.splits sum.splits)

lemma match_orders_adds: "match_orders cfg x is available S = Return r S' \<Longrightarrow> adds_below 2 S S'"
proof (induction "is" arbitrary: available S)
  case (Cons i rest)
  let ?w = "ps_orders S ! i"
  let ?S = "sim_put_order i (?w\<lparr>pw_queue_ahead := dsub (pw_queue_ahead ?w) (min (pw_queue_ahead ?w) available)\<rparr>) S"
  let ?left = "dsub available (min (pw_queue_ahead ?w) available)"
  have S: "adds_below 2 S ?S" by (rule adds_below_same) simp
  consider "S' = ?S" | "match_orders cfg x rest ?left ?S = Return r S'"
    | f S2 where "sim_apply_fill cfg i (min (pw_remaining ?w) ?left) x ?S = Return f S2"
      "match_orders cfg x rest (dsub ?left (min (pw_remaining ?w) ?left))
         (sim_schedule (mt_timestamp x + lc_market_data (s0_latency cfg)) 2 (NoticeJob f) S2) = Return r S'"
    using Cons.prems by (auto simp: Let_def split: if_splits)
  then show ?case
  proof cases
    case 1
    then show ?thesis using S by simp
  next
    case 2
    then show ?thesis using adds_below_trans [OF S Cons.IH] by blast
  next
    case 3
    have "adds_below 2 S (sim_schedule (mt_timestamp x + lc_market_data (s0_latency cfg)) 2 (NoticeJob f) S2)"
      by (rule adds_below_schedule [OF adds_below_trans [OF S adds_below_same]]) (simp_all add: apply_fill_queue [OF 3(1)])
    then show ?thesis using adds_below_trans Cons.IH [OF 3(2)] by blast
  qed
qed (simp add: adds_below_same)

lemma on_market_adds: "on_market cfg event S = Return r S' \<Longrightarrow> adds_below 2 S S'"
  by (cases event) (auto simp: on_market_def match_trade_def split: if_splits
      intro!: adds_below_schedule intro: adds_below_same adds_below_trans [OF match_orders_adds adds_below_same])

lemma handle_adds: "sim_handle cfg t job S = Return r S' \<Longrightarrow> adds_below (job_rank job) S S'"
proof (cases job)
  case (CancelAskJob x)
  assume "sim_handle cfg t job S = Return r S'"
  then show ?thesis unfolding CancelAskJob
    by (auto simp: on_cancel_request_def Let_def split: option.splits if_splits
        intro!: adds_below_schedule intro: adds_below_same)
qed (auto simp: on_order_arrival_def on_cancel_effective_def intro: on_market_adds delivery_adds notice_adds adds_below_same)

lemma handle_decreases:
  assumes queue: "ps_queue S = entry # rest" and run: "sim_handle cfg t (snd entry) (S\<lparr>ps_queue := rest\<rparr>) = Return r S'"
  shows "(image_mset job_rank (queue_jobs S'), image_mset job_rank (queue_jobs S)) \<in> mult less_than"
proof -
  let ?S = "S\<lparr>ps_queue := rest\<rparr>"
  obtain M where M: "queue_jobs S' = queue_jobs ?S + M" "\<forall>job \<in># M. job_rank job < job_rank (snd entry)"
    using handle_adds [OF run] by (auto simp: adds_below_def)
  have "queue_jobs S = queue_jobs ?S + {#snd entry#}" using queue by (simp add: queue_jobs_def)
  then show ?thesis
    using one_step_implies_mult [of "{#job_rank (snd entry)#}" "image_mset job_rank M" less_than] M by simp
qed

function run_loop :: "s0_config \<Rightarrow> passive_sim \<Rightarrow> (unit, passive_sim) outcome" where
  "run_loop cfg S =
     (case ps_queue S of
        [] \<Rightarrow> Return () S
      | entry # rest \<Rightarrow>
          (case sim_handle cfg (fst (fst entry)) (snd entry) (S\<lparr>ps_queue := rest\<rparr>) of
             Raise e S' \<Rightarrow> Raise e S'
           | Return _ S' \<Rightarrow> run_loop cfg S'))"
  by pat_completeness auto

termination
proof (relation "inv_image (mult less_than) (\<lambda>(cfg, S). image_mset job_rank (queue_jobs S))")
  show "wf (inv_image (mult less_than) (\<lambda>(cfg :: s0_config, S). image_mset job_rank (queue_jobs S)))" by (simp add: wf_mult)
next
  fix cfg S entry rest r S'
  assume queue: "ps_queue S = entry # rest"
    and run: "sim_handle cfg (fst (fst entry)) (snd entry) (S\<lparr>ps_queue := rest\<rparr>) = Return r S'"
  from handle_decreases [OF queue run]
  show "((cfg, S'), cfg, S) \<in> inv_image (mult less_than) (\<lambda>(cfg, S). image_mset job_rank (queue_jobs S))" by simp
qed

declare run_loop.simps [simp del]

section \<open>The run\<close>

text \<open>The messages name the offending identity; only their constant part is kept.\<close>

primrec validate_events :: "market_event list \<Rightarrow> (int \<times> nat) list \<Rightarrow> nat list \<Rightarrow> py_error + unit" where
  "validate_events [] seen trade_ids = Inr ()"
| "validate_events (event # events) seen trade_ids =
     (let current = (event_time event, event_sequence event)
      in if current \<in> set seen then Inl (ValueError ''duplicate event identity'')
         else if seen \<noteq> [] \<and> current \<le> hd seen
         then Inl (ValueError ''events must be strictly ordered by timestamp/sequence'')
         else case event of
           PublicTrade x \<Rightarrow>
             if mt_trade_id x \<in> set trade_ids then Inl (ValueError ''duplicate trade id'')
             else validate_events events (current # seen) (mt_trade_id x # trade_ids)
         | _ \<Rightarrow> validate_events events (current # seen) trade_ids)"

record run_report =
  rn_run_id :: string
  rn_started_at :: int
  rn_finished_at :: int
  rn_book_valid :: bool
  rn_invalidations :: nat
  rn_risk_halt :: bool
  rn_halt_reason :: "string option"
  rn_decisions :: "decision_audit list"
  rn_orders :: "passive_order list"
  rn_fills :: "micro_fill list"
  rn_ledger :: inventory_ledger
  rn_filled_orders :: nat
  rn_fill_ratio :: decimal
  rn_partial_fills :: nat
  rn_cycles :: nat
  rn_gross_pnl :: decimal

definition finish_time :: "market_event list \<Rightarrow> passive_sim \<Rightarrow> int" where
  "finish_time events S =
     Max (set (map event_time events @ map pw_arrival (ps_orders S) @ map mf_timestamp (ps_fills S) @
       concat (map (\<lambda>w. case pw_cancel_effective w of None \<Rightarrow> [] | Some t \<Rightarrow> [t]) (ps_orders S))))"

definition report_of :: "string \<Rightarrow> market_event list \<Rightarrow> int \<Rightarrow> passive_sim \<Rightarrow> run_report" where
  "report_of run_id events finished S =
     (let filled = length (filter (\<lambda>w. 0 < pw_filled w) (ps_orders S))
      in \<lparr>rn_run_id = run_id, rn_started_at = Min (set (map event_time events)), rn_finished_at = finished,
          rn_book_valid = ps_book_valid S, rn_invalidations = ps_invalidations S, rn_risk_halt = ps_risk_halt S,
          rn_halt_reason = ps_halt_reason S, rn_decisions = ps_decisions S, rn_orders = ps_orders S,
          rn_fills = ps_fills S, rn_ledger = ps_ledger S, rn_filled_orders = filled,
          rn_fill_ratio = (if ps_orders S = [] then 0 else ddiv (of_nat filled) (of_nat (length (ps_orders S)))),
          rn_partial_fills = length (filter (\<lambda>w. pw_status w = ORDER_PARTIALLY_FILLED) (ps_orders S)),
          rn_cycles = ps_cycles S, rn_gross_pnl = dadd (il_realized (ps_ledger S)) (il_fees (ps_ledger S))\<rparr>)"

definition load_jobs :: "market_event list \<Rightarrow> cancel_ask list \<Rightarrow> passive_sim \<Rightarrow> passive_sim" where
  "load_jobs events cancels S =
     foldl (\<lambda>S' r. sim_schedule (ca_requested_at r) 1 (CancelAskJob r) S')
       (foldl (\<lambda>S' event. sim_schedule (event_time event) 0 (MarketJob event) S') S events) cancels"

text \<open>\<open>digest\<close> is the canonical SHA-256 of the configuration and the dataset hash.\<close>

definition sim_run ::
    "(s0_config \<Rightarrow> string \<Rightarrow> string) \<Rightarrow> s0_config \<Rightarrow> market_event list \<Rightarrow> string \<Rightarrow> cancel_ask list \<Rightarrow> passive_sim \<Rightarrow>
     (run_report, passive_sim) outcome" where
  "sim_run digest cfg events dataset_hash cancels S =
     (if events = [] then Raise (ValueError ''event stream is empty'') S
      else raising (validate_events events [] []) S (\<lambda>_.
        and_then (run_loop cfg (load_jobs events cancels S)) (\<lambda>_ S1.
          let finished = finish_time events S1; S2 = mark_inventory finished S1
          in Return (report_of (digest cfg dataset_hash) events finished S2) S2)))"

end
