(* ===== verification/Passive_Sim_Facts.thy ===== *)
theory Passive_Sim_Facts
  imports Passive_Sim
begin

text \<open>
  What holds of every run of the passive execution simulator, whether it returns or raises: the
  life of an order follows the status diagram, a fill is evidenced by one public print that
  exhausted the queue ahead of the order, and the ledger is never overdrawn.
\<close>

section \<open>The event loop as a client of its handlers\<close>

text \<open>
  What every handler that returns keeps, the loop keeps; what a handler leaves when it raises, the
  loop leaves.
\<close>

locale event_loop =
  fixes cfg :: s0_config and inv :: "passive_sim \<Rightarrow> bool" and good :: "passive_sim \<Rightarrow> bool"
  assumes serve_return: "inv S \<Longrightarrow> ps_queue S = entry # rest \<Longrightarrow>
      sim_handle cfg (fst (fst entry)) (snd entry) (S\<lparr>ps_queue := rest\<rparr>) = Return r S' \<Longrightarrow> inv S'"
    and serve_raise: "inv S \<Longrightarrow> ps_queue S = entry # rest \<Longrightarrow>
      sim_handle cfg (fst (fst entry)) (snd entry) (S\<lparr>ps_queue := rest\<rparr>) = Raise e S' \<Longrightarrow> good S'"
    and inv_good: "inv S \<Longrightarrow> good S"
begin

lemma loop_good:
  assumes "inv S"
  shows "good (post_state (run_loop cfg S))"
proof -
  have "cfg' = cfg \<Longrightarrow> inv S \<Longrightarrow> good (post_state (run_loop cfg' S))" for cfg' S
  proof (induction cfg' S rule: run_loop.induct)
    case (1 cfg' S)
    show ?case
    proof (cases "ps_queue S")
      case Nil
      then show ?thesis using 1(3) by (simp add: run_loop.simps [of cfg'] inv_good)
    next
      case (Cons entry rest)
      note step = serve_return [OF 1(3) Cons] serve_raise [OF 1(3) Cons]
      show ?thesis
      proof (cases "sim_handle cfg (fst (fst entry)) (snd entry) (S\<lparr>ps_queue := rest\<rparr>)")
        case (Return r S')
        then have "good (post_state (run_loop cfg' S'))" using 1(1) [of entry rest r S'] Cons 1(2) step(1) by simp
        then show ?thesis unfolding run_loop.simps [of cfg' S] using Cons Return 1(2) by simp
      next
        case (Raise e S')
        then show ?thesis unfolding run_loop.simps [of cfg' S] using Cons 1(2) step(2) by simp
      qed
    qed
  qed
  then show ?thesis using assms by simp
qed

end

section \<open>Frames\<close>

lemma schedule_fields [simp]:
  "ps_orders (sim_schedule t p job S) = ps_orders S" "ps_fills (sim_schedule t p job S) = ps_fills S"
  "ps_ledger (sim_schedule t p job S) = ps_ledger S"
  by (simp_all add: sim_schedule_def)

lemma book_fields [simp]:
  "ps_orders (refresh_mid S) = ps_orders S" "ps_fills (refresh_mid S) = ps_fills S" "ps_ledger (refresh_mid S) = ps_ledger S"
  "ps_orders (invalidate_book b S) = ps_orders S" "ps_fills (invalidate_book b S) = ps_fills S"
  "ps_ledger (invalidate_book b S) = ps_ledger S"
  "ps_orders (trade_level x S) = ps_orders S" "ps_fills (trade_level x S) = ps_fills S"
  "ps_ledger (trade_level x S) = ps_ledger S"
  by (simp_all add: refresh_mid_def invalidate_book_def trade_level_def put_side_def Let_def split: option.splits)

lemma event_fields [simp]:
  "ps_orders (take_snapshot u bids asks S) = ps_orders S" "ps_fills (take_snapshot u bids asks S) = ps_fills S"
  "ps_ledger (take_snapshot u bids asks S) = ps_ledger S"
  "ps_orders (apply_delta first final bids asks S) = ps_orders S" "ps_fills (apply_delta first final bids asks S) = ps_fills S"
  "ps_ledger (apply_delta first final bids asks S) = ps_ledger S"
  by (simp_all add: take_snapshot_def apply_delta_def split: option.splits)

lemma put_order_fields [simp]:
  "ps_orders (sim_put_order i w S) = (ps_orders S)[i := w]" "ps_fills (sim_put_order i w S) = ps_fills S"
  "ps_ledger (sim_put_order i w S) = ps_ledger S"
  by (simp_all add: sim_put_order_def)

lemma mark_inventory_fields [simp]:
  "ps_orders (mark_inventory t S) = ps_orders S" "ps_fills (mark_inventory t S) = ps_fills S"
  "ps_ledger (mark_inventory t S) = marked (ps_last_mid S) t (ps_ledger S)"
  by (simp_all add: mark_inventory_def)

section \<open>The life of an order\<close>

inductive status_step :: "passive_status \<Rightarrow> passive_status \<Rightarrow> bool" where
  opens: "status_step ORDER_PENDING ORDER_OPEN"
| rejected: "status_step ORDER_PENDING REJECTED_POST_ONLY"
| uncovered: "status_step ORDER_PENDING REJECTED_NO_OBSERVED_QUEUE_COVERAGE"
| part_fill: "status_step ORDER_OPEN ORDER_PARTIALLY_FILLED"
| full_fill: "s \<in> {ORDER_OPEN, ORDER_PARTIALLY_FILLED, ORDER_CANCEL_PENDING} \<Longrightarrow> status_step s ORDER_FILLED"
| cancel_asked: "s \<in> {ORDER_OPEN, ORDER_PARTIALLY_FILLED} \<Longrightarrow> status_step s ORDER_CANCEL_PENDING"
| cancel_done: "status_step ORDER_CANCEL_PENDING ORDER_CANCELED"

definition final_status :: "passive_status \<Rightarrow> bool" where
  "final_status s \<longleftrightarrow> s \<notin> {ORDER_PENDING, ORDER_OPEN, ORDER_PARTIALLY_FILLED, ORDER_CANCEL_PENDING}"

inductive_cases status_stepE: "status_step s s'"

lemma final_status_stays: "status_step s s' \<Longrightarrow> \<not> final_status s"
  by (erule status_stepE) (auto simp: final_status_def)

text \<open>A later version of an order: the same order, further along the diagram, untouched once final.\<close>

definition moves :: "passive_order \<Rightarrow> passive_order \<Rightarrow> bool" where
  "moves w w' \<longleftrightarrow> w' = w \<or>
     \<not> final_status (pw_status w) \<and> status_step\<^sup>*\<^sup>* (pw_status w) (pw_status w') \<and>
     pw_order_id w' = pw_order_id w \<and> pw_side w' = pw_side w \<and> pw_price w' = pw_price w \<and>
     pw_quantity w' = pw_quantity w \<and> pw_placed_at w' = pw_placed_at w \<and> pw_arrival w' = pw_arrival w"

lemma moves_refl [simp]: "moves w w"
  by (simp add: moves_def)

lemma moves_trans: "moves w w' \<Longrightarrow> moves w' w'' \<Longrightarrow> moves w w''"
  unfolding moves_def by (elim disjE) (auto intro: rtranclp_trans)

definition sim_evolves :: "passive_sim \<Rightarrow> passive_sim \<Rightarrow> bool" where
  "sim_evolves S S' \<longleftrightarrow> length (ps_orders S) \<le> length (ps_orders S') \<and>
     (\<forall>i < length (ps_orders S). moves (ps_orders S ! i) (ps_orders S' ! i))"

lemma evolves_same [simp]: "ps_orders S' = ps_orders S \<Longrightarrow> sim_evolves S S'"
  by (simp add: sim_evolves_def)

lemma sim_evolves_trans: "sim_evolves S S1 \<Longrightarrow> sim_evolves S1 S2 \<Longrightarrow> sim_evolves S S2"
  unfolding sim_evolves_def using moves_trans by fastforce

lemma evolves_put: "moves (ps_orders S ! i) w \<Longrightarrow> sim_evolves S (sim_put_order i w S)"
  unfolding sim_evolves_def put_order_fields by (metis moves_refl nth_list_update_eq nth_list_update_neq length_list_update order_refl)

lemma evolves_add: "ps_orders S' = ps_orders S @ ws \<Longrightarrow> sim_evolves S S'"
  by (simp add: sim_evolves_def nth_append)

lemma evolves_fields [simp]:
  "sim_evolves (S\<lparr>ps_queue := q\<rparr>) S' = sim_evolves S S'" "sim_evolves (S\<lparr>ps_latest_input := l\<rparr>) S' = sim_evolves S S'"
  "sim_evolves (S\<lparr>ps_strategy_valid := b\<rparr>) S' = sim_evolves S S'"
  by (simp_all add: sim_evolves_def)

lemma evolves_schedule [simp]:
  "sim_evolves S (sim_schedule t p job S1) = sim_evolves S S1" "sim_evolves S (trade_level x S1) = sim_evolves S S1"
  by (simp_all add: sim_evolves_def)

lemma sim_new_order_evolves: "sim_evolves S (post_state (sim_new_order cfg side price quantity t S))"
  by (auto simp: sim_new_order_def Let_def intro: evolves_add)

lemma add_decision_same: "ps_orders (post_state (add_decision a t l S)) = ps_orders S"
  "ps_fills (post_state (add_decision a t l S)) = ps_fills S" "ps_ledger (post_state (add_decision a t l S)) = ps_ledger S"
  by (simp_all add: add_decision_def Let_def)

lemma decided_evolves:
  assumes "\<And>S1. sim_evolves S1 (post_state (k S1))"
  shows "sim_evolves S (post_state (and_then (add_decision a t l S) (\<lambda>_ S1. k S1)))"
proof (rule and_then_post)
  show "sim_evolves S (post_state (add_decision a t l S))" by (simp add: add_decision_same)
  show "sim_evolves S (post_state (k s))" if "sim_evolves S s" for s by (rule sim_evolves_trans [OF that assms])
qed

lemma consider_order_evolves: "sim_evolves S (post_state (consider_order cfg t l S))"
  by (auto simp: consider_order_def Let_def sim_new_order_evolves
      intro!: raising_post [where Q = "sim_evolves S"] decided_evolves)

lemma delivery_evolves: "sim_evolves S (post_state (on_market_delivery cfg event t S))"
proof -
  have "ps_orders S1 = ps_orders S \<Longrightarrow> sim_evolves S (post_state (consider_order cfg t' l S1))" for S1 t' l
    using sim_evolves_trans [OF evolves_same consider_order_evolves] by blast
  then show ?thesis by (cases event) (simp_all add: on_market_delivery_def Let_def)
qed

lemma notice_evolves: "sim_evolves S (post_state (on_fill_notice cfg f t S))"
proof -
  have "sim_evolves S1 (post_state (raising m S1 (\<lambda>quantity.
      if 0 < quantity then sim_new_order cfg BUY_SIDE (s0_lower cfg) quantity t' S1 else Return () S1)))" for S1 m t'
    by (rule raising_post) (simp_all add: sim_new_order_evolves)
  then show ?thesis by (simp add: on_fill_notice_def Let_def decided_evolves sim_new_order_evolves)
qed

lemma arriving_moves: "moves w (arriving cfg S w)"
  by (auto simp: arriving_def moves_def Let_def final_status_def intro: status_step.intros)

lemma asked_moves:
  "resting w \<Longrightarrow> moves w (w\<lparr>pw_cancel_requested := a, pw_cancel_effective := b, pw_status := ORDER_CANCEL_PENDING\<rparr>)"
  by (auto simp: moves_def resting_def final_status_def intro: status_step.intros)

lemma canceled_moves: "moves w (canceled_at t w)"
  by (auto simp: canceled_at_def moves_def final_status_def intro: status_step.intros)

lemma arrival_evolves: "sim_evolves S (post_state (on_order_arrival cfg i S))"
  by (simp add: on_order_arrival_def evolves_put arriving_moves)

lemma cancel_request_evolves: "sim_evolves S (post_state (on_cancel_request cfg r S))"
  by (simp add: on_cancel_request_def Let_def evolves_put asked_moves split: option.split)

lemma cancel_done_evolves: "sim_evolves S (post_state (on_cancel_effective i t S))"
  by (simp add: on_cancel_effective_def evolves_put canceled_moves)

section \<open>One public print\<close>

lemma fill_path:
  "status_step\<^sup>*\<^sup>* ORDER_OPEN ORDER_PARTIALLY_FILLED"
  "s \<in> {ORDER_OPEN, ORDER_PARTIALLY_FILLED, ORDER_CANCEL_PENDING} \<Longrightarrow> status_step\<^sup>*\<^sup>* s ORDER_FILLED"
  by (rule r_into_rtranclp, rule part_fill) (rule r_into_rtranclp, rule full_fill)

lemma recording_fields [simp]:
  "ps_orders (fill_booked side fee L S) = ps_orders S" "ps_fills (fill_booked side fee L S) = ps_fills S"
  "ps_ledger (fill_booked side fee L S) = L\<lparr>il_fees := dadd (il_fees L) (fs_quote fee)\<rparr>"
  "ps_orders (recorded i w f S) = (ps_orders S)[i := w]" "ps_fills (recorded i w f S) = ps_fills S @ [f]"
  "ps_ledger (recorded i w f S) = marked (ps_last_mid S) (mf_timestamp f) (ps_ledger S)"
  by (simp_all add: fill_booked_def recorded_def sim_put_order_def)

text \<open>A fill is refused by the ledger, fails in the average price, or is recorded.\<close>

lemma apply_fill_cases:
  fixes cfg i q x S
  defines "w \<equiv> ps_orders S ! i" and "m \<equiv> sim_apply_fill cfg i q x S"
  defines "fee \<equiv> split_fee cfg (pw_side w) (pw_price w) q"
  defines "ledger \<equiv> ledger_fill (pw_side w) (dmul q (pw_price w)) q fee (mt_timestamp x) (ps_ledger S)"
  obtains (refused) e L where "ledger = Raise e L" "m = Raise e (S\<lparr>ps_ledger := L\<rparr>)"
  | (broken) e L where "ledger = Return () L"
      "m = Raise e (sim_put_order i (w\<lparr>pw_filled := dadd (pw_filled w) q, pw_remaining := dsub (pw_remaining w) q\<rparr>)
             (fill_booked (pw_side w) fee L S))"
  | (filled) L p w1 f where "ledger = Return () L" "w1 = order_after_fill q p (fs_quote fee) w"
      "f = fill_of w1 q (dmul q (pw_price w)) fee x" "m = Return f (recorded i w1 f (fill_booked (pw_side w) fee L S))"
proof (cases ledger)
  case (Raise e L)
  then show ?thesis by (intro refused) (simp_all add: m_def ledger_def fee_def w_def sim_apply_fill_def Let_def)
next
  case (Return u L)
  let ?d = "dquot (dadd (dmul (pw_average_price w) (pw_filled w)) (dmul q (pw_price w))) (dadd (pw_filled w) q)"
  show ?thesis
  proof (cases ?d)
    case (Inl e)
    then show ?thesis using Return
      by (intro broken [of L e]) (simp_all add: m_def ledger_def fee_def w_def sim_apply_fill_def Let_def)
  next
    case (Inr p)
    then show ?thesis using Return
      by (intro filled [of L "order_after_fill q p (fs_quote fee) w" p])
        (simp_all add: m_def ledger_def fee_def w_def sim_apply_fill_def Let_def)
  qed
qed

lemma after_fill_fields [simp]:
  "pw_order_id (order_after_fill q p f w) = pw_order_id w" "pw_side (order_after_fill q p f w) = pw_side w"
  "pw_price (order_after_fill q p f w) = pw_price w" "pw_quantity (order_after_fill q p f w) = pw_quantity w"
  "pw_placed_at (order_after_fill q p f w) = pw_placed_at w" "pw_arrival (order_after_fill q p f w) = pw_arrival w"
  "pw_queue_ahead (order_after_fill q p f w) = pw_queue_ahead w"
  "pw_remaining (order_after_fill q p f w) = dsub (pw_remaining w) q"
  by (simp_all add: order_after_fill_def Let_def)

lemma after_fill_path:
  assumes "resting w"
  shows "\<not> final_status (pw_status w)" "status_step\<^sup>*\<^sup>* (pw_status w) (pw_status (order_after_fill q p f w))"
proof -
  have s: "pw_status w \<in> {ORDER_OPEN, ORDER_PARTIALLY_FILLED, ORDER_CANCEL_PENDING}" using assms by (simp only: resting_def)
  then show "\<not> final_status (pw_status w)" by (auto simp: final_status_def)
  have "pw_status (order_after_fill q p f w) = ORDER_FILLED \<or> pw_status (order_after_fill q p f w) = pw_status w \<or>
      pw_status w = ORDER_OPEN \<and> pw_status (order_after_fill q p f w) = ORDER_PARTIALLY_FILLED"
    using s by (auto simp: order_after_fill_def Let_def)
  then show "status_step\<^sup>*\<^sup>* (pw_status w) (pw_status (order_after_fill q p f w))"
    using fill_path(1) fill_path(2) [OF s] by (elim disjE conjE) (simp_all del: passive_status.simps)
qed

lemma apply_fill_orders:
  assumes "resting (ps_orders S ! i)"
  shows "\<exists>w. ps_orders (post_state (sim_apply_fill cfg i q x S)) = (ps_orders S)[i := w] \<and> moves (ps_orders S ! i) w"
proof -
  let ?w = "ps_orders S ! i"
  have part: "moves ?w (?w\<lparr>pw_filled := a, pw_remaining := b\<rparr>)" for a b
    using assms by (auto simp: moves_def resting_def final_status_def)
  have full: "moves ?w (order_after_fill q p f ?w)" for p f
    unfolding moves_def using after_fill_path [OF assms] by simp
  show ?thesis
  proof (cases rule: apply_fill_cases [where cfg = cfg and i = i and q = q and x = x and S = S])
    case (refused e L)
    then show ?thesis by (intro exI [of _ ?w]) simp
  next
    case (broken e L)
    then show ?thesis
      by (intro exI [of _ "?w\<lparr>pw_filled := dadd (pw_filled ?w) q, pw_remaining := dsub (pw_remaining ?w) q\<rparr>"]) (simp add: part)
  next
    case (filled L p w1 f)
    then show ?thesis using full by (intro exI [of _ w1]) simp
  qed
qed

lemma exact28_min: "exact28 a \<Longrightarrow> exact28 b \<Longrightarrow> exact28 (min a b)"
  by (simp add: min_def)

text \<open>
  To establish something of a print it is enough to look at its two kinds of step: public
  quantity taken off the queue ahead of a matching order, and a fill of a matching order with
  nothing ahead of it.
\<close>

lemma match_orders_rule:
  assumes put: "\<And>S i a. Q S \<Longrightarrow> i < length (ps_orders S) \<Longrightarrow> order_matches x (ps_orders S ! i) \<Longrightarrow>
      Q (sim_put_order i ((ps_orders S ! i)\<lparr>pw_queue_ahead :=
           dsub (pw_queue_ahead (ps_orders S ! i)) (min (pw_queue_ahead (ps_orders S ! i)) a)\<rparr>) S)"
    and fill: "\<And>S i q. Q S \<Longrightarrow> i < length (ps_orders S) \<Longrightarrow> order_matches x (ps_orders S ! i) \<Longrightarrow>
      pw_queue_ahead (ps_orders S ! i) = 0 \<Longrightarrow> 0 < q \<Longrightarrow> q \<le> pw_remaining (ps_orders S ! i) \<Longrightarrow>
      (exact28 (pw_remaining (ps_orders S ! i)) \<longrightarrow> exact28 q) \<Longrightarrow> (b \<longrightarrow> q \<le> mt_quantity x) \<Longrightarrow>
      Q (post_state (sim_apply_fill cfg i q x S))"
    and sched: "\<And>S t f. Q S \<Longrightarrow> Q (sim_schedule t 2 (NoticeJob f) S)"
    and ahead: "\<And>S i. b \<Longrightarrow> Q S \<Longrightarrow> i < length (ps_orders S) \<Longrightarrow> 0 \<le> pw_queue_ahead (ps_orders S ! i)"
  shows "distinct is \<Longrightarrow> \<forall>i \<in> set is. i < length (ps_orders S) \<and> order_matches x (ps_orders S ! i) \<Longrightarrow> Q S \<Longrightarrow>
     (b \<longrightarrow> available \<le> mt_quantity x \<and> exact28 available) \<Longrightarrow> Q (post_state (match_orders cfg x is available S))"
proof (induction "is" arbitrary: available S)
  case (Cons i rest)
  let ?w = "ps_orders S ! i"
  let ?consumed = "min (pw_queue_ahead ?w) available"
  let ?S = "sim_put_order i (?w\<lparr>pw_queue_ahead := dsub (pw_queue_ahead ?w) ?consumed\<rparr>) S"
  let ?left = "dsub available ?consumed"
  let ?q = "min (pw_remaining ?w) ?left"
  have i: "i < length (ps_orders S)" "order_matches x ?w" "i \<notin> set rest" using Cons.prems(1,2) by auto
  have S: "Q ?S" by (rule put [OF Cons.prems(3) i(1,2)])
  have others: "\<forall>j \<in> set rest. j < length (ps_orders S') \<and> order_matches x (ps_orders S' ! j)"
    if "ps_orders S' = (ps_orders S)[i := w]" for S' w
    using Cons.prems(2) i(3) by (auto simp: that nth_list_update)
  show ?case
  proof (cases "?left \<le> 0")
    case True
    then show ?thesis using S by (simp add: Let_def)
  next
    case pos: False
    then have consumed: "?consumed = pw_queue_ahead ?w" by (auto simp: min_def split: if_splits)
    have left: "b \<longrightarrow> ?left \<le> mt_quantity x \<and> exact28 ?left"
    proof
      assume b
      then have "?left \<le> available" using Cons.prems(4) ahead [OF _ Cons.prems(3) i(1)] consumed by (intro dsub_le) simp_all
      then show "?left \<le> mt_quantity x \<and> exact28 ?left" using Cons.prems(4) \<open>b\<close> by simp
    qed
    have w: "ps_orders ?S ! i = ?w\<lparr>pw_queue_ahead := 0\<rparr>" using i(1) consumed by simp
    then have rests: "resting (ps_orders ?S ! i)" using i(2) by (simp add: order_matches_def resting_def)
    show ?thesis
    proof (cases "0 < ?q")
      case True
      have filled: "Q (post_state (sim_apply_fill cfg i ?q x ?S))"
        using left True i(1,2) by (intro fill [OF S]) (auto simp: w order_matches_def resting_def exact28_min)
      obtain w' where "ps_orders (post_state (sim_apply_fill cfg i ?q x ?S)) = (ps_orders ?S)[i := w']"
        using apply_fill_orders [OF rests, of cfg ?q x] by blast
      then have w': "ps_orders (post_state (sim_apply_fill cfg i ?q x ?S)) = (ps_orders S)[i := w']" by simp
      show ?thesis
      proof (cases "sim_apply_fill cfg i ?q x ?S")
        case (Raise e S2)
        then show ?thesis using filled pos True by (simp add: Let_def)
      next
        case (Return f S2)
        let ?S2 = "sim_schedule (mt_timestamp x + lc_market_data (s0_latency cfg)) 2 (NoticeJob f) S2"
        have "Q (post_state (match_orders cfg x rest (dsub ?left ?q) ?S2))"
        proof (rule Cons.IH)
          show "\<forall>j \<in> set rest. j < length (ps_orders ?S2) \<and> order_matches x (ps_orders ?S2 ! j)"
            using w' Return by (intro others) simp
          show "Q ?S2" using filled Return by (intro sched) simp
          show "b \<longrightarrow> dsub ?left ?q \<le> mt_quantity x \<and> exact28 (dsub ?left ?q)"
            using left dsub_le [of ?q ?left] True by auto
        qed (use Cons.prems(1) in simp)
        then show ?thesis using Return pos True by (simp add: Let_def)
      qed
    next
      case False
      have "Q (post_state (match_orders cfg x rest ?left ?S))"
      proof (rule Cons.IH)
        show "\<forall>j \<in> set rest. j < length (ps_orders ?S) \<and> order_matches x (ps_orders ?S ! j)" by (rule others) simp
      qed (use Cons.prems(1) S left in simp_all)
      then show ?thesis using pos False by (simp add: Let_def)
    qed
  qed
qed simp

lemma match_trade_rule:
  assumes "\<And>S i a. Q S \<Longrightarrow> i < length (ps_orders S) \<Longrightarrow> order_matches x (ps_orders S ! i) \<Longrightarrow>
      Q (sim_put_order i ((ps_orders S ! i)\<lparr>pw_queue_ahead :=
           dsub (pw_queue_ahead (ps_orders S ! i)) (min (pw_queue_ahead (ps_orders S ! i)) a)\<rparr>) S)"
    and "\<And>S i q. Q S \<Longrightarrow> i < length (ps_orders S) \<Longrightarrow> order_matches x (ps_orders S ! i) \<Longrightarrow>
      pw_queue_ahead (ps_orders S ! i) = 0 \<Longrightarrow> 0 < q \<Longrightarrow> q \<le> pw_remaining (ps_orders S ! i) \<Longrightarrow>
      (exact28 (pw_remaining (ps_orders S ! i)) \<longrightarrow> exact28 q) \<Longrightarrow> (b \<longrightarrow> q \<le> mt_quantity x) \<Longrightarrow>
      Q (post_state (sim_apply_fill cfg i q x S))"
    and "\<And>S t f. Q S \<Longrightarrow> Q (sim_schedule t 2 (NoticeJob f) S)"
    and "\<And>S i. b \<Longrightarrow> Q S \<Longrightarrow> i < length (ps_orders S) \<Longrightarrow> 0 \<le> pw_queue_ahead (ps_orders S ! i)"
    and level: "\<And>S. Q S \<Longrightarrow> Q (trade_level x S)" and S: "Q S" and exact: "b \<longrightarrow> exact28 (mt_quantity x)"
  shows "Q (post_state (match_trade cfg x S))"
proof -
  have "Q (post_state (match_orders cfg x (matching_orders x S) (mt_quantity x) S))"
    using exact by (intro match_orders_rule [where Q = Q and b = b] assms S) (auto simp: matching_orders_def)
  then have "Q (post_state (and_then (match_orders cfg x (matching_orders x S) (mt_quantity x) S) (\<lambda>_ S1. Return () (trade_level x S1))))"
    by (rule and_then_post) (simp add: level)
  then show ?thesis using S by (simp add: match_trade_def)
qed

section \<open>Orders follow the diagram\<close>

lemma market_evolves: "sim_evolves S (post_state (on_market cfg event S))"
proof -
  have "sim_evolves S (post_state (match_trade cfg x S))" for x
  proof (rule match_trade_rule [where b = False])
    fix S1 i a assume S1: "sim_evolves S S1" "order_matches x (ps_orders S1 ! i)"
    have "moves w (w\<lparr>pw_queue_ahead := q\<rparr>)" if "resting w" for w q
      using that by (auto simp: moves_def resting_def final_status_def)
    then show "sim_evolves S (sim_put_order i ((ps_orders S1 ! i)\<lparr>pw_queue_ahead :=
           dsub (pw_queue_ahead (ps_orders S1 ! i)) (min (pw_queue_ahead (ps_orders S1 ! i)) a)\<rparr>) S1)"
      using S1 by (intro sim_evolves_trans [OF S1(1) evolves_put]) (simp add: order_matches_def)
  next
    fix S1 i q assume S1: "sim_evolves S S1" "order_matches x (ps_orders S1 ! i)"
    obtain w where "ps_orders (post_state (sim_apply_fill cfg i q x S1)) = (ps_orders S1)[i := w]" "moves (ps_orders S1 ! i) w"
      using apply_fill_orders [of S1 i cfg q x] S1(2) unfolding order_matches_def by blast
    then have "sim_evolves S1 (post_state (sim_apply_fill cfg i q x S1))"
      using evolves_put [of S1 i w] by (simp add: sim_evolves_def)
    then show "sim_evolves S (post_state (sim_apply_fill cfg i q x S1))" using sim_evolves_trans S1(1) by blast
  qed simp_all
  then have "sim_evolves S (post_state (case event of
      BookSnapshot t n u bids asks \<Rightarrow> Return () (take_snapshot u bids asks S)
    | BookDelta t n first final bids asks \<Rightarrow> Return () (apply_delta first final bids asks S)
    | FeedGap t n reason \<Rightarrow> Return () (invalidate_book False S)
    | RiskHalt t n reason evidence \<Rightarrow> Return () S
    | PublicTrade x \<Rightarrow> match_trade cfg x S))"
    by (cases event) simp_all
  then show ?thesis unfolding on_market_def by (rule and_then_post) simp
qed

lemma handle_evolves: "sim_evolves S (post_state (sim_handle cfg t job S))"
  by (cases job) (simp_all add: market_evolves delivery_evolves arrival_evolves notice_evolves cancel_request_evolves
      cancel_done_evolves)

interpretation lifecycle: event_loop cfg "sim_evolves S0" "sim_evolves S0" for cfg S0
proof (unfold_locales, goal_cases)
  case (1 S entry rest r S')
  then have "sim_evolves S S'" using handle_evolves [of "S\<lparr>ps_queue := rest\<rparr>" cfg "fst (fst entry)" "snd entry"] by simp
  then show ?case by (rule sim_evolves_trans [OF 1(1)])
next
  case (2 S entry rest e S')
  then have "sim_evolves S S'" using handle_evolves [of "S\<lparr>ps_queue := rest\<rparr>" cfg "fst (fst entry)" "snd entry"] by simp
  then show ?case by (rule sim_evolves_trans [OF 2(1)])
qed simp

section \<open>The ledger is never overdrawn, and fills are evidenced\<close>

definition solvent :: "inventory_ledger \<Rightarrow> bool" where
  "solvent L \<longleftrightarrow> 0 \<le> il_usdc L \<and> 0 \<le> il_fdusd L \<and> exact28 (il_fdusd L) \<and> 0 \<le> il_average_cost L \<and>
     0 \<le> il_locked L \<and> 0 \<le> il_fees L"

definition order_ok :: "passive_order \<Rightarrow> bool" where
  "order_ok w \<longleftrightarrow> 0 < pw_price w \<and> 0 \<le> pw_remaining w \<and> exact28 (pw_remaining w) \<and> 0 \<le> pw_queue_ahead w"

text \<open>
  A fill is evidenced by a public print of the stream: at the price and on the passive side of an
  order that had arrived strictly before, at the time of the print, for at most its quantity, and
  with nothing left ahead of the order.
\<close>

definition evidenced :: "market_event list \<Rightarrow> passive_order list \<Rightarrow> micro_fill \<Rightarrow> bool" where
  "evidenced events ws f \<longleftrightarrow>
     (\<exists>x w. PublicTrade x \<in> set events \<and> w \<in> set ws \<and>
        mf_trade_id f = mt_trade_id x \<and> mf_timestamp f = mt_timestamp x \<and> mf_order_id f = pw_order_id w \<and>
        mf_side f = passive_side x \<and> pw_side w = passive_side x \<and> mf_price f = mt_price x \<and> pw_price w = mt_price x \<and>
        pw_arrival w < mt_timestamp x \<and> mf_queue_after f = 0 \<and> 0 < mf_gross f \<and> mf_gross f \<le> mt_quantity x)"

definition sound :: "market_event list \<Rightarrow> passive_sim \<Rightarrow> bool" where
  "sound events S \<longleftrightarrow> solvent (ps_ledger S) \<and> (\<forall>w \<in> set (ps_orders S). order_ok w) \<and>
     (\<forall>f \<in> set (ps_fills S). evidenced events (ps_orders S) f)"

definition sane :: "s0_config \<Rightarrow> bool" where
  "sane cfg \<longleftrightarrow> valid_config cfg \<and> fm_maker (s0_fees cfg) \<le> 1 \<and>
     (case s0_quantity_override cfg of None \<Rightarrow> True | Some q \<Rightarrow> exact28 q)"

lemma sound_same:
  "ps_orders S' = ps_orders S \<Longrightarrow> ps_fills S' = ps_fills S \<Longrightarrow> ps_ledger S' = ps_ledger S \<Longrightarrow> sound events S' = sound events S"
  by (simp add: sound_def)

lemma sound_fields [simp]:
  "sound events (sim_schedule t p job S) = sound events S" "sound events (trade_level x S) = sound events S"
  "sound events (S\<lparr>ps_queue := q\<rparr>) = sound events S" "sound events (S\<lparr>ps_latest_input := l\<rparr>) = sound events S"
  "sound events (S\<lparr>ps_strategy_valid := b\<rparr>) = sound events S"
  "sound events (post_state (add_decision a t' l' S)) = sound events S"
  by (rule sound_same; simp add: add_decision_same)+

lemma evidenced_moves: "moves w w' \<Longrightarrow> pw_order_id w' = pw_order_id w \<and> pw_side w' = pw_side w \<and> pw_price w' = pw_price w \<and>
    pw_arrival w' = pw_arrival w"
  by (auto simp: moves_def)

lemma evidenced_evolves:
  assumes "sim_evolves S S'" "evidenced events (ps_orders S) f"
  shows "evidenced events (ps_orders S') f"
proof -
  have later: "\<exists>w' \<in> set (ps_orders S'). moves w w'" if w: "w \<in> set (ps_orders S)" for w
  proof -
    obtain i where i: "i < length (ps_orders S)" "ps_orders S ! i = w" using w unfolding in_set_conv_nth by blast
    have "moves (ps_orders S ! i) (ps_orders S' ! i)" "i < length (ps_orders S')"
      using assms(1) i(1) unfolding sim_evolves_def by simp_all
    then have "moves w (ps_orders S' ! i)" "i < length (ps_orders S')" unfolding i(2) by simp_all
    then show ?thesis using nth_mem by blast
  qed
  obtain x w where x: "PublicTrade x \<in> set events" and w: "w \<in> set (ps_orders S)"
    and e: "mf_trade_id f = mt_trade_id x" "mf_timestamp f = mt_timestamp x" "mf_order_id f = pw_order_id w"
      "mf_side f = passive_side x" "pw_side w = passive_side x" "mf_price f = mt_price x" "pw_price w = mt_price x"
      "pw_arrival w < mt_timestamp x" "mf_queue_after f = 0" "0 < mf_gross f" "mf_gross f \<le> mt_quantity x"
    using assms(2) unfolding evidenced_def by blast
  obtain w' where w': "w' \<in> set (ps_orders S')" "moves w w'" using later [OF w] by blast
  show ?thesis unfolding evidenced_def
    using x w'(1) e evidenced_moves [OF w'(2)] by (intro exI [of _ x] exI [of _ w']) simp
qed

text \<open>A change of one order, and a new order.\<close>

lemma sound_put:
  assumes S: "sound events S" and w: "i < length (ps_orders S) \<Longrightarrow> moves (ps_orders S ! i) w \<and> order_ok w"
  shows "sound events (sim_put_order i w S)"
proof (cases "i < length (ps_orders S)")
  case True
  have "\<forall>v \<in> set ((ps_orders S)[i := w]). order_ok v"
    using S w [OF True] set_update_subset_insert [of "ps_orders S" i w] by (auto simp: sound_def)
  moreover have "evidenced events (ps_orders (sim_put_order i w S)) f" if "f \<in> set (ps_fills S)" for f
    using evidenced_evolves [OF evolves_put] S w [OF True] that by (simp add: sound_def)
  ultimately show ?thesis using S by (simp add: sound_def)
next
  case False
  then show ?thesis using S by (simp add: sound_def list_update_beyond)
qed

lemma new_order_sound:
  assumes "sound events S" "exact28 quantity"
  shows "sound events (post_state (sim_new_order cfg side price quantity t S))"
proof -
  have kept: "evidenced events (ps_orders S @ [w]) f" if "f \<in> set (ps_fills S)" for f w
    using evidenced_evolves [OF evolves_add [of "S\<lparr>ps_orders := ps_orders S @ [w]\<rparr>" S "[w]"], of events f] assms(1) that
    by (simp add: sound_def)
  show ?thesis using assms kept by (simp add: sim_new_order_def Let_def sound_def order_ok_def valid_order_def)
qed

lemma decided_sound:
  assumes "sound events S" "\<And>S1. sound events S1 \<Longrightarrow> ps_ledger S1 = ps_ledger S \<Longrightarrow> sound events (post_state (k S1))"
  shows "sound events (post_state (and_then (add_decision a t l S) (\<lambda>_ S1. k S1)))"
proof -
  have "sound events (post_state (and_then (add_decision a t l S) (\<lambda>_ S1. k S1)))"
    if "add_decision a t l S = Return () S1" for S1
  proof -
    have "ps_ledger S1 = ps_ledger S" "sound events S1"
      using add_decision_same(3) [of a t l S] assms(1) sound_fields(6) [of events a t l S] that by auto
    then show ?thesis using assms(2) that by simp
  qed
  then show ?thesis using assms(1) sound_fields(6) [of events a t l S] by (cases "add_decision a t l S") auto
qed

lemma next_quantity_exact: "sane cfg \<Longrightarrow> next_buy_quantity cfg L = Inr q \<Longrightarrow> exact28 q"
  by (auto simp: next_buy_quantity_def sane_def Let_def split: option.splits sum.splits if_splits)

lemma consider_order_sound:
  assumes "sound events S" "sane cfg"
  shows "sound events (post_state (consider_order cfg t l S))"
proof -
  have "sound events (post_state (if q \<le> 0 then Return () S
      else
        let notional = dmul (s0_lower cfg) q;
            quote_fee = (if fm_buy_asset (s0_fees cfg) = QUOTE_ASSET then dmul notional (fm_maker (s0_fees cfg)) else 0)
        in if il_usdc (ps_ledger S) < dadd notional quote_fee then Return () S
           else and_then (add_decision ''PLACE_BUY'' t l S) (\<lambda>_ S1.
             sim_new_order cfg BUY_SIDE (s0_lower cfg) q t S1)))"
    if "next_buy_quantity cfg (ps_ledger S) = Inr q" for q
    using assms(1) next_quantity_exact [OF assms(2) that] by (simp add: Let_def decided_sound new_order_sound)
  then show ?thesis using assms(1) by (simp add: consider_order_def raising_post [where Q = "sound events"])
qed

lemma delivery_sound:
  assumes "sound events S" "sane cfg"
  shows "sound events (post_state (on_market_delivery cfg event t S))"
proof -
  have "sound events (S\<lparr>ps_risk_halt := b, ps_halt_reason := r\<rparr>) = sound events S" for b r S by (rule sound_same) simp_all
  then show ?thesis
    using assms by (cases event) (simp_all add: on_market_delivery_def Let_def consider_order_sound)
qed

lemma notice_sound:
  assumes "sound events S" "sane cfg"
  shows "sound events (post_state (on_fill_notice cfg f t S))"
proof -
  have again: "sound events (post_state (raising (next_buy_quantity cfg (ps_ledger S1)) S1 (\<lambda>q.
      if 0 < q then sim_new_order cfg BUY_SIDE (s0_lower cfg) q t' S1 else Return () S1)))"
    if "sound events S1" for S1 t'
  proof (rule raising_post [where Q = "sound events"])
    fix q assume "next_buy_quantity cfg (ps_ledger S1) = Inr q"
    then show "sound events (post_state (if 0 < q then sim_new_order cfg BUY_SIDE (s0_lower cfg) q t' S1 else Return () S1))"
      using that next_quantity_exact [OF assms(2)] by (simp add: new_order_sound)
  qed (rule that)
  have "sound events (post_state (and_then (add_decision a t' l S) (\<lambda>_ S1.
      raising (next_buy_quantity cfg (ps_ledger S1)) S1 (\<lambda>q.
        if 0 < q then sim_new_order cfg BUY_SIDE (s0_lower cfg) q t' S1 else Return () S1))))" for a t' l
    by (rule decided_sound [OF assms(1)]) (rule again)
  moreover have "exact28 (il_fdusd (ps_ledger S))" using assms(1) by (simp add: sound_def solvent_def)
  ultimately show ?thesis using assms(1) by (simp add: on_fill_notice_def Let_def decided_sound new_order_sound)
qed

lemma arrival_sound:
  assumes "sound events S" "sane cfg"
  shows "sound events (post_state (on_order_arrival cfg i S))"
  unfolding on_order_arrival_def post_state.simps
proof (rule sound_put [OF assms(1)])
  let ?w = "ps_orders S ! i"
  assume "i < length (ps_orders S)"
  then have w: "order_ok ?w" using assms(1) by (simp add: sound_def)
  have "0 \<le> s0_multiplier cfg" using assms(2) by (simp add: sane_def valid_config_def)
  then have "order_ok (arriving cfg S ?w)"
    using w by (simp add: arriving_def order_ok_def Let_def dmul_nonneg split: queue_model.split)
  then show "moves ?w (arriving cfg S ?w) \<and> order_ok (arriving cfg S ?w)" by (simp add: arriving_moves)
qed

lemma cancel_sound:
  assumes S: "sound events S"
  shows "sound events (post_state (on_cancel_request cfg r S))" "sound events (post_state (on_cancel_effective i t S))"
proof -
  have ok: "order_ok (ps_orders S ! j)" if "j < length (ps_orders S)" for j using S that by (simp add: sound_def)
  have "sound events (sim_put_order j ((ps_orders S ! j)\<lparr>pw_cancel_requested := a, pw_cancel_effective := b,
      pw_status := ORDER_CANCEL_PENDING\<rparr>) S)" if "resting (ps_orders S ! j)" for j a b
    using ok by (intro sound_put [OF S]) (simp add: asked_moves [OF that] order_ok_def)
  then show "sound events (post_state (on_cancel_request cfg r S))"
    using S by (simp add: on_cancel_request_def Let_def split: option.split)
  have "order_ok (canceled_at t w) = order_ok w" for w by (simp add: canceled_at_def order_ok_def)
  then show "sound events (post_state (on_cancel_effective i t S))"
    using ok by (simp add: on_cancel_effective_def sound_put [OF S] canceled_moves)
qed

lemma dmul_le: "0 \<le> a \<Longrightarrow> exact28 a \<Longrightarrow> b \<le> 1 \<Longrightarrow> dmul a b \<le> a"
  by (simp add: dmul_def exact28_def mult_left_le prec28.rnd_le_exact)

lemma dquot_nonneg: "dquot a b = Inr c \<Longrightarrow> 0 \<le> a \<Longrightarrow> 0 \<le> b \<Longrightarrow> 0 \<le> c"
  by (auto simp: dquot_def ddiv_nonneg split: if_splits)

lemma ledger_buy_solvent:
  assumes "solvent L" "0 \<le> v" "0 \<le> fq" "0 \<le> n"
  shows "solvent (post_state (ledger_buy v qf fq n t L))"
proof -
  have "0 \<le> dadd (dadd (dmul (il_average_cost L) (il_fdusd L)) v) fq" "0 \<le> dadd (il_fdusd L) n" "0 \<le> dadd (il_locked L) (dadd v fq)"
    using assms by (auto simp: solvent_def intro!: dadd_nonneg dmul_nonneg)
  then show ?thesis
    using assms dquot_nonneg by (auto simp: ledger_buy_def Let_def solvent_def split: sum.split)
qed

lemma ledger_sell_solvent:
  assumes "solvent L" "qf \<le> v"
  shows "solvent (post_state (ledger_sell v qf q bf L))"
proof -
  have "0 \<le> dadd (il_usdc L) (dsub v qf)" using assms by (intro dadd_nonneg) (simp_all add: solvent_def)
  then show ?thesis using assms(1) by (auto simp: ledger_sell_def Let_def solvent_def)
qed

lemma ledger_fill_solvent:
  assumes L: "solvent L" and cfg: "sane cfg" and q: "0 < q" "exact28 q" and p: "0 < p"
  shows "solvent (post_state (ledger_fill side (dmul q p) q (split_fee cfg side p q) t L))"
    "0 \<le> fs_quote (split_fee cfg side p q)"
proof -
  have rate: "0 \<le> fee_rate_of MAKER_ROLE (s0_fees cfg)" "fee_rate_of MAKER_ROLE (s0_fees cfg) \<le> 1"
    using cfg by (simp_all add: sane_def valid_config_def valid_fees_def fee_rate_of_def)
  have v: "0 \<le> dmul q p" using q p by (simp add: dmul_nonneg)
  have fee: "0 \<le> dmul (dmul q p) (fee_rate_of MAKER_ROLE (s0_fees cfg))" "0 \<le> dmul q (fee_rate_of MAKER_ROLE (s0_fees cfg))"
    using v rate q by (simp_all add: dmul_nonneg)
  have le: "dmul (dmul q p) (fee_rate_of MAKER_ROLE (s0_fees cfg)) \<le> dmul q p" "dmul q (fee_rate_of MAKER_ROLE (s0_fees cfg)) \<le> q"
    using v rate q by (simp_all add: dmul_le)
  show quote: "0 \<le> fs_quote (split_fee cfg side p q)" using fee p by (simp add: split_fee_def Let_def dmul_nonneg)
  have net: "0 \<le> fs_net_base (split_fee cfg side p q)" using le q by (simp add: split_fee_def Let_def)
  have credit: "(if fs_asset (split_fee cfg side p q) = QUOTE_ASSET then fs_amount (split_fee cfg side p q) else 0) \<le> dmul q p"
    using le v by (simp add: split_fee_def Let_def)
  show "solvent (post_state (ledger_fill side (dmul q p) q (split_fee cfg side p q) t L))"
  proof (cases "side = BUY_SIDE")
    case True
    show ?thesis unfolding ledger_fill_def Let_def if_P [OF True] by (rule ledger_buy_solvent [OF L v quote net])
  next
    case False
    show ?thesis unfolding ledger_fill_def Let_def if_not_P [OF False] by (rule ledger_sell_solvent [OF L credit])
  qed
qed

lemma solvent_fields [simp]:
  "solvent (marked mid t L) = solvent L" "solvent L \<Longrightarrow> 0 \<le> x \<Longrightarrow> solvent (L\<lparr>il_fees := dadd (il_fees L) x\<rparr>)"
  by (simp_all add: marked_def solvent_def dadd_nonneg split: option.split)

lemma apply_fill_sound:
  assumes S: "sound events S" and cfg: "sane cfg" and i: "i < length (ps_orders S)" and x: "PublicTrade x \<in> set events"
    and w: "order_matches x (ps_orders S ! i)" "pw_queue_ahead (ps_orders S ! i) = 0"
    and q: "0 < q" "q \<le> pw_remaining (ps_orders S ! i)" "exact28 q" "q \<le> mt_quantity x"
  shows "sound events (post_state (sim_apply_fill cfg i q x S))"
proof -
  let ?w = "ps_orders S ! i"
  have ok: "order_ok ?w" using S i by (simp add: sound_def)
  then have p: "0 < pw_price ?w" by (simp add: order_ok_def)
  have L: "solvent (ps_ledger S)" using S by (simp add: sound_def)
  note ledger = ledger_fill_solvent [OF L cfg q(1,3) p, of "pw_side ?w"]
  have rests: "resting ?w" using w(1) by (simp add: order_matches_def)
  have fill_booked: "sound events (fill_booked (pw_side ?w) fee L' S)" if "solvent L'" "0 \<le> fs_quote fee" for fee L'
    using S that by (simp add: sound_def)
  show ?thesis
  proof (cases rule: apply_fill_cases [where cfg = cfg and i = i and q = q and x = x and S = S])
    case (refused e L')
    then show ?thesis using ledger(1) [of "mt_timestamp x"] S by (simp add: sound_def)
  next
    case (broken e L')
    have "moves ?w (?w\<lparr>pw_filled := a, pw_remaining := b\<rparr>)" for a b
      using rests after_fill_path(1) by (simp add: moves_def)
    then show ?thesis
      using broken ledger(1) [of "mt_timestamp x"] ledger(2) ok q fill_booked by (simp add: sound_put order_ok_def)
  next
    case (filled L' p' w1 f)
    have m: "moves ?w w1" unfolding moves_def filled(2) using after_fill_path [OF rests] by simp
    have ok1: "order_ok w1" using ok q by (simp add: filled(2) order_ok_def)
    let ?S = "fill_booked (pw_side ?w) (split_fee cfg (pw_side ?w) (pw_price ?w) q) L' S"
    have "sound events (sim_put_order i w1 ?S)"
      using ledger(1) [of "mt_timestamp x"] ledger(2) filled(1) m ok1 fill_booked by (intro sound_put) simp_all
    moreover have "evidenced events ((ps_orders S)[i := w1]) f"
    proof -
      have "w1 \<in> set ((ps_orders S)[i := w1])" using i by (simp add: set_update_memI)
      then show ?thesis
        unfolding evidenced_def using w x q(1,4)
        by (intro exI [of _ x] exI [of _ w1]) (simp add: filled(2,3) fill_of_def order_matches_def)
    qed
    ultimately show ?thesis by (simp add: filled(4) sound_def)
  qed
qed

lemma market_sound:
  assumes S: "sound events S" and cfg: "sane cfg" and event: "event \<in> set events"
    and exact: "\<forall>x. event = PublicTrade x \<longrightarrow> exact28 (mt_quantity x)"
  shows "sound events (post_state (on_market cfg event S))"
proof -
  have "sound events (post_state (match_trade cfg x S))" if x: "event = PublicTrade x" for x
  proof (rule match_trade_rule [where b = True])
    fix S1 i a
    assume S1: "sound events S1" "i < length (ps_orders S1)" "order_matches x (ps_orders S1 ! i)"
    let ?w = "ps_orders S1 ! i"
    let ?w1 = "?w\<lparr>pw_queue_ahead := dsub (pw_queue_ahead ?w) (min (pw_queue_ahead ?w) a)\<rparr>"
    have "order_ok ?w1" using S1(1,2) by (simp add: sound_def order_ok_def)
    moreover have "moves ?w ?w1" using S1(3) after_fill_path(1) by (simp add: moves_def order_matches_def)
    ultimately show "sound events (sim_put_order i ?w1 S1)" by (intro sound_put S1(1)) simp
  next
    fix S1 i q
    assume S1: "sound events S1" "i < length (ps_orders S1)" "order_matches x (ps_orders S1 ! i)"
      and q: "pw_queue_ahead (ps_orders S1 ! i) = 0" "0 < q" "q \<le> pw_remaining (ps_orders S1 ! i)"
        "exact28 (pw_remaining (ps_orders S1 ! i)) \<longrightarrow> exact28 q" "True \<longrightarrow> q \<le> mt_quantity x"
    have "exact28 q" using q(4) S1(1,2) by (simp add: sound_def order_ok_def)
    then show "sound events (post_state (sim_apply_fill cfg i q x S1))"
      using apply_fill_sound [OF S1(1) cfg S1(2) _ S1(3) q(1-3)] event x q(5) by simp
  next
    show "0 \<le> pw_queue_ahead (ps_orders S1 ! i)" if "sound events S1" "i < length (ps_orders S1)" for S1 i
      using that by (simp add: sound_def order_ok_def)
  qed (use S exact x in simp_all)
  moreover have "sound events (take_snapshot u bids asks S)" "sound events (apply_delta first final bids asks S)"
    "sound events (invalidate_book b S)" for u bids asks first final b
    using S by (simp_all add: sound_def)
  ultimately have "sound events (post_state (case event of
      BookSnapshot t n u bids asks \<Rightarrow> Return () (take_snapshot u bids asks S)
    | BookDelta t n first final bids asks \<Rightarrow> Return () (apply_delta first final bids asks S)
    | FeedGap t n reason \<Rightarrow> Return () (invalidate_book False S)
    | RiskHalt t n reason evidence \<Rightarrow> Return () S
    | PublicTrade x \<Rightarrow> match_trade cfg x S))"
    using S by (cases event) simp_all
  then show ?thesis unfolding on_market_def by (rule and_then_post) simp
qed

text \<open>The market events still queued are events of the stream, with exact quantities.\<close>

definition fed_from :: "market_event list \<Rightarrow> passive_sim \<Rightarrow> bool" where
  "fed_from events S \<longleftrightarrow>
     (\<forall>event. MarketJob event \<in># queue_jobs S \<longrightarrow> event \<in> set events \<and> (\<forall>x. event = PublicTrade x \<longrightarrow> exact28 (mt_quantity x)))"

lemma handle_sound:
  assumes "sound events S" "sane cfg" "fed_from events S" "ps_queue S = entry # rest"
  shows "sound events (post_state (sim_handle cfg t (snd entry) (S\<lparr>ps_queue := rest\<rparr>)))"
proof (cases "snd entry")
  case (MarketJob event)
  then have "MarketJob event \<in># queue_jobs S" using assms(4) by (simp add: queue_jobs_def)
  then show ?thesis using assms(1-3) MarketJob market_sound by (simp add: fed_from_def)
qed (use assms(1,2) in \<open>simp_all add: delivery_sound arrival_sound notice_sound cancel_sound\<close>)

lemma handle_fed:
  assumes "fed_from events S" "ps_queue S = entry # rest"
    and "sim_handle cfg t (snd entry) (S\<lparr>ps_queue := rest\<rparr>) = Return r S'"
  shows "fed_from events S'"
proof -
  obtain M where M: "queue_jobs S' = queue_jobs (S\<lparr>ps_queue := rest\<rparr>) + M" "\<forall>job \<in># M. job_rank job < job_rank (snd entry)"
    using handle_adds [OF assms(3)] by (auto simp: adds_below_def)
  have "job_rank (snd entry) \<le> 2" by (cases "snd entry") simp_all
  then have "MarketJob event \<notin># M" for event using M(2) by fastforce
  moreover have "queue_jobs S = queue_jobs (S\<lparr>ps_queue := rest\<rparr>) + {#snd entry#}" using assms(2) by (simp add: queue_jobs_def)
  ultimately show ?thesis using assms(1) M(1) by (simp add: fed_from_def)
qed

interpretation accounts: event_loop cfg "\<lambda>S. sane cfg \<and> sound events S \<and> fed_from events S" "sound events" for cfg events
proof (unfold_locales, goal_cases)
  case (1 S entry rest r S')
  have "sound events (post_state (sim_handle cfg (fst (fst entry)) (snd entry) (S\<lparr>ps_queue := rest\<rparr>)))"
    using 1(1,2) by (intro handle_sound) simp_all
  moreover have "fed_from events S'" using 1(1) by (intro handle_fed [OF _ 1(2,3)]) simp
  ultimately show ?case using 1(1,3) by simp
next
  case (2 S entry rest e S')
  have "sound events (post_state (sim_handle cfg (fst (fst entry)) (snd entry) (S\<lparr>ps_queue := rest\<rparr>)))"
    using 2(1,2) by (intro handle_sound) simp_all
  then show ?case using 2(3) by simp
qed simp

section \<open>Orders are the sum of their fills\<close>

text \<open>
  An order counts its fills: the filled quantity is their sum, and the remaining quantity is what
  they leave of the ordered one, each taken off in turn. Order names are never reused, so a fill
  belongs to one order.
\<close>

definition gross_of :: "string \<Rightarrow> micro_fill list \<Rightarrow> decimal list" where
  "gross_of oid fs = map mf_gross (filter (\<lambda>f. mf_order_id f = oid) fs)"

lemma gross_of_simps [simp]:
  "gross_of oid [] = []" "gross_of oid (fs @ [f]) = gross_of oid fs @ (if mf_order_id f = oid then [mf_gross f] else [])"
  by (simp_all add: gross_of_def)

definition order_account :: "passive_order \<Rightarrow> string \<times> decimal \<times> decimal \<times> decimal" where
  "order_account w = (pw_order_id w, pw_quantity w, pw_filled w, pw_remaining w)"

definition account_ok :: "nat \<Rightarrow> micro_fill list \<Rightarrow> string \<times> decimal \<times> decimal \<times> decimal \<Rightarrow> bool" where
  "account_ok n fs a \<longleftrightarrow>
     (case a of (oid, quantity, filled, remaining) \<Rightarrow>
        (\<exists>k < n. oid = order_name k) \<and> filled = dsum (gross_of oid fs) \<and> remaining = foldl dsub quantity (gross_of oid fs))"

definition counted :: "passive_sim \<Rightarrow> bool" where
  "counted S \<longleftrightarrow>
     (let accounts = map order_account (ps_orders S)
      in distinct (map fst accounts) \<and> (\<forall>a \<in> set accounts. account_ok (ps_order_number S) (ps_fills S) a) \<and>
         (\<forall>f \<in> set (ps_fills S). 0 < mf_gross f \<and> mf_order_id f \<in> fst ` set accounts))"

lemma counted_same:
  "counted S \<Longrightarrow> map order_account (ps_orders S') = map order_account (ps_orders S) \<Longrightarrow> ps_fills S' = ps_fills S \<Longrightarrow>
     ps_order_number S' = ps_order_number S \<Longrightarrow> counted S'"
  unfolding counted_def by (simp only:)

lemma order_number_kept [simp]:
  "ps_order_number (sim_schedule t p job S) = ps_order_number S" "ps_order_number (sim_put_order i w S) = ps_order_number S"
  "ps_order_number (refresh_mid S) = ps_order_number S" "ps_order_number (invalidate_book b S) = ps_order_number S"
  "ps_order_number (trade_level x S) = ps_order_number S" "ps_order_number (take_snapshot u bids asks S) = ps_order_number S"
  "ps_order_number (apply_delta first final bids asks S) = ps_order_number S"
  "ps_order_number (mark_inventory t S) = ps_order_number S" "ps_order_number (fill_booked side fee L S) = ps_order_number S"
  "ps_order_number (recorded i w f S) = ps_order_number S"
  "ps_order_number (post_state (add_decision a t l S)) = ps_order_number S"
  by (simp_all add: sim_schedule_def sim_put_order_def refresh_mid_def invalidate_book_def trade_level_def put_side_def
      take_snapshot_def apply_delta_def mark_inventory_def fill_booked_def recorded_def add_decision_def Let_def
      split: option.splits)

lemma counted_fields [simp]:
  "counted S \<Longrightarrow> counted (sim_schedule t p job S)" "counted S \<Longrightarrow> counted (trade_level x S)"
  "counted S \<Longrightarrow> counted (S\<lparr>ps_queue := q\<rparr>)" "counted S \<Longrightarrow> counted (S\<lparr>ps_latest_input := l\<rparr>)"
  "counted S \<Longrightarrow> counted (S\<lparr>ps_strategy_valid := b\<rparr>)" "counted S \<Longrightarrow> counted (S\<lparr>ps_risk_halt := h, ps_halt_reason := r\<rparr>)"
  "counted S \<Longrightarrow> counted (S\<lparr>ps_ledger := L\<rparr>)" "counted S \<Longrightarrow> counted (mark_inventory t' S)"
  "counted S \<Longrightarrow> counted (take_snapshot u bids asks S)" "counted S \<Longrightarrow> counted (apply_delta first final bids asks S)"
  "counted S \<Longrightarrow> counted (invalidate_book b' S)" "counted S \<Longrightarrow> counted (post_state (add_decision a t'' l' S))"
  by (erule counted_same; simp add: add_decision_same)+

lemma counted_put:
  assumes "counted S" and "i < length (ps_orders S) \<Longrightarrow> order_account w = order_account (ps_orders S ! i)"
  shows "counted (sim_put_order i w S)"
proof (rule counted_same [OF assms(1)])
  show "map order_account (ps_orders (sim_put_order i w S)) = map order_account (ps_orders S)"
    using assms(2) by (cases "i < length (ps_orders S)") (simp_all add: map_update list_update_beyond list_update_same_conv)
qed simp_all

lemma order_name_inject [simp]: "order_name m = order_name n \<longleftrightarrow> m = n"
  by (simp add: order_name_def)

lemma account_ok_later: "account_ok n fs a \<Longrightarrow> account_ok (Suc n) fs a"
  by (auto simp: account_ok_def less_Suc_eq)

lemma counted_new_order:
  assumes "counted S"
  shows "counted (post_state (sim_new_order cfg side price quantity t S))"
proof -
  let ?n = "ps_order_number S" and ?A = "map order_account (ps_orders S)"
  have old: "\<forall>a \<in> set ?A. account_ok (Suc ?n) (ps_fills S) a"
    using assms account_ok_later unfolding counted_def Let_def by blast
  have new: "order_name ?n \<notin> fst ` set ?A"
    using assms unfolding counted_def Let_def account_ok_def by fastforce
  have "mf_order_id f \<noteq> order_name ?n" if "f \<in> set (ps_fills S)" for f
    using assms that new unfolding counted_def Let_def by metis
  then have none: "gross_of (order_name ?n) (ps_fills S) = []" by (simp add: gross_of_def filter_empty_conv)
  have "counted (S\<lparr>ps_order_number := ?n + 1\<rparr>)" using assms old by (simp add: counted_def)
  moreover have "counted (S\<lparr>ps_order_number := ?n + 1, ps_orders := ps_orders S @ [w]\<rparr>)"
    if "order_account w = (order_name ?n, quantity, 0, quantity)" for w
    using assms old new none that unfolding counted_def Let_def by (auto simp: account_ok_def)
  ultimately show ?thesis by (simp add: sim_new_order_def Let_def order_account_def)
qed

lemma counted_fill:
  assumes S: "counted S" and i: "i < length (ps_orders S)" and q: "0 < q"
    and w: "order_account w = (pw_order_id (ps_orders S ! i), pw_quantity (ps_orders S ! i),
        dadd (pw_filled (ps_orders S ! i)) q, dsub (pw_remaining (ps_orders S ! i)) q)"
    and f: "mf_order_id f = pw_order_id (ps_orders S ! i)" "mf_gross f = q"
    and S': "ps_orders S' = (ps_orders S)[i := w]" "ps_fills S' = ps_fills S @ [f]" "ps_order_number S' = ps_order_number S"
  shows "counted S'"
proof -
  let ?A = "map order_account (ps_orders S)" and ?w = "ps_orders S ! i"
  have id: "fst (order_account w) = pw_order_id ?w" using w by simp
  have ids: "map fst (map order_account (ps_orders S')) = map fst ?A"
    unfolding S'(1) by (simp add: map_update id list_update_same_conv i) (simp add: order_account_def)
  have dist: "distinct (map fst ?A)" using S by (simp add: counted_def Let_def)
  have "account_ok (ps_order_number S) (ps_fills S) (pw_order_id ?w, pw_quantity ?w, pw_filled ?w, pw_remaining ?w)"
    using S i unfolding counted_def Let_def by (simp flip: order_account_def)
  then have here: "account_ok (ps_order_number S) (ps_fills S @ [f]) (order_account w)"
    unfolding w by (simp add: f account_ok_def dsum_def)
  have other: "account_ok (ps_order_number S) (ps_fills S @ [f]) (order_account (ps_orders S ! j))"
    if j: "j < length (ps_orders S)" "j \<noteq> i" for j
  proof -
    have "account_ok (ps_order_number S) (ps_fills S) (order_account (ps_orders S ! j))"
      using S j unfolding counted_def Let_def by simp
    moreover have "pw_order_id (ps_orders S ! j) \<noteq> pw_order_id ?w"
      using nth_eq_iff_index_eq [OF dist, of j i] i j by (simp add: order_account_def)
    ultimately show ?thesis using f(1) by (simp add: account_ok_def order_account_def)
  qed
  have "\<forall>a \<in> set (map order_account (ps_orders S')). account_ok (ps_order_number S) (ps_fills S @ [f]) a"
  proof
    fix a assume "a \<in> set (map order_account (ps_orders S'))"
    then obtain j where "j < length (ps_orders S)" "a = order_account ((ps_orders S)[i := w] ! j)"
      by (auto simp: S'(1) in_set_conv_nth)
    then show "account_ok (ps_order_number S) (ps_fills S @ [f]) a"
      using here other [of j] by (cases "j = i") simp_all
  qed
  moreover have "fst ` set (map order_account (ps_orders S')) = fst ` set ?A" using ids by (metis list.set_map)
  moreover have "pw_order_id ?w \<in> fst ` set ?A" using i by (force simp: order_account_def)
  ultimately show ?thesis using S q f dist ids unfolding counted_def Let_def S'(2,3) by auto
qed

lemma apply_fill_counted:
  assumes S: "counted S" and i: "i < length (ps_orders S)" and q: "0 < q"
  shows "counted (post_state (sim_apply_fill cfg i q x S))"
proof (cases rule: apply_fill_cases [where cfg = cfg and i = i and q = q and x = x and S = S])
  case (refused e L)
  then show ?thesis using S by simp
next
  case (broken e L)
  let ?w = "ps_orders S ! i"
  have "pw_filled ?w = dsum (gross_of (pw_order_id ?w) (ps_fills S))" "\<forall>f \<in> set (ps_fills S). 0 < mf_gross f"
    using S i unfolding counted_def Let_def account_ok_def by (auto simp: order_account_def)
  then have "0 \<le> pw_filled ?w" by (auto simp: gross_of_def less_imp_le intro!: dsum_nonneg)
  then have "0 < dadd (pw_filled ?w) q" using q by (simp add: dadd_def prec28.rnd_pos)
  then have "\<exists>p. dquot (dadd (dmul (pw_average_price ?w) (pw_filled ?w)) (dmul q (pw_price ?w))) (dadd (pw_filled ?w) q) = Inr p"
    by (simp add: dquot_def)
  then show ?thesis using broken by (auto simp: sim_apply_fill_def Let_def)
next
  case (filled L p w1 f)
  show ?thesis unfolding filled(4) post_state.simps
    by (rule counted_fill [OF S i q, of w1 f])
      (simp_all add: filled(2,3) order_account_def fill_of_def order_after_fill_def Let_def)
qed

lemma market_counted:
  assumes S: "counted S"
  shows "counted (post_state (on_market cfg event S))"
proof -
  have "counted (post_state (match_trade cfg x S))" for x
    by (rule match_trade_rule [where b = False])
      (simp_all add: S apply_fill_counted counted_put order_account_def)
  then have "counted (post_state (case event of
      BookSnapshot t n u bids asks \<Rightarrow> Return () (take_snapshot u bids asks S)
    | BookDelta t n first final bids asks \<Rightarrow> Return () (apply_delta first final bids asks S)
    | FeedGap t n reason \<Rightarrow> Return () (invalidate_book False S)
    | RiskHalt t n reason evidence \<Rightarrow> Return () S
    | PublicTrade x \<Rightarrow> match_trade cfg x S))"
    using S by (cases event) simp_all
  then show ?thesis unfolding on_market_def by (rule and_then_post) simp
qed

lemma decided_counted:
  assumes "counted S" "\<And>S1. counted S1 \<Longrightarrow> counted (post_state (k S1))"
  shows "counted (post_state (and_then (add_decision a t l S) (\<lambda>_ S1. k S1)))"
  using assms by (intro and_then_post [where Q = counted]) simp_all

lemma consider_order_counted: "counted S \<Longrightarrow> counted (post_state (consider_order cfg t l S))"
  by (auto simp: consider_order_def Let_def counted_new_order
      intro!: raising_post [where Q = counted] decided_counted)

lemma delivery_counted: "counted S \<Longrightarrow> counted (post_state (on_market_delivery cfg event t S))"
  by (cases event) (simp_all add: on_market_delivery_def Let_def consider_order_counted)

lemma notice_counted:
  assumes "counted S"
  shows "counted (post_state (on_fill_notice cfg f t S))"
proof -
  have "counted (post_state (raising m S1 (\<lambda>quantity.
      if 0 < quantity then sim_new_order cfg BUY_SIDE (s0_lower cfg) quantity t' S1 else Return () S1)))"
    if "counted S1" for S1 m t'
    using that by (intro raising_post [where Q = counted]) (simp_all add: counted_new_order)
  then show ?thesis using assms by (simp add: on_fill_notice_def Let_def decided_counted counted_new_order)
qed

lemma other_counted:
  assumes "counted S"
  shows "counted (post_state (on_order_arrival cfg i S))" "counted (post_state (on_cancel_request cfg r S))"
    "counted (post_state (on_cancel_effective i t S))"
proof -
  have a: "order_account (arriving cfg S w) = order_account w" "order_account (canceled_at t w) = order_account w" for w
    by (simp_all add: arriving_def canceled_at_def order_account_def Let_def)
  show "counted (post_state (on_order_arrival cfg i S))" "counted (post_state (on_cancel_effective i t S))"
    using assms by (simp_all add: on_order_arrival_def on_cancel_effective_def counted_put a)
  show "counted (post_state (on_cancel_request cfg r S))"
    using assms by (simp add: on_cancel_request_def Let_def counted_put order_account_def split: option.split)
qed

lemma handle_counted: "counted S \<Longrightarrow> counted (post_state (sim_handle cfg t job S))"
  by (cases job) (simp_all add: market_counted delivery_counted notice_counted other_counted)

interpretation counts: event_loop cfg counted counted for cfg
proof (unfold_locales, goal_cases)
  case (1 S entry rest r S')
  then show ?case using handle_counted [of "S\<lparr>ps_queue := rest\<rparr>" cfg "fst (fst entry)" "snd entry"] by simp
next
  case (2 S entry rest e S')
  then show ?case using handle_counted [of "S\<lparr>ps_queue := rest\<rparr>" cfg "fst (fst entry)" "snd entry"] by simp
qed simp

text \<open>On a decimal grid, what an order has filled and what it has left add up to what was ordered.\<close>

lemma fills_add_up:
  assumes "on_flow_grid k quantity" and "0 \<le> foldl dsub quantity xs"
    and "\<forall>x \<in> set xs. 0 < x \<and> on_grid k x"
  shows "foldl dsub quantity xs = quantity - dsum xs \<and> on_flow_grid k (dsum xs)"
  using assms(2,3)
proof (induction xs rule: rev_induct)
  case Nil
  have "(0::decimal) < pow10 (28 - int k)" using assms(1) unfolding on_flow_grid_def by linarith
  then show ?case by (simp add: on_flow_grid_def)
next
  case (snoc x xs)
  have x: "0 < x" "on_grid k x" "x \<le> foldl dsub quantity xs" using snoc.prems by simp_all
  then have "foldl dsub quantity xs = quantity - dsum xs \<and> on_flow_grid k (dsum xs)"
    using snoc.IH snoc.prems(2) by simp
  then have ih: "foldl dsub quantity xs = quantity - dsum xs" "on_flow_grid k (dsum xs)" by simp_all
  then have le: "dsum xs + x \<le> quantity" using x(3) by simp
  then have "dsum xs \<le> quantity" using x(1) by simp
  then have left: "on_flow_grid k (quantity - dsum xs)" by (rule flow_grid_diff [OF assms(1) ih(2)])
  have "on_flow_grid k x" using x le left ih unfolding on_flow_grid_def by linarith
  then have "dsub (quantity - dsum xs) x = quantity - dsum xs - x"
    by (rule flow_grid_sub [OF left]) (use le in linarith)
  moreover have sum: "on_flow_grid k (dsum xs + x)"
    using assms(1) ih(2) x le unfolding on_flow_grid_def by (simp add: on_grid_add)
  moreover have "dadd (dsum xs) x = dsum xs + x"
  proof (rule dadd_grid)
    show "on_grid k (dsum xs)" "on_grid k x" using ih(2) x(2) by (simp_all add: on_flow_grid_def)
    have "0 \<le> dsum xs + x" "dsum xs + x < pow10 (28 - int k)" using sum by (simp_all only: on_flow_grid_def)
    then show "\<bar>dsum xs + x\<bar> < pow10 (28 - int k)" by (simp only: abs_of_nonneg)
  qed
  ultimately show ?case by (simp add: dsum_def ih(1) [unfolded dsum_def])
qed

section \<open>Whole runs\<close>

lemma load_jobs_fields [simp]:
  "ps_orders (load_jobs events cancels S) = ps_orders S" "ps_fills (load_jobs events cancels S) = ps_fills S"
  "ps_ledger (load_jobs events cancels S) = ps_ledger S"
  "ps_order_number (load_jobs events cancels S) = ps_order_number S"
  "queue_jobs (load_jobs events cancels S) = queue_jobs S + mset (map MarketJob events) + mset (map CancelAskJob cancels)"
proof -
  let ?asks = "foldl (\<lambda>S' r. sim_schedule (ca_requested_at r) 1 (CancelAskJob r) S')"
  let ?feeds = "foldl (\<lambda>S' event. sim_schedule (event_time event) 0 (MarketJob event) S')"
  have asks: "ps_orders (?asks S cs) = ps_orders S" "ps_fills (?asks S cs) = ps_fills S" "ps_ledger (?asks S cs) = ps_ledger S"
    "ps_order_number (?asks S cs) = ps_order_number S" "queue_jobs (?asks S cs) = queue_jobs S + mset (map CancelAskJob cs)" for S cs
    by (induction cs arbitrary: S) (simp_all add: queue_jobs_schedule)
  have feeds: "ps_orders (?feeds S es) = ps_orders S" "ps_fills (?feeds S es) = ps_fills S" "ps_ledger (?feeds S es) = ps_ledger S"
    "ps_order_number (?feeds S es) = ps_order_number S" "queue_jobs (?feeds S es) = queue_jobs S + mset (map MarketJob es)" for S es
    by (induction es arbitrary: S) (simp_all add: queue_jobs_schedule)
  show "ps_orders (load_jobs events cancels S) = ps_orders S" "ps_fills (load_jobs events cancels S) = ps_fills S"
    "ps_ledger (load_jobs events cancels S) = ps_ledger S" "ps_order_number (load_jobs events cancels S) = ps_order_number S"
    "queue_jobs (load_jobs events cancels S) = queue_jobs S + mset (map MarketJob events) + mset (map CancelAskJob cancels)"
    by (simp_all only: load_jobs_def asks feeds)
qed

text \<open>To establish something of a run it is enough to establish it of its event loop.\<close>

lemma run_rule:
  assumes new: "Q (new_sim cfg)" and loop: "Q (post_state (run_loop cfg (load_jobs events cancels (new_sim cfg))))"
    and mark: "\<And>S t. Q S \<Longrightarrow> Q (mark_inventory t S)"
  shows "Q (post_state (sim_run digest cfg events dataset cancels (new_sim cfg)))"
proof -
  have "Q (post_state (and_then (run_loop cfg (load_jobs events cancels (new_sim cfg))) (\<lambda>_ S1.
      let finished = finish_time events S1; S2 = mark_inventory finished S1
      in Return (report_of (digest cfg dataset) events finished S2) S2)))"
    using loop by (rule and_then_post) (simp add: Let_def mark)
  then have "Q (post_state (raising (validate_events events [] []) (new_sim cfg) (\<lambda>_.
      and_then (run_loop cfg (load_jobs events cancels (new_sim cfg))) (\<lambda>_ S1.
        let finished = finish_time events S1; S2 = mark_inventory finished S1
        in Return (report_of (digest cfg dataset) events finished S2) S2))))"
    by (rule raising_post [where Q = Q, OF new])
  then show ?thesis unfolding sim_run_def using new by (auto simp only: post_state.simps split: if_splits)
qed

lemma run_is_counted: "counted (post_state (sim_run digest cfg events dataset cancels (new_sim cfg)))"
proof (rule run_rule)
  show new: "counted (new_sim cfg)" by (simp add: counted_def new_sim_def)
  have "counted (load_jobs events cancels (new_sim cfg))" using new by (rule counted_same) simp_all
  then show "counted (post_state (run_loop cfg (load_jobs events cancels (new_sim cfg))))" by (rule counts.loop_good)
qed simp

lemma run_is_sound:
  assumes cfg: "sane cfg" and exact: "\<forall>x. PublicTrade x \<in> set events \<longrightarrow> exact28 (mt_quantity x)"
  shows "sound events (post_state (sim_run digest cfg events dataset cancels (new_sim cfg)))"
proof (rule run_rule)
  show new: "sound events (new_sim cfg)"
    using cfg by (simp add: sound_def new_sim_def solvent_def new_inventory_def sane_def valid_config_def)
  have "queue_jobs (new_sim cfg) = {#}" by (simp add: queue_jobs_def new_sim_def)
  moreover have "sound events (load_jobs events cancels (new_sim cfg))" using new by (simp add: sound_def)
  moreover have "fed_from events (load_jobs events cancels (new_sim cfg))"
    using exact calculation(1) by (auto simp: fed_from_def)
  ultimately show "sound events (post_state (run_loop cfg (load_jobs events cancels (new_sim cfg))))"
    using accounts.loop_good cfg by blast
qed (simp add: sound_def)

lemma loop_empties: "run_loop cfg S = Return u S' \<Longrightarrow> ps_queue S' = []"
proof (induction cfg S rule: run_loop.induct)
  case (1 cfg S)
  show ?case
  proof (cases "ps_queue S")
    case Nil
    then show ?thesis using 1(2) by (simp add: run_loop.simps [of cfg S])
  next
    case (Cons entry rest)
    show ?thesis
    proof (cases "sim_handle cfg (fst (fst entry)) (snd entry) (S\<lparr>ps_queue := rest\<rparr>)")
      case (Return r S1)
      have "run_loop cfg S1 = Return u S'" using 1(2) unfolding run_loop.simps [of cfg S] using Cons Return by simp
      then show ?thesis using 1(1) [OF Cons] Return by simp
    next
      case (Raise e S1)
      then show ?thesis using 1(2) unfolding run_loop.simps [of cfg S] using Cons by simp
    qed
  qed
qed

section \<open>Claims on the simulator\<close>

text \<open>
  C11: a price touch is never a fill. In every run of a new simulator, whether it returns or
  raises, each recorded fill is traced to one public print of the stream: at the price and on the
  passive side of one of the orders, which had arrived strictly before the print, for a positive
  quantity of at most the printed one, and only once nothing was left in the queue ahead of the
  order.
\<close>

theorem fills_are_evidenced:
  assumes "sane cfg" and "\<forall>x. PublicTrade x \<in> set events \<longrightarrow> exact28 (mt_quantity x)"
  shows "\<forall>f \<in> set (ps_fills (post_state (sim_run digest cfg events dataset cancels (new_sim cfg)))).
     evidenced events (ps_orders (post_state (sim_run digest cfg events dataset cancels (new_sim cfg)))) f"
  using run_is_sound [OF assms] by (simp add: sound_def)

text \<open>
  C13: neither the simulated account nor an order is overdrawn. In every run of a new simulator
  whose maker rate is at most one, whether it returns or raises, with any number of competing
  orders: neither balance is negative, nor are the locked capital, the average cost and the fees.
  Order ids are unique; the filled quantity of an order is the sum of its recorded fills, which
  are positive; its remaining quantity is what these fills, taken off one by one, leave of the
  ordered quantity, and it is not negative. So, if the ordered quantity and the fills lie on a
  decimal grid, filled and remaining quantity add up to the ordered one, and no order is filled
  beyond it.
\<close>

theorem simulation_never_overdraws:
  assumes "sane cfg" and "\<forall>x. PublicTrade x \<in> set events \<longrightarrow> exact28 (mt_quantity x)"
    and "S = post_state (sim_run digest cfg events dataset cancels (new_sim cfg))"
  shows "0 \<le> il_usdc (ps_ledger S) \<and> 0 \<le> il_fdusd (ps_ledger S) \<and> 0 \<le> il_locked (ps_ledger S) \<and>
     0 \<le> il_average_cost (ps_ledger S) \<and> 0 \<le> il_fees (ps_ledger S) \<and>
     distinct (map pw_order_id (ps_orders S)) \<and> (\<forall>f \<in> set (ps_fills S). 0 < mf_gross f) \<and>
     (\<forall>w \<in> set (ps_orders S).
        pw_filled w = dsum (gross_of (pw_order_id w) (ps_fills S)) \<and>
        pw_remaining w = foldl dsub (pw_quantity w) (gross_of (pw_order_id w) (ps_fills S)) \<and>
        0 \<le> pw_remaining w \<and>
        (on_flow_grid k (pw_quantity w) \<longrightarrow> (\<forall>x \<in> set (gross_of (pw_order_id w) (ps_fills S)). on_grid k x) \<longrightarrow>
           pw_filled w + pw_remaining w = pw_quantity w \<and> pw_filled w \<le> pw_quantity w))"
proof -
  have sound: "sound events S" unfolding assms(3) by (rule run_is_sound [OF assms(1,2)])
  have counted: "counted S" unfolding assms(3) by (rule run_is_counted)
  have ids: "distinct (map pw_order_id (ps_orders S))" and pos: "\<forall>f \<in> set (ps_fills S). 0 < mf_gross f"
    using counted by (simp_all add: counted_def Let_def order_account_def comp_def)
  have order: "pw_filled w = dsum (gross_of (pw_order_id w) (ps_fills S)) \<and>
      pw_remaining w = foldl dsub (pw_quantity w) (gross_of (pw_order_id w) (ps_fills S)) \<and> 0 \<le> pw_remaining w"
    if "w \<in> set (ps_orders S)" for w
    using counted sound that unfolding counted_def Let_def account_ok_def sound_def order_ok_def
    by (auto simp: order_account_def)
  have grid: "pw_filled w + pw_remaining w = pw_quantity w \<and> pw_filled w \<le> pw_quantity w"
    if w: "w \<in> set (ps_orders S)" and g: "on_flow_grid k (pw_quantity w)"
      "\<forall>x \<in> set (gross_of (pw_order_id w) (ps_fills S)). on_grid k x" for w
  proof -
    have "\<forall>x \<in> set (gross_of (pw_order_id w) (ps_fills S)). 0 < x \<and> on_grid k x"
      using pos g(2) by (auto simp: gross_of_def)
    moreover have "0 \<le> foldl dsub (pw_quantity w) (gross_of (pw_order_id w) (ps_fills S))" using order [OF w] by simp
    ultimately have "pw_remaining w = pw_quantity w - pw_filled w" using fills_add_up [OF g(1)] order [OF w] by metis
    then show ?thesis using order [OF w] by simp
  qed
  have "0 \<le> il_usdc (ps_ledger S) \<and> 0 \<le> il_fdusd (ps_ledger S) \<and> 0 \<le> il_locked (ps_ledger S) \<and>
      0 \<le> il_average_cost (ps_ledger S) \<and> 0 \<le> il_fees (ps_ledger S)"
    using sound by (simp add: sound_def solvent_def)
  then show ?thesis using ids pos order grid by blast
qed

text \<open>
  C25: an order lives by the status diagram. Whatever the event loop serves from any state, and
  however it ends: an order keeps its place, identity, side, price, quantity and arrival, its
  status only moves along the diagram, and an order that is filled, canceled or rejected is never
  touched again.
\<close>

theorem orders_follow_the_diagram:
  assumes "i < length (ps_orders S)" and "w = ps_orders S ! i" and "w' = ps_orders (post_state (run_loop cfg S)) ! i"
  shows "i < length (ps_orders (post_state (run_loop cfg S))) \<and>
     pw_order_id w' = pw_order_id w \<and> pw_side w' = pw_side w \<and> pw_price w' = pw_price w \<and>
     pw_quantity w' = pw_quantity w \<and> pw_arrival w' = pw_arrival w \<and>
     status_step\<^sup>*\<^sup>* (pw_status w) (pw_status w') \<and> (final_status (pw_status w) \<longrightarrow> w' = w)"
proof -
  have e: "sim_evolves S (post_state (run_loop cfg S))" by (rule lifecycle.loop_good) simp
  then have "moves w w'" using assms by (simp add: sim_evolves_def)
  then show ?thesis using e assms(1) by (auto simp: moves_def sim_evolves_def)
qed

text \<open>
  C24: the event loop ends. Serving entries of the queue cannot go on for ever, although every
  handler may schedule further entries, so from every state the loop ends: with an exception, or
  with an empty queue.
\<close>

theorem event_loop_ends:
  "wf {(S', S). \<exists>entry rest r. ps_queue S = entry # rest \<and>
       sim_handle cfg (fst (fst entry)) (snd entry) (S\<lparr>ps_queue := rest\<rparr>) = Return r S'} \<and>
   ((\<exists>S'. run_loop cfg S = Return () S' \<and> ps_queue S' = []) \<or> (\<exists>e S'. run_loop cfg S = Raise e S'))"
proof
  have "{(S', S). \<exists>entry rest r. ps_queue S = entry # rest \<and>
      sim_handle cfg (fst (fst entry)) (snd entry) (S\<lparr>ps_queue := rest\<rparr>) = Return r S'} \<subseteq>
    inv_image (mult less_than) (\<lambda>S. image_mset job_rank (queue_jobs S))"
    using handle_decreases by auto
  then show "wf {(S', S). \<exists>entry rest r. ps_queue S = entry # rest \<and>
      sim_handle cfg (fst (fst entry)) (snd entry) (S\<lparr>ps_queue := rest\<rparr>) = Return r S'}"
    by (rule wf_subset [rotated]) (simp add: wf_mult)
  show "(\<exists>S'. run_loop cfg S = Return () S' \<and> ps_queue S' = []) \<or> (\<exists>e S'. run_loop cfg S = Raise e S')"
    using loop_empties by (cases "run_loop cfg S") auto
qed

section \<open>A sample stream\<close>

definition sample_s0 :: s0_config where
  "sample_s0 =
     \<lparr>s0_strategy_id = ''S0'', s0_symbol = ''FDUSDUSDC'', s0_lower = 1, s0_upper = 11 / 10, s0_quantity_override = None,
      s0_initial_usdc = 10, s0_lot_mode = COMPOUNDING_LOT, s0_fixed_lot = 10, s0_step_size = 1, s0_min_quantity = 1,
      s0_min_notional = 1, s0_queue_model = REALISTIC_QUEUE, s0_multiplier = 2,
      s0_latency = \<lparr>lc_market_data_ms = 0, lc_decision_ms = 0, lc_submit_ms = 0, lc_cancel_ms = 0\<rparr>,
      s0_fees = \<lparr>fm_maker = 0, fm_taker = 0, fm_buy_asset = QUOTE_ASSET, fm_sell_asset = QUOTE_ASSET, fm_source = ''X''\<rparr>\<rparr>"

definition print_at :: "nat \<Rightarrow> int \<Rightarrow> nat \<Rightarrow> decimal \<Rightarrow> decimal \<Rightarrow> bool \<Rightarrow> market_event" where
  "print_at i t n price quantity maker =
     PublicTrade \<lparr>mt_trade_id = i, mt_timestamp = t, mt_sequence = n, mt_price = price, mt_quantity = quantity,
       mt_buyer_is_maker = maker\<rparr>"

definition sample_stream :: "market_event list" where
  "sample_stream =
     [BookSnapshot 0 0 1 [(1, 5)] [(11 / 10, 5)], print_at 1 1 1 1 15 True, BookDelta 2 2 2 2 [(1, 5)] [],
      print_at 2 2 3 (11 / 10) 15 False]"

definition sample_run_state :: passive_sim where
  "sample_run_state = post_state (sim_run (\<lambda>_ _. ''H'') sample_s0 sample_stream ''D'' [] (new_sim sample_s0))"

lemma sample_stream_exact: "\<forall>x. PublicTrade x \<in> set sample_stream \<longrightarrow> exact28 (mt_quantity x)"
proof -
  have "exact28 15" by (rule exact28_grid [of 0]) (simp_all add: on_grid_def pow10_def)
  then show ?thesis by (auto simp: sample_stream_def print_at_def)
qed

lemma sample_s0_sane: "sane sample_s0"
  by (simp add: sane_def sample_s0_def valid_config_def valid_fees_def)

lemma sample_cycle:
  "map mf_gross (ps_fills sample_run_state) = [10, 10] \<and> il_usdc (ps_ledger sample_run_state) = 11 \<and>
   map pw_status (ps_orders sample_run_state) = [ORDER_FILLED, ORDER_FILLED, ORDER_OPEN, ORDER_OPEN]"
  by code_simp

theorem fills_are_evidenced_witness:
  "\<exists>f \<in> set (ps_fills sample_run_state). mf_gross f = 10 \<and> evidenced sample_stream (ps_orders sample_run_state) f"
proof -
  have "10 \<in> set (map mf_gross (ps_fills sample_run_state))" using sample_cycle by simp
  then obtain f where "f \<in> set (ps_fills sample_run_state)" "mf_gross f = 10" by auto
  then show ?thesis
    using fills_are_evidenced [OF sample_s0_sane sample_stream_exact, of "\<lambda>_ _. ''H''" "''D''" "[]"]
    unfolding sample_run_state_def by blast
qed

lemma sample_front_order:
  "(\<lambda>w. (pw_quantity w, pw_filled w, pw_remaining w, gross_of (pw_order_id w) (ps_fills sample_run_state)))
     (hd (ps_orders sample_run_state)) = (10, 10, 0, [10])"
  by code_simp

theorem simulation_never_overdraws_witness:
  "0 \<le> il_usdc (ps_ledger sample_run_state) \<and> il_usdc (ps_ledger sample_run_state) = 11 \<and>
   (\<exists>w \<in> set (ps_orders sample_run_state). pw_quantity w = 10 \<and> pw_filled w = 10 \<and>
      pw_filled w + pw_remaining w = pw_quantity w)"
proof -
  let ?w = "hd (ps_orders sample_run_state)"
  have w: "?w \<in> set (ps_orders sample_run_state)" using sample_cycle by (cases "ps_orders sample_run_state") simp_all
  have front: "pw_quantity ?w = 10" "pw_filled ?w = 10" "gross_of (pw_order_id ?w) (ps_fills sample_run_state) = [10]"
    using sample_front_order by simp_all
  have "on_flow_grid 0 10" "on_grid 0 10" by (simp_all add: on_flow_grid_def on_grid_def pow10_def)
  then have "pw_filled ?w + pw_remaining ?w = pw_quantity ?w"
    using simulation_never_overdraws [OF sample_s0_sane sample_stream_exact sample_run_state_def, of 0] w front by simp
  then show ?thesis
    using simulation_never_overdraws [OF sample_s0_sane sample_stream_exact sample_run_state_def, of 0] w front sample_cycle
    by blast
qed

definition resting_sim :: passive_sim where
  "resting_sim = (new_sim sample_s0)\<lparr>ps_orders := ps_orders sample_run_state\<rparr>"

theorem orders_follow_the_diagram_witness:
  "pw_status (ps_orders resting_sim ! 0) = ORDER_FILLED \<and>
   ps_orders (post_state (run_loop sample_s0 (load_jobs sample_stream [] resting_sim))) ! 0 = ps_orders resting_sim ! 0"
proof -
  have w: "0 < length (ps_orders (load_jobs sample_stream [] resting_sim))" "pw_status (ps_orders resting_sim ! 0) = ORDER_FILLED"
    using sample_cycle by (auto simp: resting_sim_def nth_Cons' map_eq_Cons_conv)
  then show ?thesis
    using orders_follow_the_diagram [OF w(1) refl refl, of sample_s0] by (simp add: final_status_def)
qed

text \<open>
  The delivery of a book update and the notice of the fill that closed the position both place a
  buy with the whole balance: each looks at the ledger, the first only also at the active orders.
  A print large enough to reach both aborts the run.
\<close>

lemma second_buy_aborts_run:
  "sim_run (\<lambda>_ _. ''H'') sample_s0 (sample_stream @ [print_at 3 3 4 1 40 True]) ''D'' [] (new_sim sample_s0) =
     Raise (ValueError ''buy fill exceeds available USDC'')
       (post_state (sim_run (\<lambda>_ _. ''H'') sample_s0 (sample_stream @ [print_at 3 3 4 1 40 True]) ''D'' [] (new_sim sample_s0)))"
proof -
  have "case sim_run (\<lambda>_ _. ''H'') sample_s0 (sample_stream @ [print_at 3 3 4 1 40 True]) ''D'' [] (new_sim sample_s0) of
      Return r S \<Rightarrow> False | Raise e S \<Rightarrow> e = ValueError ''buy fill exceeds available USDC''"
    by code_simp
  then show ?thesis by (simp split: outcome.splits)
qed

end
