(* ===== verification/Hist_Models.thy ===== *)
theory Hist_Models
  imports Multi_Stable_Models
begin

text \<open>
  The domain of the historical simulator: \<^verbatim>\<open>domain.py\<close> with the validators of its
  models, and the checks \<^verbatim>\<open>data/binance.py\<close> makes on a sequence of candles. A
  \<^verbatim>\<open>datetime\<close> in UTC is the number of its microseconds since the epoch. The JSON
  payloads of requests and recordings are kept as the values they serialise.
\<close>

section \<open>Candles\<close>

record candle =
  cn_symbol :: string
  cn_open_time :: int
  cn_close_time :: int
  cn_available_at :: int
  cn_open :: decimal
  cn_high :: decimal
  cn_low :: decimal
  cn_close :: decimal
  cn_volume :: decimal
  cn_quote_volume :: decimal
  cn_trades :: nat
  cn_minutes :: nat

definition check_candle :: "candle \<Rightarrow> py_error + unit" where
  "check_candle c =
     (if cn_minutes c = 0 then Inl (ValueError ''timeframe_minutes'')
      else if cn_close_time c \<le> cn_open_time c then Inl (ValueError ''open_time must precede close_time'')
      else if cn_available_at c < cn_close_time c then Inl (ValueError ''available_at cannot precede close_time'')
      else if min (cn_open c) (cn_close c) < cn_low c \<or> cn_high c < max (cn_open c) (cn_close c)
      then Inl (ValueError ''OHLC bounds are inconsistent'')
      else if min (min (cn_low c) (cn_volume c)) (cn_quote_volume c) < 0
      then Inl (ValueError ''market values cannot be negative'')
      else Inr ())"

text \<open>
  The epoch of an archive row is in microseconds or milliseconds, told apart by its size.
\<close>

definition epoch_to_utc :: "int \<Rightarrow> int" where
  "epoch_to_utc value =
     (let divisor = (if 1000000000000000 \<le> \<bar>value\<bar> then 1000000 else 1000);
          whole_seconds = value div divisor; remainder = value mod divisor
      in 1000000 * whole_seconds + (if divisor = 1000000 then remainder else 1000 * remainder))"

definition five_minutes :: int where
  "five_minutes = 300000000"

text \<open>
  The scan keeps the identities seen so far, the last candle of every symbol and the gaps found.
\<close>

primrec scan_candles ::
    "candle list \<Rightarrow> (string \<times> int) list \<Rightarrow> (string, candle) dict \<Rightarrow> (int \<times> int) list \<Rightarrow> py_error + (int \<times> int) list" where
  "scan_candles [] seen previous gaps = Inr gaps"
| "scan_candles (c # cs) seen previous gaps =
     (if (cn_symbol c, cn_open_time c) \<in> set seen then Inl (ValueError ''duplicate candle'')
      else
        let go = scan_candles cs ((cn_symbol c, cn_open_time c) # seen) (dict_set (cn_symbol c) c previous)
        in case dict_get previous (cn_symbol c) of
             None \<Rightarrow> go gaps
           | Some p \<Rightarrow>
               if cn_open_time c \<le> cn_open_time p then Inl (ValueError ''candles are out of order'')
               else let due = cn_open_time p + five_minutes
                    in go (if cn_open_time c \<noteq> due then gaps @ [(due, cn_open_time c)] else gaps))"

definition validate_candle_sequence :: "candle list \<Rightarrow> py_error + (int \<times> int) list" where
  "validate_candle_sequence cs =
     (if cs = [] then Inl (ValueError ''dataset is empty'') else scan_candles cs [] [] [])"

section \<open>Decisions\<close>

datatype trade_action = HOLD | BUY_FROM_USDT | SELL_TO_USDT | ROTATE_ASSET

record decision_response =
  dn_action :: trade_action
  dn_from :: "string option"
  dn_to :: "string option"
  dn_allocation :: decimal
  dn_confidence :: decimal
  dn_patterns :: "string list"
  dn_summary :: string
  dn_invalidating :: "string list"
  dn_edge :: "decimal option"

text \<open>A string is false when it is missing or empty.\<close>

definition named :: "string option \<Rightarrow> bool" where
  "named s \<longleftrightarrow> s \<noteq> None \<and> s \<noteq> Some ''''"

definition check_response :: "decision_response \<Rightarrow> py_error + unit" where
  "check_response r =
     (if dn_allocation r < 0 \<or> 100 < dn_allocation r \<or> dn_confidence r < 0 \<or> 1 < dn_confidence r
      then Inl (ValueError ''ValidationError'')
      else if dn_action r = BUY_FROM_USDT \<and> \<not> named (dn_to r)
      then Inl (ValueError ''BUY_FROM_USDT requires to_symbol'')
      else if dn_action r = SELL_TO_USDT \<and> \<not> named (dn_from r)
      then Inl (ValueError ''SELL_TO_USDT requires from_symbol'')
      else if dn_action r = ROTATE_ASSET \<and> (\<not> named (dn_from r) \<or> \<not> named (dn_to r) \<or> dn_from r = dn_to r)
      then Inl (ValueError ''ROTATE_ASSET requires distinct from_symbol and to_symbol'')
      else Inr ())"

definition hold_response :: "string \<Rightarrow> decision_response" where
  "hold_response reason =
     \<lparr>dn_action = HOLD, dn_from = None, dn_to = None, dn_allocation = 0, dn_confidence = 0, dn_patterns = [],
      dn_summary = reason, dn_invalidating = [], dn_edge = None\<rparr>"

section \<open>Fills and the state of the portfolio\<close>

record spot_fill =
  sf_time :: int
  sf_symbol :: string
  sf_side :: string
  sf_price :: decimal
  sf_quantity :: decimal
  sf_quote_value :: decimal
  sf_fee :: decimal
  sf_spread_cost :: decimal
  sf_slippage_cost :: decimal
  sf_realized :: decimal

record portfolio_state =
  pt_usdt :: decimal
  pt_symbol :: "string option"
  pt_quantity :: decimal
  pt_average_cost :: decimal
  pt_fees :: decimal
  pt_realized :: decimal
  pt_peak :: decimal
  pt_drawdown :: decimal

record portfolio_view =
  pv_usdt :: decimal
  pv_symbol :: "string option"
  pv_quantity :: decimal
  pv_equity :: decimal
  pv_realized :: decimal
  pv_unrealized :: decimal
  pv_fees :: decimal
  pv_drawdown :: decimal

section \<open>Complementary records\<close>

record news_record =
  nw_published_at :: int
  nw_first_seen_at :: int
  nw_source :: string
  nw_url :: string
  nw_assets :: "string list"
  nw_category :: string
  nw_relevance :: "decimal option"
  nw_novelty :: "decimal option"
  nw_quality :: "decimal option"
  nw_sentiment :: "decimal option"
  nw_content_hash :: string
  nw_dedup_key :: string

text \<open>The payload of a signal is an arbitrary JSON object, kept as its text.\<close>

record signal_record =
  sg_provider :: string
  sg_type :: string
  sg_observed_at :: int
  sg_available_at :: int
  sg_payload :: string

section \<open>Requests\<close>

text \<open>
  What a provider is asked: the portfolio, for every symbol its visible candles by timeframe, and
  the complementary records, all as of \<open>rq_until\<close>.
\<close>

record decision_request =
  rq_time :: int
  rq_until :: int
  rq_portfolio :: portfolio_view
  rq_symbols :: "(string \<times> (nat \<times> candle list) list) list"
  rq_complementary :: "(news_record list \<times> signal_record list) option"
  rq_max_exposure :: decimal
  rq_reserve_ratio :: decimal

definition check_request :: "decision_request \<Rightarrow> py_error + unit" where
  "check_request r =
     (if rq_time r \<le> rq_until r then Inl (ValueError ''available_data_until must precede simulated_time'') else Inr ())"

end
