(* ===== verification/Hist_Portfolio.thy ===== *)
theory Hist_Portfolio
  imports Hist_Models
begin

text \<open>
  \<^verbatim>\<open>simulation/portfolio.py\<close>: the spot portfolio of the historical simulator, which
  holds cash and at most one asset. \<^verbatim>\<open>ExecutionRejected\<close> is a
  \<^verbatim>\<open>ValueError\<close>, and no other one is raised here.
\<close>

record execution_costs =
  ec_fee :: decimal
  ec_spread :: decimal
  ec_slippage :: decimal

record spot_portfolio =
  sp_max_exposure :: decimal
  sp_reserve_ratio :: decimal
  sp_state :: portfolio_state

definition new_portfolio :: "decimal \<Rightarrow> decimal \<Rightarrow> decimal \<Rightarrow> py_error + spot_portfolio" where
  "new_portfolio initial max_exposure reserve_ratio =
     (if initial \<le> 0 then Inl (ValueError ''initial capital must be positive'')
      else if 1 < dadd max_exposure reserve_ratio then Inl (ValueError ''exposure plus reserve cannot exceed 100%'')
      else Inr \<lparr>sp_max_exposure = max_exposure, sp_reserve_ratio = reserve_ratio,
        sp_state = \<lparr>pt_usdt = initial, pt_symbol = None, pt_quantity = 0, pt_average_cost = 0, pt_fees = 0,
          pt_realized = 0, pt_peak = initial, pt_drawdown = 0\<rparr>\<rparr>)"

definition portfolio_equity :: "(string, decimal) dict \<Rightarrow> portfolio_state \<Rightarrow> py_error + decimal" where
  "portfolio_equity prices p =
     (if named (pt_symbol p) \<and> pt_quantity p \<noteq> 0
      then case dict_get prices (the (pt_symbol p)) of
             None \<Rightarrow> Inl (ValueError ''missing mark price'')
           | Some price \<Rightarrow> Inr (dadd (pt_usdt p) (dmul (pt_quantity p) price))
      else Inr (dadd (pt_usdt p) 0))"

definition assert_invariants :: "portfolio_state \<Rightarrow> bool" where
  "assert_invariants p \<longleftrightarrow> 0 \<le> pt_usdt p \<and> 0 \<le> pt_quantity p \<and> (pt_symbol p = None \<longleftrightarrow> pt_quantity p = 0)"

text \<open>\<^verbatim>\<open>quantize\<close> to 18 places rounding down: impossible beyond the digits of the context.\<close>

definition quantize18 :: "decimal \<Rightarrow> py_error + decimal" where
  "quantize18 x =
     (let n = dtrunc (x * 10 ^ 18) in if 10 ^ 28 \<le> \<bar>n\<bar> then Inl InvalidOperation else Inr (of_int n / 10 ^ 18))"

definition buy_price :: "decimal \<Rightarrow> execution_costs \<Rightarrow> decimal" where
  "buy_price market_price costs =
     dmul market_price (dadd (dadd 1 (ddiv (ec_spread costs) 2)) (ec_slippage costs))"

definition sell_price :: "decimal \<Rightarrow> execution_costs \<Rightarrow> decimal" where
  "sell_price market_price costs =
     dmul market_price (dsub (dsub 1 (ddiv (ec_spread costs) 2)) (ec_slippage costs))"

definition spread_cost :: "decimal \<Rightarrow> decimal \<Rightarrow> execution_costs \<Rightarrow> decimal" where
  "spread_cost quantity market_price costs = ddiv (dmul (dmul quantity market_price) (ec_spread costs)) 2"

definition slippage_cost :: "decimal \<Rightarrow> decimal \<Rightarrow> execution_costs \<Rightarrow> decimal" where
  "slippage_cost quantity market_price costs = dmul (dmul quantity market_price) (ec_slippage costs)"

definition quote_budget :: "decimal \<Rightarrow> decimal \<Rightarrow> spot_portfolio \<Rightarrow> decimal" where
  "quote_budget allocation_percent equity P =
     (let allocation = min (ddiv allocation_percent 100) (sp_max_exposure P);
          reserve = dmul equity (sp_reserve_ratio P)
      in min (dmul equity allocation) (max 0 (dsub (pt_usdt (sp_state P)) reserve)))"

definition buy_quantity :: "decimal \<Rightarrow> decimal \<Rightarrow> execution_costs \<Rightarrow> py_error + decimal" where
  "buy_quantity budget price costs =
     on_ok (dquot budget (dmul price (dadd 1 (ec_fee costs)))) quantize18"

definition bought :: "string \<Rightarrow> decimal \<Rightarrow> decimal \<Rightarrow> decimal \<Rightarrow> portfolio_state \<Rightarrow> portfolio_state" where
  "bought symbol quantity cost fee p =
     p\<lparr>pt_usdt := dsub (pt_usdt p) cost, pt_symbol := Some symbol, pt_quantity := quantity,
       pt_average_cost := ddiv cost quantity, pt_fees := dadd (pt_fees p) fee\<rparr>"

definition portfolio_buy ::
    "string \<Rightarrow> decimal \<Rightarrow> decimal \<Rightarrow> int \<Rightarrow> execution_costs \<Rightarrow> (string, decimal) dict \<Rightarrow> decimal \<Rightarrow> spot_portfolio \<Rightarrow>
     (spot_fill, spot_portfolio) outcome" where
  "portfolio_buy symbol market_price allocation_percent t costs marks min_notional P =
     (let p = sp_state P
      in if pt_symbol p \<noteq> None then Raise (ValueError ''portfolio already holds a crypto asset'') P
         else if market_price \<le> 0 then Raise (ValueError ''market price must be positive'') P
         else raising (portfolio_equity marks p) P (\<lambda>equity.
           let price = buy_price market_price costs
           in raising (buy_quantity (quote_budget allocation_percent equity P) price costs) P (\<lambda>quantity.
             let quote_value = dmul quantity price; fee = dmul quote_value (ec_fee costs); cost = dadd quote_value fee
             in if quote_value < min_notional \<or> quantity \<le> 0
                then Raise (ValueError ''buy does not meet minimum notional'') P
                else if pt_usdt p < cost then Raise (ValueError ''insufficient USDT'') P
                else
                  let P1 = P\<lparr>sp_state := bought symbol quantity cost fee p\<rparr>
                  in if \<not> assert_invariants (sp_state P1) then Raise AssertionError P1
                     else Return \<lparr>sf_time = t, sf_symbol = symbol, sf_side = ''BUY'', sf_price = price,
                       sf_quantity = quantity, sf_quote_value = quote_value, sf_fee = fee,
                       sf_spread_cost = spread_cost quantity market_price costs,
                       sf_slippage_cost = slippage_cost quantity market_price costs, sf_realized = 0\<rparr> P1)))"

definition sold :: "decimal \<Rightarrow> decimal \<Rightarrow> portfolio_state \<Rightarrow> portfolio_state" where
  "sold proceeds fee p =
     p\<lparr>pt_usdt := dadd (pt_usdt p) proceeds,
       pt_realized := dadd (pt_realized p) (dsub proceeds (dmul (pt_average_cost p) (pt_quantity p))),
       pt_fees := dadd (pt_fees p) fee, pt_symbol := None, pt_quantity := 0, pt_average_cost := 0\<rparr>"

definition portfolio_sell ::
    "string \<Rightarrow> decimal \<Rightarrow> int \<Rightarrow> execution_costs \<Rightarrow> spot_portfolio \<Rightarrow> (spot_fill, spot_portfolio) outcome" where
  "portfolio_sell symbol market_price t costs P =
     (let p = sp_state P
      in if pt_symbol p \<noteq> Some symbol \<or> pt_quantity p \<le> 0 then Raise (ValueError ''portfolio does not hold the symbol'') P
         else
           let price = sell_price market_price costs; quantity = pt_quantity p; quote_value = dmul quantity price;
               fee = dmul quote_value (ec_fee costs); proceeds = dsub quote_value fee;
               P1 = P\<lparr>sp_state := sold proceeds fee p\<rparr>
           in if \<not> assert_invariants (sp_state P1) then Raise AssertionError P1
              else Return \<lparr>sf_time = t, sf_symbol = symbol, sf_side = ''SELL'', sf_price = price, sf_quantity = quantity,
                sf_quote_value = quote_value, sf_fee = fee, sf_spread_cost = spread_cost quantity market_price costs,
                sf_slippage_cost = slippage_cost quantity market_price costs,
                sf_realized = dsub proceeds (dmul (pt_average_cost p) quantity)\<rparr> P1)"

text \<open>
  A rotation sells and then buys; a rejected purchase is a failure beside the fill of the sale, any
  other exception of the purchase leaves the method although the sale has happened.
\<close>

definition price_in :: "(string, decimal) dict \<Rightarrow> string \<Rightarrow> py_error + decimal" where
  "price_in prices symbol = (case dict_get prices symbol of None \<Rightarrow> Inl KeyError | Some p \<Rightarrow> Inr p)"

definition portfolio_rotate ::
    "string \<Rightarrow> string \<Rightarrow> (string, decimal) dict \<Rightarrow> decimal \<Rightarrow> int \<Rightarrow> execution_costs \<Rightarrow> (string, decimal) dict \<Rightarrow>
     spot_portfolio \<Rightarrow> (spot_fill list \<times> py_error list, spot_portfolio) outcome" where
  "portfolio_rotate from_symbol to_symbol prices allocation_percent t costs min_notionals P =
     raising (price_in prices from_symbol) P (\<lambda>from_price.
       and_then (portfolio_sell from_symbol from_price t costs P) (\<lambda>sale P1.
         raising (price_in prices to_symbol) P1 (\<lambda>to_price.
           case portfolio_buy to_symbol to_price allocation_percent t costs prices (get_or min_notionals to_symbol 0) P1 of
             Return fill P2 \<Rightarrow> Return ([sale, fill], []) P2
           | Raise e P2 \<Rightarrow> (case e of ValueError m \<Rightarrow> Return ([sale], [e]) P2 | _ \<Rightarrow> Raise e P2))))"

definition portfolio_snapshot ::
    "(string, decimal) dict \<Rightarrow> spot_portfolio \<Rightarrow> (portfolio_view, spot_portfolio) outcome" where
  "portfolio_snapshot prices P =
     raising (portfolio_equity prices (sp_state P)) P (\<lambda>equity.
       let p = sp_state P; peak = max (pt_peak p) equity;
           drawdown = (if peak \<noteq> 0 then ddiv (dsub peak equity) peak else 0);
           p1 = p\<lparr>pt_peak := peak, pt_drawdown := max (pt_drawdown p) drawdown\<rparr>; P1 = P\<lparr>sp_state := p1\<rparr>;
           view = (\<lambda>unrealized. \<lparr>pv_usdt = pt_usdt p1, pv_symbol = pt_symbol p1, pv_quantity = pt_quantity p1,
             pv_equity = equity, pv_realized = pt_realized p1, pv_unrealized = unrealized, pv_fees = pt_fees p1,
             pv_drawdown = drawdown\<rparr>)
       in if named (pt_symbol p1)
          then raising (price_in prices (the (pt_symbol p1))) P1 (\<lambda>price.
            Return (view (dmul (pt_quantity p1) (dsub price (pt_average_cost p1)))) P1)
          else Return (view 0) P1)"

end
