(* ===== verification/Hist_Data.thy ===== *)
theory Hist_Data
  imports Hist_Models
begin

text \<open>
  What the historical simulator may see: \<^verbatim>\<open>data/temporal.py\<close>, the candles of a
  symbol that were available at a cutoff and the complementary records, and
  \<^verbatim>\<open>data/aggregation.py\<close>, which joins five-minute candles into longer ones.
\<close>

section \<open>Binary search\<close>

text \<open>\<^verbatim>\<open>bisect_right\<close> and \<^verbatim>\<open>bisect_left\<close> between two indices.\<close>

function bisect_right :: "int list \<Rightarrow> int \<Rightarrow> nat \<Rightarrow> nat \<Rightarrow> nat" where
  "bisect_right xs x lo hi =
     (if lo < hi
      then let mid = (lo + hi) div 2
           in if x < xs ! mid then bisect_right xs x lo mid else bisect_right xs x (mid + 1) hi
      else lo)"
  by pat_completeness auto

termination
  by (relation "measure (\<lambda>(xs, x, lo, hi). hi - lo)") auto

function bisect_left :: "int list \<Rightarrow> int \<Rightarrow> nat \<Rightarrow> nat \<Rightarrow> nat" where
  "bisect_left xs x lo hi =
     (if lo < hi
      then let mid = (lo + hi) div 2
           in if xs ! mid < x then bisect_left xs x (mid + 1) hi else bisect_left xs x lo mid
      else lo)"
  by pat_completeness auto

termination
  by (relation "measure (\<lambda>(xs, x, lo, hi). hi - lo)") auto

declare bisect_right.simps [simp del] bisect_left.simps [simp del]

section \<open>Market data\<close>

definition group_add :: "'k \<Rightarrow> 'v \<Rightarrow> ('k, 'v list) dict \<Rightarrow> ('k, 'v list) dict" where
  "group_add k v d = dict_set k (get_or d k [] @ [v]) d"

definition group_by :: "('v \<Rightarrow> 'k) \<Rightarrow> 'v list \<Rightarrow> ('k, 'v list) dict" where
  "group_by f xs = foldl (\<lambda>d x. group_add (f x) x d) [] xs"

record temporal_market =
  tm_candles :: "(string, candle list) dict"
  tm_available :: "(string, int list) dict"
  tm_monotonic :: "(string, bool) dict"
  tm_open_times :: "(string, int list) dict"
  tm_by_open :: "(int, (string, candle) dict) dict"

primrec pairwise_le :: "int list \<Rightarrow> bool" where
  "pairwise_le [] \<longleftrightarrow> True"
| "pairwise_le (x # xs) \<longleftrightarrow> (case xs of [] \<Rightarrow> True | y # ys \<Rightarrow> x \<le> y \<and> pairwise_le xs)"

definition new_market :: "candle list \<Rightarrow> temporal_market" where
  "new_market cs =
     (let candles = map_values (sort_key cn_open_time) (group_by cn_symbol cs)
      in \<lparr>tm_candles = candles, tm_available = map_values (map cn_available_at) candles,
          tm_monotonic = map_values (\<lambda>vs. pairwise_le (map cn_available_at vs)) candles,
          tm_open_times = map_values (map cn_open_time) candles,
          tm_by_open = foldl (\<lambda>d (s, vs). foldl (\<lambda>d c. dict_set (cn_open_time c) (dict_set s c (get_or d (cn_open_time c) [])) d) d vs)
            [] candles\<rparr>)"

definition market_symbols :: "temporal_market \<Rightarrow> string list" where
  "market_symbols M = sort (keys (tm_candles M))"

text \<open>A missing or zero lookback means none.\<close>

definition visible_candles ::
    "string \<Rightarrow> int \<Rightarrow> int option \<Rightarrow> int option \<Rightarrow> temporal_market \<Rightarrow> py_error + candle list" where
  "visible_candles symbol simulated_time available_until lookback M =
     (let cutoff = (case available_until of None \<Rightarrow> simulated_time | Some t \<Rightarrow> t)
      in if simulated_time < cutoff then Inl (ValueError ''cutoff cannot exceed simulated time'')
         else
           let lower_bound = (case lookback of None \<Rightarrow> None | Some l \<Rightarrow> if l = 0 then None else Some (cutoff - l));
               values = get_or (tm_candles M) symbol [];
               visible =
                 (if get_or (tm_monotonic M) symbol True
                  then let available = get_or (tm_available M) symbol [];
                           upper = bisect_right available cutoff 0 (length available);
                           lower = (case lower_bound of None \<Rightarrow> 0
                             | Some b \<Rightarrow> bisect_left (get_or (tm_open_times M) symbol []) b 0 upper)
                       in drop lower (take upper values)
                  else filter (\<lambda>c. cn_available_at c \<le> cutoff \<and>
                         (case lower_bound of None \<Rightarrow> True | Some b \<Rightarrow> b \<le> cn_open_time c)) values)
           in if \<exists>c \<in> set visible. cutoff < cn_available_at c
              then Inl (ValueError ''temporal provider exposed future data'') else Inr visible)"

definition all_5m :: "temporal_market \<Rightarrow> candle list" where
  "all_5m M = sort_key (\<lambda>c. (cn_open_time c, cn_symbol c)) (concat (dict_values (tm_candles M)))"

definition prices_at :: "int \<Rightarrow> string \<Rightarrow> temporal_market \<Rightarrow> py_error + (string, decimal) dict" where
  "prices_at open_time field M =
     (if field \<notin> {''open'', ''close''} then Inl (ValueError ''price field must be open or close'')
      else Inr (map_values (if field = ''open'' then cn_open else cn_close) (get_or (tm_by_open M) open_time [])))"

definition visible_complementary ::
    "news_record list \<Rightarrow> signal_record list \<Rightarrow> int \<Rightarrow> news_record list \<times> signal_record list" where
  "visible_complementary news signals cutoff =
     (filter (\<lambda>n. nw_first_seen_at n \<le> cutoff) news, filter (\<lambda>s. sg_available_at s \<le> cutoff) signals)"

section \<open>Aggregation\<close>

text \<open>\<^verbatim>\<open>int(timestamp())\<close> truncates towards the epoch, \<^verbatim>\<open>//\<close> and \<^verbatim>\<open>%\<close> round down.\<close>

definition bucket_start :: "int \<Rightarrow> nat \<Rightarrow> int" where
  "bucket_start t minutes =
     (let seconds = (if 0 \<le> t then t div 1000000 else - ((- t) div 1000000)); epoch_minutes = seconds div 60;
          bucket_minutes = epoch_minutes - epoch_minutes mod int minutes
      in 60000000 * bucket_minutes)"

primrec group_buckets ::
    "candle list \<Rightarrow> nat \<Rightarrow> (string \<times> int, candle list) dict \<Rightarrow> py_error + (string \<times> int, candle list) dict" where
  "group_buckets [] minutes d = Inr d"
| "group_buckets (c # cs) minutes d =
     (if cn_minutes c \<noteq> 5 then Inl (ValueError ''only canonical 5m candles may be aggregated'')
      else group_buckets cs minutes (group_add (cn_symbol c, bucket_start (cn_open_time c) minutes) c d))"

definition joined :: "string \<Rightarrow> int \<Rightarrow> nat \<Rightarrow> candle list \<Rightarrow> candle" where
  "joined symbol bucket minutes members =
     \<lparr>cn_symbol = symbol, cn_open_time = bucket, cn_close_time = cn_close_time (last members),
      cn_available_at = cn_available_at (last members), cn_open = cn_open (hd members),
      cn_high = Max (set (map cn_high members)), cn_low = Min (set (map cn_low members)),
      cn_close = cn_close (last members), cn_volume = dsum (map cn_volume members),
      cn_quote_volume = dsum (map cn_quote_volume members), cn_trades = sum_list (map cn_trades members),
      cn_minutes = minutes\<rparr>"

definition expected_times :: "int \<Rightarrow> nat \<Rightarrow> int list" where
  "expected_times bucket n = map (\<lambda>i. bucket + five_minutes * int i) [0..<n]"

primrec join_buckets :: "nat \<Rightarrow> ((string \<times> int) \<times> candle list) list \<Rightarrow> py_error + candle list" where
  "join_buckets minutes [] = Inr []"
| "join_buckets minutes (item # items) =
     (let members = sort_key cn_open_time (snd item); n = minutes div 5
      in if length members \<noteq> n then join_buckets minutes items
         else if map cn_open_time members \<noteq> expected_times (snd (fst item)) n
         then Inl (ValueError ''gap or duplicate'')
         else
           let c = joined (fst (fst item)) (snd (fst item)) minutes members
           in on_ok (check_candle c) (\<lambda>_. on_ok (join_buckets minutes items) (\<lambda>cs. Inr (c # cs))))"

definition aggregate_candles :: "candle list \<Rightarrow> nat \<Rightarrow> py_error + candle list" where
  "aggregate_candles cs minutes =
     (if minutes \<notin> {15, 30, 60} then Inl (ValueError ''supported aggregates are 15m, 30m and 60m'')
      else on_ok (group_buckets cs minutes []) (\<lambda>d. join_buckets minutes (sort_key fst d)))"

end
