(* ===== verification/Hist_Engine.thy ===== *)
theory Hist_Engine
  imports Hist_Portfolio Hist_Data
begin

text \<open>
  \<^verbatim>\<open>simulation/clock.py\<close>, \<^verbatim>\<open>decision/providers.py\<close> and
  \<^verbatim>\<open>simulation/engine.py\<close>: the clock that walks the opening times of the candles,
  the providers that answer decision requests, and the engine that marks the portfolio at every
  close, asks for a decision every quarter of an hour and executes it at the next open. The
  SHA-256 digests of the run are parameters.
\<close>

section \<open>The clock\<close>

record hist_clock =
  ck_events :: "int list"
  ck_index :: nat
  ck_paused :: bool
  ck_time :: "int option"

definition new_clock :: "int list \<Rightarrow> hist_clock" where
  "new_clock event_times = \<lparr>ck_events = sorted_list_of_set (set event_times), ck_index = 0, ck_paused = False, ck_time = None\<rparr>"

definition clock_of_candles :: "candle list \<Rightarrow> hist_clock" where
  "clock_of_candles cs = new_clock (map cn_open_time cs)"

definition clock_pause :: "hist_clock \<Rightarrow> hist_clock" where
  "clock_pause C = C\<lparr>ck_paused := True\<rparr>"

definition clock_resume :: "hist_clock \<Rightarrow> hist_clock" where
  "clock_resume C = C\<lparr>ck_paused := False\<rparr>"

definition clock_advance :: "hist_clock \<Rightarrow> int option \<times> hist_clock" where
  "clock_advance C =
     (if ck_paused C \<or> length (ck_events C) \<le> ck_index C then (None, C)
      else let t = ck_events C ! ck_index C in (Some t, C\<lparr>ck_time := Some t, ck_index := ck_index C + 1\<rparr>))"

record clock_checkpoint =
  cp_index :: int
  cp_time :: "int option"

definition take_checkpoint :: "hist_clock \<Rightarrow> clock_checkpoint" where
  "take_checkpoint C = \<lparr>cp_index = int (ck_index C), cp_time = ck_time C\<rparr>"

definition clock_restore :: "clock_checkpoint \<Rightarrow> hist_clock \<Rightarrow> (unit, hist_clock) outcome" where
  "clock_restore p C =
     (if \<not> (0 \<le> cp_index p \<and> cp_index p \<le> int (length (ck_events C)))
      then Raise (ValueError ''checkpoint is outside this clock'') C
      else Return () (C\<lparr>ck_index := nat (cp_index p), ck_time := cp_time p\<rparr>))"

section \<open>Providers\<close>

text \<open>
  A provider answers with an instance of \<^verbatim>\<open>DecisionResponse\<close>, with a mapping whose
  fields pydantic parses (or not), or by raising; \<^verbatim>\<open>TypeError\<close> and
  \<^verbatim>\<open>RuntimeError\<close> count as \<^const>\<open>ValueError\<close>, with which they are caught.
\<close>

datatype provider_reply = Instance decision_response | Fields "decision_response option" | Failing py_error

type_synonym 'p decision_provider = "decision_request \<Rightarrow> 'p \<Rightarrow> provider_reply \<times> 'p"

definition parse_fields :: "decision_response option \<Rightarrow> py_error + decision_response" where
  "parse_fields f =
     (case f of None \<Rightarrow> Inl (ValueError ''ValidationError'') | Some r \<Rightarrow> on_ok (check_response r) (\<lambda>_. Inr r))"

record fixture_provider =
  fx_decisions :: "decision_response list"
  fx_index :: nat

definition new_fixture :: "decision_response list \<Rightarrow> fixture_provider" where
  "new_fixture ds = \<lparr>fx_decisions = ds, fx_index = 0\<rparr>"

definition fixture_decide :: "fixture_provider decision_provider" where
  "fixture_decide request F =
     (if length (fx_decisions F) \<le> fx_index F
      then (Instance (hold_response ''fixture decision sequence exhausted''), F)
      else (Instance (fx_decisions F ! fx_index F), F\<lparr>fx_index := fx_index F + 1\<rparr>))"

definition flagged_decide :: "bool \<Rightarrow> 'p decision_provider \<Rightarrow> 'p decision_provider" where
  "flagged_decide enabled adapter request p =
     (if \<not> enabled then (Instance (hold_response ''AI provider feature flag is disabled''), p) else adapter request p)"

record decision_record =
  rc_input_hash :: string
  rc_payload :: decision_request
  rc_raw :: provider_reply
  rc_response :: decision_response
  rc_replayed :: bool

datatype replay_mode = RECORD_MODE | REPLAY_MODE

record 'd recorder =
  rr_mode :: replay_mode
  rr_delegate :: "'d option"
  rr_records :: "decision_record list"
  rr_index :: nat

definition new_recorder :: "replay_mode \<Rightarrow> 'd option \<Rightarrow> decision_record list \<Rightarrow> py_error + 'd recorder" where
  "new_recorder mode delegate recordings =
     (if mode = RECORD_MODE \<and> delegate = None then Inl (ValueError ''record mode requires a delegate'')
      else Inr \<lparr>rr_mode = mode, rr_delegate = delegate, rr_records = recordings, rr_index = 0\<rparr>)"

definition replay_decide :: "(decision_request \<Rightarrow> string) \<Rightarrow> 'd recorder decision_provider" where
  "replay_decide hash request R =
     (if length (rr_records R) \<le> rr_index R then (Instance (hold_response ''missing replay recording''), R)
      else
        let record = rr_records R ! rr_index R
        in (Instance (if rc_input_hash record \<noteq> hash request then hold_response ''replay input hash mismatch''
                      else rc_response record), R\<lparr>rr_index := rr_index R + 1\<rparr>))"

definition recorded_answer :: "provider_reply \<Rightarrow> decision_response" where
  "recorded_answer reply =
     (case parse_fields (case reply of Instance r \<Rightarrow> Some r | Fields f \<Rightarrow> f | Failing e \<Rightarrow> None) of
        Inl _ \<Rightarrow> hold_response ''invalid decision provider response''
      | Inr r \<Rightarrow> r)"

definition recorder_decide ::
    "(decision_request \<Rightarrow> string) \<Rightarrow> 'd decision_provider \<Rightarrow> 'd recorder decision_provider" where
  "recorder_decide hash decide request R =
     (if rr_mode R = REPLAY_MODE then replay_decide hash request R
      else case rr_delegate R of
        None \<Rightarrow> (Failing AssertionError, R)
      | Some d \<Rightarrow>
          let (reply, d') = decide request d; R1 = R\<lparr>rr_delegate := Some d'\<rparr>
          in case reply of
               Failing e \<Rightarrow> (Failing e, R1)
             | _ \<Rightarrow> (Instance (recorded_answer reply),
                 R1\<lparr>rr_records := rr_records R1 @ [\<lparr>rc_input_hash = hash request, rc_payload = request, rc_raw = reply,
                   rc_response = recorded_answer reply, rc_replayed = False\<rparr>]\<rparr>))"

section \<open>Configuration and result\<close>

record sim_config =
  sc_initial :: decimal
  sc_max_exposure :: decimal
  sc_reserve_ratio :: decimal
  sc_costs :: execution_costs
  sc_margin :: decimal
  sc_seed :: int
  sc_policy_version :: string
  sc_run_type :: string

record sim_hashes =
  hs_dataset :: "candle list \<Rightarrow> string"
  hs_policy :: "string \<Rightarrow> int \<Rightarrow> string"
  hs_run_id :: "string \<Rightarrow> string \<Rightarrow> string"
  hs_request :: "decision_request \<Rightarrow> string"

record pending_decision =
  pd_response :: decision_response
  pd_execute_at :: int
  pd_index :: nat

record decision_entry =
  de_time :: int
  de_until :: int
  de_provider :: string
  de_input_hash :: string
  de_request :: decision_request
  de_raw :: provider_reply
  de_response :: decision_response

datatype sim_order_status = SKIPPED | FILLED_ORDER | PARTIAL_ORDER | REJECTED_ORDER

text \<open>The reason of an order is the summary of its decision or the exception that rejected it.\<close>

record order_entry =
  oe_time :: int
  oe_index :: nat
  oe_action :: trade_action
  oe_from :: "string option"
  oe_to :: "string option"
  oe_status :: sim_order_status
  oe_reason :: "string + py_error"

record 'p engine_run =
  er_portfolio :: spot_portfolio
  er_provider :: 'p
  er_pending :: "pending_decision option"
  er_marks :: "(string, decimal) dict"
  er_decisions :: "decision_entry list"
  er_orders :: "order_entry list"
  er_fills :: "spot_fill list"
  er_equity :: "(int \<times> portfolio_view) list"
  er_failures :: "py_error list"

record sim_engine =
  se_candles :: "candle list"
  se_market :: temporal_market
  se_config :: sim_config
  se_complementary :: "(news_record list \<times> signal_record list) option"

definition new_engine ::
    "candle list \<Rightarrow> sim_config \<Rightarrow> (news_record list \<times> signal_record list) option \<Rightarrow> py_error + sim_engine" where
  "new_engine cs config complementary =
     on_ok (validate_candle_sequence cs) (\<lambda>gaps.
       if gaps \<noteq> [] then Inl (ValueError ''simulation dataset contains relevant gap(s)'')
       else if length (market_symbols (new_market cs)) \<noteq> 4
       then Inl (ValueError ''the first vertical slice requires exactly four symbols'')
       else Inr \<lparr>se_candles = cs, se_market = new_market cs, se_config = config, se_complementary = complementary\<rparr>)"

section \<open>Execution of a decision\<close>

definition required_edge :: "sim_config \<Rightarrow> decimal" where
  "required_edge config =
     (let costs = sc_costs config
      in dadd (dmul 2 (dadd (dadd (ec_fee costs) (ddiv (ec_spread costs) 2)) (ec_slippage costs))) (sc_margin config))"

definition execute_action ::
    "sim_config \<Rightarrow> pending_decision \<Rightarrow> (string, decimal) dict \<Rightarrow> spot_portfolio \<Rightarrow>
     (spot_fill list \<times> py_error list, spot_portfolio) outcome" where
  "execute_action config pending prices P =
     (let r = pd_response pending; t = pd_execute_at pending; costs = sc_costs config;
          single = returning (\<lambda>fill. ([fill], []))
      in case dn_action r of
           BUY_FROM_USDT \<Rightarrow>
             (case dn_to r of
                None \<Rightarrow> Raise AssertionError P
              | Some symbol \<Rightarrow> raising (price_in prices symbol) P (\<lambda>price.
                  single (portfolio_buy symbol price (dn_allocation r) t costs prices 0 P)))
         | SELL_TO_USDT \<Rightarrow>
             (case dn_from r of
                None \<Rightarrow> Raise AssertionError P
              | Some symbol \<Rightarrow> raising (price_in prices symbol) P (\<lambda>price.
                  single (portfolio_sell symbol price t costs P)))
         | ROTATE_ASSET \<Rightarrow>
             (case (dn_from r, dn_to r) of
                (Some source, Some target) \<Rightarrow>
                  (if (case dn_edge r of None \<Rightarrow> True | Some edge \<Rightarrow> edge \<le> required_edge config)
                   then Raise (ValueError ''rotation edge does not clear costs and margin'') P
                   else portfolio_rotate source target prices (dn_allocation r) t costs [] P)
              | _ \<Rightarrow> Raise AssertionError P)
         | HOLD \<Rightarrow> Return ([], []) P)"

definition rejection :: "py_error \<Rightarrow> bool" where
  "rejection e \<longleftrightarrow> (case e of ValueError m \<Rightarrow> True | KeyError \<Rightarrow> True | _ \<Rightarrow> False)"

definition order_of :: "pending_decision \<Rightarrow> sim_order_status \<Rightarrow> string + py_error \<Rightarrow> order_entry" where
  "order_of pending status reason =
     (let r = pd_response pending
      in \<lparr>oe_time = pd_execute_at pending, oe_index = pd_index pending, oe_action = dn_action r, oe_from = dn_from r,
          oe_to = dn_to r, oe_status = status, oe_reason = reason\<rparr>)"

definition engine_execute ::
    "sim_config \<Rightarrow> pending_decision \<Rightarrow> (string, decimal) dict \<Rightarrow> 'p engine_run \<Rightarrow> (unit, 'p engine_run) outcome" where
  "engine_execute config pending prices E =
     (let r = pd_response pending; summary = Inl (dn_summary r)
      in if dn_action r = HOLD then Return () (E\<lparr>er_orders := er_orders E @ [order_of pending SKIPPED summary]\<rparr>)
         else case execute_action config pending prices (er_portfolio E) of
           Return (fills, failures) P \<Rightarrow>
             Return () (E\<lparr>er_portfolio := P, er_failures := er_failures E @ failures, er_fills := er_fills E @ fills,
               er_orders := er_orders E @ [order_of pending
                 (if dn_action r = ROTATE_ASSET \<and> length fills = 1 then PARTIAL_ORDER else FILLED_ORDER) summary]\<rparr>)
         | Raise e P \<Rightarrow>
             (if rejection e
              then Return () (E\<lparr>er_portfolio := P, er_failures := er_failures E @ [e],
                er_orders := er_orders E @ [order_of pending REJECTED_ORDER (Inr e)]\<rparr>)
              else Raise e (E\<lparr>er_portfolio := P\<rparr>)))"

section \<open>The request\<close>

definition ninety_days :: int where
  "ninety_days = 7776000000000"

definition last_n :: "nat \<Rightarrow> 'a list \<Rightarrow> 'a list" where
  "last_n n xs = drop (length xs - n) xs"

definition symbol_context :: "temporal_market \<Rightarrow> int \<Rightarrow> int \<Rightarrow> string \<Rightarrow> py_error + string \<times> (nat \<times> candle list) list" where
  "symbol_context M decision_time cutoff symbol =
     on_ok (visible_candles symbol decision_time (Some cutoff) (Some ninety_days) M) (\<lambda>visible.
       on_ok (traverse (\<lambda>minutes. on_ok (aggregate_candles visible minutes) (\<lambda>cs. Inr (minutes, last_n 4 cs))) [15, 30, 60])
         (\<lambda>longer. Inr (symbol, (5, last_n 12 visible) # longer)))"

definition on_portfolio ::
    "(spot_portfolio \<Rightarrow> ('a, spot_portfolio) outcome) \<Rightarrow> 'p engine_run \<Rightarrow> ('a, 'p engine_run) outcome" where
  "on_portfolio m E =
     (case m (er_portfolio E) of
        Return r P \<Rightarrow> Return r (E\<lparr>er_portfolio := P\<rparr>)
      | Raise e P \<Rightarrow> Raise e (E\<lparr>er_portfolio := P\<rparr>))"

definition request_of ::
    "sim_engine \<Rightarrow> int \<Rightarrow> int \<Rightarrow> (string \<times> (nat \<times> candle list) list) list \<Rightarrow> portfolio_view \<Rightarrow> decision_request" where
  "request_of EN decision_time cutoff symbols view =
     \<lparr>rq_time = decision_time, rq_until = cutoff, rq_portfolio = view, rq_symbols = symbols,
      rq_complementary = map_option (\<lambda>(news, signals). visible_complementary news signals cutoff) (se_complementary EN),
      rq_max_exposure = sc_max_exposure (se_config EN), rq_reserve_ratio = sc_reserve_ratio (se_config EN)\<rparr>"

definition build_request ::
    "sim_engine \<Rightarrow> int \<Rightarrow> int \<Rightarrow> 'p engine_run \<Rightarrow> (decision_request, 'p engine_run) outcome" where
  "build_request EN decision_time cutoff E =
     raising (traverse (symbol_context (se_market EN) decision_time cutoff) (market_symbols (se_market EN))) E (\<lambda>symbols.
       and_then (on_portfolio (portfolio_snapshot (er_marks E)) E) (\<lambda>view E1.
         let request = request_of EN decision_time cutoff symbols view
         in raising (check_request request) E1 (\<lambda>_. Return request E1)))"

section \<open>The loop\<close>

definition decision_due :: "int \<Rightarrow> bool" where
  "decision_due t \<longleftrightarrow> (t div 60000000) mod 60 mod 15 = 0 \<and> (t div 1000000) mod 60 = 0"

definition engine_answer :: "provider_reply \<Rightarrow> py_error + decision_response" where
  "engine_answer reply =
     (let invalid = Inr (hold_response ''invalid or unavailable provider response'')
      in case reply of
           Instance r \<Rightarrow> Inr r
         | Fields f \<Rightarrow> (case parse_fields f of Inl _ \<Rightarrow> invalid | Inr r \<Rightarrow> Inr r)
         | Failing e \<Rightarrow> (case e of ValueError m \<Rightarrow> invalid | _ \<Rightarrow> Inl e))"

text \<open>The decision is recorded and waits for the next event; an earlier one that still waits is dropped.\<close>

definition decided ::
    "sim_hashes \<Rightarrow> string \<Rightarrow> decision_request \<Rightarrow> provider_reply \<Rightarrow> decision_response \<Rightarrow> 'p engine_run \<Rightarrow> 'p engine_run" where
  "decided H name request reply response E =
     E\<lparr>er_decisions := er_decisions E @ [\<lparr>de_time = rq_time request, de_until = rq_until request, de_provider = name,
         de_input_hash = hs_request H request, de_request = request, de_raw = reply, de_response = response\<rparr>],
       er_pending := Some \<lparr>pd_response = response, pd_execute_at = rq_time request, pd_index = length (er_decisions E)\<rparr>\<rparr>"

definition engine_ask ::
    "sim_hashes \<Rightarrow> string \<Rightarrow> 'p decision_provider \<Rightarrow> decision_request \<Rightarrow> 'p engine_run \<Rightarrow> (unit, 'p engine_run) outcome" where
  "engine_ask H name decide request E =
     (let (reply, p) = decide request (er_provider E)
      in raising (engine_answer reply) (E\<lparr>er_provider := p\<rparr>) (\<lambda>response.
        Return () (decided H name request reply response (E\<lparr>er_provider := p\<rparr>))))"

definition engine_decide ::
    "sim_hashes \<Rightarrow> string \<Rightarrow> 'p decision_provider \<Rightarrow> sim_engine \<Rightarrow> int \<Rightarrow> 'p engine_run \<Rightarrow> (unit, 'p engine_run) outcome" where
  "engine_decide H name decide EN close_time E =
     and_then (build_request EN (close_time + 1) close_time E) (engine_ask H name decide)"

definition execute_due :: "sim_config \<Rightarrow> int \<Rightarrow> candle list \<Rightarrow> 'p engine_run \<Rightarrow> (unit, 'p engine_run) outcome" where
  "execute_due config t current E =
     (case er_pending E of
        None \<Rightarrow> Return () E
      | Some pending \<Rightarrow>
          if pd_execute_at pending = t
          then and_then (engine_execute config pending (map (\<lambda>c. (cn_symbol c, cn_open c)) current) E) (\<lambda>_ E1.
            Return () (E1\<lparr>er_pending := None\<rparr>))
          else Return () E)"

definition mark_to_close :: "candle list \<Rightarrow> 'p engine_run \<Rightarrow> 'p engine_run" where
  "mark_to_close current E = E\<lparr>er_marks := foldl (\<lambda>d c. dict_set (cn_symbol c) (cn_close c) d) (er_marks E) current\<rparr>"

definition close_of :: "candle list \<Rightarrow> int" where
  "close_of current = Max (set (map cn_close_time current))"

definition record_equity :: "int \<Rightarrow> portfolio_view \<Rightarrow> 'p engine_run \<Rightarrow> 'p engine_run" where
  "record_equity close_time view E = E\<lparr>er_equity := er_equity E @ [(close_time, view)]\<rparr>"

definition history_step ::
    "sim_hashes \<Rightarrow> string \<Rightarrow> 'p decision_provider \<Rightarrow> sim_engine \<Rightarrow> (int, candle list) dict \<Rightarrow> int \<Rightarrow> 'p engine_run \<Rightarrow>
     (unit, 'p engine_run) outcome" where
  "history_step H name decide EN grouped t E =
     (let current = sort_key cn_symbol (get_or grouped t [])
      in and_then (execute_due (se_config EN) t current E) (\<lambda>_ E1.
        let E2 = mark_to_close current E1
        in and_then (on_portfolio (portfolio_snapshot (er_marks E2)) E2) (\<lambda>view E3.
          let E4 = record_equity (close_of current) view E3
          in if \<not> decision_due (close_of current + 1) then Return () E4
             else engine_decide H name decide EN (close_of current) E4)))"

function engine_loop ::
    "(int \<Rightarrow> 's \<Rightarrow> (unit, 's) outcome) \<Rightarrow> hist_clock \<Rightarrow> 's \<Rightarrow> (unit, 's) outcome" where
  "engine_loop step C E =
     (case clock_advance C of
        (None, _) \<Rightarrow> Return () E
      | (Some t, C') \<Rightarrow>
          (case step t E of Raise e E' \<Rightarrow> Raise e E' | Return _ E' \<Rightarrow> engine_loop step C' E'))"
  by pat_completeness auto

termination
  by (relation "measure (\<lambda>(step, C, E). length (ck_events C) - ck_index C)")
    (auto simp: clock_advance_def Let_def split: if_splits)

declare engine_loop.simps [simp del]

section \<open>Metrics\<close>

definition drawdown_run :: "nat \<times> nat \<Rightarrow> portfolio_view \<Rightarrow> nat \<times> nat" where
  "drawdown_run state v =
     (case state of (longest, current) \<Rightarrow>
        if 0 < pv_drawdown v then (max longest (current + 1), current + 1) else (longest, 0))"

definition max_drawdown_duration :: "portfolio_view list \<Rightarrow> nat" where
  "max_drawdown_duration points = fst (foldl drawdown_run (0, 0) points)"

record sim_metrics =
  mx_final_equity :: decimal
  mx_net_return :: decimal
  mx_realized :: decimal
  mx_unrealized :: decimal
  mx_max_drawdown :: decimal
  mx_fees :: decimal
  mx_slippage :: decimal
  mx_turnover :: decimal
  mx_fill_count :: nat
  mx_rotation_count :: nat
  mx_usdt_ratio :: decimal
  mx_crypto_ratio :: decimal
  mx_win_rate :: decimal
  mx_payoff :: decimal
  mx_expectancy :: decimal
  mx_profit_factor :: decimal
  mx_average_exposure :: decimal
  mx_max_exposure :: decimal
  mx_drawdown_duration :: nat

definition exposures_of :: "portfolio_view list \<Rightarrow> decimal list" where
  "exposures_of points =
     map (\<lambda>v. ddiv (dsub (pv_equity v) (pv_usdt v)) (pv_equity v)) (filter (\<lambda>v. 0 < pv_equity v) points)"

definition sale_results :: "spot_fill list \<Rightarrow> decimal list" where
  "sale_results fills = map sf_realized (filter (\<lambda>f. sf_side f = ''SELL'') fills)"

definition payoff_of :: "decimal list \<Rightarrow> decimal" where
  "payoff_of sells =
     (let wins = filter (\<lambda>v. 0 < v) sells; losses = filter (\<lambda>v. v < 0) sells
      in if wins \<noteq> [] \<and> losses \<noteq> []
         then ddiv (ddiv (dsum wins) (of_nat (length wins))) (ddiv (dabs (dsum losses)) (of_nat (length losses))) else 0)"

definition profit_factor_of :: "decimal list \<Rightarrow> decimal" where
  "profit_factor_of sells =
     (let gross_loss = dabs (dsum (filter (\<lambda>v. v < 0) sells))
      in if gross_loss \<noteq> 0 then ddiv (dsum (filter (\<lambda>v. 0 < v) sells)) gross_loss else 0)"

definition metrics_of :: "sim_config \<Rightarrow> 'p engine_run \<Rightarrow> py_error + sim_metrics" where
  "metrics_of config E =
     (let points = map snd (er_equity E); final = pv_equity (last points); state = sp_state (er_portfolio E);
          sells = sale_results (er_fills E); n = length points;
          idle = length (filter (\<lambda>v. pv_symbol v = None) points); exposures = exposures_of points;
          wins = filter (\<lambda>v. 0 < v) sells
      in on_ok (dquot (dsum exposures) (of_nat (length exposures))) (\<lambda>average.
        Inr \<lparr>mx_final_equity = final, mx_net_return = dsub (ddiv final (sc_initial config)) 1,
          mx_realized = pt_realized state, mx_unrealized = pv_unrealized (last points), mx_max_drawdown = pt_drawdown state,
          mx_fees = pt_fees state, mx_slippage = dsum (map sf_slippage_cost (er_fills E)),
          mx_turnover = ddiv (dsum (map sf_quote_value (er_fills E))) (sc_initial config),
          mx_fill_count = length (er_fills E),
          mx_rotation_count = length (filter (\<lambda>oe. oe_action oe = ROTATE_ASSET) (er_orders E)),
          mx_usdt_ratio = ddiv (of_nat idle) (of_nat n), mx_crypto_ratio = ddiv (of_nat (n - idle)) (of_nat n),
          mx_win_rate = (if sells \<noteq> [] then ddiv (of_nat (length wins)) (of_nat (length sells)) else 0),
          mx_payoff = payoff_of sells,
          mx_expectancy = (if sells \<noteq> [] then ddiv (dsum sells) (of_nat (length sells)) else 0),
          mx_profit_factor = profit_factor_of sells, mx_average_exposure = average,
          mx_max_exposure = (if exposures = [] then 0 else Max (set exposures)),
          mx_drawdown_duration = max_drawdown_duration points\<rparr>))"

section \<open>The run\<close>

record sim_result =
  sr_run_id :: string
  sr_dataset_hash :: string
  sr_policy_hash :: string
  sr_config :: sim_config
  sr_symbols :: "string list"
  sr_metrics :: "sim_metrics option"

definition new_run :: "spot_portfolio \<Rightarrow> 'p \<Rightarrow> 'p engine_run" where
  "new_run P p =
     \<lparr>er_portfolio = P, er_provider = p, er_pending = None, er_marks = [], er_decisions = [], er_orders = [], er_fills = [],
      er_equity = [], er_failures = []\<rparr>"

definition event_loop_of ::
    "sim_hashes \<Rightarrow> string \<Rightarrow> 'p decision_provider \<Rightarrow> sim_engine \<Rightarrow> 'p engine_run \<Rightarrow> (unit, 'p engine_run) outcome" where
  "event_loop_of H name decide EN E =
     (let grouped = group_by cn_open_time (se_candles EN)
      in engine_loop (history_step H name decide EN grouped) (new_clock (keys grouped)) E)"

definition engine_report :: "sim_hashes \<Rightarrow> sim_engine \<Rightarrow> sim_metrics option \<Rightarrow> sim_result" where
  "engine_report H EN metrics =
     (let config = se_config EN; dataset = hs_dataset H (se_candles EN);
          policy = hs_policy H (sc_policy_version config) (sc_seed config)
      in \<lparr>sr_run_id = hs_run_id H dataset policy, sr_dataset_hash = dataset, sr_policy_hash = policy, sr_config = config,
          sr_symbols = market_symbols (se_market EN), sr_metrics = metrics\<rparr>)"

definition engine_run_all ::
    "sim_hashes \<Rightarrow> string \<Rightarrow> 'p decision_provider \<Rightarrow> sim_engine \<Rightarrow> 'p \<Rightarrow> py_error + sim_result \<times> 'p engine_run" where
  "engine_run_all H name decide EN p =
     (let config = se_config EN
      in on_ok (new_portfolio (sc_initial config) (sc_max_exposure config) (sc_reserve_ratio config)) (\<lambda>P.
        case event_loop_of H name decide EN (new_run P p) of
          Raise e E \<Rightarrow> Inl e
        | Return _ E \<Rightarrow>
            (if er_equity E = [] then Inr (engine_report H EN None, E)
             else on_ok (metrics_of config E) (\<lambda>metrics. Inr (engine_report H EN (Some metrics), E)))))"

end
