(* ===== verification/Hist_Data_Facts.thy ===== *)
theory Hist_Data_Facts
  imports Hist_Data
begin

text \<open>
  The binary searches find the right places of a sorted list, so the two ways
  \<^const>\<open>visible_candles\<close> selects candles agree: it always returns exactly the candles that
  were available at the cutoff.
\<close>

section \<open>Binary search\<close>

lemma bisect_right_between:
  "lo \<le> hi \<Longrightarrow> lo \<le> bisect_right xs x lo hi \<and> bisect_right xs x lo hi \<le> hi"
proof (induction xs x lo hi rule: bisect_right.induct)
  case (1 xs x lo hi)
  show ?case
  proof (cases "lo < hi")
    case True
    let ?m = "(lo + hi) div 2"
    have m: "lo \<le> ?m" "?m < hi" using True by auto
    show ?thesis
    proof (cases "x < xs ! ?m")
      case less: True
      then show ?thesis using 1(1) [OF True refl less] m True by (simp add: bisect_right.simps [of xs x lo hi] Let_def)
    next
      case False
      then show ?thesis using 1(2) [OF True refl False] m True by (simp add: bisect_right.simps [of xs x lo hi] Let_def)
    qed
  next
    case False
    then show ?thesis using 1(3) unfolding bisect_right.simps [of xs x lo hi] by simp
  qed
qed

lemma bisect_left_between:
  "lo \<le> hi \<Longrightarrow> lo \<le> bisect_left xs x lo hi \<and> bisect_left xs x lo hi \<le> hi"
proof (induction xs x lo hi rule: bisect_left.induct)
  case (1 xs x lo hi)
  show ?case
  proof (cases "lo < hi")
    case True
    let ?m = "(lo + hi) div 2"
    have m: "lo \<le> ?m" "?m < hi" using True by auto
    show ?thesis
    proof (cases "xs ! ?m < x")
      case less: True
      then show ?thesis using 1(1) [OF True refl less] m True by (simp add: bisect_left.simps [of xs x lo hi] Let_def)
    next
      case False
      then show ?thesis using 1(2) [OF True refl False] m True by (simp add: bisect_left.simps [of xs x lo hi] Let_def)
    qed
  next
    case False
    then show ?thesis using 1(3) unfolding bisect_left.simps [of xs x lo hi] by simp
  qed
qed

lemma bisect_right_splits:
  "sorted xs \<Longrightarrow> hi \<le> length xs \<Longrightarrow> lo \<le> i \<Longrightarrow> i < hi \<Longrightarrow> i < bisect_right xs x lo hi \<longleftrightarrow> xs ! i \<le> x"
proof (induction xs x lo hi rule: bisect_right.induct)
  case (1 xs x lo hi)
  let ?m = "(lo + hi) div 2"
  have lo: "lo < hi" and m: "lo \<le> ?m" "?m < hi" using 1(5,6) by auto
  show ?case
  proof (cases "x < xs ! ?m")
    case less: True
    have e: "bisect_right xs x lo hi = bisect_right xs x lo ?m" using lo less by (simp add: bisect_right.simps [of xs x lo hi] Let_def)
    show ?thesis
    proof (cases "i < ?m")
      case True
      then show ?thesis using 1(1) [OF lo refl less] 1(3-5) m e by simp
    next
      case False
      then have "xs ! ?m \<le> xs ! i" using 1(3,4,6) by (intro sorted_nth_mono) simp_all
      then show ?thesis using False less e bisect_right_between [OF m(1), of xs x] by simp
    qed
  next
    case False
    have e: "bisect_right xs x lo hi = bisect_right xs x (?m + 1) hi" using lo False by (simp add: bisect_right.simps [of xs x lo hi] Let_def)
    show ?thesis
    proof (cases "?m + 1 \<le> i")
      case True
      then show ?thesis using 1(2) [OF lo refl False] 1(3,4,6) e by simp
    next
      case small: False
      then have "xs ! i \<le> xs ! ?m" using 1(3,4) m by (intro sorted_nth_mono) simp_all
      moreover have "?m + 1 \<le> bisect_right xs x (?m + 1) hi" using bisect_right_between [of "?m + 1" hi xs x] m by simp
      ultimately show ?thesis using False small e by linarith
    qed
  qed
qed

lemma bisect_left_splits:
  "sorted xs \<Longrightarrow> hi \<le> length xs \<Longrightarrow> lo \<le> i \<Longrightarrow> i < hi \<Longrightarrow> i < bisect_left xs x lo hi \<longleftrightarrow> xs ! i < x"
proof (induction xs x lo hi rule: bisect_left.induct)
  case (1 xs x lo hi)
  let ?m = "(lo + hi) div 2"
  have lo: "lo < hi" and m: "lo \<le> ?m" "?m < hi" using 1(5,6) by auto
  show ?case
  proof (cases "xs ! ?m < x")
    case less: True
    have e: "bisect_left xs x lo hi = bisect_left xs x (?m + 1) hi" using lo less by (simp add: bisect_left.simps [of xs x lo hi] Let_def)
    show ?thesis
    proof (cases "?m + 1 \<le> i")
      case True
      then show ?thesis using 1(1) [OF lo refl less] 1(3,4,6) e by simp
    next
      case False
      then have "xs ! i \<le> xs ! ?m" using 1(3,4) m by (intro sorted_nth_mono) simp_all
      moreover have "?m + 1 \<le> bisect_left xs x (?m + 1) hi" using bisect_left_between [of "?m + 1" hi xs x] m by simp
      ultimately show ?thesis using less False e by linarith
    qed
  next
    case False
    have e: "bisect_left xs x lo hi = bisect_left xs x lo ?m" using lo False by (simp add: bisect_left.simps [of xs x lo hi] Let_def)
    show ?thesis
    proof (cases "i < ?m")
      case True
      then show ?thesis using 1(2) [OF lo refl False] 1(3-5) m e by simp
    next
      case big: False
      then have "xs ! ?m \<le> xs ! i" using 1(3,4,6) by (intro sorted_nth_mono) simp_all
      then show ?thesis using False big e bisect_left_between [OF m(1), of xs x] by simp
    qed
  qed
qed

lemma take_is_filter: "n \<le> length xs \<Longrightarrow> (\<And>i. i < length xs \<Longrightarrow> P (xs ! i) \<longleftrightarrow> i < n) \<Longrightarrow> take n xs = filter P xs"
proof (induction xs arbitrary: n)
  case (Cons x xs)
  have "P ((x # xs) ! Suc i) \<longleftrightarrow> Suc i < n" if "i < length xs" for i using Cons.prems(2) [of "Suc i"] that by simp
  then have "take (n - 1) xs = filter P xs" using Cons.prems(1) by (intro Cons.IH) auto
  then show ?case using Cons.prems(2) [of 0] by (cases n) simp_all
qed simp

lemma drop_is_filter: "n \<le> length xs \<Longrightarrow> (\<And>i. i < length xs \<Longrightarrow> P (xs ! i) \<longleftrightarrow> n \<le> i) \<Longrightarrow> drop n xs = filter P xs"
proof (induction xs arbitrary: n)
  case (Cons x xs)
  have "P ((x # xs) ! Suc i) \<longleftrightarrow> n \<le> Suc i" if "i < length xs" for i using Cons.prems(2) [of "Suc i"] that by simp
  then have "drop (n - 1) xs = filter P xs" using Cons.prems(1) by (intro Cons.IH) auto
  then show ?case using Cons.prems(2) [of 0] by (cases n) simp_all
qed simp

section \<open>Grouping\<close>

lemma get_or_simps: "get_or d k v = (case dict_get d k of None \<Rightarrow> v | Some x \<Rightarrow> x)"
  by (simp add: get_or_def)

lemma get_group_add: "get_or (group_add k v d) k' [] = get_or d k' [] @ (if k' = k then [v] else [])"
  by (simp add: get_or_def group_add_def)

lemma group_by_get: "get_or (group_by f xs) k [] = filter (\<lambda>x. f x = k) xs"
proof -
  have "get_or (foldl (\<lambda>d x. group_add (f x) x d) d xs) k [] = get_or d k [] @ filter (\<lambda>x. f x = k) xs" for d
    by (induction xs arbitrary: d) (simp_all add: get_group_add)
  from this [of "[]"] show ?thesis unfolding group_by_def by (simp add: get_or_def)
qed

lemma group_by_keys: "set (keys (group_by f xs)) = f ` set xs"
proof -
  have "set (keys (foldl (\<lambda>d x. group_add (f x) x d) d xs)) = set (keys d) \<union> f ` set xs" for d
    by (induction xs arbitrary: d) (auto simp: group_add_def)
  from this [of "[]"] show ?thesis unfolding group_by_def by simp
qed

lemma group_by_distinct: "distinct (keys (group_by f xs))"
proof -
  have "distinct (keys d) \<Longrightarrow> distinct (keys (foldl (\<lambda>d x. group_add (f x) x d) d xs))" for d
    by (induction xs arbitrary: d) (simp_all add: group_add_def)
  then show ?thesis unfolding group_by_def by simp
qed

section \<open>Visible candles\<close>

definition candles_of :: "string \<Rightarrow> candle list \<Rightarrow> candle list" where
  "candles_of symbol cs = sort_key cn_open_time (filter (\<lambda>c. cn_symbol c = symbol) cs)"

lemma pairwise_le_sorted: "pairwise_le xs \<longleftrightarrow> sorted xs"
proof (induction xs)
  case (Cons x xs)
  show ?case
  proof (cases xs)
    case Nil
    then show ?thesis by simp
  next
    case c: (Cons y ys)
    have "pairwise_le (x # xs) \<longleftrightarrow> x \<le> y \<and> pairwise_le xs" unfolding c by (subst pairwise_le.simps(2)) (simp only: list.case)
    also have "\<dots> \<longleftrightarrow> sorted (x # xs)" using Cons.IH c by (auto simp del: pairwise_le.simps intro: order_trans)
    finally show ?thesis .
  qed
qed simp

lemma market_fields:
  "tm_candles (new_market cs) = map_values (sort_key cn_open_time) (group_by cn_symbol cs)"
  "tm_available (new_market cs) = map_values (map cn_available_at) (tm_candles (new_market cs))"
  "tm_open_times (new_market cs) = map_values (map cn_open_time) (tm_candles (new_market cs))"
  "tm_monotonic (new_market cs) = map_values (\<lambda>vs. pairwise_le (map cn_available_at vs)) (tm_candles (new_market cs))"
  unfolding new_market_def Let_def temporal_market.simps by (rule refl)+

lemma get_or_map_values: "f x = y \<Longrightarrow> get_or (map_values f d) k y = f (get_or d k x)"
  by (simp add: get_or_def split: option.split)

lemma market_get:
  "get_or (tm_candles (new_market cs)) symbol [] = candles_of symbol cs"
  "get_or (tm_available (new_market cs)) symbol [] = map cn_available_at (candles_of symbol cs)"
  "get_or (tm_open_times (new_market cs)) symbol [] = map cn_open_time (candles_of symbol cs)"
  "get_or (tm_monotonic (new_market cs)) symbol True = sorted (map cn_available_at (candles_of symbol cs))"
proof -
  show c: "get_or (tm_candles (new_market cs)) symbol [] = candles_of symbol cs"
    unfolding market_fields(1) candles_of_def group_by_get [symmetric] by (rule get_or_map_values) simp
  show "get_or (tm_available (new_market cs)) symbol [] = map cn_available_at (candles_of symbol cs)"
    "get_or (tm_open_times (new_market cs)) symbol [] = map cn_open_time (candles_of symbol cs)"
    "get_or (tm_monotonic (new_market cs)) symbol True = sorted (map cn_available_at (candles_of symbol cs))"
    unfolding market_fields(2-4) c [symmetric] pairwise_le_sorted [symmetric] by (rule get_or_map_values; simp)+
qed

definition lower_ok :: "int option \<Rightarrow> candle \<Rightarrow> bool" where
  "lower_ok bound c \<longleftrightarrow> (case bound of None \<Rightarrow> True | Some b \<Rightarrow> b \<le> cn_open_time c)"

lemma bisected_is_filtered:
  fixes cutoff :: int
  assumes opens: "sorted (map cn_open_time vs)" and avail: "sorted (map cn_available_at vs)"
  defines "upper \<equiv> bisect_right (map cn_available_at vs) cutoff 0 (length (map cn_available_at vs))"
  shows "drop (case bound of None \<Rightarrow> 0 | Some b \<Rightarrow> bisect_left (map cn_open_time vs) b 0 upper) (take upper vs) =
     filter (\<lambda>c. cn_available_at c \<le> cutoff \<and> lower_ok bound c) vs"
proof -
  have u: "upper \<le> length vs" using bisect_right_between [of 0 "length vs" "map cn_available_at vs" cutoff] by (simp add: upper_def)
  have t: "take upper vs = filter (\<lambda>c. cn_available_at c \<le> cutoff) vs"
  proof (rule take_is_filter [OF u])
    fix i assume "i < length vs"
    then show "cn_available_at (vs ! i) \<le> cutoff \<longleftrightarrow> i < upper"
      using bisect_right_splits [OF avail, of "length vs" 0 i cutoff] by (simp add: upper_def)
  qed
  show ?thesis
  proof (cases bound)
    case None
    then show ?thesis using t by (simp add: lower_ok_def)
  next
    case (Some b)
    let ?l = "bisect_left (map cn_open_time vs) b 0 upper"
    have "drop ?l (take upper vs) = filter (\<lambda>c. b \<le> cn_open_time c) (take upper vs)"
    proof (rule drop_is_filter)
      show "?l \<le> length (take upper vs)" using bisect_left_between [of 0 upper "map cn_open_time vs" b] u by simp
      fix i assume i: "i < length (take upper vs)"
      then have "i < ?l \<longleftrightarrow> cn_open_time (vs ! i) < b" using bisect_left_splits [OF opens, of upper 0 i b] u by simp
      then show "b \<le> cn_open_time (take upper vs ! i) \<longleftrightarrow> ?l \<le> i" using i by auto
    qed
    then show ?thesis using t Some by (simp add: lower_ok_def conj_commute)
  qed
qed

definition lower_bound_of :: "int \<Rightarrow> int option \<Rightarrow> int option" where
  "lower_bound_of cutoff lookback = (case lookback of None \<Rightarrow> None | Some l \<Rightarrow> if l = 0 then None else Some (cutoff - l))"

lemma visible_is_filter:
  "visible_candles symbol simulated_time (Some cutoff) lookback (new_market cs) =
     (if simulated_time < cutoff then Inl (ValueError ''cutoff cannot exceed simulated time'')
      else Inr (filter (\<lambda>c. cn_available_at c \<le> cutoff \<and> lower_ok (lower_bound_of cutoff lookback) c) (candles_of symbol cs)))"
proof -
  let ?vs = "candles_of symbol cs"
  have "sorted (map cn_open_time ?vs)" by (simp add: candles_of_def)
  note b = bisected_is_filtered [OF this _, of cutoff "lower_bound_of cutoff lookback"]
  have safe: "\<not> (\<exists>c \<in> set (filter (\<lambda>c. cn_available_at c \<le> cutoff \<and> P c) ?vs). cutoff < cn_available_at c)" for P
    by auto
  show ?thesis
  proof (cases "sorted (map cn_available_at ?vs)")
    case True
    show ?thesis
      unfolding visible_candles_def Let_def market_get option.case lower_bound_of_def [symmetric] if_P [OF True]
        b [OF True] if_not_P [OF safe] ..
  next
    case False
    show ?thesis
      unfolding visible_candles_def Let_def market_get option.case lower_bound_of_def [symmetric] if_not_P [OF False]
        lower_ok_def [symmetric] if_not_P [OF safe] ..
  qed
qed

text \<open>
  C28: nothing from the future is visible, and nothing else is hidden. On the market of any
  candles, an admissible request for the candles of a symbol returns, in order of their opening,
  exactly its candles that were available at the cutoff and open within the lookback, whichever
  of the two search strategies the market has chosen; its last safety check never fires. A cutoff
  after the simulated time is refused.
\<close>

theorem visible_candles_exact:
  "visible_candles symbol simulated_time (Some cutoff) lookback (new_market cs) =
     (if simulated_time < cutoff then Inl (ValueError ''cutoff cannot exceed simulated time'')
      else Inr (filter (\<lambda>c. cn_available_at c \<le> cutoff \<and> lower_ok (lower_bound_of cutoff lookback) c) (candles_of symbol cs)))"
  by (rule visible_is_filter)

end
