(* ===== verification/Hist_Portfolio_Facts.thy ===== *)
theory Hist_Portfolio_Facts
  imports Hist_Portfolio
begin

text \<open>
  The portfolio never breaks its own assertions, a purchase never spends more than the budget the
  limits leave (but for the rounding of its four products), and every fill says exactly how it
  changed the cash, the fees and the realized profit.
\<close>

section \<open>Assumptions on the costs\<close>

definition costs_ok :: "execution_costs \<Rightarrow> bool" where
  "costs_ok c \<longleftrightarrow>
     0 \<le> ec_fee c \<and> ec_fee c \<le> 1 \<and> 0 \<le> ec_spread c \<and> 0 \<le> ec_slippage c \<and> ec_slippage c \<le> dsub 1 (ddiv (ec_spread c) 2)"

lemma exact28_0 [simp]: "exact28 0" by (simp add: exact28_def)

lemma sell_price_nonneg: "costs_ok c \<Longrightarrow> 0 \<le> m \<Longrightarrow> 0 \<le> sell_price m c"
  by (simp add: sell_price_def costs_ok_def dmul_nonneg)

lemma buy_price_pos: "costs_ok c \<Longrightarrow> 0 < m \<Longrightarrow> 0 < buy_price m c"
  unfolding buy_price_def costs_ok_def by (intro dmul_pos dadd_pos ddiv_nonneg) simp_all

lemma fee_le_value: "0 \<le> v \<Longrightarrow> f \<le> 1 \<Longrightarrow> exact28 v \<Longrightarrow> dmul v f \<le> v"
proof -
  assume "0 \<le> v" "f \<le> 1" and e: "exact28 v"
  then have "v * f \<le> v" by (simp add: mult_left_le)
  then show ?thesis using prec28.rnd_le_exact e by (simp add: dmul_def exact28_def)
qed

section \<open>Soundness\<close>

definition sound_state :: "portfolio_state \<Rightarrow> bool" where
  "sound_state p \<longleftrightarrow>
     assert_invariants p \<and> 0 \<le> pt_average_cost p \<and> 0 \<le> pt_fees p \<and> 0 < pt_peak p \<and> 0 \<le> pt_drawdown p"

abbreviation sound_portfolio :: "spot_portfolio \<Rightarrow> bool" where
  "sound_portfolio P \<equiv> sound_state (sp_state P)"

lemma new_portfolio_sound: "new_portfolio c m r = Inr P \<Longrightarrow> sound_portfolio P"
  by (auto simp: new_portfolio_def sound_state_def assert_invariants_def split: if_splits)

lemma quantize18_cases: "quantize18 x = Inr q \<Longrightarrow> q = of_int (dtrunc (x * 10 ^ 18)) / 10 ^ 18"
  by (simp add: quantize18_def Let_def split: if_splits)

text \<open>What a purchase did when it returned, and that a refused one did nothing.\<close>

lemma buy_cases:
  assumes "portfolio_buy symbol m alloc t costs marks min_notional P = Return f P'"
  obtains equity quantity where "pt_symbol (sp_state P) = None" "0 < m" "portfolio_equity marks (sp_state P) = Inr equity"
    "buy_quantity (quote_budget alloc equity P) (buy_price m costs) costs = Inr quantity" "0 < quantity"
    "sf_quote_value f = dmul quantity (buy_price m costs)" "sf_fee f = dmul (sf_quote_value f) (ec_fee costs)"
    "dadd (sf_quote_value f) (sf_fee f) \<le> pt_usdt (sp_state P)" "sf_side f = ''BUY''" "sf_time f = t" "sf_realized f = 0"
    "sf_symbol f = symbol"
    "P' = P\<lparr>sp_state := bought symbol quantity (dadd (sf_quote_value f) (sf_fee f)) (sf_fee f) (sp_state P)\<rparr>"
  using assms by (auto simp: portfolio_buy_def Let_def not_le not_less split: if_splits intro!: that)

lemma bought_sound:
  "sound_state p \<Longrightarrow> 0 < q \<Longrightarrow> 0 \<le> c \<Longrightarrow> c \<le> pt_usdt p \<Longrightarrow> 0 \<le> fee \<Longrightarrow> sound_state (bought s q c fee p)"
  by (simp add: sound_state_def assert_invariants_def bought_def dadd_nonneg ddiv_nonneg)

lemma buy_refused:
  assumes "portfolio_buy symbol m alloc t costs marks min_notional P = Raise e P'" "costs_ok costs" "sound_portfolio P"
  shows "P' = P \<and> e \<noteq> AssertionError"
proof (cases "pt_symbol (sp_state P) \<noteq> None \<or> m \<le> 0")
  case True
  then show ?thesis using assms(1) by (auto simp: portfolio_buy_def Let_def split: if_splits)
next
  case False
  show ?thesis
  proof (cases "portfolio_equity marks (sp_state P)")
    case (Inl x)
    then show ?thesis using assms(1) False
      by (auto simp: portfolio_buy_def Let_def raising_def portfolio_equity_def split: if_splits option.splits)
  next
    case equity: (Inr equity)
    let ?price = "buy_price m costs"
    show ?thesis
    proof (cases "buy_quantity (quote_budget alloc equity P) ?price costs")
      case (Inl x)
      moreover have "x \<noteq> AssertionError"
        using Inl by (auto simp: buy_quantity_def on_ok_def dquot_def quantize18_def Let_def split: if_splits)
      ultimately show ?thesis using assms(1) False equity by (auto simp: portfolio_buy_def Let_def raising_def split: if_splits)
    next
      case (Inr q)
      let ?worth = "dmul q ?price"
      let ?cost = "dadd ?worth (dmul ?worth (ec_fee costs))"
      have "0 < ?price" using buy_price_pos assms(2) False by simp
      then have "sound_state (bought symbol q ?cost (dmul ?worth (ec_fee costs)) (sp_state P))"
        if "0 < q" "?cost \<le> pt_usdt (sp_state P)"
        using that assms(2,3) by (intro bought_sound) (simp_all add: dadd_nonneg dmul_nonneg costs_ok_def)
      then show ?thesis using assms(1) False equity Inr
        by (auto simp: portfolio_buy_def Let_def raising_def sound_state_def not_le not_less split: if_splits)
    qed
  qed
qed

lemma buy_sound:
  assumes "portfolio_buy symbol m alloc t costs marks min_notional P = Return f P'" "costs_ok costs" "sound_portfolio P"
  shows "sound_portfolio P'"
  using assms(1)
proof (cases rule: buy_cases)
  case (1 equity quantity)
  have "0 < buy_price m costs" using buy_price_pos assms(2) 1(2) by simp
  then have "0 \<le> sf_quote_value f" "0 \<le> sf_fee f" using 1(5-7) assms(2) by (simp_all add: dmul_nonneg costs_ok_def)
  then show ?thesis using 1(5,8,13) assms(3) by (simp add: bought_sound dadd_nonneg)
qed

lemma sell_cases:
  assumes "portfolio_sell symbol m t costs P = Return f P'"
  obtains "pt_symbol (sp_state P) = Some symbol" "0 < pt_quantity (sp_state P)"
    "sf_quote_value f = dmul (pt_quantity (sp_state P)) (sell_price m costs)"
    "sf_fee f = dmul (sf_quote_value f) (ec_fee costs)" "sf_side f = ''SELL''" "sf_time f = t"
    "sf_realized f = dsub (dsub (sf_quote_value f) (sf_fee f)) (dmul (pt_average_cost (sp_state P)) (pt_quantity (sp_state P)))"
    "P' = P\<lparr>sp_state := sold (dsub (sf_quote_value f) (sf_fee f)) (sf_fee f) (sp_state P)\<rparr>"
  using assms by (auto simp: portfolio_sell_def Let_def not_le split: if_splits intro!: that)

lemma sold_sound:
  assumes "costs_ok costs" "sound_portfolio P" "0 \<le> m" "0 < pt_quantity (sp_state P)"
  defines "v \<equiv> dmul (pt_quantity (sp_state P)) (sell_price m costs)"
  defines "fee \<equiv> dmul v (ec_fee costs)"
  shows "sound_state (sold (dsub v fee) fee (sp_state P))"
proof -
  have "0 \<le> v" using assms(4) sell_price_nonneg [OF assms(1,3)] by (simp add: v_def dmul_nonneg)
  moreover have "exact28 v" by (simp add: v_def)
  ultimately have "fee \<le> v" "0 \<le> fee" using assms(1) by (simp_all add: fee_def fee_le_value costs_ok_def dmul_nonneg)
  then show ?thesis using assms(2) by (simp add: sound_state_def assert_invariants_def sold_def dadd_nonneg)
qed

lemma sell_outcome:
  assumes "costs_ok costs" "sound_portfolio P" "0 \<le> m"
  shows "portfolio_sell symbol m t costs P = Return f P' \<Longrightarrow> sound_portfolio P'"
    and "portfolio_sell symbol m t costs P = Raise e P' \<Longrightarrow> P' = P \<and> e = ValueError ''portfolio does not hold the symbol''"
proof -
  note s = sold_sound [OF assms]
  show "sound_portfolio P'" if "portfolio_sell symbol m t costs P = Return f P'"
    using that by (rule sell_cases) (simp add: s)
  show "P' = P \<and> e = ValueError ''portfolio does not hold the symbol''" if "portfolio_sell symbol m t costs P = Raise e P'"
    using that s by (auto simp: portfolio_sell_def Let_def sound_state_def not_le split: if_splits)
qed

lemma snapshot_equity:
  "portfolio_snapshot prices P = Return view P' \<Longrightarrow> portfolio_equity prices (sp_state P) = Inr (pv_equity view)"
  by (auto simp: portfolio_snapshot_def Let_def split: if_splits)

lemma snapshot_state:
  "sp_max_exposure (post_state (portfolio_snapshot prices P)) = sp_max_exposure P"
  "sp_reserve_ratio (post_state (portfolio_snapshot prices P)) = sp_reserve_ratio P"
  "pt_usdt (sp_state (post_state (portfolio_snapshot prices P))) = pt_usdt (sp_state P)"
  "pt_symbol (sp_state (post_state (portfolio_snapshot prices P))) = pt_symbol (sp_state P)"
  "pt_quantity (sp_state (post_state (portfolio_snapshot prices P))) = pt_quantity (sp_state P)"
  "pt_fees (sp_state (post_state (portfolio_snapshot prices P))) = pt_fees (sp_state P)"
  "pt_realized (sp_state (post_state (portfolio_snapshot prices P))) = pt_realized (sp_state P)"
  "pt_average_cost (sp_state (post_state (portfolio_snapshot prices P))) = pt_average_cost (sp_state P)"
  by (simp_all add: portfolio_snapshot_def raising_def Let_def split: sum.split)

lemma snapshot_sound: "sound_portfolio P \<Longrightarrow> sound_portfolio (post_state (portfolio_snapshot prices P))"
  by (auto simp: portfolio_snapshot_def raising_def Let_def sound_state_def assert_invariants_def split: sum.split)

section \<open>The budget of a purchase\<close>

lemma dround28_upper: "0 \<le> x \<Longrightarrow> dround 28 x \<le> x * (1 + ulp28 / 2)"
proof -
  assume "0 \<le> x"
  then have "dround 28 x - x \<le> x * ulp28 / 2" using dround28_error [of x] abs_ge_self [of "dround 28 x - x"] by simp
  then show ?thesis by (simp add: distrib_left)
qed

lemma dround28_lower: "0 \<le> x \<Longrightarrow> x * (1 - ulp28 / 2) \<le> dround 28 x"
proof -
  assume "0 \<le> x"
  then have "x - dround 28 x \<le> x * ulp28 / 2" using dround28_error [of x] abs_ge_minus_self [of "dround 28 x - x"] by simp
  then show ?thesis by (simp add: right_diff_distrib)
qed

lemma quantize18_le: "0 \<le> x \<Longrightarrow> quantize18 x = Inr q \<Longrightarrow> q \<le> x"
proof -
  assume x: "0 \<le> x" and "quantize18 x = Inr q"
  then have q: "q = of_int (dtrunc (x * 10 ^ 18)) / 10 ^ 18" by (intro quantize18_cases)
  have "of_int (dtrunc (x * 10 ^ 18)) \<le> x * 10 ^ 18" using x by (simp add: dtrunc_def)
  then show ?thesis by (simp add: q field_simps)
qed

lemma spend_within_budget:
  assumes B: "0 \<le> B" and p: "0 < p" and f: "0 \<le> f" and q: "buy_quantity B p costs = Inr q" "0 < q"
    and fee: "ec_fee costs = f"
  shows "dadd (dmul q p) (dmul (dmul q p) f) \<le> B * (1 + 4 * ulp28)"
proof -
  let ?u = "ulp28 / 2"
  define D where "D = dmul p (dadd 1 f)"
  have u: "0 < ?u" "?u \<le> 1 / 10 ^ 27" by (simp_all add: ulp28_def)
  have d1: "(1 + f) * (1 - ?u) \<le> dadd 1 f" using dround28_lower [of "1 + f"] f by (simp add: dadd_def)
  have "p * ((1 + f) * (1 - ?u)) * (1 - ?u) \<le> p * dadd 1 f * (1 - ?u)"
    using d1 p u by (intro mult_right_mono mult_left_mono) simp_all
  also have "\<dots> \<le> D" unfolding D_def dmul_def using p f by (intro dround28_lower mult_nonneg_nonneg dadd_nonneg) simp_all
  finally have D: "p * (1 + f) * (1 - ?u)\<^sup>2 \<le> D" by (simp add: power2_eq_square mult.assoc)
  have "0 < 1 - ?u" by (simp add: ulp28_def)
  then have pos: "0 < p * (1 + f) * (1 - ?u)\<^sup>2" using p f by (intro mult_pos_pos zero_less_power) simp_all
  then have Dpos: "0 < D" using D by linarith
  have "dquot B D = Inr (ddiv B D)" using Dpos by (simp add: dquot_def)
  then have "quantize18 (ddiv B D) = Inr q" using q(1) unfolding buy_quantity_def fee D_def [symmetric] by simp
  then have "q \<le> ddiv B D" by (rule quantize18_le [OF ddiv_nonneg [OF B less_imp_le [OF Dpos]]])
  also have "\<dots> \<le> B / D * (1 + ?u)" unfolding ddiv_def using B Dpos by (intro dround28_upper) simp
  finally have "q * D \<le> B / D * (1 + ?u) * D" using Dpos by (intro mult_right_mono) simp_all
  also have "\<dots> = B * (1 + ?u)" using Dpos by simp
  finally have "q * D \<le> B * (1 + ?u)" .
  then have spent: "q * (p * (1 + f) * (1 - ?u)\<^sup>2) \<le> B * (1 + ?u)"
    using mult_left_mono [OF D, of q] q(2) by linarith
  have v: "dmul q p \<le> q * p * (1 + ?u)" "0 \<le> dmul q p" using dround28_upper [of "q * p"] p q(2) by (simp_all add: dmul_def dmul_nonneg [unfolded dmul_def])
  have fee: "dmul (dmul q p) f \<le> dmul q p * f * (1 + ?u)" using dround28_upper [of "dmul q p * f"] v(2) f by (simp add: dmul_def [of _ f])
  have "dmul q p + dmul (dmul q p) f \<le> dmul q p * (1 + f) * (1 + ?u)"
  proof -
    have "dmul q p \<le> dmul q p * (1 + ?u)" using v(2) u by (simp add: algebra_simps)
    then show ?thesis using fee by (simp add: algebra_simps)
  qed
  also have "\<dots> \<le> q * p * (1 + ?u) * (1 + f) * (1 + ?u)" using v(1) f u by (intro mult_right_mono) simp_all
  finally have both: "dmul q p + dmul (dmul q p) f \<le> q * p * (1 + f) * (1 + ?u)\<^sup>2" by (simp only: power2_eq_square mult.assoc mult.commute mult.left_commute)
  have "dadd (dmul q p) (dmul (dmul q p) f) \<le> (dmul q p + dmul (dmul q p) f) * (1 + ?u)"
    unfolding dadd_def using v(2) dmul_nonneg [OF v(2) f] by (intro dround28_upper add_nonneg_nonneg)
  also have "\<dots> \<le> q * p * (1 + f) * (1 + ?u)\<^sup>2 * (1 + ?u)" using both u by (intro mult_right_mono) simp_all
  finally have total: "dadd (dmul q p) (dmul (dmul q p) f) \<le> q * p * (1 + f) * (1 + ?u) ^ 3"
    by (simp add: power2_eq_square power3_eq_cube mult.assoc)
  have num: "(1 + ?u) ^ 4 \<le> (1 + 4 * ulp28) * (1 - ?u)\<^sup>2" by (simp add: ulp28_def power4_eq_xxxx power2_eq_square)
  have "q * p * (1 + f) * (1 + ?u) ^ 3 * (1 - ?u)\<^sup>2 \<le> B * (1 + ?u) * (1 + ?u) ^ 3"
    using mult_right_mono [OF spent, of "(1 + ?u) ^ 3"] u by (simp add: mult.assoc mult.commute mult.left_commute)
  also have "\<dots> = B * (1 + ?u) ^ 4" by (simp add: power_Suc [symmetric] mult.assoc numeral_eq_Suc)
  also have "\<dots> \<le> B * ((1 + 4 * ulp28) * (1 - ?u)\<^sup>2)" using num B by (rule mult_left_mono)
  finally have "q * p * (1 + f) * (1 + ?u) ^ 3 * (1 - ?u)\<^sup>2 \<le> B * (1 + 4 * ulp28) * (1 - ?u)\<^sup>2" by (simp add: mult.assoc)
  moreover have "0 < (1 - ?u)\<^sup>2" using \<open>0 < 1 - ?u\<close> by (rule zero_less_power)
  ultimately have "q * p * (1 + f) * (1 + ?u) ^ 3 \<le> B * (1 + 4 * ulp28)" by (simp only: mult_le_cancel_right_pos)
  then show ?thesis using total by linarith
qed

lemma buy_quantity_budget:
  assumes "buy_quantity B p costs = Inr q" "0 < q" "0 < p" "0 \<le> ec_fee costs"
  shows "0 \<le> B"
proof (rule ccontr)
  assume "\<not> 0 \<le> B"
  then have B: "B < 0" by simp
  have D: "0 < dmul p (dadd 1 (ec_fee costs))" using assms(3,4) by (intro dmul_pos dadd_pos) simp_all
  then have "quantize18 (ddiv B (dmul p (dadd 1 (ec_fee costs)))) = Inr q"
    using assms(1) by (simp add: buy_quantity_def dquot_def)
  then have q: "q = of_int (dtrunc (ddiv B (dmul p (dadd 1 (ec_fee costs))) * 10 ^ 18)) / 10 ^ 18" by (rule quantize18_cases)
  have "ddiv B (dmul p (dadd 1 (ec_fee costs))) < 0"
    unfolding ddiv_def using prec28.rnd_neg divide_neg_pos [OF B D] by blast
  then have "ddiv B (dmul p (dadd 1 (ec_fee costs))) * 10 ^ 18 < 0" by simp
  then have "dtrunc (ddiv B (dmul p (dadd 1 (ec_fee costs))) * 10 ^ 18) \<le> 0" by (simp add: dtrunc_def ceiling_le_iff)
  then have "q \<le> 0" unfolding q by (simp add: divide_nonpos_pos)
  then show False using assms(2) by simp
qed

section \<open>Claims on the portfolio\<close>

text \<open>
  C26: a purchase stays within the limits. When a purchase of a sound portfolio returns, the
  portfolio held no asset, the cash is reduced by the value of the fill and its fee, which the
  cash covered; and up to a relative rounding error of 4e-27 that expense exceeds neither the
  requested and the maximal share of the cash nor the cash above the reserve.
\<close>

theorem purchase_within_limits:
  assumes "portfolio_buy symbol m alloc t costs marks min_notional P = Return f P'"
    and "costs_ok costs" and "sound_portfolio P"
    and "cash = pt_usdt (sp_state P)" and "spent = dadd (sf_quote_value f) (sf_fee f)"
  shows "pt_symbol (sp_state P) = None \<and> spent \<le> cash \<and> pt_usdt (sp_state P') = dsub cash spent \<and>
     spent \<le> dmul (dadd cash 0) (min (ddiv alloc 100) (sp_max_exposure P)) * (1 + 4 * ulp28) \<and>
     spent \<le> max 0 (dsub cash (dmul (dadd cash 0) (sp_reserve_ratio P))) * (1 + 4 * ulp28)"
  using assms(1)
proof (cases rule: buy_cases)
  case (1 equity quantity)
  have e: "equity = dadd cash 0" using 1(1,3) assms(4) by (simp add: portfolio_equity_def named_def)
  have price: "0 < buy_price m costs" and fee: "0 \<le> ec_fee costs"
    using buy_price_pos [OF assms(2) 1(2)] assms(2) by (simp_all add: costs_ok_def)
  note B = buy_quantity_budget [OF 1(4,5) price fee]
  have "spent \<le> quote_budget alloc equity P * (1 + 4 * ulp28)"
    unfolding assms(5) 1(6,7)
    by (rule spend_within_budget [OF B price fee 1(4,5) refl])
  moreover have "quote_budget alloc equity P * (1 + 4 * ulp28) \<le> b * (1 + 4 * ulp28)" if "quote_budget alloc equity P \<le> b" for b
    using that by (rule mult_right_mono) (simp add: ulp28_def)
  ultimately have "spent \<le> b * (1 + 4 * ulp28)" if "quote_budget alloc equity P \<le> b" for b
    using that order_trans by blast
  then show ?thesis
    using 1(1,8,13) assms(4,5) by (simp add: quote_budget_def Let_def e bought_def)
qed

definition free_costs :: execution_costs where
  "free_costs = \<lparr>ec_fee = 0, ec_spread = 0, ec_slippage = 0\<rparr>"

definition fresh_portfolio :: spot_portfolio where
  "fresh_portfolio =
     \<lparr>sp_max_exposure = 75 / 100, sp_reserve_ratio = 25 / 100,
      sp_state = \<lparr>pt_usdt = 80, pt_symbol = None, pt_quantity = 0, pt_average_cost = 0, pt_fees = 0, pt_realized = 0,
        pt_peak = 80, pt_drawdown = 0\<rparr>\<rparr>"

lemma fresh_purchase:
  "case portfolio_buy ''BTC'' 20 100 0 free_costs [] 0 fresh_portfolio of
     Return f P \<Rightarrow> sf_quantity f = 3 \<and> pt_usdt (sp_state P) = 20 | Raise e P \<Rightarrow> False"
  by code_simp

theorem purchase_within_limits_witness:
  "\<exists>f P. portfolio_buy ''BTC'' 20 100 0 free_costs [] 0 fresh_portfolio = Return f P \<and> pt_usdt (sp_state P) = 20 \<and>
     dadd (sf_quote_value f) (sf_fee f) \<le> 80"
proof -
  obtain f P where b: "portfolio_buy ''BTC'' 20 100 0 free_costs [] 0 fresh_portfolio = Return f P" "pt_usdt (sp_state P) = 20"
    using fresh_purchase by (cases "portfolio_buy ''BTC'' 20 100 0 free_costs [] 0 fresh_portfolio") simp_all
  have "costs_ok free_costs" "sound_portfolio fresh_portfolio"
    by (simp_all add: costs_ok_def free_costs_def ddiv_def sound_state_def assert_invariants_def fresh_portfolio_def)
  from purchase_within_limits [OF b(1) this refl refl]
  show ?thesis using b by (simp add: fresh_portfolio_def)
qed

end
