(* ===== verification/Hist_Engine_Inv.thy ===== *)
theory Hist_Engine_Inv
  imports Hist_Engine Hist_Data_Facts Hist_Portfolio_Facts
begin

text \<open>
  What every event of a run preserves: the portfolio stays sound, and its cash, fees and realized
  profit are what the recorded fills say. The loop over the clock is a run of
  \<^const>\<open>history_step\<close> over the opening times that are left.
\<close>

section \<open>The loop is a run over the events\<close>

lemma loop_is_run:
  "\<not> ck_paused C \<Longrightarrow> engine_loop step C E = returning (\<lambda>_. ()) (run_ops step (drop (ck_index C) (ck_events C)) E)"
proof (induction step C E rule: engine_loop.induct)
  case (1 step C E)
  show ?case
  proof (cases "length (ck_events C) \<le> ck_index C")
    case True
    then have "clock_advance C = (None, C)" by (simp add: clock_advance_def)
    then show ?thesis using True unfolding engine_loop.simps [of step C E] by (simp add: returning_def)
  next
    case False
    let ?t = "ck_events C ! ck_index C"
    let ?C = "C\<lparr>ck_time := Some ?t, ck_index := ck_index C + 1\<rparr>"
    have a: "clock_advance C = (Some ?t, ?C)" using False 1(2) by (simp add: clock_advance_def Let_def)
    have d: "drop (ck_index C) (ck_events C) = ?t # drop (ck_index C + 1) (ck_events C)"
      using False by (simp add: Cons_nth_drop_Suc)
    show ?thesis
    proof (cases "step ?t E")
      case (Return r E')
      have "engine_loop step ?C E' = returning (\<lambda>_. ()) (run_ops step (drop (ck_index C + 1) (ck_events C)) E')"
        using 1(1) [OF a [symmetric] refl Return] 1(2) by simp
      then show ?thesis unfolding engine_loop.simps [of step C E] a d
        by (simp add: Return returning_def) (cases "run_ops step (drop (Suc (ck_index C)) (ck_events C)) E'"; simp)
    next
      case (Raise e E')
      then show ?thesis unfolding engine_loop.simps [of step C E] a d by (simp add: returning_def)
    qed
  qed
qed

definition event_times :: "sim_engine \<Rightarrow> int list" where
  "event_times EN = sorted_list_of_set (cn_open_time ` set (se_candles EN))"

abbreviation step_of :: "sim_hashes \<Rightarrow> string \<Rightarrow> 'p decision_provider \<Rightarrow> sim_engine \<Rightarrow> int \<Rightarrow> 'p engine_run \<Rightarrow> (unit, 'p engine_run) outcome" where
  "step_of H name decide EN \<equiv> history_step H name decide EN (group_by cn_open_time (se_candles EN))"

lemma event_loop_run:
  "event_loop_of H name decide EN E = returning (\<lambda>_. ()) (run_ops (step_of H name decide EN) (event_times EN) E)"
  by (simp add: event_loop_of_def Let_def loop_is_run new_clock_def event_times_def group_by_keys [simplified])

section \<open>Fields a step leaves alone\<close>

lemma on_portfolio_simps [simp]:
  "on_portfolio m E = Return r E' \<longleftrightarrow> (\<exists>P. m (er_portfolio E) = Return r P \<and> E' = E\<lparr>er_portfolio := P\<rparr>)"
  "post_state (on_portfolio m E) = E\<lparr>er_portfolio := post_state (m (er_portfolio E))\<rparr>"
  by (cases "m (er_portfolio E)"; auto simp: on_portfolio_def)+

definition money :: "portfolio_state \<Rightarrow> decimal \<times> decimal \<times> decimal" where
  "money p = (pt_usdt p, pt_fees p, pt_realized p)"

lemma snapshot_money: "money (sp_state (post_state (portfolio_snapshot prices P))) = money (sp_state P)"
  by (simp add: money_def snapshot_state)

lemma build_request_post:
  "\<exists>P. post_state (build_request EN t cutoff E) = E\<lparr>er_portfolio := P\<rparr> \<and>
     (P = er_portfolio E \<or> P = post_state (portfolio_snapshot (er_marks E) (er_portfolio E)))"
proof -
  let ?snap = "on_portfolio (portfolio_snapshot (er_marks E)) E"
  have "post_state (build_request EN t cutoff E) = E \<or> post_state (build_request EN t cutoff E) = post_state ?snap"
  proof (cases "traverse (symbol_context (se_market EN) t cutoff) (market_symbols (se_market EN))")
    case (Inl e)
    then show ?thesis by (simp add: build_request_def raising_def)
  next
    case (Inr symbols)
    have "post_state (raising (check_request (request_of EN t cutoff symbols view)) E1
        (\<lambda>_. Return (request_of EN t cutoff symbols view) E1)) = E1" for view and E1 :: "'a engine_run"
      by (simp add: raising_def split: sum.split)
    then show ?thesis unfolding build_request_def Let_def using Inr
      by (cases ?snap) (simp_all only: raising_def sum.case and_then.simps post_state.simps simp_thms)
  qed
  then show ?thesis
  proof
    assume "post_state (build_request EN t cutoff E) = E"
    then show ?thesis by (intro exI [of _ "er_portfolio E"]) simp
  qed auto
qed

section \<open>Sound steps\<close>

definition fair_prices :: "(string, decimal) dict \<Rightarrow> bool" where
  "fair_prices prices \<longleftrightarrow> (\<forall>p \<in> set (dict_values prices). 0 \<le> p)"

lemma fair_price: "fair_prices prices \<Longrightarrow> price_in prices s = Inr p \<Longrightarrow> 0 \<le> p"
  unfolding fair_prices_def price_in_def using get_in_values by (force split: option.splits)

lemma raising_Raise: "raising m s k = Raise e s' \<longleftrightarrow> (m = Inl e \<and> s' = s) \<or> (\<exists>x. m = Inr x \<and> k x = Raise e s')"
  by (cases m) (auto simp: raising_def)

lemma price_in_Inl: "price_in prices s = Inl e \<Longrightarrow> e = KeyError"
  by (auto simp: price_in_def split: option.splits)

definition cash_after :: "decimal \<Rightarrow> spot_fill \<Rightarrow> decimal" where
  "cash_after cash f =
     (if sf_side f = ''BUY'' then dsub cash (dadd (sf_quote_value f) (sf_fee f)) else dadd cash (dsub (sf_quote_value f) (sf_fee f)))"

text \<open>The cash, fees and realized profit after a list of fills.\<close>

definition money_after :: "decimal \<times> decimal \<times> decimal \<Rightarrow> spot_fill list \<Rightarrow> decimal \<times> decimal \<times> decimal" where
  "money_after m fills =
     (foldl cash_after (fst m) fills, foldl dadd (fst (snd m)) (map sf_fee fills),
      foldl dadd (snd (snd m)) (sale_results fills))"

lemma money_after_simps [simp]:
  "money_after m [] = m" "money_after m (fs @ gs) = money_after (money_after m fs) gs"
  by (simp_all add: money_after_def sale_results_def)

lemma buy_money:
  assumes "portfolio_buy symbol m alloc t costs marks mn P = Return f P'"
  shows "money (sp_state P') = money_after (money (sp_state P)) [f]"
  using assms by (rule buy_cases) (simp add: money_def money_after_def cash_after_def bought_def sale_results_def)

lemma sell_money:
  assumes "portfolio_sell symbol m t costs P = Return f P'"
  shows "money (sp_state P') = money_after (money (sp_state P)) [f]"
  using assms by (rule sell_cases) (simp add: money_def money_after_def cash_after_def sold_def sale_results_def)

lemma rotate_outcome:
  assumes fair: "costs_ok costs" "fair_prices prices" and sound: "sound_portfolio P"
  shows "sound_portfolio (post_state (portfolio_rotate src tgt prices alloc t costs mns P))"
    and "portfolio_rotate src tgt prices alloc t costs mns P = Return (fills, fails) P' \<Longrightarrow>
       money (sp_state P') = money_after (money (sp_state P)) fills"
    and "portfolio_rotate src tgt prices alloc t costs mns P = Raise e P' \<Longrightarrow> e \<noteq> AssertionError \<and>
       (P' = P \<or> e = KeyError \<or> \<not> rejection e)"
proof -
  let ?m = "portfolio_rotate src tgt prices alloc t costs mns P"
  have *: "sound_portfolio (post_state ?m) \<and>
    (\<forall>fills fails P'. ?m = Return (fills, fails) P' \<longrightarrow> money (sp_state P') = money_after (money (sp_state P)) fills) \<and>
    (\<forall>e P'. ?m = Raise e P' \<longrightarrow> e \<noteq> AssertionError \<and> (P' = P \<or> e = KeyError \<or> \<not> rejection e))"
  proof (cases "price_in prices src")
    case (Inl e)
    then show ?thesis using sound price_in_Inl [OF Inl] by (simp add: portfolio_rotate_def raising_def)
  next
    case from_price: (Inr p)
    note p = fair_price [OF fair(2) from_price]
    show ?thesis
    proof (cases "portfolio_sell src p t costs P")
      case (Raise e P1)
      then show ?thesis using sound sell_outcome(2) [OF fair(1) sound p Raise]
        by (simp add: portfolio_rotate_def raising_def from_price)
    next
      case sale: (Return f P1)
      note P1 = sell_outcome(1) [OF fair(1) sound p sale]
      note m1 = sell_money [OF sale]
      show ?thesis
      proof (cases "price_in prices tgt")
        case (Inl e)
        then show ?thesis using P1 price_in_Inl [OF Inl] by (simp add: portfolio_rotate_def raising_def from_price sale)
      next
        case to_price: (Inr q)
        let ?buy = "portfolio_buy tgt q alloc t costs prices (get_or mns tgt 0) P1"
        show ?thesis
        proof (cases ?buy)
          case (Return g P2)
          have "money_after (money (sp_state P)) [f, g] = money_after (money_after (money (sp_state P)) [f]) [g]"
            by (simp add: money_after_def sale_results_def)
          then show ?thesis using Return buy_sound [OF Return fair(1) P1] buy_money [OF Return] m1
            by (simp add: portfolio_rotate_def raising_def from_price sale to_price)
        next
          case (Raise e P2)
          then have "P2 = P1" "e \<noteq> AssertionError" using buy_refused [OF Raise fair(1) P1] by simp_all
          then show ?thesis using Raise P1 m1
            by (cases e) (simp_all add: portfolio_rotate_def raising_def from_price sale to_price rejection_def)
        qed
      qed
    qed
  qed
  show "sound_portfolio (post_state ?m)" using * by blast
  show "money (sp_state P') = money_after (money (sp_state P)) fills" if "?m = Return (fills, fails) P'" using * that by blast
  show "e \<noteq> AssertionError \<and> (P' = P \<or> e = KeyError \<or> \<not> rejection e)" if "?m = Raise e P'" using * that by blast
qed


text \<open>An action answered by a response with the symbols it needs.\<close>

definition complete_response :: "decision_response \<Rightarrow> bool" where
  "complete_response r \<longleftrightarrow>
     (dn_action r \<in> {BUY_FROM_USDT, ROTATE_ASSET} \<longrightarrow> dn_to r \<noteq> None) \<and>
     (dn_action r \<in> {SELL_TO_USDT, ROTATE_ASSET} \<longrightarrow> dn_from r \<noteq> None)"

lemma action_outcome:
  assumes fair: "costs_ok (sc_costs config)" "fair_prices prices" and sound: "sound_portfolio P"
  shows "sound_portfolio (post_state (execute_action config pending prices P))"
    and "execute_action config pending prices P = Return (fills, fails) P' \<Longrightarrow>
       money (sp_state P') = money_after (money (sp_state P)) fills"
    and "execute_action config pending prices P = Raise e P' \<Longrightarrow>
       (e = AssertionError \<longrightarrow> \<not> complete_response (pd_response pending)) \<and>
       (P' = P \<or> \<not> rejection e \<or> dn_action (pd_response pending) = ROTATE_ASSET \<and> e = KeyError)"
proof -
  let ?r = "pd_response pending"
  let ?m = "execute_action config pending prices P"
  have *: "sound_portfolio (post_state ?m) \<and>
    (\<forall>fills fails P'. ?m = Return (fills, fails) P' \<longrightarrow> money (sp_state P') = money_after (money (sp_state P)) fills) \<and>
    (\<forall>e P'. ?m = Raise e P' \<longrightarrow> (e = AssertionError \<longrightarrow> \<not> complete_response ?r) \<and>
       (P' = P \<or> \<not> rejection e \<or> dn_action ?r = ROTATE_ASSET \<and> e = KeyError))"
  proof (cases "dn_action ?r")
    case HOLD
    then show ?thesis using sound by (simp add: execute_action_def Let_def)
  next
    case BUY_FROM_USDT
    show ?thesis
    proof (cases "dn_to ?r")
      case None
      then show ?thesis using BUY_FROM_USDT sound by (simp add: execute_action_def Let_def complete_response_def)
    next
      case to: (Some s)
      show ?thesis
      proof (cases "price_in prices s")
        case (Inl e)
        then show ?thesis using BUY_FROM_USDT sound to price_in_Inl [OF Inl] by (simp add: execute_action_def Let_def raising_def)
      next
        case (Inr p)
        let ?buy = "portfolio_buy s p (dn_allocation ?r) (pd_execute_at pending) (sc_costs config) prices 0 P"
        show ?thesis
        proof (cases ?buy)
          case (Return f P1)
          then show ?thesis using BUY_FROM_USDT to Inr buy_sound [OF Return fair(1) sound] buy_money [OF Return]
            by (simp add: execute_action_def Let_def raising_def returning_def)
        next
          case (Raise e P1)
          then show ?thesis using BUY_FROM_USDT to Inr buy_refused [OF Raise fair(1) sound] sound
            by (simp add: execute_action_def Let_def raising_def returning_def)
        qed
      qed
    qed
  next
    case SELL_TO_USDT
    show ?thesis
    proof (cases "dn_from ?r")
      case None
      then show ?thesis using SELL_TO_USDT sound by (simp add: execute_action_def Let_def complete_response_def)
    next
      case to: (Some s)
      show ?thesis
      proof (cases "price_in prices s")
        case (Inl e)
        then show ?thesis using SELL_TO_USDT sound to price_in_Inl [OF Inl] by (simp add: execute_action_def Let_def raising_def)
      next
        case (Inr p)
        note p = fair_price [OF fair(2) Inr]
        let ?sell = "portfolio_sell s p (pd_execute_at pending) (sc_costs config) P"
        show ?thesis
        proof (cases ?sell)
          case (Return f P1)
          then show ?thesis using SELL_TO_USDT to Inr sell_outcome(1) [OF fair(1) sound p Return] sell_money [OF Return]
            by (simp add: execute_action_def Let_def raising_def returning_def)
        next
          case (Raise e P1)
          then show ?thesis using SELL_TO_USDT to Inr sell_outcome(2) [OF fair(1) sound p Raise] sound
            by (simp add: execute_action_def Let_def raising_def returning_def)
        qed
      qed
    qed
  next
    case ROTATE_ASSET
    show ?thesis
    proof (cases "dn_from ?r = None \<or> dn_to ?r = None")
      case True
      then show ?thesis using ROTATE_ASSET sound
        by (auto simp: execute_action_def Let_def complete_response_def split: option.split)
    next
      case False
      then obtain src tgt where names: "dn_from ?r = Some src" "dn_to ?r = Some tgt" by (cases "dn_from ?r"; cases "dn_to ?r"; simp)
      let ?rotate = "portfolio_rotate src tgt prices (dn_allocation ?r) (pd_execute_at pending) (sc_costs config) [] P"
      have "?m = Raise (ValueError ''rotation edge does not clear costs and margin'') P \<or> ?m = ?rotate"
        using ROTATE_ASSET names by (simp add: execute_action_def Let_def)
      then show ?thesis
      proof
        assume "?m = Raise (ValueError ''rotation edge does not clear costs and margin'') P"
        then show ?thesis using sound by simp
      next
        assume m: "?m = ?rotate"
        note r = rotate_outcome [OF fair sound, of src tgt "dn_allocation ?r" "pd_execute_at pending" "[]"]
        show ?thesis unfolding m using r(1) r(2) r(3) ROTATE_ASSET by blast
      qed
    qed
  qed
  show "sound_portfolio (post_state ?m)" using * by blast
  show "money (sp_state P') = money_after (money (sp_state P)) fills" if "?m = Return (fills, fails) P'" using * that by blast
  show "(e = AssertionError \<longrightarrow> \<not> complete_response ?r) \<and>
       (P' = P \<or> \<not> rejection e \<or> dn_action ?r = ROTATE_ASSET \<and> e = KeyError)" if "?m = Raise e P'" using * that by blast
qed

section \<open>Sound runs\<close>

definition sound_view :: "portfolio_view \<Rightarrow> bool" where
  "sound_view v \<longleftrightarrow> 0 \<le> pv_usdt v \<and> 0 \<le> pv_quantity v \<and> (pv_symbol v = None \<longleftrightarrow> pv_quantity v = 0) \<and> 0 \<le> pv_fees v"

definition sound_run :: "'p engine_run \<Rightarrow> bool" where
  "sound_run E \<longleftrightarrow> sound_portfolio (er_portfolio E) \<and> (\<forall>row \<in> set (er_equity E). sound_view (snd row))"

definition lost_sale :: "order_entry \<Rightarrow> bool" where
  "lost_sale oe \<longleftrightarrow> oe_action oe = ROTATE_ASSET \<and> oe_reason oe = Inr KeyError"

definition accounted :: "decimal \<times> decimal \<times> decimal \<Rightarrow> 'p engine_run \<Rightarrow> bool" where
  "accounted m E \<longleftrightarrow>
     (\<forall>oe \<in> set (er_orders E). \<not> lost_sale oe) \<longrightarrow> money (sp_state (er_portfolio E)) = money_after m (er_fills E)"

text \<open>A part of a step that touches neither the orders, the fills, the equity curve nor the money.\<close>

definition quiet :: "'p engine_run \<Rightarrow> 'p engine_run \<Rightarrow> bool" where
  "quiet E E' \<longleftrightarrow>
     er_orders E' = er_orders E \<and> er_fills E' = er_fills E \<and> er_equity E' = er_equity E \<and>
     money (sp_state (er_portfolio E')) = money (sp_state (er_portfolio E)) \<and>
     (sound_portfolio (er_portfolio E) \<longrightarrow> sound_portfolio (er_portfolio E'))"

lemma quiet_refl [simp]: "quiet E E" by (simp add: quiet_def)

lemma quiet_trans: "quiet E E1 \<Longrightarrow> quiet E1 E2 \<Longrightarrow> quiet E E2" by (simp add: quiet_def)

lemma quiet_sound: "quiet E E' \<Longrightarrow> sound_run E \<Longrightarrow> sound_run E'" by (simp add: quiet_def sound_run_def)

lemma quiet_accounted: "quiet E E' \<Longrightarrow> accounted m E \<Longrightarrow> accounted m E'" by (simp add: quiet_def accounted_def)

lemma quiet_updates [simp]:
  "quiet E (E\<lparr>er_provider := p\<rparr>)" "quiet E (E\<lparr>er_pending := d\<rparr>)" "quiet E (mark_to_close current E)"
  "quiet E (decided H name request reply response E)"
  by (simp_all add: quiet_def mark_to_close_def decided_def)

lemma quiet_snapshot: "quiet E (E\<lparr>er_portfolio := post_state (portfolio_snapshot prices (er_portfolio E))\<rparr>)"
  by (simp add: quiet_def snapshot_money snapshot_sound)

lemma quiet_request: "quiet E (post_state (build_request EN t cutoff E))"
  using build_request_post [of EN t cutoff E] quiet_snapshot [of E "er_marks E"] by auto

lemma quiet_ask: "quiet E (post_state (engine_ask H name decide request E))"
proof (cases "decide request (er_provider E)")
  case (Pair reply p)
  have "quiet E (post_state (raising (engine_answer reply) (E\<lparr>er_provider := p\<rparr>) (\<lambda>response.
      Return () (decided H name request reply response (E\<lparr>er_provider := p\<rparr>)))))"
    by (rule raising_post [where Q = "quiet E"])
      (simp_all add: quiet_trans [OF quiet_updates(1) quiet_updates(4)])
  then show ?thesis by (simp add: engine_ask_def Pair)
qed

lemma quiet_decide: "quiet E (post_state (engine_decide H name decide EN close_time E))"
  unfolding engine_decide_def
  by (rule and_then_post [where Q = "quiet E"]) (auto intro: quiet_request quiet_trans [OF _ quiet_ask])

lemma execute_sound:
  assumes "costs_ok (sc_costs config)" "fair_prices prices" "sound_run E"
  shows "sound_run (post_state (engine_execute config pending prices E))"
proof -
  have s: "sound_portfolio (er_portfolio E)" using assms(3) by (simp add: sound_run_def)
  note a = action_outcome(1) [OF assms(1,2) s, of pending]
  show ?thesis
    using a assms(3) unfolding engine_execute_def Let_def
    by (cases "execute_action config pending prices (er_portfolio E)") (auto simp: sound_run_def split: prod.split)
qed

lemma execute_accounted:
  assumes "costs_ok (sc_costs config)" "fair_prices prices" "sound_run E" "accounted m E"
    and run: "engine_execute config pending prices E = Return u E'"
  shows "accounted m E'"
proof (cases "dn_action (pd_response pending) = HOLD")
  case True
  then show ?thesis using assms(4) run by (auto simp: engine_execute_def Let_def accounted_def)
next
  case False
  have s: "sound_portfolio (er_portfolio E)" using assms(3) by (simp add: sound_run_def)
  note a = action_outcome(2,3) [OF assms(1,2) s]
  show ?thesis
  proof (cases "execute_action config pending prices (er_portfolio E)")
    case (Return result P)
    obtain fills fails where r: "result = (fills, fails)" by (cases result)
    show ?thesis using a(1) [OF Return [unfolded r]] assms(4) run False
      by (auto simp: engine_execute_def Let_def Return r accounted_def)
  next
    case (Raise e P)
    then have e: "rejection e" and E': "E' = E\<lparr>er_portfolio := P, er_failures := er_failures E @ [e],
        er_orders := er_orders E @ [order_of pending REJECTED_ORDER (Inr e)]\<rparr>"
      using run False by (simp_all add: engine_execute_def Let_def split: if_splits)
    have "P = er_portfolio E \<or> lost_sale (order_of pending REJECTED_ORDER (Inr e))"
      using a(2) [OF Raise] e by (auto simp: lost_sale_def order_of_def Let_def)
    then show ?thesis using assms(4) unfolding E' accounted_def by auto
  qed
qed

lemma snapshot_view:
  assumes "portfolio_snapshot prices P = Return view P'" "sound_portfolio P"
  shows "sound_view view"
  using assms by (auto simp: portfolio_snapshot_def Let_def sound_view_def sound_state_def assert_invariants_def split: if_splits)

definition fair_groups :: "(int, candle list) dict \<Rightarrow> bool" where
  "fair_groups grouped \<longleftrightarrow> (\<forall>t. \<forall>c \<in> set (get_or grouped t []). 0 \<le> cn_open c)"

lemma opens_fair: "fair_groups grouped \<Longrightarrow> fair_prices (map (\<lambda>c. (cn_symbol c, cn_open c)) (sort_key cn_symbol (get_or grouped t [])))"
  by (auto simp: fair_prices_def fair_groups_def)

lemma due_sound:
  assumes "costs_ok (sc_costs config)" "fair_prices (map (\<lambda>c. (cn_symbol c, cn_open c)) current)" "sound_run E"
  shows "sound_run (post_state (execute_due config t current E))"
proof (cases "er_pending E")
  case (Some d)
  have e: "sound_run (post_state (engine_execute config d (map (\<lambda>c. (cn_symbol c, cn_open c)) current) E))"
    by (rule execute_sound [OF assms])
  have "sound_run (post_state (and_then (engine_execute config d (map (\<lambda>c. (cn_symbol c, cn_open c)) current) E)
      (\<lambda>_ E1. Return () (E1\<lparr>er_pending := None\<rparr>))))"
    by (rule and_then_post [where Q = sound_run]) (use e in \<open>simp_all add: sound_run_def\<close>)
  then show ?thesis using Some assms(3) by (simp add: execute_due_def)
qed (use assms(3) in \<open>simp add: execute_due_def\<close>)

lemma due_accounted:
  assumes "costs_ok (sc_costs config)" "fair_prices (map (\<lambda>c. (cn_symbol c, cn_open c)) current)" "sound_run E" "accounted m E"
    and "execute_due config t current E = Return u E'"
  shows "accounted m E'"
  using assms(4,5) execute_accounted [OF assms(1-4)]
  by (auto simp: execute_due_def accounted_def split: option.splits if_splits)

lemma snapshot_step:
  assumes "on_portfolio (portfolio_snapshot prices) E = Return view E'" "sound_run E"
  shows "sound_run (record_equity close_time view E')" "accounted m E \<Longrightarrow> accounted m (record_equity close_time view E')"
proof -
  obtain P where P: "portfolio_snapshot prices (er_portfolio E) = Return view P" "E' = E\<lparr>er_portfolio := P\<rparr>"
    using assms(1) by auto
  have q: "quiet E E'" using quiet_snapshot [of E prices] P by simp
  have v: "sound_view view" using snapshot_view [OF P(1)] assms(2) by (simp add: sound_run_def)
  show "sound_run (record_equity close_time view E')"
    using quiet_sound [OF q assms(2)] v by (simp add: sound_run_def record_equity_def)
  show "accounted m E \<Longrightarrow> accounted m (record_equity close_time view E')"
    using quiet_accounted [OF q] by (simp add: accounted_def record_equity_def)
qed

lemma step_sound:
  fixes E :: "'p engine_run"
  assumes fair: "costs_ok (sc_costs (se_config EN))" "fair_groups grouped" and sound: "sound_run E"
  shows "sound_run (post_state (history_step H name decide EN grouped t E))"
  unfolding history_step_def Let_def
proof (rule and_then_post [where Q = sound_run])
  show "sound_run (post_state (execute_due (se_config EN) t (sort_key cn_symbol (get_or grouped t [])) E))"
    by (rule due_sound [OF fair(1) opens_fair [OF fair(2)] sound])
next
  let ?current = "sort_key cn_symbol (get_or grouped t [])"
  fix u :: unit and E1 :: "'p engine_run" assume E1: "sound_run E1"
  let ?E2 = "mark_to_close ?current E1"
  have E2: "sound_run ?E2" by (rule quiet_sound [OF quiet_updates(3) E1])
  show "sound_run (post_state (and_then (on_portfolio (portfolio_snapshot (er_marks ?E2)) ?E2) (\<lambda>view E3.
      if \<not> decision_due (close_of ?current + 1) then Return () (record_equity (close_of ?current) view E3)
      else engine_decide H name decide EN (close_of ?current) (record_equity (close_of ?current) view E3))))"
  proof (rule and_then_post [where Q = sound_run])
    show "sound_run (post_state (on_portfolio (portfolio_snapshot (er_marks ?E2)) ?E2))"
      using quiet_sound [OF quiet_snapshot E2] by simp
  next
    fix view and E3 :: "'p engine_run" assume "on_portfolio (portfolio_snapshot (er_marks ?E2)) ?E2 = Return view E3"
    note s = snapshot_step(1) [OF this E2]
    show "sound_run (post_state (if \<not> decision_due (close_of ?current + 1) then Return () (record_equity (close_of ?current) view E3)
        else engine_decide H name decide EN (close_of ?current) (record_equity (close_of ?current) view E3)))"
      using s quiet_sound [OF quiet_decide s] by simp
  qed
qed

lemma step_path:
  assumes "history_step H name decide EN grouped t E = Return u E'"
  defines "current \<equiv> sort_key cn_symbol (get_or grouped t [])"
  obtains E1 view E3 where "execute_due (se_config EN) t current E = Return () E1"
    "on_portfolio (portfolio_snapshot (er_marks (mark_to_close current E1))) (mark_to_close current E1) = Return view E3"
    "if decision_due (close_of current + 1)
     then engine_decide H name decide EN (close_of current) (record_equity (close_of current) view E3) = Return () E'
     else E' = record_equity (close_of current) view E3"
proof -
  obtain v E1 where E1: "execute_due (se_config EN) t current E = Return v E1"
    "and_then (on_portfolio (portfolio_snapshot (er_marks (mark_to_close current E1))) (mark_to_close current E1)) (\<lambda>view E3.
        if \<not> decision_due (close_of current + 1) then Return () (record_equity (close_of current) view E3)
        else engine_decide H name decide EN (close_of current) (record_equity (close_of current) view E3)) = Return u E'"
    using assms(1) unfolding history_step_def Let_def current_def [symmetric] by (auto simp only: and_then_Return)
  then obtain view E3 where
    "on_portfolio (portfolio_snapshot (er_marks (mark_to_close current E1))) (mark_to_close current E1) = Return view E3"
    "(if \<not> decision_due (close_of current + 1) then Return () (record_equity (close_of current) view E3)
        else engine_decide H name decide EN (close_of current) (record_equity (close_of current) view E3)) = Return u E'"
    by (auto simp only: and_then_Return)
  then show thesis using E1(1) that by (auto split: if_splits)
qed

lemma step_accounted:
  assumes fair: "costs_ok (sc_costs (se_config EN))" "fair_groups grouped" and inv: "sound_run E" "accounted m E"
    and run: "history_step H name decide EN grouped t E = Return u E'"
  shows "accounted m E'"
proof -
  let ?current = "sort_key cn_symbol (get_or grouped t [])"
  obtain E1 view E3 where E1: "execute_due (se_config EN) t ?current E = Return () E1"
    and view: "on_portfolio (portfolio_snapshot (er_marks (mark_to_close ?current E1))) (mark_to_close ?current E1) = Return view E3"
    and E': "if decision_due (close_of ?current + 1)
     then engine_decide H name decide EN (close_of ?current) (record_equity (close_of ?current) view E3) = Return () E'
     else E' = record_equity (close_of ?current) view E3"
    using run by (rule step_path)
  note f = opens_fair [OF fair(2), of t]
  have "sound_run E1" using due_sound [OF fair(1) f inv(1), of t] E1 by simp
  then have E2: "sound_run (mark_to_close ?current E1)" by (rule quiet_sound [OF quiet_updates(3)])
  have "accounted m (mark_to_close ?current E1)"
    using due_accounted [OF fair(1) f inv E1] by (rule quiet_accounted [OF quiet_updates(3)])
  note a = snapshot_step(2) [OF view E2 this, of "close_of ?current"]
  show ?thesis
    using E' a quiet_accounted [OF quiet_decide a, of H name decide EN "close_of ?current"] by (auto split: if_splits)
qed

interpretation portfolio_steps: robust_ops "history_step H name decide EN grouped"
    "\<lambda>E. costs_ok (sc_costs (se_config EN)) \<and> fair_groups grouped \<and> sound_run E" for H name decide EN grouped
proof (unfold_locales, goal_cases)
  case (1 E t r E')
  then show ?case using step_sound [of EN grouped E H name decide t] by simp
next
  case (2 E t e E')
  then show ?case using step_sound [of EN grouped E H name decide t] by simp
qed

interpretation accounted_steps: invariant_ops "history_step H name decide EN grouped"
    "\<lambda>E. costs_ok (sc_costs (se_config EN)) \<and> fair_groups grouped \<and> sound_run E \<and> accounted m E" for H name decide EN grouped m
proof (unfold_locales, goal_cases)
  case (1 E t r E')
  then show ?case using portfolio_steps.inv_return [of EN grouped E H name decide t r E'] step_accounted by blast
qed

end
