(* ===== verification/Hist_Causal.thy ===== *)
theory Hist_Causal
  imports Hist_Engine_Inv
begin

text \<open>
  A run does not look ahead: two engines whose data agree up to a time take the same steps up to
  that time, and every later step only adds records of later times.
\<close>

section \<open>Equal views of the past\<close>

lemma checked_candle: "check_candle c = Inr () \<Longrightarrow> cn_open_time c < cn_close_time c \<and> cn_close_time c \<le> cn_available_at c \<and> 0 \<le> cn_open c"
  by (auto simp: check_candle_def split: if_splits)

definition same_candles :: "int \<Rightarrow> candle list \<Rightarrow> candle list \<Rightarrow> bool" where
  "same_candles B cs ds \<longleftrightarrow> filter (\<lambda>c. cn_open_time c \<le> B) cs = filter (\<lambda>c. cn_open_time c \<le> B) ds"

lemma same_candles_filter:
  assumes "same_candles B cs ds" "\<And>c. c \<in> set cs \<union> set ds \<Longrightarrow> P c \<Longrightarrow> cn_open_time c \<le> B"
  shows "filter P cs = filter P ds"
proof -
  have "filter P xs = filter P (filter (\<lambda>c. cn_open_time c \<le> B) xs)" if "\<And>c. c \<in> set xs \<Longrightarrow> P c \<Longrightarrow> cn_open_time c \<le> B" for xs
    unfolding filter_filter using that by (intro filter_cong) auto
  from this [of cs] this [of ds] show ?thesis using assms unfolding same_candles_def by auto
qed

lemma visible_agree:
  assumes valid: "\<forall>c \<in> set cs \<union> set ds. check_candle c = Inr ()" and same: "same_candles B cs ds" and cutoff: "cutoff \<le> B"
  shows "visible_candles s t (Some cutoff) lookback (new_market cs) = visible_candles s t (Some cutoff) lookback (new_market ds)"
proof -
  let ?P = "\<lambda>c. cn_available_at c \<le> cutoff \<and> lower_ok (lower_bound_of cutoff lookback) c"
  have "filter (\<lambda>c. ?P c \<and> cn_symbol c = s) cs = filter (\<lambda>c. ?P c \<and> cn_symbol c = s) ds"
    using same
  proof (rule same_candles_filter)
    fix c assume c: "c \<in> set cs \<union> set ds" "?P c \<and> cn_symbol c = s"
    then show "cn_open_time c \<le> B" using checked_candle [of c] valid cutoff by force
  qed
  then have "filter ?P (candles_of s cs) = filter ?P (candles_of s ds)"
    by (simp add: candles_of_def filter_sort conj_commute)
  then show ?thesis unfolding visible_is_filter by simp
qed

definition same_complementary :: "int \<Rightarrow> (news_record list \<times> signal_record list) option \<Rightarrow> (news_record list \<times> signal_record list) option \<Rightarrow> bool" where
  "same_complementary B x y \<longleftrightarrow>
     map_option (\<lambda>(news, signals). visible_complementary news signals B) x =
     map_option (\<lambda>(news, signals). visible_complementary news signals B) y"

lemma complementary_agree:
  assumes "same_complementary B x y" "cutoff \<le> B"
  shows "map_option (\<lambda>(news, signals). visible_complementary news signals cutoff) x =
     map_option (\<lambda>(news, signals). visible_complementary news signals cutoff) y"
proof -
  have nested: "filter (\<lambda>x. f x \<le> cutoff) xs = filter (\<lambda>x. f x \<le> cutoff) (filter (\<lambda>x. f x \<le> B) xs)" for f :: "'x \<Rightarrow> int" and xs
    unfolding filter_filter using assms(2) by (intro filter_cong) auto
  let ?cut = "\<lambda>v. (filter (\<lambda>n. nw_first_seen_at n \<le> cutoff) (fst v), filter (\<lambda>s. sg_available_at s \<le> cutoff) (snd v))"
  have "map_option (\<lambda>(news, signals). visible_complementary news signals cutoff) z =
      map_option ?cut (map_option (\<lambda>(news, signals). visible_complementary news signals B) z)" for z
    by (cases z) (auto simp: visible_complementary_def nested [symmetric] simp del: filter_filter)
  then show ?thesis using assms(1) unfolding same_complementary_def by simp
qed

text \<open>
  Two engines with the same past: the same configuration and symbols, the same candles and
  complementary records up to a horizon, and every candle that opens by \<open>T\<close> closes by the horizon.
\<close>

definition same_past :: "int \<Rightarrow> int \<Rightarrow> sim_engine \<Rightarrow> sim_engine \<Rightarrow> bool" where
  "same_past T B EN EN' \<longleftrightarrow>
     T \<le> B \<and> se_config EN = se_config EN' \<and> market_symbols (se_market EN) = market_symbols (se_market EN') \<and>
     same_candles B (se_candles EN) (se_candles EN') \<and> same_complementary B (se_complementary EN) (se_complementary EN') \<and>
     (\<forall>c \<in> set (se_candles EN). cn_open_time c \<le> T \<longrightarrow> cn_close_time c \<le> B)"

definition proper_engine :: "sim_engine \<Rightarrow> bool" where
  "proper_engine EN \<longleftrightarrow> se_market EN = new_market (se_candles EN) \<and> (\<forall>c \<in> set (se_candles EN). check_candle c = Inr ())"

lemma new_engine_fields:
  "new_engine cs config complementary = Inr EN \<Longrightarrow>
     se_candles EN = cs \<and> se_config EN = config \<and> se_complementary EN = complementary \<and> se_market EN = new_market cs"
  by (auto simp: new_engine_def on_ok_Inr split: if_splits)

lemma request_agree:
  assumes "same_past T B EN EN'" "proper_engine EN" "proper_engine EN'" "cutoff \<le> B"
  shows "build_request EN t cutoff E = build_request EN' t cutoff E"
proof -
  have valid: "\<forall>c \<in> set (se_candles EN) \<union> set (se_candles EN'). check_candle c = Inr ()"
    using assms(2,3) by (auto simp: proper_engine_def)
  have same: "same_candles B (se_candles EN) (se_candles EN')" using assms(1) by (simp add: same_past_def)
  have "symbol_context (se_market EN) t cutoff = symbol_context (se_market EN') t cutoff"
    using assms(2,3) visible_agree [OF valid same assms(4)]
    by (intro ext) (simp add: symbol_context_def proper_engine_def)
  moreover have "request_of EN t cutoff = request_of EN' t cutoff"
    using assms(1) complementary_agree [OF _ assms(4)] by (intro ext) (simp add: request_of_def same_past_def)
  ultimately show ?thesis using assms(1) by (simp add: build_request_def same_past_def)
qed

definition group_at :: "sim_engine \<Rightarrow> int \<Rightarrow> candle list" where
  "group_at EN t = filter (\<lambda>c. cn_open_time c = t) (se_candles EN)"

lemma close_of_group:
  assumes "t \<in> set (event_times EN)" "proper_engine EN"
  shows "t < close_of (sort_key cn_symbol (group_at EN t))"
    and "(\<And>c. c \<in> set (se_candles EN) \<Longrightarrow> cn_open_time c = t \<Longrightarrow> cn_close_time c \<le> B) \<Longrightarrow>
       close_of (sort_key cn_symbol (group_at EN t)) \<le> B"
proof -
  let ?S = "set (map cn_close_time (sort_key cn_symbol (group_at EN t)))"
  obtain c where c: "c \<in> set (se_candles EN)" "cn_open_time c = t" using assms(1) by (auto simp: event_times_def)
  then have "cn_close_time c \<in> ?S" by (simp add: group_at_def)
  then have "cn_close_time c \<le> Max ?S" by (intro Max_ge) simp_all
  moreover have "t < cn_close_time c" using c assms(2) checked_candle by (auto simp: proper_engine_def)
  ultimately show "t < close_of (sort_key cn_symbol (group_at EN t))" unfolding close_of_def by linarith
  assume b: "\<And>c. c \<in> set (se_candles EN) \<Longrightarrow> cn_open_time c = t \<Longrightarrow> cn_close_time c \<le> B"
  have "?S \<noteq> {}" using \<open>cn_close_time c \<in> ?S\<close> by (metis empty_iff)
  then show "close_of (sort_key cn_symbol (group_at EN t)) \<le> B"
    unfolding close_of_def by (subst Max_le_iff) (use b in \<open>auto simp: group_at_def\<close>)
qed

lemma step_agree:
  assumes past: "same_past T B EN EN'" and proper: "proper_engine EN" "proper_engine EN'"
    and t: "t \<in> set (event_times EN)" "t \<le> T"
  shows "step_of H name decide EN t E = step_of H name decide EN' t E"
proof -
  have config: "se_config EN = se_config EN'" using past by (simp add: same_past_def)
  have group: "get_or (group_by cn_open_time (se_candles EN)) t [] = group_at EN t" by (simp add: group_by_get group_at_def)
  have group': "get_or (group_by cn_open_time (se_candles EN')) t [] = group_at EN t"
    unfolding group_by_get group_at_def
    by (rule same_candles_filter [of B, symmetric]) (use past t(2) in \<open>auto simp: same_past_def\<close>)
  have close: "close_of (sort_key cn_symbol (group_at EN t)) \<le> B"
    using close_of_group(2) [OF t(1) proper(1)] past t(2) by (simp add: same_past_def)
  have decide: "engine_decide H name decide EN (close_of (sort_key cn_symbol (group_at EN t))) =
      engine_decide H name decide EN' (close_of (sort_key cn_symbol (group_at EN t)))"
    by (intro ext) (simp add: engine_decide_def request_agree [OF past proper close])
  show ?thesis unfolding history_step_def Let_def group group' config decide ..
qed

section \<open>Later steps add later records\<close>

definition past_of :: "int \<Rightarrow> 'p engine_run \<Rightarrow>
    decision_entry list \<times> order_entry list \<times> spot_fill list \<times> (int \<times> portfolio_view) list" where
  "past_of T E =
     (filter (\<lambda>d. de_until d \<le> T) (er_decisions E), filter (\<lambda>oe. oe_time oe \<le> T) (er_orders E),
      filter (\<lambda>f. sf_time f \<le> T) (er_fills E), filter (\<lambda>row. fst row \<le> T) (er_equity E))"

lemma rotate_fills:
  assumes "portfolio_rotate x y ps a t c ms P = Return (fills, fails) P'"
  shows "\<exists>p f P1. portfolio_sell x p t c P = Return f P1 \<and>
     (fills = [f] \<or> (\<exists>q g. portfolio_buy y q a t c ps (get_or ms y 0) P1 = Return g P' \<and> fills = [f, g]))"
proof -
  obtain p f P1 q where p: "portfolio_sell x p t c P = Return f P1"
    and rest: "(case portfolio_buy y q a t c ps (get_or ms y 0) P1 of
        Return fill P2 \<Rightarrow> Return ([f, fill], []) P2
      | Raise e P2 \<Rightarrow> (case e of ValueError m \<Rightarrow> Return ([f], [e]) P2 | _ \<Rightarrow> Raise e P2)) = Return (fills, fails) P'"
    using assms by (auto simp: portfolio_rotate_def)
  show ?thesis
  proof (cases "portfolio_buy y q a t c ps (get_or ms y 0) P1")
    case (Return g P2)
    then have "fills = [f, g]" "P2 = P'" using rest by simp_all
    then show ?thesis using p Return by blast
  next
    case (Raise e P2)
    then have "fills = [f]" using rest by (cases e) simp_all
    then show ?thesis using p by blast
  qed
qed

lemma action_times:
  assumes "execute_action config d prices P = Return (fills, fails) P'" "f \<in> set fills"
  shows "sf_time f = pd_execute_at d"
proof -
  have b: "portfolio_buy s m a t c ms mn Q = Return g Q' \<Longrightarrow> sf_time g = t" for s m a t c ms mn Q g Q'
    by (erule buy_cases)
  have s: "portfolio_sell s m t c Q = Return g Q' \<Longrightarrow> sf_time g = t" for s m t c Q g Q' by (erule sell_cases)
  have r: "portfolio_rotate x y ps a t c ms Q = Return (gs, hs) Q' \<Longrightarrow> g \<in> set gs \<Longrightarrow> sf_time g = t"
    for x y ps a t c ms Q gs hs Q' g
    by (drule rotate_fills) (auto dest: b s)
  show ?thesis using assms by (cases "dn_action (pd_response d)")
      (auto simp: execute_action_def Let_def dest: b s r split: option.splits if_splits)
qed

lemma execute_past:
  assumes "engine_execute config d prices E = Return u E'" "T < pd_execute_at d"
  shows "past_of T E' = past_of T E"
proof (cases "execute_action config d prices (er_portfolio E)")
  case (Return result P)
  obtain fills fails where r: "result = (fills, fails)" by (cases result)
  have "filter (\<lambda>f. sf_time f \<le> T) fills = []"
    using action_times [OF Return [unfolded r]] assms(2) by (auto simp: filter_empty_conv)
  then show ?thesis using assms
    by (auto simp: engine_execute_def Let_def Return r past_of_def order_of_def split: if_splits)
next
  case (Raise e P)
  then show ?thesis using assms by (auto simp: engine_execute_def Let_def past_of_def order_of_def split: if_splits)
qed

lemma due_past:
  assumes "execute_due config t current E = Return u E'" "T < t"
  shows "past_of T E' = past_of T E"
proof (cases "er_pending E")
  case (Some d)
  show ?thesis
  proof (cases "pd_execute_at d = t")
    case True
    then obtain v E1 where "engine_execute config d (map (\<lambda>c. (cn_symbol c, cn_open c)) current) E = Return v E1"
      "E' = E1\<lparr>er_pending := None\<rparr>" using assms(1) Some by (auto simp: execute_due_def)
    then show ?thesis using execute_past [of config d _ E v E1 T] assms(2) True by (simp add: past_of_def)
  qed (use assms(1) Some in \<open>simp add: execute_due_def\<close>)
qed (use assms(1) in \<open>simp add: execute_due_def\<close>)

lemma decide_past:
  assumes "engine_decide H name decide EN close_time E = Return u E'" "T < close_time"
  shows "past_of T E' = past_of T E"
proof -
  obtain request E1 where E1: "build_request EN (close_time + 1) close_time E = Return request E1"
    "engine_ask H name decide request E1 = Return u E'" using assms(1) by (auto simp: engine_decide_def)
  have "rq_until request = close_time"
    using E1(1) by (auto simp: build_request_def Let_def request_of_def)
  then have "past_of T E' = past_of T E1"
    using E1(2) assms(2) by (auto simp: engine_ask_def decided_def past_of_def split: prod.splits)
  moreover obtain P where "E1 = E\<lparr>er_portfolio := P\<rparr>"
    using build_request_post [of EN "close_time + 1" close_time E] E1(1) by auto
  ultimately show ?thesis by (simp add: past_of_def)
qed

lemma step_past:
  assumes "step_of H name decide EN t E = Return u E'" "T < t" "t \<in> set (event_times EN)" "proper_engine EN"
  shows "past_of T E' = past_of T E"
proof -
  let ?current = "sort_key cn_symbol (get_or (group_by cn_open_time (se_candles EN)) t [])"
  have c: "?current = sort_key cn_symbol (group_at EN t)" by (simp add: group_by_get group_at_def)
  have late: "T < close_of ?current" using close_of_group(1) [OF assms(3,4)] assms(2) unfolding c by simp
  obtain E1 view E3 where p: "execute_due (se_config EN) t ?current E = Return () E1"
    "on_portfolio (portfolio_snapshot (er_marks (mark_to_close ?current E1))) (mark_to_close ?current E1) = Return view E3"
    "if decision_due (close_of ?current + 1)
     then engine_decide H name decide EN (close_of ?current) (record_equity (close_of ?current) view E3) = Return () E'
     else E' = record_equity (close_of ?current) view E3"
    using assms(1) by (rule step_path)
  have "past_of T E1 = past_of T E" using due_past [OF p(1) assms(2)] .
  moreover have "past_of T (record_equity (close_of ?current) view E3) = past_of T E1"
    using p(2) late by (auto simp: past_of_def record_equity_def mark_to_close_def)
  moreover have "past_of T E' = past_of T (record_equity (close_of ?current) view E3)"
    using p(3) decide_past late by (auto split: if_splits)
  ultimately show ?thesis by simp
qed

lemma run_past:
  assumes "run_ops (step_of H name decide EN) ts E = Return us E'" "\<forall>t \<in> set ts. T < t \<and> t \<in> set (event_times EN)"
    and "proper_engine EN"
  shows "past_of T E' = past_of T E"
  using assms(1,2)
proof (induction ts arbitrary: E us)
  case (Cons t ts)
  then obtain u E1 vs where "step_of H name decide EN t E = Return u E1" "run_ops (step_of H name decide EN) ts E1 = Return vs E'"
    by auto
  then show ?case using Cons.IH [of E1 vs] step_past [of H name decide EN t E u E1 T] Cons.prems(2) assms(3) by simp
qed simp

section \<open>No look-ahead\<close>

lemma split_sorted: "sorted xs \<Longrightarrow> xs = filter (\<lambda>x. x \<le> T) xs @ filter (\<lambda>x. \<not> x \<le> T) xs"
proof (induction xs)
  case (Cons x xs)
  show ?case
  proof (cases "x \<le> T")
    case False
    then have "filter (\<lambda>x. x \<le> T) xs = []" using Cons.prems by (auto simp: filter_empty_conv)
    then have "filter (\<lambda>x. \<not> x \<le> T) xs = xs" by (auto simp: filter_empty_conv filter_id_conv)
    then show ?thesis using False \<open>filter (\<lambda>x. x \<le> T) xs = []\<close> by simp
  qed (use Cons in simp)
qed simp

lemma early_times:
  assumes "same_past T B EN EN'"
  shows "filter (\<lambda>t. t \<le> T) (event_times EN) = filter (\<lambda>t. t \<le> T) (event_times EN')"
proof (rule sorted_distinct_set_unique)
  have "filter (\<lambda>c. cn_open_time c \<le> T) (se_candles EN) = filter (\<lambda>c. cn_open_time c \<le> T) (se_candles EN')"
    by (rule same_candles_filter [of B]) (use assms in \<open>auto simp: same_past_def\<close>)
  from arg_cong [OF this, of "\<lambda>cs. cn_open_time ` set cs"]
  show "set (filter (\<lambda>t. t \<le> T) (event_times EN)) = set (filter (\<lambda>t. t \<le> T) (event_times EN'))"
    by (auto simp: event_times_def image_iff set_eq_iff)
qed (simp_all add: event_times_def sorted_wrt_filter)

lemma loops_agree:
  assumes past: "same_past T B EN EN'" and proper: "proper_engine EN" "proper_engine EN'"
    and runs: "event_loop_of H name decide EN E = Return u E1" "event_loop_of H name decide EN' E = Return u' E2"
  shows "past_of T E1 = past_of T E2"
proof -
  let ?early = "\<lambda>EN. filter (\<lambda>t. t \<le> T) (event_times EN)" and ?late = "\<lambda>EN. filter (\<lambda>t. \<not> t \<le> T) (event_times EN)"
  have split: "event_times X = ?early X @ ?late X" for X by (rule split_sorted) (simp add: event_times_def)
  obtain rs where run: "run_ops (step_of H name decide EN) (?early EN @ ?late EN) E = Return rs E1"
    using runs(1) unfolding event_loop_run split [of EN, symmetric] by auto
  then obtain qs M ps where M: "run_ops (step_of H name decide EN) (?early EN) E = Return qs M"
    "run_ops (step_of H name decide EN) (?late EN) M = Return ps E1" using run_ops_append [OF run] by blast
  obtain rs' where run': "run_ops (step_of H name decide EN') (?early EN' @ ?late EN') E = Return rs' E2"
    using runs(2) unfolding event_loop_run split [of EN', symmetric] by auto
  then obtain qs' M' ps' where M': "run_ops (step_of H name decide EN') (?early EN') E = Return qs' M'"
    "run_ops (step_of H name decide EN') (?late EN') M' = Return ps' E2" using run_ops_append [OF run'] by blast
  have "run_ops (step_of H name decide EN) (?early EN) E = run_ops (step_of H name decide EN') (?early EN) E"
    by (rule run_ops_cong) (use step_agree [OF past proper] in auto)
  then have "M = M'" using M(1) M'(1) early_times [OF past] by simp
  moreover have "past_of T E1 = past_of T M" by (rule run_past [OF M(2) _ proper(1)]) auto
  moreover have "past_of T E2 = past_of T M'" by (rule run_past [OF M'(2) _ proper(2)]) auto
  ultimately show ?thesis by simp
qed

end
