(* ===== verification/Hist_Replay.thy ===== *)
theory Hist_Replay
  imports Hist_Causal
begin

text \<open>
  A provider only reaches the engine through its answers: two providers that answer alike give the
  same run. A replay of what a recorder recorded answers alike, so it reproduces the recorded run.
\<close>

section \<open>The engine is a function of the answers\<close>

definition rebase :: "'q \<Rightarrow> 'p engine_run \<Rightarrow> 'q engine_run" where
  "rebase q E =
     \<lparr>er_portfolio = er_portfolio E, er_provider = q, er_pending = er_pending E, er_marks = er_marks E,
      er_decisions = er_decisions E, er_orders = er_orders E, er_fills = er_fills E, er_equity = er_equity E,
      er_failures = er_failures E\<rparr>"

fun lift_state :: "('s \<Rightarrow> 't) \<Rightarrow> ('a, 's) outcome \<Rightarrow> ('a, 't) outcome" where
  "lift_state f (Return r s) = Return r (f s)"
| "lift_state f (Raise e s) = Raise e (f s)"

lemma rebase_fields [simp]:
  "er_portfolio (rebase q E) = er_portfolio E" "er_provider (rebase q E) = q" "er_pending (rebase q E) = er_pending E"
  "er_marks (rebase q E) = er_marks E" "er_decisions (rebase q E) = er_decisions E" "er_orders (rebase q E) = er_orders E"
  "er_fills (rebase q E) = er_fills E" "er_equity (rebase q E) = er_equity E" "er_failures (rebase q E) = er_failures E"
  by (simp_all add: rebase_def)

lemma rebase_updates:
  "(rebase q E)\<lparr>er_portfolio := P\<rparr> = rebase q (E\<lparr>er_portfolio := P\<rparr>)"
  "(rebase q E)\<lparr>er_provider := q'\<rparr> = rebase q' E"
  "(rebase q E)\<lparr>er_pending := d\<rparr> = rebase q (E\<lparr>er_pending := d\<rparr>)"
  "rebase q (E\<lparr>er_provider := p\<rparr>) = rebase q E"
  "rebase q (decided H name request reply response (E\<lparr>er_provider := p\<rparr>)) = rebase q (decided H name request reply response E)"
  "mark_to_close current (rebase q E) = rebase q (mark_to_close current E)"
  "record_equity t view (rebase q E) = rebase q (record_equity t view E)"
  "decided H name request reply response (rebase q E) = rebase q (decided H name request reply response E)"
  by (simp_all add: rebase_def mark_to_close_def record_equity_def decided_def)

lemma on_portfolio_rebase: "on_portfolio m (rebase q E) = lift_state (rebase q) (on_portfolio m E)"
  by (cases "m (er_portfolio E)") (simp_all add: on_portfolio_def rebase_updates)

lemma execute_rebase: "engine_execute config d prices (rebase q E) = lift_state (rebase q) (engine_execute config d prices E)"
proof (cases "execute_action config d prices (er_portfolio E)")
  case (Return result P)
  obtain fills fails where "result = (fills, fails)" by (cases result)
  then show ?thesis using Return by (simp add: engine_execute_def Let_def rebase_def)
next
  case (Raise e P)
  then show ?thesis by (simp add: engine_execute_def Let_def rebase_def)
qed

lemma due_rebase: "execute_due config t current (rebase q E) = lift_state (rebase q) (execute_due config t current E)"
proof (cases "er_pending E")
  case (Some d)
  then show ?thesis
    by (cases "engine_execute config d (map (\<lambda>c. (cn_symbol c, cn_open c)) current) E")
      (simp_all add: execute_due_def execute_rebase rebase_updates)
qed (simp add: execute_due_def)

lemma request_rebase: "build_request EN t cutoff (rebase q E) = lift_state (rebase q) (build_request EN t cutoff E)"
proof (cases "traverse (symbol_context (se_market EN) t cutoff) (market_symbols (se_market EN))")
  case (Inr symbols)
  then show ?thesis
  proof (cases "on_portfolio (portfolio_snapshot (er_marks E)) E")
    case (Return view E1)
    then show ?thesis using Inr
      by (cases "check_request (request_of EN t cutoff symbols view)")
        (simp_all only: build_request_def raising_def sum.case rebase_fields on_portfolio_rebase Return lift_state.simps and_then.simps Let_def)
  next
    case (Raise e E1)
    then show ?thesis using Inr
      by (simp only: build_request_def raising_def sum.case rebase_fields on_portfolio_rebase Raise lift_state.simps and_then.simps)
  qed
qed (simp add: build_request_def raising_def)

text \<open>What neither executing, marking nor asking changes: the provider.\<close>

lemma execute_provider: "engine_execute config d prices E = Return u E' \<Longrightarrow> er_provider E' = er_provider E"
  by (cases "execute_action config d prices (er_portfolio E)")
    (auto simp: engine_execute_def Let_def split: if_splits prod.splits)

lemma due_provider: "execute_due config t current E = Return u E' \<Longrightarrow> er_provider E' = er_provider E"
  by (auto simp: execute_due_def split: option.splits if_splits dest: execute_provider)

lemma request_provider: "build_request EN t cutoff E = Return request E' \<Longrightarrow> er_provider E' = er_provider E"
  using build_request_post [of EN t cutoff E] by auto

section \<open>Simulation of providers\<close>

locale provider_simulation =
  fixes decide :: "'p decision_provider" and decide' :: "'q decision_provider"
    and good :: "'p \<Rightarrow> bool" and rel :: "'p \<Rightarrow> 'q \<Rightarrow> bool"
  assumes good_before: "decide request p = (reply, p1) \<Longrightarrow> good p1 \<Longrightarrow> good p"
    and same_answer: "rel p q \<Longrightarrow> decide request p = (reply, p1) \<Longrightarrow> engine_answer reply = Inr response \<Longrightarrow> good p1 \<Longrightarrow>
      \<exists>q1. decide' request q = (reply, q1) \<and> rel p1 q1"
begin

lemma decide_simulated:
  assumes run: "engine_decide H name decide EN close_time E = Return u E1" and good: "good (er_provider E1)"
  shows "good (er_provider E)"
    and "rel (er_provider E) q \<Longrightarrow>
      \<exists>q1. engine_decide H name decide' EN close_time (rebase q E) = Return u (rebase q1 E1) \<and> rel (er_provider E1) q1"
proof -
  obtain request M where M: "build_request EN (close_time + 1) close_time E = Return request M"
    "engine_ask H name decide request M = Return u E1" using run by (auto simp: engine_decide_def)
  obtain reply p1 where d: "decide request (er_provider M) = (reply, p1)" by (cases "decide request (er_provider M)")
  obtain response where a: "engine_answer reply = Inr response"
    and E1: "E1 = decided H name request reply response (M\<lparr>er_provider := p1\<rparr>)"
    using M(2) by (auto simp: engine_ask_def d)
  have p1: "er_provider E1 = p1" by (simp add: E1 decided_def)
  have same: "er_provider M = er_provider E" by (rule request_provider [OF M(1)])
  show "good (er_provider E)" using good_before [OF d] good p1 same by simp
  assume "rel (er_provider E) q"
  then obtain q1 where q1: "decide' request q = (reply, q1)" "rel p1 q1" using same_answer [OF _ d a] good p1 same by metis
  have "engine_decide H name decide' EN close_time (rebase q E) = engine_ask H name decide' request (rebase q M)"
    by (simp add: engine_decide_def request_rebase M(1))
  also have "\<dots> = Return u (rebase q1 E1)"
    by (simp add: engine_ask_def q1(1) a raising_def rebase_updates E1)
  finally show "\<exists>q1. engine_decide H name decide' EN close_time (rebase q E) = Return u (rebase q1 E1) \<and> rel (er_provider E1) q1"
    using q1(2) p1 by auto
qed

lemma step_simulated:
  assumes run: "history_step H name decide EN grouped t E = Return u E1" and good: "good (er_provider E1)"
  shows "good (er_provider E)"
    and "rel (er_provider E) q \<Longrightarrow>
      \<exists>q1. history_step H name decide' EN grouped t (rebase q E) = Return u (rebase q1 E1) \<and> rel (er_provider E1) q1"
proof -
  let ?current = "sort_key cn_symbol (get_or grouped t [])"
  obtain M view N where M: "execute_due (se_config EN) t ?current E = Return () M"
    and N: "on_portfolio (portfolio_snapshot (er_marks (mark_to_close ?current M))) (mark_to_close ?current M) = Return view N"
    and last: "if decision_due (close_of ?current + 1)
     then engine_decide H name decide EN (close_of ?current) (record_equity (close_of ?current) view N) = Return () E1
     else E1 = record_equity (close_of ?current) view N"
    using run by (rule step_path)
  have p: "er_provider (record_equity (close_of ?current) view N) = er_provider E"
    using due_provider [OF M] N by (auto simp: record_equity_def mark_to_close_def)
  show "good (er_provider E)"
    using decide_simulated(1) [of H name EN "close_of ?current" "record_equity (close_of ?current) view N" "()" E1] last good p
    by (auto split: if_splits)
  assume rel: "rel (er_provider E) q"
  have path: "history_step H name decide' EN grouped t (rebase q E) =
      (if \<not> decision_due (close_of ?current + 1) then Return () (rebase q (record_equity (close_of ?current) view N))
       else engine_decide H name decide' EN (close_of ?current) (rebase q (record_equity (close_of ?current) view N)))"
    unfolding history_step_def Let_def due_rebase M lift_state.simps and_then.simps rebase_updates rebase_fields
      on_portfolio_rebase N ..
  show "\<exists>q1. history_step H name decide' EN grouped t (rebase q E) = Return u (rebase q1 E1) \<and> rel (er_provider E1) q1"
  proof (cases "decision_due (close_of ?current + 1)")
    case True
    then have "engine_decide H name decide EN (close_of ?current) (record_equity (close_of ?current) view N) = Return u E1"
      using last by simp
    from decide_simulated(2) [OF this good, of q] show ?thesis using path True rel p by simp
  next
    case False
    then show ?thesis using path last rel p by auto
  qed
qed

lemma run_simulated:
  assumes "run_ops (history_step H name decide EN grouped) ts E = Return us E1" "good (er_provider E1)"
  shows "good (er_provider E)"
    and "rel (er_provider E) q \<Longrightarrow>
      \<exists>q1. run_ops (history_step H name decide' EN grouped) ts (rebase q E) = Return us (rebase q1 E1) \<and> rel (er_provider E1) q1"
proof -
  have *: "run_ops (history_step H name decide EN grouped) ts E = Return us E1 \<Longrightarrow> good (er_provider E) \<and>
      (rel (er_provider E) q \<longrightarrow> (\<exists>q1. run_ops (history_step H name decide' EN grouped) ts (rebase q E) = Return us (rebase q1 E1) \<and>
        rel (er_provider E1) q1))" for us E q
  proof (induction ts arbitrary: E us q)
    case Nil
    then show ?case using assms(2) by auto
  next
    case (Cons t ts)
    then obtain u M vs where M: "history_step H name decide EN grouped t E = Return u M"
      "run_ops (history_step H name decide EN grouped) ts M = Return vs E1" "us = u # vs" by auto
    note good = Cons.IH [OF M(2), THEN conjunct1]
    show ?case
    proof (intro conjI impI)
      show "good (er_provider E)" by (rule step_simulated(1) [OF M(1) good])
      assume "rel (er_provider E) q"
      then obtain q1 where q1: "history_step H name decide' EN grouped t (rebase q E) = Return u (rebase q1 M)" "rel (er_provider M) q1"
        using step_simulated(2) [OF M(1) good] by blast
      then obtain q2 where "run_ops (history_step H name decide' EN grouped) ts (rebase q1 M) = Return vs (rebase q2 E1)"
        "rel (er_provider E1) q2" using Cons.IH [OF M(2)] by blast
      then show "\<exists>q1. run_ops (history_step H name decide' EN grouped) (t # ts) (rebase q E) = Return us (rebase q1 E1) \<and>
          rel (er_provider E1) q1" using q1 M(3) by auto
    qed
  qed
  from * [OF assms(1)] show "good (er_provider E)" by blast
  from * [OF assms(1)] show "rel (er_provider E) q \<Longrightarrow>
      \<exists>q1. run_ops (history_step H name decide' EN grouped) ts (rebase q E) = Return us (rebase q1 E1) \<and> rel (er_provider E1) q1"
    by blast
qed

end

section \<open>Recording and replaying\<close>

definition never_fails :: "'d decision_provider \<Rightarrow> bool" where
  "never_fails decide \<longleftrightarrow> (\<forall>request d e. fst (decide request d) \<noteq> Failing e)"

definition recorded_so_far :: "decision_record list \<Rightarrow> 'd recorder \<Rightarrow> bool" where
  "recorded_so_far records R \<longleftrightarrow> (\<exists>rest. records = rr_records R @ rest)"

definition replays :: "decision_record list \<Rightarrow> 'd recorder \<Rightarrow> 'e recorder \<Rightarrow> bool" where
  "replays records R S \<longleftrightarrow>
     rr_mode R = RECORD_MODE \<and> rr_mode S = REPLAY_MODE \<and> rr_records S = records \<and> rr_index S = length (rr_records R)"

lemma recorder_appends:
  "recorder_decide hash delegate request R = (reply, R1) \<Longrightarrow> \<exists>new. rr_records R1 = rr_records R @ new"
  by (auto simp: recorder_decide_def replay_decide_def Let_def split: if_splits option.splits prod.splits provider_reply.splits)

lemma record_step:
  assumes "never_fails delegate" "rr_mode R = RECORD_MODE" "recorder_decide hash delegate request R = (reply, R1)"
    and "engine_answer reply = Inr response"
  obtains row where "rr_records R1 = rr_records R @ [row]" "rc_input_hash row = hash request"
    "reply = Instance (rc_response row)" "rr_mode R1 = RECORD_MODE"
proof (cases "rr_delegate R")
  case None
  then show ?thesis using assms(2-4) by (auto simp: recorder_decide_def engine_answer_def Let_def)
next
  case (Some d)
  obtain answer d' where a: "delegate request d = (answer, d')" by (cases "delegate request d")
  then have "answer \<noteq> Failing e" for e using assms(1) unfolding never_fails_def by (metis fst_conv)
  then show ?thesis using assms(2,3) Some a
    by (cases answer) (auto simp: recorder_decide_def Let_def intro!: that)
qed

interpretation replayed: provider_simulation "recorder_decide hash delegate" "recorder_decide hash other"
    "recorded_so_far records" "\<lambda>R S. never_fails delegate \<and> replays records R S"
  for hash delegate other records
proof (unfold_locales, goal_cases)
  case (1 request R reply R1)
  then show ?case using recorder_appends [OF 1(1)] by (auto simp: recorded_so_far_def)
next
  case (2 R S request reply R1 response)
  then have mode: "rr_mode R = RECORD_MODE" by (simp add: replays_def)
  obtain row where r: "rr_records R1 = rr_records R @ [row]" "rc_input_hash row = hash request"
    "reply = Instance (rc_response row)" "rr_mode R1 = RECORD_MODE"
    using 2(1) record_step [OF _ mode 2(2,3)] by blast
  obtain rest where "records = (rr_records R @ [row]) @ rest" using 2(4) r(1) by (auto simp: recorded_so_far_def)
  then have next_record: "length (rr_records R) < length records" "records ! length (rr_records R) = row" by simp_all
  have "recorder_decide hash other request S = (reply, S\<lparr>rr_index := rr_index S + 1\<rparr>)"
    using 2(1) next_record r(2,3) by (simp add: recorder_decide_def replay_decide_def replays_def Let_def)
  then show ?case using 2(1) r by (intro exI [of _ "S\<lparr>rr_index := rr_index S + 1\<rparr>"]) (simp add: replays_def)
qed

end
