(* ===== verification/Hist_Sample.thy ===== *)
theory Hist_Sample
  imports Hist_Replay
begin

text \<open>
  A run of two events, evaluated once for the witnesses: at its first close the provider buys
  Bitcoin with what the reserve leaves, and the last close is the parameter of the data.
\<close>

section \<open>Data\<close>

definition bar :: "string \<Rightarrow> int \<Rightarrow> decimal \<Rightarrow> decimal \<Rightarrow> candle" where
  "bar symbol i open_price close_price =
     \<lparr>cn_symbol = symbol, cn_open_time = 300000000 * i, cn_close_time = 300000000 * i + 299999999,
      cn_available_at = 300000000 * i + 299999999, cn_open = open_price, cn_high = max open_price close_price,
      cn_low = min open_price close_price, cn_close = close_price, cn_volume = 1, cn_quote_volume = 1, cn_trades = 1,
      cn_minutes = 5\<rparr>"

definition sample_candles :: "decimal \<Rightarrow> candle list" where
  "sample_candles p =
     [bar ''BTC'' 2 20 20, bar ''ETH'' 2 10 10, bar ''SHIB'' 2 1 1, bar ''BNB'' 2 5 5, bar ''BTC'' 3 20 p]"

definition history_config :: sim_config where
  "history_config =
     \<lparr>sc_initial = 80, sc_max_exposure = 75 / 100, sc_reserve_ratio = 25 / 100, sc_costs = free_costs, sc_margin = 1 / 1000,
      sc_seed = 1, sc_policy_version = ''fixture-v1'', sc_run_type = ''LAB_REPLAY''\<rparr>"

definition sample_hashes :: sim_hashes where
  "sample_hashes = \<lparr>hs_dataset = \<lambda>_. ''D'', hs_policy = \<lambda>_ _. ''P'', hs_run_id = \<lambda>_ _. ''R'', hs_request = \<lambda>_. ''H''\<rparr>"

definition buy_bitcoin :: decision_response where
  "buy_bitcoin = (hold_response ''buy'')\<lparr>dn_action := BUY_FROM_USDT, dn_to := Some ''BTC'', dn_allocation := 100\<rparr>"

definition price_history :: "decimal \<Rightarrow> sim_engine" where
  "price_history p =
     \<lparr>se_candles = sample_candles p, se_market = new_market (sample_candles p), se_config = history_config, se_complementary = None\<rparr>"

definition sample_recorder :: "fixture_provider recorder" where
  "sample_recorder = \<lparr>rr_mode = RECORD_MODE, rr_delegate = Some (new_fixture [buy_bitcoin]), rr_records = [], rr_index = 0\<rparr>"

definition flat_view :: portfolio_view where
  "flat_view = \<lparr>pv_usdt = 80, pv_symbol = None, pv_quantity = 0, pv_equity = 80, pv_realized = 0, pv_unrealized = 0, pv_fees = 0,
     pv_drawdown = 0\<rparr>"

definition bitcoin_fill :: spot_fill where
  "bitcoin_fill = \<lparr>sf_time = 900000000, sf_symbol = ''BTC'', sf_side = ''BUY'', sf_price = 20, sf_quantity = 3,
     sf_quote_value = 60, sf_fee = 0, sf_spread_cost = 0, sf_slippage_cost = 0, sf_realized = 0\<rparr>"

definition invested :: "decimal \<Rightarrow> spot_portfolio" where
  "invested peak = fresh_portfolio\<lparr>sp_state := \<lparr>pt_usdt = 20, pt_symbol = Some ''BTC'', pt_quantity = 3, pt_average_cost = 20, pt_fees = 0,
     pt_realized = 0, pt_peak = peak, pt_drawdown = 0\<rparr>\<rparr>"

definition invested_view :: "decimal \<Rightarrow> portfolio_view" where
  "invested_view p = \<lparr>pv_usdt = 20, pv_symbol = Some ''BTC'', pv_quantity = 3, pv_equity = 20 + 3 * p, pv_realized = 0, pv_unrealized = 3 * (p - 20), pv_fees = 0,
     pv_drawdown = 0\<rparr>"

definition sample_context :: "decimal \<Rightarrow> (string \<times> (nat \<times> candle list) list) list" where
  "sample_context p =
     (case traverse (symbol_context (new_market (sample_candles p)) 900000000 899999999) (market_symbols (new_market (sample_candles p))) of
        Inl e \<Rightarrow> [] | Inr symbols \<Rightarrow> symbols)"

definition sample_request :: "decimal \<Rightarrow> decision_request" where
  "sample_request p = request_of (price_history p) 900000000 899999999 (sample_context p) flat_view"

definition sample_record :: "decimal \<Rightarrow> decision_record" where
  "sample_record p = \<lparr>rc_input_hash = ''H'', rc_payload = sample_request p, rc_raw = Instance buy_bitcoin, rc_response = buy_bitcoin,
     rc_replayed = False\<rparr>"

definition used_recorder :: "decimal \<Rightarrow> fixture_provider recorder" where
  "used_recorder p = \<lparr>rr_mode = RECORD_MODE, rr_delegate = Some \<lparr>fx_decisions = [buy_bitcoin], fx_index = 1\<rparr>, rr_records = [sample_record p],
     rr_index = 0\<rparr>"

definition sample_decision :: pending_decision where
  "sample_decision = \<lparr>pd_response = buy_bitcoin, pd_execute_at = 900000000, pd_index = 0\<rparr>"

definition bitcoin_entry :: "decimal \<Rightarrow> decision_entry" where
  "bitcoin_entry p = \<lparr>de_time = 900000000, de_until = 899999999, de_provider = ''record'', de_input_hash = ''H'', de_request = sample_request p,
     de_raw = Instance buy_bitcoin, de_response = buy_bitcoin\<rparr>"

definition sample_middle :: "decimal \<Rightarrow> fixture_provider recorder engine_run" where
  "sample_middle p =
     \<lparr>er_portfolio = fresh_portfolio, er_provider = used_recorder p, er_pending = Some sample_decision,
      er_marks = [(''BNB'', 5), (''BTC'', 20), (''ETH'', 10), (''SHIB'', 1)], er_decisions = [bitcoin_entry p], er_orders = [], er_fills = [],
      er_equity = [(899999999, flat_view)], er_failures = []\<rparr>"

definition sample_end :: "decimal \<Rightarrow> fixture_provider recorder engine_run" where
  "sample_end p =
     \<lparr>er_portfolio = invested (max 80 (20 + 3 * p)), er_provider = used_recorder p, er_pending = None,
      er_marks = [(''BNB'', 5), (''BTC'', p), (''ETH'', 10), (''SHIB'', 1)], er_decisions = [bitcoin_entry p],
      er_orders = [order_of sample_decision FILLED_ORDER (Inl ''buy'')], er_fills = [bitcoin_fill],
      er_equity = [(899999999, flat_view), (1199999999, invested_view p)], er_failures = []\<rparr>"

abbreviation sample_provider :: "fixture_provider recorder decision_provider" where
  "sample_provider \<equiv> recorder_decide (hs_request sample_hashes) fixture_decide"

section \<open>Its evaluation\<close>

lemma sample_arith: "dadd 80 0 = 80" "ddiv (dsub 80 80) 80 = 0"
  by code_simp+

lemma flat_snapshot: "portfolio_snapshot d fresh_portfolio = Return flat_view fresh_portfolio"
  by (simp add: portfolio_snapshot_def raising_def portfolio_equity_def named_def fresh_portfolio_def flat_view_def Let_def sample_arith)

lemma sample_buy: "portfolio_buy ''BTC'' 20 100 900000000 free_costs [(''BTC'', 20)] 0 fresh_portfolio = Return bitcoin_fill (invested 80)"
  by code_simp

lemma invested_snapshot:
  "p \<in> {20, 40} \<Longrightarrow> portfolio_snapshot [(''BNB'', 5), (''BTC'', p), (''ETH'', 10), (''SHIB'', 1)] (invested 80) =
     Return (invested_view p) (invested (max 80 (20 + 3 * p)))"
proof -
  have "portfolio_snapshot [(''BNB'', 5), (''BTC'', 20), (''ETH'', 10), (''SHIB'', 1)] (invested 80) =
     Return (invested_view 20) (invested (max 80 (20 + 3 * 20)))"
    by code_simp
  moreover have "portfolio_snapshot [(''BNB'', 5), (''BTC'', 40), (''ETH'', 10), (''SHIB'', 1)] (invested 80) =
     Return (invested_view 40) (invested (max 80 (20 + 3 * 40)))"
    by code_simp
  ultimately show "p \<in> {20, 40} \<Longrightarrow> ?thesis" by blast
qed

lemma first_group:
  "sort_key cn_symbol (get_or (group_by cn_open_time (sample_candles p)) 600000000 []) =
     [bar ''BNB'' 2 5 5, bar ''BTC'' 2 20 20, bar ''ETH'' 2 10 10, bar ''SHIB'' 2 1 1]"
proof -
  have "sort_key cn_symbol [bar ''BTC'' 2 20 20, bar ''ETH'' 2 10 10, bar ''SHIB'' 2 1 1, bar ''BNB'' 2 5 5] =
     [bar ''BNB'' 2 5 5, bar ''BTC'' 2 20 20, bar ''ETH'' 2 10 10, bar ''SHIB'' 2 1 1]"
    by code_simp
  then show ?thesis by (simp add: group_by_get sample_candles_def bar_def)
qed

lemma last_group: "sort_key cn_symbol (get_or (group_by cn_open_time (sample_candles p)) 900000000 []) = [bar ''BTC'' 3 20 p]"
  by (simp add: group_by_get sample_candles_def bar_def)

lemma sample_times: "event_times (price_history p) = [600000000, 900000000]"
  by (simp add: event_times_def price_history_def sample_candles_def bar_def)

lemma sample_symbols:
  assumes "p \<in> {20, 40}"
  shows "traverse (symbol_context (new_market (sample_candles p)) 900000000 899999999) (market_symbols (new_market (sample_candles p))) =
     Inr (sample_context p)" (is "?m p = _")
proof -
  have "\<not> isl (?m 20)" by code_simp
  moreover have "\<not> isl (?m 40)" by code_simp
  ultimately show ?thesis using assms by (cases "?m p") (auto simp: sample_context_def)
qed

lemma step_quiet:
  assumes "sort_key cn_symbol (get_or grouped t []) = current" "execute_due (se_config EN) t current E = Return () E1"
    and "mark_to_close current E1 = E2" "portfolio_snapshot (er_marks E2) (er_portfolio E2) = Return view P"
    and "E3 = record_equity (close_of current) view (E2\<lparr>er_portfolio := P\<rparr>)"
  shows "history_step H name decide EN grouped t E =
     (if \<not> decision_due (close_of current + 1) then Return () E3 else engine_decide H name decide EN (close_of current) E3)"
  using assms(2,4,5) unfolding history_step_def Let_def assms(1)
  by (simp only: and_then.simps assms(3) on_portfolio_def outcome.case)

lemma first_step:
  assumes "p \<in> {20, 40}"
  shows "step_of sample_hashes ''record'' sample_provider (price_history p) 600000000 (new_run fresh_portfolio sample_recorder) =
     Return () (sample_middle p)"
proof -
  let ?current = "[bar ''BNB'' 2 5 5, bar ''BTC'' 2 20 20, bar ''ETH'' 2 10 10, bar ''SHIB'' 2 1 1]"
  let ?E = "new_run fresh_portfolio sample_recorder"
  let ?E2 = "?E\<lparr>er_marks := [(''BNB'', 5), (''BTC'', 20), (''ETH'', 10), (''SHIB'', 1)]\<rparr>"
  let ?E3 = "?E2\<lparr>er_equity := [(899999999, flat_view)]\<rparr>"
  have close: "close_of ?current = 899999999" by (simp add: close_of_def bar_def)
  have due: "decision_due 900000000" by (simp add: decision_due_def)
  have mark: "mark_to_close ?current ?E = ?E2" by (simp add: mark_to_close_def bar_def new_run_def dict_set_def)
  have group: "sort_key cn_symbol (get_or (group_by cn_open_time (se_candles (price_history p))) 600000000 []) = ?current"
    by (simp add: price_history_def first_group)
  have "step_of sample_hashes ''record'' sample_provider (price_history p) 600000000 ?E =
      engine_decide sample_hashes ''record'' sample_provider (price_history p) 899999999 ?E3"
    by (subst step_quiet [OF group _ mark, where view = flat_view and P = fresh_portfolio and ?E3.0 = ?E3])
      (simp_all add: execute_due_def new_run_def flat_snapshot record_equity_def close due)
  also have "\<dots> = Return () (sample_middle p)"
  proof -
    have request: "build_request (price_history p) (899999999 + 1) 899999999 ?E3 = Return (sample_request p) ?E3"
      using sample_symbols [OF assms]
      by (simp add: build_request_def price_history_def new_run_def flat_snapshot check_request_def sample_request_def request_of_def)
    have answer: "sample_provider (sample_request p) sample_recorder = (Instance buy_bitcoin, used_recorder p)"
      by (simp add: recorder_decide_def sample_recorder_def fixture_decide_def new_fixture_def recorded_answer_def parse_fields_def
          check_response_def buy_bitcoin_def hold_response_def named_def used_recorder_def sample_record_def sample_hashes_def)
    have facts: "rq_time (sample_request p) = 900000000" "rq_until (sample_request p) = 899999999" "hs_request sample_hashes r = ''H''" for r
      by (simp_all add: sample_request_def request_of_def sample_hashes_def)
    show ?thesis
      unfolding engine_decide_def request and_then.simps engine_ask_def
      by (simp add: new_run_def answer raising_def engine_answer_def decided_def sample_middle_def bitcoin_entry_def sample_decision_def facts)
  qed
  finally show ?thesis .
qed

lemma last_step:
  assumes "p \<in> {20, 40}"
  shows "step_of sample_hashes ''record'' sample_provider (price_history p) 900000000 (sample_middle p) = Return () (sample_end p)"
proof -
  let ?current = "[bar ''BTC'' 3 20 p]"
  let ?E1 = "(sample_middle p)\<lparr>er_portfolio := invested 80, er_fills := [bitcoin_fill],
      er_orders := [order_of sample_decision FILLED_ORDER (Inl ''buy'')], er_pending := None\<rparr>"
  let ?E2 = "?E1\<lparr>er_marks := [(''BNB'', 5), (''BTC'', p), (''ETH'', 10), (''SHIB'', 1)]\<rparr>"
  have close: "close_of ?current = 1199999999" by (simp add: close_of_def bar_def)
  have quiet: "\<not> decision_due (close_of ?current + 1)" by (simp add: close decision_due_def)
  have group: "sort_key cn_symbol (get_or (group_by cn_open_time (se_candles (price_history p))) 900000000 []) = ?current"
    by (simp add: price_history_def last_group)
  have mark: "mark_to_close ?current ?E1 = ?E2" by (simp add: mark_to_close_def bar_def sample_middle_def dict_set_def)
  have action: "execute_action history_config sample_decision [(''BTC'', 20)] fresh_portfolio = Return ([bitcoin_fill], []) (invested 80)"
    using sample_buy by (simp add: execute_action_def sample_decision_def buy_bitcoin_def hold_response_def price_in_def history_config_def returning_def)
  have r: "er_pending (sample_middle p) = Some sample_decision" "pd_execute_at sample_decision = 900000000"
    "dn_action (pd_response sample_decision) = BUY_FROM_USDT" "dn_summary (pd_response sample_decision) = ''buy''"
    by (simp_all add: sample_middle_def sample_decision_def buy_bitcoin_def hold_response_def)
  have exec: "engine_execute history_config sample_decision [(''BTC'', 20)] (sample_middle p) =
      Return () (?E1\<lparr>er_pending := Some sample_decision\<rparr>)"
    using action by (simp add: engine_execute_def Let_def r) (simp add: sample_middle_def r)
  have due: "execute_due (se_config (price_history p)) 900000000 ?current (sample_middle p) = Return () ?E1"
    by (simp add: execute_due_def price_history_def exec bar_def r)
  show ?thesis
    by (subst step_quiet [OF group due mark, where view = "invested_view p" and P = "invested (max 80 (20 + 3 * p))" and ?E3.0 = "sample_end p"])
      (use quiet invested_snapshot [OF assms] in \<open>simp_all add: sample_middle_def record_equity_def sample_end_def close\<close>)
qed

lemma sample_loop:
  assumes "p \<in> {20, 40}"
  shows "event_loop_of sample_hashes ''record'' sample_provider (price_history p) (new_run fresh_portfolio sample_recorder) =
     Return () (sample_end p)"
  by (simp add: event_loop_run sample_times first_step [OF assms] last_step [OF assms] returning_def)

end
