(* ===== verification/Hist_Facts.thy ===== *)
theory Hist_Facts
  imports Hist_Sample
begin

text \<open>
  What a run of the historical simulator promises: decisions do not see the future, the portfolio
  stays sound and is what the fills say, and a recorded run can be replayed. Three lemmas record
  where the code falls short.
\<close>

section \<open>Runs of an engine\<close>

lemma run_parts:
  assumes "engine_run_all H name decide EN p = Inr (report, E)"
  obtains P where "new_portfolio (sc_initial (se_config EN)) (sc_max_exposure (se_config EN)) (sc_reserve_ratio (se_config EN)) = Inr P"
    "event_loop_of H name decide EN (new_run P p) = Return () E"
    "report = engine_report H EN (if er_equity E = [] then None else Some (case metrics_of (se_config EN) E of Inr m \<Rightarrow> m | Inl _ \<Rightarrow> undefined))"
    "er_equity E = [] \<or> (\<exists>m. metrics_of (se_config EN) E = Inr m)"
proof -
  obtain P where P: "new_portfolio (sc_initial (se_config EN)) (sc_max_exposure (se_config EN)) (sc_reserve_ratio (se_config EN)) = Inr P"
    and rest: "(case event_loop_of H name decide EN (new_run P p) of
          Raise e E \<Rightarrow> Inl e
        | Return _ E \<Rightarrow>
            (if er_equity E = [] then Inr (engine_report H EN None, E)
             else on_ok (metrics_of (se_config EN) E) (\<lambda>metrics. Inr (engine_report H EN (Some metrics), E)))) = Inr (report, E)"
    using assms unfolding engine_run_all_def Let_def on_ok_Inr by blast
  show thesis
  proof (cases "event_loop_of H name decide EN (new_run P p)")
    case (Return u E')
    then show thesis using P rest that by (auto simp: on_ok_Inr split: if_splits)
  qed (use rest in simp)
qed

lemma checked_groups:
  assumes "\<forall>c \<in> set (se_candles EN). check_candle c = Inr ()"
  shows "fair_groups (group_by cn_open_time (se_candles EN))"
  using assms checked_candle unfolding fair_groups_def group_by_get by auto

lemma new_run_sound: "new_portfolio c m r = Inr P \<Longrightarrow> sound_run (new_run P p)"
  by (simp add: sound_run_def new_run_def new_portfolio_sound)

lemma new_run_accounted: "new_portfolio c m r = Inr P \<Longrightarrow> accounted (c, 0, 0) (new_run P p)"
  by (auto simp: accounted_def new_run_def money_def money_after_def sale_results_def new_portfolio_def split: if_splits)

lemma metrics_rebase: "metrics_of config (rebase q E) = metrics_of config E"
  by (simp add: metrics_of_def)

section \<open>The sample run\<close>

lemma sample_checked: "\<forall>c \<in> set (sample_candles p). check_candle c = Inr ()" if "p \<in> {20, 40}"
  using that by (auto simp: sample_candles_def bar_def check_candle_def)

lemma sample_proper: "p \<in> {20, 40} \<Longrightarrow> new_engine (sample_candles p) history_config None = Inr (price_history p)"
proof -
  have "validate_candle_sequence (sample_candles 20) = Inr []" "length (market_symbols (new_market (sample_candles 20))) = 4"
    "validate_candle_sequence (sample_candles 40) = Inr []" "length (market_symbols (new_market (sample_candles 40))) = 4"
    by code_simp+
  then show "p \<in> {20, 40} \<Longrightarrow> ?thesis" by (auto simp: new_engine_def price_history_def)
qed

lemma sample_fields: "se_candles (price_history p) = sample_candles p" "se_config (price_history p) = history_config"
  by (simp_all add: price_history_def)

lemma sample_portfolio:
  "new_portfolio (sc_initial (se_config (price_history p))) (sc_max_exposure (se_config (price_history p)))
     (sc_reserve_ratio (se_config (price_history p))) = Inr fresh_portfolio"
proof -
  have "new_portfolio 80 (75 / 100) (25 / 100) = Inr fresh_portfolio" by code_simp
  then show ?thesis by (simp add: price_history_def history_config_def)
qed

lemma sample_costs: "costs_ok (sc_costs (se_config (price_history p)))"
  by (simp add: price_history_def history_config_def costs_ok_def free_costs_def ddiv_def)

lemma sample_returns:
  assumes "p \<in> {20, 40}"
  obtains report where "engine_run_all sample_hashes ''record'' sample_provider (price_history p) sample_recorder = Inr (report, sample_end p)"
proof -
  have "of_nat (length (exposures_of (map snd (er_equity (sample_end p))))) \<noteq> (0 :: decimal)"
    using assms by (auto simp: exposures_of_def sample_end_def flat_view_def invested_view_def)
  then obtain m where "metrics_of history_config (sample_end p) = Inr m"
    unfolding metrics_of_def Let_def dquot_def by (simp only: if_False on_ok_simps)
  then show thesis
    using that sample_portfolio [of p] sample_loop [OF assms] by (simp add: engine_run_all_def sample_fields sample_end_def)
qed

section \<open>No look-ahead\<close>

text \<open>
  C8: decisions ignore the future. Two runs whose candles were checked and agree up to a time, and
  whose complementary records do, make the same decisions from the same requests, place the same
  orders, have the same fills and report the same equity up to that time, whatever the data say
  afterwards.
\<close>

theorem decisions_ignore_the_future:
  assumes "new_engine cs config complementary = Inr EN" and "new_engine ds config complementary' = Inr EN'"
    and "\<forall>c \<in> set cs \<union> set ds. check_candle c = Inr ()"
    and "same_past T B EN EN'"
    and "engine_run_all H name decide EN p = Inr (report, E)" and "engine_run_all H name decide EN' p = Inr (report', E')"
  shows "filter (\<lambda>d. de_until d \<le> T) (er_decisions E) = filter (\<lambda>d. de_until d \<le> T) (er_decisions E') \<and>
     filter (\<lambda>oe. oe_time oe \<le> T) (er_orders E) = filter (\<lambda>oe. oe_time oe \<le> T) (er_orders E') \<and>
     filter (\<lambda>f. sf_time f \<le> T) (er_fills E) = filter (\<lambda>f. sf_time f \<le> T) (er_fills E') \<and>
     filter (\<lambda>row. fst row \<le> T) (er_equity E) = filter (\<lambda>row. fst row \<le> T) (er_equity E')"
proof -
  have "proper_engine EN" "proper_engine EN'"
    using new_engine_fields [OF assms(1)] new_engine_fields [OF assms(2)] assms(3) by (auto simp: proper_engine_def)
  note agree = loops_agree [OF assms(4) this]
  obtain P where P: "new_portfolio (sc_initial (se_config EN)) (sc_max_exposure (se_config EN)) (sc_reserve_ratio (se_config EN)) = Inr P"
    "event_loop_of H name decide EN (new_run P p) = Return () E" using assms(5) by (rule run_parts)
  obtain P' where P': "new_portfolio (sc_initial (se_config EN')) (sc_max_exposure (se_config EN')) (sc_reserve_ratio (se_config EN')) = Inr P'"
    "event_loop_of H name decide EN' (new_run P' p) = Return () E'" using assms(6) by (rule run_parts)
  have "P = P'" using P(1) P'(1) assms(4) by (simp add: same_past_def)
  then have "past_of T E = past_of T E'" using agree P(2) P'(2) by blast
  then show ?thesis by (simp add: past_of_def)
qed

text \<open>The last close changes from 20 to 40: the decision before it is the same.\<close>

theorem decisions_ignore_the_future_witness:
  "er_decisions (sample_end 20) = er_decisions (sample_end 40) \<and> er_equity (sample_end 20) \<noteq> er_equity (sample_end 40)"
proof -
  have symbols: "market_symbols (new_market (sample_candles 20)) = market_symbols (new_market (sample_candles 40))" by code_simp
  have past: "same_past 899999999 899999999 (price_history 20) (price_history 40)"
    using symbols by (auto simp: same_past_def price_history_def same_candles_def same_complementary_def sample_candles_def bar_def)
  obtain r r' where runs:
    "engine_run_all sample_hashes ''record'' sample_provider (price_history 20) sample_recorder = Inr (r, sample_end 20)"
    "engine_run_all sample_hashes ''record'' sample_provider (price_history 40) sample_recorder = Inr (r', sample_end 40)"
    by (rule sample_returns [of 20, simplified], rule sample_returns [of 40, simplified])
  have "filter (\<lambda>d. de_until d \<le> 899999999) (er_decisions (sample_end 20)) = filter (\<lambda>d. de_until d \<le> 899999999) (er_decisions (sample_end 40))"
    using decisions_ignore_the_future [OF sample_proper sample_proper _ past runs] sample_checked [of 20] sample_checked [of 40] by auto
  then show ?thesis by (simp add: sample_end_def bitcoin_entry_def invested_view_def)
qed

section \<open>The portfolio of a run\<close>

text \<open>
  C17: a simulated portfolio is sound. Whatever a provider answers and however the run ends, by
  returning or by an exception, a run over checked candles with admissible costs never spends more
  cash than there is or sells what it does not hold: its cash and quantity are not negative, it
  names an asset exactly when it holds some, fees do not shrink, and so says every point of the
  recorded equity curve.
\<close>

theorem simulated_portfolio_is_sound:
  assumes "new_portfolio (sc_initial (se_config EN)) (sc_max_exposure (se_config EN)) (sc_reserve_ratio (se_config EN)) = Inr P"
    and "costs_ok (sc_costs (se_config EN))" and "\<forall>c \<in> set (se_candles EN). check_candle c = Inr ()"
    and "E = post_state (event_loop_of H name decide EN (new_run P p))" and "state = sp_state (er_portfolio E)"
  shows "0 \<le> pt_usdt state \<and> 0 \<le> pt_quantity state \<and> (pt_symbol state = None \<longleftrightarrow> pt_quantity state = 0) \<and> 0 \<le> pt_fees state \<and>
     (\<forall>row \<in> set (er_equity E). sound_view (snd row))"
proof -
  have "sound_run (post_state (run_ops (step_of H name decide EN) (event_times EN) (new_run P p)))"
    using portfolio_steps.run_post [of EN "group_by cn_open_time (se_candles EN)" "new_run P p" H name decide "event_times EN"]
      new_run_sound [OF assms(1), of p] assms(2) checked_groups [OF assms(3)] by blast
  then have "sound_run E" unfolding assms(4) event_loop_run
    by (cases "run_ops (step_of H name decide EN) (event_times EN) (new_run P p)") (simp_all add: returning_def)
  then show ?thesis using assms(5) by (simp add: sound_run_def sound_state_def assert_invariants_def)
qed

theorem simulated_portfolio_is_sound_witness:
  "sound_view (invested_view 40) \<and> pt_usdt (sp_state (er_portfolio (sample_end 40))) = 20"
proof -
  have "sound_view (snd row)" if "row \<in> set (er_equity (sample_end 40))" for row
    using simulated_portfolio_is_sound [OF sample_portfolio [of 40] sample_costs _ refl refl, of sample_hashes "''record''" sample_provider sample_recorder]
      sample_checked [of 40] that by (simp add: sample_loop sample_fields)
  from this [of "(1199999999, invested_view 40)"] show ?thesis by (simp add: sample_end_def invested_def fresh_portfolio_def)
qed

text \<open>
  C14: the fills explain the account. When a run over checked candles returns and none of its
  rotations was rejected for want of a price, the cash is the initial capital less the value and
  fee of every recorded purchase and plus the value less the fee of every recorded sale, in the
  order and with the rounding of the fills; the fees are the sum of theirs; and the realized profit
  is the sum of that of the sales.
\<close>

theorem fills_explain_the_account:
  assumes "engine_run_all H name decide EN p = Inr (report, E)"
    and "costs_ok (sc_costs (se_config EN))" and "\<forall>c \<in> set (se_candles EN). check_candle c = Inr ()"
    and "\<forall>oe \<in> set (er_orders E). \<not> (oe_action oe = ROTATE_ASSET \<and> oe_reason oe = Inr KeyError)"
    and "state = sp_state (er_portfolio E)"
  shows "pt_usdt state = foldl cash_after (sc_initial (se_config EN)) (er_fills E) \<and>
     pt_fees state = dsum (map sf_fee (er_fills E)) \<and> pt_realized state = dsum (sale_results (er_fills E))"
proof -
  let ?m = "(sc_initial (se_config EN), 0, 0)"
  obtain P where P: "new_portfolio (sc_initial (se_config EN)) (sc_max_exposure (se_config EN)) (sc_reserve_ratio (se_config EN)) = Inr P"
    "event_loop_of H name decide EN (new_run P p) = Return () E" using assms(1) by (rule run_parts)
  obtain rs where "run_ops (step_of H name decide EN) (event_times EN) (new_run P p) = Return rs E"
    using P(2) unfolding event_loop_run by auto
  then have "accounted ?m E"
    using accounted_steps.run_inv [OF _ \<open>run_ops _ _ _ = Return rs E\<close>, of ?m]
      new_run_sound [OF P(1), of p] new_run_accounted [OF P(1), of p] assms(2) checked_groups [OF assms(3)] by simp
  then have "money state = money_after ?m (er_fills E)"
    using assms(4,5) by (auto simp: accounted_def lost_sale_def)
  then show ?thesis by (simp add: money_def money_after_def dsum_def)
qed

theorem fills_explain_the_account_witness:
  "foldl cash_after 80 (er_fills (sample_end 40)) = 20 \<and> er_fills (sample_end 40) \<noteq> []"
proof -
  obtain r where r: "engine_run_all sample_hashes ''record'' sample_provider (price_history 40) sample_recorder = Inr (r, sample_end 40)"
    by (rule sample_returns [of 40, simplified])
  have "\<forall>oe \<in> set (er_orders (sample_end 40)). \<not> (oe_action oe = ROTATE_ASSET \<and> oe_reason oe = Inr KeyError)"
    by (simp add: sample_end_def order_of_def Let_def)
  from fills_explain_the_account [OF r sample_costs _ this refl] show ?thesis
    using sample_checked [of 40] by (simp add: sample_fields history_config_def sample_end_def invested_def fresh_portfolio_def)
qed

section \<open>Recording and replaying\<close>

text \<open>
  C15: a replay reproduces the recorded run. When a run whose provider records a delegate that does
  not raise returns, a second run over the same data whose provider replays those records returns
  the same report with the same decisions, orders, fills, equity curve, failures and portfolio,
  without a delegate.
\<close>

theorem replay_reproduces_run:
  assumes "\<And>request d e. fst (delegate request d) \<noteq> Failing e"
    and "new_recorder RECORD_MODE (Some d) [] = Inr R"
    and "engine_run_all H name (recorder_decide (hs_request H) delegate) EN R = Inr (report, E)"
    and "new_recorder REPLAY_MODE None (rr_records (er_provider E)) = Inr S"
  shows "\<exists>E'. engine_run_all H name (recorder_decide (hs_request H) other) EN S = Inr (report, E') \<and>
     er_decisions E' = er_decisions E \<and> er_orders E' = er_orders E \<and> er_fills E' = er_fills E \<and> er_equity E' = er_equity E \<and>
     er_failures E' = er_failures E \<and> er_portfolio E' = er_portfolio E"
proof -
  obtain P where P: "new_portfolio (sc_initial (se_config EN)) (sc_max_exposure (se_config EN)) (sc_reserve_ratio (se_config EN)) = Inr P"
    "event_loop_of H name (recorder_decide (hs_request H) delegate) EN (new_run P R) = Return () E"
    "report = engine_report H EN (if er_equity E = [] then None else Some (case metrics_of (se_config EN) E of Inr m \<Rightarrow> m | Inl _ \<Rightarrow> undefined))"
    "er_equity E = [] \<or> (\<exists>m. metrics_of (se_config EN) E = Inr m)" using assms(3) by (rule run_parts)
  obtain rs where run: "run_ops (step_of H name (recorder_decide (hs_request H) delegate) EN) (event_times EN) (new_run P R) = Return rs E"
    using P(2) unfolding event_loop_run by auto
  have good: "recorded_so_far (rr_records (er_provider E)) (er_provider E)" by (simp add: recorded_so_far_def)
  have "never_fails delegate \<and> replays (rr_records (er_provider E)) (er_provider (new_run P R)) S"
    using assms(1,2,4) by (auto simp: never_fails_def replays_def new_recorder_def new_run_def split: if_splits)
  from replayed.run_simulated(2) [OF run good this]
  obtain S' where "run_ops (step_of H name (recorder_decide (hs_request H) other) EN) (event_times EN) (rebase S (new_run P R)) =
      Return rs (rebase S' E)" by blast
  then have "event_loop_of H name (recorder_decide (hs_request H) other) EN (new_run P S) = Return () (rebase S' E)"
    unfolding event_loop_run by (simp add: rebase_def new_run_def returning_def)
  then have "engine_run_all H name (recorder_decide (hs_request H) other) EN S = Inr (report, rebase S' E)"
    using P by (auto simp: engine_run_all_def Let_def metrics_rebase)
  then show ?thesis by auto
qed

theorem replay_reproduces_run_witness:
  "\<exists>report E. engine_run_all sample_hashes ''record'' (recorder_decide (hs_request sample_hashes) fixture_decide) (price_history 40)
     \<lparr>rr_mode = REPLAY_MODE, rr_delegate = None, rr_records = [sample_record 40], rr_index = 0\<rparr> = Inr (report, E) \<and> er_fills E = [bitcoin_fill]"
proof -
  have total: "fst (fixture_decide request d) \<noteq> Failing e" for request d e by (simp add: fixture_decide_def)
  have R: "new_recorder RECORD_MODE (Some (new_fixture [buy_bitcoin])) [] = Inr sample_recorder"
    by (simp add: new_recorder_def sample_recorder_def)
  obtain report where r: "engine_run_all sample_hashes ''record'' sample_provider (price_history 40) sample_recorder = Inr (report, sample_end 40)"
    by (rule sample_returns [of 40, simplified])
  have S: "new_recorder REPLAY_MODE None (rr_records (er_provider (sample_end 40))) =
      Inr \<lparr>rr_mode = REPLAY_MODE, rr_delegate = None, rr_records = [sample_record 40], rr_index = 0\<rparr>"
    by (simp add: new_recorder_def sample_end_def used_recorder_def)
  from replay_reproduces_run [OF total R r S, of fixture_decide] show ?thesis by (auto simp: sample_end_def)
qed

section \<open>Where the code falls short\<close>

text \<open>
  The close of a candle of an archive in milliseconds ends in .999, and a decision is due a
  microsecond later only when the second is zero: no decision is ever due.
\<close>

lemma milliseconds_are_never_due:
  assumes "\<bar>ms\<bar> < 1000000000000000" "ms mod 60000 = 59999"
  shows "\<not> decision_due (epoch_to_utc ms + 1)"
proof -
  define k where "k = ms div 60000"
  have ms: "ms = 60000 * k + 59999" using mult_div_mod_eq [of 60000 ms] assms(2) by (simp add: k_def)
  have ms_parts: "1000000 * (ms div 1000) + 1000 * (ms mod 1000) = 1000 * ms" by presburger
  have "epoch_to_utc ms = 1000 * ms"
    using assms(1) ms_parts by (simp add: epoch_to_utc_def Let_def)
  then have "epoch_to_utc ms + 1 = 999001 + 1000000 * (60 * k + 59)" using ms by simp
  then have "(epoch_to_utc ms + 1) div 1000000 = 60 * k + 59" by simp
  then show ?thesis by (simp add: decision_due_def)
qed

text \<open>
  A rotation into an asset without a price sells first: the sale stays, but no fill records it and
  the order counts as rejected.
\<close>

lemma rotation_loses_its_sale:
  assumes "dn_action (pd_response d) = ROTATE_ASSET" "dn_from (pd_response d) = Some src" "dn_to (pd_response d) = Some tgt"
    and "dn_edge (pd_response d) = Some edge" "required_edge config < edge"
    and "price_in prices src = Inr p" "dict_get prices tgt = None"
    and "portfolio_sell src p (pd_execute_at d) (sc_costs config) (er_portfolio E) = Return f P"
  shows "engine_execute config d prices E = Return () (E\<lparr>er_portfolio := P, er_failures := er_failures E @ [KeyError],
     er_orders := er_orders E @ [order_of d REJECTED_ORDER (Inr KeyError)]\<rparr>)"
proof -
  have "price_in prices tgt = Inl KeyError" using assms(7) by (simp add: price_in_def)
  then have "execute_action config d prices (er_portfolio E) = Raise KeyError P"
    using assms by (simp add: execute_action_def Let_def portfolio_rotate_def raising_def)
  then show ?thesis using assms(1) by (simp add: engine_execute_def Let_def rejection_def)
qed

text \<open>
  A delegate that raises leaves no record, while the engine still decides to hold: a replay answers
  that request from the next record.
\<close>

lemma failure_is_not_recorded:
  assumes "rr_mode R = RECORD_MODE" "rr_delegate R = Some d" "delegate request d = (Failing (ValueError m), d')"
    and "recorder_decide hash delegate request R = (reply, R')"
  shows "engine_answer reply = Inr (hold_response ''invalid or unavailable provider response'')" "rr_records R' = rr_records R"
  using assms by (auto simp: recorder_decide_def engine_answer_def)

end
