(* ===== verification/Spec2Isabelle.thy ===== *)
theory Spec2Isabelle
  imports Causal_Queue_Facts Completion_Estimators M035_Ledger_Facts M035_Conservation
    M035_Allocator M035_Engine_Facts Multi_Stable_Ledger_Facts Multi_Stable_Cycles
    Multi_Stable_Routing_Facts Multi_Stable_Manager_Facts Multi_Venue_Progress Multi_Venue_Ledger
    M034_Allocation_Facts Passive_Sim_Facts Hist_Facts
begin

text \<open>
  A verification development for crypto-strategy-lab, a laboratory for trading strategies: it
  decides where scarce capital may go, accounts for every unit of it, estimates what a resting
  order can expect of the public queue in front of it, and simulates strategies on recorded
  markets. What it promises is causality (no decision sees the future), exact accounting, fail
  closed admission and losses only under an authorization. The theories model the code that
  carries these promises, under \<^verbatim>\<open>src/src/crypto_strategy_lab\<close>, as executable functions
  and prove the promises, or record where the code breaks one.

  \<^bold>\<open>The program and its parts.\<close>

  \<^item> The queue: \<^verbatim>\<open>microstructure/multi_stable_queue.py\<close> estimates how public trades consume the
    public depth and the own orders behind it, and learns completion probabilities from resolved
    outcomes. \<^verbatim>\<open>microstructure/multi_venue_queue.py\<close> keeps one such estimator per book and, where
    a venue shows single orders, a price-time queue.
  \<^item> The capital: \<^verbatim>\<open>microstructure/parallel_pair_capital_manager.py\<close> shares one ledger between two
    pair engines, whose orders stand in queues of the first kind;
    \<^verbatim>\<open>microstructure/multi_stable_ledger.py\<close> keeps several assets in economic slots, which
    \<^verbatim>\<open>multi_stable_routing.py\<close> moves along cycles of markets,
    \<^verbatim>\<open>adaptive_multi_stable_manager.py\<close> places into a grid of prices, and
    \<^verbatim>\<open>multi_venue_ledger.py\<close> keeps apart by venue.
  \<^item> The admission: \<^verbatim>\<open>microstructure/economic_eligibility.py\<close> answers whether a candidate may
    receive capital, from registries of fees, rules, marks and pairs; allocates the capital; and
    warrants exits at a loss, which the slot ledger settles.
  \<^item> The simulators: \<^verbatim>\<open>microstructure/execution.py\<close> serves a heap of market events, order arrivals,
    fill notices and cancels with their latencies; \<^verbatim>\<open>simulation/engine.py\<close> walks five-minute
    candles, asks a decision provider every quarter of an hour and executes its answer on a spot
    portfolio.

  \<^bold>\<open>Conventions.\<close>

  \<^item> A method that reads and writes its object is a function of the object's record. Its result is
    an \<open>outcome\<close>: \<open>Return\<close> a value or \<open>Raise\<close> an exception, both with the object as it is left, so
    what a failing call has already changed is visible. An expression that may raise is a sum
    \<open>py_error + 'a\<close>. \<open>py_error\<close> has the exception classes handlers of the code tell apart; a
    \<open>ValueError\<close> keeps its message or message code, without interpolated values.
  \<^item> A dictionary is the list of its items in insertion order (\<open>dict\<close>), a set of strings a HOL set.
    Sorting is \<open>sort_key\<close>, which is stable like Python's.
  \<^item> \<^verbatim>\<open>Decimal\<close> is a rational number with the rounding of its operators written out in Py_Decimal:
    half even to 28 significant digits, or 128 in the \<^verbatim>\<open>localcontext\<close> blocks; sums round at every
    addition. Only finite decimals are modelled, and exponents are not bounded. Theorems that need
    exact sums assume amounts on a grid of powers of ten that 28 digits can hold, or that the
    sums and products which the operation at hand forms from its arguments are exact.
  \<^item> Times are integers of microseconds, as in the code, or a \<^verbatim>\<open>datetime\<close> in UTC counted from the
    epoch. Python's integers are \<open>int\<close>, or \<open>nat\<close> where the code cannot make them negative.
  \<^item> A frozen data class is a record and its constructor check a function \<open>check_\<close> or \<open>valid_\<close> of it.
    Audit rows keep the values that the code turns into text.
  \<^item> What is not under \<^verbatim>\<open>src\<close> or is the caller's is a parameter: the SHA-256 fingerprints (\<open>digest\<close>,
    \<open>sim_hashes\<close>) and the decision provider, a function of the request and its own state. No
    property assumes anything of the fingerprints; the replay property assumes that the recorded
    provider does not raise, and its witness records the fixture provider.

  \<^bold>\<open>Theories.\<close>

  \<^item> Py_Prelude and Py_Decimal: exceptions, outcomes, dictionaries, comprehensions that may raise,
    runs of operations, decimals. The locales \<open>invariant_ops\<close>, \<open>robust_ops\<close> (the invariant also
    survives exceptions), \<open>atomic_ops\<close> (a raise changes nothing) and \<open>causal_ops\<close> (time order) are
    the contracts of a component's operations; every component interprets the ones it meets on its
    own step function and draws its run properties from them. \<open>decimal_context\<close> gives the sign and
    order laws of both precisions.
  \<^item> Causal_Queue (\<^verbatim>\<open>CausalQueueEstimator\<close>), with Causal_Queue_Inv and Causal_Queue_Facts: the
    invariant of the groups, conservation of traded quantity, priority. Completion_Estimators: the
    history of outcomes and the two estimators that may only use its prefix.
  \<^item> M035_Cycles, M035_Dust, M035_Ledger, M035_Allocator, M035_Engine: cycle attribution, residual
    lots, \<^verbatim>\<open>GlobalCapitalLedger\<close>, the allocator and \<^verbatim>\<open>PairEngine\<close>. The theories in _Inv and _Ops
    carry the invariants of ledger and engine through every operation, also when the calls of one
    engine are interleaved with any others on the shared ledger (\<open>exec_shared\<close>);
    M035_Conservation has the book value, the theories in _Facts the properties.
  \<^item> Multi_Stable_Models, Multi_Stable_Ledger, Multi_Stable_Routing, Multi_Stable_Cycles,
    Multi_Stable_Manager: data classes, \<^verbatim>\<open>SlotLedger\<close>, scores and route enumeration, \<^verbatim>\<open>CycleManager\<close>
    and the policy of the adaptive manager. Multi_Stable_Cycles traces a counted cycle to the
    fills of each of its legs. Multi_Stable_Ledger_Facts refines the slot ledger to a
    plain account per asset.
  \<^item> Multi_Venue_Models, Multi_Venue_Queue, Multi_Venue_Ledger: the venue data classes, the price-time
    queue and the portfolio of ledgers; Multi_Venue_Queue_Facts has the safety of the queue and
    Multi_Venue_Progress that a resting order is eventually filled.
  \<^item> M034_Policy, M034_Gate, M034_Allocation: registries and thresholds, the gate, and allocation,
    capital states and exits. M034_Gate_Facts states admissibility without the gate's loops and
    proves the gate equal to it; M034_Allocation_Facts has what an allocation guarantees and
    connects an exit to its settlement in the slot ledger.
  \<^item> Passive_Models and Passive_Sim: the event-driven simulator with its heap. Passive_Sim_Facts
    proves run properties through the locale \<open>event_loop\<close>: the account, the order quantities as sums
    of their fills, the evidence of fills; an inductive relation has the transitions of an order.
  \<^item> Hist_Models, Hist_Data, Hist_Portfolio, Hist_Engine: \<^verbatim>\<open>domain.py\<close>, the checks of
    \<^verbatim>\<open>data/binance.py\<close>, \<^verbatim>\<open>data/temporal.py\<close>, \<^verbatim>\<open>data/aggregation.py\<close>,
    \<^verbatim>\<open>simulation/portfolio.py\<close>, \<^verbatim>\<open>simulation/clock.py\<close>, \<^verbatim>\<open>decision/providers.py\<close> and
    \<^verbatim>\<open>simulation/engine.py\<close>. Hist_Engine_Inv carries the soundness of the portfolio and the account
    of its fills through a run, Hist_Causal compares two runs over data with a common past,
    Hist_Replay two providers that answer alike (locale \<open>provider_simulation\<close>), Hist_Sample
    evaluates one run, and Hist_Facts has the properties.
\<close>

text \<open>
  \<^bold>\<open>What is shown.\<close>

  \<^item> Money: the shared ledger's book value changes by realized profit and by nothing else; the slot
    ledger is an account of its postings; capital states add up to the capital; both simulators
    never overdraw, and the account of a simulated portfolio is what its fills say.
  \<^item> Losses: a cycle closes with a loss only under an authorization that was registered, in force,
    sufficient and unused, and an authorization of the exit engine was warranted by its rule.
  \<^item> Admission: the gate says eligible exactly for admissible candidates, always answers but for one
    arithmetic overflow, and only admissible candidates receive capital.
  \<^item> Queues: an own order fills only after the depth and the orders ahead of it, traded quantity is
    split without loss, an order in the price-time queue is filled once enough has been executed.
  \<^item> Causality: estimates ignore outcomes, and simulated decisions ignore data, of the future; fills
    are traced to a public print that came after the order; logs are in time order.
  \<^item> Failures: which calls leave everything unchanged when they raise, and as lemmas (not as
    properties) the calls that do not, and what a client sees of them. Invariants of the queues
    and of the cycle manager hold after exceptions too; the one of a pair engine is shown for runs
    that raise nothing.

  \<^bold>\<open>Termination.\<close> No definition uses fuel. The loop of the passive simulator ends by a multiset
  order on the entries of its heap, although handlers schedule further entries
  (\<open>event_loop_ends\<close> says it of the single steps); the loop of the candle engine ends with the
  events of its clock, the binary searches with the distance of their bounds, and all other
  recursion is structural.

  \<^bold>\<open>Limits of the model.\<close> Decimals beyond the exponent range, infinities and NaN are left out, and so
  are the text forms of decimals and times and the JSON payloads, which the model keeps as the
  values they stand for. Where Python iterates over a set its order is unspecified, and the model takes
  the order in which the elements were found. Strings are sequences of the first 256 characters, and trimming knows the white
  space among them. An attribute that the code reads and never changes after construction is a
  parameter of the functions that read it in a few places.

  \<^bold>\<open>Not modelled.\<close> The superseded grid strategies (\<^verbatim>\<open>zonal_ping_pong.py\<close> to
  \<^verbatim>\<open>hotline_first_reallocation.py\<close>), a chain of classes that override parts of each other's
  handlers and that the modelled managers replace; the serial replays and their acceleration, which
  compute in NumPy arrays; the backtests and the forward paper, which drive the modelled components
  from files and sockets; campaign orchestration, capture, archives, dashboards, persistence,
  machine learning and reports, which are input and output or third-party numerics.
  \<^verbatim>\<open>SlotLedger.turnover_metrics\<close> and \<^verbatim>\<open>environment_snapshot\<close> only report.
\<close>

end
